(* ===== verification/Prelude.thy ===== *)
theory Prelude
  imports Main "HOL-Library.Word"
begin

text \<open>
  Shared vocabulary of the development: bytes and byte lists, little- and big-endian
  integers, C integer conversions, bounded memory writes and counted loops.  Every
  component theory imports this one.  The collections \<open>cint_simps\<close> and \<open>mem_simps\<close>
  gather the rewrite rules the component proofs share.
\<close>

unbundle bit_operations_syntax

named_theorems cint_simps \<open>conversions between C integer types\<close>
named_theorems mem_simps \<open>reads and writes of bounded memory\<close>

type_synonym byte = "8 word"

section \<open>C integers\<close>

text \<open>Conversion of a mathematical integer to a 32-bit unsigned, signed, and 16-bit signed value.\<close>

definition u32 :: "int \<Rightarrow> int" where
  "u32 x = x mod 2 ^ 32"

definition s32 :: "int \<Rightarrow> int" where
  "s32 x = (x + 2 ^ 31) mod 2 ^ 32 - 2 ^ 31"

definition in_s32 :: "int \<Rightarrow> bool" where
  "in_s32 x \<longleftrightarrow> - (2 ^ 31) \<le> x \<and> x < 2 ^ 31"

lemma s32_id [cint_simps]: "in_s32 x \<Longrightarrow> s32 x = x"
  by (simp add: s32_def in_s32_def)

lemma in_s32_s32 [simp]: "in_s32 (s32 x)"
  using pos_mod_bound [of "2 ^ 32 :: int" "x + 2 ^ 31"]
  by (simp add: s32_def in_s32_def)

lemma u32_id [cint_simps]: "0 \<le> x \<Longrightarrow> x < 2 ^ 32 \<Longrightarrow> u32 x = x"
  by (simp add: u32_def)

lemma s32_u32 [cint_simps]: "s32 (u32 x) = s32 x"
  by (simp add: s32_def u32_def mod_add_left_eq)

lemma u32_s32 [cint_simps]: "u32 (s32 x) = u32 x"
proof -
  have "u32 (s32 x) = ((x + 2 ^ 31) mod 2 ^ 32 - 2 ^ 31) mod 2 ^ 32" by (simp add: u32_def s32_def)
  also have "\<dots> = (x + 2 ^ 31 - 2 ^ 31) mod 2 ^ 32" by (rule mod_diff_left_eq)
  finally show ?thesis by (simp add: u32_def)
qed

lemma s32_s32_add [cint_simps]: "s32 (s32 x + s32 y) = s32 (x + y)"
proof -
  have "u32 (s32 x + s32 y) = u32 (u32 (s32 x) + u32 (s32 y))" by (simp add: u32_def mod_add_eq)
  also have "\<dots> = u32 (x + y)" by (simp only: u32_s32) (simp add: u32_def mod_add_eq)
  finally show ?thesis using s32_u32 by metis
qed

text \<open>Division and remainder of C: truncation towards zero.\<close>

definition cdiv :: "int \<Rightarrow> int \<Rightarrow> int" where
  "cdiv a b = sgn a * sgn b * (\<bar>a\<bar> div \<bar>b\<bar>)"

definition cmod :: "int \<Rightarrow> int \<Rightarrow> int" where
  "cmod a b = a - b * cdiv a b"

lemma cdiv_nonneg [cint_simps]: "0 \<le> a \<Longrightarrow> 0 < b \<Longrightarrow> cdiv a b = a div b"
  by (cases "a = 0") (simp_all add: cdiv_def)

lemma cmod_nonneg [cint_simps]: "0 \<le> a \<Longrightarrow> 0 < b \<Longrightarrow> cmod a b = a mod b"
  by (simp add: cmod_def cdiv_nonneg minus_mult_div_eq_mod)

section \<open>Integers in memory\<close>

text \<open>
  \<open>le_nat\<close> reads a byte list as a little-endian number (what \<open>memcpy\<close> into an integer
  does on the Raspberry Pi and on x86); \<open>le_enc k n\<close> writes the low \<open>k\<close> bytes of \<open>n\<close>.
  The JPEG stream is big-endian: \<open>be_nat\<close> and \<open>be_enc\<close>.
\<close>

fun le_nat :: "byte list \<Rightarrow> nat" where
  "le_nat [] = 0"
| "le_nat (b # bs) = unat b + 256 * le_nat bs"

fun le_enc :: "nat \<Rightarrow> nat \<Rightarrow> byte list" where
  "le_enc 0 n = []"
| "le_enc (Suc k) n = of_nat n # le_enc k (n div 256)"

definition be_nat :: "byte list \<Rightarrow> nat" where
  "be_nat bs = le_nat (rev bs)"

definition be_enc :: "nat \<Rightarrow> nat \<Rightarrow> byte list" where
  "be_enc k n = rev (le_enc k n)"

lemma length_le_enc [simp]: "length (le_enc k n) = k"
  by (induction k arbitrary: n) auto

text \<open>The four bytes written out, for evaluation on a literal.\<close>

lemma le_enc_4:
  "le_enc 4 n = [of_nat n, of_nat (n div 256), of_nat (n div 256 div 256), of_nat (n div 256 div 256 div 256)]"
proof -
  have "(4 :: nat) = Suc (Suc (Suc (Suc 0)))" by simp
  then show ?thesis by (simp only: le_enc.simps)
qed

lemma length_be_enc [simp]: "length (be_enc k n) = k"
  by (simp add: be_enc_def)

lemma unat_of_nat_byte: "unat (of_nat n :: byte) = n mod 256"
  by (simp add: unat_of_nat)

lemma unat_byte_less [simp]: "unat (b :: byte) < 256"
  using unsigned_less [of b] by simp

lemma le_nat_le_enc: "le_nat (le_enc k n) = n mod 256 ^ k"
proof (induction k arbitrary: n)
  case 0
  then show ?case by simp
next
  case (Suc k)
  then show ?case
    by (simp add: unat_of_nat_byte mod_mult2_eq [of n 256 "256 ^ k"])
qed

lemma be_nat_be_enc: "be_nat (be_enc k n) = n mod 256 ^ k"
  by (simp add: be_nat_def be_enc_def le_nat_le_enc)

lemma le_nat_bound: "le_nat bs < 256 ^ length bs"
proof (induction bs)
  case Nil
  then show ?case by simp
next
  case (Cons b bs)
  have "unat b + 256 * le_nat bs < 256 + 256 * le_nat bs"
    by simp
  also have "\<dots> = 256 * Suc (le_nat bs)" by simp
  also have "\<dots> \<le> 256 * 256 ^ length bs"
    using Cons.IH by (simp only: mult_le_mono2 Suc_leI)
  finally show ?case by simp
qed

lemma le_enc_le_nat: "le_enc (length bs) (le_nat bs) = bs"
proof (induction bs)
  case Nil
  then show ?case by simp
next
  case (Cons b bs)
  have "(unat b + 256 * le_nat bs) div 256 = le_nat bs"
    using unat_byte_less [of b] by simp
  moreover have "(of_nat (unat b + 256 * le_nat bs) :: byte) = b"
    unfolding word_unat_eq_iff unat_of_nat_byte by simp
  ultimately show ?case using Cons.IH by simp
qed

lemma be_nat_bound: "be_nat bs < 256 ^ length bs"
  using le_nat_bound [of "rev bs"] by (simp add: be_nat_def)

lemma be_enc_be_nat: "be_enc (length bs) (be_nat bs) = bs"
  using le_enc_le_nat [of "rev bs"] by (simp add: be_nat_def be_enc_def)

section \<open>Bounded memory\<close>

text \<open>
  A block of memory is a byte list; a write outside it is \<open>None\<close> (a fault of the
  program), never a silent update.
\<close>

definition store_bytes :: "nat \<Rightarrow> 'a list \<Rightarrow> 'a list \<Rightarrow> 'a list option" where
  "store_bytes off bs m =
     (if off + length bs \<le> length m
      then Some (take off m @ bs @ drop (off + length bs) m) else None)"

definition load_bytes :: "nat \<Rightarrow> nat \<Rightarrow> 'a list \<Rightarrow> 'a list option" where
  "load_bytes off n m = (if off + n \<le> length m then Some (take n (drop off m)) else None)"

lemma store_bytes_length [mem_simps]: "store_bytes off bs m = Some m' \<Longrightarrow> length m' = length m"
  by (auto simp: store_bytes_def split: if_splits)

lemma store_bytes_nth_in [mem_simps]:
  "store_bytes off bs m = Some m' \<Longrightarrow> i < length bs \<Longrightarrow> m' ! (off + i) = bs ! i"
  by (auto simp: store_bytes_def nth_append split: if_splits)

lemma store_bytes_nth_out [mem_simps]:
  "store_bytes off bs m = Some m' \<Longrightarrow> j < off \<or> off + length bs \<le> j \<Longrightarrow> j < length m \<Longrightarrow> m' ! j = m ! j"
  by (auto simp: store_bytes_def nth_append min_def split: if_splits)

lemma store_bytes_some [mem_simps]: "off + length bs \<le> length m \<Longrightarrow> \<exists>m'. store_bytes off bs m = Some m'"
  by (simp add: store_bytes_def)

lemma load_store_bytes:
  "store_bytes off bs m = Some m' \<Longrightarrow> load_bytes off (length bs) m' = Some bs"
  by (auto simp: store_bytes_def load_bytes_def split: if_splits)

section \<open>Counted loops\<close>

text \<open>\<open>for_loop i n body s\<close> runs \<open>body i\<close>, \<open>body (i+1)\<close>, \<dots> \<open>n\<close> times; a fault stops it.\<close>

fun for_loop :: "nat \<Rightarrow> nat \<Rightarrow> (nat \<Rightarrow> 's \<Rightarrow> 's option) \<Rightarrow> 's \<Rightarrow> 's option" where
  "for_loop i 0 body s = Some s"
| "for_loop i (Suc n) body s =
     (case body i s of None \<Rightarrow> None | Some s' \<Rightarrow> for_loop (Suc i) n body s')"

lemma for_loop_inv:
  assumes "P i s"
    and "\<And>j t. i \<le> j \<Longrightarrow> j < i + n \<Longrightarrow> P j t \<Longrightarrow> \<exists>t'. body j t = Some t' \<and> P (Suc j) t'"
  shows "\<exists>s'. for_loop i n body s = Some s' \<and> P (i + n) s'"
  using assms
proof (induction n arbitrary: i s)
  case 0
  then show ?case by simp
next
  case (Suc n)
  obtain s1 where s1: "body i s = Some s1" "P (Suc i) s1"
    using Suc.prems(2) [of i s] Suc.prems(1) by auto
  have "\<exists>s'. for_loop (Suc i) n body s1 = Some s' \<and> P (Suc i + n) s'"
    using s1(2) Suc.prems(2) by (intro Suc.IH) auto
  with s1(1) show ?case by simp
qed

end
