(* ===== verification/Framebuffer.thy ===== *)
theory Framebuffer
  imports Prelude
begin

text \<open>
  The Linux framebuffer programs of \<open>fb/\<close>: pixel writers for 8, 16 and 24 bits per pixel,
  the palette, the drawing loops and the \<open>main\<close> functions, over a byte list for the mapped
  memory.  An access outside the mapped bytes is \<open>None\<close>.  The kernel's framebuffer driver
  is a parameter (\<open>fb_driver\<close>).
\<close>

section \<open>Screen information and palette\<close>

type_synonym cint = "32 word"

record var_screeninfo =
  xres :: cint
  yres :: cint
  bits_per_pixel :: cint

record fix_screeninfo =
  line_length :: cint
  smem_len :: cint

datatype color_index = BLACK | BLUE | GREEN | CYAN | RED | PURPLE | ORANGE | LTGREY | GREY
  | LIGHT_BLUE | LIGHT_GREEN | LIGHT_CYAN | LIGHT_RED | LIGHT_PURPLE | YELLOW | WHITE

primrec color_number :: "color_index \<Rightarrow> nat" where
  "color_number BLACK = 0" | "color_number BLUE = 1" | "color_number GREEN = 2"
| "color_number CYAN = 3" | "color_number RED = 4" | "color_number PURPLE = 5"
| "color_number ORANGE = 6" | "color_number LTGREY = 7" | "color_number GREY = 8"
| "color_number LIGHT_BLUE = 9" | "color_number LIGHT_GREEN = 10"
| "color_number LIGHT_CYAN = 11" | "color_number LIGHT_RED = 12"
| "color_number LIGHT_PURPLE = 13" | "color_number YELLOW = 14" | "color_number WHITE = 15"

definition def_r :: "int list" where
  "def_r = [0, 0, 0, 0, 172, 172, 172, 172, 84, 84, 84, 84, 255, 255, 255, 255]"

definition def_g :: "int list" where
  "def_g = [0, 0, 172, 172, 0, 0, 84, 172, 84, 84, 255, 255, 84, 84, 255, 255]"

definition def_b :: "int list" where
  "def_b = [0, 172, 0, 172, 0, 172, 0, 172, 84, 255, 84, 255, 84, 255, 84, 255]"

section \<open>Pixel writers\<close>

definition put_pixel :: "fix_screeninfo \<Rightarrow> cint \<Rightarrow> cint \<Rightarrow> int \<Rightarrow> byte list \<Rightarrow> byte list option" where
  "put_pixel fi x y c fb =
     (let pix_offset = x + y * line_length fi
      in store_bytes (unat pix_offset) [of_int c] fb)"

definition put_pixel_RGB24 ::
  "fix_screeninfo \<Rightarrow> cint \<Rightarrow> cint \<Rightarrow> int \<Rightarrow> int \<Rightarrow> int \<Rightarrow> byte list \<Rightarrow> byte list option" where
  "put_pixel_RGB24 fi x y r g b fb =
     (let pix_offset = x * 3 + y * line_length fi
      in case store_bytes (unat pix_offset) [of_int r] fb of None \<Rightarrow> None
      | Some fb1 \<Rightarrow> (case store_bytes (unat pix_offset + 1) [of_int g] fb1 of None \<Rightarrow> None
      | Some fb2 \<Rightarrow> store_bytes (unat pix_offset + 2) [of_int b] fb2))"

definition rgb565 :: "int \<Rightarrow> int \<Rightarrow> int \<Rightarrow> nat" where
  "rgb565 r g b = nat ((cdiv r 8 * 2 ^ 11 + cdiv g 4 * 2 ^ 5 + cdiv b 8) mod 2 ^ 16)"

definition put_pixel_RGB565 ::
  "fix_screeninfo \<Rightarrow> cint \<Rightarrow> cint \<Rightarrow> int \<Rightarrow> int \<Rightarrow> int \<Rightarrow> byte list \<Rightarrow> byte list option" where
  "put_pixel_RGB565 fi x y r g b fb =
     (let pix_offset = x * 2 + y * line_length fi;
          c = rgb565 r g b
      in store_bytes (unat pix_offset) (le_enc 2 c) fb)"

section \<open>Drawing\<close>

text \<open>
  One step of the double loop.  \<open>x\<close> is a C \<open>int\<close>: \<open>scale * x\<close> must not overflow
  (the fault is modelled), and the division by \<open>xres\<close> is unsigned.  A palette index past
  the 16 entries is a fault.
\<close>

definition stripe :: "nat \<Rightarrow> var_screeninfo \<Rightarrow> nat \<Rightarrow> nat option" where
  "stripe scale vi x =
     (if scale * x < 2 ^ 31 \<and> 0 < unat (xres vi) then Some (scale * x div unat (xres vi)) else None)"

definition draw_pixel ::
  "nat \<Rightarrow> var_screeninfo \<Rightarrow> fix_screeninfo \<Rightarrow> nat \<Rightarrow> nat \<Rightarrow> byte list \<Rightarrow> byte list option" where
  "draw_pixel scale vi fi x y fb =
     (case stripe scale vi x of None \<Rightarrow> None
      | Some c \<Rightarrow>
         (if bits_per_pixel vi = 8 then put_pixel fi (of_nat x) (of_nat y) (int c) fb
          else if bits_per_pixel vi = 16 then
            (if c < 16
             then put_pixel_RGB565 fi (of_nat x) (of_nat y) (def_r ! c) (def_g ! c) (def_b ! c) fb
             else None)
          else if bits_per_pixel vi = 24 then
            (if c < 16
             then put_pixel_RGB24 fi (of_nat x) (of_nat y) (def_r ! c) (def_g ! c) (def_b ! c) fb
             else None)
          else Some fb))"

text \<open>\<open>draw\<close> of \<open>draw_bitmap.c\<close>: the whole screen in 16 stripes.\<close>

definition draw :: "var_screeninfo \<Rightarrow> fix_screeninfo \<Rightarrow> byte list \<Rightarrow> byte list option" where
  "draw vi fi fb =
     for_loop 0 (unat (yres vi))
       (\<lambda>y. for_loop 0 (unat (xres vi)) (\<lambda>x. draw_pixel 16 vi fi x y)) fb"

text \<open>\<open>draw\<close> of \<open>fbtest6.c\<close>: the upper half of the screen in 8 stripes.\<close>

definition fbtest6_draw :: "var_screeninfo \<Rightarrow> fix_screeninfo \<Rightarrow> byte list \<Rightarrow> byte list option" where
  "fbtest6_draw vi fi fb =
     for_loop 0 (unat (yres vi div 2))
       (\<lambda>y. for_loop 0 (unat (xres vi)) (\<lambda>x. draw_pixel 8 vi fi x y)) fb"

text \<open>\<open>draw\<close> of \<open>fbtest4.c\<close>: the upper half, one byte per pixel whatever the mode.\<close>

definition fbtest4_draw :: "var_screeninfo \<Rightarrow> fix_screeninfo \<Rightarrow> byte list \<Rightarrow> byte list option" where
  "fbtest4_draw vi fi fb =
     for_loop 0 (unat (yres vi div 2))
       (\<lambda>y. for_loop 0 (unat (xres vi))
         (\<lambda>x fb. case stripe 16 vi x of None \<Rightarrow> None
                 | Some c \<Rightarrow> put_pixel fi (of_nat x) (of_nat y) (int c) fb)) fb"

text \<open>
  \<open>fbtest2.c\<close> fills the two halves of the mapping with \<open>memset\<close>; the halves are
  \<open>screensize/2\<close> long each.
\<close>

definition fbtest2_fill :: "nat \<Rightarrow> byte list \<Rightarrow> byte list option" where
  "fbtest2_fill screensize fb =
     (case store_bytes 0 (replicate (screensize div 2) 0xff) fb of None \<Rightarrow> None
      | Some fb1 \<Rightarrow> store_bytes (screensize div 2) (replicate (screensize div 2) 0x18) fb1)"

section \<open>The abstract picture\<close>

text \<open>
  \<open>painted k w h ll px m\<close> is memory \<open>m\<close> with a \<open>w\<close> by \<open>h\<close> picture laid over it: rows
  \<open>ll\<close> bytes apart, \<open>k\<close> bytes per pixel, pixel \<open>(x, y)\<close> the bytes \<open>px x y\<close>, every other
  byte unchanged.
\<close>

definition painted ::
  "nat \<Rightarrow> nat \<Rightarrow> nat \<Rightarrow> nat \<Rightarrow> (nat \<Rightarrow> nat \<Rightarrow> 'a list) \<Rightarrow> 'a list \<Rightarrow> 'a list" where
  "painted k w h ll px m =
     map (\<lambda>j. if j mod ll < k * w \<and> j div ll < h
              then px (j mod ll div k) (j div ll) ! (j mod ll mod k) else m ! j)
         [0..<length m]"

lemma length_painted [simp]: "length (painted k w h ll px m) = length m"
  by (simp add: painted_def)

text \<open>The contract of a pixel writer, and what a full double loop over it does.\<close>

locale pixel_writer =
  fixes ok :: "'g \<Rightarrow> bool"
    and plot :: "'g \<Rightarrow> nat \<Rightarrow> nat \<Rightarrow> byte list \<Rightarrow> byte list option"
    and px :: "'g \<Rightarrow> nat \<Rightarrow> nat \<Rightarrow> byte list"
    and k w h ll n :: "'g \<Rightarrow> nat"
  assumes plot_store: "ok g \<Longrightarrow> x < w g \<Longrightarrow> y < h g \<Longrightarrow> length m = n g \<Longrightarrow>
      plot g x y m = store_bytes (k g * x + y * ll g) (px g x y) m"
    and px_length: "ok g \<Longrightarrow> x < w g \<Longrightarrow> y < h g \<Longrightarrow> length (px g x y) = k g"
    and k_pos: "ok g \<Longrightarrow> 0 < k g"
    and row_fits: "ok g \<Longrightarrow> k g * w g \<le> ll g"
    and mem_fits: "ok g \<Longrightarrow> 0 < h g \<Longrightarrow> (h g - 1) * ll g + k g * w g \<le> n g"
begin

definition drawn :: "'g \<Rightarrow> nat \<Rightarrow> nat \<Rightarrow> nat \<Rightarrow> bool" where
  "drawn g x y j \<longleftrightarrow> j mod ll g < k g * w g \<and> (j div ll g < y \<or> j div ll g = y \<and> j mod ll g < k g * x)"

definition progress :: "'g \<Rightarrow> byte list \<Rightarrow> nat \<Rightarrow> nat \<Rightarrow> byte list \<Rightarrow> bool" where
  "progress g m x y t \<longleftrightarrow> length t = n g \<and>
     (\<forall>j<n g. t ! j = (if drawn g x y j then px g (j mod ll g div k g) (j div ll g) ! (j mod ll g mod k g) else m ! j))"

lemma in_pixel:
  assumes ok: "ok g" and xyi: "x < w g" "y < h g" "i < k g"
  shows "(k g * x + y * ll g + i) div ll g = y" "(k g * x + y * ll g + i) mod ll g = k g * x + i"
    and "k g * x + i < k g * w g"
proof -
  have "k g * x + i < k g * Suc x" using xyi by simp
  also have "\<dots> \<le> k g * w g" using xyi(1) by (simp only: mult_le_mono2 Suc_leI)
  finally show kx: "k g * x + i < k g * w g" .
  then have "k g * x + i < ll g" using row_fits [OF ok] by simp
  moreover have "k g * x + y * ll g + i = (k g * x + i) + y * ll g" by simp
  ultimately show "(k g * x + y * ll g + i) div ll g = y" "(k g * x + y * ll g + i) mod ll g = k g * x + i"
    by (simp_all only: div_mult_self1 mod_mult_self1) simp_all
qed

lemma pixel_room: "ok g \<Longrightarrow> x < w g \<Longrightarrow> y < h g \<Longrightarrow> k g * x + y * ll g + k g \<le> n g"
proof -
  assume ok: "ok g" and xy: "x < w g" "y < h g"
  have "k g * x + k g = k g * Suc x" by simp
  also have "\<dots> \<le> k g * w g" using xy(1) by (simp only: mult_le_mono2 Suc_leI)
  finally have "k g * x + y * ll g + k g \<le> y * ll g + k g * w g" by simp
  also have "y * ll g \<le> (h g - 1) * ll g" using xy(2) by (intro mult_le_mono1) simp
  finally show ?thesis using mem_fits [OF ok] xy(2) by simp
qed

lemma newly_drawn:
  assumes "ok g" "x < w g" "y < h g"
  shows "drawn g (Suc x) y j \<longleftrightarrow> drawn g x y j \<or> (\<exists>i<k g. j = k g * x + y * ll g + i)"
proof
  assume d: "drawn g (Suc x) y j"
  show "drawn g x y j \<or> (\<exists>i<k g. j = k g * x + y * ll g + i)"
  proof (cases "drawn g x y j")
    case False
    with d have "j div ll g = y" "k g * x \<le> j mod ll g" "j mod ll g < k g * x + k g"
      by (auto simp: drawn_def)
    then have "j = k g * x + y * ll g + (j mod ll g - k g * x)" "j mod ll g - k g * x < k g"
      using div_mult_mod_eq [of j "ll g"] by auto
    then show ?thesis by blast
  qed simp
next
  assume "drawn g x y j \<or> (\<exists>i<k g. j = k g * x + y * ll g + i)"
  then show "drawn g (Suc x) y j"
    using in_pixel [OF assms] by (auto simp: drawn_def)
qed

lemma plot_progress:
  assumes ok: "ok g" and xy: "x < w g" "y < h g" and pr: "progress g m x y t"
  shows "\<exists>t'. plot g x y t = Some t' \<and> progress g m (Suc x) y t'"
proof -
  have len: "length t = n g" using pr by (simp add: progress_def)
  have pl: "plot g x y t = store_bytes (k g * x + y * ll g) (px g x y) t"
    using ok xy len by (rule plot_store)
  have lp: "length (px g x y) = k g" using ok xy by (rule px_length)
  obtain t' where t': "store_bytes (k g * x + y * ll g) (px g x y) t = Some t'"
    using store_bytes_some pixel_room [OF ok xy] lp len by metis
  have "t' ! j = (if drawn g (Suc x) y j then px g (j mod ll g div k g) (j div ll g) ! (j mod ll g mod k g) else m ! j)"
    if j: "j < n g" for j
  proof (cases "\<exists>i<k g. j = k g * x + y * ll g + i")
    case True
    then obtain i where i: "i < k g" "j = k g * x + y * ll g + i" by auto
    have "t' ! j = px g x y ! i"
      using store_bytes_nth_in [OF t'] i lp by simp
    moreover have "px g (j mod ll g div k g) (j div ll g) ! (j mod ll g mod k g) = px g x y ! i"
      using in_pixel [OF ok xy i(1)] i by simp
    moreover have "drawn g (Suc x) y j" using newly_drawn [OF ok xy] i by blast
    ultimately show ?thesis by simp
  next
    case False
    have "j < k g * x + y * ll g \<or> k g * x + y * ll g + k g \<le> j"
    proof (rule ccontr)
      assume "\<not> ?thesis"
      then have "j = k g * x + y * ll g + (j - (k g * x + y * ll g))" "j - (k g * x + y * ll g) < k g" by auto
      with False show False by blast
    qed
    then have "t' ! j = t ! j"
      using store_bytes_nth_out [OF t'] lp len j by auto
    moreover have "drawn g (Suc x) y j = drawn g x y j"
      using newly_drawn [OF ok xy] False by blast
    ultimately show ?thesis using pr j by (simp add: progress_def)
  qed
  then show ?thesis
    using pl t' store_bytes_length [OF t'] len by (simp add: progress_def)
qed

lemma row_progress:
  assumes "ok g" "y < h g" "progress g m 0 y t"
  shows "\<exists>t'. for_loop 0 (w g) (\<lambda>x. plot g x y) t = Some t' \<and> progress g m 0 (Suc y) t'"
proof -
  have "\<exists>t'. for_loop 0 (w g) (\<lambda>x. plot g x y) t = Some t' \<and> progress g m (0 + w g) y t'"
    by (rule for_loop_inv [where P = "\<lambda>x t. progress g m x y t"])
      (auto intro: plot_progress assms)
  moreover have "drawn g (w g) y j = drawn g 0 (Suc y) j" for j
    using k_pos [OF assms(1)] by (auto simp: drawn_def)
  ultimately show ?thesis by (simp add: progress_def)
qed

lemma picture_painted:
  assumes "ok g" "length m = n g"
  shows "for_loop 0 (h g) (\<lambda>y. for_loop 0 (w g) (\<lambda>x. plot g x y)) m = Some (painted (k g) (w g) (h g) (ll g) (px g) m)"
proof -
  have "\<exists>t'. for_loop 0 (h g) (\<lambda>y. for_loop 0 (w g) (\<lambda>x. plot g x y)) m = Some t' \<and> progress g m 0 (0 + h g) t'"
  proof (rule for_loop_inv [where P = "\<lambda>y t. progress g m 0 y t"])
    show "progress g m 0 0 m" using assms by (simp add: progress_def drawn_def)
  qed (auto intro: row_progress assms)
  moreover have "t' = painted (k g) (w g) (h g) (ll g) (px g) m" if "progress g m 0 (h g) t'" for t'
  proof (rule nth_equalityI)
    show "length t' = length (painted (k g) (w g) (h g) (ll g) (px g) m)"
      using that assms by (simp add: progress_def)
  next
    fix j assume "j < length t'"
    then have "j < n g" using that by (simp add: progress_def)
    then show "t' ! j = painted (k g) (w g) (h g) (ll g) (px g) m ! j"
      using that assms by (auto simp: progress_def drawn_def painted_def)
  qed
  ultimately show ?thesis by auto
qed

end

section \<open>The drawing loops paint the picture\<close>

record screen =
  scr_scale :: nat
  scr_var :: var_screeninfo
  scr_fix :: fix_screeninfo
  scr_rows :: nat
  scr_mapped :: nat

definition bytes_per_pixel :: "var_screeninfo \<Rightarrow> nat" where
  "bytes_per_pixel vi = unat (bits_per_pixel vi) div 8"

definition scr_width :: "screen \<Rightarrow> nat" where
  "scr_width s = unat (xres (scr_var s))"

definition scr_stride :: "screen \<Rightarrow> nat" where
  "scr_stride s = unat (line_length (scr_fix s))"

definition scr_pixel_size :: "screen \<Rightarrow> nat" where
  "scr_pixel_size s = bytes_per_pixel (scr_var s)"

text \<open>
  \<open>mode_ok\<close>: the mode is one the code handles, a row fits in the line length, and neither
  the byte offsets nor the stripe computation leave 32 bits.  \<open>last_row_fits\<close>: the last
  pixel of the last row drawn lies in the mapping.
\<close>

definition mode_ok :: "screen \<Rightarrow> bool" where
  "mode_ok s \<longleftrightarrow>
     bits_per_pixel (scr_var s) \<in> {8, 16, 24} \<and> scr_scale s \<le> 16
   \<and> scr_scale s * scr_width s < 2 ^ 31
   \<and> scr_pixel_size s * scr_width s \<le> scr_stride s
   \<and> scr_rows s * scr_stride s < 2 ^ 32"

definition last_row_fits :: "screen \<Rightarrow> bool" where
  "last_row_fits s \<longleftrightarrow>
     scr_rows s = 0 \<or> (scr_rows s - 1) * scr_stride s + scr_pixel_size s * scr_width s \<le> scr_mapped s"

definition screen_ok :: "screen \<Rightarrow> bool" where
  "screen_ok s \<longleftrightarrow> mode_ok s \<and> last_row_fits s"

definition palette_bytes :: "cint \<Rightarrow> nat \<Rightarrow> byte list" where
  "palette_bytes bpp c =
     (if bpp = 8 then [of_nat c]
      else if bpp = 16 then le_enc 2 (rgb565 (def_r ! c) (def_g ! c) (def_b ! c))
      else [of_int (def_r ! c), of_int (def_g ! c), of_int (def_b ! c)])"

definition scr_pixel :: "screen \<Rightarrow> nat \<Rightarrow> nat \<Rightarrow> byte list" where
  "scr_pixel s x y =
     palette_bytes (bits_per_pixel (scr_var s)) (scr_scale s * x div scr_width s)"

lemma pixel_offset_word:
  assumes "k * x + y * unat l < 2 ^ 32"
  shows "unat (of_nat x * of_nat k + of_nat y * l :: cint) = k * x + y * unat l"
proof -
  have "of_nat x * of_nat k + of_nat y * l = (of_nat (k * x + y * unat l) :: cint)"
    by (simp add: mult.commute)
  then show ?thesis
    using assms by (simp only: unat_of_nat) simp
qed

lemma three_stores:
  assumes "off + 3 \<le> length m"
  shows "(case store_bytes off [a] m of None \<Rightarrow> None
      | Some m1 \<Rightarrow> (case store_bytes (off + 1) [b] m1 of None \<Rightarrow> None
      | Some m2 \<Rightarrow> store_bytes (off + 2) [c] m2)) = store_bytes off [a, b, c] m"
proof -
  obtain p q where m: "m = p @ q" "length p = off" "3 \<le> length q"
    using assms by (intro that [of "take off m" "drop off m"]) auto
  obtain u v w r where "q = u # v # w # r"
    using m(3) by (auto simp: numeral_3_eq_3 Suc_le_length_iff)
  with m show ?thesis
    by (simp add: store_bytes_def take_Cons' drop_Cons' numeral_eq_Suc Suc_diff_le)
qed

lemma stripe_screen:
  assumes "mode_ok s" "x < scr_width s"
  shows "stripe (scr_scale s) (scr_var s) x = Some (scr_scale s * x div scr_width s)"
    and "scr_scale s * x div scr_width s < 16"
proof -
  have "scr_scale s * x \<le> scr_scale s * scr_width s" using assms(2) by simp
  also have "\<dots> < 2 ^ 31" using assms(1) by (simp add: mode_ok_def)
  finally show "stripe (scr_scale s) (scr_var s) x = Some (scr_scale s * x div scr_width s)"
    using assms(2) by (simp add: stripe_def scr_width_def)
  have "scr_scale s * x \<le> 16 * x" using assms(1) by (simp add: mode_ok_def)
  also have "16 * x < 16 * scr_width s" using assms(2) by simp
  finally show "scr_scale s * x div scr_width s < 16"
    using assms(2) by (simp add: div_less_iff_less_mult mult.commute)
qed

definition scr_plot :: "screen \<Rightarrow> nat \<Rightarrow> nat \<Rightarrow> byte list \<Rightarrow> byte list option" where
  "scr_plot s = draw_pixel (scr_scale s) (scr_var s) (scr_fix s)"

lemma three_stores_short:
  assumes "length m < off + 3"
  shows "(case store_bytes off [a] m of None \<Rightarrow> None
      | Some m1 \<Rightarrow> (case store_bytes (off + 1) [b] m1 of None \<Rightarrow> None
      | Some m2 \<Rightarrow> store_bytes (off + 2) [c] m2)) = None"
  using assms by (auto simp: store_bytes_def split: if_splits)

lemma pixel_offset_less:
  assumes ok: "mode_ok s" and x: "x < scr_width s" and y: "y < scr_rows s"
  shows "scr_pixel_size s * x + y * scr_stride s < 2 ^ 32"
proof -
  let ?k = "scr_pixel_size s"
  have "?k * x + ?k = ?k * Suc x" by simp
  also have "\<dots> \<le> ?k * scr_width s" using x by (simp only: mult_le_mono2 Suc_leI)
  finally have "?k * x \<le> scr_stride s" using ok by (simp add: mode_ok_def)
  then have "?k * x + y * scr_stride s \<le> Suc y * scr_stride s" by simp
  also have "\<dots> \<le> scr_rows s * scr_stride s" using y by (simp only: mult_le_mono1 Suc_leI)
  finally show ?thesis using ok by (simp add: mode_ok_def)
qed

text \<open>A pixel is one store of its bytes at its offset, or a fault where they do not fit.\<close>

lemma scr_plot_store:
  assumes ok: "mode_ok s" and x: "x < scr_width s" and y: "y < scr_rows s"
  shows "scr_plot s x y m =
    store_bytes (scr_pixel_size s * x + y * scr_stride s) (scr_pixel s x y) m"
proof -
  let ?k = "scr_pixel_size s"
  let ?off = "?k * x + y * scr_stride s"
  note stripe = stripe_screen [OF ok x]
  have word: "unat (of_nat x * of_nat ?k + of_nat y * line_length (scr_fix s) :: cint) = ?off"
    using pixel_offset_word [of ?k x y "line_length (scr_fix s)"] pixel_offset_less [OF ok x y]
    by (simp add: scr_stride_def)
  consider "bits_per_pixel (scr_var s) = 8" | "bits_per_pixel (scr_var s) = 16"
    | "bits_per_pixel (scr_var s) = 24"
    using ok by (auto simp: mode_ok_def)
  then show ?thesis
  proof cases
    case 1
    then have "?k = 1" by (simp add: scr_pixel_size_def bytes_per_pixel_def)
    with 1 stripe(1) word show ?thesis
      by (simp add: scr_plot_def draw_pixel_def put_pixel_def scr_pixel_def palette_bytes_def Let_def)
  next
    case 2
    then have "?k = 2" by (simp add: scr_pixel_size_def bytes_per_pixel_def)
    with 2 stripe word show ?thesis
      by (simp add: scr_plot_def draw_pixel_def put_pixel_RGB565_def scr_pixel_def palette_bytes_def Let_def)
  next
    case 3
    then have k: "?k = 3" by (simp add: scr_pixel_size_def bytes_per_pixel_def)
    have lhs: "scr_plot s x y m =
        (case store_bytes ?off [of_int (def_r ! (scr_scale s * x div scr_width s))] m of None \<Rightarrow> None
      | Some m1 \<Rightarrow> (case store_bytes (?off + 1) [of_int (def_g ! (scr_scale s * x div scr_width s))] m1 of None \<Rightarrow> None
      | Some m2 \<Rightarrow> store_bytes (?off + 2) [of_int (def_b ! (scr_scale s * x div scr_width s))] m2))"
      using 3 stripe word k
      by (simp add: scr_plot_def draw_pixel_def put_pixel_RGB24_def Let_def cong: option.case_cong)
    have px: "scr_pixel s x y = [of_int (def_r ! (scr_scale s * x div scr_width s)),
        of_int (def_g ! (scr_scale s * x div scr_width s)), of_int (def_b ! (scr_scale s * x div scr_width s))]"
      using 3 by (simp add: scr_pixel_def palette_bytes_def)
    show ?thesis
    proof (cases "?off + 3 \<le> length m")
      case True
      then show ?thesis unfolding lhs px by (rule three_stores)
    next
      case False
      then have "scr_plot s x y m = None"
        unfolding lhs by (intro three_stores_short) simp
      then show ?thesis using False by (simp add: px store_bytes_def)
    qed
  qed
qed

lemma scr_pixel_length:
  assumes "mode_ok s"
  shows "length (scr_pixel s x y) = scr_pixel_size s"
  using assms by (auto simp: mode_ok_def scr_pixel_def palette_bytes_def scr_pixel_size_def
      bytes_per_pixel_def)

interpretation fb: pixel_writer screen_ok scr_plot scr_pixel scr_pixel_size scr_width scr_rows
  scr_stride scr_mapped
proof (unfold_locales, goal_cases)
  case (1 g x y m)
  then show ?case by (simp add: scr_plot_store screen_ok_def)
next
  case (2 g x y)
  then show ?case by (simp add: scr_pixel_length screen_ok_def)
next
  case (3 g)
  then show ?case by (auto simp: screen_ok_def mode_ok_def scr_pixel_size_def bytes_per_pixel_def)
qed (auto simp: screen_ok_def mode_ok_def last_row_fits_def)

text \<open>A double loop that returns has run its last step; with \<open>scr_plot_store\<close> that step needs room.\<close>

lemma for_loop_last:
  "for_loop i (Suc n) body s = Some s' \<Longrightarrow> \<exists>t. for_loop i n body s = Some t \<and> body (i + n) t = Some s'"
proof (induction n arbitrary: i s)
  case 0
  then show ?case by (simp split: option.splits)
next
  case (Suc n)
  from Suc.prems obtain u where u: "body i s = Some u" "for_loop (Suc i) (Suc n) body u = Some s'"
    by (simp split: option.splits)
  from Suc.IH [OF u(2)] u(1) show ?case by auto
qed

lemma for_loop_keeps:
  assumes "for_loop i n body s = Some s'" and "P s"
    and "\<And>j t t'. i \<le> j \<Longrightarrow> j < i + n \<Longrightarrow> P t \<Longrightarrow> body j t = Some t' \<Longrightarrow> P t'"
  shows "P s'"
  using assms
proof (induction n arbitrary: i s)
  case 0
  then show ?case by simp
next
  case (Suc n)
  from Suc.prems(1) obtain u where u: "body i s = Some u" "for_loop (Suc i) n body u = Some s'"
    by (simp split: option.splits)
  have "P u" using Suc.prems(3) [OF _ _ Suc.prems(2) u(1)] by simp
  show ?case
  proof (rule Suc.IH [OF u(2) \<open>P u\<close>])
    fix j t t' assume "Suc i \<le> j" "j < Suc i + n" "P t" "body j t = Some t'"
    then show "P t'" by (intro Suc.prems(3) [of j t t']) simp_all
  qed
qed

definition draw_screen :: "var_screeninfo \<Rightarrow> fix_screeninfo \<Rightarrow> nat \<Rightarrow> screen" where
  "draw_screen vi fi n =
     \<lparr>scr_scale = 16, scr_var = vi, scr_fix = fi, scr_rows = unat (yres vi), scr_mapped = n\<rparr>"

definition half_screen :: "nat \<Rightarrow> var_screeninfo \<Rightarrow> fix_screeninfo \<Rightarrow> nat \<Rightarrow> screen" where
  "half_screen sc vi fi n =
     \<lparr>scr_scale = sc, scr_var = vi, scr_fix = fi, scr_rows = unat (yres vi div 2), scr_mapped = n\<rparr>"

definition scr_loop :: "screen \<Rightarrow> byte list \<Rightarrow> byte list option" where
  "scr_loop s fb =
     for_loop 0 (scr_rows s) (\<lambda>y. for_loop 0 (scr_width s) (\<lambda>x. scr_plot s x y)) fb"

definition scr_painted :: "screen \<Rightarrow> byte list \<Rightarrow> byte list" where
  "scr_painted s fb =
     painted (scr_pixel_size s) (scr_width s) (scr_rows s) (scr_stride s) (scr_pixel s) fb"

lemma draw_eq_loop: "draw vi fi fb = scr_loop (draw_screen vi fi n) fb"
  by (simp add: draw_def scr_loop_def draw_screen_def scr_plot_def scr_width_def)

lemma fbtest6_draw_eq_loop: "fbtest6_draw vi fi fb = scr_loop (half_screen 8 vi fi n) fb"
  by (simp add: fbtest6_draw_def scr_loop_def half_screen_def scr_plot_def scr_width_def)

lemma fbtest4_draw_eq_loop:
  "bits_per_pixel vi = 8 \<Longrightarrow> fbtest4_draw vi fi fb = scr_loop (half_screen 16 vi fi n) fb"
  by (simp add: fbtest4_draw_def scr_loop_def half_screen_def scr_plot_def scr_width_def
      draw_pixel_def [abs_def] cong: option.case_cong)

lemma scr_loop_paints:
  "screen_ok s \<Longrightarrow> length m = scr_mapped s \<Longrightarrow> scr_loop s m = Some (scr_painted s m)"
  unfolding scr_loop_def scr_painted_def by (rule fb.picture_painted)

lemma scr_plot_keeps_length:
  assumes "mode_ok s" "x < scr_width s" "y < scr_rows s" "scr_plot s x y m = Some m'"
  shows "length m' = length m"
  using assms scr_plot_store [OF assms(1-3)] by (auto dest: store_bytes_length)

lemma scr_row_keeps_length:
  assumes "mode_ok s" "w' \<le> scr_width s" "y < scr_rows s"
    and "for_loop 0 w' (\<lambda>x. scr_plot s x y) m = Some m'"
  shows "length m' = length m"
  using assms(4)
proof (rule for_loop_keeps [where P = "\<lambda>t. length t = length m"])
  fix j t t' assume "j < 0 + w'" "length t = length m" "scr_plot s j y t = Some t'"
  then show "length t' = length m"
    using scr_plot_keeps_length [OF assms(1) _ assms(3), of j t t'] assms(2) by simp
qed simp

lemma scr_loop_needs_room:
  assumes ok: "mode_ok s" and m: "length m = scr_mapped s"
    and some: "scr_loop s m = Some m'" and w: "0 < scr_width s"
  shows "last_row_fits s"
proof (cases "scr_rows s")
  case (Suc h)
  let ?row = "\<lambda>y. for_loop 0 (scr_width s) (\<lambda>x. scr_plot s x y)"
  obtain t where t: "for_loop 0 h ?row m = Some t" "?row h t = Some m'"
    using for_loop_last some Suc unfolding scr_loop_def by fastforce
  have "length t = length m"
    using t(1)
  proof (rule for_loop_keeps [where P = "\<lambda>t. length t = length m"])
    fix y u v assume "y < 0 + h" "length u = length m" "?row y u = Some v"
    then show "length v = length m"
      using scr_row_keeps_length [OF ok order_refl, of y u v] Suc by simp
  qed simp
  obtain w' where w': "scr_width s = Suc w'" using w by (cases "scr_width s") auto
  obtain u where u: "for_loop 0 w' (\<lambda>x. scr_plot s x h) t = Some u" "scr_plot s w' h u = Some m'"
    using for_loop_last [of 0 w' "\<lambda>x. scr_plot s x h" t m'] t(2) w' by auto
  have "length u = length t"
    using scr_row_keeps_length [OF ok _ _ u(1)] Suc w' by simp
  moreover have "store_bytes (scr_pixel_size s * w' + h * scr_stride s) (scr_pixel s w' h) u = Some m'"
    using u(2) scr_plot_store [OF ok, of w' h u] Suc w' by simp
  ultimately have "scr_pixel_size s * w' + h * scr_stride s + scr_pixel_size s \<le> scr_mapped s"
    using \<open>length t = length m\<close> m scr_pixel_length [OF ok]
    by (simp add: store_bytes_def split: if_splits)
  then show ?thesis using Suc w' by (simp add: last_row_fits_def)
qed (simp add: last_row_fits_def)

lemma painted_pixel:
  assumes ok: "screen_ok s" "length m = scr_mapped s" and xy: "x < scr_width s" "y < scr_rows s"
  shows "load_bytes (scr_pixel_size s * x + y * scr_stride s) (scr_pixel_size s) (scr_painted s m)
      = Some (scr_pixel s x y)"
proof -
  let ?off = "scr_pixel_size s * x + y * scr_stride s"
  have room: "?off + scr_pixel_size s \<le> length m"
    using fb.pixel_room [OF ok(1) xy] ok(2) by simp
  have "take (scr_pixel_size s) (drop ?off (scr_painted s m)) = scr_pixel s x y"
  proof (rule nth_equalityI)
    show "length (take (scr_pixel_size s) (drop ?off (scr_painted s m))) = length (scr_pixel s x y)"
      using room ok(1) by (simp add: scr_painted_def scr_pixel_length screen_ok_def)
  next
    fix i assume "i < length (take (scr_pixel_size s) (drop ?off (scr_painted s m)))"
    then have i: "i < scr_pixel_size s" by simp
    note p = fb.in_pixel [OF ok(1) xy i]
    show "take (scr_pixel_size s) (drop ?off (scr_painted s m)) ! i = scr_pixel s x y ! i"
      using p i room xy by (simp add: scr_painted_def painted_def)
  qed
  then show ?thesis using room by (simp add: load_bytes_def scr_painted_def)
qed

section \<open>The programs\<close>

text \<open>
  What the system calls answer: \<open>None\<close> is a failed \<open>ioctl\<close> or \<open>mmap\<close>; a successful
  \<open>FBIOPUT_VSCREENINFO\<close> writes back the mode the driver accepted; \<open>env_mmap n\<close> is the
  memory a mapping of \<open>n\<close> bytes shows.
\<close>

record fb_env =
  env_open :: bool
  env_get :: "var_screeninfo option"
  env_put :: "var_screeninfo \<Rightarrow> var_screeninfo option"
  env_fix :: "fix_screeninfo option"
  env_mmap :: "nat \<Rightarrow> byte list option"

datatype fb_call = Open | GetVar | PutVar var_screeninfo | GetFix | Mmap nat
  | Show "byte list" | Munmap nat | Close

definition zero_var :: var_screeninfo where
  "zero_var = \<lparr>xres = 0, yres = 0, bits_per_pixel = 0\<rparr>"

definition zero_fix :: fix_screeninfo where
  "zero_fix = \<lparr>line_length = 0, smem_len = 0\<rparr>"

text \<open>
  The shape shared by the \<open>main\<close> functions: read the mode, keep a copy, switch to 8 bits
  per pixel, map \<open>msize\<close> bytes, draw, unmap and put the kept mode back.  A fault while
  drawing is \<open>None\<close>; otherwise the exit status and the calls made.  \<open>v0\<close> and \<open>f0\<close> are what the
  two structures hold at the start, and still hold when an \<open>ioctl\<close> fails: zeros where they are
  globals, whatever the stack holds where they are locals (\<open>fbtest3\<close>, \<open>fbtest2\<close>).
\<close>

definition mode_read :: "var_screeninfo \<Rightarrow> fb_env \<Rightarrow> var_screeninfo" where
  "mode_read v0 env = (case env_get env of None \<Rightarrow> v0 | Some v \<Rightarrow> v)"

definition fb_main ::
  "var_screeninfo \<Rightarrow> fix_screeninfo \<Rightarrow>
   (var_screeninfo \<Rightarrow> fix_screeninfo \<Rightarrow> nat) \<Rightarrow>
   (var_screeninfo \<Rightarrow> fix_screeninfo \<Rightarrow> byte list \<Rightarrow> byte list option) \<Rightarrow>
   fb_env \<Rightarrow> (int \<times> fb_call list) option" where
  "fb_main v0 f0 msize drw env =
     (if \<not> env_open env then Some (1, [Open])
      else
        let orig = mode_read v0 env;
            want = orig\<lparr>bits_per_pixel := 8\<rparr>;
            vi = (case env_put env want of None \<Rightarrow> want | Some v \<Rightarrow> v);
            fi = (case env_fix env of None \<Rightarrow> f0 | Some f \<Rightarrow> f);
            screensize = msize vi fi;
            before = [Open, GetVar, PutVar want, GetFix, Mmap screensize];
            after = [Munmap screensize, PutVar orig, Close]
        in (case env_mmap env screensize of
              None \<Rightarrow> Some (0, before @ after)
            | Some fbp \<Rightarrow> (case drw vi fi fbp of
                 None \<Rightarrow> None
               | Some fbp' \<Rightarrow> Some (0, before @ [Show fbp'] @ after))))"

definition pixels_size :: "var_screeninfo \<Rightarrow> fix_screeninfo \<Rightarrow> nat" where
  "pixels_size vi fi = unat (xres vi * yres vi * bits_per_pixel vi div 8)"

definition draw_bitmap_main :: "fb_env \<Rightarrow> (int \<times> fb_call list) option" where
  "draw_bitmap_main = fb_main zero_var zero_fix pixels_size draw"

definition fbtest6_main :: "fb_env \<Rightarrow> (int \<times> fb_call list) option" where
  "fbtest6_main = fb_main zero_var zero_fix pixels_size fbtest6_draw"

definition fbtest4_main :: "fb_env \<Rightarrow> (int \<times> fb_call list) option" where
  "fbtest4_main = fb_main zero_var zero_fix (\<lambda>vi fi. unat (smem_len fi)) fbtest4_draw"

text \<open>\<open>fbtest3.c\<close> has the loop of \<open>fbtest4.c\<close> written out in \<open>main\<close>.\<close>

definition fbtest3_main ::
  "var_screeninfo \<Rightarrow> fix_screeninfo \<Rightarrow> fb_env \<Rightarrow> (int \<times> fb_call list) option" where
  "fbtest3_main var_info fix_info = fb_main var_info fix_info (\<lambda>vi fi. unat (smem_len fi))
     (\<lambda>vi fi fb. for_loop 0 (unat (yres vi div 2))
       (\<lambda>y. for_loop 0 (unat (xres vi))
         (\<lambda>x fb. case stripe 16 vi x of None \<Rightarrow> None
           | Some c \<Rightarrow>
              (let pix_offset = of_nat x + of_nat y * line_length fi
               in store_bytes (unat pix_offset) [of_nat c] fb))) fb)"

definition fbtest2_main :: "fix_screeninfo \<Rightarrow> fb_env \<Rightarrow> (int \<times> fb_call list) option" where
  "fbtest2_main fix_info env =
     (if \<not> env_open env then Some (1, [Open])
      else
        let fi = (case env_fix env of None \<Rightarrow> fix_info | Some f \<Rightarrow> f);
            screensize = unat (smem_len fi);
            before = [Open, GetVar, GetFix, Mmap screensize];
            after = [Munmap screensize, Close]
        in (case env_mmap env screensize of
              None \<Rightarrow> Some (0, before @ after)
            | Some fbp \<Rightarrow> (case fbtest2_fill screensize fbp of
                 None \<Rightarrow> None
               | Some fbp' \<Rightarrow> Some (0, before @ [Show fbp'] @ after))))"

definition fbtest_main :: "fb_env \<Rightarrow> int \<times> fb_call list" where
  "fbtest_main env = (if \<not> env_open env then (1, [Open]) else (0, [Open, GetVar, Close]))"

text \<open>
  The mode before the program, as a \<open>main\<close> with global structures sees it, and the mode and
  line length it draws in.
\<close>

definition mode_before :: "fb_env \<Rightarrow> var_screeninfo" where
  "mode_before env = mode_read zero_var env"

definition mode_drawn :: "fb_env \<Rightarrow> var_screeninfo" where
  "mode_drawn env = (let want = (mode_before env)\<lparr>bits_per_pixel := 8\<rparr>
     in case env_put env want of None \<Rightarrow> want | Some v \<Rightarrow> v)"

definition fix_drawn :: "fb_env \<Rightarrow> fix_screeninfo" where
  "fix_drawn env = (case env_fix env of None \<Rightarrow> zero_fix | Some f \<Rightarrow> f)"

lemmas fb_main_defs = fb_main_def mode_read_def mode_before_def mode_drawn_def fix_drawn_def Let_def

lemma fb_main_result:
  assumes "env_open env" and "env_mmap env (msize (mode_drawn env) (fix_drawn env)) = Some fbp"
  shows "fb_main zero_var zero_fix msize drw env =
    map_option (\<lambda>fbp'. (0,
      [Open, GetVar, PutVar ((mode_before env)\<lparr>bits_per_pixel := 8\<rparr>), GetFix,
       Mmap (msize (mode_drawn env) (fix_drawn env)), Show fbp',
       Munmap (msize (mode_drawn env) (fix_drawn env)), PutVar (mode_before env), Close]))
      (drw (mode_drawn env) (fix_drawn env) fbp)"
  using assms by (cases "env_put env ((mode_before env)\<lparr>bits_per_pixel := 8\<rparr>)")
    (auto simp: fb_main_defs split: option.splits)

lemma fb_main_tail:
  assumes "env_open env" "fb_main v0 f0 msize drw env = Some (rc, calls)"
  shows "rc = 0 \<and> (\<exists>front n. Mmap n \<in> set front \<and> calls = front @ [Munmap n, PutVar (mode_read v0 env), Close])"
  using assms by (auto simp: fb_main_defs split: option.splits)

section \<open>Properties\<close>

text \<open>
  C9: In a mode the code handles (8, 16 or 24 bits per pixel), on a mapping that holds the
  last row, \<open>draw\<close> of \<open>draw_bitmap.c\<close> does not fault, leaves every pixel \<open>(x, y)\<close> of the
  screen holding the palette colour of stripe \<open>16 * x / xres\<close> in the mode's byte format,
  and changes no byte outside the pixels (the padding of the lines, the memory below).
\<close>

theorem draw_picture:
  assumes "mode_ok (draw_screen vi fi (length fb))" "last_row_fits (draw_screen vi fi (length fb))"
  shows "\<exists>fb'. draw vi fi fb = Some fb' \<and> length fb' = length fb
    \<and> (\<forall>x y. x < unat (xres vi) \<and> y < unat (yres vi) \<longrightarrow>
         load_bytes (bytes_per_pixel vi * x + y * unat (line_length fi)) (bytes_per_pixel vi) fb'
         = Some (palette_bytes (bits_per_pixel vi) (16 * x div unat (xres vi))))
    \<and> (\<forall>j. j < length fb \<and> (bytes_per_pixel vi * unat (xres vi) \<le> j mod unat (line_length fi)
           \<or> unat (yres vi) \<le> j div unat (line_length fi)) \<longrightarrow> fb' ! j = fb ! j)"
proof -
  let ?s = "draw_screen vi fi (length fb)"
  have ok: "screen_ok ?s" using assms by (simp add: screen_ok_def)
  have len: "length fb = scr_mapped ?s" by (simp add: draw_screen_def)
  have "draw vi fi fb = Some (scr_painted ?s fb)"
    using scr_loop_paints [OF ok len] draw_eq_loop by metis
  moreover note painted_pixel [OF ok len]
  ultimately show ?thesis
    by (auto simp: draw_screen_def scr_pixel_size_def scr_stride_def scr_width_def scr_pixel_def
        scr_painted_def painted_def)
qed

lemma palette_bytes_24:
  "palette_bytes 24 c = [of_int (def_r ! c), of_int (def_g ! c), of_int (def_b ! c)]"
  by (simp add: palette_bytes_def)

theorem draw_picture_witness:
  "\<exists>fb'. draw \<lparr>xres = 2, yres = 1, bits_per_pixel = 24\<rparr> \<lparr>line_length = 8, smem_len = 8\<rparr> (replicate 8 7)
      = Some fb' \<and> load_bytes 3 3 fb' = Some [84, 84, 84] \<and> fb' ! 6 = 7"
proof -
  let ?vi = "\<lparr>xres = 2, yres = 1, bits_per_pixel = 24\<rparr>" and ?fi = "\<lparr>line_length = 8, smem_len = 8\<rparr>"
  have m: "mode_ok (draw_screen ?vi ?fi (length (replicate 8 (7::byte))))"
      "last_row_fits (draw_screen ?vi ?fi (length (replicate 8 (7::byte))))"
    by (simp_all add: mode_ok_def last_row_fits_def draw_screen_def scr_width_def scr_stride_def
        scr_pixel_size_def bytes_per_pixel_def)
  obtain fb' where fb': "draw ?vi ?fi (replicate 8 7) = Some fb'"
    and px: "\<forall>x y. x < unat (xres ?vi) \<and> y < unat (yres ?vi) \<longrightarrow>
         load_bytes (bytes_per_pixel ?vi * x + y * unat (line_length ?fi)) (bytes_per_pixel ?vi) fb'
         = Some (palette_bytes (bits_per_pixel ?vi) (16 * x div unat (xres ?vi)))"
    and out: "\<forall>j. j < length (replicate 8 (7::byte)) \<and> (bytes_per_pixel ?vi * unat (xres ?vi) \<le> j mod unat (line_length ?fi)
           \<or> unat (yres ?vi) \<le> j div unat (line_length ?fi)) \<longrightarrow> fb' ! j = replicate 8 (7::byte) ! j"
    using draw_picture [OF m] by blast
  have "load_bytes 3 3 fb' = Some [84, 84, 84]"
    using px [rule_format, of 1 0]
    by (simp add: bytes_per_pixel_def palette_bytes_24 def_r_def def_g_def def_b_def)
  moreover have "fb' ! 6 = 7"
    using out [rule_format, of 6] by (simp add: bytes_per_pixel_def)
  ultimately show ?thesis using fb' by blast
qed

text \<open>
  C28: \<open>draw_bitmap\<close> maps \<open>xres * yres * bits_per_pixel / 8\<close> bytes but addresses pixels by
  the driver's line length: with the 8-bit mode accepted and the mapping made, the program
  writes outside the mapped bytes exactly when the lines are padded (line length above
  \<open>xres\<close>) and there is more than one line.
\<close>

theorem draw_bitmap_main_faults_iff_padded:
  assumes "env_open env" and v: "mode_drawn env = v" "bits_per_pixel v = 8" "0 < xres v"
    and f: "xres v \<le> line_length (fix_drawn env)"
    and small: "unat (xres v) < 2 ^ 27" "unat (yres v) * unat (line_length (fix_drawn env)) < 2 ^ 28"
    and map: "env_mmap env (unat (xres v) * unat (yres v)) = Some fbp"
      "length fbp = unat (xres v) * unat (yres v)"
  shows "draw_bitmap_main env = None \<longleftrightarrow>
    1 < unat (yres v) \<and> xres v < line_length (fix_drawn env)"
proof -
  let ?w = "unat (xres v)" and ?h = "unat (yres v)" and ?l = "unat (line_length (fix_drawn env))"
  have wl: "?w \<le> ?l" using f by (simp add: word_le_nat_alt)
  have w0: "0 < ?w" using v(3) by (simp add: word_gt_0 unat_gt_0)
  have "?h * ?w \<le> ?h * ?l" using wl by (rule mult_le_mono2)
  then have "?h * ?w < 2 ^ 28" using small(2) by (rule le_less_trans)
  then have wh: "?w * ?h * 8 < 2 ^ 32" by (simp add: mult.commute)
  have size: "pixels_size v (fix_drawn env) = ?w * ?h"
  proof -
    have "unat (xres v * yres v) = ?w * ?h" using wh by (simp add: unat_mult_lem [THEN iffD1])
    then have "unat (xres v * yres v * 8) = ?w * ?h * 8"
      using wh unat_mult_lem [of "xres v * yres v" 8, THEN iffD1] by simp
    then show ?thesis by (simp add: pixels_size_def v(2) unat_div)
  qed
  let ?s = "draw_screen v (fix_drawn env) (?w * ?h)"
  have ok: "mode_ok ?s"
    using v(2) wl small
    by (simp add: mode_ok_def draw_screen_def scr_width_def scr_stride_def scr_pixel_size_def bytes_per_pixel_def)
  have len: "length fbp = scr_mapped ?s" using map(2) by (simp add: draw_screen_def)
  have main: "draw_bitmap_main env = None \<longleftrightarrow> scr_loop ?s fbp = None"
    using assms(1) map(1) v(1) size draw_eq_loop [of v "fix_drawn env" fbp "?w * ?h"]
    by (simp add: draw_bitmap_main_def fb_main_result)
  have "scr_loop ?s fbp = None \<longleftrightarrow> \<not> last_row_fits ?s"
    using scr_loop_paints [OF _ len] scr_loop_needs_room [OF ok len] ok w0
    by (cases "scr_loop ?s fbp") (auto simp: screen_ok_def draw_screen_def scr_width_def)
  also have "\<dots> \<longleftrightarrow> 1 < ?h \<and> ?w < ?l"
  proof (cases ?h)
    case (Suc h)
    have "h * ?l + ?w \<le> ?w * Suc h \<longleftrightarrow> h * ?l \<le> h * ?w" by (simp add: mult.commute)
    also have "\<dots> \<longleftrightarrow> h = 0 \<or> ?l \<le> ?w" by auto
    finally show ?thesis
      using Suc v(2) by (auto simp: last_row_fits_def draw_screen_def scr_width_def scr_stride_def
          scr_pixel_size_def bytes_per_pixel_def)
  qed (simp add: last_row_fits_def draw_screen_def)
  finally show ?thesis using main by (simp add: word_less_nat_alt)
qed

definition padded_env :: fb_env where
  "padded_env = \<lparr>env_open = True, env_get = Some \<lparr>xres = 6, yres = 2, bits_per_pixel = 24\<rparr>,
     env_put = Some, env_fix = Some \<lparr>line_length = 8, smem_len = 16\<rparr>,
     env_mmap = (\<lambda>n. Some (replicate n 0))\<rparr>"

theorem draw_bitmap_main_faults_iff_padded_witness: "draw_bitmap_main padded_env = None"
proof -
  have m: "mode_drawn padded_env = \<lparr>xres = 6, yres = 2, bits_per_pixel = 8\<rparr>"
    and f: "fix_drawn padded_env = \<lparr>line_length = 8, smem_len = 16\<rparr>"
    by (simp_all add: padded_env_def mode_drawn_def mode_before_def mode_read_def fix_drawn_def)
  show ?thesis
    using draw_bitmap_main_faults_iff_padded [of padded_env "\<lparr>xres = 6, yres = 2, bits_per_pixel = 8\<rparr>" "replicate 12 0"]
    by (simp add: m f) (simp add: padded_env_def)
qed

text \<open>
  C30: In every run of \<open>draw_bitmap\<close>, \<open>fbtest3\<close>, \<open>fbtest4\<close> or \<open>fbtest6\<close> that opens the device
  and does not fault while drawing, whichever of the other system calls fail, the program
  ends with status 0 after unmapping exactly what it mapped, putting back the mode it read at
  the start, and closing the device.  When that first read failed, what is put back is the
  initial contents of the structure: zeros, in \<open>fbtest3\<close> (whose structures are locals) whatever
  the stack held.
\<close>

theorem fb_programs_restore_mode:
  assumes "env_open env"
    and "(prog, v0) \<in> {(draw_bitmap_main, zero_var), (fbtest3_main var_info fix_info, var_info),
      (fbtest4_main, zero_var), (fbtest6_main, zero_var)}"
    and "prog env = Some (rc, calls)"
  shows "rc = 0 \<and> (\<exists>front n. Mmap n \<in> set front \<and>
    calls = front @ [Munmap n, PutVar (case env_get env of None \<Rightarrow> v0 | Some v \<Rightarrow> v), Close])"
  using assms(2,3) fb_main_tail [OF assms(1)]
  unfolding mode_read_def draw_bitmap_main_def fbtest3_main_def fbtest4_main_def fbtest6_main_def by blast

theorem fb_programs_restore_mode_witness:
  "\<exists>calls. fbtest4_main padded_env = Some (0, calls)
     \<and> last (butlast calls) = PutVar \<lparr>xres = 6, yres = 2, bits_per_pixel = 24\<rparr>"
proof -
  let ?v = "\<lparr>xres = 6, yres = 2, bits_per_pixel = 8\<rparr>" and ?f = "\<lparr>line_length = 8, smem_len = 16\<rparr>"
  have "screen_ok (half_screen 16 ?v ?f 16)"
    by (simp add: screen_ok_def mode_ok_def last_row_fits_def half_screen_def scr_width_def
        scr_stride_def scr_pixel_size_def bytes_per_pixel_def)
  then have "fbtest4_draw ?v ?f (replicate 16 0) \<noteq> None"
    by (simp add: fbtest4_draw_eq_loop [where n = 16] scr_loop_paints half_screen_def)
  then have "fbtest4_main padded_env \<noteq> None"
    by (auto simp: fbtest4_main_def fb_main_def mode_read_def padded_env_def Let_def)
  then obtain rc calls where r: "fbtest4_main padded_env = Some (rc, calls)" by auto
  have "env_open padded_env" by (simp add: padded_env_def)
  then show ?thesis
    using r fb_programs_restore_mode [of padded_env fbtest4_main zero_var undefined undefined rc calls]
    by (auto simp: padded_env_def butlast_append)
qed

lemma bit_fields:
  assumes "0 \<le> (B::int)" "B < 64" "0 \<le> C" "C < 32"
  shows "(A * 2048 + B * 32 + C) div 2048 = A" "(A * 2048 + B * 32 + C) div 32 mod 64 = B"
    "(A * 2048 + B * 32 + C) mod 32 = C"
proof -
  have "A * 2048 + B * 32 + C = (B * 32 + C) + A * 2048" by simp
  then show "(A * 2048 + B * 32 + C) div 2048 = A"
    using assms by (simp only: div_mult_self1)
  have *: "A * 2048 + B * 32 + C = C + (A * 64 + B) * 32" by simp
  have "(C + X * 32) div 32 = X" "(C + X * 32) mod 32 = C" for X
    using assms by simp_all
  then have "(A * 2048 + B * 32 + C) div 32 = A * 64 + B" "(A * 2048 + B * 32 + C) mod 32 = C"
    unfolding * by blast+
  then show "(A * 2048 + B * 32 + C) div 32 mod 64 = B" "(A * 2048 + B * 32 + C) mod 32 = C"
    using assms by simp_all
qed

text \<open>
  The 16-bit colour written by \<open>put_pixel_RGB565\<close> has the top 5, 6 and 5 bits of the
  three 8-bit components in its fields, and the two bytes stored read back to that value.
\<close>

theorem rgb565_fields:
  assumes "0 \<le> r" "r < 256" "0 \<le> g" "g < 256" "0 \<le> b" "b < 256"
  shows "int (rgb565 r g b) div 2048 = r div 8 \<and> int (rgb565 r g b) div 32 mod 64 = g div 4
    \<and> int (rgb565 r g b) mod 32 = b div 8 \<and> le_nat (le_enc 2 (rgb565 r g b)) = rgb565 r g b"
proof -
  have q: "0 \<le> r div 8" "r div 8 < 32" "0 \<le> g div 4" "g div 4 < 64" "0 \<le> b div 8" "b div 8 < 32"
    using assms by auto
  have v: "int (rgb565 r g b) = (r div 8) * 2048 + (g div 4) * 32 + b div 8"
    using assms q by (simp add: rgb565_def cint_simps)
  have "rgb565 r g b < 256 ^ 2" using v q by simp
  then have "le_nat (le_enc 2 (rgb565 r g b)) = rgb565 r g b"
    by (simp only: le_nat_le_enc mod_less)
  moreover have "int (rgb565 r g b) div 2048 = r div 8" "int (rgb565 r g b) div 32 mod 64 = g div 4"
    "int (rgb565 r g b) mod 32 = b div 8"
    unfolding v using q by (simp_all only: bit_fields)
  ultimately show ?thesis by blast
qed

theorem rgb565_fields_witness: "int (rgb565 172 84 255) div 2048 = 21"
  using rgb565_fields [of 172 84 255] by simp

end
