(* ===== verification/ClientProtocol.thy ===== *)
theory ClientProtocol
  imports Prelude "HOL-Library.Monad_Syntax"
begin

text \<open>
  The per-connection protocol machine of \<open>server/Server.cpp\<close>: \<open>Client::init\<close>,
  \<open>Client::receive\<close>, \<open>Client::draw\<close> and \<open>~Client\<close>.  A client sends messages
  \<open>type (4 bytes), length (4 bytes), payload\<close>, little-endian; \<open>receive\<close> is handed whatever
  one \<open>read\<close> returned.  Heap arrays are lists of cells, \<open>None\<close> for a byte not yet written;
  \<open>None\<close> as a result is a fault (access outside an array, through a null pointer, a read of
  a byte never written, an allocation of negative size).  The TurboJPEG decoder is a parameter.
\<close>

section \<open>State\<close>

type_synonym cells = "byte option list"

record client =
  fd :: int
  resX :: int
  resY :: int
  bpp :: int
  header_length :: int
  header_type :: int
  remainBytes :: int
  userID :: int
  userName :: "cells option"
  userNameLength :: nat
  recvBuffer :: "cells option"
  recvOffset :: nat
  rawBufferSize :: int
  jpegWidth :: "int option"
  jpegHeight :: "int option"
  jpegBuffer :: "cells option"
  jpegOffset :: nat

record globals =
  focus_fd :: int
  ready_fd :: int
  userCount :: int
  fbp :: "byte list"

text \<open>
  The decoder: \<open>tj_header\<close> gives the size of a JPEG image or fails; \<open>tj_decode jpeg w h dst\<close>
  is the destination memory \<open>dst\<close> (\<open>3 * w * h\<close> bytes) after decoding into it.
\<close>

record turbojpeg =
  tj_header :: "byte list \<Rightarrow> (int \<times> int) option"
  tj_decode :: "byte list \<Rightarrow> int \<Rightarrow> int \<Rightarrow> byte list \<Rightarrow> byte list"

definition RECV_NAME :: int where "RECV_NAME = 2"
definition SEND_USER_LIST :: int where "SEND_USER_LIST = 3"
definition CHANGE_FOCUS_STATUS :: int where "CHANGE_FOCUS_STATUS = 4"
definition RECV_IMAGE :: int where "RECV_IMAGE = 5"

lemmas message_types = RECV_NAME_def SEND_USER_LIST_def CHANGE_FOCUS_STATUS_def RECV_IMAGE_def

section \<open>Constructor and destructor\<close>

definition client_init :: "client \<Rightarrow> globals \<Rightarrow> client \<times> globals" where
  "client_init c g =
     (c\<lparr>recvOffset := 0, recvBuffer := None, userName := None, userNameLength := 0,
        jpegOffset := 0, jpegBuffer := None, remainBytes := -1,
        rawBufferSize := cdiv (resX c * resY c * bpp c) 8\<rparr>,
      (if userCount g = 0 then g\<lparr>focus_fd := -1, ready_fd := fd c\<rparr> else g)
        \<lparr>userCount := userCount g + 1\<rparr>)"

definition new_Client :: "int \<Rightarrow> int \<Rightarrow> int \<times> int \<times> int \<Rightarrow> globals \<Rightarrow> client \<times> globals" where
  "new_Client socket ident mode g =
     (let (xr, yr, bits) = mode in
      client_init
       \<lparr>fd = socket, resX = xr, resY = yr, bpp = bits, header_length = 0, header_type = 0,
        remainBytes = 0, userID = ident, userName = None, userNameLength = 0,
        recvBuffer = None, recvOffset = 0, rawBufferSize = 0, jpegWidth = None,
        jpegHeight = None, jpegBuffer = None, jpegOffset = 0\<rparr> g)"

definition delete_Client :: "client \<Rightarrow> globals \<Rightarrow> globals" where
  "delete_Client c g =
     (let g1 = g\<lparr>userCount := userCount g - 1\<rparr>
      in if fd c = focus_fd g1
         then (if userCount g1 = 0 then g1\<lparr>focus_fd := -1, ready_fd := -1\<rparr>
               else g1\<lparr>ready_fd := 0\<rparr>)
         else g1)"

section \<open>Drawing a frame\<close>

definition initialised :: "cells \<Rightarrow> byte list option" where
  "initialised cs = (if None \<in> set cs then None else Some (map the cs))"

definition client_draw :: "turbojpeg \<Rightarrow> client \<Rightarrow> globals \<Rightarrow> (client \<times> globals) option" where
  "client_draw tj c g =
     (if jpegOffset c = 0 then Some (c, g)
      else do {
        buf \<leftarrow> jpegBuffer c;
        cs \<leftarrow> load_bytes 0 (jpegOffset c) buf;
        jpeg \<leftarrow> initialised cs;
        let c1 = (case tj_header tj jpeg of None \<Rightarrow> c
                  | Some (w, h) \<Rightarrow> c\<lparr>jpegWidth := Some w, jpegHeight := Some h\<rparr>);
        w \<leftarrow> jpegWidth c1;
        h \<leftarrow> jpegHeight c1;
        if w = resX c1 \<and> h = resY c1
        then do {
          dst \<leftarrow> load_bytes 0 (nat (3 * w * h)) (fbp g);
          fbp' \<leftarrow> store_bytes 0 (tj_decode tj jpeg w h dst) (fbp g);
          Some (c1, g\<lparr>fbp := fbp'\<rparr>)
        }
        else Some (c1, g)
      })"

section \<open>Receiving\<close>

text \<open>\<open>new char[n + 1]\<close> with the last byte set to 0.\<close>

definition new_array :: "int \<Rightarrow> cells option" where
  "new_array n =
     (if 0 \<le> n \<and> n < 2 ^ 31 - 1 then Some (replicate (nat n) None @ [Some 0]) else None)"

text \<open>The header branch: \<open>False\<close> for an invalid type, where \<open>receive\<close> returns -1.\<close>

definition recv_header :: "byte list \<Rightarrow> nat \<Rightarrow> client \<Rightarrow> (bool \<times> client) option" where
  "recv_header buf chunkRead c =
     do {
       t \<leftarrow> load_bytes chunkRead 4 buf;
       l \<leftarrow> load_bytes (chunkRead + 4) 4 buf;
       let ty = s32 (int (le_nat t));
       let len = s32 (int (le_nat l));
       let c1 = c\<lparr>header_type := ty, header_length := len\<rparr>;
       if ty > 10 \<or> ty < 0 then Some (False, c1)
       else do {
         let c2 = c1\<lparr>remainBytes := len, recvOffset := 0\<rparr>;
         c3 \<leftarrow> (if len > 0
                then do { a \<leftarrow> new_array len; Some (c2\<lparr>recvBuffer := Some a\<rparr>) }
                else Some c2);
         c4 \<leftarrow> (if ty = RECV_NAME \<and> userName c3 = None
                then do { a \<leftarrow> new_array len; Some (c3\<lparr>userName := Some a\<rparr>) }
                else Some c3);
         Some (True, c4)
       }
     }"

text \<open>\<open>memcpy(recvBuffer + recvOffset, buf + chunkRead, n); recvOffset += n\<close>\<close>

definition append_recv :: "byte list \<Rightarrow> nat \<Rightarrow> nat \<Rightarrow> client \<Rightarrow> client option" where
  "append_recv buf chunkRead n c =
     do {
       rb \<leftarrow> recvBuffer c;
       bs \<leftarrow> load_bytes chunkRead n buf;
       rb' \<leftarrow> store_bytes (recvOffset c) (map Some bs) rb;
       Some (c\<lparr>recvBuffer := Some rb', recvOffset := recvOffset c + n\<rparr>)
     }"

definition finish_image :: "turbojpeg \<Rightarrow> client \<Rightarrow> globals \<Rightarrow> (client \<times> globals) option" where
  "finish_image tj c g =
     do {
       rb \<leftarrow> recvBuffer c;
       cs \<leftarrow> load_bytes 0 (recvOffset c) rb;
       let c1 = c\<lparr>jpegBuffer := Some (cs @ [Some 0]), jpegOffset := recvOffset c\<rparr>;
       if focus_fd g = fd c1 then client_draw tj c1 g else Some (c1, g)
     }"

definition finish_name :: "client \<Rightarrow> client option" where
  "finish_name c =
     do {
       rb \<leftarrow> recvBuffer c;
       un \<leftarrow> userName c;
       cs \<leftarrow> load_bytes 0 (recvOffset c) rb;
       un1 \<leftarrow> store_bytes 0 cs un;
       un2 \<leftarrow> store_bytes (recvOffset c) [Some 0] un1;
       Some (c\<lparr>userName := Some un2, userNameLength := recvOffset c\<rparr>)
     }"

definition finish_focus :: "client \<Rightarrow> globals \<Rightarrow> globals option" where
  "finish_focus c g =
     do {
       rb \<leftarrow> recvBuffer c;
       cs \<leftarrow> load_bytes 0 4 rb;
       bs \<leftarrow> initialised cs;
       Some (g\<lparr>ready_fd := s32 (int (le_nat bs))\<rparr>)
     }"

definition finish_message :: "turbojpeg \<Rightarrow> client \<Rightarrow> globals \<Rightarrow> (client \<times> globals) option" where
  "finish_message tj c g =
     (if header_type c = RECV_IMAGE then finish_image tj c g
      else if header_type c = RECV_NAME then do { c1 \<leftarrow> finish_name c; Some (c1, g) }
      else if header_type c = CHANGE_FOCUS_STATUS then do { g1 \<leftarrow> finish_focus c g; Some (c, g1) }
      else Some (c, g))"

text \<open>
  The data branch, with \<open>avail = chunkSize - chunkRead\<close> bytes of the chunk left: the number
  of bytes consumed and the new state.
\<close>

definition recv_data ::
  "turbojpeg \<Rightarrow> byte list \<Rightarrow> nat \<Rightarrow> nat \<Rightarrow> client \<Rightarrow> globals \<Rightarrow> (nat \<times> client \<times> globals) option" where
  "recv_data tj buf chunkRead avail c g =
     (if remainBytes c > int avail
      then do {
        c1 \<leftarrow> (if header_type c = RECV_IMAGE \<or> header_type c = RECV_NAME
               then append_recv buf chunkRead avail c else Some c);
        Some (avail, c1\<lparr>remainBytes := remainBytes c1 - int avail\<rparr>, g)
      }
      else do {
        let readSize = nat (remainBytes c);
        c1 \<leftarrow> append_recv buf chunkRead readSize c;
        (c2, g2) \<leftarrow> finish_message tj c1 g;
        Some (readSize, c2\<lparr>remainBytes := remainBytes c2 - int readSize\<rparr>, g2)
      })"

lemma recv_data_progress:
  assumes "recv_data tj buf i avail c g = Some (n, c', g')" "0 < remainBytes c" "0 < avail"
  shows "0 < n"
  using assms by (auto simp: recv_data_def Let_def bind_eq_Some_conv split: if_splits prod.splits)

text \<open>
  The loop of \<open>receive\<close> from position \<open>chunkRead\<close> of a chunk of \<open>chunkSize\<close> bytes; \<open>buf\<close> is
  the whole array the chunk lies in, so bytes past \<open>chunkSize\<close> can be read.  The result is
  the return value and the new state.
\<close>

function receive_loop ::
  "turbojpeg \<Rightarrow> byte list \<Rightarrow> nat \<Rightarrow> nat \<Rightarrow> client \<Rightarrow> globals \<Rightarrow> (int \<times> client \<times> globals) option" where
  "receive_loop tj buf chunkSize chunkRead c g =
     (if chunkRead < chunkSize then
        if remainBytes c \<le> 0 then
          (case recv_header buf chunkRead c of
             None \<Rightarrow> None
           | Some (False, c1) \<Rightarrow> Some (-1, c1, g)
           | Some (True, c1) \<Rightarrow> receive_loop tj buf chunkSize (chunkRead + 8) c1 g)
        else
          (case recv_data tj buf chunkRead (chunkSize - chunkRead) c g of
             None \<Rightarrow> None
           | Some (n, c1, g1) \<Rightarrow> receive_loop tj buf chunkSize (chunkRead + n) c1 g1)
      else Some (0, c, g))"
  by pat_completeness auto
termination
  by (relation "measure (\<lambda>(tj, buf, chunkSize, chunkRead, c, g). chunkSize - chunkRead)")
    (auto dest: recv_data_progress)

declare receive_loop.simps [simp del]

definition receive ::
  "turbojpeg \<Rightarrow> byte list \<Rightarrow> nat \<Rightarrow> client \<Rightarrow> globals \<Rightarrow> (int \<times> client \<times> globals) option" where
  "receive tj buf len c g = receive_loop tj buf len 0 c g"

text \<open>Successive chunks, each in its own read buffer with bytes of earlier reads behind it.\<close>

fun receive_all ::
  "turbojpeg \<Rightarrow> (byte list \<times> byte list) list \<Rightarrow> client \<Rightarrow> globals \<Rightarrow> (int \<times> client \<times> globals) option" where
  "receive_all tj [] c g = Some (0, c, g)"
| "receive_all tj ((d, junk) # chunks) c g =
     (case receive tj (d @ junk) (length d) c g of
        None \<Rightarrow> None
      | Some (ret, c1, g1) \<Rightarrow> if ret < 0 then Some (ret, c1, g1) else receive_all tj chunks c1 g1)"

section \<open>What a message means\<close>

type_synonym message = "nat \<times> byte list"

definition encode_header :: "nat \<Rightarrow> nat \<Rightarrow> byte list" where
  "encode_header ty n = le_enc 4 ty @ le_enc 4 n"

definition encode_message :: "message \<Rightarrow> byte list" where
  "encode_message m = encode_header (fst m) (length (snd m)) @ snd m"

definition valid_message :: "message \<Rightarrow> bool" where
  "valid_message m \<longleftrightarrow> fst m \<le> 10 \<and> length (snd m) < 2 ^ 31 - 1"

definition start_message :: "nat \<Rightarrow> nat \<Rightarrow> client \<Rightarrow> client" where
  "start_message ty n c =
     (let c1 = c\<lparr>header_type := int ty, header_length := int n, remainBytes := int n, recvOffset := 0\<rparr>;
          c2 = (if 0 < n then c1\<lparr>recvBuffer := Some (replicate n None @ [Some 0])\<rparr> else c1)
      in if int ty = RECV_NAME \<and> userName c = None
         then c2\<lparr>userName := Some (replicate n None @ [Some 0])\<rparr> else c2)"

text \<open>\<open>deliver\<close>: the effect of one whole message on a connection between messages.\<close>

definition deliver :: "turbojpeg \<Rightarrow> message \<Rightarrow> client \<Rightarrow> globals \<Rightarrow> (client \<times> globals) option" where
  "deliver tj m c g =
     (let n = length (snd m); c1 = start_message (fst m) n c in
      if n = 0 then Some (c1, g)
      else do {
        (c2, g2) \<leftarrow> finish_message tj
          (c1\<lparr>recvBuffer := Some (map Some (snd m) @ [Some 0]), recvOffset := n\<rparr>) g;
        Some (c2\<lparr>remainBytes := 0\<rparr>, g2)
      })"

fun deliver_all :: "turbojpeg \<Rightarrow> message list \<Rightarrow> client \<Rightarrow> globals \<Rightarrow> (client \<times> globals) option" where
  "deliver_all tj [] c g = Some (c, g)"
| "deliver_all tj (m # ms) c g =
     (case deliver tj m c g of None \<Rightarrow> None | Some (c1, g1) \<Rightarrow> deliver_all tj ms c1 g1)"

definition idle :: "client \<Rightarrow> bool" where
  "idle c \<longleftrightarrow> remainBytes c \<le> 0"

text \<open>The first \<open>k\<close> payload bytes of a message have arrived.\<close>

definition partway :: "nat \<Rightarrow> byte list \<Rightarrow> nat \<Rightarrow> client \<Rightarrow> client" where
  "partway ty p k c = (start_message ty (length p) c)
     \<lparr>recvBuffer := Some (map Some (take k p) @ replicate (length p - k) None @ [Some 0]),
      recvOffset := k, remainBytes := int (length p - k)\<rparr>"

section \<open>Lemmas on the steps\<close>

lemma load_bytes_drop [mem_simps]:
  "i \<le> length m \<Longrightarrow> load_bytes (i + j) n m = load_bytes j n (drop i m)"
  by (auto simp: load_bytes_def add.commute)

lemma load_bytes_prefix [mem_simps]: "load_bytes 0 (length xs) (xs @ ys) = Some xs"
  by (simp add: load_bytes_def)

lemma recv_header_drop:
  "j \<le> length buf \<Longrightarrow> recv_header buf (j + i) c = recv_header (drop j buf) i c"
  using load_bytes_drop [of j buf i 4] load_bytes_drop [of j buf "i + 4" 4]
  by (simp add: recv_header_def add.assoc)

lemma append_recv_drop:
  "j \<le> length buf \<Longrightarrow> append_recv buf (j + i) n c = append_recv (drop j buf) i n c"
  by (simp add: append_recv_def load_bytes_drop)

lemma recv_data_drop:
  "j \<le> length buf \<Longrightarrow> recv_data tj buf (j + i) av c g = recv_data tj (drop j buf) i av c g"
  by (simp add: recv_data_def append_recv_drop)

text \<open>Only the bytes from the current position on matter.\<close>

lemma receive_loop_drop:
  assumes "j \<le> length buf"
  shows "receive_loop tj buf n (j + i) c g = receive_loop tj (drop j buf) (n - j) i c g"
proof (induction "n - (j + i)" arbitrary: i c g rule: less_induct)
  case less
  show ?case
  proof (cases "j + i < n")
    case True
    then have i: "i < n - j" by simp
    show ?thesis
    proof (cases "remainBytes c \<le> 0")
      case idle: True
      show ?thesis
      proof (cases "recv_header buf (j + i) c")
        case None
        then show ?thesis
          using True i idle recv_header_drop [OF assms, of i c]
          by (simp add: receive_loop.simps [of tj buf n "j + i" c g]
              receive_loop.simps [of tj "drop j buf" "n - j" i c g])
      next
        case (Some r)
        obtain ok c1 where r: "r = (ok, c1)" by (cases r)
        have "receive_loop tj buf n (j + (i + 8)) c1 g = receive_loop tj (drop j buf) (n - j) (i + 8) c1 g"
          using True by (intro less.hyps) simp
        then show ?thesis
          using True i idle Some r recv_header_drop [OF assms, of i c]
          by (cases ok) (simp_all add: add.assoc receive_loop.simps [of tj buf n "j + i" c g]
              receive_loop.simps [of tj "drop j buf" "n - j" i c g])
      qed
    next
      case busy: False
      show ?thesis
      proof (cases "recv_data tj buf (j + i) (n - (j + i)) c g")
        case None
        then show ?thesis
          using True i busy recv_data_drop [OF assms, of tj i "n - (j + i)" c g]
          by (simp add: receive_loop.simps [of tj buf n "j + i" c g]
              receive_loop.simps [of tj "drop j buf" "n - j" i c g])
      next
        case (Some r)
        obtain k c1 g1 where r: "r = (k, c1, g1)" by (cases r)
        have "0 < k" using recv_data_progress [OF Some [unfolded r]] busy True by simp
        then have "receive_loop tj buf n (j + (i + k)) c1 g1 = receive_loop tj (drop j buf) (n - j) (i + k) c1 g1"
          using True by (intro less.hyps) simp
        then show ?thesis
          using True i busy Some r recv_data_drop [OF assms, of tj i "n - (j + i)" c g]
          by (simp add: add.assoc receive_loop.simps [of tj buf n "j + i" c g]
              receive_loop.simps [of tj "drop j buf" "n - j" i c g])
      qed
    qed
  next
    case False
    then have "\<not> i < n - j" by arith
    with False show ?thesis
      by (simp add: receive_loop.simps [of tj buf n "j + i" c g]
          receive_loop.simps [of tj "drop j buf" "n - j" i c g])
  qed
qed

lemma s32_of_nat: "n < 2 ^ 31 \<Longrightarrow> s32 (int n) = int n"
  by (simp add: s32_def)

lemma le_nat_enc4: "n < 2 ^ 32 \<Longrightarrow> le_nat (le_enc 4 n) = n"
  by (simp only: le_nat_le_enc) simp

lemma recv_header_encoded:
  assumes "ty \<le> 10" "n < 2 ^ 31 - 1"
  shows "recv_header (encode_header ty n @ rest) 0 c = Some (True, start_message ty n c)"
proof -
  obtain t where t: "load_bytes 0 4 (encode_header ty n @ rest) = Some t" "s32 (int (le_nat t)) = int ty"
    using assms by (intro that [of "le_enc 4 ty"])
      (simp_all add: load_bytes_def encode_header_def le_nat_enc4 s32_of_nat)
  obtain l where l: "load_bytes 4 4 (encode_header ty n @ rest) = Some l" "s32 (int (le_nat l)) = int n"
    using assms by (intro that [of "le_enc 4 n"])
      (simp_all add: load_bytes_def encode_header_def le_nat_enc4 s32_of_nat)
  show ?thesis
    using assms t l by (simp add: recv_header_def start_message_def new_array_def Let_def)
qed

lemma length_encode_header [simp]: "length (encode_header ty n) = 8"
  by (simp add: encode_header_def)

lemma start_message_fields:
  "remainBytes (start_message ty n c) = int n" "header_type (start_message ty n c) = int ty"
  "recvOffset (start_message ty n c) = 0"
  "0 < n \<Longrightarrow> recvBuffer (start_message ty n c) = Some (replicate n None @ [Some 0])"
  by (simp_all add: start_message_def Let_def)

text \<open>One header at the start of the buffer.\<close>

lemma receive_loop_header:
  assumes "idle c" "ty \<le> 10" "n < 2 ^ 31 - 1" "0 < len"
  shows "receive_loop tj (encode_header ty n @ rest) len 0 c g =
    receive_loop tj rest (len - 8) 0 (start_message ty n c) g"
proof -
  have "receive_loop tj (encode_header ty n @ rest) len 0 c g
      = receive_loop tj (encode_header ty n @ rest) len (8 + 0) (start_message ty n c) g"
    using assms by (subst receive_loop.simps) (simp add: idle_def recv_header_encoded)
  also have "\<dots> = receive_loop tj (drop 8 (encode_header ty n @ rest)) (len - 8) 0 (start_message ty n c) g"
    by (rule receive_loop_drop) simp
  finally show ?thesis by simp
qed

text \<open>The finishing handlers neither read nor write \<open>remainBytes\<close>.\<close>

definition with_remain :: "int \<Rightarrow> client \<times> globals \<Rightarrow> client \<times> globals" where
  "with_remain r cg = ((fst cg)\<lparr>remainBytes := r\<rparr>, snd cg)"

lemma client_draw_remain:
  "client_draw tj (c\<lparr>remainBytes := r\<rparr>) g = map_option (with_remain r) (client_draw tj c g)"
  by (simp add: client_draw_def Let_def with_remain_def bind_eq_None_conv
      split: option.split prod.split bind_split)

lemma client_draw_remain_jpeg:
  "client_draw tj (c\<lparr>remainBytes := r, jpegBuffer := a, jpegOffset := b\<rparr>) g
   = map_option (with_remain r) (client_draw tj (c\<lparr>jpegBuffer := a, jpegOffset := b\<rparr>) g)"
proof -
  have "c\<lparr>remainBytes := r, jpegBuffer := a, jpegOffset := b\<rparr>
      = c\<lparr>jpegBuffer := a, jpegOffset := b, remainBytes := r\<rparr>" by simp
  then show ?thesis by (simp only: client_draw_remain)
qed

lemma finish_image_remain:
  "finish_image tj (c\<lparr>remainBytes := r\<rparr>) g = map_option (with_remain r) (finish_image tj c g)"
  by (simp add: finish_image_def Let_def client_draw_remain_jpeg with_remain_def
      split: bind_split)

lemma finish_name_remain:
  "finish_name (c\<lparr>remainBytes := r\<rparr>) = map_option (\<lambda>c. c\<lparr>remainBytes := r\<rparr>) (finish_name c)"
  by (simp add: finish_name_def split: bind_split)

lemma finish_focus_remain: "finish_focus (c\<lparr>remainBytes := r\<rparr>) g = finish_focus c g"
  by (simp add: finish_focus_def)

lemma finish_message_remain:
  "finish_message tj (c\<lparr>remainBytes := r\<rparr>) g = map_option (with_remain r) (finish_message tj c g)"
  by (simp add: finish_message_def finish_image_remain finish_name_remain finish_focus_remain
      split: bind_split) (simp add: with_remain_def)

lemma partway_0: "0 < length p \<Longrightarrow> partway ty p 0 c = start_message ty (length p) c"
  by (simp add: partway_def start_message_def Let_def)

lemma append_recv_partway:
  assumes "p = pre @ s @ post"
  shows "append_recv (s @ junk) 0 (length s) (partway ty p (length pre) c)
    = Some ((partway ty p (length pre + length s) c)\<lparr>remainBytes := int (length p - length pre)\<rparr>)"
  using assms
  by (simp add: append_recv_def partway_def load_bytes_prefix store_bytes_def)

lemma recv_data_segment:
  assumes "p = pre @ s @ post" "post \<noteq> []" "int ty \<in> {RECV_IMAGE, RECV_NAME}"
  shows "recv_data tj (s @ junk) 0 (length s) (partway ty p (length pre) c) g
    = Some (length s, partway ty p (length pre + length s) c, g)"
proof -
  let ?c = "partway ty p (length pre) c"
  have "remainBytes ?c > int (length s)"
    using assms(1,2) by (simp add: partway_def)
  moreover have "header_type ?c = RECV_IMAGE \<or> header_type ?c = RECV_NAME"
    using assms(3) by (simp add: partway_def start_message_fields)
  moreover have "(partway ty p (length pre + length s) c)\<lparr>remainBytes := int (length p - length pre) - int (length s)\<rparr>
      = partway ty p (length pre + length s) c"
    using assms(1) by (simp add: partway_def)
  ultimately show ?thesis
    using append_recv_partway [OF assms(1), of junk ty c] by (simp add: recv_data_def)
qed

lemma recv_data_last:
  assumes "p = pre @ s" "s \<noteq> []" "length s \<le> avail"
  shows "recv_data tj (s @ junk) 0 avail (partway ty p (length pre) c) g
    = map_option (\<lambda>(c, g). (length s, c, g)) (deliver tj (ty, p) c g)"
proof -
  let ?c = "partway ty p (length p) c"
  have ap: "append_recv (s @ junk) 0 (length s) (partway ty p (length pre) c)
    = Some (?c\<lparr>remainBytes := int (length s)\<rparr>)"
    using append_recv_partway [of p pre s "[]"] assms(1) by simp
  have rem: "remainBytes (partway ty p (length pre) c) = int (length s)"
    using assms(1) by (simp add: partway_def)
  have "?c = (start_message ty (length p) c)\<lparr>recvBuffer := Some (map Some p @ [Some 0]),
      recvOffset := length p\<rparr>\<lparr>remainBytes := 0\<rparr>"
    by (simp add: partway_def)
  then have del: "deliver tj (ty, p) c g = finish_message tj ?c g"
    using assms(1,2)
    by (simp only: finish_message_remain)
      (auto simp: deliver_def Let_def with_remain_def split: bind_split option.split)
  have "?c\<lparr>remainBytes := 0\<rparr> = ?c" by (simp add: partway_def)
  then have zero: "map_option (with_remain 0) (finish_message tj ?c g) = finish_message tj ?c g"
    by (metis finish_message_remain)
  show ?thesis
  proof (cases "finish_message tj ?c g")
    case None
    then show ?thesis
      using ap rem assms(3) del by (simp add: recv_data_def finish_message_remain)
  next
    case (Some r)
    then have "with_remain 0 r = r" using zero by simp
    then show ?thesis
      using Some ap rem assms(3) del
      by (cases r) (simp add: recv_data_def finish_message_remain with_remain_def)
  qed
qed

section \<open>Whole messages and segmented messages\<close>

lemma receive_loop_done: "n \<le> i \<Longrightarrow> receive_loop tj buf n i c g = Some (0, c, g)"
  by (subst receive_loop.simps) simp

lemma receive_loop_data:
  assumes "recv_data tj buf 0 n c g = Some (k, c1, g1)" "0 < remainBytes c" "0 < n" "k \<le> length buf"
  shows "receive_loop tj buf n 0 c g = receive_loop tj (drop k buf) (n - k) 0 c1 g1"
proof -
  have "receive_loop tj buf n 0 c g = receive_loop tj buf n (k + 0) c1 g1"
    using assms by (subst receive_loop.simps) simp
  then show ?thesis using receive_loop_drop [OF assms(4), of tj n 0 c1 g1] by simp
qed

lemma receive_loop_data_fault:
  assumes "recv_data tj buf 0 n c g = None" "0 < remainBytes c" "0 < n"
  shows "receive_loop tj buf n 0 c g = None"
  using assms by (subst receive_loop.simps) simp

lemma deliver_idle: "deliver tj m c g = Some (c1, g1) \<Longrightarrow> idle c1"
  by (auto simp: deliver_def Let_def idle_def start_message_def bind_eq_Some_conv split: if_splits)

lemma receive_loop_message:
  assumes "idle c" "valid_message m"
  shows "receive_loop tj (encode_message m @ rest) (length (encode_message m) + k) 0 c g
    = (case deliver tj m c g of None \<Rightarrow> None | Some (c1, g1) \<Rightarrow> receive_loop tj rest k 0 c1 g1)"
proof -
  obtain ty p where m: "m = (ty, p)" by (cases m)
  let ?c = "start_message ty (length p) c"
  have hdr: "receive_loop tj (encode_message m @ rest) (length (encode_message m) + k) 0 c g
      = receive_loop tj (p @ rest) (length p + k) 0 ?c g"
    using assms by (simp add: m encode_message_def receive_loop_header valid_message_def)
  show ?thesis
  proof (cases "p = []")
    case True
    then show ?thesis unfolding hdr by (simp add: m deliver_def)
  next
    case False
    then have start: "?c = partway ty p 0 c" by (simp add: partway_0)
    have rem: "0 < remainBytes ?c" using False by (simp add: start_message_fields)
    have data: "recv_data tj (p @ rest) 0 (length p + k) ?c g
        = map_option (\<lambda>(c, g). (length p, c, g)) (deliver tj m c g)"
      using recv_data_last [of p "[]" p] False by (simp add: start m)
    show ?thesis
    proof (cases "deliver tj m c g")
      case None
      then show ?thesis
        unfolding hdr using data rem False by (simp add: receive_loop_data_fault)
    next
      case (Some r)
      then obtain c1 g1 where r: "deliver tj m c g = Some (c1, g1)" by (cases r) auto
      have "receive_loop tj (p @ rest) (length p + k) 0 ?c g
          = receive_loop tj (drop (length p) (p @ rest)) (length p + k - length p) 0 c1 g1"
        using data r rem False by (intro receive_loop_data) simp_all
      then show ?thesis unfolding hdr r by simp
    qed
  qed
qed

lemma receive_loop_messages:
  assumes "idle c" "list_all valid_message ms"
  shows "receive_loop tj (concat (map encode_message ms) @ junk)
      (length (concat (map encode_message ms))) 0 c g
    = map_option (\<lambda>(c, g). (0, c, g)) (deliver_all tj ms c g)"
  using assms
proof (induction ms arbitrary: c g)
  case Nil
  then show ?case by (simp add: receive_loop_done)
next
  case (Cons m ms)
  let ?rest = "concat (map encode_message ms)"
  have "receive_loop tj (concat (map encode_message (m # ms)) @ junk)
      (length (concat (map encode_message (m # ms)))) 0 c g
    = (case deliver tj m c g of None \<Rightarrow> None
       | Some (c1, g1) \<Rightarrow> receive_loop tj (?rest @ junk) (length ?rest) 0 c1 g1)"
    using receive_loop_message [of c m tj "?rest @ junk" "length ?rest" g] Cons.prems by simp
  then show ?case
    using Cons.IH [OF deliver_idle] Cons.prems(2)
    by (auto split: option.splits)
qed

lemma receive_all_empty:
  "concat (map fst chunks) = [] \<Longrightarrow> receive_all tj chunks c g = Some (0, c, g)"
  by (induction chunks) (auto simp: receive_def receive_loop_done)

lemma receive_all_segments:
  assumes "p = pre @ concat (map fst chunks)" "concat (map fst chunks) \<noteq> []"
    and "int ty \<in> {RECV_IMAGE, RECV_NAME}"
  shows "receive_all tj chunks (partway ty p (length pre) c) g
    = map_option (\<lambda>(c, g). (0, c, g)) (deliver tj (ty, p) c g)"
  using assms(1,2)
proof (induction chunks arbitrary: pre)
  case Nil
  then show ?case by simp
next
  case (Cons ch chunks)
  obtain d junk where ch: "ch = (d, junk)" by (cases ch)
  let ?post = "concat (map fst chunks)" and ?c = "partway ty p (length pre) c"
  have p: "p = pre @ d @ ?post" using Cons.prems(1) ch by simp
  consider "d = []" | "d \<noteq> []" "?post \<noteq> []" | "d \<noteq> []" "?post = []" by blast
  then show ?case
  proof cases
    case 1
    then show ?thesis
      using Cons.IH [of pre] Cons.prems ch by (simp add: receive_def receive_loop_done)
  next
    case 2
    have "receive tj (d @ junk) (length d) ?c g = Some (0, partway ty p (length (pre @ d)) c, g)"
    proof -
      have "0 < length d" using 2 by simp
      moreover have "remainBytes ?c = int (length d + length ?post)" using p by (simp add: partway_def)
      ultimately have rem: "0 < remainBytes ?c" by linarith
      have "receive_loop tj (d @ junk) (length d) 0 ?c g
          = receive_loop tj (drop (length d) (d @ junk)) (length d - length d) 0
              (partway ty p (length pre + length d) c) g"
        using \<open>0 < length d\<close>
        by (intro receive_loop_data [OF recv_data_segment [OF p 2(2) assms(3)] rem]) simp_all
      then show ?thesis by (simp add: receive_def receive_loop_done)
    qed
    then show ?thesis
      using Cons.IH [of "pre @ d"] p 2 ch by simp
  next
    case 3
    then have data: "recv_data tj (d @ junk) 0 (length d) ?c g
        = map_option (\<lambda>(c, g). (length d, c, g)) (deliver tj (ty, p) c g)"
      using p by (intro recv_data_last) simp_all
    have rem: "0 < remainBytes ?c" using p 3 by (simp add: partway_def)
    show ?thesis
    proof (cases "deliver tj (ty, p) c g")
      case None
      then have "receive tj (d @ junk) (length d) ?c g = None"
        unfolding receive_def using data rem 3 by (intro receive_loop_data_fault) simp_all
      with None show ?thesis using ch by simp
    next
      case (Some r)
      then obtain c1 g1 where r: "deliver tj (ty, p) c g = Some (c1, g1)" by (cases r) auto
      then have "receive_loop tj (d @ junk) (length d) 0 ?c g
          = receive_loop tj (drop (length d) (d @ junk)) (length d - length d) 0 c1 g1"
        using data rem 3 by (intro receive_loop_data) simp_all
      then show ?thesis
        using r ch receive_all_empty [OF 3(2)] by (simp add: receive_def receive_loop_done)
    qed
  qed
qed

section \<open>The state invariant\<close>

text \<open>
  While a payload is awaited the receive buffer has the announced size plus one and room for
  what is missing; for images and names all bytes before \<open>recvOffset\<close> have been written.
  The stored frame and name are complete and terminated.
\<close>

definition receiving_ok :: "client \<Rightarrow> bool" where
  "receiving_ok c \<longleftrightarrow> (\<exists>rb. recvBuffer c = Some rb \<and> int (length rb) = header_length c + 1
     \<and> int (recvOffset c) + remainBytes c \<le> header_length c
     \<and> (header_type c \<in> {RECV_IMAGE, RECV_NAME} \<longrightarrow>
          int (recvOffset c) + remainBytes c = header_length c \<and> None \<notin> set (take (recvOffset c) rb)))"

definition frame_ok :: "client \<Rightarrow> bool" where
  "frame_ok c \<longleftrightarrow> (jpegBuffer c = None \<longrightarrow> jpegOffset c = 0)
     \<and> (\<forall>jb. jpegBuffer c = Some jb \<longrightarrow> length jb = jpegOffset c + 1 \<and> None \<notin> set jb)"

definition name_ok :: "client \<Rightarrow> bool" where
  "name_ok c \<longleftrightarrow> (userName c = None \<longrightarrow> userNameLength c = 0)
     \<and> (\<forall>un. userName c = Some un \<longrightarrow>
          userNameLength c < length un \<and> None \<notin> set (take (userNameLength c) un))"

definition wf_client :: "client \<Rightarrow> bool" where
  "wf_client c \<longleftrightarrow> (0 < remainBytes c \<longrightarrow> receiving_ok c) \<and> frame_ok c \<and> name_ok c"

lemmas wf_defs = wf_client_def receiving_ok_def frame_ok_def name_ok_def

lemma wf_new_Client: "wf_client (fst (new_Client sock ident mode g))"
  by (cases mode) (simp add: new_Client_def client_init_def wf_defs)

lemma new_array_length: "new_array n = Some a \<Longrightarrow> 0 \<le> n \<and> length a = nat n + 1"
  by (auto simp: new_array_def split: if_splits)

lemma recv_header_wf:
  assumes "recv_header buf i c = Some (ok, c')" "wf_client c" "remainBytes c \<le> 0"
  shows "wf_client c'"
proof -
  obtain ty len where r: "(if ty > 10 \<or> ty < 0 then Some (False, c\<lparr>header_type := ty, header_length := len\<rparr>)
       else do {
         let c2 = c\<lparr>header_type := ty, header_length := len, remainBytes := len, recvOffset := 0\<rparr>;
         c3 \<leftarrow> (if len > 0
                then do { a \<leftarrow> new_array len; Some (c2\<lparr>recvBuffer := Some a\<rparr>) }
                else Some c2);
         c4 \<leftarrow> (if ty = RECV_NAME \<and> userName c3 = None
                then do { a \<leftarrow> new_array len; Some (c3\<lparr>userName := Some a\<rparr>) }
                else Some c3);
         Some (True, c4)
       }) = Some (ok, c')"
    using assms(1) unfolding recv_header_def Let_def bind_eq_Some_conv by blast
  have fn: "frame_ok c" "name_ok c" using assms(2) by (simp_all add: wf_client_def)
  show ?thesis
  proof (cases "ty > 10 \<or> ty < 0")
    case True
    then have "c' = c\<lparr>header_type := ty, header_length := len\<rparr>" using r by simp
    then show ?thesis using fn assms(3) by (simp add: wf_client_def frame_ok_def name_ok_def)
  next
    case False
    let ?c2 = "c\<lparr>header_type := ty, header_length := len, remainBytes := len, recvOffset := 0\<rparr>"
    obtain c3 where c3: "(if len > 0 then do { a \<leftarrow> new_array len; Some (?c2\<lparr>recvBuffer := Some a\<rparr>) }
          else Some ?c2) = Some c3"
      and c4: "(if ty = RECV_NAME \<and> userName c3 = None
          then do { a \<leftarrow> new_array len; Some (c3\<lparr>userName := Some a\<rparr>) } else Some c3) = Some c'"
      using r False
      by (auto simp only: if_False Let_def bind_eq_Some_conv option.inject prod.inject split del: if_split)
    have w3: "wf_client c3 \<and> userNameLength c3 = userNameLength c \<and> userName c3 = userName c"
      using c3 fn by (auto simp: wf_client_def frame_ok_def name_ok_def receiving_ok_def
          bind_eq_Some_conv dest: new_array_length split: if_splits)
    then show ?thesis
      using c4 by (auto simp: wf_client_def frame_ok_def name_ok_def receiving_ok_def
          bind_eq_Some_conv dest!: new_array_length split: if_splits)
  qed
qed

lemma append_recv_fields:
  assumes "append_recv buf i n c = Some c'"
  shows "remainBytes c' = remainBytes c" "header_type c' = header_type c"
    "header_length c' = header_length c" "recvOffset c' = recvOffset c + n"
    "frame_ok c' = frame_ok c" "name_ok c' = name_ok c"
  using assms by (auto simp: append_recv_def bind_eq_Some_conv frame_ok_def name_ok_def)

lemma append_recv_ok:
  assumes "append_recv buf i n c = Some c'" "receiving_ok c" "int n \<le> remainBytes c"
  shows "receiving_ok (c'\<lparr>remainBytes := remainBytes c' - int n\<rparr>)"
proof -
  obtain rb bs rb' where *: "recvBuffer c = Some rb" "load_bytes i n buf = Some bs"
    "store_bytes (recvOffset c) (map Some bs) rb = Some rb'"
    "c' = c\<lparr>recvBuffer := Some rb', recvOffset := recvOffset c + n\<rparr>"
    using assms(1) by (auto simp: append_recv_def bind_eq_Some_conv)
  have "length bs = n" using *(2) by (auto simp: load_bytes_def split: if_splits)
  moreover have "take (recvOffset c + length bs) rb' = take (recvOffset c) rb @ map Some bs"
    using *(3) by (auto simp: store_bytes_def split: if_splits)
  moreover have "length rb' = length rb" using *(3) by (rule store_bytes_length)
  ultimately show ?thesis
    using assms(2,3) * by (auto simp: receiving_ok_def)
qed

lemma client_draw_fields:
  assumes "client_draw tj c g = Some (c', g')"
  shows "\<exists>w h. c' = c\<lparr>jpegWidth := w, jpegHeight := h\<rparr>"
proof (cases "jpegOffset c = 0")
  case True
  then have "c' = c\<lparr>jpegWidth := jpegWidth c, jpegHeight := jpegHeight c\<rparr>"
    using assms by (simp add: client_draw_def)
  then show ?thesis by blast
next
  case False
  then obtain jpeg where "c' = (case tj_header tj jpeg of None \<Rightarrow> c
      | Some (w, h) \<Rightarrow> c\<lparr>jpegWidth := Some w, jpegHeight := Some h\<rparr>)"
    using assms by (auto simp: client_draw_def Let_def bind_eq_Some_conv split: if_splits)
  then have "c' = c\<lparr>jpegWidth := jpegWidth c, jpegHeight := jpegHeight c\<rparr> \<or>
      (\<exists>w h. c' = c\<lparr>jpegWidth := w, jpegHeight := h\<rparr>)"
    by (auto split: option.splits)
  then show ?thesis by blast
qed

lemma finish_message_wf:
  assumes "finish_message tj c g = Some (c', g')" "frame_ok c" "name_ok c"
    and got: "\<And>rb. header_type c \<in> {RECV_IMAGE, RECV_NAME} \<Longrightarrow> recvBuffer c = Some rb \<Longrightarrow>
      None \<notin> set (take (recvOffset c) rb)"
  shows "frame_ok c' \<and> name_ok c' \<and> remainBytes c' = remainBytes c"
proof -
  consider "header_type c = RECV_IMAGE" | "header_type c = RECV_NAME"
    | "header_type c \<noteq> RECV_IMAGE" "header_type c \<noteq> RECV_NAME" by blast
  then show ?thesis
  proof cases
    case 1
    then obtain rb where rb: "load_bytes 0 (recvOffset c) rb \<noteq> None"
      "(if focus_fd g = fd c
        then client_draw tj (c\<lparr>jpegBuffer := Some (take (recvOffset c) rb @ [Some 0]), jpegOffset := recvOffset c\<rparr>) g
        else Some (c\<lparr>jpegBuffer := Some (take (recvOffset c) rb @ [Some 0]), jpegOffset := recvOffset c\<rparr>, g))
       = Some (c', g')" "recvBuffer c = Some rb"
      using assms(1)
      by (auto simp: finish_message_def finish_image_def Let_def bind_eq_Some_conv load_bytes_def
          split: if_split_asm simp del: if_split)
    let ?c1 = "c\<lparr>jpegBuffer := Some (take (recvOffset c) rb @ [Some 0]), jpegOffset := recvOffset c\<rparr>"
    have "frame_ok ?c1" "name_ok ?c1" "remainBytes ?c1 = remainBytes c"
      using rb(1) got [OF _ rb(3)] 1 assms(3)
      by (simp_all add: frame_ok_def name_ok_def load_bytes_def split: if_splits)
    then show ?thesis
      using rb(2) by (auto simp: frame_ok_def name_ok_def split: if_splits dest!: client_draw_fields)
  next
    case 2
    then obtain rb un cs un1 un2 where st: "recvBuffer c = Some rb" "load_bytes 0 (recvOffset c) rb = Some cs"
      "store_bytes 0 cs un = Some un1" "store_bytes (recvOffset c) [Some 0] un1 = Some un2"
      "c' = c\<lparr>userName := Some un2, userNameLength := recvOffset c\<rparr>"
      using assms(1)
      by (auto simp: finish_message_def finish_name_def bind_eq_Some_conv message_types)
    then have "cs = take (recvOffset c) rb" "length cs = recvOffset c"
      by (auto simp: load_bytes_def split: if_splits)
    then have "take (recvOffset c) un2 = take (recvOffset c) rb" "recvOffset c < length un2"
      using st by (auto simp: store_bytes_def split: if_splits)
    then show ?thesis
      using st got [OF _ st(1)] 2 assms(2,3) by (simp add: frame_ok_def name_ok_def)
  next
    case 3
    then show ?thesis
      using assms by (auto simp: finish_message_def bind_eq_Some_conv split: if_splits)
  qed
qed

lemma recv_data_wf:
  assumes "recv_data tj buf i av c g = Some (n, c', g')" "wf_client c" "0 < remainBytes c"
  shows "wf_client c'"
proof (cases "remainBytes c > int av")
  case True
  have r: "receiving_ok c" "frame_ok c" "name_ok c" using assms(2,3) by (auto simp: wf_client_def)
  show ?thesis
  proof (cases "header_type c = RECV_IMAGE \<or> header_type c = RECV_NAME")
    case copied: True
    then obtain c1 where c1: "append_recv buf i av c = Some c1"
      "c' = c1\<lparr>remainBytes := remainBytes c1 - int av\<rparr>"
      using assms(1) True by (auto simp: recv_data_def bind_eq_Some_conv)
    then show ?thesis
      using append_recv_ok [OF c1(1) r(1)] append_recv_fields [OF c1(1)] True r
      by (simp add: wf_client_def) (simp add: frame_ok_def name_ok_def)
  next
    case False
    then show ?thesis
      using assms True by (auto simp: recv_data_def wf_defs)
  qed
next
  case False
  then obtain c1 c2 where c1: "append_recv buf i (nat (remainBytes c)) c = Some c1"
    "finish_message tj c1 g = Some (c2, g')"
    "c' = c2\<lparr>remainBytes := remainBytes c2 - int (nat (remainBytes c))\<rparr>"
    using assms(1) by (auto simp: recv_data_def Let_def bind_eq_Some_conv)
  have "receiving_ok (c1\<lparr>remainBytes := remainBytes c1 - int (nat (remainBytes c))\<rparr>)"
    using append_recv_ok [OF c1(1)] assms(2,3) by (simp add: wf_client_def)
  then have "frame_ok c2 \<and> name_ok c2 \<and> remainBytes c2 = remainBytes c1"
    using assms(2) append_recv_fields [OF c1(1)]
    by (intro finish_message_wf [OF c1(2)]) (auto simp: wf_client_def receiving_ok_def)
  then show ?thesis
    using c1(3) append_recv_fields(1) [OF c1(1)] assms(3)
    by (simp add: wf_client_def) (simp add: frame_ok_def name_ok_def)
qed

lemma receive_loop_wf:
  "receive_loop tj buf n i c g = Some (ret, c', g') \<Longrightarrow> wf_client c \<Longrightarrow> wf_client c'"
proof (induction tj buf n i c g rule: receive_loop.induct)
  case (1 tj buf n i c g)
  show ?case
  proof (cases "i < n")
    case True
    show ?thesis
    proof (cases "remainBytes c \<le> 0")
      case idle: True
      obtain ok c1 where h: "recv_header buf i c = Some (ok, c1)"
        using 1(3) True idle by (auto simp: receive_loop.simps [of tj buf n i c g] split: option.splits)
      show ?thesis
        using 1(1) [OF True idle h] 1(3,4) True idle h recv_header_wf [OF h 1(4) idle]
        by (cases ok) (simp_all add: receive_loop.simps [of tj buf n i c g])
    next
      case False
      obtain k c1 g1 where d: "recv_data tj buf i (n - i) c g = Some (k, c1, g1)"
        using 1(3) True False by (auto simp: receive_loop.simps [of tj buf n i c g] split: option.splits)
      show ?thesis
        using 1(2) [OF True False d refl refl] 1(3,4) True False d recv_data_wf [OF d 1(4)]
        by (simp add: receive_loop.simps [of tj buf n i c g])
    qed
  next
    case False
    then show ?thesis using 1(3,4) by (simp add: receive_loop.simps [of tj buf n i c g])
  qed
qed

section \<open>Properties\<close>

text \<open>
  C5: One read that delivers any number of complete, well-formed messages to a connection
  between messages has the effect of the messages one after the other: the same final
  state, or a fault exactly when one of them faults, and the return value 0.
\<close>

theorem receive_refines_messages:
  assumes "idle c" "list_all valid_message ms"
  shows "receive tj (concat (map encode_message ms) @ junk) (length (concat (map encode_message ms))) c g
    = map_option (\<lambda>(c, g). (0, c, g)) (deliver_all tj ms c g)"
  unfolding receive_def using assms by (rule receive_loop_messages)

definition sample_tj :: turbojpeg where
  "sample_tj = \<lparr>tj_header = (\<lambda>j. Some (1, 1)), tj_decode = (\<lambda>j w h dst. replicate (length dst) 9)\<rparr>"

definition sample_globals :: globals where
  "sample_globals = \<lparr>focus_fd = 7, ready_fd = 7, userCount = 1, fbp = [1, 2, 3, 4]\<rparr>"

definition sample_client :: client where
  "sample_client = fst (new_Client 7 42 (1, 1, 24) sample_globals)"

lemma idle_sample: "idle sample_client"
  by (simp add: sample_client_def new_Client_def client_init_def idle_def)

theorem receive_refines_messages_witness:
  "receive sample_tj (concat (map encode_message [(2, [65]), (5, [8, 8])]) @ [0, 0])
      (length (concat (map encode_message [(2, [65]), (5, [8, 8])]))) sample_client sample_globals
    = map_option (\<lambda>(c, g). (0, c, g))
        (deliver_all sample_tj [(2, [65]), (5, [8, 8])] sample_client sample_globals)"
  by (rule receive_refines_messages) (simp_all add: idle_sample valid_message_def)

text \<open>
  C18: However TCP cuts the payload of an image or a name into reads (the header itself
  arriving whole), and whatever stale bytes lie behind each read in its buffer, the
  connection ends in the state of the message delivered in one piece.
\<close>

theorem receive_segments:
  assumes "idle c" "valid_message (ty, p)" "int ty \<in> {RECV_IMAGE, RECV_NAME}"
    and "p = d @ concat (map fst chunks)"
  shows "receive_all tj ((encode_header ty (length p) @ d, junk) # chunks) c g
    = map_option (\<lambda>(c, g). (0, c, g)) (deliver tj (ty, p) c g)"
proof -
  let ?c = "start_message ty (length p) c"
  have first: "receive tj ((encode_header ty (length p) @ d) @ junk) (length (encode_header ty (length p) @ d)) c g
      = receive tj (d @ junk) (length d) ?c g"
    using assms(1,2) receive_loop_header [of c ty "length p" "8 + length d" tj "d @ junk" g]
    by (simp add: receive_def valid_message_def)
  then have skip: "receive_all tj ((encode_header ty (length p) @ d, junk) # chunks) c g
      = receive_all tj ((d, junk) # chunks) ?c g" by simp
  show ?thesis
  proof (cases "p = []")
    case True
    then show ?thesis
      unfolding skip using assms(4) receive_all_empty [of "(d, junk) # chunks" tj ?c g]
      by (simp add: deliver_def)
  next
    case False
    then have "?c = partway ty p (length ([] :: byte list)) c" by (simp add: partway_0)
    moreover have "receive_all tj ((d, junk) # chunks) (partway ty p (length ([] :: byte list)) c) g
        = map_option (\<lambda>(c, g). (0, c, g)) (deliver tj (ty, p) c g)"
      using assms(3,4) False by (intro receive_all_segments) simp_all
    ultimately show ?thesis unfolding skip by simp
  qed
qed

theorem receive_segments_witness:
  "receive_all sample_tj [(encode_header 5 (length [1, 2, 3 :: byte]) @ [1], [9, 9, 9]), ([2], []), ([3], [7])]
      sample_client sample_globals
    = map_option (\<lambda>(c, g). (0, c, g)) (deliver sample_tj (5, [1, 2, 3]) sample_client sample_globals)"
  by (rule receive_segments) (simp_all add: idle_sample valid_message_def message_types)

lemma receive_wf: "wf_client c \<Longrightarrow> receive tj buf len c g = Some (ret, c', g') \<Longrightarrow> wf_client c'"
  using receive_loop_wf unfolding receive_def by blast

text \<open>
  C19: Whatever bytes arrive, \<open>receive\<close> keeps the connection well-formed whenever it
  returns: the receive buffer always has the announced size and room for the bytes still
  missing, the bytes before \<open>recvOffset\<close> of an image or a name have been written, the
  stored frame has \<open>jpegOffset\<close> bytes and its terminator, the stored name fits its array.
\<close>

theorem receive_keeps_wf:
  assumes "wf_client c" "receive tj buf len c g = Some (ret, c', g')"
  shows "wf_client c'"
  using assms by (rule receive_wf)

theorem receive_keeps_wf_witness:
  "\<exists>c'. receive sample_tj (encode_header 5 3 @ [1]) 9 sample_client sample_globals = Some (0, c', sample_globals)
     \<and> wf_client c' \<and> remainBytes c' = 2"
proof -
  let ?p = "\<lambda>k. partway 5 [1, 2, 3] k sample_client"
  have "receive_loop sample_tj (encode_header 5 3 @ [1]) 9 0 sample_client sample_globals
      = receive_loop sample_tj [1] 1 0 (start_message 5 3 sample_client) sample_globals"
    using receive_loop_header [OF idle_sample, of 5 3 9 sample_tj "[1]" sample_globals] by simp
  also have "start_message 5 3 sample_client = ?p 0"
    using partway_0 [of "[1, 2, 3]" 5 sample_client] by (simp add: numeral_3_eq_3)
  also have "receive_loop sample_tj [1] 1 0 (?p 0) sample_globals
      = receive_loop sample_tj (drop 1 [1]) (1 - 1) 0 (?p 1) sample_globals"
    using recv_data_segment [of "[1, 2, 3]" "[]" "[1]" "[2, 3]" 5 sample_tj "[]" sample_client sample_globals]
    by (intro receive_loop_data) (simp_all add: message_types partway_def)
  finally have r: "receive sample_tj (encode_header 5 3 @ [1]) 9 sample_client sample_globals
      = Some (0, ?p 1, sample_globals)"
    by (simp add: receive_def receive_loop_done)
  have "wf_client sample_client" by (simp add: sample_client_def wf_new_Client)
  then have "wf_client (?p 1)" using r by (rule receive_keeps_wf)
  with r show ?thesis by (simp add: partway_def)
qed

text \<open>
  C31: A name message (type 2) received whole by a connection between messages faults exactly
  when the client has named itself before and the new name is at least as long as the array
  allocated for the first: \<open>recv_header\<close> allocates \<open>userName\<close> once, and
  \<open>memcpy(userName, recvBuffer, recvOffset)\<close> runs past it.  So two name messages on a fresh
  connection fault exactly when the second name is longer than the first.
\<close>

lemma name_delivered:
  "deliver tj (2, p) c g = None \<longleftrightarrow> p \<noteq> [] \<and> (\<exists>un. userName c = Some un \<and> length un \<le> length p)"
  by (auto simp: deliver_def start_message_def finish_message_def finish_name_def message_types
      Let_def load_bytes_def store_bytes_def bind_eq_None_conv split: if_splits)

lemma name_stored:
  assumes "userName c = None" "deliver tj (2, p) c g = Some (c1, g1)"
  shows "\<exists>un. userName c1 = Some un \<and> length un = length p + 1"
  using assms
  by (auto simp: deliver_def start_message_def finish_message_def finish_name_def message_types
      Let_def load_bytes_def store_bytes_def bind_eq_Some_conv split: if_splits)

theorem second_name_overflows:
  assumes "idle c" "valid_message (2, p)" "valid_message (2, q)"
  shows "(receive tj (encode_message (2, p) @ junk) (length (encode_message (2, p))) c g = None \<longleftrightarrow>
      p \<noteq> [] \<and> (\<exists>un. userName c = Some un \<and> length un \<le> length p))
    \<and> (userName c = None \<longrightarrow>
      (receive tj (encode_message (2, p) @ encode_message (2, q) @ junk)
         (length (encode_message (2, p) @ encode_message (2, q))) c g = None
       \<longleftrightarrow> length p < length q))"
proof (intro conjI impI)
  have one: "receive tj (encode_message (2, p) @ junk) (length (encode_message (2, p))) c g
      = map_option (\<lambda>(c, g). (0, c, g)) (deliver_all tj [(2, p)] c g)"
    using receive_loop_messages [OF assms(1), of "[(2, p)]" tj junk g] assms(2) by (simp add: receive_def)
  show "receive tj (encode_message (2, p) @ junk) (length (encode_message (2, p))) c g = None \<longleftrightarrow>
      p \<noteq> [] \<and> (\<exists>un. userName c = Some un \<and> length un \<le> length p)"
    unfolding one name_delivered [of tj p c g, symmetric] by (auto split: option.splits)
next
  assume fresh: "userName c = None"
  have two: "receive tj (encode_message (2, p) @ encode_message (2, q) @ junk)
      (length (encode_message (2, p) @ encode_message (2, q))) c g
      = map_option (\<lambda>(c, g). (0, c, g)) (deliver_all tj [(2, p), (2, q)] c g)"
    using receive_loop_messages [OF assms(1), of "[(2, p), (2, q)]" tj junk g] assms(2,3)
    by (simp add: receive_def)
  obtain c1 g1 where d: "deliver tj (2, p) c g = Some (c1, g1)"
    using name_delivered [of tj p c g] fresh by (cases "deliver tj (2, p) c g") auto
  obtain un where un: "userName c1 = Some un" "length un = length p + 1"
    using name_stored [OF fresh d] by blast
  show "receive tj (encode_message (2, p) @ encode_message (2, q) @ junk)
      (length (encode_message (2, p) @ encode_message (2, q))) c g = None \<longleftrightarrow> length p < length q"
    unfolding two using d un name_delivered [of tj q c1 g1] by (auto split: option.splits)
qed

theorem second_name_overflows_witness:
  "receive sample_tj (encode_message (2, [65]) @ encode_message (2, [65, 66]) @ [])
     (length (encode_message (2, [65]) @ encode_message (2, [65, 66]))) sample_client sample_globals = None"
proof -
  have "userName sample_client = None"
    by (simp add: sample_client_def new_Client_def client_init_def)
  then show ?thesis
    using second_name_overflows [OF idle_sample, of "[65]" "[65, 66]" sample_tj "[]" sample_globals]
    by (simp add: valid_message_def)
qed

text \<open>
  C32: A focus request (type 4, a 4-byte client number) that arrives in one piece sets
  \<open>ready_fd\<close> to that number; the same request with its payload cut by a read boundary
  never does: the first part is not copied, and the number is read from bytes of the
  receive buffer that were never written.
\<close>

theorem focus_request_split:
  assumes "idle c" "p = d0 @ d1" "length p = 4" "d0 \<noteq> []" "d1 \<noteq> []"
  shows "map_option snd (deliver tj (4, p) c g) = Some (g\<lparr>ready_fd := s32 (int (le_nat p))\<rparr>)
    \<and> receive_all tj [(encode_header 4 4 @ d0, j0), (d1, j1)] c g = None"
proof (rule conjI)
  show "map_option snd (deliver tj (4, p) c g) = Some (g\<lparr>ready_fd := s32 (int (le_nat p))\<rparr>)"
    using assms(3) by (auto simp: deliver_def finish_message_def finish_focus_def message_types
        start_message_fields load_bytes_def initialised_def comp_def)
next
  let ?c = "start_message 4 4 c"
  let ?c1 = "?c\<lparr>remainBytes := int (length d1)\<rparr>"
  have len: "length d0 + length d1 = 4" "0 < length d0" "0 < length d1" using assms by auto
  then have len2: "length d0 < 4" "4 - int (length d0) = int (length d1)" "length d1 < 4" by linarith+
  have "receive tj ((encode_header 4 4 @ d0) @ j0) (length (encode_header 4 4 @ d0)) c g
      = receive_loop tj (d0 @ j0) (length d0) 0 ?c g"
    using receive_loop_header [OF assms(1), of 4 4 "8 + length d0" tj "d0 @ j0" g]
    by (simp add: receive_def)
  also have "\<dots> = receive_loop tj (drop (length d0) (d0 @ j0)) (length d0 - length d0) 0 ?c1 g"
  proof (rule receive_loop_data)
    show "recv_data tj (d0 @ j0) 0 (length d0) ?c g = Some (length d0, ?c1, g)"
      using len len2 by (simp add: recv_data_def start_message_fields message_types)
  qed (use len in \<open>simp_all add: start_message_fields\<close>)
  finally have first: "receive tj ((encode_header 4 4 @ d0) @ j0) (length (encode_header 4 4 @ d0)) c g = Some (0, ?c1, g)"
    by (simp add: receive_loop_done)
  have "append_recv (d1 @ j1) 0 (length d1) ?c1 = Some (?c1\<lparr>recvBuffer :=
      Some (map Some d1 @ drop (length d1) (replicate 4 None @ [Some 0])), recvOffset := length d1\<rparr>)"
    using len by (simp add: append_recv_def start_message_fields load_bytes_prefix store_bytes_def)
  moreover have "None \<in> set (take 4 (map Some d1 @ drop (length d1) (replicate 4 None @ [Some 0])))"
    using len len2 by (simp add: drop_append)
  ultimately have "recv_data tj (d1 @ j1) 0 (length d1) ?c1 g = None"
    using len len2 by (simp add: recv_data_def finish_message_def finish_focus_def start_message_fields
        message_types load_bytes_def initialised_def Let_def)
  then have "receive tj (d1 @ j1) (length d1) ?c1 g = None"
    using len unfolding receive_def by (intro receive_loop_data_fault) simp_all
  with first show "receive_all tj [(encode_header 4 4 @ d0, j0), (d1, j1)] c g = None" by simp
qed

theorem focus_request_split_witness:
  "receive_all sample_tj [(encode_header 4 4 @ [3], []), ([0, 0, 0], [])] sample_client sample_globals = None"
  by (rule focus_request_split [of sample_client "[3, 0, 0, 0]", THEN conjunct2]) (simp_all add: idle_sample)

text \<open>
  C33: The header branch does not check that the 8 header bytes belong to the read: with
  only \<open>k < 8\<close> of them received it takes the missing ones from the stale bytes behind the
  read, and it reads past the buffer where there are none.
\<close>

theorem split_header_reads_stale:
  assumes "idle c" "0 < k" "k < 8"
  shows "(ty \<le> 10 \<and> n < 2 ^ 31 - 1 \<longrightarrow>
      receive tj (encode_header ty n @ rest) k c g = Some (0, start_message ty n c, g))
    \<and> (length buf < 8 \<longrightarrow> receive tj buf k c g = None)"
proof (rule conjI)
  show "ty \<le> 10 \<and> n < 2 ^ 31 - 1 \<longrightarrow>
      receive tj (encode_header ty n @ rest) k c g = Some (0, start_message ty n c, g)"
    using assms by (simp add: receive_def receive_loop_header receive_loop_done)
  show "length buf < 8 \<longrightarrow> receive tj buf k c g = None"
    using assms by (auto simp: receive_def receive_loop.simps [of tj buf k 0] idle_def recv_header_def
        load_bytes_def)
qed

theorem split_header_reads_stale_witness:
  "receive sample_tj (encode_header 5 1000 @ []) 4 sample_client sample_globals
     = Some (0, start_message 5 1000 sample_client, sample_globals)"
  using split_header_reads_stale [of sample_client 4 5 1000 sample_tj "[]" sample_globals]
  by (simp add: idle_sample)

end
