(* ===== verification/ServerLoop.thy ===== *)
theory ServerLoop
  imports ClientProtocol
begin

text \<open>
  The server of \<open>server/Server.cpp\<close> around the connections: the client table and descriptor
  set, the body of the \<open>select\<close> loop of \<open>main\<close>, the focus thread (\<open>focusObserver\<close>) and the
  user-list thread (\<open>userListThread\<close>).  Each body is one step; the threads interleave freely
  between bodies.  What the kernel answers (\<open>accept\<close>, \<open>read\<close>, \<open>write\<close>) is an input.
\<close>

section \<open>Server state\<close>

definition MAX_CLIENT_NUM :: nat where "MAX_CLIENT_NUM = 30"
definition HEADER_SIZE :: nat where "HEADER_SIZE = 8"
definition FD_SETSIZE :: nat where "FD_SETSIZE = 1024"

record server =
  server_socket :: nat
  clients :: "client option list"
  read_fds :: "nat set"
  globs :: globals
  chunk :: "byte list"
  screen_mode :: "int \<times> int \<times> int"

text \<open>\<open>FD_ISSET\<close>; outside the descriptor set's range the macro reads past the set.\<close>

definition fd_isset :: "int \<Rightarrow> server \<Rightarrow> bool option" where
  "fd_isset f s = (if 0 \<le> f \<and> f < int FD_SETSIZE then Some (nat f \<in> read_fds s) else None)"

section \<open>The select loop\<close>

datatype fd_event =
    Accepted int int      \<comment> \<open>\<open>accept\<close>'s descriptor and the address's last number\<close>
  | Data "byte list"      \<comment> \<open>\<open>read\<close> returned these bytes (at least one)\<close>
  | Hangup                \<comment> \<open>\<open>read\<close> returned 0 or an error\<close>

definition drop_client :: "nat \<Rightarrow> client \<Rightarrow> server \<Rightarrow> server" where
  "drop_client f c s =
     s\<lparr>read_fds := read_fds s - {f}, clients := (clients s)[f := None],
       globs := delete_Client c (globs s)\<rparr>"

text \<open>Descriptor \<open>f\<close> is ready: the body of the \<open>for\<close> loop of \<open>main\<close>.\<close>

definition handle_fd :: "turbojpeg \<Rightarrow> nat \<Rightarrow> fd_event \<Rightarrow> server \<Rightarrow> server option" where
  "handle_fd tj f ev s =
     (if f = server_socket s then
        (case ev of
           Accepted sock lastip \<Rightarrow>
             if 0 \<le> sock \<and> sock < int MAX_CLIENT_NUM
             then (let (c, g) = new_Client sock lastip (screen_mode s) (globs s) in
                   Some (s\<lparr>read_fds := insert (nat sock) (read_fds s),
                           clients := (clients s)[nat sock := Some c], globs := g\<rparr>))
             else None
         | _ \<Rightarrow> Some s)
      else
        (case ev of
           Data d \<Rightarrow>
             do {
               c \<leftarrow> clients s ! f;
               chunk1 \<leftarrow> store_bytes 0 d (chunk s);
               (ret, c1, g1) \<leftarrow> receive tj chunk1 (length d) c (globs s);
               let s1 = s\<lparr>clients := (clients s)[f := Some c1], globs := g1\<rparr>;
               let s2 = (if ret < 0 then drop_client f c1 s1 else s1);
               chunk2 \<leftarrow> store_bytes 0 (replicate (length d) 0) chunk1;
               Some (s2\<lparr>chunk := chunk2\<rparr>)
             }
         | Hangup \<Rightarrow> do { c \<leftarrow> clients s ! f; Some (drop_client f c s) }
         | Accepted _ _ \<Rightarrow> Some s))"

section \<open>The focus thread\<close>

definition mem_int :: "int \<Rightarrow> byte list" where
  "mem_int x = le_enc 4 (nat (u32 x))"

definition focus_message :: "byte list" where
  "focus_message = mem_int CHANGE_FOCUS_STATUS @ mem_int 4 @ mem_int 1"

text \<open>
  The descriptors of the clients connected, in table order, without the focused one: what
  both threads' loops over \<open>client[]\<close> visit.
\<close>

definition other_clients :: "server \<Rightarrow> client list" where
  "other_clients s =
     filter (\<lambda>c. fd c \<noteq> focus_fd (globs s))
       (filter (\<lambda>c. nat (fd c) \<in> read_fds s) (map the (filter (\<lambda>x. x \<noteq> None) (clients s))))"

text \<open>
  The loop that sends the message: \<open>w r\<close> is what \<open>write\<close> returns when offered \<open>r\<close> bytes, -1
  included.  \<open>None\<close>: not finished within the fuel; \<open>Some None\<close>: the loop reads before the
  start of \<open>buf\<close> (after an error \<open>writeRemain\<close> exceeds the total).
\<close>

fun focus_send :: "nat \<Rightarrow> (int \<Rightarrow> int) \<Rightarrow> byte list \<Rightarrow> int \<Rightarrow> byte list option option" where
  "focus_send 0 w buf writeRemain = (if writeRemain \<le> 0 then Some (Some []) else None)"
| "focus_send (Suc k) w buf writeRemain =
     (if writeRemain \<le> 0 then Some (Some [])
      else if int (length buf) < writeRemain then Some None
      else (let written = w writeRemain;
                out = take (nat written) (drop (nat (int (length buf) - writeRemain)) buf)
            in map_option (map_option (\<lambda>rest. out @ rest)) (focus_send k w buf (writeRemain - written))))"

text \<open>
  One pass of the loop of \<open>focusObserver\<close>: the new state and what was sent to whom.  The focus
  moves only when the write loop before it has ended; \<open>None\<close>: the pass does not end within
  the fuel, or the loop or \<open>FD_ISSET\<close> reads outside its array.
\<close>

definition focus_pass ::
    "nat \<Rightarrow> (int \<Rightarrow> int) \<Rightarrow> server \<Rightarrow> (server \<times> (int \<times> byte list) list) option" where
  "focus_pass fuel w s =
     (if focus_fd (globs s) \<noteq> ready_fd (globs s) then
        do {
          isset \<leftarrow> fd_isset (ready_fd (globs s)) s;
          if isset then
            do {
              loop \<leftarrow> focus_send fuel w focus_message (int (HEADER_SIZE + 4));
              out \<leftarrow> loop;
              Some (s\<lparr>globs := (globs s)\<lparr>focus_fd := ready_fd (globs s)\<rparr>\<rparr>,
                    [(ready_fd (globs s), out)])
            }
          else if userCount (globs s) = 0 then Some (s, [])
          else (case other_clients s of
                  [] \<Rightarrow> Some (s, [])
                | c # _ \<Rightarrow>
                    do {
                      loop \<leftarrow> focus_send fuel w focus_message (int (HEADER_SIZE + 4));
                      out \<leftarrow> loop;
                      Some (s\<lparr>globs := (globs s)\<lparr>focus_fd := fd c, ready_fd := fd c\<rparr>\<rparr>,
                            [(fd c, out)])
                    })
        }
      else Some (s, []))"

section \<open>The user-list thread\<close>

definition entry_length :: "client \<Rightarrow> nat" where
  "entry_length c = 4 + (4 + userNameLength c) + (4 + jpegOffset c)"

text \<open>\<open>memcpy\<close> of the first \<open>n\<close> bytes of an array that may be null when \<open>n = 0\<close>.\<close>

definition array_prefix :: "nat \<Rightarrow> cells option \<Rightarrow> byte list option" where
  "array_prefix n a =
     (if n = 0 then Some []
      else do { cs \<leftarrow> a; xs \<leftarrow> load_bytes 0 n cs; initialised xs })"

text \<open>\<open>memcpy(sendBuf + sendOffset, \<dots>); sendOffset += \<dots>\<close>\<close>

definition put_send :: "byte list \<Rightarrow> nat \<times> cells \<Rightarrow> (nat \<times> cells) option" where
  "put_send bs ob = do { b \<leftarrow> store_bytes (fst ob) (map Some bs) (snd ob); Some (fst ob + length bs, b) }"

definition put_entry :: "client \<Rightarrow> nat \<times> cells \<Rightarrow> (nat \<times> cells) option" where
  "put_entry c ob =
     do {
       ob1 \<leftarrow> put_send (mem_int (userID c)) ob;
       ob2 \<leftarrow> put_send (mem_int (int (userNameLength c))) ob1;
       name \<leftarrow> array_prefix (userNameLength c) (userName c);
       ob3 \<leftarrow> put_send name ob2;
       ob4 \<leftarrow> put_send (mem_int (int (jpegOffset c))) ob3;
       img \<leftarrow> array_prefix (jpegOffset c) (jpegBuffer c);
       put_send img ob4
     }"

fun put_entries :: "client list \<Rightarrow> nat \<times> cells \<Rightarrow> (nat \<times> cells) option" where
  "put_entries [] ob = Some ob"
| "put_entries (c # cs) ob = do { ob1 \<leftarrow> put_entry c ob; put_entries cs ob1 }"

text \<open>
  The first loop adds the lengths up in the \<open>int dataLength\<close>: adding a \<open>sizeof\<close> converts the
  sum back to \<open>int\<close>, adding an \<open>int\<close> that overflows is undefined (\<open>None\<close>).
\<close>

definition add_sizeof :: "int \<Rightarrow> int" where
  "add_sizeof dataLength = s32 (dataLength + 4)"

definition add_int :: "int \<Rightarrow> int \<Rightarrow> int option" where
  "add_int x y = (if in_s32 (x + y) then Some (x + y) else None)"

fun data_length :: "client list \<Rightarrow> int \<Rightarrow> int option" where
  "data_length [] dataLength = Some dataLength"
| "data_length (c # cs) dataLength =
     do {
       d1 \<leftarrow> add_int (add_sizeof (add_sizeof dataLength)) (int (userNameLength c));
       d2 \<leftarrow> add_int (add_sizeof d1) (int (jpegOffset c));
       data_length cs d2
     }"

text \<open>\<open>new char[n]\<close> of a negative \<open>n\<close> throws, and nothing catches it.\<close>

definition user_list_message :: "server \<Rightarrow> (nat \<times> cells) option" where
  "user_list_message s =
     do {
       dataLength \<leftarrow> data_length (other_clients s) (add_sizeof 0);
       size \<leftarrow> add_int (int HEADER_SIZE) dataLength;
       if size < 0 then None
       else do {
         let sendBuf = replicate (nat size) None;
         ob1 \<leftarrow> put_send (mem_int SEND_USER_LIST) (0, sendBuf);
         ob2 \<leftarrow> put_send (mem_int dataLength) ob1;
         ob3 \<leftarrow> put_send (mem_int (userCount (globs s) - 1)) ob2;
         put_entries (other_clients s) ob3
       }
     }"

text \<open>
  The loop that sends it; \<open>nwrite r\<close> is the number of bytes \<open>write\<close> takes of \<open>r\<close>.  The code
  subtracts \<open>sndBufRemain\<close>, not the result of \<open>write\<close>.
\<close>

function user_list_send :: "(nat \<Rightarrow> nat) \<Rightarrow> byte list \<Rightarrow> nat \<Rightarrow> byte list" where
  "user_list_send nwrite sendBuf sndBufRemain =
     (if 0 < sndBufRemain
      then take (nwrite sndBufRemain) (drop (length sendBuf - sndBufRemain) sendBuf)
        @ user_list_send nwrite sendBuf (sndBufRemain - sndBufRemain)
      else [])"
  by pat_completeness auto
termination
  by (relation "measure (\<lambda>(nwrite, sendBuf, sndBufRemain). sndBufRemain)") auto

declare user_list_send.simps [simp del]

text \<open>One pass of the loop of \<open>userListThread\<close>: what it sends, and to whom.\<close>

definition user_list_pass :: "(nat \<Rightarrow> nat) \<Rightarrow> server \<Rightarrow> (int \<times> byte list) list option" where
  "user_list_pass nwrite s =
     (if focus_fd (globs s) > 0 \<and> userCount (globs s) > 1
      then do {
        (sendOffset, sendBuf) \<leftarrow> user_list_message s;
        bs \<leftarrow> load_bytes 0 sendOffset sendBuf;
        msg \<leftarrow> initialised bs;
        Some [(focus_fd (globs s), user_list_send nwrite msg sendOffset)]
      }
      else Some [])"

section \<open>Steps and reachable states\<close>

text \<open>
  The kernel's part: \<open>accept\<close> hands out a descriptor not in use, and \<open>select\<close> reports
  only descriptors of the set; a \<open>read\<close> fills at most the chunk array.
\<close>

definition event_ok :: "nat \<Rightarrow> fd_event \<Rightarrow> server \<Rightarrow> bool" where
  "event_ok f ev s \<longleftrightarrow> f \<in> read_fds s \<and> f < MAX_CLIENT_NUM \<and>
     (case ev of
        Accepted sock _ \<Rightarrow> f = server_socket s \<and> (0 \<le> sock \<longrightarrow> nat sock \<notin> read_fds s)
      | Data d \<Rightarrow> f \<noteq> server_socket s \<and> d \<noteq> [] \<and> length d \<le> length (chunk s)
      | Hangup \<Rightarrow> f \<noteq> server_socket s)"

definition initial_server :: "nat \<Rightarrow> int \<times> int \<times> int \<Rightarrow> byte list \<Rightarrow> byte list \<Rightarrow> server" where
  "initial_server sock mode screen junk =
     \<lparr>server_socket = sock, clients = replicate MAX_CLIENT_NUM None, read_fds = {sock},
      globs = \<lparr>focus_fd = 0, ready_fd = 0, userCount = 0, fbp = screen\<rparr>,
      chunk = junk, screen_mode = mode\<rparr>"

inductive server_step :: "turbojpeg \<Rightarrow> server \<Rightarrow> server \<Rightarrow> bool" for tj where
  select_body: "event_ok f ev s \<Longrightarrow> handle_fd tj f ev s = Some s' \<Longrightarrow> server_step tj s s'"
| focus_body: "focus_pass fuel w s = Some (s', sent) \<Longrightarrow> server_step tj s s'"

inductive server_reachable :: "turbojpeg \<Rightarrow> server \<Rightarrow> server \<Rightarrow> bool" for tj s0 where
  start: "server_reachable tj s0 s0"
| more: "server_reachable tj s0 s \<Longrightarrow> server_step tj s s' \<Longrightarrow> server_reachable tj s0 s'"

inductive_cases server_stepE: "server_step tj s s'"

section \<open>What a connection may change\<close>

text \<open>
  \<open>same_link c g c' g'\<close>: the step kept the descriptor, the user count, the focus and the size
  of the screen memory, and touched that memory only if the connection has the focus.
\<close>

definition same_link :: "client \<Rightarrow> globals \<Rightarrow> client \<Rightarrow> globals \<Rightarrow> bool" where
  "same_link c g c' g' \<longleftrightarrow> fd c' = fd c \<and> userCount g' = userCount g \<and> focus_fd g' = focus_fd g
     \<and> length (fbp g') = length (fbp g) \<and> (focus_fd g \<noteq> fd c \<longrightarrow> fbp g' = fbp g)"

lemma same_link_refl [simp]: "same_link c g c g"
  by (simp add: same_link_def)

lemma same_link_trans: "same_link a g b h \<Longrightarrow> same_link b h c i \<Longrightarrow> same_link a g c i"
  by (simp add: same_link_def)

lemma client_draw_link:
  "client_draw tj c g = Some (c', g') \<Longrightarrow> focus_fd g = fd c \<Longrightarrow> same_link c g c' g'"
  by (auto simp: client_draw_def Let_def bind_eq_Some_conv same_link_def store_bytes_length
      split: if_splits option.splits)

lemma recv_header_link: "recv_header buf i c = Some (ok, c') \<Longrightarrow> fd c' = fd c"
  unfolding recv_header_def Let_def bind_eq_Some_conv
  by (elim exE conjE) (simp split: if_split_asm, auto simp: bind_eq_Some_conv split: if_split_asm)

lemma append_recv_link: "append_recv buf i n c = Some c' \<Longrightarrow> fd c' = fd c"
  by (auto simp: append_recv_def bind_eq_Some_conv)

lemma finish_image_link:
  assumes "finish_image tj c g = Some (c', g')"
  shows "same_link c g c' g'"
proof -
  obtain cs where "(if focus_fd g = fd c
      then client_draw tj (c\<lparr>jpegBuffer := Some (cs @ [Some 0]), jpegOffset := recvOffset c\<rparr>) g
      else Some (c\<lparr>jpegBuffer := Some (cs @ [Some 0]), jpegOffset := recvOffset c\<rparr>, g)) = Some (c', g')"
    using assms by (auto simp: finish_image_def Let_def bind_eq_Some_conv split del: if_split)
  then show ?thesis
    by (auto simp: same_link_def split: if_splits dest!: client_draw_link)
qed

lemma finish_message_link: "finish_message tj c g = Some (c', g') \<Longrightarrow> same_link c g c' g'"
  by (auto simp: finish_message_def finish_name_def finish_focus_def bind_eq_Some_conv
      dest: finish_image_link split: if_splits) (auto simp: same_link_def)

lemma recv_data_link:
  assumes "recv_data tj buf i av c g = Some (n, c', g')"
  shows "same_link c g c' g'"
proof (cases "remainBytes c > int av")
  case True
  then show ?thesis
    using assms by (auto simp: recv_data_def bind_eq_Some_conv same_link_def dest: append_recv_link
        split: if_splits)
next
  case False
  then obtain c1 c2 where *: "append_recv buf i (nat (remainBytes c)) c = Some c1"
    "finish_message tj c1 g = Some (c2, g')" "fd c' = fd c2"
    using assms by (auto simp: recv_data_def Let_def bind_eq_Some_conv)
  show ?thesis
    using append_recv_link [OF *(1)] finish_message_link [OF *(2)] *(3) by (simp add: same_link_def)
qed

lemma receive_loop_link:
  "receive_loop tj buf n i c g = Some (ret, c', g') \<Longrightarrow> same_link c g c' g'"
proof (induction tj buf n i c g rule: receive_loop.induct)
  case (1 tj buf n i c g)
  show ?case
  proof (cases "i < n")
    case True
    show ?thesis
    proof (cases "remainBytes c \<le> 0")
      case idle: True
      obtain ok c1 where h: "recv_header buf i c = Some (ok, c1)"
        using 1(3) True idle by (auto simp: receive_loop.simps [of tj buf n i c g] split: option.splits)
      show ?thesis
        using 1(1) [OF True idle h] 1(3) True idle h recv_header_link [OF h]
        by (cases ok) (simp_all add: receive_loop.simps [of tj buf n i c g] same_link_def)
    next
      case False
      obtain k c1 g1 where d: "recv_data tj buf i (n - i) c g = Some (k, c1, g1)"
        using 1(3) True False by (auto simp: receive_loop.simps [of tj buf n i c g] split: option.splits)
      have "same_link c1 g1 c' g'"
        using 1(2) [OF True False d refl refl] 1(3) True False d
        by (simp add: receive_loop.simps [of tj buf n i c g])
      with recv_data_link [OF d] show ?thesis by (rule same_link_trans)
    qed
  next
    case False
    then show ?thesis using 1(3) by (simp add: receive_loop.simps [of tj buf n i c g])
  qed
qed

lemma receive_link: "receive tj buf n c g = Some (ret, c', g') \<Longrightarrow> same_link c g c' g'"
  unfolding receive_def by (rule receive_loop_link)

section \<open>The client table\<close>

definition live_clients :: "server \<Rightarrow> client option list" where
  "live_clients s = filter (\<lambda>x. x \<noteq> None) (clients s)"

text \<open>
  The table, the descriptor set and the user count agree: slot \<open>i\<close> holds the connection
  of descriptor \<open>i\<close>, the set holds the listening socket and the connected descriptors, and
  \<open>userCount\<close> is the number of connections.
\<close>

definition table_ok :: "server \<Rightarrow> bool" where
  "table_ok s \<longleftrightarrow> length (clients s) = MAX_CLIENT_NUM \<and> server_socket s < MAX_CLIENT_NUM
     \<and> clients s ! server_socket s = None
     \<and> read_fds s = insert (server_socket s) {i. i < MAX_CLIENT_NUM \<and> clients s ! i \<noteq> None}
     \<and> (\<forall>i c. i < MAX_CLIENT_NUM \<longrightarrow> clients s ! i = Some c \<longrightarrow> fd c = int i \<and> wf_client c)
     \<and> userCount (globs s) = int (length (live_clients s))"

lemma length_filter_update:
  "i < length xs \<Longrightarrow> int (length (filter P (xs[i := y])))
    = int (length (filter P xs)) - (if P (xs ! i) then 1 else 0) + (if P y then 1 else 0)"
proof (induction xs arbitrary: i)
  case Nil
  then show ?case by simp
next
  case (Cons x xs)
  show ?case
  proof (cases i)
    case (Suc j)
    then show ?thesis using Cons.IH [of j] Cons.prems by (simp split: if_splits)
  qed auto
qed

lemma initial_table_ok: "sock < MAX_CLIENT_NUM \<Longrightarrow> table_ok (initial_server sock mode screen junk)"
  by (auto simp: table_ok_def initial_server_def live_clients_def)

lemma drop_client_ok:
  assumes "table_ok s" "f < MAX_CLIENT_NUM" "clients s ! f = Some c0" "fd c = int f"
  shows "table_ok (drop_client f c s)"
proof -
  have "f \<noteq> server_socket s" using assms(1,3) by (auto simp: table_ok_def)
  moreover have "userCount (delete_Client c (globs s)) = userCount (globs s) - 1"
    by (simp add: delete_Client_def Let_def)
  ultimately show ?thesis
    using assms length_filter_update [of f "clients s" "\<lambda>x. x \<noteq> None" None]
    by (auto simp: table_ok_def drop_client_def live_clients_def nth_list_update)
qed

lemma update_client_ok:
  assumes "table_ok s" "f < MAX_CLIENT_NUM" "clients s ! f = Some c" "wf_client c1"
    "same_link c (globs s) c1 g1"
  shows "table_ok (s\<lparr>clients := (clients s)[f := Some c1], globs := g1\<rparr>)"
  using assms length_filter_update [of f "clients s" "\<lambda>x. x \<noteq> None" "Some c1"]
  by (auto simp: table_ok_def live_clients_def nth_list_update same_link_def)

lemma new_Client_fields:
  "fd (fst (new_Client sock ident mode g)) = sock"
  "userCount (snd (new_Client sock ident mode g)) = userCount g + 1"
  by (cases mode, simp add: new_Client_def client_init_def)+

lemma accept_ok:
  assumes "table_ok s" "0 \<le> sock" "sock < int MAX_CLIENT_NUM" "nat sock \<notin> read_fds s"
    and "new_Client sock ident mode (globs s) = (c, g)"
  shows "table_ok (s\<lparr>read_fds := insert (nat sock) (read_fds s),
    clients := (clients s)[nat sock := Some c], globs := g\<rparr>)"
proof -
  have n: "nat sock < MAX_CLIENT_NUM" using assms(2,3) by simp
  have "clients s ! nat sock = None" "nat sock \<noteq> server_socket s"
    using assms(1,4) n by (auto simp: table_ok_def)
  moreover have "fd c = sock" "userCount g = userCount (globs s) + 1"
    using new_Client_fields [of sock ident mode "globs s"] assms(5) by simp_all
  moreover have "wf_client c" using wf_new_Client [of sock ident mode "globs s"] assms(5) by simp
  ultimately show ?thesis
    using assms(1,2) n length_filter_update [of "nat sock" "clients s" "\<lambda>x. x \<noteq> None" "Some c"]
    by (auto simp: table_ok_def live_clients_def nth_list_update)
qed

lemma focus_send_whole:
  assumes "\<And>r. 0 < r \<Longrightarrow> 1 \<le> w r \<and> w r \<le> r" "r \<le> length buf" "r \<le> fuel"
  shows "focus_send fuel w buf (int r) = Some (Some (drop (length buf - r) buf))"
  using assms(2,3)
proof (induction fuel arbitrary: r)
  case 0
  then show ?case by simp
next
  case (Suc k)
  show ?case
  proof (cases "r = 0")
    case False
    define n where "n = nat (w (int r))"
    have n: "w (int r) = int n" "1 \<le> n" "n \<le> r"
      using assms(1) [of "int r"] False by (auto simp: n_def nat_le_iff le_nat_iff)
    have ih: "focus_send k w buf (int (r - n)) = Some (Some (drop (length buf - (r - n)) buf))"
      using Suc n by (intro Suc.IH) auto
    have rest: "drop (length buf - (r - n)) buf = drop n (drop (length buf - r) buf)"
      using n Suc.prems by (simp add: add.commute)
    have "nat (int (length buf) - int r) = length buf - r"
      using Suc.prems by simp
    then have "focus_send (Suc k) w buf (int r)
        = map_option (map_option (\<lambda>rest. take n (drop (length buf - r) buf) @ rest)) (focus_send k w buf (int (r - n)))"
      using False n(1,3) Suc.prems by (simp add: of_nat_diff Let_def)
    then show ?thesis unfolding ih rest by (simp only: option.map append_take_drop_id)
  qed simp
qed

lemma focus_message_length [simp]: "length focus_message = 12"
  by (simp add: focus_message_def mem_int_def)

lemma focus_send_message:
  assumes "\<And>r. 0 < r \<Longrightarrow> 1 \<le> w r \<and> w r \<le> r" "12 \<le> fuel"
  shows "focus_send fuel w focus_message 12 = Some (Some focus_message)"
  using focus_send_whole [of w 12 focus_message fuel] assms by simp

lemma focus_send_refused: "focus_send fuel (\<lambda>_. -1) focus_message 12 \<in> {None, Some None}"
proof (cases fuel)
  case (Suc k)
  then show ?thesis by (cases k) (simp_all add: Let_def)
qed simp

lemma focus_pass_frame:
  "focus_pass fuel w s = Some (s', sent) \<Longrightarrow>
   \<exists>f r. s' = s\<lparr>globs := (globs s)\<lparr>focus_fd := f, ready_fd := r\<rparr>\<rparr>"
proof -
  assume a: "focus_pass fuel w s = Some (s', sent)"
  have id: "s = s\<lparr>globs := (globs s)\<lparr>focus_fd := focus_fd (globs s), ready_fd := ready_fd (globs s)\<rparr>\<rparr>"
    by simp
  from a consider "s' = s" | f where "s' = s\<lparr>globs := (globs s)\<lparr>focus_fd := f\<rparr>\<rparr>"
    | f r where "s' = s\<lparr>globs := (globs s)\<lparr>focus_fd := f, ready_fd := r\<rparr>\<rparr>"
    by (auto simp: focus_pass_def bind_eq_Some_conv split: if_splits list.splits)
  then show ?thesis
  proof cases
    case 1
    then show ?thesis using id by metis
  next
    case (2 f)
    then have "s' = s\<lparr>globs := (globs s)\<lparr>focus_fd := f, ready_fd := ready_fd (globs s)\<rparr>\<rparr>" by simp
    then show ?thesis by blast
  qed blast
qed

lemma table_ok_globals:
  "userCount g = userCount (globs s) \<Longrightarrow> table_ok (s\<lparr>globs := g\<rparr>) = table_ok s"
  by (simp add: table_ok_def live_clients_def)

lemma handle_fd_ok:
  assumes "table_ok s" "event_ok f ev s" "handle_fd tj f ev s = Some s'"
  shows "table_ok s'"
proof -
  have f: "f < MAX_CLIENT_NUM" using assms(2) by (simp add: event_ok_def)
  show ?thesis
  proof (cases ev)
    case (Accepted sock lastip)
    then have fs: "f = server_socket s" using assms(2) by (simp add: event_ok_def)
    obtain c g where cg: "new_Client sock lastip (screen_mode s) (globs s) = (c, g)" by fastforce
    show ?thesis
      using assms Accepted fs cg accept_ok [OF assms(1) _ _ _ cg]
      by (auto simp: handle_fd_def event_ok_def split: if_splits)
  next
    case Hangup
    then obtain c where c: "clients s ! f = Some c" "s' = drop_client f c s"
      using assms by (auto simp: handle_fd_def event_ok_def bind_eq_Some_conv)
    moreover have "fd c = int f" using assms(1) f c(1) by (simp add: table_ok_def)
    ultimately show ?thesis using drop_client_ok [OF assms(1) f c(1)] by simp
  next
    case (Data d)
    then have fs: "f \<noteq> server_socket s" using assms(2) by (simp add: event_ok_def)
    obtain c ch1 ret c1 g1 ch2 where r: "clients s ! f = Some c" "receive tj ch1 (length d) c (globs s) = Some (ret, c1, g1)"
      "s' = (if ret < 0 then drop_client f c1 (s\<lparr>clients := (clients s)[f := Some c1], globs := g1\<rparr>)
             else s\<lparr>clients := (clients s)[f := Some c1], globs := g1\<rparr>)\<lparr>chunk := ch2\<rparr>"
      using assms(3) Data fs by (auto simp: handle_fd_def Let_def bind_eq_Some_conv)
    have c: "fd c = int f" "wf_client c" using assms(1) f r(1) by (auto simp: table_ok_def)
    have link: "same_link c (globs s) c1 g1" using r(2) by (rule receive_link)
    let ?s1 = "s\<lparr>clients := (clients s)[f := Some c1], globs := g1\<rparr>"
    have ok1: "table_ok ?s1"
      using assms(1) f r(1) receive_wf [OF c(2) r(2)] link by (rule update_client_ok)
    moreover have "table_ok (drop_client f c1 ?s1)"
      using ok1 f assms(1) c(1) link
      by (intro drop_client_ok [where c0 = c1]) (auto simp: same_link_def table_ok_def)
    moreover have "table_ok (t\<lparr>chunk := ch2\<rparr>) = table_ok t" for t
      by (simp add: table_ok_def live_clients_def)
    ultimately show ?thesis using r(3) by simp
  qed
qed

lemma server_step_ok: "server_step tj s s' \<Longrightarrow> table_ok s \<Longrightarrow> table_ok s'"
proof (induction rule: server_step.induct)
  case (select_body f ev s s')
  then show ?case by (blast intro: handle_fd_ok)
next
  case (focus_body s s' sent)
  then show ?case by (auto simp: table_ok_globals dest!: focus_pass_frame)
qed

section \<open>The user-list message\<close>

definition filled :: "nat \<Rightarrow> byte list \<Rightarrow> nat \<times> cells" where
  "filled N bs = (length bs, map Some bs @ replicate (N - length bs) None)"

lemma put_send_filled:
  assumes "length done + length bs \<le> N"
  shows "put_send bs (filled N done) = Some (filled N (done @ bs))"
  using assms by (simp add: put_send_def filled_def store_bytes_def)

definition prefix_bytes :: "nat \<Rightarrow> cells option \<Rightarrow> byte list" where
  "prefix_bytes n a = (if n = 0 then [] else map the (take n (the a)))"

definition user_entry :: "client \<Rightarrow> int \<times> byte list \<times> byte list" where
  "user_entry c = (userID c, prefix_bytes (userNameLength c) (userName c),
     prefix_bytes (jpegOffset c) (jpegBuffer c))"

fun encode_entry :: "int \<times> byte list \<times> byte list \<Rightarrow> byte list" where
  "encode_entry (u, nm, im) =
     mem_int u @ mem_int (int (length nm)) @ nm @ mem_int (int (length im)) @ im"

definition encode_user_list :: "int \<Rightarrow> (int \<times> byte list \<times> byte list) list \<Rightarrow> byte list" where
  "encode_user_list n es =
     (let body = concat (map encode_entry es)
      in mem_int SEND_USER_LIST @ mem_int (int (4 + length body)) @ mem_int n @ body)"

text \<open>The receiver's reading of the message.\<close>

definition read_int :: "byte list \<Rightarrow> (nat \<times> byte list) option" where
  "read_int bs = (if length bs < 4 then None else Some (le_nat (take 4 bs), drop 4 bs))"

definition read_block :: "byte list \<Rightarrow> (byte list \<times> byte list) option" where
  "read_block bs = do { (n, r) \<leftarrow> read_int bs;
     if length r < n then None else Some (take n r, drop n r) }"

fun read_entries :: "nat \<Rightarrow> byte list \<Rightarrow> ((int \<times> byte list \<times> byte list) list \<times> byte list) option" where
  "read_entries 0 bs = Some ([], bs)"
| "read_entries (Suc n) bs = do {
     (u, r1) \<leftarrow> read_int bs;
     (nm, r2) \<leftarrow> read_block r1;
     (im, r3) \<leftarrow> read_block r2;
     (es, r4) \<leftarrow> read_entries n r3;
     Some ((s32 (int u), nm, im) # es, r4) }"

definition read_user_list :: "byte list \<Rightarrow> (int \<times> byte list \<times> byte list) list option" where
  "read_user_list bs = do {
     (ty, r1) \<leftarrow> read_int bs;
     (len, r2) \<leftarrow> read_int r1;
     (n, r3) \<leftarrow> read_int r2;
     (es, r4) \<leftarrow> read_entries n r3;
     if int ty = SEND_USER_LIST \<and> len = length r2 \<and> r4 = [] then Some es else None }"

lemma length_mem_int [simp]: "length (mem_int x) = 4"
  by (simp add: mem_int_def)

lemma le_nat_mem_int: "le_nat (mem_int x) = nat (u32 x)"
proof -
  have "nat (u32 x) < 256 ^ 4" by (simp add: u32_def nat_less_iff)
  then show ?thesis by (simp only: mem_int_def le_nat_le_enc mod_less)
qed

lemma read_int_mem_int: "read_int (mem_int x @ r) = Some (nat (u32 x), r)"
  by (simp add: read_int_def le_nat_mem_int)

lemma read_block_encoded:
  assumes "length bs < 2 ^ 32"
  shows "read_block (mem_int (int (length bs)) @ bs @ r) = Some (bs, r)"
proof -
  have "nat (u32 (int (length bs))) = length bs" using assms by (simp add: u32_def)
  then show ?thesis by (simp add: read_block_def read_int_mem_int)
qed

definition entry_ok :: "int \<times> byte list \<times> byte list \<Rightarrow> bool" where
  "entry_ok e \<longleftrightarrow> in_s32 (fst e) \<and> length (fst (snd e)) < 2 ^ 32 \<and> length (snd (snd e)) < 2 ^ 32"

lemma u32_nonneg [simp]: "0 \<le> u32 x"
  by (simp add: u32_def)

lemma s32_nat_u32: "in_s32 x \<Longrightarrow> s32 (int (nat (u32 x))) = x"
  by (simp add: s32_u32 s32_id)

lemma read_entries_encoded:
  "list_all entry_ok es \<Longrightarrow> read_entries (length es) (concat (map encode_entry es) @ r) = Some (es, r)"
proof (induction es)
  case Nil
  then show ?case by simp
next
  case (Cons e es)
  obtain u nm im where e: "e = (u, nm, im)" by (cases e)
  show ?case
    using Cons by (simp add: e entry_ok_def read_int_mem_int read_block_encoded s32_u32 s32_id)
qed

lemma read_user_list_encoded:
  assumes "list_all entry_ok es" "4 + length (concat (map encode_entry es)) < 2 ^ 32"
    "length es < 2 ^ 32"
  shows "read_user_list (encode_user_list (int (length es)) es) = Some es"
proof -
  have "nat (u32 (int (length es))) = length es" using assms(3) by (simp add: u32_def)
  moreover have "nat (u32 (int (4 + length (concat (map encode_entry es)))))
      = 4 + length (concat (map encode_entry es))"
    using assms(2) by (simp only: u32_def) simp
  ultimately show ?thesis
    using read_entries_encoded [OF assms(1), of "[]"]
    by (simp add: read_user_list_def encode_user_list_def Let_def read_int_mem_int
        SEND_USER_LIST_def u32_def del: of_nat_add)
qed

lemma wf_prefixes:
  assumes "wf_client c"
  shows "array_prefix (userNameLength c) (userName c) = Some (prefix_bytes (userNameLength c) (userName c))"
    "length (prefix_bytes (userNameLength c) (userName c)) = userNameLength c"
    "array_prefix (jpegOffset c) (jpegBuffer c) = Some (prefix_bytes (jpegOffset c) (jpegBuffer c))"
    "length (prefix_bytes (jpegOffset c) (jpegBuffer c)) = jpegOffset c"
  using assms
  by (cases "userName c"; cases "jpegBuffer c";
      auto simp: wf_client_def name_ok_def frame_ok_def array_prefix_def prefix_bytes_def
        load_bytes_def initialised_def dest: in_set_takeD)+

lemma entry_length_encoded: "wf_client c \<Longrightarrow> length (encode_entry (user_entry c)) = entry_length c"
  using wf_prefixes [of c] by (simp add: user_entry_def entry_length_def)

lemma put_entry_filled:
  assumes "wf_client c" "length done + entry_length c \<le> N"
  shows "put_entry c (filled N done) = Some (filled N (done @ encode_entry (user_entry c)))"
  using assms wf_prefixes [OF assms(1)]
  by (simp add: put_entry_def put_send_filled user_entry_def entry_length_def)

lemma put_entries_filled:
  "list_all wf_client cs \<Longrightarrow> length done + sum_list (map entry_length cs) \<le> N \<Longrightarrow>
   put_entries cs (filled N done) = Some (filled N (done @ concat (map (encode_entry \<circ> user_entry) cs)))"
proof (induction cs arbitrary: "done")
  case Nil
  then show ?case by simp
next
  case (Cons c cs)
  then show ?case using Cons.IH [of "done @ encode_entry (user_entry c)"]
    by (simp add: put_entry_filled entry_length_encoded)
qed

lemma other_clients_wf:
  assumes "table_ok s"
  shows "list_all wf_client (other_clients s)"
proof -
  have "wf_client c" if "Some c \<in> set (clients s)" for c
    using that assms by (auto simp: table_ok_def in_set_conv_nth)
  then show ?thesis by (auto simp: other_clients_def list_all_iff)
qed

lemma data_length_sum:
  "0 \<le> d \<Longrightarrow> d + int (sum_list (map entry_length cs)) < 2 ^ 31 \<Longrightarrow>
   data_length cs d = Some (d + int (sum_list (map entry_length cs)))"
proof (induction cs arbitrary: d)
  case Nil
  then show ?case by simp
next
  case (Cons c cs)
  have "add_sizeof (add_sizeof d) = d + 8"
    using Cons.prems by (simp add: add_sizeof_def entry_length_def s32_id in_s32_def)
  moreover have "add_sizeof (d + 8 + int (userNameLength c)) = d + 12 + int (userNameLength c)"
    using Cons.prems by (simp add: add_sizeof_def entry_length_def s32_id in_s32_def)
  moreover have "d + int (entry_length c) = d + 12 + int (userNameLength c) + int (jpegOffset c)"
    by (simp add: entry_length_def)
  ultimately show ?case
    using Cons.IH [of "d + int (entry_length c)"] Cons.prems
    by (simp add: add_int_def in_s32_def entry_length_def algebra_simps)
qed

lemma user_list_message_encoded:
  assumes "table_ok s"
    and "int (HEADER_SIZE + 4 + sum_list (map entry_length (other_clients s))) < 2 ^ 31"
  defines "msg \<equiv> encode_user_list (userCount (globs s) - 1) (map user_entry (other_clients s))"
  shows "user_list_message s = Some (length msg, map Some msg)"
proof -
  let ?cs = "other_clients s"
  let ?body = "concat (map (encode_entry \<circ> user_entry) ?cs)"
  have wf: "list_all wf_client ?cs" using assms(1) by (rule other_clients_wf)
  have body: "length ?body = sum_list (map entry_length ?cs)"
    using wf by (induction ?cs) (simp_all add: length_concat comp_def list_all_iff
        entry_length_encoded cong: map_cong)
  define n where "n = 4 + sum_list (map entry_length ?cs)"
  let ?N = "HEADER_SIZE + n"
  let ?h = "mem_int SEND_USER_LIST" and ?l = "mem_int (int n)" and ?u = "mem_int (userCount (globs s) - 1)"
  have N: "?N = 12 + sum_list (map entry_length ?cs)" by (simp add: HEADER_SIZE_def n_def)
  have "put_send ?h (0, replicate ?N None) = Some (filled ?N ?h)"
    using put_send_filled [of "[]" ?h ?N] N by (simp add: filled_def)
  moreover have "put_send ?l (filled ?N ?h) = Some (filled ?N (?h @ ?l))"
    using N by (intro put_send_filled) simp
  moreover have "put_send ?u (filled ?N (?h @ ?l)) = Some (filled ?N (?h @ ?l @ ?u))"
    using N put_send_filled [of "?h @ ?l" ?u ?N] by simp
  moreover have "put_entries ?cs (filled ?N (?h @ ?l @ ?u)) = Some (filled ?N (?h @ ?l @ ?u @ ?body))"
    using N wf put_entries_filled [of ?cs "?h @ ?l @ ?u" ?N] by simp
  moreover have "data_length ?cs (add_sizeof 0) = Some (int n)"
    using data_length_sum [of 4 ?cs] assms(2)
    by (simp add: add_sizeof_def n_def HEADER_SIZE_def s32_def)
  moreover have "add_int (int HEADER_SIZE) (int n) = Some (int ?N)"
    using assms(2) by (simp add: add_int_def in_s32_def n_def HEADER_SIZE_def)
  moreover have "\<not> int ?N < 0" "nat (int ?N) = ?N" by simp_all
  ultimately have "user_list_message s = Some (filled ?N (?h @ ?l @ ?u @ ?body))"
    unfolding user_list_message_def by (simp add: Let_def del: of_nat_add)
  moreover have "msg = ?h @ ?l @ ?u @ ?body"
    using body by (simp add: msg_def encode_user_list_def n_def Let_def)
  moreover have "length (?h @ ?l @ ?u @ ?body) = ?N" using N body by simp
  ultimately show ?thesis by (simp add: filled_def)
qed

text \<open>With \<open>table_ok\<close>, the loops visit the connected clients, and the focused one only is skipped.\<close>

lemma skip_slot:
  assumes "\<forall>i c. i < length cl \<longrightarrow> cl ! i = Some c \<longrightarrow> fd c = int (k + i)" "f < length cl"
  shows "filter (\<lambda>c. fd c \<noteq> int (k + f)) (map the (filter (\<lambda>x. x \<noteq> None) cl))
    = map the (filter (\<lambda>x. x \<noteq> None) (cl[f := None]))"
  using assms
proof (induction cl arbitrary: k f)
  case Nil
  then show ?case by simp
next
  case (Cons x cl)
  have later: "\<forall>i c. i < length cl \<longrightarrow> cl ! i = Some c \<longrightarrow> fd c = int (Suc k + i)"
    using Cons.prems(1) by (metis Suc_less_eq add_Suc_shift length_Cons nth_Cons_Suc)
  have x: "x = Some c \<Longrightarrow> fd c = int k" for c
    using Cons.prems(1) by (metis add.right_neutral length_greater_0_conv list.distinct(1) nth_Cons_0)
  show ?case
  proof (cases f)
    case 0
    have "fd c \<noteq> int k" if "Some c \<in> set cl" for c
      using that later by (auto simp: in_set_conv_nth)
    then have "filter (\<lambda>c. fd c \<noteq> int k) (map the (filter (\<lambda>x. x \<noteq> None) cl)) = map the (filter (\<lambda>x. x \<noteq> None) cl)"
      by (auto intro!: filter_True)
    then show ?thesis using 0 x by auto
  next
    case (Suc j)
    then show ?thesis
      using Cons.IH [OF later, of j] Cons.prems(2) x by (cases x) auto
  qed
qed

lemma connected_in_set:
  assumes "table_ok s" "Some c \<in> set (clients s)"
  shows "nat (fd c) \<in> read_fds s" "fd c \<noteq> int (server_socket s)"
  using assms by (auto simp: table_ok_def in_set_conv_nth)

lemma other_clients_table:
  assumes "table_ok s"
  shows "other_clients s = filter (\<lambda>c. fd c \<noteq> focus_fd (globs s)) (map the (live_clients s))"
proof -
  have "filter (\<lambda>c. nat (fd c) \<in> read_fds s) (map the (live_clients s)) = map the (live_clients s)"
    using connected_in_set(1) [OF assms] by (auto simp: live_clients_def intro!: filter_True)
  then show ?thesis by (simp add: other_clients_def live_clients_def)
qed

lemma other_clients_slot:
  assumes "table_ok s" "focus_fd (globs s) = int f" "f < MAX_CLIENT_NUM"
  shows "other_clients s = map the (filter (\<lambda>x. x \<noteq> None) ((clients s)[f := None]))"
  using skip_slot [of "clients s" 0 f] assms
  by (simp add: other_clients_table live_clients_def) (simp add: table_ok_def)

lemma count_others:
  assumes "table_ok s" "focus_fd (globs s) = int f" "f < MAX_CLIENT_NUM"
  shows "int (length (other_clients s))
    = userCount (globs s) - (if clients s ! f = None then 0 else 1)"
  using assms length_filter_update [of f "clients s" "\<lambda>x. x \<noteq> None" None]
  by (simp add: other_clients_slot) (simp add: table_ok_def live_clients_def)

lemma dropped_focus:
  assumes "table_ok s" "clients s ! f = Some c" "f < MAX_CLIENT_NUM" "focus_fd (globs s) = int f"
    "1 < userCount (globs s)"
  defines "s' \<equiv> drop_client f c s"
  shows "table_ok s'" "focus_fd (globs s') = int f" "ready_fd (globs s') = 0"
    "userCount (globs s') = userCount (globs s) - 1" "clients s' ! f = None" "read_fds s' = read_fds s - {f}"
proof -
  have fd: "fd c = int f" using assms(1-3) by (simp add: table_ok_def)
  show "table_ok s'" unfolding s'_def using assms(1,3,2) fd by (rule drop_client_ok)
  show "focus_fd (globs s') = int f" "ready_fd (globs s') = 0"
    "userCount (globs s') = userCount (globs s) - 1" "read_fds s' = read_fds s - {f}"
    using fd assms(4,5) by (simp_all add: s'_def drop_client_def delete_Client_def Let_def)
  show "clients s' ! f = None"
    using assms(1,3) by (simp add: s'_def drop_client_def table_ok_def)
qed

section \<open>Properties\<close>

lemma reachable_table_ok:
  assumes "server_reachable tj s0 s" "table_ok s0"
  shows "table_ok s"
  using assms by (induction rule: server_reachable.induct) (auto intro: server_step_ok)

text \<open>Two clients connected to a listening socket 3, the first with the focus.\<close>

definition demo_client :: "int \<Rightarrow> int \<Rightarrow> client" where
  "demo_client sock ident = fst (new_Client sock ident (2, 1, 24)
     \<lparr>focus_fd = 0, ready_fd = 0, userCount = 0, fbp = []\<rparr>)"

definition demo_start :: server where
  "demo_start = initial_server 3 (2, 1, 24) [0, 0, 0, 0, 0, 0] [0, 0, 0, 0, 0, 0, 0, 0, 0, 0, 0, 0]"

definition demo_server :: server where
  "demo_server = demo_start
     \<lparr>clients := (replicate MAX_CLIENT_NUM None)[4 := Some (demo_client 4 10), 5 := Some (demo_client 5 11)],
      read_fds := {3, 4, 5},
      globs := \<lparr>focus_fd = 4, ready_fd = 4, userCount = 2, fbp = [0, 0, 0, 0, 0, 0]\<rparr>\<rparr>"

lemma demo_reachable: "server_reachable tj demo_start demo_server"
proof -
  let ?a = "demo_start\<lparr>clients := (replicate MAX_CLIENT_NUM None)[4 := Some (demo_client 4 10)],
    read_fds := {3, 4}, globs := \<lparr>focus_fd = -1, ready_fd = 4, userCount = 1, fbp = [0, 0, 0, 0, 0, 0]\<rparr>\<rparr>"
  let ?b = "?a\<lparr>globs := \<lparr>focus_fd = 4, ready_fd = 4, userCount = 1, fbp = [0, 0, 0, 0, 0, 0]\<rparr>\<rparr>"
  have "server_step tj demo_start ?a"
    by (rule select_body [where f = 3 and ev = "Accepted 4 10"])
      (auto simp: event_ok_def demo_start_def initial_server_def MAX_CLIENT_NUM_def handle_fd_def
        new_Client_def client_init_def demo_client_def Let_def cdiv_def)
  moreover have "server_step tj ?a ?b"
    by (rule focus_body [where sent = "[(4, focus_message)]" and fuel = 12 and w = "\<lambda>r. r"])
      (simp add: focus_pass_def fd_isset_def FD_SETSIZE_def HEADER_SIZE_def focus_send_message)
  moreover have "server_step tj ?b demo_server"
    by (rule select_body [where f = 3 and ev = "Accepted 5 11"])
      (auto simp: event_ok_def demo_start_def demo_server_def initial_server_def MAX_CLIENT_NUM_def handle_fd_def
        new_Client_def client_init_def demo_client_def Let_def cdiv_def)
  ultimately show ?thesis by (blast intro: server_reachable.intros)
qed

lemma demo_table_ok: "table_ok demo_server"
proof -
  have "table_ok demo_start"
    unfolding demo_start_def by (rule initial_table_ok) (simp add: MAX_CLIENT_NUM_def)
  with demo_reachable show ?thesis by (rule reachable_table_ok)
qed

lemma demo_fields [simp]:
  "clients demo_server ! 4 = Some (demo_client 4 10)" "clients demo_server ! 5 = Some (demo_client 5 11)"
  "globs demo_server = \<lparr>focus_fd = 4, ready_fd = 4, userCount = 2, fbp = [0, 0, 0, 0, 0, 0]\<rparr>"
  "read_fds demo_server = {3, 4, 5}" "server_socket demo_server = 3"
  by (simp_all add: demo_server_def MAX_CLIENT_NUM_def demo_start_def initial_server_def)


text \<open>
  C6: In every state the server reaches from its start, through any sequence of ready
  descriptors and passes of the focus thread, the client table, the descriptor set and
  \<open>userCount\<close> agree: slot \<open>i\<close> holds the connection of descriptor \<open>i\<close>, the set is the
  listening socket and the connected descriptors, the count is the number of connections,
  and every connection is well-formed.
\<close>

theorem server_table_consistent:
  assumes "server_reachable tj (initial_server sock mode screen junk) s" "sock < MAX_CLIENT_NUM"
  shows "table_ok s"
  using assms(1) initial_table_ok [OF assms(2)] by (rule reachable_table_ok)

theorem server_table_consistent_witness:
  "table_ok demo_server \<and> length (live_clients demo_server) = 2"
proof -
  have "table_ok demo_server"
    using demo_reachable unfolding demo_start_def
    by (rule server_table_consistent) (simp add: MAX_CLIENT_NUM_def)
  then show ?thesis by (simp add: table_ok_def)
qed

text \<open>
  C22: Only the client that has the focus writes to the screen: in a reachable state, serving
  any descriptor other than \<open>focus_fd\<close> (a new connection, data, whole images included, or a
  hangup) leaves the framebuffer memory as it was, and the focus thread never touches it.
\<close>

lemma drop_client_screen [simp]: "fbp (globs (drop_client f c s)) = fbp (globs s)"
  by (simp add: drop_client_def delete_Client_def Let_def)

lemma new_Client_screen: "fbp (snd (new_Client sock ident mode g)) = fbp g"
  by (cases mode) (simp add: new_Client_def client_init_def)

lemma data_screen:
  assumes "table_ok s" "f < MAX_CLIENT_NUM" "f \<noteq> server_socket s" "int f \<noteq> focus_fd (globs s)"
    and "handle_fd tj f (Data d) s = Some s'"
  shows "fbp (globs s') = fbp (globs s)"
proof -
  obtain c ch1 ret c1 g1 where r: "clients s ! f = Some c" "receive tj ch1 (length d) c (globs s) = Some (ret, c1, g1)"
    "fbp (globs s') = fbp g1"
    using assms(3,5) by (auto simp: handle_fd_def Let_def bind_eq_Some_conv split: if_splits)
  have "fd c = int f" using assms(1,2) r(1) by (simp add: table_ok_def)
  then show ?thesis using receive_link [OF r(2)] r(3) assms(4) by (simp add: same_link_def)
qed

theorem unfocused_leaves_screen:
  assumes "server_reachable tj (initial_server sock mode screen junk) s" "sock < MAX_CLIENT_NUM"
    and "event_ok f ev s" "int f \<noteq> focus_fd (globs s)" "handle_fd tj f ev s = Some s'"
  shows "fbp (globs s') = fbp (globs s)"
proof -
  have ok: "table_ok s" using assms(1) initial_table_ok [OF assms(2)] by (rule reachable_table_ok)
  have f: "f < MAX_CLIENT_NUM" using assms(3) by (simp add: event_ok_def)
  show ?thesis
  proof (cases ev)
    case (Accepted sock lastip)
    then show ?thesis
      using assms(5) new_Client_screen [of sock lastip "screen_mode s" "globs s"]
      by (auto simp: handle_fd_def split: if_splits prod.splits)
  next
    case (Data d)
    then have "f \<noteq> server_socket s" using assms(3) by (simp add: event_ok_def)
    with ok f show ?thesis using assms(4,5) unfolding Data by (rule data_screen)
  next
    case Hangup
    then show ?thesis using assms(5) by (auto simp: handle_fd_def bind_eq_Some_conv split: if_splits)
  qed
qed

theorem unfocused_leaves_screen_witness:
  "fbp (globs (drop_client 5 (demo_client 5 11) demo_server)) = [0, 0, 0, 0, 0, 0]"
proof -
  have "handle_fd tj 5 Hangup demo_server = Some (drop_client 5 (demo_client 5 11) demo_server)" for tj
    by (simp add: handle_fd_def)
  moreover have "event_ok 5 Hangup demo_server" by (simp add: event_ok_def MAX_CLIENT_NUM_def)
  ultimately have "fbp (globs (drop_client 5 (demo_client 5 11) demo_server)) = fbp (globs demo_server)"
    using unfocused_leaves_screen [OF demo_reachable [unfolded demo_start_def], of 5 Hangup _]
    by (simp add: MAX_CLIENT_NUM_def)
  then show ?thesis by simp
qed

text \<open>
  C21: Handover.  When the focused client is dropped while others are connected and \<open>write\<close>
  takes at least one byte each time it is called, the next pass of the focus thread ends,
  gives the focus to the first remaining client of the table and sends it, and nobody else,
  the 12-byte message \<open>CHANGE_FOCUS_STATUS, 4, 1\<close>; the pass after that does nothing
  (descriptor 0 is not a connection).  When \<open>write\<close> fails with -1 the pass never ends
  regularly, so the focus is never handed over.
\<close>

theorem focus_handover:
  assumes "table_ok s" "clients s ! f = Some c" "f < MAX_CLIENT_NUM" "focus_fd (globs s) = int f"
    and "1 < userCount (globs s)" "0 \<notin> read_fds s"
    and w: "\<And>r. 0 < r \<Longrightarrow> 1 \<le> w r \<and> w r \<le> r" and fuel: "12 \<le> fuel"
  shows "\<exists>d s'. hd (live_clients (drop_client f c s)) = Some d \<and>
    focus_pass fuel w (drop_client f c s) = Some (s', [(fd d, focus_message)]) \<and>
    focus_fd (globs s') = fd d \<and> ready_fd (globs s') = fd d \<and>
    focus_pass fuel2 w2 s' = Some (s', []) \<and>
    focus_pass fuel2 (\<lambda>_. -1) (drop_client f c s) = None"
proof -
  let ?s = "drop_client f c s"
  note d = dropped_focus [OF assms(1-5)]
  have f0: "f \<noteq> 0"
  proof
    assume "f = 0"
    then show False using assms(1,2,3,6) by (simp add: table_ok_def)
  qed
  have "other_clients ?s = map the (live_clients ?s)"
    using other_clients_slot [OF d(1,2) assms(3)] d(5)
    by (simp add: live_clients_def) (metis list_update_id)
  moreover have "live_clients ?s \<noteq> []"
    using d(1,4) assms(5) by (auto simp: table_ok_def)
  then obtain x xs where x: "live_clients ?s = x # xs" by (cases "live_clients ?s") auto
  moreover have "x \<noteq> None" using x by (metis (mono_tags) filter_eq_ConsD live_clients_def)
  ultimately obtain e where e: "other_clients ?s = e # map the xs" "hd (live_clients ?s) = Some e"
    by auto
  have step: "focus_pass k v ?s = do { loop \<leftarrow> focus_send k v focus_message 12; out \<leftarrow> loop;
      Some (?s\<lparr>globs := (globs ?s)\<lparr>focus_fd := fd e, ready_fd := fd e\<rparr>\<rparr>, [(fd e, out)]) }" for k v
    using d(2,3,4,6) f0 assms(5,6) e(1)
    by (simp add: focus_pass_def fd_isset_def FD_SETSIZE_def HEADER_SIZE_def)
  have "focus_pass fuel2 (\<lambda>_. -1) ?s = None"
    using focus_send_refused [of fuel2] unfolding step by (auto simp: bind_eq_None_conv)
  then show ?thesis
    by (intro exI [of _ e] exI [of _ "?s\<lparr>globs := (globs ?s)\<lparr>focus_fd := fd e, ready_fd := fd e\<rparr>\<rparr>"])
      (simp add: step focus_send_message [OF w fuel] e(2), simp add: focus_pass_def)
qed

theorem focus_handover_witness:
  "\<exists>s'. focus_pass 12 (\<lambda>r. 1) (drop_client 4 (demo_client 4 10) demo_server)
     = Some (s', [(5, focus_message)]) \<and> focus_fd (globs s') = 5"
proof -
  have l: "hd (live_clients (drop_client 4 (demo_client 4 10) demo_server)) = Some (demo_client 5 11)"
    by (simp add: live_clients_def drop_client_def demo_server_def MAX_CLIENT_NUM_def) (simp add: numeral_eq_Suc)
  have "fd (demo_client 5 11) = 5" by (simp add: demo_client_def new_Client_fields)
  then show ?thesis
    using focus_handover [OF demo_table_ok, of 4 "demo_client 4 10" "\<lambda>r. 1" 12] l
    by (auto simp: MAX_CLIENT_NUM_def)
qed


text \<open>
  C20: The user list.  When the focused client is connected and the whole message is shorter than
  2^31 bytes (the lengths are C \<open>int\<close>s, so the buffer cannot be longer), the
  user-list thread fills exactly the buffer it allocated (no byte outside, none left unset),
  and a receiver that reads the message back, type, length, count, then count entries of id,
  name and image, gets the id, the name and the last complete frame of every other connected
  client, in table order, with nothing left over.
\<close>

theorem user_list_decodes:
  assumes "table_ok s" "clients s ! f \<noteq> None" "f < MAX_CLIENT_NUM" "focus_fd (globs s) = int f"
    and "list_all (entry_ok \<circ> user_entry) (other_clients s)"
    and "int (HEADER_SIZE + 4 + sum_list (map entry_length (other_clients s))) < 2 ^ 31"
  shows "\<exists>msg. user_list_message s = Some (length msg, map Some msg) \<and>
    length msg = HEADER_SIZE + 4 + sum_list (map entry_length (other_clients s)) \<and>
    read_user_list msg = Some (map user_entry (other_clients s))"
proof -
  let ?cs = "other_clients s"
  let ?msg = "encode_user_list (userCount (globs s) - 1) (map user_entry ?cs)"
  have n: "userCount (globs s) - 1 = int (length ?cs)"
    using count_others [OF assms(1,4,3)] assms(2) by simp
  have "list_all wf_client ?cs" using assms(1) by (rule other_clients_wf)
  then have body: "length (concat (map encode_entry (map user_entry ?cs))) = sum_list (map entry_length ?cs)"
    by (induction ?cs) (simp_all add: length_concat comp_def list_all_iff entry_length_encoded cong: map_cong)
  have "length (live_clients s) \<le> MAX_CLIENT_NUM"
    using assms(1) length_filter_le [of "\<lambda>x. x \<noteq> None" "clients s"]
    by (simp add: table_ok_def live_clients_def)
  moreover have "length ?cs \<le> length (live_clients s)"
    using length_filter_le [of "\<lambda>c. fd c \<noteq> focus_fd (globs s)" "map the (live_clients s)"]
    unfolding other_clients_table [OF assms(1)] length_map .
  ultimately have small: "length ?cs < 2 ^ 32" by (simp add: MAX_CLIENT_NUM_def)
  have ok: "list_all entry_ok (map user_entry ?cs)"
    using assms(5) by (simp add: list_all_iff)
  have "read_user_list ?msg = Some (map user_entry ?cs)"
    unfolding n length_map [of user_entry, symmetric]
    by (rule read_user_list_encoded [OF ok]) (use body assms(6) small in \<open>simp_all add: HEADER_SIZE_def\<close>)
  moreover have "length ?msg = HEADER_SIZE + 4 + sum_list (map entry_length ?cs)"
    using body by (simp add: encode_user_list_def Let_def HEADER_SIZE_def)
  ultimately show ?thesis using user_list_message_encoded [OF assms(1,6)] by blast
qed

lemma demo_others: "other_clients demo_server = [demo_client 5 11]"
  by (simp add: other_clients_slot [OF demo_table_ok, of 4] MAX_CLIENT_NUM_def)
    (simp add: demo_server_def MAX_CLIENT_NUM_def, simp add: numeral_eq_Suc)

lemma demo_entry: "user_entry (demo_client 5 11) = (11, [], [])" "entry_length (demo_client 5 11) = 12"
  by (simp_all add: user_entry_def entry_length_def demo_client_def new_Client_def client_init_def prefix_bytes_def)

theorem user_list_decodes_witness:
  "\<exists>msg. user_list_message demo_server = Some (24, map Some msg) \<and>
     length msg = 24 \<and> read_user_list msg = Some [(11, [], [])]"
proof -
  have "\<exists>msg. user_list_message demo_server = Some (length msg, map Some msg) \<and>
      length msg = HEADER_SIZE + 4 + sum_list (map entry_length (other_clients demo_server)) \<and>
      read_user_list msg = Some (map user_entry (other_clients demo_server))"
    by (rule user_list_decodes [OF demo_table_ok, of 4])
      (simp_all add: MAX_CLIENT_NUM_def HEADER_SIZE_def demo_others demo_entry entry_ok_def in_s32_def)
  then show ?thesis by (auto simp: demo_others demo_entry HEADER_SIZE_def)
qed

lemma user_list_send_once:
  "0 < r \<Longrightarrow> r \<le> length buf \<Longrightarrow> user_list_send nwrite buf r = take (nwrite r) (drop (length buf - r) buf)"
  by (simp add: user_list_send.simps [of nwrite buf r] user_list_send.simps [of nwrite buf 0])

text \<open>
  C34: Between the moment the focused client is dropped and the next pass of the focus thread,
  \<open>focus_fd\<close> still names the closed descriptor and \<open>userCount - 1\<close> is one less than the number
  of entries: the user-list thread, if it runs there with a message shorter than 2^31 bytes,
  builds one whose count field is one too small for its entries and offers it to that
  descriptor, in one \<open>write\<close> of which whatever the kernel takes (nothing when it refuses the
  descriptor) is sent.
\<close>

theorem user_list_race:
  fixes nwrite :: "nat \<Rightarrow> nat"
  assumes "table_ok s" "clients s ! f = Some c" "f < MAX_CLIENT_NUM" "0 < f" "focus_fd (globs s) = int f"
    and "2 < userCount (globs s)"
    and "int (HEADER_SIZE + 4 + sum_list (map entry_length (other_clients (drop_client f c s)))) < 2 ^ 31"
  shows "\<exists>msg. msg = encode_user_list (int (length (other_clients (drop_client f c s))) - 1)
            (map user_entry (other_clients (drop_client f c s))) \<and>
    user_list_message (drop_client f c s) = Some (length msg, map Some msg) \<and>
    user_list_pass nwrite (drop_client f c s) = Some [(int f, take (nwrite (length msg)) msg)] \<and>
    f \<notin> read_fds (drop_client f c s)"
proof -
  let ?s = "drop_client f c s"
  have u: "1 < userCount (globs s)" using assms(6) by simp
  note d = dropped_focus [OF assms(1-3,5) u]
  have n: "userCount (globs ?s) = int (length (other_clients ?s))"
    using count_others [OF d(1,2) assms(3)] d(5) by simp
  let ?msg = "encode_user_list (userCount (globs ?s) - 1) (map user_entry (other_clients ?s))"
  have pos: "0 < length ?msg" by (simp add: encode_user_list_def Let_def)
  have m: "user_list_message ?s = Some (length ?msg, map Some ?msg)"
    using user_list_message_encoded [OF d(1) assms(7)] .
  have "user_list_pass nwrite ?s = Some [(int f, take (nwrite (length ?msg)) ?msg)]"
    using d(2,4) assms(4,6) m user_list_send_once [OF pos order_refl, of nwrite]
    by (simp add: user_list_pass_def load_bytes_def initialised_def comp_def)
  then show ?thesis using d(6) n m by simp
qed


definition demo_three :: server where
  "demo_three = demo_server
     \<lparr>clients := (clients demo_server)[6 := Some (demo_client 6 12)], read_fds := insert 6 (read_fds demo_server),
      globs := (globs demo_server)\<lparr>userCount := 3\<rparr>\<rparr>"

lemma demo_three_ok: "table_ok demo_three"
proof -
  have "handle_fd undefined 3 (Accepted 6 12) demo_server = Some demo_three"
    by (simp add: handle_fd_def demo_three_def demo_server_def demo_start_def initial_server_def
        MAX_CLIENT_NUM_def new_Client_def client_init_def demo_client_def Let_def cdiv_def)
  moreover have "event_ok 3 (Accepted 6 12) demo_server"
    by (simp add: event_ok_def MAX_CLIENT_NUM_def)
  ultimately show ?thesis using demo_table_ok by (blast intro: handle_fd_ok)
qed

lemma demo_three_others:
  "other_clients (drop_client 4 (demo_client 4 10) demo_three) = [demo_client 5 11, demo_client 6 12]"
proof -
  have ok: "table_ok (drop_client 4 (demo_client 4 10) demo_three)"
    by (rule drop_client_ok [OF demo_three_ok])
      (simp_all add: MAX_CLIENT_NUM_def demo_three_def demo_client_def new_Client_fields)
  have "focus_fd (globs (drop_client 4 (demo_client 4 10) demo_three)) = int 4"
    by (simp add: drop_client_def delete_Client_def demo_three_def Let_def)
  then show ?thesis
    by (simp add: other_clients_slot [OF ok, of 4] MAX_CLIENT_NUM_def)
      (simp add: drop_client_def demo_three_def demo_server_def MAX_CLIENT_NUM_def, simp add: numeral_eq_Suc)
qed

theorem user_list_race_witness:
  "user_list_pass (\<lambda>_. 0) (drop_client 4 (demo_client 4 10) demo_three) = Some [(4, [])]
     \<and> 4 \<notin> read_fds (drop_client 4 (demo_client 4 10) demo_three)"
proof -
  have c: "clients demo_three ! 4 = Some (demo_client 4 10)" by (simp add: demo_three_def)
  have g: "focus_fd (globs demo_three) = int 4" "2 < userCount (globs demo_three)"
    by (simp_all add: demo_three_def)
  have e: "entry_length (demo_client 6 12) = 12"
    by (simp add: entry_length_def demo_client_def new_Client_def client_init_def)
  show ?thesis
    using user_list_race [OF demo_three_ok c _ _ g, of "\<lambda>_. 0"]
    by (auto simp: MAX_CLIENT_NUM_def HEADER_SIZE_def demo_three_others demo_entry e)
qed

text \<open>
  C35: The two sending loops under short writes.  The focus message arrives whole however
  \<open>write\<close> cuts it, as long as each call takes at least one byte; after a first failed
  \<open>write\<close> (-1) the same loop reads before its buffer.  The user-list loop calls \<open>write\<close> once
  and drops whatever that call did not take.
\<close>

theorem short_writes:
  assumes "\<And>r. 0 < r \<Longrightarrow> 1 \<le> w r \<and> w r \<le> r" "0 < length msg"
  shows "focus_send (length focus_message) w focus_message (int (length focus_message)) = Some (Some focus_message) \<and>
    focus_send (Suc (Suc k)) (\<lambda>r. -1) focus_message (int (length focus_message)) = Some None \<and>
    user_list_send nwrite msg (length msg) = take (nwrite (length msg)) msg"
proof -
  have "0 < length focus_message" by (simp add: focus_message_def)
  then show ?thesis
    using focus_send_whole [of w, OF assms(1) order_refl order_refl, of focus_message]
      user_list_send_once [OF assms(2) order_refl, of nwrite]
    by (simp add: Let_def)
qed

theorem short_writes_witness:
  "focus_send 12 (\<lambda>r. 1) focus_message 12 = Some (Some focus_message) \<and> user_list_send (\<lambda>r. 2) [1, 2, 3] 3 = [1, 2]"
proof -
  have "length focus_message = 12" by (simp add: focus_message_def)
  then show ?thesis using short_writes [of "\<lambda>r. 1" "[1, 2, 3]" undefined "\<lambda>r. 2"] by (simp add: eval_nat_numeral)
qed

end
