(* ===== verification/BmpFile.thy ===== *)
theory BmpFile
  imports Prelude "HOL-Library.Monad_Syntax"
begin

text \<open>
  The bitmap copier \<open>fb/rw_bitmap.c\<close>: header checks, header fields, the pixel matrix and the
  output file.  A file is a byte list; \<open>fread\<close> past its end leaves the rest of the variable
  as it was, so uninitialised variables are arguments (\<open>junk\<close>).  \<open>malloc n\<close> says whether an
  allocation of \<open>n\<close> bytes succeeds; \<open>size_t\<close> and \<open>long\<close> have 32 bits (Raspberry Pi).
\<close>

section \<open>Files\<close>

text \<open>\<open>fseek(f, pos, 0); fread(&var, \<dots>, f)\<close>\<close>

definition fread_at :: "byte list \<Rightarrow> nat \<Rightarrow> byte list \<Rightarrow> byte list" where
  "fread_at file pos var = (let d = take (length var) (drop pos file) in d @ drop (length d) var)"

text \<open>\<open>fseek(f, pos, 0); fwrite(bs, \<dots>, f)\<close>; a gap before \<open>pos\<close> reads as zeros.\<close>

definition fwrite_at :: "nat \<Rightarrow> byte list \<Rightarrow> byte list \<Rightarrow> byte list" where
  "fwrite_at pos bs file =
     take pos (file @ replicate (pos - length file) 0) @ bs @ drop (pos + length bs) file"

section \<open>The copier\<close>

record infoheader =
  width :: int
  height :: int
  bpp :: nat
  compression :: nat
  imagesize :: nat
  colours :: nat
  impcolours :: nat

type_synonym rgb = "byte list"
type_synonym matrix = "rgb list list"

definition isBMP :: "byte list \<Rightarrow> byte list \<Rightarrow> byte list \<Rightarrow> bool" where
  "isBMP file junk_type junk_bpp =
     (let ty = fread_at file 0 junk_type;
          bits = le_nat (fread_at file 28 junk_bpp)
      in \<not> (ty \<noteq> [0x42, 0x4D] \<or> bits \<noteq> 24))"

definition readInfo :: "byte list \<Rightarrow> (nat \<Rightarrow> byte list) \<Rightarrow> infoheader" where
  "readInfo file junk =
     \<lparr>width = s32 (int (le_nat (fread_at file 18 (junk 4)))),
      height = s32 (int (le_nat (fread_at file 22 (junk 4)))),
      bpp = le_nat (fread_at file 28 (junk 2)),
      compression = le_nat (fread_at file 30 (junk 4)),
      imagesize = le_nat (fread_at file 34 (junk 4)),
      colours = le_nat (fread_at file 46 (junk 4)),
      impcolours = le_nat (fread_at file 50 (junk 4))\<rparr>"

text \<open>\<open>None\<close>: no memory, the program exits.  A row is an array of \<open>size div 3\<close> pixels.\<close>

definition createMatrix :: "(nat \<Rightarrow> bool) \<Rightarrow> rgb \<Rightarrow> int \<Rightarrow> int \<Rightarrow> matrix option" where
  "createMatrix malloc junk h w =
     (let rows = nat (u32 (4 * h)); row = nat (u32 (3 * w))
      in if malloc rows \<and> (0 < h \<longrightarrow> malloc row)
         then Some (replicate (min (rows div 4) (nat h)) (replicate (row div 3) junk)) else None)"

text \<open>\<open>Matrix[i][j]\<close>; \<open>None\<close> outside the allocated rows.\<close>

definition matrix_get :: "matrix \<Rightarrow> nat \<Rightarrow> nat \<Rightarrow> rgb option" where
  "matrix_get m i j = (if i < length m \<and> j < length (m ! i) then Some (m ! i ! j) else None)"

definition matrix_set :: "matrix \<Rightarrow> nat \<Rightarrow> nat \<Rightarrow> rgb \<Rightarrow> matrix option" where
  "matrix_set m i j p =
     (if i < length m \<and> j < length (m ! i) then Some (m[i := (m ! i)[j := p]]) else None)"

text \<open>\<open>pos += 3\<close> on a 32-bit \<open>long\<close>; \<open>None\<close> on overflow.\<close>

definition next_pos :: "nat \<Rightarrow> nat option" where
  "next_pos pos = (if pos + 3 < 2 ^ 31 then Some (pos + 3) else None)"

definition load_pixel :: "byte list \<Rightarrow> nat \<Rightarrow> nat \<Rightarrow> nat \<times> rgb \<times> matrix \<Rightarrow> (nat \<times> rgb \<times> matrix) option" where
  "load_pixel file i j st =
     (let (pos, tmp, m) = st in
      do {
        pos1 \<leftarrow> next_pos pos;
        let tmp1 = fread_at file pos1 tmp;
        m1 \<leftarrow> matrix_set m i j tmp1;
        Some (pos1, tmp1, m1)
      })"

definition loadImage :: "byte list \<Rightarrow> rgb \<Rightarrow> int \<Rightarrow> int \<Rightarrow> matrix \<Rightarrow> matrix option" where
  "loadImage file junk h w m =
     do {
       (pos, tmp, m1) \<leftarrow> for_loop 0 (nat h) (\<lambda>i. for_loop 0 (nat w) (load_pixel file i)) (51, junk, m);
       Some m1
     }"

definition write_pixel :: "matrix \<Rightarrow> nat \<Rightarrow> nat \<Rightarrow> nat \<times> byte list \<Rightarrow> (nat \<times> byte list) option" where
  "write_pixel m i j st =
     (let (pos, out) = st in
      do {
        pos1 \<leftarrow> next_pos pos;
        p \<leftarrow> matrix_get m i j;
        Some (pos1, fwrite_at pos1 p out)
      })"

definition writeBMP :: "byte list \<Rightarrow> byte list \<Rightarrow> int \<Rightarrow> int \<Rightarrow> matrix \<Rightarrow> byte list option" where
  "writeBMP file junk h w m =
     do {
       let out = fwrite_at 0 (fread_at file 0 junk) [];
       first \<leftarrow> matrix_get m 0 0;
       (pos, out1) \<leftarrow> for_loop 0 (nat h) (\<lambda>i. for_loop 0 (nat w) (write_pixel m i)) (51, out);
       Some out1
     }"

text \<open>\<open>main\<close>: \<open>Exit\<close> for the early \<open>exit(0)\<close>s, \<open>Copied\<close> with the output file.\<close>

datatype rw_result = Exit | Copied "byte list"

definition rw_main :: "(nat \<Rightarrow> bool) \<Rightarrow> (nat \<Rightarrow> byte list) \<Rightarrow> byte list option \<Rightarrow> rw_result option" where
  "rw_main malloc junk arq =
     (case arq of
        None \<Rightarrow> Some Exit
      | Some file \<Rightarrow>
          if \<not> isBMP file (junk 2) (junk 2) then Some Exit
          else (let info = readInfo file junk; h = height info; w = width info in
                case createMatrix malloc (junk 3) h w of
                  None \<Rightarrow> Some Exit
                | Some m \<Rightarrow>
                    do {
                      m1 \<leftarrow> loadImage file (junk 3) h w m;
                      out \<leftarrow> writeBMP file (junk 54) h w m1;
                      Some (Copied out)
                    }))"

section \<open>The file format\<close>

text \<open>In a bitmap file rows start at multiples of four bytes.\<close>

definition bmp_stride :: "nat \<Rightarrow> nat" where
  "bmp_stride w = (3 * w + 3) div 4 * 4"

definition bmp_offset :: "nat \<Rightarrow> nat \<Rightarrow> nat \<Rightarrow> nat" where
  "bmp_offset w i j = 54 + i * bmp_stride w + 3 * j"

text \<open>Where \<open>rw_bitmap\<close> looks for pixel \<open>(i, j)\<close>: rows packed.\<close>

definition packed_offset :: "nat \<Rightarrow> nat \<Rightarrow> nat \<Rightarrow> nat" where
  "packed_offset w i j = 54 + 3 * (i * w + j)"

definition bmp_header_ok :: "byte list \<Rightarrow> nat \<Rightarrow> nat \<Rightarrow> bool" where
  "bmp_header_ok file w h \<longleftrightarrow> 54 \<le> length file \<and> take 2 file = [0x42, 0x4D] \<and>
     le_nat (take 2 (drop 28 file)) = 24 \<and> take 4 (drop 18 file) = le_enc 4 w \<and>
     take 4 (drop 22 file) = le_enc 4 h"

section \<open>Lemmas\<close>

lemma fread_at_inside: "pos + length var \<le> length file \<Longrightarrow> fread_at file pos var = take (length var) (drop pos file)"
  by (simp add: fread_at_def Let_def)

lemma length_fread_at [simp]: "length (fread_at file pos var) = length var"
  by (simp add: fread_at_def Let_def)

lemma fwrite_at_end: "length file = pos \<Longrightarrow> fwrite_at pos bs file = file @ bs"
  by (simp add: fwrite_at_def)

definition file_pixel :: "byte list \<Rightarrow> nat \<Rightarrow> rgb" where
  "file_pixel file k = take 3 (drop (54 + 3 * k) file)"

definition loaded :: "byte list \<Rightarrow> nat \<Rightarrow> nat \<Rightarrow> nat \<Rightarrow> nat \<times> rgb \<times> matrix \<Rightarrow> bool" where
  "loaded file h w k st \<longleftrightarrow>
     (let (pos, tmp, m) = st in pos = 51 + 3 * k \<and> length tmp = 3 \<and> length m = h \<and>
        (\<forall>r\<in>set m. length r = w) \<and>
        (\<forall>i j. i < h \<longrightarrow> j < w \<longrightarrow> i * w + j < k \<longrightarrow> m ! i ! j = file_pixel file (i * w + j)))"

lemma load_pixel_step:
  assumes "loaded file h w (i * w + j) st" "i < h" "j < w"
    and "54 + 3 * (h * w) \<le> length file" "54 + 3 * (h * w) < 2 ^ 31"
  shows "\<exists>st'. load_pixel file i j st = Some st' \<and> loaded file h w (i * w + Suc j) st'"
proof -
  obtain pos tmp m where st: "st = (pos, tmp, m)" by (cases st)
  have l: "pos = 51 + 3 * (i * w + j)" "length tmp = 3" "length m = h" "\<forall>r\<in>set m. length r = w"
    "\<forall>a b. a < h \<longrightarrow> b < w \<longrightarrow> a * w + b < i * w + j \<longrightarrow> m ! a ! b = file_pixel file (a * w + b)"
    using assms(1) by (auto simp: loaded_def st)
  have "i * w + w \<le> h * w" using assms(2) by (metis Suc_leI add.commute mult_Suc mult_le_mono1)
  then have k: "i * w + j < h * w" using assms(3) by linarith
  have row: "length (m ! i) = w" using l(3,4) assms(2) by simp
  let ?p = "fread_at file (54 + 3 * (i * w + j)) tmp"
  have p: "?p = file_pixel file (i * w + j)"
    using fread_at_inside [of "54 + 3 * (i * w + j)" tmp "file"] l(2) k assms(4) by (simp add: file_pixel_def)
  have step: "load_pixel file i j st = Some (54 + 3 * (i * w + j), ?p, m[i := (m ! i)[j := ?p]])"
    using k assms(2,3,5) row l(1,3) by (simp add: load_pixel_def st next_pos_def matrix_set_def Let_def)
  have "m[i := (m ! i)[j := ?p]] ! a ! b = file_pixel file (a * w + b)"
    if "a < h" "b < w" "a * w + b < i * w + Suc j" for a b
  proof (cases "a = i \<and> b = j")
    case True
    then show ?thesis using l(3) row assms(2,3) p by simp
  next
    case False
    have "a * w + b \<noteq> i * w + j"
    proof
      assume e: "a * w + b = i * w + j"
      then have "(a * w + b) div w = (i * w + j) div w" by simp
      then have "a = i" using that(2) assms(3) by simp
      with e False show False by simp
    qed
    then have "m ! a ! b = file_pixel file (a * w + b)" using l(5) that by simp
    moreover have "m[i := (m ! i)[j := ?p]] ! a ! b = m ! a ! b"
      using False l(3) assms(2) by (cases "a = i") auto
    ultimately show ?thesis by simp
  qed
  then have "loaded file h w (i * w + Suc j) (54 + 3 * (i * w + j), ?p, m[i := (m ! i)[j := ?p]])"
    using l(2,3,4) row by (auto simp: loaded_def dest!: set_update_subset_insert [THEN subsetD])
  with step show ?thesis by blast
qed

lemma loadImage_loaded:
  assumes "length m = h" "\<forall>r\<in>set m. length r = w" "length junk = 3"
    and "54 + 3 * (h * w) \<le> length file" "54 + 3 * (h * w) < 2 ^ 31"
  shows "\<exists>m'. loadImage file junk (int h) (int w) m = Some m' \<and> length m' = h \<and> (\<forall>r\<in>set m'. length r = w) \<and>
    (\<forall>i j. i < h \<longrightarrow> j < w \<longrightarrow> m' ! i ! j = file_pixel file (i * w + j))"
proof -
  have row: "\<exists>st'. for_loop 0 w (load_pixel file i) st = Some st' \<and> loaded file h w (Suc i * w) st'"
    if "loaded file h w (i * w) st" "i < h" for i st
    using for_loop_inv [where P = "\<lambda>j. loaded file h w (i * w + j)" and i = 0 and n = w and s = st]
      load_pixel_step [OF _ that(2) _ assms(4,5)] that(1) by (simp add: add.commute)
  have "\<exists>st'. for_loop 0 h (\<lambda>i. for_loop 0 w (load_pixel file i)) (51, junk, m) = Some st' \<and> loaded file h w (h * w) st'"
    using for_loop_inv [where P = "\<lambda>i. loaded file h w (i * w)" and i = 0 and n = h] row assms(1-3)
    by (simp add: loaded_def)
  then obtain pos tmp m' where m': "for_loop 0 h (\<lambda>i. for_loop 0 w (load_pixel file i)) (51, junk, m) = Some (pos, tmp, m')"
    "loaded file h w (h * w) (pos, tmp, m')" by auto
  have "i * w + j < h * w" if "i < h" "j < w" for i j
  proof -
    have "i * w + w \<le> h * w" using that by (metis Suc_leI add.commute mult_Suc mult_le_mono1)
    then show ?thesis using that by linarith
  qed
  then show ?thesis using m' by (auto simp: loadImage_def loaded_def)
qed

text \<open>The output file after \<open>k\<close> pixels is the input up to the end of pixel \<open>k\<close>.\<close>

lemma write_pixel_step:
  assumes "st = (51 + 3 * (i * w + j), take (54 + 3 * (i * w + j)) file)" "i < h" "j < w"
    and "54 + 3 * (h * w) \<le> length file" "54 + 3 * (h * w) < 2 ^ 31"
    and "matrix_get m i j = Some (file_pixel file (i * w + j))"
  shows "write_pixel m i j st = Some (51 + 3 * (i * w + Suc j), take (54 + 3 * (i * w + Suc j)) file)"
proof -
  have "i * w + w \<le> h * w" using assms(2) by (metis Suc_leI add.commute mult_Suc mult_le_mono1)
  then have k: "i * w + j < h * w" using assms(3) by linarith
  let ?n = "54 + 3 * (i * w + j)"
  have "fwrite_at ?n (take 3 (drop ?n file)) (take ?n file) = take ?n file @ take 3 (drop ?n file)"
    using k assms(4) by (intro fwrite_at_end) simp
  also have "\<dots> = take (?n + 3) file" by (simp only: take_add)
  finally show ?thesis
    using k assms(1,5,6) by (simp add: write_pixel_def next_pos_def file_pixel_def add_ac)
qed

lemma writeBMP_prefix:
  assumes "0 < h" "0 < w" "length junk = 54"
    and "54 + 3 * (h * w) \<le> length file" "54 + 3 * (h * w) < 2 ^ 31"
    and m: "\<And>i j. i < h \<Longrightarrow> j < w \<Longrightarrow> matrix_get m i j = Some (file_pixel file (i * w + j))"
  shows "writeBMP file junk (int h) (int w) m = Some (take (54 + 3 * (h * w)) file)"
proof -
  let ?st = "\<lambda>k. (51 + 3 * k, take (54 + 3 * k) file)"
  have row: "for_loop 0 w (write_pixel m i) (?st (i * w)) = Some (?st (Suc i * w))" if "i < h" for i
    using for_loop_inv [where P = "\<lambda>j st. st = ?st (i * w + j)" and i = 0 and n = w and body = "write_pixel m i"]
      write_pixel_step [OF refl that _ assms(4,5) m [OF that]] by (simp add: add.commute)
  have "for_loop 0 h (\<lambda>i. for_loop 0 w (write_pixel m i)) (?st 0) = Some (?st (h * w))"
    using for_loop_inv [where P = "\<lambda>i st. st = ?st (i * w)" and i = 0 and n = h] row by simp
  moreover have "fwrite_at 0 (fread_at file 0 junk) [] = take 54 file"
    using assms(3,4) fread_at_inside [of 0 junk "file"] by (simp add: fwrite_at_def)
  ultimately show ?thesis using m [OF assms(1,2)] by (simp add: writeBMP_def)
qed

lemma header_fields:
  assumes "bmp_header_ok file w h" "w < 2 ^ 31" "h < 2 ^ 31" "\<And>n. length (junk n) = n"
  shows "isBMP file (junk 2) (junk 2)" "width (readInfo file junk) = int w" "height (readInfo file junk) = int h"
proof -
  have s: "s32 (int n) = int n" if "n < 2 ^ 31" for n
    using that by (simp add: s32_def)
  have e: "le_nat (le_enc 4 n) = n" if "n < 2 ^ 31" for n
    using that by (simp only: le_nat_le_enc) simp
  show "isBMP file (junk 2) (junk 2)" "width (readInfo file junk) = int w" "height (readInfo file junk) = int h"
    using assms e [OF assms(2)] e [OF assms(3)] s [OF assms(2)] s [OF assms(3)]
    by (simp_all add: bmp_header_ok_def isBMP_def readInfo_def fread_at_inside)
qed

lemma createMatrix_shape:
  assumes "4 * h < 2 ^ 32" "3 * w < 2 ^ 32" "0 < h" "malloc (4 * h)" "malloc (3 * w)"
  shows "createMatrix malloc junk (int h) (int w) = Some (replicate h (replicate w junk))"
proof -
  have "nat (u32 (4 * int h)) = 4 * h" "nat (u32 (3 * int w)) = 3 * w"
    using assms(1,2) by (simp_all add: u32_def nat_mult_distrib)
  then show ?thesis using assms by (simp add: createMatrix_def Let_def)
qed

lemma area_bounds:
  fixes w h :: nat
  assumes "0 < w" "0 < h" "54 + 3 * (h * w) < 2 ^ 31"
  shows "4 * h < 2 ^ 32" "3 * w < 2 ^ 32" "w < 2 ^ 31" "h < 2 ^ 31"
proof -
  have b: "h \<le> h * w" "w \<le> h * w" using assms(1,2) by simp_all
  have "54 + 3 * (h * w) < 2147483648" using assms(3) by simp
  then have "4 * h < 4294967296" "3 * w < 4294967296" "w < 2147483648" "h < 2147483648"
    using b by (linarith, linarith, linarith, linarith)
  then show "4 * h < 2 ^ 32" "3 * w < 2 ^ 32" "w < 2 ^ 31" "h < 2 ^ 31" by simp_all
qed

lemma loaded_matrix_get:
  assumes "length m = h" "\<forall>r\<in>set m. length r = w" "i < h" "j < w"
  shows "matrix_get m i j = Some (m ! i ! j)"
  using assms by (simp add: matrix_get_def)

lemma rw_main_copies:
  assumes "bmp_header_ok file w h" "0 < w" "0 < h" "54 + 3 * (h * w) \<le> length file" "54 + 3 * (h * w) < 2 ^ 31"
    and "malloc (4 * h)" "malloc (3 * w)" "\<And>n. length (junk n) = n"
  shows "rw_main malloc junk (Some file) = Some (Copied (take (54 + 3 * (h * w)) file))"
proof -
  note b = area_bounds [OF assms(2,3,5)]
  note hd = header_fields [OF assms(1) b(3,4) assms(8)]
  have cm: "createMatrix malloc (junk 3) (int h) (int w) = Some (replicate h (replicate w (junk 3)))"
    using b(1,2) assms(3,6,7) by (rule createMatrix_shape)
  obtain m where m: "loadImage file (junk 3) (int h) (int w) (replicate h (replicate w (junk 3))) = Some m"
    "length m = h" "\<forall>r\<in>set m. length r = w" "\<forall>i j. i < h \<longrightarrow> j < w \<longrightarrow> m ! i ! j = file_pixel file (i * w + j)"
    using loadImage_loaded [of "replicate h (replicate w (junk 3))" h w "junk 3" "file"] assms(4,5,8) by auto
  have "writeBMP file (junk 54) (int h) (int w) m = Some (take (54 + 3 * (h * w)) file)"
    using assms(2,3,4,5,8) loaded_matrix_get [OF m(2,3)] m(4) by (intro writeBMP_prefix) auto
  then show ?thesis using hd cm m(1) by (simp add: rw_main_def Let_def)
qed

section \<open>Properties\<close>

text \<open>A one-row and a two-row image, one pixel wide, the rows padded to four bytes.\<close>

definition sample_bmp :: "nat \<Rightarrow> byte list \<Rightarrow> byte list" where
  "sample_bmp h rows =
     [0x42, 0x4D] @ replicate 16 0 @ le_enc 4 1 @ le_enc 4 h @ [1, 0, 24, 0] @ replicate 24 0 @ rows"

lemma sample_header: "h < 2 ^ 31 \<Longrightarrow> bmp_header_ok (sample_bmp h rows) 1 h"
  by (simp add: bmp_header_ok_def sample_bmp_def)

text \<open>
  C26: For a 24-bit bitmap that holds its \<open>3 * width * height\<close> pixel bytes, when memory can be
  had, \<open>rw_bitmap\<close> never leaves its arrays and writes to \<open>out.bmp\<close> exactly the first
  \<open>54 + 3 * width * height\<close> bytes of its input; so the copy is complete when the width is a
  multiple of four and is truncated for any other width, where rows are padded.
\<close>

theorem rw_bitmap_copy:
  assumes "bmp_header_ok file w h" "0 < w" "0 < h" "length file = 54 + h * bmp_stride w"
    and "54 + h * bmp_stride w < 2 ^ 31"
    and "malloc (4 * h)" "malloc (3 * w)" "\<And>n. length (junk n) = n"
  shows "\<exists>out. rw_main malloc junk (Some file) = Some (Copied out) \<and>
    out = take (54 + 3 * (h * w)) file \<and> (out = file \<longleftrightarrow> 4 dvd w)"
proof -
  have stride: "3 * w \<le> bmp_stride w" "(bmp_stride w = 3 * w) = (4 dvd w)"
    unfolding bmp_stride_def by presburger+
  have "3 * (h * w) \<le> h * bmp_stride w" using mult_le_mono2 [OF stride(1), of h] by (simp add: mult.left_commute)
  then have l: "54 + 3 * (h * w) \<le> length file" "54 + 3 * (h * w) < 2 ^ 31"
    using assms(4,5) by (linarith, linarith)
  have "(take (54 + 3 * (h * w)) file = file) = (54 + 3 * (h * w) = length file)"
    using l(1) by (metis le_antisym length_take min.absorb2 take_all_iff)
  also have "\<dots> = (h * (3 * w) = h * bmp_stride w)" using assms(4) by (simp add: mult.left_commute)
  also have "\<dots> = (4 dvd w)" using assms(3) stride(2) by auto
  finally show ?thesis using rw_main_copies [OF assms(1-3) l assms(6-8)] by simp
qed

theorem rw_bitmap_copy_witness:
  "rw_main (\<lambda>n. n < 100) (\<lambda>n. replicate n 7) (Some (sample_bmp 2 [1, 2, 3, 0, 4, 5, 6, 0]))
     = Some (Copied (take 60 (sample_bmp 2 [1, 2, 3, 0, 4, 5, 6, 0])))"
  using rw_bitmap_copy [OF sample_header, of 2 "[1, 2, 3, 0, 4, 5, 6, 0]" "\<lambda>n. n < 100" "\<lambda>n. replicate n 7"]
  by (simp add: bmp_stride_def sample_bmp_def)

text \<open>
  C36: \<open>loadImage\<close> stays inside the matrix and puts into cell \<open>(i, j)\<close> the three bytes at
  \<open>54 + 3 * (i * width + j)\<close>; that is the pixel the format keeps there, for every cell, exactly
  when the width is a multiple of four or the image has one row, since no row padding is skipped.
\<close>

theorem loadImage_pixels:
  assumes "0 < w" "0 < h" "54 + h * bmp_stride w \<le> length file" "54 + h * bmp_stride w < 2 ^ 31" "length junk = 3"
  shows "\<exists>m. loadImage file junk (int h) (int w) (replicate h (replicate w junk)) = Some m \<and>
    (\<forall>i<h. \<forall>j<w. m ! i ! j = take 3 (drop (packed_offset w i j) file)) \<and>
    ((\<forall>i<h. \<forall>j<w. packed_offset w i j = bmp_offset w i j) \<longleftrightarrow> 4 dvd w \<or> h = 1)"
proof -
  have stride: "3 * w \<le> bmp_stride w" "(bmp_stride w = 3 * w) = (4 dvd w)"
    unfolding bmp_stride_def by presburger+
  have "3 * (h * w) \<le> h * bmp_stride w" using mult_le_mono2 [OF stride(1), of h] by (simp add: mult.left_commute)
  then have l: "54 + 3 * (h * w) \<le> length file" "54 + 3 * (h * w) < 2 ^ 31"
    using assms(3,4) by (linarith, linarith)
  have off: "(packed_offset w i j = bmp_offset w i j) = (i = 0 \<or> 4 dvd w)" for i j
    using stride(2) by (auto simp: packed_offset_def bmp_offset_def distrib_left mult.left_commute [of 3])
  have "(\<forall>i<h. \<forall>j<w. packed_offset w i j = bmp_offset w i j) = (4 dvd w \<or> h = 1)"
  proof (cases "4 dvd w \<or> h = 1")
    case False
    then have "1 < h" using assms(2) by simp
    then show ?thesis using False assms(1) unfolding off by (metis zero_neq_one)
  qed (auto simp: off)
  then show ?thesis
    using loadImage_loaded [of "replicate h (replicate w junk)" h w junk "file"] assms(5) l
    by (auto simp: file_pixel_def packed_offset_def)
qed

theorem loadImage_pixels_witness:
  "\<exists>m. loadImage (sample_bmp 2 [1, 2, 3, 0, 4, 5, 6, 0]) [7, 7, 7] 2 1 (replicate 2 [[7, 7, 7]]) = Some m \<and>
     m ! 1 ! 0 = [0, 4, 5]"
proof -
  have "\<exists>m. loadImage (sample_bmp 2 [1, 2, 3, 0, 4, 5, 6, 0]) [7, 7, 7] (int 2) (int 1) (replicate 2 (replicate 1 [7, 7, 7])) = Some m \<and>
      (\<forall>i<2. \<forall>j<1. m ! i ! j = take 3 (drop (packed_offset 1 i j) (sample_bmp 2 [1, 2, 3, 0, 4, 5, 6, 0]))) \<and>
      ((\<forall>i<2. \<forall>j<1. packed_offset 1 i j = bmp_offset 1 i j) \<longleftrightarrow> 4 dvd (1::nat) \<or> 2 = (1::nat))"
    by (rule loadImage_pixels) (simp_all add: bmp_stride_def sample_bmp_def)
  then obtain m where m: "loadImage (sample_bmp 2 [1, 2, 3, 0, 4, 5, 6, 0]) [7, 7, 7] (int 2) (int 1) (replicate 2 (replicate 1 [7, 7, 7])) = Some m"
    "\<forall>i<2. \<forall>j<1. m ! i ! j = take 3 (drop (packed_offset 1 i j) (sample_bmp 2 [1, 2, 3, 0, 4, 5, 6, 0]))"
    by blast
  have "m ! 1 ! 0 = [0, 4, 5]" using m(2) by (simp add: packed_offset_def sample_bmp_def)
  with m(1) show ?thesis by (simp add: numeral_2_eq_2)
qed

end
