(* ===== verification/EchoServers.thy ===== *)
theory EchoServers
  imports Prelude "HOL-Library.Monad_Syntax"
begin

text \<open>
  The small network programs of \<open>server/unit\<close>: the TCP echo server \<open>select_server.c\<close>, the message of \<open>client.c\<close>, the datagram servers \<open>udp_server.c\<close>
  and \<open>udp_server_bitmap.c\<close>.  What the kernel returns is an input; what a program prints,
  writes and closes is a list of actions.
\<close>

section \<open>The select echo server\<close>

datatype io =
    NewConnection int
  | Received "byte list"   \<comment> \<open>\<open>read\<close> returned these bytes, at least one\<close>
  | EndOfFile
  | ReadError

datatype action =
    PrintLength int
  | PrintType int
  | Stdout "byte list"
  | Send nat "byte list"
  | Close nat
  | Exit int

text \<open>The descriptor set and the read buffer of \<open>MAX_BUF\<close> bytes.\<close>

record echo_state =
  fds :: "nat set"
  echo_buf :: "byte list"

definition MAX_BUF :: nat where "MAX_BUF = 16384"
definition SET_SIZE :: nat where "SET_SIZE = 1024"

text \<open>\<open>val += (buf[k] & 0xFF) << \<dots>\<close>, from the last of four bytes to the first, in an \<open>int\<close>.\<close>

definition header_int :: "byte list \<Rightarrow> nat \<Rightarrow> int" where
  "header_int buf k =
     (let byte_at = (\<lambda>i. uint (buf ! i) AND 0xFF);
          v0 = s32 (0 + byte_at (k + 3));
          v1 = s32 (v0 + s32 (push_bit 8 (byte_at (k + 2))));
          v2 = s32 (v1 + s32 (push_bit 16 (byte_at (k + 1))));
          v3 = s32 (v2 + s32 (push_bit 24 (byte_at k)))
      in v3)"

text \<open>\<open>read\<close> fills the front of the buffer; \<open>None\<close>: it would not fit.\<close>

definition read_into :: "byte list \<Rightarrow> echo_state \<Rightarrow> echo_state option" where
  "read_into d s = do { b \<leftarrow> store_bytes 0 d (echo_buf s); Some (s\<lparr>echo_buf := b\<rparr>) }"

text \<open>What \<open>write\<close> takes of an array when it returns \<open>n\<close>: nothing after an error (-1).\<close>

definition taken :: "int \<Rightarrow> byte list \<Rightarrow> byte list" where
  "taken n bs = take (nat n) bs"

text \<open>
  The body of the loop over the ready descriptors; \<open>w1\<close> and \<open>w\<close> are what the two calls of
  \<open>write\<close> return, to descriptor 1 and to the client.  The code looks at neither.  \<open>FD_SET\<close> of a
  descriptor outside the set (a failed \<open>accept\<close>, -1) writes outside it: \<open>None\<close>.
\<close>

definition serve ::
    "nat \<Rightarrow> nat \<Rightarrow> io \<Rightarrow> int \<Rightarrow> int \<Rightarrow> echo_state \<Rightarrow> (echo_state \<times> action list) option" where
  "serve server_socket f ev w1 w s =
     (if f = server_socket then
        (case ev of
           NewConnection c \<Rightarrow>
             if 0 \<le> c \<and> c < int SET_SIZE then Some (s\<lparr>fds := insert (nat c) (fds s)\<rparr>, []) else None
         | _ \<Rightarrow> Some (s, []))
      else
        (case ev of
           Received d \<Rightarrow>
             do {
               s1 \<leftarrow> read_into d s;
               out \<leftarrow> load_bytes 0 (length d) (echo_buf s1);
               Some (s1,
                 (if 4 \<le> length d then [PrintLength (header_int (echo_buf s1) 0)] else []) @
                 (if 8 \<le> length d then [PrintType (header_int (echo_buf s1) 4)] else []) @
                 [Stdout (taken w1 out), Send f (taken w out)])
             }
         | EndOfFile \<Rightarrow> Some (s\<lparr>fds := fds s - {f}\<rparr>, [Close f])
         | ReadError \<Rightarrow> Some (s, [Exit 1])
         | NewConnection _ \<Rightarrow> Some (s, [])))"

text \<open>The rounds of the loop, until an \<open>exit\<close>.\<close>

type_synonym ready = "nat \<times> io \<times> int \<times> int"

fun serve_all :: "nat \<Rightarrow> ready list \<Rightarrow> echo_state \<Rightarrow> (echo_state \<times> action list) option" where
  "serve_all sock [] s = Some (s, [])"
| "serve_all sock ((f, ev, w1, w) # evs) s =
     do {
       (s1, out) \<leftarrow> serve sock f ev w1 w s;
       if \<exists>n. Exit n \<in> set out then Some (s1, out)
       else do { (s2, out2) \<leftarrow> serve_all sock evs s1; Some (s2, out @ out2) }
     }"

text \<open>
  \<open>main\<close>: \<open>sock\<close>, \<open>bound\<close>, \<open>listening\<close> are the results of the three set-up calls, \<open>evs\<close> the
  ready descriptors with what was read from and written to them, in the order the rounds of \<open>select\<close> report them.
\<close>

definition select_server_main ::
  "int \<Rightarrow> int \<Rightarrow> int \<Rightarrow> ready list \<Rightarrow> (echo_state \<times> action list) option" where
  "select_server_main sock bound listening evs =
     (let s0 = \<lparr>fds = {nat sock}, echo_buf = replicate MAX_BUF 0\<rparr>
      in if sock < 0 \<or> bound < 0 \<or> listening < 0 then Some (s0, [Exit 1])
         else serve_all (nat sock) evs s0)"

section \<open>The test client\<close>

text \<open>The message of \<open>client.c\<close>: length and type by \<open>memcpy\<close>, a text, zeros up to \<open>MAXBUF\<close>.\<close>

definition client_message :: "byte list" where
  "client_message =
     le_enc 4 1026 @ le_enc 4 1 @ map (\<lambda>c. of_nat (of_char c)) ''hello test data'' @ replicate 233 0"

text \<open>\<open>client.c\<close>'s \<open>main\<close>: what it writes, given the results of its calls.\<close>

definition client_main :: "int \<Rightarrow> int \<Rightarrow> int \<Rightarrow> int \<Rightarrow> action list" where
  "client_main sock connected written nread =
     (if sock < 0 \<or> connected < 0 then [Exit 1]
      else Send (nat sock) client_message #
        (if written \<le> 0 \<or> nread \<le> 0 then [Exit 1] else [Close (nat sock)]))"

section \<open>The datagram servers\<close>

text \<open>\<open>udp_server.c\<close>: the packet counter; \<open>True\<close> when the line "30 Frame" is printed.\<close>

definition count_packet :: "int \<Rightarrow> int \<Rightarrow> int \<times> bool" where
  "count_packet len num =
     (let n = (if 0 < len then num + 1 else num)
      in if 30 < n then (0, True) else (n, False))"

fun count_packets :: "int list \<Rightarrow> int \<Rightarrow> nat \<Rightarrow> int \<times> nat" where
  "count_packets [] num lines = (num, lines)"
| "count_packets (l # ls) num lines =
     (let (n, printed) = count_packet l num
      in count_packets ls n (if printed then lines + 1 else lines))"

text \<open>
  \<open>udp_server_bitmap.c\<close>: datagrams are collected in a buffer of a full-HD image until 1000 of
  its 1080 rows have arrived.  \<open>None\<close> as a datagram is a failed \<open>recvfrom\<close> (-1).
\<close>

definition BLOCK_SIZE :: nat where "BLOCK_SIZE = 8192"
definition image_size :: nat where "image_size = 1920 * 1080 * 3"
definition image_enough :: nat where "image_enough = 1920 * 1000 * 3"

datatype bitmap_result =
    Waiting nat "byte list"    \<comment> \<open>\<open>totalLength\<close> and the buffer\<close>
  | Written "byte list"        \<comment> \<open>the contents of \<open>out.bmp\<close>\<close>

fun recv_image :: "byte list option list \<Rightarrow> nat \<Rightarrow> byte list \<Rightarrow> bitmap_result option" where
  "recv_image [] totalLength buf = Some (Waiting totalLength buf)"
| "recv_image (None # ds) totalLength buf = None"
| "recv_image (Some d # ds) totalLength buf =
     do {
       buf1 \<leftarrow> store_bytes totalLength (take BLOCK_SIZE d) buf;
       let total1 = totalLength + length (take BLOCK_SIZE d);
       if image_enough \<le> total1 then Some (Written (take total1 buf1))
       else recv_image ds total1 buf1
     }"

section \<open>Lemmas\<close>

definition sent_to :: "nat \<Rightarrow> action list \<Rightarrow> byte list" where
  "sent_to g acts = concat (map (\<lambda>a. case a of Send f bs \<Rightarrow> if f = g then bs else [] | _ \<Rightarrow> []) acts)"

lemma sent_to_simps [simp]:
  "sent_to g [] = []" "sent_to g (xs @ ys) = sent_to g xs @ sent_to g ys"
  "sent_to g (Send f bs # xs) = (if f = g then bs @ sent_to g xs else sent_to g xs)"
  "sent_to g (PrintLength n # xs) = sent_to g xs" "sent_to g (PrintType n # xs) = sent_to g xs"
  "sent_to g (Stdout bs # xs) = sent_to g xs" "sent_to g (Close f # xs) = sent_to g xs"
  "sent_to g (Exit n # xs) = sent_to g xs"
  by (simp_all add: sent_to_def)

text \<open>
  What was read from \<open>g\<close>, what the kernel took of its echo, and the part of a run before a
  failed \<open>read\<close> ends it.
\<close>

definition received_from :: "nat \<Rightarrow> nat \<Rightarrow> ready list \<Rightarrow> byte list" where
  "received_from sock g evs =
     concat (map (\<lambda>(f, ev, w1, w). case ev of Received d \<Rightarrow> if f = g \<and> f \<noteq> sock then d else [] | _ \<Rightarrow> []) evs)"

definition echoed_to :: "nat \<Rightarrow> nat \<Rightarrow> ready list \<Rightarrow> byte list" where
  "echoed_to sock g evs =
     concat (map (\<lambda>(f, ev, w1, w). case ev of Received d \<Rightarrow> if f = g \<and> f \<noteq> sock then taken w d else []
       | _ \<Rightarrow> []) evs)"

definition served :: "nat \<Rightarrow> ready list \<Rightarrow> ready list" where
  "served sock evs = takeWhile (\<lambda>(f, ev, w1, w). f = sock \<or> ev \<noteq> ReadError) evs"

definition full_write :: "ready \<Rightarrow> bool" where
  "full_write r \<longleftrightarrow> (case r of (f, Received d, w1, w) \<Rightarrow> int (length d) \<le> w | _ \<Rightarrow> True)"

lemma served_Cons: "served sock ((f, ev, w1, w) # evs) =
    (if f = sock \<or> ev \<noteq> ReadError then (f, ev, w1, w) # served sock evs else [])"
  by (simp add: served_def)

lemma served_end: "served sock evs = evs \<or> (\<exists>f w1 w r. evs = served sock evs @ (f, ReadError, w1, w) # r \<and> f \<noteq> sock)"
proof (induction evs)
  case Nil
  then show ?case by (simp add: served_def)
next
  case (Cons e evs)
  then show ?case by (cases e) (auto simp: served_Cons)
qed

lemma echoed_full: "list_all full_write evs \<Longrightarrow> echoed_to sock g evs = received_from sock g evs"
proof (induction evs)
  case Nil
  then show ?case by (simp add: echoed_to_def received_from_def)
next
  case (Cons e evs)
  then show ?case
    by (cases e) (auto simp: echoed_to_def received_from_def full_write_def taken_def nat_le_iff
        split: io.splits)
qed

text \<open>What an echo server promises of its one-event step; the whole-run fact follows.\<close>

locale echo_service =
  fixes step :: "'e \<Rightarrow> 's \<Rightarrow> ('s \<times> action list) option"
    and stream :: "nat \<Rightarrow> 'e \<Rightarrow> byte list"
  assumes step_echo: "step e s = Some (s', out) \<Longrightarrow> sent_to g out = stream g e"
begin

fun run :: "'e list \<Rightarrow> 's \<Rightarrow> ('s \<times> action list) option" where
  "run [] s = Some (s, [])"
| "run (e # evs) s = do { (s1, out) \<leftarrow> step e s; (s2, out2) \<leftarrow> run evs s1; Some (s2, out @ out2) }"

lemma run_echo: "run evs s = Some (s', out) \<Longrightarrow> sent_to g out = concat (map (stream g) evs)"
proof (induction evs arbitrary: s out)
  case Nil
  then show ?case by simp
next
  case (Cons e evs)
  then show ?case by (auto simp: bind_eq_Some_conv step_echo)
qed

end

definition serve_ready :: "nat \<Rightarrow> ready \<Rightarrow> echo_state \<Rightarrow> (echo_state \<times> action list) option" where
  "serve_ready sock r s = (case r of (f, ev, w1, w) \<Rightarrow> serve sock f ev w1 w s)"

lemma serve_echo: "serve_ready sock r s = Some (s', out) \<Longrightarrow> sent_to g out = echoed_to sock g [r]"
  by (cases r) (auto simp: serve_ready_def serve_def read_into_def bind_eq_Some_conv echoed_to_def
      load_bytes_def store_bytes_def split: io.splits if_splits)

interpretation tcp: echo_service "serve_ready sock" "\<lambda>g r. echoed_to sock g [r]" for sock
  by unfold_locales (rule serve_echo)

lemma serve_exit:
  "serve sock f ev w1 w s = Some (s', out) \<Longrightarrow>
   (Exit n \<in> set out) = (f \<noteq> sock \<and> ev = ReadError \<and> n = 1) \<and> (f \<noteq> sock \<and> ev = ReadError \<longrightarrow> out = [Exit 1])"
  by (auto simp: serve_def bind_eq_Some_conv split: io.splits if_splits)

lemma serve_all_run:
  "serve_all sock evs s = Some (s', out) \<Longrightarrow>
   \<exists>out'. tcp.run sock (served sock evs) s = Some (s', out') \<and>
     out = out' @ (if served sock evs = evs then [] else [Exit 1])"
proof (induction evs arbitrary: s out)
  case Nil
  then show ?case by (simp add: served_def)
next
  case (Cons e evs)
  obtain f ev w1 w where e: "e = (f, ev, w1, w)" by (cases e)
  obtain s1 o1 where s1: "serve sock f ev w1 w s = Some (s1, o1)"
    using Cons.prems(1) by (auto simp: e bind_eq_Some_conv)
  note ex = serve_exit [OF s1]
  show ?case
  proof (cases "f \<noteq> sock \<and> ev = ReadError")
    case True
    then have "o1 = [Exit 1]" "s1 = s" using ex s1 by (auto simp: serve_def)
    then show ?thesis using Cons.prems s1 True by (simp add: e served_Cons)
  next
    case False
    then obtain o2 where o2: "serve_all sock evs s1 = Some (s', o2)" "out = o1 @ o2"
      using Cons.prems(1) s1 ex by (auto simp: e bind_eq_Some_conv)
    have step: "serve_ready sock (f, ev, w1, w) s = Some (s1, o1)"
      using s1 by (simp add: serve_ready_def)
    obtain out' where "tcp.run sock (served sock evs) s1 = Some (s', out')"
      "o2 = out' @ (if served sock evs = evs then [] else [Exit 1])"
      using Cons.IH [OF o2(1)] by blast
    moreover have "served sock (e # evs) = (f, ev, w1, w) # served sock evs"
      using False by (simp add: e served_Cons)
    ultimately show ?thesis using step o2(2) by (intro exI [of _ "o1 @ out'"]) (simp add: e)
  qed
qed

lemma serve_all_exit:
  "serve_all sock evs s = Some (s', out) \<Longrightarrow>
   (\<exists>n. Exit n \<in> set out) \<longleftrightarrow> (\<exists>f w1 w. (f, ReadError, w1, w) \<in> set evs \<and> f \<noteq> sock)"
proof (induction evs arbitrary: s out)
  case Nil
  then show ?case by simp
next
  case (Cons e evs)
  obtain f ev w1 w where e: "e = (f, ev, w1, w)" by (cases e)
  obtain s1 o1 where s1: "serve sock f ev w1 w s = Some (s1, o1)"
    using Cons.prems(1) by (auto simp: e bind_eq_Some_conv)
  note ex = serve_exit [OF s1]
  show ?case
  proof (cases "f \<noteq> sock \<and> ev = ReadError")
    case True
    then show ?thesis using Cons.prems s1 ex by (auto simp: e)
  next
    case False
    then obtain o2 where o2: "serve_all sock evs s1 = Some (s', o2)" "out = o1 @ o2"
      using Cons.prems(1) s1 ex by (auto simp: e bind_eq_Some_conv)
    have "(\<exists>n. Exit n \<in> set o2) \<longleftrightarrow> (\<exists>f w1 w. (f, ReadError, w1, w) \<in> set evs \<and> f \<noteq> sock)"
      using Cons.IH [OF o2(1)] .
    moreover have "(\<exists>n. Exit n \<in> set out) \<longleftrightarrow> (\<exists>n. Exit n \<in> set o2)"
      using o2(2) ex False by auto
    moreover have "(\<exists>f w1 w. (f, ReadError, w1, w) \<in> set (e # evs) \<and> f \<noteq> sock) \<longleftrightarrow>
        (\<exists>f w1 w. (f, ReadError, w1, w) \<in> set evs \<and> f \<noteq> sock)"
      using False by (auto simp: e)
    ultimately show ?thesis by blast
  qed
qed

lemma serve_keeps:
  assumes "serve sock f ev w1 w s = Some (s', out)" "f \<noteq> sock"
  shows "length (echo_buf s') = length (echo_buf s)" "sock \<in> fds s \<Longrightarrow> sock \<in> fds s'"
  using assms by (auto simp: serve_def read_into_def bind_eq_Some_conv store_bytes_length split: io.splits)

lemma header_int_be:
  assumes "k + 4 \<le> length buf"
  shows "header_int buf k = s32 (int (be_nat (take 4 (drop k buf))))"
proof -
  have d: "take 4 (drop k buf) = [buf ! k, buf ! (k + 1), buf ! (k + 2), buf ! (k + 3)]"
    using assms by (simp add: Cons_nth_drop_Suc [symmetric] numeral_eq_Suc)
  have a: "uint (b :: byte) AND 0xFF = int (unat b)" for b
  proof -
    have "(0xFF :: int) = mask 8" by (simp add: mask_eq_exp_minus_1)
    then have "uint b AND 0xFF = uint b mod 2 ^ 8" by (simp only: take_bit_eq_mask [symmetric] take_bit_eq_mod)
    moreover have "uint b < 2 ^ 8" using unsigned_less [of b] by simp
    ultimately show ?thesis by simp
  qed
  show ?thesis
    unfolding header_int_def Let_def a d
    by (simp add: be_nat_def s32_s32_add push_bit_eq_mult algebra_simps)
qed


section \<open>Properties\<close>


lemma serve_small:
  assumes "length d \<le> length (echo_buf s)" "f \<noteq> sock" "length d < 4"
  shows "\<exists>s1. serve sock f (Received d) w1 w s = Some (s1, [Stdout (taken w1 d), Send f (taken w d)]) \<and>
    fds s1 = fds s \<and> length (echo_buf s1) = length (echo_buf s)"
proof -
  obtain b where b: "store_bytes 0 d (echo_buf s) = Some b" "load_bytes 0 (length d) b = Some d"
    using assms(1) store_bytes_some [of 0 d "echo_buf s"] load_store_bytes by fastforce
  then show ?thesis
    using assms(2,3) store_bytes_length [OF b(1)] by (simp add: serve_def read_into_def)
qed


text \<open>
  The two integers \<open>select_server\<close> prints are the first eight bytes read as big-endian
  32-bit numbers, although it takes plain \<open>char\<close>s apart by hand; the project's own test client
  sends them little-endian, so its length 1026 and type 1 are printed as 33816576 and 16777216.
\<close>

theorem header_big_endian:
  assumes "8 \<le> length d" "serve sock f (Received d) w1 w s = Some (s', out)" "f \<noteq> sock"
  shows "out = [PrintLength (s32 (int (be_nat (take 4 d)))), PrintType (s32 (int (be_nat (take 4 (drop 4 d))))),
      Stdout (taken w1 d), Send f (taken w d)] \<and>
    (take 8 d = take 8 client_message \<longrightarrow> hd out = PrintLength 33816576 \<and> out ! 1 = PrintType 16777216)"
proof -
  obtain b where b: "store_bytes 0 d (echo_buf s) = Some b" "echo_buf s' = b"
    "out = [PrintLength (header_int b 0), PrintType (header_int b 4), Stdout (taken w1 (take (length d) b)),
      Send f (taken w (take (length d) b))]"
    using assms by (auto simp: serve_def read_into_def bind_eq_Some_conv load_bytes_def split: if_splits)
  obtain r where r: "b = d @ r" using b(1) by (auto simp: store_bytes_def split: if_splits)
  have h: "header_int b 0 = s32 (int (be_nat (take 4 d)))" "header_int b 4 = s32 (int (be_nat (take 4 (drop 4 d))))"
    using header_int_be [of 0 b] header_int_be [of 4 b] r assms(1) by simp_all
  have "s32 (int (be_nat (take 4 d))) = 33816576 \<and> s32 (int (be_nat (take 4 (drop 4 d)))) = 16777216"
    if "take 8 d = take 8 client_message"
  proof -
    have "take 4 d = take 4 (take 8 client_message)" "take 4 (drop 4 d) = drop 4 (take 8 client_message)"
      unfolding that [symmetric] by (simp_all add: take_drop)
    then show ?thesis by (simp add: client_message_def be_nat_def s32_def le_enc_4)
  qed
  then show ?thesis using b(3) h r by simp
qed

theorem header_big_endian_witness:
  "\<exists>s' out. serve 3 4 (Received (take 8 client_message)) 8 8 \<lparr>fds = {3, 4}, echo_buf = replicate 16 0\<rparr> = Some (s', out)
     \<and> hd out = PrintLength 33816576"
proof -
  have l: "length (take 8 client_message) = 8" by (simp add: client_message_def)
  obtain s' out where r: "serve 3 4 (Received (take 8 client_message)) 8 8 \<lparr>fds = {3, 4}, echo_buf = replicate 16 0\<rparr> = Some (s', out)"
    using l by (auto simp: serve_def read_into_def bind_eq_Some_conv store_bytes_def load_bytes_def)
  have m: "8 \<le> length (take 8 client_message)" "take 8 (take 8 client_message) = take 8 client_message"
    "(4 :: nat) \<noteq> 3"
    using l by simp_all
  have "hd out = PrintLength 33816576" using conjunct2 [OF header_big_endian [OF m(1) r m(3)]] m(2) by blast
  then show ?thesis using r by blast
qed

text \<open>
  The datagram server prints "30 Frame" once per 31 packets, not per 30: after any sequence
  of receives, of which \<open>k\<close> returned data, the counter is \<open>k mod 31\<close> and the line has been
  printed \<open>k div 31\<close> times; failed and empty receives are not counted.
\<close>

lemma count_packets_mod:
  "count_packets ls (int k) n = (int ((k + length (filter (\<lambda>l. 0 < l) ls)) mod 31),
     n + (k + length (filter (\<lambda>l. 0 < l) ls)) div 31)" if "k < 31" for k
  using that
proof (induction ls arbitrary: k n)
  case Nil
  then show ?case by simp
next
  case (Cons l ls)
  show ?case
  proof (cases "0 < l")
    case True
    show ?thesis
    proof (cases "k = 30")
      case k: True
      then show ?thesis using Cons.IH [of 0 "n + 1"] True by (simp add: count_packet_def)
    next
      case False
      then have "count_packet l (int k) = (int (k + 1), False)"
        using True Cons.prems by (simp add: count_packet_def)
      then show ?thesis using Cons.IH [of "k + 1" n] Cons.prems False True by simp
    qed
  next
    case False
    then show ?thesis using Cons.IH [of k n] Cons.prems by (simp add: count_packet_def)
  qed
qed

theorem udp_server_counts:
  "count_packets lengths 0 0 =
     (int (length (filter (\<lambda>l. 0 < l) lengths) mod 31), length (filter (\<lambda>l. 0 < l) lengths) div 31)"
  using count_packets_mod [of 0 lengths 0] by simp

text \<open>
  C37: The image collector, for any sequence of \<open>recvfrom\<close> results.  Three outcomes and no
  others: it stays inside its \<open>1920 * 1080 * 3\<close> bytes and waits, all datagrams (each cut to 8192
  bytes) concatenated in the buffer; or it writes to \<open>out.bmp\<close> exactly those received up to the one
  that completes 1000 rows; or a \<open>recvfrom\<close> fails before that, and \<open>memcpy\<close> with the length -1
  overruns the buffer (\<open>None\<close>).  Nothing else overruns it.
\<close>

definition pieces :: "byte list list \<Rightarrow> byte list" where
  "pieces ds = concat (map (take BLOCK_SIZE) ds)"

definition image_outcome :: "byte list \<Rightarrow> byte list option list \<Rightarrow> bitmap_result option \<Rightarrow> bool" where
  "image_outcome got rs r \<longleftrightarrow>
     (case r of
        None \<Rightarrow> \<exists>ds rest. rs = map Some ds @ None # rest \<and> length (got @ pieces ds) < image_enough
      | Some (Waiting t b) \<Rightarrow> \<exists>ds. rs = map Some ds \<and> t < image_enough \<and> length b = image_size \<and>
          take t b = got @ pieces ds
      | Some (Written out) \<Rightarrow> \<exists>ds d rest. rs = map Some (ds @ [d]) @ rest \<and>
          out = got @ pieces (ds @ [d]) \<and> length (got @ pieces ds) < image_enough \<and> image_enough \<le> length out)"

lemma image_outcome_Cons:
  assumes "image_outcome (got @ take BLOCK_SIZE d) rs r"
  shows "image_outcome got (Some d # rs) r"
proof (cases r)
  case None
  then obtain ds rest where "rs = map Some ds @ None # rest"
    "length ((got @ take BLOCK_SIZE d) @ pieces ds) < image_enough"
    using assms by (auto simp: image_outcome_def)
  then have "Some d # rs = map Some (d # ds) @ None # rest \<and> length (got @ pieces (d # ds)) < image_enough"
    by (simp add: pieces_def)
  then show ?thesis unfolding None image_outcome_def option.case by blast
next
  case (Some x)
  show ?thesis
  proof (cases x)
    case (Waiting t b)
    then obtain ds where "rs = map Some ds" "t < image_enough" "length b = image_size"
      "take t b = (got @ take BLOCK_SIZE d) @ pieces ds"
      using assms Some by (auto simp: image_outcome_def)
    then have "Some d # rs = map Some (d # ds) \<and> t < image_enough \<and> length b = image_size \<and>
        take t b = got @ pieces (d # ds)"
      by (simp add: pieces_def)
    then show ?thesis unfolding Some Waiting image_outcome_def option.case bitmap_result.case by (rule exI)
  next
    case (Written out)
    then obtain ds e rest where "rs = map Some (ds @ [e]) @ rest"
      "out = (got @ take BLOCK_SIZE d) @ pieces (ds @ [e])"
      "length ((got @ take BLOCK_SIZE d) @ pieces ds) < image_enough" "image_enough \<le> length out"
      using assms Some unfolding image_outcome_def by (simp only: option.case bitmap_result.case) blast
    then have "Some d # rs = map Some ((d # ds) @ [e]) @ rest \<and> out = got @ pieces ((d # ds) @ [e]) \<and>
        length (got @ pieces (d # ds)) < image_enough \<and> image_enough \<le> length out"
      by (simp add: pieces_def)
    then show ?thesis unfolding Some Written image_outcome_def option.case bitmap_result.case by blast
  qed
qed

lemma recv_image_outcome:
  assumes "tot = length got" "take tot buf = got" "length buf = image_size" "length got < image_enough"
  shows "image_outcome got rs (recv_image rs tot buf)"
  using assms
proof (induction rs arbitrary: tot buf got)
  case Nil
  then show ?case by (simp add: image_outcome_def pieces_def)
next
  case (Cons r rs)
  show ?case
  proof (cases r)
    case None
    have "None # rs = map Some [] @ None # rs \<and> length (got @ pieces []) < image_enough"
      using Cons.prems(4) by (simp add: pieces_def)
    then have "image_outcome got (None # rs) None" unfolding image_outcome_def option.case by blast
    then show ?thesis using None by simp
  next
    case (Some d)
    let ?d = "take BLOCK_SIZE d"
    have fit: "length got + length ?d \<le> image_size"
      using Cons.prems(4) by (simp add: image_enough_def image_size_def BLOCK_SIZE_def)
    then obtain b where b: "store_bytes tot ?d buf = Some b"
      using store_bytes_some [of tot ?d buf] Cons.prems(1,3) by auto
    have pre: "take (tot + length ?d) b = got @ ?d"
      using b Cons.prems(1,2) by (auto simp: store_bytes_def min_def split: if_splits)
    have lb: "length b = image_size" using store_bytes_length [OF b] Cons.prems(3) by simp
    show ?thesis
    proof (cases "image_enough \<le> tot + length ?d")
      case True
      have "recv_image (Some d # rs) tot buf = Some (Written (got @ ?d))"
        using b pre True by simp
      moreover have "Some d # rs = map Some ([] @ [d]) @ rs \<and> got @ ?d = got @ pieces ([] @ [d]) \<and>
          length (got @ pieces []) < image_enough \<and> image_enough \<le> length (got @ ?d)"
        using True Cons.prems(1,4) by (simp add: pieces_def)
      then have "image_outcome got (Some d # rs) (Some (Written (got @ ?d)))"
        unfolding image_outcome_def option.case bitmap_result.case by blast
      ultimately show ?thesis using Some by simp
    next
      case False
      then have "image_outcome (got @ ?d) rs (recv_image rs (tot + length ?d) b)"
        using pre lb Cons.prems(1) by (intro Cons.IH) auto
      moreover have "recv_image (Some d # rs) tot buf = recv_image rs (tot + length ?d) b"
        using b False by simp
      ultimately show ?thesis using Some image_outcome_Cons by simp
    qed
  qed
qed

theorem udp_bitmap_bounds:
  assumes "length buf = image_size"
  shows "case recv_image rs 0 buf of
      None \<Rightarrow> \<exists>ds rest. rs = map Some ds @ None # rest \<and> length (pieces ds) < image_enough
    | Some (Waiting t b) \<Rightarrow> \<exists>ds. rs = map Some ds \<and> t < image_enough \<and> length b = image_size \<and> take t b = pieces ds
    | Some (Written out) \<Rightarrow> \<exists>ds d rest. rs = map Some (ds @ [d]) @ rest \<and> out = pieces (ds @ [d]) \<and>
        length (pieces ds) < image_enough \<and> image_enough \<le> length out"
proof -
  have "(0 :: nat) = length ([] :: byte list)" "take 0 buf = []" "length ([] :: byte list) < image_enough"
    by (simp_all add: image_enough_def)
  then have "image_outcome [] rs (recv_image rs 0 buf)"
    using assms by (intro recv_image_outcome)
  then show ?thesis unfolding image_outcome_def append_Nil .
qed

theorem udp_bitmap_bounds_witness:
  "recv_image [Some [1, 2], None] 0 (replicate image_size 0) = None \<and> length (pieces [[1, 2]]) < image_enough"
proof -
  let ?buf = "replicate image_size (0 :: byte)"
  obtain b1 where b1: "store_bytes 0 [1, 2 :: byte] ?buf = Some b1"
    using store_bytes_some [of 0 "[1, 2]" ?buf] by (auto simp: image_size_def)
  have r: "recv_image [Some [1, 2], None] 0 ?buf = None"
    using b1 by (simp add: BLOCK_SIZE_def image_enough_def)
  have "\<exists>ds rest. [Some [1, 2], None] = map Some ds @ None # rest \<and> length (pieces ds) < image_enough"
    using udp_bitmap_bounds [of ?buf "[Some [1, 2], None]"] r by simp
  then have "length (pieces [[1, 2]]) < image_enough"
    by (auto simp: Cons_eq_append_conv Cons_eq_map_conv)
  then show ?thesis using r by simp
qed

end
