(* ===== verification/JpegUtils.thy ===== *)
theory JpegUtils
  imports Prelude
begin

text \<open>
  Tables and utilities of \<open>jpeg-9a/jutils.c\<close>: the zigzag orders of the DCT blocks, rounding
  up, and the row copier, with rows as cells of a store so that overlapping arrays are seen.
\<close>

section \<open>Zigzag order\<close>

definition jpeg_zigzag_order :: "nat list" where
  "jpeg_zigzag_order =
    [0, 1, 5, 6, 14, 15, 27, 28, 2, 4, 7, 13, 16, 26, 29, 42,
     3, 8, 12, 17, 25, 30, 41, 43, 9, 11, 18, 24, 31, 40, 44, 53,
     10, 19, 23, 32, 39, 45, 52, 54, 20, 22, 33, 38, 46, 51, 55, 60,
     21, 34, 37, 47, 50, 56, 59, 61, 35, 36, 48, 49, 57, 58, 62, 63]"

definition extra_entries :: "nat list" where
  "extra_entries = [63, 63, 63, 63, 63, 63, 63, 63, 63, 63, 63, 63, 63, 63, 63, 63]"

definition jpeg_natural_order :: "nat list" where
  "jpeg_natural_order =
    [0, 1, 8, 16, 9, 2, 3, 10, 17, 24, 32, 25, 18, 11, 4, 5,
     12, 19, 26, 33, 40, 48, 41, 34, 27, 20, 13, 6, 7, 14, 21, 28,
     35, 42, 49, 56, 57, 50, 43, 36, 29, 22, 15, 23, 30, 37, 44, 51,
     58, 59, 52, 45, 38, 31, 39, 46, 53, 60, 61, 54, 47, 55, 62, 63] @ extra_entries"

definition jpeg_natural_order7 :: "nat list" where
  "jpeg_natural_order7 =
    [0, 1, 8, 16, 9, 2, 3, 10, 17, 24, 32, 25, 18, 11, 4, 5,
     12, 19, 26, 33, 40, 48, 41, 34, 27, 20, 13, 6, 14, 21, 28, 35,
     42, 49, 50, 43, 36, 29, 22, 30, 37, 44, 51, 52, 45, 38, 46, 53, 54] @ extra_entries"

definition jpeg_natural_order6 :: "nat list" where
  "jpeg_natural_order6 =
    [0, 1, 8, 16, 9, 2, 3, 10, 17, 24, 32, 25, 18, 11, 4, 5,
     12, 19, 26, 33, 40, 41, 34, 27, 20, 13, 21, 28, 35, 42, 43, 36,
     29, 37, 44, 45] @ extra_entries"

definition jpeg_natural_order5 :: "nat list" where
  "jpeg_natural_order5 =
    [0, 1, 8, 16, 9, 2, 3, 10, 17, 24, 32, 25, 18, 11, 4, 12,
     19, 26, 33, 34, 27, 20, 28, 35, 36] @ extra_entries"

definition jpeg_natural_order4 :: "nat list" where
  "jpeg_natural_order4 =
    [0, 1, 8, 16, 9, 2, 3, 10, 17, 24, 25, 18, 11, 19, 26, 27] @ extra_entries"

definition jpeg_natural_order3 :: "nat list" where
  "jpeg_natural_order3 = [0, 1, 8, 16, 9, 2, 10, 17, 18] @ extra_entries"

definition jpeg_natural_order2 :: "nat list" where
  "jpeg_natural_order2 = [0, 1, 8, 9] @ extra_entries"

text \<open>The order of an \<open>n \<times> n\<close> corner of the block.\<close>

definition natural_order_of :: "nat \<Rightarrow> nat list" where
  "natural_order_of n =
     (if n = 2 then jpeg_natural_order2 else if n = 3 then jpeg_natural_order3
      else if n = 4 then jpeg_natural_order4 else if n = 5 then jpeg_natural_order5
      else if n = 6 then jpeg_natural_order6 else if n = 7 then jpeg_natural_order7
      else jpeg_natural_order)"

lemmas natural_orders = jpeg_natural_order_def jpeg_natural_order7_def jpeg_natural_order6_def
  jpeg_natural_order5_def jpeg_natural_order4_def jpeg_natural_order3_def jpeg_natural_order2_def
  extra_entries_def

text \<open>
  The walk itself: from position (row, column) along the current diagonal, turning at the
  borders of the \<open>n \<times> n\<close> square.
\<close>

definition zigzag_next :: "nat \<Rightarrow> nat \<times> nat \<Rightarrow> nat \<times> nat" where
  "zigzag_next n rc =
     (let (r, c) = rc in
      if even (r + c)
      then (if c = n - 1 then (r + 1, c) else if r = 0 then (r, c + 1) else (r - 1, c + 1))
      else (if r = n - 1 then (r, c + 1) else if c = 0 then (r + 1, c) else (r + 1, c - 1)))"

fun zigzag_walk :: "nat \<Rightarrow> nat \<Rightarrow> nat \<times> nat \<Rightarrow> nat list" where
  "zigzag_walk n 0 rc = []"
| "zigzag_walk n (Suc k) rc = (8 * fst rc + snd rc) # zigzag_walk n k (zigzag_next n rc)"

section \<open>Rounding up\<close>

text \<open>A 32-bit \<open>long\<close>: the sum must not overflow.\<close>

definition jdiv_round_up :: "int \<Rightarrow> int \<Rightarrow> int option" where
  "jdiv_round_up a b = (if in_s32 (a + b - 1) then Some (cdiv (a + b - 1) b) else None)"

definition jround_up :: "int \<Rightarrow> int \<Rightarrow> int option" where
  "jround_up a b = (if in_s32 (a + b - 1) then Some ((a + b - 1) - cmod (a + b - 1) b) else None)"

section \<open>Copying rows\<close>

text \<open>
  A sample array is a list of row addresses; the store maps an address to the row's bytes.
  A copy past the end of a row, or of an array, is a fault.
\<close>

definition copy_row :: "nat \<Rightarrow> nat \<Rightarrow> nat \<Rightarrow> (nat \<Rightarrow> byte list) \<Rightarrow> (nat \<Rightarrow> byte list) option" where
  "copy_row num_cols inptr outptr st =
     (case load_bytes 0 num_cols (st inptr) of None \<Rightarrow> None
      | Some bs \<Rightarrow> (case store_bytes 0 bs (st outptr) of None \<Rightarrow> None
      | Some row \<Rightarrow> Some (st(outptr := row))))"

fun jcopy_sample_rows ::
  "nat list \<Rightarrow> nat \<Rightarrow> nat list \<Rightarrow> nat \<Rightarrow> nat \<Rightarrow> nat \<Rightarrow> (nat \<Rightarrow> byte list) \<Rightarrow> (nat \<Rightarrow> byte list) option" where
  "jcopy_sample_rows ia source_row oa dest_row 0 num_cols st = Some st"
| "jcopy_sample_rows ia source_row oa dest_row (Suc num_rows) num_cols st =
     (if source_row < length ia \<and> dest_row < length oa
      then (case copy_row num_cols (ia ! source_row) (oa ! dest_row) st of None \<Rightarrow> None
            | Some st1 \<Rightarrow> jcopy_sample_rows ia (source_row + 1) oa (dest_row + 1) num_rows num_cols st1)
      else None)"

lemma copy_row_result:
  assumes "num_cols \<le> length (st i)" "num_cols \<le> length (st j)"
  shows "copy_row num_cols i j st = Some (st(j := take num_cols (st i) @ drop num_cols (st j)))"
  using assms by (simp add: copy_row_def load_bytes_def store_bytes_def)

section \<open>Properties\<close>

lemma walks:
  "zigzag_walk 2 4 (0, 0) = take 4 jpeg_natural_order2"
  "zigzag_walk 3 9 (0, 0) = take 9 jpeg_natural_order3"
  "zigzag_walk 4 16 (0, 0) = take 16 jpeg_natural_order4"
  "zigzag_walk 5 25 (0, 0) = take 25 jpeg_natural_order5"
  "zigzag_walk 6 36 (0, 0) = take 36 jpeg_natural_order6"
  "zigzag_walk 7 49 (0, 0) = take 49 jpeg_natural_order7"
  "zigzag_walk 8 64 (0, 0) = take 64 jpeg_natural_order"
  by code_simp+

definition square :: "nat \<Rightarrow> nat list" where
  "square n = concat (map (\<lambda>r. map (\<lambda>c. 8 * r + c) [0..<n]) [0..<n])"

lemma walk_squares:
  "distinct (zigzag_walk 2 4 (0, 0)) \<and> set (zigzag_walk 2 4 (0, 0)) = set (square 2)"
  "distinct (zigzag_walk 3 9 (0, 0)) \<and> set (zigzag_walk 3 9 (0, 0)) = set (square 3)"
  "distinct (zigzag_walk 4 16 (0, 0)) \<and> set (zigzag_walk 4 16 (0, 0)) = set (square 4)"
  "distinct (zigzag_walk 5 25 (0, 0)) \<and> set (zigzag_walk 5 25 (0, 0)) = set (square 5)"
  "distinct (zigzag_walk 6 36 (0, 0)) \<and> set (zigzag_walk 6 36 (0, 0)) = set (square 6)"
  "distinct (zigzag_walk 7 49 (0, 0)) \<and> set (zigzag_walk 7 49 (0, 0)) = set (square 7)"
  "distinct (zigzag_walk 8 64 (0, 0)) \<and> set (zigzag_walk 8 64 (0, 0)) = set (square 8)"
  by code_simp+

lemma natural_order_walk:
  assumes "2 \<le> n" "n \<le> 8"
  shows "natural_order_of n = zigzag_walk n (n * n) (0, 0) @ extra_entries"
proof -
  have "n = 2 \<or> n = 3 \<or> n = 4 \<or> n = 5 \<or> n = 6 \<or> n = 7 \<or> n = 8" using assms by presburger
  then show ?thesis
    by (elim disjE) (simp_all add: natural_order_of_def walks, simp_all add: natural_orders)
qed

lemma walk_square:
  assumes "2 \<le> n" "n \<le> 8"
  shows "distinct (zigzag_walk n (n * n) (0, 0)) \<and> set (zigzag_walk n (n * n) (0, 0)) = set (square n)"
proof -
  have "n = 2 \<or> n = 3 \<or> n = 4 \<or> n = 5 \<or> n = 6 \<or> n = 7 \<or> n = 8" using assms by presburger
  then show ?thesis by (elim disjE) (simp_all add: walk_squares del: zigzag_walk.simps)
qed

lemma set_square: "set (square n) = {8 * r + c |r c. r < n \<and> c < n}"
proof (intro equalityI subsetI)
  fix x assume "x \<in> set (square n)"
  then obtain r c where "r < n" "c < n" "x = 8 * r + c"
    unfolding square_def set_concat set_map set_upt by (auto simp del: image_add_atLeastLessThan)
  then show "x \<in> {8 * r + c |r c. r < n \<and> c < n}" by blast
qed (force simp: square_def)

lemma zigzag_inverse: "map (\<lambda>i. jpeg_natural_order ! i) jpeg_zigzag_order = [0..<64]"
  by code_simp

text \<open>
  Each zigzag table, for the full 8 by 8 block and for the 2 by 2 to 7 by 7 corners, is the
  zigzag walk of that square, visits every position of the square once and nothing else, and
  ends with sixteen entries 63; \<open>jpeg_zigzag_order\<close> is the inverse of the full table.
\<close>

theorem zigzag_tables:
  assumes "2 \<le> n" "n \<le> 8"
  shows "natural_order_of n = zigzag_walk n (n * n) (0, 0) @ replicate 16 63 \<and>
    distinct (take (n * n) (natural_order_of n)) \<and>
    set (take (n * n) (natural_order_of n)) = {8 * r + c |r c. r < n \<and> c < n} \<and>
    (\<forall>i < 64. jpeg_natural_order ! (jpeg_zigzag_order ! i) = i)"
proof -
  have len: "length (zigzag_walk n k rc) = k" for k rc
    by (induction n k rc rule: zigzag_walk.induct) auto
  have "jpeg_natural_order ! (jpeg_zigzag_order ! i) = i" if "i < 64" for i
  proof -
    have "length jpeg_zigzag_order = 64" by (simp add: jpeg_zigzag_order_def)
    then show ?thesis using arg_cong [OF zigzag_inverse, of "\<lambda>xs. xs ! i"] that by simp
  qed
  moreover have "extra_entries = replicate 16 63" by (simp add: extra_entries_def numeral_eq_Suc)
  ultimately show ?thesis
    using natural_order_walk [OF assms] walk_square [OF assms] len [of "n * n" "(0, 0)"] set_square [of n]
    by simp
qed

theorem zigzag_tables_witness:
  "set (take (2 * 2) (natural_order_of 2)) = {8 * r + c |r c. r < 2 \<and> c < (2 :: nat)}"
proof -
  have "2 \<le> (2 :: nat)" "(2 :: nat) \<le> 8" by simp_all
  from zigzag_tables [OF this] show ?thesis by blast
qed

text \<open>
  For \<open>a >= 0\<close>, \<open>b > 0\<close> and no overflow of the sum, \<open>jdiv_round_up\<close> is the least integer
  \<open>q\<close> with \<open>a <= q * b\<close> and \<open>jround_up\<close> is the least multiple of \<open>b\<close> that is at least \<open>a\<close>.
\<close>

lemma rounding_up:
  assumes "0 \<le> a" "0 < b" "a + b \<le> 2 ^ 31"
  shows "\<exists>q r. jdiv_round_up a b = Some q \<and> jround_up a b = Some r \<and> r = q * b \<and>
    a \<le> q * b \<and> (\<forall>k. a \<le> k * b \<longrightarrow> q \<le> k)"
proof -
  let ?q = "(a + b - 1) div b"
  have s: "in_s32 (a + b - 1)" using assms by (simp add: in_s32_def)
  have m: "a + b - 1 = ?q * b + (a + b - 1) mod b" by simp
  have b: "0 \<le> (a + b - 1) mod b" "(a + b - 1) mod b < b" using assms(2) by simp_all
  have "?q \<le> k" if "a \<le> k * b" for k
  proof (rule ccontr)
    assume "\<not> ?q \<le> k"
    then have "(k + 1) * b \<le> ?q * b" using assms(2) by (intro mult_right_mono) auto
    then have "k * b + b \<le> ?q * b" by (simp add: distrib_right)
    then show False using that m b by linarith
  qed
  moreover have "a \<le> ?q * b" using m b by linarith
  moreover have "(a + b - 1) - (a + b - 1) mod b = ?q * b" using m by linarith
  ultimately show ?thesis
    using s assms by (simp add: jdiv_round_up_def jround_up_def cint_simps)
qed

text \<open>
  \<open>jcopy_sample_rows\<close> on arrays that reach far enough, with rows wide enough, copies the
  first \<open>num_cols\<close> samples of each source row to its destination row and changes no other
  byte, when the destination rows are different from each other and from the source rows; a
  single call may still name the same source row several times.
\<close>

lemma jcopy_sample_rows_copies:
  assumes "source_row + num_rows \<le> length ia" "dest_row + num_rows \<le> length oa"
    and "\<And>k. k < num_rows \<Longrightarrow> num_cols \<le> length (st (ia ! (source_row + k))) \<and> num_cols \<le> length (st (oa ! (dest_row + k)))"
    and "\<And>j k. j < num_rows \<Longrightarrow> k < num_rows \<Longrightarrow> oa ! (dest_row + j) \<noteq> ia ! (source_row + k)"
    and "\<And>j k. j < num_rows \<Longrightarrow> k < j \<Longrightarrow> oa ! (dest_row + j) \<noteq> oa ! (dest_row + k)"
  shows "\<exists>st'. jcopy_sample_rows ia source_row oa dest_row num_rows num_cols st = Some st' \<and>
    (\<forall>k < num_rows. st' (oa ! (dest_row + k)) =
       take num_cols (st (ia ! (source_row + k))) @ drop num_cols (st (oa ! (dest_row + k)))) \<and>
    (\<forall>p. (\<forall>k < num_rows. p \<noteq> oa ! (dest_row + k)) \<longrightarrow> st' p = st p)"
  using assms
proof (induction num_rows arbitrary: source_row dest_row st)
  case 0
  then show ?case by simp
next
  case (Suc n)
  let ?i = "ia ! source_row" and ?o = "oa ! dest_row"
  let ?st = "st(?o := take num_cols (st ?i) @ drop num_cols (st ?o))"
  have w: "num_cols \<le> length (st ?i)" "num_cols \<le> length (st ?o)" using Suc.prems(3) [of 0] by simp_all
  have fresh: "ia ! (source_row + k) \<noteq> ?o" if "k \<le> n" for k
    using Suc.prems(4) [of 0 k] that by simp
  have later: "oa ! (Suc dest_row + k) \<noteq> ?o" if "k < n" for k
    using Suc.prems(5) [of "Suc k" 0] that by simp
  have "\<exists>st'. jcopy_sample_rows ia (Suc source_row) oa (Suc dest_row) n num_cols ?st = Some st' \<and>
    (\<forall>k < n. st' (oa ! (Suc dest_row + k)) =
       take num_cols (?st (ia ! (Suc source_row + k))) @ drop num_cols (?st (oa ! (Suc dest_row + k)))) \<and>
    (\<forall>p. (\<forall>k < n. p \<noteq> oa ! (Suc dest_row + k)) \<longrightarrow> st' p = ?st p)"
  proof (rule Suc.IH)
    fix k assume k: "k < n"
    show "num_cols \<le> length (?st (ia ! (Suc source_row + k))) \<and> num_cols \<le> length (?st (oa ! (Suc dest_row + k)))"
      using Suc.prems(3) [of "Suc k"] fresh [of "Suc k"] later [OF k] k by simp
  next
    fix j k assume "j < n" "k < n"
    then show "oa ! (Suc dest_row + j) \<noteq> ia ! (Suc source_row + k)" using Suc.prems(4) [of "Suc j" "Suc k"] by simp
  next
    fix j k assume "j < n" "k < j"
    then show "oa ! (Suc dest_row + j) \<noteq> oa ! (Suc dest_row + k)" using Suc.prems(5) [of "Suc j" "Suc k"] by simp
  qed (use Suc.prems(1,2) in simp_all)
  then obtain st' where st': "jcopy_sample_rows ia (Suc source_row) oa (Suc dest_row) n num_cols ?st = Some st'"
    "\<forall>k < n. st' (oa ! (Suc dest_row + k)) =
       take num_cols (?st (ia ! (Suc source_row + k))) @ drop num_cols (?st (oa ! (Suc dest_row + k)))"
    "\<forall>p. (\<forall>k < n. p \<noteq> oa ! (Suc dest_row + k)) \<longrightarrow> st' p = ?st p"
    by blast
  have "jcopy_sample_rows ia source_row oa dest_row (Suc n) num_cols st = Some st'"
    using st'(1) copy_row_result [OF w] Suc.prems(1,2) by simp
  moreover have "st' (oa ! (dest_row + k)) =
      take num_cols (st (ia ! (source_row + k))) @ drop num_cols (st (oa ! (dest_row + k)))" if "k < Suc n" for k
  proof (cases k)
    case 0
    have "\<forall>j < n. ?o \<noteq> oa ! (Suc dest_row + j)" using later by metis
    then show ?thesis using st'(3) 0 by simp
  next
    case (Suc j)
    then show ?thesis using st'(2) later [of j] fresh [of k] that by simp
  qed
  moreover have "st' p = st p" if "\<forall>k < Suc n. p \<noteq> oa ! (dest_row + k)" for p
  proof -
    have "p \<noteq> ?o" using that by (metis add.right_neutral zero_less_Suc)
    moreover have "\<forall>k < n. p \<noteq> oa ! (Suc dest_row + k)" using that by (metis Suc_less_eq add_Suc_shift)
    ultimately show ?thesis using st'(3) by simp
  qed
  ultimately show ?case by blast
qed

end
