(* ===== verification/JpegState.thy ===== *)
theory JpegState
  imports JpegUtils
begin

text \<open>
  Types the JPEG theories share: marker codes, quantisation and Huffman tables, components,
  the compressor's and the decompressor's parameters as far as the modelled modules use them,
  and the errors (\<open>ERREXIT\<close> does not return: the left of a sum).  \<open>FAULT\<close> stands for an access
  outside an array.  From \<open>jpeg-9a/jpeglib.h\<close>, \<open>jcmarker.c\<close> and \<open>jdmarker.c\<close>.
\<close>

datatype jpeg_marker =
    M_SOF0 | M_SOF1 | M_SOF2 | M_SOF3 | M_SOF5 | M_SOF6 | M_SOF7 | M_JPG | M_SOF9 | M_SOF10
  | M_SOF11 | M_SOF13 | M_SOF14 | M_SOF15 | M_DHT | M_DAC
  | M_RST0 | M_RST1 | M_RST2 | M_RST3 | M_RST4 | M_RST5 | M_RST6 | M_RST7
  | M_SOI | M_EOI | M_SOS | M_DQT | M_DNL | M_DRI | M_DHP | M_EXP
  | M_APP0 | M_APP1 | M_APP2 | M_APP3 | M_APP4 | M_APP5 | M_APP6 | M_APP7 | M_APP8 | M_APP9
  | M_APP10 | M_APP11 | M_APP12 | M_APP13 | M_APP14 | M_APP15
  | M_JPG0 | M_JPG8 | M_JPG13 | M_COM | M_TEM

primrec code :: "jpeg_marker \<Rightarrow> nat" where
  "code M_SOF0 = 0xc0" | "code M_SOF1 = 0xc1" | "code M_SOF2 = 0xc2" | "code M_SOF3 = 0xc3"
| "code M_SOF5 = 0xc5" | "code M_SOF6 = 0xc6" | "code M_SOF7 = 0xc7" | "code M_JPG = 0xc8"
| "code M_SOF9 = 0xc9" | "code M_SOF10 = 0xca" | "code M_SOF11 = 0xcb" | "code M_SOF13 = 0xcd"
| "code M_SOF14 = 0xce" | "code M_SOF15 = 0xcf" | "code M_DHT = 0xc4" | "code M_DAC = 0xcc"
| "code M_RST0 = 0xd0" | "code M_RST1 = 0xd1" | "code M_RST2 = 0xd2" | "code M_RST3 = 0xd3"
| "code M_RST4 = 0xd4" | "code M_RST5 = 0xd5" | "code M_RST6 = 0xd6" | "code M_RST7 = 0xd7"
| "code M_SOI = 0xd8" | "code M_EOI = 0xd9" | "code M_SOS = 0xda" | "code M_DQT = 0xdb"
| "code M_DNL = 0xdc" | "code M_DRI = 0xdd" | "code M_DHP = 0xde" | "code M_EXP = 0xdf"
| "code M_APP0 = 0xe0" | "code M_APP1 = 0xe1" | "code M_APP2 = 0xe2" | "code M_APP3 = 0xe3"
| "code M_APP4 = 0xe4" | "code M_APP5 = 0xe5" | "code M_APP6 = 0xe6" | "code M_APP7 = 0xe7"
| "code M_APP8 = 0xe8" | "code M_APP9 = 0xe9" | "code M_APP10 = 0xea" | "code M_APP11 = 0xeb"
| "code M_APP12 = 0xec" | "code M_APP13 = 0xed" | "code M_APP14 = 0xee" | "code M_APP15 = 0xef"
| "code M_JPG0 = 0xf0" | "code M_JPG8 = 0xf8" | "code M_JPG13 = 0xfd" | "code M_COM = 0xfe"
| "code M_TEM = 0x01"

datatype jpeg_error =
    FAULT
  | JERR_NO_QUANT_TABLE nat
  | JERR_NO_HUFF_TABLE nat
  | JERR_CONVERSION_NOTIMPL
  | JERR_IMAGE_TOO_BIG
  | JERR_BAD_LENGTH
  | JERR_SOI_DUPLICATE
  | JERR_SOF_DUPLICATE
  | JERR_EMPTY_IMAGE
  | JERR_SOF_BEFORE
  | JERR_BAD_COMPONENT_ID nat
  | JERR_DAC_INDEX nat
  | JERR_DAC_VALUE nat
  | JERR_BAD_HUFF_TABLE
  | JERR_DHT_INDEX nat
  | JERR_DQT_INDEX nat
  | JERR_UNKNOWN_MARKER nat
  | JERR_NO_SOI nat nat
  | JERR_SOF_UNSUPPORTED nat
  | JERR_HUFF_CLEN_OVERFLOW
  | JERR_HUFF_MISSING_CODE
  | JERR_BAD_DCT_COEF
  | JERR_OUT_OF_MEMORY
  | JERR_FILE_WRITE
  | JERR_INPUT_EMPTY
  | JERR_BAD_IN_COLORSPACE
  | JERR_BAD_J_COLORSPACE
  | JERR_BAD_DCTSIZE nat nat
  | JERR_NOT_COMPILED
  | JERR_CCIR601_NOTIMPL
  | JERR_FRACT_SAMPLE_NOTIMPL
  | JERR_COMPONENT_COUNT nat nat
  | JERR_BAD_SAMPLING
  | JERR_BAD_MCU_SIZE
  | JERR_BAD_PRECISION nat
  | JERR_BAD_STATE nat
  | JERR_BAD_CROP_SPEC
  | JERR_BAD_PROGRESSION nat nat nat nat
  | JERR_BAD_PROG_SCRIPT nat
  | JERR_BAD_SCAN_SCRIPT nat
  | JERR_MISSING_DATA
  | JERR_SOF_NO_SOS
  | JERR_EOI_EXPECTED
  | JERR_MISMATCHED_QUANT_TABLE nat
  | JERR_QUANT_COMPONENTS nat
  | JERR_QUANT_FEW_COLORS nat
  | JERR_QUANT_MANY_COLORS nat
  | JERR_WIDTH_OVERFLOW
  | JERR_BAD_BUFFER_MODE
  | JERR_NO_ARITH_TABLE nat
  | JERR_TOO_LITTLE_DATA
  | JERR_MODE_CHANGE
  | JERR_NOTIMPL

type_synonym 'a result = "jpeg_error + 'a"

definition bind_err :: "'a result \<Rightarrow> ('a \<Rightarrow> 'b result) \<Rightarrow> 'b result" where
  "bind_err m f = (case m of Inl e \<Rightarrow> Inl e | Inr x \<Rightarrow> f x)"

lemma bind_err_simps [simp]: "bind_err (Inl e) f = Inl e" "bind_err (Inr x) f = f x"
  by (simp_all add: bind_err_def)

lemma bind_err_Inr: "bind_err m f = Inr y \<longleftrightarrow> (\<exists>x. m = Inr x \<and> f x = Inr y)"
  by (cases m) simp_all

definition NUM_QUANT_TBLS :: nat where "NUM_QUANT_TBLS = 4"
definition NUM_HUFF_TBLS :: nat where "NUM_HUFF_TBLS = 4"
definition NUM_ARITH_TBLS :: nat where "NUM_ARITH_TBLS = 16"
definition MAX_COMPS_IN_SCAN :: nat where "MAX_COMPS_IN_SCAN = 4"
definition DCTSIZE :: nat where "DCTSIZE = 8"
definition DCTSIZE2 :: nat where "DCTSIZE2 = 64"
definition MAXJSAMPLE :: nat where "MAXJSAMPLE = 255"
definition CENTERJSAMPLE :: int where "CENTERJSAMPLE = 128"

lemmas jpeg_limits = NUM_QUANT_TBLS_def NUM_HUFF_TBLS_def NUM_ARITH_TBLS_def MAX_COMPS_IN_SCAN_def
  DCTSIZE_def DCTSIZE2_def MAXJSAMPLE_def

text \<open>\<open>quantval\<close> has 64 entries, \<open>bits\<close> 17, \<open>huffval\<close> 256.\<close>

record quant_tbl =
  quantval :: "nat list"
  q_sent_table :: bool

record huff_tbl =
  bits :: "nat list"
  huffval :: "nat list"
  h_sent_table :: bool

record component =
  component_id :: nat
  component_index :: nat
  h_samp_factor :: nat
  v_samp_factor :: nat
  quant_tbl_no :: nat
  dc_tbl_no :: nat
  ac_tbl_no :: nat

datatype color_space = JCS_UNKNOWN | JCS_GRAYSCALE | JCS_RGB | JCS_YCbCr | JCS_CMYK | JCS_YCCK
  | JCS_BG_RGB | JCS_BG_YCC

datatype color_transform = JCT_NONE | JCT_SUBTRACT_GREEN

text \<open>\<open>table[index]\<close>; outside the array a fault.\<close>

definition table_at :: "'a list \<Rightarrow> nat \<Rightarrow> 'a result" where
  "table_at xs i = (if i < length xs then Inr (xs ! i) else Inl FAULT)"

lemma table_at_simps [simp]: "i < length xs \<Longrightarrow> table_at xs i = Inr (xs ! i)"
  by (simp add: table_at_def)

text \<open>Bytes of an integer, high byte first, as the marker routines write and read them.\<close>

lemma drop_bit_AND_255: "drop_bit k n AND 0xFF = (n div 2 ^ k) mod 256" for n :: nat
proof -
  have "(0xFF :: nat) = mask 8" by (simp add: mask_eq_exp_minus_1)
  then show ?thesis by (simp only: take_bit_eq_mask [symmetric] take_bit_eq_mod drop_bit_eq_div) simp
qed

lemma AND_255: "n AND 0xFF = n mod 256" for n :: nat
  using drop_bit_AND_255 [of 0 n] by simp

lemma AND_15: "n AND 15 = n mod 16" for n :: nat
proof -
  have "(15 :: nat) = mask 4" by (simp add: mask_eq_exp_minus_1)
  then show ?thesis by (simp only: take_bit_eq_mask [symmetric] take_bit_eq_mod) simp
qed

end
