(* ===== verification/JpegWriter.thy ===== *)
theory JpegWriter
  imports JpegState
begin

text \<open>
  The marker writer \<open>jpeg-9a/jcmarker.c\<close>: every \<open>emit_\<close> routine and the header, frame, scan,
  trailer and table-stream routines.  \<open>out\<close> is what has been handed to the destination so far;
  the component \<open>JpegData\<close> shows how the destination managers deliver exactly these bytes.
\<close>

section \<open>State\<close>

text \<open>
  \<open>comp_info\<close> holds the \<open>num_components\<close> components, \<open>cur_comp_info\<close> the indices of the
  \<open>comps_in_scan\<close> components of the scan.
\<close>

record compress =
  jpeg_height :: nat
  jpeg_width :: nat
  data_precision :: nat
  comp_info :: "component list"
  quant_tbl_ptrs :: "quant_tbl option list"
  dc_huff_tbl_ptrs :: "huff_tbl option list"
  ac_huff_tbl_ptrs :: "huff_tbl option list"
  arith_dc_L :: "nat list"
  arith_dc_U :: "nat list"
  arith_ac_K :: "nat list"
  lim_Se :: nat
  natural_order :: "nat list"
  block_size :: nat
  cur_comp_info :: "nat list"
  Ss :: nat
  Se :: nat
  Ah :: nat
  Al :: nat
  restart_interval :: nat
  last_restart_interval :: nat
  write_JFIF_header :: bool
  write_Adobe_marker :: bool
  JFIF_major_version :: nat
  JFIF_minor_version :: nat
  density_unit :: nat
  X_density :: nat
  Y_density :: nat
  jpeg_color_space :: color_space
  color_transform :: color_transform
  arith_code :: bool
  progressive_mode :: bool
  out :: "byte list"

section \<open>Basic output\<close>

definition emit_byte :: "nat \<Rightarrow> compress \<Rightarrow> compress" where
  "emit_byte val c = c\<lparr>out := out c @ [of_nat val]\<rparr>"

definition emit_marker :: "jpeg_marker \<Rightarrow> compress \<Rightarrow> compress" where
  "emit_marker mark c = emit_byte (code mark) (emit_byte 0xFF c)"

definition emit_2bytes :: "nat \<Rightarrow> compress \<Rightarrow> compress" where
  "emit_2bytes val c = emit_byte (val AND 0xFF) (emit_byte (drop_bit 8 val AND 0xFF) c)"

section \<open>Marker routines\<close>

definition set_quant_tbl :: "nat \<Rightarrow> quant_tbl \<Rightarrow> compress \<Rightarrow> compress" where
  "set_quant_tbl i t c = c\<lparr>quant_tbl_ptrs := (quant_tbl_ptrs c)[i := Some t]\<rparr>"

definition emit_quantval :: "nat \<Rightarrow> quant_tbl \<Rightarrow> nat list \<Rightarrow> nat \<Rightarrow> compress \<Rightarrow> compress" where
  "emit_quantval prec qtbl order i c =
     (let qval = quantval qtbl ! (order ! i);
          c1 = (if prec \<noteq> 0 then emit_byte (drop_bit 8 qval) c else c)
      in emit_byte (qval AND 0xFF) c1)"

definition emit_dqt :: "nat \<Rightarrow> compress \<Rightarrow> (nat \<times> compress) result" where
  "emit_dqt index c =
     bind_err (table_at (quant_tbl_ptrs c) index) (\<lambda>p.
       case p of
         None \<Rightarrow> Inl (JERR_NO_QUANT_TABLE index)
       | Some qtbl \<Rightarrow>
           (let prec = (if \<exists>i\<in>set [0..<lim_Se c + 1]. quantval qtbl ! (natural_order c ! i) > 255 then 1 else 0)
            in if q_sent_table qtbl then Inr (prec, c)
               else (let c1 = emit_marker M_DQT c;
                         c2 = emit_2bytes (if prec \<noteq> 0 then lim_Se c * 2 + 2 + 1 + 2 else lim_Se c + 1 + 1 + 2) c1;
                         c3 = emit_byte (index + push_bit 4 prec) c2;
                         c4 = fold (emit_quantval prec qtbl (natural_order c)) [0..<lim_Se c + 1] c3
                     in Inr (prec, set_quant_tbl index (qtbl\<lparr>q_sent_table := True\<rparr>) c4))))"

definition emit_dht :: "nat \<Rightarrow> bool \<Rightarrow> compress \<Rightarrow> compress result" where
  "emit_dht index0 is_ac c =
     bind_err (table_at (if is_ac then ac_huff_tbl_ptrs c else dc_huff_tbl_ptrs c) index0) (\<lambda>p.
       let index = (if is_ac then index0 + 0x10 else index0) in
       case p of
         None \<Rightarrow> Inl (JERR_NO_HUFF_TABLE index)
       | Some htbl \<Rightarrow>
           if h_sent_table htbl then Inr c
           else (let c1 = emit_marker M_DHT c;
                     len = sum_list (map (\<lambda>i. bits htbl ! i) [1..<17]);
                     c2 = emit_2bytes (len + 2 + 1 + 16) c1;
                     c3 = emit_byte index c2;
                     c4 = fold (\<lambda>i. emit_byte (bits htbl ! i)) [1..<17] c3
                 in if length (huffval htbl) < len then Inl FAULT
                    else (let c5 = fold (\<lambda>i. emit_byte (huffval htbl ! i)) [0..<len] c4;
                              sent = Some (htbl\<lparr>h_sent_table := True\<rparr>)
                          in Inr (if is_ac
                                  then c5\<lparr>ac_huff_tbl_ptrs := (ac_huff_tbl_ptrs c5)[index0 := sent]\<rparr>
                                  else c5\<lparr>dc_huff_tbl_ptrs := (dc_huff_tbl_ptrs c5)[index0 := sent]\<rparr>))))"

text \<open>The component the scan's position \<open>i\<close> refers to.\<close>

definition scan_comp :: "compress \<Rightarrow> nat \<Rightarrow> component" where
  "scan_comp c i = comp_info c ! (cur_comp_info c ! i)"

definition dc_in_use :: "compress \<Rightarrow> nat \<Rightarrow> bool" where
  "dc_in_use c t \<longleftrightarrow> (\<exists>i\<in>set [0..<length (cur_comp_info c)]. Ss c = 0 \<and> Ah c = 0 \<and> dc_tbl_no (scan_comp c i) = t)"

definition ac_in_use :: "compress \<Rightarrow> nat \<Rightarrow> bool" where
  "ac_in_use c t \<longleftrightarrow> (\<exists>i\<in>set [0..<length (cur_comp_info c)]. Se c \<noteq> 0 \<and> ac_tbl_no (scan_comp c i) = t)"

definition emit_dac :: "compress \<Rightarrow> compress result" where
  "emit_dac c =
     (if \<exists>i\<in>set [0..<length (cur_comp_info c)].
           (Ss c = 0 \<and> Ah c = 0 \<and> NUM_ARITH_TBLS \<le> dc_tbl_no (scan_comp c i))
           \<or> (Se c \<noteq> 0 \<and> NUM_ARITH_TBLS \<le> ac_tbl_no (scan_comp c i))
      then Inl FAULT
      else (let len = length (filter (dc_in_use c) [0..<NUM_ARITH_TBLS]) + length (filter (ac_in_use c) [0..<NUM_ARITH_TBLS])
            in if len = 0 then Inr c
               else (let c1 = emit_marker M_DAC c;
                         c2 = emit_2bytes (len * 2 + 2) c1
                     in Inr (fold
                          (\<lambda>i d.
                             let d1 = (if dc_in_use c i
                                       then emit_byte (arith_dc_L c ! i + push_bit 4 (arith_dc_U c ! i)) (emit_byte i d) else d)
                             in if ac_in_use c i then emit_byte (arith_ac_K c ! i) (emit_byte (i + 0x10) d1) else d1)
                          [0..<NUM_ARITH_TBLS] c2))))"

definition emit_dri :: "compress \<Rightarrow> compress" where
  "emit_dri c = emit_2bytes (restart_interval c) (emit_2bytes 4 (emit_marker M_DRI c))"

definition emit_lse_ict :: "compress \<Rightarrow> compress result" where
  "emit_lse_ict c =
     (if color_transform c \<noteq> JCT_SUBTRACT_GREEN \<or> length (comp_info c) < 3 then Inl JERR_CONVERSION_NOTIMPL
      else (let c1 = emit_2bytes 24 (emit_marker M_JPG8 c);
                c2 = emit_byte 3 (emit_2bytes MAXJSAMPLE (emit_byte 0x0D c1));
                c3 = emit_byte (component_id (comp_info c ! 1)) c2;
                c4 = emit_byte (component_id (comp_info c ! 0)) c3;
                c5 = emit_byte (component_id (comp_info c ! 2)) c4;
                c6 = emit_2bytes 0 (emit_2bytes 0 (emit_byte 0x80 c5));
                c7 = emit_2bytes 0 (emit_2bytes 1 (emit_byte 0 c6))
            in Inr (emit_2bytes 0 (emit_2bytes 1 (emit_byte 0 c7)))))"

definition emit_sof :: "jpeg_marker \<Rightarrow> compress \<Rightarrow> compress result" where
  "emit_sof mark c =
     (let c1 = emit_2bytes (3 * length (comp_info c) + 2 + 5 + 1) (emit_marker mark c)
      in if jpeg_height c > 65535 \<or> jpeg_width c > 65535 then Inl JERR_IMAGE_TOO_BIG
         else (let c2 = emit_byte (data_precision c) c1;
                   c3 = emit_2bytes (jpeg_width c) (emit_2bytes (jpeg_height c) c2);
                   c4 = emit_byte (length (comp_info c)) c3
               in Inr (fold
                    (\<lambda>compptr d.
                       emit_byte (quant_tbl_no compptr)
                         (emit_byte (push_bit 4 (h_samp_factor compptr) + v_samp_factor compptr)
                           (emit_byte (component_id compptr) d)))
                    (comp_info c) c4)))"

definition emit_sos :: "compress \<Rightarrow> compress" where
  "emit_sos c =
     (let n = length (cur_comp_info c);
          c1 = emit_byte n (emit_2bytes (2 * n + 2 + 1 + 3) (emit_marker M_SOS c));
          c2 = fold
            (\<lambda>i d.
               let compptr = scan_comp c i;
                   td = (if Ss c = 0 \<and> Ah c = 0 then dc_tbl_no compptr else 0);
                   ta = (if Se c \<noteq> 0 then ac_tbl_no compptr else 0)
               in emit_byte (push_bit 4 td + ta) (emit_byte (component_id compptr) d))
            [0..<n] c1
      in emit_byte (push_bit 4 (Ah c) + Al c) (emit_byte (Se c) (emit_byte (Ss c) c2)))"

definition emit_pseudo_sos :: "compress \<Rightarrow> compress" where
  "emit_pseudo_sos c =
     (let c1 = emit_byte 0 (emit_2bytes (2 + 1 + 3) (emit_marker M_SOS c))
      in emit_byte 0 (emit_byte (block_size c * block_size c - 1) (emit_byte 0 c1)))"

definition emit_jfif_app0 :: "compress \<Rightarrow> compress" where
  "emit_jfif_app0 c =
     (let c1 = emit_2bytes (2 + 4 + 1 + 2 + 1 + 2 + 2 + 1 + 1) (emit_marker M_APP0 c);
          c2 = emit_byte 0x46 (emit_byte 0x49 (emit_byte 0x46 (emit_byte 0x4A c1)));
          c3 = emit_byte (JFIF_minor_version c) (emit_byte (JFIF_major_version c) (emit_byte 0 c2));
          c4 = emit_2bytes (Y_density c) (emit_2bytes (X_density c) (emit_byte (density_unit c) c3))
      in emit_byte 0 (emit_byte 0 c4))"

definition emit_adobe_app14 :: "compress \<Rightarrow> compress" where
  "emit_adobe_app14 c =
     (let c1 = emit_2bytes (2 + 5 + 2 + 2 + 2 + 1) (emit_marker M_APP14 c);
          c2 = emit_byte 0x65 (emit_byte 0x62 (emit_byte 0x6F (emit_byte 0x64 (emit_byte 0x41 c1))));
          c3 = emit_2bytes 0 (emit_2bytes 0 (emit_2bytes 100 c2))
      in case jpeg_color_space c of
           JCS_YCbCr \<Rightarrow> emit_byte 1 c3
         | JCS_YCCK \<Rightarrow> emit_byte 2 c3
         | _ \<Rightarrow> emit_byte 0 c3)"

section \<open>Public routines\<close>

definition write_marker_header :: "jpeg_marker \<Rightarrow> nat \<Rightarrow> compress \<Rightarrow> compress result" where
  "write_marker_header mark datalen c =
     (if datalen > 65533 then Inl JERR_BAD_LENGTH
      else Inr (emit_2bytes (datalen + 2) (emit_marker mark c)))"

definition write_marker_byte :: "nat \<Rightarrow> compress \<Rightarrow> compress" where
  "write_marker_byte val c = emit_byte val c"

definition write_file_header :: "compress \<Rightarrow> compress" where
  "write_file_header c =
     (let c1 = (emit_marker M_SOI c)\<lparr>last_restart_interval := 0\<rparr>;
          c2 = (if write_JFIF_header c1 then emit_jfif_app0 c1 else c1)
      in if write_Adobe_marker c2 then emit_adobe_app14 c2 else c2)"

fun emit_dqts :: "nat list \<Rightarrow> nat \<Rightarrow> compress \<Rightarrow> (nat \<times> compress) result" where
  "emit_dqts [] prec c = Inr (prec, c)"
| "emit_dqts (i # is) prec c = bind_err (emit_dqt i c) (\<lambda>(p, c1). emit_dqts is (prec + p) c1)"

definition frame_baseline :: "nat \<Rightarrow> compress \<Rightarrow> bool" where
  "frame_baseline prec c \<longleftrightarrow>
     \<not> (arith_code c \<or> progressive_mode c \<or> data_precision c \<noteq> 8 \<or> block_size c \<noteq> DCTSIZE) \<and>
     (\<forall>compptr\<in>set (comp_info c). \<not> (dc_tbl_no compptr > 1 \<or> ac_tbl_no compptr > 1)) \<and> prec = 0"

definition frame_marker :: "nat \<Rightarrow> compress \<Rightarrow> jpeg_marker" where
  "frame_marker prec c =
     (if arith_code c then (if progressive_mode c then M_SOF10 else M_SOF9)
      else if progressive_mode c then M_SOF2
      else if frame_baseline prec c then M_SOF0
      else M_SOF1)"

definition write_frame_header :: "compress \<Rightarrow> compress result" where
  "write_frame_header c =
     bind_err (emit_dqts (map quant_tbl_no (comp_info c)) 0 c) (\<lambda>(prec, c1).
     bind_err (emit_sof (frame_marker prec c1) c1) (\<lambda>c2.
     bind_err (if color_transform c2 \<noteq> JCT_NONE then emit_lse_ict c2 else Inr c2) (\<lambda>c3.
       Inr (if progressive_mode c3 \<and> block_size c3 \<noteq> DCTSIZE then emit_pseudo_sos c3 else c3))))"

fun emit_scan_tables :: "nat list \<Rightarrow> compress \<Rightarrow> compress result" where
  "emit_scan_tables [] c = Inr c"
| "emit_scan_tables (i # is) c =
     bind_err (if Ss c = 0 \<and> Ah c = 0 then emit_dht (dc_tbl_no (scan_comp c i)) False c else Inr c) (\<lambda>c1.
     bind_err (if Se c \<noteq> 0 then emit_dht (ac_tbl_no (scan_comp c i)) True c1 else Inr c1) (\<lambda>c2.
       emit_scan_tables is c2))"

definition write_scan_header :: "compress \<Rightarrow> compress result" where
  "write_scan_header c =
     bind_err (if arith_code c then emit_dac c else emit_scan_tables [0..<length (cur_comp_info c)] c) (\<lambda>c1.
       let c2 = (if restart_interval c1 \<noteq> last_restart_interval c1
                 then (emit_dri c1)\<lparr>last_restart_interval := restart_interval c1\<rparr> else c1)
       in Inr (emit_sos c2))"

definition write_file_trailer :: "compress \<Rightarrow> compress" where
  "write_file_trailer c = emit_marker M_EOI c"

fun emit_all_dqt :: "nat list \<Rightarrow> compress \<Rightarrow> compress result" where
  "emit_all_dqt [] c = Inr c"
| "emit_all_dqt (i # is) c =
     bind_err (table_at (quant_tbl_ptrs c) i) (\<lambda>p.
       if p = None then emit_all_dqt is c
       else bind_err (emit_dqt i c) (\<lambda>(prec, c1). emit_all_dqt is c1))"

fun emit_all_dht :: "nat list \<Rightarrow> compress \<Rightarrow> compress result" where
  "emit_all_dht [] c = Inr c"
| "emit_all_dht (i # is) c =
     bind_err (table_at (dc_huff_tbl_ptrs c) i) (\<lambda>p.
     bind_err (if p \<noteq> None then emit_dht i False c else Inr c) (\<lambda>c1.
     bind_err (table_at (ac_huff_tbl_ptrs c1) i) (\<lambda>q.
     bind_err (if q \<noteq> None then emit_dht i True c1 else Inr c1) (\<lambda>c2. emit_all_dht is c2))))"

definition write_tables_only :: "compress \<Rightarrow> compress result" where
  "write_tables_only c =
     (let c1 = emit_marker M_SOI c in
      bind_err (emit_all_dqt [0..<NUM_QUANT_TBLS] c1) (\<lambda>c2.
      bind_err (if arith_code c2 then Inr c2 else emit_all_dht [0..<NUM_HUFF_TBLS] c2) (\<lambda>c3.
        Inr (emit_marker M_EOI c3))))"

definition jinit_marker_writer :: "compress \<Rightarrow> compress" where
  "jinit_marker_writer c = c\<lparr>last_restart_interval := 0\<rparr>"

section \<open>What the routines append\<close>

text \<open>\<open>emits c vs\<close>: \<open>c\<close> after the bytes \<open>vs\<close>.\<close>

definition emits :: "compress \<Rightarrow> nat list \<Rightarrow> compress" where
  "emits c vs = c\<lparr>out := out c @ map of_nat vs\<rparr>"

named_theorems emit_simps \<open>emitting routines as appended byte lists\<close>

lemma emits_Nil [simp]: "emits c [] = c"
  by (simp add: emits_def)

lemma emit_byte_emits [emit_simps]: "emit_byte v (emits c vs) = emits c (vs @ [v])"
  by (simp add: emit_byte_def emits_def)

lemma emits_emits [emit_simps]: "emits (emits c vs) ws = emits c (vs @ ws)"
  by (simp add: emits_def)

lemma emit_marker_emits [emit_simps]: "emit_marker m (emits c vs) = emits c (vs @ [0xFF, code m])"
  by (simp add: emit_marker_def emit_simps)

lemma emit_2bytes_emits [emit_simps]:
  "emit_2bytes v (emits c vs) = emits c (vs @ [v div 256 mod 256, v mod 256])"
  using drop_bit_AND_255 [of 8 v] AND_255 [of v] by (simp add: emit_2bytes_def emit_simps)

lemma emit_start: "f c = f (emits c [])"
  by simp

lemma fold_emits:
  assumes "\<And>i vs. i \<in> set is \<Longrightarrow> f i (emits c vs) = emits c (vs @ g i)"
  shows "fold f is (emits c vs) = emits c (vs @ concat (map g is))"
  using assms
proof (induction "is" arbitrary: vs)
  case Nil
  then show ?case by simp
next
  case (Cons i xs)
  then show ?case by simp
qed

lemma out_emits [simp]: "out (emits c vs) = out c @ map of_nat vs"
  by (simp add: emits_def)

lemma emits_fields [simp]:
  "quant_tbl_ptrs (emits c vs) = quant_tbl_ptrs c" "dc_huff_tbl_ptrs (emits c vs) = dc_huff_tbl_ptrs c"
  "ac_huff_tbl_ptrs (emits c vs) = ac_huff_tbl_ptrs c" "lim_Se (emits c vs) = lim_Se c"
  "natural_order (emits c vs) = natural_order c" "comp_info (emits c vs) = comp_info c"
  "restart_interval (emits c vs) = restart_interval c"
  by (simp_all add: emits_def)

text \<open>The payload of a DQT segment: the table number with the precision, then the entries.\<close>

definition dqt_entry :: "nat \<Rightarrow> nat \<Rightarrow> nat list" where
  "dqt_entry prec q = (if prec \<noteq> 0 then [q div 256, q mod 256] else [q mod 256])"

definition dqt_prec :: "quant_tbl \<Rightarrow> compress \<Rightarrow> nat" where
  "dqt_prec qtbl c = (if \<exists>i\<in>set [0..<lim_Se c + 1]. quantval qtbl ! (natural_order c ! i) > 255 then 1 else 0)"

definition dqt_payload :: "nat \<Rightarrow> quant_tbl \<Rightarrow> compress \<Rightarrow> nat list" where
  "dqt_payload index qtbl c =
     (index + 16 * dqt_prec qtbl c) #
       concat (map (\<lambda>i. dqt_entry (dqt_prec qtbl c) (quantval qtbl ! (natural_order c ! i))) [0..<lim_Se c + 1])"

definition segment :: "jpeg_marker \<Rightarrow> nat \<Rightarrow> nat list \<Rightarrow> nat list" where
  "segment m len payload = [0xFF, code m, len div 256 mod 256, len mod 256] @ payload"

lemma emit_dqt_bytes:
  assumes "index < length (quant_tbl_ptrs c)" "quant_tbl_ptrs c ! index = Some qtbl" "\<not> q_sent_table qtbl"
  shows "emit_dqt index c = Inr (dqt_prec qtbl c,
    set_quant_tbl index (qtbl\<lparr>q_sent_table := True\<rparr>)
      (emits c (segment M_DQT (length (dqt_payload index qtbl c) + 2) (dqt_payload index qtbl c))))"
proof -
  let ?p = "dqt_prec qtbl c"
  have e: "emit_quantval ?p qtbl (natural_order c) i (emits c vs)
      = emits c (vs @ dqt_entry ?p (quantval qtbl ! (natural_order c ! i)))" for i vs
    using AND_255 by (simp add: emit_quantval_def dqt_entry_def emit_simps drop_bit_eq_div Let_def)
  have len: "length (dqt_payload index qtbl c) + 2 = (if ?p \<noteq> 0 then lim_Se c * 2 + 2 + 1 + 2 else lim_Se c + 1 + 1 + 2)"
    by (simp add: dqt_payload_def length_concat comp_def dqt_entry_def sum_list_triv)
  have pb: "index + push_bit 4 ?p = index + 16 * ?p" by (simp add: push_bit_eq_mult)
  have "fold (emit_quantval ?p qtbl (natural_order c)) [0..<lim_Se c + 1] (emits c vs)
      = emits c (vs @ concat (map (\<lambda>i. dqt_entry ?p (quantval qtbl ! (natural_order c ! i))) [0..<lim_Se c + 1]))" for vs
    by (rule fold_emits) (rule e)
  note f = this
  have "emit_dqt index c = Inr (?p, set_quant_tbl index (qtbl\<lparr>q_sent_table := True\<rparr>)
      (fold (emit_quantval ?p qtbl (natural_order c)) [0..<lim_Se c + 1]
        (emit_byte (index + push_bit 4 ?p) (emit_2bytes (length (dqt_payload index qtbl c) + 2) (emit_marker M_DQT c)))))"
    unfolding len using assms by (simp add: emit_dqt_def dqt_prec_def Let_def del: upt_Suc)
  also have "emit_byte (index + push_bit 4 ?p) (emit_2bytes (length (dqt_payload index qtbl c) + 2) (emit_marker M_DQT c))
      = emits c ([0xFF, code M_DQT, (length (dqt_payload index qtbl c) + 2) div 256 mod 256,
          (length (dqt_payload index qtbl c) + 2) mod 256] @ [index + 16 * ?p])"
    unfolding pb using emit_marker_emits [of M_DQT c "[]"] by (simp add: emit_2bytes_emits emit_byte_emits)
  also note f
  finally show ?thesis by (simp only: segment_def dqt_payload_def append.simps append_assoc)
qed

definition dht_len :: "huff_tbl \<Rightarrow> nat" where
  "dht_len htbl = sum_list (map (\<lambda>i. bits htbl ! i) [1..<17])"

definition dht_payload :: "nat \<Rightarrow> huff_tbl \<Rightarrow> nat list" where
  "dht_payload index htbl =
     index # map (\<lambda>i. bits htbl ! i) [1..<17] @ map (\<lambda>i. huffval htbl ! i) [0..<dht_len htbl]"

definition mark_dht_sent :: "bool \<Rightarrow> nat \<Rightarrow> huff_tbl \<Rightarrow> compress \<Rightarrow> compress" where
  "mark_dht_sent is_ac i htbl c =
     (if is_ac then c\<lparr>ac_huff_tbl_ptrs := (ac_huff_tbl_ptrs c)[i := Some (htbl\<lparr>h_sent_table := True\<rparr>)]\<rparr>
      else c\<lparr>dc_huff_tbl_ptrs := (dc_huff_tbl_ptrs c)[i := Some (htbl\<lparr>h_sent_table := True\<rparr>)]\<rparr>)"

lemma emit_dht_bytes:
  assumes "index < length (if is_ac then ac_huff_tbl_ptrs c else dc_huff_tbl_ptrs c)"
    "(if is_ac then ac_huff_tbl_ptrs c else dc_huff_tbl_ptrs c) ! index = Some htbl"
    "\<not> h_sent_table htbl" "dht_len htbl \<le> length (huffval htbl)"
  defines "p \<equiv> dht_payload (if is_ac then index + 16 else index) htbl"
  shows "emit_dht index is_ac c = Inr (mark_dht_sent is_ac index htbl (emits c (segment M_DHT (length p + 2) p)))"
proof -
  let ?ix = "if is_ac then index + 16 else index"
  have l: "length p + 2 = dht_len htbl + 2 + 1 + 16"
    by (simp add: p_def dht_payload_def del: upt_Suc)
  have f: "fold (\<lambda>i. emit_byte (f i)) is (emits c vs) = emits c (vs @ map f is)" for f "is" vs
    using fold_emits [of "is" "\<lambda>i. emit_byte (f i)" c "\<lambda>i. [f i]" vs] by (simp add: emit_byte_emits)
  have s: "emit_byte ?ix (emit_2bytes (length p + 2) (emit_marker M_DHT c))
      = emits c ([0xFF, code M_DHT, (length p + 2) div 256 mod 256, (length p + 2) mod 256] @ [?ix])"
    using emit_marker_emits [of M_DHT c "[]"] by (simp add: emit_2bytes_emits emit_byte_emits)
  have "emit_dht index is_ac c = Inr (mark_dht_sent is_ac index htbl
      (fold (\<lambda>i. emit_byte (huffval htbl ! i)) [0..<dht_len htbl]
        (fold (\<lambda>i. emit_byte (bits htbl ! i)) [1..<17]
          (emit_byte ?ix (emit_2bytes (length p + 2) (emit_marker M_DHT c))))))"
    unfolding l using assms(1-4)
    by (simp add: emit_dht_def mark_dht_sent_def dht_len_def Let_def split del: if_split del: upt_Suc)
  also have "\<dots> = Inr (mark_dht_sent is_ac index htbl (emits c (segment M_DHT (length p + 2) p)))"
    unfolding s f by (simp only: p_def segment_def dht_payload_def append.simps append_assoc)
  finally show ?thesis .
qed

text \<open>A compressor with no tables and no components, for examples.\<close>

definition blank_compress :: compress where
  "blank_compress = \<lparr>jpeg_height = 0, jpeg_width = 0, data_precision = 8, comp_info = [],
     quant_tbl_ptrs = replicate 4 None, dc_huff_tbl_ptrs = replicate 4 None, ac_huff_tbl_ptrs = replicate 4 None,
     arith_dc_L = replicate 16 0, arith_dc_U = replicate 16 1, arith_ac_K = replicate 16 5,
     lim_Se = 63, natural_order = jpeg_natural_order, block_size = 8, cur_comp_info = [],
     Ss = 0, Se = 63, Ah = 0, Al = 0, restart_interval = 0, last_restart_interval = 0,
     write_JFIF_header = True, write_Adobe_marker = False, JFIF_major_version = 1, JFIF_minor_version = 1,
     density_unit = 0, X_density = 1, Y_density = 1, jpeg_color_space = JCS_YCbCr, color_transform = JCT_NONE,
     arith_code = False, progressive_mode = False, out = []\<rparr>"

end
