(* ===== verification/JpegReader.thy ===== *)
theory JpegReader
  imports JpegState
begin

text \<open>
  The marker reader \<open>jpeg-9a/jdmarker.c\<close>.  \<open>input\<close> is the rest of the data; the data sources
  of the program (a file, a memory buffer) supply an EOI marker, FF D9, whenever the data is used
  up (\<open>JpegData\<close>), so a read never suspends.  Trace messages and warnings are not modelled.
\<close>

section \<open>State\<close>

datatype marker_processor = Skip_Variable | Get_Interesting_Appn | Save_Marker

record saved_marker =
  saved_code :: nat
  original_length :: nat
  saved_data :: "nat list"

record decompress =
  input :: "byte list"
  unread_marker :: nat
  saw_SOI :: bool
  saw_SOF :: bool
  discarded_bytes :: nat
  next_restart_num :: nat
  is_baseline :: bool
  d_progressive_mode :: bool
  d_arith_code :: bool
  d_data_precision :: nat
  image_height :: nat
  image_width :: nat
  num_components :: nat
  d_comp_info :: "component list"
  d_quant_tbl_ptrs :: "quant_tbl option list"
  d_dc_huff_tbl_ptrs :: "huff_tbl option list"
  d_ac_huff_tbl_ptrs :: "huff_tbl option list"
  d_arith_dc_L :: "nat list"
  d_arith_dc_U :: "nat list"
  d_arith_ac_K :: "nat list"
  d_restart_interval :: nat
  d_cur_comp_info :: "nat list"
  d_Ss :: nat
  d_Se :: nat
  d_Ah :: nat
  d_Al :: nat
  input_scan_number :: nat
  d_jpeg_color_space :: color_space
  d_color_transform :: color_transform
  CCIR601_sampling :: bool
  saw_JFIF_marker :: bool
  d_JFIF_major_version :: nat
  d_JFIF_minor_version :: nat
  d_density_unit :: nat
  d_X_density :: nat
  d_Y_density :: nat
  saw_Adobe_marker :: bool
  Adobe_transform :: nat
  process_COM :: marker_processor
  process_APPn :: "marker_processor list"
  length_limit_COM :: nat
  length_limit_APPn :: "nat list"
  marker_list :: "saved_marker list"

section \<open>Fetching data\<close>

definition input_byte :: "decompress \<Rightarrow> nat \<times> decompress" where
  "input_byte d =
     (case input d of
        b # bs \<Rightarrow> (unat b, d\<lparr>input := bs\<rparr>)
      | [] \<Rightarrow> (0xFF, d\<lparr>input := [0xD9]\<rparr>))"

definition input_2bytes :: "decompress \<Rightarrow> nat \<times> decompress" where
  "input_2bytes d =
     (let (hi, d1) = input_byte d; (lo, d2) = input_byte d1 in (push_bit 8 hi + lo, d2))"

fun input_bytes :: "nat \<Rightarrow> decompress \<Rightarrow> nat list \<times> decompress" where
  "input_bytes 0 d = ([], d)"
| "input_bytes (Suc n) d =
     (let (b, d1) = input_byte d; (bs, d2) = input_bytes n d1 in (b # bs, d2))"

definition skip_bytes :: "int \<Rightarrow> decompress \<Rightarrow> decompress" where
  "skip_bytes n d = snd (input_bytes (nat n) d)"

section \<open>Markers without tables\<close>

definition get_soi :: "decompress \<Rightarrow> decompress result" where
  "get_soi d =
     (if saw_SOI d then Inl JERR_SOI_DUPLICATE
      else Inr (d\<lparr>d_arith_dc_L := replicate NUM_ARITH_TBLS 0, d_arith_dc_U := replicate NUM_ARITH_TBLS 1,
                  d_arith_ac_K := replicate NUM_ARITH_TBLS 5, d_restart_interval := 0,
                  d_jpeg_color_space := JCS_UNKNOWN, d_color_transform := JCT_NONE, CCIR601_sampling := False,
                  saw_JFIF_marker := False, d_JFIF_major_version := 1, d_JFIF_minor_version := 1,
                  d_density_unit := 0, d_X_density := 1, d_Y_density := 1, saw_Adobe_marker := False,
                  Adobe_transform := 0, saw_SOI := True\<rparr>))"

text \<open>The id a component gets when the one read is already taken: the largest so far plus one.\<close>

definition fake_id :: "nat \<Rightarrow> nat list \<Rightarrow> nat" where
  "fake_id c ids =
     (if c \<in> set ids then fold (\<lambda>i m. if i > m then i else m) (tl ids) (hd ids) + 1 else c)"

fun read_sof_components :: "nat \<Rightarrow> component list \<Rightarrow> decompress \<Rightarrow> component list \<times> decompress" where
  "read_sof_components 0 comps d = (comps, d)"
| "read_sof_components (Suc n) comps d =
     (let (c, d1) = input_byte d;
          ident = fake_id c (map component_id comps);
          (hv, d2) = input_byte d1;
          (q, d3) = input_byte d2
      in read_sof_components n
           (comps @ [\<lparr>component_id = ident, component_index = length comps,
                      h_samp_factor = drop_bit 4 hv AND 15, v_samp_factor = hv AND 15,
                      quant_tbl_no = q, dc_tbl_no = 0, ac_tbl_no = 0\<rparr>]) d3)"

definition get_sof :: "bool \<Rightarrow> bool \<Rightarrow> bool \<Rightarrow> decompress \<Rightarrow> decompress result" where
  "get_sof base prog arith d =
     (let d0 = d\<lparr>is_baseline := base, d_progressive_mode := prog, d_arith_code := arith\<rparr>;
          (len, d1) = input_2bytes d0;
          (prec, d2) = input_byte d1;
          (h, d3) = input_2bytes d2;
          (w, d4) = input_2bytes d3;
          (n, d5) = input_byte d4
      in if saw_SOF d5 then Inl JERR_SOF_DUPLICATE
         else if h \<le> 0 \<or> w \<le> 0 \<or> n \<le> 0 then Inl JERR_EMPTY_IMAGE
         else if int len - 8 \<noteq> int (n * 3) then Inl JERR_BAD_LENGTH
         else (let (comps, d6) = read_sof_components n [] d5
               in Inr (d6\<lparr>d_data_precision := prec, image_height := h, image_width := w,
                          num_components := n, d_comp_info := comps, saw_SOF := True\<rparr>)))"

text \<open>The first component with an id, as its index.\<close>

fun find_component :: "nat \<Rightarrow> component list \<Rightarrow> nat \<Rightarrow> nat option" where
  "find_component c [] ci = None"
| "find_component c (x # xs) ci = (if c = component_id x then Some ci else find_component c xs (ci + 1))"

fun read_sos_components :: "nat \<Rightarrow> nat list \<Rightarrow> decompress \<Rightarrow> decompress result" where
  "read_sos_components 0 cur d = Inr (d\<lparr>d_cur_comp_info := cur\<rparr>)"
| "read_sos_components (Suc n) cur d =
     (let (c0, d1) = input_byte d;
          c = fake_id c0 (map (\<lambda>i. component_id (d_comp_info d1 ! i)) cur)
      in case find_component c (d_comp_info d1) 0 of
           None \<Rightarrow> Inl (JERR_BAD_COMPONENT_ID c)
         | Some ci \<Rightarrow>
             (let (t, d2) = input_byte d1;
                  comp = (d_comp_info d2 ! ci)\<lparr>dc_tbl_no := drop_bit 4 t AND 15, ac_tbl_no := t AND 15\<rparr>
              in read_sos_components n (cur @ [ci]) (d2\<lparr>d_comp_info := (d_comp_info d2)[ci := comp]\<rparr>)))"

definition get_sos :: "decompress \<Rightarrow> decompress result" where
  "get_sos d =
     (if \<not> saw_SOF d then Inl JERR_SOF_BEFORE
      else (let (len, d1) = input_2bytes d; (n, d2) = input_byte d1
            in if len \<noteq> n * 2 + 6 \<or> n > MAX_COMPS_IN_SCAN \<or> (n = 0 \<and> \<not> d_progressive_mode d2)
               then Inl JERR_BAD_LENGTH
               else bind_err (read_sos_components n [] d2) (\<lambda>d3.
                 let (ss, d4) = input_byte d3; (se, d5) = input_byte d4; (a, d6) = input_byte d5
                 in Inr (d6\<lparr>d_Ss := ss, d_Se := se, d_Ah := drop_bit 4 a AND 15, d_Al := a AND 15,
                            next_restart_num := 0,
                            input_scan_number := (if n \<noteq> 0 then input_scan_number d6 + 1 else input_scan_number d6)\<rparr>))))"

section \<open>Table segments\<close>

function get_dac_loop :: "int \<Rightarrow> decompress \<Rightarrow> decompress result" where
  "get_dac_loop len d =
     (if len > 0 then
        (let (index, d1) = input_byte d; (val, d2) = input_byte d1; len1 = len - 2
         in if index \<ge> 2 * NUM_ARITH_TBLS then Inl (JERR_DAC_INDEX index)
            else if index \<ge> NUM_ARITH_TBLS
            then get_dac_loop len1 (d2\<lparr>d_arith_ac_K := (d_arith_ac_K d2)[index - NUM_ARITH_TBLS := val]\<rparr>)
            else (let l = val AND 0x0F; u = drop_bit 4 val;
                      d3 = d2\<lparr>d_arith_dc_L := (d_arith_dc_L d2)[index := l], d_arith_dc_U := (d_arith_dc_U d2)[index := u]\<rparr>
                  in if l > u then Inl (JERR_DAC_VALUE val) else get_dac_loop len1 d3))
      else if len \<noteq> 0 then Inl JERR_BAD_LENGTH
      else Inr d)"
  by pat_completeness auto
termination
  by (relation "measure (\<lambda>(len, d). nat len)") auto

declare get_dac_loop.simps [simp del]

definition get_dac :: "decompress \<Rightarrow> decompress result" where
  "get_dac d = (let (len, d1) = input_2bytes d in get_dac_loop (int len - 2) d1)"

text \<open>\<open>*htblptr = jpeg_alloc_huff_table\<close> if null, then the two copies; \<open>sent_table\<close> is kept.\<close>

definition set_huff_tbl :: "nat list \<Rightarrow> nat list \<Rightarrow> huff_tbl option \<Rightarrow> huff_tbl" where
  "set_huff_tbl bs vs p =
     \<lparr>bits = bs, huffval = vs, h_sent_table = (case p of None \<Rightarrow> False | Some t \<Rightarrow> h_sent_table t)\<rparr>"

function get_dht_loop :: "int \<Rightarrow> decompress \<Rightarrow> decompress result" where
  "get_dht_loop len d =
     (if len > 16 then
        (let (index, d1) = input_byte d;
             (counts, d2) = input_bytes 16 d1;
             count = sum_list counts;
             len1 = len - (1 + 16)
         in if count > 256 \<or> int count > len1 then Inl JERR_BAD_HUFF_TABLE
            else
              (let (vals, d3) = input_bytes count d2;
                   bs = 0 # counts;
                   vs = vals @ replicate (256 - count) 0;
                   len2 = len1 - int count
               in if index AND 0x10 \<noteq> 0 then
                    (let ix = index - 0x10
                     in if ix \<ge> NUM_HUFF_TBLS then Inl (JERR_DHT_INDEX ix)
                        else get_dht_loop len2 (d3\<lparr>d_ac_huff_tbl_ptrs :=
                          (d_ac_huff_tbl_ptrs d3)[ix := Some (set_huff_tbl bs vs (d_ac_huff_tbl_ptrs d3 ! ix))]\<rparr>))
                  else
                    (if index \<ge> NUM_HUFF_TBLS then Inl (JERR_DHT_INDEX index)
                     else get_dht_loop len2 (d3\<lparr>d_dc_huff_tbl_ptrs :=
                       (d_dc_huff_tbl_ptrs d3)[index := Some (set_huff_tbl bs vs (d_dc_huff_tbl_ptrs d3 ! index))]\<rparr>))))
      else if len \<noteq> 0 then Inl JERR_BAD_LENGTH
      else Inr d)"
  by pat_completeness auto
termination
  by (relation "measure (\<lambda>(len, d). nat len)") auto

declare get_dht_loop.simps [simp del]

definition get_dht :: "decompress \<Rightarrow> decompress result" where
  "get_dht d = (let (len, d1) = input_2bytes d in get_dht_loop (int len - 2) d1)"

text \<open>The number of entries that follow, and the table before reading them.\<close>

definition dqt_count :: "nat \<Rightarrow> int \<Rightarrow> nat" where
  "dqt_count prec len =
     (if prec \<noteq> 0 then (if len < int (DCTSIZE2 * 2) then nat (len div 2) else DCTSIZE2)
      else (if len < int DCTSIZE2 then nat len else DCTSIZE2))"

definition dqt_start :: "nat \<Rightarrow> int \<Rightarrow> nat list \<Rightarrow> nat list" where
  "dqt_start prec len q =
     (if len < (if prec \<noteq> 0 then int (DCTSIZE2 * 2) else int DCTSIZE2) then replicate DCTSIZE2 1 else q)"

definition dqt_order :: "nat \<Rightarrow> nat list" where
  "dqt_order count =
     (if count = 2 * 2 then jpeg_natural_order2 else if count = 3 * 3 then jpeg_natural_order3
      else if count = 4 * 4 then jpeg_natural_order4 else if count = 5 * 5 then jpeg_natural_order5
      else if count = 6 * 6 then jpeg_natural_order6 else if count = 7 * 7 then jpeg_natural_order7
      else jpeg_natural_order)"

fun read_quantvals :: "nat \<Rightarrow> nat list \<Rightarrow> nat list \<Rightarrow> decompress \<Rightarrow> nat list \<times> decompress" where
  "read_quantvals prec [] q d = (q, d)"
| "read_quantvals prec (k # ks) q d =
     (let (tmp, d1) = (if prec \<noteq> 0 then input_2bytes d else input_byte d)
      in read_quantvals prec ks (q[k := tmp]) d1)"

text \<open>A new table comes from \<open>jpeg_alloc_quant_table\<close> with unset entries, written here as 0.\<close>

definition old_quantval :: "quant_tbl option \<Rightarrow> nat list" where
  "old_quantval p = (case p of None \<Rightarrow> replicate DCTSIZE2 0 | Some t \<Rightarrow> quantval t)"

definition set_quantval :: "nat list \<Rightarrow> quant_tbl option \<Rightarrow> quant_tbl" where
  "set_quantval q p = \<lparr>quantval = q, q_sent_table = (case p of None \<Rightarrow> False | Some t \<Rightarrow> q_sent_table t)\<rparr>"

function get_dqt_loop :: "int \<Rightarrow> decompress \<Rightarrow> decompress result" where
  "get_dqt_loop len d =
     (if len > 0 then
        (let len1 = len - 1;
             (b, d1) = input_byte d;
             prec = drop_bit 4 b;
             n = b AND 0x0F
         in if n \<ge> NUM_QUANT_TBLS then Inl (JERR_DQT_INDEX n)
            else
              (let p = d_quant_tbl_ptrs d1 ! n;
                   count = dqt_count prec len1;
                   (q, d2) = read_quantvals prec (take count (dqt_order count)) (dqt_start prec len1 (old_quantval p)) d1
               in get_dqt_loop (if prec \<noteq> 0 then len1 - int count - int count else len1 - int count)
                    (d2\<lparr>d_quant_tbl_ptrs := (d_quant_tbl_ptrs d2)[n := Some (set_quantval q p)]\<rparr>)))
      else if len \<noteq> 0 then Inl JERR_BAD_LENGTH
      else Inr d)"
  by pat_completeness auto
termination
  by (relation "measure (\<lambda>(len, d). nat len)") auto

declare get_dqt_loop.simps [simp del]

definition get_dqt :: "decompress \<Rightarrow> decompress result" where
  "get_dqt d = (let (len, d1) = input_2bytes d in get_dqt_loop (int len - 2) d1)"

definition get_dri :: "decompress \<Rightarrow> decompress result" where
  "get_dri d =
     (let (len, d1) = input_2bytes d
      in if len \<noteq> 4 then Inl JERR_BAD_LENGTH
         else (let (tmp, d2) = input_2bytes d1 in Inr (d2\<lparr>d_restart_interval := tmp\<rparr>)))"

text \<open>The 22 bytes a transform the decoder can handle consists of.\<close>

definition lse_bytes :: "component list \<Rightarrow> nat list" where
  "lse_bytes comps =
     [MAXJSAMPLE div 256, MAXJSAMPLE mod 256, 3, component_id (comps ! 1), component_id (comps ! 0),
      component_id (comps ! 2), 0x80, 0, 0, 0, 0, 0, 0, 1, 0, 0, 0, 0, 1, 0, 0]"

definition get_lse :: "decompress \<Rightarrow> decompress result" where
  "get_lse d =
     (if \<not> saw_SOF d then Inl JERR_SOF_BEFORE
      else if num_components d < 3 then Inl JERR_CONVERSION_NOTIMPL
      else (let (len, d1) = input_2bytes d
            in if len \<noteq> 24 then Inl JERR_BAD_LENGTH
               else (let (ident, d2) = input_byte d1
                     in if ident \<noteq> 0x0D then Inl (JERR_UNKNOWN_MARKER (unread_marker d2))
                        else (let (bs, d3) = input_bytes 21 d2
                              in if bs \<noteq> lse_bytes (d_comp_info d3) then Inl JERR_CONVERSION_NOTIMPL
                                 else Inr (d3\<lparr>d_color_transform := JCT_SUBTRACT_GREEN\<rparr>)))))"

section \<open>Application markers\<close>

definition APP0_DATA_LEN :: nat where "APP0_DATA_LEN = 14"
definition APP14_DATA_LEN :: nat where "APP14_DATA_LEN = 12"
definition APPN_DATA_LEN :: nat where "APPN_DATA_LEN = 14"

definition examine_app0 :: "nat list \<Rightarrow> decompress \<Rightarrow> decompress" where
  "examine_app0 data d =
     (if length data \<ge> APP0_DATA_LEN \<and> take 5 data = [0x4A, 0x46, 0x49, 0x46, 0]
      then d\<lparr>saw_JFIF_marker := True, d_JFIF_major_version := data ! 5, d_JFIF_minor_version := data ! 6,
             d_density_unit := data ! 7, d_X_density := push_bit 8 (data ! 8) + data ! 9,
             d_Y_density := push_bit 8 (data ! 10) + data ! 11\<rparr>
      else d)"

definition examine_app14 :: "nat list \<Rightarrow> decompress \<Rightarrow> decompress" where
  "examine_app14 data d =
     (if length data \<ge> APP14_DATA_LEN \<and> take 5 data = [0x41, 0x64, 0x6F, 0x62, 0x65]
      then d\<lparr>saw_Adobe_marker := True, Adobe_transform := data ! 11\<rparr>
      else d)"

definition get_interesting_appn :: "decompress \<Rightarrow> decompress result" where
  "get_interesting_appn d =
     (let (len, d1) = input_2bytes d;
          len1 = int len - 2;
          numtoread = (if len1 \<ge> int APPN_DATA_LEN then APPN_DATA_LEN else if len1 > 0 then nat len1 else 0);
          (b, d2) = input_bytes numtoread d1;
          len2 = len1 - int numtoread
      in if unread_marker d2 = code M_APP0 then Inr (skip_bytes len2 (examine_app0 b d2))
         else if unread_marker d2 = code M_APP14 then Inr (skip_bytes len2 (examine_app14 b d2))
         else Inl (JERR_UNKNOWN_MARKER (unread_marker d2)))"

definition save_marker :: "decompress \<Rightarrow> decompress result" where
  "save_marker d =
     (let (len, d1) = input_2bytes d;
          len1 = int len - 2
      in if len1 \<ge> 0
         then (let limit0 = (if unread_marker d1 = code M_COM then length_limit_COM d1
                             else length_limit_APPn d1 ! (unread_marker d1 - code M_APP0));
                   limit = (if nat len1 < limit0 then nat len1 else limit0);
                   (data, d2) = input_bytes limit d1;
                   d3 = d2\<lparr>marker_list := marker_list d2 @
                     [\<lparr>saved_code = unread_marker d2, original_length = nat len1, saved_data = data\<rparr>]\<rparr>;
                   d4 = (if unread_marker d3 = code M_APP0 then examine_app0 data d3
                         else if unread_marker d3 = code M_APP14 then examine_app14 data d3 else d3)
               in Inr (skip_bytes (len1 - int limit) d4))
         else Inr (if unread_marker d1 = code M_APP0 then examine_app0 [] d1
                   else if unread_marker d1 = code M_APP14 then examine_app14 [] d1 else d1))"

definition skip_variable :: "decompress \<Rightarrow> decompress result" where
  "skip_variable d = (let (len, d1) = input_2bytes d in Inr (skip_bytes (int len - 2) d1))"

definition run_processor :: "marker_processor \<Rightarrow> decompress \<Rightarrow> decompress result" where
  "run_processor p d =
     (case p of Skip_Variable \<Rightarrow> skip_variable d | Get_Interesting_Appn \<Rightarrow> get_interesting_appn d
      | Save_Marker \<Rightarrow> save_marker d)"

section \<open>Finding markers\<close>

text \<open>
  The nested loops of \<open>next_marker\<close> as one machine: \<open>False\<close> while looking for an FF byte, \<open>True\<close>
  behind one.  When the data is used up the source supplies FF D9.
\<close>

fun scan_marker :: "bool \<Rightarrow> nat \<Rightarrow> byte list \<Rightarrow> nat \<times> nat \<times> byte list" where
  "scan_marker ff discarded [] = (0xD9, discarded, [])"
| "scan_marker False discarded (b # bs) =
     (if b = 0xFF then scan_marker True discarded bs else scan_marker False (discarded + 1) bs)"
| "scan_marker True discarded (b # bs) =
     (if b = 0xFF then scan_marker True discarded bs
      else if b = 0 then scan_marker False (discarded + 2) bs
      else (unat b, discarded, bs))"

definition next_marker :: "decompress \<Rightarrow> decompress" where
  "next_marker d =
     (let (c, discarded, rest) = scan_marker False (discarded_bytes d) (input d)
      in d\<lparr>input := rest, discarded_bytes := 0, unread_marker := c\<rparr>)"

definition first_marker :: "decompress \<Rightarrow> decompress result" where
  "first_marker d =
     (let (c, d1) = input_byte d; (c2, d2) = input_byte d1
      in if c \<noteq> 0xFF \<or> c2 \<noteq> code M_SOI then Inl (JERR_NO_SOI c c2)
         else Inr (d2\<lparr>unread_marker := c2\<rparr>))"

datatype read_status = JPEG_REACHED_SOS | JPEG_REACHED_EOI

text \<open>The \<open>switch\<close>: \<open>Inl\<close> inside the result ends the loop, \<open>Inr\<close> goes on.\<close>

definition process_marker :: "decompress \<Rightarrow> ((read_status \<times> decompress) + decompress) result" where
  "process_marker d =
     (let m = unread_marker d;
          go = (\<lambda>r. bind_err r (\<lambda>d1. Inr (Inr (d1\<lparr>unread_marker := 0\<rparr>))))
      in if m = code M_SOI then go (get_soi d)
         else if m = code M_SOF0 then go (get_sof True False False d)
         else if m = code M_SOF1 then go (get_sof False False False d)
         else if m = code M_SOF2 then go (get_sof False True False d)
         else if m = code M_SOF9 then go (get_sof False False True d)
         else if m = code M_SOF10 then go (get_sof False True True d)
         else if m \<in> set (map code [M_SOF3, M_SOF5, M_SOF6, M_SOF7, M_JPG, M_SOF11, M_SOF13, M_SOF14, M_SOF15])
         then Inl (JERR_SOF_UNSUPPORTED m)
         else if m = code M_SOS
         then bind_err (get_sos d) (\<lambda>d1. Inr (Inl (JPEG_REACHED_SOS, d1\<lparr>unread_marker := 0\<rparr>)))
         else if m = code M_EOI then Inr (Inl (JPEG_REACHED_EOI, d\<lparr>unread_marker := 0\<rparr>))
         else if m = code M_DAC then go (get_dac d)
         else if m = code M_DHT then go (get_dht d)
         else if m = code M_DQT then go (get_dqt d)
         else if m = code M_DRI then go (get_dri d)
         else if m = code M_JPG8 then go (get_lse d)
         else if code M_APP0 \<le> m \<and> m \<le> code M_APP15
         then go (run_processor (process_APPn d ! (m - code M_APP0)) d)
         else if m = code M_COM then go (run_processor (process_COM d) d)
         else if (code M_RST0 \<le> m \<and> m \<le> code M_RST7) \<or> m = code M_TEM then go (Inr d)
         else if m = code M_DNL then go (skip_variable d)
         else Inl (JERR_UNKNOWN_MARKER m))"

definition fetch_marker :: "decompress \<Rightarrow> decompress result" where
  "fetch_marker d =
     (if unread_marker d = 0
      then (if \<not> saw_SOI d then first_marker d else Inr (next_marker d))
      else Inr d)"

partial_function (option) read_markers :: "decompress \<Rightarrow> (read_status \<times> decompress) result option" where
  "read_markers d =
     (case bind_err (fetch_marker d) process_marker of
        Inl e \<Rightarrow> Some (Inl e)
      | Inr (Inl r) \<Rightarrow> Some (Inr r)
      | Inr (Inr d1) \<Rightarrow> read_markers d1)"

section \<open>Restart markers\<close>

definition resync_action :: "nat \<Rightarrow> nat \<Rightarrow> nat" where
  "resync_action marker desired =
     (if marker < code M_SOF0 then 2
      else if marker < code M_RST0 \<or> marker > code M_RST7 then 3
      else if marker = code M_RST0 + ((desired + 1) AND 7) \<or> marker = code M_RST0 + ((desired + 2) AND 7) then 3
      else if marker = code M_RST0 + nat ((int desired - 1) AND 7) \<or> marker = code M_RST0 + nat ((int desired - 2) AND 7)
      then 2
      else 1)"

lemma scan_marker_shorter:
  "scan_marker ff n bs = (c, n', rest) \<Longrightarrow> c \<noteq> 0xD9 \<Longrightarrow> length rest < length bs"
  by (induction ff n bs rule: scan_marker.induct) (force split: if_splits)+

lemma next_marker_shorter:
  "unread_marker (next_marker d) \<noteq> 0xD9 \<Longrightarrow> length (input (next_marker d)) < length (input d)"
  using scan_marker_shorter [of False "discarded_bytes d" "input d"]
  by (auto simp: next_marker_def split: prod.splits)

function resync_loop :: "nat \<Rightarrow> nat \<Rightarrow> decompress \<Rightarrow> decompress" where
  "resync_loop marker desired d =
     (let action = resync_action marker desired
      in if action = 1 then d\<lparr>unread_marker := 0\<rparr>
         else if action = 2 then (let d1 = next_marker d in resync_loop (unread_marker d1) desired d1)
         else d)"
  by pat_completeness auto
termination
proof (relation "measure (\<lambda>(marker, desired, d). if resync_action marker desired = 2 then Suc (length (input d)) else 0)",
    goal_cases)
  case 1
  then show ?case by simp
next
  case (2 marker desired d action d1)
  have "resync_action 0xD9 desired = 3" by (simp add: resync_action_def)
  then show ?case using 2 next_marker_shorter [of d] by (cases "unread_marker d1 = 0xD9") auto
qed

declare resync_loop.simps [simp del]

definition jpeg_resync_to_restart :: "nat \<Rightarrow> decompress \<Rightarrow> decompress" where
  "jpeg_resync_to_restart desired d = resync_loop (unread_marker d) desired d"

definition read_restart_marker :: "decompress \<Rightarrow> decompress" where
  "read_restart_marker d =
     (let d1 = (if unread_marker d = 0 then next_marker d else d);
          d2 = (if unread_marker d1 = code M_RST0 + next_restart_num d1 then d1\<lparr>unread_marker := 0\<rparr>
                else jpeg_resync_to_restart (next_restart_num d1) d1)
      in d2\<lparr>next_restart_num := (next_restart_num d2 + 1) AND 7\<rparr>)"

section \<open>Set-up\<close>

definition reset_marker_reader :: "decompress \<Rightarrow> decompress" where
  "reset_marker_reader d =
     d\<lparr>d_comp_info := [], input_scan_number := 0, unread_marker := 0, saw_SOI := False,
       saw_SOF := False, discarded_bytes := 0\<rparr>"

definition jinit_marker_reader :: "decompress \<Rightarrow> decompress" where
  "jinit_marker_reader d =
     reset_marker_reader (d\<lparr>process_COM := Skip_Variable, length_limit_COM := 0,
       process_APPn := (replicate 16 Skip_Variable)[0 := Get_Interesting_Appn, 14 := Get_Interesting_Appn],
       length_limit_APPn := replicate 16 0\<rparr>)"

definition jpeg_save_markers :: "nat \<Rightarrow> nat \<Rightarrow> nat \<Rightarrow> decompress \<Rightarrow> decompress result" where
  "jpeg_save_markers maxlength marker_code length_limit d =
     (let limit0 = (if length_limit > maxlength then maxlength else length_limit);
          (processor, limit) =
            (if limit0 \<noteq> 0
             then (Save_Marker,
                   if marker_code = code M_APP0 \<and> limit0 < APP0_DATA_LEN then APP0_DATA_LEN
                   else if marker_code = code M_APP14 \<and> limit0 < APP14_DATA_LEN then APP14_DATA_LEN
                   else limit0)
             else (if marker_code = code M_APP0 \<or> marker_code = code M_APP14 then Get_Interesting_Appn
                   else Skip_Variable, limit0))
      in if marker_code = code M_COM then Inr (d\<lparr>process_COM := processor, length_limit_COM := limit\<rparr>)
         else if code M_APP0 \<le> marker_code \<and> marker_code \<le> code M_APP15
         then Inr (d\<lparr>process_APPn := (process_APPn d)[marker_code - code M_APP0 := processor],
                     length_limit_APPn := (length_limit_APPn d)[marker_code - code M_APP0 := limit]\<rparr>)
         else Inl (JERR_UNKNOWN_MARKER marker_code))"

text \<open>One of the library's own processors; an application's routine is outside the repository.\<close>

definition jpeg_set_marker_processor :: "nat \<Rightarrow> marker_processor \<Rightarrow> decompress \<Rightarrow> decompress result" where
  "jpeg_set_marker_processor marker_code routine d =
     (if marker_code = code M_COM then Inr (d\<lparr>process_COM := routine\<rparr>)
      else if code M_APP0 \<le> marker_code \<and> marker_code \<le> code M_APP15
      then Inr (d\<lparr>process_APPn := (process_APPn d)[marker_code - code M_APP0 := routine]\<rparr>)
      else Inl (JERR_UNKNOWN_MARKER marker_code))"

text \<open>A reader as the library creates it, for examples.\<close>

definition blank_decompress :: decompress where
  "blank_decompress = jinit_marker_reader
     \<lparr>input = [], unread_marker = 0, saw_SOI = False, saw_SOF = False, discarded_bytes = 0, next_restart_num = 0,
      is_baseline = False, d_progressive_mode = False, d_arith_code = False, d_data_precision = 0,
      image_height = 0, image_width = 0, num_components = 0, d_comp_info = [],
      d_quant_tbl_ptrs = replicate 4 None, d_dc_huff_tbl_ptrs = replicate 4 None, d_ac_huff_tbl_ptrs = replicate 4 None,
      d_arith_dc_L = replicate 16 0, d_arith_dc_U = replicate 16 0, d_arith_ac_K = replicate 16 0,
      d_restart_interval = 0, d_cur_comp_info = [], d_Ss = 0, d_Se = 0, d_Ah = 0, d_Al = 0, input_scan_number = 0,
      d_jpeg_color_space = JCS_UNKNOWN, d_color_transform = JCT_NONE, CCIR601_sampling = False,
      saw_JFIF_marker = False, d_JFIF_major_version = 0, d_JFIF_minor_version = 0, d_density_unit = 0,
      d_X_density = 0, d_Y_density = 0, saw_Adobe_marker = False, Adobe_transform = 0,
      process_COM = Skip_Variable, process_APPn = replicate 16 Skip_Variable, length_limit_COM = 0,
      length_limit_APPn = replicate 16 0, marker_list = []\<rparr>"

end
