(* ===== verification/JpegMarkers.thy ===== *)
theory JpegMarkers
  imports JpegWriter JpegReader
begin

text \<open>
  What the marker writer writes, the marker reader reads back: round trips of the segments, of a
  whole table stream, and the behaviour of the reader on arbitrary data.
\<close>

section \<open>Reading what was written\<close>

definition byte_list :: "nat list \<Rightarrow> bool" where
  "byte_list vs \<longleftrightarrow> (\<forall>v\<in>set vs. v < 256)"

lemma byte_list_simps [simp]:
  "byte_list []" "byte_list (v # vs) \<longleftrightarrow> v < 256 \<and> byte_list vs"
  "byte_list (vs @ ws) \<longleftrightarrow> byte_list vs \<and> byte_list ws"
  by (auto simp: byte_list_def)

named_theorems input_simps \<open>reading from a known prefix\<close>

text \<open>\<open>feeds d vs rest\<close>: the reader in front of the bytes \<open>vs\<close>, then \<open>rest\<close>.\<close>

definition feeds :: "decompress \<Rightarrow> nat list \<Rightarrow> byte list \<Rightarrow> decompress" where
  "feeds d vs rest = d\<lparr>input := map of_nat vs @ rest\<rparr>"

lemma input_byte_feeds [input_simps]:
  "v < 256 \<Longrightarrow> input_byte (feeds d (v # vs) rest) = (v, feeds d vs rest)"
  by (simp add: feeds_def input_byte_def unat_of_nat)

lemma input_2bytes_feeds [input_simps]:
  assumes "v < 256" "w < 256"
  shows "input_2bytes (feeds d (v # w # vs) rest) = (256 * v + w, feeds d vs rest)"
  using assms by (simp add: input_2bytes_def input_simps push_bit_eq_mult)

lemma input_2bytes_split [input_simps]:
  assumes "n < 65536"
  shows "input_2bytes (feeds d ((n div 256) # (n mod 256) # vs) rest) = (n, feeds d vs rest)"
proof -
  have "n div 256 < 256" using assms by (simp add: less_mult_imp_div_less)
  then show ?thesis by (simp add: input_2bytes_feeds)
qed

lemma input_2bytes_split_mod [input_simps]:
  assumes "n < 65536"
  shows "input_2bytes (feeds d ((n div 256 mod 256) # (n mod 256) # vs) rest) = (n, feeds d vs rest)"
proof -
  have "n div 256 mod 256 = n div 256" using assms by (simp add: less_mult_imp_div_less)
  then show ?thesis using input_2bytes_split [OF assms, of d vs rest] by simp
qed

lemma input_bytes_feeds [input_simps]:
  "byte_list vs \<Longrightarrow> input_bytes (length vs) (feeds d (vs @ ws) rest) = (vs, feeds d ws rest)"
  by (induction vs) (simp_all add: input_simps)

lemma input_bytes_feeds_all [input_simps]:
  "byte_list vs \<Longrightarrow> n = length vs \<Longrightarrow> input_bytes n (feeds d vs rest) = (vs, feeds d [] rest)"
  using input_bytes_feeds [of vs d "[]" rest] by simp

lemma feeds_Nil: "feeds d [] rest = d\<lparr>input := rest\<rparr>"
  by (simp add: feeds_def)

lemma feeds_fields [simp]:
  "d_quant_tbl_ptrs (feeds d vs rest) = d_quant_tbl_ptrs d"
  "d_dc_huff_tbl_ptrs (feeds d vs rest) = d_dc_huff_tbl_ptrs d"
  "d_ac_huff_tbl_ptrs (feeds d vs rest) = d_ac_huff_tbl_ptrs d"
  "saw_SOF (feeds d vs rest) = saw_SOF d" "saw_SOI (feeds d vs rest) = saw_SOI d"
  "d_comp_info (feeds d vs rest) = d_comp_info d" "num_components (feeds d vs rest) = num_components d"
  "d_progressive_mode (feeds d vs rest) = d_progressive_mode d"
  "unread_marker (feeds d vs rest) = unread_marker d" "input_scan_number (feeds d vs rest) = input_scan_number d"
  by (simp_all add: feeds_def)

section \<open>Quantisation tables\<close>

text \<open>Storing values at distinct positions.\<close>

fun put_all :: "nat list \<Rightarrow> nat list \<Rightarrow> nat list \<Rightarrow> nat list" where
  "put_all (k # ks) (v # vs) q = put_all ks vs (q[k := v])"
| "put_all ks vs q = q"

lemma put_all_length [simp]: "length (put_all ks vs q) = length q"
  by (induction ks vs q rule: put_all.induct) auto

lemma put_all_out: "k \<notin> set ks \<Longrightarrow> put_all ks vs q ! k = q ! k"
  by (induction ks vs q rule: put_all.induct) auto

lemma put_all_in:
  "distinct ks \<Longrightarrow> i < length ks \<Longrightarrow> length vs = length ks \<Longrightarrow> ks ! i < length q \<Longrightarrow> put_all ks vs q ! (ks ! i) = vs ! i"
proof (induction ks vs q arbitrary: i rule: put_all.induct)
  case (1 k ks v vs q)
  then show ?case by (cases i) (auto simp: put_all_out)
qed auto

lemma read_quantvals_feeds:
  assumes "length vs = length ks" "\<forall>v\<in>set vs. v < (if prec \<noteq> 0 then 65536 else 256)"
  shows "read_quantvals prec ks q (feeds d (concat (map (dqt_entry prec) vs) @ ws) rest)
    = (put_all ks vs q, feeds d ws rest)"
  using assms
proof (induction ks vs arbitrary: q rule: list_induct2')
  case (4 k ks v vs)
  show ?case
  proof (cases "prec = 0")
    case True
    then have "v mod 256 = v" "v < 256" using 4 by auto
    then show ?thesis using 4 True by (simp add: dqt_entry_def input_simps)
  next
    case False
    then have "v < 65536" using 4 by auto
    then show ?thesis using 4 False by (simp add: dqt_entry_def input_simps)
  qed
qed auto

text \<open>The table read for a written one: its corner entries, 1 for the others.\<close>

definition corner_table :: "nat \<Rightarrow> nat list \<Rightarrow> nat list" where
  "corner_table n q = map (\<lambda>k. if k div 8 < n \<and> k mod 8 < n then q ! k else 1) [0..<64]"

definition block_order :: "nat \<Rightarrow> compress \<Rightarrow> bool" where
  "block_order n c \<longleftrightarrow> 1 \<le> n \<and> n \<le> 8 \<and> lim_Se c = n * n - 1 \<and> natural_order c = natural_order_of n"

lemma corner_positions:
  assumes "1 \<le> n" "n \<le> 8"
  shows "distinct (take (n * n) (natural_order_of n))"
    "set (take (n * n) (natural_order_of n)) = {8 * r + c |r c. r < n \<and> c < n}"
    "n * n \<le> length (natural_order_of n)"
proof -
  have len: "length (zigzag_walk n k rc) = k" for k rc
    by (induction n k rc rule: zigzag_walk.induct) auto
  have "distinct (take (n * n) (natural_order_of n)) \<and>
    set (take (n * n) (natural_order_of n)) = {8 * r + c |r c. r < n \<and> c < n} \<and> n * n \<le> length (natural_order_of n)"
  proof (cases "n = 1")
    case True
    then show ?thesis by (simp add: natural_order_of_def natural_orders)
  next
    case False
    then have n: "2 \<le> n" using assms(1) by simp
    show ?thesis
      using natural_order_walk [OF n assms(2)] walk_square [OF n assms(2)] len [of "n * n" "(0, 0)"]
      by (simp add: set_square)
  qed
  then show "distinct (take (n * n) (natural_order_of n))"
    "set (take (n * n) (natural_order_of n)) = {8 * r + c |r c. r < n \<and> c < n}"
    "n * n \<le> length (natural_order_of n)" by auto
qed

definition quant_ok :: "nat list \<Rightarrow> bool" where
  "quant_ok q \<longleftrightarrow> length q = 64 \<and> (\<forall>v\<in>set q. v < 65536)"

definition tables_ok :: "decompress \<Rightarrow> bool" where
  "tables_ok d \<longleftrightarrow> length (d_quant_tbl_ptrs d) = 4 \<and> length (d_dc_huff_tbl_ptrs d) = 4 \<and>
     length (d_ac_huff_tbl_ptrs d) = 4 \<and> (\<forall>t. Some t \<in> set (d_quant_tbl_ptrs d) \<longrightarrow> length (quantval t) = 64)"

lemma corner_code: "((k :: nat) < 64 \<and> k div 8 < n \<and> k mod 8 < n) = (\<exists>r c. k = 8 * r + c \<and> r < n \<and> c < n)" if "n \<le> 8"
proof
  assume "k < 64 \<and> k div 8 < n \<and> k mod 8 < n"
  then show "\<exists>r c. k = 8 * r + c \<and> r < n \<and> c < n" by (intro exI [of _ "k div 8"] exI [of _ "k mod 8"]) simp
next
  assume "\<exists>r c. k = 8 * r + c \<and> r < n \<and> c < n"
  then obtain r c where "k = 8 * r + c" "r < n" "c < n" by blast
  then show "k < 64 \<and> k div 8 < n \<and> k mod 8 < n" using that by auto
qed

lemma put_all_corner:
  assumes "1 \<le> n" "n \<le> 8" "length q = 64" "length start = 64" "n < 8 \<Longrightarrow> start = replicate 64 1"
  defines "ks \<equiv> take (n * n) (natural_order_of n)"
  shows "put_all ks (map (\<lambda>k. q ! k) ks) start = corner_table n q"
proof (rule nth_equalityI)
  note cp = corner_positions [OF assms(1,2), folded ks_def]
  fix k assume "k < length (put_all ks (map (\<lambda>k. q ! k) ks) start)"
  then have k: "k < 64" using assms(4) by simp
  have mem: "(k \<in> set ks) = (k div 8 < n \<and> k mod 8 < n)"
    using corner_code [OF assms(2), of k] k unfolding cp(2) by auto
  show "put_all ks (map (\<lambda>k. q ! k) ks) start ! k = corner_table n q ! k"
  proof (cases "k \<in> set ks")
    case True
    then obtain i where i: "i < length ks" "ks ! i = k" by (auto simp: in_set_conv_nth)
    then have "put_all ks (map (\<lambda>k. q ! k) ks) start ! k = q ! k"
      using put_all_in [OF cp(1) i(1), of "map (\<lambda>k. q ! k) ks" start] k assms(4) by simp
    then show ?thesis using True mem k by (simp add: corner_table_def)
  next
    case False
    have "n < 8"
    proof (rule ccontr)
      assume "\<not> n < 8"
      then have "k div 8 < n \<and> k mod 8 < n" using k assms(2) by auto
      then show False using False mem by simp
    qed
    then show ?thesis using False mem k assms(5) by (auto simp: put_all_out corner_table_def)
  qed
qed (use assms(4) in \<open>simp add: corner_table_def\<close>)

lemma dqt_values:
  assumes "block_order n c"
  shows "map (\<lambda>i. q ! (natural_order c ! i)) [0..<lim_Se c + 1] = map (\<lambda>k. q ! k) (take (n * n) (natural_order_of n))"
proof -
  have "1 \<le> n * n" using assms by (simp add: block_order_def)
  then have "lim_Se c + 1 = n * n" using assms by (simp add: block_order_def)
  moreover have "n * n \<le> length (natural_order_of n)" using corner_positions(3) assms by (simp add: block_order_def)
  ultimately show ?thesis
    using assms by (intro nth_equalityI) (simp_all add: block_order_def del: upt_Suc)
qed

lemma dqt_entries_length: "length (concat (map (dqt_entry prec) vs)) = (if prec \<noteq> 0 then 2 else 1) * length vs"
  by (induction vs) (simp_all add: dqt_entry_def)

lemma square_cases: "1 \<le> n \<Longrightarrow> n \<le> 8 \<Longrightarrow> n = 1 \<or> n = 2 \<or> n = 3 \<or> n = 4 \<or> n = 5 \<or> n = 6 \<or> n = 7 \<or> n = (8 :: nat)"
  by presburger

lemma dqt_order_square:
  assumes "1 \<le> n" "n \<le> 8"
  shows "dqt_order (n * n) = natural_order_of n"
  using square_cases [OF assms] by (elim disjE) (simp_all add: dqt_order_def natural_order_of_def)

lemma dqt_count_square:
  assumes "1 \<le> n" "n \<le> 8" "prec \<le> 1"
  shows "dqt_count prec (int ((if prec \<noteq> 0 then 2 else 1) * (n * n))) = n * n"
    "dqt_start prec (int ((if prec \<noteq> 0 then 2 else 1) * (n * n))) q = (if n < 8 then replicate 64 1 else q)"
  using square_cases [OF assms(1,2)] assms(3)
  by (elim disjE; simp add: dqt_count_def dqt_start_def DCTSIZE2_def; fail)+

lemma get_dqt_payload:
  assumes "block_order n c" "index < 4" "quant_ok (quantval qtbl)" "tables_ok d"
  defines "p \<equiv> dqt_payload index qtbl c"
  shows "get_dqt (feeds d ([(length p + 2) div 256 mod 256, (length p + 2) mod 256] @ p) rest) =
    Inr ((feeds d [] rest)\<lparr>d_quant_tbl_ptrs := (d_quant_tbl_ptrs d)
      [index := Some (set_quantval (corner_table n (quantval qtbl)) (d_quant_tbl_ptrs d ! index))]\<rparr>)"
proof -
  let ?prec = "dqt_prec qtbl c" and ?ks = "take (n * n) (natural_order_of n)" and ?q = "quantval qtbl"
  let ?vs = "map (\<lambda>k. ?q ! k) ?ks" and ?old = "d_quant_tbl_ptrs d ! index"
  let ?m = "(if ?prec \<noteq> 0 then 2 else 1) * (n * n)"
  have n: "1 \<le> n" "n \<le> 8" using assms(1) by (simp_all add: block_order_def)
  have prec: "?prec \<le> 1" by (simp add: dqt_prec_def)
  have lks: "length ?ks = n * n" using corner_positions(3) [OF n] by simp
  have p: "p = (index + 16 * ?prec) # concat (map (dqt_entry ?prec) ?vs)"
    unfolding p_def dqt_payload_def dqt_values [OF assms(1), symmetric] by (simp add: comp_def del: upt_Suc)
  have lp: "length p = ?m + 1" unfolding p by (simp only: list.size dqt_entries_length length_map lks)
  have nn: "n * n \<le> 64" using mult_le_mono [OF n(2) n(2)] by simp
  have "k < 64" if "k \<in> set ?ks" for k
    using that corner_code [OF n(2), of k] unfolding corner_positions(2) [OF n] by auto
  then have q16: "\<forall>v\<in>set ?vs. v < 65536" using assms(3) by (auto simp: quant_ok_def)
  moreover have "\<forall>v\<in>set ?vs. v < 256" if "?prec = 0"
  proof -
    have "\<forall>v\<in>set (map (\<lambda>i. ?q ! (natural_order c ! i)) [0..<lim_Se c + 1]). v \<le> 255"
      using that by (auto simp: dqt_prec_def not_less split: if_splits)
    then show ?thesis unfolding dqt_values [OF assms(1)] by auto
  qed
  ultimately have "\<forall>v\<in>set ?vs. v < (if ?prec \<noteq> 0 then 65536 else 256)" by simp
  then have rq: "read_quantvals ?prec ?ks s (feeds d (concat (map (dqt_entry ?prec) ?vs)) rest)
      = (put_all ?ks ?vs s, feeds d [] rest)" for s
    using read_quantvals_feeds [of ?vs ?ks ?prec s d "[]" rest] by simp
  have old: "length (old_quantval ?old) = 64"
    using assms(2,4)
    by (auto simp: old_quantval_def tables_ok_def DCTSIZE2_def split: option.splits) (metis nth_mem)
  have put: "put_all ?ks ?vs (dqt_start ?prec (int ?m) (old_quantval ?old)) = corner_table n ?q"
    using old assms(3) n dqt_count_square(2) [OF n prec] by (intro put_all_corner) (auto simp: quant_ok_def)
  have b: "drop_bit 4 (index + 16 * ?prec) = ?prec" "(index + 16 * ?prec) AND 15 = index"
    using assms(2) by (simp_all add: drop_bit_eq_div AND_15)
  have "get_dqt_loop (int ?m + 1) (feeds d p rest) = get_dqt_loop 0 ((feeds d [] rest)\<lparr>d_quant_tbl_ptrs :=
      (d_quant_tbl_ptrs d)[index := Some (set_quantval (corner_table n ?q) ?old)]\<rparr>)"
  proof -
    have "index + 16 * ?prec < 256" using assms(2) prec by simp
    then have ib: "input_byte (feeds d p rest) = (index + 16 * ?prec, feeds d (concat (map (dqt_entry ?prec) ?vs)) rest)"
      unfolding p by (rule input_byte_feeds)
    have "(if ?prec \<noteq> 0 then int ?m - int (n * n) - int (n * n) else int ?m - int (n * n)) = 0" by simp
    then show ?thesis
      using assms(2) dqt_count_square(1) [OF n prec]
      by (subst get_dqt_loop.simps)
        (simp only: ib b Let_def prod.case dqt_order_square [OF n] feeds_fields rq put add_diff_cancel_right',
         simp add: NUM_QUANT_TBLS_def)
  qed
  also have "\<dots> = Inr ((feeds d [] rest)\<lparr>d_quant_tbl_ptrs :=
      (d_quant_tbl_ptrs d)[index := Some (set_quantval (corner_table n ?q) ?old)]\<rparr>)"
    by (simp add: get_dqt_loop.simps [of 0])
  finally have loop0: "get_dqt_loop (int ?m + 1) (feeds d p rest) = \<dots>" .
  have "int ?m + 1 = int (length p + 2) - 2" using lp by simp
  note loop = loop0 [unfolded this]
  have "length p + 2 < 65536" using lp nn by auto
  note in2 = input_2bytes_split_mod [OF this, of d p rest]
  show ?thesis unfolding get_dqt_def append.simps in2 Let_def prod.case by (rule loop)
qed

section \<open>Huffman tables\<close>

definition huff_ok :: "huff_tbl \<Rightarrow> bool" where
  "huff_ok t \<longleftrightarrow> length (bits t) = 17 \<and> length (huffval t) = 256 \<and> byte_list (bits t) \<and>
     byte_list (huffval t) \<and> dht_len t \<le> 256"

text \<open>The table read for a written one: \<open>bits[0]\<close> and the values past the count are 0.\<close>

definition sent_huff :: "huff_tbl \<Rightarrow> huff_tbl option \<Rightarrow> huff_tbl" where
  "sent_huff t p = set_huff_tbl (0 # tl (bits t)) (take (dht_len t) (huffval t) @ replicate (256 - dht_len t) 0) p"

definition put_huff :: "bool \<Rightarrow> nat \<Rightarrow> huff_tbl \<Rightarrow> decompress \<Rightarrow> decompress" where
  "put_huff is_ac i t d =
     (if is_ac then d\<lparr>d_ac_huff_tbl_ptrs := (d_ac_huff_tbl_ptrs d)[i := Some (sent_huff t (d_ac_huff_tbl_ptrs d ! i))]\<rparr>
      else d\<lparr>d_dc_huff_tbl_ptrs := (d_dc_huff_tbl_ptrs d)[i := Some (sent_huff t (d_dc_huff_tbl_ptrs d ! i))]\<rparr>)"

lemma bits_tail:
  assumes "length xs = 17"
  shows "map (\<lambda>i. xs ! i) [1..<17] = tl xs"
  using assms by (intro nth_equalityI) (simp_all add: nth_tl)

lemma dht_payload_ok:
  assumes "huff_ok t"
  shows "dht_payload ix t = ix # tl (bits t) @ take (dht_len t) (huffval t)" "sum_list (tl (bits t)) = dht_len t"
    "length (tl (bits t)) = 16" "byte_list (tl (bits t))" "byte_list (take (dht_len t) (huffval t))"
    "length (take (dht_len t) (huffval t)) = dht_len t"
proof -
  have b: "map (\<lambda>i. bits t ! i) [1..<17] = tl (bits t)" using assms by (simp only: bits_tail huff_ok_def)
  have "map (\<lambda>i. huffval t ! i) [0..<dht_len t] = take (dht_len t) (huffval t)"
    using assms by (intro nth_equalityI) (simp_all add: huff_ok_def)
  with b show "dht_payload ix t = ix # tl (bits t) @ take (dht_len t) (huffval t)" by (simp add: dht_payload_def del: upt_Suc)
  show "sum_list (tl (bits t)) = dht_len t" unfolding dht_len_def b ..
  show "length (tl (bits t)) = 16" "length (take (dht_len t) (huffval t)) = dht_len t"
    using assms by (simp_all add: huff_ok_def)
  show "byte_list (tl (bits t))" "byte_list (take (dht_len t) (huffval t))"
    using assms by (auto simp: huff_ok_def byte_list_def dest: in_set_takeD list.set_sel(2) [rotated])
qed

lemma AND_16_class:
  assumes "i < 4"
  shows "(i + 16) AND 16 \<noteq> (0 :: nat)" "i AND 16 = (0 :: nat)"
proof -
  have "i = 0 \<or> i = 1 \<or> i = 2 \<or> i = 3" using assms by presburger
  then show "(i + 16) AND 16 \<noteq> (0 :: nat)" "i AND 16 = (0 :: nat)" by auto
qed

lemma get_dht_payload:
  fixes is_ac :: bool
  assumes "index < 4" "huff_ok t" "tables_ok d"
  defines "p \<equiv> dht_payload (if is_ac then index + 16 else index) t"
  shows "get_dht (feeds d ([(length p + 2) div 256 mod 256, (length p + 2) mod 256] @ p) rest) =
    Inr (put_huff is_ac index t (feeds d [] rest))"
proof -
  note pay = dht_payload_ok [OF assms(2)]
  let ?ix = "if is_ac then index + 16 else index"
  let ?L = "dht_len t"
  have lp: "length p = 17 + ?L" unfolding p_def pay(1) by (simp add: pay(3,6) del: length_tl length_take)
  have L: "?L \<le> 256" using assms(2) by (simp add: huff_ok_def)
  have ib: "input_byte (feeds d p rest) = (?ix, feeds d (tl (bits t) @ take ?L (huffval t)) rest)"
    unfolding p_def pay(1) using assms(1) by (intro input_byte_feeds) simp
  have i16: "input_bytes 16 (feeds d (tl (bits t) @ take ?L (huffval t)) rest) = (tl (bits t), feeds d (take ?L (huffval t)) rest)"
    using input_bytes_feeds [OF pay(4), of d "take ?L (huffval t)" rest] pay(3) by simp
  have iv: "input_bytes ?L (feeds d (take ?L (huffval t)) rest) = (take ?L (huffval t), feeds d [] rest)"
    using input_bytes_feeds_all [OF pay(5), of ?L d rest] pay(6) by simp
  have "get_dht_loop (int (17 + ?L)) (feeds d p rest) = get_dht_loop 0 (put_huff is_ac index t (feeds d [] rest))"
    using assms(1) L AND_16_class [OF assms(1)]
    by (subst get_dht_loop.simps)
      (simp add: ib i16 iv pay(2) NUM_HUFF_TBLS_def put_huff_def sent_huff_def Let_def)
  also have "\<dots> = Inr (put_huff is_ac index t (feeds d [] rest))" by (simp add: get_dht_loop.simps [of 0])
  finally have loop0: "get_dht_loop (int (17 + ?L)) (feeds d p rest) = \<dots>" .
  have "int (17 + ?L) = int (length p + 2) - 2" using lp by simp
  note loop = loop0 [unfolded this]
  have "length p + 2 < 65536" using lp L by simp
  note in2 = input_2bytes_split_mod [OF this, of d p rest]
  show ?thesis unfolding get_dht_def append.simps in2 Let_def prod.case by (rule loop)
qed

section \<open>Segments one by one\<close>

lemma out_segment: "out (emits c (segment m len p)) = out c @ [0xFF, of_nat (code m)] @
    (map of_nat ([len div 256 mod 256, len mod 256] @ p) :: byte list)"
  by (simp add: segment_def)

lemma set_quant_tbl_out [simp]: "out (set_quant_tbl i t c) = out c"
  by (simp add: set_quant_tbl_def)

lemma mark_dht_sent_out [simp]: "out (mark_dht_sent b i t c) = out c"
  by (simp add: mark_dht_sent_def)

text \<open>Example tables.\<close>

definition some_quant :: quant_tbl where
  "some_quant = \<lparr>quantval = replicate 64 16, q_sent_table = False\<rparr>"

definition some_huff :: huff_tbl where
  "some_huff = \<lparr>bits = [0, 1, 2] @ replicate 14 0, huffval = [7, 0, 1] @ replicate 253 0, h_sent_table = False\<rparr>"

lemma some_tables_ok: "quant_ok (quantval some_quant)" "huff_ok some_huff" "dht_len some_huff = 3"
  by (simp_all add: quant_ok_def some_quant_def huff_ok_def some_huff_def byte_list_def dht_len_def upt_conv_Cons)

lemma replicate_4: "(replicate 4 x)[1 := y] = [x, y, x, x]" "(replicate 4 x)[2 := y] = [x, x, y, x]"
  by (simp_all add: numeral_eq_Suc)

lemma blank_simps:
  "block_order 8 (blank_compress\<lparr>quant_tbl_ptrs := q, dc_huff_tbl_ptrs := h, ac_huff_tbl_ptrs := a\<rparr>)"
  "block_order 8 (blank_compress\<lparr>quant_tbl_ptrs := q\<rparr>)" "block_order 8 blank_compress"
  "out blank_compress = []" "\<not> arith_code blank_compress" "ac_huff_tbl_ptrs blank_compress = replicate 4 None"
  "dc_huff_tbl_ptrs blank_compress = replicate 4 None" "quant_tbl_ptrs blank_compress = replicate 4 None"
  "tables_ok blank_decompress" "d_quant_tbl_ptrs blank_decompress = replicate 4 None"
  "d_dc_huff_tbl_ptrs blank_decompress = replicate 4 None" "d_ac_huff_tbl_ptrs blank_decompress = replicate 4 None"
  "\<not> saw_SOI blank_decompress" "unread_marker blank_decompress = 0" "discarded_bytes blank_decompress = 0"
  by (simp_all add: block_order_def blank_compress_def natural_order_of_def blank_decompress_def
      jinit_marker_reader_def reset_marker_reader_def tables_ok_def)

text \<open>
  A DQT segment round trip: for a table not yet sent, \<open>emit_dqt\<close> appends a marker and a
  segment, with 8- or 16-bit entries as needed, from which \<open>get_dqt\<close>, whatever follows, stores
  in the same slot the same values for the \<open>n \<times> n\<close> coefficients in use and 1 elsewhere, stops
  right behind the segment and changes nothing else.
\<close>

theorem dqt_round_trip:
  assumes "block_order n c" "index < 4" "length (quant_tbl_ptrs c) = 4"
    and "quant_tbl_ptrs c ! index = Some qtbl" "\<not> q_sent_table qtbl" "quant_ok (quantval qtbl)" "tables_ok d"
  shows "\<exists>prec c' seg. emit_dqt index c = Inr (prec, c') \<and> out c' = out c @ [0xFF, of_nat (code M_DQT)] @ seg \<and>
    get_dqt (d\<lparr>input := seg @ rest\<rparr>) =
      Inr (d\<lparr>input := rest, d_quant_tbl_ptrs := (d_quant_tbl_ptrs d)
        [index := Some (set_quantval (corner_table n (quantval qtbl)) (d_quant_tbl_ptrs d ! index))]\<rparr>) \<and>
    (n = 8 \<longrightarrow> corner_table n (quantval qtbl) = quantval qtbl)"
proof -
  let ?p = "dqt_payload index qtbl c"
  let ?seg = "map of_nat ([(length ?p + 2) div 256 mod 256, (length ?p + 2) mod 256] @ ?p) :: byte list"
  have e: "emit_dqt index c = Inr (dqt_prec qtbl c, set_quant_tbl index (qtbl\<lparr>q_sent_table := True\<rparr>)
      (emits c (segment M_DQT (length ?p + 2) ?p)))"
    using assms(2,3,4,5) by (intro emit_dqt_bytes) simp_all
  have r: "get_dqt (d\<lparr>input := ?seg @ rest\<rparr>) = Inr (d\<lparr>input := rest, d_quant_tbl_ptrs := (d_quant_tbl_ptrs d)
        [index := Some (set_quantval (corner_table n (quantval qtbl)) (d_quant_tbl_ptrs d ! index))]\<rparr>)"
    using get_dqt_payload [OF assms(1,2,6,7), of rest] by (simp add: feeds_def)
  have "corner_table 8 (quantval qtbl) = quantval qtbl"
    using assms(6) by (intro nth_equalityI) (auto simp: corner_table_def quant_ok_def less_mult_imp_div_less)
  then have "n = 8 \<longrightarrow> corner_table n (quantval qtbl) = quantval qtbl" by simp
  moreover have "out (set_quant_tbl index (qtbl\<lparr>q_sent_table := True\<rparr>) (emits c (segment M_DQT (length ?p + 2) ?p)))
      = out c @ [0xFF, of_nat (code M_DQT)] @ ?seg"
    unfolding set_quant_tbl_out by (rule out_segment)
  ultimately show ?thesis using e r by blast
qed

theorem dqt_round_trip_witness:
  "\<exists>prec c' seg. emit_dqt 2 (blank_compress\<lparr>quant_tbl_ptrs := [None, None, Some some_quant, None]\<rparr>) = Inr (prec, c') \<and>
    get_dqt (blank_decompress\<lparr>input := seg @ [0xFF]\<rparr>) =
      Inr (blank_decompress\<lparr>input := [0xFF], d_quant_tbl_ptrs := [None, None, Some some_quant, None]\<rparr>)"
proof -
  let ?c = "blank_compress\<lparr>quant_tbl_ptrs := [None, None, Some some_quant, None]\<rparr>"
  have "corner_table 8 (replicate 64 16) = replicate 64 16"
    by (intro nth_equalityI) (auto simp: corner_table_def less_mult_imp_div_less)
  then have "\<exists>prec c' seg. emit_dqt 2 ?c = Inr (prec, c') \<and> out c' = out ?c @ [0xFF, of_nat (code M_DQT)] @ seg \<and>
    get_dqt (blank_decompress\<lparr>input := seg @ [0xFF]\<rparr>) =
      Inr (blank_decompress\<lparr>input := [0xFF], d_quant_tbl_ptrs := [None, None, Some some_quant, None]\<rparr>) \<and>
    (8 = (8 :: nat) \<longrightarrow> corner_table 8 (quantval some_quant) = quantval some_quant)"
    using dqt_round_trip [of 8 ?c 2 some_quant blank_decompress "[0xFF]"]
    by (simp add: blank_simps replicate_4 some_quant_def quant_ok_def set_quantval_def)
  then show ?thesis by blast
qed

text \<open>
  A DHT segment round trip: for a table not yet sent whose code counts add up to at most
  256, \<open>emit_dht\<close> appends a marker and a segment from which \<open>get_dht\<close> stores the same counts and
  the same values (those past the count are 0) in the same slot, DC and AC kept apart, stops
  right behind it and changes nothing else.
\<close>

theorem dht_round_trip:
  assumes "index < 4" "length (if is_ac then ac_huff_tbl_ptrs c else dc_huff_tbl_ptrs c) = 4"
    and "(if is_ac then ac_huff_tbl_ptrs c else dc_huff_tbl_ptrs c) ! index = Some t"
    and "\<not> h_sent_table t" "huff_ok t" "tables_ok d"
  shows "\<exists>c' seg. emit_dht index is_ac c = Inr c' \<and> out c' = out c @ [0xFF, of_nat (code M_DHT)] @ seg \<and>
    get_dht (d\<lparr>input := seg @ rest\<rparr>) = Inr (put_huff is_ac index t (d\<lparr>input := rest\<rparr>)) \<and>
    tl (bits (sent_huff t p)) = tl (bits t) \<and> take (dht_len t) (huffval (sent_huff t p)) = take (dht_len t) (huffval t)"
proof -
  let ?p = "dht_payload (if is_ac then index + 16 else index) t"
  let ?seg = "map of_nat ([(length ?p + 2) div 256 mod 256, (length ?p + 2) mod 256] @ ?p) :: byte list"
  have e: "emit_dht index is_ac c = Inr (mark_dht_sent is_ac index t (emits c (segment M_DHT (length ?p + 2) ?p)))"
    using assms(1-5) by (intro emit_dht_bytes) (simp_all add: huff_ok_def)
  have r: "get_dht (d\<lparr>input := ?seg @ rest\<rparr>) = Inr (put_huff is_ac index t (d\<lparr>input := rest\<rparr>))"
    using get_dht_payload [OF assms(1,5,6), of is_ac rest] by (simp add: feeds_def)
  have "take (dht_len t) (huffval (sent_huff t p)) = take (dht_len t) (huffval t)"
    using dht_payload_ok(6) [OF assms(5)] by (simp add: sent_huff_def set_huff_tbl_def)
  moreover have "tl (bits (sent_huff t p)) = tl (bits t)" by (simp add: sent_huff_def set_huff_tbl_def)
  moreover have "out (mark_dht_sent is_ac index t (emits c (segment M_DHT (length ?p + 2) ?p)))
      = out c @ [0xFF, of_nat (code M_DHT)] @ ?seg"
    unfolding mark_dht_sent_out by (rule out_segment)
  ultimately show ?thesis using e r by blast
qed

theorem dht_round_trip_witness:
  "\<exists>c' seg. emit_dht 1 True (blank_compress\<lparr>ac_huff_tbl_ptrs := [None, Some some_huff, None, None]\<rparr>) = Inr c' \<and>
    get_dht (blank_decompress\<lparr>input := seg @ [0]\<rparr>) =
      Inr (blank_decompress\<lparr>input := [0], d_ac_huff_tbl_ptrs := [None, Some some_huff, None, None]\<rparr>)"
proof -
  have eq: "sent_huff some_huff None = some_huff"
    using some_tables_ok(3) by (simp add: sent_huff_def set_huff_tbl_def some_huff_def numeral_3_eq_3)
  have "put_huff True 1 some_huff (blank_decompress\<lparr>input := [0]\<rparr>)
      = blank_decompress\<lparr>input := [0], d_ac_huff_tbl_ptrs := [None, Some some_huff, None, None]\<rparr>"
    using eq by (simp add: put_huff_def blank_simps replicate_4 replicate_4 [unfolded One_nat_def])
  moreover have "[None, Some some_huff, None, None] ! 1 = Some some_huff" by simp
  moreover have "\<not> h_sent_table some_huff" by (simp add: some_huff_def)
  ultimately show ?thesis
    using dht_round_trip [of 1 True "blank_compress\<lparr>ac_huff_tbl_ptrs := [None, Some some_huff, None, None]\<rparr>"
        some_huff blank_decompress "[0]" None]
      some_tables_ok(2) blank_simps(9) by auto
qed

end
