(* ===== verification/JpegStreams.thy ===== *)
theory JpegStreams
  imports JpegMarkers
begin

text \<open>
  Whole marker streams: the reader's loop \<open>read_markers\<close> on what \<open>write_tables_only\<close>
  writes, its termination on arbitrary data, and the restart markers.
\<close>

section \<open>Reading marker after marker\<close>

definition ready :: "decompress \<Rightarrow> bool" where
  "ready d \<longleftrightarrow> unread_marker d = 0 \<and> saw_SOI d \<and> discarded_bytes d = 0 \<and> tables_ok d"

text \<open>\<open>reads bs d d'\<close>: the loop in state \<open>d\<close>, in front of \<open>bs\<close>, comes to state \<open>d'\<close> behind it.\<close>

definition reads :: "byte list \<Rightarrow> decompress \<Rightarrow> decompress \<Rightarrow> bool" where
  "reads bs d d' \<longleftrightarrow> (\<forall>rest. read_markers (d\<lparr>input := bs @ rest\<rparr>) = read_markers (d'\<lparr>input := rest\<rparr>))"

lemma reads_Nil [simp]: "reads [] d d"
  by (simp add: reads_def)

lemma reads_append: "reads as d d1 \<Longrightarrow> reads bs d1 d2 \<Longrightarrow> reads (as @ bs) d d2"
  by (simp add: reads_def)

lemma fetch_next:
  assumes "ready d" "m \<noteq> 0" "m < 255"
  shows "fetch_marker (d\<lparr>input := 0xFF # of_nat m # bs\<rparr>) = Inr (d\<lparr>input := bs, unread_marker := m\<rparr>)"
proof -
  have "(of_nat m :: byte) \<noteq> 0xFF" "(of_nat m :: byte) \<noteq> 0" "unat (of_nat m :: byte) = m"
    using assms(2,3) by (auto simp: word_unat_eq_iff unat_of_nat)
  then show ?thesis
    using assms(1) by (simp add: fetch_marker_def next_marker_def ready_def)
qed

lemma reads_marker:
  assumes "ready d" "m \<noteq> 0" "m < 255"
    and "\<And>rest. process_marker (d\<lparr>input := bs @ rest, unread_marker := m\<rparr>) = Inr (Inr (d'\<lparr>input := rest\<rparr>))"
  shows "reads (0xFF # of_nat m # bs) d d'"
  unfolding reads_def
proof
  fix rest
  have "bind_err (fetch_marker (d\<lparr>input := 0xFF # of_nat m # bs @ rest\<rparr>)) process_marker = Inr (Inr (d'\<lparr>input := rest\<rparr>))"
    by (simp add: fetch_next [OF assms(1-3)] assms(4))
  then show "read_markers (d\<lparr>input := (0xFF # of_nat m # bs) @ rest\<rparr>) = read_markers (d'\<lparr>input := rest\<rparr>)"
    by (subst read_markers.simps) simp
qed

text \<open>What the decoder's tables are after a stream that carries table \<open>i\<close> of the encoder.\<close>

definition recv_dqt :: "nat \<Rightarrow> compress \<Rightarrow> nat \<Rightarrow> decompress \<Rightarrow> decompress" where
  "recv_dqt n c i d =
     (case quant_tbl_ptrs c ! i of
        Some t \<Rightarrow> (if q_sent_table t then d
                   else d\<lparr>d_quant_tbl_ptrs := (d_quant_tbl_ptrs d)
                          [i := Some (set_quantval (corner_table n (quantval t)) (d_quant_tbl_ptrs d ! i))]\<rparr>)
      | None \<Rightarrow> d)"

definition recv_dht :: "bool \<Rightarrow> compress \<Rightarrow> nat \<Rightarrow> decompress \<Rightarrow> decompress" where
  "recv_dht is_ac c i d =
     (case (if is_ac then ac_huff_tbl_ptrs c else dc_huff_tbl_ptrs c) ! i of
        Some t \<Rightarrow> (if h_sent_table t then d else put_huff is_ac i t d)
      | None \<Rightarrow> d)"

lemma corner_table_length [simp]: "length (corner_table n q) = 64"
  by (simp add: corner_table_def)

lemma recv_ready: "ready d \<Longrightarrow> ready (recv_dqt n c i d)" "ready d \<Longrightarrow> ready (recv_dht is_ac c i d)"
  by (auto simp: ready_def recv_dqt_def recv_dht_def tables_ok_def put_huff_def set_quantval_def
      split: option.splits dest!: set_update_subset_insert [THEN subsetD])

lemma reads_dqt:
  assumes "ready d" "block_order n c" "i < 4" "quant_tbl_ptrs c ! i = Some t" "\<not> q_sent_table t" "quant_ok (quantval t)"
  defines "p \<equiv> dqt_payload i t c"
  shows "reads (map of_nat (segment M_DQT (length p + 2) p)) d (recv_dqt n c i d)"
proof -
  let ?seg = "map of_nat ([(length p + 2) div 256 mod 256, (length p + 2) mod 256] @ p) :: byte list"
  have "process_marker (d\<lparr>input := ?seg @ rest, unread_marker := 0xdb\<rparr>) = Inr (Inr ((recv_dqt n c i d)\<lparr>input := rest\<rparr>))" for rest
  proof -
    have "d\<lparr>input := ?seg @ rest, unread_marker := 0xdb\<rparr>
        = feeds (d\<lparr>unread_marker := 0xdb\<rparr>) ([(length p + 2) div 256 mod 256, (length p + 2) mod 256] @ p) rest"
      by (simp add: feeds_def)
    moreover have "tables_ok (d\<lparr>unread_marker := 0xdb\<rparr>)" using assms(1) by (simp add: ready_def tables_ok_def)
    ultimately have "get_dqt (d\<lparr>input := ?seg @ rest, unread_marker := 0xdb\<rparr>)
        = Inr ((feeds (d\<lparr>unread_marker := 0xdb\<rparr>) [] rest)\<lparr>d_quant_tbl_ptrs := (d_quant_tbl_ptrs d)
            [i := Some (set_quantval (corner_table n (quantval t)) (d_quant_tbl_ptrs d ! i))]\<rparr>)"
      using get_dqt_payload [OF assms(2,3,6), of "d\<lparr>unread_marker := 0xdb\<rparr>" rest] by (simp add: p_def)
    then show ?thesis
      using assms(1,4,5) by (simp add: process_marker_def recv_dqt_def feeds_def ready_def)
  qed
  then have "reads (0xFF # of_nat 0xdb # ?seg) d (recv_dqt n c i d)"
    using assms(1) by (intro reads_marker) simp_all
  then show ?thesis by (simp add: segment_def)
qed

lemma reads_dht:
  assumes "ready d" "i < 4" "(if is_ac then ac_huff_tbl_ptrs c else dc_huff_tbl_ptrs c) ! i = Some t"
    "\<not> h_sent_table t" "huff_ok t"
  defines "p \<equiv> dht_payload (if is_ac then i + 16 else i) t"
  shows "reads (map of_nat (segment M_DHT (length p + 2) p)) d (recv_dht is_ac c i d)"
proof -
  let ?seg = "map of_nat ([(length p + 2) div 256 mod 256, (length p + 2) mod 256] @ p) :: byte list"
  have "process_marker (d\<lparr>input := ?seg @ rest, unread_marker := 0xc4\<rparr>) = Inr (Inr ((recv_dht is_ac c i d)\<lparr>input := rest\<rparr>))" for rest
  proof -
    have "d\<lparr>input := ?seg @ rest, unread_marker := 0xc4\<rparr>
        = feeds (d\<lparr>unread_marker := 0xc4\<rparr>) ([(length p + 2) div 256 mod 256, (length p + 2) mod 256] @ p) rest"
      by (simp add: feeds_def)
    moreover have "tables_ok (d\<lparr>unread_marker := 0xc4\<rparr>)" using assms(1) by (simp add: ready_def tables_ok_def)
    ultimately have "get_dht (d\<lparr>input := ?seg @ rest, unread_marker := 0xc4\<rparr>)
        = Inr (put_huff is_ac i t (feeds (d\<lparr>unread_marker := 0xc4\<rparr>) [] rest))"
      using get_dht_payload [OF assms(2,5), of "d\<lparr>unread_marker := 0xc4\<rparr>" is_ac rest] by (simp add: p_def)
    then show ?thesis
      using assms(1,3,4) by (simp add: process_marker_def recv_dht_def feeds_def ready_def put_huff_def)
  qed
  then have "reads (0xFF # of_nat 0xc4 # ?seg) d (recv_dht is_ac c i d)"
    using assms(1) by (intro reads_marker) simp_all
  then show ?thesis by (simp add: segment_def)
qed

section \<open>The table stream\<close>

definition encoder_ok :: "nat \<Rightarrow> compress \<Rightarrow> bool" where
  "encoder_ok n c \<longleftrightarrow> block_order n c \<and> length (quant_tbl_ptrs c) = 4 \<and> length (dc_huff_tbl_ptrs c) = 4 \<and>
     length (ac_huff_tbl_ptrs c) = 4 \<and> (\<forall>t. Some t \<in> set (quant_tbl_ptrs c) \<longrightarrow> quant_ok (quantval t)) \<and>
     (\<forall>t. Some t \<in> set (dc_huff_tbl_ptrs c) \<longrightarrow> huff_ok t) \<and> (\<forall>t. Some t \<in> set (ac_huff_tbl_ptrs c) \<longrightarrow> huff_ok t)"

lemma encoder_ok_tables:
  assumes "encoder_ok n c" "i < 4"
  shows "quant_tbl_ptrs c ! i = Some t \<Longrightarrow> quant_ok (quantval t)"
    "dc_huff_tbl_ptrs c ! i = Some h \<Longrightarrow> huff_ok h" "ac_huff_tbl_ptrs c ! i = Some h \<Longrightarrow> huff_ok h"
  using assms by (metis encoder_ok_def nth_mem)+

definition sent_dqt :: "quant_tbl option \<Rightarrow> quant_tbl option" where
  "sent_dqt p = map_option (\<lambda>t. t\<lparr>q_sent_table := True\<rparr>) p"

definition sent_dht :: "huff_tbl option \<Rightarrow> huff_tbl option" where
  "sent_dht p = map_option (\<lambda>t. t\<lparr>h_sent_table := True\<rparr>) p"

lemma sent_dqt_ok: "sent_dqt p = Some u \<Longrightarrow> (\<And>t. p = Some t \<Longrightarrow> quant_ok (quantval t)) \<Longrightarrow> quant_ok (quantval u)"
  by (cases p) (auto simp: sent_dqt_def)

lemma sent_dht_ok: "sent_dht p = Some u \<Longrightarrow> (\<And>t. p = Some t \<Longrightarrow> huff_ok t) \<Longrightarrow> huff_ok u"
  by (cases p) (auto simp: sent_dht_def huff_ok_def dht_len_def)

lemma emit_dqt_step:
  assumes "encoder_ok n c" "ready d" "i < 4" "quant_tbl_ptrs c ! i \<noteq> None"
  shows "\<exists>prec bs. emit_dqt i c = Inr (prec, c\<lparr>out := out c @ bs,
      quant_tbl_ptrs := (quant_tbl_ptrs c)[i := sent_dqt (quant_tbl_ptrs c ! i)]\<rparr>) \<and> reads bs d (recv_dqt n c i d)"
proof -
  obtain t where t: "quant_tbl_ptrs c ! i = Some t" using assms(4) by auto
  have len: "i < length (quant_tbl_ptrs c)" using assms(1,3) by (simp add: encoder_ok_def)
  show ?thesis
  proof (cases "q_sent_table t")
    case True
    have upd: "(quant_tbl_ptrs c)[i := sent_dqt (quant_tbl_ptrs c ! i)] = quant_tbl_ptrs c"
      using True t by (simp add: sent_dqt_def list_update_same_conv [OF len])
    have "c\<lparr>out := out c @ [], quant_tbl_ptrs := (quant_tbl_ptrs c)[i := sent_dqt (quant_tbl_ptrs c ! i)]\<rparr> = c"
      unfolding upd by simp
    moreover have "emit_dqt i c = Inr (dqt_prec t c, c)"
      using len t True by (simp add: emit_dqt_def dqt_prec_def Let_def)
    moreover have "reads [] d (recv_dqt n c i d)" using t True by (simp add: recv_dqt_def)
    ultimately show ?thesis by metis
  next
    case False
    let ?p = "dqt_payload i t c"
    have b: "block_order n c" "quant_ok (quantval t)"
      using assms(1) encoder_ok_tables(1) [OF assms(1,3) t] by (simp_all add: encoder_ok_def)
    have "set_quant_tbl i (t\<lparr>q_sent_table := True\<rparr>) (emits c vs)
        = c\<lparr>out := out c @ map of_nat vs, quant_tbl_ptrs := (quant_tbl_ptrs c)[i := sent_dqt (quant_tbl_ptrs c ! i)]\<rparr>" for vs
      using t by (simp add: set_quant_tbl_def emits_def sent_dqt_def)
    then show ?thesis
      using emit_dqt_bytes [OF len t False] reads_dqt [OF assms(2) b(1) assms(3) t False b(2)] by auto
  qed
qed

lemma emit_all_dqt_reads:
  assumes "encoder_ok n c" "ready d" "distinct is" "\<forall>i\<in>set is. i < 4"
  shows "\<exists>bs. emit_all_dqt is c = Inr (c\<lparr>out := out c @ bs,
      quant_tbl_ptrs := map (\<lambda>i. if i \<in> set is then sent_dqt (quant_tbl_ptrs c ! i) else quant_tbl_ptrs c ! i) [0..<4]\<rparr>) \<and>
    reads bs d (fold (recv_dqt n c) is d)"
  using assms
proof (induction "is" arbitrary: c d)
  case Nil
  have "map (\<lambda>i. quant_tbl_ptrs c ! i) [0..<4] = quant_tbl_ptrs c"
    using Nil(1) by (intro nth_equalityI) (simp_all add: encoder_ok_def)
  then show ?case by (intro exI [of _ "[]"]) simp
next
  case (Cons i xs)
  have len: "i < length (quant_tbl_ptrs c)" "i < 4" using Cons.prems by (simp_all add: encoder_ok_def)
  let ?tabs = "\<lambda>c xs. map (\<lambda>i. if i \<in> set xs then sent_dqt (quant_tbl_ptrs c ! i) else quant_tbl_ptrs c ! i) [0..<4]"
  show ?case
  proof (cases "quant_tbl_ptrs c ! i")
    case None
    have tabs: "?tabs c (i # xs) = ?tabs c xs" using None by (auto simp: sent_dqt_def)
    have f: "fold (recv_dqt n c) (i # xs) d = fold (recv_dqt n c) xs d" using None by (simp add: recv_dqt_def)
    have e: "emit_all_dqt (i # xs) c = emit_all_dqt xs c" using None len by simp
    have "\<exists>bs. emit_all_dqt xs c = Inr (c\<lparr>out := out c @ bs, quant_tbl_ptrs := ?tabs c xs\<rparr>) \<and>
        reads bs d (fold (recv_dqt n c) xs d)"
      using Cons.prems by (intro Cons.IH) simp_all
    then show ?thesis unfolding tabs f e .
  next
    case (Some t)
    then obtain prec bs where e: "emit_dqt i c = Inr (prec, c\<lparr>out := out c @ bs,
        quant_tbl_ptrs := (quant_tbl_ptrs c)[i := sent_dqt (quant_tbl_ptrs c ! i)]\<rparr>)" "reads bs d (recv_dqt n c i d)"
      using emit_dqt_step [OF Cons.prems(1,2) len(2)] by auto
    let ?c = "c\<lparr>out := out c @ bs, quant_tbl_ptrs := (quant_tbl_ptrs c)[i := sent_dqt (quant_tbl_ptrs c ! i)]\<rparr>"
    have "quant_ok (quantval u)" if "Some u \<in> set (quant_tbl_ptrs ?c)" for u
    proof -
      have "Some u = sent_dqt (quant_tbl_ptrs c ! i) \<or> Some u \<in> set (quant_tbl_ptrs c)"
        using that set_update_subset_insert [of "quant_tbl_ptrs c" i] by auto
      then show ?thesis
        using Cons.prems(1) encoder_ok_tables(1) [OF Cons.prems(1) len(2) Some] Some
        by (auto simp: encoder_ok_def sent_dqt_def)
    qed
    then have ok: "encoder_ok n ?c" using Cons.prems(1) by (simp add: encoder_ok_def block_order_def)
    have rd: "ready (recv_dqt n c i d)" using Cons.prems(2) by (rule recv_ready(1))
    have "\<exists>bs2. emit_all_dqt xs ?c = Inr (?c\<lparr>out := out ?c @ bs2, quant_tbl_ptrs := ?tabs ?c xs\<rparr>) \<and>
        reads bs2 (recv_dqt n c i d) (fold (recv_dqt n ?c) xs (recv_dqt n c i d))"
      using Cons.prems(3,4) by (intro Cons.IH [OF ok rd]) simp_all
    then obtain bs2 where r: "emit_all_dqt xs ?c = Inr (?c\<lparr>out := out ?c @ bs2, quant_tbl_ptrs := ?tabs ?c xs\<rparr>)"
      "reads bs2 (recv_dqt n c i d) (fold (recv_dqt n ?c) xs (recv_dqt n c i d))"
      by blast
    have i: "i \<notin> set xs" using Cons.prems(3) by simp
    have "?tabs ?c xs = ?tabs c (i # xs)"
      using i len by (intro nth_equalityI) (auto simp: nth_list_update)
    moreover have "fold (recv_dqt n ?c) xs (recv_dqt n c i d) = fold (recv_dqt n c) xs (recv_dqt n c i d)"
    proof (intro fold_cong refl)
      fix x assume "x \<in> set xs"
      then have "i \<noteq> x" using i by auto
      then have "quant_tbl_ptrs ?c ! x = quant_tbl_ptrs c ! x" by simp
      then show "recv_dqt n ?c x = recv_dqt n c x" by (intro ext) (simp only: recv_dqt_def)
    qed
    ultimately show ?thesis
      using e r Some len reads_append [OF e(2) r(2)] by (intro exI [of _ "bs @ bs2"]) simp
  qed
qed

text \<open>The encoder after table \<open>i\<close> went out as the bytes \<open>bs\<close>.\<close>

definition dht_done :: "bool \<Rightarrow> nat \<Rightarrow> byte list \<Rightarrow> compress \<Rightarrow> compress" where
  "dht_done is_ac i bs c =
     (if is_ac
      then c\<lparr>out := out c @ bs, ac_huff_tbl_ptrs := (ac_huff_tbl_ptrs c)[i := sent_dht (ac_huff_tbl_ptrs c ! i)]\<rparr>
      else c\<lparr>out := out c @ bs, dc_huff_tbl_ptrs := (dc_huff_tbl_ptrs c)[i := sent_dht (dc_huff_tbl_ptrs c ! i)]\<rparr>)"

definition huff_ptrs :: "bool \<Rightarrow> compress \<Rightarrow> huff_tbl option list" where
  "huff_ptrs is_ac c = (if is_ac then ac_huff_tbl_ptrs c else dc_huff_tbl_ptrs c)"

lemma dht_done_None: "huff_ptrs is_ac c ! i = None \<or> huff_ptrs is_ac c ! i = Some t \<and> h_sent_table t \<Longrightarrow>
    i < length (huff_ptrs is_ac c) \<Longrightarrow> dht_done is_ac i [] c = c"
  by (cases is_ac) (auto simp: dht_done_def huff_ptrs_def sent_dht_def list_update_same_conv)

lemma emit_dht_step:
  assumes "encoder_ok n c" "ready d" "i < 4" "huff_ptrs is_ac c ! i \<noteq> None"
  shows "\<exists>bs. emit_dht i is_ac c = Inr (dht_done is_ac i bs c) \<and> reads bs d (recv_dht is_ac c i d)"
proof -
  obtain t where t: "huff_ptrs is_ac c ! i = Some t" using assms(4) by auto
  have len: "i < length (huff_ptrs is_ac c)" using assms(1,3) by (simp add: encoder_ok_def huff_ptrs_def)
  have ok: "huff_ok t"
    using encoder_ok_tables(2,3) [OF assms(1,3), of t] t by (cases is_ac) (simp_all add: huff_ptrs_def)
  show ?thesis
  proof (cases "h_sent_table t")
    case True
    have "emit_dht i is_ac c = Inr c"
      using len t True by (cases is_ac) (simp_all add: emit_dht_def huff_ptrs_def Let_def)
    moreover have "reads [] d (recv_dht is_ac c i d)" using t True by (simp add: recv_dht_def huff_ptrs_def)
    ultimately show ?thesis using dht_done_None [of is_ac c i t] t True len by metis
  next
    case False
    let ?p = "dht_payload (if is_ac then i + 16 else i) t"
    have "emit_dht i is_ac c = Inr (mark_dht_sent is_ac i t (emits c (segment M_DHT (length ?p + 2) ?p)))"
      using len t False ok by (intro emit_dht_bytes) (simp_all add: huff_ok_def huff_ptrs_def)
    moreover have "mark_dht_sent is_ac i t (emits c vs) = dht_done is_ac i (map of_nat vs) c" for vs
      using t by (cases is_ac) (simp_all add: mark_dht_sent_def emits_def sent_dht_def dht_done_def huff_ptrs_def)
    moreover have "reads (map of_nat (segment M_DHT (length ?p + 2) ?p)) d (recv_dht is_ac c i d)"
      using assms(2,3) t [unfolded huff_ptrs_def] False ok by (rule reads_dht)
    ultimately show ?thesis by metis
  qed
qed

lemma dht_done_ok:
  assumes "encoder_ok n c" "i < 4"
  shows "encoder_ok n (dht_done is_ac i bs c)"
proof -
  have "huff_ok u" if "Some u \<in> set ((huff_ptrs is_ac c)[i := sent_dht (huff_ptrs is_ac c ! i)])" for u
  proof -
    have "Some u = sent_dht (huff_ptrs is_ac c ! i) \<or> Some u \<in> set (huff_ptrs is_ac c)"
      using that set_update_subset_insert [of "huff_ptrs is_ac c" i] by auto
    moreover have "huff_ok t" if "huff_ptrs is_ac c ! i = Some t" for t
      using encoder_ok_tables(2,3) [OF assms, of t] that by (cases is_ac) (simp_all add: huff_ptrs_def)
    moreover have "Some u \<in> set (huff_ptrs is_ac c) \<Longrightarrow> huff_ok u"
      using assms(1) by (cases is_ac) (simp_all add: encoder_ok_def huff_ptrs_def)
    ultimately show ?thesis by (metis sent_dht_ok)
  qed
  then show ?thesis
    using assms(1) by (cases is_ac) (simp_all add: encoder_ok_def block_order_def dht_done_def huff_ptrs_def)
qed

lemma dht_done_other:
  "i \<noteq> j \<or> b \<noteq> b' \<Longrightarrow> recv_dht b' (dht_done b i bs c) j = recv_dht b' c j"
  by (intro ext, cases b; cases b'; simp add: recv_dht_def dht_done_def)

lemma dht_done_fields [simp]:
  "out (dht_done b i bs c) = out c @ bs" "length (huff_ptrs b' (dht_done b i bs c)) = length (huff_ptrs b' c)"
  "b \<noteq> b' \<Longrightarrow> huff_ptrs b' (dht_done b i bs c) = huff_ptrs b' c"
  by (cases b; cases b'; simp add: dht_done_def huff_ptrs_def)+

text \<open>One table, present or not.\<close>

lemma emit_dht_maybe:
  assumes "encoder_ok n c" "ready d" "i < 4"
  shows "\<exists>bs. (if huff_ptrs is_ac c ! i \<noteq> None then emit_dht i is_ac c else Inr c) = Inr (dht_done is_ac i bs c) \<and>
    reads bs d (recv_dht is_ac c i d)"
proof (cases "huff_ptrs is_ac c ! i = None")
  case True
  have "i < length (huff_ptrs is_ac c)" using assms(1,3) by (simp add: encoder_ok_def huff_ptrs_def)
  then have "dht_done is_ac i [] c = c" using True by (intro dht_done_None [where t = undefined]) simp_all
  moreover have "reads [] d (recv_dht is_ac c i d)" using True by (simp add: recv_dht_def huff_ptrs_def)
  ultimately show ?thesis using True by metis
next
  case False
  then show ?thesis using emit_dht_step [OF assms(1,2,3), of is_ac] by simp
qed

lemma emit_all_dht_step:
  assumes "encoder_ok n c" "i < 4"
  shows "emit_all_dht (i # is) c =
    bind_err (if huff_ptrs False c ! i \<noteq> None then emit_dht i False c else Inr c) (\<lambda>c1.
    bind_err (table_at (huff_ptrs True c1) i) (\<lambda>q.
    bind_err (if q \<noteq> None then emit_dht i True c1 else Inr c1) (emit_all_dht is)))"
  using assms by (simp add: huff_ptrs_def encoder_ok_def)

lemma emit_all_dht_reads:
  assumes "encoder_ok n c" "ready d" "distinct is" "\<forall>i\<in>set is. i < 4"
  shows "\<exists>c' bs. emit_all_dht is c = Inr c' \<and> out c' = out c @ bs \<and>
    reads bs d (fold (\<lambda>i d. recv_dht True c i (recv_dht False c i d)) is d)"
  using assms
proof (induction "is" arbitrary: c d)
  case Nil
  then show ?case by (intro exI [of _ c] exI [of _ "[]"]) simp
next
  case (Cons i xs)
  have i: "i < 4" "i \<notin> set xs" using Cons.prems(3,4) by simp_all
  obtain bs1 where 1: "(if huff_ptrs False c ! i \<noteq> None then emit_dht i False c else Inr c) = Inr (dht_done False i bs1 c)"
    "reads bs1 d (recv_dht False c i d)"
    using emit_dht_maybe [OF Cons.prems(1,2) i(1), of False] by blast
  let ?c1 = "dht_done False i bs1 c" and ?d1 = "recv_dht False c i d"
  have ok1: "encoder_ok n ?c1" "ready ?d1"
    using dht_done_ok [OF Cons.prems(1) i(1)] recv_ready(2) [OF Cons.prems(2)] by simp_all
  obtain bs2 where 2: "(if huff_ptrs True ?c1 ! i \<noteq> None then emit_dht i True ?c1 else Inr ?c1) = Inr (dht_done True i bs2 ?c1)"
    "reads bs2 ?d1 (recv_dht True ?c1 i ?d1)"
    using emit_dht_maybe [OF ok1 i(1), of True] by blast
  let ?c2 = "dht_done True i bs2 ?c1" and ?d2 = "recv_dht True c i ?d1"
  have d2: "recv_dht True ?c1 i ?d1 = ?d2" by (simp add: dht_done_other)
  have ok2: "encoder_ok n ?c2" "ready ?d2"
    using dht_done_ok [OF ok1(1) i(1)] recv_ready(2) [OF ok1(2)] by simp_all
  have "\<exists>c' bs. emit_all_dht xs ?c2 = Inr c' \<and> out c' = out ?c2 @ bs \<and>
      reads bs ?d2 (fold (\<lambda>i d. recv_dht True ?c2 i (recv_dht False ?c2 i d)) xs ?d2)"
    using Cons.prems(3,4) by (intro Cons.IH [OF ok2]) simp_all
  then obtain c' bs3 where 3: "emit_all_dht xs ?c2 = Inr c'" "out c' = out ?c2 @ bs3"
    "reads bs3 ?d2 (fold (\<lambda>i d. recv_dht True ?c2 i (recv_dht False ?c2 i d)) xs ?d2)" by blast
  have "fold (\<lambda>i d. recv_dht True ?c2 i (recv_dht False ?c2 i d)) xs ?d2
      = fold (\<lambda>i d. recv_dht True c i (recv_dht False c i d)) xs ?d2"
  proof (intro fold_cong refl)
    fix x assume "x \<in> set xs"
    then have "i \<noteq> x" using i by auto
    then show "(\<lambda>d. recv_dht True ?c2 x (recv_dht False ?c2 x d)) = (\<lambda>d. recv_dht True c x (recv_dht False c x d))"
      by (simp add: dht_done_other)
  qed
  moreover have "reads (bs1 @ bs2 @ bs3) d (fold (\<lambda>i d. recv_dht True ?c2 i (recv_dht False ?c2 i d)) xs ?d2)"
    using 1(2) 2(2) 3(3) unfolding d2 by (intro reads_append)
  moreover have "emit_all_dht (i # xs) c = Inr c'"
  proof -
    have "i < length (huff_ptrs True ?c1)" using ok1(1) i(1) by (simp add: encoder_ok_def huff_ptrs_def)
    then show ?thesis
      unfolding emit_all_dht_step [OF Cons.prems(1) i(1)] 1(1) by (simp only: bind_err_simps table_at_simps 2(1) 3(1))
  qed
  ultimately show ?case using 3(2) by (intro exI [of _ c'] exI [of _ "bs1 @ bs2 @ bs3"]) simp
qed

section \<open>Properties\<close>

definition after_soi :: "decompress \<Rightarrow> decompress" where
  "after_soi d = (case get_soi d of Inr d1 \<Rightarrow> d1 | Inl e \<Rightarrow> d)"

lemma soi_ready:
  assumes "\<not> saw_SOI d" "unread_marker d = 0" "discarded_bytes d = 0" "tables_ok d"
  shows "ready (after_soi d)" "read_markers (d\<lparr>input := 0xFF # 0xD8 # bs\<rparr>) = read_markers ((after_soi d)\<lparr>input := bs\<rparr>)"
proof -
  show "ready (after_soi d)" using assms by (simp add: ready_def after_soi_def get_soi_def tables_ok_def)
  have "fetch_marker (d\<lparr>input := 0xFF # 0xD8 # bs\<rparr>) = Inr (d\<lparr>input := bs, unread_marker := 0xd8\<rparr>)"
    using assms by (simp add: fetch_marker_def first_marker_def input_byte_def)
  moreover have "process_marker (d\<lparr>input := bs, unread_marker := 0xd8\<rparr>) = Inr (Inr ((after_soi d)\<lparr>input := bs\<rparr>))"
    using assms by (simp add: process_marker_def get_soi_def after_soi_def)
  ultimately show "read_markers (d\<lparr>input := 0xFF # 0xD8 # bs\<rparr>) = read_markers ((after_soi d)\<lparr>input := bs\<rparr>)"
    by (subst read_markers.simps) simp
qed

lemma read_eoi:
  assumes "ready d"
  shows "read_markers (d\<lparr>input := 0xFF # 0xD9 # bs\<rparr>) = Some (Inr (JPEG_REACHED_EOI, d\<lparr>input := bs\<rparr>))"
proof -
  have "process_marker (d\<lparr>input := bs, unread_marker := 0xd9\<rparr>) = Inr (Inl (JPEG_REACHED_EOI, d\<lparr>input := bs, unread_marker := 0\<rparr>))"
    by (simp add: process_marker_def)
  moreover have "d\<lparr>input := bs, unread_marker := 0\<rparr> = d\<lparr>input := bs\<rparr>"
    using assms by (simp add: ready_def)
  ultimately show ?thesis
    using fetch_next [OF assms, of "0xd9" bs] by (subst read_markers.simps) simp
qed

lemma fold_ready:
  "ready d \<Longrightarrow> (\<And>i d. ready d \<Longrightarrow> ready (f i d)) \<Longrightarrow> ready (fold f is d)"
  by (induction "is" arbitrary: d) auto

text \<open>
  C7: An abbreviated table stream round trip: from any set of valid tables, \<open>write_tables_only\<close>
  writes SOI, the tables not yet sent and EOI, and \<open>read_markers\<close> of a fresh reader, in front of
  that stream and anything behind it, returns \<open>JPEG_REACHED_EOI\<close> with exactly those tables
  received in their slots and the input behind the EOI.
\<close>

theorem tables_stream_round_trip:
  assumes "encoder_ok n c" "\<not> arith_code c" "out c = []"
    and "\<not> saw_SOI d" "unread_marker d = 0" "discarded_bytes d = 0" "tables_ok d"
  shows "\<exists>c'. write_tables_only c = Inr c' \<and>
    read_markers (d\<lparr>input := out c' @ rest\<rparr>) = Some (Inr (JPEG_REACHED_EOI,
      (fold (\<lambda>i d. recv_dht True c i (recv_dht False c i d)) [0..<4] (fold (recv_dqt n c) [0..<4] (after_soi d)))
        \<lparr>input := rest\<rparr>))"
proof -
  let ?c1 = "emit_marker M_SOI c"
  have c1: "?c1 = c\<lparr>out := [0xFF, 0xD8]\<rparr>" using assms(3) by (simp add: emit_marker_def emit_byte_def)
  have ok1: "encoder_ok n ?c1" using assms(1) by (simp add: c1 encoder_ok_def block_order_def)
  have soi: "ready (after_soi d)" using soi_ready(1) assms(4-7) by blast
  let ?qs = "map (\<lambda>i. if i \<in> set [0..<4] then sent_dqt (quant_tbl_ptrs ?c1 ! i) else quant_tbl_ptrs ?c1 ! i) [0..<4]"
  obtain b1 where 1: "emit_all_dqt [0..<4] ?c1 = Inr (?c1\<lparr>out := out ?c1 @ b1, quant_tbl_ptrs := ?qs\<rparr>)"
    "reads b1 (after_soi d) (fold (recv_dqt n ?c1) [0..<4] (after_soi d))"
    using emit_all_dqt_reads [OF ok1 soi, of "[0..<4]"] by auto
  let ?c2 = "?c1\<lparr>out := out ?c1 @ b1, quant_tbl_ptrs := ?qs\<rparr>" and ?d2 = "fold (recv_dqt n c) [0..<4] (after_soi d)"
  have "recv_dqt n ?c1 = recv_dqt n c" by (intro ext) (simp add: recv_dqt_def c1)
  then have d2: "fold (recv_dqt n ?c1) [0..<4] (after_soi d) = ?d2" by simp
  have "quant_ok (quantval t)" if "Some t \<in> set ?qs" for t
  proof -
    obtain i where i: "i < 4" "Some t = sent_dqt (quant_tbl_ptrs ?c1 ! i)" using \<open>Some t \<in> set ?qs\<close> by auto
    then show ?thesis using encoder_ok_tables(1) [OF ok1 i(1)] sent_dqt_ok by metis
  qed
  then have ok2: "encoder_ok n ?c2" using ok1 by (simp add: encoder_ok_def block_order_def)
  have rd2: "ready ?d2" using soi by (rule fold_ready) (rule recv_ready(1))
  obtain c3 b2 where 2: "emit_all_dht [0..<4] ?c2 = Inr c3" "out c3 = out ?c2 @ b2"
    "reads b2 ?d2 (fold (\<lambda>i d. recv_dht True ?c2 i (recv_dht False ?c2 i d)) [0..<4] ?d2)"
    using emit_all_dht_reads [OF ok2 rd2, of "[0..<4]"] by auto
  let ?d3 = "fold (\<lambda>i d. recv_dht True c i (recv_dht False c i d)) [0..<4] ?d2"
  have "recv_dht b ?c2 = recv_dht b c" for b by (intro ext) (simp add: recv_dht_def c1)
  then have d3: "fold (\<lambda>i d. recv_dht True ?c2 i (recv_dht False ?c2 i d)) [0..<4] ?d2 = ?d3" by simp
  have rd3: "ready ?d3" using rd2 by (rule fold_ready) (blast intro: recv_ready(2))
  let ?c' = "emit_marker M_EOI c3"
  have w: "write_tables_only c = Inr ?c'"
    using 1(1) 2(1) assms(2) c1 by (simp add: write_tables_only_def NUM_QUANT_TBLS_def NUM_HUFF_TBLS_def Let_def del: upt_Suc)
  have out: "out ?c' = 0xFF # 0xD8 # b1 @ b2 @ [0xFF, 0xD9]"
    using 2(2) assms(3) by (simp add: emit_marker_def emit_byte_def)
  have "read_markers (d\<lparr>input := out ?c' @ rest\<rparr>) = read_markers ((after_soi d)\<lparr>input := b1 @ b2 @ 0xFF # 0xD9 # rest\<rparr>)"
    unfolding out using soi_ready(2) [OF assms(4-7)] by simp
  also have "\<dots> = read_markers (?d2\<lparr>input := b2 @ 0xFF # 0xD9 # rest\<rparr>)"
    using 1(2) unfolding d2 reads_def by blast
  also have "\<dots> = read_markers (?d3\<lparr>input := 0xFF # 0xD9 # rest\<rparr>)"
    using 2(3) unfolding d3 reads_def by blast
  also have "\<dots> = Some (Inr (JPEG_REACHED_EOI, ?d3\<lparr>input := rest\<rparr>))"
    using rd3 by (rule read_eoi)
  finally show ?thesis using w by blast
qed

lemma encoder_example:
  "encoder_ok 8 (blank_compress\<lparr>quant_tbl_ptrs := [None, Some some_quant, None, None],
     ac_huff_tbl_ptrs := [None, Some some_huff, None, None]\<rparr>)"
  using some_tables_ok blank_simps(3) by (auto simp: encoder_ok_def blank_simps block_order_def)

theorem tables_stream_round_trip_witness:
  "\<exists>c'. write_tables_only (blank_compress\<lparr>quant_tbl_ptrs := [None, Some some_quant, None, None],
      ac_huff_tbl_ptrs := [None, Some some_huff, None, None]\<rparr>) = Inr c' \<and>
    (\<exists>d'. read_markers (blank_decompress\<lparr>input := out c' @ [7]\<rparr>) = Some (Inr (JPEG_REACHED_EOI, d')) \<and> input d' = [7])"
proof -
  let ?c = "blank_compress\<lparr>quant_tbl_ptrs := [None, Some some_quant, None, None],
    ac_huff_tbl_ptrs := [None, Some some_huff, None, None]\<rparr>"
  have "out ?c = []" "\<not> arith_code ?c" by (simp_all add: blank_simps)
  then obtain c' d' where "write_tables_only ?c = Inr c'"
    "read_markers (blank_decompress\<lparr>input := out c' @ [7]\<rparr>) = Some (Inr (JPEG_REACHED_EOI, d'\<lparr>input := [7]\<rparr>))"
    using tables_stream_round_trip [OF encoder_example _ _ blank_simps(13,14,15,9), of "[7]"] by blast
  then show ?thesis by (intro exI [of _ c']) simp
qed

section \<open>Termination on arbitrary data\<close>

text \<open>\<open>no_growth d d'\<close>: the input left is no longer than before, up to the one byte of a supplied EOI.\<close>

definition no_growth :: "decompress \<Rightarrow> decompress \<Rightarrow> bool" where
  "no_growth d d' \<longleftrightarrow> length (input d') \<le> max 1 (length (input d))"

named_theorems growth \<open>routines that do not lengthen the input\<close>

lemma no_growth_refl [growth]: "no_growth d d"
  by (simp add: no_growth_def)

lemma no_growth_trans: "no_growth a b \<Longrightarrow> no_growth b c \<Longrightarrow> no_growth a c"
  by (auto simp: no_growth_def)

lemma no_growth_input: "no_growth a b \<Longrightarrow> input b = input c \<Longrightarrow> no_growth a c"
  by (simp add: no_growth_def)

lemma input_byte_growth [growth]: "input_byte d = (x, d') \<Longrightarrow> no_growth d d'"
  by (auto simp: input_byte_def no_growth_def split: list.splits)

lemma input_2bytes_growth [growth]: "input_2bytes d = (x, d') \<Longrightarrow> no_growth d d'"
  by (auto simp: input_2bytes_def Let_def split: prod.splits dest!: input_byte_growth intro: no_growth_trans)

lemma input_bytes_growth [growth]: "input_bytes n d = (xs, d') \<Longrightarrow> no_growth d d'"
proof (induction n arbitrary: d xs)
  case 0
  then show ?case by (simp add: no_growth_refl)
next
  case (Suc n)
  then obtain b d1 bs where "input_byte d = (b, d1)" "input_bytes n d1 = (bs, d')"
    by (auto simp: Let_def split: prod.splits)
  then show ?case using Suc.IH by (metis input_byte_growth no_growth_trans)
qed

lemma skip_bytes_growth [growth]: "no_growth d (skip_bytes n d)"
  using input_bytes_growth [of "nat n" d] by (cases "input_bytes (nat n) d") (simp add: skip_bytes_def)

lemma read_sof_components_growth [growth]: "read_sof_components n cs d = (cs', d') \<Longrightarrow> no_growth d d'"
proof (induction n arbitrary: cs d)
  case 0
  then show ?case by (simp add: no_growth_refl)
next
  case (Suc n)
  obtain c d1 where 1: "input_byte d = (c, d1)" by fastforce
  obtain hv d2 where 2: "input_byte d1 = (hv, d2)" by fastforce
  obtain q d3 where 3: "input_byte d2 = (q, d3)" by fastforce
  obtain cs1 where "read_sof_components n cs1 d3 = (cs', d')"
    using Suc.prems 1 2 3 by (auto simp: Let_def)
  then have "no_growth d3 d'" by (rule Suc.IH)
  then show ?case
    by (rule no_growth_trans [OF input_byte_growth [OF 1] no_growth_trans [OF input_byte_growth [OF 2]
      no_growth_trans [OF input_byte_growth [OF 3]]]])
qed

lemma get_sof_growth [growth]:
  assumes "get_sof a b c d = Inr d'"
  shows "no_growth d d'"
proof -
  let ?d0 = "d\<lparr>is_baseline := a, d_progressive_mode := b, d_arith_code := c\<rparr>"
  obtain x1 d1 where 1: "input_2bytes ?d0 = (x1, d1)" by fastforce
  obtain x2 d2 where 2: "input_byte d1 = (x2, d2)" by fastforce
  obtain x3 d3 where 3: "input_2bytes d2 = (x3, d3)" by fastforce
  obtain x4 d4 where 4: "input_2bytes d3 = (x4, d4)" by fastforce
  obtain x5 d5 where 5: "input_byte d4 = (x5, d5)" by fastforce
  obtain cs d6 where 6: "read_sof_components x5 [] d5 = (cs, d6)" by fastforce
  have "input d' = input d6"
    using assms 1 2 3 4 5 6 by (auto simp: get_sof_def Let_def split: if_splits)
  moreover have "no_growth ?d0 d6"
    by (rule no_growth_trans [OF input_2bytes_growth [OF 1] no_growth_trans [OF input_byte_growth [OF 2]
      no_growth_trans [OF input_2bytes_growth [OF 3] no_growth_trans [OF input_2bytes_growth [OF 4]
      no_growth_trans [OF input_byte_growth [OF 5] read_sof_components_growth [OF 6]]]]]])
  ultimately show ?thesis by (simp add: no_growth_def)
qed

lemma read_sos_components_growth [growth]: "read_sos_components n cur d = Inr d' \<Longrightarrow> no_growth d d'"
proof (induction n arbitrary: cur d)
  case 0
  then show ?case by (auto simp: no_growth_def)
next
  case (Suc n)
  obtain c d1 where 1: "input_byte d = (c, d1)" by fastforce
  obtain t d2 where 2: "input_byte d1 = (t, d2)" by fastforce
  obtain cur1 d3 where r: "read_sos_components n cur1 d3 = Inr d'" "input d3 = input d2"
    using Suc.prems 1 2 by (auto simp: Let_def split: option.splits)
  have "no_growth d3 d'" using r(1) by (rule Suc.IH)
  then have "no_growth d2 d'" using r(2) by (simp add: no_growth_def)
  then show ?case
    by (rule no_growth_trans [OF input_byte_growth [OF 1] no_growth_trans [OF input_byte_growth [OF 2]]])
qed

lemma get_sos_growth [growth]:
  assumes "get_sos d = Inr d'"
  shows "no_growth d d'"
proof -
  obtain x1 d1 where 1: "input_2bytes d = (x1, d1)" by fastforce
  obtain n d2 where 2: "input_byte d1 = (n, d2)" by fastforce
  obtain d3 where 3: "read_sos_components n [] d2 = Inr d3"
    using assms 1 2 by (auto simp: get_sos_def bind_err_Inr split: if_splits)
  obtain x4 d4 where 4: "input_byte d3 = (x4, d4)" by fastforce
  obtain x5 d5 where 5: "input_byte d4 = (x5, d5)" by fastforce
  obtain x6 d6 where 6: "input_byte d5 = (x6, d6)" by fastforce
  have "input d' = input d6"
    using assms 1 2 3 4 5 6 by (auto simp: get_sos_def Let_def split: if_splits)
  moreover have "no_growth d d6"
    by (rule no_growth_trans [OF input_2bytes_growth [OF 1] no_growth_trans [OF input_byte_growth [OF 2]
      no_growth_trans [OF read_sos_components_growth [OF 3] no_growth_trans [OF input_byte_growth [OF 4]
      no_growth_trans [OF input_byte_growth [OF 5] input_byte_growth [OF 6]]]]]])
  ultimately show ?thesis by (simp add: no_growth_def)
qed

lemma get_dac_loop_step:
  assumes "get_dac_loop len d = Inr d'" "len > 0" "input_byte d = (index, d1)" "input_byte d1 = (val, d2)"
  shows "\<exists>d3. get_dac_loop (len - 2) d3 = Inr d' \<and> input d3 = input d2"
proof -
  note u = assms(1) [unfolded get_dac_loop.simps [of len d] assms(3) Let_def prod.case assms(4)]
  show ?thesis
  proof (cases "index \<ge> NUM_ARITH_TBLS")
    case True
    then have "get_dac_loop (len - 2) (d2\<lparr>d_arith_ac_K := (d_arith_ac_K d2)[index - NUM_ARITH_TBLS := val]\<rparr>) = Inr d'"
      using u assms(2) by (simp only: if_True split: if_splits) simp
    moreover have "input (d2\<lparr>d_arith_ac_K := (d_arith_ac_K d2)[index - NUM_ARITH_TBLS := val]\<rparr>) = input d2" by simp
    ultimately show ?thesis by blast
  next
    case False
    then have "get_dac_loop (len - 2) (d2\<lparr>d_arith_dc_L := (d_arith_dc_L d2)[index := val AND 0x0F],
        d_arith_dc_U := (d_arith_dc_U d2)[index := drop_bit 4 val]\<rparr>) = Inr d'"
      using u assms(2) by (simp only: if_True if_False split: if_splits) simp
    moreover have "input (d2\<lparr>d_arith_dc_L := (d_arith_dc_L d2)[index := val AND 0x0F],
        d_arith_dc_U := (d_arith_dc_U d2)[index := drop_bit 4 val]\<rparr>) = input d2" by simp
    ultimately show ?thesis by blast
  qed
qed

lemma get_dac_loop_growth: "get_dac_loop len d = Inr d' \<Longrightarrow> no_growth d d'"
proof (induction "nat len" arbitrary: len d rule: less_induct)
  case less
  show ?case
  proof (cases "len > 0")
    case True
    obtain index d1 where i: "input_byte d = (index, d1)" by fastforce
    obtain val d2 where v: "input_byte d1 = (val, d2)" by fastforce
    have g: "no_growth d d2" by (rule no_growth_trans [OF input_byte_growth [OF i] input_byte_growth [OF v]])
    obtain d3 where "get_dac_loop (len - 2) d3 = Inr d'" "input d3 = input d2"
      using get_dac_loop_step [OF less.prems True i v] by blast
    then have "no_growth d3 d'" using less.hyps [of "len - 2"] True by simp
    then show ?thesis using g \<open>input d3 = input d2\<close> by (simp add: no_growth_def)
  next
    case False
    then show ?thesis using less.prems by (auto simp: get_dac_loop.simps [of len d] no_growth_refl split: if_splits)
  qed
qed

lemma get_dac_growth [growth]: "get_dac d = Inr d' \<Longrightarrow> no_growth d d'"
proof -
  assume a: "get_dac d = Inr d'"
  obtain len d1 where 1: "input_2bytes d = (len, d1)" by fastforce
  have "get_dac_loop (int len - 2) d1 = Inr d'" using a 1 by (simp add: get_dac_def)
  then show ?thesis by (rule no_growth_trans [OF input_2bytes_growth [OF 1] get_dac_loop_growth])
qed

lemma get_dht_loop_growth: "get_dht_loop len d = Inr d' \<Longrightarrow> no_growth d d'"
proof (induction "nat len" arbitrary: len d rule: less_induct)
  case less
  show ?case
  proof (cases "len > 16")
    case True
    obtain index d1 where i: "input_byte d = (index, d1)" by fastforce
    obtain counts d2 where c: "input_bytes 16 d1 = (counts, d2)" by fastforce
    obtain vals d3 where v: "input_bytes (sum_list counts) d2 = (vals, d3)" by fastforce
    have g: "no_growth d d3"
      by (rule no_growth_trans [OF input_byte_growth [OF i] no_growth_trans [OF input_bytes_growth [OF c] input_bytes_growth [OF v]]])
    obtain d4 where "get_dht_loop (len - 17 - int (sum_list counts)) d4 = Inr d'" "input d4 = input d3"
      using less.prems True i c v
      by (auto simp: get_dht_loop.simps [of len d] Let_def split: if_splits)
    then have "no_growth d4 d'" using less.hyps [of "len - 17 - int (sum_list counts)"] True by simp
    then show ?thesis using g \<open>input d4 = input d3\<close> by (auto simp: no_growth_def)
  next
    case False
    then show ?thesis using less.prems by (auto simp: get_dht_loop.simps [of len d] no_growth_refl split: if_splits)
  qed
qed

lemma get_dht_growth [growth]: "get_dht d = Inr d' \<Longrightarrow> no_growth d d'"
proof -
  assume a: "get_dht d = Inr d'"
  obtain len d1 where 1: "input_2bytes d = (len, d1)" by fastforce
  have "get_dht_loop (int len - 2) d1 = Inr d'" using a 1 by (simp add: get_dht_def)
  then show ?thesis by (rule no_growth_trans [OF input_2bytes_growth [OF 1] get_dht_loop_growth])
qed

lemma read_quantvals_growth [growth]: "read_quantvals prec ks q d = (q', d') \<Longrightarrow> no_growth d d'"
proof (induction ks arbitrary: q d)
  case Nil
  then show ?case by (simp add: no_growth_refl)
next
  case (Cons k ks)
  obtain tmp d1 where 1: "(if prec \<noteq> 0 then input_2bytes d else input_byte d) = (tmp, d1)" by fastforce
  have "no_growth d d1" using 1 by (auto split: if_splits intro: growth)
  moreover have "read_quantvals prec ks (q[k := tmp]) d1 = (q', d')"
    using Cons.prems by (simp only: read_quantvals.simps 1 Let_def prod.case)
  ultimately show ?case using Cons.IH no_growth_trans by blast
qed

lemma get_dqt_loop_growth: "get_dqt_loop len d = Inr d' \<Longrightarrow> no_growth d d'"
proof (induction "nat len" arbitrary: len d rule: less_induct)
  case less
  show ?case
  proof (cases "len > 0")
    case True
    obtain b d1 where i: "input_byte d = (b, d1)" by fastforce
    let ?prec = "drop_bit 4 b" and ?n = "b AND 0x0F"
    let ?count = "dqt_count ?prec (len - 1)"
    obtain q d2 where q: "read_quantvals ?prec (take ?count (dqt_order ?count))
        (dqt_start ?prec (len - 1) (old_quantval (d_quant_tbl_ptrs d1 ! ?n))) d1 = (q, d2)" by fastforce
    have g: "no_growth d d2" by (rule no_growth_trans [OF input_byte_growth [OF i] read_quantvals_growth [OF q]])
    let ?len = "if ?prec \<noteq> 0 then len - 1 - int ?count - int ?count else len - 1 - int ?count"
    obtain d4 where "get_dqt_loop ?len d4 = Inr d'" "input d4 = input d2"
      using less.prems True i q by (auto simp: get_dqt_loop.simps [of len d] Let_def split: if_splits)
    then have "no_growth d4 d'" using less.hyps [of ?len d4] True by auto
    then show ?thesis using g \<open>input d4 = input d2\<close> by (auto simp: no_growth_def)
  next
    case False
    then show ?thesis using less.prems by (auto simp: get_dqt_loop.simps [of len d] no_growth_refl split: if_splits)
  qed
qed

lemma get_dqt_growth [growth]: "get_dqt d = Inr d' \<Longrightarrow> no_growth d d'"
proof -
  assume a: "get_dqt d = Inr d'"
  obtain len d1 where 1: "input_2bytes d = (len, d1)" by fastforce
  have "get_dqt_loop (int len - 2) d1 = Inr d'" using a 1 by (simp add: get_dqt_def)
  then show ?thesis by (rule no_growth_trans [OF input_2bytes_growth [OF 1] get_dqt_loop_growth])
qed

lemma get_dri_growth [growth]: "get_dri d = Inr d' \<Longrightarrow> no_growth d d'"
proof -
  assume a: "get_dri d = Inr d'"
  obtain len d1 where 1: "input_2bytes d = (len, d1)" by fastforce
  obtain tmp d2 where 2: "input_2bytes d1 = (tmp, d2)" by fastforce
  have "input d' = input d2" using a 1 2 by (auto simp: get_dri_def split: if_splits)
  then show ?thesis
    using no_growth_trans [OF input_2bytes_growth [OF 1] input_2bytes_growth [OF 2]] by (simp add: no_growth_def)
qed

lemma get_lse_growth [growth]: "get_lse d = Inr d' \<Longrightarrow> no_growth d d'"
proof -
  assume a: "get_lse d = Inr d'"
  obtain len d1 where 1: "input_2bytes d = (len, d1)" by fastforce
  obtain i d2 where 2: "input_byte d1 = (i, d2)" by fastforce
  obtain bs d3 where 3: "input_bytes 21 d2 = (bs, d3)" by fastforce
  have "input d' = input d3" using a 1 2 3 by (auto simp: get_lse_def split: if_splits)
  then show ?thesis
    using no_growth_trans [OF input_2bytes_growth [OF 1] no_growth_trans [OF input_byte_growth [OF 2] input_bytes_growth [OF 3]]]
    by (simp add: no_growth_def)
qed

lemma examine_input [simp]:
  "input (examine_app0 b d) = input d" "input (examine_app14 b d) = input d"
  by (simp_all add: examine_app0_def examine_app14_def)

lemma skip_growth: "no_growth d d1 \<Longrightarrow> input d2 = input d1 \<Longrightarrow> no_growth d (skip_bytes n d2)"
  using skip_bytes_growth [of d2 n] by (simp add: no_growth_def)

lemma get_interesting_appn_growth [growth]:
  assumes "get_interesting_appn d = Inr d'"
  shows "no_growth d d'"
proof -
  obtain len d1 where 1: "input_2bytes d = (len, d1)" by fastforce
  define k where "k = (if int len - 2 \<ge> int APPN_DATA_LEN then APPN_DATA_LEN else if int len - 2 > 0 then nat (int len - 2) else 0)"
  obtain b d2 where 2: "input_bytes k d1 = (b, d2)" by fastforce
  have g: "no_growth d d2" by (rule no_growth_trans [OF input_2bytes_growth [OF 1] input_bytes_growth [OF 2]])
  have "d' = skip_bytes (int len - 2 - int k) (examine_app0 b d2) \<or> d' = skip_bytes (int len - 2 - int k) (examine_app14 b d2)"
    using assms 1 2 unfolding get_interesting_appn_def Let_def prod.case k_def [symmetric]
    by (simp add: k_def [symmetric] split: if_splits)
  then show ?thesis using skip_growth [OF g] by auto
qed

lemma save_marker_skips:
  assumes "save_marker d = Inr d'" "input_2bytes d = (len, d1)" "int len - 2 \<ge> 0"
  shows "\<exists>k b d2 d4 n. input_bytes k d1 = (b, d2) \<and> d' = skip_bytes n d4 \<and> input d4 = input d2"
proof -
  define k0 where "k0 = (if unread_marker d1 = code M_COM then length_limit_COM d1
    else length_limit_APPn d1 ! (unread_marker d1 - code M_APP0))"
  define k where "k = (if nat (int len - 2) < k0 then nat (int len - 2) else k0)"
  obtain b d2 where 2: "input_bytes k d1 = (b, d2)" by fastforce
  define d3 where "d3 = d2\<lparr>marker_list := marker_list d2 @
    [\<lparr>saved_code = unread_marker d2, original_length = nat (int len - 2), saved_data = b\<rparr>]\<rparr>"
  define d4 where "d4 = (if unread_marker d3 = code M_APP0 then examine_app0 b d3
    else if unread_marker d3 = code M_APP14 then examine_app14 b d3 else d3)"
  have "save_marker d = Inr (skip_bytes (int len - 2 - int k) d4)"
    unfolding save_marker_def Let_def assms(2) prod.case k0_def [symmetric] k_def [symmetric] 2 d3_def [symmetric] d4_def [symmetric]
    using assms(3) by (simp only: if_True)
  then have "d' = skip_bytes (int len - 2 - int k) d4" using assms(1) by simp
  moreover have "input d4 = input d2" by (simp add: d4_def d3_def)
  ultimately show ?thesis using 2 by blast
qed

lemma save_marker_growth [growth]:
  assumes "save_marker d = Inr d'"
  shows "no_growth d d'"
proof -
  obtain len d1 where 1: "input_2bytes d = (len, d1)" by fastforce
  show ?thesis
  proof (cases "int len - 2 \<ge> 0")
    case True
    then obtain k b d2 d4 n where 2: "input_bytes k d1 = (b, d2)" and r: "d' = skip_bytes n d4" "input d4 = input d2"
      using save_marker_skips [OF assms 1] by blast
    have "no_growth d d2" by (rule no_growth_trans [OF input_2bytes_growth [OF 1] input_bytes_growth [OF 2]])
    then show ?thesis using skip_growth r by simp
  next
    case False
    then have "input d' = input d1" using assms 1 by (auto simp: save_marker_def split: if_splits)
    then show ?thesis using input_2bytes_growth [OF 1] by (simp add: no_growth_def)
  qed
qed

lemma skip_variable_growth [growth]: "skip_variable d = Inr d' \<Longrightarrow> no_growth d d'"
  using skip_growth [OF input_2bytes_growth refl]
  by (cases "input_2bytes d") (auto simp: skip_variable_def)

lemma run_processor_growth [growth]: "run_processor p d = Inr d' \<Longrightarrow> no_growth d d'"
  by (cases p) (auto simp: run_processor_def intro: growth)

lemma get_soi_growth [growth]: "get_soi d = Inr d' \<Longrightarrow> no_growth d d'"
  by (auto simp: get_soi_def no_growth_def split: if_splits)

lemma process_marker_growth:
  assumes "process_marker d = Inr (Inr d')"
  shows "no_growth d d'" "unread_marker d' = 0"
proof -
  obtain r d1 where r: "r = Inr d1" "d' = d1\<lparr>unread_marker := 0\<rparr>"
    "r \<in> {get_soi d, get_sof True False False d, get_sof False False False d, get_sof False True False d,
      get_sof False False True d, get_sof False True True d, get_dac d, get_dht d, get_dqt d, get_dri d, get_lse d,
      run_processor (process_APPn d ! (unread_marker d - code M_APP0)) d, run_processor (process_COM d) d, Inr d, skip_variable d}"
    using assms by (auto simp: process_marker_def Let_def bind_err_Inr split: if_splits)
  then have "no_growth d d1" by (auto intro: growth)
  then show "no_growth d d'" "unread_marker d' = 0" using r(2) by (simp_all add: no_growth_def)
qed

lemma scan_marker_consumes:
  "scan_marker ff n bs = (c, n', rest) \<Longrightarrow> c \<noteq> 0xD9 \<Longrightarrow> length rest + (if ff then 1 else 2) \<le> length bs"
  by (induction ff n bs rule: scan_marker.induct) (auto split: if_splits)

lemma fetch_consumes:
  assumes "fetch_marker d = Inr d1" "unread_marker d = 0" "unread_marker d1 \<noteq> 0xD9"
  shows "length (input d1) + 2 \<le> length (input d)"
proof (cases "saw_SOI d")
  case True
  then show ?thesis
    using assms scan_marker_consumes [of False "discarded_bytes d" "input d"]
    by (auto simp: fetch_marker_def next_marker_def split: prod.splits)
next
  case False
  then show ?thesis
    using assms by (auto simp: fetch_marker_def first_marker_def input_byte_def split: list.splits if_splits)
qed

lemma eoi_stops: "unread_marker d = 0xD9 \<Longrightarrow> process_marker d \<noteq> Inr (Inr d')"
  by (simp add: process_marker_def)

lemma read_markers_unread_0:
  "unread_marker d = 0 \<Longrightarrow> \<exists>r. read_markers d = Some r"
proof (induction "length (input d)" arbitrary: d rule: less_induct)
  case less
  show ?case
  proof (cases "\<exists>d1 d2. fetch_marker d = Inr d1 \<and> process_marker d1 = Inr (Inr d2)")
    case True
    then obtain d1 d2 where f: "fetch_marker d = Inr d1" and p: "process_marker d1 = Inr (Inr d2)" by blast
    have "length (input d1) + 2 \<le> length (input d)" using fetch_consumes [OF f less.prems] eoi_stops p by blast
    then have "length (input d2) < length (input d)"
      using process_marker_growth(1) [OF p] by (auto simp: no_growth_def max_def split: if_splits)
    then have "\<exists>r. read_markers d2 = Some r" using less.hyps process_marker_growth(2) [OF p] by blast
    then show ?thesis using f p by (subst read_markers.simps) simp
  next
    case False
    then show ?thesis
      by (subst read_markers.simps) (auto simp: bind_err_def split: sum.splits)
  qed
qed

text \<open>
  C17: The marker loop returns on every input.  Whatever the data is, valid, damaged, truncated or
  empty, and from every state of the reader, \<open>read_markers\<close> ends with a status or an error: each
  turn that goes on has used up at least two bytes, and data that is used up is followed by an EOI.
\<close>

theorem read_markers_terminates: "\<exists>r. read_markers d = Some r"
proof (cases "\<exists>d1 d2. fetch_marker d = Inr d1 \<and> process_marker d1 = Inr (Inr d2)")
  case True
  then obtain d1 d2 where f: "fetch_marker d = Inr d1" and p: "process_marker d1 = Inr (Inr d2)" by blast
  show ?thesis
    using read_markers_unread_0 [OF process_marker_growth(2) [OF p]] f p by (subst read_markers.simps) simp
next
  case False
  then show ?thesis by (subst read_markers.simps) (auto simp: bind_err_def split: sum.splits)
qed

end
