(* ===== verification/JpegData.thy ===== *)
theory JpegData
  imports JpegReader JpegWriter
begin

text \<open>
  The data source and destination managers \<open>jpeg-9a/jdatasrc.c\<close> and \<open>jdatadst.c\<close>, for a file and
  for memory.  The interfaces the marker and entropy modules use are the locales \<open>byte_source\<close>
  (a byte can always be fetched; behind the end the data goes on with FF D9) and \<open>byte_sink\<close>
  (every byte put is delivered, in order).  \<open>fread\<close> returns what is left of the file, at most the
  size asked for; \<open>fwrite\<close> and \<open>malloc\<close> may fail; \<open>size_t\<close> has 32 bits.
\<close>

section \<open>Sources\<close>

text \<open>
  \<open>buffered\<close> is the part of the buffer from \<open>next_input_byte\<close> on, \<open>bytes_in_buffer\<close> bytes; a file
  manager also has the rest of its file and \<open>start_of_file\<close>.
\<close>

datatype manager = Stdio "byte list" bool | Memory

record source_mgr =
  buffered :: "byte list"
  mgr :: manager

definition INPUT_BUF_SIZE :: nat where "INPUT_BUF_SIZE = 4096"

definition init_source :: "source_mgr \<Rightarrow> source_mgr" where
  "init_source s = (case mgr s of Stdio f st \<Rightarrow> s\<lparr>mgr := Stdio f True\<rparr> | Memory \<Rightarrow> s)"

definition fill_input_buffer :: "byte list \<Rightarrow> bool \<Rightarrow> source_mgr \<Rightarrow> source_mgr result" where
  "fill_input_buffer infile start_of_file s =
     (let chunk = take INPUT_BUF_SIZE infile; rest = drop INPUT_BUF_SIZE infile
      in if length chunk \<le> 0
         then (if start_of_file then Inl JERR_INPUT_EMPTY
               else Inr (s\<lparr>buffered := [0xFF, of_nat (code M_EOI)], mgr := Stdio rest False\<rparr>))
         else Inr (s\<lparr>buffered := chunk, mgr := Stdio rest False\<rparr>))"

definition fill_mem_input_buffer :: "source_mgr \<Rightarrow> source_mgr result" where
  "fill_mem_input_buffer s = Inr (s\<lparr>buffered := [0xFF, of_nat (code M_EOI)]\<rparr>)"

text \<open>\<open>(*src->fill_input_buffer)(cinfo)\<close>\<close>

definition fill :: "source_mgr \<Rightarrow> source_mgr result" where
  "fill s = (case mgr s of Stdio f st \<Rightarrow> fill_input_buffer f st s | Memory \<Rightarrow> fill_mem_input_buffer s)"

lemma fill_nonempty: "fill s = Inr s' \<Longrightarrow> buffered s' \<noteq> []"
  by (auto simp: fill_def fill_input_buffer_def fill_mem_input_buffer_def Let_def split: manager.splits if_splits)

text \<open>\<open>INPUT_BYTE\<close> with \<open>MAKE_BYTE_AVAIL\<close>.\<close>

definition make_byte_avail :: "source_mgr \<Rightarrow> source_mgr result" where
  "make_byte_avail s = (if length (buffered s) = 0 then fill s else Inr s)"

definition get_byte :: "source_mgr \<Rightarrow> (byte \<times> source_mgr) result" where
  "get_byte s = bind_err (make_byte_avail s) (\<lambda>s1. Inr (hd (buffered s1), s1\<lparr>buffered := tl (buffered s1)\<rparr>))"

function skip_loop :: "nat \<Rightarrow> source_mgr \<Rightarrow> source_mgr result" where
  "skip_loop num_bytes s =
     (if num_bytes > length (buffered s)
      then (case fill s of Inl e \<Rightarrow> Inl e | Inr s1 \<Rightarrow> skip_loop (num_bytes - length (buffered s)) s1)
      else Inr (s\<lparr>buffered := drop num_bytes (buffered s)\<rparr>))"
  by pat_completeness auto
termination
proof (relation "measure (\<lambda>(n, s). 2 * n + (if buffered s = [] then 1 else 0))", goal_cases)
  case (2 n s s1)
  then show ?case using fill_nonempty [OF 2(2)] by (cases "buffered s") auto
qed simp

declare skip_loop.simps [simp del]

definition skip_input_data :: "int \<Rightarrow> source_mgr \<Rightarrow> source_mgr result" where
  "skip_input_data num_bytes s = (if num_bytes > 0 then skip_loop (nat num_bytes) s else Inr s)"

definition jpeg_stdio_src :: "byte list \<Rightarrow> source_mgr" where
  "jpeg_stdio_src infile = \<lparr>buffered = [], mgr = Stdio infile True\<rparr>"

text \<open>\<open>None\<close> is a null pointer.\<close>

definition jpeg_mem_src :: "byte list option \<Rightarrow> source_mgr result" where
  "jpeg_mem_src inbuffer =
     (case inbuffer of None \<Rightarrow> Inl JERR_INPUT_EMPTY
      | Some bs \<Rightarrow> if length bs = 0 then Inl JERR_INPUT_EMPTY else Inr \<lparr>buffered = bs, mgr = Memory\<rparr>)"

section \<open>The source contract\<close>

text \<open>The data a source still stands for.\<close>

definition pending :: "source_mgr \<Rightarrow> byte list" where
  "pending s = buffered s @ (case mgr s of Stdio f st \<Rightarrow> f | Memory \<Rightarrow> [])"

definition next_byte :: "byte list \<Rightarrow> byte \<times> byte list" where
  "next_byte bs = (case bs of b # r \<Rightarrow> (b, r) | [] \<Rightarrow> (0xFF, [0xD9]))"

fun get_many :: "('s \<Rightarrow> (byte \<times> 's) result) \<Rightarrow> nat \<Rightarrow> 's \<Rightarrow> (byte list \<times> 's) result" where
  "get_many get 0 s = Inr ([], s)"
| "get_many get (Suc n) s =
     bind_err (get s) (\<lambda>(b, s1). bind_err (get_many get n s1) (\<lambda>(bs, s2). Inr (b # bs, s2)))"

locale byte_source =
  fixes get :: "'s \<Rightarrow> (byte \<times> 's) result"
    and skip :: "int \<Rightarrow> 's \<Rightarrow> 's result"
    and stream :: "'s \<Rightarrow> byte list"
    and ok :: "'s \<Rightarrow> bool"
  assumes get_spec: "ok s \<Longrightarrow> \<exists>s'. get s = Inr (fst (next_byte (stream s)), s') \<and> ok s' \<and> stream s' = snd (next_byte (stream s))"
    and skip_spec: "ok s \<Longrightarrow> \<exists>s'. skip n s = Inr s' \<and> ok s' \<and> stream s' = ((\<lambda>bs. snd (next_byte bs)) ^^ nat n) (stream s)"
begin

text \<open>Reading through the manager is \<open>input_bytes\<close> of the marker reader.\<close>

lemma get_many_input:
  "ok s \<Longrightarrow> \<exists>s' bs. get_many get n s = Inr (bs, s') \<and> ok s' \<and>
    input_bytes n (d\<lparr>input := stream s\<rparr>) = (map unat bs, d\<lparr>input := stream s'\<rparr>)"
proof (induction n arbitrary: s)
  case (Suc n)
  obtain s1 where 1: "get s = Inr (fst (next_byte (stream s)), s1)" "ok s1" "stream s1 = snd (next_byte (stream s))"
    using get_spec [OF Suc.prems] by blast
  obtain s' bs where 2: "get_many get n s1 = Inr (bs, s')" "ok s'"
    "input_bytes n (d\<lparr>input := stream s1\<rparr>) = (map unat bs, d\<lparr>input := stream s'\<rparr>)"
    using Suc.IH [OF 1(2)] by blast
  have "input_byte (d\<lparr>input := stream s\<rparr>) = (unat (fst (next_byte (stream s))), d\<lparr>input := stream s1\<rparr>)"
    using 1(3) by (cases "stream s") (simp_all add: input_byte_def next_byte_def)
  then show ?case using 1(1) 2 by simp
qed simp

lemma skip_input:
  assumes "ok s"
  shows "\<exists>s'. skip n s = Inr s' \<and> ok s' \<and> skip_bytes n (d\<lparr>input := stream s\<rparr>) = d\<lparr>input := stream s'\<rparr>"
proof -
  have "snd (input_bytes m (d\<lparr>input := bs\<rparr>)) = d\<lparr>input := ((\<lambda>bs. snd (next_byte bs)) ^^ m) bs\<rparr>" for m bs
  proof (induction m arbitrary: bs)
    case (Suc m)
    have "input_byte (d\<lparr>input := bs\<rparr>) = (unat (fst (next_byte bs)), d\<lparr>input := snd (next_byte bs)\<rparr>)"
      by (cases bs) (simp_all add: input_byte_def next_byte_def)
    then show ?case
      using Suc.IH [of "snd (next_byte bs)"]
      by (auto simp: funpow_Suc_right simp del: funpow.simps split: prod.splits)
  qed simp
  note skipped = this
  obtain s' where s': "skip n s = Inr s'" "ok s'" "stream s' = ((\<lambda>bs. snd (next_byte bs)) ^^ nat n) (stream s)"
    using skip_spec [OF assms, of n] by blast
  have "skip_bytes n (d\<lparr>input := stream s\<rparr>) = d\<lparr>input := stream s'\<rparr>"
    unfolding skip_bytes_def s'(3) by (rule skipped)
  then show ?thesis using s'(1,2) by blast
qed

end

definition source_ok :: "source_mgr \<Rightarrow> bool" where
  "source_ok s \<longleftrightarrow> (case mgr s of Stdio f st \<Rightarrow> st \<longrightarrow> buffered s = [] \<and> f \<noteq> [] | Memory \<Rightarrow> True)"

lemma fill_spec:
  assumes "source_ok s" "buffered s = []"
  shows "\<exists>s'. fill s = Inr s' \<and> source_ok s' \<and> buffered s' \<noteq> [] \<and>
    pending s' = (if pending s = [] then [0xFF, 0xD9] else pending s)"
  using assms
  by (auto simp: fill_def fill_input_buffer_def fill_mem_input_buffer_def source_ok_def pending_def INPUT_BUF_SIZE_def
      split: manager.splits)

lemma get_byte_spec:
  assumes "source_ok s"
  shows "\<exists>s'. get_byte s = Inr (fst (next_byte (pending s)), s') \<and> source_ok s' \<and> pending s' = snd (next_byte (pending s))"
proof (cases "buffered s")
  case Nil
  then obtain s1 where s1: "fill s = Inr s1" "source_ok s1" "buffered s1 \<noteq> []"
    "pending s1 = (if pending s = [] then [0xFF, 0xD9] else pending s)"
    using fill_spec [OF assms] by blast
  have "get_byte s = Inr (hd (buffered s1), s1\<lparr>buffered := tl (buffered s1)\<rparr>)"
    using Nil s1(1) by (simp add: get_byte_def make_byte_avail_def)
  moreover have "pending s1 = hd (buffered s1) # pending (s1\<lparr>buffered := tl (buffered s1)\<rparr>)"
    using s1(3) by (simp add: pending_def)
  moreover have "source_ok (s1\<lparr>buffered := tl (buffered s1)\<rparr>)"
    using s1(2,3) by (auto simp: source_ok_def split: manager.splits)
  ultimately show ?thesis using s1(4) by (auto simp: next_byte_def split: if_splits list.splits)
next
  case (Cons b bs)
  then show ?thesis
    using assms by (auto simp: get_byte_def make_byte_avail_def pending_def next_byte_def source_ok_def split: manager.splits)
qed

lemma fill_ignores: "fill s = fill (s\<lparr>buffered := []\<rparr>)"
  by (simp add: fill_def fill_input_buffer_def fill_mem_input_buffer_def Let_def split: manager.splits)

abbreviation after :: "nat \<Rightarrow> byte list \<Rightarrow> byte list" where
  "after n \<equiv> (\<lambda>bs. snd (next_byte bs)) ^^ n"

lemma after_drop: "n \<le> length bs \<Longrightarrow> after n bs = drop n bs"
  by (induction n arbitrary: bs) (auto simp: funpow_Suc_right next_byte_def simp del: funpow.simps(2) split: list.splits)

lemma after_add: "after (m + n) bs = after n (after m bs)"
  by (simp add: funpow_add add.commute [of m n])

lemma after_eoi: "0 < n \<Longrightarrow> after n (if bs = [] then [0xFF, 0xD9] else bs) = after n bs"
  by (cases n) (auto simp: funpow_Suc_right next_byte_def simp del: funpow.simps(2))

lemma skip_loop_spec:
  "source_ok s \<Longrightarrow> \<exists>s'. skip_loop n s = Inr s' \<and> source_ok s' \<and> pending s' = after n (pending s)"
proof (induction n s rule: skip_loop.induct)
  case (1 n s)
  let ?k = "length (buffered s)"
  have drop: "pending (s\<lparr>buffered := drop m (buffered s)\<rparr>) = after m (pending s)" if "m \<le> ?k" for m
    using that after_drop [of m "pending s"] by (simp add: pending_def)
  show ?case
  proof (cases "n > ?k")
    case True
    let ?s0 = "s\<lparr>buffered := []\<rparr>"
    have ok0: "source_ok ?s0" using 1(2) by (auto simp: source_ok_def split: manager.splits)
    have p0: "pending ?s0 = after ?k (pending s)" using drop [of ?k] by simp
    obtain s1 where s1: "fill s = Inr s1" "source_ok s1"
      "pending s1 = (if pending ?s0 = [] then [0xFF, 0xD9] else pending ?s0)"
      using fill_spec [OF ok0] fill_ignores [of s] by auto
    obtain s' where s': "skip_loop (n - ?k) s1 = Inr s'" "source_ok s'" "pending s' = after (n - ?k) (pending s1)"
      using 1(1) [OF True s1(1,2)] by blast
    have "after (n - ?k) (pending s1) = after (n - ?k) (after ?k (pending s))"
      unfolding s1(3) p0 using True by (intro after_eoi) simp
    also have "\<dots> = after n (pending s)" using after_add [of ?k "n - ?k" "pending s"] True by simp
    finally show ?thesis using True s1(1) s' by (simp add: skip_loop.simps [of n s])
  next
    case False
    then show ?thesis
      using drop [of n] 1(2) by (auto simp: skip_loop.simps [of n s] source_ok_def split: manager.splits)
  qed
qed

lemma skip_input_data_spec:
  "source_ok s \<Longrightarrow> \<exists>s'. skip_input_data n s = Inr s' \<and> source_ok s' \<and> pending s' = after (nat n) (pending s)"
  using skip_loop_spec [of s "nat n"] by (cases "n > 0") (auto simp: skip_input_data_def)

interpretation source: byte_source get_byte skip_input_data pending source_ok
  by unfold_locales (simp_all only: get_byte_spec skip_input_data_spec)

section \<open>Destinations\<close>

definition OUTPUT_BUF_SIZE :: nat where "OUTPUT_BUF_SIZE = 4096"

text \<open>
  A file: \<open>buffer\<close> has 4096 cells, \<open>free_in_buffer\<close> of them free.  \<open>fwrite written n\<close> is the
  number of bytes \<open>fwrite\<close> takes when \<open>written\<close> bytes are in the file.
\<close>

record stdio_dest =
  outfile :: "byte list"
  buffer :: "byte list"
  next_output :: nat
  free_in_buffer :: nat

definition init_destination :: "byte list \<Rightarrow> byte list \<Rightarrow> stdio_dest" where
  "init_destination file junk =
     \<lparr>outfile = file, buffer = junk, next_output = 0, free_in_buffer = OUTPUT_BUF_SIZE\<rparr>"

definition empty_output_buffer :: "(nat \<Rightarrow> nat \<Rightarrow> nat) \<Rightarrow> stdio_dest \<Rightarrow> stdio_dest result" where
  "empty_output_buffer fwrite d =
     (let k = fwrite (length (outfile d)) OUTPUT_BUF_SIZE
      in if k \<noteq> OUTPUT_BUF_SIZE then Inl JERR_FILE_WRITE
         else Inr (d\<lparr>outfile := outfile d @ take OUTPUT_BUF_SIZE (buffer d), next_output := 0,
                     free_in_buffer := OUTPUT_BUF_SIZE\<rparr>))"

definition stdio_emit_byte :: "(nat \<Rightarrow> nat \<Rightarrow> nat) \<Rightarrow> byte \<Rightarrow> stdio_dest \<Rightarrow> stdio_dest result" where
  "stdio_emit_byte fwrite val d =
     (case store_bytes (next_output d) [val] (buffer d) of
        None \<Rightarrow> Inl FAULT
      | Some b \<Rightarrow>
          (let d1 = d\<lparr>buffer := b, next_output := next_output d + 1, free_in_buffer := free_in_buffer d - 1\<rparr>
           in if free_in_buffer d1 = 0 then empty_output_buffer fwrite d1 else Inr d1))"

text \<open>\<open>ferror\<close>: the stream's error flag after \<open>fflush\<close>.\<close>

definition term_destination :: "(nat \<Rightarrow> nat \<Rightarrow> nat) \<Rightarrow> bool \<Rightarrow> stdio_dest \<Rightarrow> stdio_dest result" where
  "term_destination fwrite ferror d =
     (let datacount = OUTPUT_BUF_SIZE - free_in_buffer d
      in bind_err
           (if datacount > 0
            then (if fwrite (length (outfile d)) datacount \<noteq> datacount then Inl JERR_FILE_WRITE
                  else Inr (d\<lparr>outfile := outfile d @ take datacount (buffer d)\<rparr>))
            else Inr d)
           (\<lambda>d1. if ferror then Inl JERR_FILE_WRITE else Inr d1))"

text \<open>
  Memory: the blocks the library has allocated and not freed are \<open>owned\<close>, named by numbers; the
  caller's buffer is block 0.  \<open>newbuffer\<close> is the current allocated block, if any.
\<close>

record mem_dest =
  mem_buffer :: "byte list"
  buffer_id :: nat
  newbuffer :: "nat option"
  owned :: "nat set"
  bufsize :: nat
  mem_next :: nat
  mem_free :: nat

definition free_block :: "nat option \<Rightarrow> nat set \<Rightarrow> nat set result" where
  "free_block p bs = (case p of None \<Rightarrow> Inr bs | Some i \<Rightarrow> if i \<in> bs then Inr (bs - {i}) else Inl FAULT)"

definition empty_mem_output_buffer :: "(nat \<Rightarrow> bool) \<Rightarrow> mem_dest \<Rightarrow> mem_dest result" where
  "empty_mem_output_buffer malloc d =
     (let nextsize = (bufsize d * 2) mod 2 ^ 32
      in if \<not> malloc nextsize then Inl JERR_OUT_OF_MEMORY
         else
           (let i = Suc (buffer_id d) in
            case store_bytes 0 (take (bufsize d) (mem_buffer d)) (replicate nextsize 0) of
              None \<Rightarrow> Inl FAULT
            | Some nextbuffer \<Rightarrow>
                bind_err (free_block (newbuffer d) (owned d)) (\<lambda>bs.
                  Inr (d\<lparr>owned := insert i bs, newbuffer := Some i, buffer_id := i, mem_next := bufsize d,
                         mem_free := bufsize d, mem_buffer := nextbuffer, bufsize := nextsize\<rparr>))))"

definition mem_emit_byte :: "(nat \<Rightarrow> bool) \<Rightarrow> byte \<Rightarrow> mem_dest \<Rightarrow> mem_dest result" where
  "mem_emit_byte malloc val d =
     (case store_bytes (mem_next d) [val] (mem_buffer d) of
        None \<Rightarrow> Inl FAULT
      | Some b \<Rightarrow>
          (let d1 = d\<lparr>mem_buffer := b, mem_next := mem_next d + 1, mem_free := mem_free d - 1\<rparr>
           in if mem_free d1 = 0 then empty_mem_output_buffer malloc d1 else Inr d1))"

text \<open>The contents handed to the caller: \<open>*outsize\<close> bytes of \<open>*outbuffer\<close>.\<close>

definition term_mem_destination :: "mem_dest \<Rightarrow> byte list \<times> nat" where
  "term_mem_destination d = (take (bufsize d - mem_free d) (mem_buffer d), buffer_id d)"

definition fresh_mem :: mem_dest where
  "fresh_mem = \<lparr>mem_buffer = replicate OUTPUT_BUF_SIZE 0, buffer_id = 1, newbuffer = Some 1, owned = {1},
     bufsize = OUTPUT_BUF_SIZE, mem_next = 0, mem_free = OUTPUT_BUF_SIZE\<rparr>"

text \<open>\<open>outbuffer\<close> is the caller's buffer, of \<open>*outsize\<close> bytes, or null.\<close>

definition jpeg_mem_dest :: "(nat \<Rightarrow> bool) \<Rightarrow> byte list option \<Rightarrow> mem_dest result" where
  "jpeg_mem_dest malloc outbuffer =
     (case outbuffer of
        Some b \<Rightarrow>
          if length b = 0
          then (if malloc OUTPUT_BUF_SIZE then Inr (fresh_mem) else Inl JERR_OUT_OF_MEMORY)
          else Inr \<lparr>mem_buffer = b, buffer_id = 0, newbuffer = None, owned = {}, bufsize = length b, mem_next = 0,
                    mem_free = length b\<rparr>
      | None \<Rightarrow> if malloc OUTPUT_BUF_SIZE then Inr fresh_mem else Inl JERR_OUT_OF_MEMORY)"

section \<open>The destination contract\<close>

fun put_all :: "(byte \<Rightarrow> 's \<Rightarrow> 's result) \<Rightarrow> byte list \<Rightarrow> 's \<Rightarrow> 's result" where
  "put_all put [] s = Inr s"
| "put_all put (b # bs) s = bind_err (put b s) (put_all put bs)"

locale byte_sink =
  fixes put :: "byte \<Rightarrow> 's \<Rightarrow> 's result"
    and delivered :: "'s \<Rightarrow> byte list"
    and ok :: "'s \<Rightarrow> bool"
    and fails :: "jpeg_error set"
  assumes put_ok: "ok s \<Longrightarrow> put b s = Inr s' \<Longrightarrow> ok s' \<and> delivered s' = delivered s @ [b]"
    and put_fails: "ok s \<Longrightarrow> put b s = Inl e \<Longrightarrow> e \<in> fails"
begin

lemma put_all_delivers: "ok s \<Longrightarrow> put_all put bs s = Inr s' \<Longrightarrow> ok s' \<and> delivered s' = delivered s @ bs"
proof (induction bs arbitrary: s)
  case (Cons b bs)
  then obtain s1 where "put b s = Inr s1" "put_all put bs s1 = Inr s'" by (auto simp: bind_err_Inr)
  then show ?case using Cons put_ok by fastforce
qed simp

lemma put_all_fails: "ok s \<Longrightarrow> put_all put bs s = Inl e \<Longrightarrow> e \<in> fails"
proof (induction bs arbitrary: s)
  case (Cons b bs)
  show ?case
  proof (cases "put b s")
    case (Inl x)
    then show ?thesis using Cons.prems put_fails by auto
  next
    case (Inr s1)
    then show ?thesis using Cons.IH [of s1] Cons.prems put_ok by auto
  qed
qed simp

end

definition stdio_ok :: "stdio_dest \<Rightarrow> bool" where
  "stdio_ok d \<longleftrightarrow> length (buffer d) = OUTPUT_BUF_SIZE \<and> 0 < free_in_buffer d \<and>
     next_output d + free_in_buffer d = OUTPUT_BUF_SIZE"

definition stdio_delivered :: "stdio_dest \<Rightarrow> byte list" where
  "stdio_delivered d = outfile d @ take (next_output d) (buffer d)"

lemma store_next:
  assumes "n < length m"
  shows "store_bytes n [b] m = Some (m[n := b])" "take (Suc n) (m[n := b]) = take n m @ [b]"
  using assms by (simp_all add: store_bytes_def upd_conv_take_nth_drop take_Suc_conv_app_nth)

lemma stdio_emit_ok:
  assumes "stdio_ok d" "stdio_emit_byte fwrite b d = Inr d'"
  shows "stdio_ok d' \<and> stdio_delivered d' = stdio_delivered d @ [b]"
proof -
  have n: "next_output d < length (buffer d)" using assms(1) by (auto simp: stdio_ok_def)
  show ?thesis
  proof (cases "free_in_buffer d = 1")
    case True
    then have "Suc (next_output d) = OUTPUT_BUF_SIZE" using assms(1) by (simp add: stdio_ok_def)
    then show ?thesis
      using assms True store_next [OF n, of b] n
      by (auto simp: stdio_emit_byte_def stdio_ok_def stdio_delivered_def empty_output_buffer_def Let_def
          OUTPUT_BUF_SIZE_def split: if_splits)
  next
    case False
    then show ?thesis
      using assms store_next [OF n, of b]
      by (auto simp: stdio_emit_byte_def stdio_ok_def stdio_delivered_def Let_def)
  qed
qed

lemma stdio_emit_fails:
  "stdio_ok d \<Longrightarrow> stdio_emit_byte fwrite b d = Inl e \<Longrightarrow> e \<in> {JERR_FILE_WRITE}"
  by (auto simp: stdio_emit_byte_def stdio_ok_def empty_output_buffer_def Let_def store_next(1) split: if_splits)

interpretation stdio: byte_sink "stdio_emit_byte fwrite" stdio_delivered stdio_ok "{JERR_FILE_WRITE}" for fwrite
  by unfold_locales (erule stdio_emit_ok stdio_emit_fails, assumption)+

text \<open>A disk that takes everything never fails.\<close>

lemma stdio_emit_disk: "stdio_ok d \<Longrightarrow> stdio_emit_byte (\<lambda>w n. n) b d = Inl e \<Longrightarrow> e \<in> {}"
  by (auto simp: stdio_emit_byte_def stdio_ok_def empty_output_buffer_def Let_def store_next(1) split: if_splits)

interpretation disk: byte_sink "stdio_emit_byte (\<lambda>w n. n)" stdio_delivered stdio_ok "{}"
  by unfold_locales (erule stdio_emit_ok stdio_emit_disk, assumption)+

lemma stdio_finished: "stdio_ok d \<Longrightarrow> OUTPUT_BUF_SIZE - free_in_buffer d = next_output d"
  unfolding stdio_ok_def by linarith

lemma stdio_started:
  assumes "length junk = OUTPUT_BUF_SIZE"
  shows "stdio_ok (init_destination file junk)" "stdio_delivered (init_destination file junk) = file"
  using assms by (simp_all add: init_destination_def stdio_ok_def stdio_delivered_def OUTPUT_BUF_SIZE_def)

text \<open>
  A block of 2 GB or more is not available; the blocks the library owns are the current one,
  or none while the caller's buffer is in use.
\<close>

definition mem_ok :: "(nat \<Rightarrow> bool) \<Rightarrow> mem_dest \<Rightarrow> bool" where
  "mem_ok malloc d \<longleftrightarrow> (\<forall>n. malloc n \<longrightarrow> n < 2 ^ 31) \<and> length (mem_buffer d) = bufsize d \<and> bufsize d < 2 ^ 31 \<and>
     0 < mem_free d \<and> mem_next d + mem_free d = bufsize d \<and>
     (case newbuffer d of None \<Rightarrow> buffer_id d = 0 \<and> owned d = {} | Some i \<Rightarrow> buffer_id d = i \<and> 0 < i \<and> owned d = {i})"

definition mem_delivered :: "mem_dest \<Rightarrow> byte list" where
  "mem_delivered d = take (mem_next d) (mem_buffer d)"

lemma mem_grow:
  assumes "\<forall>n. malloc n \<longrightarrow> n < 2 ^ 31" "length (mem_buffer d) = bufsize d" "bufsize d < 2 ^ 31" "0 < bufsize d"
    and "case newbuffer d of None \<Rightarrow> buffer_id d = 0 \<and> owned d = {} | Some i \<Rightarrow> buffer_id d = i \<and> 0 < i \<and> owned d = {i}"
  shows "(empty_mem_output_buffer malloc d = Inr d' \<longrightarrow> mem_ok malloc d' \<and> mem_delivered d' = mem_buffer d) \<and>
    (empty_mem_output_buffer malloc d = Inl e \<longrightarrow> e = JERR_OUT_OF_MEMORY)"
proof (cases "malloc (bufsize d * 2)")
  case False
  have "bufsize d * 2 mod 2 ^ 32 = bufsize d * 2" using assms(3) by simp
  then show ?thesis using False by (simp add: empty_mem_output_buffer_def)
next
  case True
  have m: "bufsize d * 2 mod 2 ^ 32 = bufsize d * 2" "bufsize d * 2 < 2 ^ 31" using assms(1,3) True by simp_all
  have st: "store_bytes 0 (mem_buffer d) (replicate (bufsize d * 2) 0)
      = Some (mem_buffer d @ replicate (bufsize d) 0)"
    using assms(2) by (simp add: store_bytes_def)
  have fr: "free_block (newbuffer d) (owned d) = Inr {}"
    using assms(5) by (cases "newbuffer d") (simp_all add: free_block_def)
  let ?i = "Suc (buffer_id d)"
  have e: "empty_mem_output_buffer malloc d = Inr (d\<lparr>owned := {?i}, newbuffer := Some ?i, buffer_id := ?i,
      mem_next := bufsize d, mem_free := bufsize d, mem_buffer := mem_buffer d @ replicate (bufsize d) 0,
      bufsize := bufsize d * 2\<rparr>)"
    using True m(1) st fr assms(2) by (simp add: empty_mem_output_buffer_def Let_def)
  show ?thesis unfolding e using assms(1,2,4) m(2) by (auto simp: mem_ok_def mem_delivered_def)
qed

lemma mem_emit_spec:
  assumes "mem_ok malloc d"
  shows "(mem_emit_byte malloc b d = Inr d' \<longrightarrow> mem_ok malloc d' \<and> mem_delivered d' = mem_delivered d @ [b]) \<and>
    (mem_emit_byte malloc b d = Inl e \<longrightarrow> e = JERR_OUT_OF_MEMORY)"
proof -
  have n: "mem_next d < length (mem_buffer d)" using assms by (auto simp: mem_ok_def)
  let ?d1 = "d\<lparr>mem_buffer := (mem_buffer d)[mem_next d := b], mem_next := mem_next d + 1, mem_free := mem_free d - 1\<rparr>"
  have e: "mem_emit_byte malloc b d = (if mem_free ?d1 = 0 then empty_mem_output_buffer malloc ?d1 else Inr ?d1)"
    using store_next(1) [OF n, of b] by (simp add: mem_emit_byte_def Let_def)
  show ?thesis
  proof (cases "mem_free d = 1")
    case True
    then have full: "Suc (mem_next d) = length (mem_buffer d)" using assms by (simp add: mem_ok_def)
    have "(mem_buffer d)[mem_next d := b] = mem_delivered d @ [b]"
      using store_next(2) [OF n, of b] full by (simp add: mem_delivered_def)
    moreover have "(empty_mem_output_buffer malloc ?d1 = Inr d' \<longrightarrow> mem_ok malloc d' \<and> mem_delivered d' = mem_buffer ?d1) \<and>
        (empty_mem_output_buffer malloc ?d1 = Inl e \<longrightarrow> e = JERR_OUT_OF_MEMORY)"
      using assms n by (intro mem_grow) (auto simp: mem_ok_def split: option.splits)
    ultimately show ?thesis unfolding e using True by simp
  next
    case False
    then have "mem_ok malloc ?d1" using assms by (auto simp: mem_ok_def split: option.splits)
    moreover have "mem_delivered ?d1 = mem_delivered d @ [b]"
      using store_next(2) [OF n, of b] by (simp add: mem_delivered_def)
    ultimately show ?thesis unfolding e using False assms by (auto simp: mem_ok_def)
  qed
qed

interpretation mem: byte_sink "mem_emit_byte malloc" mem_delivered "mem_ok malloc" "{JERR_OUT_OF_MEMORY}" for malloc
  by unfold_locales (use mem_emit_spec in blast)+

lemma jpeg_mem_dest_ok:
  assumes "jpeg_mem_dest malloc outbuffer = Inr d" "\<forall>n. malloc n \<longrightarrow> n < 2 ^ 31"
    "\<forall>b. outbuffer = Some b \<longrightarrow> length b < 2 ^ 31"
  shows "mem_ok malloc d \<and> mem_delivered d = []"
  using assms
  by (auto simp: jpeg_mem_dest_def fresh_mem_def mem_ok_def mem_delivered_def OUTPUT_BUF_SIZE_def split: option.splits if_splits)

section \<open>Properties\<close>

text \<open>
  C11: Both source managers, a file read in pieces of 4096 bytes and a block of memory, look to
  the marker reader like the plain byte list of their data: fetching any number of bytes and then
  skipping any number gives exactly what \<open>input_bytes\<close> and \<open>skip_bytes\<close> give on the list, FF D9
  supplied behind the end, and no fetch fails; only an empty file or block is an error.
\<close>

theorem sources_feed_reader:
  assumes "data \<noteq> []" "s = jpeg_stdio_src data \<or> jpeg_mem_src (Some data) = Inr s"
  shows "\<exists>s' bs s''. get_many get_byte n s = Inr (bs, s') \<and> skip_input_data k s' = Inr s'' \<and>
    input_bytes n (d\<lparr>input := data\<rparr>) = (map unat bs, d\<lparr>input := pending s'\<rparr>) \<and>
    skip_bytes k (d\<lparr>input := pending s'\<rparr>) = d\<lparr>input := pending s''\<rparr> \<and>
    get_byte (jpeg_stdio_src []) = Inl JERR_INPUT_EMPTY \<and> jpeg_mem_src (Some []) = Inl JERR_INPUT_EMPTY"
proof -
  have ok: "source_ok s" "pending s = data"
    using assms by (auto simp: jpeg_stdio_src_def jpeg_mem_src_def source_ok_def pending_def)
  obtain s' bs where 1: "get_many get_byte n s = Inr (bs, s')" "source_ok s'"
    "input_bytes n (d\<lparr>input := data\<rparr>) = (map unat bs, d\<lparr>input := pending s'\<rparr>)"
    using source.get_many_input [OF ok(1), of n d] unfolding ok(2) by blast
  obtain s'' where 2: "skip_input_data k s' = Inr s''" "skip_bytes k (d\<lparr>input := pending s'\<rparr>) = d\<lparr>input := pending s''\<rparr>"
    using source.skip_input [OF 1(2), of k d] by blast
  have "get_byte (jpeg_stdio_src []) = Inl JERR_INPUT_EMPTY" "jpeg_mem_src (Some []) = Inl JERR_INPUT_EMPTY"
    by (simp_all add: get_byte_def make_byte_avail_def jpeg_stdio_src_def fill_def fill_input_buffer_def jpeg_mem_src_def)
  then show ?thesis using 1 2 by blast
qed

theorem sources_feed_reader_witness:
  "\<exists>s' bs s''. get_many get_byte 3 (jpeg_stdio_src [1, 2, 7, 4]) = Inr (bs, s') \<and> skip_input_data 1 s' = Inr s'' \<and>
    map unat bs = [1, 2, 7] \<and> pending s' = [4] \<and> pending s'' = []"
proof -
  obtain s' bs s'' where r: "get_many get_byte 3 (jpeg_stdio_src [1, 2, 7, 4]) = Inr (bs, s')" "skip_input_data 1 s' = Inr s''"
    "input_bytes 3 (blank_decompress\<lparr>input := [1, 2, 7, 4]\<rparr>) = (map unat bs, blank_decompress\<lparr>input := pending s'\<rparr>)"
    "skip_bytes 1 (blank_decompress\<lparr>input := pending s'\<rparr>) = blank_decompress\<lparr>input := pending s''\<rparr>"
    using sources_feed_reader [of "[1, 2, 7, 4]" "jpeg_stdio_src [1, 2, 7, 4]" 3 1 blank_decompress] by auto
  have i: "map unat bs = [1, 2, 7]" "blank_decompress\<lparr>input := pending s'\<rparr> = blank_decompress\<lparr>input := [4]\<rparr>"
    using r(3) by (simp_all add: numeral_3_eq_3 input_byte_def)
  have p: "pending s' = [4]" using arg_cong [OF i(2), of input] by simp
  have "blank_decompress\<lparr>input := []\<rparr> = blank_decompress\<lparr>input := pending s''\<rparr>"
    using r(4) p by (simp add: skip_bytes_def input_byte_def)
  then have "pending s'' = []" using arg_cong [of _ _ input] by fastforce
  then show ?thesis using r(1,2) i(1) p by (intro exI [of _ s'] exI [of _ bs] exI [of _ s'']) simp
qed

text \<open>
  C15: Both destination managers deliver exactly the bytes put, in order, whatever their number:
  the file after \<open>term_destination\<close> is its old contents and the bytes, the memory handed back is
  the bytes, in the caller's own buffer, never freed, or in one block the library owns, all
  outgrown blocks freed; a disk that takes every write never fails, and the only failures are a short write and a failed allocation.
\<close>

theorem destinations_deliver:
  assumes "length junk = OUTPUT_BUF_SIZE" "\<forall>n. malloc n \<longrightarrow> n < 2 ^ 31" "\<forall>b. outbuffer = Some b \<longrightarrow> length b < 2 ^ 31"
  shows "(case bind_err (put_all (stdio_emit_byte fwrite) bs (init_destination file junk)) (term_destination fwrite ferror) of
      Inr d \<Rightarrow> outfile d = file @ bs | Inl e \<Rightarrow> e = JERR_FILE_WRITE) \<and>
    (\<exists>d. bind_err (put_all (stdio_emit_byte (\<lambda>w n. n)) bs (init_destination file junk))
        (term_destination (\<lambda>w n. n) False) = Inr d \<and> outfile d = file @ bs) \<and>
    (case bind_err (jpeg_mem_dest malloc outbuffer) (put_all (mem_emit_byte malloc) bs) of
      Inr d \<Rightarrow> fst (term_mem_destination d) = bs \<and>
        (snd (term_mem_destination d) = 0 \<and> owned d = {} \<or>
         0 < snd (term_mem_destination d) \<and> owned d = {snd (term_mem_destination d)})
    | Inl e \<Rightarrow> e = JERR_OUT_OF_MEMORY)"
proof (intro conjI)
  let ?d0 = "init_destination file junk"
  note i = stdio_started [OF assms(1), of "file"]
  show "case bind_err (put_all (stdio_emit_byte fwrite) bs ?d0) (term_destination fwrite ferror) of
      Inr d \<Rightarrow> outfile d = file @ bs | Inl e \<Rightarrow> e = JERR_FILE_WRITE"
  proof (cases "put_all (stdio_emit_byte fwrite) bs ?d0")
    case (Inl e)
    then show ?thesis using stdio.put_all_fails [OF i(1) Inl] by simp
  next
    case (Inr d)
    have d: "stdio_ok d" "stdio_delivered d = file @ bs"
      using stdio.put_all_delivers [OF i(1) Inr] i(2) by simp_all
    show ?thesis
      using Inr d stdio_finished [OF d(1)] by (auto simp: term_destination_def stdio_delivered_def Let_def split: if_splits)
  qed
next
  note i = stdio_started [OF assms(1), of "file"]
  obtain d where d: "put_all (stdio_emit_byte (\<lambda>w n. n)) bs (init_destination file junk) = Inr d"
    using disk.put_all_fails [OF i(1), of bs]
    by (cases "put_all (stdio_emit_byte (\<lambda>w n. n)) bs (init_destination file junk)") auto
  have ok: "stdio_ok d" "stdio_delivered d = file @ bs" using disk.put_all_delivers [OF i(1) d] i(2) by simp_all
  have "term_destination (\<lambda>w n. n) False d = Inr (d\<lparr>outfile := file @ bs\<rparr>)"
    using ok stdio_finished [OF ok(1)] by (auto simp: term_destination_def stdio_delivered_def Let_def)
  then show "\<exists>d. bind_err (put_all (stdio_emit_byte (\<lambda>w n. n)) bs (init_destination file junk))
      (term_destination (\<lambda>w n. n) False) = Inr d \<and> outfile d = file @ bs"
    using d by simp
next
  show "case bind_err (jpeg_mem_dest malloc outbuffer) (put_all (mem_emit_byte malloc) bs) of
      Inr d \<Rightarrow> fst (term_mem_destination d) = bs \<and>
        (snd (term_mem_destination d) = 0 \<and> owned d = {} \<or>
         0 < snd (term_mem_destination d) \<and> owned d = {snd (term_mem_destination d)})
    | Inl e \<Rightarrow> e = JERR_OUT_OF_MEMORY"
  proof (cases "jpeg_mem_dest malloc outbuffer")
    case (Inl e)
    then show ?thesis by (auto simp: jpeg_mem_dest_def split: option.splits if_splits)
  next
    case (Inr d0)
    note i = jpeg_mem_dest_ok [OF Inr assms(2,3)]
    show ?thesis
    proof (cases "put_all (mem_emit_byte malloc) bs d0")
      case (Inl e)
      then show ?thesis using mem.put_all_fails [OF conjunct1 [OF i] Inl] Inr by simp
    next
      case inr: (Inr d)
      have d: "mem_ok malloc d" "mem_delivered d = bs"
        using mem.put_all_delivers [OF conjunct1 [OF i] inr] i by simp_all
      have n: "bufsize d - mem_free d = mem_next d" using d(1) unfolding mem_ok_def by linarith
      then have "fst (term_mem_destination d) = bs" using d(2) by (simp add: term_mem_destination_def mem_delivered_def)
      moreover have "buffer_id d = 0 \<and> owned d = {} \<or> 0 < buffer_id d \<and> owned d = {buffer_id d}"
        using d(1) by (auto simp: mem_ok_def split: option.splits)
      ultimately show ?thesis using Inr inr by (simp add: term_mem_destination_def)
    qed
  qed
qed

theorem destinations_deliver_witness:
  "(case bind_err (put_all (stdio_emit_byte (\<lambda>w n. n)) [1, 2] (init_destination [9] (replicate 4096 0)))
        (term_destination (\<lambda>w n. n) False) of
      Inr d \<Rightarrow> outfile d = [9] @ [1, 2] | Inl e \<Rightarrow> e = JERR_FILE_WRITE) \<and>
    (\<exists>d. bind_err (put_all (stdio_emit_byte (\<lambda>w n. n)) [1, 2] (init_destination [9] (replicate 4096 0)))
        (term_destination (\<lambda>w n. n) False) = Inr d \<and> outfile d = [9] @ [1, 2]) \<and>
    (case bind_err (jpeg_mem_dest (\<lambda>n. n < 2 ^ 31) (Some [0])) (put_all (mem_emit_byte (\<lambda>n. n < 2 ^ 31)) [1, 2]) of
      Inr d \<Rightarrow> fst (term_mem_destination d) = [1, 2] \<and>
        (snd (term_mem_destination d) = 0 \<and> owned d = {} \<or>
         0 < snd (term_mem_destination d) \<and> owned d = {snd (term_mem_destination d)})
    | Inl e \<Rightarrow> e = JERR_OUT_OF_MEMORY)"
  by (rule destinations_deliver) (simp_all add: OUTPUT_BUF_SIZE_def)

end
