(* ===== verification/JpegConverter.thy ===== *)
theory JpegConverter
  imports BmpFile
begin

text \<open>
  The image converter \<open>server/JPEGConverter.cpp\<close>: decoding a JPEG into memory row by row and
  writing the decoded image as a bitmap file.  The program is linked against the JPEG library
  of the system, a parameter here: \<open>lib bytes\<close> is the decoded image, \<open>None\<close> when the library's
  error exit ends the program.  A fault (access outside an array) is \<open>None\<close>.  \<open>long\<close> has 32
  bits (Raspberry Pi), so \<open>BMPHEAD\<close> has 52 bytes with two bytes of padding behind \<open>reserved\<close>.
\<close>

section \<open>The library's result\<close>

text \<open>\<open>scanline i\<close> is what \<open>jpeg_read_scanlines\<close> stores for output row \<open>i\<close>.\<close>

record jpeg_image =
  image_w :: nat
  image_h :: nat
  components :: nat
  output_w :: nat
  output_h :: nat
  scanline :: "nat \<Rightarrow> byte list"

text \<open>Documented behaviour without scaling or colour conversion to another component count.\<close>

definition plain_image :: "jpeg_image \<Rightarrow> bool" where
  "plain_image im \<longleftrightarrow> output_w im = image_w im \<and> output_h im = image_h im \<and>
     (\<forall>i<output_h im. length (scanline im i) = output_w im * components im)"

section \<open>Decoding\<close>

text \<open>
  One turn of the loop: the row buffer, the samples and the offset.  The width is unsigned, so
  the product is taken modulo 2^32; \<open>offset\<close> is an \<open>int\<close> the sum is converted back to, and a
  negative one addresses memory before the array.
\<close>

definition row_size :: "nat \<Rightarrow> nat \<Rightarrow> nat" where
  "row_size w num_components = (w * num_components) mod 2 ^ 32"

definition decode_row ::
  "jpeg_image \<Rightarrow> nat \<Rightarrow> byte list \<times> byte list \<times> int \<Rightarrow> (byte list \<times> byte list \<times> int) option" where
  "decode_row im i st =
     (let (row, samples, offset) = st; n = row_size (image_w im) (components im) in
      do {
        row1 \<leftarrow> store_bytes 0 (scanline im i) row;
        d \<leftarrow> load_bytes 0 n row1;
        samples1 \<leftarrow> if offset < 0 then None else store_bytes (nat offset) d samples;
        Some (row1, samples1, s32 (offset + int n))
      })"

datatype frame_result =
    LibraryExit
  | Frame nat nat int "byte list"   \<comment> \<open>width, height, returned offset, samples\<close>

definition decode_frame ::
  "(byte list \<Rightarrow> jpeg_image option) \<Rightarrow> (nat \<Rightarrow> byte list) \<Rightarrow> byte list \<Rightarrow> byte list \<Rightarrow> frame_result option" where
  "decode_frame lib junk buffer samples =
     (case lib buffer of
        None \<Rightarrow> Some LibraryExit
      | Some im \<Rightarrow>
          do {
            (row, samples1, offset) \<leftarrow>
              for_loop 0 (output_h im) (decode_row im) (junk (row_size (output_w im) (components im)), samples, 0);
            Some (Frame (image_w im) (image_h im) offset samples1)
          })"

section \<open>The converter object\<close>

text \<open>\<open>Unset\<close> is the pointer the constructor leaves uninitialised.\<close>

datatype raw_pointer = Unset | Null | Block "byte list"

record converter =
  conv_width :: int
  conv_height :: int
  bytes_per_pixel :: nat
  raw_image :: raw_pointer

text \<open>The constructor sets two local variables only; the destructor frees \<open>raw_image\<close>.\<close>

definition new_JPEGConverter :: converter where
  "new_JPEGConverter = \<lparr>conv_width = 0, conv_height = 0, bytes_per_pixel = 0, raw_image = Unset\<rparr>"

definition delete_JPEGConverter :: "converter \<Rightarrow> raw_pointer option" where
  "delete_JPEGConverter c = (case raw_image c of Unset \<Rightarrow> None | Null \<Rightarrow> Some Null | Block b \<Rightarrow> Some Null)"

text \<open>\<open>for (\<dots>) raw_image[location++] = row_pointer[0][i]\<close> after a row has been read.\<close>

definition read_row ::
  "jpeg_image \<Rightarrow> nat \<Rightarrow> byte list \<times> byte list \<times> nat \<Rightarrow> (byte list \<times> byte list \<times> nat) option" where
  "read_row im i st =
     (let (row, raw, location) = st; n = image_w im * components im in
      do {
        row1 \<leftarrow> store_bytes 0 (scanline im i) row;
        for_loop 0 n
          (\<lambda>k (row, raw, location).
             do { d \<leftarrow> load_bytes k 1 row; raw1 \<leftarrow> store_bytes location d raw; Some (row, raw1, location + 1) })
          (row1, raw, location)
      })"

datatype read_result = OpenError | LibExit | ReadDone converter

definition read_jpeg_file ::
  "(byte list \<Rightarrow> jpeg_image option) \<Rightarrow> (nat \<Rightarrow> byte list) \<Rightarrow> byte list option \<Rightarrow> converter \<Rightarrow> read_result option" where
  "read_jpeg_file lib junk infile c =
     (case infile of
        None \<Rightarrow> Some OpenError
      | Some file \<Rightarrow>
          (case lib file of
             None \<Rightarrow> Some LibExit
           | Some im \<Rightarrow>
               do {
                 (row, raw, location) \<leftarrow>
                   for_loop 0 (image_h im) (read_row im)
                     (junk (output_w im * components im), junk (output_w im * output_h im * components im), 0);
                 Some (ReadDone (c\<lparr>conv_width := int (image_w im), conv_height := int (image_h im),
                   bytes_per_pixel := components im, raw_image := Block raw\<rparr>))
               }))"

section \<open>Writing a bitmap\<close>

definition bytesPerLine :: "int \<Rightarrow> int" where
  "bytesPerLine w = (let b = w * 3 in if b AND 3 \<noteq> 0 then (b OR 3) + 1 else b)"

text \<open>\<open>"BM"\<close> and the bytes of \<open>BMPHEAD\<close>.\<close>

definition bmp_head :: "int \<Rightarrow> int \<Rightarrow> byte list" where
  "bmp_head w h =
     (let le4 = (\<lambda>v. le_enc 4 (nat (u32 v))); headersize = 54
      in [0x42, 0x4D] @
         le4 (headersize + bytesPerLine w * h) @ [0, 0] @ [0, 0] @ le4 headersize @ le4 0x28 @ le4 w @ le4 h @
         le_enc 2 1 @ le_enc 2 24 @ le4 0 @ le4 0 @ le4 0 @ le4 0 @ le4 0 @ le4 0)"

text \<open>One pixel: three bytes of the line from three bytes of the image, in reverse order.\<close>

definition line_pixel :: "byte list \<Rightarrow> nat \<Rightarrow> nat \<Rightarrow> nat \<Rightarrow> nat \<Rightarrow> byte list \<Rightarrow> byte list option" where
  "line_pixel raw bypp w line x linebuf =
     do {
       let src = (x + line * w) * bypp;
       b2 \<leftarrow> load_bytes (src + 2) 1 raw;
       l1 \<leftarrow> store_bytes (x * bypp) b2 linebuf;
       b1 \<leftarrow> load_bytes (src + 1) 1 raw;
       l2 \<leftarrow> store_bytes (x * bypp + 1) b1 l1;
       b0 \<leftarrow> load_bytes (src + 0) 1 raw;
       store_bytes (x * bypp + 2) b0 l2
     }"

definition write_line ::
  "byte list \<Rightarrow> nat \<Rightarrow> nat \<Rightarrow> nat \<Rightarrow> nat \<Rightarrow> byte list \<times> byte list \<Rightarrow> (byte list \<times> byte list) option" where
  "write_line raw bypp w h i st =
     (let (linebuf, out) = st; line = h - 1 - i in
      do {
        linebuf1 \<leftarrow> for_loop 0 w (line_pixel raw bypp w line) linebuf;
        Some (linebuf1, out @ linebuf1)
      })"

text \<open>
  \<open>opened\<close> and \<open>malloc\<close> say whether \<open>fopen\<close> and \<open>calloc\<close> succeed; \<open>Inl 1\<close> is \<open>exit(1)\<close>,
  \<open>Inr\<close> the contents of the file.
\<close>

definition write_bmp_file ::
  "bool \<Rightarrow> (nat \<Rightarrow> bool) \<Rightarrow> converter \<Rightarrow> (nat + byte list) option" where
  "write_bmp_file opened malloc c =
     (if \<not> opened then Some (Inl 1)
      else if \<not> malloc (nat (bytesPerLine (conv_width c))) then Some (Inl 1)
      else
        (let w = nat (conv_width c); h = nat (conv_height c) in
         case raw_image c of
           Block raw \<Rightarrow>
             do {
               (linebuf, out) \<leftarrow>
                 for_loop 0 h (write_line raw (bytes_per_pixel c) w h)
                   (replicate (nat (bytesPerLine (conv_width c))) 0, bmp_head (conv_width c) (conv_height c));
               Some (Inr out)
             }
         | _ \<Rightarrow> if h = 0 \<or> w = 0
                then Some (Inr (bmp_head (conv_width c) (conv_height c) @
                       replicate (h * nat (bytesPerLine (conv_width c))) 0))
                else None))"

section \<open>Lemmas\<close>

lemma store_bytes_append:
  "length p = off \<Longrightarrow> length d \<le> length s \<Longrightarrow> store_bytes off d (p @ s) = Some (p @ d @ drop (length d) s)"
  by (simp add: store_bytes_def)

lemma store_bytes_whole: "length d = length m \<Longrightarrow> store_bytes 0 d m = Some d"
  by (simp add: store_bytes_def)

definition image_bytes :: "jpeg_image \<Rightarrow> nat \<Rightarrow> byte list" where
  "image_bytes im n = concat (map (scanline im) [0..<n])"

lemma image_bytes_Suc: "image_bytes im (Suc n) = image_bytes im n @ scanline im n"
  by (simp add: image_bytes_def)

lemma length_image_bytes:
  "plain_image im \<Longrightarrow> n \<le> output_h im \<Longrightarrow> length (image_bytes im n) = n * (output_w im * components im)"
  by (induction n) (simp_all add: image_bytes_Suc plain_image_def, simp add: image_bytes_def)

definition rows_done :: "jpeg_image \<Rightarrow> byte list \<Rightarrow> nat \<Rightarrow> byte list \<times> byte list \<times> int \<Rightarrow> bool" where
  "rows_done im samples i st \<longleftrightarrow>
     (let (row, s, offset) = st; n = output_w im * components im in
      length row = n \<and> offset = int (i * n) \<and> s = image_bytes im i @ drop (i * n) samples)"

lemma decode_row_step:
  assumes "plain_image im" "i < output_h im" "rows_done im samples i st"
    and "Suc i * (output_w im * components im) \<le> length samples"
    and "Suc i * (output_w im * components im) < 2 ^ 31"
  shows "\<exists>st'. decode_row im i st = Some st' \<and> rows_done im samples (Suc i) st'"
proof -
  let ?n = "output_w im * components im"
  obtain row s off where st: "st = (row, s, off)" by (cases st)
  have d: "length row = ?n" "off = int (i * ?n)" "s = image_bytes im i @ drop (i * ?n) samples"
    using assms(3) by (auto simp: rows_done_def st Let_def)
  have l: "length (scanline im i) = ?n" "image_w im = output_w im"
    using assms(1,2) by (auto simp: plain_image_def)
  have 1: "store_bytes 0 (scanline im i) row = Some (scanline im i)" using d(1) l(1) by (intro store_bytes_whole) simp
  have 2: "load_bytes 0 ?n (scanline im i) = Some (scanline im i)" using l(1) by (simp add: load_bytes_def)
  have 3: "store_bytes (nat off) (scanline im i) s
      = Some (image_bytes im i @ scanline im i @ drop (length (scanline im i)) (drop (i * ?n) samples))"
    unfolding d(2,3) nat_int using l(1) assms(2,4) length_image_bytes [OF assms(1), of i]
    by (intro store_bytes_append) simp_all
  have "?n \<le> Suc i * ?n" by simp
  then have n: "row_size (image_w im) (components im) = ?n"
    using assms(5) l(2) by (simp add: row_size_def)
  have off: "\<not> off < 0" unfolding d(2) by (simp only: of_nat_less_0_iff not_False_eq_True)
  have "s32 (off + int ?n) = int (Suc i * ?n)"
    unfolding d(2) of_nat_add [symmetric] using assms(5)
    by (simp only: in_s32_def mult_Suc add.commute [of "i * ?n"], subst s32_id)
      (simp_all add: in_s32_def of_nat_add [symmetric] of_nat_mult [symmetric]
        del: of_nat_add of_nat_mult)
  then show ?thesis
    using 1 2 3 l d(1,3) n off
    by (simp add: decode_row_def st rows_done_def Let_def image_bytes_Suc add.commute)
qed

lemma decode_rows:
  assumes "plain_image im" "length row = output_w im * components im" "m \<le> output_h im"
    and "m * (output_w im * components im) \<le> length samples" "m * (output_w im * components im) < 2 ^ 31"
  shows "\<exists>row'. for_loop 0 m (decode_row im) (row, samples, 0) = Some (row', image_bytes im m @
      drop (m * (output_w im * components im)) samples, int (m * (output_w im * components im)))"
proof -
  have "rows_done im samples 0 (row, samples, 0)" using assms(2) by (simp add: rows_done_def image_bytes_def)
  then obtain st where "for_loop 0 m (decode_row im) (row, samples, 0) = Some st" "rows_done im samples (0 + m) st"
  proof (rule for_loop_inv [of "rows_done im samples" 0 _ m "decode_row im", THEN exE])
    fix j t assume j: "j < 0 + m" and t: "rows_done im samples j t"
    have "Suc j * (output_w im * components im) \<le> m * (output_w im * components im)"
      using j by (intro mult_le_mono1) simp
    then show "\<exists>t'. decode_row im j t = Some t' \<and> rows_done im samples (Suc j) t'"
      using decode_row_step [OF assms(1) _ t] j assms(3-5) by simp
  qed auto
  then show ?thesis by (cases st) (auto simp: rows_done_def Let_def)
qed

lemma for_loop_fault:
  assumes "\<And>s. body (i + k) s = None" "k < n"
  shows "for_loop i n body s = None"
  using assms
proof (induction n arbitrary: i k s)
  case (Suc n)
  show ?case
  proof (cases k)
    case 0
    then show ?thesis using Suc.prems(1) by (simp add: option.case_eq_if)
  next
    case (Suc k')
    then have "\<And>s. for_loop (Suc i) n body s = None"
      using Suc.IH [of "Suc i" k'] Suc.prems by simp
    then show ?thesis by (simp split: option.splits)
  qed
qed simp

lemma bytesPerLine_stride: "bytesPerLine (int w) = int (bmp_stride w)"
proof -
  let ?b = "int w * 3"
  have a: "?b AND 3 = ?b mod 4"
  proof -
    have "(3 :: int) = mask 2" by (simp add: mask_eq_exp_minus_1)
    then show ?thesis by (simp only: take_bit_eq_mask [symmetric] take_bit_eq_mod) simp
  qed
  have "(?b AND 3) + (?b OR 3) = ?b + 3" by (rule plus_and_or)
  then have "?b OR 3 = ?b + 3 - ?b mod 4" using a by simp
  then show ?thesis using a by (simp add: bytesPerLine_def bmp_stride_def Let_def zdiv_int) presburger
qed

lemma for_loop_add:
  "for_loop i (m + n) body s = (case for_loop i m body s of None \<Rightarrow> None | Some s' \<Rightarrow> for_loop (i + m) n body s')"
  by (induction m arbitrary: i s) (auto split: option.splits)

lemma decode_rows_fault:
  assumes "plain_image im" "length row = output_w im * components im"
    and "length samples < output_h im * (output_w im * components im)"
    and "output_h im * (output_w im * components im) < 2 ^ 31"
  shows "for_loop 0 (output_h im) (decode_row im) (row, samples, 0) = None"
proof -
  let ?n = "output_w im * components im"
  let ?m = "length samples div ?n"
  have n: "0 < ?n" using assms(3) by (cases ?n) auto
  have m: "?m < output_h im" using assms(3) n by (simp add: less_mult_imp_div_less)
  have le: "?m * ?n \<le> length samples" by simp
  have over: "length samples < ?m * ?n + ?n" using n by (metis add.commute dividend_less_times_div mult.commute)
  obtain row' where r: "for_loop 0 ?m (decode_row im) (row, samples, 0) = Some (row', image_bytes im ?m @ drop (?m * ?n) samples, int (?m * ?n))"
    using decode_rows [OF assms(1,2) less_imp_le [OF m] le le_less_trans [OF le less_trans [OF assms(3,4)]]] by blast
  have l: "length (scanline im ?m) = ?n" "image_w im = output_w im" "length (image_bytes im ?m) = ?m * ?n"
    using assms(1) m length_image_bytes [OF assms(1), of ?m] by (auto simp: plain_image_def)
  have s: "store_bytes (?m * ?n) (scanline im ?m) (image_bytes im ?m @ drop (?m * ?n) samples) = None"
    using l over le by (simp add: store_bytes_def)
  have "?n \<le> output_h im * ?n" using m by (cases "output_h im") simp_all
  then have "?n < 2 ^ 31" using assms(4) by (rule le_less_trans)
  then have rs: "row_size (image_w im) (components im) = ?n"
    using l(2) by (simp add: row_size_def)
  have f: "decode_row im ?m (row', image_bytes im ?m @ drop (?m * ?n) samples, int (?m * ?n)) = None"
  proof (cases "store_bytes 0 (scanline im ?m) row'")
    case None
    then show ?thesis by (simp add: decode_row_def Let_def)
  next
    case (Some row1)
    have "row1 = scanline im ?m @ drop ?n row'" using Some l by (auto simp: store_bytes_def split: if_splits)
    then have "load_bytes 0 ?n row1 = Some (scanline im ?m)" using l by (simp add: load_bytes_def)
    then show ?thesis using Some rs s by (simp add: decode_row_def Let_def del: of_nat_mult)
  qed
  have split: "output_h im = ?m + Suc (output_h im - Suc ?m)" using m by simp
  show ?thesis by (subst split) (simp only: for_loop_add r option.case add_0 for_loop.simps f)
qed

lemma store_byte: "off < length m \<Longrightarrow> store_bytes off [b] m = Some (m[off := b])"
  by (simp add: store_bytes_def upd_conv_take_nth_drop)

lemma load_byte: "off < length m \<Longrightarrow> load_bytes off 1 m = Some [m ! off]"
  by (simp add: load_bytes_def take_Suc_conv_app_nth hd_drop_conv_nth [symmetric] drop_eq_Nil not_le [symmetric])

lemma line_pixel_3:
  assumes "(x + line * w) * 3 + 2 < length raw" "x * 3 + 2 < length l"
  defines "s \<equiv> (x + line * w) * 3"
  shows "line_pixel raw 3 w line x l =
    Some (l[x * 3 := raw ! (s + 2), x * 3 + 1 := raw ! (s + 1), x * 3 + 2 := raw ! s])"
  using assms(1,2) unfolding s_def line_pixel_def by (simp add: load_byte load_byte [unfolded One_nat_def] store_byte Let_def)

text \<open>The first \<open>x\<close> pixels of a line are done; bytes past the pixels are zero.\<close>

definition line_done :: "byte list \<Rightarrow> nat \<Rightarrow> nat \<Rightarrow> nat \<Rightarrow> byte list \<Rightarrow> bool" where
  "line_done raw w line x l \<longleftrightarrow> length l = bmp_stride w \<and>
     (\<forall>j<x. \<forall>k<3. l ! (3 * j + k) = raw ! (3 * (j + line * w) + (2 - k))) \<and>
     (\<forall>k. 3 * w \<le> k \<longrightarrow> k < bmp_stride w \<longrightarrow> l ! k = 0)"

lemma stride_bounds: "3 * w \<le> bmp_stride w" "bmp_stride w \<le> 3 * w + 3"
  by (simp_all add: bmp_stride_def)

lemma line_pixel_step:
  assumes "line_done raw w line x l" "x < w" "line < h" "length raw = w * h * 3"
  shows "\<exists>l'. line_pixel raw 3 w line x l = Some l' \<and> line_done raw w line (Suc x) l'"
proof -
  have "x + line * w < w * h"
  proof -
    have "x + line * w < Suc line * w" using assms(2) by simp
    also have "\<dots> \<le> h * w" using assms(3) by (intro mult_le_mono1) simp
    finally show ?thesis by (simp add: mult.commute)
  qed
  then have r: "(x + line * w) * 3 + 2 < length raw" using assms(4) by simp
  have l: "length l = bmp_stride w" using assms(1) by (simp add: line_done_def)
  have x: "x * 3 + 2 < length l" using stride_bounds(1) [of w] assms(2) l by simp
  let ?s = "(x + line * w) * 3"
  let ?l = "l[x * 3 := raw ! (?s + 2), x * 3 + 1 := raw ! (?s + 1), x * 3 + 2 := raw ! ?s]"
  have old: "?l ! (3 * j + k) = l ! (3 * j + k)" if "j < x" "k < 3" for j k
    using that by simp
  have new: "?l ! (3 * x + k) = raw ! (3 * (x + line * w) + (2 - k))" if "k < 3" for k
  proof -
    have "k = 0 \<or> k = 1 \<or> k = 2" using that by presburger
    then show ?thesis using x by (auto simp: nth_list_update mult.commute)
  qed
  have pad: "?l ! k = l ! k" if "3 * w \<le> k" for k
    using that assms(2) by (simp add: nth_list_update)
  have "line_done raw w line (Suc x) ?l"
    using assms(1) old new pad by (auto simp: line_done_def less_Suc_eq)
  then show ?thesis using line_pixel_3 [OF r x] by simp
qed

lemma line_written:
  assumes "length l = bmp_stride w" "\<forall>k. 3 * w \<le> k \<longrightarrow> k < bmp_stride w \<longrightarrow> l ! k = 0" "line < h" "length raw = w * h * 3"
  shows "\<exists>l'. for_loop 0 w (line_pixel raw 3 w line) l = Some l' \<and> line_done raw w line w l'"
proof -
  have "\<exists>l'. for_loop 0 w (line_pixel raw 3 w line) l = Some l' \<and> line_done raw w line (0 + w) l'"
  proof (rule for_loop_inv)
    show "line_done raw w line 0 l" using assms(1,2) by (simp add: line_done_def)
  qed (use line_pixel_step assms(3,4) in simp)
  then show ?thesis by simp
qed

text \<open>The first \<open>i\<close> lines are in the file, the last line of the image first.\<close>

definition lines_done :: "byte list \<Rightarrow> byte list \<Rightarrow> nat \<Rightarrow> nat \<Rightarrow> nat \<Rightarrow> byte list \<times> byte list \<Rightarrow> bool" where
  "lines_done head raw w h i st \<longleftrightarrow>
     (let (l, out) = st in length l = bmp_stride w \<and> (\<forall>k. 3 * w \<le> k \<longrightarrow> k < bmp_stride w \<longrightarrow> l ! k = 0) \<and>
        (\<exists>ls. out = head @ concat ls \<and> length ls = i \<and> (\<forall>t<i. line_done raw w (h - 1 - t) w (ls ! t))))"

lemma write_lines:
  assumes "length raw = w * h * 3"
  shows "\<exists>l ls. for_loop 0 h (write_line raw 3 w h) (replicate (bmp_stride w) 0, head) = Some (l, head @ concat ls) \<and>
    length ls = h \<and> (\<forall>t<h. line_done raw w (h - 1 - t) w (ls ! t))"
proof -
  have "\<exists>st. for_loop 0 h (write_line raw 3 w h) (replicate (bmp_stride w) 0, head) = Some st \<and>
      lines_done head raw w h (0 + h) st"
  proof (rule for_loop_inv)
    show "lines_done head raw w h 0 (replicate (bmp_stride w) 0, head)" by (simp add: lines_done_def)
  next
    fix i st assume i: "i < 0 + h" and st: "lines_done head raw w h i st"
    obtain l out where e: "st = (l, out)" by (cases st)
    obtain ls where l: "length l = bmp_stride w" "\<forall>k. 3 * w \<le> k \<longrightarrow> k < bmp_stride w \<longrightarrow> l ! k = 0"
      "out = head @ concat ls" "length ls = i" "\<forall>t<i. line_done raw w (h - 1 - t) w (ls ! t)"
      using st by (auto simp: lines_done_def e)
    have "h - 1 - i < h" using i by simp
    then obtain l' where l': "for_loop 0 w (line_pixel raw 3 w (h - 1 - i)) l = Some l'" "line_done raw w (h - 1 - i) w l'"
      using line_written [OF l(1,2) _ assms] by blast
    have "lines_done head raw w h (Suc i) (l', out @ l')"
    proof -
      have a: "out @ l' = head @ concat (ls @ [l'])" "length (ls @ [l']) = Suc i" using l(3,4) by simp_all
      have b: "\<forall>t<Suc i. line_done raw w (h - 1 - t) w ((ls @ [l']) ! t)"
        using l(4,5) l'(2) by (auto simp: less_Suc_eq nth_append)
      have c: "length l' = bmp_stride w" "\<forall>k. 3 * w \<le> k \<longrightarrow> k < bmp_stride w \<longrightarrow> l' ! k = 0"
        using l'(2) by (simp_all add: line_done_def)
      show ?thesis
        unfolding lines_done_def Let_def prod.case using a b c by (intro conjI exI [of _ "ls @ [l']"])
    qed
    then show "\<exists>st'. write_line raw 3 w h i st = Some st' \<and> lines_done head raw w h (Suc i) st'"
      using l'(1) by (simp add: write_line_def e Let_def)
  qed
  then obtain st where st: "for_loop 0 h (write_line raw 3 w h) (replicate (bmp_stride w) 0, head) = Some st"
    "lines_done head raw w h h st" by auto
  obtain l out where e: "st = (l, out)" by (cases st)
  obtain ls where ls: "out = head @ concat ls" "length ls = h" "\<forall>t<h. line_done raw w (h - 1 - t) w (ls ! t)"
    using st(2) unfolding lines_done_def e Let_def prod.case by blast
  have "for_loop 0 h (write_line raw 3 w h) (replicate (bmp_stride w) 0, head) = Some (l, head @ concat ls)"
    using st(1) by (simp only: e ls(1))
  with ls(2,3) show ?thesis by blast
qed

lemma nth_concat_blocks:
  assumes "\<forall>l\<in>set ls. length l = m" "i < length ls" "j < m"
  shows "concat ls ! (i * m + j) = ls ! i ! j" "i * m + j < length (concat ls)"
proof -
  have "concat ls ! (i * m + j) = ls ! i ! j \<and> i * m + j < length (concat ls)"
    using assms
  proof (induction ls arbitrary: i)
    case (Cons l ls)
    then show ?case
    proof (cases i)
      case (Suc i')
      then have "concat ls ! (i' * m + j) = ls ! i' ! j \<and> i' * m + j < length (concat ls)"
        using Cons by simp
      then show ?thesis using Suc Cons.prems by (simp add: nth_append add.assoc)
    qed (simp add: nth_append)
  qed simp
  then show "concat ls ! (i * m + j) = ls ! i ! j" "i * m + j < length (concat ls)" by auto
qed

lemma length_concat_blocks: "\<forall>l\<in>set ls. length l = m \<Longrightarrow> length (concat ls) = length ls * m"
  by (induction ls) auto

lemma bmp_head_fields:
  assumes "0 < w" "0 < h" "54 + h * bmp_stride w < 2 ^ 31"
  shows "length (bmp_head (int w) (int h)) = 54" "take 2 (bmp_head (int w) (int h)) = [0x42, 0x4D]"
    "take 2 (drop 28 (bmp_head (int w) (int h))) = le_enc 2 24"
    "take 4 (drop 18 (bmp_head (int w) (int h))) = le_enc 4 w"
    "take 4 (drop 22 (bmp_head (int w) (int h))) = le_enc 4 h"
    "take 4 (drop 2 (bmp_head (int w) (int h))) = le_enc 4 (54 + h * bmp_stride w)"
    "take 4 (drop 10 (bmp_head (int w) (int h))) = le_enc 4 54"
proof -
  have w: "w \<le> bmp_stride w" using stride_bounds(1) [of w] by simp
  have "bmp_stride w \<le> h * bmp_stride w" "h \<le> h * bmp_stride w" using assms(1,2) w by simp_all
  then have "w < 2 ^ 31" "h < 2 ^ 31" using w assms(3) by linarith (use \<open>h \<le> h * bmp_stride w\<close> assms(3) in linarith)
  then have b: "w < 2 ^ 32" "h < 2 ^ 32" by simp_all
  have u: "nat (u32 (int n)) = n" if "n < 2 ^ 32" for n using that by (simp add: u32_def)
  have s: "54 + bytesPerLine (int w) * int h = int (54 + h * bmp_stride w)" by (simp add: bytesPerLine_stride)
  have "nat (u32 (54 + bytesPerLine (int w) * int h)) = 54 + h * bmp_stride w"
    unfolding s using assms(3) by (intro u) simp
  then have e: "bmp_head (int w) (int h) = [0x42, 0x4D] @ le_enc 4 (54 + h * bmp_stride w) @ [0, 0] @ [0, 0] @
      le_enc 4 54 @ le_enc 4 (nat (u32 0x28)) @ le_enc 4 w @ le_enc 4 h @ le_enc 2 1 @ le_enc 2 24 @
      le_enc 4 (nat (u32 0)) @ le_enc 4 (nat (u32 0)) @ le_enc 4 (nat (u32 0)) @ le_enc 4 (nat (u32 0)) @
      le_enc 4 (nat (u32 0)) @ le_enc 4 (nat (u32 0))"
    using u [OF b(1)] u [OF b(2)] u [of 54] by (simp add: bmp_head_def Let_def)
  show "length (bmp_head (int w) (int h)) = 54" "take 2 (bmp_head (int w) (int h)) = [0x42, 0x4D]"
    "take 2 (drop 28 (bmp_head (int w) (int h))) = le_enc 2 24"
    "take 4 (drop 18 (bmp_head (int w) (int h))) = le_enc 4 w"
    "take 4 (drop 22 (bmp_head (int w) (int h))) = le_enc 4 h"
    "take 4 (drop 2 (bmp_head (int w) (int h))) = le_enc 4 (54 + h * bmp_stride w)"
    "take 4 (drop 10 (bmp_head (int w) (int h))) = le_enc 4 54"
    unfolding e by simp_all
qed

section \<open>Properties\<close>

text \<open>
  C25: Decoding a frame: for an image of less than 2^31 bytes that the library delivers at its own
  size, \<open>decode_frame\<close> reports its width and height, stores the rows one behind the other at the
  start of the caller's memory, leaves the rest of it alone and returns the number of bytes
  stored; it writes outside that memory exactly when the memory is smaller than the image.
  (From 2^31 bytes on the \<open>int\<close> offset turns negative.)
\<close>

theorem decode_frame_rows:
  assumes "lib buffer = Some im" "plain_image im" "\<forall>n. length (junk n) = n"
    and "image_h im * (image_w im * components im) < 2 ^ 31"
  defines "n \<equiv> image_h im * (image_w im * components im)"
  shows "decode_frame lib junk buffer samples =
    (if n \<le> length samples
     then Some (Frame (image_w im) (image_h im) (int n) (image_bytes im (image_h im) @ drop n samples))
     else None)"
proof (cases "image_h im = 0")
  case True
  then show ?thesis
    using assms(1,2) by (simp add: decode_frame_def plain_image_def image_bytes_def n_def)
next
  case h: False
  have e: "image_w im = output_w im" "image_h im = output_h im" using assms(2) by (auto simp: plain_image_def)
  have "output_w im * components im \<le> n" using h by (simp add: n_def e)
  then have rs: "row_size (output_w im) (components im) = output_w im * components im"
    using assms(4) unfolding row_size_def n_def [symmetric] by (intro mod_less) simp
  let ?row = "junk (output_w im * components im)"
  have r: "length ?row = output_w im * components im" using assms(3) by simp
  have b: "output_h im * (output_w im * components im) < 2 ^ 31" using assms(4) by (simp only: e)
  show ?thesis
  proof (cases "n \<le> length samples")
    case True
    then show ?thesis
      using decode_rows [OF assms(2) r order_refl _ b, of samples] assms(1)
      by (auto simp: decode_frame_def n_def e rs)
  next
    case False
    then show ?thesis
      using decode_rows_fault [OF assms(2) r _ b, of samples] assms(1) by (simp add: decode_frame_def n_def e rs)
  qed
qed

theorem decode_frame_rows_witness:
  "decode_frame (\<lambda>b. Some \<lparr>image_w = 2, image_h = 2, components = 1, output_w = 2, output_h = 2,
      scanline = (\<lambda>i. [of_nat i, 7])\<rparr>) (\<lambda>n. replicate n 0) [0xFF] [1, 1, 1, 1, 9]
    = Some (Frame 2 2 4 [0, 7, 1, 7, 9])"
proof -
  let ?im = "\<lparr>image_w = 2, image_h = 2, components = 1, output_w = 2, output_h = 2, scanline = (\<lambda>i. [of_nat i, 7])\<rparr>"
  have "plain_image ?im" by (simp add: plain_image_def)
  then show ?thesis
    using decode_frame_rows [of "\<lambda>b. Some ?im" "[0xFF]" ?im "\<lambda>n. replicate n 0" "[1, 1, 1, 1, 9]"]
    by (simp add: image_bytes_def upt_rec)
qed

text \<open>
  C23: The bitmap file of a 24-bit image: \<open>write_bmp_file\<close> writes a file with a valid 54-byte header
  (\<open>BM\<close>, the file's exact size, data offset 54, width, height, 24 bits), in which the pixel in
  column \<open>j\<close> of row \<open>i\<close> from the bottom stands where the format puts it, with its three bytes
  in reverse order, and rows are padded with zeros to a multiple of four bytes.
\<close>

theorem bmp_file_written:
  assumes "raw_image c = Block raw" "bytes_per_pixel c = 3" "conv_width c = int w" "conv_height c = int h"
    and "0 < w" "0 < h" "length raw = w * h * 3" "54 + h * bmp_stride w < 2 ^ 31"
    and "malloc (bmp_stride w)"
  shows "\<exists>out. write_bmp_file True malloc c = Some (Inr out) \<and> bmp_header_ok out w h \<and>
    length out = 54 + h * bmp_stride w \<and> le_nat (take 4 (drop 2 out)) = length out \<and>
    le_nat (take 4 (drop 10 out)) = 54 \<and>
    (\<forall>i<h. \<forall>j<w. \<forall>k<3. out ! (bmp_offset w i j + k) = raw ! (3 * ((h - 1 - i) * w + j) + (2 - k))) \<and>
    (\<forall>i<h. \<forall>k. 3 * w \<le> k \<longrightarrow> k < bmp_stride w \<longrightarrow> out ! (54 + i * bmp_stride w + k) = 0)"
proof -
  let ?head = "bmp_head (int w) (int h)" and ?m = "bmp_stride w"
  note hd = bmp_head_fields [OF assms(5,6,8)]
  obtain l ls where f: "for_loop 0 h (write_line raw 3 w h) (replicate ?m 0, ?head) = Some (l, ?head @ concat ls)"
    and ls: "length ls = h" "\<forall>t<h. line_done raw w (h - 1 - t) w (ls ! t)"
    using write_lines [OF assms(7), of ?head] by blast
  let ?out = "?head @ concat ls"
  have len: "\<forall>l\<in>set ls. length l = ?m" using ls by (auto simp: in_set_conv_nth line_done_def)
  have lo: "length ?out = 54 + h * ?m" using length_concat_blocks [OF len] hd(1) ls(1) by simp
  have at: "?out ! (54 + i * ?m + k) = ls ! i ! k" if "i < h" "k < ?m" for i k
    using nth_concat_blocks [OF len, of i k] that ls(1) hd(1) by (simp add: nth_append)
  have w: "write_bmp_file True malloc c = Some (Inr ?out)"
    using assms(1-4,9) f by (simp add: write_bmp_file_def bytesPerLine_stride)
  have "take k (drop p ?out) = take k (drop p ?head)" if "p + k \<le> 54" for p k
    using that hd(1) by simp
  note front = this
  have ok: "bmp_header_ok ?out w h"
    using front [of 0 2] front [of 28 2] front [of 18 4] front [of 22 4] hd lo
    by (simp add: bmp_header_ok_def le_nat_le_enc del: length_append drop_append take_append)
  have size: "le_nat (take 4 (drop 2 ?out)) = length ?out" "le_nat (take 4 (drop 10 ?out)) = 54"
    using front [of 2 4] front [of 10 4] hd(6,7) assms(8) lo by (simp_all only: le_nat_le_enc) simp_all
  have pix: "?out ! (bmp_offset w i j + k) = raw ! (3 * ((h - 1 - i) * w + j) + (2 - k))"
    if "i < h" "j < w" "k < 3" for i j k
  proof -
    have "3 * j + k < ?m" using that(2,3) stride_bounds(1) [of w] by linarith
    then have "?out ! (bmp_offset w i j + k) = ls ! i ! (3 * j + k)"
      using at [OF that(1), of "3 * j + k"] by (simp add: bmp_offset_def add.assoc)
    then show ?thesis using ls(2) that by (simp add: line_done_def add.commute)
  qed
  have pad: "?out ! (54 + i * ?m + k) = 0" if "i < h" "3 * w \<le> k" "k < ?m" for i k
    using at [OF that(1,3)] ls(2) that by (simp add: line_done_def)
  show ?thesis using w ok lo size pix pad by blast
qed

theorem bmp_file_written_witness:
  "\<exists>out. write_bmp_file True (\<lambda>n. True)
      \<lparr>conv_width = 1, conv_height = 2, bytes_per_pixel = 3, raw_image = Block [1, 2, 3, 4, 5, 6]\<rparr> = Some (Inr out) \<and>
    bmp_header_ok out 1 2 \<and> length out = 62 \<and> out ! 54 = 6 \<and> out ! 58 = 3"
proof -
  have s: "bmp_stride 1 = 4" by (simp add: bmp_stride_def)
  obtain out where o: "write_bmp_file True (\<lambda>n. True)
      \<lparr>conv_width = 1, conv_height = 2, bytes_per_pixel = 3, raw_image = Block [1, 2, 3, 4, 5, 6]\<rparr> = Some (Inr out)"
    "bmp_header_ok out 1 2" "length out = 54 + 2 * bmp_stride 1"
    "\<forall>i<2. \<forall>j<1. \<forall>k<3. out ! (bmp_offset 1 i j + k) = [1, 2, 3, 4, 5, 6] ! (3 * ((2 - 1 - i) * 1 + j) + (2 - k))"
    using bmp_file_written [of "\<lparr>conv_width = 1, conv_height = 2, bytes_per_pixel = 3, raw_image = Block [1, 2, 3, 4, 5, 6]\<rparr>"
      "[1, 2, 3, 4, 5, 6]" 1 2 "\<lambda>n. True"] s by auto
  have "out ! 54 = 6" "out ! 58 = 3"
    using o(4) [rule_format, of 0 0 0] o(4) [rule_format, of 1 0 0] s by (simp_all add: bmp_offset_def)
  then show ?thesis using o(1-3) s by auto
qed

text \<open>
  C38: A grey image (one byte per pixel) makes \<open>write_bmp_file\<close> read behind the image: it always
  takes three bytes per pixel, so the loop over the first line written already faults.
\<close>

theorem bmp_grey_faults:
  assumes "raw_image c = Block raw" "bytes_per_pixel c = 1" "conv_width c = int w" "conv_height c = int h"
    and "0 < w" "0 < h" "length raw = w * h" "malloc (nat (bytesPerLine (conv_width c)))"
  shows "write_bmp_file True malloc c = None"
proof -
  have idx: "w - 1 + (h - 1) * w + 2 \<ge> length raw"
  proof -
    have "h * w = (h - 1) * w + w" using assms(6) by (cases h) auto
    then show ?thesis using assms(5,7) by (simp add: mult.commute)
  qed
  have "line_pixel raw 1 w (h - 1) (0 + (w - 1)) l = None" for l
    using idx by (simp add: line_pixel_def load_bytes_def Let_def)
  then have "for_loop 0 w (line_pixel raw 1 w (h - 1)) l = None" for l
    using assms(5) by (intro for_loop_fault [where k = "w - 1"]) simp_all
  then have "write_line raw 1 w h (0 + 0) st = None" for st
    by (cases st) (simp add: write_line_def Let_def)
  then have "for_loop 0 h (write_line raw 1 w h) st = None" for st
    using assms(6) by (intro for_loop_fault [where k = 0]) simp_all
  then show ?thesis using assms(1-4,8) by (simp add: write_bmp_file_def Let_def)
qed

theorem bmp_grey_faults_witness:
  "write_bmp_file True (\<lambda>n. True)
     \<lparr>conv_width = 2, conv_height = 1, bytes_per_pixel = 1, raw_image = Block [1, 2]\<rparr> = None"
  using bmp_grey_faults [of "\<lparr>conv_width = 2, conv_height = 1, bytes_per_pixel = 1, raw_image = Block [1, 2]\<rparr>"
      "[1, 2]" 2 1 "\<lambda>n. True"] by simp

end
