(* ===== verification/Projector.thy ===== *)
theory Projector
  imports Framebuffer BmpFile EchoServers ClientProtocol
begin

text \<open>
  The first server \<open>projector.cpp\<close> (bitmap loading, the drawing routine, the echo loop) and the
  sender \<open>server/client.cpp\<close>, whose message is fed to the protocol machine of \<open>Server.cpp\<close>.
  \<open>None\<close> is a fault; the answers of system calls that are looked at are inputs, an action is a call
  with what it is given (neither program looks at the answer of \<open>write\<close>); prints other than the
  echoed data are left out.
\<close>

section \<open>The bitmap\<close>

text \<open>
  \<open>height * width * bpp / 8\<close>, without overflow; \<open>readInfo\<close> leaves the file at offset 54, where
  the pixels are then read.
\<close>

definition picture_size :: "infoheader \<Rightarrow> nat option" where
  "picture_size info =
     (let hw = height info * width info; n = hw * int (infoheader.bpp info)
      in if in_s32 hw \<and> in_s32 n \<and> 0 \<le> cdiv n 8 then Some (nat (cdiv n 8)) else None)"

definition load_picture :: "(nat \<Rightarrow> byte list) \<Rightarrow> byte list \<Rightarrow> byte list option" where
  "load_picture junk file =
     (case picture_size (readInfo file junk) of None \<Rightarrow> None | Some n \<Rightarrow> Some (fread_at file 54 (junk n)))"

text \<open>\<open>draw\<close>: the rows from the last to the first, the buffer from position 54 on.\<close>

definition projector_pixel ::
  "fix_screeninfo \<Rightarrow> byte list \<Rightarrow> nat \<Rightarrow> nat \<Rightarrow> nat \<times> byte list \<Rightarrow> (nat \<times> byte list) option" where
  "projector_pixel fi buffer y x st =
     (let (bufferPos, fb) = st in
      do {
        r \<leftarrow> load_bytes bufferPos 1 buffer;
        g \<leftarrow> load_bytes (bufferPos + 1) 1 buffer;
        b \<leftarrow> load_bytes (bufferPos + 2) 1 buffer;
        fb1 \<leftarrow> put_pixel_RGB24 fi (of_nat x) (of_nat y) (uint (hd r)) (uint (hd g)) (uint (hd b)) fb;
        Some (bufferPos + 3, fb1)
      })"

definition projector_draw :: "var_screeninfo \<Rightarrow> fix_screeninfo \<Rightarrow> byte list \<Rightarrow> byte list \<Rightarrow> byte list option" where
  "projector_draw vi fi buffer fb =
     do {
       (pos, fb1) \<leftarrow> for_loop 0 (unat (yres vi))
         (\<lambda>i. for_loop 0 (unat (xres vi)) (projector_pixel fi buffer (unat (yres vi) - 1 - i))) (54, fb);
       Some fb1
     }"

section \<open>The echo loop\<close>

text \<open>
  The answer of \<open>read\<close> is kept in an \<open>unsigned int\<close>: a failed read is \<open>2 ^ 32 - 1\<close>, which is
  greater than 0.  Whatever was read, \<open>MAX_BUF\<close> bytes are written back.
\<close>

definition data_len :: "io \<Rightarrow> nat" where
  "data_len ev = (case ev of Received d \<Rightarrow> length d | EndOfFile \<Rightarrow> 0 | ReadError \<Rightarrow> 2 ^ 32 - 1 | NewConnection c \<Rightarrow> 0)"

definition projector_serve :: "nat \<Rightarrow> nat \<Rightarrow> io \<Rightarrow> echo_state \<Rightarrow> (echo_state \<times> action list) option" where
  "projector_serve server_socket f ev s =
     (if f = server_socket then
        (case ev of
           NewConnection c \<Rightarrow>
             if 0 \<le> c \<and> c < int SET_SIZE then Some (s\<lparr>fds := insert (nat c) (fds s)\<rparr>, []) else None
         | _ \<Rightarrow> Some (s, []))
      else
        do {
          s1 \<leftarrow> (case ev of Received d \<Rightarrow> read_into d s | _ \<Rightarrow> Some s);
          if data_len ev > 0 then
            do {
              out \<leftarrow> load_bytes 0 MAX_BUF (echo_buf s1);
              Some (s1, [Stdout out, Send f out])
            }
          else Some (s1\<lparr>fds := fds s1 - {f}\<rparr>, [Close f])
        })"

fun projector_loop :: "nat \<Rightarrow> (nat \<times> io) list \<Rightarrow> echo_state \<Rightarrow> (echo_state \<times> action list) option" where
  "projector_loop sock [] s = Some (s, [])"
| "projector_loop sock ((f, ev) # evs) s =
     do {
       (s1, out) \<leftarrow> projector_serve sock f ev s;
       (s2, out2) \<leftarrow> projector_loop sock evs s1;
       Some (s2, out @ out2)
     }"

text \<open>\<open>char buf[MAX_BUF] = "Test!"\<close>\<close>

definition test_buf :: "byte list" where
  "test_buf = map (\<lambda>c. of_nat (of_char c)) ''Test!'' @ replicate (MAX_BUF - 5) 0"

text \<open>
  \<open>main\<close>: \<open>file\<close> is \<open>3.bmp\<close>, if it is there; a missing file is dereferenced.  Only the device and
  the three socket calls end the program; the loop has no exit but a failed \<open>select\<close>, here the
  end of \<open>evs\<close>.
\<close>

definition projector_main ::
  "int \<Rightarrow> byte list option \<Rightarrow> (nat \<Rightarrow> byte list) \<Rightarrow> int \<Rightarrow> int \<Rightarrow> int \<Rightarrow> (nat \<times> io) list \<Rightarrow> action list option" where
  "projector_main fbfd file junk sock bound listening evs =
     (if fbfd = -1 then Some [EchoServers.Exit 1]
      else do {
        f \<leftarrow> file;
        buffer \<leftarrow> load_picture junk f;
        if sock < 0 \<or> bound < 0 \<or> listening < 0 then Some [EchoServers.Exit 1]
        else do {
          (s, out) \<leftarrow> projector_loop (nat sock) evs \<lparr>fds = {nat sock}, echo_buf = test_buf\<rparr>;
          Some (out @ [EchoServers.Exit 1])
        }
      })"

section \<open>The sender\<close>

definition sender_name :: "byte list" where
  "sender_name = map (\<lambda>c. of_nat (of_char c)) ''seonghun''"

text \<open>\<open>buf\<close> after the three \<open>memcpy\<close>s.\<close>

definition sender_message :: "byte list" where
  "sender_message = le_enc 4 2 @ le_enc 4 8 @ sender_name"

text \<open>\<open>main\<close> up to its \<open>return 0\<close>; the image loop behind it is never reached.\<close>

definition sender_main :: "int \<Rightarrow> int \<Rightarrow> action list" where
  "sender_main sock connected =
     (if sock < 0 \<or> connected < 0 then [EchoServers.Exit 1] else [Send (nat sock) sender_message])"

section \<open>Lemmas\<close>

lemma length_test_buf: "length test_buf = MAX_BUF"
  by (simp add: test_buf_def MAX_BUF_def)

lemma projector_serve_received:
  assumes "f \<noteq> sock" "length (echo_buf s) = MAX_BUF" "d \<noteq> []" "length d \<le> MAX_BUF"
  defines "b \<equiv> d @ drop (length d) (echo_buf s)"
  shows "projector_serve sock f (Received d) s = Some (s\<lparr>echo_buf := b\<rparr>, [Stdout b, Send f b])" "length b = MAX_BUF"
proof -
  show l: "length b = MAX_BUF" using assms(2,4) by (simp add: b_def)
  have "read_into d s = Some (s\<lparr>echo_buf := b\<rparr>)"
    using assms(2,4) by (simp add: read_into_def store_bytes_def b_def)
  moreover have "load_bytes 0 MAX_BUF b = Some b" using l by (simp add: load_bytes_def)
  ultimately show "projector_serve sock f (Received d) s = Some (s\<lparr>echo_buf := b\<rparr>, [Stdout b, Send f b])"
    using assms(1,3) by (simp add: projector_serve_def data_len_def)
qed

text \<open>
  \<open>draw\<close> starts 54 bytes into a buffer that does not hold the header: with a buffer of three
  bytes per pixel of the screen, as \<open>main\<close> allocates for a picture of that size, it runs off the end.
\<close>

lemma projector_pixel_pos:
  "projector_pixel fi buffer y x (pos, fb) = Some (pos', fb') \<Longrightarrow> pos' = pos + 3 \<and> pos' \<le> length buffer"
  by (auto simp: projector_pixel_def bind_eq_Some_conv load_bytes_def split: if_splits)

lemma projector_row_pos:
  "for_loop i n (projector_pixel fi buffer y) (pos, fb) = Some (pos', fb') \<Longrightarrow>
    pos' = pos + 3 * n \<and> (0 < n \<longrightarrow> pos' \<le> length buffer)"
proof (induction n arbitrary: i pos fb)
  case (Suc n)
  then obtain p f where p: "projector_pixel fi buffer y i (pos, fb) = Some (p, f)"
    "for_loop (Suc i) n (projector_pixel fi buffer y) (p, f) = Some (pos', fb')"
    by (auto split: option.splits)
  show ?case using Suc.IH [OF p(2)] projector_pixel_pos [OF p(1)] by (cases n) auto
qed simp

lemma projector_rows_pos:
  "for_loop i m (\<lambda>i. for_loop 0 n (projector_pixel fi buffer (h - 1 - i))) (pos, fb) = Some (pos', fb') \<Longrightarrow>
    pos' = pos + 3 * (m * n) \<and> (0 < m * n \<longrightarrow> pos' \<le> length buffer)"
proof (induction m arbitrary: i pos fb)
  case (Suc m)
  then obtain p f where p: "for_loop 0 n (projector_pixel fi buffer (h - 1 - i)) (pos, fb) = Some (p, f)"
    "for_loop (Suc i) m (\<lambda>i. for_loop 0 n (projector_pixel fi buffer (h - 1 - i))) (p, f) = Some (pos', fb')"
    by (auto split: option.splits)
  show ?case using Suc.IH [OF p(2)] projector_row_pos [OF p(1)] by (cases "0 < m * n") (auto simp: algebra_simps)
qed simp

lemma projector_draw_overruns:
  assumes "0 < unat (xres vi)" "0 < unat (yres vi)"
    and "length buffer < 54 + 3 * (unat (yres vi) * unat (xres vi))"
  shows "projector_draw vi fi buffer fb = None"
proof (rule ccontr)
  assume "projector_draw vi fi buffer fb \<noteq> None"
  then obtain pos' fb' where "for_loop 0 (unat (yres vi))
      (\<lambda>i. for_loop 0 (unat (xres vi)) (projector_pixel fi buffer (unat (yres vi) - 1 - i))) (54, fb) = Some (pos', fb')"
    by (auto simp: projector_draw_def bind_eq_Some_conv)
  then show False using projector_rows_pos assms by fastforce
qed

section \<open>Properties\<close>

text \<open>
  C39: The projector's echo discloses data between clients: the answer to a client is the whole
  16384-byte buffer, so when one client has sent \<open>d1\<close> and another then sends a shorter \<open>d2\<close>, the
  other's answer is \<open>d2\<close> followed by the rest of \<open>d1\<close> and older bytes; and a failed read, stored
  as an unsigned number, is answered like data, leaves the client in the set and never ends the
  program.
\<close>

theorem projector_discloses:
  assumes "f \<noteq> sock" "g \<noteq> sock" "length (echo_buf s) = MAX_BUF"
    and "d2 \<noteq> []" "length d2 \<le> length d1" "length d1 \<le> MAX_BUF"
  shows "\<exists>b1 b2. projector_loop sock [(f, Received d1), (g, Received d2), (g, ReadError)] s
      = Some (s\<lparr>echo_buf := b2\<rparr>, [Stdout b1, Send f b1, Stdout b2, Send g b2, Stdout b2, Send g b2]) \<and>
    length b2 = MAX_BUF \<and> b2 = d2 @ drop (length d2) d1 @ drop (length d1) (echo_buf s)"
proof -
  let ?b1 = "d1 @ drop (length d1) (echo_buf s)"
  let ?b2 = "d2 @ drop (length d2) ?b1"
  have d1: "d1 \<noteq> []" using assms(4,5) by auto
  note r1 = projector_serve_received [OF assms(1,3) d1 assms(6)]
  have l1: "length (echo_buf (s\<lparr>echo_buf := ?b1\<rparr>)) = MAX_BUF" using r1(2) by simp
  have l2: "length d2 \<le> MAX_BUF" using assms(5,6) by simp
  note r2 = projector_serve_received [OF assms(2) l1 assms(4) l2]
  have e: "projector_serve sock g ReadError (s\<lparr>echo_buf := ?b2\<rparr>) = Some (s\<lparr>echo_buf := ?b2\<rparr>, [Stdout ?b2, Send g ?b2])"
    using assms(2) r2(2) by (simp add: projector_serve_def data_len_def load_bytes_def)
  have eq: "?b2 = d2 @ drop (length d2) d1 @ drop (length d1) (echo_buf s)" using assms(5) by simp
  have "projector_loop sock [(f, Received d1), (g, Received d2), (g, ReadError)] s
      = Some (s\<lparr>echo_buf := ?b2\<rparr>, [Stdout ?b1, Send f ?b1, Stdout ?b2, Send g ?b2, Stdout ?b2, Send g ?b2])"
    using r1(1) r2(1) e by simp
  moreover have "length ?b2 = MAX_BUF" using r2(2) by simp
  ultimately show ?thesis using eq by blast
qed

theorem projector_discloses_witness:
  "\<exists>b1 b2. projector_loop 3 [(4, Received [1, 2, 3]), (5, Received [9]), (5, ReadError)]
      \<lparr>fds = {3, 4, 5}, echo_buf = test_buf\<rparr>
    = Some (\<lparr>fds = {3, 4, 5}, echo_buf = b2\<rparr>, [Stdout b1, Send 4 b1, Stdout b2, Send 5 b2, Stdout b2, Send 5 b2]) \<and>
    take 3 b2 = [9, 2, 3]"
proof -
  obtain b1 b2 where "projector_loop 3 [(4, Received [1, 2, 3]), (5, Received [9]), (5, ReadError)]
      \<lparr>fds = {3, 4, 5}, echo_buf = test_buf\<rparr>
    = Some (\<lparr>fds = {3, 4, 5}, echo_buf = b2\<rparr>, [Stdout b1, Send 4 b1, Stdout b2, Send 5 b2, Stdout b2, Send 5 b2])"
    "b2 = [9] @ drop (length [9 :: byte]) [1, 2, 3] @ drop (length [1, 2, 3 :: byte]) test_buf"
    using projector_discloses [of 4 3 5 "\<lparr>fds = {3, 4, 5}, echo_buf = test_buf\<rparr>" "[9]" "[1, 2, 3]"]
    by (auto simp: length_test_buf MAX_BUF_def)
  then show ?thesis by auto
qed

text \<open>
  C40: The sender and the server fit together: the one message \<open>client.cpp\<close> writes, received whole
  by a connection that has no name yet and is between messages, gives the connection the name
  "seonghun" with its length 8 and terminator, changes no global state and leaves it between
  messages.
\<close>

theorem sender_names_client:
  assumes "idle c" "userName c = None" "0 \<le> sock" "0 \<le> connected"
  shows "\<exists>msg c'. sender_main sock connected = [Send (nat sock) msg] \<and>
    receive tj (msg @ junk) (length msg) c g = Some (0, c', g) \<and>
    userName c' = Some (map Some sender_name @ [Some 0]) \<and> userNameLength c' = 8 \<and> idle c'"
proof -
  have len: "length sender_name = 8" by (simp add: sender_name_def)
  have msg: "sender_message = concat (map encode_message [(2, sender_name)])"
    using len by (simp add: sender_message_def encode_message_def encode_header_def)
  let ?c = "start_message 2 8 c"
  let ?c1 = "?c\<lparr>recvBuffer := Some (map Some sender_name @ [Some 0]), recvOffset := 8\<rparr>"
  let ?c2 = "?c1\<lparr>userName := Some (map Some sender_name @ [Some 0]), userNameLength := 8\<rparr>"
  have un: "userName ?c1 = Some (replicate 8 None @ [Some 0])" "header_type ?c1 = 2"
    using assms(2) by (simp_all add: start_message_def message_types Let_def)
  have st: "store_bytes 0 (map Some sender_name) (replicate 8 None @ [Some 0]) = Some (map Some sender_name @ [Some 0])"
    "store_bytes 8 [Some 0] (map Some sender_name @ [Some 0]) = Some (map Some sender_name @ [Some 0])"
    using len by (simp_all add: store_bytes_def)
  have "finish_name ?c1 = Some ?c2"
    using un(1) st len by (simp add: finish_name_def load_bytes_def)
  then have "finish_message tj ?c1 g = Some (?c2, g)"
    using un(2) by (simp add: finish_message_def message_types)
  then have d: "deliver tj (2, sender_name) c g = Some (?c2\<lparr>remainBytes := 0\<rparr>, g)"
    using len by (simp add: deliver_def Let_def)
  have v: "list_all valid_message [(2, sender_name)]" by (simp add: valid_message_def len)
  have "receive tj (sender_message @ junk) (length sender_message) c g = Some (0, ?c2\<lparr>remainBytes := 0\<rparr>, g)"
    unfolding receive_def msg using receive_loop_messages [OF assms(1) v, of tj junk g] d by simp
  then show ?thesis
    using assms(3,4)
    by (intro exI [of _ sender_message] exI [of _ "?c2\<lparr>remainBytes := 0\<rparr>"]) (simp add: sender_main_def idle_def)
qed

theorem sender_names_client_witness:
  "\<exists>msg c'. sender_main 3 0 = [Send 3 msg] \<and>
    receive sample_tj (msg @ [1]) (length msg) sample_client sample_globals = Some (0, c', sample_globals) \<and>
    userNameLength c' = 8"
  using sender_names_client [OF idle_sample, of 3 0 sample_tj "[1]" sample_globals]
  by (auto simp: sample_client_def new_Client_def client_init_def)

end
