(* ===== verification/HuffTables.thy ===== *)
theory HuffTables
  imports JpegWriter JpegReader
begin

text \<open>
  The derived Huffman tables of \<open>jpeg-9a/jchuff.c\<close> and \<open>jdhuff.c\<close>: code assignment, the
  encoder's table, the decoder's \<open>maxcode\<close>, \<open>valoffset\<close> and lookahead tables.  The abstract side
  is the canonical code: \<open>cnt\<close>, \<open>first\<close> and \<open>start\<close> give, for each length, the number of codes,
  the first code and the index of its symbol.
\<close>

section \<open>Code assignment\<close>

text \<open>Figure C.1: \<open>huffsize[]\<close>, without its terminating 0.\<close>

fun huff_sizes :: "nat list \<Rightarrow> nat list \<Rightarrow> nat list \<Rightarrow> nat list result" where
  "huff_sizes bs [] huffsize = Inr huffsize"
| "huff_sizes bs (l # ls) huffsize =
     (let i = bs ! l
      in if length huffsize + i > 256 then Inl JERR_BAD_HUFF_TABLE
         else huff_sizes bs ls (huffsize @ replicate i l))"

text \<open>
  Figure C.2: the codes for the sizes left, the current code and size.  A shift by 32 or more
  would be a fault.
\<close>

function huff_codes :: "nat list \<Rightarrow> nat \<Rightarrow> nat \<Rightarrow> nat list result" where
  "huff_codes sizes cde si =
     (if sizes = [] then Inr []
      else if 31 \<le> si then Inl FAULT
      else
        (let k = length (takeWhile (\<lambda>s. s = si) sizes); cde1 = cde + k
         in if cde1 \<ge> push_bit si 1 then Inl JERR_BAD_HUFF_TABLE
            else bind_err (huff_codes (drop k sizes) (push_bit 1 cde1) (si + 1))
                   (\<lambda>codes. Inr ([cde..<cde1] @ codes))))"
  by pat_completeness auto
termination
  by (relation "measure (\<lambda>(sizes, cde, si). 31 - si)") auto

declare huff_codes.simps [simp del]

definition make_codes :: "nat list \<Rightarrow> (nat list \<times> nat list) result" where
  "make_codes bs =
     bind_err (huff_sizes bs [1..<17] []) (\<lambda>sizes.
     bind_err (huff_codes sizes 0 (hd (sizes @ [0]))) (\<lambda>codes. Inr (sizes, codes)))"

section \<open>The encoder's table\<close>

text \<open>\<open>ehufco\<close> of a symbol without a code is not set; 0 here.\<close>

record c_derived_tbl =
  ehufco :: "nat list"
  ehufsi :: "nat list"

fun c_entries :: "nat \<Rightarrow> (nat \<times> nat \<times> nat) list \<Rightarrow> c_derived_tbl \<Rightarrow> c_derived_tbl result" where
  "c_entries maxsymbol [] dtbl = Inr dtbl"
| "c_entries maxsymbol ((i, cde, sz) # es) dtbl =
     (if i > maxsymbol \<or> ehufsi dtbl ! i \<noteq> 0 then Inl JERR_BAD_HUFF_TABLE
      else c_entries maxsymbol es (dtbl\<lparr>ehufco := (ehufco dtbl)[i := cde], ehufsi := (ehufsi dtbl)[i := sz]\<rparr>))"

definition c_table :: "bool \<Rightarrow> huff_tbl \<Rightarrow> c_derived_tbl result" where
  "c_table isDC htbl =
     bind_err (make_codes (bits htbl)) (\<lambda>(sizes, codes).
       c_entries (if isDC then 15 else 255) (zip (huffval htbl) (zip codes sizes))
         \<lparr>ehufco = replicate 256 0, ehufsi = replicate 256 0\<rparr>)"

definition jpeg_make_c_derived_tbl :: "bool \<Rightarrow> nat \<Rightarrow> compress \<Rightarrow> c_derived_tbl result" where
  "jpeg_make_c_derived_tbl isDC tblno c =
     (if tblno \<ge> NUM_HUFF_TBLS then Inl (JERR_NO_HUFF_TABLE tblno)
      else case (if isDC then dc_huff_tbl_ptrs c else ac_huff_tbl_ptrs c) ! tblno of
        None \<Rightarrow> Inl (JERR_NO_HUFF_TABLE tblno)
      | Some htbl \<Rightarrow> c_table isDC htbl)"

section \<open>The decoder's table\<close>

definition HUFF_LOOKAHEAD :: nat where "HUFF_LOOKAHEAD = 8"

record d_derived_tbl =
  maxcode :: "int list"
  valoffset :: "int list"
  pub :: huff_tbl
  look_nbits :: "nat list"
  look_sym :: "nat list"

text \<open>Figure F.15; \<open>valoffset\<close> of a length without codes is not set, 0 here.\<close>

fun decode_limits :: "nat list \<Rightarrow> nat list \<Rightarrow> nat list \<Rightarrow> nat \<Rightarrow> int list \<Rightarrow> int list \<Rightarrow> int list \<times> int list" where
  "decode_limits bs codes [] p maxc offs = (maxc, offs)"
| "decode_limits bs codes (l # ls) p maxc offs =
     (if bs ! l \<noteq> 0
      then (let offs1 = offs[l := int p - int (codes ! p)]; p1 = p + bs ! l
            in decode_limits bs codes ls p1 (maxc[l := int (codes ! (p1 - 1))]) offs1)
      else decode_limits bs codes ls p (maxc[l := -1]) offs)"

text \<open>The lookahead tables: all 8-bit sequences that start with code \<open>p\<close> of length \<open>l\<close>.\<close>

definition look_fill :: "nat list \<Rightarrow> nat list \<Rightarrow> nat \<Rightarrow> nat \<Rightarrow> nat list \<times> nat list \<Rightarrow> nat list \<times> nat list" where
  "look_fill codes vals l p st =
     (let lookbits = push_bit (HUFF_LOOKAHEAD - l) (codes ! p); ctr = push_bit (HUFF_LOOKAHEAD - l) 1
      in fold (\<lambda>x (nb, symb). (nb[x := l], symb[x := vals ! p])) [lookbits..<lookbits + ctr] st)"

fun look_tables :: "nat list \<Rightarrow> nat list \<Rightarrow> nat list \<Rightarrow> nat list \<Rightarrow> nat \<Rightarrow> nat list \<times> nat list \<Rightarrow> nat list \<times> nat list" where
  "look_tables bs codes vals [] p st = st"
| "look_tables bs codes vals (l # ls) p st =
     look_tables bs codes vals ls (p + bs ! l) (fold (look_fill codes vals l) [p..<p + bs ! l] st)"

definition d_table :: "bool \<Rightarrow> huff_tbl \<Rightarrow> d_derived_tbl result" where
  "d_table isDC htbl =
     bind_err (make_codes (bits htbl)) (\<lambda>(sizes, codes).
       let (maxc, offs) = decode_limits (bits htbl) codes [1..<17] 0 (replicate 18 0) (replicate 17 0);
           (nb, symb) = look_tables (bits htbl) codes (huffval htbl) [1..<HUFF_LOOKAHEAD + 1] 0
             (replicate 256 0, replicate 256 0)
       in if isDC \<and> (\<exists>i\<in>set [0..<length sizes]. huffval htbl ! i > 15) then Inl JERR_BAD_HUFF_TABLE
          else Inr \<lparr>maxcode = maxc[17 := 0xFFFFF], valoffset = offs, pub = htbl, look_nbits = nb, look_sym = symb\<rparr>)"

definition jpeg_make_d_derived_tbl :: "bool \<Rightarrow> nat \<Rightarrow> decompress \<Rightarrow> d_derived_tbl result" where
  "jpeg_make_d_derived_tbl isDC tblno d =
     (if tblno \<ge> NUM_HUFF_TBLS then Inl (JERR_NO_HUFF_TABLE tblno)
      else case (if isDC then d_dc_huff_tbl_ptrs d else d_ac_huff_tbl_ptrs d) ! tblno of
        None \<Rightarrow> Inl (JERR_NO_HUFF_TABLE tblno)
      | Some htbl \<Rightarrow> d_table isDC htbl)"

section \<open>The canonical code\<close>

definition cnt :: "nat list \<Rightarrow> nat \<Rightarrow> nat" where
  "cnt bs l = (if 1 \<le> l \<and> l \<le> 16 then bs ! l else 0)"

fun first :: "nat list \<Rightarrow> nat \<Rightarrow> nat" where
  "first bs 0 = 0"
| "first bs (Suc l) = 2 * (first bs l + cnt bs l)"

fun start :: "nat list \<Rightarrow> nat \<Rightarrow> nat" where
  "start bs 0 = 0"
| "start bs (Suc l) = start bs l + cnt bs l"

text \<open>The counts form a code tree with at most 256 leaves and no code of all ones.\<close>

definition code_tree :: "nat list \<Rightarrow> bool" where
  "code_tree bs \<longleftrightarrow> start bs 17 \<le> 256 \<and> (\<forall>l\<in>{1..16}. first bs l + cnt bs l < 2 ^ l)"

text \<open>The length of the code at index \<open>p\<close>.\<close>

definition all_sizes :: "nat list \<Rightarrow> nat list" where
  "all_sizes bs = concat (map (\<lambda>l. replicate (cnt bs l) l) [1..<17])"

definition all_codes :: "nat list \<Rightarrow> nat list" where
  "all_codes bs = concat (map (\<lambda>l. [first bs l..<first bs l + cnt bs l]) [1..<17])"

definition sizes_from :: "nat list \<Rightarrow> nat \<Rightarrow> nat list" where
  "sizes_from bs l = concat (map (\<lambda>l. replicate (cnt bs l) l) [l..<17])"

definition codes_from :: "nat list \<Rightarrow> nat \<Rightarrow> nat list" where
  "codes_from bs l = concat (map (\<lambda>l. [first bs l..<first bs l + cnt bs l]) [l..<17])"

lemma from_17 [simp]: "sizes_from bs 17 = []" "codes_from bs 17 = []"
  by (simp_all add: sizes_from_def codes_from_def)

lemma from_step:
  assumes "l < 17"
  shows "sizes_from bs l = replicate (cnt bs l) l @ sizes_from bs (Suc l)"
    "codes_from bs l = [first bs l..<first bs l + cnt bs l] @ codes_from bs (Suc l)"
  using assms by (simp_all add: sizes_from_def codes_from_def upt_conv_Cons)

lemma all_from: "all_sizes bs = sizes_from bs 1" "all_codes bs = codes_from bs 1"
  by (simp_all add: all_sizes_def sizes_from_def all_codes_def codes_from_def)

lemma sizes_from_ge: "s \<in> set (sizes_from bs l) \<Longrightarrow> l \<le> s \<and> s < 17"
  by (auto simp: sizes_from_def)

lemma from_empty:
  assumes "sizes_from bs l = []" "first bs l < 2 ^ l" "l \<le> l'" "l' \<le> 16"
  shows "cnt bs l' = 0" "first bs l' + cnt bs l' < 2 ^ l'"
proof -
  have c: "cnt bs k = 0" if "l \<le> k" "k \<le> 16" for k
    using assms(1) that by (auto simp: sizes_from_def)
  show "cnt bs l' = 0" using c assms(3,4) by blast
  have "first bs l' < 2 ^ l'"
    using assms(3,4)
  proof (induction l' rule: dec_induct)
    case base
    then show ?case using assms(2) by simp
  next
    case (step n)
    then show ?case using c [of n] by simp
  qed
  then show "first bs l' + cnt bs l' < 2 ^ l'" using c assms(3,4) by simp
qed

lemma codes_from_empty: "sizes_from bs l = [] \<Longrightarrow> codes_from bs l = []"
  by (auto simp: sizes_from_def codes_from_def)

lemma huff_codes_from:
  assumes "first bs l < 2 ^ l" "1 \<le> l" "l \<le> 17"
  shows "huff_codes (sizes_from bs l) (first bs l) l =
    (if \<forall>l'\<in>{l..16}. first bs l' + cnt bs l' < 2 ^ l' then Inr (codes_from bs l) else Inl JERR_BAD_HUFF_TABLE)"
  using assms
proof (induction "17 - l" arbitrary: l)
  case 0
  then show ?case by (simp add: huff_codes.simps)
next
  case (Suc n)
  then have l: "l < 17" by simp
  show ?case
  proof (cases "sizes_from bs l = []")
    case True
    then show ?thesis
      using from_empty(2) [OF True Suc.prems(1)] codes_from_empty [OF True] by (simp add: huff_codes.simps [of "[]"])
  next
    case False
    let ?k = "cnt bs l"
    have tw: "length (takeWhile (\<lambda>s. s = l) (sizes_from bs l)) = ?k"
    proof -
      have "takeWhile (\<lambda>s. s = l) (sizes_from bs (Suc l)) = []"
        using sizes_from_ge [of _ bs "Suc l"] by (cases "sizes_from bs (Suc l)") force+
      then show ?thesis by (simp add: from_step(1) [OF l] takeWhile_append)
    qed
    have dr: "drop ?k (sizes_from bs l) = sizes_from bs (Suc l)" by (simp add: from_step(1) [OF l])
    have pb: "push_bit l (1 :: nat) = 2 ^ l" "push_bit 1 (first bs l + ?k) = first bs (Suc l)"
      by (simp_all add: push_bit_eq_mult)
    have split: "(\<forall>l'\<in>{l..16}. first bs l' + cnt bs l' < 2 ^ l') \<longleftrightarrow>
        first bs l + ?k < 2 ^ l \<and> (\<forall>l'\<in>{Suc l..16}. first bs l' + cnt bs l' < 2 ^ l')"
      using l by (auto simp: le_less Suc_le_eq)
    show ?thesis
    proof (cases "first bs l + ?k < 2 ^ l")
      case True
      then have "first bs (Suc l) < 2 ^ Suc l" by simp
      then have "huff_codes (sizes_from bs (Suc l)) (first bs (Suc l)) (Suc l) =
          (if \<forall>l'\<in>{Suc l..16}. first bs l' + cnt bs l' < 2 ^ l' then Inr (codes_from bs (Suc l)) else Inl JERR_BAD_HUFF_TABLE)"
        using Suc l by (intro Suc.hyps(1)) simp_all
      then show ?thesis
        unfolding split huff_codes.simps [of "sizes_from bs l"] tw Let_def dr pb
        using True False l by (auto simp: from_step(2) [OF l])
    next
      case f: False
      then show ?thesis
        unfolding split huff_codes.simps [of "sizes_from bs l"] tw Let_def dr pb
        using False l by auto
    qed
  qed
qed

lemma huff_sizes_spec:
  "huff_sizes bs ls acc =
    (if length acc + sum_list (map (\<lambda>l. bs ! l) ls) \<le> 256 \<or> ls = [] then Inr (acc @ concat (map (\<lambda>l. replicate (bs ! l) l) ls))
     else Inl JERR_BAD_HUFF_TABLE)"
  by (induction ls arbitrary: acc) (auto simp: Let_def)

lemma start_sum: "start bs n = sum_list (map (cnt bs) [0..<n])"
  by (induction n) simp_all

lemma start_17: "start bs 17 = sum_list (map (\<lambda>l. bs ! l) [1..<17])"
proof -
  have "start bs 17 = sum_list (map (cnt bs) (0 # [1..<17]))"
    unfolding start_sum by (simp add: upt_conv_Cons)
  also have "\<dots> = sum_list (map (cnt bs) [1..<17])" by (simp add: cnt_def)
  also have "map (cnt bs) [1..<17] = map (\<lambda>l. bs ! l) [1..<17]" by (simp add: cnt_def)
  finally show ?thesis .
qed

lemma all_sizes_bs: "all_sizes bs = concat (map (\<lambda>l. replicate (bs ! l) l) [1..<17])"
  unfolding all_sizes_def by (intro arg_cong [of _ _ concat] map_cong) (simp_all add: cnt_def)

lemma huff_sizes_all:
  "huff_sizes bs [1..<17] [] = (if start bs 17 \<le> 256 then Inr (all_sizes bs) else Inl JERR_BAD_HUFF_TABLE)"
  unfolding huff_sizes_spec start_17 all_sizes_bs by simp

text \<open>The smallest size in use, and no codes before it.\<close>

lemma first_unused:
  assumes "\<And>k. k < l \<Longrightarrow> cnt bs k = 0"
  shows "first bs l = 0"
  using assms by (induction l) simp_all

lemma from_skip:
  assumes "1 \<le> m" "m \<le> l" "l \<le> 17" "\<And>k. m \<le> k \<Longrightarrow> k < l \<Longrightarrow> cnt bs k = 0"
  shows "sizes_from bs m = sizes_from bs l \<and> codes_from bs m = codes_from bs l"
  using assms(2-4)
proof (induction l rule: dec_induct)
  case (step n)
  then show ?case using from_step [of n bs] by simp
qed simp

lemma make_codes_all:
  "make_codes bs = (if start bs 17 \<le> 256
    then bind_err (huff_codes (all_sizes bs) 0 (hd (all_sizes bs @ [0]))) (\<lambda>codes. Inr (all_sizes bs, codes))
    else Inl JERR_BAD_HUFF_TABLE)"
  unfolding make_codes_def huff_sizes_all by simp

lemma make_codes_spec:
  "make_codes bs = (if code_tree bs then Inr (all_sizes bs, all_codes bs) else Inl JERR_BAD_HUFF_TABLE)"
proof (cases "start bs 17 \<le> 256")
  case False
  then show ?thesis by (simp add: make_codes_all code_tree_def)
next
  case small: True
  show ?thesis
  proof (cases "all_sizes bs")
    case Nil
    then have "\<And>l'. 1 \<le> l' \<Longrightarrow> l' \<le> 16 \<Longrightarrow> first bs l' + cnt bs l' < 2 ^ l'"
      using from_empty(2) [of bs 1] by (simp add: all_from cnt_def)
    then show ?thesis
      using small Nil codes_from_empty [of bs 1]
      by (simp add: make_codes_all code_tree_def huff_codes.simps [of "[]"] all_from)
  next
    case (Cons si rest)
    have si: "1 \<le> si" "si < 17" using sizes_from_ge [of si bs 1] Cons by (simp_all add: all_from)
    have c: "cnt bs k = 0" if "k < si" for k
    proof (rule ccontr)
      assume k: "cnt bs k \<noteq> 0"
      then have "1 \<le> k" by (auto simp: cnt_def split: if_splits)
      obtain m where m1: "cnt bs m \<noteq> 0" and m3: "\<And>j. j < m \<Longrightarrow> cnt bs j = 0"
        using k exists_least_iff [of "\<lambda>k. cnt bs k \<noteq> 0"] by auto
      have "m \<le> k" using m3 [of k] k by (meson not_le)
      note m = m1 this m3
      have "1 \<le> m" "m < 17" using m(1,2) that si by (auto simp: cnt_def split: if_splits)
      then have "all_sizes bs = sizes_from bs m" using from_skip [of 1 m bs] m(3) by (simp add: all_from)
      moreover have "sizes_from bs m \<noteq> [] \<and> hd (sizes_from bs m) = m"
        using from_step(1) [OF \<open>m < 17\<close>, of bs] m(1) by (cases "cnt bs m") simp_all
      ultimately have "si = m" by (metis Cons list.sel(1))
      then show False using m(2) that by simp
    qed
    have all: "all_sizes bs = sizes_from bs si" "all_codes bs = codes_from bs si"
      using from_skip [of 1 si bs] c si by (simp_all add: all_from)
    have f: "first bs si = 0" using c by (rule first_unused)
    have lower: "first bs l + cnt bs l < 2 ^ l" if "l < si" for l
      using first_unused [of l bs] c that by simp
    have "(\<forall>l'\<in>{si..16}. first bs l' + cnt bs l' < 2 ^ l') \<longleftrightarrow> code_tree bs"
      using small lower si by (force simp: code_tree_def not_le [symmetric])
    then show ?thesis
      using huff_codes_from [of bs si] si f small Cons
      by (simp add: make_codes_all all)
  qed
qed


section \<open>Indices\<close>

lemma start_Suc_0 [simp]: "start bs (Suc 0) = 0" "first bs (Suc 0) = 0" "cnt bs 0 = 0"
  by (simp_all add: cnt_def)

lemma from_prefix:
  assumes "1 \<le> l" "l \<le> 17"
  shows "\<exists>ps pc. all_sizes bs = ps @ sizes_from bs l \<and> all_codes bs = pc @ codes_from bs l
    \<and> length ps = start bs l \<and> length pc = start bs l"
  using assms
proof (induction l rule: dec_induct)
  case base
  show ?case by (simp add: all_from)
next
  case (step n)
  then obtain ps pc where *: "all_sizes bs = ps @ sizes_from bs n" "all_codes bs = pc @ codes_from bs n"
    "length ps = start bs n" "length pc = start bs n" by auto
  have "all_sizes bs = (ps @ replicate (cnt bs n) n) @ sizes_from bs (Suc n)"
    "all_codes bs = (pc @ [first bs n..<first bs n + cnt bs n]) @ codes_from bs (Suc n)"
    using from_step [of n bs] step.prems * by simp_all
  moreover have "length (ps @ replicate (cnt bs n) n) = start bs (Suc n)"
    "length (pc @ [first bs n..<first bs n + cnt bs n]) = start bs (Suc n)" using * by simp_all
  ultimately show ?case by (intro exI conjI)
qed

lemma length_all: "length (all_sizes bs) = start bs 17" "length (all_codes bs) = start bs 17"
  using from_prefix [of 17 bs] by auto

lemma all_nth:
  assumes "i < cnt bs l"
  shows "all_sizes bs ! (start bs l + i) = l" "all_codes bs ! (start bs l + i) = first bs l + i"
    "start bs l + i < start bs 17"
proof -
  have l: "1 \<le> l" "l < 17" using assms by (auto simp: cnt_def split: if_splits)
  obtain ps pc where *: "all_sizes bs = ps @ sizes_from bs l" "all_codes bs = pc @ codes_from bs l"
    "length ps = start bs l" "length pc = start bs l" using from_prefix [of l bs] l by auto
  show "all_sizes bs ! (start bs l + i) = l" "all_codes bs ! (start bs l + i) = first bs l + i"
    using * assms from_step [OF l(2), of bs] by (simp_all add: nth_append)
  show "start bs l + i < start bs 17"
    using * assms from_step [OF l(2), of bs] length_all(1) [of bs] by simp
qed

lemma index_level:
  assumes "p < start bs n"
  shows "\<exists>l i. p = start bs l + i \<and> i < cnt bs l \<and> l < n"
  using assms
proof (induction n)
  case (Suc n)
  show ?case
  proof (cases "p < start bs n")
    case True
    then show ?thesis using Suc.IH by (meson less_Suc_eq)
  next
    case False
    then show ?thesis using Suc.prems by (intro exI [of _ n] exI [of _ "p - start bs n"]) auto
  qed
qed simp

lemma cnt_pos: "0 < cnt bs l \<Longrightarrow> 1 \<le> l \<and> l \<le> 16"
  by (auto simp: cnt_def split: if_splits)

text \<open>A code, padded to any longer length, is below the codes of that length.\<close>

lemma first_step:
  assumes "l < l'"
  shows "(first bs l + cnt bs l) * 2 ^ (l' - l) \<le> first bs l'"
  using assms
proof (induction l')
  case (Suc n)
  show ?case
  proof (cases "l = n")
    case False
    then have "(first bs l + cnt bs l) * 2 ^ (n - l) \<le> first bs n" using Suc by simp
    then have "2 * ((first bs l + cnt bs l) * 2 ^ (n - l)) \<le> 2 * (first bs n + cnt bs n)" by simp
    moreover have "Suc n - l = Suc (n - l)" using Suc.prems False by simp
    ultimately show ?thesis by (simp add: algebra_simps)
  qed simp
qed simp


section \<open>What the decoder's tables hold\<close>

definition max_of :: "nat list \<Rightarrow> nat \<Rightarrow> int" where
  "max_of bs l = (if cnt bs l = 0 then -1 else int (first bs l + cnt bs l) - 1)"

lemma decode_limits_from:
  assumes "1 \<le> l" "l \<le> 17" "length maxc = 18" "length offs = 17"
    "decode_limits bs (all_codes bs) [l..<17] (start bs l) maxc offs = (maxc', offs')"
  shows "length maxc' = 18 \<and> length offs' = 17
    \<and> (\<forall>k. maxc' ! k = (if l \<le> k \<and> k \<le> 16 then max_of bs k else maxc ! k))
    \<and> (\<forall>k. offs' ! k = (if l \<le> k \<and> 0 < cnt bs k then int (start bs k) - int (first bs k) else offs ! k))"
  using assms
proof (induction "17 - l" arbitrary: l maxc offs)
  case 0
  then have "l = 17" by simp
  moreover have "\<not> (17 \<le> k \<and> 0 < cnt bs k)" for k by (auto simp: cnt_def)
  ultimately show ?case using 0 by (auto simp del: neq0_conv)
next
  case (Suc n)
  then have l: "l < 17" "1 \<le> l" by simp_all
  have cl: "cnt bs l = bs ! l" using l by (simp add: cnt_def)
  have st: "start bs (Suc l) = start bs l + bs ! l" by (simp add: cl)
  have range: "l \<le> k \<longleftrightarrow> k = l \<or> Suc l \<le> k" for k by auto
  show ?case
  proof (cases "bs ! l = 0")
    case True
    have run: "decode_limits bs (all_codes bs) [Suc l..<17] (start bs (Suc l)) (maxc[l := -1]) offs = (maxc', offs')"
      using Suc.prems(5) l True st by (simp add: upt_conv_Cons)
    have "length maxc' = 18 \<and> length offs' = 17
        \<and> (\<forall>k. maxc' ! k = (if Suc l \<le> k \<and> k \<le> 16 then max_of bs k else maxc[l := -1] ! k))
        \<and> (\<forall>k. offs' ! k = (if Suc l \<le> k \<and> 0 < cnt bs k then int (start bs k) - int (first bs k) else offs ! k))"
      by (rule Suc.hyps(1) [OF _ _ _ _ _ run]) (use Suc.hyps(2) Suc.prems l in simp_all)
    moreover have "max_of bs l = -1" using True cl by (simp add: max_of_def)
    ultimately show ?thesis using True cl l Suc.prems(3) by (simp add: range nth_list_update)
  next
    case False
    have "all_codes bs ! (start bs (Suc l) - 1) = first bs l + (bs ! l - 1)"
      using all_nth(2) [of "bs ! l - 1" bs l] False cl by simp
    moreover have "all_codes bs ! start bs l = first bs l" using all_nth(2) [of 0 bs l] False cl by simp
    ultimately have run: "decode_limits bs (all_codes bs) [Suc l..<17] (start bs (Suc l))
        (maxc[l := max_of bs l]) (offs[l := int (start bs l) - int (first bs l)]) = (maxc', offs')"
      using Suc.prems(5) l False st cl by (simp add: upt_conv_Cons Let_def max_of_def of_nat_diff algebra_simps)
    have "length maxc' = 18 \<and> length offs' = 17
        \<and> (\<forall>k. maxc' ! k = (if Suc l \<le> k \<and> k \<le> 16 then max_of bs k else maxc[l := max_of bs l] ! k))
        \<and> (\<forall>k. offs' ! k = (if Suc l \<le> k \<and> 0 < cnt bs k then int (start bs k) - int (first bs k)
              else offs[l := int (start bs l) - int (first bs l)] ! k))"
      by (rule Suc.hyps(1) [OF _ _ _ _ _ run]) (use Suc.hyps(2) Suc.prems l in simp_all)
    then show ?thesis using False cl l Suc.prems(3,4) by (simp add: range nth_list_update)
  qed
qed

text \<open>\<open>maxcode[l]\<close> decides as the first code after those of length \<open>l\<close> does.\<close>

definition limits_ok :: "nat list \<Rightarrow> int list \<Rightarrow> int list \<Rightarrow> bool" where
  "limits_ok bs maxc offs \<longleftrightarrow> length maxc = 18 \<and> length offs = 17
    \<and> (\<forall>l c. 1 \<le> l \<longrightarrow> l \<le> 16 \<longrightarrow> first bs l \<le> c \<longrightarrow> (int c > maxc ! l \<longleftrightarrow> first bs l + cnt bs l \<le> c))
    \<and> (\<forall>l. 0 < cnt bs l \<longrightarrow> offs ! l = int (start bs l) - int (first bs l))"

lemma decode_limits_ok:
  assumes "decode_limits bs (all_codes bs) [1..<17] 0 (replicate 18 0) (replicate 17 0) = (maxc, offs)"
  shows "limits_ok bs (maxc[17 := 0xFFFFF]) offs"
proof -
  have "decode_limits bs (all_codes bs) [1..<17] (start bs 1) (replicate 18 0) (replicate 17 0) = (maxc, offs)"
    using assms by simp
  then have *: "length maxc = 18 \<and> length offs = 17
      \<and> (\<forall>k. maxc ! k = (if 1 \<le> k \<and> k \<le> 16 then max_of bs k else replicate 18 0 ! k))
      \<and> (\<forall>k. offs ! k = (if 1 \<le> k \<and> 0 < cnt bs k then int (start bs k) - int (first bs k) else replicate 17 0 ! k))"
    by (intro decode_limits_from) simp_all
  have "int c > maxc[17 := 0xFFFFF] ! l \<longleftrightarrow> first bs l + cnt bs l \<le> c"
    if "1 \<le> l" "l \<le> 16" "first bs l \<le> c" for l c
    using * that by (auto simp: max_of_def)
  moreover have "offs ! l = int (start bs l) - int (first bs l)" if "0 < cnt bs l" for l
    using * that cnt_pos [OF that] by simp
  ultimately show ?thesis using * unfolding limits_ok_def by simp
qed


text \<open>An 8-bit sequence starts with a code of length \<open>l\<close>, and which symbol that is.\<close>

definition starts_code :: "nat list \<Rightarrow> nat \<Rightarrow> nat \<Rightarrow> bool" where
  "starts_code bs l x \<longleftrightarrow> first bs l \<le> x div 2 ^ (8 - l) \<and> x div 2 ^ (8 - l) < first bs l + cnt bs l"

definition look_at :: "nat list \<times> nat list \<Rightarrow> nat \<Rightarrow> nat \<times> nat" where
  "look_at st x = (fst st ! x, snd st ! x)"

definition look_shape :: "nat list \<times> nat list \<Rightarrow> bool" where
  "look_shape st \<longleftrightarrow> length (fst st) = 256 \<and> length (snd st) = 256"

lemma one_entry:
  "look_shape st \<Longrightarrow> look_shape (case st of (nb, symb) \<Rightarrow> (nb[i := l], symb[i := v]))"
  "look_shape st \<Longrightarrow> x < 256 \<Longrightarrow>
    look_at (case st of (nb, symb) \<Rightarrow> (nb[i := l], symb[i := v])) x = (if x = i then (l, v) else look_at st x)"
  by (cases st; auto simp: look_shape_def look_at_def nth_list_update)+

lemma fold_entries:
  "look_shape st \<Longrightarrow> look_shape (fold (\<lambda>x (nb, symb). (nb[x := l], symb[x := v])) [a..<a + n] st)
    \<and> (\<forall>x<256. look_at (fold (\<lambda>x (nb, symb). (nb[x := l], symb[x := v])) [a..<a + n] st) x
        = (if a \<le> x \<and> x < a + n then (l, v) else look_at st x))"
proof (induction n)
  case (Suc n)
  then show ?case by (auto simp: one_entry simp del: split_paired_All)
qed auto

lemma block_div: "c * 2 ^ k \<le> x \<and> x < c * 2 ^ k + 2 ^ k \<longleftrightarrow> x div 2 ^ k = c" for x :: nat
proof -
  have "x div 2 ^ k = c \<longleftrightarrow> c \<le> x div 2 ^ k \<and> x div 2 ^ k < Suc c" by auto
  also have "\<dots> \<longleftrightarrow> c * 2 ^ k \<le> x \<and> x < Suc c * 2 ^ k"
    by (simp only: less_eq_div_iff_mult_less_eq [of "2 ^ k" c x] div_less_iff_less_mult [of "2 ^ k" x "Suc c"] zero_less_power zero_less_numeral)
  finally show ?thesis by (simp add: add.commute)
qed

lemma look_fill_at:
  assumes "look_shape st"
  shows "look_shape (look_fill codes vals l p st)"
    "x < 256 \<Longrightarrow> look_at (look_fill codes vals l p st) x
      = (if x div 2 ^ (8 - l) = codes ! p then (l, vals ! p) else look_at st x)"
  using fold_entries [OF assms, of l "vals ! p" "codes ! p * 2 ^ (8 - l)" "2 ^ (8 - l)"]
    block_div [of "codes ! p" "8 - l" x]
  by (simp_all add: look_fill_def HUFF_LOOKAHEAD_def Let_def push_bit_eq_mult)

lemma look_level:
  assumes "look_shape st" "j \<le> cnt bs l"
  shows "look_shape (fold (look_fill (all_codes bs) vals l) [start bs l..<start bs l + j] st)
    \<and> (\<forall>x<256. look_at (fold (look_fill (all_codes bs) vals l) [start bs l..<start bs l + j] st) x
        = (if first bs l \<le> x div 2 ^ (8 - l) \<and> x div 2 ^ (8 - l) < first bs l + j
           then (l, vals ! (start bs l + (x div 2 ^ (8 - l) - first bs l))) else look_at st x))"
  using assms(2)
proof (induction j)
  case 0
  show ?case using assms(1) by (auto simp del: not_less)
next
  case (Suc j)
  have c: "all_codes bs ! (start bs l + j) = first bs l + j" using all_nth(2) [of j bs l] Suc.prems by simp
  show ?case
    using Suc.IH Suc.prems by (auto simp: look_fill_at c)
qed

lemma starts_code_once:
  assumes "starts_code bs k x" "starts_code bs l x" "k < l" "l \<le> 8"
  shows False
proof -
  have "x div 2 ^ (8 - l) div 2 ^ (l - k) = x div 2 ^ (8 - k)"
    using assms(3,4) by (simp add: div_mult2_eq [symmetric] power_add [symmetric])
  then have "x div 2 ^ (8 - l) < (first bs k + cnt bs k) * 2 ^ (l - k)"
    using assms(1) unfolding starts_code_def by (metis div_less_iff_less_mult zero_less_numeral zero_less_power)
  then show False using first_step [OF assms(3), of bs] assms(2) unfolding starts_code_def by linarith
qed

lemma look_tables_from:
  assumes "1 \<le> l" "l \<le> 9" "look_shape st"
  shows "look_shape (look_tables bs (all_codes bs) vals [l..<9] (start bs l) st)
    \<and> (\<forall>x<256. \<forall>k. l \<le> k \<longrightarrow> k \<le> 8 \<longrightarrow> starts_code bs k x \<longrightarrow>
        look_at (look_tables bs (all_codes bs) vals [l..<9] (start bs l) st) x
          = (k, vals ! (start bs k + (x div 2 ^ (8 - k) - first bs k))))
    \<and> (\<forall>x<256. (\<forall>k. l \<le> k \<longrightarrow> k \<le> 8 \<longrightarrow> \<not> starts_code bs k x) \<longrightarrow>
        look_at (look_tables bs (all_codes bs) vals [l..<9] (start bs l) st) x = look_at st x)"
  using assms
proof (induction "9 - l" arbitrary: l st)
  case 0
  then have "l = 9" by simp
  then show ?case using 0 by simp
next
  case (Suc n)
  then have l: "l < 9" by simp
  have cl: "cnt bs l = bs ! l" using l Suc.prems by (simp add: cnt_def)
  define st1 where "st1 = fold (look_fill (all_codes bs) vals l) [start bs l..<start bs l + cnt bs l] st"
  have lev: "look_shape st1" "\<And>x. x < 256 \<Longrightarrow> look_at st1 x
      = (if starts_code bs l x then (l, vals ! (start bs l + (x div 2 ^ (8 - l) - first bs l))) else look_at st x)"
    using look_level [OF Suc.prems(3), of "cnt bs l" bs l vals] unfolding st1_def starts_code_def by simp_all
  have run: "look_tables bs (all_codes bs) vals [l..<9] (start bs l) st
      = look_tables bs (all_codes bs) vals [Suc l..<9] (start bs (Suc l)) st1"
    using l by (simp add: upt_conv_Cons st1_def cl)
  note IH = Suc.hyps(1) [of "Suc l" st1]
  have IH: "look_shape (look_tables bs (all_codes bs) vals [Suc l..<9] (start bs (Suc l)) st1)"
    "\<And>x k. x < 256 \<Longrightarrow> Suc l \<le> k \<Longrightarrow> k \<le> 8 \<Longrightarrow> starts_code bs k x \<Longrightarrow>
        look_at (look_tables bs (all_codes bs) vals [Suc l..<9] (start bs (Suc l)) st1) x
          = (k, vals ! (start bs k + (x div 2 ^ (8 - k) - first bs k)))"
    "\<And>x. x < 256 \<Longrightarrow> (\<forall>k. Suc l \<le> k \<longrightarrow> k \<le> 8 \<longrightarrow> \<not> starts_code bs k x) \<Longrightarrow>
        look_at (look_tables bs (all_codes bs) vals [Suc l..<9] (start bs (Suc l)) st1) x = look_at st1 x"
    using Suc.hyps(1) [of "Suc l" st1] Suc.hyps(2) l lev(1) by simp_all
  have low: "look_at (look_tables bs (all_codes bs) vals [Suc l..<9] (start bs (Suc l)) st1) x
      = (l, vals ! (start bs l + (x div 2 ^ (8 - l) - first bs l)))" if "x < 256" "starts_code bs l x" for x
  proof -
    have "\<forall>k. Suc l \<le> k \<longrightarrow> k \<le> 8 \<longrightarrow> \<not> starts_code bs k x" using starts_code_once [OF that(2)] Suc_le_lessD by blast
    then show ?thesis using IH(3) [OF that(1)] lev(2) [OF that(1)] that(2) by simp
  qed
  show ?case
    unfolding run
    using IH(1) IH(2) IH(3) lev(2) low l by (auto simp: le_less [of l] Suc_le_eq)
qed

text \<open>What a lookup in the finished tables says.\<close>

definition look_ok :: "nat list \<Rightarrow> nat list \<Rightarrow> nat list \<Rightarrow> nat list \<Rightarrow> bool" where
  "look_ok bs vals nb symb \<longleftrightarrow> length nb = 256 \<and> length symb = 256 \<and>
    (\<forall>x<256. if nb ! x = 0 then \<forall>k. 1 \<le> k \<longrightarrow> k \<le> 8 \<longrightarrow> \<not> starts_code bs k x
      else 1 \<le> nb ! x \<and> nb ! x \<le> 8 \<and> starts_code bs (nb ! x) x
        \<and> symb ! x = vals ! (start bs (nb ! x) + (x div 2 ^ (8 - nb ! x) - first bs (nb ! x))))"

lemma look_tables_ok:
  assumes "look_tables bs (all_codes bs) vals [1..<HUFF_LOOKAHEAD + 1] 0 (replicate 256 0, replicate 256 0) = (nb, symb)"
  shows "look_ok bs vals nb symb"
proof -
  let ?z = "(replicate 256 0, replicate 256 0) :: nat list \<times> nat list"
  have "look_tables bs (all_codes bs) vals [1..<9] (start bs 1) ?z = (nb, symb)"
    using assms by (simp add: HUFF_LOOKAHEAD_def)
  then have *: "look_shape (nb, symb)"
    "\<And>x k. x < 256 \<Longrightarrow> 1 \<le> k \<Longrightarrow> k \<le> 8 \<Longrightarrow> starts_code bs k x \<Longrightarrow>
        look_at (nb, symb) x = (k, vals ! (start bs k + (x div 2 ^ (8 - k) - first bs k)))"
    "\<And>x. x < 256 \<Longrightarrow> (\<forall>k. 1 \<le> k \<longrightarrow> k \<le> 8 \<longrightarrow> \<not> starts_code bs k x) \<Longrightarrow> look_at (nb, symb) x = look_at ?z x"
    using look_tables_from [of 1 ?z bs vals] by (simp_all add: look_shape_def)
  show ?thesis
    unfolding look_ok_def
  proof (intro conjI allI impI)
    fix x :: nat
    assume x: "x < 256"
    show "if nb ! x = 0 then \<forall>k. 1 \<le> k \<longrightarrow> k \<le> 8 \<longrightarrow> \<not> starts_code bs k x
      else 1 \<le> nb ! x \<and> nb ! x \<le> 8 \<and> starts_code bs (nb ! x) x
        \<and> symb ! x = vals ! (start bs (nb ! x) + (x div 2 ^ (8 - nb ! x) - first bs (nb ! x)))"
    proof (cases "\<exists>k. 1 \<le> k \<and> k \<le> 8 \<and> starts_code bs k x")
      case True
      then obtain k where "1 \<le> k" "k \<le> 8" "starts_code bs k x" by auto
      then show ?thesis using *(2) [OF x] by (auto simp: look_at_def)
    next
      case False
      then show ?thesis using *(3) [OF x] x by (auto simp: look_at_def)
    qed
  qed (use *(1) in \<open>simp_all add: look_shape_def\<close>)
qed


lemma d_table_result:
  assumes "code_tree (bits htbl)"
    "decode_limits (bits htbl) (all_codes (bits htbl)) [1..<17] 0 (replicate 18 0) (replicate 17 0) = (maxc, offs)"
    "look_tables (bits htbl) (all_codes (bits htbl)) (huffval htbl) [1..<HUFF_LOOKAHEAD + 1] 0
        (replicate 256 0, replicate 256 0) = (nb, symb)"
  shows "d_table isDC htbl =
    (if isDC \<and> (\<exists>i\<in>set [0..<length (all_sizes (bits htbl))]. huffval htbl ! i > 15) then Inl JERR_BAD_HUFF_TABLE
     else Inr \<lparr>maxcode = maxc[17 := 0xFFFFF], valoffset = offs, pub = htbl, look_nbits = nb, look_sym = symb\<rparr>)"
  unfolding d_table_def make_codes_spec if_P [OF assms(1)] bind_err_simps prod.case assms(2,3) Let_def by (rule refl)

lemma d_table_ok:
  assumes "d_table isDC htbl = Inr dtbl"
  shows "code_tree (bits htbl)" "pub dtbl = htbl" "limits_ok (bits htbl) (maxcode dtbl) (valoffset dtbl)"
    "look_ok (bits htbl) (huffval htbl) (look_nbits dtbl) (look_sym dtbl)" "maxcode dtbl ! 17 = 0xFFFFF"
proof -
  show tree: "code_tree (bits htbl)"
    using assms by (simp add: d_table_def make_codes_spec split: if_splits)
  obtain maxc offs nb symb where *:
    "decode_limits (bits htbl) (all_codes (bits htbl)) [1..<17] 0 (replicate 18 0) (replicate 17 0) = (maxc, offs)"
    "look_tables (bits htbl) (all_codes (bits htbl)) (huffval htbl) [1..<HUFF_LOOKAHEAD + 1] 0
        (replicate 256 0, replicate 256 0) = (nb, symb)" by (metis surj_pair)
  have d: "dtbl = \<lparr>maxcode = maxc[17 := 0xFFFFF], valoffset = offs, pub = htbl, look_nbits = nb, look_sym = symb\<rparr>"
    using assms unfolding d_table_result [OF tree *] by (auto split: if_splits)
  show "pub dtbl = htbl" "limits_ok (bits htbl) (maxcode dtbl) (valoffset dtbl)"
    "look_ok (bits htbl) (huffval htbl) (look_nbits dtbl) (look_sym dtbl)"
    using decode_limits_ok [OF *(1)] look_tables_ok [OF *(2)] by (simp_all add: d)
  show "maxcode dtbl ! 17 = 0xFFFFF"
    using decode_limits_ok [OF *(1)] by (simp add: d limits_ok_def)
qed

section \<open>What the encoder's table holds\<close>

definition tbl_shape :: "c_derived_tbl \<Rightarrow> bool" where
  "tbl_shape t \<longleftrightarrow> length (ehufco t) = 256 \<and> length (ehufsi t) = 256"

lemma c_entries_ok:
  assumes "c_entries maxsymbol es t = Inr t'" "tbl_shape t" "\<forall>(i, cde, sz) \<in> set es. sz \<noteq> 0" "maxsymbol \<le> 255"
  shows "tbl_shape t' \<and> (\<forall>(i, cde, sz) \<in> set es. i \<le> maxsymbol \<and> ehufco t' ! i = cde \<and> ehufsi t' ! i = sz)
    \<and> (\<forall>s<256. ehufsi t' ! s \<noteq> 0 \<longrightarrow>
        (s, ehufco t' ! s, ehufsi t' ! s) \<in> set es \<or> ehufco t' ! s = ehufco t ! s \<and> ehufsi t' ! s = ehufsi t ! s)
    \<and> (\<forall>s<256. ehufsi t ! s \<noteq> 0 \<longrightarrow> ehufco t' ! s = ehufco t ! s \<and> ehufsi t' ! s = ehufsi t ! s)"
  using assms(1-3)
proof (induction es arbitrary: t)
  case (Cons e es)
  obtain i cde sz where e: "e = (i, cde, sz)" by (cases e)
  define t1 where "t1 = t\<lparr>ehufco := (ehufco t)[i := cde], ehufsi := (ehufsi t)[i := sz]\<rparr>"
  have i: "i \<le> maxsymbol" "ehufsi t ! i = 0" and run: "c_entries maxsymbol es t1 = Inr t'"
    using Cons.prems(1) by (simp_all add: e t1_def split: if_splits)
  have sh: "tbl_shape t1" using Cons.prems(2) by (simp add: tbl_shape_def t1_def)
  have sz: "sz \<noteq> 0" using Cons.prems(3) by (simp add: e)
  have t1: "ehufco t1 ! s = (if s = i then cde else ehufco t ! s)" "ehufsi t1 ! s = (if s = i then sz else ehufsi t ! s)"
    if "s < 256" for s using that Cons.prems(2) by (simp_all add: t1_def tbl_shape_def nth_list_update)
  have i256: "i < 256" using i(1) assms(4) by simp
  note IH = Cons.IH [OF run sh]
  have IH: "tbl_shape t'" "\<forall>(i, cde, sz) \<in> set es. i \<le> maxsymbol \<and> ehufco t' ! i = cde \<and> ehufsi t' ! i = sz"
    "\<And>s. s < 256 \<Longrightarrow> ehufsi t' ! s \<noteq> 0 \<Longrightarrow>
        (s, ehufco t' ! s, ehufsi t' ! s) \<in> set es \<or> ehufco t' ! s = ehufco t1 ! s \<and> ehufsi t' ! s = ehufsi t1 ! s"
    "\<And>s. s < 256 \<Longrightarrow> ehufsi t1 ! s \<noteq> 0 \<Longrightarrow> ehufco t' ! s = ehufco t1 ! s \<and> ehufsi t' ! s = ehufsi t1 ! s"
    using IH Cons.prems(3) by simp_all
  have at_i: "ehufco t' ! i = cde" "ehufsi t' ! i = sz" using IH(4) [OF i256] t1 [OF i256] sz by simp_all
  show ?case
  proof (intro conjI allI impI)
    show "\<forall>(i, cde, sz) \<in> set (e # es). i \<le> maxsymbol \<and> ehufco t' ! i = cde \<and> ehufsi t' ! i = sz"
      using IH(2) at_i i(1) by (simp add: e)
  next
    fix s :: nat
    assume "s < 256" "ehufsi t' ! s \<noteq> 0"
    then show "(s, ehufco t' ! s, ehufsi t' ! s) \<in> set (e # es) \<or> ehufco t' ! s = ehufco t ! s \<and> ehufsi t' ! s = ehufsi t ! s"
      using IH(3) [of s] t1 [of s] at_i by (cases "s = i") (auto simp: e)
  next
    fix s :: nat
    assume s: "s < 256" "ehufsi t ! s \<noteq> 0"
    then have "s \<noteq> i" using i(2) by auto
    then show "ehufco t' ! s = ehufco t ! s" "ehufsi t' ! s = ehufsi t ! s"
      using IH(4) [OF s(1)] t1 [OF s(1)] s by simp_all
  qed (rule IH(1))
qed simp

text \<open>The code of a symbol: its length, its number among the codes of that length.\<close>

definition has_code :: "huff_tbl \<Rightarrow> nat \<Rightarrow> nat \<Rightarrow> nat \<Rightarrow> bool" where
  "has_code htbl s l c \<longleftrightarrow> (\<exists>i<cnt (bits htbl) l. c = first (bits htbl) l + i \<and> huffval htbl ! (start (bits htbl) l + i) = s)"

lemma c_table_ok:
  assumes "c_table isDC htbl = Inr t" "length (huffval htbl) = 256"
  shows "code_tree (bits htbl)" "tbl_shape t"
    "\<And>s. s < 256 \<Longrightarrow> ehufsi t ! s \<noteq> 0 \<Longrightarrow> has_code htbl s (ehufsi t ! s) (ehufco t ! s)"
    "\<And>s l c. has_code htbl s l c \<Longrightarrow> s \<le> (if isDC then 15 else 255) \<and> ehufsi t ! s = l \<and> ehufco t ! s = c"
proof -
  let ?bs = "bits htbl" and ?z = "\<lparr>ehufco = replicate 256 0, ehufsi = replicate 256 0\<rparr> :: c_derived_tbl"
  let ?es = "zip (huffval htbl) (zip (all_codes ?bs) (all_sizes ?bs))"
  show tree: "code_tree ?bs"
    using assms(1) by (simp add: c_table_def make_codes_spec split: if_splits)
  then have len: "start ?bs 17 \<le> 256" by (simp add: code_tree_def)
  have run: "c_entries (if isDC then 15 else 255) ?es ?z = Inr t"
    using assms(1) tree by (simp add: c_table_def make_codes_spec)
  have es: "e \<in> set ?es \<longleftrightarrow> (\<exists>p < start ?bs 17. e = (huffval htbl ! p, all_codes ?bs ! p, all_sizes ?bs ! p))" for e
    using len assms(2) unfolding set_zip by (auto simp: length_all)
  have nz: "\<forall>(i, cde, sz) \<in> set ?es. sz \<noteq> 0"
  proof -
    have "all_sizes ?bs ! p \<noteq> 0" if p: "p < start ?bs 17" for p
    proof -
      obtain l i where "p = start ?bs l + i" "i < cnt ?bs l" using index_level [OF p] by blast
      then show ?thesis using all_nth(1) [of i ?bs l] cnt_pos [of ?bs l] by simp
    qed
    then show ?thesis using es by auto
  qed
  note * = c_entries_ok [OF run _ nz]
  have sh: "tbl_shape ?z" by (simp add: tbl_shape_def)
  have *: "tbl_shape t" "\<forall>(i, cde, sz) \<in> set ?es. i \<le> (if isDC then 15 else 255) \<and> ehufco t ! i = cde \<and> ehufsi t ! i = sz"
    "\<And>s. s < 256 \<Longrightarrow> ehufsi t ! s \<noteq> 0 \<Longrightarrow>
        (s, ehufco t ! s, ehufsi t ! s) \<in> set ?es \<or> ehufco t ! s = ehufco ?z ! s \<and> ehufsi t ! s = ehufsi ?z ! s"
    using c_entries_ok [OF run sh nz] by (simp_all split: if_splits)
  show "tbl_shape t" by (rule *(1))
  show "has_code htbl s (ehufsi t ! s) (ehufco t ! s)" if s: "s < 256" "ehufsi t ! s \<noteq> 0" for s
  proof -
    have "(s, ehufco t ! s, ehufsi t ! s) \<in> set ?es" using *(3) [OF s] s by auto
    then obtain p where p: "p < start ?bs 17" "s = huffval htbl ! p" "ehufco t ! s = all_codes ?bs ! p"
      "ehufsi t ! s = all_sizes ?bs ! p" unfolding es by auto
    obtain l i where li: "p = start ?bs l + i" "i < cnt ?bs l" using index_level [OF p(1)] by blast
    then show ?thesis using p all_nth [OF li(2)] by (auto simp: has_code_def)
  qed
  show "s \<le> (if isDC then 15 else 255) \<and> ehufsi t ! s = l \<and> ehufco t ! s = c" if h: "has_code htbl s l c" for s l c
  proof -
    obtain i where i: "i < cnt ?bs l" "c = first ?bs l + i" "huffval htbl ! (start ?bs l + i) = s"
      using h by (auto simp: has_code_def)
    have "(s, c, l) \<in> set ?es" using all_nth [OF i(1)] i(2,3) unfolding es by (metis (no_types))
    then show ?thesis using *(2) by auto
  qed
qed


lemma has_code_bounds:
  assumes "has_code htbl s l c" "code_tree (bits htbl)"
  shows "1 \<le> l" "l \<le> 16" "c + 1 < 2 ^ l" "first (bits htbl) l \<le> c" "c < first (bits htbl) l + cnt (bits htbl) l"
proof -
  obtain i where i: "i < cnt (bits htbl) l" "c = first (bits htbl) l + i" using assms(1) by (auto simp: has_code_def)
  then show l: "1 \<le> l" "l \<le> 16" using cnt_pos [of "bits htbl" l] by simp_all
  have "first (bits htbl) l + cnt (bits htbl) l < 2 ^ l" using assms(2) l by (simp add: code_tree_def)
  then show "c + 1 < 2 ^ l" "first (bits htbl) l \<le> c" "c < first (bits htbl) l + cnt (bits htbl) l" using i by simp_all
qed

lemma has_code_prefix_free:
  assumes "has_code htbl s l c" "has_code htbl s' l' c'" "l \<le> l'" "c' div 2 ^ (l' - l) = c"
  shows "s = s'"
proof (cases "l = l'")
  case True
  then show ?thesis using assms by (auto simp: has_code_def)
next
  case False
  obtain i i' where i: "i < cnt (bits htbl) l" "c = first (bits htbl) l + i" "c' = first (bits htbl) l' + i'"
    using assms(1,2) by (auto simp: has_code_def)
  have "(first (bits htbl) l + cnt (bits htbl) l) * 2 ^ (l' - l) \<le> c'"
    using first_step [of l l' "bits htbl"] False assms(3) i(3) by simp
  then have "first (bits htbl) l + cnt (bits htbl) l \<le> c' div 2 ^ (l' - l)"
    by (simp add: less_eq_div_iff_mult_less_eq)
  then show ?thesis using i assms(4) by simp
qed

text \<open>The decoder takes every table the encoder takes.\<close>

lemma decoder_accepts:
  assumes "c_table isDC htbl = Inr t" "length (huffval htbl) = 256"
  shows "\<exists>dtbl. d_table isDC htbl = Inr dtbl"
proof -
  obtain maxc offs nb symb where *:
    "decode_limits (bits htbl) (all_codes (bits htbl)) [1..<17] 0 (replicate 18 0) (replicate 17 0) = (maxc, offs)"
    "look_tables (bits htbl) (all_codes (bits htbl)) (huffval htbl) [1..<HUFF_LOOKAHEAD + 1] 0
        (replicate 256 0, replicate 256 0) = (nb, symb)" by (metis surj_pair)
  have "huffval htbl ! p \<le> 15" if isDC: isDC and p: "p < start (bits htbl) 17" for p
  proof -
    obtain l i where "p = start (bits htbl) l + i" "i < cnt (bits htbl) l" using index_level [OF p] by blast
    then have "has_code htbl (huffval htbl ! p) l (first (bits htbl) l + i)" by (auto simp: has_code_def)
    then show ?thesis using c_table_ok(4) [OF assms] isDC by force
  qed
  then have "\<not> (isDC \<and> (\<exists>i\<in>set [0..<length (all_sizes (bits htbl))]. huffval htbl ! i > 15))"
    by (force simp: length_all)
  then show ?thesis unfolding d_table_result [OF c_table_ok(1) [OF assms] *] by simp
qed

text \<open>
  C16: In a table \<open>jpeg_make_c_derived_tbl\<close> returns, every code is 1 to 16 bits long, fits its
  length and is not all ones, and no symbol's code is a prefix of another symbol's.
\<close>

theorem derived_codes_prefix_free:
  assumes "jpeg_make_c_derived_tbl isDC tblno c = Inr t"
    "\<forall>htbl. Some htbl \<in> set (dc_huff_tbl_ptrs c @ ac_huff_tbl_ptrs c) \<longrightarrow> length (huffval htbl) = 256"
    "tblno < length (dc_huff_tbl_ptrs c)" "tblno < length (ac_huff_tbl_ptrs c)"
    "s < 256" "s' < 256" "ehufsi t ! s \<noteq> 0" "ehufsi t ! s' \<noteq> 0"
  shows "ehufsi t ! s \<le> 16 \<and> ehufco t ! s + 1 < 2 ^ (ehufsi t ! s)
    \<and> (ehufsi t ! s \<le> ehufsi t ! s' \<and> s \<noteq> s' \<longrightarrow> ehufco t ! s' div 2 ^ (ehufsi t ! s' - ehufsi t ! s) \<noteq> ehufco t ! s)"
proof -
  obtain htbl where h: "(if isDC then dc_huff_tbl_ptrs c else ac_huff_tbl_ptrs c) ! tblno = Some htbl" "c_table isDC htbl = Inr t"
    using assms(1) unfolding jpeg_make_c_derived_tbl_def by (auto split: if_splits option.splits)
  have "Some htbl \<in> set (dc_huff_tbl_ptrs c @ ac_huff_tbl_ptrs c)"
    using h(1) nth_mem [OF assms(3)] nth_mem [OF assms(4)] by (cases isDC) simp_all
  then have len: "length (huffval htbl) = 256" using assms(2) by blast
  note t = c_table_ok [OF h(2) len]
  note code = t(3) [OF assms(5,7)] t(3) [OF assms(6,8)]
  show ?thesis
    using has_code_bounds [OF code(1) t(1)] has_code_prefix_free [OF code] by blast
qed

definition small_huff :: huff_tbl where
  "small_huff = \<lparr>bits = [0, 0, 1, 2, 1] @ replicate 12 0, huffval = [0, 1, 2, 3] @ replicate 252 0, h_sent_table = False\<rparr>"

definition small_encoder :: compress where
  "small_encoder = blank_compress\<lparr>dc_huff_tbl_ptrs := [Some small_huff, None, None, None], ac_huff_tbl_ptrs := replicate 4 None\<rparr>"

definition small_table :: c_derived_tbl where
  "small_table = \<lparr>ehufco = [0, 2, 3, 8] @ replicate 252 0, ehufsi = [2, 3, 3, 4] @ replicate 252 0\<rparr>"

lemma small_table: "jpeg_make_c_derived_tbl True 0 small_encoder = Inr small_table"
  by code_simp

theorem derived_codes_prefix_free_witness:
  "jpeg_make_c_derived_tbl True 0 small_encoder = Inr small_table
    \<and> ehufco small_table ! 3 div 2 ^ (ehufsi small_table ! 3 - ehufsi small_table ! 0) \<noteq> ehufco small_table ! 0"
proof -
  have "\<forall>htbl. Some htbl \<in> set (dc_huff_tbl_ptrs small_encoder @ ac_huff_tbl_ptrs small_encoder) \<longrightarrow> length (huffval htbl) = 256"
    by (simp add: small_encoder_def small_huff_def)
  moreover have "ehufsi small_table ! 0 = 2" "ehufsi small_table ! 3 = 4" by (simp_all add: small_table_def)
  ultimately show ?thesis
    using derived_codes_prefix_free [OF small_table, of 0 3] small_table by (simp add: small_encoder_def)
qed

end
