(* ===== verification/HuffReader.thy ===== *)
theory HuffReader
  imports HuffTables
begin

text \<open>
  The bit reader and the symbol decoder of \<open>jpeg-9a/jdhuff.c\<close>: \<open>jpeg_fill_bit_buffer\<close>, the
  macros \<open>CHECK_BIT_BUFFER\<close>, \<open>PEEK_BITS\<close>, \<open>GET_BITS\<close>, \<open>DROP_BITS\<close> and \<open>HUFF_DECODE\<close>, and
  \<open>jpeg_huff_decode\<close>.  The abstract side is the list of bits still to come.
\<close>

unbundle bit_operations_syntax

section \<open>State\<close>

text \<open>
  The data sources never suspend (\<open>JpegReader\<close>), so the working state is the permanent one.
  \<open>insufficient_data\<close> is the flag of the entropy decoder that \<open>jpeg_fill_bit_buffer\<close> sets.
\<close>

record bitread =
  get_buffer :: "32 word"
  bits_left :: nat
  insufficient_data :: bool
  br_cinfo :: decompress

definition MIN_GET_BITS :: nat where "MIN_GET_BITS = 25"

definition bmask :: "nat list" where
  "bmask = [0, 0x0001, 0x0003, 0x0007, 0x000F, 0x001F, 0x003F, 0x007F, 0x00FF,
    0x01FF, 0x03FF, 0x07FF, 0x0FFF, 0x1FFF, 0x3FFF, 0x7FFF]"

section \<open>Filling the buffer\<close>

text \<open>
  The byte after an FF, fill FFs skipped, and the input after it; at the end of the data the
  source supplies FF D9.
\<close>

fun next_nonff :: "byte list \<Rightarrow> nat \<times> byte list" where
  "next_nonff [] = (0xD9, [])"
| "next_nonff (x # xs) = (if x = 0xFF then next_nonff xs else (unat x, xs))"

definition load_byte :: "nat \<Rightarrow> decompress \<Rightarrow> bitread \<Rightarrow> bitread" where
  "load_byte c d b = b\<lparr>get_buffer := push_bit 8 (get_buffer b) OR of_nat c, bits_left := bits_left b + 8, br_cinfo := d\<rparr>"

text \<open>The \<open>while\<close> loop; the second result says that it left through \<open>no_more_bytes\<close>.\<close>

function fill_loop :: "bitread \<Rightarrow> bitread \<times> bool" where
  "fill_loop b =
     (if bits_left b < MIN_GET_BITS
      then (let (c, d) = input_byte (br_cinfo b)
            in if c = 0xFF
               then (let (c1, inp) = next_nonff (input d)
                     in if c1 = 0 then fill_loop (load_byte 0xFF (d\<lparr>input := inp\<rparr>) b)
                        else (b\<lparr>br_cinfo := d\<lparr>input := inp, unread_marker := c1\<rparr>\<rparr>, True))
               else fill_loop (load_byte c d b))
      else (b, False))"
  by pat_completeness auto
termination
  by (relation "measure (\<lambda>b. MIN_GET_BITS - bits_left b)") (auto simp: load_byte_def)

declare fill_loop.simps [simp del]

definition jpeg_fill_bit_buffer :: "nat \<Rightarrow> bitread \<Rightarrow> bitread" where
  "jpeg_fill_bit_buffer nbits b =
     (let (b1, no_more_bytes) = (if unread_marker (br_cinfo b) = 0 then fill_loop b else (b, True))
      in if no_more_bytes \<and> nbits > bits_left b1
         then b1\<lparr>insufficient_data := True, get_buffer := push_bit (MIN_GET_BITS - bits_left b1) (get_buffer b1),
                 bits_left := MIN_GET_BITS\<rparr>
         else b1)"

section \<open>Fetching bits\<close>

definition check_bit_buffer :: "nat \<Rightarrow> bitread \<Rightarrow> bitread" where
  "check_bit_buffer nbits b = (if bits_left b < nbits then jpeg_fill_bit_buffer nbits b else b)"

definition drop_bits :: "nat \<Rightarrow> bitread \<Rightarrow> bitread" where
  "drop_bits nbits b = b\<lparr>bits_left := bits_left b - nbits\<rparr>"

definition peek_bits :: "nat \<Rightarrow> bitread \<Rightarrow> nat" where
  "peek_bits nbits b = unat (signed_drop_bit (bits_left b - nbits) (get_buffer b) AND of_nat (bmask ! nbits))"

definition get_bits :: "nat \<Rightarrow> bitread \<Rightarrow> nat \<times> bitread" where
  "get_bits nbits b = (peek_bits nbits b, drop_bits nbits b)"

section \<open>Decoding a symbol\<close>

text \<open>
  The \<open>while\<close> loop of \<open>jpeg_huff_decode\<close>.  A read of \<open>maxcode\<close> beyond its 18 entries, and below
  of \<open>huffval\<close> outside its 256, is a fault.
\<close>

function collect_code :: "d_derived_tbl \<Rightarrow> nat \<Rightarrow> nat \<Rightarrow> bitread \<Rightarrow> (nat \<times> nat \<times> bitread) result" where
  "collect_code htbl l cde b =
     (if l > 17 then Inl FAULT
      else if int cde > maxcode htbl ! l
      then (let (v, b1) = get_bits 1 (check_bit_buffer 1 b)
            in collect_code htbl (l + 1) (push_bit 1 cde OR v) b1)
      else Inr (l, cde, b))"
  by pat_completeness auto
termination
  by (relation "measure (\<lambda>(htbl, l, cde, b). 18 - l)") auto

declare collect_code.simps [simp del]

definition jpeg_huff_decode :: "d_derived_tbl \<Rightarrow> nat \<Rightarrow> bitread \<Rightarrow> (nat \<times> bitread) result" where
  "jpeg_huff_decode htbl min_bits b =
     (let (cde0, b0) = get_bits min_bits (check_bit_buffer min_bits b)
      in bind_err (collect_code htbl min_bits cde0 b0) (\<lambda>(l, cde, b1).
           if l > 16 then Inr (0, b1)
           else (let i = int cde + valoffset htbl ! l
                 in if 0 \<le> i \<and> nat i < length (huffval (pub htbl)) then Inr (huffval (pub htbl) ! nat i, b1)
                    else Inl FAULT)))"

definition HUFF_DECODE :: "d_derived_tbl \<Rightarrow> bitread \<Rightarrow> (nat \<times> bitread) result" where
  "HUFF_DECODE htbl b =
     (let b1 = (if bits_left b < HUFF_LOOKAHEAD then jpeg_fill_bit_buffer 0 b else b)
      in if bits_left b1 < HUFF_LOOKAHEAD then jpeg_huff_decode htbl 1 b1
         else (let look = peek_bits HUFF_LOOKAHEAD b1; nb = look_nbits htbl ! look
               in if nb \<noteq> 0 then Inr (look_sym htbl ! look, drop_bits nb b1)
                  else jpeg_huff_decode htbl (HUFF_LOOKAHEAD + 1) b1))"

section \<open>Bit sequences\<close>

definition bits_nat :: "bool list \<Rightarrow> nat" where
  "bits_nat bs = foldl (\<lambda>a x. 2 * a + of_bool x) 0 bs"

definition nat_bits :: "nat \<Rightarrow> nat \<Rightarrow> bool list" where
  "nat_bits n v = map (bit v) (rev [0..<n])"

lemma length_nat_bits [simp]: "length (nat_bits n v) = n"
  by (simp add: nat_bits_def)

lemma bits_nat_Nil [simp]: "bits_nat [] = 0"
  by (simp add: bits_nat_def)

lemma bits_nat_snoc [simp]: "bits_nat (bs @ [x]) = 2 * bits_nat bs + of_bool x"
  by (simp add: bits_nat_def)

lemma bits_nat_single [simp]: "bits_nat [x] = of_bool x"
  using bits_nat_snoc [of "[]" x] by simp

lemma bits_nat_append: "bits_nat (bs @ cs) = bits_nat bs * 2 ^ length cs + bits_nat cs"
  by (induction cs rule: rev_induct) (simp_all add: append_assoc [symmetric] del: append_assoc)

lemma bits_nat_bound: "bits_nat bs < 2 ^ length bs"
proof (induction bs rule: rev_induct)
  case (snoc x bs)
  then show ?case by (cases x) simp_all
qed simp

lemma bits_nat_replicate [simp]: "bits_nat (replicate n False) = 0"
proof (induction n)
  case (Suc n)
  have "replicate (Suc n) False = replicate n False @ [False]" by (simp add: replicate_append_same)
  then show ?case using Suc by (simp del: replicate_Suc)
qed simp

lemma nat_bits_Suc: "nat_bits (Suc n) v = nat_bits n (v div 2) @ [odd v]"
proof -
  have "rev [0..<Suc n] = map Suc (rev [0..<n]) @ [0]"
    by (simp only: upt_conv_Cons [OF zero_less_Suc] rev.simps map_Suc_upt [symmetric] rev_map)
  then show ?thesis by (simp add: nat_bits_def bit_0 bit_Suc del: upt_Suc)
qed

lemma bits_nat_bits: "bits_nat (nat_bits n v) = v mod 2 ^ n"
proof (induction n arbitrary: v)
  case (Suc n)
  have "v mod 2 ^ Suc n = 2 * (v div 2 mod 2 ^ n) + v mod 2"
    by (simp add: mod_mult2_eq)
  then show ?case by (simp add: nat_bits_Suc Suc odd_iff_mod_2_eq_one mod2_eq_if)
qed (simp add: nat_bits_def)

lemma nat_bits_nat: "nat_bits (length bs) (bits_nat bs) = bs"
proof (induction bs rule: rev_induct)
  case (snoc x bs)
  then show ?case by (cases x) (simp_all add: nat_bits_Suc)
qed (simp add: nat_bits_def)

lemma bits_nat_unique: "v < 2 ^ n \<Longrightarrow> nat_bits n v = bs \<Longrightarrow> v = bits_nat bs"
  using bits_nat_bits [of n v] by auto

text \<open>Reading the first \<open>n\<close> of endless bits.\<close>

definition stream :: "bool list \<Rightarrow> nat \<Rightarrow> bool" where
  "stream bs i \<longleftrightarrow> i < length bs \<and> bs ! i"

definition pre :: "bool list \<Rightarrow> nat \<Rightarrow> nat" where
  "pre bs n = bits_nat (map (stream bs) [0..<n])"

lemma stream_replicate [simp]: "stream (bs @ replicate k False) = stream bs"
  by (rule ext) (auto simp: stream_def nth_append)

lemma stream_take: "map (stream bs) [0..<n] = take n bs @ replicate (n - length bs) False"
  by (rule nth_equalityI) (auto simp: stream_def nth_append)

lemma pre_zeros [simp]: "pre (bs @ replicate k False) n = pre bs n"
  by (simp add: pre_def)

lemma pre_0 [simp]: "pre bs 0 = 0"
  by (simp add: pre_def)

lemma pre_Suc: "pre bs (Suc n) = 2 * pre bs n + of_bool (stream bs n)"
  by (simp add: pre_def)

lemma stream_drop: "stream (drop n bs) i = stream bs (n + i)"
  by (auto simp: stream_def)

lemma pre_take: "n \<le> length bs \<Longrightarrow> pre bs n = bits_nat (take n bs)"
  by (simp add: pre_def stream_take)

lemma pre_append: "pre (nat_bits n v @ bs) n = v mod 2 ^ n"
  by (simp add: pre_take bits_nat_bits)


section \<open>The bits still to come\<close>

lemma next_nonff_shorter: "length (snd (next_nonff xs)) \<le> length xs"
  by (induction xs) auto

text \<open>The entropy-coded bytes before the next marker, FF 00 read as FF.\<close>

function entropy_data :: "byte list \<Rightarrow> byte list" where
  "entropy_data [] = []"
| "entropy_data (x # xs) =
     (if x = 0xFF then if fst (next_nonff xs) = 0 then 0xFF # entropy_data (snd (next_nonff xs)) else []
      else x # entropy_data xs)"
  by pat_completeness auto
termination
  by (relation "measure length") (auto simp: next_nonff_shorter le_imp_less_Suc)

definition stuff :: "byte list \<Rightarrow> byte list" where
  "stuff bs = concat (map (\<lambda>x. if x = 0xFF then [0xFF, 0] else [x]) bs)"

lemma stuff_append [simp]: "stuff (xs @ ys) = stuff xs @ stuff ys" "stuff [] = []"
  by (simp_all add: stuff_def)

text \<open>Where entropy-coded data ends: a marker not yet read, or read ahead.\<close>

definition at_marker :: "byte \<Rightarrow> byte list \<Rightarrow> decompress \<Rightarrow> bool" where
  "at_marker m rest d \<longleftrightarrow> (unread_marker d = 0 \<and> (\<exists>ys. input d = stuff ys @ 0xFF # m # rest))
    \<or> (unread_marker d = unat m \<and> input d = rest)"

text \<open>Reading bits keeps the marker the data ends with and the rest of the decompressor's state.\<close>

definition same_data :: "decompress \<Rightarrow> decompress \<Rightarrow> bool" where
  "same_data d d' \<longleftrightarrow> (\<exists>i u. d' = d\<lparr>input := i, unread_marker := u\<rparr>)
    \<and> (\<forall>m rest. m \<noteq> 0 \<longrightarrow> m \<noteq> 0xFF \<longrightarrow> at_marker m rest d \<longrightarrow> at_marker m rest d')"

lemma same_data_refl [simp]: "same_data d d"
proof -
  have "d = d\<lparr>input := input d, unread_marker := unread_marker d\<rparr>" by simp
  then show ?thesis unfolding same_data_def by blast
qed

lemma same_data_trans:
  assumes "same_data d d1" "same_data d1 d2"
  shows "same_data d d2"
proof -
  obtain i u where 1: "d1 = d\<lparr>input := i, unread_marker := u\<rparr>" using assms(1) by (auto simp: same_data_def)
  obtain i' u' where 2: "d2 = d1\<lparr>input := i', unread_marker := u'\<rparr>" using assms(2) by (auto simp: same_data_def)
  have "d2 = d\<lparr>input := i', unread_marker := u'\<rparr>" by (simp add: 1 2)
  then show ?thesis using assms unfolding same_data_def by blast
qed

text \<open>One step of the reader through stuffed bytes, and over the marker.\<close>

lemma at_marker_step:
  assumes "unread_marker d = 0" "at_marker m rest d" "m \<noteq> 0" "m \<noteq> 0xFF" "input d = x # xs"
  shows "x \<noteq> 0xFF \<Longrightarrow> at_marker m rest (d\<lparr>input := xs\<rparr>)"
    "x = 0xFF \<Longrightarrow> next_nonff xs = (0, xs') \<Longrightarrow> at_marker m rest (d\<lparr>input := xs'\<rparr>)"
    "x = 0xFF \<Longrightarrow> next_nonff xs = (c, xs') \<Longrightarrow> c \<noteq> 0 \<Longrightarrow> at_marker m rest (d\<lparr>input := xs', unread_marker := c\<rparr>)"
proof -
  have "unat m \<noteq> 0" using assms(3) by (simp add: unat_eq_0)
  then obtain ys where ys: "x # xs = stuff ys @ 0xFF # m # rest" using assms(1,2,5) by (auto simp: at_marker_def)
  have "(x \<noteq> 0xFF \<longrightarrow> (\<exists>zs. xs = stuff zs @ 0xFF # m # rest))
      \<and> (x = 0xFF \<longrightarrow> (\<exists>zs. next_nonff xs = (0, stuff zs @ 0xFF # m # rest)) \<or> next_nonff xs = (unat m, rest))"
  proof (cases ys)
    case Nil
    then show ?thesis using ys assms(3,4) by (auto simp: stuff_def)
  next
    case (Cons y zs)
    then show ?thesis using ys by (cases "y = 0xFF") (auto simp: stuff_def)
  qed
  then show "x \<noteq> 0xFF \<Longrightarrow> at_marker m rest (d\<lparr>input := xs\<rparr>)"
    "x = 0xFF \<Longrightarrow> next_nonff xs = (0, xs') \<Longrightarrow> at_marker m rest (d\<lparr>input := xs'\<rparr>)"
    "x = 0xFF \<Longrightarrow> next_nonff xs = (c, xs') \<Longrightarrow> c \<noteq> 0 \<Longrightarrow> at_marker m rest (d\<lparr>input := xs', unread_marker := c\<rparr>)"
    using assms(1) \<open>unat m \<noteq> 0\<close> by (auto simp: at_marker_def)
qed

lemma same_data_steps:
  assumes "unread_marker d = 0"
  shows "input d = x # xs \<Longrightarrow> x \<noteq> 0xFF \<Longrightarrow> same_data d (d\<lparr>input := xs\<rparr>)"
    "input d = 0xFF # xs \<Longrightarrow> next_nonff xs = (0, xs') \<Longrightarrow> same_data d (d\<lparr>input := xs'\<rparr>)"
    "input d = 0xFF # xs \<Longrightarrow> next_nonff xs = (c, xs') \<Longrightarrow> c \<noteq> 0 \<Longrightarrow> same_data d (d\<lparr>input := xs', unread_marker := c\<rparr>)"
    "input d = [] \<Longrightarrow> same_data d (d\<lparr>input := [], unread_marker := c\<rparr>)"
proof -
  have upd: "d\<lparr>input := i\<rparr> = d\<lparr>input := i, unread_marker := 0\<rparr>" for i using assms by simp
  show "same_data d (d\<lparr>input := xs\<rparr>)" if x: "input d = x # xs" "x \<noteq> 0xFF"
    unfolding same_data_def using upd at_marker_step(1) [OF assms _ _ _ x(1)] x(2) by blast
  show "same_data d (d\<lparr>input := xs'\<rparr>)" if x: "input d = 0xFF # xs" "next_nonff xs = (0, xs')"
    unfolding same_data_def using upd at_marker_step(2) [OF assms _ _ _ x(1) refl x(2)] by blast
  show "same_data d (d\<lparr>input := xs', unread_marker := c\<rparr>)" if x: "input d = 0xFF # xs" "next_nonff xs = (c, xs')" "c \<noteq> 0"
    unfolding same_data_def using at_marker_step(3) [OF assms _ _ _ x(1) refl x(2,3)] by blast
  show "same_data d (d\<lparr>input := [], unread_marker := c\<rparr>)" if x: "input d = []"
  proof -
    have "\<not> at_marker m rest d" if "m \<noteq> 0" for m rest
      using assms x that by (auto simp: at_marker_def unat_eq_0)
    then show ?thesis unfolding same_data_def by blast
  qed
qed

definition byte_bits :: "byte \<Rightarrow> bool list" where
  "byte_bits x = nat_bits 8 (unat x)"

definition bytes_bits :: "byte list \<Rightarrow> bool list" where
  "bytes_bits xs = concat (map byte_bits xs)"

definition buf_bits :: "bitread \<Rightarrow> bool list" where
  "buf_bits b = map (bit (get_buffer b)) (rev [0..<bits_left b])"

definition data_bits :: "decompress \<Rightarrow> bool list" where
  "data_bits d = (if unread_marker d = 0 then bytes_bits (entropy_data (input d)) else [])"

definition avail :: "bitread \<Rightarrow> bool list" where
  "avail b = buf_bits b @ data_bits (br_cinfo b)"

definition bitread_ok :: "bitread \<Rightarrow> bool" where
  "bitread_ok b \<longleftrightarrow> bits_left b \<le> 32"

lemma length_buf_bits [simp]: "length (buf_bits b) = bits_left b"
  by (simp add: buf_bits_def)

lemma load_byte_bits:
  assumes "c < 256" "bits_left b \<le> 24"
  shows "buf_bits (load_byte c d b) = buf_bits b @ nat_bits 8 c"
proof -
  have up: "rev [0..<n + 8] = map (\<lambda>i. i + 8) (rev [0..<n]) @ rev [0..<8]" for n :: nat
    by (simp only: upt_add_eq_append [of 0 8 n, simplified add.commute] rev_append rev_map [symmetric] map_add_upt add_0)
  have low: "\<not> bit c i" if "8 \<le> i" for i
  proof -
    have "c div 2 ^ i = 0" using assms(1) power_increasing [OF that, of "2 :: nat"] by simp
    then show ?thesis by (simp add: bit_iff_odd)
  qed
  have "bit (push_bit 8 (get_buffer b) OR of_nat c) (i + 8) = bit (get_buffer b) i" if "i < bits_left b" for i
    using low [of "i + 8"] that assms(2) by (simp add: bit_or_iff bit_push_bit_iff bit_of_nat_iff)
  moreover have "bit (push_bit 8 (get_buffer b) OR of_nat c :: 32 word) i = bit c i" if "i < 8" for i
    using that by (simp add: bit_or_iff bit_push_bit_iff bit_of_nat_iff)
  ultimately show ?thesis
    by (simp add: buf_bits_def load_byte_def up nat_bits_def)
qed


lemma bmask_mask: "n \<le> 15 \<Longrightarrow> bmask ! n = 2 ^ n - 1"
proof -
  have "bmask = map (\<lambda>n. 2 ^ n - 1) [0..<16]" by (simp add: bmask_def upt_conv_Cons)
  then have "bmask ! n = map (\<lambda>n. 2 ^ n - 1) [0..<16] ! n" by (rule arg_cong)
  moreover assume "n \<le> 15"
  ultimately show "bmask ! n = 2 ^ n - 1" by (subst (asm) nth_map_upt) simp_all
qed

lemma peek_bits_take:
  assumes "bitread_ok b" "n \<le> 15" "n \<le> bits_left b"
  shows "peek_bits n b = bits_nat (take n (buf_bits b))"
proof -
  let ?k = "bits_left b - n"
  have "(of_nat (bmask ! n) :: 32 word) = mask n"
    by (simp add: bmask_mask [OF assms(2)] mask_eq_exp_minus_1 of_nat_diff)
  then have peek: "peek_bits n b = unat (take_bit n (signed_drop_bit ?k (get_buffer b)))"
    by (simp add: peek_bits_def take_bit_eq_mask)
  have less: "peek_bits n b < 2 ^ n"
    unfolding peek by (simp only: unsigned_take_bit_eq take_bit_nat_less_exp)
  have at: "bit (peek_bits n b) i = bit (get_buffer b) (?k + i)" if "i < n" for i
    using that assms unfolding peek bitread_ok_def
    by (auto simp: bit_unsigned_iff bit_take_bit_iff bit_signed_drop_bit_iff)
  have "[0..<bits_left b] = [0..<?k] @ map (\<lambda>i. ?k + i) [0..<n]"
    by (rule nth_equalityI) (use assms(3) in \<open>auto simp: nth_append\<close>)
  then have rev: "rev [0..<bits_left b] = map (\<lambda>i. ?k + i) (rev [0..<n]) @ rev [0..<?k]"
    by (simp add: rev_map)
  then have "take n (buf_bits b) = map (bit (get_buffer b)) (map (\<lambda>i. ?k + i) (rev [0..<n]))"
    by (simp add: buf_bits_def rev)
  also have "\<dots> = nat_bits n (peek_bits n b)" by (simp add: nat_bits_def at)
  finally show ?thesis using bits_nat_unique [OF less] by simp
qed

lemma drop_bits_buf:
  assumes "n \<le> bits_left b"
  shows "buf_bits (drop_bits n b) = drop n (buf_bits b)"
proof -
  have "rev [0..<bits_left b - n] = drop n (rev [0..<bits_left b])"
    using assms by (simp add: drop_rev)
  then show ?thesis by (simp add: buf_bits_def drop_bits_def drop_map)
qed

lemma input_byte_cases:
  "input_byte d = (case input d of [] \<Rightarrow> (0xFF, d\<lparr>input := [0xD9]\<rparr>) | x # xs \<Rightarrow> (unat x, d\<lparr>input := xs\<rparr>))"
  by (simp add: input_byte_def split: list.splits)

lemma fill_loop_avail:
  assumes "fill_loop b = (b', hit)" "bitread_ok b" "unread_marker (br_cinfo b) = 0"
  shows "bitread_ok b' \<and> avail b' = avail b \<and> insufficient_data b' = insufficient_data b
    \<and> same_data (br_cinfo b) (br_cinfo b') \<and> (if hit then unread_marker (br_cinfo b') \<noteq> 0 else 25 \<le> bits_left b')"
  using assms
proof (induction b rule: fill_loop.induct)
  case (1 b)
  show ?case
  proof (cases "bits_left b < 25")
    case False
    then show ?thesis using "1.prems" by (simp add: fill_loop.simps [of b] MIN_GET_BITS_def)
  next
    case small: True
    then have small': "bits_left b < MIN_GET_BITS" by (simp add: MIN_GET_BITS_def)
    obtain c d where cd: "input_byte (br_cinfo b) = (c, d)" by (meson surj_pair)
    obtain c1 inp where c1: "next_nonff (input d) = (c1, inp)" by (meson surj_pair)
    have unread: "unread_marker d = 0"
      using "1.prems"(3) cd by (auto simp: input_byte_cases split: list.splits)
    show ?thesis
    proof (cases "c = 0xFF")
      case ff: True
      have step: "if c1 = 0 then d\<lparr>input := inp\<rparr> = (br_cinfo b)\<lparr>input := inp\<rparr> \<and> same_data (br_cinfo b) (d\<lparr>input := inp\<rparr>)
          else same_data (br_cinfo b) (d\<lparr>input := inp, unread_marker := c1\<rparr>)"
      proof (cases "input (br_cinfo b)")
        case Nil
        then have "c1 = 0xD9" "d\<lparr>input := inp, unread_marker := c1\<rparr> = (br_cinfo b)\<lparr>input := [], unread_marker := c1\<rparr>"
          using cd c1 by (auto simp: input_byte_cases)
        then show ?thesis using same_data_steps(4) [OF "1.prems"(3) Nil] by simp
      next
        case (Cons x xs)
        then have x: "x = 0xFF" "d = (br_cinfo b)\<lparr>input := xs\<rparr>" using cd ff by (auto simp: input_byte_cases word_unat_eq_iff)
        then have "next_nonff xs = (c1, inp)" "input (br_cinfo b) = 0xFF # xs" using c1 Cons by simp_all
        then show ?thesis using same_data_steps(2,3) [OF "1.prems"(3)] x(2) by simp
      qed
      have data: "data_bits (br_cinfo b) = (if c1 = 0 then byte_bits 0xFF @ bytes_bits (entropy_data inp) else [])"
        using cd c1 ff "1.prems"(3)
        by (auto simp: data_bits_def bytes_bits_def input_byte_cases word_unat_eq_iff split: list.splits if_splits)
      show ?thesis
      proof (cases "c1 = 0")
        case True
        define b1 where "b1 = load_byte 0xFF (d\<lparr>input := inp\<rparr>) b"
        have run: "fill_loop b1 = (b', hit)"
          using "1.prems"(1) small' cd ff c1 True by (simp add: fill_loop.simps [of b] b1_def)
        have "avail b1 = avail b"
          using load_byte_bits [where c = "0xFF" and b = b] small data True unread
          by (simp add: avail_def b1_def data_bits_def load_byte_def byte_bits_def)
        moreover have "bitread_ok b1" "unread_marker (br_cinfo b1) = 0" "insufficient_data b1 = insufficient_data b"
          using small unread by (simp_all add: b1_def load_byte_def bitread_ok_def)
        moreover have "same_data (br_cinfo b) (br_cinfo b1)" using step True by (auto simp: b1_def load_byte_def)
        ultimately show ?thesis
          using "1.IH"(1) [OF small' cd [symmetric] refl ff c1 [symmetric] refl True] run same_data_trans unfolding b1_def by metis
      next
        case False
        then have "b' = b\<lparr>br_cinfo := d\<lparr>input := inp, unread_marker := c1\<rparr>\<rparr>" "hit"
          using "1.prems"(1) small' cd ff c1 by (simp_all add: fill_loop.simps [of b])
        then show ?thesis
          using False data step "1.prems"(2) by (simp add: avail_def data_bits_def buf_bits_def bitread_ok_def)
      qed
    next
      case False
      define b1 where "b1 = load_byte c d b"
      have run: "fill_loop b1 = (b', hit)"
        using "1.prems"(1) small' cd False by (simp add: fill_loop.simps [of b] b1_def)
      obtain x xs where x: "input (br_cinfo b) = x # xs" "c = unat x" "input d = xs"
        using cd False by (auto simp: input_byte_cases split: list.splits)
      then have "x \<noteq> 0xFF" using False by (auto simp: word_unat_eq_iff)
      then have "avail b1 = avail b"
        using load_byte_bits [where c = c and b = b] x small unread "1.prems"(3)
        by (simp add: avail_def b1_def data_bits_def load_byte_def byte_bits_def bytes_bits_def)
      moreover have "bitread_ok b1" "unread_marker (br_cinfo b1) = 0" "insufficient_data b1 = insufficient_data b"
        using small unread by (simp_all add: b1_def load_byte_def bitread_ok_def)
      moreover have "same_data (br_cinfo b) (br_cinfo b1)"
      proof -
        have "d = (br_cinfo b)\<lparr>input := xs\<rparr>" using cd x(1) by (simp add: input_byte_cases)
        then show ?thesis using same_data_steps(1) [OF "1.prems"(3) x(1) \<open>x \<noteq> 0xFF\<close>] by (simp add: b1_def load_byte_def)
      qed
      ultimately show ?thesis
        using "1.IH"(2) [OF small' cd [symmetric] refl False] run same_data_trans unfolding b1_def by metis
    qed
  qed
qed


section \<open>Reading bits off\<close>

text \<open>
  \<open>takes n b b'\<close>: \<open>b'\<close> is \<open>b\<close> with \<open>n\<close> bits read.  Zeros may have been made up at the end, but
  not, and without a warning, when \<open>n\<close> bits were there.
\<close>

definition takes :: "nat \<Rightarrow> bitread \<Rightarrow> bitread \<Rightarrow> bool" where
  "takes n b b' \<longleftrightarrow> bitread_ok b' \<and> same_data (br_cinfo b) (br_cinfo b') \<and> (\<exists>k. avail b' = drop n (avail b) @ replicate k False)
    \<and> (n \<le> length (avail b) \<longrightarrow> avail b' = drop n (avail b) \<and> insufficient_data b' = insufficient_data b)"

lemma takes_refl: "bitread_ok b \<Longrightarrow> takes 0 b b"
  by (auto simp: takes_def intro: exI [of _ 0])

lemma takes_trans:
  assumes "takes n b b1" "takes m b1 b2"
  shows "takes (n + m) b b2"
proof -
  obtain k where k: "avail b1 = drop n (avail b) @ replicate k False" using assms(1) by (auto simp: takes_def)
  obtain k' where k': "avail b2 = drop m (avail b1) @ replicate k' False" using assms(2) by (auto simp: takes_def)
  have zeros: "drop i (replicate k False) @ replicate k' False = replicate (k - i + k') False" for i
    by (simp add: replicate_add)
  have "avail b2 = drop (n + m) (avail b) @ replicate (k - (m - length (drop n (avail b))) + k') False"
    by (simp add: k k' zeros replicate_add [symmetric] add.commute [of _ k'] add.commute [of m])
  moreover have "avail b2 = drop (n + m) (avail b) \<and> insufficient_data b2 = insufficient_data b" if "n + m \<le> length (avail b)"
  proof -
    have "avail b1 = drop n (avail b)" "insufficient_data b1 = insufficient_data b"
      using assms(1) that by (simp_all add: takes_def)
    then show ?thesis using assms(2) that by (simp add: takes_def add.commute)
  qed
  moreover have "bitread_ok b2" "same_data (br_cinfo b) (br_cinfo b2)"
    using assms same_data_trans by (auto simp: takes_def)
  ultimately show ?thesis unfolding takes_def by blast
qed

lemma takes_stream: "takes n b b' \<Longrightarrow> stream (avail b') = (\<lambda>i. stream (avail b) (n + i))"
  using stream_replicate [of "drop n (avail b)"] unfolding takes_def by (metis (no_types) stream_drop ext)

definition extends :: "nat \<Rightarrow> bitread \<Rightarrow> bitread \<Rightarrow> bool" where
  "extends n b b' \<longleftrightarrow> bitread_ok b' \<and> same_data (br_cinfo b) (br_cinfo b') \<and> n \<le> bits_left b' \<and> (\<exists>k. avail b' = avail b @ replicate k False)
    \<and> (n \<le> length (avail b) \<longrightarrow> avail b' = avail b \<and> insufficient_data b' = insufficient_data b)"

lemma fill_extends:
  assumes "bitread_ok b" "n \<le> 25"
  shows "extends n b (jpeg_fill_bit_buffer n b)"
proof -
  obtain b1 hit where run: "(if unread_marker (br_cinfo b) = 0 then fill_loop b else (b, True)) = (b1, hit)"
    by (meson surj_pair)
  have b1: "bitread_ok b1" "avail b1 = avail b" "insufficient_data b1 = insufficient_data b"
    "same_data (br_cinfo b) (br_cinfo b1)" "if hit then unread_marker (br_cinfo b1) \<noteq> 0 else 25 \<le> bits_left b1"
    using fill_loop_avail [OF _ assms(1), of b1 hit] run assms(1) by (auto split: if_splits)
  define b2 where "b2 = b1\<lparr>insufficient_data := True, get_buffer := push_bit (MIN_GET_BITS - bits_left b1) (get_buffer b1),
      bits_left := MIN_GET_BITS\<rparr>"
  have fill: "jpeg_fill_bit_buffer n b = (if hit \<and> n > bits_left b1 then b2 else b1)"
    by (simp add: jpeg_fill_bit_buffer_def run b2_def)
  show ?thesis
  proof (cases "hit \<and> n > bits_left b1")
    case False
    then show ?thesis using b1 fill assms(2) by (auto simp: extends_def intro: exI [of _ 0])
  next
    case True
    then have av: "avail b = buf_bits b1" using b1 by (simp add: avail_def data_bits_def)
    let ?z = "25 - bits_left b1"
    have "rev [0..<25] = map (\<lambda>i. ?z + i) (rev [0..<bits_left b1]) @ rev [0..<?z]"
    proof -
      have "[0..<25] = [0..<?z] @ map (\<lambda>i. ?z + i) [0..<bits_left b1]"
        by (rule nth_equalityI) (use True assms(2) in \<open>auto simp: nth_append\<close>)
      then show ?thesis by (simp add: rev_map)
    qed
    then have "buf_bits b2 = map (\<lambda>i. bit (push_bit ?z (get_buffer b1)) (?z + i)) (rev [0..<bits_left b1])
        @ map (bit (push_bit ?z (get_buffer b1))) (rev [0..<?z])"
      by (simp add: buf_bits_def b2_def MIN_GET_BITS_def)
    moreover have "map (\<lambda>i. bit (push_bit ?z (get_buffer b1)) (?z + i)) (rev [0..<bits_left b1]) = buf_bits b1"
      using True assms(2) by (auto simp: buf_bits_def bit_push_bit_iff dest: bit_imp_le_length)
    moreover have "map (bit (push_bit ?z (get_buffer b1))) (rev [0..<?z]) = replicate ?z False"
      by (rule nth_equalityI) (auto simp: bit_push_bit_iff rev_nth)
    ultimately have "avail b2 = avail b @ replicate ?z False"
      using True b1(5) av by (simp add: avail_def data_bits_def b2_def)
    moreover have "\<not> n \<le> length (avail b)" "n \<noteq> 0" using True av by simp_all
    ultimately have "bitread_ok b2" "avail b2 = avail b @ replicate ?z False" "bits_left b2 = 25"
      "same_data (br_cinfo b) (br_cinfo b2)"
      using b1(4) by (simp_all add: b2_def bitread_ok_def MIN_GET_BITS_def)
    then show ?thesis using fill True assms(2) \<open>\<not> n \<le> length (avail b)\<close> by (auto simp: extends_def)
  qed
qed


lemma check_extends: "bitread_ok b \<Longrightarrow> n \<le> 25 \<Longrightarrow> extends n b (check_bit_buffer n b)"
  using fill_extends [of b n] by (auto simp: check_bit_buffer_def extends_def intro: exI [of _ 0])

lemma get_bits_takes:
  assumes "extends n b b1" "n \<le> 15" "get_bits n b1 = (v, b2)"
  shows "takes n b b2" "v = pre (avail b) n"
proof -
  have n: "n \<le> bits_left b1" "bitread_ok b1" using assms(1) by (simp_all add: extends_def)
  obtain k where k: "avail b1 = avail b @ replicate k False" using assms(1) by (auto simp: extends_def)
  have b2: "b2 = drop_bits n b1" "v = peek_bits n b1" using assms(3) by (simp_all add: get_bits_def)
  have d: "drop n (avail b1) = avail b2"
    using n by (simp add: avail_def b2 drop_bits_buf) (simp add: drop_bits_def)
  have ok: "bitread_ok b2" "insufficient_data b2 = insufficient_data b1" "br_cinfo b2 = br_cinfo b1"
    using n by (simp_all add: b2 drop_bits_def bitread_ok_def)
  have "avail b2 = drop n (avail b) @ replicate (k - (n - length (avail b))) False"
    by (simp add: d [symmetric] k)
  then show "takes n b b2"
    using assms(1) ok d [symmetric] unfolding takes_def extends_def by auto
  have "v = bits_nat (take n (avail b1))" using peek_bits_take [OF n(2) assms(2) n(1)] n(1) by (simp add: b2 avail_def)
  also have "\<dots> = pre (avail b1) n" using n(1) by (simp add: pre_take avail_def)
  finally show "v = pre (avail b) n" by (simp add: k)
qed

lemma check_get:
  assumes "bitread_ok b" "n \<le> 15" "get_bits n (check_bit_buffer n b) = (v, b2)"
  shows "takes n b b2" "v = pre (avail b) n"
proof -
  have "n \<le> 25" using assms(2) by simp
  from get_bits_takes [OF check_extends [OF assms(1) this] assms(2,3)]
  show "takes n b b2" "v = pre (avail b) n" .
qed


section \<open>The next symbol\<close>

text \<open>
  What the tables should decode: the shortest prefix of the bits that is a code, and its symbol;
  0 after 17 bits when there is none.
\<close>

definition next_symbol :: "huff_tbl \<Rightarrow> bool list \<Rightarrow> nat \<times> nat" where
  "next_symbol htbl bs =
     (case find (\<lambda>l. pre bs l < first (bits htbl) l + cnt (bits htbl) l) [1..<17] of
        Some l \<Rightarrow> (huffval htbl ! (start (bits htbl) l + (pre bs l - first (bits htbl) l)), l)
      | None \<Rightarrow> (0, 17))"

definition no_code :: "huff_tbl \<Rightarrow> bool list \<Rightarrow> nat \<Rightarrow> bool" where
  "no_code htbl bs l \<longleftrightarrow> (\<forall>k. 1 \<le> k \<longrightarrow> k < l \<longrightarrow> first (bits htbl) k + cnt (bits htbl) k \<le> pre bs k)"

lemma no_code_first:
  assumes "no_code htbl bs l" "1 \<le> l"
  shows "first (bits htbl) l \<le> pre bs l"
proof (cases "l = 1")
  case False
  then obtain k where k: "l = Suc k" "1 \<le> k" using assms(2) by (cases l) simp_all
  then have "first (bits htbl) k + cnt (bits htbl) k \<le> pre bs k" using assms(1) by (simp add: no_code_def)
  then show ?thesis by (simp add: k pre_Suc)
qed simp

lemma find_upt:
  assumes "a \<le> l" "l < n" "P l" "\<And>k. a \<le> k \<Longrightarrow> k < l \<Longrightarrow> \<not> P k"
  shows "find P [a..<n] = Some l"
proof -
  have "[a..<n] = [a..<l] @ l # [Suc l..<n]"
    using assms(1,2) upt_add_eq_append [of a l "n - l"] by (simp add: upt_conv_Cons)
  moreover have "find P [a..<l] = None" using assms(4) by (auto simp: find_None_iff)
  moreover have "find P (xs @ ys) = (case find P xs of None \<Rightarrow> find P ys | x \<Rightarrow> x)" for xs ys
    by (induction xs) auto
  ultimately show ?thesis using assms(3) by simp
qed

lemma next_symbol_at:
  assumes "no_code htbl bs l" "1 \<le> l" "l \<le> 16" "pre bs l < first (bits htbl) l + cnt (bits htbl) l"
  shows "next_symbol htbl bs = (huffval htbl ! (start (bits htbl) l + (pre bs l - first (bits htbl) l)), l)"
proof -
  have "find (\<lambda>l. pre bs l < first (bits htbl) l + cnt (bits htbl) l) [1..<17] = Some l"
    by (rule find_upt) (use assms in \<open>auto simp: no_code_def not_less\<close>)
  then show ?thesis by (simp add: next_symbol_def)
qed

lemma next_symbol_none: "no_code htbl bs 17 \<Longrightarrow> next_symbol htbl bs = (0, 17)"
proof -
  assume "no_code htbl bs 17"
  then have "find (\<lambda>l. pre bs l < first (bits htbl) l + cnt (bits htbl) l) [1..<17] = None"
    unfolding find_None_iff no_code_def by (auto simp: not_less)
  then show ?thesis by (simp add: next_symbol_def)
qed

text \<open>The tables the decoder may be given.\<close>

definition d_valid :: "d_derived_tbl \<Rightarrow> bool" where
  "d_valid dtbl \<longleftrightarrow> length (huffval (pub dtbl)) = 256 \<and> (\<exists>isDC. d_table isDC (pub dtbl) = Inr dtbl)"

lemma d_valid_tables:
  assumes "d_valid dtbl"
  shows "code_tree (bits (pub dtbl))" "limits_ok (bits (pub dtbl)) (maxcode dtbl) (valoffset dtbl)"
    "look_ok (bits (pub dtbl)) (huffval (pub dtbl)) (look_nbits dtbl) (look_sym dtbl)"
    "maxcode dtbl ! 17 = 0xFFFFF" "length (huffval (pub dtbl)) = 256"
proof -
  obtain isDC where "d_table isDC (pub dtbl) = Inr dtbl" and len: "length (huffval (pub dtbl)) = 256"
    using assms by (auto simp: d_valid_def)
  note ok = d_table_ok [OF this(1)]
  show "code_tree (bits (pub dtbl))" "limits_ok (bits (pub dtbl)) (maxcode dtbl) (valoffset dtbl)"
    "look_ok (bits (pub dtbl)) (huffval (pub dtbl)) (look_nbits dtbl) (look_sym dtbl)"
    "maxcode dtbl ! 17 = 0xFFFFF"
    by (fact ok(1), fact ok(3), fact ok(4), fact ok(5))
qed (use assms in \<open>simp add: d_valid_def\<close>)

lemma or_bit: "push_bit 1 a OR of_bool x = 2 * a + of_bool x" for a :: nat
  by (cases x) (simp_all add: or_Suc_0_eq)

lemma pre_bound: "pre bs n < 2 ^ n"
  using bits_nat_bound [of "map (stream bs) [0..<n]"] by (simp add: pre_def)

lemma collect_code_result:
  assumes "d_valid dtbl" "1 \<le> l" "l \<le> 17" "takes l b0 b" "no_code (pub dtbl) (avail b0) l"
  shows "\<exists>l' b'. collect_code dtbl l (pre (avail b0) l) b = Inr (l', pre (avail b0) l', b') \<and> takes l' b0 b'
    \<and> l \<le> l' \<and> l' \<le> 17 \<and> no_code (pub dtbl) (avail b0) l'
    \<and> (l' \<le> 16 \<longrightarrow> pre (avail b0) l' < first (bits (pub dtbl)) l' + cnt (bits (pub dtbl)) l')"
  using assms(2-5)
proof (induction "17 - l" arbitrary: l b)
  case 0
  then have l: "l = 17" by simp
  have "pre (avail b0) 17 < 2 ^ 17" by (rule pre_bound)
  then show ?case using 0 d_valid_tables(4) [OF assms(1)] by (simp add: l collect_code.simps [of _ 17])
next
  case (Suc n)
  then have l: "l \<le> 16" by simp
  let ?c = "first (bits (pub dtbl)) l + cnt (bits (pub dtbl)) l"
  have above: "int (pre (avail b0) l) > maxcode dtbl ! l \<longleftrightarrow> ?c \<le> pre (avail b0) l"
    using d_valid_tables(2) [OF assms(1)] no_code_first [OF Suc.prems(4,1)] Suc.prems(1) l by (simp add: limits_ok_def)
  show ?case
  proof (cases "?c \<le> pre (avail b0) l")
    case False
    then have "collect_code dtbl l (pre (avail b0) l) b = Inr (l, pre (avail b0) l, b)"
      using above l by (simp add: collect_code.simps [of _ l])
    then show ?thesis using False Suc.prems l by (intro exI [of _ l] exI [of _ b] conjI) simp_all
  next
    case True
    obtain v b1 where v: "get_bits 1 (check_bit_buffer 1 b) = (v, b1)" by (meson surj_pair)
    have ok: "bitread_ok b" using Suc.prems(3) by (simp add: takes_def)
    note got = check_get [OF ok _ v]
    have "takes 1 b b1" "v = of_bool (stream (avail b) 0)" using got by (simp_all add: pre_def)
    then have b1: "takes (Suc l) b0 b1" "v = of_bool (stream (avail b0) l)"
      using takes_trans [OF Suc.prems(3), of 1 b1] takes_stream [OF Suc.prems(3)] by simp_all
    have "collect_code dtbl l (pre (avail b0) l) b = collect_code dtbl (Suc l) (pre (avail b0) (Suc l)) b1"
    proof -
      have "push_bit 1 (pre (avail b0) l) OR v = pre (avail b0) (Suc l)"
        unfolding b1(2) pre_Suc by (rule or_bit)
      then show ?thesis
        unfolding collect_code.simps [of dtbl l "pre (avail b0) l" b] v prod.case Let_def
        using above True l by simp
    qed
    moreover have "no_code (pub dtbl) (avail b0) (Suc l)"
      using Suc.prems(4) True by (auto simp: no_code_def less_Suc_eq)
    ultimately show ?thesis
      using Suc.hyps(1) [of "Suc l" b1] Suc.hyps(2) b1(1) l by fastforce
  qed
qed

lemma jpeg_huff_decode_next:
  assumes "d_valid dtbl" "1 \<le> n" "n \<le> 9" "bitread_ok b" "no_code (pub dtbl) (avail b) n"
  shows "\<exists>b'. jpeg_huff_decode dtbl n b = Inr (fst (next_symbol (pub dtbl) (avail b)), b')
    \<and> takes (snd (next_symbol (pub dtbl) (avail b))) b b'"
proof -
  let ?bs = "bits (pub dtbl)"
  obtain v b0 where v: "get_bits n (check_bit_buffer n b) = (v, b0)" by (meson surj_pair)
  have b0: "takes n b b0" "v = pre (avail b) n" using check_get [OF assms(4) _ v] assms(3) by simp_all
  obtain l b' where l: "collect_code dtbl n (pre (avail b) n) b0 = Inr (l, pre (avail b) l, b')" "takes l b b'"
    "n \<le> l" "l \<le> 17" "no_code (pub dtbl) (avail b) l" "l \<le> 16 \<longrightarrow> pre (avail b) l < first ?bs l + cnt ?bs l"
    using collect_code_result [OF assms(1,2) _ b0(1) assms(5)] assms(3) by auto
  show ?thesis
  proof (cases "l = 17")
    case True
    then have "next_symbol (pub dtbl) (avail b) = (0, 17)" using next_symbol_none l(5) by simp
    moreover have "jpeg_huff_decode dtbl n b = Inr (0, b')"
      using v b0(2) l(1) True by (simp add: jpeg_huff_decode_def)
    ultimately show ?thesis using l(2) True by simp
  next
    case False
    then have l16: "l \<le> 16" and p: "pre (avail b) l < first ?bs l + cnt ?bs l" using l(4,6) by simp_all
    have f: "first ?bs l \<le> pre (avail b) l" using no_code_first [OF l(5)] assms(2) l(3) by simp
    let ?i = "pre (avail b) l - first ?bs l"
    have i: "?i < cnt ?bs l" using f p by simp
    have "int (pre (avail b) l) + valoffset dtbl ! l = int (start ?bs l + ?i)"
      using d_valid_tables(2) [OF assms(1)] f i by (simp add: limits_ok_def of_nat_diff)
    moreover have "start ?bs l + ?i < 256"
      using all_nth(3) [OF i] d_valid_tables(1) [OF assms(1)] by (simp add: code_tree_def)
    ultimately have "jpeg_huff_decode dtbl n b = Inr (huffval (pub dtbl) ! (start ?bs l + ?i), b')"
      using v b0(2) l(1) l16 d_valid_tables(5) [OF assms(1)] by (simp add: jpeg_huff_decode_def Let_def del: of_nat_add)
    moreover have "next_symbol (pub dtbl) (avail b) = (huffval (pub dtbl) ! (start ?bs l + ?i), l)"
      using next_symbol_at [OF l(5) _ l16 p] assms(2) l(3) by simp
    ultimately show ?thesis using l(2) by simp
  qed
qed


lemma pre_div:
  assumes "k \<le> n"
  shows "pre bs n div 2 ^ (n - k) = pre bs k"
  using assms
proof (induction n rule: dec_induct)
  case (step n)
  have "pre bs (Suc n) div 2 ^ (Suc n - k) = pre bs (Suc n) div 2 div 2 ^ (n - k)"
    using step(1) by (simp add: Suc_diff_le div_mult2_eq)
  then show ?case using step by (simp add: pre_Suc)
qed simp

text \<open>A lookup that finds nothing leaves codes of more than eight bits; one that does is right.\<close>

lemma look_none:
  assumes "d_valid dtbl" "look_nbits dtbl ! pre bs 8 = 0"
  shows "no_code (pub dtbl) bs 9"
proof -
  have none: "\<not> starts_code (bits (pub dtbl)) k (pre bs 8)" if "1 \<le> k" "k \<le> 8" for k
    using d_valid_tables(3) [OF assms(1)] assms(2) pre_bound [of bs 8] that by (auto simp: look_ok_def)
  have "no_code (pub dtbl) bs l" if "l \<le> 9" for l
    using that
  proof (induction l)
    case (Suc l)
    then have IH: "no_code (pub dtbl) bs l" by simp
    have "first (bits (pub dtbl)) l + cnt (bits (pub dtbl)) l \<le> pre bs l" if l: "1 \<le> l"
      using none [OF l] Suc.prems no_code_first [OF IH l] pre_div [of l 8 bs] by (simp add: starts_code_def)
    then show ?case using IH by (auto simp: no_code_def less_Suc_eq)
  qed (simp add: no_code_def)
  then show ?thesis by simp
qed

lemma look_found:
  assumes "d_valid dtbl" "look_nbits dtbl ! pre bs 8 \<noteq> 0"
  shows "next_symbol (pub dtbl) bs = (look_sym dtbl ! pre bs 8, look_nbits dtbl ! pre bs 8)" "look_nbits dtbl ! pre bs 8 \<le> 8"
proof -
  let ?l = "look_nbits dtbl ! pre bs 8" and ?bs = "bits (pub dtbl)"
  have "pre bs 8 < 256" using pre_bound [of bs 8] by simp
  then have l: "1 \<le> ?l" "?l \<le> 8" "starts_code ?bs ?l (pre bs 8)"
    "look_sym dtbl ! pre bs 8 = huffval (pub dtbl) ! (start ?bs ?l + (pre bs 8 div 2 ^ (8 - ?l) - first ?bs ?l))"
    using d_valid_tables(3) [OF assms(1)] assms(2) by (simp_all add: look_ok_def)
  have at: "first ?bs ?l \<le> pre bs ?l" "pre bs ?l < first ?bs ?l + cnt ?bs ?l"
    using l(3) pre_div [OF l(2), of bs] by (simp_all add: starts_code_def)
  have "no_code (pub dtbl) bs ?l"
    unfolding no_code_def
  proof (intro allI impI)
    fix k
    assume k: "1 \<le> k" "k < ?l"
    then have "(first ?bs k + cnt ?bs k) * 2 ^ (?l - k) \<le> pre bs ?l" using first_step [of k ?l ?bs] at(1) by simp
    then have "first ?bs k + cnt ?bs k \<le> pre bs ?l div 2 ^ (?l - k)" by (simp add: less_eq_div_iff_mult_less_eq)
    then show "first ?bs k + cnt ?bs k \<le> pre bs k" using pre_div [of k ?l bs] k by simp
  qed
  then show "next_symbol (pub dtbl) bs = (look_sym dtbl ! pre bs 8, look_nbits dtbl ! pre bs 8)"
    using next_symbol_at [of "pub dtbl" bs ?l] l at pre_div [OF l(2), of bs] by simp
  show "?l \<le> 8" by (rule l(2))
qed

lemma HUFF_DECODE_next:
  assumes "d_valid dtbl" "bitread_ok b"
  shows "\<exists>b'. HUFF_DECODE dtbl b = Inr (fst (next_symbol (pub dtbl) (avail b)), b')
    \<and> takes (snd (next_symbol (pub dtbl) (avail b))) b b'"
proof -
  define b1 where "b1 = (if bits_left b < HUFF_LOOKAHEAD then jpeg_fill_bit_buffer 0 b else b)"
  have "extends 0 b b1"
    using fill_extends [OF assms(2), of 0] assms(2) by (auto simp: b1_def extends_def intro: exI [of _ 0])
  then have b1: "bitread_ok b1" "avail b1 = avail b" "insufficient_data b1 = insufficient_data b"
    and same: "same_data (br_cinfo b) (br_cinfo b1)"
    by (simp_all add: extends_def)
  have start_at: "takes n b b'" if "takes n b1 b'" for n b'
    using that b1 same_data_trans [OF same] by (auto simp: takes_def)
  show ?thesis
  proof (cases "bits_left b1 < HUFF_LOOKAHEAD")
    case True
    then have "HUFF_DECODE dtbl b = jpeg_huff_decode dtbl 1 b1" by (simp add: HUFF_DECODE_def b1_def Let_def)
    moreover have "no_code (pub dtbl) (avail b1) 1" by (simp add: no_code_def)
    ultimately show ?thesis
      using jpeg_huff_decode_next [OF assms(1) _ _ b1(1), of 1] start_at b1(2) by auto
  next
    case False
    then have eight: "8 \<le> bits_left b1" by (simp add: HUFF_LOOKAHEAD_def)
    have look: "peek_bits HUFF_LOOKAHEAD b1 = pre (avail b) 8"
    proof -
      have "pre (avail b) 8 = pre (avail b1) 8" by (simp only: b1(2))
      also have "\<dots> = bits_nat (take 8 (buf_bits b1))" using eight by (simp add: pre_take avail_def)
      finally show ?thesis using peek_bits_take [OF b1(1) _ eight] by (simp add: HUFF_LOOKAHEAD_def)
    qed
    have run: "HUFF_DECODE dtbl b = (if look_nbits dtbl ! pre (avail b) 8 \<noteq> 0
        then Inr (look_sym dtbl ! pre (avail b) 8, drop_bits (look_nbits dtbl ! pre (avail b) 8) b1)
        else jpeg_huff_decode dtbl 9 b1)"
      using False look unfolding HUFF_DECODE_def Let_def b1_def [symmetric] by (simp add: HUFF_LOOKAHEAD_def)
    show ?thesis
    proof (cases "look_nbits dtbl ! pre (avail b) 8 = 0")
      case True
      then have "no_code (pub dtbl) (avail b1) 9" using look_none [OF assms(1)] b1(2) by simp
      then show ?thesis
        using run True jpeg_huff_decode_next [OF assms(1) _ _ b1(1), of 9] start_at b1(2) by auto
    next
      case False
      let ?n = "look_nbits dtbl ! pre (avail b) 8"
      have n: "?n \<le> bits_left b1" using look_found(2) [OF assms(1) False] eight by simp
      have "takes ?n b1 (drop_bits ?n b1)"
        using n b1(1) drop_bits_buf [OF n]
        by (auto simp: takes_def avail_def bitread_ok_def intro: exI [of _ 0]) (simp_all add: drop_bits_def)
      then show ?thesis using run False look_found(1) [OF assms(1) False] start_at by simp
    qed
  qed
qed

text \<open>
  C10: The lookahead of \<open>HUFF_DECODE\<close> changes nothing: for every table \<open>jpeg_make_d_derived_tbl\<close>
  makes and every state of the bit reader, it gives the symbol that collecting the code bit by
  bit (Figure F.16) gives, and leaves the same bits to come.
\<close>

theorem lookahead_equivalent:
  assumes "jpeg_make_d_derived_tbl isDC tblno d = Inr dtbl" "length (huffval (pub dtbl)) = 256" "bitread_ok b"
  shows "\<exists>s b1 b2. HUFF_DECODE dtbl b = Inr (s, b1) \<and> jpeg_huff_decode dtbl 1 b = Inr (s, b2)
    \<and> stream (avail b1) = stream (avail b2)"
proof -
  obtain htbl where "d_table isDC htbl = Inr dtbl"
    using assms(1) by (auto simp: jpeg_make_d_derived_tbl_def split: if_splits option.splits)
  then have valid: "d_valid dtbl" using assms(2) d_table_ok(2) by (auto simp: d_valid_def)
  have "no_code (pub dtbl) (avail b) 1" by (simp add: no_code_def)
  then obtain b2 where b2: "jpeg_huff_decode dtbl 1 b = Inr (fst (next_symbol (pub dtbl) (avail b)), b2)"
      "takes (snd (next_symbol (pub dtbl) (avail b))) b b2"
    using jpeg_huff_decode_next [OF valid _ _ assms(3), of 1] by auto
  obtain b1 where b1: "HUFF_DECODE dtbl b = Inr (fst (next_symbol (pub dtbl) (avail b)), b1)"
      "takes (snd (next_symbol (pub dtbl) (avail b))) b b1"
    using HUFF_DECODE_next [OF valid assms(3)] by blast
  have "stream (avail b1) = stream (avail b2)" using takes_stream [OF b1(2)] takes_stream [OF b2(2)] by simp
  with b1(1) b2(1) show ?thesis by blast
qed


definition small_decoder :: decompress where
  "small_decoder = blank_decompress\<lparr>d_dc_huff_tbl_ptrs := [Some small_huff, None, None, None], input := [0x9F, 0xFF, 0xD9]\<rparr>"

lemma small_d_table:
  "\<exists>dtbl. jpeg_make_d_derived_tbl True 0 small_decoder = Inr dtbl \<and> pub dtbl = small_huff \<and> d_valid dtbl"
proof -
  have "c_table True small_huff = Inr small_table"
    using small_table by (simp add: jpeg_make_c_derived_tbl_def NUM_HUFF_TBLS_def small_encoder_def)
  moreover have len: "length (huffval small_huff) = 256" by (simp add: small_huff_def)
  ultimately obtain dtbl where d: "d_table True small_huff = Inr dtbl" using decoder_accepts by blast
  moreover have "pub dtbl = small_huff" using d_table_ok(2) [OF d] .
  ultimately show ?thesis
    using len by (auto simp: jpeg_make_d_derived_tbl_def NUM_HUFF_TBLS_def small_decoder_def d_valid_def)
qed

theorem lookahead_equivalent_witness:
  "\<exists>dtbl s b1 b2. jpeg_make_d_derived_tbl True 0 small_decoder = Inr dtbl
    \<and> HUFF_DECODE dtbl \<lparr>get_buffer = 0, bits_left = 0, insufficient_data = False, br_cinfo = small_decoder\<rparr> = Inr (s, b1)
    \<and> jpeg_huff_decode dtbl 1 \<lparr>get_buffer = 0, bits_left = 0, insufficient_data = False, br_cinfo = small_decoder\<rparr> = Inr (s, b2)
    \<and> stream (avail b1) = stream (avail b2)"
proof -
  let ?b = "\<lparr>get_buffer = 0, bits_left = 0, insufficient_data = False, br_cinfo = small_decoder\<rparr> :: bitread"
  obtain dtbl where d: "jpeg_make_d_derived_tbl True 0 small_decoder = Inr dtbl" "pub dtbl = small_huff"
    using small_d_table by blast
  have "length (huffval (pub dtbl)) = 256" by (simp add: d(2) small_huff_def)
  moreover have "bitread_ok ?b" by (simp add: bitread_ok_def)
  ultimately show ?thesis using lookahead_equivalent [OF d(1), of ?b] d(1) by blast
qed

end
