(* ===== verification/HuffWriter.thy ===== *)
theory HuffWriter
  imports HuffReader
begin

text \<open>
  The sequential Huffman encoder of \<open>jpeg-9a/jchuff.c\<close>: \<open>emit_bits_s\<close>, \<open>flush_bits_s\<close>,
  \<open>emit_restart_s\<close>, \<open>encode_one_block\<close>, \<open>encode_mcu_huff\<close> and \<open>finish_pass_huff\<close>.  The
  destinations never suspend (\<open>JpegData\<close>), so every call returns \<open>TRUE\<close> or does not return.
\<close>

unbundle bit_operations_syntax

section \<open>State\<close>

record savable_state =
  put_buffer :: "32 word"
  put_bits :: nat
  c_last_dc_val :: "int list"

record working_state =
  cur :: savable_state
  ws_cinfo :: compress

section \<open>Bits out\<close>

definition emit_byte_s :: "nat \<Rightarrow> working_state \<Rightarrow> working_state" where
  "emit_byte_s val w = w\<lparr>ws_cinfo := emit_byte val (ws_cinfo w)\<rparr>"

text \<open>The \<open>while\<close> loop: whole bytes go out, an FF is followed by a zero byte.\<close>

function emit_whole :: "32 word \<Rightarrow> nat \<Rightarrow> working_state \<Rightarrow> working_state" where
  "emit_whole buf n w =
     (if n \<ge> 8
      then (let c = unat (drop_bit 16 buf AND 0xFF);
                w1 = emit_byte_s c w;
                w2 = (if c = 0xFF then emit_byte_s 0 w1 else w1)
            in emit_whole (push_bit 8 buf) (n - 8) w2)
      else w\<lparr>cur := (cur w)\<lparr>put_buffer := buf, put_bits := n\<rparr>\<rparr>)"
  by pat_completeness auto
termination
  by (relation "measure (\<lambda>(buf, n, w). n)") auto

declare emit_whole.simps [simp del]

text \<open>A shift of the incoming bits by a negative amount would be a fault.\<close>

definition emit_bits_s :: "32 word \<Rightarrow> nat \<Rightarrow> working_state \<Rightarrow> working_state result" where
  "emit_bits_s cde sz w =
     (if sz = 0 then Inl JERR_HUFF_MISSING_CODE
      else (let buf = cde AND (push_bit sz 1 - 1); n = sz + put_bits (cur w)
            in if n > 24 then Inl FAULT
               else Inr (emit_whole (push_bit (24 - n) buf OR put_buffer (cur w)) n w)))"

definition flush_bits_s :: "working_state \<Rightarrow> working_state result" where
  "flush_bits_s w =
     bind_err (emit_bits_s 0x7F 7 w) (\<lambda>w1. Inr (w1\<lparr>cur := (cur w1)\<lparr>put_buffer := 0, put_bits := 0\<rparr>\<rparr>))"

definition emit_restart_s :: "nat \<Rightarrow> working_state \<Rightarrow> working_state result" where
  "emit_restart_s restart_num w =
     bind_err (flush_bits_s w) (\<lambda>w1.
       let w2 = emit_byte_s (0xD0 + restart_num) (emit_byte_s 0xFF w1);
           comps_in_scan = length (cur_comp_info (ws_cinfo w2))
       in Inr (w2\<lparr>cur := (cur w2)\<lparr>c_last_dc_val :=
                 replicate comps_in_scan 0 @ drop comps_in_scan (c_last_dc_val (cur w2))\<rparr>\<rparr>))"

section \<open>A block\<close>

text \<open>The number of bits of a magnitude, as the shift loop counts it.\<close>

function bit_count :: "nat \<Rightarrow> nat" where
  "bit_count temp = (if temp = 0 then 0 else 1 + bit_count (drop_bit 1 temp))"
  by pat_completeness auto
termination
  by (relation "measure id") (auto simp: drop_bit_eq_div)

declare bit_count.simps [simp del]

definition emit_symbol :: "c_derived_tbl \<Rightarrow> nat \<Rightarrow> working_state \<Rightarrow> working_state result" where
  "emit_symbol tbl s w = emit_bits_s (of_nat (ehufco tbl ! s)) (ehufsi tbl ! s) w"

definition encode_dc :: "c_derived_tbl \<Rightarrow> int \<Rightarrow> working_state \<Rightarrow> working_state result" where
  "encode_dc dctbl diff w =
     (let (temp, temp2) = (if diff < 0 then (- diff, diff - 1) else (diff, diff));
          nbits = bit_count (nat temp)
      in if nbits > 11 then Inl JERR_BAD_DCT_COEF
         else bind_err (emit_symbol dctbl nbits w) (\<lambda>w1.
           if nbits \<noteq> 0 then emit_bits_s (word_of_int temp2) nbits w1 else Inr w1))"

text \<open>The special codes for runs of 16 zeros; the run length left.\<close>

function emit_runs :: "c_derived_tbl \<Rightarrow> nat \<Rightarrow> working_state \<Rightarrow> (nat \<times> working_state) result" where
  "emit_runs actbl r w =
     (if r > 15 then bind_err (emit_symbol actbl 0xF0 w) (emit_runs actbl (r - 16)) else Inr (r, w))"
  by pat_completeness auto
termination
  by (relation "measure (\<lambda>(actbl, r, w). r)") auto

declare emit_runs.simps [simp del]

definition encode_coef :: "c_derived_tbl \<Rightarrow> nat \<Rightarrow> int \<Rightarrow> working_state \<Rightarrow> working_state result" where
  "encode_coef actbl r0 v w0 =
     bind_err (emit_runs actbl r0 w0) (\<lambda>(r, w).
       let (temp, temp2) = (if v < 0 then (- v, v - 1) else (v, v));
           nbits = 1 + bit_count (drop_bit 1 (nat temp))
       in if nbits > 10 then Inl JERR_BAD_DCT_COEF
          else bind_err (emit_symbol actbl (push_bit 4 r + nbits) w) (emit_bits_s (word_of_int temp2) nbits))"

text \<open>The loop over \<open>k\<close>, given the coefficients in zigzag order, and the end-of-block code.\<close>

fun encode_ac :: "c_derived_tbl \<Rightarrow> int list \<Rightarrow> nat \<Rightarrow> working_state \<Rightarrow> working_state result" where
  "encode_ac actbl [] r w = (if r > 0 then emit_symbol actbl 0 w else Inr w)"
| "encode_ac actbl (v # vs) r w =
     (if v = 0 then encode_ac actbl vs (r + 1) w
      else bind_err (encode_coef actbl r v w) (encode_ac actbl vs 0))"

definition encode_one_block ::
  "int list \<Rightarrow> int \<Rightarrow> c_derived_tbl \<Rightarrow> c_derived_tbl \<Rightarrow> working_state \<Rightarrow> working_state result" where
  "encode_one_block block last_dc_val dctbl actbl w =
     bind_err (encode_dc dctbl (block ! 0 - last_dc_val) w)
       (encode_ac actbl (map (\<lambda>k. block ! (natural_order (ws_cinfo w) ! k)) [1..<lim_Se (ws_cinfo w) + 1]) 0)"

section \<open>An MCU and a scan\<close>

record huff_encoder =
  saved :: savable_state
  c_restarts_to_go :: nat
  c_next_restart_num :: nat
  dc_derived_tbls :: "c_derived_tbl list"
  ac_derived_tbls :: "c_derived_tbl list"

text \<open>\<open>MCU_membership\<close> and the data of the MCU go together, one pair per block.\<close>

fun encode_blocks :: "huff_encoder \<Rightarrow> (nat \<times> int list) list \<Rightarrow> working_state \<Rightarrow> working_state result" where
  "encode_blocks e [] w = Inr w"
| "encode_blocks e ((ci, block) # bs) w =
     (let compptr = scan_comp (ws_cinfo w) ci
      in bind_err (encode_one_block block (c_last_dc_val (cur w) ! ci)
             (dc_derived_tbls e ! dc_tbl_no compptr) (ac_derived_tbls e ! ac_tbl_no compptr) w)
           (\<lambda>w1. encode_blocks e bs
              (w1\<lparr>cur := (cur w1)\<lparr>c_last_dc_val := (c_last_dc_val (cur w1))[ci := block ! 0]\<rparr>\<rparr>)))"

definition encode_mcu_huff ::
  "nat list \<Rightarrow> int list list \<Rightarrow> huff_encoder \<times> compress \<Rightarrow> (huff_encoder \<times> compress) result" where
  "encode_mcu_huff membership MCU_data s =
     (let (e, c) = s;
          state = \<lparr>cur = saved e, ws_cinfo = c\<rparr>;
          restart = (restart_interval c \<noteq> 0 \<and> c_restarts_to_go e = 0)
      in bind_err (if restart then emit_restart_s (c_next_restart_num e) state else Inr state) (\<lambda>w0.
         bind_err (encode_blocks e (zip membership MCU_data) w0) (\<lambda>w.
           let e1 = e\<lparr>saved := cur w\<rparr>;
               e2 = (if restart then e1\<lparr>c_restarts_to_go := restart_interval c,
                                        c_next_restart_num := (c_next_restart_num e + 1) AND 7\<rparr> else e1);
               e3 = (if restart_interval c \<noteq> 0 then e2\<lparr>c_restarts_to_go := c_restarts_to_go e2 - 1\<rparr> else e2)
           in Inr (e3, ws_cinfo w))))"

definition finish_pass_huff :: "huff_encoder \<times> compress \<Rightarrow> (huff_encoder \<times> compress) result" where
  "finish_pass_huff s =
     (let (e, c) = s
      in bind_err (flush_bits_s \<lparr>cur = saved e, ws_cinfo = c\<rparr>) (\<lambda>w. Inr (e\<lparr>saved := cur w\<rparr>, ws_cinfo w)))"


section \<open>What is written\<close>

lemma bytes_bits_append [simp]: "bytes_bits (xs @ ys) = bytes_bits xs @ bytes_bits ys" "bytes_bits [] = []"
  by (simp_all add: bytes_bits_def)

text \<open>The reader finds the bytes again.\<close>

lemma entropy_data_stuff: "entropy_data (stuff bs @ rest) = bs @ entropy_data rest"
  by (induction bs) (simp_all add: stuff_def)

text \<open>The bits held back, at the left of the low 24, the rest of which is clear.\<close>

definition held :: "32 word \<Rightarrow> nat \<Rightarrow> bool list" where
  "held buf n = map (bit buf) (rev [24 - n..<24])"

definition clear_below :: "32 word \<Rightarrow> nat \<Rightarrow> bool" where
  "clear_below buf n \<longleftrightarrow> n \<le> 24 \<and> (\<forall>i<24 - n. \<not> bit buf i)"

definition pend :: "working_state \<Rightarrow> bool list" where
  "pend w = held (put_buffer (cur w)) (put_bits (cur w))"

definition enc_ok :: "working_state \<Rightarrow> bool" where
  "enc_ok w \<longleftrightarrow> put_bits (cur w) \<le> 7 \<and> clear_below (put_buffer (cur w)) (put_bits (cur w))"

text \<open>\<open>w'\<close> is \<open>w\<close> after the bits \<open>bs\<close>; \<open>wrote\<close> adds that the DC predictions are the same.\<close>

definition sent :: "bool list \<Rightarrow> working_state \<Rightarrow> working_state \<Rightarrow> bool" where
  "sent bs w w' \<longleftrightarrow> enc_ok w'
    \<and> (\<exists>bytes. ws_cinfo w' = (ws_cinfo w)\<lparr>out := out (ws_cinfo w) @ stuff bytes\<rparr>
        \<and> pend w @ bs = bytes_bits bytes @ pend w')"

definition wrote :: "bool list \<Rightarrow> working_state \<Rightarrow> working_state \<Rightarrow> bool" where
  "wrote bs w w' \<longleftrightarrow> sent bs w w' \<and> c_last_dc_val (cur w') = c_last_dc_val (cur w)"

lemma sent_refl: "enc_ok w \<Longrightarrow> sent [] w w"
  by (auto simp: sent_def intro: exI [of _ "[]"])

lemma sent_trans:
  assumes "sent bs w w1" "sent cs w1 w2"
  shows "sent (bs @ cs) w w2"
proof -
  obtain xs where xs: "ws_cinfo w1 = (ws_cinfo w)\<lparr>out := out (ws_cinfo w) @ stuff xs\<rparr>" "pend w @ bs = bytes_bits xs @ pend w1"
    using assms(1) by (auto simp: sent_def)
  obtain ys where ys: "ws_cinfo w2 = (ws_cinfo w1)\<lparr>out := out (ws_cinfo w1) @ stuff ys\<rparr>" "pend w1 @ cs = bytes_bits ys @ pend w2"
    using assms(2) by (auto simp: sent_def)
  have "pend w @ bs @ cs = bytes_bits xs @ pend w1 @ cs" using xs(2) by (metis append.assoc)
  then have "pend w @ bs @ cs = bytes_bits (xs @ ys) @ pend w2" using ys(2) by simp
  moreover have "ws_cinfo w2 = (ws_cinfo w)\<lparr>out := out (ws_cinfo w) @ stuff (xs @ ys)\<rparr>" using xs(1) ys(1) by simp
  ultimately show ?thesis using assms unfolding sent_def by metis
qed

lemma wrote_refl: "enc_ok w \<Longrightarrow> wrote [] w w"
  by (simp add: wrote_def sent_refl)

lemma wrote_trans: "wrote bs w w1 \<Longrightarrow> wrote cs w1 w2 \<Longrightarrow> wrote (bs @ cs) w w2"
  by (auto simp: wrote_def intro: sent_trans)

lemma held_length [simp]: "n \<le> 24 \<Longrightarrow> length (held buf n) = n"
  by (simp add: held_def)

lemma held_nth: "n \<le> 24 \<Longrightarrow> i < n \<Longrightarrow> held buf n ! i = bit buf (23 - i)"
  by (auto simp: held_def rev_nth intro: arg_cong)

lemma held_split:
  assumes "8 \<le> n" "n \<le> 24"
  shows "held buf n = nat_bits 8 (unat (drop_bit 16 buf AND 0xFF)) @ held (push_bit 8 buf) (n - 8)"
proof (rule nth_equalityI)
  show "length (held buf n) = length (nat_bits 8 (unat (drop_bit 16 buf AND 0xFF)) @ held (push_bit 8 buf) (n - 8))"
    using assms by simp
next
  fix i
  assume "i < length (held buf n)"
  then have i: "i < n" using assms by simp
  have "(0xFF :: 32 word) = mask 8" by (simp add: mask_eq_exp_minus_1)
  then have low: "unat (drop_bit 16 buf AND 0xFF) = unat (take_bit 8 (drop_bit 16 buf))" by (simp only: take_bit_eq_mask)
  show "held buf n ! i = (nat_bits 8 (unat (drop_bit 16 buf AND 0xFF)) @ held (push_bit 8 buf) (n - 8)) ! i"
  proof (cases "i < 8")
    case True
    then show ?thesis
      using assms i unfolding low
      by (simp add: nth_append held_nth nat_bits_def rev_nth bit_unsigned_iff bit_take_bit_iff bit_drop_bit_eq less_imp_diff_less)
  next
    case False
    then have "bit (push_bit 8 buf) (23 - (i - 8)) = bit buf (23 - i)" using i assms by (auto simp: bit_push_bit_iff)
    then show ?thesis using False assms i by (simp add: nth_append held_nth)
  qed
qed

lemma clear_below_shift:
  assumes "clear_below buf n" "8 \<le> n"
  shows "clear_below (push_bit 8 buf) (n - 8)"
  using assms by (auto simp: clear_below_def bit_push_bit_iff)

lemma emit_whole_wrote:
  assumes "clear_below buf n"
  shows "enc_ok (emit_whole buf n w) \<and> c_last_dc_val (cur (emit_whole buf n w)) = c_last_dc_val (cur w)
    \<and> (\<exists>bytes. ws_cinfo (emit_whole buf n w) = (ws_cinfo w)\<lparr>out := out (ws_cinfo w) @ stuff bytes\<rparr>
        \<and> held buf n = bytes_bits bytes @ pend (emit_whole buf n w))"
  using assms
proof (induction buf n w rule: emit_whole.induct)
  case (1 buf n w)
  show ?case
  proof (cases "n \<ge> 8")
    case False
    then have "emit_whole buf n w = w\<lparr>cur := (cur w)\<lparr>put_buffer := buf, put_bits := n\<rparr>\<rparr>"
      by (simp add: emit_whole.simps [of buf n w])
    then show ?thesis using False "1.prems" by (auto simp: enc_ok_def pend_def intro!: exI [of _ "[]"])
  next
    case True
    define c where "c = unat (drop_bit 16 buf AND 0xFF)"
    define w1 where "w1 = emit_byte_s c w"
    define w2 where "w2 = (if c = 0xFF then emit_byte_s 0 w1 else w1)"
    have run: "emit_whole buf n w = emit_whole (push_bit 8 buf) (n - 8) w2"
      using True by (simp add: emit_whole.simps [of buf n w] c_def w1_def w2_def Let_def)
    note IH = "1.IH" [OF True c_def w1_def w2_def clear_below_shift [OF "1.prems" True]]
    then obtain bytes where b: "ws_cinfo (emit_whole (push_bit 8 buf) (n - 8) w2)
        = (ws_cinfo w2)\<lparr>out := out (ws_cinfo w2) @ stuff bytes\<rparr>"
      "held (push_bit 8 buf) (n - 8) = bytes_bits bytes @ pend (emit_whole (push_bit 8 buf) (n - 8) w2)" by blast
    have c: "c < 256" "unat (of_nat c :: byte) = c"
    proof -
      have "(0xFF :: 32 word) = mask 8" by (simp add: mask_eq_exp_minus_1)
      then have "c = unat (take_bit 8 (drop_bit 16 buf))" by (simp only: c_def take_bit_eq_mask)
      then have "c < 2 ^ 8" by (simp only: unsigned_take_bit_eq take_bit_nat_less_exp)
      then show "c < 256" "unat (of_nat c :: byte) = c" by (simp_all add: unat_of_nat)
    qed
    have "ws_cinfo w2 = (ws_cinfo w)\<lparr>out := out (ws_cinfo w) @ stuff [of_nat c]\<rparr>"
      using c by (auto simp: w2_def w1_def emit_byte_s_def emit_byte_def stuff_def word_unat_eq_iff)
    then have o: "ws_cinfo (emit_whole buf n w) = (ws_cinfo w)\<lparr>out := out (ws_cinfo w) @ stuff (of_nat c # bytes)\<rparr>"
      unfolding run b(1) by (simp add: stuff_def)
    have "n \<le> 24" using "1.prems" by (simp add: clear_below_def)
    then have "held buf n = byte_bits (of_nat c) @ held (push_bit 8 buf) (n - 8)"
      using held_split [OF True] c(2) by (simp add: byte_bits_def c_def [symmetric])
    then have h: "held buf n = bytes_bits (of_nat c # bytes) @ pend (emit_whole buf n w)"
      unfolding run b(2) by (simp add: bytes_bits_def)
    have "c_last_dc_val (cur w2) = c_last_dc_val (cur w)" by (simp add: w2_def w1_def emit_byte_s_def)
    then show ?thesis using IH o h unfolding run by metis
  qed
qed


lemma emit_bits_wrote:
  assumes "emit_bits_s cde sz w = Inr w'" "enc_ok w" "sz \<le> 16"
  shows "sz \<noteq> 0" "wrote (nat_bits sz (unat cde)) w w'"
proof -
  show nz: "sz \<noteq> 0" using assms(1) by (simp add: emit_bits_s_def split: if_splits)
  let ?n = "sz + put_bits (cur w)" and ?p = "put_bits (cur w)"
  let ?buf = "push_bit (24 - ?n) (cde AND (push_bit sz 1 - 1)) OR put_buffer (cur w)"
  have n: "?n \<le> 24" "?p \<le> 7" using assms(2,3) by (simp_all add: enc_ok_def)
  have run: "w' = emit_whole ?buf ?n w" using assms(1) nz n by (simp add: emit_bits_s_def Let_def)
  have "(push_bit sz 1 - 1 :: 32 word) = mask sz" by (simp add: mask_eq_exp_minus_1 push_bit_eq_mult)
  then have at: "bit ?buf i = ((24 - ?n \<le> i \<and> i < 24 - ?p \<and> bit cde (i - (24 - ?n))) \<or> bit (put_buffer (cur w)) i)" if "i < 24" for i
    using that n by (auto simp: bit_or_iff bit_push_bit_iff bit_and_iff bit_mask_iff)
  have clear: "\<not> bit (put_buffer (cur w)) i" if "i < 24 - ?p" for i
    using assms(2) that by (simp add: enc_ok_def clear_below_def)
  have "clear_below ?buf ?n"
    using n at clear by (auto simp: clear_below_def)
  moreover have "held ?buf ?n = pend w @ nat_bits sz (unat cde)"
  proof (rule nth_equalityI)
    show "length (held ?buf ?n) = length (pend w @ nat_bits sz (unat cde))" using n by (simp add: pend_def)
  next
    fix i
    assume "i < length (held ?buf ?n)"
    then have i: "i < ?n" using n by simp
    show "held ?buf ?n ! i = (pend w @ nat_bits sz (unat cde)) ! i"
    proof (cases "i < ?p")
      case True
      then have "\<not> 23 - i < 24 - ?p" using n by simp
      then show ?thesis using True i n at [of "23 - i"] by (simp add: held_nth nth_append pend_def)
    next
      case False
      then have "23 - i < 24 - ?p" "23 - i - (24 - ?n) = sz - Suc (i - ?p)" "24 - ?n \<le> 23 - i" using i n by simp_all
      then have "held ?buf ?n ! i = bit cde (sz - Suc (i - ?p))"
        using i n at [of "23 - i"] clear [of "23 - i"] by (simp add: held_nth)
      moreover have "sz - Suc (i - ?p) < 32" using assms(3) by simp
      ultimately show ?thesis
        using False i n by (simp add: nth_append pend_def nat_bits_def rev_nth bit_unsigned_iff)
    qed
  qed
  ultimately show "wrote (nat_bits sz (unat cde)) w w'"
    using emit_whole_wrote [of ?buf ?n w] by (simp add: wrote_def sent_def run)
qed

text \<open>Emptying the buffer fills the last byte with ones.\<close>

lemma flush_bits_wrote:
  assumes "flush_bits_s w = Inr w'" "enc_ok w"
  shows "\<exists>bytes k. ws_cinfo w' = (ws_cinfo w)\<lparr>out := out (ws_cinfo w) @ stuff bytes\<rparr>
    \<and> bytes_bits bytes = pend w @ replicate k True \<and> k \<le> 7 \<and> pend w' = [] \<and> enc_ok w'
    \<and> c_last_dc_val (cur w') = c_last_dc_val (cur w)"
proof -
  obtain w1 where w1: "emit_bits_s 0x7F 7 w = Inr w1" "w' = w1\<lparr>cur := (cur w1)\<lparr>put_buffer := 0, put_bits := 0\<rparr>\<rparr>"
    using assms(1) by (auto simp: flush_bits_s_def bind_err_Inr)
  have "nat_bits 7 127 = replicate 7 True" by code_simp
  then have "nat_bits 7 (unat (0x7F :: 32 word)) = replicate 7 True" by simp
  then have w: "wrote (replicate 7 True) w w1" using emit_bits_wrote(2) [OF w1(1) assms(2)] by simp
  then obtain bytes where b: "ws_cinfo w1 = (ws_cinfo w)\<lparr>out := out (ws_cinfo w) @ stuff bytes\<rparr>"
    "pend w @ replicate 7 True = bytes_bits bytes @ pend w1" by (auto simp: wrote_def sent_def)
  have lp: "length (pend w1) \<le> 7" using w by (simp add: wrote_def sent_def enc_ok_def pend_def)
  have "bytes_bits bytes = take (length (pend w @ replicate 7 True) - length (pend w1)) (pend w @ replicate 7 True)"
    unfolding b(2) by simp
  also have "\<dots> = pend w @ replicate (7 - length (pend w1)) True" using lp by (simp add: min_def)
  finally have "bytes_bits bytes = pend w @ replicate (7 - length (pend w1)) True" .
  moreover have "pend w' = []" "enc_ok w'" by (simp_all add: w1(2) pend_def held_def enc_ok_def clear_below_def)
  moreover have "c_last_dc_val (cur w') = c_last_dc_val (cur w)" using w by (simp add: w1(2) wrote_def sent_def)
  ultimately show ?thesis using b(1) w1(2) by (intro exI [of _ bytes] exI [of _ "7 - length (pend w1)"]) simp
qed

end
