(* ===== verification/HuffBlocks.thy ===== *)
theory HuffBlocks
  imports HuffWriter JpegMarkers
begin

text \<open>
  The sequential Huffman decoder of \<open>jpeg-9a/jdhuff.c\<close>, \<open>decode_mcu\<close> and \<open>decode_mcu_sub\<close> with
  \<open>process_restart\<close> and \<open>finish_pass_huff\<close>, and its agreement with the encoder (\<open>HuffWriter\<close>):
  the code words of a block are the interface between the two.
\<close>

unbundle bit_operations_syntax

section \<open>The decoder\<close>

text \<open>\<open>membership\<close> is \<open>MCU_membership\<close> with \<open>blocks_in_MCU\<close> entries.\<close>

record huff_decoder =
  bitstate :: bitread
  last_dc_val :: "int list"
  restarts_to_go :: nat
  dc_cur_tbls :: "d_derived_tbl list"
  ac_cur_tbls :: "d_derived_tbl list"
  coef_limit :: "nat list"
  membership :: "nat list"

definition HUFF_EXTEND :: "nat \<Rightarrow> nat \<Rightarrow> int" where
  "HUFF_EXTEND x s = (if x \<le> bmask ! (s - 1) then int x - int (bmask ! s) else int x)"

text \<open>The cast to \<open>JCOEF\<close>, a short.\<close>

definition jcoef :: "int \<Rightarrow> int" where
  "jcoef v = (v + 2 ^ 15) mod 2 ^ 16 - 2 ^ 15"

text \<open>The extra bits of a coefficient; \<open>bmask\<close> has 16 entries.\<close>

definition get_extra :: "nat \<Rightarrow> bitread \<Rightarrow> (int \<times> bitread) result" where
  "get_extra s b =
     (if s = 0 then Inr (0, b)
      else if s > 15 then Inl FAULT
      else (let (r, b1) = get_bits s (check_bit_buffer s b) in Inr (HUFF_EXTEND r s, b1)))"

definition skip_extra :: "nat \<Rightarrow> bitread \<Rightarrow> bitread" where
  "skip_extra s b = (if s = 0 then b else drop_bits s (check_bit_buffer s b))"

text \<open>
  The loop that stores AC coefficients.  The first result is \<open>k\<close> where the loop ends, \<open>None\<close>
  for the jump to \<open>EndOfBlock\<close>.
\<close>

function decode_ac ::
  "nat list \<Rightarrow> nat \<Rightarrow> d_derived_tbl \<Rightarrow> nat \<Rightarrow> int list \<Rightarrow> bitread \<Rightarrow> (nat option \<times> int list \<times> bitread) result" where
  "decode_ac order limit htbl k block b =
     (if k < limit then
        (case HUFF_DECODE htbl b of
           Inl e \<Rightarrow> Inl e
         | Inr (rs, b1) \<Rightarrow>
             let r = drop_bit 4 rs; s = rs AND 15
             in if s \<noteq> 0 then
                  (case get_extra s b1 of
                     Inl e \<Rightarrow> Inl e
                   | Inr (v, b2) \<Rightarrow>
                       if k + r < length order \<and> order ! (k + r) < length block
                       then decode_ac order limit htbl (k + r + 1) (block[order ! (k + r) := jcoef v]) b2
                       else Inl FAULT)
                else if r \<noteq> 15 then Inr (None, block, b1)
                else decode_ac order limit htbl (k + 15 + 1) block b1)
      else Inr (Some k, block, b))"
  by pat_completeness auto
termination
  by (relation "measure (\<lambda>(order, limit, htbl, k, block, b). limit - k)") auto

text \<open>The loop that discards them.\<close>

function discard_ac :: "nat \<Rightarrow> d_derived_tbl \<Rightarrow> nat \<Rightarrow> bitread \<Rightarrow> bitread result" where
  "discard_ac lim htbl k b =
     (if k \<le> lim then
        (case HUFF_DECODE htbl b of
           Inl e \<Rightarrow> Inl e
         | Inr (rs, b1) \<Rightarrow>
             let r = drop_bit 4 rs; s = rs AND 15
             in if s \<noteq> 0 then discard_ac lim htbl (k + r + 1) (skip_extra s b1)
                else if r \<noteq> 15 then Inr b1
                else discard_ac lim htbl (k + 15 + 1) b1)
      else Inr b)"
  by pat_completeness auto
termination
  by (relation "measure (\<lambda>(lim, htbl, k, b). Suc lim - k)") auto

declare decode_ac.simps [simp del] discard_ac.simps [simp del]

text \<open>One block: the block, the component's last DC value and the bit reader after it.\<close>

definition decode_block ::
  "nat list \<Rightarrow> nat \<Rightarrow> d_derived_tbl \<Rightarrow> d_derived_tbl \<Rightarrow> nat \<Rightarrow> int list \<Rightarrow> int \<Rightarrow> bitread
    \<Rightarrow> (int list \<times> int \<times> bitread) result" where
  "decode_block order lim dctbl actbl limit block last_dc b =
     bind_err (HUFF_DECODE dctbl b) (\<lambda>(s, b1).
       if limit \<noteq> 0
       then bind_err (get_extra s b1) (\<lambda>(diff, b2).
              let dc = s32 (diff + last_dc)
              in bind_err (decode_ac order limit actbl 1 (block[0 := jcoef dc]) b2) (\<lambda>(k, blk, b3).
                   case k of
                     None \<Rightarrow> Inr (blk, dc, b3)
                   | Some k1 \<Rightarrow> bind_err (discard_ac lim actbl k1 b3) (\<lambda>b4. Inr (blk, dc, b4))))
       else bind_err (discard_ac lim actbl 1 (skip_extra s b1)) (\<lambda>b2. Inr (block, last_dc, b2)))"

fun decode_blocks ::
  "nat list \<Rightarrow> nat \<Rightarrow> huff_decoder \<Rightarrow> nat \<Rightarrow> int list list \<Rightarrow> int list \<Rightarrow> bitread
    \<Rightarrow> (int list list \<times> int list \<times> bitread) result" where
  "decode_blocks order lim e blkn [] dcs b = Inr ([], dcs, b)"
| "decode_blocks order lim e blkn (block # blocks) dcs b =
     (let ci = membership e ! blkn
      in bind_err (decode_block order lim (dc_cur_tbls e ! blkn) (ac_cur_tbls e ! blkn) (coef_limit e ! blkn)
             block (dcs ! ci) b) (\<lambda>(blk, dc, b1).
           bind_err (decode_blocks order lim e (blkn + 1) blocks (dcs[ci := dc]) b1) (\<lambda>(blks, dcs1, b2).
             Inr (blk # blks, dcs1, b2))))"

definition finish_pass_huff_d :: "huff_decoder \<Rightarrow> huff_decoder" where
  "finish_pass_huff_d e =
     (let b = bitstate e; d = br_cinfo b
      in e\<lparr>bitstate := b\<lparr>br_cinfo := d\<lparr>discarded_bytes := discarded_bytes d + bits_left b div 8\<rparr>, bits_left := 0\<rparr>\<rparr>)"

definition process_restart :: "huff_decoder \<Rightarrow> huff_decoder" where
  "process_restart e =
     (let e1 = finish_pass_huff_d e;
          d = read_restart_marker (br_cinfo (bitstate e1));
          n = length (d_cur_comp_info d);
          b = (bitstate e1)\<lparr>br_cinfo := d\<rparr>
      in e1\<lparr>bitstate := (if unread_marker d = 0 then b\<lparr>insufficient_data := False\<rparr> else b),
            last_dc_val := replicate n 0 @ drop n (last_dc_val e1),
            restarts_to_go := d_restart_interval d\<rparr>)"

text \<open>\<open>decode_mcu\<close> has 63 and the full order, \<open>decode_mcu_sub\<close> \<open>lim_Se\<close> and \<open>natural_order\<close>.\<close>

definition decode_mcu_with :: "nat list \<Rightarrow> nat \<Rightarrow> int list list \<Rightarrow> huff_decoder \<Rightarrow> (int list list \<times> huff_decoder) result" where
  "decode_mcu_with order lim MCU_data e =
     (let e1 = (if d_restart_interval (br_cinfo (bitstate e)) \<noteq> 0 \<and> restarts_to_go e = 0 then process_restart e else e);
          dec = (\<lambda>x. (x + 2 ^ 32 - 1) mod 2 ^ 32)
      in if insufficient_data (bitstate e1) then Inr (MCU_data, e1\<lparr>restarts_to_go := dec (restarts_to_go e1)\<rparr>)
         else bind_err (decode_blocks order lim e1 0 MCU_data (last_dc_val e1) (bitstate e1)) (\<lambda>(blocks, dcs, b).
           Inr (blocks, e1\<lparr>bitstate := b, last_dc_val := dcs, restarts_to_go := dec (restarts_to_go e1)\<rparr>)))"

definition decode_mcu :: "int list list \<Rightarrow> huff_decoder \<Rightarrow> (int list list \<times> huff_decoder) result" where
  "decode_mcu = decode_mcu_with jpeg_natural_order (DCTSIZE2 - 1)"

definition decode_mcu_sub :: "nat \<Rightarrow> nat list \<Rightarrow> int list list \<Rightarrow> huff_decoder \<Rightarrow> (int list list \<times> huff_decoder) result" where
  "decode_mcu_sub lim order = decode_mcu_with order lim"

section \<open>Code words\<close>

text \<open>A symbol, the number of extra bits and their value.\<close>

type_synonym code_word = "nat \<times> nat \<times> nat"

definition word_bits :: "c_derived_tbl \<Rightarrow> code_word \<Rightarrow> bool list" where
  "word_bits t = (\<lambda>(s, n, v). nat_bits (ehufsi t ! s) (ehufco t ! s) @ nat_bits n v)"

definition words_bits :: "c_derived_tbl \<Rightarrow> code_word list \<Rightarrow> bool list" where
  "words_bits t ws = concat (map (word_bits t) ws)"

definition low_bits :: "nat \<Rightarrow> int \<Rightarrow> nat" where
  "low_bits n v = nat ((if v < 0 then v - 1 else v) mod 2 ^ n)"

definition coef_word :: "nat \<Rightarrow> int \<Rightarrow> code_word" where
  "coef_word r v = (let n = bit_count (nat \<bar>v\<bar>) in (16 * r + n, n, low_bits n v))"

fun ac_words :: "nat \<Rightarrow> int list \<Rightarrow> code_word list" where
  "ac_words r [] = (if r > 0 then [(0, 0, 0)] else [])"
| "ac_words r (v # vs) =
     (if v = 0 then ac_words (r + 1) vs
      else replicate (r div 16) (0xF0, 0, 0) @ coef_word (r mod 16) v # ac_words 0 vs)"

text \<open>The symbols of the words have codes, from a table the library derives.\<close>

definition codable :: "c_derived_tbl \<Rightarrow> code_word list \<Rightarrow> bool" where
  "codable t ws \<longleftrightarrow> (\<forall>(s, n, v)\<in>set ws. s < 256 \<and> ehufsi t ! s \<noteq> 0)"

definition c_valid :: "c_derived_tbl \<Rightarrow> huff_tbl \<Rightarrow> bool" where
  "c_valid t htbl \<longleftrightarrow> length (huffval htbl) = 256 \<and> (\<exists>isDC. c_table isDC htbl = Inr t)"

lemma c_valid_code:
  assumes "c_valid t htbl" "s < 256" "ehufsi t ! s \<noteq> 0"
  shows "has_code htbl s (ehufsi t ! s) (ehufco t ! s)" "ehufsi t ! s \<le> 16" "ehufco t ! s < 2 ^ (ehufsi t ! s)"
proof -
  obtain isDC where c: "c_table isDC htbl = Inr t" "length (huffval htbl) = 256" using assms(1) by (auto simp: c_valid_def)
  show h: "has_code htbl s (ehufsi t ! s) (ehufco t ! s)" by (rule c_table_ok(3) [OF c assms(2,3)])
  show "ehufsi t ! s \<le> 16" "ehufco t ! s < 2 ^ (ehufsi t ! s)"
    using has_code_bounds [OF h c_table_ok(1) [OF c]] by simp_all
qed

lemma words_bits_simps [simp]:
  "words_bits t [] = []" "words_bits t (x # xs) = word_bits t x @ words_bits t xs"
  "words_bits t (xs @ ys) = words_bits t xs @ words_bits t ys"
  by (simp_all add: words_bits_def)

lemma codable_simps [simp]:
  "codable t []" "codable t ((s, n, v) # ws) \<longleftrightarrow> s < 256 \<and> ehufsi t ! s \<noteq> 0 \<and> codable t ws"
  "codable t (xs @ ys) \<longleftrightarrow> codable t xs \<and> codable t ys"
  by (auto simp: codable_def)

section \<open>The encoder writes the code words\<close>

lemma emit_symbol_wrote:
  assumes "emit_symbol t s w = Inr w'" "enc_ok w" "c_valid t htbl" "s < 256"
  shows "ehufsi t ! s \<noteq> 0" "wrote (nat_bits (ehufsi t ! s) (ehufco t ! s)) w w'"
proof -
  have e: "emit_bits_s (of_nat (ehufco t ! s)) (ehufsi t ! s) w = Inr w'" using assms(1) by (simp add: emit_symbol_def)
  show nz: "ehufsi t ! s \<noteq> 0" using e by (simp add: emit_bits_s_def split: if_splits)
  note c = c_valid_code [OF assms(3,4) nz]
  have "(2 :: nat) ^ (ehufsi t ! s) \<le> 2 ^ 16" using c(2) by (intro power_increasing) simp_all
  then have "ehufco t ! s < 2 ^ 32" using c(3) by simp
  then have "unat (of_nat (ehufco t ! s) :: 32 word) = ehufco t ! s" by (simp add: unat_of_nat)
  then show "wrote (nat_bits (ehufsi t ! s) (ehufco t ! s)) w w'" using emit_bits_wrote(2) [OF e assms(2) c(2)] by simp
qed

lemma low_bits_word: "n \<le> 16 \<Longrightarrow> nat_bits n (unat (word_of_int (if v < 0 then v - 1 else v) :: 32 word)) = nat_bits n (low_bits n v)"
proof -
  assume n: "n \<le> 16"
  define t where "t = (if v < 0 then v - 1 else v)"
  have "bit (unat (word_of_int t :: 32 word)) i = bit (nat (t mod 2 ^ n)) i" if "i < n" for i
  proof -
    have "bit (nat (take_bit n t)) i = bit (take_bit n t) i" by (simp add: bit_nat_iff)
    also have "\<dots> = bit t i" using that by (simp add: bit_take_bit_iff)
    finally show ?thesis using that n by (simp add: take_bit_eq_mod bit_unsigned_iff bit_word_of_int_iff)
  qed
  then show ?thesis by (simp add: nat_bits_def low_bits_def t_def [symmetric])
qed


lemma bit_count_bounds: "0 < t \<Longrightarrow> 1 \<le> bit_count t \<and> 2 ^ (bit_count t - 1) \<le> t \<and> t < 2 ^ bit_count t"
proof (induction t rule: bit_count.induct)
  case (1 t)
  have step: "bit_count t = Suc (bit_count (t div 2))" using "1.prems" by (simp add: bit_count.simps [of t] drop_bit_eq_div)
  show ?case
  proof (cases "t div 2 = 0")
    case True
    then have "t = 1" using "1.prems" by (simp add: div_eq_0_iff)
    then show ?thesis by (simp add: bit_count.simps drop_bit_eq_div)
  next
    case False
    then have IH: "1 \<le> bit_count (t div 2)" "2 ^ (bit_count (t div 2) - 1) \<le> t div 2" "t div 2 < 2 ^ bit_count (t div 2)"
      using "1.IH" "1.prems" by (simp_all add: drop_bit_eq_div)
    have "(2 :: nat) ^ bit_count (t div 2) = 2 * 2 ^ (bit_count (t div 2) - 1)" using IH(1) by (cases "bit_count (t div 2)") simp_all
    moreover have "2 * (t div 2) \<le> t" "t < 2 * (t div 2) + 2" by simp_all
    ultimately have "2 ^ bit_count (t div 2) \<le> t" "t < 2 * 2 ^ bit_count (t div 2)" using IH(2,3) by linarith+
    then show ?thesis unfolding step by simp
  qed
qed

lemma bit_count_0 [simp]: "bit_count 0 = 0"
  by (simp add: bit_count.simps)

lemma bit_count_0_iff: "bit_count t = 0 \<longleftrightarrow> t = 0"
  using bit_count_bounds [of t] by (cases "t = 0") auto

lemma bit_count_ac: "0 < t \<Longrightarrow> 1 + bit_count (drop_bit 1 t) = bit_count t"
  by (simp add: bit_count.simps [of t])

lemma abs_parts: "(if v < 0 then (- v, v - 1) else (v, v)) = (\<bar>v\<bar>, if v < 0 then v - 1 else v)" for v :: int
  by simp

lemma emit_extra_wrote:
  assumes "emit_bits_s (word_of_int (if v < 0 then v - 1 else v)) n w = Inr w'" "enc_ok w" "n \<le> 16"
  shows "wrote (nat_bits n (low_bits n v)) w w'"
  using emit_bits_wrote(2) [OF assms] low_bits_word [OF assms(3), of v] by simp

lemma encode_dc_wrote:
  assumes "encode_dc t diff w = Inr w'" "enc_ok w" "c_valid t htbl"
  shows "codable t [coef_word 0 diff] \<and> wrote (word_bits t (coef_word 0 diff)) w w' \<and> bit_count (nat \<bar>diff\<bar>) \<le> 11"
proof -
  let ?n = "bit_count (nat \<bar>diff\<bar>)"
  have n: "?n \<le> 11" and run: "bind_err (emit_symbol t ?n w) (\<lambda>w1.
      if ?n \<noteq> 0 then emit_bits_s (word_of_int (if diff < 0 then diff - 1 else diff)) ?n w1 else Inr w1) = Inr w'"
    using assms(1) unfolding encode_dc_def abs_parts Let_def prod.case by (simp_all split: if_splits)
  obtain w1 where w1: "emit_symbol t ?n w = Inr w1"
    "(if ?n \<noteq> 0 then emit_bits_s (word_of_int (if diff < 0 then diff - 1 else diff)) ?n w1 else Inr w1) = Inr w'"
    using run by (auto simp: bind_err_Inr)
  have n256: "?n < 256" using n by simp
  note sy = emit_symbol_wrote [OF w1(1) assms(2,3) n256]
  have ok: "enc_ok w1" using sy(2) by (simp add: wrote_def sent_def)
  have "wrote (nat_bits ?n (low_bits ?n diff)) w1 w'"
  proof (cases "?n = 0")
    case True
    then have "w' = w1" using w1(2) by simp
    then show ?thesis using wrote_refl [OF ok] True by (simp add: nat_bits_def)
  next
    case False
    then show ?thesis using emit_extra_wrote [OF _ ok, of diff ?n w'] w1(2) n by simp
  qed
  from wrote_trans [OF sy(2) this] have "wrote (word_bits t (coef_word 0 diff)) w w'"
    by (simp add: word_bits_def coef_word_def Let_def)
  then show ?thesis using sy(1) n n256 by (simp add: coef_word_def Let_def)
qed

lemma emit_runs_wrote:
  assumes "emit_runs t r w = Inr (r', w')" "enc_ok w" "c_valid t htbl"
  shows "r' = r mod 16 \<and> codable t (replicate (r div 16) (0xF0, 0, 0)) \<and> wrote (words_bits t (replicate (r div 16) (0xF0, 0, 0))) w w'"
  using assms(1,2)
proof (induction r arbitrary: w rule: less_induct)
  case (less r)
  show ?case
  proof (cases "r > 15")
    case False
    then show ?thesis using less.prems wrote_refl by (simp add: emit_runs.simps [of t r w])
  next
    case True
    then obtain w1 where w1: "emit_symbol t 0xF0 w = Inr w1" "emit_runs t (r - 16) w1 = Inr (r', w')"
      using less.prems(1) by (auto simp: emit_runs.simps [of t r w] bind_err_Inr)
    note sy = emit_symbol_wrote [OF w1(1) less.prems(2) assms(3)]
    have ok: "enc_ok w1" using sy(2) by (simp add: wrote_def sent_def)
    have r: "r div 16 = Suc ((r - 16) div 16)" "r mod 16 = (r - 16) mod 16"
      using True by (simp_all add: le_div_geq le_mod_geq)
    have "r - 16 < r" using True by simp
    note IH = less.IH [OF this w1(2) ok]
    have "words_bits t (replicate (r div 16) (0xF0, 0, 0))
        = nat_bits (ehufsi t ! 0xF0) (ehufco t ! 0xF0) @ words_bits t (replicate ((r - 16) div 16) (0xF0, 0, 0))"
      by (simp add: r word_bits_def) (simp add: nat_bits_def)
    then show ?thesis
      using IH wrote_trans [OF sy(2)] sy(1) by (simp add: r)
  qed
qed

lemma encode_coef_wrote:
  assumes "encode_coef t r v w = Inr w'" "enc_ok w" "c_valid t htbl" "v \<noteq> 0"
  defines "ws \<equiv> replicate (r div 16) (0xF0, 0, 0) @ [coef_word (r mod 16) v]"
  shows "codable t ws \<and> wrote (words_bits t ws) w w' \<and> bit_count (nat \<bar>v\<bar>) \<le> 10"
proof -
  let ?n = "bit_count (nat \<bar>v\<bar>)"
  obtain r1 w1 where w1: "emit_runs t r w = Inr (r1, w1)" "(let (temp, temp2) = (if v < 0 then (- v, v - 1) else (v, v));
           nbits = 1 + bit_count (drop_bit 1 (nat temp))
       in if nbits > 10 then Inl JERR_BAD_DCT_COEF
          else bind_err (emit_symbol t (push_bit 4 r1 + nbits) w1) (emit_bits_s (word_of_int temp2) nbits)) = Inr w'"
    using assms(1) by (auto simp: encode_coef_def bind_err_Inr)
  have r1: "r1 = r mod 16" "codable t (replicate (r div 16) (0xF0, 0, 0))"
    "wrote (words_bits t (replicate (r div 16) (0xF0, 0, 0))) w w1"
    using emit_runs_wrote [OF w1(1) assms(2,3)] by simp_all
  have "0 < nat \<bar>v\<bar>" using assms(4) by simp
  then have n: "1 + bit_count (drop_bit 1 (nat \<bar>v\<bar>)) = ?n" by (rule bit_count_ac)
  have small: "?n \<le> 10" and run: "bind_err (emit_symbol t (push_bit 4 r1 + ?n) w1)
      (emit_bits_s (word_of_int (if v < 0 then v - 1 else v)) ?n) = Inr w'"
    using w1(2) unfolding abs_parts Let_def prod.case n by (simp_all split: if_splits)
  have s: "push_bit 4 r1 + ?n = 16 * (r mod 16) + ?n" by (simp add: r1(1) push_bit_eq_mult)
  have s256: "push_bit 4 r1 + ?n < 256" unfolding s using small mod_less_divisor [of 16 r] by linarith
  obtain w2 where w2: "emit_symbol t (push_bit 4 r1 + ?n) w1 = Inr w2"
    "emit_bits_s (word_of_int (if v < 0 then v - 1 else v)) ?n w2 = Inr w'" using run by (auto simp: bind_err_Inr)
  have ok1: "enc_ok w1" using r1(3) by (simp add: wrote_def sent_def)
  note sy = emit_symbol_wrote [OF w2(1) ok1 assms(3) s256]
  have ok2: "enc_ok w2" using sy(2) by (simp add: wrote_def sent_def)
  have ex: "wrote (nat_bits ?n (low_bits ?n v)) w2 w'" using emit_extra_wrote [OF w2(2) ok2] small by simp
  have cw: "coef_word (r mod 16) v = (push_bit 4 r1 + ?n, ?n, low_bits ?n v)" by (simp add: coef_word_def s Let_def)
  have "wrote (words_bits t ws) w w'"
    using wrote_trans [OF r1(3) wrote_trans [OF sy(2) ex]] unfolding ws_def cw by (simp add: word_bits_def)
  moreover have "codable t ws" using r1(2) sy(1) s256 unfolding ws_def cw by simp
  ultimately show ?thesis using small by simp
qed

lemma encode_ac_wrote:
  assumes "encode_ac t vs r w = Inr w'" "enc_ok w" "c_valid t htbl"
  shows "codable t (ac_words r vs) \<and> wrote (words_bits t (ac_words r vs)) w w' \<and> (\<forall>v\<in>set vs. bit_count (nat \<bar>v\<bar>) \<le> 10)"
  using assms(1,2)
proof (induction vs arbitrary: r w)
  case Nil
  show ?case
  proof (cases "r > 0")
    case True
    then have "emit_symbol t 0 w = Inr w'" using Nil by simp
    note sy = emit_symbol_wrote [OF this Nil(2) assms(3)]
    have "nat_bits 0 0 = []" by (simp add: nat_bits_def)
    then show ?thesis using True sy by (simp add: word_bits_def)
  next
    case False
    then show ?thesis using Nil wrote_refl by simp
  qed
next
  case (Cons v vs)
  show ?case
  proof (cases "v = 0")
    case True
    then show ?thesis using Cons.IH [of "r + 1" w] Cons.prems by simp
  next
    case False
    then obtain w1 where w1: "encode_coef t r v w = Inr w1" "encode_ac t vs 0 w1 = Inr w'"
      using Cons.prems(1) by (auto simp: bind_err_Inr)
    note c = encode_coef_wrote [OF w1(1) Cons.prems(2) assms(3) False]
    have ok: "enc_ok w1" using c by (simp add: wrote_def sent_def)
    note IH = Cons.IH [OF w1(2) ok]
    let ?zs = "replicate (r div 16) (0xF0 :: nat, 0 :: nat, 0 :: nat) @ [coef_word (r mod 16) v]"
    have aw: "ac_words r (v # vs) = ?zs @ ac_words 0 vs" using False by simp
    have "wrote (words_bits t ?zs @ words_bits t (ac_words 0 vs)) w w'" using wrote_trans c IH by blast
    moreover have "codable t (?zs @ ac_words 0 vs)" unfolding codable_simps(3) using c IH by simp
    ultimately show ?thesis unfolding aw words_bits_simps(3) using c IH by simp
  qed
qed

lemma encode_one_block_wrote:
  assumes "encode_one_block block last_dc t u w = Inr w'" "enc_ok w" "c_valid t ht" "c_valid u hu"
  defines "vs \<equiv> map (\<lambda>k. block ! (natural_order (ws_cinfo w) ! k)) [1..<lim_Se (ws_cinfo w) + 1]"
  shows "codable t [coef_word 0 (block ! 0 - last_dc)] \<and> codable u (ac_words 0 vs)
    \<and> wrote (word_bits t (coef_word 0 (block ! 0 - last_dc)) @ words_bits u (ac_words 0 vs)) w w'
    \<and> bit_count (nat \<bar>block ! 0 - last_dc\<bar>) \<le> 11 \<and> (\<forall>v\<in>set vs. bit_count (nat \<bar>v\<bar>) \<le> 10)"
proof -
  obtain w1 where w1: "encode_dc t (block ! 0 - last_dc) w = Inr w1" "encode_ac u vs 0 w1 = Inr w'"
    using assms(1) unfolding encode_one_block_def vs_def by (auto simp: bind_err_Inr)
  note d = encode_dc_wrote [OF w1(1) assms(2,3)]
  have ok: "enc_ok w1" using d by (simp add: wrote_def sent_def)
  note a = encode_ac_wrote [OF w1(2) ok assms(4)]
  show ?thesis using d a wrote_trans by blast
qed


section \<open>The decoder reads the code words\<close>

text \<open>The decoder's table has the counts of the encoder's and its symbols as far as the counts go.\<close>

definition same_code :: "huff_tbl \<Rightarrow> huff_tbl \<Rightarrow> bool" where
  "same_code htbl htbl' \<longleftrightarrow> bits htbl' = bits htbl
    \<and> (\<forall>p < start (bits htbl) 17. huffval htbl' ! p = huffval htbl ! p)"

definition tables_match :: "c_derived_tbl \<Rightarrow> d_derived_tbl \<Rightarrow> bool" where
  "tables_match t dtbl \<longleftrightarrow> d_valid dtbl \<and> (\<exists>htbl. c_valid t htbl \<and> same_code htbl (pub dtbl))"

text \<open>\<open>b'\<close> is \<open>b\<close> after just the bits \<open>bs\<close>, which were there.\<close>

definition consumed :: "bool list \<Rightarrow> bitread \<Rightarrow> bitread \<Rightarrow> bool" where
  "consumed bs b b' \<longleftrightarrow> bitread_ok b' \<and> same_data (br_cinfo b) (br_cinfo b') \<and> avail b = bs @ avail b' \<and> insufficient_data b' = insufficient_data b"

lemma consumed_refl: "bitread_ok b \<Longrightarrow> consumed [] b b"
  by (simp add: consumed_def)

lemma consumed_trans: "consumed bs b b1 \<Longrightarrow> consumed cs b1 b2 \<Longrightarrow> consumed (bs @ cs) b b2"
  using same_data_trans by (auto simp: consumed_def)

lemma takes_consumed:
  assumes "takes (length bs) b b'" "avail b = bs @ rest"
  shows "consumed bs b b'" "avail b' = rest"
  using assms by (simp_all add: takes_def consumed_def)

lemma has_code_same: "same_code htbl htbl' \<Longrightarrow> has_code htbl s l c \<Longrightarrow> has_code htbl' s l c"
  using all_nth(3) by (auto simp: same_code_def has_code_def)

lemma next_symbol_code:
  assumes "has_code htbl s l c" "code_tree (bits htbl)" "bs = nat_bits l c @ rest"
  shows "next_symbol htbl bs = (s, l)"
proof -
  note b = has_code_bounds [OF assms(1,2)]
  have c: "pre bs l = c" using b(3) pre_append [of l c rest] by (simp add: assms(3))
  have "no_code htbl bs l"
    unfolding no_code_def
  proof (intro allI impI)
    fix k
    assume k: "1 \<le> k" "k < l"
    have "(first (bits htbl) k + cnt (bits htbl) k) * 2 ^ (l - k) \<le> c" using first_step [OF k(2), of "bits htbl"] b(4) by simp
    then have "first (bits htbl) k + cnt (bits htbl) k \<le> c div 2 ^ (l - k)" by (simp add: less_eq_div_iff_mult_less_eq)
    then show "first (bits htbl) k + cnt (bits htbl) k \<le> pre bs k" using pre_div [of k l bs] k c by simp
  qed
  then have "next_symbol htbl bs = (huffval htbl ! (start (bits htbl) l + (c - first (bits htbl) l)), l)"
    using next_symbol_at [of htbl bs l] b c by simp
  moreover obtain i where "c = first (bits htbl) l + i" "huffval htbl ! (start (bits htbl) l + i) = s"
    using assms(1) by (auto simp: has_code_def)
  ultimately show ?thesis by simp
qed

lemma decode_symbol:
  assumes "tables_match t dtbl" "s < 256" "ehufsi t ! s \<noteq> 0" "bitread_ok b"
    "avail b = nat_bits (ehufsi t ! s) (ehufco t ! s) @ rest"
  shows "\<exists>b'. HUFF_DECODE dtbl b = Inr (s, b') \<and> consumed (nat_bits (ehufsi t ! s) (ehufco t ! s)) b b' \<and> avail b' = rest"
proof -
  obtain htbl where h: "d_valid dtbl" "c_valid t htbl" "same_code htbl (pub dtbl)"
    using assms(1) by (auto simp: tables_match_def)
  have c: "has_code (pub dtbl) s (ehufsi t ! s) (ehufco t ! s)"
    using has_code_same [OF h(3) c_valid_code(1) [OF h(2) assms(2,3)]] .
  have n: "next_symbol (pub dtbl) (avail b) = (s, ehufsi t ! s)"
    by (rule next_symbol_code [OF c d_valid_tables(1) [OF h(1)] assms(5)])
  obtain b' where b': "HUFF_DECODE dtbl b = Inr (s, b')" "takes (ehufsi t ! s) b b'"
    using HUFF_DECODE_next [OF h(1) assms(4)] n by auto
  have "takes (length (nat_bits (ehufsi t ! s) (ehufco t ! s))) b b'" using b'(2) by simp
  then show ?thesis using b'(1) takes_consumed [OF _ assms(5)] by blast
qed

lemma low_bits_extend:
  assumes "v \<noteq> 0" "n = bit_count (nat \<bar>v\<bar>)" "n \<le> 15"
  shows "low_bits n v < 2 ^ n" "HUFF_EXTEND (low_bits n v) n = v"
proof -
  have b: "1 \<le> n" "2 ^ (n - 1) \<le> nat \<bar>v\<bar>" "nat \<bar>v\<bar> < 2 ^ n"
    using bit_count_bounds [of "nat \<bar>v\<bar>"] assms(1,2) by auto
  then obtain m where m: "n = Suc m" by (cases n) simp_all
  have lo: "(2 :: int) ^ m \<le> \<bar>v\<bar>" "\<bar>v\<bar> < 2 * 2 ^ m"
    using b(2,3) unfolding m by (simp_all add: le_nat_iff nat_less_iff)
  have bm: "int (bmask ! n) = 2 * 2 ^ m - 1" "int (bmask ! m) = 2 ^ m - 1"
    using bmask_mask [of n] bmask_mask [of m] assms(3) unfolding m by (simp_all add: of_nat_diff)
  show "low_bits n v < 2 ^ n" by (simp add: low_bits_def nat_less_iff)
  show "HUFF_EXTEND (low_bits n v) n = v"
  proof (cases "v < 0")
    case True
    have "(v - 1) mod (2 * 2 ^ m) = v - 1 + 2 * 2 ^ m"
      by (rule int_mod_pos_eq [of _ _ "-1"]) (use True lo in auto)
    then have "int (low_bits n v) = v - 1 + 2 * 2 ^ m" using True lo by (simp add: low_bits_def m)
    moreover then have "low_bits n v \<le> bmask ! m" using True lo bm by linarith
    ultimately show ?thesis using bm(1) by (simp add: HUFF_EXTEND_def m)
  next
    case False
    then have "int (low_bits n v) = v" using lo by (simp add: low_bits_def m)
    moreover then have "\<not> low_bits n v \<le> bmask ! m" using False lo bm assms(1) by linarith
    ultimately show ?thesis by (simp add: HUFF_EXTEND_def m)
  qed
qed

lemma get_extra_word:
  assumes "n = bit_count (nat \<bar>v\<bar>)" "n \<le> 15" "bitread_ok b" "avail b = nat_bits n (low_bits n v) @ rest"
  shows "\<exists>b'. get_extra n b = Inr (v, b') \<and> consumed (nat_bits n (low_bits n v)) b b' \<and> avail b' = rest"
proof (cases "v = 0")
  case True
  then have "n = 0" using assms(1) by simp
  then show ?thesis using True consumed_refl [OF assms(3)] assms(4) by (simp add: get_extra_def nat_bits_def)
next
  case False
  note e = low_bits_extend [OF False assms(1,2)]
  have n: "n \<noteq> 0" using False assms(1) by (simp add: bit_count_0_iff)
  obtain x b' where g: "get_bits n (check_bit_buffer n b) = (x, b')" by (meson surj_pair)
  note cg = check_get [OF assms(3,2) g]
  have "x = low_bits n v" using cg(2) pre_append [of n "low_bits n v" rest] e(1) by (simp add: assms(4))
  then have "get_extra n b = Inr (v, b')" using n assms(2) g e(2) by (simp add: get_extra_def)
  moreover have "takes (length (nat_bits n (low_bits n v))) b b'" using cg(1) by simp
  ultimately show ?thesis using takes_consumed [OF _ assms(4)] by blast
qed


text \<open>The coefficients at the positions from \<open>pos\<close> on; zeros are skipped.\<close>

fun put_coefs :: "nat list \<Rightarrow> nat \<Rightarrow> int list \<Rightarrow> int list \<Rightarrow> int list" where
  "put_coefs order pos [] block = block"
| "put_coefs order pos (v # vs) block = put_coefs order (pos + 1) vs (if v = 0 then block else block[order ! pos := v])"

lemma length_put_coefs [simp]: "length (put_coefs order pos vs block) = length block"
  by (induction vs arbitrary: pos block) simp_all

lemma jcoef_id: "- (2 ^ 15) \<le> v \<Longrightarrow> v < 2 ^ 15 \<Longrightarrow> jcoef v = v"
  by (simp add: jcoef_def)

lemma small_coef:
  assumes "bit_count (nat \<bar>v\<bar>) \<le> 10"
  shows "jcoef v = v"
proof (cases "v = 0")
  case False
  then have "nat \<bar>v\<bar> < 2 ^ bit_count (nat \<bar>v\<bar>)" using bit_count_bounds [of "nat \<bar>v\<bar>"] by simp
  also have "\<dots> \<le> 2 ^ 10" by (rule power_increasing) (use assms in simp_all)
  finally show ?thesis by (intro jcoef_id) (simp_all add: nat_less_iff)
qed (simp add: jcoef_def)

lemma word_symbol: "n < 16 \<Longrightarrow> drop_bit 4 (16 * r + n) = r \<and> (16 * r + n) AND 15 = n" for n :: nat
  by (simp add: drop_bit_eq_div AND_15)

lemma decode_runs:
  assumes "tables_match t dtbl" "codable t (replicate q (0xF0, 0, 0))" "bitread_ok b"
    "avail b = words_bits t (replicate q (0xF0, 0, 0)) @ rest" "k + 16 * q \<le> limit"
  shows "\<exists>b'. decode_ac order limit dtbl k blk b = decode_ac order limit dtbl (k + 16 * q) blk b'
    \<and> consumed (words_bits t (replicate q (0xF0, 0, 0))) b b' \<and> avail b' = rest"
  using assms(2-5)
proof (induction q arbitrary: k b)
  case 0
  then show ?case using consumed_refl by auto
next
  case (Suc q)
  let ?w = "nat_bits (ehufsi t ! 0xF0) (ehufco t ! 0xF0)"
  have c: "ehufsi t ! 0xF0 \<noteq> 0" "codable t (replicate q (0xF0, 0, 0))" using Suc.prems(1) by simp_all
  have wb: "words_bits t (replicate (Suc q) (0xF0, 0, 0)) = ?w @ words_bits t (replicate q (0xF0, 0, 0))"
    by (simp add: word_bits_def) (simp add: nat_bits_def)
  obtain b1 where b1: "HUFF_DECODE dtbl b = Inr (0xF0, b1)" "consumed ?w b b1"
    "avail b1 = words_bits t (replicate q (0xF0, 0, 0)) @ rest"
    using decode_symbol [OF assms(1) _ c(1) Suc.prems(2), of "words_bits t (replicate q (0xF0, 0, 0)) @ rest"] Suc.prems(3)
    unfolding wb by auto
  have ok: "bitread_ok b1" using b1(2) by (simp add: consumed_def)
  obtain b2 where b2: "decode_ac order limit dtbl (k + 16) blk b1 = decode_ac order limit dtbl (k + 16 + 16 * q) blk b2"
    "consumed (words_bits t (replicate q (0xF0, 0, 0))) b1 b2" "avail b2 = rest"
    using Suc.IH [OF c(2) ok b1(3), of "k + 16"] Suc.prems(4) by auto
  have "decode_ac order limit dtbl k blk b = decode_ac order limit dtbl (k + 16) blk b1"
    using b1(1) Suc.prems(4) word_symbol [of 0 15] by (simp add: decode_ac.simps [of _ _ _ k] Let_def add.commute)
  then have "decode_ac order limit dtbl k blk b = decode_ac order limit dtbl (k + 16 * Suc q) blk b2"
    using b2(1) by (simp add: algebra_simps)
  moreover have "consumed (words_bits t (replicate (Suc q) (0xF0, 0, 0))) b b2"
    unfolding wb by (rule consumed_trans [OF b1(2) b2(2)])
  ultimately show ?case using b2(3) by blast
qed

lemma decode_coef:
  assumes "tables_match t dtbl" "codable t [coef_word r v]" "bitread_ok b" "avail b = word_bits t (coef_word r v) @ rest"
    "v \<noteq> 0" "r < 16" "bit_count (nat \<bar>v\<bar>) \<le> 10" "k + r < limit" "limit \<le> length order" "order ! (k + r) < length blk"
  shows "\<exists>b'. decode_ac order limit dtbl k blk b = decode_ac order limit dtbl (k + r + 1) (blk[order ! (k + r) := v]) b'
    \<and> consumed (word_bits t (coef_word r v)) b b' \<and> avail b' = rest"
proof -
  let ?n = "bit_count (nat \<bar>v\<bar>)"
  let ?s = "16 * r + ?n"
  have cw: "coef_word r v = (?s, ?n, low_bits ?n v)" by (simp add: coef_word_def Let_def)
  have s: "?s < 256" "ehufsi t ! ?s \<noteq> 0" using assms(2) unfolding cw by simp_all
  let ?w = "nat_bits (ehufsi t ! ?s) (ehufco t ! ?s)"
  have wb: "word_bits t (coef_word r v) = ?w @ nat_bits ?n (low_bits ?n v)" unfolding cw by (simp add: word_bits_def)
  obtain b1 where b1: "HUFF_DECODE dtbl b = Inr (?s, b1)" "consumed ?w b b1" "avail b1 = nat_bits ?n (low_bits ?n v) @ rest"
    using decode_symbol [OF assms(1) s assms(3), of "nat_bits ?n (low_bits ?n v) @ rest"] assms(4) unfolding wb by auto
  have ok: "bitread_ok b1" using b1(2) by (simp add: consumed_def)
  obtain b2 where b2: "get_extra ?n b1 = Inr (v, b2)" "consumed (nat_bits ?n (low_bits ?n v)) b1 b2" "avail b2 = rest"
    using get_extra_word [OF refl _ ok b1(3)] assms(7) by auto
  have n: "?n \<noteq> 0" using assms(5) by (simp add: bit_count_0_iff)
  have sy: "drop_bit 4 ?s = r" "?s AND 15 = ?n" using word_symbol [of ?n r] assms(7) by simp_all
  have "decode_ac order limit dtbl k blk b = decode_ac order limit dtbl (k + r + 1) (blk[order ! (k + r) := jcoef v]) b2"
    unfolding decode_ac.simps [of order limit dtbl k blk b] b1(1) sum.case prod.case sy Let_def b2(1)
    using n assms(8-10) by simp
  then show ?thesis
    using small_coef [OF assms(7)] consumed_trans [OF b1(2) b2(2)] b2(3) unfolding wb by auto
qed

lemma decode_ac_words:
  assumes "tables_match t dtbl" "codable t (ac_words r vs)" "bitread_ok b" "avail b = words_bits t (ac_words r vs) @ rest"
    "\<forall>v\<in>set vs. bit_count (nat \<bar>v\<bar>) \<le> 10" "k + r + length vs = limit" "limit \<le> length order"
    "\<forall>i<limit. order ! i < length blk"
  shows "\<exists>ko b'. decode_ac order limit dtbl k blk b = Inr (ko, put_coefs order (k + r) vs blk, b')
    \<and> (ko = None \<or> ko = Some limit) \<and> consumed (words_bits t (ac_words r vs)) b b' \<and> avail b' = rest"
  using assms(2-6,8)
proof (induction vs arbitrary: r k blk b)
  case Nil
  show ?case
  proof (cases "r > 0")
    case False
    then show ?thesis using Nil consumed_refl by (simp add: decode_ac.simps [of order limit dtbl limit])
  next
    case True
    let ?w = "nat_bits (ehufsi t ! 0) (ehufco t ! 0)"
    have s: "ehufsi t ! 0 \<noteq> 0" using True Nil(1) by simp
    have wb: "words_bits t (ac_words r []) = ?w" using True by (simp add: word_bits_def) (simp add: nat_bits_def)
    obtain b1 where b1: "HUFF_DECODE dtbl b = Inr (0, b1)" "consumed ?w b b1" "avail b1 = rest"
      using decode_symbol [OF assms(1) _ s Nil(2), of rest] Nil(3) unfolding wb by auto
    have "decode_ac order limit dtbl k blk b = Inr (None, blk, b1)"
      using b1(1) True Nil(5) by (simp add: decode_ac.simps [of _ _ _ k] Let_def)
    then show ?thesis using b1(2,3) unfolding wb by simp
  qed
next
  case (Cons v vs)
  show ?case
  proof (cases "v = 0")
    case True
    then show ?thesis using Cons.IH [of "r + 1" b k blk] Cons.prems by simp
  next
    case False
    let ?q = "r div 16" and ?r = "r mod 16"
    let ?zs = "replicate ?q (0xF0 :: nat, 0 :: nat, 0 :: nat)"
    have aw: "ac_words r (v # vs) = ?zs @ coef_word ?r v # ac_words 0 vs" using False by simp
    have cod: "codable t ?zs" "codable t [coef_word ?r v]" "codable t (ac_words 0 vs)"
      using Cons.prems(1) unfolding aw by (cases "coef_word ?r v"; simp)+
    have av: "avail b = words_bits t ?zs @ (word_bits t (coef_word ?r v) @ (words_bits t (ac_words 0 vs) @ rest))"
      using Cons.prems(3) unfolding aw by simp
    have r: "16 * ?q + ?r = r" by simp
    have k16: "k + 16 * ?q \<le> limit" using Cons.prems(5) r by linarith
    obtain b1 where b1: "decode_ac order limit dtbl k blk b = decode_ac order limit dtbl (k + 16 * ?q) blk b1"
      "consumed (words_bits t ?zs) b b1" "avail b1 = word_bits t (coef_word ?r v) @ (words_bits t (ac_words 0 vs) @ rest)"
      using decode_runs [OF assms(1) cod(1) Cons.prems(2) av k16] by blast
    have pos: "k + 16 * ?q + ?r = k + r" using r by linarith
    have kr: "k + r < limit" using Cons.prems(5) by simp
    have ok1: "bitread_ok b1" using b1(2) by (simp add: consumed_def)
    have v10: "bit_count (nat \<bar>v\<bar>) \<le> 10" using Cons.prems(4) by simp
    obtain b2 where b2: "decode_ac order limit dtbl (k + 16 * ?q) blk b1
        = decode_ac order limit dtbl (k + r + 1) (blk[order ! (k + r) := v]) b2"
      "consumed (word_bits t (coef_word ?r v)) b1 b2" "avail b2 = words_bits t (ac_words 0 vs) @ rest"
      using decode_coef [OF assms(1) cod(2) ok1 b1(3) False _ v10 _ assms(7), of "k + 16 * ?q" blk]
        kr Cons.prems(6) unfolding pos by auto
    have ok2: "bitread_ok b2" using b2(2) by (simp add: consumed_def)
    have v': "\<forall>v\<in>set vs. bit_count (nat \<bar>v\<bar>) \<le> 10" "k + r + 1 + 0 + length vs = limit"
      "\<forall>i<limit. order ! i < length (blk[order ! (k + r) := v])" using Cons.prems(4-6) by simp_all
    obtain ko b3 where b3: "decode_ac order limit dtbl (k + r + 1) (blk[order ! (k + r) := v]) b2
        = Inr (ko, put_coefs order (k + r + 1 + 0) vs (blk[order ! (k + r) := v]), b3)"
      "ko = None \<or> ko = Some limit" "consumed (words_bits t (ac_words 0 vs)) b2 b3" "avail b3 = rest"
      using Cons.IH [OF cod(3) ok2 b2(3) v'] by blast
    have "consumed (words_bits t (ac_words r (v # vs))) b b3"
      using consumed_trans [OF b1(2) consumed_trans [OF b2(2) b3(3)]] unfolding aw by simp
    moreover have "decode_ac order limit dtbl k blk b = Inr (ko, put_coefs order (k + r) (v # vs) blk, b3)"
      using b1(1) b2(1) b3(1) False by simp
    ultimately show ?thesis using b3(2,4) by blast
  qed
qed


section \<open>A block round trip\<close>

text \<open>A block of an image whose blocks are \<open>n\<close> by \<open>n\<close>: 64 shorts, zero outside the corner.\<close>

definition block_ok :: "nat \<Rightarrow> int list \<Rightarrow> bool" where
  "block_ok n block \<longleftrightarrow> length block = 64 \<and> (\<forall>v\<in>set block. - (2 ^ 15) \<le> v \<and> v < 2 ^ 15)
    \<and> (\<forall>i<64. i \<notin> set (square n) \<longrightarrow> block ! i = 0)"

lemma put_coefs_all:
  assumes "pos \<le> m" "length blk = length block" "\<forall>k. pos \<le> k \<and> k < m \<longrightarrow> order ! k < length block"
    "\<forall>i<length block. blk ! i = block ! i \<or> blk ! i = 0 \<and> (\<exists>k. pos \<le> k \<and> k < m \<and> order ! k = i)"
  shows "put_coefs order pos (map (\<lambda>k. block ! (order ! k)) [pos..<m]) blk = block"
  using assms
proof (induction "m - pos" arbitrary: pos blk)
  case 0
  then have "pos = m" by simp
  then have "blk = block" using 0 by (intro nth_equalityI) auto
  then show ?case using \<open>pos = m\<close> by simp
next
  case (Suc x)
  let ?v = "block ! (order ! pos)"
  let ?blk = "if ?v = 0 then blk else blk[order ! pos := ?v]"
  have up: "[pos..<m] = pos # [Suc pos..<m]" using Suc.hyps(2) by (simp add: upt_conv_Cons)
  have at: "?blk ! i = block ! i \<or> ?blk ! i = 0 \<and> (\<exists>k. Suc pos \<le> k \<and> k < m \<and> order ! k = i)" if i: "i < length block" for i
  proof (cases "i = order ! pos")
    case True
    then show ?thesis using Suc.prems(2,4) i by auto
  next
    case False
    then have "blk ! i = block ! i \<or> blk ! i = 0 \<and> (\<exists>k. Suc pos \<le> k \<and> k < m \<and> order ! k = i)"
      using Suc.prems(4) i by (metis Suc_leI le_neq_implies_less)
    then show ?thesis using False by simp
  qed
  have "put_coefs order (Suc pos) (map (\<lambda>k. block ! (order ! k)) [Suc pos..<m]) ?blk = block"
    by (rule Suc.hyps(1)) (use Suc.hyps(2) Suc.prems(2,3) at in simp_all)
  then show ?case unfolding up by simp
qed

lemma order_facts:
  assumes "1 \<le> n" "n \<le> 8"
  shows "natural_order_of n ! 0 = 0" "n * n \<le> length (natural_order_of n)"
    "\<And>k. k < n * n \<Longrightarrow> natural_order_of n ! k \<in> set (square n)" "\<And>k. k < n * n \<Longrightarrow> natural_order_of n ! k < 64"
    "\<And>i. i \<in> set (square n) \<Longrightarrow> \<exists>k<n * n. natural_order_of n ! k = i"
proof -
  let ?o = "natural_order_of n"
  have sq: "set (take (n * n) ?o) = set (square n)" using corner_positions(2) [OF assms] set_square by simp
  show len: "n * n \<le> length ?o" by (rule corner_positions(3) [OF assms])
  have at: "?o ! k \<in> set (take (n * n) ?o)" if "k < n * n" for k
    using that len by (auto simp: in_set_conv_nth intro!: exI [of _ k])
  show in_sq: "\<And>k. k < n * n \<Longrightarrow> ?o ! k \<in> set (square n)" using at sq by simp
  have "i < 64" if i: "i \<in> set (square n)" for i
  proof -
    obtain r c where "i = 8 * r + c" "r < n" "c < n" using i unfolding set_square by auto
    then show ?thesis using assms(2) by simp
  qed
  then show "\<And>k. k < n * n \<Longrightarrow> ?o ! k < 64" using in_sq by blast
  show "\<exists>k<n * n. ?o ! k = i" if "i \<in> set (square n)" for i
    using that len unfolding sq [symmetric] by (auto simp: in_set_conv_nth)
  show "?o ! 0 = 0"
    using square_cases [OF assms] by (elim disjE) (simp_all add: natural_order_of_def jpeg_natural_order_def
      jpeg_natural_order7_def jpeg_natural_order6_def jpeg_natural_order5_def jpeg_natural_order4_def
      jpeg_natural_order3_def jpeg_natural_order2_def)
qed

lemma block_coded:
  assumes "encode_one_block block last_dc t u w = Inr w'" "enc_ok w" "block_order n (ws_cinfo w)"
    "tables_match t dt" "tables_match u du" "block_ok n block" "- (2 ^ 15) \<le> last_dc" "last_dc < 2 ^ 15"
  shows "\<exists>bs. wrote bs w w' \<and> (\<forall>b rest. bitread_ok b \<longrightarrow> avail b = bs @ rest \<longrightarrow>
    (\<exists>b'. decode_block (natural_order_of n) (n * n - 1) dt du (n * n) (replicate 64 0) last_dc b = Inr (block, block ! 0, b')
      \<and> consumed bs b b' \<and> avail b' = rest))"
proof -
  let ?o = "natural_order_of n" and ?d = "block ! 0 - last_dc"
  have n: "1 \<le> n" "n \<le> 8" and ord: "natural_order (ws_cinfo w) = ?o" "lim_Se (ws_cinfo w) + 1 = n * n"
    using assms(3) by (auto simp: block_order_def)
  note of = order_facts [OF n]
  define vs where "vs = map (\<lambda>k. block ! (?o ! k)) [1..<n * n]"
  obtain ht hu where h: "c_valid t ht" "c_valid u hu" using assms(4,5) by (auto simp: tables_match_def)
  have vs: "vs = map (\<lambda>k. block ! (natural_order (ws_cinfo w) ! k)) [1..<lim_Se (ws_cinfo w) + 1]"
    unfolding vs_def ord by (rule refl)
  note e = encode_one_block_wrote [OF assms(1,2) h, folded vs]
  let ?n = "bit_count (nat \<bar>?d\<bar>)"
  have cw: "coef_word 0 ?d = (?n, ?n, low_bits ?n ?d)" by (simp add: coef_word_def Let_def)
  have s: "?n < 256" "ehufsi t ! ?n \<noteq> 0" using e unfolding cw by simp_all
  let ?s = "nat_bits (ehufsi t ! ?n) (ehufco t ! ?n)" and ?x = "nat_bits ?n (low_bits ?n ?d)"
  have wb: "word_bits t (coef_word 0 ?d) = ?s @ ?x" unfolding cw by (simp add: word_bits_def)
  let ?bs = "word_bits t (coef_word 0 ?d) @ words_bits u (ac_words 0 vs)"
  have len: "length block = 64" using assms(6) by (simp add: block_ok_def)
  have dc: "- (2 ^ 15) \<le> block ! 0" "block ! 0 < 2 ^ 15"
    using assms(6) len nth_mem [of 0 block] by (simp_all add: block_ok_def)
  have nn: "1 \<le> n * n" using n(1) by simp
  have "\<exists>b'. decode_block ?o (n * n - 1) dt du (n * n) (replicate 64 0) last_dc b = Inr (block, block ! 0, b')
      \<and> consumed ?bs b b' \<and> avail b' = rest"
    if b: "bitread_ok b" "avail b = ?bs @ rest" for b rest
  proof -
    let ?r = "words_bits u (ac_words 0 vs) @ rest"
    obtain b1 where b1: "HUFF_DECODE dt b = Inr (?n, b1)" "consumed ?s b b1" "avail b1 = ?x @ ?r"
      using decode_symbol [OF assms(4) s b(1), of "?x @ ?r"] b(2) unfolding wb by auto
    have ok1: "bitread_ok b1" using b1(2) by (simp add: consumed_def)
    obtain b2 where b2: "get_extra ?n b1 = Inr (?d, b2)" "consumed ?x b1 b2" "avail b2 = ?r"
      using get_extra_word [OF refl _ ok1 b1(3)] e by auto
    have ok2: "bitread_ok b2" using b2(2) by (simp add: consumed_def)
    let ?blk = "(replicate 64 0)[0 := block ! 0]"
    obtain ko b3 where b3: "decode_ac ?o (n * n) du 1 ?blk b2 = Inr (ko, put_coefs ?o (1 + 0) vs ?blk, b3)"
      "ko = None \<or> ko = Some (n * n)" "consumed (words_bits u (ac_words 0 vs)) b2 b3" "avail b3 = rest"
      using decode_ac_words [OF assms(5) _ ok2 b2(3) _ _ of(2), of 1 ?blk] e of(4) nn by (auto simp: vs_def)
    have "put_coefs ?o 1 vs ?blk = block"
      unfolding vs_def
    proof (rule put_coefs_all)
      show "\<forall>i<length block. ?blk ! i = block ! i \<or> ?blk ! i = 0 \<and> (\<exists>k. 1 \<le> k \<and> k < n * n \<and> ?o ! k = i)"
      proof (intro allI impI)
        fix i
        assume i: "i < length block"
        show "?blk ! i = block ! i \<or> ?blk ! i = 0 \<and> (\<exists>k. 1 \<le> k \<and> k < n * n \<and> ?o ! k = i)"
        proof (cases "i = 0 \<or> i \<notin> set (square n)")
          case True
          then show ?thesis using assms(6) i len by (auto simp: block_ok_def nth_list_update)
        next
          case False
          then obtain k where k: "k < n * n" "?o ! k = i" using of(5) by blast
          then have "1 \<le> k" using False of(1) by (cases k) auto
          then show ?thesis using k False i len by auto
        qed
      qed
    qed (use nn len of(4) in auto)
    moreover have "s32 (?d + last_dc) = block ! 0" using dc by (simp add: s32_id in_s32_def)
    moreover have "discard_ac (n * n - 1) du (n * n) b3 = Inr b3"
    proof -
      have "\<not> n * n \<le> n * n - 1" using nn by linarith
      then show ?thesis by (simp add: discard_ac.simps [of _ _ "n * n"])
    qed
    ultimately have "decode_block ?o (n * n - 1) dt du (n * n) (replicate 64 0) last_dc b = Inr (block, block ! 0, b3)"
      using b1(1) b2(1) b3(1,2) nn jcoef_id [OF dc] by (auto simp: decode_block_def Let_def)
    then show ?thesis
      using consumed_trans [OF b1(2) consumed_trans [OF b2(2) b3(3)]] b3(4) unfolding wb by auto
  qed
  then show ?thesis using e by blast
qed

end
