(* ===== verification/HuffScan.thy ===== *)
theory HuffScan
  imports HuffBlocks
begin

text \<open>
  A scan: the encoder's MCUs with the restart markers between them, \<open>finish_pass_huff\<close> at the
  end, and the decoder's loop over the same MCUs.  What the decoder gets back is what went in.
\<close>

unbundle bit_operations_syntax

section \<open>Scans\<close>

text \<open>The calls the coefficient controllers make: every MCU of the scan, then the end of the pass.\<close>

fun encode_mcus :: "nat list \<Rightarrow> int list list list \<Rightarrow> huff_encoder \<times> compress \<Rightarrow> (huff_encoder \<times> compress) result" where
  "encode_mcus memb [] s = Inr s"
| "encode_mcus memb (m # ms) s = bind_err (encode_mcu_huff memb m s) (encode_mcus memb ms)"

definition encode_scan :: "nat list \<Rightarrow> int list list list \<Rightarrow> huff_encoder \<times> compress \<Rightarrow> (huff_encoder \<times> compress) result" where
  "encode_scan memb ms s = bind_err (encode_mcus memb ms s) finish_pass_huff"

text \<open>The decoder's blocks are zeroed before each MCU.\<close>

fun decode_mcus :: "nat list \<Rightarrow> nat \<Rightarrow> nat \<Rightarrow> huff_decoder \<Rightarrow> (int list list list \<times> huff_decoder) result" where
  "decode_mcus order lim 0 e = Inr ([], e)"
| "decode_mcus order lim (Suc n) e =
     bind_err (decode_mcu_with order lim (replicate (length (membership e)) (replicate DCTSIZE2 0)) e) (\<lambda>(m, e1).
     bind_err (decode_mcus order lim n e1) (\<lambda>(ms, e2). Inr (m # ms, e2)))"

section \<open>The blocks of an MCU\<close>

text \<open>
  The encoder's and the decoder's tables for each block of an MCU, for \<open>n\<close> by \<open>n\<close> blocks.
\<close>

definition scan_match :: "nat \<Rightarrow> huff_encoder \<Rightarrow> compress \<Rightarrow> huff_decoder \<Rightarrow> bool" where
  "scan_match n e c d \<longleftrightarrow> block_order n c \<and> (\<forall>i<length (membership d).
     membership d ! i < length (cur_comp_info c)
     \<and> tables_match (dc_derived_tbls e ! dc_tbl_no (scan_comp c (membership d ! i))) (dc_cur_tbls d ! i)
     \<and> tables_match (ac_derived_tbls e ! ac_tbl_no (scan_comp c (membership d ! i))) (ac_cur_tbls d ! i)
     \<and> coef_limit d ! i = n * n)"

lemma scan_match_out [simp]: "scan_match n e (c\<lparr>out := x\<rparr>) d = scan_match n e c d"
  by (simp add: scan_match_def scan_comp_def block_order_def)

definition dcs_ok :: "compress \<Rightarrow> int list \<Rightarrow> bool" where
  "dcs_ok c dcs \<longleftrightarrow> length (cur_comp_info c) \<le> length dcs \<and> (\<forall>v\<in>set dcs. - (2 ^ 15) \<le> v \<and> v < 2 ^ 15)"

lemma dcs_ok_out [simp]: "dcs_ok (c\<lparr>out := x\<rparr>) dcs = dcs_ok c dcs"
  by (simp add: dcs_ok_def)

lemma dcs_ok_update:
  assumes "dcs_ok c dcs" "block_ok n block"
  shows "dcs_ok c (dcs[i := block ! 0])"
proof -
  have "block ! 0 \<in> set block" using assms(2) by (simp add: block_ok_def)
  then have "- (2 ^ 15) \<le> block ! 0 \<and> block ! 0 < 2 ^ 15" using assms(2) unfolding block_ok_def by blast
  then show ?thesis using assms(1) set_update_subset_insert [of dcs i "block ! 0"] by (auto simp: dcs_ok_def)
qed

lemma decode_blocks_static:
  "decode_blocks order lim (d\<lparr>bitstate := x, last_dc_val := y, restarts_to_go := z\<rparr>) blkn blocks dcs b
    = decode_blocks order lim d blkn blocks dcs b"
  by (induction order lim d blkn blocks dcs b rule: decode_blocks.induct) (simp_all add: Let_def)

lemma blocks_coded:
  assumes "encode_blocks e bs w = Inr w'" "enc_ok w" "scan_match n e (ws_cinfo w) d" "dcs_ok (ws_cinfo w) (c_last_dc_val (cur w))"
    "map fst bs = take (length bs) (drop blkn (membership d))" "blkn + length bs \<le> length (membership d)"
    "\<forall>(ci, block)\<in>set bs. block_ok n block"
  shows "\<exists>bits. sent bits w w' \<and> dcs_ok (ws_cinfo w') (c_last_dc_val (cur w')) \<and> (\<forall>b rest. bitread_ok b \<longrightarrow> avail b = bits @ rest \<longrightarrow>
    (\<exists>b'. decode_blocks (natural_order_of n) (n * n - 1) d blkn (replicate (length bs) (replicate 64 0)) (c_last_dc_val (cur w)) b
        = Inr (map snd bs, c_last_dc_val (cur w'), b') \<and> consumed bits b b' \<and> avail b' = rest))"
  using assms
proof (induction bs arbitrary: w blkn)
  case Nil
  then show ?case using sent_refl consumed_refl by (intro exI [of _ "[]"]) auto
next
  case (Cons p bs)
  obtain ci block where p: "p = (ci, block)" by (cases p)
  have blkn: "blkn < length (membership d)" using Cons.prems(6) by simp
  have dr: "drop blkn (membership d) = membership d ! blkn # drop (Suc blkn) (membership d)"
    by (rule Cons_nth_drop_Suc [OF blkn, symmetric])
  have ci: "ci = membership d ! blkn" and rest: "map fst bs = take (length bs) (drop (Suc blkn) (membership d))"
    using Cons.prems(5) unfolding dr by (simp_all add: p)
  have bok: "block_ok n block" "\<forall>(ci, block)\<in>set bs. block_ok n block" using Cons.prems(7) by (auto simp: p)
  let ?c = "ws_cinfo w" and ?dcs = "c_last_dc_val (cur w)"
  let ?t = "dc_derived_tbls e ! dc_tbl_no (scan_comp ?c ci)" and ?u = "ac_derived_tbls e ! ac_tbl_no (scan_comp ?c ci)"
  have m: "block_order n ?c" "ci < length (cur_comp_info ?c)" "tables_match ?t (dc_cur_tbls d ! blkn)"
    "tables_match ?u (ac_cur_tbls d ! blkn)" "coef_limit d ! blkn = n * n"
    using Cons.prems(3) blkn unfolding scan_match_def ci by blast+
  have range: "- (2 ^ 15) \<le> ?dcs ! ci" "?dcs ! ci < 2 ^ 15"
    using Cons.prems(4) m(2) nth_mem [of ci ?dcs] by (auto simp: dcs_ok_def)
  obtain w1 where w1: "encode_one_block block (?dcs ! ci) ?t ?u w = Inr w1"
    "encode_blocks e bs (w1\<lparr>cur := (cur w1)\<lparr>c_last_dc_val := (c_last_dc_val (cur w1))[ci := block ! 0]\<rparr>\<rparr>) = Inr w'"
    using Cons.prems(1) by (auto simp: p Let_def bind_err_Inr)
  obtain xs where xs: "wrote xs w w1" "\<And>b rest. bitread_ok b \<Longrightarrow> avail b = xs @ rest \<Longrightarrow>
    \<exists>b'. decode_block (natural_order_of n) (n * n - 1) (dc_cur_tbls d ! blkn) (ac_cur_tbls d ! blkn) (n * n)
        (replicate 64 0) (?dcs ! ci) b = Inr (block, block ! 0, b') \<and> consumed xs b b' \<and> avail b' = rest"
    using block_coded [OF w1(1) Cons.prems(2) m(1,3,4) bok(1) range] by blast
  define w2 where "w2 = w1\<lparr>cur := (cur w1)\<lparr>c_last_dc_val := (c_last_dc_val (cur w1))[ci := block ! 0]\<rparr>\<rparr>"
  have s2: "sent xs w w2" "c_last_dc_val (cur w2) = ?dcs[ci := block ! 0]"
    using xs(1) by (auto simp: wrote_def sent_def w2_def enc_ok_def pend_def)
  have ok2: "enc_ok w2" using s2(1) by (simp add: sent_def)
  have c2: "scan_match n e (ws_cinfo w2) d" "dcs_ok (ws_cinfo w2) (c_last_dc_val (cur w2))"
    using s2 Cons.prems(3,4) dcs_ok_update [OF _ bok(1)] by (auto simp: sent_def)
  have len: "Suc blkn + length bs \<le> length (membership d)" using Cons.prems(6) by simp
  obtain ys where ys: "sent ys w2 w'" "dcs_ok (ws_cinfo w') (c_last_dc_val (cur w'))"
    "\<And>b rest. bitread_ok b \<Longrightarrow> avail b = ys @ rest \<Longrightarrow>
    \<exists>b'. decode_blocks (natural_order_of n) (n * n - 1) d (Suc blkn) (replicate (length bs) (replicate 64 0)) (c_last_dc_val (cur w2)) b
        = Inr (map snd bs, c_last_dc_val (cur w'), b') \<and> consumed ys b b' \<and> avail b' = rest"
    using Cons.IH [OF w1(2) [folded w2_def] ok2 c2 rest len bok(2)] by blast
  have "\<exists>b'. decode_blocks (natural_order_of n) (n * n - 1) d blkn (replicate (length (p # bs)) (replicate 64 0)) ?dcs b
        = Inr (map snd (p # bs), c_last_dc_val (cur w'), b') \<and> consumed (xs @ ys) b b' \<and> avail b' = rest"
    if b: "bitread_ok b" "avail b = (xs @ ys) @ rest" for b rest
  proof -
    have av: "avail b = xs @ (ys @ rest)" using b(2) by simp
    obtain b1 where b1: "decode_block (natural_order_of n) (n * n - 1) (dc_cur_tbls d ! blkn) (ac_cur_tbls d ! blkn) (n * n)
        (replicate 64 0) (?dcs ! ci) b = Inr (block, block ! 0, b1)" "consumed xs b b1" "avail b1 = ys @ rest"
      using xs(2) [OF b(1) av] by blast
    have ok1: "bitread_ok b1" using b1(2) by (simp add: consumed_def)
    obtain b2 where b2: "decode_blocks (natural_order_of n) (n * n - 1) d (Suc blkn) (replicate (length bs) (replicate 64 0)) (c_last_dc_val (cur w2)) b1
        = Inr (map snd bs, c_last_dc_val (cur w'), b2)" "consumed ys b1 b2" "avail b2 = rest"
      using ys(3) [OF ok1 b1(3)] by blast
    have "decode_blocks (natural_order_of n) (n * n - 1) d blkn (replicate (length (p # bs)) (replicate 64 0)) ?dcs b
        = Inr (map snd (p # bs), c_last_dc_val (cur w'), b2)"
      using b1(1) b2(1) m(5) by (simp add: Let_def p ci s2(2))
    then show ?thesis using consumed_trans [OF b1(2) b2(2)] b2(3) by blast
  qed
  then show ?case using sent_trans [OF s2(1) ys(1)] ys(2) by blast
qed


section \<open>A restart marker\<close>

lemma emit_restart_wrote:
  assumes "emit_restart_s num w = Inr w'" "enc_ok w" "num < 8"
  shows "\<exists>xs k. ws_cinfo w' = (ws_cinfo w)\<lparr>out := out (ws_cinfo w) @ stuff xs @ [0xFF, of_nat (0xD0 + num)]\<rparr>
    \<and> bytes_bits xs = pend w @ replicate k True \<and> k \<le> 7 \<and> pend w' = [] \<and> enc_ok w'
    \<and> c_last_dc_val (cur w') = replicate (length (cur_comp_info (ws_cinfo w))) 0
        @ drop (length (cur_comp_info (ws_cinfo w))) (c_last_dc_val (cur w))"
proof -
  obtain w1 where w1: "flush_bits_s w = Inr w1"
    "w' = (emit_byte_s (0xD0 + num) (emit_byte_s 0xFF w1))\<lparr>cur := (cur w1)\<lparr>c_last_dc_val :=
        replicate (length (cur_comp_info (ws_cinfo w1))) 0 @ drop (length (cur_comp_info (ws_cinfo w1))) (c_last_dc_val (cur w1))\<rparr>\<rparr>"
    using assms(1) by (auto simp: emit_restart_s_def bind_err_Inr Let_def emit_byte_s_def emit_byte_def)
  obtain xs k where xs: "ws_cinfo w1 = (ws_cinfo w)\<lparr>out := out (ws_cinfo w) @ stuff xs\<rparr>"
    "bytes_bits xs = pend w @ replicate k True" "k \<le> 7" "pend w1 = []" "enc_ok w1"
    "c_last_dc_val (cur w1) = c_last_dc_val (cur w)"
    using flush_bits_wrote [OF w1(1) assms(2)] by blast
  have "ws_cinfo w' = (ws_cinfo w)\<lparr>out := out (ws_cinfo w) @ stuff xs @ [0xFF, of_nat (0xD0 + num)]\<rparr>"
    by (simp add: w1(2) emit_byte_s_def emit_byte_def xs(1))
  moreover have "pend w' = []" "enc_ok w'" using xs(4,5) by (simp_all add: w1(2) pend_def enc_ok_def)
  moreover have "c_last_dc_val (cur w') = replicate (length (cur_comp_info (ws_cinfo w))) 0
        @ drop (length (cur_comp_info (ws_cinfo w))) (c_last_dc_val (cur w))"
    by (simp add: w1(2) xs(1,6))
  ultimately show ?thesis using xs(2,3) by blast
qed

lemma length_bytes_bits [simp]: "length (bytes_bits xs) = 8 * length xs"
  by (induction xs) (simp_all add: bytes_bits_def byte_bits_def)

lemma entropy_data_marker: "m \<noteq> 0 \<Longrightarrow> m \<noteq> 0xFF \<Longrightarrow> entropy_data (0xFF # m # rest) = []"
  by (simp add: unat_eq_0)

lemma process_restart_reads:
  assumes "length (avail (bitstate d)) \<le> 7" "bitread_ok (bitstate d)"
    "at_marker (of_nat (0xD0 + num)) rest (br_cinfo (bitstate d))"
    "next_restart_num (br_cinfo (bitstate d)) = num" "num < 8"
  shows "\<exists>b. process_restart d = d\<lparr>bitstate := b, restarts_to_go := d_restart_interval (br_cinfo b),
      last_dc_val := replicate (length (d_cur_comp_info (br_cinfo b))) 0 @ drop (length (d_cur_comp_info (br_cinfo b))) (last_dc_val d)\<rparr>
    \<and> bitread_ok b \<and> \<not> insufficient_data b \<and> avail b = bytes_bits (entropy_data rest)
    \<and> unread_marker (br_cinfo b) = 0 \<and> input (br_cinfo b) = rest
    \<and> d_restart_interval (br_cinfo b) = d_restart_interval (br_cinfo (bitstate d))
    \<and> d_cur_comp_info (br_cinfo b) = d_cur_comp_info (br_cinfo (bitstate d)) \<and> next_restart_num (br_cinfo b) = (num + 1) AND 7"
proof -
  let ?b = "bitstate d" and ?c = "br_cinfo (bitstate d)" and ?m = "of_nat (0xD0 + num) :: byte"
  have m: "unat ?m = 0xD0 + num" using assms(5) by (simp add: unat_of_nat del: of_nat_add)
  have m0: "?m \<noteq> 0" "?m \<noteq> 0xFF" using m assms(5) by (auto simp: word_unat_eq_iff simp del: of_nat_add)
  have left: "bits_left ?b div 8 = 0" using assms(1) by (simp add: avail_def)
  define c1 where "c1 = (if unread_marker ?c = 0 then next_marker ?c else ?c)"
  have c1: "unread_marker c1 = 0xD0 + num \<and> input c1 = rest
    \<and> d_restart_interval c1 = d_restart_interval ?c \<and> d_cur_comp_info c1 = d_cur_comp_info ?c \<and> next_restart_num c1 = num"
    using assms(3) unfolding at_marker_def
  proof (elim disjE conjE exE)
    fix ys
    assume u: "unread_marker ?c = 0" and i: "input ?c = stuff ys @ 0xFF # ?m # rest"
    have "length (data_bits ?c) \<le> 7" using assms(1) by (simp add: avail_def)
    then have "ys = []" using u i entropy_data_stuff [of ys "0xFF # ?m # rest"] by (cases ys) (simp_all add: data_bits_def)
    then show ?thesis using u i m m0 assms(4) by (simp add: c1_def next_marker_def del: of_nat_add)
  next
    assume u: "unread_marker ?c = unat ?m" and i: "input ?c = rest"
    then show ?thesis using m assms(4) by (simp add: c1_def)
  qed
  have fin: "finish_pass_huff_d d = d\<lparr>bitstate := ?b\<lparr>br_cinfo := ?c, bits_left := 0\<rparr>\<rparr>"
    using left by (simp add: finish_pass_huff_d_def Let_def)
  have rd: "read_restart_marker ?c = c1\<lparr>unread_marker := 0, next_restart_num := (num + 1) AND 7\<rparr>"
    unfolding read_restart_marker_def c1_def [symmetric] Let_def using c1 by simp
  define c2 where "c2 = c1\<lparr>unread_marker := 0, next_restart_num := (num + 1) AND 7\<rparr>"
  define b where "b = ?b\<lparr>br_cinfo := c2, bits_left := 0, insufficient_data := False\<rparr>"
  have "process_restart d = d\<lparr>bitstate := b, restarts_to_go := d_restart_interval (br_cinfo b),
      last_dc_val := replicate (length (d_cur_comp_info (br_cinfo b))) 0 @ drop (length (d_cur_comp_info (br_cinfo b))) (last_dc_val d)\<rparr>"
    by (simp add: process_restart_def fin rd Let_def b_def c2_def)
  moreover have "bitread_ok b" "\<not> insufficient_data b" "avail b = bytes_bits (entropy_data rest)"
    "unread_marker (br_cinfo b) = 0" "input (br_cinfo b) = rest"
    "d_restart_interval (br_cinfo b) = d_restart_interval ?c" "d_cur_comp_info (br_cinfo b) = d_cur_comp_info ?c"
    "next_restart_num (br_cinfo b) = (num + 1) AND 7"
    using c1 by (simp_all add: b_def c2_def bitread_ok_def avail_def buf_bits_def data_bits_def)
  ultimately show ?thesis by blast
qed


section \<open>An MCU\<close>

definition pend_of :: "huff_encoder \<Rightarrow> bool list" where
  "pend_of e = held (put_buffer (saved e)) (put_bits (saved e))"

definition enc_inv :: "huff_encoder \<Rightarrow> compress \<Rightarrow> bool" where
  "enc_inv e c \<longleftrightarrow> enc_ok \<lparr>cur = saved e, ws_cinfo = c\<rparr> \<and> dcs_ok c (c_last_dc_val (saved e))
    \<and> restart_interval c < 2 ^ 16 \<and> c_restarts_to_go e \<le> restart_interval c \<and> c_next_restart_num e < 8"

text \<open>The decoder \<open>d\<close> between two MCUs.\<close>

abbreviation dec_at :: "huff_decoder \<Rightarrow> bitread \<Rightarrow> int list \<Rightarrow> nat \<Rightarrow> huff_decoder" where
  "dec_at d b v r \<equiv> d\<lparr>bitstate := b, last_dc_val := v, restarts_to_go := r\<rparr>"

definition in_step :: "huff_encoder \<Rightarrow> compress \<Rightarrow> bitread \<Rightarrow> nat \<Rightarrow> bool" where
  "in_step e c b r \<longleftrightarrow> bitread_ok b \<and> \<not> insufficient_data b \<and> d_restart_interval (br_cinfo b) = restart_interval c
    \<and> length (d_cur_comp_info (br_cinfo b)) = length (cur_comp_info c)
    \<and> (restart_interval c \<noteq> 0 \<longrightarrow> r = c_restarts_to_go e \<and> next_restart_num (br_cinfo b) = c_next_restart_num e)"

lemma same_data_fields:
  assumes "same_data d d'"
  shows "d_restart_interval d' = d_restart_interval d" "d_cur_comp_info d' = d_cur_comp_info d"
    "next_restart_num d' = next_restart_num d"
  using assms by (auto simp: same_data_def)

lemma decode_mcu_body:
  assumes "(if d_restart_interval (br_cinfo b) \<noteq> 0 \<and> r = 0 then process_restart (dec_at d b v r) else dec_at d b v r) = dec_at d b0 v0 r0"
    "\<not> insufficient_data b0" "decode_blocks order lim d 0 blank v0 b0 = Inr (blocks, dcs, b')"
  shows "decode_mcu_with order lim blank (dec_at d b v r) = Inr (blocks, dec_at d b' dcs ((r0 + 2 ^ 32 - 1) mod 2 ^ 32))"
proof -
  have f: "br_cinfo (bitstate (dec_at d b v r)) = br_cinfo b" "restarts_to_go (dec_at d b v r) = r" by simp_all
  show ?thesis
    unfolding decode_mcu_with_def f assms(1) Let_def using assms(2,3) by (simp add: decode_blocks_static)
qed

lemma zip_memb:
  assumes "length m = length memb"
  shows "map fst (zip memb m) = take (length (zip memb m)) (drop 0 memb)" "map snd (zip memb m) = m" "length (zip memb m) = length memb"
  using assms by simp_all

text \<open>
  The encoder's call for one MCU, in two cases: \<open>xs0\<close> is what the restart marker before it
  flushes out.
\<close>

definition mcu_restart :: "huff_encoder \<Rightarrow> compress \<Rightarrow> bool" where
  "mcu_restart e c \<longleftrightarrow> restart_interval c \<noteq> 0 \<and> c_restarts_to_go e = 0"

lemma encode_mcu_cases:
  assumes "encode_mcu_huff memb m (e, c) = Inr (e1, c1)"
  shows "\<exists>w0 w. (if mcu_restart e c then emit_restart_s (c_next_restart_num e) \<lparr>cur = saved e, ws_cinfo = c\<rparr> = Inr w0
        else w0 = \<lparr>cur = saved e, ws_cinfo = c\<rparr>)
    \<and> encode_blocks e (zip memb m) w0 = Inr w \<and> c1 = ws_cinfo w
    \<and> e1 = e\<lparr>saved := cur w,
          c_restarts_to_go := (if mcu_restart e c then restart_interval c - 1 else c_restarts_to_go e - (if restart_interval c \<noteq> 0 then 1 else 0)),
          c_next_restart_num := (if mcu_restart e c then (c_next_restart_num e + 1) AND 7 else c_next_restart_num e)\<rparr>"
  using assms unfolding encode_mcu_huff_def mcu_restart_def [symmetric] Let_def prod.case bind_err_Inr
  by (cases "mcu_restart e c") (auto simp: mcu_restart_def)

text \<open>The decoder, in step, reads the MCU off its bits; or over a restart marker first.\<close>

definition mcu_read :: "nat \<Rightarrow> huff_decoder \<Rightarrow> int list list \<Rightarrow> huff_encoder \<Rightarrow> bitread \<Rightarrow> nat \<Rightarrow> huff_encoder \<Rightarrow> bitread \<Rightarrow> nat \<Rightarrow> bool" where
  "mcu_read n d m e b r e1 b' r' \<longleftrightarrow>
     decode_mcu_with (natural_order_of n) (n * n - 1) (replicate (length (membership d)) (replicate 64 0)) (dec_at d b (c_last_dc_val (saved e)) r)
       = Inr (m, dec_at d b' (c_last_dc_val (saved e1)) r')"

definition reads_mcu :: "nat \<Rightarrow> huff_decoder \<Rightarrow> int list list \<Rightarrow> huff_encoder \<Rightarrow> compress \<Rightarrow> huff_encoder \<Rightarrow> compress \<Rightarrow> bool list \<Rightarrow> bool" where
  "reads_mcu n d m e c e1 c1 bs \<longleftrightarrow> (\<forall>b r rest. in_step e c b r \<longrightarrow> avail b = bs @ rest \<longrightarrow>
     (\<exists>b' r'. mcu_read n d m e b r e1 b' r' \<and> same_data (br_cinfo b) (br_cinfo b') \<and> avail b' = rest \<and> in_step e1 c1 b' r'))"

definition restarts_mcu :: "nat \<Rightarrow> huff_decoder \<Rightarrow> int list list \<Rightarrow> huff_encoder \<Rightarrow> compress \<Rightarrow> huff_encoder \<Rightarrow> compress \<Rightarrow> nat \<Rightarrow> bool list \<Rightarrow> bool" where
  "restarts_mcu n d m e c e1 c1 k bs \<longleftrightarrow> (\<forall>b r rest0 rest. in_step e c b r \<longrightarrow> avail b = replicate k True \<longrightarrow>
     at_marker (of_nat (0xD0 + c_next_restart_num e)) rest0 (br_cinfo b) \<longrightarrow> bytes_bits (entropy_data rest0) = bs @ rest \<longrightarrow>
     (\<exists>b' r'. mcu_read n d m e b r e1 b' r' \<and> avail b' = rest \<and> in_step e1 c1 b' r'
       \<and> (\<forall>mk ext zs. mk \<noteq> 0 \<longrightarrow> mk \<noteq> 0xFF \<longrightarrow> rest0 = stuff zs @ 0xFF # mk # ext \<longrightarrow> at_marker mk ext (br_cinfo b'))))"

lemma mcu_no_restart:
  assumes "encode_mcu_huff memb m (e, c) = Inr (e1, c1)" "\<not> mcu_restart e c" "enc_inv e c" "scan_match n e c d"
    "memb = membership d" "length m = length memb" "\<forall>block\<in>set m. block_ok n block"
  shows "enc_inv e1 c1 \<and> scan_match n e1 c1 d \<and> (\<exists>bits xs. c1 = c\<lparr>out := out c @ stuff xs\<rparr>
    \<and> pend_of e @ bits = bytes_bits xs @ pend_of e1 \<and> reads_mcu n d m e c e1 c1 bits)"
proof -
  define w0 where "w0 = \<lparr>cur = saved e, ws_cinfo = c\<rparr>"
  obtain w where w: "encode_blocks e (zip memb m) w0 = Inr w" "c1 = ws_cinfo w"
    "e1 = e\<lparr>saved := cur w, c_restarts_to_go := c_restarts_to_go e - (if restart_interval c \<noteq> 0 then 1 else 0)\<rparr>"
    using encode_mcu_cases [OF assms(1)] assms(2) by (auto simp: w0_def)
  have ok: "enc_ok w0" "scan_match n e (ws_cinfo w0) d" "dcs_ok (ws_cinfo w0) (c_last_dc_val (cur w0))"
    using assms(3,4) by (simp_all add: w0_def enc_inv_def)
  have blocks: "\<forall>(ci, block)\<in>set (zip memb m). block_ok n block" using assms(7) by (auto dest: set_zip_rightD)
  note zm = zip_memb [OF assms(6)]
  obtain bits where bits: "sent bits w0 w" "dcs_ok (ws_cinfo w) (c_last_dc_val (cur w))"
    "\<And>b rest. bitread_ok b \<Longrightarrow> avail b = bits @ rest \<Longrightarrow>
    \<exists>b'. decode_blocks (natural_order_of n) (n * n - 1) d 0 (replicate (length memb) (replicate 64 0)) (c_last_dc_val (saved e)) b
        = Inr (m, c_last_dc_val (cur w), b') \<and> consumed bits b b' \<and> avail b' = rest"
  proof -
    have "map fst (zip memb m) = take (length (zip memb m)) (drop 0 (membership d))" "0 + length (zip memb m) \<le> length (membership d)"
      using zm by (simp_all add: assms(5))
    from blocks_coded [OF w(1) ok this blocks] show ?thesis
      using that unfolding zm(2,3) by (auto simp: w0_def)
  qed
  obtain xs where xs: "ws_cinfo w = c\<lparr>out := out c @ stuff xs\<rparr>" "pend w0 @ bits = bytes_bits xs @ pend w"
    using bits(1) by (auto simp: sent_def w0_def)
  have inv: "enc_inv e1 c1"
    using assms(3) bits(1,2) xs(1) by (auto simp: enc_inv_def w sent_def enc_ok_def)
  have sm: "scan_match n e1 c1 d" using assms(4) xs(1) by (simp add: w scan_match_def scan_comp_def block_order_def)
  have last: "c_last_dc_val (saved e1) = c_last_dc_val (cur w)" by (simp add: w(3))
  have p: "pend_of e @ bits = bytes_bits xs @ pend_of e1" using xs(2) by (simp add: pend_of_def pend_def w0_def w(3))
  have "\<exists>b' r'. mcu_read n d m e b r e1 b' r' \<and> same_data (br_cinfo b) (br_cinfo b') \<and> avail b' = rest \<and> in_step e1 c1 b' r'"
    if s: "in_step e c b r" "avail b = bits @ rest" for b r rest
  proof -
    obtain b' where b': "decode_blocks (natural_order_of n) (n * n - 1) d 0 (replicate (length memb) (replicate 64 0)) (c_last_dc_val (saved e)) b
        = Inr (m, c_last_dc_val (cur w), b')" "consumed bits b b'" "avail b' = rest"
      using bits(3) [OF _ s(2)] s(1) by (auto simp: in_step_def)
    have same: "same_data (br_cinfo b) (br_cinfo b')" "bitread_ok b'" "insufficient_data b' = insufficient_data b"
      using b'(2) by (simp_all add: consumed_def)
    have no: "\<not> (d_restart_interval (br_cinfo b) \<noteq> 0 \<and> r = 0)" using s(1) assms(2) by (auto simp: in_step_def mcu_restart_def)
    let ?r = "(r + 2 ^ 32 - 1) mod 2 ^ 32"
    have "decode_mcu_with (natural_order_of n) (n * n - 1) (replicate (length memb) (replicate 64 0)) (dec_at d b (c_last_dc_val (saved e)) r)
        = Inr (m, dec_at d b' (c_last_dc_val (cur w)) ?r)"
      by (rule decode_mcu_body [OF _ _ b'(1)]) (use no s(1) in \<open>auto simp: in_step_def\<close>)
    moreover have "?r = r - 1" if "restart_interval c \<noteq> 0"
    proof -
      have "1 \<le> r" "r < 2 ^ 16" using that s(1) assms(2,3) by (auto simp: in_step_def mcu_restart_def enc_inv_def)
      then have "r + 2 ^ 32 - 1 = (r - 1) + 2 ^ 32" "r - 1 < 2 ^ 32" by simp_all
      then show ?thesis by (metis mod_add_self2 mod_less)
    qed
    then have "in_step e1 c1 b' ?r"
      using s(1) same same_data_fields [OF same(1)] xs(1) by (simp add: in_step_def w)
    ultimately show ?thesis using same(1) b'(3) unfolding mcu_read_def last assms(5) by blast
  qed
  then have "reads_mcu n d m e c e1 c1 bits" unfolding reads_mcu_def by blast
  then show ?thesis using inv sm p xs(1) w(2) by blast
qed


lemma mcu_after_restart:
  assumes "encode_mcu_huff memb m (e, c) = Inr (e1, c1)" "mcu_restart e c" "enc_inv e c" "scan_match n e c d"
    "memb = membership d" "length m = length memb" "\<forall>block\<in>set m. block_ok n block"
  shows "enc_inv e1 c1 \<and> scan_match n e1 c1 d \<and> (\<exists>ys k bits xs.
      c1 = c\<lparr>out := out c @ stuff ys @ [0xFF, of_nat (0xD0 + c_next_restart_num e)] @ stuff xs\<rparr>
    \<and> bytes_bits ys = pend_of e @ replicate k True \<and> k \<le> 7 \<and> bits = bytes_bits xs @ pend_of e1
    \<and> restarts_mcu n d m e c e1 c1 k bits)"
proof -
  let ?num = "c_next_restart_num e" and ?s = "\<lparr>cur = saved e, ws_cinfo = c\<rparr>"
  obtain w0 w where w0: "emit_restart_s ?num ?s = Inr w0"
    and w: "encode_blocks e (zip memb m) w0 = Inr w" "c1 = ws_cinfo w"
    "e1 = e\<lparr>saved := cur w, c_restarts_to_go := restart_interval c - 1, c_next_restart_num := (?num + 1) AND 7\<rparr>"
    using encode_mcu_cases [OF assms(1)] assms(2) by auto
  have num: "?num < 8" "enc_ok ?s" using assms(3) by (simp_all add: enc_inv_def)
  let ?nc = "length (cur_comp_info c)"
  obtain ys k where ys: "ws_cinfo w0 = c\<lparr>out := out c @ stuff ys @ [0xFF, of_nat (0xD0 + ?num)]\<rparr>"
    "bytes_bits ys = pend ?s @ replicate k True" "k \<le> 7" "pend w0 = []" "enc_ok w0"
    "c_last_dc_val (cur w0) = replicate ?nc 0 @ drop ?nc (c_last_dc_val (saved e))"
    using emit_restart_wrote [OF w0 num(2,1)] by auto
  have dcs0: "dcs_ok (ws_cinfo w0) (c_last_dc_val (cur w0))"
    using assms(3) by (auto simp: ys(1,6) enc_inv_def dcs_ok_def dest: in_set_dropD)
  have sm0: "scan_match n e (ws_cinfo w0) d" using assms(4) by (simp add: ys(1))
  have blocks: "\<forall>(ci, block)\<in>set (zip memb m). block_ok n block" using assms(7) by (auto dest: set_zip_rightD)
  note zm = zip_memb [OF assms(6)]
  obtain bits where bits: "sent bits w0 w" "dcs_ok (ws_cinfo w) (c_last_dc_val (cur w))"
    "\<And>b rest. bitread_ok b \<Longrightarrow> avail b = bits @ rest \<Longrightarrow>
    \<exists>b'. decode_blocks (natural_order_of n) (n * n - 1) d 0 (replicate (length memb) (replicate 64 0)) (c_last_dc_val (cur w0)) b
        = Inr (m, c_last_dc_val (cur w), b') \<and> consumed bits b b' \<and> avail b' = rest"
  proof -
    have "map fst (zip memb m) = take (length (zip memb m)) (drop 0 (membership d))" "0 + length (zip memb m) \<le> length (membership d)"
      using zm by (simp_all add: assms(5))
    from blocks_coded [OF w(1) ys(5) sm0 dcs0 this blocks] show ?thesis
      using that unfolding zm(2,3) by auto
  qed
  obtain xs where xs: "ws_cinfo w = (ws_cinfo w0)\<lparr>out := out (ws_cinfo w0) @ stuff xs\<rparr>" "bits = bytes_bits xs @ pend w"
    using bits(1) ys(4) by (auto simp: sent_def)
  have c1: "c1 = c\<lparr>out := out c @ stuff ys @ [0xFF, of_nat (0xD0 + ?num)] @ stuff xs\<rparr>"
    by (simp add: w(2) xs(1) ys(1))
  have num7: "(?num + 1) AND 7 < 8"
  proof -
    have "(7 :: nat) = mask 3" by (simp add: mask_eq_exp_minus_1)
    then have "(?num + 1) AND 7 = take_bit 3 (?num + 1)" by (simp only: take_bit_eq_mask)
    also have "\<dots> < 2 ^ 3" by (rule take_bit_nat_less_exp)
    finally show ?thesis by simp
  qed
  have inv: "enc_inv e1 c1"
    using assms(3) bits(1,2) xs(1) ys(1) num7 by (auto simp: enc_inv_def w sent_def enc_ok_def)
  have sm: "scan_match n e1 c1 d" using assms(4) by (simp add: w(3) c1 scan_match_def scan_comp_def block_order_def)
  have p: "bits = bytes_bits xs @ pend_of e1" using xs(2) by (simp add: pend_of_def pend_def w(3))
  have q: "bytes_bits ys = pend_of e @ replicate k True" using ys(2) by (simp add: pend_of_def pend_def)
  have last: "c_last_dc_val (saved e1) = c_last_dc_val (cur w)" by (simp add: w(3))
  have "\<exists>b' r'. mcu_read n d m e b r e1 b' r' \<and> avail b' = rest \<and> in_step e1 c1 b' r'
          \<and> (\<forall>mk ext zs. mk \<noteq> 0 \<longrightarrow> mk \<noteq> 0xFF \<longrightarrow> rest0 = stuff zs @ 0xFF # mk # ext \<longrightarrow> at_marker mk ext (br_cinfo b'))"
    if s: "in_step e c b r" "avail b = replicate k True" "at_marker (of_nat (0xD0 + ?num)) rest0 (br_cinfo b)"
      "bytes_bits (entropy_data rest0) = bits @ rest" for b r rest0 rest
  proof -
    let ?d = "dec_at d b (c_last_dc_val (saved e)) r"
    have pre: "length (avail (bitstate ?d)) \<le> 7" "bitread_ok (bitstate ?d)"
      "at_marker (of_nat (0xD0 + ?num)) rest0 (br_cinfo (bitstate ?d))" "next_restart_num (br_cinfo (bitstate ?d)) = ?num"
      using s assms(2) ys(3) by (simp_all add: in_step_def mcu_restart_def)
    obtain b0 where b0: "process_restart ?d = ?d\<lparr>bitstate := b0, restarts_to_go := d_restart_interval (br_cinfo b0),
      last_dc_val := replicate (length (d_cur_comp_info (br_cinfo b0))) 0 @ drop (length (d_cur_comp_info (br_cinfo b0))) (last_dc_val ?d)\<rparr>"
      "bitread_ok b0" "\<not> insufficient_data b0" "avail b0 = bytes_bits (entropy_data rest0)"
      "unread_marker (br_cinfo b0) = 0" "input (br_cinfo b0) = rest0"
      "d_restart_interval (br_cinfo b0) = restart_interval c" "length (d_cur_comp_info (br_cinfo b0)) = ?nc"
      "next_restart_num (br_cinfo b0) = (?num + 1) AND 7"
      using process_restart_reads [OF pre num(1)] s(1) by (auto simp: in_step_def)
    have e0: "process_restart ?d = dec_at d b0 (c_last_dc_val (cur w0)) (restart_interval c)"
      unfolding b0(1) b0(7,8) ys(6) by simp
    have yes: "d_restart_interval (br_cinfo b) \<noteq> 0 \<and> r = 0" using s(1) assms(2) by (simp add: in_step_def mcu_restart_def)
    obtain b' where b': "decode_blocks (natural_order_of n) (n * n - 1) d 0 (replicate (length memb) (replicate 64 0)) (c_last_dc_val (cur w0)) b0
        = Inr (m, c_last_dc_val (cur w), b')" "consumed bits b0 b'" "avail b' = rest"
      using bits(3) [OF b0(2)] b0(4) s(4) by metis
    have same: "same_data (br_cinfo b0) (br_cinfo b')" "bitread_ok b'" "insufficient_data b' = insufficient_data b0"
      using b'(2) by (simp_all add: consumed_def)
    let ?r = "(restart_interval c + 2 ^ 32 - 1) mod 2 ^ 32"
    have dec: "decode_mcu_with (natural_order_of n) (n * n - 1) (replicate (length memb) (replicate 64 0)) ?d
        = Inr (m, dec_at d b' (c_last_dc_val (cur w)) ?r)"
      by (rule decode_mcu_body [OF _ b0(3) b'(1)]) (use yes e0 in simp)
    have "1 \<le> restart_interval c" "restart_interval c < 2 ^ 16" using assms(2,3) by (simp_all add: mcu_restart_def enc_inv_def)
    then have "restart_interval c + 2 ^ 32 - 1 = (restart_interval c - 1) + 2 ^ 32" "restart_interval c - 1 < 2 ^ 32" by simp_all
    then have r: "?r = restart_interval c - 1" by (metis mod_add_self2 mod_less)
    have "in_step e1 c1 b' ?r"
      using b0(3,7,8,9) same same_data_fields [OF same(1)] r by (simp add: in_step_def w(3) c1)
    moreover have "at_marker mk ext (br_cinfo b')"
      if "mk \<noteq> 0" "mk \<noteq> 0xFF" "rest0 = stuff zs @ 0xFF # mk # ext" for mk ext zs
    proof -
      have "at_marker mk ext (br_cinfo b0)" using b0(5,6) that(3) by (auto simp: at_marker_def)
      then show ?thesis using same(1) that(1,2) unfolding same_data_def by blast
    qed
    ultimately show ?thesis using dec b'(3) unfolding mcu_read_def last assms(5) by blast
  qed
  then have "restarts_mcu n d m e c e1 c1 k bits" unfolding restarts_mcu_def by blast
  then show ?thesis using inv sm c1 q ys(3) p by blast
qed


section \<open>A scan round trip\<close>

text \<open>
  \<open>decodes\<close>: the bytes \<open>ys\<close> are what the encoder in state \<open>e\<close> still writes before the next
  marker, and the decoder that has read the bits the encoder holds back reads \<open>ms\<close> from them and
  from what follows, and ends at the marker behind the scan.
\<close>

definition resumes ::
  "nat \<Rightarrow> huff_decoder \<Rightarrow> int list list list \<Rightarrow> huff_encoder \<Rightarrow> compress \<Rightarrow> byte list \<Rightarrow> byte \<Rightarrow> byte list \<Rightarrow> byte \<Rightarrow> byte list \<Rightarrow> bool" where
  "resumes n d ms e c ys m0 rest0 mk ext \<longleftrightarrow>
     (\<forall>b r. in_step e c b r \<longrightarrow> pend_of e @ avail b = bytes_bits ys \<longrightarrow> at_marker m0 rest0 (br_cinfo b) \<longrightarrow>
        (\<exists>b' v' r'. decode_mcus (natural_order_of n) (n * n - 1) (length ms) (dec_at d b (c_last_dc_val (saved e)) r)
            = Inr (ms, dec_at d b' v' r') \<and> \<not> insufficient_data b' \<and> at_marker mk ext (br_cinfo b')))"

definition decodes ::
  "nat \<Rightarrow> huff_decoder \<Rightarrow> int list list list \<Rightarrow> huff_encoder \<Rightarrow> compress \<Rightarrow> byte list \<Rightarrow> byte list \<Rightarrow> bool" where
  "decodes n d ms e c ys T \<longleftrightarrow> (\<exists>zs. bytes_bits ys = pend_of e @ zs)
    \<and> (\<forall>mk ext. mk \<noteq> 0 \<longrightarrow> mk \<noteq> 0xFF \<longrightarrow> (\<exists>m0 rest0. T @ 0xFF # mk # ext = 0xFF # m0 # rest0 \<and> m0 \<noteq> 0 \<and> m0 \<noteq> 0xFF
        \<and> resumes n d ms e c ys m0 rest0 mk ext))"

lemma decode_mcus_Cons:
  assumes "mcu_read n d m e b r e1 b1 r1"
    "decode_mcus (natural_order_of n) (n * n - 1) (length ms) (dec_at d b1 (c_last_dc_val (saved e1)) r1) = Inr (ms, d2)"
  shows "decode_mcus (natural_order_of n) (n * n - 1) (length (m # ms)) (dec_at d b (c_last_dc_val (saved e)) r) = Inr (m # ms, d2)"
  using assms by (simp add: mcu_read_def DCTSIZE2_def)

lemma resumes_next:
  assumes "reads_mcu n d m e c e1 c1 bs" "resumes n d ms e1 c1 ys m0 rest0 mk ext" "m0 \<noteq> 0" "m0 \<noteq> 0xFF"
    "bytes_bits ys = pend_of e1 @ zs" "bytes_bits (xs @ ys) = pend_of e @ bs @ zs"
  shows "resumes n d (m # ms) e c (xs @ ys) m0 rest0 mk ext"
  unfolding resumes_def
proof (intro allI impI)
  fix b r
  assume s: "in_step e c b r" "pend_of e @ avail b = bytes_bits (xs @ ys)" "at_marker m0 rest0 (br_cinfo b)"
  have "avail b = bs @ zs" using s(2) assms(6) by simp
  then obtain b1 r1 where b1: "mcu_read n d m e b r e1 b1 r1" "same_data (br_cinfo b) (br_cinfo b1)" "avail b1 = zs" "in_step e1 c1 b1 r1"
    using assms(1) s(1) unfolding reads_mcu_def by blast
  have "at_marker m0 rest0 (br_cinfo b1)" using b1(2) s(3) assms(3,4) unfolding same_data_def by blast
  moreover have "pend_of e1 @ avail b1 = bytes_bits ys" by (simp add: b1(3) assms(5))
  ultimately obtain b' v' r' where
    "decode_mcus (natural_order_of n) (n * n - 1) (length ms) (dec_at d b1 (c_last_dc_val (saved e1)) r1) = Inr (ms, dec_at d b' v' r')"
    "\<not> insufficient_data b'" "at_marker mk ext (br_cinfo b')"
    using assms(2) b1(4) unfolding resumes_def by blast
  then show "\<exists>b' v' r'. decode_mcus (natural_order_of n) (n * n - 1) (length (m # ms)) (dec_at d b (c_last_dc_val (saved e)) r)
      = Inr (m # ms, dec_at d b' v' r') \<and> \<not> insufficient_data b' \<and> at_marker mk ext (br_cinfo b')"
    using decode_mcus_Cons [OF b1(1)] by blast
qed

lemma resumes_restart:
  assumes "restarts_mcu n d m e c e1 c1 k bs" "resumes n d ms e1 c1 ys m0 rest0 mk ext" "m0 \<noteq> 0" "m0 \<noteq> 0xFF"
    "bytes_bits ys = pend_of e1 @ zs" "bs = bytes_bits xs @ pend_of e1" "bytes_bits ys0 = pend_of e @ replicate k True"
  shows "resumes n d (m # ms) e c ys0 (of_nat (0xD0 + c_next_restart_num e)) (stuff (xs @ ys) @ 0xFF # m0 # rest0) mk ext"
  unfolding resumes_def
proof (intro allI impI)
  let ?tail = "stuff (xs @ ys) @ 0xFF # m0 # rest0"
  fix b r
  assume s: "in_step e c b r" "pend_of e @ avail b = bytes_bits ys0" "at_marker (of_nat (0xD0 + c_next_restart_num e)) ?tail (br_cinfo b)"
  have av: "avail b = replicate k True" using s(2) assms(7) by simp
  have "entropy_data ?tail = xs @ ys" by (simp only: entropy_data_stuff entropy_data_marker [OF assms(3,4)] append_Nil2)
  then have "bytes_bits (entropy_data ?tail) = bs @ zs" by (simp add: assms(5,6))
  then obtain b1 r1 where b1: "mcu_read n d m e b r e1 b1 r1" "avail b1 = zs" "in_step e1 c1 b1 r1" "at_marker m0 rest0 (br_cinfo b1)"
    using assms(1) s(1,3) av assms(3,4) unfolding restarts_mcu_def by blast
  have "pend_of e1 @ avail b1 = bytes_bits ys" by (simp add: b1(2) assms(5))
  then obtain b' v' r' where
    "decode_mcus (natural_order_of n) (n * n - 1) (length ms) (dec_at d b1 (c_last_dc_val (saved e1)) r1) = Inr (ms, dec_at d b' v' r')"
    "\<not> insufficient_data b'" "at_marker mk ext (br_cinfo b')"
    using assms(2) b1(3,4) unfolding resumes_def by blast
  then show "\<exists>b' v' r'. decode_mcus (natural_order_of n) (n * n - 1) (length (m # ms)) (dec_at d b (c_last_dc_val (saved e)) r)
      = Inr (m # ms, dec_at d b' v' r') \<and> \<not> insufficient_data b' \<and> at_marker mk ext (br_cinfo b')"
    using decode_mcus_Cons [OF b1(1)] by blast
qed

lemma decodes_end:
  assumes "finish_pass_huff (e, c) = Inr (e2, c2)" "enc_inv e c"
  shows "\<exists>ys T. c2 = c\<lparr>out := out c @ stuff ys @ T\<rparr> \<and> decodes n d [] e c ys T"
proof -
  obtain w where w: "flush_bits_s \<lparr>cur = saved e, ws_cinfo = c\<rparr> = Inr w" "c2 = ws_cinfo w"
    using assms(1) by (auto simp: finish_pass_huff_def bind_err_Inr)
  have ok: "enc_ok \<lparr>cur = saved e, ws_cinfo = c\<rparr>" using assms(2) by (simp add: enc_inv_def)
  obtain ys k where f: "c2 = c\<lparr>out := out c @ stuff ys\<rparr>" "bytes_bits ys = pend_of e @ replicate k True"
    using flush_bits_wrote [OF w(1) ok] by (auto simp: w(2) pend_def pend_of_def)
  have "resumes n d [] e c ys mk ext mk ext" for mk ext
    unfolding resumes_def
  proof (intro allI impI)
    fix b r
    assume "in_step e c b r" "at_marker mk ext (br_cinfo b)"
    then show "\<exists>b' v' r'. decode_mcus (natural_order_of n) (n * n - 1) (length []) (dec_at d b (c_last_dc_val (saved e)) r)
        = Inr ([], dec_at d b' v' r') \<and> \<not> insufficient_data b' \<and> at_marker mk ext (br_cinfo b')"
      by (intro exI [of _ b] exI [of _ "c_last_dc_val (saved e)"] exI [of _ r]) (simp add: in_step_def)
  qed
  then have "decodes n d [] e c ys []" using f(2) by (simp add: decodes_def)
  then show ?thesis using f(1) by (metis append_Nil2)
qed

lemma restart_byte:
  assumes "num < 8"
  shows "(of_nat (0xD0 + num) :: byte) \<noteq> 0" "(of_nat (0xD0 + num) :: byte) \<noteq> 0xFF"
proof -
  have "unat (of_nat (0xD0 + num) :: byte) = 0xD0 + num" using assms by (simp add: unat_of_nat del: of_nat_add)
  then show "(of_nat (0xD0 + num) :: byte) \<noteq> 0" "(of_nat (0xD0 + num) :: byte) \<noteq> 0xFF"
    using assms by (auto simp: word_unat_eq_iff simp del: of_nat_add)
qed

lemma mcus_coded:
  assumes "encode_mcus memb ms (e, c) = Inr s1" "finish_pass_huff s1 = Inr (e2, c2)" "enc_inv e c" "scan_match n e c d"
    "memb = membership d" "\<forall>m\<in>set ms. length m = length memb \<and> (\<forall>block\<in>set m. block_ok n block)"
  shows "\<exists>ys T. c2 = c\<lparr>out := out c @ stuff ys @ T\<rparr> \<and> decodes n d ms e c ys T"
  using assms(1,3,4,6)
proof (induction ms arbitrary: e c)
  case Nil
  then show ?case using decodes_end assms(2) by simp
next
  case (Cons m ms)
  obtain e1 c1 where e1: "encode_mcu_huff memb m (e, c) = Inr (e1, c1)" "encode_mcus memb ms (e1, c1) = Inr s1"
    using Cons.prems(1) by (auto simp: bind_err_Inr)
  have m: "length m = length memb" "\<forall>block\<in>set m. block_ok n block"
    and rest: "\<forall>m\<in>set ms. length m = length memb \<and> (\<forall>block\<in>set m. block_ok n block)" using Cons.prems(4) by simp_all
  show ?case
  proof (cases "mcu_restart e c")
    case False
    note step = mcu_no_restart [OF e1(1) False Cons.prems(2,3) assms(5) m]
    obtain bits xs where x: "c1 = c\<lparr>out := out c @ stuff xs\<rparr>" "pend_of e @ bits = bytes_bits xs @ pend_of e1" "reads_mcu n d m e c e1 c1 bits"
      using step by blast
    obtain ys T where y: "c2 = c1\<lparr>out := out c1 @ stuff ys @ T\<rparr>" "decodes n d ms e1 c1 ys T"
      using Cons.IH [OF e1(2) _ _ rest] step by blast
    obtain zs where zs: "bytes_bits ys = pend_of e1 @ zs" using y(2) by (auto simp: decodes_def)
    have all: "bytes_bits (xs @ ys) = pend_of e @ bits @ zs" using x(2) zs by (metis append.assoc bytes_bits_append(1))
    have "decodes n d (m # ms) e c (xs @ ys) T"
      using y(2) all resumes_next [OF x(3) _ _ _ zs all] unfolding decodes_def by metis
    moreover have "c2 = c\<lparr>out := out c @ stuff (xs @ ys) @ T\<rparr>" by (simp add: y(1) x(1))
    ultimately show ?thesis by blast
  next
    case True
    let ?rst = "of_nat (0xD0 + c_next_restart_num e) :: byte"
    note step = mcu_after_restart [OF e1(1) True Cons.prems(2,3) assms(5) m]
    obtain ys0 k bits xs where x: "c1 = c\<lparr>out := out c @ stuff ys0 @ [0xFF, ?rst] @ stuff xs\<rparr>"
      "bytes_bits ys0 = pend_of e @ replicate k True" "bits = bytes_bits xs @ pend_of e1" "restarts_mcu n d m e c e1 c1 k bits"
      using step by blast
    obtain ys T where y: "c2 = c1\<lparr>out := out c1 @ stuff ys @ T\<rparr>" "decodes n d ms e1 c1 ys T"
      using Cons.IH [OF e1(2) _ _ rest] step by blast
    obtain zs where zs: "bytes_bits ys = pend_of e1 @ zs" using y(2) by (auto simp: decodes_def)
    have rst: "?rst \<noteq> 0" "?rst \<noteq> 0xFF" using restart_byte Cons.prems(2) by (simp_all add: enc_inv_def)
    define T1 where "T1 = [0xFF, ?rst] @ stuff (xs @ ys) @ T"
    have "\<exists>m0 rest0. T1 @ 0xFF # mk # ext = 0xFF # m0 # rest0 \<and> m0 \<noteq> 0 \<and> m0 \<noteq> 0xFF \<and> resumes n d (m # ms) e c ys0 m0 rest0 mk ext"
      if mk: "mk \<noteq> 0" "mk \<noteq> 0xFF" for mk ext
    proof -
      obtain m0 rest0 where r0: "T @ 0xFF # mk # ext = 0xFF # m0 # rest0" "m0 \<noteq> 0" "m0 \<noteq> 0xFF" "resumes n d ms e1 c1 ys m0 rest0 mk ext"
        using y(2) mk unfolding decodes_def by blast
      have "T1 @ 0xFF # mk # ext = 0xFF # ?rst # stuff (xs @ ys) @ 0xFF # m0 # rest0" using r0(1) by (simp add: T1_def)
      then show ?thesis using rst resumes_restart [OF x(4) r0(4,2,3) zs x(3,2)] by blast
    qed
    then have "decodes n d (m # ms) e c ys0 T1" using x(2) unfolding decodes_def by blast
    moreover have "c2 = c\<lparr>out := out c @ stuff ys0 @ T1\<rparr>" by (simp add: y(1) x(1) T1_def)
    ultimately show ?thesis by blast
  qed
qed

end
