(* ===== verification/HuffStart.thy ===== *)
theory HuffStart
  imports HuffScan
begin

text \<open>
  The start of a sequential Huffman pass, \<open>start_pass_huff\<close> of \<open>jpeg-9a/jchuff.c\<close> and
  \<open>start_pass_huff_decoder\<close> of \<open>jdhuff.c\<close>, and the round trip of a whole scan.
\<close>

section \<open>The encoder\<close>

fun make_c_tables :: "compress \<Rightarrow> nat list \<Rightarrow> huff_encoder \<Rightarrow> huff_encoder result" where
  "make_c_tables c [] e = Inr e"
| "make_c_tables c (ci # cis) e =
     (let compptr = scan_comp c ci
      in bind_err (if Ss c = 0 \<and> Ah c = 0
                   then bind_err (jpeg_make_c_derived_tbl True (dc_tbl_no compptr) c) (\<lambda>t.
                          Inr (e\<lparr>dc_derived_tbls := (dc_derived_tbls e)[dc_tbl_no compptr := t],
                                 saved := (saved e)\<lparr>c_last_dc_val := (c_last_dc_val (saved e))[ci := 0]\<rparr>\<rparr>))
                   else Inr e) (\<lambda>e1.
         bind_err (if Se c \<noteq> 0
                   then bind_err (jpeg_make_c_derived_tbl False (ac_tbl_no compptr) c) (\<lambda>t.
                          Inr (e1\<lparr>ac_derived_tbls := (ac_derived_tbls e1)[ac_tbl_no compptr := t]\<rparr>))
                   else Inr e1) (make_c_tables c cis)))"

text \<open>\<open>start_pass_huff\<close>, sequential mode, not gathering statistics.\<close>

definition start_pass_huff :: "compress \<Rightarrow> huff_encoder \<Rightarrow> huff_encoder result" where
  "start_pass_huff c e =
     bind_err (make_c_tables c [0..<length (cur_comp_info c)] e) (\<lambda>e1.
       Inr (e1\<lparr>saved := (saved e1)\<lparr>put_buffer := 0, put_bits := 0\<rparr>,
               c_restarts_to_go := restart_interval c, c_next_restart_num := 0\<rparr>))"

section \<open>The decoder\<close>

text \<open>The tables of \<open>jdhuff.c\<close> for full and reduced blocks, by rows.\<close>

definition zigzag_rows :: "nat \<Rightarrow> nat list list" where
  "zigzag_rows n =
     (if n = 2 then [[0, 1], [2, 3]]
      else if n = 3 then [[0, 1, 5], [2, 4, 6], [3, 7, 8]]
      else if n = 4 then [[0, 1, 5, 6], [2, 4, 7, 12], [3, 8, 11, 13], [9, 10, 14, 15]]
      else if n = 5 then
        [[0, 1, 5, 6, 14], [2, 4, 7, 13, 15], [3, 8, 12, 16, 21], [9, 11, 17, 20, 22], [10, 18, 19, 23, 24]]
      else if n = 6 then
        [[0, 1, 5, 6, 14, 15], [2, 4, 7, 13, 16, 25], [3, 8, 12, 17, 24, 26], [9, 11, 18, 23, 27, 32],
         [10, 19, 22, 28, 31, 33], [20, 21, 29, 30, 34, 35]]
      else if n = 7 then
        [[0, 1, 5, 6, 14, 15, 27], [2, 4, 7, 13, 16, 26, 28], [3, 8, 12, 17, 25, 29, 38],
         [9, 11, 18, 24, 30, 37, 39], [10, 19, 23, 31, 36, 40, 45], [20, 22, 32, 35, 41, 44, 46],
         [21, 33, 34, 42, 43, 47, 48]]
      else
        [[0, 1, 5, 6, 14, 15, 27, 28], [2, 4, 7, 13, 16, 26, 29, 42], [3, 8, 12, 17, 25, 30, 41, 43],
         [9, 11, 18, 24, 31, 40, 44, 53], [10, 19, 23, 32, 39, 45, 52, 54], [20, 22, 33, 38, 46, 51, 55, 60],
         [21, 34, 37, 47, 50, 56, 59, 61], [35, 36, 48, 49, 57, 58, 62, 63]])"

text \<open>
  How many coefficients of a block are wanted, for the scaled size \<open>v\<close> by \<open>h\<close> of its component.
\<close>

definition coef_limit_of :: "nat \<Rightarrow> bool \<Rightarrow> int \<Rightarrow> int \<Rightarrow> nat" where
  "coef_limit_of lim needed v h =
     (if \<not> needed then 0
      else if lim = 0 then 1
      else (let n = (if lim = 2*2-1 then 2 else if lim = 3*3-1 then 3 else if lim = 4*4-1 then 4
                     else if lim = 5*5-1 then 5 else if lim = 6*6-1 then 6 else if lim = 7*7-1 then 7 else 8);
                ci = (if v \<le> 0 \<or> v > int n then n else nat v);
                i = (if h \<le> 0 \<or> h > int n then n else nat h)
            in 1 + zigzag_rows n ! (ci - 1) ! (i - 1)))"

text \<open>What the decoder's pass needs of the decompressor that the marker reader does not keep.\<close>

record scan_layout =
  d_lim_Se :: nat
  MCU_membership :: "nat list"
  component_needed :: "nat \<Rightarrow> bool"
  DCT_v_scaled_size :: "nat \<Rightarrow> int"
  DCT_h_scaled_size :: "nat \<Rightarrow> int"

definition d_scan_comp :: "decompress \<Rightarrow> nat \<Rightarrow> component" where
  "d_scan_comp d ci = d_comp_info d ! (d_cur_comp_info d ! ci)"

type_synonym d_tables = "(nat \<Rightarrow> d_derived_tbl) \<times> (nat \<Rightarrow> d_derived_tbl) \<times> int list"

fun make_d_tables :: "decompress \<Rightarrow> nat \<Rightarrow> nat list \<Rightarrow> d_tables \<Rightarrow> d_tables result" where
  "make_d_tables d lim [] ts = Inr ts"
| "make_d_tables d lim (ci # cis) (dcs, acs, preds) =
     (let compptr = d_scan_comp d ci
      in bind_err (jpeg_make_d_derived_tbl True (dc_tbl_no compptr) d) (\<lambda>t.
         bind_err (if lim \<noteq> 0
                   then bind_err (jpeg_make_d_derived_tbl False (ac_tbl_no compptr) d) (\<lambda>u. Inr (acs(ac_tbl_no compptr := u)))
                   else Inr acs) (\<lambda>acs1.
           make_d_tables d lim cis (dcs(dc_tbl_no compptr := t), acs1, preds[ci := 0]))))"

text \<open>
  \<open>start_pass_huff_decoder\<close>, sequential mode; the out-of-range scan parameters it warns about
  change nothing.  \<open>dcs0\<close> and \<open>acs0\<close> are the tables of earlier scans.
\<close>

definition start_pass_huff_decoder :: "scan_layout \<Rightarrow> d_tables \<Rightarrow> decompress \<Rightarrow> huff_decoder result" where
  "start_pass_huff_decoder sl ts d =
     bind_err (make_d_tables d (d_lim_Se sl) [0..<length (d_cur_comp_info d)] ts) (\<lambda>(dcs, acs, preds).
       Inr \<lparr>bitstate = \<lparr>get_buffer = 0, bits_left = 0, insufficient_data = False, br_cinfo = d\<rparr>,
            last_dc_val = preds, restarts_to_go = d_restart_interval d,
            dc_cur_tbls = map (\<lambda>ci. dcs (dc_tbl_no (d_scan_comp d ci))) (MCU_membership sl),
            ac_cur_tbls = map (\<lambda>ci. acs (ac_tbl_no (d_scan_comp d ci))) (MCU_membership sl),
            coef_limit = map (\<lambda>ci. let i = d_cur_comp_info d ! ci in
              coef_limit_of (d_lim_Se sl) (component_needed sl i) (DCT_v_scaled_size sl i) (DCT_h_scaled_size sl i)) (MCU_membership sl),
            membership = MCU_membership sl\<rparr>)"


section \<open>What the start leaves\<close>

lemma bind_if_Inr: "bind_err (if P then x else Inr y) f = (if P then bind_err x f else f y)"
  by simp

lemma make_c_tables_result:
  assumes "make_c_tables c cis e = Inr e'" "Ss c = 0" "Ah c = 0" "Se c \<noteq> 0"
    "length (dc_derived_tbls e) = 4" "length (ac_derived_tbls e) = 4"
  shows "(\<forall>ci\<in>set cis. jpeg_make_c_derived_tbl True (dc_tbl_no (scan_comp c ci)) c = Inr (dc_derived_tbls e' ! dc_tbl_no (scan_comp c ci))
      \<and> jpeg_make_c_derived_tbl False (ac_tbl_no (scan_comp c ci)) c = Inr (ac_derived_tbls e' ! ac_tbl_no (scan_comp c ci)))
    \<and> (\<forall>i. dc_derived_tbls e' ! i = dc_derived_tbls e ! i \<or> jpeg_make_c_derived_tbl True i c = Inr (dc_derived_tbls e' ! i))
    \<and> (\<forall>i. ac_derived_tbls e' ! i = ac_derived_tbls e ! i \<or> jpeg_make_c_derived_tbl False i c = Inr (ac_derived_tbls e' ! i))
    \<and> c_last_dc_val (saved e') = fold (\<lambda>ci dcs. dcs[ci := 0]) cis (c_last_dc_val (saved e))"
  using assms(1,5,6)
proof (induction cis arbitrary: e)
  case (Cons ci cis)
  let ?i = "dc_tbl_no (scan_comp c ci)" and ?j = "ac_tbl_no (scan_comp c ci)"
  obtain t u where t: "jpeg_make_c_derived_tbl True ?i c = Inr t" "jpeg_make_c_derived_tbl False ?j c = Inr u"
    and run: "make_c_tables c cis (e\<lparr>dc_derived_tbls := (dc_derived_tbls e)[?i := t],
        saved := (saved e)\<lparr>c_last_dc_val := (c_last_dc_val (saved e))[ci := 0]\<rparr>,
        ac_derived_tbls := (ac_derived_tbls e)[?j := u]\<rparr>) = Inr e'"
    using Cons.prems(1) assms(2-4) by (auto simp: Let_def bind_err_Inr)
  have ij: "?i < 4" "?j < 4" using t by (auto simp: jpeg_make_c_derived_tbl_def NUM_HUFF_TBLS_def split: if_splits)
  have at: "((dc_derived_tbls e)[?i := t]) ! i = (if i = ?i then t else dc_derived_tbls e ! i)"
    "((ac_derived_tbls e)[?j := u]) ! i = (if i = ?j then u else ac_derived_tbls e ! i)" for i
    using ij Cons.prems(2,3) by (simp_all add: nth_list_update)
  note IH = Cons.IH [OF run, simplified at, simplified, OF Cons.prems(2,3)]
  have dc: "dc_derived_tbls e' ! i = (if i = ?i then t else dc_derived_tbls e ! i) \<or> jpeg_make_c_derived_tbl True i c = Inr (dc_derived_tbls e' ! i)"
    and ac: "ac_derived_tbls e' ! i = (if i = ?j then u else ac_derived_tbls e ! i) \<or> jpeg_make_c_derived_tbl False i c = Inr (ac_derived_tbls e' ! i)" for i
    using IH by (auto simp: at)
  have "jpeg_make_c_derived_tbl True ?i c = Inr (dc_derived_tbls e' ! ?i)" "jpeg_make_c_derived_tbl False ?j c = Inr (ac_derived_tbls e' ! ?j)"
    using dc [of ?i] ac [of ?j] t by auto
  moreover have "dc_derived_tbls e' ! i = dc_derived_tbls e ! i \<or> jpeg_make_c_derived_tbl True i c = Inr (dc_derived_tbls e' ! i)"
    "ac_derived_tbls e' ! i = ac_derived_tbls e ! i \<or> jpeg_make_c_derived_tbl False i c = Inr (ac_derived_tbls e' ! i)" for i
    using dc [of i] ac [of i] t by (auto split: if_splits)
  ultimately show ?case using IH by simp
qed simp

lemma make_d_tables_result:
  assumes "make_d_tables d lim cis (dcs, acs, preds) = Inr (dcs', acs', preds')" "lim \<noteq> 0"
  shows "(\<forall>ci\<in>set cis. jpeg_make_d_derived_tbl True (dc_tbl_no (d_scan_comp d ci)) d = Inr (dcs' (dc_tbl_no (d_scan_comp d ci)))
      \<and> jpeg_make_d_derived_tbl False (ac_tbl_no (d_scan_comp d ci)) d = Inr (acs' (ac_tbl_no (d_scan_comp d ci))))
    \<and> (\<forall>i. dcs' i = dcs i \<or> jpeg_make_d_derived_tbl True i d = Inr (dcs' i))
    \<and> (\<forall>i. acs' i = acs i \<or> jpeg_make_d_derived_tbl False i d = Inr (acs' i))
    \<and> preds' = fold (\<lambda>ci dcs. dcs[ci := 0]) cis preds"
  using assms(1)
proof (induction cis arbitrary: dcs acs preds)
  case (Cons ci cis)
  let ?i = "dc_tbl_no (d_scan_comp d ci)" and ?j = "ac_tbl_no (d_scan_comp d ci)"
  obtain t u where t: "jpeg_make_d_derived_tbl True ?i d = Inr t" "jpeg_make_d_derived_tbl False ?j d = Inr u"
    and run: "make_d_tables d lim cis (dcs(?i := t), acs(?j := u), preds[ci := 0]) = Inr (dcs', acs', preds')"
    using Cons.prems assms(2) by (auto simp: Let_def bind_err_Inr)
  note IH = Cons.IH [OF run]
  have "dcs' i = (if i = ?i then t else dcs i) \<or> jpeg_make_d_derived_tbl True i d = Inr (dcs' i)"
    "acs' i = (if i = ?j then u else acs i) \<or> jpeg_make_d_derived_tbl False i d = Inr (acs' i)" for i
    using IH by (auto simp: fun_upd_def)
  note both = this
  have "jpeg_make_d_derived_tbl True ?i d = Inr (dcs' ?i)" "jpeg_make_d_derived_tbl False ?j d = Inr (acs' ?j)"
    using both(1) [of ?i] both(2) [of ?j] t by auto
  moreover have "dcs' i = dcs i \<or> jpeg_make_d_derived_tbl True i d = Inr (dcs' i)"
    "acs' i = acs i \<or> jpeg_make_d_derived_tbl False i d = Inr (acs' i)" for i
    using both(1) [of i] both(2) [of i] t by (auto split: if_splits)
  ultimately show ?case using IH by simp
qed simp

lemma make_d_tables_succeeds:
  assumes "\<forall>ci\<in>set cis. (\<exists>t. jpeg_make_d_derived_tbl True (dc_tbl_no (d_scan_comp d ci)) d = Inr t)
      \<and> (\<exists>u. jpeg_make_d_derived_tbl False (ac_tbl_no (d_scan_comp d ci)) d = Inr u)"
  shows "\<exists>ts'. make_d_tables d lim cis ts = Inr ts'"
  using assms
proof (induction cis arbitrary: ts)
  case (Cons ci cis)
  obtain dcs acs preds where "ts = (dcs, acs, preds)" by (cases ts)
  moreover obtain t u where "jpeg_make_d_derived_tbl True (dc_tbl_no (d_scan_comp d ci)) d = Inr t"
    "jpeg_make_d_derived_tbl False (ac_tbl_no (d_scan_comp d ci)) d = Inr u" using Cons.prems by auto
  ultimately show ?case using Cons by (cases "lim = 0") (auto simp: Let_def)
next
  case Nil
  show ?case by (intro exI, rule make_d_tables.simps(1))
qed

lemma fold_zero_preds:
  "fold (\<lambda>ci dcs. dcs[ci := 0]) [0..<k] dcs = replicate (min k (length dcs)) 0 @ drop k dcs"
proof (induction k)
  case (Suc k)
  have "(replicate (min k (length dcs)) 0 @ drop k dcs)[k := 0] = replicate (min (Suc k) (length dcs)) 0 @ drop (Suc k) dcs"
  proof (cases "k < length dcs")
    case True
    then have "drop k dcs = dcs ! k # drop (Suc k) dcs" by (rule Cons_nth_drop_Suc [symmetric])
    then show ?thesis using True by (simp add: list_update_append replicate_append_same [symmetric])
  next
    case False
    then show ?thesis by (simp add: list_update_beyond)
  qed
  then show ?case using Suc by simp
qed simp

lemma coef_limit_full:
  assumes "2 \<le> n" "n \<le> 8" "int n \<le> v" "int n \<le> h"
  shows "coef_limit_of (n * n - 1) True v h = n * n"
proof -
  have "1 \<le> n" using assms(1) by simp
  from square_cases [OF this assms(2)] assms(1,3,4) show ?thesis
    by (elim disjE) (simp_all add: coef_limit_of_def zigzag_rows_def)
qed


section \<open>The round trip of a scan\<close>

text \<open>
  The two sides agree: block size, component tables and layout of the MCU, restart interval, and
  the decoder's Huffman tables carry the encoder's codes, as after a DHT marker.
\<close>

definition sides_agree :: "nat \<Rightarrow> compress \<Rightarrow> scan_layout \<Rightarrow> decompress \<Rightarrow> bool" where
  "sides_agree n c sl d \<longleftrightarrow> 2 \<le> n \<and> block_order n c \<and> Ss c = 0 \<and> Ah c = 0 \<and> Se c = lim_Se c \<and> restart_interval c < 2 ^ 16
    \<and> length (dc_huff_tbl_ptrs c) = 4 \<and> length (ac_huff_tbl_ptrs c) = 4
    \<and> length (d_cur_comp_info d) = length (cur_comp_info c) \<and> length (cur_comp_info c) \<le> 4
    \<and> d_restart_interval d = restart_interval c \<and> d_lim_Se sl = n * n - 1
    \<and> (\<forall>ci<length (cur_comp_info c). dc_tbl_no (d_scan_comp d ci) = dc_tbl_no (scan_comp c ci)
         \<and> ac_tbl_no (d_scan_comp d ci) = ac_tbl_no (scan_comp c ci))
    \<and> (\<forall>ci\<in>set (MCU_membership sl). ci < length (cur_comp_info c) \<and> component_needed sl (d_cur_comp_info d ! ci)
         \<and> int n \<le> DCT_v_scaled_size sl (d_cur_comp_info d ! ci) \<and> int n \<le> DCT_h_scaled_size sl (d_cur_comp_info d ! ci))
    \<and> (\<forall>i<4. case (dc_huff_tbl_ptrs c ! i, d_dc_huff_tbl_ptrs d ! i) of
         (Some h, Some h') \<Rightarrow> same_code h h' \<and> length (huffval h) = 256 \<and> length (huffval h') = 256
       | (None, _) \<Rightarrow> True | _ \<Rightarrow> False)
    \<and> (\<forall>i<4. case (ac_huff_tbl_ptrs c ! i, d_ac_huff_tbl_ptrs d ! i) of
         (Some h, Some h') \<Rightarrow> same_code h h' \<and> length (huffval h) = 256 \<and> length (huffval h') = 256
       | (None, _) \<Rightarrow> True | _ \<Rightarrow> False)"

lemma decoder_accepts_same:
  assumes "c_table isDC h = Inr t" "length (huffval h) = 256" "same_code h h'" "length (huffval h') = 256"
  shows "\<exists>u. d_table isDC h' = Inr u \<and> tables_match t u"
proof -
  obtain u where "d_table isDC h = Inr u" using decoder_accepts [OF assms(1,2)] by blast
  then have dc: "\<not> (isDC \<and> (\<exists>i\<in>set [0..<length (all_sizes (bits h))]. huffval h ! i > 15))" and tree: "code_tree (bits h)"
    using d_table_ok(1) [of isDC h u] unfolding d_table_def make_codes_spec
    by (auto simp: Let_def split: if_splits prod.splits)
  have b: "bits h' = bits h" using assms(3) by (simp add: same_code_def)
  obtain maxc offs nb symb where *:
    "decode_limits (bits h') (all_codes (bits h')) [1..<17] 0 (replicate 18 0) (replicate 17 0) = (maxc, offs)"
    "look_tables (bits h') (all_codes (bits h')) (huffval h') [1..<HUFF_LOOKAHEAD + 1] 0
        (replicate 256 0, replicate 256 0) = (nb, symb)" by (metis surj_pair)
  have "\<not> (isDC \<and> (\<exists>i\<in>set [0..<length (all_sizes (bits h'))]. huffval h' ! i > 15))"
    using dc assms(3) by (auto simp: b same_code_def length_all)
  then obtain u' where u': "d_table isDC h' = Inr u'"
    using tree unfolding b [symmetric] by (simp only: d_table_result [OF _ *] if_False)
  have "tables_match t u'"
    using assms u' d_table_ok(2) [OF u'] unfolding tables_match_def d_valid_def c_valid_def by auto
  then show ?thesis using u' by blast
qed

lemma side_tables:
  assumes "sides_agree n c sl d" "jpeg_make_c_derived_tbl isDC i c = Inr t"
  shows "\<exists>u. jpeg_make_d_derived_tbl isDC i d = Inr u \<and> tables_match t u"
proof -
  have i: "i < 4" using assms(2) by (auto simp: jpeg_make_c_derived_tbl_def NUM_HUFF_TBLS_def split: if_splits)
  obtain h where h: "(if isDC then dc_huff_tbl_ptrs c else ac_huff_tbl_ptrs c) ! i = Some h" "c_table isDC h = Inr t"
    using assms(2) i by (auto simp: jpeg_make_c_derived_tbl_def NUM_HUFF_TBLS_def split: option.splits)
  have dc: "case (dc_huff_tbl_ptrs c ! i, d_dc_huff_tbl_ptrs d ! i) of
         (Some h, Some h') \<Rightarrow> same_code h h' \<and> length (huffval h) = 256 \<and> length (huffval h') = 256
       | (None, _) \<Rightarrow> True | _ \<Rightarrow> False"
    and ac: "case (ac_huff_tbl_ptrs c ! i, d_ac_huff_tbl_ptrs d ! i) of
         (Some h, Some h') \<Rightarrow> same_code h h' \<and> length (huffval h) = 256 \<and> length (huffval h') = 256
       | (None, _) \<Rightarrow> True | _ \<Rightarrow> False"
    using assms(1) i unfolding sides_agree_def by blast+
  obtain h' where h': "(if isDC then d_dc_huff_tbl_ptrs d else d_ac_huff_tbl_ptrs d) ! i = Some h'"
    "same_code h h'" "length (huffval h) = 256" "length (huffval h') = 256"
    using dc ac h(1) by (cases isDC) (auto split: option.splits)
  obtain u where "d_table isDC h' = Inr u" "tables_match t u"
    using decoder_accepts_same [OF h(2) h'(3,2,4)] by blast
  then show ?thesis using i h'(1) by (auto simp: jpeg_make_d_derived_tbl_def NUM_HUFF_TBLS_def)
qed


abbreviation preds_of :: "compress \<Rightarrow> huff_encoder \<Rightarrow> int list" where
  "preds_of c e0 \<equiv> replicate (length (cur_comp_info c)) 0 @ drop (length (cur_comp_info c)) (c_last_dc_val (saved e0))"

lemma preds_fold:
  assumes "sides_agree n c sl d" "length (c_last_dc_val (saved e0)) = 4"
  shows "fold (\<lambda>ci dcs. dcs[ci := 0]) [0..<length (cur_comp_info c)] (c_last_dc_val (saved e0)) = preds_of c e0"
  using fold_zero_preds [of "length (cur_comp_info c)" "c_last_dc_val (saved e0)"] assms by (simp add: sides_agree_def)

lemma sides_order:
  assumes "sides_agree n c sl d"
  shows "n \<le> 8" "n * n - 1 \<noteq> 0" "Se c \<noteq> 0"
proof -
  have "2 \<le> n" using assms by (simp add: sides_agree_def)
  then have "4 \<le> n * n" using mult_le_mono [of 2 n 2 n] by simp
  then show "n * n - 1 \<noteq> 0" "Se c \<noteq> 0" "n \<le> 8" using assms by (simp_all add: sides_agree_def block_order_def)
qed

lemma encoder_started:
  assumes "sides_agree n c sl d" "start_pass_huff c e0 = Inr e"
    "length (dc_derived_tbls e0) = 4" "length (ac_derived_tbls e0) = 4" "length (c_last_dc_val (saved e0)) = 4"
    "\<forall>v\<in>set (c_last_dc_val (saved e0)). - (2 ^ 15) \<le> v \<and> v < 2 ^ 15"
  shows "enc_inv e c" "pend_of e = []" "c_last_dc_val (saved e) = preds_of c e0"
    "c_restarts_to_go e = restart_interval c" "c_next_restart_num e = 0"
    "ci < length (cur_comp_info c) \<Longrightarrow>
      jpeg_make_c_derived_tbl True (dc_tbl_no (scan_comp c ci)) c = Inr (dc_derived_tbls e ! dc_tbl_no (scan_comp c ci))"
    "ci < length (cur_comp_info c) \<Longrightarrow>
      jpeg_make_c_derived_tbl False (ac_tbl_no (scan_comp c ci)) c = Inr (ac_derived_tbls e ! ac_tbl_no (scan_comp c ci))"
proof -
  have a: "Ss c = 0" "Ah c = 0" "length (cur_comp_info c) \<le> 4" "restart_interval c < 2 ^ 16"
    using assms(1) by (simp_all add: sides_agree_def)
  obtain e1 where e1: "make_c_tables c [0..<length (cur_comp_info c)] e0 = Inr e1"
    "e = e1\<lparr>saved := (saved e1)\<lparr>put_buffer := 0, put_bits := 0\<rparr>, c_restarts_to_go := restart_interval c, c_next_restart_num := 0\<rparr>"
    using assms(2) by (auto simp: start_pass_huff_def bind_err_Inr)
  note ct = make_c_tables_result [OF e1(1) a(1,2) sides_order(3) [OF assms(1)] assms(3,4)]
  show preds: "c_last_dc_val (saved e) = preds_of c e0" using ct preds_fold [OF assms(1,5)] by (simp add: e1(2))
  have "dcs_ok c (preds_of c e0)" using a(3) assms(5,6) by (auto simp: dcs_ok_def dest: in_set_dropD)
  then show "enc_inv e c"
    using a(4) preds by (simp add: enc_inv_def) (simp add: e1(2) enc_ok_def clear_below_def)
  show "pend_of e = []" "c_restarts_to_go e = restart_interval c" "c_next_restart_num e = 0"
    by (simp_all add: pend_of_def held_def e1(2))
  show "ci < length (cur_comp_info c) \<Longrightarrow>
      jpeg_make_c_derived_tbl True (dc_tbl_no (scan_comp c ci)) c = Inr (dc_derived_tbls e ! dc_tbl_no (scan_comp c ci))"
    "ci < length (cur_comp_info c) \<Longrightarrow>
      jpeg_make_c_derived_tbl False (ac_tbl_no (scan_comp c ci)) c = Inr (ac_derived_tbls e ! ac_tbl_no (scan_comp c ci))"
    using ct by (simp_all add: e1(2))
qed

lemma decoder_started:
  assumes "sides_agree n c sl d" "length (c_last_dc_val (saved e0)) = 4"
    "\<And>ci. ci < length (cur_comp_info c) \<Longrightarrow>
      jpeg_make_c_derived_tbl True (dc_tbl_no (scan_comp c ci)) c = Inr (dc_derived_tbls e ! dc_tbl_no (scan_comp c ci))
      \<and> jpeg_make_c_derived_tbl False (ac_tbl_no (scan_comp c ci)) c = Inr (ac_derived_tbls e ! ac_tbl_no (scan_comp c ci))"
  shows "\<exists>dec. start_pass_huff_decoder sl (dcs0, acs0, c_last_dc_val (saved e0)) d = Inr dec \<and> scan_match n e c dec
    \<and> membership dec = MCU_membership sl \<and> last_dc_val dec = preds_of c e0 \<and> restarts_to_go dec = d_restart_interval d
    \<and> bitstate dec = \<lparr>get_buffer = 0, bits_left = 0, insufficient_data = False, br_cinfo = d\<rparr>"
proof -
  let ?k = "length (cur_comp_info c)" and ?memb = "MCU_membership sl"
  have a: "2 \<le> n" "block_order n c" "length (d_cur_comp_info d) = ?k" "d_lim_Se sl = n * n - 1"
    and tbl: "\<And>ci. ci < ?k \<Longrightarrow> dc_tbl_no (d_scan_comp d ci) = dc_tbl_no (scan_comp c ci) \<and> ac_tbl_no (d_scan_comp d ci) = ac_tbl_no (scan_comp c ci)"
    and memb: "\<And>ci. ci \<in> set ?memb \<Longrightarrow> ci < ?k \<and> component_needed sl (d_cur_comp_info d ! ci)
      \<and> int n \<le> DCT_v_scaled_size sl (d_cur_comp_info d ! ci) \<and> int n \<le> DCT_h_scaled_size sl (d_cur_comp_info d ! ci)"
    using assms(1) by (simp_all add: sides_agree_def)
  have tm: "\<exists>u. jpeg_make_d_derived_tbl True (dc_tbl_no (d_scan_comp d ci)) d = Inr u \<and> tables_match (dc_derived_tbls e ! dc_tbl_no (scan_comp c ci)) u"
    "\<exists>u. jpeg_make_d_derived_tbl False (ac_tbl_no (d_scan_comp d ci)) d = Inr u \<and> tables_match (ac_derived_tbls e ! ac_tbl_no (scan_comp c ci)) u"
    if "ci < ?k" for ci
    using side_tables [OF assms(1) conjunct1 [OF assms(3) [OF that]]] side_tables [OF assms(1) conjunct2 [OF assms(3) [OF that]]] tbl [OF that]
    by simp_all
  have "\<forall>ci\<in>set [0..<length (d_cur_comp_info d)]. (\<exists>t. jpeg_make_d_derived_tbl True (dc_tbl_no (d_scan_comp d ci)) d = Inr t)
      \<and> (\<exists>u. jpeg_make_d_derived_tbl False (ac_tbl_no (d_scan_comp d ci)) d = Inr u)"
    using tm a(3) by (metis atLeastLessThan_iff set_upt)
  then obtain dcs acs preds' where dt: "make_d_tables d (d_lim_Se sl) [0..<length (d_cur_comp_info d)]
      (dcs0, acs0, c_last_dc_val (saved e0)) = Inr (dcs, acs, preds')"
    using make_d_tables_succeeds by (metis surj_pair)
  have lim: "d_lim_Se sl \<noteq> 0" using sides_order(2) [OF assms(1)] a(4) by simp
  note dr = make_d_tables_result [OF dt lim]
  have preds': "preds' = preds_of c e0" using dr preds_fold [OF assms(1,2)] a(3) by simp
  define dec where "dec = \<lparr>bitstate = \<lparr>get_buffer = 0, bits_left = 0, insufficient_data = False, br_cinfo = d\<rparr>,
            last_dc_val = preds', restarts_to_go = d_restart_interval d,
            dc_cur_tbls = map (\<lambda>ci. dcs (dc_tbl_no (d_scan_comp d ci))) ?memb,
            ac_cur_tbls = map (\<lambda>ci. acs (ac_tbl_no (d_scan_comp d ci))) ?memb,
            coef_limit = map (\<lambda>ci. let i = d_cur_comp_info d ! ci in
              coef_limit_of (d_lim_Se sl) (component_needed sl i) (DCT_v_scaled_size sl i) (DCT_h_scaled_size sl i)) ?memb,
            membership = ?memb\<rparr>"
  have "scan_match n e c dec"
    unfolding scan_match_def
  proof (intro conjI allI impI)
    fix i
    assume "i < length (membership dec)"
    then have i: "i < length ?memb" by (simp add: dec_def)
    let ?ci = "?memb ! i"
    note m = memb [OF nth_mem [OF i]]
    then have ci: "?ci < ?k" by simp
    show "membership dec ! i < ?k" using ci by (simp add: dec_def)
    show "tables_match (dc_derived_tbls e ! dc_tbl_no (scan_comp c (membership dec ! i))) (dc_cur_tbls dec ! i)"
      "tables_match (ac_derived_tbls e ! ac_tbl_no (scan_comp c (membership dec ! i))) (ac_cur_tbls dec ! i)"
      using dr tm [OF ci] ci a(3) i by (auto simp: dec_def)
    show "coef_limit dec ! i = n * n"
      using coef_limit_full [OF a(1) sides_order(1) [OF assms(1)]] m i by (simp add: dec_def a(4) Let_def)
  qed (rule a(2))
  moreover have "start_pass_huff_decoder sl (dcs0, acs0, c_last_dc_val (saved e0)) d = Inr dec"
    using dt by (simp add: start_pass_huff_decoder_def dec_def)
  ultimately show ?thesis using preds' by (intro exI [of _ dec]) (simp add: dec_def)
qed

text \<open>
  C1: Decoding what the encoder writes gives the blocks back.  For a sequential scan of any number
  of MCUs, with restart markers at any interval, the decoder's start of pass succeeds and
  \<open>decode_mcu\<close> returns the coefficients \<open>encode_mcu_huff\<close> was given, without running out of
  data, and stands at the marker that follows the scan.  (The predictions beyond the scan's
  components, which no one reads, are taken to be the same on both sides.)
\<close>

theorem scan_round_trip:
  assumes "sides_agree n c sl d" "start_pass_huff c e0 = Inr e" "encode_scan (MCU_membership sl) ms (e, c) = Inr (e', c')"
    "length (dc_derived_tbls e0) = 4" "length (ac_derived_tbls e0) = 4" "length (c_last_dc_val (saved e0)) = 4"
    "\<forall>v\<in>set (c_last_dc_val (saved e0)). - (2 ^ 15) \<le> v \<and> v < 2 ^ 15"
    "\<forall>m\<in>set ms. length m = length (MCU_membership sl) \<and> (\<forall>block\<in>set m. block_ok n block)"
    "out c' = out c @ tail" "input d = tail @ 0xFF # mk # ext" "mk \<noteq> 0" "mk \<noteq> 0xFF"
    "unread_marker d = 0" "next_restart_num d = 0"
  shows "\<exists>dec dec'. start_pass_huff_decoder sl (dcs0, acs0, c_last_dc_val (saved e0)) d = Inr dec
    \<and> decode_mcus (natural_order_of n) (n * n - 1) (length ms) dec = Inr (ms, dec')
    \<and> \<not> insufficient_data (bitstate dec') \<and> at_marker mk ext (br_cinfo (bitstate dec'))"
proof -
  note st = encoder_started [OF assms(1,2,4-7)]
  obtain dec where dec: "start_pass_huff_decoder sl (dcs0, acs0, c_last_dc_val (saved e0)) d = Inr dec" "scan_match n e c dec"
    "membership dec = MCU_membership sl" "last_dc_val dec = preds_of c e0" "restarts_to_go dec = d_restart_interval d"
    "bitstate dec = \<lparr>get_buffer = 0, bits_left = 0, insufficient_data = False, br_cinfo = d\<rparr>"
    using decoder_started [OF assms(1,6)] st(6,7) by blast
  let ?b = "\<lparr>get_buffer = 0, bits_left = 0, insufficient_data = False, br_cinfo = d\<rparr> :: bitread"
  obtain s1 where s1: "encode_mcus (MCU_membership sl) ms (e, c) = Inr s1" "finish_pass_huff s1 = Inr (e', c')"
    using assms(3) by (auto simp: encode_scan_def bind_err_Inr)
  obtain ys T where y: "c' = c\<lparr>out := out c @ stuff ys @ T\<rparr>" "decodes n dec ms e c ys T"
    using mcus_coded [OF s1 st(1) dec(2) dec(3) [symmetric] assms(8)] by blast
  obtain m0 rest0 where r0: "T @ 0xFF # mk # ext = 0xFF # m0 # rest0" "m0 \<noteq> 0" "m0 \<noteq> 0xFF" "resumes n dec ms e c ys m0 rest0 mk ext"
    using y(2) assms(11,12) unfolding decodes_def by blast
  have "tail = stuff ys @ T" using assms(9) by (simp add: y(1))
  then have inp: "input d = stuff ys @ 0xFF # m0 # rest0" using assms(10) r0(1) by simp
  have "entropy_data (input d) = ys" by (simp only: inp entropy_data_stuff entropy_data_marker [OF r0(2,3)] append_Nil2)
  then have "pend_of e @ avail ?b = bytes_bits ys" using assms(13) by (simp add: st(2) avail_def buf_bits_def data_bits_def)
  moreover have "in_step e c ?b (d_restart_interval d)"
    using assms(1,14) st(4,5) by (simp add: in_step_def bitread_ok_def sides_agree_def)
  moreover have "at_marker m0 rest0 (br_cinfo ?b)" using inp assms(13) by (auto simp: at_marker_def)
  ultimately obtain b' v' r' where run: "decode_mcus (natural_order_of n) (n * n - 1) (length ms)
      (dec_at dec ?b (c_last_dc_val (saved e)) (d_restart_interval d)) = Inr (ms, dec_at dec b' v' r')"
    and fin: "\<not> insufficient_data b'" "at_marker mk ext (br_cinfo b')"
    using r0(4) unfolding resumes_def by blast
  have same: "dec_at dec ?b (c_last_dc_val (saved e)) (d_restart_interval d) = dec" using dec(4-6) st(3) by simp
  show ?thesis
    by (intro exI conjI, rule dec(1), rule run [unfolded same]) (simp_all add: fin)
qed

section \<open>An example\<close>

text \<open>One component, two blocks of an image with a restart marker between them.\<close>

definition demo_comp :: component where
  "demo_comp = \<lparr>component_id = 1, component_index = 0, h_samp_factor = 1, v_samp_factor = 1,
     quant_tbl_no = 0, dc_tbl_no = 0, ac_tbl_no = 0\<rparr>"

definition demo_c :: compress where
  "demo_c = small_encoder\<lparr>ac_huff_tbl_ptrs := [Some small_huff, None, None, None], comp_info := [demo_comp],
     cur_comp_info := [0], restart_interval := 1\<rparr>"

definition demo_e0 :: huff_encoder where
  "demo_e0 = \<lparr>saved = \<lparr>put_buffer = 0, put_bits = 0, c_last_dc_val = replicate 4 0\<rparr>, c_restarts_to_go = 0,
     c_next_restart_num = 0, dc_derived_tbls = replicate 4 small_table, ac_derived_tbls = replicate 4 small_table\<rparr>"

definition demo_ms :: "int list list list" where
  "demo_ms = [[[3, -1] @ replicate 62 0], [[-2, 0] @ replicate 62 0]]"

definition demo_sl :: scan_layout where
  "demo_sl = \<lparr>d_lim_Se = 63, MCU_membership = [0], component_needed = (\<lambda>_. True),
     DCT_v_scaled_size = (\<lambda>_. 8), DCT_h_scaled_size = (\<lambda>_. 8)\<rparr>"

text \<open>What the decoder's table slots hold before: nothing that is used.\<close>

definition unused_tbl :: d_derived_tbl where
  "unused_tbl = \<lparr>maxcode = [], valoffset = [], pub = small_huff, look_nbits = [], look_sym = []\<rparr>"

definition demo_out :: "byte list \<Rightarrow> bool" where
  "demo_out tail \<longleftrightarrow> (case bind_err (start_pass_huff demo_c demo_e0) (\<lambda>e. encode_scan [0] demo_ms (e, demo_c)) of
     Inl _ \<Rightarrow> False | Inr (e', c') \<Rightarrow> out c' = tail)"

lemma demo_out: "demo_out [0x7A, 0x1F, 0xFF, 0xD0, 0x69]"
  by code_simp

definition demo_d :: decompress where
  "demo_d = small_decoder\<lparr>d_ac_huff_tbl_ptrs := [Some small_huff, None, None, None], d_comp_info := [demo_comp],
     d_cur_comp_info := [0], d_restart_interval := 1, input := [0x7A, 0x1F, 0xFF, 0xD0, 0x69, 0xFF, 0xD9]\<rparr>"

lemma demo_agree: "sides_agree 8 demo_c demo_sl demo_d"
proof -
  have four: "i < 4 \<longleftrightarrow> i = 0 \<or> i = 1 \<or> i = 2 \<or> i = (3 :: nat)" for i by auto
  show ?thesis
    unfolding sides_agree_def four
    by (auto simp: demo_c_def small_encoder_def blank_compress_def block_order_def natural_order_of_def demo_d_def
        small_decoder_def demo_sl_def d_scan_comp_def scan_comp_def demo_comp_def same_code_def small_huff_def)
qed

theorem scan_round_trip_witness:
  "\<exists>dec dec'. start_pass_huff_decoder demo_sl (\<lambda>_. unused_tbl, \<lambda>_. unused_tbl, replicate 4 0) demo_d = Inr dec
    \<and> decode_mcus (natural_order_of 8) (8 * 8 - 1) 2 dec = Inr (demo_ms, dec')
    \<and> \<not> insufficient_data (bitstate dec') \<and> at_marker 0xD9 [] (br_cinfo (bitstate dec'))"
proof -
  obtain e e' c' where run: "start_pass_huff demo_c demo_e0 = Inr e" "encode_scan (MCU_membership demo_sl) demo_ms (e, demo_c) = Inr (e', c')"
    "out c' = [0x7A, 0x1F, 0xFF, 0xD0, 0x69]"
    using demo_out by (auto simp: demo_out_def demo_sl_def split: sum.splits prod.splits dest!: bind_err_Inr [THEN iffD1])
  have blocks: "\<forall>m\<in>set demo_ms. length m = length (MCU_membership demo_sl) \<and> (\<forall>block\<in>set m. block_ok 8 block)"
  proof -
    have "set (square 8) = {0..<64}" by code_simp
    then show ?thesis by (auto simp: demo_ms_def demo_sl_def block_ok_def)
  qed
  have s: "c_last_dc_val (saved demo_e0) = replicate 4 0" "length demo_ms = 2" by (simp_all add: demo_e0_def demo_ms_def)
  show ?thesis
    using scan_round_trip [OF demo_agree run(1,2) _ _ _ _ blocks, where tail = "[0x7A, 0x1F, 0xFF, 0xD0, 0x69]"
        and mk = "0xD9" and ext = "[]"]
      run(3) s
    by (simp add: demo_e0_def demo_c_def small_encoder_def blank_compress_def demo_d_def small_decoder_def blank_decompress_def
        jinit_marker_reader_def reset_marker_reader_def)
qed

end
