(* ===== verification/Samples.thy ===== *)
theory Samples
  imports JpegState "HOL-Library.Monad_Syntax"
begin

text \<open>
  Sample arrays of the JPEG library (\<open>JSAMPROW\<close>, \<open>JSAMPARRAY\<close>, \<open>JSAMPIMAGE\<close> of
  \<open>jpeg-9a/jpeglib.h\<close>), the loops that fill them and the range-limit table of
  \<open>jpeg-9a/jdmaster.c\<close>.  An access outside an array is \<open>None\<close>.  The locale \<open>cells\<close> is the
  interface the loops need: an array of named cells that a store changes one at a time.
\<close>

section \<open>Sample arrays\<close>

type_synonym samprow = "byte list"
type_synonym samparray = "samprow list"
type_synonym sampimage = "samparray list"

definition sample_at :: "samprow \<Rightarrow> nat \<Rightarrow> byte option" where
  "sample_at row i = (if i < length row then Some (row ! i) else None)"

definition row_at :: "samparray \<Rightarrow> nat \<Rightarrow> samprow option" where
  "row_at arr i = (if i < length arr then Some (arr ! i) else None)"

definition plane_at :: "sampimage \<Rightarrow> nat \<Rightarrow> samparray option" where
  "plane_at img ci = (if ci < length img then Some (img ! ci) else None)"

text \<open>\<open>arr[row][col] = v\<close> and \<open>img[ci][row][col] = v\<close>.\<close>

definition put_row :: "nat \<times> nat \<Rightarrow> 'v \<Rightarrow> 'v list list \<Rightarrow> 'v list list option" where
  "put_row c v arr =
     (let (row, col) = c in
      if row < length arr \<and> col < length (arr ! row)
      then Some (arr[row := (arr ! row)[col := v]]) else None)"

definition put_plane :: "nat \<times> nat \<times> nat \<Rightarrow> byte \<Rightarrow> sampimage \<Rightarrow> sampimage option" where
  "put_plane c v img =
     (let (ci, rc) = c in
      if ci < length img
      then (case put_row rc v (img ! ci) of None \<Rightarrow> None | Some arr \<Rightarrow> Some (img[ci := arr])) else None)"

definition row_cell :: "'v list list \<Rightarrow> nat \<times> nat \<Rightarrow> 'v" where
  "row_cell arr = (\<lambda>(row, col). arr ! row ! col)"

definition plane_cell :: "sampimage \<Rightarrow> nat \<times> nat \<times> nat \<Rightarrow> byte" where
  "plane_cell img = (\<lambda>(ci, row, col). img ! ci ! row ! col)"

definition row_ok :: "'v list list \<Rightarrow> nat \<times> nat \<Rightarrow> bool" where
  "row_ok arr = (\<lambda>(row, col). row < length arr \<and> col < length (arr ! row))"

definition plane_ok :: "sampimage \<Rightarrow> nat \<times> nat \<times> nat \<Rightarrow> bool" where
  "plane_ok img = (\<lambda>(ci, rc). ci < length img \<and> row_ok (img ! ci) rc)"

section \<open>Loops that store samples\<close>

text \<open>Several stores in a row, as one turn of a loop makes.\<close>

fun put_all :: "('c \<Rightarrow> 'v \<Rightarrow> 'm \<Rightarrow> 'm option) \<Rightarrow> ('c \<times> 'v) list \<Rightarrow> 'm \<Rightarrow> 'm option" where
  "put_all put [] m = Some m"
| "put_all put ((c, v) # cvs) m = (case put c v m of None \<Rightarrow> None | Some m' \<Rightarrow> put_all put cvs m')"

text \<open>
  \<open>writes D Q m m'\<close>: \<open>m'\<close> is \<open>m\<close> with the cells of \<open>D\<close> set as \<open>Q\<close> says.  A loop whose turns
  write according to the same \<open>Q\<close> writes the union of their cells; this is how the result of
  every conversion loop is stated.
\<close>

locale cells =
  fixes get :: "'m \<Rightarrow> 'c \<Rightarrow> 'v"
    and put :: "'c \<Rightarrow> 'v \<Rightarrow> 'm \<Rightarrow> 'm option"
    and valid :: "'m \<Rightarrow> 'c \<Rightarrow> bool"
    and shape :: "'m \<Rightarrow> 's"
  assumes put_valid: "valid m c \<Longrightarrow> \<exists>m'. put c v m = Some m'"
    and put_same: "put c v m = Some m' \<Longrightarrow> get m' c = v"
    and put_other: "put c v m = Some m' \<Longrightarrow> d \<noteq> c \<Longrightarrow> get m' d = get m d"
    and put_shape: "put c v m = Some m' \<Longrightarrow> shape m' = shape m"
    and shape_valid: "shape m' = shape m \<Longrightarrow> valid m' = valid m"
begin

definition writes :: "'c set \<Rightarrow> ('c \<Rightarrow> 'v) \<Rightarrow> 'm \<Rightarrow> 'm \<Rightarrow> bool" where
  "writes D Q m m' \<longleftrightarrow> shape m' = shape m \<and> (\<forall>c. get m' c = (if c \<in> D then Q c else get m c))"

lemma writes_refl: "writes {} Q m m"
  by (simp add: writes_def)

lemma writes_trans: "writes D Q m m' \<Longrightarrow> writes E Q m' m'' \<Longrightarrow> writes (D \<union> E) Q m m''"
  by (auto simp: writes_def)

lemma writes_shape: "writes D Q m m' \<Longrightarrow> shape m' = shape m"
  by (simp add: writes_def)

lemma writes_valid: "writes D Q m m' \<Longrightarrow> valid m' = valid m"
  by (intro shape_valid) (simp add: writes_def)

lemma writes_in: "writes D Q m m' \<Longrightarrow> c \<in> D \<Longrightarrow> get m' c = Q c"
  by (simp add: writes_def)

lemma writes_out: "writes D Q m m' \<Longrightarrow> c \<notin> D \<Longrightarrow> get m' c = get m c"
  by (simp add: writes_def)

lemma put_writes:
  assumes "valid m c" "Q c = v"
  shows "\<exists>m'. put c v m = Some m' \<and> writes {c} Q m m'"
proof -
  obtain m' where "put c v m = Some m'" using put_valid [OF assms(1)] by blast
  then show ?thesis
    using put_same put_other put_shape assms(2) by (auto simp: writes_def)
qed

lemma loop_writes:
  assumes "\<And>k t. i \<le> k \<Longrightarrow> k < i + n \<Longrightarrow> shape t = shape m \<Longrightarrow>
    \<exists>t'. body k t = Some t' \<and> writes (D k) Q t t'"
  shows "\<exists>m'. for_loop i n body m = Some m' \<and> writes (\<Union>k\<in>{i..<i + n}. D k) Q m m'"
  using assms
proof (induction n arbitrary: i m)
  case 0
  then show ?case by (simp add: writes_def)
next
  case (Suc n)
  obtain t where t: "body i m = Some t" "writes (D i) Q m t"
    using Suc.prems [of i m] by auto
  have "\<exists>m'. for_loop (Suc i) n body t = Some m' \<and> writes (\<Union>k\<in>{Suc i..<Suc i + n}. D k) Q t m'"
  proof (rule Suc.IH)
    fix k s
    assume "Suc i \<le> k" "k < Suc i + n" "shape s = shape t"
    then show "\<exists>t'. body k s = Some t' \<and> writes (D k) Q s t'"
      using Suc.prems [of k s] writes_shape [OF t(2)] by simp
  qed
  then obtain m' where m': "for_loop (Suc i) n body t = Some m'"
    "writes (\<Union>k\<in>{Suc i..<Suc i + n}. D k) Q t m'" by blast
  have "{i..<i + Suc n} = insert i {Suc i..<Suc i + n}" by auto
  then have "(\<Union>k\<in>{i..<i + Suc n}. D k) = D i \<union> (\<Union>k\<in>{Suc i..<Suc i + n}. D k)"
    by (simp only: UN_insert)
  then show ?case using t(1) m'(1) writes_trans [OF t(2) m'(2)] by simp
qed

lemma put_all_writes:
  assumes "\<And>c v. (c, v) \<in> set cvs \<Longrightarrow> valid m c \<and> Q c = v"
  shows "\<exists>m'. put_all put cvs m = Some m' \<and> writes (fst ` set cvs) Q m m'"
  using assms
proof (induction cvs arbitrary: m)
  case Nil
  then show ?case by (simp add: writes_refl)
next
  case (Cons cv cvs)
  obtain c v where cv: "cv = (c, v)" by (cases cv)
  have "valid m c" "Q c = v" using Cons.prems cv by auto
  then obtain t where t: "put c v m = Some t" "writes {c} Q m t" using put_writes by blast
  have "\<exists>m'. put_all put cvs t = Some m' \<and> writes (fst ` set cvs) Q t m'"
    using Cons.prems writes_valid [OF t(2)] by (intro Cons.IH) auto
  then obtain m' where "put_all put cvs t = Some m'" "writes (fst ` set cvs) Q t m'" by blast
  then show ?case using t(1) writes_trans [OF t(2)] cv by force
qed

end

lemma put_rowE:
  assumes "put_row c v arr = Some arr'"
  obtains row col where "c = (row, col)" "row < length arr" "col < length (arr ! row)"
    "arr' = arr[row := (arr ! row)[col := v]]"
  using assms by (cases c) (auto simp: put_row_def Let_def split: if_splits)

text \<open>The row lengths, and those of every plane.\<close>

definition row_shape :: "'v list list \<Rightarrow> nat list" where "row_shape = map length"
definition plane_shape :: "sampimage \<Rightarrow> nat list list" where "plane_shape = map row_shape"

lemma row_shape_ok: "row_shape arr' = row_shape arr \<Longrightarrow> row_ok arr' = row_ok arr"
proof -
  assume s: "row_shape arr' = row_shape arr"
  then have len: "length arr' = length arr" unfolding row_shape_def by (rule map_eq_imp_length_eq)
  then have "length (arr' ! r) = length (arr ! r)" if "r < length arr" for r
    using s that nth_map [of r arr length] nth_map [of r arr' length] by (simp add: row_shape_def)
  then show ?thesis using len by (auto simp: row_ok_def fun_eq_iff)
qed

lemma plane_shape_nth:
  assumes "plane_shape img' = plane_shape img"
  shows "length img' = length img" "ci < length img \<Longrightarrow> row_shape (img' ! ci) = row_shape (img ! ci)"
proof -
  show len: "length img' = length img" using assms unfolding plane_shape_def by (rule map_eq_imp_length_eq)
  show "ci < length img \<Longrightarrow> row_shape (img' ! ci) = row_shape (img ! ci)"
    using assms len nth_map [of ci img row_shape] nth_map [of ci img' row_shape] by (simp add: plane_shape_def)
qed

interpretation rows: cells "row_cell :: 'a list list \<Rightarrow> _" put_row row_ok row_shape
proof unfold_locales
  fix m :: "'a list list" and c v
  assume "row_ok m c"
  then show "\<exists>m'. put_row c v m = Some m'" by (auto simp: row_ok_def put_row_def)
next
  fix m m' :: "'a list list" and c d v
  assume w: "put_row c v m = Some m'"
  show "row_cell m' c = v" using w by (rule put_rowE) (simp add: row_cell_def)
  show "row_shape m' = row_shape m" using w
    by (rule put_rowE) (simp add: row_shape_def map_update list_update_same_conv)
  show "row_cell m' d = row_cell m d" if "d \<noteq> c"
    using w that by (elim put_rowE) (auto simp: row_cell_def nth_list_update split: prod.splits)
qed (rule row_shape_ok)

lemma put_planeE:
  assumes "put_plane c v img = Some img'"
  obtains ci rc arr where "c = (ci, rc)" "ci < length img" "put_row rc v (img ! ci) = Some arr"
    "img' = img[ci := arr]"
  using assms by (cases c) (auto simp: put_plane_def Let_def split: if_splits option.splits)

lemma plane_cell_row: "plane_cell img (ci, rc) = row_cell (img ! ci) rc"
  by (simp add: plane_cell_def row_cell_def split: prod.splits)

interpretation planes: cells plane_cell put_plane plane_ok plane_shape
proof unfold_locales
  fix m :: sampimage and c v
  assume "plane_ok m c"
  then show "\<exists>m'. put_plane c v m = Some m'"
    using rows.put_valid by (fastforce simp: plane_ok_def put_plane_def split: option.splits)
next
  fix m m' :: sampimage and c d v
  assume w: "put_plane c v m = Some m'"
  show "plane_cell m' c = v" using w
    by (rule put_planeE) (auto simp: plane_cell_row rows.put_same)
  show "plane_shape m' = plane_shape m" using w
    by (rule put_planeE) (simp add: plane_shape_def map_update rows.put_shape list_update_same_conv)
  show "plane_cell m' d = plane_cell m d" if "d \<noteq> c"
    using w that by (elim put_planeE)
      (cases d, auto simp: plane_cell_row nth_list_update rows.put_other)
next
  fix m m' :: sampimage
  assume s: "plane_shape m' = plane_shape m"
  have "row_ok (m' ! ci) = row_ok (m ! ci)" if "ci < length m" for ci
    using plane_shape_nth(2) [OF s that] by (rule row_shape_ok)
  then show "plane_ok m' = plane_ok m"
    using plane_shape_nth(1) [OF s] by (auto simp: plane_ok_def fun_eq_iff)
qed

text \<open>Arrays as large as the loops need.\<close>

definition rows_fit :: "'v list list \<Rightarrow> nat \<Rightarrow> nat \<Rightarrow> bool" where
  "rows_fit arr num_rows width \<longleftrightarrow>
     num_rows \<le> length arr \<and> (\<forall>r<num_rows. width \<le> length (arr ! r))"

definition planes_fit :: "sampimage \<Rightarrow> nat \<Rightarrow> nat \<Rightarrow> nat \<Rightarrow> bool" where
  "planes_fit img nc num_rows width \<longleftrightarrow> nc \<le> length img \<and> (\<forall>ci<nc. rows_fit (img ! ci) num_rows width)"

lemma rows_fit_shape: "rows_fit arr n w \<longleftrightarrow> n \<le> length (row_shape arr) \<and> (\<forall>r<n. w \<le> row_shape arr ! r)"
  by (auto simp: rows_fit_def row_shape_def)

lemma planes_fit_shape:
  assumes "planes_fit img nc n w" "plane_shape img' = plane_shape img"
  shows "planes_fit img' nc n w"
  using assms plane_shape_nth [OF assms(2)] by (auto simp: planes_fit_def rows_fit_shape)

lemma rows_fit_ok: "rows_fit arr n w \<Longrightarrow> r < n \<Longrightarrow> i < w \<Longrightarrow> row_ok arr (r, i)"
  by (auto simp: rows_fit_def row_ok_def)

lemma planes_fit_ok: "planes_fit img nc n w \<Longrightarrow> ci < nc \<Longrightarrow> r < n \<Longrightarrow> i < w \<Longrightarrow> plane_ok img (ci, r, i)"
  by (auto simp: planes_fit_def plane_ok_def intro: rows_fit_ok)

lemma offset_index: "(\<exists>k<n. r = m + k) \<longleftrightarrow> m \<le> r \<and> r < m + n" for r m n :: nat
  by (auto intro: exI [of _ "r - m"])

section \<open>The range-limit table\<close>

text \<open>The bytes of the table and the subscript its pointer stands at.\<close>

record limit_table =
  limit_bytes :: "byte list"
  limit_origin :: nat

definition limit_at :: "limit_table \<Rightarrow> int \<Rightarrow> byte option" where
  "limit_at t x =
     (let k = int (limit_origin t) + x
      in if 0 \<le> k \<and> nat k < length (limit_bytes t) then Some (limit_bytes t ! nat k) else None)"

definition prepare_range_limit_table :: limit_table where
  "prepare_range_limit_table =
     (let n = MAXJSAMPLE + 1; center = nat CENTERJSAMPLE;
          below = replicate n 0;
          main = map of_nat [0..<n];
          above = replicate (2 * n - center) (of_nat MAXJSAMPLE);
          half2 = replicate (2 * n - center) 0;
          wrapped = take center main
      in \<lparr>limit_bytes = below @ main @ above @ half2 @ wrapped,
          limit_origin = n\<rparr>)"

text \<open>\<open>range_limit[x & RANGE_MASK]\<close> behind the inverse DCT, \<open>range_limit\<close> standing \<open>CENTERJSAMPLE\<close>
  behind the start of the simple table (\<open>IDCT_range_limit\<close>, \<open>jpeg-9a/jdct.h\<close>).\<close>

definition RANGE_MASK :: int where "RANGE_MASK = int MAXJSAMPLE * 4 + 3"

definition idct_limit :: "limit_table \<Rightarrow> int \<Rightarrow> byte option" where
  "idct_limit t x = limit_at t (CENTERJSAMPLE + (x AND RANGE_MASK))"

text \<open>The value a table entry is to have.\<close>

definition clamp :: "int \<Rightarrow> int" where
  "clamp x = (if x < 0 then 0 else if int MAXJSAMPLE < x then int MAXJSAMPLE else x)"

lemma clamp_range: "0 \<le> clamp x" "clamp x \<le> 255"
  by (simp_all add: clamp_def MAXJSAMPLE_def)

lemma uint_clamp: "uint (word_of_int (clamp x) :: byte) = clamp x"
  using clamp_range [of x] by (simp add: uint_word_of_int)

lemma limit_bytes_eq:
  "limit_bytes prepare_range_limit_table =
     replicate 256 0 @ map of_nat [0..<256] @ replicate 384 255 @ replicate 384 0 @ map of_nat [0..<128]"
proof -
  have "take 128 (map of_nat [0..<256]) = (map of_nat [0..<128] :: byte list)" by (simp add: take_map)
  then show ?thesis
    by (simp add: prepare_range_limit_table_def Let_def MAXJSAMPLE_def CENTERJSAMPLE_def)
qed

lemma limit_origin_eq: "limit_origin prepare_range_limit_table = 256"
  by (simp add: prepare_range_limit_table_def Let_def MAXJSAMPLE_def)

lemma limit_entry:
  assumes "k < 1408"
  shows "limit_bytes prepare_range_limit_table ! k =
    (if k < 256 then 0 else if k < 512 then of_nat (k - 256) else if k < 896 then 255
     else if k < 1280 then 0 else of_nat (k - 1280))"
  using assms unfolding limit_bytes_eq by (auto simp: nth_append)

lemma limit_clamps:
  assumes "-256 \<le> x" "x < 640"
  shows "limit_at prepare_range_limit_table x = Some (word_of_int (clamp x))"
proof -
  have k: "nat (256 + x) < 1408" using assms by simp
  have "limit_at prepare_range_limit_table x = Some (limit_bytes prepare_range_limit_table ! nat (256 + x))"
    using assms by (simp add: limit_at_def Let_def limit_origin_eq limit_bytes_eq)
  also have "limit_bytes prepare_range_limit_table ! nat (256 + x) = word_of_int (clamp x)"
    unfolding limit_entry [OF k] using assms
    by (auto simp: clamp_def MAXJSAMPLE_def of_nat_nat)
  finally show ?thesis .
qed

lemma AND_RANGE_MASK: "x AND RANGE_MASK = x mod 1024"
proof -
  have "RANGE_MASK = mask 10" by (simp add: RANGE_MASK_def MAXJSAMPLE_def mask_eq_exp_minus_1)
  then have "x AND RANGE_MASK = take_bit 10 x" by (simp add: take_bit_eq_mask)
  then show ?thesis by (simp add: take_bit_eq_mod)
qed

lemma idct_limit_total: "\<exists>v. idct_limit prepare_range_limit_table x = Some v"
proof -
  have "0 \<le> x mod 1024" "x mod 1024 < 1024" by simp_all
  then show ?thesis
    by (simp add: idct_limit_def AND_RANGE_MASK limit_at_def Let_def limit_origin_eq limit_bytes_eq CENTERJSAMPLE_def)
qed

lemma idct_limit_clamps:
  assumes "-512 \<le> x" "x < 512"
  shows "idct_limit prepare_range_limit_table x = Some (word_of_int (clamp (x + CENTERJSAMPLE)))"
proof (cases "0 \<le> x")
  case True
  then show ?thesis using assms
    by (simp add: idct_limit_def AND_RANGE_MASK CENTERJSAMPLE_def limit_clamps add.commute)
next
  case False
  have m: "x mod 1024 = x + 1024" using False assms mod_pos_pos_trivial [of "x + 1024" 1024] by (simp add: mod_add_self2)
  have k: "nat (x + 1408) < 1408" "0 \<le> x + 1408" using False assms by simp_all
  have "idct_limit prepare_range_limit_table x = Some (limit_bytes prepare_range_limit_table ! nat (x + 1408))"
    using False assms unfolding idct_limit_def AND_RANGE_MASK m
    by (simp add: limit_at_def Let_def limit_origin_eq limit_bytes_eq CENTERJSAMPLE_def ac_simps)
  also have "limit_bytes prepare_range_limit_table ! nat (x + 1408) = word_of_int (clamp (x + CENTERJSAMPLE))"
    unfolding limit_entry [OF k(1)] using assms False
    by (auto simp: clamp_def MAXJSAMPLE_def CENTERJSAMPLE_def of_nat_nat nat_diff_distrib ac_simps)
  finally show ?thesis .
qed

end
