(* ===== verification/ColorConv.thy ===== *)
theory ColorConv
  imports Samples Complex_Main
begin

text \<open>
  Colour conversion: \<open>jpeg-9a/jccolor.c\<close> (into the JPEG colour space, interleaved pixels to
  planes) and \<open>jpeg-9a/jdcolor.c\<close> (back).  Tables hold 32-bit integers; a shift to the right
  rounds down.  The two \<open>null_convert\<close> and \<open>rgb_gray_convert\<close> of the files have the suffix \<open>_c\<close>
  and \<open>_d\<close>.  A conversion is built from the function of one pixel, \<open>f\<close> from its samples to
  its samples; the loops over rows and columns are the same in all of them.
\<close>

definition SCALEBITS :: nat where "SCALEBITS = 16"
definition ONE_HALF :: int where "ONE_HALF = 1 * 2 ^ (SCALEBITS - 1)"
definition CBCR_OFFSET :: int where "CBCR_OFFSET = CENTERJSAMPLE * 2 ^ SCALEBITS"
definition FIX :: "rat \<Rightarrow> int" where "FIX x = \<lfloor>x * 2 ^ SCALEBITS + 1 / 2\<rfloor>"
definition RGB_RED :: nat where "RGB_RED = 0"
definition RGB_GREEN :: nat where "RGB_GREEN = 1"
definition RGB_BLUE :: nat where "RGB_BLUE = 2"
definition RGB_PIXELSIZE :: nat where "RGB_PIXELSIZE = 3"

lemmas rgb_offsets = RGB_RED_def RGB_GREEN_def RGB_BLUE_def RGB_PIXELSIZE_def

text \<open>\<open>RIGHT_SHIFT\<close> of a value by \<open>SCALEBITS\<close>, and the sum of two \<open>INT32\<close>s.\<close>

definition descale_color :: "int \<Rightarrow> int" where "descale_color x = x div 2 ^ SCALEBITS"
definition add32 :: "int \<Rightarrow> int \<Rightarrow> int" where "add32 x y = s32 (x + y)"

section \<open>Into the JPEG colour space\<close>

definition R_Y_OFF :: nat where "R_Y_OFF = 0"
definition G_Y_OFF :: nat where "G_Y_OFF = 1 * (MAXJSAMPLE + 1)"
definition B_Y_OFF :: nat where "B_Y_OFF = 2 * (MAXJSAMPLE + 1)"
definition R_CB_OFF :: nat where "R_CB_OFF = 3 * (MAXJSAMPLE + 1)"
definition G_CB_OFF :: nat where "G_CB_OFF = 4 * (MAXJSAMPLE + 1)"
definition B_CB_OFF :: nat where "B_CB_OFF = 5 * (MAXJSAMPLE + 1)"
definition R_CR_OFF :: nat where "R_CR_OFF = B_CB_OFF"
definition G_CR_OFF :: nat where "G_CR_OFF = 6 * (MAXJSAMPLE + 1)"
definition B_CR_OFF :: nat where "B_CR_OFF = 7 * (MAXJSAMPLE + 1)"

lemmas table_offsets = R_Y_OFF_def G_Y_OFF_def B_Y_OFF_def R_CB_OFF_def G_CB_OFF_def B_CB_OFF_def
  R_CR_OFF_def G_CR_OFF_def B_CR_OFF_def MAXJSAMPLE_def

text \<open>The sections of the table one behind the other.\<close>

definition rgb_ycc_start :: "int list" where
  "rgb_ycc_start =
     (let section = (\<lambda>f. map (\<lambda>i. s32 (f (int i))) [0..<MAXJSAMPLE + 1])
      in section (\<lambda>i. FIX 0.299 * i)
       @ section (\<lambda>i. FIX 0.587 * i)
       @ section (\<lambda>i. FIX 0.114 * i + ONE_HALF)
       @ section (\<lambda>i. (- FIX 0.168735892) * i)
       @ section (\<lambda>i. (- FIX 0.331264108) * i)
       @ section (\<lambda>i. FIX 0.5 * i + CBCR_OFFSET + ONE_HALF - 1)
       @ section (\<lambda>i. (- FIX 0.418687589) * i)
       @ section (\<lambda>i. (- FIX 0.081312411) * i))"

definition ctab_sum :: "int list \<Rightarrow> nat \<Rightarrow> nat \<Rightarrow> nat \<Rightarrow> byte" where
  "ctab_sum ctab i j k = word_of_int (descale_color (add32 (add32 (ctab ! i) (ctab ! j)) (ctab ! k)))"

definition ctab_y :: "int list \<Rightarrow> nat \<Rightarrow> nat \<Rightarrow> nat \<Rightarrow> byte" where
  "ctab_y ctab r g b = ctab_sum ctab (r + R_Y_OFF) (g + G_Y_OFF) (b + B_Y_OFF)"

definition ctab_cb :: "int list \<Rightarrow> nat \<Rightarrow> nat \<Rightarrow> nat \<Rightarrow> byte" where
  "ctab_cb ctab r g b = ctab_sum ctab (r + R_CB_OFF) (g + G_CB_OFF) (b + B_CB_OFF)"

definition ctab_cr :: "int list \<Rightarrow> nat \<Rightarrow> nat \<Rightarrow> nat \<Rightarrow> byte" where
  "ctab_cr ctab r g b = ctab_sum ctab (r + R_CR_OFF) (g + G_CR_OFF) (b + B_CR_OFF)"

text \<open>
  The loops of a conversion: \<open>px\<close> reads the samples it needs through \<open>inptr\<close> and gives those to
  store in the planes at this column; \<open>stride\<close> is what \<open>inptr\<close> advances by.
\<close>

definition convert_in ::
  "((nat \<Rightarrow> byte option) \<Rightarrow> byte list option) \<Rightarrow> nat \<Rightarrow> nat \<Rightarrow> samparray \<Rightarrow> sampimage \<Rightarrow> nat \<Rightarrow> nat \<Rightarrow> sampimage option" where
  "convert_in px stride num_cols input_buf output_buf output_row num_rows =
     for_loop 0 num_rows (\<lambda>k img. do {
       inrow \<leftarrow> row_at input_buf k;
       for_loop 0 num_cols (\<lambda>col img. do {
         vs \<leftarrow> px (\<lambda>j. sample_at inrow (stride * col + j));
         put_all put_plane (map (\<lambda>ci. ((ci, output_row + k, col), vs ! ci)) [0..<length vs]) img
       }) img
     }) output_buf"

definition rgb_ycc_convert ::
  "int list \<Rightarrow> nat \<Rightarrow> samparray \<Rightarrow> sampimage \<Rightarrow> nat \<Rightarrow> nat \<Rightarrow> sampimage option" where
  "rgb_ycc_convert ctab = convert_in (\<lambda>inptr. do {
     r \<leftarrow> inptr RGB_RED;
     g \<leftarrow> inptr RGB_GREEN;
     b \<leftarrow> inptr RGB_BLUE;
     Some [ctab_y ctab (unat r) (unat g) (unat b), ctab_cb ctab (unat r) (unat g) (unat b),
           ctab_cr ctab (unat r) (unat g) (unat b)]
   }) RGB_PIXELSIZE"

definition rgb_gray_convert_c ::
  "int list \<Rightarrow> nat \<Rightarrow> samparray \<Rightarrow> sampimage \<Rightarrow> nat \<Rightarrow> nat \<Rightarrow> sampimage option" where
  "rgb_gray_convert_c ctab = convert_in (\<lambda>inptr. do {
     r \<leftarrow> inptr RGB_RED;
     g \<leftarrow> inptr RGB_GREEN;
     b \<leftarrow> inptr RGB_BLUE;
     Some [ctab_y ctab (unat r) (unat g) (unat b)]
   }) RGB_PIXELSIZE"

definition cmyk_ycck_convert ::
  "int list \<Rightarrow> nat \<Rightarrow> samparray \<Rightarrow> sampimage \<Rightarrow> nat \<Rightarrow> nat \<Rightarrow> sampimage option" where
  "cmyk_ycck_convert ctab = convert_in (\<lambda>inptr. do {
     c \<leftarrow> inptr 0;
     m \<leftarrow> inptr 1;
     y \<leftarrow> inptr 2;
     k \<leftarrow> inptr 3;
     let r = MAXJSAMPLE - unat c;
     let g = MAXJSAMPLE - unat m;
     let b = MAXJSAMPLE - unat y;
     Some [ctab_y ctab r g b, ctab_cb ctab r g b, ctab_cr ctab r g b, k]
   }) 4"

definition rgb_rgb1_convert :: "nat \<Rightarrow> samparray \<Rightarrow> sampimage \<Rightarrow> nat \<Rightarrow> nat \<Rightarrow> sampimage option" where
  "rgb_rgb1_convert = convert_in (\<lambda>inptr. do {
     r \<leftarrow> inptr RGB_RED;
     g \<leftarrow> inptr RGB_GREEN;
     b \<leftarrow> inptr RGB_BLUE;
     Some [word_of_int ((uint r - uint g + CENTERJSAMPLE) AND int MAXJSAMPLE), g,
           word_of_int ((uint b - uint g + CENTERJSAMPLE) AND int MAXJSAMPLE)]
   }) RGB_PIXELSIZE"

definition grayscale_convert_c :: "nat \<Rightarrow> nat \<Rightarrow> samparray \<Rightarrow> sampimage \<Rightarrow> nat \<Rightarrow> nat \<Rightarrow> sampimage option" where
  "grayscale_convert_c instride = convert_in (\<lambda>inptr. do { y \<leftarrow> inptr 0; Some [y] }) instride"

definition rgb_convert_c :: "nat \<Rightarrow> samparray \<Rightarrow> sampimage \<Rightarrow> nat \<Rightarrow> nat \<Rightarrow> sampimage option" where
  "rgb_convert_c = convert_in (\<lambda>inptr. do {
     r \<leftarrow> inptr RGB_RED;
     g \<leftarrow> inptr RGB_GREEN;
     b \<leftarrow> inptr RGB_BLUE;
     Some [r, g, b]
   }) RGB_PIXELSIZE"

text \<open>A separate pass for each component.\<close>

definition null_convert_c :: "nat \<Rightarrow> nat \<Rightarrow> samparray \<Rightarrow> sampimage \<Rightarrow> nat \<Rightarrow> nat \<Rightarrow> sampimage option" where
  "null_convert_c nc num_cols input_buf output_buf output_row num_rows =
     for_loop 0 num_rows (\<lambda>k img.
       for_loop 0 nc (\<lambda>ci img.
         for_loop 0 num_cols (\<lambda>col img. do {
           inrow \<leftarrow> row_at input_buf k;
           v \<leftarrow> sample_at inrow (ci + nc * col);
           put_plane (ci, output_row + k, col) v img
         }) img) img) output_buf"

text \<open>Selection of the method (\<open>jinit_color_converter\<close>).\<close>

datatype c_method = C_rgb_ycc | C_rgb_gray | C_cmyk_ycck | C_rgb_rgb1 | C_grayscale | C_rgb | C_null

record c_converter =
  start_rgb_ycc :: bool
  c_method :: c_method
  scale_chroma :: bool   \<comment> \<open>\<open>component_needed\<close> of components 1 and 2 set\<close>

definition check_in_components :: "color_space \<Rightarrow> nat \<Rightarrow> unit result" where
  "check_in_components in_color_space input_components =
     (let ok = (case in_color_space of
          JCS_GRAYSCALE \<Rightarrow> input_components = 1
        | JCS_RGB \<Rightarrow> input_components = RGB_PIXELSIZE
        | JCS_BG_RGB \<Rightarrow> input_components = RGB_PIXELSIZE
        | JCS_YCbCr \<Rightarrow> input_components = 3
        | JCS_BG_YCC \<Rightarrow> input_components = 3
        | JCS_CMYK \<Rightarrow> input_components = 4
        | JCS_YCCK \<Rightarrow> input_components = 4
        | JCS_UNKNOWN \<Rightarrow> \<not> input_components < 1)
      in if ok then Inr () else Inl JERR_BAD_IN_COLORSPACE)"

definition check_transform :: "color_transform \<Rightarrow> color_space \<Rightarrow> unit result" where
  "check_transform transform space =
     (if transform \<noteq> JCT_NONE \<and> space \<noteq> JCS_RGB \<and> space \<noteq> JCS_BG_RGB
      then Inl JERR_CONVERSION_NOTIMPL else Inr ())"

definition jinit_color_converter ::
  "color_space \<Rightarrow> nat \<Rightarrow> color_space \<Rightarrow> nat \<Rightarrow> color_transform \<Rightarrow> c_converter result" where
  "jinit_color_converter in_space input_components jpeg_space num_components transform =
     bind_err (check_in_components in_space input_components) (\<lambda>_.
     bind_err (check_transform transform jpeg_space) (\<lambda>_.
     let use = (\<lambda>start m scale. Inr \<lparr>start_rgb_ycc = start, c_method = m, scale_chroma = scale\<rparr>);
         needs = (\<lambda>n r. if num_components \<noteq> n then Inl JERR_BAD_J_COLORSPACE else r);
         rgb = needs 3
           (if in_space = jpeg_space
            then (case transform of JCT_NONE \<Rightarrow> use False C_rgb False
                                  | JCT_SUBTRACT_GREEN \<Rightarrow> use False C_rgb_rgb1 False)
            else Inl JERR_CONVERSION_NOTIMPL);
         other = (if jpeg_space \<noteq> in_space \<or> num_components \<noteq> input_components
                  then Inl JERR_CONVERSION_NOTIMPL else use False C_null False)
     in case jpeg_space of
          JCS_GRAYSCALE \<Rightarrow> needs 1
            (case in_space of
               JCS_GRAYSCALE \<Rightarrow> use False C_grayscale False
             | JCS_YCbCr \<Rightarrow> use False C_grayscale False
             | JCS_BG_YCC \<Rightarrow> use False C_grayscale False
             | JCS_RGB \<Rightarrow> use True C_rgb_gray False
             | _ \<Rightarrow> Inl JERR_CONVERSION_NOTIMPL)
        | JCS_RGB \<Rightarrow> rgb
        | JCS_BG_RGB \<Rightarrow> rgb
        | JCS_YCbCr \<Rightarrow> needs 3
            (case in_space of
               JCS_RGB \<Rightarrow> use True C_rgb_ycc False
             | JCS_YCbCr \<Rightarrow> use False C_null False
             | _ \<Rightarrow> Inl JERR_CONVERSION_NOTIMPL)
        | JCS_BG_YCC \<Rightarrow> needs 3
            (case in_space of
               JCS_RGB \<Rightarrow> use True C_rgb_ycc True
             | JCS_YCbCr \<Rightarrow> use False C_null True
             | JCS_BG_YCC \<Rightarrow> use False C_null False
             | _ \<Rightarrow> Inl JERR_CONVERSION_NOTIMPL)
        | JCS_CMYK \<Rightarrow> needs 4
            (if in_space = JCS_CMYK then use False C_null False else Inl JERR_CONVERSION_NOTIMPL)
        | JCS_YCCK \<Rightarrow> needs 4
            (case in_space of
               JCS_CMYK \<Rightarrow> use True C_cmyk_ycck False
             | JCS_YCCK \<Rightarrow> use False C_null False
             | _ \<Rightarrow> Inl JERR_CONVERSION_NOTIMPL)
        | JCS_UNKNOWN \<Rightarrow> other))"

text \<open>\<open>(*cconvert->color_convert)\<close>; the table is there only after \<open>rgb_ycc_start\<close>.\<close>

definition color_convert_c ::
  "c_converter \<Rightarrow> nat \<Rightarrow> nat \<Rightarrow> nat \<Rightarrow> samparray \<Rightarrow> sampimage \<Rightarrow> nat \<Rightarrow> nat \<Rightarrow> sampimage option" where
  "color_convert_c cc input_components num_components image_width =
     (let ctab = (if start_rgb_ycc cc then rgb_ycc_start else [])
      in case c_method cc of
           C_rgb_ycc \<Rightarrow> rgb_ycc_convert ctab image_width
         | C_rgb_gray \<Rightarrow> rgb_gray_convert_c ctab image_width
         | C_cmyk_ycck \<Rightarrow> cmyk_ycck_convert ctab image_width
         | C_rgb_rgb1 \<Rightarrow> rgb_rgb1_convert image_width
         | C_grayscale \<Rightarrow> grayscale_convert_c input_components image_width
         | C_rgb \<Rightarrow> rgb_convert_c image_width
         | C_null \<Rightarrow> null_convert_c num_components image_width)"

section \<open>Back to the output colour space\<close>

record ycc_rgb_tabs =
  Cr_r_tab :: "int list"
  Cb_b_tab :: "int list"
  Cr_g_tab :: "int list"
  Cb_g_tab :: "int list"
  range_limit :: limit_table

text \<open>\<open>tab[i]\<close> for \<open>i = 0..MAXJSAMPLE\<close>, \<open>x = i - CENTERJSAMPLE\<close>.\<close>

definition chroma_tab :: "(int \<Rightarrow> int) \<Rightarrow> int list" where
  "chroma_tab f = map (\<lambda>i. f (int i - CENTERJSAMPLE)) [0..<MAXJSAMPLE + 1]"

definition build_ycc_rgb_table :: "limit_table \<Rightarrow> ycc_rgb_tabs" where
  "build_ycc_rgb_table sample_range_limit =
     \<lparr>Cr_r_tab = chroma_tab (\<lambda>x. s32 (descale_color (add32 (FIX 1.402 * x) ONE_HALF))),
      Cb_b_tab = chroma_tab (\<lambda>x. s32 (descale_color (add32 (FIX 1.772 * x) ONE_HALF))),
      Cr_g_tab = chroma_tab (\<lambda>x. s32 ((- FIX 0.714136286) * x)),
      Cb_g_tab = chroma_tab (\<lambda>x. add32 ((- FIX 0.344136286) * x) ONE_HALF),
      range_limit = sample_range_limit\<rparr>"

text \<open>The wide gamut tables, with the extended range-limit table.\<close>

definition build_bg_ycc_rgb_table :: ycc_rgb_tabs where
  "build_bg_ycc_rgb_table =
     \<lparr>Cr_r_tab = chroma_tab (\<lambda>x. s32 (descale_color (add32 (FIX 2.804 * x) ONE_HALF))),
      Cb_b_tab = chroma_tab (\<lambda>x. s32 (descale_color (add32 (FIX 3.544 * x) ONE_HALF))),
      Cr_g_tab = chroma_tab (\<lambda>x. s32 ((- FIX 1.428272572) * x)),
      Cb_g_tab = chroma_tab (\<lambda>x. add32 ((- FIX 0.688272572) * x) ONE_HALF),
      range_limit =
        \<lparr>limit_bytes = replicate (2 * (MAXJSAMPLE + 1)) 0 @ map of_nat [0..<MAXJSAMPLE + 1]
           @ replicate (3 * (MAXJSAMPLE + 1) - (MAXJSAMPLE + 1)) (of_nat MAXJSAMPLE),
         limit_origin = 2 * (MAXJSAMPLE + 1)\<rparr>\<rparr>"

text \<open>
  The loops: \<open>px\<close> reads the samples it needs from the planes at this column and gives those to
  store at \<open>outptr\<close>, which advances by \<open>stride\<close>.
\<close>

definition convert_out ::
  "((nat \<Rightarrow> byte option) \<Rightarrow> byte list option) \<Rightarrow> nat \<Rightarrow> nat \<Rightarrow> sampimage \<Rightarrow> nat \<Rightarrow> samparray \<Rightarrow> nat \<Rightarrow> samparray option" where
  "convert_out px stride num_cols input_buf input_row output_buf num_rows =
     for_loop 0 num_rows (\<lambda>k arr.
       for_loop 0 num_cols (\<lambda>col arr. do {
         vs \<leftarrow> px (\<lambda>ci. do {
           pl \<leftarrow> plane_at input_buf ci;
           inrow \<leftarrow> row_at pl (input_row + k);
           sample_at inrow col
         });
         put_all put_row (map (\<lambda>j. ((k, stride * col + j), vs ! j)) [0..<length vs]) arr
       }) arr) output_buf"

text \<open>The red, green and blue values before range limiting.\<close>

definition ycc_red :: "ycc_rgb_tabs \<Rightarrow> byte \<Rightarrow> byte \<Rightarrow> byte \<Rightarrow> int" where
  "ycc_red t y cb cr = uint y + Cr_r_tab t ! unat cr"

definition ycc_green :: "ycc_rgb_tabs \<Rightarrow> byte \<Rightarrow> byte \<Rightarrow> byte \<Rightarrow> int" where
  "ycc_green t y cb cr = uint y + descale_color (add32 (Cb_g_tab t ! unat cb) (Cr_g_tab t ! unat cr))"

definition ycc_blue :: "ycc_rgb_tabs \<Rightarrow> byte \<Rightarrow> byte \<Rightarrow> byte \<Rightarrow> int" where
  "ycc_blue t y cb cr = uint y + Cb_b_tab t ! unat cb"

definition ycc_rgb_convert ::
  "ycc_rgb_tabs \<Rightarrow> nat \<Rightarrow> sampimage \<Rightarrow> nat \<Rightarrow> samparray \<Rightarrow> nat \<Rightarrow> samparray option" where
  "ycc_rgb_convert t = convert_out (\<lambda>inptr. do {
     y \<leftarrow> inptr 0;
     cb \<leftarrow> inptr 1;
     cr \<leftarrow> inptr 2;
     r \<leftarrow> limit_at (range_limit t) (ycc_red t y cb cr);
     g \<leftarrow> limit_at (range_limit t) (ycc_green t y cb cr);
     b \<leftarrow> limit_at (range_limit t) (ycc_blue t y cb cr);
     Some [r, g, b]
   }) RGB_PIXELSIZE"

definition build_rgb_y_table :: "int list" where
  "build_rgb_y_table =
     (let section = (\<lambda>f. map (\<lambda>i. s32 (f (int i))) [0..<MAXJSAMPLE + 1])
      in section (\<lambda>i. FIX 0.299 * i)
       @ section (\<lambda>i. FIX 0.587 * i)
       @ section (\<lambda>i. FIX 0.114 * i + ONE_HALF))"

definition rgb_gray_convert_d ::
  "int list \<Rightarrow> nat \<Rightarrow> sampimage \<Rightarrow> nat \<Rightarrow> samparray \<Rightarrow> nat \<Rightarrow> samparray option" where
  "rgb_gray_convert_d ctab = convert_out (\<lambda>inptr. do {
     r \<leftarrow> inptr 0;
     g \<leftarrow> inptr 1;
     b \<leftarrow> inptr 2;
     Some [ctab_y ctab (unat r) (unat g) (unat b)]
   }) 1"

definition add_green :: "byte \<Rightarrow> byte \<Rightarrow> int" where
  "add_green x g = (uint x + uint g - CENTERJSAMPLE) AND int MAXJSAMPLE"

definition rgb1_rgb_convert :: "nat \<Rightarrow> sampimage \<Rightarrow> nat \<Rightarrow> samparray \<Rightarrow> nat \<Rightarrow> samparray option" where
  "rgb1_rgb_convert = convert_out (\<lambda>inptr. do {
     r \<leftarrow> inptr 0;
     g \<leftarrow> inptr 1;
     b \<leftarrow> inptr 2;
     Some [word_of_int (add_green r g), g, word_of_int (add_green b g)]
   }) RGB_PIXELSIZE"

definition rgb1_gray_convert ::
  "int list \<Rightarrow> nat \<Rightarrow> sampimage \<Rightarrow> nat \<Rightarrow> samparray \<Rightarrow> nat \<Rightarrow> samparray option" where
  "rgb1_gray_convert ctab = convert_out (\<lambda>inptr. do {
     r \<leftarrow> inptr 0;
     g \<leftarrow> inptr 1;
     b \<leftarrow> inptr 2;
     Some [ctab_y ctab (nat (add_green r g)) (unat g) (nat (add_green b g))]
   }) 1"

definition rgb_convert_d :: "nat \<Rightarrow> sampimage \<Rightarrow> nat \<Rightarrow> samparray \<Rightarrow> nat \<Rightarrow> samparray option" where
  "rgb_convert_d = convert_out (\<lambda>inptr. do {
     r \<leftarrow> inptr 0;
     g \<leftarrow> inptr 1;
     b \<leftarrow> inptr 2;
     Some [r, g, b]
   }) RGB_PIXELSIZE"

definition null_convert_d :: "nat \<Rightarrow> nat \<Rightarrow> sampimage \<Rightarrow> nat \<Rightarrow> samparray \<Rightarrow> nat \<Rightarrow> samparray option" where
  "null_convert_d nc num_cols input_buf input_row output_buf num_rows =
     for_loop 0 num_rows (\<lambda>k arr.
       for_loop 0 nc (\<lambda>ci arr.
         for_loop 0 num_cols (\<lambda>col arr. do {
           pl \<leftarrow> plane_at input_buf ci;
           inrow \<leftarrow> row_at pl (input_row + k);
           v \<leftarrow> sample_at inrow col;
           put_row (k, ci + nc * col) v arr
         }) arr) arr) output_buf"

text \<open>\<open>jcopy_sample_rows\<close> on two separate arrays: the rows of the plane and of the output.\<close>

definition grayscale_convert_d :: "nat \<Rightarrow> sampimage \<Rightarrow> nat \<Rightarrow> samparray \<Rightarrow> nat \<Rightarrow> samparray option" where
  "grayscale_convert_d num_cols input_buf input_row output_buf num_rows = do {
     pl \<leftarrow> plane_at input_buf 0;
     let n = length pl;
     st \<leftarrow> jcopy_sample_rows [0..<n] input_row [n..<n + length output_buf] 0 num_rows num_cols
             (\<lambda>p. (pl @ output_buf) ! p);
     Some (map st [n..<n + length output_buf])
   }"

definition gray_rgb_convert :: "nat \<Rightarrow> sampimage \<Rightarrow> nat \<Rightarrow> samparray \<Rightarrow> nat \<Rightarrow> samparray option" where
  "gray_rgb_convert = convert_out (\<lambda>inptr. do { y \<leftarrow> inptr 0; Some [y, y, y] }) RGB_PIXELSIZE"

definition ycck_cmyk_convert ::
  "limit_table \<Rightarrow> ycc_rgb_tabs \<Rightarrow> nat \<Rightarrow> sampimage \<Rightarrow> nat \<Rightarrow> samparray \<Rightarrow> nat \<Rightarrow> samparray option" where
  "ycck_cmyk_convert sample_range_limit t = convert_out (\<lambda>inptr. do {
     y \<leftarrow> inptr 0;
     cb \<leftarrow> inptr 1;
     cr \<leftarrow> inptr 2;
     r \<leftarrow> limit_at sample_range_limit (int MAXJSAMPLE - ycc_red t y cb cr);
     g \<leftarrow> limit_at sample_range_limit (int MAXJSAMPLE - ycc_green t y cb cr);
     b \<leftarrow> limit_at sample_range_limit (int MAXJSAMPLE - ycc_blue t y cb cr);
     k \<leftarrow> inptr 3;
     Some [r, g, b, k]
   }) 4"

text \<open>Selection of the method (\<open>jinit_color_deconverter\<close>).\<close>

datatype d_method = D_grayscale | D_rgb_gray | D_rgb1_gray | D_gray_rgb | D_ycc_rgb | D_rgb
  | D_rgb1_rgb | D_ycck_cmyk | D_null

datatype out_tables = No_table | Y_table | Ycc_table | Bg_ycc_table

record d_converter =
  d_method :: d_method
  out_tables :: out_tables
  out_color_components :: nat
  only_luminance :: bool   \<comment> \<open>\<open>component_needed\<close> cleared from component 1 on\<close>

definition check_components :: "color_space \<Rightarrow> nat \<Rightarrow> unit result" where
  "check_components jpeg_color_space num_components =
     (let ok = (case jpeg_color_space of
          JCS_GRAYSCALE \<Rightarrow> num_components = 1
        | JCS_RGB \<Rightarrow> num_components = 3
        | JCS_YCbCr \<Rightarrow> num_components = 3
        | JCS_BG_RGB \<Rightarrow> num_components = 3
        | JCS_BG_YCC \<Rightarrow> num_components = 3
        | JCS_CMYK \<Rightarrow> num_components = 4
        | JCS_YCCK \<Rightarrow> num_components = 4
        | JCS_UNKNOWN \<Rightarrow> \<not> num_components < 1)
      in if ok then Inr () else Inl JERR_BAD_J_COLORSPACE)"

definition jinit_color_deconverter ::
  "color_space \<Rightarrow> nat \<Rightarrow> color_transform \<Rightarrow> color_space \<Rightarrow> d_converter result" where
  "jinit_color_deconverter jpeg_space num_components transform out_space =
     bind_err (check_components jpeg_space num_components) (\<lambda>_.
     bind_err (check_transform transform jpeg_space) (\<lambda>_.
     let use = (\<lambda>m t n. Inr \<lparr>d_method = m, out_tables = t, out_color_components = n, only_luminance = False\<rparr>);
         luma = Inr \<lparr>d_method = D_grayscale, out_tables = No_table, out_color_components = 1,
                     only_luminance = True\<rparr>;
         pick = (\<lambda>m m1 t n. (case transform of JCT_NONE \<Rightarrow> use m t n | JCT_SUBTRACT_GREEN \<Rightarrow> use m1 t n));
         same = (if out_space = jpeg_space then use D_null No_table num_components
                 else Inl JERR_CONVERSION_NOTIMPL)
     in case out_space of
          JCS_GRAYSCALE \<Rightarrow>
            (case jpeg_space of
               JCS_GRAYSCALE \<Rightarrow> luma
             | JCS_YCbCr \<Rightarrow> luma
             | JCS_BG_YCC \<Rightarrow> luma
             | JCS_RGB \<Rightarrow> pick D_rgb_gray D_rgb1_gray Y_table 1
             | _ \<Rightarrow> Inl JERR_CONVERSION_NOTIMPL)
        | JCS_RGB \<Rightarrow>
            (case jpeg_space of
               JCS_GRAYSCALE \<Rightarrow> use D_gray_rgb No_table RGB_PIXELSIZE
             | JCS_YCbCr \<Rightarrow> use D_ycc_rgb Ycc_table RGB_PIXELSIZE
             | JCS_BG_YCC \<Rightarrow> use D_ycc_rgb Bg_ycc_table RGB_PIXELSIZE
             | JCS_RGB \<Rightarrow> pick D_rgb D_rgb1_rgb No_table RGB_PIXELSIZE
             | _ \<Rightarrow> Inl JERR_CONVERSION_NOTIMPL)
        | JCS_BG_RGB \<Rightarrow>
            (if jpeg_space = JCS_BG_RGB then pick D_rgb D_rgb1_rgb No_table RGB_PIXELSIZE
             else Inl JERR_CONVERSION_NOTIMPL)
        | JCS_CMYK \<Rightarrow>
            (case jpeg_space of
               JCS_YCCK \<Rightarrow> use D_ycck_cmyk Ycc_table 4
             | JCS_CMYK \<Rightarrow> use D_null No_table 4
             | _ \<Rightarrow> Inl JERR_CONVERSION_NOTIMPL)
        | _ \<Rightarrow> same))"

definition color_convert_d ::
  "d_converter \<Rightarrow> nat \<Rightarrow> nat \<Rightarrow> sampimage \<Rightarrow> nat \<Rightarrow> samparray \<Rightarrow> nat \<Rightarrow> samparray option" where
  "color_convert_d dc num_components output_width =
     (let ctab = (if out_tables dc = Y_table then build_rgb_y_table else []);
          t = (if out_tables dc = Bg_ycc_table then build_bg_ycc_rgb_table
               else build_ycc_rgb_table prepare_range_limit_table)
      in case d_method dc of
           D_grayscale \<Rightarrow> grayscale_convert_d output_width
         | D_rgb_gray \<Rightarrow> rgb_gray_convert_d ctab output_width
         | D_rgb1_gray \<Rightarrow> rgb1_gray_convert ctab output_width
         | D_gray_rgb \<Rightarrow> gray_rgb_convert output_width
         | D_ycc_rgb \<Rightarrow> ycc_rgb_convert t output_width
         | D_rgb \<Rightarrow> rgb_convert_d output_width
         | D_rgb1_rgb \<Rightarrow> rgb1_rgb_convert output_width
         | D_ycck_cmyk \<Rightarrow> ycck_cmyk_convert prepare_range_limit_table t output_width
         | D_null \<Rightarrow> null_convert_d num_components output_width)"

section \<open>Values of the tables\<close>

lemma FIX_values:
  "FIX 0.299 = 19595" "FIX 0.587 = 38470" "FIX 0.114 = 7471" "FIX 0.168735892 = 11058"
  "FIX 0.331264108 = 21710" "FIX 0.5 = 32768" "FIX 0.418687589 = 27439" "FIX 0.081312411 = 5329"
  "FIX 1.402 = 91881" "FIX 1.772 = 116130" "FIX 0.714136286 = 46802" "FIX 0.344136286 = 22553"
  "FIX 2.804 = 183763" "FIX 3.544 = 232260" "FIX 1.428272572 = 93603" "FIX 0.688272572 = 45107"
  by (simp_all add: FIX_def SCALEBITS_def floor_eq_iff)

lemmas color_consts = SCALEBITS_def ONE_HALF_def CBCR_OFFSET_def CENTERJSAMPLE_def MAXJSAMPLE_def

lemma s32_small: "-2147483648 \<le> x \<Longrightarrow> x < 2147483648 \<Longrightarrow> s32 x = x"
  by (rule s32_id) (simp add: in_s32_def)

lemma section_at:
  assumes "i < 256"
  shows "map (\<lambda>i. s32 (f (int i))) [0..<MAXJSAMPLE + 1] ! i = s32 (f (int i))"
    "length (map (\<lambda>i. s32 (f (int i))) [0..<MAXJSAMPLE + 1]) = 256"
  using assms by (simp_all add: MAXJSAMPLE_def del: upt_Suc)

lemma nth_next: "length xs = n \<Longrightarrow> n \<le> i \<Longrightarrow> (xs @ ys) ! i = ys ! (i - n)"
  by (simp add: nth_append)

lemma nth_here: "i < length xs \<Longrightarrow> (xs @ ys) ! i = xs ! i"
  by (simp add: nth_append)

lemma rgb_ycc_table:
  assumes "i < 256"
  shows "rgb_ycc_start ! (i + R_Y_OFF) = 19595 * int i"
    "rgb_ycc_start ! (i + G_Y_OFF) = 38470 * int i"
    "rgb_ycc_start ! (i + B_Y_OFF) = 7471 * int i + 32768"
    "rgb_ycc_start ! (i + R_CB_OFF) = - 11058 * int i"
    "rgb_ycc_start ! (i + G_CB_OFF) = - 21710 * int i"
    "rgb_ycc_start ! (i + B_CB_OFF) = 32768 * int i + 8388608 + 32768 - 1"
    "rgb_ycc_start ! (i + R_CR_OFF) = 32768 * int i + 8388608 + 32768 - 1"
    "rgb_ycc_start ! (i + G_CR_OFF) = - 27439 * int i"
    "rgb_ycc_start ! (i + B_CR_OFF) = - 5329 * int i"
  using assms unfolding rgb_ycc_start_def FIX_values
  by (simp_all add: table_offsets color_consts nth_append s32_small del: upt_Suc)

lemma rgb_y_table:
  assumes "i < 256"
  shows "build_rgb_y_table ! (i + R_Y_OFF) = 19595 * int i"
    "build_rgb_y_table ! (i + G_Y_OFF) = 38470 * int i"
    "build_rgb_y_table ! (i + B_Y_OFF) = 7471 * int i + 32768"
  using assms unfolding build_rgb_y_table_def FIX_values
  by (simp_all add: table_offsets color_consts nth_append s32_small del: upt_Suc)

text \<open>The integers the conversion computes; in range, so the casts lose nothing.\<close>

definition y_value :: "int \<Rightarrow> int \<Rightarrow> int \<Rightarrow> int" where
  "y_value r g b = (19595 * r + 38470 * g + 7471 * b + 32768) div 65536"

definition cb_value :: "int \<Rightarrow> int \<Rightarrow> int \<Rightarrow> int" where
  "cb_value r g b = (32768 * b - 11058 * r - 21710 * g + 8388608 + 32767) div 65536"

definition cr_value :: "int \<Rightarrow> int \<Rightarrow> int \<Rightarrow> int" where
  "cr_value r g b = (32768 * r - 27439 * g - 5329 * b + 8388608 + 32767) div 65536"

lemma ycc_values_range:
  assumes "0 \<le> r" "r \<le> 255" "0 \<le> g" "g \<le> 255" "0 \<le> b" "b \<le> 255"
  shows "0 \<le> y_value r g b" "y_value r g b \<le> 255" "0 \<le> cb_value r g b" "cb_value r g b \<le> 255"
    "0 \<le> cr_value r g b" "cr_value r g b \<le> 255"
  unfolding y_value_def cb_value_def cr_value_def using assms by linarith+

lemma uint_byte: "0 \<le> x \<Longrightarrow> x \<le> 255 \<Longrightarrow> uint (word_of_int x :: byte) = x"
  by (simp add: uint_word_of_int)

lemma ctab_ycc:
  assumes "r < 256" "g < 256" "b < 256"
  shows "uint (ctab_y rgb_ycc_start r g b) = y_value (int r) (int g) (int b)"
    "uint (ctab_cb rgb_ycc_start r g b) = cb_value (int r) (int g) (int b)"
    "uint (ctab_cr rgb_ycc_start r g b) = cr_value (int r) (int g) (int b)"
    "uint (ctab_y build_rgb_y_table r g b) = y_value (int r) (int g) (int b)"
proof -
  have le: "0 \<le> int r" "int r \<le> 255" "0 \<le> int g" "int g \<le> 255" "0 \<le> int b" "int b \<le> 255"
    using assms by simp_all
  note ranges = ycc_values_range [OF le]
  have sums: "ctab_y rgb_ycc_start r g b = word_of_int (y_value (int r) (int g) (int b))"
    "ctab_y build_rgb_y_table r g b = word_of_int (y_value (int r) (int g) (int b))"
    "ctab_cb rgb_ycc_start r g b = word_of_int (cb_value (int r) (int g) (int b))"
    "ctab_cr rgb_ycc_start r g b = word_of_int (cr_value (int r) (int g) (int b))"
    unfolding ctab_y_def ctab_cb_def ctab_cr_def ctab_sum_def add32_def
      rgb_ycc_table [OF assms(1)] rgb_ycc_table [OF assms(2)] rgb_ycc_table [OF assms(3)]
      rgb_y_table [OF assms(1)] rgb_y_table [OF assms(2)] rgb_y_table [OF assms(3)]
    using le by (simp_all add: s32_small descale_color_def SCALEBITS_def y_value_def cb_value_def
        cr_value_def algebra_simps)
  show "uint (ctab_y rgb_ycc_start r g b) = y_value (int r) (int g) (int b)"
    "uint (ctab_cb rgb_ycc_start r g b) = cb_value (int r) (int g) (int b)"
    "uint (ctab_cr rgb_ycc_start r g b) = cr_value (int r) (int g) (int b)"
    "uint (ctab_y build_rgb_y_table r g b) = y_value (int r) (int g) (int b)"
    unfolding sums using ranges by (simp_all add: uint_byte)
qed

text \<open>The way back: \<open>k\<close> is 1 for the normal and 2 for the wide gamut.\<close>

definition red_value :: "int \<Rightarrow> int \<Rightarrow> int" where
  "red_value y cr = y + (91881 * (cr - 128) + 32768) div 65536"

definition green_value :: "int \<Rightarrow> int \<Rightarrow> int \<Rightarrow> int" where
  "green_value y cb cr = y + (- 22553 * (cb - 128) + 32768 - 46802 * (cr - 128)) div 65536"

definition blue_value :: "int \<Rightarrow> int \<Rightarrow> int" where
  "blue_value y cb = y + (116130 * (cb - 128) + 32768) div 65536"

definition bg_red_value :: "int \<Rightarrow> int \<Rightarrow> int" where
  "bg_red_value y cr = y + (183763 * (cr - 128) + 32768) div 65536"

definition bg_green_value :: "int \<Rightarrow> int \<Rightarrow> int \<Rightarrow> int" where
  "bg_green_value y cb cr = y + (- 45107 * (cb - 128) + 32768 - 93603 * (cr - 128)) div 65536"

definition bg_blue_value :: "int \<Rightarrow> int \<Rightarrow> int" where
  "bg_blue_value y cb = y + (232260 * (cb - 128) + 32768) div 65536"

lemma chroma_tab_at: "chroma_tab f ! unat (x :: byte) = f (uint x - 128)"
  using unat_byte_less [of x] by (simp add: chroma_tab_def MAXJSAMPLE_def CENTERJSAMPLE_def del: upt_Suc unat_byte_less)

lemma byte_bounds: "0 \<le> uint (x :: byte)" "uint (x :: byte) \<le> 255"
  using uint_lt2p [of x] by simp_all

lemma div16: "65536 * (x div 65536) \<le> x" "x < 65536 * (x div 65536) + 65536" for x :: int
  by simp_all

lemma div_range: "lo * 65536 \<le> x \<Longrightarrow> x < hi * 65536 \<Longrightarrow> lo \<le> x div 65536 \<and> x div 65536 < hi"
  for x lo hi :: int
  using div16 [of x] by linarith

lemma tens: "(10 :: rat) ^ 3 = 1000" "(10 :: rat) ^ 9 = 1000000000" "(10 :: rat) ^ 1 = 10" "(10 :: rat) ^ Suc 0 = 10"
  by simp_all

lemma byte_rat: "0 \<le> rat_of_int (uint (x :: byte))" "rat_of_int (uint (x :: byte)) \<le> 255"
proof -
  have "rat_of_int 0 \<le> of_int (uint x)" "rat_of_int (uint x) \<le> of_int 255"
    unfolding of_int_le_iff by (rule byte_bounds)+
  then show "0 \<le> rat_of_int (uint x)" "rat_of_int (uint x) \<le> 255" by (simp_all only: of_int_0 of_int_numeral)
qed

lemma div16_rat: "65536 * rat_of_int (x div 65536) \<le> of_int x" "rat_of_int x < 65536 * of_int (x div 65536) + 65536"
proof -
  have "rat_of_int (65536 * (x div 65536)) \<le> of_int x" "rat_of_int x < of_int (65536 * (x div 65536) + 65536)"
    unfolding of_int_le_iff of_int_less_iff by (rule div16)+
  then show "65536 * rat_of_int (x div 65536) \<le> of_int x" "rat_of_int x < 65536 * of_int (x div 65536) + 65536"
    by simp_all
qed

text \<open>The chroma terms: no sum or table entry wraps, and no term leaves half the table.\<close>

lemma chroma_terms:
  fixes x z :: int
  assumes "0 \<le> x" "x \<le> 255" "0 \<le> z" "z \<le> 255"
  shows "-256 \<le> (91881 * (x - 128) + 32768) div 65536 \<and> (91881 * (x - 128) + 32768) div 65536 < 256"
    "-256 \<le> (116130 * (x - 128) + 32768) div 65536 \<and> (116130 * (x - 128) + 32768) div 65536 < 256"
    "-256 \<le> (- 22553 * (z - 128) + 32768 - 46802 * (x - 128)) div 65536 \<and>
      (- 22553 * (z - 128) + 32768 - 46802 * (x - 128)) div 65536 < 256"
    "-512 \<le> (183763 * (x - 128) + 32768) div 65536 \<and> (183763 * (x - 128) + 32768) div 65536 < 512"
    "-512 \<le> (232260 * (x - 128) + 32768) div 65536 \<and> (232260 * (x - 128) + 32768) div 65536 < 512"
    "-512 \<le> (- 45107 * (z - 128) + 32768 - 93603 * (x - 128)) div 65536 \<and>
      (- 45107 * (z - 128) + 32768 - 93603 * (x - 128)) div 65536 < 512"
  using assms by (auto intro!: div_range simp: algebra_simps)

lemma chroma_entries:
  fixes x z :: int
  assumes "0 \<le> x" "x \<le> 255" "0 \<le> z" "z \<le> 255"
  shows "s32 (descale_color (add32 (91881 * (x - 128)) ONE_HALF)) = (91881 * (x - 128) + 32768) div 65536"
    "s32 (descale_color (add32 (116130 * (x - 128)) ONE_HALF)) = (116130 * (x - 128) + 32768) div 65536"
    "descale_color (add32 (add32 (- 22553 * (z - 128)) ONE_HALF) (s32 (- 46802 * (x - 128)))) =
      (- 22553 * (z - 128) + 32768 - 46802 * (x - 128)) div 65536"
    "s32 (descale_color (add32 (183763 * (x - 128)) ONE_HALF)) = (183763 * (x - 128) + 32768) div 65536"
    "s32 (descale_color (add32 (232260 * (x - 128)) ONE_HALF)) = (232260 * (x - 128) + 32768) div 65536"
    "descale_color (add32 (add32 (- 45107 * (z - 128)) ONE_HALF) (s32 (- 93603 * (x - 128)))) =
      (- 45107 * (z - 128) + 32768 - 93603 * (x - 128)) div 65536"
proof -
  note terms = chroma_terms [OF assms]
  have small: "s32 y = y" if "-512 \<le> y \<and> y < 512" for y using that by (intro s32_small) auto
  show "s32 (descale_color (add32 (91881 * (x - 128)) ONE_HALF)) = (91881 * (x - 128) + 32768) div 65536"
    "s32 (descale_color (add32 (116130 * (x - 128)) ONE_HALF)) = (116130 * (x - 128) + 32768) div 65536"
    "s32 (descale_color (add32 (183763 * (x - 128)) ONE_HALF)) = (183763 * (x - 128) + 32768) div 65536"
    "s32 (descale_color (add32 (232260 * (x - 128)) ONE_HALF)) = (232260 * (x - 128) + 32768) div 65536"
    using assms terms by (simp_all add: descale_color_def add32_def SCALEBITS_def ONE_HALF_def s32_small small)
  show "descale_color (add32 (add32 (- 22553 * (z - 128)) ONE_HALF) (s32 (- 46802 * (x - 128)))) =
      (- 22553 * (z - 128) + 32768 - 46802 * (x - 128)) div 65536"
    "descale_color (add32 (add32 (- 45107 * (z - 128)) ONE_HALF) (s32 (- 93603 * (x - 128)))) =
      (- 45107 * (z - 128) + 32768 - 93603 * (x - 128)) div 65536"
    using assms by (simp_all add: descale_color_def add32_def SCALEBITS_def ONE_HALF_def s32_small)
qed

lemma ycc_values:
  fixes y cb cr :: byte
  shows "ycc_red (build_ycc_rgb_table lt) y cb cr = red_value (uint y) (uint cr)"
    "ycc_green (build_ycc_rgb_table lt) y cb cr = green_value (uint y) (uint cb) (uint cr)"
    "ycc_blue (build_ycc_rgb_table lt) y cb cr = blue_value (uint y) (uint cb)"
    "ycc_red build_bg_ycc_rgb_table y cb cr = bg_red_value (uint y) (uint cr)"
    "ycc_green build_bg_ycc_rgb_table y cb cr = bg_green_value (uint y) (uint cb) (uint cr)"
    "ycc_blue build_bg_ycc_rgb_table y cb cr = bg_blue_value (uint y) (uint cb)"
  unfolding ycc_red_def ycc_green_def ycc_blue_def build_ycc_rgb_table_def build_bg_ycc_rgb_table_def
    ycc_rgb_tabs.simps chroma_tab_at FIX_values red_value_def green_value_def
    blue_value_def bg_red_value_def bg_green_value_def bg_blue_value_def
  using chroma_entries [OF byte_bounds [of cr] byte_bounds [of cb]]
    chroma_entries [OF byte_bounds [of cb] byte_bounds [of cr]] by (simp_all only: add_left_cancel)

lemma bg_limit_clamps:
  assumes "-512 \<le> x" "x < 768"
  shows "limit_at (range_limit build_bg_ycc_rgb_table) x = Some (word_of_int (clamp x))"
proof -
  have "limit_bytes (range_limit build_bg_ycc_rgb_table) =
      replicate 512 0 @ map of_nat [0..<256] @ replicate 512 255"
    by (simp add: build_bg_ycc_rgb_table_def MAXJSAMPLE_def del: upt_Suc)
  moreover have "limit_origin (range_limit build_bg_ycc_rgb_table) = 512"
    by (simp add: build_bg_ycc_rgb_table_def MAXJSAMPLE_def)
  ultimately show ?thesis using assms
    by (auto simp: limit_at_def Let_def nth_append clamp_def MAXJSAMPLE_def of_nat_nat nat_less_iff)
qed

text \<open>No value falls outside its range-limit table.\<close>

lemma offset_range: "0 \<le> y \<Longrightarrow> y \<le> 255 \<Longrightarrow> - n \<le> t \<and> t < n \<Longrightarrow> - n \<le> y + t \<and> y + t < n + 255"
  for y n t :: int
  by linarith

lemma values_in_limits:
  fixes y cb cr :: byte
  shows "-256 \<le> red_value (uint y) (uint cr) \<and> red_value (uint y) (uint cr) < 511"
    "-256 \<le> green_value (uint y) (uint cb) (uint cr) \<and> green_value (uint y) (uint cb) (uint cr) < 511"
    "-256 \<le> blue_value (uint y) (uint cb) \<and> blue_value (uint y) (uint cb) < 511"
    "-512 \<le> bg_red_value (uint y) (uint cr) \<and> bg_red_value (uint y) (uint cr) < 767"
    "-512 \<le> bg_green_value (uint y) (uint cb) (uint cr) \<and> bg_green_value (uint y) (uint cb) (uint cr) < 767"
    "-512 \<le> bg_blue_value (uint y) (uint cb) \<and> bg_blue_value (uint y) (uint cb) < 767"
  unfolding red_value_def green_value_def blue_value_def bg_red_value_def bg_green_value_def bg_blue_value_def
  using offset_range [OF byte_bounds [of y] chroma_terms(1) [OF byte_bounds [of cr] byte_bounds [of cb]]]
    offset_range [OF byte_bounds [of y] chroma_terms(2) [OF byte_bounds [of cb] byte_bounds [of cr]]]
    offset_range [OF byte_bounds [of y] chroma_terms(3) [OF byte_bounds [of cr] byte_bounds [of cb]]]
    offset_range [OF byte_bounds [of y] chroma_terms(4) [OF byte_bounds [of cr] byte_bounds [of cb]]]
    offset_range [OF byte_bounds [of y] chroma_terms(5) [OF byte_bounds [of cb] byte_bounds [of cr]]]
    offset_range [OF byte_bounds [of y] chroma_terms(6) [OF byte_bounds [of cr] byte_bounds [of cb]]]
  by simp_all

text \<open>Back and forth: each component is off by at most one.\<close>

lemma ycc_round_trip:
  assumes "0 \<le> r" "r \<le> 255" "0 \<le> g" "g \<le> 255" "0 \<le> b" "b \<le> 255"
  shows "\<bar>red_value (y_value r g b) (cr_value r g b) - r\<bar> \<le> 1"
    "\<bar>green_value (y_value r g b) (cb_value r g b) (cr_value r g b) - g\<bar> \<le> 1"
    "\<bar>blue_value (y_value r g b) (cb_value r g b) - b\<bar> \<le> 1"
proof -
  define y cb cr where "y = y_value r g b" and "cb = cb_value r g b" and "cr = cr_value r g b"
  note y = div16 [of "19595 * r + 38470 * g + 7471 * b + 32768", folded y_value_def, folded y_def]
  note cb = div16 [of "32768 * b - 11058 * r - 21710 * g + 8388608 + 32767", folded cb_value_def, folded cb_def]
  note cr = div16 [of "32768 * r - 27439 * g - 5329 * b + 8388608 + 32767", folded cr_value_def, folded cr_def]
  define p q u where "p = (91881 * (cr - 128) + 32768) div 65536"
    and "q = (- 22553 * (cb - 128) + 32768 - 46802 * (cr - 128)) div 65536"
    and "u = (116130 * (cb - 128) + 32768) div 65536"
  have p: "65536 * p \<le> 91881 * cr - 11728000" "91881 * cr - 11728000 < 65536 * p + 65536"
    using div16 [of "91881 * (cr - 128) + 32768", folded p_def] by (simp_all add: algebra_simps)
  have q: "65536 * q \<le> 8910208 - 22553 * cb - 46802 * cr" "8910208 - 22553 * cb - 46802 * cr < 65536 * q + 65536"
    using div16 [of "- 22553 * (cb - 128) + 32768 - 46802 * (cr - 128)", folded q_def]
    by (simp_all add: algebra_simps)
  have u: "65536 * u \<le> 116130 * cb - 14831872" "116130 * cb - 14831872 < 65536 * u + 65536"
    using div16 [of "116130 * (cb - 128) + 32768", folded u_def] by (simp_all add: algebra_simps)
  have "y + p \<le> r + 1" "r \<le> y + p + 1" using y cr p assms by linarith+
  moreover have "y + q \<le> g + 1" "g \<le> y + q + 1" using y cb cr q assms by linarith+
  moreover have "y + u \<le> b + 1" "b \<le> y + u + 1" using y cb u assms by linarith+
  ultimately show "\<bar>red_value (y_value r g b) (cr_value r g b) - r\<bar> \<le> 1"
    "\<bar>green_value (y_value r g b) (cb_value r g b) (cr_value r g b) - g\<bar> \<le> 1"
    "\<bar>blue_value (y_value r g b) (cb_value r g b) - b\<bar> \<le> 1"
    unfolding y_def [symmetric] cb_def [symmetric] cr_def [symmetric] red_value_def green_value_def
      blue_value_def p_def [symmetric] q_def [symmetric] u_def [symmetric]
    by (simp_all add: abs_le_iff)
qed

lemma clamp_close:
  assumes "\<bar>x - v\<bar> \<le> 1" "0 \<le> v" "v \<le> 255"
  shows "\<bar>clamp x - v\<bar> \<le> 1"
  using assms by (auto simp: clamp_def MAXJSAMPLE_def)

lemma AND_255_int: "x AND 255 = x mod 256" for x :: int
proof -
  have "(255 :: int) = mask 8" by (simp add: mask_eq_exp_minus_1)
  then have "x AND 255 = take_bit 8 x" by (simp only: take_bit_eq_mask)
  then show ?thesis by (simp add: take_bit_eq_mod)
qed

lemma rgb1_round_trip:
  fixes r g :: byte
  shows "(word_of_int (add_green (word_of_int ((uint r - uint g + CENTERJSAMPLE) AND int MAXJSAMPLE)) g) :: byte) = r"
proof -
  let ?d = "uint r - uint g + CENTERJSAMPLE"
  have d: "uint (word_of_int (?d AND int MAXJSAMPLE) :: byte) = ?d mod 256"
    by (simp add: MAXJSAMPLE_def AND_255_int uint_byte)
  have "add_green (word_of_int (?d AND int MAXJSAMPLE)) g = (?d mod 256 + (uint g - CENTERJSAMPLE)) mod 256"
    unfolding add_green_def d by (simp add: MAXJSAMPLE_def AND_255_int algebra_simps)
  also have "\<dots> = (?d + (uint g - CENTERJSAMPLE)) mod 256" by (rule mod_add_left_eq)
  also have "\<dots> = uint r" using byte_bounds [of r] by simp
  finally show ?thesis by simp
qed

section \<open>Whole images\<close>

text \<open>\<open>px\<close> computes \<open>nc\<close> samples \<open>f g 0, f g 1, \<dots>\<close> from the samples \<open>g 0, g 1, \<dots>\<close> below \<open>n\<close>.\<close>

definition pixelwise ::
  "((nat \<Rightarrow> byte option) \<Rightarrow> byte list option) \<Rightarrow> nat \<Rightarrow> nat \<Rightarrow> ((nat \<Rightarrow> byte) \<Rightarrow> nat \<Rightarrow> byte) \<Rightarrow> bool" where
  "pixelwise px n nc f \<longleftrightarrow> (\<forall>p g. (\<forall>j<n. p j = Some (g j)) \<longrightarrow> px p = Some (map (f g) [0..<nc]))"

lemma pixelwiseD:
  assumes "pixelwise px n nc f" "\<And>j. j < n \<Longrightarrow> p j = Some (g j)"
  shows "px p = Some (map (f g) [0..<nc])"
  using assms by (simp add: pixelwise_def)

text \<open>What a conversion into planes, and one out of planes, is to do.\<close>

definition into_planes ::
  "((nat \<Rightarrow> byte) \<Rightarrow> nat \<Rightarrow> byte) \<Rightarrow> nat \<Rightarrow> nat \<Rightarrow> nat \<Rightarrow> samparray \<Rightarrow> nat \<Rightarrow> nat \<Rightarrow> sampimage \<Rightarrow> sampimage \<Rightarrow> bool" where
  "into_planes f stride nc w input_buf row n =
     planes.writes {(ci, r, c). ci < nc \<and> row \<le> r \<and> r < row + n \<and> c < w}
       (\<lambda>(ci, r, c). f (\<lambda>j. input_buf ! (r - row) ! (stride * c + j)) ci)"

definition out_of_planes ::
  "((nat \<Rightarrow> byte) \<Rightarrow> nat \<Rightarrow> byte) \<Rightarrow> nat \<Rightarrow> nat \<Rightarrow> sampimage \<Rightarrow> nat \<Rightarrow> nat \<Rightarrow> samparray \<Rightarrow> samparray \<Rightarrow> bool" where
  "out_of_planes f nc w img row n =
     rows.writes {(r, i). r < n \<and> i < nc * w} (\<lambda>(r, i). f (\<lambda>ci. img ! ci ! (row + r) ! (i div nc)) (i mod nc))"

lemma sample_at_fit:
  assumes "rows_fit arr n w" "k < n" "i < w"
  shows "row_at arr k = Some (arr ! k)" "sample_at (arr ! k) i = Some (arr ! k ! i)"
  using assms by (auto simp: rows_fit_def row_at_def sample_at_def)

lemma pixel_index: "col < w \<Longrightarrow> j < n \<Longrightarrow> n * col + j < n * w" for n :: nat
proof -
  assume "col < w" "j < n"
  then have "n * col + j < n * Suc col" by simp
  also have "\<dots> \<le> n * w" using \<open>col < w\<close> by (intro mult_le_mono2) simp
  finally show ?thesis .
qed

lemma interleaved_index: "(\<exists>col<w. \<exists>j<n. i = n * col + j) \<longleftrightarrow> i < n * w" for i n w :: nat
proof
  assume i: "i < n * w"
  then have "0 < n" by (cases n) simp_all
  then have "i div n < w" "i mod n < n"
    using i by (simp_all add: less_mult_imp_div_less mult.commute)
  moreover have "i = n * (i div n) + i mod n" by simp
  ultimately show "\<exists>col<w. \<exists>j<n. i = n * col + j" by blast
qed (use pixel_index in blast)

text \<open>The cells of all rows and columns.\<close>

lemma plane_cells:
  "(\<Union>k\<in>{0..<0 + n}. \<Union>col\<in>{0..<0 + w}. {(ci, r, c). ci < nc \<and> r = row + k \<and> c = col}) =
     {(ci, r, c). ci < nc \<and> row \<le> r \<and> r < row + n \<and> c < w}" (is "?L = ?R")
  for n w nc row :: nat
proof (rule set_eqI)
  fix x :: "nat \<times> nat \<times> nat"
  obtain ci r c where x: "x = (ci, r, c)" by (cases x)
  have "x \<in> ?L \<longleftrightarrow> ci < nc \<and> (\<exists>k<n. r = row + k) \<and> c < w" unfolding x by auto
  then show "x \<in> ?L \<longleftrightarrow> x \<in> ?R" unfolding offset_index x by auto
qed

lemma plane_cells_passes:
  "(\<Union>k\<in>{0..<0 + n}. \<Union>ci\<in>{0..<0 + nc}. \<Union>col\<in>{0..<0 + w}. {(ci, row + k, col)}) =
     {(ci, r, c). ci < nc \<and> row \<le> r \<and> r < row + n \<and> c < w}" (is "?L = ?R")
  for n w nc row :: nat
proof (rule set_eqI)
  fix x :: "nat \<times> nat \<times> nat"
  obtain ci r c where x: "x = (ci, r, c)" by (cases x)
  have "x \<in> ?L \<longleftrightarrow> ci < nc \<and> (\<exists>k<n. r = row + k) \<and> c < w" unfolding x by auto
  then show "x \<in> ?L \<longleftrightarrow> x \<in> ?R" unfolding offset_index x by auto
qed

lemma row_cells:
  "(\<Union>k\<in>{0..<0 + n}. \<Union>col\<in>{0..<0 + w}. {(r, i). r = k \<and> (\<exists>j<nc. i = nc * col + j)}) =
     {(r, i). r < n \<and> i < nc * w}" (is "?L = ?R")
  for n w nc :: nat
proof (rule set_eqI)
  fix x :: "nat \<times> nat"
  obtain r i where x: "x = (r, i)" by (cases x)
  have "x \<in> ?L \<longleftrightarrow> r < n \<and> (\<exists>col<w. \<exists>j<nc. i = nc * col + j)" unfolding x by auto
  then show "x \<in> ?L \<longleftrightarrow> x \<in> ?R" unfolding interleaved_index x by auto
qed

lemma row_cells_passes:
  "(\<Union>k\<in>{0..<0 + n}. \<Union>ci\<in>{0..<0 + nc}. \<Union>col\<in>{0..<0 + w}. {(k, nc * col + ci)}) =
     {(r, i). r < n \<and> i < nc * w}" (is "?L = ?R")
  for n w nc :: nat
proof (rule set_eqI)
  fix x :: "nat \<times> nat"
  obtain r i where x: "x = (r, i)" by (cases x)
  have "x \<in> ?L \<longleftrightarrow> r < n \<and> (\<exists>j<nc. \<exists>col<w. i = nc * col + j)" unfolding x
    by (simp add: Bex_def atLeast0LessThan)
  then have "x \<in> ?L \<longleftrightarrow> r < n \<and> (\<exists>col<w. \<exists>j<nc. i = nc * col + j)" by blast
  then show "x \<in> ?L \<longleftrightarrow> x \<in> ?R" unfolding interleaved_index x by auto
qed

lemma convert_in_result:
  assumes px: "pixelwise px stride nc f"
    and src: "rows_fit input_buf n (stride * w)"
    and dst: "planes_fit img nc (row + n) w"
  shows "\<exists>img'. convert_in px stride w input_buf img row n = Some img' \<and>
    into_planes f stride nc w input_buf row n img img'"
proof -
  let ?Q = "\<lambda>(ci, r, c). f (\<lambda>j. input_buf ! (r - row) ! (stride * c + j)) ci"
  let ?cell = "\<lambda>k col. {(ci, r, c). ci < nc \<and> r = row + k \<and> c = col}"
  let ?body = "\<lambda>k col img. do {
         vs \<leftarrow> px (\<lambda>j. sample_at (input_buf ! k) (stride * col + j));
         put_all put_plane (map (\<lambda>ci. ((ci, row + k, col), vs ! ci)) [0..<length vs]) img }"
  have pixel: "\<exists>t'. ?body k col t = Some t' \<and> planes.writes (?cell k col) ?Q t t'"
    if k: "k < n" and col: "col < w" and ok: "plane_shape t = plane_shape img" for k col t
  proof -
    note ok = planes.shape_valid [OF ok]
    let ?g = "\<lambda>j. input_buf ! k ! (stride * col + j)"
    have "px (\<lambda>j. sample_at (input_buf ! k) (stride * col + j)) = Some (map (f ?g) [0..<nc])"
      by (rule pixelwiseD [OF px]) (simp add: sample_at_fit(2) [OF src k] pixel_index [OF col])
    moreover have "\<exists>t'. put_all put_plane (map (\<lambda>ci. ((ci, row + k, col), map (f ?g) [0..<nc] ! ci)) [0..<nc]) t = Some t'
        \<and> planes.writes (fst ` set (map (\<lambda>ci. ((ci, row + k, col), map (f ?g) [0..<nc] ! ci)) [0..<nc])) ?Q t t'"
      by (rule planes.put_all_writes) (use planes_fit_ok [OF dst] k col ok in auto)
    moreover have "fst ` set (map (\<lambda>ci. ((ci, row + k, col), map (f ?g) [0..<nc] ! ci)) [0..<nc]) = ?cell k col"
      by (auto simp: image_iff)
    ultimately show ?thesis by simp
  qed
  have line: "\<exists>t'. for_loop 0 w (?body k) t = Some t' \<and> planes.writes (\<Union>col\<in>{0..<0 + w}. ?cell k col) ?Q t t'"
    if k: "k < n" and ok: "plane_shape t = plane_shape img" for k t
    by (rule planes.loop_writes) (use pixel [OF k] ok in simp)
  have "\<exists>img'. convert_in px stride w input_buf img row n = Some img' \<and>
      planes.writes (\<Union>k\<in>{0..<0 + n}. \<Union>col\<in>{0..<0 + w}. ?cell k col) ?Q img img'"
    unfolding convert_in_def
  proof (rule planes.loop_writes)
    fix k t
    assume "0 \<le> k" "k < 0 + n" "plane_shape t = plane_shape img"
    then have k: "k < n" and ok: "plane_shape t = plane_shape img" by simp_all
    have "row_at input_buf k = Some (input_buf ! k)" using src k by (simp add: rows_fit_def row_at_def)
    then show "\<exists>t'. do { inrow \<leftarrow> row_at input_buf k;
        for_loop 0 w (\<lambda>col img. do {
          vs \<leftarrow> px (\<lambda>j. sample_at inrow (stride * col + j));
          put_all put_plane (map (\<lambda>ci. ((ci, row + k, col), vs ! ci)) [0..<length vs]) img }) t } = Some t' \<and>
        planes.writes (\<Union>col\<in>{0..<0 + w}. ?cell k col) ?Q t t'"
      using line [OF k ok] by simp
  qed
  then show ?thesis unfolding plane_cells into_planes_def .
qed

lemma convert_out_result:
  assumes px: "pixelwise px m nc f"
    and src: "planes_fit img m (row + n) w"
    and dst: "rows_fit output_buf n (nc * w)"
  shows "\<exists>out'. convert_out px nc w img row output_buf n = Some out' \<and>
    out_of_planes f nc w img row n output_buf out'"
proof -
  let ?Q = "\<lambda>(r, i). f (\<lambda>ci. img ! ci ! (row + r) ! (i div nc)) (i mod nc)"
  let ?cell = "\<lambda>k col. {(r, i). r = k \<and> (\<exists>j<nc. i = nc * col + j)}"
  let ?get = "\<lambda>k col ci. do { pl \<leftarrow> plane_at img ci; inrow \<leftarrow> row_at pl (row + k); sample_at inrow col }"
  let ?body = "\<lambda>k col arr. do {
         vs \<leftarrow> px (?get k col);
         put_all put_row (map (\<lambda>j. ((k, nc * col + j), vs ! j)) [0..<length vs]) arr }"
  have pixel: "\<exists>t'. ?body k col t = Some t' \<and> rows.writes (?cell k col) ?Q t t'"
    if k: "k < n" and col: "col < w" and ok: "row_shape t = row_shape output_buf" for k col t
  proof -
    note ok = rows.shape_valid [OF ok]
    let ?g = "\<lambda>ci. img ! ci ! (row + k) ! col"
    have get: "?get k col ci = Some (?g ci)" if "ci < m" for ci
    proof -
      have "rows_fit (img ! ci) (row + n) w" "plane_at img ci = Some (img ! ci)"
        using src that by (auto simp: planes_fit_def plane_at_def)
      then show ?thesis using sample_at_fit [of "img ! ci" "row + n" w "row + k" col] k col by simp
    qed
    have "px (?get k col) = Some (map (f ?g) [0..<nc])"
      by (rule pixelwiseD [OF px get])
    moreover have "\<exists>t'. put_all put_row (map (\<lambda>j. ((k, nc * col + j), map (f ?g) [0..<nc] ! j)) [0..<nc]) t = Some t'
        \<and> rows.writes (fst ` set (map (\<lambda>j. ((k, nc * col + j), map (f ?g) [0..<nc] ! j)) [0..<nc])) ?Q t t'"
      by (rule rows.put_all_writes) (use rows_fit_ok [OF dst] k col ok pixel_index [OF col] in auto)
    moreover have "fst ` set (map (\<lambda>j. ((k, nc * col + j), map (f ?g) [0..<nc] ! j)) [0..<nc]) = ?cell k col"
      by (auto simp: image_iff)
    ultimately show ?thesis by simp
  qed
  have line: "\<exists>t'. for_loop 0 w (?body k) t = Some t' \<and> rows.writes (\<Union>col\<in>{0..<0 + w}. ?cell k col) ?Q t t'"
    if k: "k < n" and ok: "row_shape t = row_shape output_buf" for k t
    by (rule rows.loop_writes) (use pixel [OF k] ok in simp)
  have "\<exists>out'. convert_out px nc w img row output_buf n = Some out' \<and>
      rows.writes (\<Union>k\<in>{0..<0 + n}. \<Union>col\<in>{0..<0 + w}. ?cell k col) ?Q output_buf out'"
    unfolding convert_out_def
    by (rule rows.loop_writes) (use line in simp)
  then show ?thesis unfolding row_cells out_of_planes_def .
qed

text \<open>The passes for each component store the same samples.\<close>

lemma null_convert_c_result:
  assumes src: "rows_fit input_buf n (nc * w)" and dst: "planes_fit img nc (row + n) w"
  shows "\<exists>img'. null_convert_c nc w input_buf img row n = Some img' \<and>
    into_planes (\<lambda>g. g) nc nc w input_buf row n img img'"
proof -
  let ?Q = "\<lambda>(ci, r, c). input_buf ! (r - row) ! (nc * c + ci)"
  let ?body = "\<lambda>k ci col img. do { inrow \<leftarrow> row_at input_buf k; v \<leftarrow> sample_at inrow (ci + nc * col);
    put_plane (ci, row + k, col) v img }"
  have sample: "\<exists>t'. ?body k ci col t = Some t' \<and> planes.writes {(ci, row + k, col)} ?Q t t'"
    if k: "k < n" and ci: "ci < nc" and col: "col < w" and ok: "plane_shape t = plane_shape img" for k ci col t
  proof -
    note ok = planes.shape_valid [OF ok]
    have "nc * col + ci < nc * w" using pixel_index [OF col ci] .
    then have "row_at input_buf k = Some (input_buf ! k)"
      "sample_at (input_buf ! k) (ci + nc * col) = Some (input_buf ! k ! (nc * col + ci))"
      using sample_at_fit [OF src k] by (simp_all add: add.commute)
    then show ?thesis
      using planes.put_writes [of t "(ci, row + k, col)" ?Q] planes_fit_ok [OF dst ci _ col, of "row + k"] k ok
      by simp
  qed
  have pass: "\<exists>t'. for_loop 0 w (?body k ci) t = Some t' \<and>
      planes.writes (\<Union>col\<in>{0..<0 + w}. {(ci, row + k, col)}) ?Q t t'"
    if "k < n" "ci < nc" "plane_shape t = plane_shape img" for k ci t
    by (rule planes.loop_writes) (use sample [OF that(1,2)] that(3) in simp)
  have line: "\<exists>t'. for_loop 0 nc (\<lambda>ci. for_loop 0 w (?body k ci)) t = Some t' \<and>
      planes.writes (\<Union>ci\<in>{0..<0 + nc}. \<Union>col\<in>{0..<0 + w}. {(ci, row + k, col)}) ?Q t t'"
    if "k < n" "plane_shape t = plane_shape img" for k t
    by (rule planes.loop_writes) (use pass [OF that(1)] that(2) in simp)
  have "\<exists>img'. null_convert_c nc w input_buf img row n = Some img' \<and>
      planes.writes (\<Union>k\<in>{0..<0 + n}. \<Union>ci\<in>{0..<0 + nc}. \<Union>col\<in>{0..<0 + w}. {(ci, row + k, col)}) ?Q img img'"
    unfolding null_convert_c_def by (rule planes.loop_writes) (use line in simp)
  then show ?thesis unfolding plane_cells_passes into_planes_def .
qed

lemma null_convert_d_result:
  assumes src: "planes_fit img nc (row + n) w" and dst: "rows_fit output_buf n (nc * w)"
  shows "\<exists>out'. null_convert_d nc w img row output_buf n = Some out' \<and>
    out_of_planes (\<lambda>g. g) nc w img row n output_buf out'"
proof -
  let ?Q = "\<lambda>(r, i). img ! (i mod nc) ! (row + r) ! (i div nc)"
  let ?body = "\<lambda>k ci col arr. do { pl \<leftarrow> plane_at img ci; inrow \<leftarrow> row_at pl (row + k); v \<leftarrow> sample_at inrow col;
    put_row (k, ci + nc * col) v arr }"
  have sample: "\<exists>t'. ?body k ci col t = Some t' \<and> rows.writes {(k, nc * col + ci)} ?Q t t'"
    if k: "k < n" and ci: "ci < nc" and col: "col < w" and ok: "row_shape t = row_shape output_buf" for k ci col t
  proof -
    note ok = rows.shape_valid [OF ok]
    have "rows_fit (img ! ci) (row + n) w" "plane_at img ci = Some (img ! ci)"
      using src ci by (auto simp: planes_fit_def plane_at_def)
    moreover have "nc * col + ci < nc * w" using pixel_index [OF col ci] .
    ultimately show ?thesis
      using rows.put_writes [of t "(k, nc * col + ci)" ?Q] rows_fit_ok [OF dst k] ok ci
        sample_at_fit [of "img ! ci" "row + n" w "row + k" col] k col
      by (simp add: add.commute)
  qed
  have pass: "\<exists>t'. for_loop 0 w (?body k ci) t = Some t' \<and>
      rows.writes (\<Union>col\<in>{0..<0 + w}. {(k, nc * col + ci)}) ?Q t t'"
    if "k < n" "ci < nc" "row_shape t = row_shape output_buf" for k ci t
    by (rule rows.loop_writes) (use sample [OF that(1,2)] that(3) in simp)
  have line: "\<exists>t'. for_loop 0 nc (\<lambda>ci. for_loop 0 w (?body k ci)) t = Some t' \<and>
      rows.writes (\<Union>ci\<in>{0..<0 + nc}. \<Union>col\<in>{0..<0 + w}. {(k, nc * col + ci)}) ?Q t t'"
    if "k < n" "row_shape t = row_shape output_buf" for k t
    by (rule rows.loop_writes) (use pass [OF that(1)] that(2) in simp)
  have "\<exists>out'. null_convert_d nc w img row output_buf n = Some out' \<and>
      rows.writes (\<Union>k\<in>{0..<0 + n}. \<Union>ci\<in>{0..<0 + nc}. \<Union>col\<in>{0..<0 + w}. {(k, nc * col + ci)}) ?Q output_buf out'"
    unfolding null_convert_d_def by (rule rows.loop_writes) (use line in simp)
  then show ?thesis unfolding row_cells_passes out_of_planes_def .
qed

lemma grayscale_convert_d_result:
  assumes src: "planes_fit img 1 (row + n) w" and dst: "rows_fit output_buf n w"
  shows "\<exists>out'. grayscale_convert_d w img row output_buf n = Some out' \<and>
    (\<forall>r<n. \<forall>i<w. out' ! r ! i = img ! 0 ! (row + r) ! i)"
proof -
  let ?pl = "img ! 0" and ?o = output_buf
  let ?st = "\<lambda>p. (?pl @ ?o) ! p" and ?n = "length (img ! 0)"
  have pl: "plane_at img 0 = Some ?pl" and fit: "rows_fit ?pl (row + n) w"
    using src by (auto simp: planes_fit_def plane_at_def)
  have len: "row + n \<le> ?n" "n \<le> length ?o" and wide: "\<And>k. k < n \<Longrightarrow> w \<le> length (?pl ! (row + k)) \<and> w \<le> length (?o ! k)"
    using fit dst by (auto simp: rows_fit_def)
  have rows: "[0..<?n] ! (row + k) = row + k" "[?n..<?n + length ?o] ! (0 + k) = ?n + k" if "k < n" for k
    using len that by simp_all
  obtain st where st: "jcopy_sample_rows [0..<?n] row [?n..<?n + length ?o] 0 n w ?st = Some st"
    "\<forall>k<n. st ([?n..<?n + length ?o] ! (0 + k)) =
       take w (?st ([0..<?n] ! (row + k))) @ drop w (?st ([?n..<?n + length ?o] ! (0 + k)))"
  proof -
    have "\<exists>st. jcopy_sample_rows [0..<?n] row [?n..<?n + length ?o] 0 n w ?st = Some st \<and>
      (\<forall>k<n. st ([?n..<?n + length ?o] ! (0 + k)) =
       take w (?st ([0..<?n] ! (row + k))) @ drop w (?st ([?n..<?n + length ?o] ! (0 + k)))) \<and>
      (\<forall>p. (\<forall>k<n. p \<noteq> [?n..<?n + length ?o] ! (0 + k)) \<longrightarrow> st p = ?st p)"
      by (rule jcopy_sample_rows_copies) (use len wide in \<open>auto simp: nth_append\<close>)
    then show thesis using that by blast
  qed
  have "map st [?n..<?n + length ?o] ! r ! i = ?pl ! (row + r) ! i" if "r < n" "i < w" for r i
  proof -
    have "st (?n + r) = take w (?pl ! (row + r)) @ drop w (?o ! r)"
      using st(2) rows that(1) len by (auto simp: nth_append)
    then show ?thesis using that len wide [of r] by (simp add: nth_append)
  qed
  then show ?thesis using st(1) pl by (simp add: grayscale_convert_d_def Let_def)
qed

text \<open>One conversion after the other: what holds of a pixel holds of the image.\<close>

lemma there_and_back:
  assumes into: "into_planes f m nc w input_buf row n img img'"
    and outof: "out_of_planes h m w img' row n out out'"
    and pixel: "\<And>g k j. (\<And>ci. ci < nc \<Longrightarrow> k ci = f g ci) \<Longrightarrow> j < m \<Longrightarrow> R (g j) (h k j)"
    and "r < n" "i < m * w"
  shows "R (input_buf ! r ! i) (out' ! r ! i)"
proof -
  have "i div m < w" "i mod m < m"
    using assms(5) by (simp_all add: less_mult_imp_div_less mult.commute) (cases m, simp_all)
  have planes: "img' ! ci ! (row + r) ! (i div m) = f (\<lambda>j. input_buf ! r ! (m * (i div m) + j)) ci" if "ci < nc" for ci
    using planes.writes_in [OF into [unfolded into_planes_def], of "(ci, row + r, i div m)"] that
      \<open>r < n\<close> \<open>i div m < w\<close> by (simp add: plane_cell_def)
  have "out' ! r ! i = h (\<lambda>ci. img' ! ci ! (row + r) ! (i div m)) (i mod m)"
    using rows.writes_in [OF outof [unfolded out_of_planes_def], of "(r, i)"] assms(4,5) by (simp add: row_cell_def)
  then show ?thesis
    using pixel [OF planes \<open>i mod m < m\<close>] by simp
qed

lemma pixelwise_list:
  assumes "\<And>p g. (\<And>j. j < n \<Longrightarrow> p j = Some (g j)) \<Longrightarrow> px p = Some (vals g)" "\<And>g. length (vals g) = nc"
  shows "pixelwise px n nc (\<lambda>g ci. vals g ! ci)"
proof -
  have "map ((!) (vals g)) [0..<nc] = vals g" for g using map_nth [of "vals g"] assms(2) by simp
  then show ?thesis using assms(1) by (simp add: pixelwise_def)
qed

text \<open>The methods of the converters on whole images.\<close>

lemmas convert_in_list = convert_in_result [OF pixelwise_list]
lemmas convert_out_list = convert_out_result [OF pixelwise_list]

definition rgb_ycc_vals :: "int list \<Rightarrow> (nat \<Rightarrow> byte) \<Rightarrow> byte list" where
  "rgb_ycc_vals ctab g = [ctab_y ctab (unat (g 0)) (unat (g 1)) (unat (g 2)),
     ctab_cb ctab (unat (g 0)) (unat (g 1)) (unat (g 2)), ctab_cr ctab (unat (g 0)) (unat (g 1)) (unat (g 2))]"

definition cmyk_ycck_vals :: "int list \<Rightarrow> (nat \<Rightarrow> byte) \<Rightarrow> byte list" where
  "cmyk_ycck_vals ctab g =
     (let r = MAXJSAMPLE - unat (g 0); gr = MAXJSAMPLE - unat (g 1); b = MAXJSAMPLE - unat (g 2)
      in [ctab_y ctab r gr b, ctab_cb ctab r gr b, ctab_cr ctab r gr b, g 3])"

definition rgb1_vals :: "(nat \<Rightarrow> byte) \<Rightarrow> byte list" where
  "rgb1_vals g = [word_of_int ((uint (g 0) - uint (g 1) + CENTERJSAMPLE) AND int MAXJSAMPLE), g 1,
     word_of_int ((uint (g 2) - uint (g 1) + CENTERJSAMPLE) AND int MAXJSAMPLE)]"

lemma converts_in:
  assumes "rows_fit input_buf n (m * w)" "planes_fit img nc (row + n) w"
  shows "m = 3 \<Longrightarrow> nc = 3 \<Longrightarrow> \<exists>img'. rgb_ycc_convert ctab w input_buf img row n = Some img' \<and>
      into_planes (\<lambda>g. (!) (rgb_ycc_vals ctab g)) m nc w input_buf row n img img'"
    "m = 4 \<Longrightarrow> nc = 4 \<Longrightarrow> \<exists>img'. cmyk_ycck_convert ctab w input_buf img row n = Some img' \<and>
      into_planes (\<lambda>g. (!) (cmyk_ycck_vals ctab g)) m nc w input_buf row n img img'"
    "m = 3 \<Longrightarrow> nc = 3 \<Longrightarrow> \<exists>img'. rgb_rgb1_convert w input_buf img row n = Some img' \<and>
      into_planes (\<lambda>g. (!) (rgb1_vals g)) m nc w input_buf row n img img'"
    "m = 3 \<Longrightarrow> nc = 3 \<Longrightarrow> \<exists>img'. rgb_convert_c w input_buf img row n = Some img' \<and>
      into_planes (\<lambda>g. (!) [g 0, g 1, g 2]) m nc w input_buf row n img img'"
    "0 < m \<Longrightarrow> nc = 1 \<Longrightarrow> \<exists>img'. grayscale_convert_c m w input_buf img row n = Some img' \<and>
      into_planes (\<lambda>g. (!) [g 0]) m nc w input_buf row n img img'"
  unfolding rgb_ycc_convert_def cmyk_ycck_convert_def rgb_rgb1_convert_def rgb_convert_c_def
    grayscale_convert_c_def RGB_PIXELSIZE_def using assms
  by (auto intro!: convert_in_list simp: rgb_offsets rgb_ycc_vals_def cmyk_ycck_vals_def rgb1_vals_def Let_def)

definition ycc_rgb_vals :: "(nat \<Rightarrow> byte) \<Rightarrow> byte list" where
  "ycc_rgb_vals g =
     [word_of_int (clamp (red_value (uint (g 0)) (uint (g 2)))),
      word_of_int (clamp (green_value (uint (g 0)) (uint (g 1)) (uint (g 2)))),
      word_of_int (clamp (blue_value (uint (g 0)) (uint (g 1))))]"

definition bg_ycc_rgb_vals :: "(nat \<Rightarrow> byte) \<Rightarrow> byte list" where
  "bg_ycc_rgb_vals g =
     [word_of_int (clamp (bg_red_value (uint (g 0)) (uint (g 2)))),
      word_of_int (clamp (bg_green_value (uint (g 0)) (uint (g 1)) (uint (g 2)))),
      word_of_int (clamp (bg_blue_value (uint (g 0)) (uint (g 1))))]"

definition ycck_cmyk_vals :: "(nat \<Rightarrow> byte) \<Rightarrow> byte list" where
  "ycck_cmyk_vals g =
     [word_of_int (clamp (255 - red_value (uint (g 0)) (uint (g 2)))),
      word_of_int (clamp (255 - green_value (uint (g 0)) (uint (g 1)) (uint (g 2)))),
      word_of_int (clamp (255 - blue_value (uint (g 0)) (uint (g 1)))), g 3]"

abbreviation "normal_tabs \<equiv> build_ycc_rgb_table prepare_range_limit_table"

lemma normal_range_limit: "range_limit normal_tabs = prepare_range_limit_table"
  by (simp add: build_ycc_rgb_table_def)

lemma ycc_limits:
  fixes y cb cr :: byte
  shows "limit_at prepare_range_limit_table (red_value (uint y) (uint cr)) = Some (word_of_int (clamp (red_value (uint y) (uint cr))))"
    "limit_at prepare_range_limit_table (green_value (uint y) (uint cb) (uint cr)) =
      Some (word_of_int (clamp (green_value (uint y) (uint cb) (uint cr))))"
    "limit_at prepare_range_limit_table (blue_value (uint y) (uint cb)) = Some (word_of_int (clamp (blue_value (uint y) (uint cb))))"
    "limit_at (range_limit build_bg_ycc_rgb_table) (bg_red_value (uint y) (uint cr)) =
      Some (word_of_int (clamp (bg_red_value (uint y) (uint cr))))"
    "limit_at (range_limit build_bg_ycc_rgb_table) (bg_green_value (uint y) (uint cb) (uint cr)) =
      Some (word_of_int (clamp (bg_green_value (uint y) (uint cb) (uint cr))))"
    "limit_at (range_limit build_bg_ycc_rgb_table) (bg_blue_value (uint y) (uint cb)) =
      Some (word_of_int (clamp (bg_blue_value (uint y) (uint cb))))"
    "limit_at prepare_range_limit_table (255 - red_value (uint y) (uint cr)) =
      Some (word_of_int (clamp (255 - red_value (uint y) (uint cr))))"
    "limit_at prepare_range_limit_table (255 - green_value (uint y) (uint cb) (uint cr)) =
      Some (word_of_int (clamp (255 - green_value (uint y) (uint cb) (uint cr))))"
    "limit_at prepare_range_limit_table (255 - blue_value (uint y) (uint cb)) =
      Some (word_of_int (clamp (255 - blue_value (uint y) (uint cb))))"
  using values_in_limits(1) [of y cr] values_in_limits(2) [of y cb cr] values_in_limits(3) [of y cb]
    values_in_limits(4) [of y cr] values_in_limits(5) [of y cb cr] values_in_limits(6) [of y cb]
  by (simp_all add: limit_clamps bg_limit_clamps)

lemma converts_out:
  assumes "planes_fit img nc (row + n) w" "rows_fit output_buf n (m * w)"
  shows "m = 3 \<Longrightarrow> nc = 3 \<Longrightarrow> \<exists>out'. ycc_rgb_convert normal_tabs w img row output_buf n = Some out' \<and>
      out_of_planes (\<lambda>g. (!) (ycc_rgb_vals g)) m w img row n output_buf out'"
    "m = 3 \<Longrightarrow> nc = 3 \<Longrightarrow> \<exists>out'. ycc_rgb_convert build_bg_ycc_rgb_table w img row output_buf n = Some out' \<and>
      out_of_planes (\<lambda>g. (!) (bg_ycc_rgb_vals g)) m w img row n output_buf out'"
    "m = 4 \<Longrightarrow> nc = 4 \<Longrightarrow> \<exists>out'. ycck_cmyk_convert prepare_range_limit_table normal_tabs w img row output_buf n = Some out' \<and>
      out_of_planes (\<lambda>g. (!) (ycck_cmyk_vals g)) m w img row n output_buf out'"
    "m = 3 \<Longrightarrow> nc = 3 \<Longrightarrow> \<exists>out'. rgb1_rgb_convert w img row output_buf n = Some out' \<and>
      out_of_planes (\<lambda>g. (!) [word_of_int (add_green (g 0) (g 1)), g 1, word_of_int (add_green (g 2) (g 1))]) m w img row n output_buf out'"
    "m = 3 \<Longrightarrow> nc = 3 \<Longrightarrow> \<exists>out'. rgb_convert_d w img row output_buf n = Some out' \<and>
      out_of_planes (\<lambda>g. (!) [g 0, g 1, g 2]) m w img row n output_buf out'"
  unfolding ycc_rgb_convert_def ycck_cmyk_convert_def rgb1_rgb_convert_def rgb_convert_d_def RGB_PIXELSIZE_def
    ycc_values normal_range_limit using assms
  by (auto intro!: convert_out_list simp: ycc_limits ycc_rgb_vals_def bg_ycc_rgb_vals_def ycck_cmyk_vals_def MAXJSAMPLE_def)

text \<open>One pixel there and back.\<close>

lemma unat_uint: "int (unat (x :: byte)) = uint x"
  by simp

lemma ycc_pixel:
  assumes "\<And>ci. ci < 3 \<Longrightarrow> k ci = rgb_ycc_vals rgb_ycc_start g ! ci" "j < 3"
  shows "\<bar>uint (ycc_rgb_vals k ! j) - uint (g j)\<bar> \<le> 1"
proof -
  let ?r = "uint (g 0)" and ?g = "uint (g 1)" and ?b = "uint (g 2)"
  have v: "uint (k 0) = y_value ?r ?g ?b" "uint (k 1) = cb_value ?r ?g ?b" "uint (k 2) = cr_value ?r ?g ?b"
    using assms(1) [of 0] assms(1) [of 1] assms(1) [of 2]
    by (simp_all add: rgb_ycc_vals_def ctab_ycc)
  have "\<bar>clamp (red_value (uint (k 0)) (uint (k 2))) - ?r\<bar> \<le> 1"
    "\<bar>clamp (green_value (uint (k 0)) (uint (k 1)) (uint (k 2))) - ?g\<bar> \<le> 1"
    "\<bar>clamp (blue_value (uint (k 0)) (uint (k 1))) - ?b\<bar> \<le> 1"
    unfolding v by (intro clamp_close ycc_round_trip byte_bounds)+
  moreover have "j = 0 \<or> j = 1 \<or> j = 2" using assms(2) by auto
  ultimately show ?thesis by (auto simp: ycc_rgb_vals_def uint_clamp)
qed

lemma ycck_pixel:
  assumes "\<And>ci. ci < 4 \<Longrightarrow> k ci = cmyk_ycck_vals rgb_ycc_start g ! ci" "j < 4"
  shows "\<bar>uint (ycck_cmyk_vals k ! j) - uint (g j)\<bar> \<le> 1"
proof -
  let ?r = "255 - uint (g 0)" and ?g = "255 - uint (g 1)" and ?b = "255 - uint (g 2)"
  have inv: "int (255 - unat x) = 255 - uint x" for x :: byte
  proof -
    have "unat x \<le> 255" using unat_byte_less [of x] by linarith
    then show ?thesis by (simp add: of_nat_diff)
  qed
  have v: "uint (k 0) = y_value ?r ?g ?b" "uint (k 1) = cb_value ?r ?g ?b" "uint (k 2) = cr_value ?r ?g ?b" "k 3 = g 3"
    using assms(1) [of 0] assms(1) [of 1] assms(1) [of 2] assms(1) [of 3]
    by (simp_all add: cmyk_ycck_vals_def Let_def ctab_ycc MAXJSAMPLE_def inv)
  have flip: "\<bar>(255 - x) - v\<bar> \<le> 1" if "\<bar>x - (255 - v)\<bar> \<le> 1" for x v :: int using that by linarith
  have "\<bar>clamp (255 - red_value (uint (k 0)) (uint (k 2))) - uint (g 0)\<bar> \<le> 1"
    "\<bar>clamp (255 - green_value (uint (k 0)) (uint (k 1)) (uint (k 2))) - uint (g 1)\<bar> \<le> 1"
    "\<bar>clamp (255 - blue_value (uint (k 0)) (uint (k 1))) - uint (g 2)\<bar> \<le> 1"
    unfolding v using byte_bounds [of "g 0"] byte_bounds [of "g 1"] byte_bounds [of "g 2"]
    by (intro clamp_close flip ycc_round_trip; simp)+
  moreover have "j = 0 \<or> j = 1 \<or> j = 2 \<or> j = 3" using assms(2) by auto
  ultimately show ?thesis using v(4) by (auto simp: ycck_cmyk_vals_def uint_clamp)
qed

lemma rgb_pixel:
  assumes "\<And>ci. ci < 3 \<Longrightarrow> k ci = [g 0, g 1, g 2] ! ci" "j < 3"
  shows "[k 0, k 1, k 2] ! j = g j"
proof -
  have "j = 0 \<or> j = 1 \<or> j = 2" using assms(2) by auto
  then show ?thesis using assms(1) [of 0] assms(1) [of 1] assms(1) [of 2] by auto
qed

lemma rgb1_pixel:
  assumes "\<And>ci. ci < 3 \<Longrightarrow> k ci = rgb1_vals g ! ci" "j < 3"
  shows "[word_of_int (add_green (k 0) (k 1)), k 1, word_of_int (add_green (k 2) (k 1))] ! j = g j"
proof -
  have "j = 0 \<or> j = 1 \<or> j = 2" using assms(2) by auto
  then show ?thesis
    using assms(1) [of 0] assms(1) [of 1] assms(1) [of 2] rgb1_round_trip
    by (auto simp: rgb1_vals_def)
qed

lemma round_trip_finish:
  assumes planes: "planes_fit img nc (row + n) w"
    and into: "\<exists>img'. C = Some img' \<and> into_planes f m nc w input_buf row n img img'"
    and outof: "\<And>img'. planes_fit img' nc (row + n) w \<Longrightarrow>
      \<exists>out'. D img' = Some out' \<and> out_of_planes h m w img' row n output_buf out'"
    and pixel: "\<And>g k j. (\<And>ci. ci < nc \<Longrightarrow> k ci = f g ci) \<Longrightarrow> j < m \<Longrightarrow> R (g j) (h k j)"
  shows "\<exists>img' out'. C = Some img' \<and> D img' = Some out' \<and> (\<forall>r<n. \<forall>i<m * w. R (input_buf ! r ! i) (out' ! r ! i))"
proof -
  obtain img' where img': "C = Some img'" "into_planes f m nc w input_buf row n img img'" using into by blast
  have "planes_fit img' nc (row + n) w"
    using planes planes.writes_shape [OF img'(2) [unfolded into_planes_def]] by (rule planes_fit_shape)
  then obtain out' where out': "D img' = Some out'" "out_of_planes h m w img' row n output_buf out'"
    using outof by blast
  have "\<forall>r<n. \<forall>i<m * w. R (input_buf ! r ! i) (out' ! r ! i)"
  proof (intro allI impI)
    fix r i
    assume r: "r < n" and i: "i < m * w"
    show "R (input_buf ! r ! i) (out' ! r ! i)"
      by (rule there_and_back [where f = f and h = h and R = R, OF img'(2) out'(2) _ r i]) (rule pixel)
  qed
  then show ?thesis using img'(1) out'(1) by blast
qed

text \<open>Which methods are chosen, and which meet when the output space is the input space again.\<close>

lemma c_method_chosen:
  assumes "jinit_color_converter space m jspace nc transform = Inr cc"
  shows "check_in_components space m = Inr ()"
    "(jspace = JCS_GRAYSCALE \<and> nc = 1 \<and> (space = jspace \<longrightarrow> c_method cc = C_grayscale \<and> \<not> start_rgb_ycc cc))
    \<or> ((jspace = JCS_RGB \<or> jspace = JCS_BG_RGB) \<and> nc = 3 \<and> space = jspace \<and> \<not> start_rgb_ycc cc \<and>
        c_method cc = (case transform of JCT_NONE \<Rightarrow> C_rgb | JCT_SUBTRACT_GREEN \<Rightarrow> C_rgb_rgb1))
    \<or> (jspace = JCS_YCbCr \<and> nc = 3 \<and> space = JCS_RGB \<and> c_method cc = C_rgb_ycc \<and> start_rgb_ycc cc)
    \<or> (jspace = JCS_YCCK \<and> nc = 4 \<and> space = JCS_CMYK \<and> c_method cc = C_cmyk_ycck \<and> start_rgb_ycc cc)
    \<or> (jspace = JCS_BG_YCC \<and> nc = 3 \<and> scale_chroma cc)
    \<or> (jspace = space \<and> space \<noteq> JCS_RGB \<and> space \<noteq> JCS_BG_RGB \<and> c_method cc = C_null \<and> \<not> start_rgb_ycc cc \<and>
        (jspace = JCS_UNKNOWN \<and> nc = m \<or> jspace \<in> {JCS_YCbCr, JCS_BG_YCC} \<and> nc = 3
          \<or> jspace \<in> {JCS_CMYK, JCS_YCCK} \<and> nc = 4))"
proof -
  show "check_in_components space m = Inr ()"
    using assms by (auto simp: jinit_color_converter_def bind_err_Inr)
  note sel = assms [unfolded jinit_color_converter_def Let_def bind_err_Inr]
  show "(jspace = JCS_GRAYSCALE \<and> nc = 1 \<and> (space = jspace \<longrightarrow> c_method cc = C_grayscale \<and> \<not> start_rgb_ycc cc))
    \<or> ((jspace = JCS_RGB \<or> jspace = JCS_BG_RGB) \<and> nc = 3 \<and> space = jspace \<and> \<not> start_rgb_ycc cc \<and>
        c_method cc = (case transform of JCT_NONE \<Rightarrow> C_rgb | JCT_SUBTRACT_GREEN \<Rightarrow> C_rgb_rgb1))
    \<or> (jspace = JCS_YCbCr \<and> nc = 3 \<and> space = JCS_RGB \<and> c_method cc = C_rgb_ycc \<and> start_rgb_ycc cc)
    \<or> (jspace = JCS_YCCK \<and> nc = 4 \<and> space = JCS_CMYK \<and> c_method cc = C_cmyk_ycck \<and> start_rgb_ycc cc)
    \<or> (jspace = JCS_BG_YCC \<and> nc = 3 \<and> scale_chroma cc)
    \<or> (jspace = space \<and> space \<noteq> JCS_RGB \<and> space \<noteq> JCS_BG_RGB \<and> c_method cc = C_null \<and> \<not> start_rgb_ycc cc \<and>
        (jspace = JCS_UNKNOWN \<and> nc = m \<or> jspace \<in> {JCS_YCbCr, JCS_BG_YCC} \<and> nc = 3
          \<or> jspace \<in> {JCS_CMYK, JCS_YCCK} \<and> nc = 4))"
    using sel by (cases jspace; cases space; cases "nc = 3"; cases "nc = 4"; cases transform)
      (simp_all split: if_splits, auto)
qed

lemma d_method_chosen:
  assumes "jinit_color_deconverter jspace nc transform space = Inr dc"
  shows "jspace = JCS_GRAYSCALE \<Longrightarrow> space = JCS_GRAYSCALE \<Longrightarrow> d_method dc = D_grayscale"
    "jspace = JCS_RGB \<or> jspace = JCS_BG_RGB \<Longrightarrow> space = jspace \<Longrightarrow>
      d_method dc = (case transform of JCT_NONE \<Rightarrow> D_rgb | JCT_SUBTRACT_GREEN \<Rightarrow> D_rgb1_rgb)"
    "jspace = JCS_YCbCr \<Longrightarrow> space = JCS_RGB \<Longrightarrow> d_method dc = D_ycc_rgb \<and> out_tables dc = Ycc_table"
    "jspace = JCS_YCCK \<Longrightarrow> space = JCS_CMYK \<Longrightarrow> d_method dc = D_ycck_cmyk \<and> out_tables dc = Ycc_table"
    "jspace = space \<Longrightarrow> space \<notin> {JCS_RGB, JCS_BG_RGB, JCS_GRAYSCALE} \<Longrightarrow> d_method dc = D_null"
  using assms
  by (auto simp: jinit_color_deconverter_def Let_def bind_err_Inr split: color_transform.splits color_space.splits)

text \<open>Each pair of methods on an image.\<close>

lemma rgb_images:
  assumes src: "rows_fit input_buf n (3 * w)" and planes: "planes_fit img 3 (row + n) w"
    and dst: "rows_fit output_buf n (3 * w)"
  shows "\<exists>img' out'. rgb_convert_c w input_buf img row n = Some img' \<and>
      rgb_convert_d w img' row output_buf n = Some out' \<and>
      (\<forall>r<n. \<forall>i<3 * w. input_buf ! r ! i = out' ! r ! i)"
    "\<exists>img' out'. rgb_rgb1_convert w input_buf img row n = Some img' \<and>
      rgb1_rgb_convert w img' row output_buf n = Some out' \<and>
      (\<forall>r<n. \<forall>i<3 * w. input_buf ! r ! i = out' ! r ! i)"
    "\<exists>img' out'. rgb_ycc_convert rgb_ycc_start w input_buf img row n = Some img' \<and>
      ycc_rgb_convert normal_tabs w img' row output_buf n = Some out' \<and>
      (\<forall>r<n. \<forall>i<3 * w. \<bar>uint (out' ! r ! i) - uint (input_buf ! r ! i)\<bar> \<le> 1)"
proof -
  note into = converts_in [OF src planes] and outof = converts_out [where nc = 3, OF _ dst]
  show "\<exists>img' out'. rgb_convert_c w input_buf img row n = Some img' \<and>
      rgb_convert_d w img' row output_buf n = Some out' \<and>
      (\<forall>r<n. \<forall>i<3 * w. input_buf ! r ! i = out' ! r ! i)"
    by (rule round_trip_finish [OF planes into(4) outof(5)]) (simp_all only: rgb_pixel)
  show "\<exists>img' out'. rgb_rgb1_convert w input_buf img row n = Some img' \<and>
      rgb1_rgb_convert w img' row output_buf n = Some out' \<and>
      (\<forall>r<n. \<forall>i<3 * w. input_buf ! r ! i = out' ! r ! i)"
    by (rule round_trip_finish [OF planes into(3) outof(4)]) (simp_all only: rgb1_pixel)
  show "\<exists>img' out'. rgb_ycc_convert rgb_ycc_start w input_buf img row n = Some img' \<and>
      ycc_rgb_convert normal_tabs w img' row output_buf n = Some out' \<and>
      (\<forall>r<n. \<forall>i<3 * w. \<bar>uint (out' ! r ! i) - uint (input_buf ! r ! i)\<bar> \<le> 1)"
    by (rule round_trip_finish [where R = "\<lambda>x y. \<bar>uint y - uint x\<bar> \<le> 1", OF planes into(1) outof(1)])
      (simp_all only: ycc_pixel)
qed

lemma cmyk_images:
  assumes src: "rows_fit input_buf n (4 * w)" and planes: "planes_fit img 4 (row + n) w"
    and dst: "rows_fit output_buf n (4 * w)"
  shows "\<exists>img' out'. cmyk_ycck_convert rgb_ycc_start w input_buf img row n = Some img' \<and>
      ycck_cmyk_convert prepare_range_limit_table normal_tabs w img' row output_buf n = Some out' \<and>
      (\<forall>r<n. \<forall>i<4 * w. \<bar>uint (out' ! r ! i) - uint (input_buf ! r ! i)\<bar> \<le> 1)"
proof -
  note into = converts_in [OF src planes] and outof = converts_out [where nc = 4, OF _ dst]
  show ?thesis
    by (rule round_trip_finish [where R = "\<lambda>x y. \<bar>uint y - uint x\<bar> \<le> 1", OF planes into(2) outof(3)])
      (simp_all only: ycck_pixel)
qed

lemma null_images:
  assumes src: "rows_fit input_buf n (m * w)" and planes: "planes_fit img m (row + n) w"
    and dst: "rows_fit output_buf n (m * w)"
  shows "\<exists>img' out'. null_convert_c m w input_buf img row n = Some img' \<and>
      null_convert_d m w img' row output_buf n = Some out' \<and>
      (\<forall>r<n. \<forall>i<m * w. input_buf ! r ! i = out' ! r ! i)"
  by (rule round_trip_finish [OF planes null_convert_c_result [OF src planes] null_convert_d_result [OF _ dst]])
    simp_all

lemma grayscale_images:
  assumes src: "rows_fit input_buf n w" and planes: "planes_fit img 1 (row + n) w"
    and dst: "rows_fit output_buf n w"
  shows "\<exists>img' out'. grayscale_convert_c 1 w input_buf img row n = Some img' \<and>
      grayscale_convert_d w img' row output_buf n = Some out' \<and>
      (\<forall>r<n. \<forall>i<w. input_buf ! r ! i = out' ! r ! i)"
proof -
  have "\<exists>img'. grayscale_convert_c 1 w input_buf img row n = Some img' \<and>
      into_planes (\<lambda>g. (!) [g 0]) 1 1 w input_buf row n img img'"
    by (rule converts_in(5)) (use src planes in simp_all)
  then obtain img' where img': "grayscale_convert_c 1 w input_buf img row n = Some img'"
    "into_planes (\<lambda>g. (!) [g 0]) 1 1 w input_buf row n img img'" by blast
  have "planes_fit img' 1 (row + n) w"
    using planes planes.writes_shape [OF img'(2) [unfolded into_planes_def]] by (rule planes_fit_shape)
  then obtain out' where "grayscale_convert_d w img' row output_buf n = Some out'"
    "\<forall>r<n. \<forall>i<w. out' ! r ! i = img' ! 0 ! (row + r) ! i"
    using grayscale_convert_d_result dst by blast
  moreover have "img' ! 0 ! (row + r) ! i = input_buf ! r ! i" if "r < n" "i < w" for r i
    using planes.writes_in [OF img'(2) [unfolded into_planes_def], of "(0, row + r, i)"] that
    by (simp add: plane_cell_def)
  ultimately show ?thesis using img'(1) by auto
qed

text \<open>
  C8: an image converted into the JPEG colour space the encoder accepted, and back by the
  decoder with the same output space, has every sample exactly as it was, or off by at most one
  when the conversion went through YCbCr or YCCK.  No access leaves an array or a table.  (RGB
  to BG_YCC is left out: the chroma is scaled behind the DCT; so is RGB or YCbCr to grayscale.)
\<close>

theorem color_round_trip:
  assumes enc: "jinit_color_converter space m jspace nc transform = Inr cc"
    and dec: "jinit_color_deconverter jspace nc transform space = Inr dc"
    and scope: "\<not> scale_chroma cc" "jspace = JCS_GRAYSCALE \<longrightarrow> space = JCS_GRAYSCALE"
    and src: "rows_fit input_buf n (m * w)" and planes: "planes_fit img nc (row + n) w"
    and dst: "rows_fit output_buf n (m * w)"
  shows "\<exists>img' out'. color_convert_c cc m nc w input_buf img row n = Some img' \<and>
    color_convert_d dc nc w img' row output_buf n = Some out' \<and>
    (\<forall>r<n. \<forall>i<m * w. \<bar>uint (out' ! r ! i) - uint (input_buf ! r ! i)\<bar> \<le> (if start_rgb_ycc cc then 1 else 0))"
proof -
  note chosen = c_method_chosen [OF enc] and back_chosen = d_method_chosen [OF dec]
  have m: "check_in_components space m = Inr ()" by (rule chosen(1))
  consider (gray) "jspace = JCS_GRAYSCALE" "nc = 1" "c_method cc = C_grayscale" "\<not> start_rgb_ycc cc"
    | (rgb) "jspace = JCS_RGB \<or> jspace = JCS_BG_RGB" "nc = 3" "space = jspace" "\<not> start_rgb_ycc cc"
        "c_method cc = (case transform of JCT_NONE \<Rightarrow> C_rgb | JCT_SUBTRACT_GREEN \<Rightarrow> C_rgb_rgb1)"
    | (ycc) "jspace = JCS_YCbCr" "nc = 3" "space = JCS_RGB" "c_method cc = C_rgb_ycc" "start_rgb_ycc cc"
    | (ycck) "jspace = JCS_YCCK" "nc = 4" "space = JCS_CMYK" "c_method cc = C_cmyk_ycck" "start_rgb_ycc cc"
    | (null) "jspace = space" "space \<notin> {JCS_RGB, JCS_BG_RGB, JCS_GRAYSCALE}" "c_method cc = C_null"
        "\<not> start_rgb_ycc cc" "m = nc"
    using chosen(2) scope m by (auto simp: check_in_components_def split: if_splits)
  then show ?thesis
  proof cases
    case gray
    have "d_method dc = D_grayscale" and m1: "m = 1"
      using back_chosen(1) gray scope m by (simp_all add: check_in_components_def split: if_splits)
    then show ?thesis using grayscale_images [of input_buf n w img row output_buf] src planes dst gray
      by (fastforce simp: color_convert_c_def color_convert_d_def Let_def)
  next
    case rgb
    have "m = 3" using m rgb by (auto simp: check_in_components_def RGB_PIXELSIZE_def split: if_splits)
    moreover have "d_method dc = (case transform of JCT_NONE \<Rightarrow> D_rgb | JCT_SUBTRACT_GREEN \<Rightarrow> D_rgb1_rgb)"
      using back_chosen(2) rgb by simp
    ultimately show ?thesis
      using rgb_images(1,2) [of input_buf n w img row output_buf] src planes dst rgb
      by (cases transform) (fastforce simp: color_convert_c_def color_convert_d_def Let_def)+
  next
    case ycc
    have "m = 3" using m ycc by (auto simp: check_in_components_def RGB_PIXELSIZE_def split: if_splits)
    then show ?thesis
      using rgb_images(3) [of input_buf n w img row output_buf] src planes dst ycc back_chosen(3)
      by (simp add: color_convert_c_def color_convert_d_def Let_def)
  next
    case ycck
    have "m = 4" using m ycck by (auto simp: check_in_components_def split: if_splits)
    then show ?thesis
      using cmyk_images [of input_buf n w img row output_buf] src planes dst ycck back_chosen(4)
      by (simp add: color_convert_c_def color_convert_d_def Let_def)
  next
    case null
    then show ?thesis
      using null_images [of input_buf n m w img row output_buf] src planes dst back_chosen(5)
      by (fastforce simp: color_convert_c_def color_convert_d_def Let_def)
  qed
qed

theorem color_round_trip_witness:
  "\<exists>img' out'. color_convert_c \<lparr>start_rgb_ycc = True, c_method = C_rgb_ycc, scale_chroma = False\<rparr> 3 3 1
      [[200, 100, 50]] [[[0]], [[0]], [[0]]] 0 1 = Some img' \<and>
    color_convert_d \<lparr>d_method = D_ycc_rgb, out_tables = Ycc_table, out_color_components = 3, only_luminance = False\<rparr>
      3 1 img' 0 [[0, 0, 0]] 1 = Some out' \<and>
    (\<forall>i<3. \<bar>uint (out' ! 0 ! i) - uint ([200, 100, 50] ! i :: byte)\<bar> \<le> 1)"
  using color_round_trip [of JCS_RGB 3 JCS_YCbCr 3 JCT_NONE
      "\<lparr>start_rgb_ycc = True, c_method = C_rgb_ycc, scale_chroma = False\<rparr>"
      "\<lparr>d_method = D_ycc_rgb, out_tables = Ycc_table, out_color_components = 3, only_luminance = False\<rparr>"
      "[[200, 100, 50]]" 1 1 "[[[0]], [[0]], [[0]]]" 0 "[[0, 0, 0]]"]
  by (simp add: jinit_color_converter_def jinit_color_deconverter_def check_in_components_def check_transform_def
      check_components_def Let_def RGB_PIXELSIZE_def rows_fit_def planes_fit_def nth_Cons split: nat.splits)

text \<open>
  C24: for every pixel the luminance and chrominance the compressor computes are its rounded
  tables' sums, within 0..255 without range limiting, and off the defining equations by no more
  than the rounding; for every luminance and chrominance the decompressor's three values, normal
  and wide gamut, stay inside the range-limit table and are limited to 0..255.
\<close>

theorem ycc_conversion_accurate:
  fixes r g b y cb cr :: byte
  shows "\<bar>rat_of_int (uint (ctab_y rgb_ycc_start (unat r) (unat g) (unat b)))
      - (0.299 * of_int (uint r) + 0.587 * of_int (uint g) + 0.114 * of_int (uint b))\<bar> \<le> 0.506 \<and>
    \<bar>rat_of_int (uint (ctab_cb rgb_ycc_start (unat r) (unat g) (unat b)))
      - (128 - 0.168735892 * of_int (uint r) - 0.331264108 * of_int (uint g) + 0.5 * of_int (uint b))\<bar> \<le> 0.506 \<and>
    \<bar>rat_of_int (uint (ctab_cr rgb_ycc_start (unat r) (unat g) (unat b)))
      - (128 + 0.5 * of_int (uint r) - 0.418687589 * of_int (uint g) - 0.081312411 * of_int (uint b))\<bar> \<le> 0.506 \<and>
    (let t = build_ycc_rgb_table prepare_range_limit_table in
      limit_at (range_limit t) (ycc_red t y cb cr) = Some (word_of_int (clamp (ycc_red t y cb cr))) \<and>
      limit_at (range_limit t) (ycc_green t y cb cr) = Some (word_of_int (clamp (ycc_green t y cb cr))) \<and>
      limit_at (range_limit t) (ycc_blue t y cb cr) = Some (word_of_int (clamp (ycc_blue t y cb cr)))) \<and>
    (let t = build_bg_ycc_rgb_table in
      limit_at (range_limit t) (ycc_red t y cb cr) = Some (word_of_int (clamp (ycc_red t y cb cr))) \<and>
      limit_at (range_limit t) (ycc_green t y cb cr) = Some (word_of_int (clamp (ycc_green t y cb cr))) \<and>
      limit_at (range_limit t) (ycc_blue t y cb cr) = Some (word_of_int (clamp (ycc_blue t y cb cr))))"
proof -
  let ?R = "uint r" and ?G = "uint g" and ?B = "uint b"
  have bounds: "0 \<le> rat_of_int ?R" "rat_of_int ?R \<le> 255" "0 \<le> rat_of_int ?G" "rat_of_int ?G \<le> 255"
    "0 \<le> rat_of_int ?B" "rat_of_int ?B \<le> 255"
    by (rule byte_rat)+
  have y: "65536 * rat_of_int (y_value ?R ?G ?B) \<le> 19595 * of_int ?R + 38470 * of_int ?G + 7471 * of_int ?B + 32768"
    "19595 * rat_of_int ?R + 38470 * of_int ?G + 7471 * of_int ?B + 32768 < 65536 * of_int (y_value ?R ?G ?B) + 65536"
    using div16_rat [of "19595 * ?R + 38470 * ?G + 7471 * ?B + 32768", folded y_value_def] by simp_all
  have cb: "65536 * rat_of_int (cb_value ?R ?G ?B) \<le> 32768 * of_int ?B - 11058 * of_int ?R - 21710 * of_int ?G + 8421375"
    "32768 * rat_of_int ?B - 11058 * of_int ?R - 21710 * of_int ?G + 8421375 < 65536 * of_int (cb_value ?R ?G ?B) + 65536"
    using div16_rat [of "32768 * ?B - 11058 * ?R - 21710 * ?G + 8388608 + 32767", folded cb_value_def] by simp_all
  have cr: "65536 * rat_of_int (cr_value ?R ?G ?B) \<le> 32768 * of_int ?R - 27439 * of_int ?G - 5329 * of_int ?B + 8421375"
    "32768 * rat_of_int ?R - 27439 * of_int ?G - 5329 * of_int ?B + 8421375 < 65536 * of_int (cr_value ?R ?G ?B) + 65536"
    using div16_rat [of "32768 * ?R - 27439 * ?G - 5329 * ?B + 8388608 + 32767", folded cr_value_def] by simp_all
  have "\<bar>rat_of_int (y_value ?R ?G ?B) - (0.299 * of_int ?R + 0.587 * of_int ?G + 0.114 * of_int ?B)\<bar> \<le> 0.506"
    unfolding abs_le_iff tens using y bounds by (intro conjI) linarith+
  moreover have "\<bar>rat_of_int (cb_value ?R ?G ?B) - (128 - 0.168735892 * of_int ?R - 0.331264108 * of_int ?G + 0.5 * of_int ?B)\<bar> \<le> 0.506"
    unfolding abs_le_iff tens using cb bounds by (intro conjI) linarith+
  moreover have "\<bar>rat_of_int (cr_value ?R ?G ?B) - (128 + 0.5 * of_int ?R - 0.418687589 * of_int ?G - 0.081312411 * of_int ?B)\<bar> \<le> 0.506"
    unfolding abs_le_iff tens using cr bounds by (intro conjI) linarith+
  ultimately show ?thesis
    by (simp only: ctab_ycc unat_byte_less unat_uint Let_def ycc_values normal_range_limit ycc_limits simp_thms)
qed

end
