(* ===== verification/DctBase.thy ===== *)
theory DctBase
  imports Samples
begin

text \<open>
  What the integer DCT routines \<open>jpeg-9a/jidctint.c\<close> and \<open>jfdctint.c\<close> share: the fixed-point
  macros of \<open>jpeg-9a/jdct.h\<close>, the two passes over a block and the store of the samples.  Values
  of type \<open>INT32\<close> are integers; as sums, differences and products commute with the reduction to
  32 bits, it is applied where a value is shifted to the right or stored (\<open>s32\<close>).
\<close>

section \<open>Fixed-point arithmetic\<close>

definition CONST_BITS :: nat where "CONST_BITS = 13"
definition PASS1_BITS :: nat where "PASS1_BITS = 2"

definition RIGHT_SHIFT :: "int \<Rightarrow> nat \<Rightarrow> int" where "RIGHT_SHIFT x n = s32 x div 2 ^ n"

definition DESCALE :: "int \<Rightarrow> nat \<Rightarrow> int" where "DESCALE x n = RIGHT_SHIFT (x + 1 * 2 ^ (n - 1)) n"

definition DEQUANTIZE :: "int \<Rightarrow> int \<Rightarrow> int" where "DEQUANTIZE c q = c * q"

text \<open>\<open>FIX13 d n\<close> is \<open>FIX\<close> of the constant \<open>n / 10 ^ d\<close>.\<close>

definition FIX13 :: "nat \<Rightarrow> int \<Rightarrow> int" where
  "FIX13 d n = (2 * n * 2 ^ CONST_BITS + 10 ^ d) div (2 * 10 ^ d)"

definition FIX_0_298631336 :: int where "FIX_0_298631336 = 2446"
definition FIX_0_390180644 :: int where "FIX_0_390180644 = 3196"
definition FIX_0_541196100 :: int where "FIX_0_541196100 = 4433"
definition FIX_0_765366865 :: int where "FIX_0_765366865 = 6270"
definition FIX_0_899976223 :: int where "FIX_0_899976223 = 7373"
definition FIX_1_175875602 :: int where "FIX_1_175875602 = 9633"
definition FIX_1_501321110 :: int where "FIX_1_501321110 = 12299"
definition FIX_1_847759065 :: int where "FIX_1_847759065 = 15137"
definition FIX_1_961570560 :: int where "FIX_1_961570560 = 16069"
definition FIX_2_053119869 :: int where "FIX_2_053119869 = 16819"
definition FIX_2_562915447 :: int where "FIX_2_562915447 = 20995"
definition FIX_3_072711026 :: int where "FIX_3_072711026 = 25172"

lemmas dct_consts = CONST_BITS_def PASS1_BITS_def FIX13_def FIX_0_298631336_def FIX_0_390180644_def
  FIX_0_541196100_def FIX_0_765366865_def FIX_0_899976223_def FIX_1_175875602_def FIX_1_501321110_def
  FIX_1_847759065_def FIX_1_961570560_def FIX_2_053119869_def FIX_2_562915447_def FIX_3_072711026_def

section \<open>Passes of the inverse DCT\<close>

text \<open>
  Pass 1 runs over the columns of the block, pass 2 over the rows of the work array; column \<open>c\<close>
  of the work array is what pass 1 makes of column \<open>c\<close>.  The values of pass 2 are the subscripts
  of the range-limit table.
\<close>

definition idct_passes ::
  "nat \<Rightarrow> nat \<Rightarrow> ((nat \<Rightarrow> int) \<Rightarrow> (nat \<Rightarrow> int) \<Rightarrow> int list) \<Rightarrow> ((nat \<Rightarrow> int) \<Rightarrow> int list) \<Rightarrow>
   int list \<Rightarrow> int list \<Rightarrow> int list list" where
  "idct_passes ncols nrows col row dct_table coef_block =
     (let workspace = map (\<lambda>c. col (\<lambda>k. coef_block ! (DCTSIZE * k + c)) (\<lambda>k. dct_table ! (DCTSIZE * k + c))) [0..<ncols]
      in map (\<lambda>r. row (\<lambda>k. workspace ! k ! r)) [0..<nrows])"

text \<open>\<open>outptr[i] = range_limit[x & RANGE_MASK]\<close>, \<open>outptr = output_buf[r] + output_col\<close>.\<close>

definition idct_store :: "limit_table \<Rightarrow> int list list \<Rightarrow> samparray \<Rightarrow> nat \<Rightarrow> samparray option" where
  "idct_store range_limit vals output_buf output_col =
     for_loop 0 (length vals) (\<lambda>r arr.
       for_loop 0 (length (vals ! r)) (\<lambda>i arr.
         (case idct_limit range_limit (vals ! r ! i) of None \<Rightarrow> None
          | Some v \<Rightarrow> put_row (r, output_col + i) v arr)) arr) output_buf"

lemma idct_store_result:
  assumes fit: "rows_fit output_buf h (output_col + w)"
    and vals: "length vals = h" "\<And>r. r < h \<Longrightarrow> length (vals ! r) = w"
  shows "\<exists>out'. idct_store prepare_range_limit_table vals output_buf output_col = Some out' \<and>
    rows.writes {(r, i). r < h \<and> output_col \<le> i \<and> i < output_col + w}
      (\<lambda>(r, i). the (idct_limit prepare_range_limit_table (vals ! r ! (i - output_col)))) output_buf out'"
proof -
  let ?Q = "\<lambda>(r, i). the (idct_limit prepare_range_limit_table (vals ! r ! (i - output_col)))"
  let ?body = "\<lambda>r i arr. case idct_limit prepare_range_limit_table (vals ! r ! i) of None \<Rightarrow> None
          | Some v \<Rightarrow> put_row (r, output_col + i) v arr"
  have sample: "\<exists>t'. ?body r i t = Some t' \<and> rows.writes {(r, output_col + i)} ?Q t t'"
    if r: "r < h" and i: "i < w" and s: "row_shape t = row_shape output_buf" for r i t
  proof -
    obtain v where v: "idct_limit prepare_range_limit_table (vals ! r ! i) = Some v"
      using idct_limit_total by blast
    have "row_ok t (r, output_col + i)"
      using rows.shape_valid [OF s] rows_fit_ok [OF fit r, of "output_col + i"] i by simp
    then show ?thesis using rows.put_writes [of t "(r, output_col + i)" ?Q v] v by simp
  qed
  have line: "\<exists>t'. for_loop 0 (length (vals ! r)) (?body r) t = Some t' \<and>
      rows.writes (\<Union>i\<in>{0..<0 + length (vals ! r)}. {(r, output_col + i)}) ?Q t t'"
    if "r < h" "row_shape t = row_shape output_buf" for r t
    by (rule rows.loop_writes) (use sample that vals(2) [OF that(1)] in simp)
  have "\<exists>out'. idct_store prepare_range_limit_table vals output_buf output_col = Some out' \<and>
      rows.writes (\<Union>r\<in>{0..<0 + length vals}. \<Union>i\<in>{0..<0 + length (vals ! r)}. {(r, output_col + i)}) ?Q output_buf out'"
    unfolding idct_store_def by (rule rows.loop_writes) (use line vals(1) in simp)
  moreover have "(\<Union>r\<in>{0..<0 + length vals}. \<Union>i\<in>{0..<0 + length (vals ! r)}. {(r, output_col + i)}) =
      {(r, i). r < h \<and> output_col \<le> i \<and> i < output_col + w}"
  proof (rule set_eqI)
    fix x :: "nat \<times> nat"
    obtain r j where x: "x = (r, j)" by (cases x)
    have "x \<in> (\<Union>r\<in>{0..<0 + length vals}. \<Union>i\<in>{0..<0 + length (vals ! r)}. {(r, output_col + i)}) \<longleftrightarrow>
        r < h \<and> (\<exists>i<w. j = output_col + i)"
      unfolding x using vals by auto
    then show "x \<in> (\<Union>r\<in>{0..<0 + length vals}. \<Union>i\<in>{0..<0 + length (vals ! r)}. {(r, output_col + i)}) \<longleftrightarrow>
        x \<in> {(r, i). r < h \<and> output_col \<le> i \<and> i < output_col + w}"
      unfolding offset_index x by auto
  qed
  ultimately show ?thesis by simp
qed

section \<open>A pass as a matrix\<close>

text \<open>\<open>dot 0 cs x\<close> is the product of a matrix row with the input.\<close>

fun dot :: "nat \<Rightarrow> int list \<Rightarrow> (nat \<Rightarrow> int) \<Rightarrow> int" where
  "dot j [] x = 0"
| "dot j (c # cs) x = c * x j + dot (j + 1) cs x"

lemma dot_sum: "dot i cs x = (\<Sum>j<length cs. cs ! j * x (i + j))"
proof (induction cs arbitrary: i)
  case Nil
  then show ?case by simp
next
  case (Cons c cs)
  show ?case unfolding dot.simps Cons.IH
    by (simp add: sum.lessThan_Suc_shift del: sum.lessThan_Suc)
qed

lemma dot_bound:
  assumes "\<And>j. j < length cs \<Longrightarrow> \<bar>cs ! j\<bar> \<le> C"
  shows "\<bar>dot 0 cs x\<bar> \<le> C * (\<Sum>j<length cs. \<bar>x j\<bar>)"
proof -
  have "\<bar>dot 0 cs x\<bar> \<le> (\<Sum>j<length cs. \<bar>cs ! j * x j\<bar>)"
    unfolding dot_sum by (simp add: sum_abs)
  also have "\<dots> \<le> (\<Sum>j<length cs. C * \<bar>x j\<bar>)"
    using assms by (intro sum_mono) (simp add: abs_mult mult_right_mono)
  finally show ?thesis by (simp add: sum_distrib_left)
qed

text \<open>
  The interface of a pass: on inputs whose absolute values sum up to at most \<open>limit\<close>, each output
  is the product of its row of \<open>M\<close> with the input, divided by \<open>2 ^ n\<close> and rounded to a nearest
  integer.
\<close>

locale dct_pass =
  fixes f :: "'a \<Rightarrow> int list"
    and arg :: "'a \<Rightarrow> nat \<Rightarrow> int"
    and M :: "int list list"
    and n :: nat
    and points :: nat
    and limit :: int
  assumes outputs: "length (f a) = length M"
    and inputs: "k < length M \<Longrightarrow> length (M ! k) = points"
    and rounds: "k < length M \<Longrightarrow> (\<Sum>j<points. \<bar>arg a j\<bar>) \<le> limit \<Longrightarrow>
      \<bar>2 ^ n * f a ! k - dot 0 (M ! k) (arg a)\<bar> \<le> 2 ^ n div 2"

text \<open>The entries of \<open>M\<close> that leave room in 32 bits for the products with such inputs.\<close>

definition fits :: "int list list \<Rightarrow> nat \<Rightarrow> int \<Rightarrow> bool" where
  "fits M points limit \<longleftrightarrow> (\<exists>C. C * limit \<le> 2088000000 \<and> 0 \<le> C \<and>
     (\<forall>cs\<in>set M. length cs = points \<and> (\<forall>c\<in>set cs. \<bar>c\<bar> \<le> C)))"

lemma fits_dot:
  assumes "fits M points limit" "cs \<in> set M" "(\<Sum>j<points. \<bar>x j\<bar>) \<le> limit"
  shows "length cs = points" "\<bar>dot 0 cs x\<bar> \<le> 2088000000"
proof -
  obtain C where C: "C * limit \<le> 2088000000" "0 \<le> C" "length cs = points" "\<forall>c\<in>set cs. \<bar>c\<bar> \<le> C"
    using assms(1,2) unfolding fits_def by blast
  show "length cs = points" by (rule C)
  have "\<bar>dot 0 cs x\<bar> \<le> C * (\<Sum>j<points. \<bar>x j\<bar>)" using dot_bound [of cs C x] C by simp
  also have "\<dots> \<le> C * limit" using assms(3) C(2) by (rule mult_left_mono)
  finally show "\<bar>dot 0 cs x\<bar> \<le> 2088000000" using C(1) by linarith
qed

lemma power31: "(2 :: int) ^ 31 = 2147483648"
  by simp

lemma right_shift_rounds:
  assumes "\<bar>x\<bar> \<le> 2088000000" "n \<le> 17"
  shows "\<bar>2 ^ Suc n * RIGHT_SHIFT (x + 2 ^ n) (Suc n) - x\<bar> \<le> 2 ^ n"
proof -
  define p :: int where "p = 2 ^ n"
  have p: "0 < p" "(2 :: int) ^ Suc n = 2 * p" "p \<le> 131072"
    using assms(2) power_increasing [of n 17 "2 :: int"] by (simp_all add: p_def)
  have "- (2 ^ 31) \<le> x + p" "x + p < 2 ^ 31" using assms(1) p power31 by linarith+
  then have "RIGHT_SHIFT (x + p) (Suc n) = (x + p) div (2 * p)"
    by (simp add: RIGHT_SHIFT_def s32_id in_s32_def p_def)
  moreover have "2 * p * ((x + p) div (2 * p)) = x + p - (x + p) mod (2 * p)"
    by (simp add: minus_mod_eq_mult_div)
  moreover have "0 \<le> (x + p) mod (2 * p)" "(x + p) mod (2 * p) < 2 * p" using p(1) by simp_all
  ultimately show ?thesis unfolding p(2) p_def [symmetric] by (simp add: abs_le_iff)
qed

text \<open>The usual form of a pass.\<close>

lemma shifted_pass:
  assumes f: "\<And>a. f a = map (\<lambda>cs. RIGHT_SHIFT (dot 0 cs (arg a) + 2 ^ n) (Suc n)) M"
    and M: "fits M points limit" and n: "n \<le> 17"
  shows "dct_pass f arg M (Suc n) points limit"
proof
  fix a k
  show "length (f a) = length M" by (simp add: f)
  assume k: "k < length M"
  obtain C where "\<forall>cs\<in>set M. length cs = points" using M unfolding fits_def by blast
  then show "length (M ! k) = points" using k by simp
  assume s: "(\<Sum>j<points. \<bar>arg a j\<bar>) \<le> limit"
  have "\<bar>dot 0 (M ! k) (arg a)\<bar> \<le> 2088000000" using fits_dot(2) [OF M _ s] k by simp
  then show "\<bar>2 ^ Suc n * f a ! k - dot 0 (M ! k) (arg a)\<bar> \<le> 2 ^ Suc n div 2"
    using right_shift_rounds [of "dot 0 (M ! k) (arg a)" n] n k unfolding f by simp
qed

text \<open>A pass without rounding.\<close>

lemma exact_pass:
  assumes f: "\<And>a. f a = map (\<lambda>cs. s32 (dot 0 cs (arg a))) M" and M: "fits M points limit"
  shows "dct_pass f arg M 0 points limit"
proof
  fix a k
  show "length (f a) = length M" by (simp add: f)
  assume k: "k < length M"
  obtain C where "\<forall>cs\<in>set M. length cs = points" using M unfolding fits_def by blast
  then show "length (M ! k) = points" using k by simp
  assume s: "(\<Sum>j<points. \<bar>arg a j\<bar>) \<le> limit"
  have "\<bar>dot 0 (M ! k) (arg a)\<bar> \<le> 2088000000" using fits_dot(2) [OF M _ s] k by simp
  then have "in_s32 (dot 0 (M ! k) (arg a))" unfolding in_s32_def using power31 by linarith
  then show "\<bar>2 ^ 0 * f a ! k - dot 0 (M ! k) (arg a)\<bar> \<le> 2 ^ 0 div 2"
    using k unfolding f by (simp add: s32_id)
qed

text \<open>
  Some outputs of pass 1 shift one part of the sum and add the other part, which needs no shift;
  \<open>(us, cs, sg)\<close> holds the factors of both parts and the sign of the shifted one.
\<close>

definition split_output :: "(nat \<Rightarrow> int) \<Rightarrow> int list \<times> int list \<times> int \<Rightarrow> int" where
  "split_output x = (\<lambda>(us, cs, sg). s32 (dot 0 us x + sg * RIGHT_SHIFT (dot 0 cs x + 1024) 11))"

definition split_row :: "int list \<times> int list \<times> int \<Rightarrow> int list" where
  "split_row = (\<lambda>(us, cs, sg). map2 (\<lambda>u c. 2048 * u + sg * c) us cs)"

definition split_fits :: "nat \<Rightarrow> int list \<times> int list \<times> int \<Rightarrow> bool" where
  "split_fits points = (\<lambda>(us, cs, sg). (sg = 1 \<or> sg = - 1) \<and> length us = points \<and> length cs = points \<and>
     list_all (\<lambda>u. \<bar>u\<bar> \<le> 12) us \<and> list_all (\<lambda>c. \<bar>c\<bar> \<le> 11600) cs)"

lemma s32_RIGHT_SHIFT [simp]: "s32 (RIGHT_SHIFT x n) = RIGHT_SHIFT x n"
proof (rule s32_id)
  have s: "- 2147483648 \<le> s32 x" "s32 x < 2147483648"
    using in_s32_s32 [of x] unfolding in_s32_def power31 by simp_all
  have "(- 2147483648) div 2 ^ n \<le> s32 x div 2 ^ n" "s32 x div 2 ^ n \<le> 2147483647 div 2 ^ n"
    using s by (intro zdiv_mono1; simp)+
  moreover have "(- 2147483648 :: int) div 1 \<le> - 2147483648 div 2 ^ n"
    by (rule zdiv_mono2_neg) simp_all
  moreover have "(2147483647 :: int) div 2 ^ n \<le> 2147483647 div 1"
    by (rule zdiv_mono2) simp_all
  ultimately show "in_s32 (RIGHT_SHIFT x n)" unfolding in_s32_def power31 RIGHT_SHIFT_def by simp
qed

lemma dot_split:
  "length us = length cs \<Longrightarrow> dot i (map2 (\<lambda>u c. 2048 * u + sg * c) us cs) x = 2048 * dot i us x + sg * dot i cs x"
  by (induction us cs arbitrary: i rule: list_induct2) (simp_all add: algebra_simps)

lemma split_pass:
  assumes f: "\<And>a. f a = map (split_output (arg a)) L" and M: "M = map split_row L"
    and fit: "list_all (split_fits points) L"
  shows "dct_pass f arg M 11 points 160000"
proof
  fix a k
  show "length (f a) = length M" by (simp add: f M)
  assume k: "k < length M"
  obtain us cs sg where u: "L ! k = (us, cs, sg)" by (cases "L ! k")
  have "split_fits points (L ! k)" using fit k by (simp add: M list_all_length)
  then have fits: "sg = 1 \<or> sg = - 1" "length us = points" "length cs = points"
      "\<And>j. j < points \<Longrightarrow> \<bar>us ! j\<bar> \<le> 12" "\<And>j. j < points \<Longrightarrow> \<bar>cs ! j\<bar> \<le> 11600"
    unfolding u split_fits_def by (auto simp: list_all_length)
  have row: "M ! k = map2 (\<lambda>u c. 2048 * u + sg * c) us cs" using k by (simp add: M u split_row_def)
  then show "length (M ! k) = points" using fits by simp
  assume s: "(\<Sum>j<points. \<bar>arg a j\<bar>) \<le> 160000"
  define U C R where "U = dot 0 us (arg a)" and "C = dot 0 cs (arg a)" and "R = RIGHT_SHIFT (C + 1024) 11"
  have "\<bar>U\<bar> \<le> 12 * (\<Sum>j<points. \<bar>arg a j\<bar>)" "\<bar>C\<bar> \<le> 11600 * (\<Sum>j<points. \<bar>arg a j\<bar>)"
    unfolding U_def C_def using dot_bound [of us 12 "arg a"] dot_bound [of cs 11600 "arg a"] fits by simp_all
  then have b: "\<bar>U\<bar> \<le> 1920000" "\<bar>C\<bar> \<le> 1856000000" using s by linarith+
  have "\<bar>2 ^ Suc 10 * RIGHT_SHIFT (C + 2 ^ 10) (Suc 10) - C\<bar> \<le> 2 ^ 10"
    by (rule right_shift_rounds) (use b in linarith, simp)
  then have r: "\<bar>2048 * R - C\<bar> \<le> 1024" by (simp add: R_def)
  have g: "sg * R = R \<or> sg * R = - R" "sg * C = C \<and> sg * R = R \<or> sg * C = - C \<and> sg * R = - R" using fits(1) by auto
  have "in_s32 (U + sg * R)" unfolding in_s32_def using b r g(1) power31 by linarith
  then have "f a ! k = U + sg * R"
    using k by (simp add: f M u split_output_def U_def C_def R_def s32_id)
  moreover have "dot 0 (M ! k) (arg a) = 2048 * U + sg * C"
    unfolding row U_def C_def by (rule dot_split) (simp add: fits)
  moreover have "\<bar>2048 * (sg * R) - sg * C\<bar> \<le> 1024"
    using g(2) by (elim disjE conjE; simp only:) (use r in linarith)+
  ultimately show "\<bar>2 ^ 11 * f a ! k - dot 0 (M ! k) (arg a)\<bar> \<le> 2 ^ 11 div 2"
    by (simp add: distrib_left)
qed

text \<open>
  Some passes treat an input whose terms but the first are zero on its own: the outputs are then
  one and the same value.
\<close>

lemma dot_first:
  assumes "0 < length cs" "\<And>j. 0 < j \<Longrightarrow> j < length cs \<Longrightarrow> x j = 0"
  shows "dot 0 cs x = cs ! 0 * x 0"
proof -
  have "(\<Sum>j<length cs. cs ! j * x (0 + j)) = (\<Sum>j\<in>{0}. cs ! j * x (0 + j))"
    using assms by (intro sum.mono_neutral_right) auto
  then show ?thesis by (simp add: dot_sum)
qed

lemma shortcut_pass:
  assumes g: "dct_pass g arg M n points limit" and points: "0 < points"
    and M: "list_all (\<lambda>cs. cs ! 0 = 8192) M"
    and rest: "\<And>a. \<not> zero a \<Longrightarrow> f a = g a"
    and first: "\<And>a. zero a \<Longrightarrow> f a = replicate (length M) (v a)"
    and zero: "\<And>a j. zero a \<Longrightarrow> 0 < j \<Longrightarrow> j < points \<Longrightarrow> arg a j = 0"
    and v: "\<And>a. zero a \<Longrightarrow> \<bar>arg a 0\<bar> \<le> limit \<Longrightarrow> \<bar>2 ^ n * v a - 8192 * arg a 0\<bar> \<le> 2 ^ n div 2"
  shows "dct_pass f arg M n points limit"
proof
  fix a k
  note outputs = dct_pass.outputs [OF g] and inputs = dct_pass.inputs [OF g] and rounds = dct_pass.rounds [OF g]
  show "length (f a) = length M" using rest first outputs by (cases "zero a") simp_all
  assume k: "k < length M"
  show len: "length (M ! k) = points" by (rule inputs [OF k])
  assume s: "(\<Sum>j<points. \<bar>arg a j\<bar>) \<le> limit"
  show "\<bar>2 ^ n * f a ! k - dot 0 (M ! k) (arg a)\<bar> \<le> 2 ^ n div 2"
  proof (cases "zero a")
    case True
    have "\<bar>arg a 0\<bar> \<le> (\<Sum>j<points. \<bar>arg a j\<bar>)" using points by (intro member_le_sum) simp_all
    moreover have "dot 0 (M ! k) (arg a) = 8192 * arg a 0"
      using dot_first [of "M ! k" "arg a"] zero [OF True] points len M k by (simp add: list_all_length)
    ultimately show ?thesis using v [OF True] s k by (simp add: first [OF True])
  qed (use rounds [OF k s] rest in simp)
qed

lemma shortcut_col:
  assumes "\<bar>x\<bar> \<le> 160000"
  shows "\<bar>2 ^ 11 * s32 (x * 2 ^ PASS1_BITS) - 8192 * x\<bar> \<le> 2 ^ 11 div 2"
proof -
  have "in_s32 (x * 4)" unfolding in_s32_def power31 using assms by linarith
  then show ?thesis by (simp add: PASS1_BITS_def s32_id)
qed

lemma shortcut_row:
  assumes "\<bar>x\<bar> \<le> 160000"
  shows "\<bar>2 ^ 18 * DESCALE x (PASS1_BITS + 3) - 8192 * x\<bar> \<le> 2 ^ 18 div 2"
proof -
  have "\<bar>2 ^ Suc 4 * RIGHT_SHIFT (x + 2 ^ 4) (Suc 4) - x\<bar> \<le> 2 ^ 4"
    by (rule right_shift_rounds) (use assms in linarith, simp)
  then have "\<bar>32 * RIGHT_SHIFT (x + 16) 5 - x\<bar> \<le> 16" by simp
  then show ?thesis by (simp add: DESCALE_def PASS1_BITS_def)
qed

end
