(* ===== verification/Cosines.thy ===== *)
theory Cosines
  imports Complex_Main Prelude
begin

text \<open>
  Cosines in fixed point: a table with 20 fractional bits of the multiples of \<open>pi / (2 * N)\<close>, and
  the proof of its accuracy from the Taylor polynomials of sine and cosine.
\<close>

section \<open>Taylor polynomials\<close>

definition cos_poly :: "real \<Rightarrow> real" where
  "cos_poly r = 1 - r ^ 2 / 2 + r ^ 4 / 24 - r ^ 6 / 720 + r ^ 8 / 40320 - r ^ 10 / 3628800"

definition sin_poly :: "real \<Rightarrow> real" where
  "sin_poly r = r - r ^ 3 / 6 + r ^ 5 / 120 - r ^ 7 / 5040"

lemma below_12: "{..<12 :: nat} = {0, 1, 2, 3, 4, 5, 6, 7, 8, 9, 10, 11}" by (auto simp: numeral_eq_Suc less_Suc_eq)
lemma below_9: "{..<9 :: nat} = {0, 1, 2, 3, 4, 5, 6, 7, 8}" by (auto simp: numeral_eq_Suc less_Suc_eq)

lemma trig_coeffs:
  "cos_coeff 0 = 1" "cos_coeff 2 = - (1 / 2)" "cos_coeff 4 = 1 / 24" "cos_coeff 6 = - (1 / 720)"
  "cos_coeff 8 = 1 / 40320" "cos_coeff 10 = - (1 / 3628800)"
  "cos_coeff (Suc 0) = 0" "cos_coeff 3 = 0" "cos_coeff 5 = 0" "cos_coeff 7 = 0" "cos_coeff 9 = 0" "cos_coeff 11 = 0"
  "sin_coeff 0 = 0" "sin_coeff 2 = 0" "sin_coeff 4 = 0" "sin_coeff 6 = 0" "sin_coeff 8 = 0"
  "sin_coeff (Suc 0) = 1" "sin_coeff 3 = - (1 / 6)" "sin_coeff 5 = 1 / 120" "sin_coeff 7 = - (1 / 5040)"
  by (simp_all add: cos_coeff_def sin_coeff_def fact_numeral)

lemma cos_poly_near: "\<bar>cos r - cos_poly r\<bar> \<le> \<bar>r\<bar> ^ 12 / 479001600"
proof -
  obtain t where t: "cos r = (\<Sum>m<12. cos_coeff m * r ^ m) + (cos (t + 1 / 2 * real 12 * pi) / fact 12) * r ^ 12"
    using Maclaurin_cos_expansion [of r 12] by blast
  have "(\<Sum>m<12. cos_coeff m * r ^ m) = cos_poly r"
    unfolding below_12 by (simp add: cos_poly_def trig_coeffs)
  then have "cos r - cos_poly r = (cos (t + 1 / 2 * real 12 * pi) / fact 12) * r ^ 12" using t by simp
  then have "\<bar>cos r - cos_poly r\<bar> = \<bar>cos (t + 1 / 2 * real 12 * pi)\<bar> * \<bar>r\<bar> ^ 12 / fact 12"
    by (simp add: abs_mult power_abs)
  also have "\<dots> \<le> 1 * \<bar>r\<bar> ^ 12 / fact 12"
    by (intro divide_right_mono mult_right_mono) simp_all
  finally show ?thesis by (simp add: fact_numeral)
qed

lemma sin_poly_near: "\<bar>sin r - sin_poly r\<bar> \<le> \<bar>r\<bar> ^ 9 / 362880"
proof -
  obtain t where t: "sin r = (\<Sum>m<9. sin_coeff m * r ^ m) + (sin (t + 1 / 2 * real 9 * pi) / fact 9) * r ^ 9"
    using Maclaurin_sin_expansion [of r 9] by blast
  have "(\<Sum>m<9. sin_coeff m * r ^ m) = sin_poly r"
    unfolding below_9 by (simp add: sin_poly_def trig_coeffs)
  then have "sin r - sin_poly r = (sin (t + 1 / 2 * real 9 * pi) / fact 9) * r ^ 9" using t by simp
  then have "\<bar>sin r - sin_poly r\<bar> = \<bar>sin (t + 1 / 2 * real 9 * pi)\<bar> * \<bar>r\<bar> ^ 9 / fact 9"
    by (simp add: abs_mult power_abs)
  also have "\<dots> \<le> 1 * \<bar>r\<bar> ^ 9 / fact 9"
    by (intro divide_right_mono mult_right_mono) simp_all
  finally show ?thesis by (simp add: fact_numeral)
qed

lemma pi_bounds: "31415925 / 10000000 < pi" "pi < 31415928 / 10000000"
proof -
  let ?a = "31415925 / 60000000 :: real" and ?b = "31415928 / 60000000 :: real"
  have two: "2 \<le> pi" by (rule pi_ge_two)
  have "sin_poly ?a + \<bar>?a\<bar> ^ 9 / 362880 < 1 / 2" by (simp add: sin_poly_def power_divide)
  then have a: "sin ?a < sin (pi / 6)" using sin_poly_near [of ?a] unfolding sin_30 by linarith
  have "1 / 2 < sin_poly ?b - \<bar>?b\<bar> ^ 9 / 362880" by (simp add: sin_poly_def power_divide)
  then have b: "sin (pi / 6) < sin ?b" using sin_poly_near [of ?b] unfolding sin_30 by linarith
  have "?a < pi / 6"
    by (rule ccontr) (use a two sin_monotone_2pi_le [of "pi / 6" ?a] in auto)
  then show "31415925 / 10000000 < pi" by simp
  have "pi / 6 < ?b"
    by (rule ccontr) (use b two sin_monotone_2pi_le [of ?b "pi / 6"] in auto)
  then show "pi < 31415928 / 10000000" by simp
qed

section \<open>The table\<close>

text \<open>\<open>cos_table N ! m\<close> is the cosine of \<open>m * pi / (2 * N)\<close> in units of \<open>2 ^ - 20\<close>, for the first quadrant.\<close>

definition cos_table :: "nat \<Rightarrow> int list" where
  "cos_table N =
    (if N = 2 then
      [1048576, 741455, 0] else
     (if N = 3 then
      [1048576, 908093, 524288, 0] else
     (if N = 4 then
      [1048576, 968758, 741455, 401273, 0] else
     (if N = 5 then
      [1048576, 997255, 848316, 616338, 324028, 0] else
     (if N = 6 then
      [1048576, 1012847, 908093, 741455, 524288, 271391, 0] else
     (if N = 7 then
      [1048576, 1022286, 944734, 819810, 653776, 454960, 233330, 0] else
     (if N = 8 then
      [1048576, 1028428, 968758, 871859, 741455, 582558, 401273, 204567, 0] else
     (if N = 9 then
      [1048576, 1032646, 985339, 908093, 803256, 674012, 524288, 358634, 182083, 0] else
     (if N = 10 then
      [1048576, 1035666, 997255, 934288, 848316, 741455, 616338, 476044, 324028, 164033, 0] else
     (if N = 11 then
      [1048576, 1037903, 1006101, 953818, 882118, 792461, 686671, 566903, 435594, 295418, 149228, 0] else
     (if N = 12 then
      [1048576, 1039605, 1012847, 968758, 908093, 831891, 741455, 638333, 524288, 401273, 271391, 136867, 0] else
     (if N = 13 then
      [1048576, 1040931, 1018106, 980436, 928468, 862961, 784870, 695335, 595659, 487298, 371830, 250941, 126392, 0] else
     (if N = 14 then
      [1048576, 1041983, 1022286, 989733, 944734, 887855, 819810, 741455, 653776, 557876, 454960, 346323, 233330, 117403, 0] else
     (if N = 15 then
      [1048576, 1042832, 1025662, 997255, 957922, 908093, 848316, 779244, 701634, 616338, 524288, 426494, 324028, 218011, 109606, 0] else
     (if N = 16 then
      [1048576, 1043527, 1028428, 1003425, 968758, 924761, 871859, 810560, 741455, 665210, 582558, 494295, 401273, 304386, 204567, 102778, 0] else
     [])))))))))))))))"

definition cos_fixed :: "nat \<Rightarrow> int \<Rightarrow> int" where
  "cos_fixed N m =
     (let a = m mod (4 * int N); b = (if 2 * int N < a then 4 * int N - a else a)
      in if b \<le> int N then cos_table N ! nat b else - (cos_table N ! nat (2 * int N - b)))"

definition sizes :: "nat list" where "sizes = [2, 3, 4, 5, 6, 7, 8, 9, 10, 11, 12, 13, 14, 15, 16]"

text \<open>\<open>cos_num a b\<close> is \<open>3628800 * b ^ 10\<close> times the cosine polynomial at \<open>a / b\<close>.\<close>

definition cos_num :: "int \<Rightarrow> int \<Rightarrow> int" where
  "cos_num a b =
     (let p = a * a; q = b * b
      in q * (q * (q * (q * (3628800 * q - 1814400 * p) + 151200 * (p * p)) - 5040 * (p * p * p)) + 90 * (p * p * p * p)) - p * p * p * p * p)"

text \<open>The check of a table, with 355 / 113 for \<open>pi\<close>.\<close>

definition table_ok :: "nat \<Rightarrow> bool" where
  "table_ok N \<longleftrightarrow> (let b = 226 * int N; q = b * b; d = 3628800 * (q * q * q * q * q) in
     0 < N \<and> length (cos_table N) = N + 1 \<and>
     list_all2 (\<lambda>m t. \<bar>1048576 * cos_num (355 * int m) b - d * t\<bar> \<le> d) [0..<N + 1] (cos_table N))"

lemma tables_ok: "list_all table_ok sizes"
  by code_simp

lemma cos_num_poly:
  assumes "b \<noteq> 0"
  shows "real_of_int (cos_num a b) = 3628800 * real_of_int b ^ 10 * cos_poly (real_of_int a / real_of_int b)"
proof -
  define x :: real where "x = real_of_int a / real_of_int b"
  have a: "real_of_int a = x * real_of_int b" using assms by (simp add: x_def)
  show ?thesis
    unfolding x_def [symmetric] by (simp add: cos_num_def cos_poly_def Let_def a algebra_simps eval_nat_numeral)
qed

lemma cos_near: "\<bar>cos x - cos y\<bar> \<le> \<bar>x - y\<bar>" for x y :: real
proof -
  have "\<bar>cos x - cos y\<bar> = 2 * \<bar>sin ((x + y) / 2)\<bar> * \<bar>sin ((y - x) / 2)\<bar>"
    by (simp add: cos_diff_cos abs_mult)
  also have "\<dots> \<le> 2 * 1 * \<bar>(y - x) / 2\<bar>"
    by (intro mult_mono abs_sin_x_le_abs_x) simp_all
  finally show ?thesis by simp
qed

lemma table_near:
  assumes N: "N \<in> set sizes" and m: "m \<le> N"
  shows "\<bar>1048576 * cos (real m * pi / (2 * real N)) - real_of_int (cos_table N ! m)\<bar> \<le> 2"
proof -
  let ?x = "real m * pi / (2 * real N)" and ?r = "real m * 355 / (226 * real N)"
  have "table_ok N" using tables_ok N by (simp add: list_all_iff)
  then have pos: "0 < N" and near: "\<bar>1048576 * cos_num (355 * int m) (226 * int N) - 3628800 * (226 * int N) ^ 10 * cos_table N ! m\<bar>
      \<le> 3628800 * (226 * int N) ^ 10"
    using m by (auto simp: table_ok_def Let_def list_all2_conv_all_nth power_numeral_reduce less_Suc_eq_le simp del: upt_Suc)
  define d :: real where "d = 3628800 * (226 * real N) ^ 10"
  have d: "0 < d" using pos by (simp add: d_def)
  have "\<bar>1048576 * (d * cos_poly ?r) - d * real_of_int (cos_table N ! m)\<bar> \<le> d"
    using near cos_num_poly [of "226 * int N" "355 * int m"] pos
    by (simp flip: of_int_le_iff [where 'a = real] add: mult.commute d_def)
  moreover have "1048576 * (d * cos_poly ?r) - d * real_of_int (cos_table N ! m) =
      d * (1048576 * cos_poly ?r - real_of_int (cos_table N ! m))"
    by (simp only: right_diff_distrib mult.left_commute)
  ultimately have "d * \<bar>1048576 * cos_poly ?r - real_of_int (cos_table N ! m)\<bar> \<le> d * 1"
    using d by (simp only: abs_mult abs_of_pos mult_1_right)
  then have a: "\<bar>1048576 * cos_poly ?r - real_of_int (cos_table N ! m)\<bar> \<le> 1"
    using d by (simp only: mult_le_cancel_left_pos)
  have q: "0 \<le> real m / real N" "real m / real N \<le> 1" using m pos by simp_all
  have r: "?r = real m / real N * (355 / 226)" "?x = real m / real N * (pi / 2)" by simp_all
  have "?r \<le> 1 * (355 / 226)" "0 \<le> ?r" unfolding r using q by (intro mult_right_mono, simp_all)
  then have "\<bar>?r\<bar> ^ 12 \<le> (16 / 10) ^ 12" by (intro power_mono) simp_all
  then have b: "\<bar>cos ?r - cos_poly ?r\<bar> \<le> 6 / 10000000"
    using cos_poly_near [of ?r] by (simp add: power_divide)
  have "?x - ?r = real m / real N * (pi / 2 - 355 / 226)" unfolding r by (rule right_diff_distrib [symmetric])
  then have "\<bar>?x - ?r\<bar> = real m / real N * \<bar>pi / 2 - 355 / 226\<bar>" using q by (simp add: abs_mult)
  also have "\<dots> \<le> 1 * (3 / 10000000)" using q pi_bounds by (intro mult_mono) (simp_all add: abs_le_iff)
  finally have "\<bar>cos ?x - cos ?r\<bar> \<le> 3 / 10000000" using cos_near [of ?x ?r] by linarith
  then show ?thesis using a b by linarith
qed

lemma cos_fixed_near:
  assumes N: "N \<in> set sizes"
  shows "\<bar>1048576 * cos (real_of_int m * pi / (2 * real N)) - real_of_int (cos_fixed N m)\<bar> \<le> 2"
proof -
  define a where "a = m mod (4 * int N)"
  define b where "b = (if 2 * int N < a then 4 * int N - a else a)"
  have pos: "0 < N" using N by (auto simp: sizes_def)
  have a: "0 \<le> a" "a < 4 * int N" using pos by (simp_all add: a_def)
  have b: "0 \<le> b" "b \<le> 2 * int N" using a by (simp_all add: b_def)
  define k where "k = m div (4 * int N)"
  have "m = a + 4 * int N * k" unfolding a_def k_def by simp
  then have m: "real_of_int m = real_of_int a + 4 * real N * real_of_int k" by simp
  have split: "real_of_int m * pi / (2 * real N) = real_of_int a * pi / (2 * real N) + real_of_int k * (2 * pi)"
    unfolding m using pos by (simp add: field_simps)
  have "cos (real_of_int m * pi / (2 * real N)) = cos (real_of_int a * pi / (2 * real N))"
    using cos_int_2pin [of k] sin_int_2pin [of k] unfolding split by (simp add: cos_add mult.commute)
  also have "\<dots> = cos (real_of_int b * pi / (2 * real N))"
  proof (cases "2 * int N < a")
    case True
    then have "real_of_int b * pi / (2 * real N) = 2 * pi - real_of_int a * pi / (2 * real N)"
      using pos by (simp add: b_def field_simps)
    then show ?thesis by (simp add: cos_2pi_minus)
  qed (simp add: b_def)
  finally have c: "cos (real_of_int m * pi / (2 * real N)) = cos (real_of_int b * pi / (2 * real N))" .
  show ?thesis
  proof (cases "b \<le> int N")
    case True
    then have "cos_fixed N m = cos_table N ! nat b"
      by (simp add: cos_fixed_def Let_def a_def [symmetric] b_def [symmetric])
    then show ?thesis using table_near [OF N, of "nat b"] True b unfolding c by (simp add: nat_le_iff)
  next
    case False
    then have f: "cos_fixed N m = - (cos_table N ! nat (2 * int N - b))"
      by (simp add: cos_fixed_def Let_def a_def [symmetric] b_def [symmetric])
    have "real_of_int b * pi / (2 * real N) = pi - real (nat (2 * int N - b)) * pi / (2 * real N)"
      using pos b by (simp add: field_simps)
    then have "cos (real_of_int b * pi / (2 * real N)) = - cos (real (nat (2 * int N - b)) * pi / (2 * real N))"
      by (simp add: cos_pi_minus)
    then show ?thesis using table_near [OF N, of "nat (2 * int N - b)"] False unfolding c f
      by (simp add: nat_le_iff)
  qed
qed

end
