(* ===== verification/DctKernels.thy ===== *)
theory DctKernels
  imports DctBase Cosines
begin

text \<open>
  The integer matrices of the DCT passes and the cosines they approximate.  \<open>kernel_N\<close> is the matrix
  that every inverse pass of \<open>N\<close> points in \<open>jpeg-9a/jidctint.c\<close> multiplies its input with, in units
  of \<open>2 ^ - 13\<close>; row \<open>k\<close> holds the factors of output \<open>k\<close>.  The theory proves that each entry is within
  two units of the cosine of the inverse DCT.
\<close>

definition kernel_2 :: "int list list" where
  "kernel_2 =
  [[1, 1],
   [1, - 1]]"

definition kernel_3 :: "int list list" where
  "kernel_3 =
  [[8192, 10033, 5793],
   [8192, 0, - 11586],
   [8192, - 10033, 5793]]"

definition kernel_4 :: "int list list" where
  "kernel_4 =
  [[8192, 10703, 8192, 4433],
   [8192, 4433, - 8192, - 10704],
   [8192, - 4433, - 8192, 10704],
   [8192, - 10703, 8192, - 4433]]"

definition kernel_5 :: "int list list" where
  "kernel_5 =
  [[8192, 11019, 9372, 6810, 3580],
   [8192, 6810, - 3580, - 11018, - 9372],
   [8192, 0, - 11584, 0, 11584],
   [8192, - 6810, - 3580, 11018, - 9372],
   [8192, - 11019, 9372, - 6810, 3580]]"

definition kernel_6 :: "int list list" where
  "kernel_6 =
  [[8192, 11190, 10033, 8192, 5793, 2998],
   [8192, 8192, 0, - 8192, - 11586, - 8192],
   [8192, 2998, - 10033, - 8192, 5793, 11190],
   [8192, - 2998, - 10033, 8192, 5793, - 11190],
   [8192, - 8192, 0, 8192, - 11586, 8192],
   [8192, - 11190, 10033, - 8192, 5793, - 2998]]"

definition kernel_7 :: "int list list" where
  "kernel_7 =
  [[8192, 11295, 10438, 9058, 7223, 5027, 2578],
   [8192, 9058, 2578, - 5027, - 10438, - 11295, - 7223],
   [8192, 5027, - 7223, - 11295, - 2578, 9058, 10438],
   [8192, 0, - 11585, 0, 11585, 0, - 11585],
   [8192, - 5027, - 7223, 11295, - 2578, - 9058, 10438],
   [8192, - 9058, 2578, 5027, - 10438, 11295, - 7223],
   [8192, - 11295, 10438, - 9058, 7223, - 5027, 2578]]"

definition kernel_8 :: "int list list" where
  "kernel_8 =
  [[8192, 11363, 10703, 9633, 8192, 6437, 4433, 2260],
   [8192, 9633, 4433, - 2259, - 8192, - 11362, - 10704, - 6436],
   [8192, 6437, - 4433, - 11362, - 8192, 2261, 10704, 9633],
   [8192, 2260, - 10703, - 6436, 8192, 9633, - 4433, - 11363],
   [8192, - 2260, - 10703, 6436, 8192, - 9633, - 4433, 11363],
   [8192, - 6437, - 4433, 11362, - 8192, - 2261, 10704, - 9633],
   [8192, - 9633, 4433, 2259, - 8192, 11362, - 10704, 6436],
   [8192, - 11363, 10703, - 9633, 8192, - 6437, 4433, - 2260]]"

definition kernel_9 :: "int list list" where
  "kernel_9 =
  [[8192, 11409, 10887, 10033, 8875, 7447, 5793, 3962],
   [8192, 10033, 5793, 0, - 5793, - 10033, - 11586, - 10033],
   [8192, 7447, - 2012, - 10033, - 10887, - 3962, 5793, 11409],
   [8192, 3962, - 8875, - 10033, 2012, 11409, 5793, - 7447],
   [8192, 0, - 11586, 0, 11586, 0, - 11586, 0],
   [8192, - 3962, - 8875, 10033, 2012, - 11409, 5793, 7447],
   [8192, - 7447, - 2012, 10033, - 10887, 3962, 5793, - 11409],
   [8192, - 10033, 5793, 0, - 5793, 10033, - 11586, 10033],
   [8192, - 11409, 10887, - 10033, 8875, - 7447, 5793, - 3962]]"

definition kernel_10 :: "int list list" where
  "kernel_10 =
  [[8192, 11443, 11019, 10322, 9373, 8192, 6810, 5260],
   [8192, 10323, 6810, 1812, - 3580, - 8192, - 11018, - 11442],
   [8192, 8192, 0, - 8192, - 11586, - 8192, 0, 8192],
   [8192, 5260, - 6810, - 11442, - 3580, 8192, 11018, 1812],
   [8192, 1812, - 11019, - 5260, 9373, 8192, - 6810, - 10322],
   [8192, - 1812, - 11019, 5260, 9373, - 8192, - 6810, 10322],
   [8192, - 5260, - 6810, 11442, - 3580, - 8192, 11018, - 1812],
   [8192, - 8192, 0, 8192, - 11586, 8192, 0, - 8192],
   [8192, - 10323, 6810, - 1812, - 3580, 8192, - 11018, 11442],
   [8192, - 11443, 11019, - 10322, 9373, - 8192, 6810, - 5260]]"

definition kernel_11 :: "int list list" where
  "kernel_11 =
  [[8192, 11468, 11116, 10538, 9746, 8756, 7587, 6264],
   [8192, 10538, 7587, 3264, - 1649, - 6263, - 9746, - 11467],
   [8192, 8756, 1649, - 6263, - 11116, - 10537, - 4812, 3264],
   [8192, 6264, - 4812, - 11467, - 7587, 3264, 11116, 8756],
   [8192, 3264, - 9746, - 8755, 4813, 11467, 1649, - 10538],
   [8192, 0, - 11585, 0, 11585, 0, - 11585, 0],
   [8192, - 3264, - 9746, 8755, 4813, - 11467, 1649, 10538],
   [8192, - 6264, - 4812, 11467, - 7587, - 3264, 11116, - 8756],
   [8192, - 8756, 1649, 6263, - 11116, 10537, - 4812, - 3264],
   [8192, - 10538, 7587, - 3264, - 1649, 6263, - 9746, 11467],
   [8192, - 11468, 11116, - 10538, 9746, - 8756, 7587, - 6264]]"

definition kernel_12 :: "int list list" where
  "kernel_12 =
  [[8192, 11487, 11190, 10703, 10033, 9192, 8192, 7053],
   [8192, 10703, 8192, 4433, 0, - 4433, - 8192, - 10703],
   [8192, 9192, 2998, - 4433, - 10033, - 11485, - 8192, - 1512],
   [8192, 7053, - 2998, - 10703, - 10033, - 1512, 8192, 11486],
   [8192, 4433, - 8192, - 10704, 0, 10704, 8192, - 4433],
   [8192, 1513, - 11190, - 4433, 10033, 7053, - 8192, - 9191],
   [8192, - 1513, - 11190, 4433, 10033, - 7053, - 8192, 9191],
   [8192, - 4433, - 8192, 10704, 0, - 10704, 8192, 4433],
   [8192, - 7053, - 2998, 10703, - 10033, 1512, 8192, - 11486],
   [8192, - 9192, 2998, 4433, - 10033, 11485, - 8192, 1512],
   [8192, - 10703, 8192, - 4433, 0, 4433, - 8192, 10703],
   [8192, - 11487, 11190, - 10703, 10033, - 9192, 8192, - 7053]]"

definition kernel_13 :: "int list list" where
  "kernel_13 =
  [[8192, 11499, 11249, 10832, 10258, 9534, 8672, 7682],
   [8192, 10832, 8672, 5384, 1397, - 2773, - 6581, - 9534],
   [8192, 9534, 4108, - 2773, - 8672, - 11502, - 10258, - 5384],
   [8192, 7682, - 1396, - 9534, - 11248, - 5384, 4108, 10832],
   [8192, 5384, - 6581, - 11500, - 4108, 7682, 11248, 2773],
   [8192, 2773, - 10258, - 7682, 6581, 10832, - 1397, - 11500],
   [8192, 0, - 11585, 0, 11585, 0, - 11585, 0],
   [8192, - 2773, - 10258, 7682, 6581, - 10832, - 1397, 11500],
   [8192, - 5384, - 6581, 11500, - 4108, - 7682, 11248, - 2773],
   [8192, - 7682, - 1396, 9534, - 11248, 5384, 4108, - 10832],
   [8192, - 9534, 4108, 2773, - 8672, 11502, - 10258, 5384],
   [8192, - 10832, 8672, - 5384, 1397, 2773, - 6581, 9534],
   [8192, - 11499, 11249, - 10832, 10258, - 9534, 8672, - 7682]]"

definition kernel_14 :: "int list list" where
  "kernel_14 =
  [[8192, 11513, 11295, 10935, 10438, 9810, 9058, 8192],
   [8192, 10935, 9058, 6164, 2578, - 1297, - 5026, - 8192],
   [8192, 9810, 5027, - 1297, - 7223, - 10934, - 11295, - 8192],
   [8192, 8192, 0, - 8192, - 11586, - 8192, 0, 8192],
   [8192, 6164, - 5027, - 11512, - 7223, 3826, 11295, 8192],
   [8192, 3826, - 9058, - 9809, 2578, 11512, 5026, - 8192],
   [8192, 1297, - 11295, - 3826, 10438, 6164, - 9058, - 8192],
   [8192, - 1297, - 11295, 3826, 10438, - 6164, - 9058, 8192],
   [8192, - 3826, - 9058, 9809, 2578, - 11512, 5026, 8192],
   [8192, - 6164, - 5027, 11512, - 7223, - 3826, 11295, - 8192],
   [8192, - 8192, 0, 8192, - 11586, 8192, 0, - 8192],
   [8192, - 9810, 5027, 1297, - 7223, 10934, - 11295, 8192],
   [8192, - 10935, 9058, - 6164, 2578, 1297, - 5026, 8192],
   [8192, - 11513, 11295, - 10935, 10438, - 9810, 9058, - 8192]]"

definition kernel_15 :: "int list list" where
  "kernel_15 =
  [[8192, 11522, 11332, 11018, 10584, 10033, 9373, 8609],
   [8192, 11019, 9372, 6810, 3580, 0, - 3580, - 6810],
   [8192, 10033, 5792, 0, - 5792, - 10033, - 11586, - 10033],
   [8192, 8609, 1211, - 6810, - 11332, - 10033, - 3580, 4712],
   [8192, 6810, - 3580, - 11018, - 9372, 0, 9373, 11018],
   [8192, 4712, - 7753, - 11018, - 1211, 10033, 9373, - 2409],
   [8192, 2409, - 10584, - 6810, 7753, 10033, - 3580, - 11522],
   [8192, 0, - 11584, 0, 11584, 0, - 11586, 0],
   [8192, - 2409, - 10584, 6810, 7753, - 10033, - 3580, 11522],
   [8192, - 4712, - 7753, 11018, - 1211, - 10033, 9373, 2409],
   [8192, - 6810, - 3580, 11018, - 9372, 0, 9373, - 11018],
   [8192, - 8609, 1211, 6810, - 11332, 10033, - 3580, - 4712],
   [8192, - 10033, 5792, 0, - 5792, 10033, - 11586, 10033],
   [8192, - 11019, 9372, - 6810, 3580, 0, - 3580, 6810],
   [8192, - 11522, 11332, - 11018, 10584, - 10033, 9373, - 8609]]"

definition kernel_16 :: "int list list" where
  "kernel_16 =
  [[8192, 11529, 11363, 11086, 10703, 10217, 9632, 8956],
   [8192, 11086, 9633, 7350, 4433, 1136, - 2260, - 5461],
   [8192, 10217, 6437, 1136, - 4433, - 8955, - 11363, - 11086],
   [8192, 8956, 2260, - 5461, - 10703, - 11086, - 6436, 1137],
   [8192, 7350, - 2260, - 10217, - 10703, - 3363, 6436, 11529],
   [8192, 5461, - 6437, - 11529, - 4433, 7349, 11363, 3363],
   [8192, 3363, - 9633, - 8955, 4433, 11529, 2260, - 10217],
   [8192, 1136, - 11363, - 3363, 10703, 5461, - 9632, - 7350],
   [8192, - 1136, - 11363, 3363, 10703, - 5461, - 9632, 7350],
   [8192, - 3363, - 9633, 8955, 4433, - 11529, 2260, 10217],
   [8192, - 5461, - 6437, 11529, - 4433, - 7349, 11363, - 3363],
   [8192, - 7350, - 2260, 10217, - 10703, 3363, 6436, - 11529],
   [8192, - 8956, 2260, 5461, - 10703, 11086, - 6436, - 1137],
   [8192, - 10217, 6437, - 1136, - 4433, 8955, - 11363, 11086],
   [8192, - 11086, 9633, - 7350, 4433, - 1136, - 2260, 5461],
   [8192, - 11529, 11363, - 11086, 10703, - 10217, 9632, - 8956]]"

section \<open>The matrices and the cosines\<close>

text \<open>
  \<open>dct_basis N k j\<close> is the value of basis function \<open>j\<close> of the \<open>N\<close>-point DCT at sample \<open>k\<close>;
  \<open>near_basis M N scale tol\<close> says that \<open>M\<close> holds the first \<open>min 8 N\<close> of them, times \<open>scale\<close>.
\<close>

definition dct_basis :: "nat \<Rightarrow> nat \<Rightarrow> nat \<Rightarrow> real" where
  "dct_basis N k j = (if j = 0 then 1 else sqrt 2 * cos (real ((2 * k + 1) * j) * pi / (2 * real N)))"

definition near_basis :: "int list list \<Rightarrow> nat \<Rightarrow> real \<Rightarrow> real \<Rightarrow> bool" where
  "near_basis M N scale tol \<longleftrightarrow> length M = N \<and>
     (\<forall>k<N. length (M ! k) = min 8 N \<and>
        (\<forall>j<min 8 N. \<bar>real_of_int (M ! k ! j) - scale * dct_basis N k j\<bar> \<le> tol))"

text \<open>The check, with 1482910 for the square root of 2 in units of \<open>2 ^ - 20\<close>.\<close>

definition entry_ok :: "nat \<Rightarrow> nat \<Rightarrow> nat \<Rightarrow> int \<Rightarrow> bool" where
  "entry_ok N k j c \<longleftrightarrow> \<bar>c\<bar> \<le> 11600 \<and>
     (if j = 0 then c = 8192
      else \<bar>134217728 * c - 1482910 * cos_fixed N ((2 * int k + 1) * int j)\<bar> \<le> 262000000)"

definition kernel_ok :: "nat \<Rightarrow> int list list \<Rightarrow> bool" where
  "kernel_ok N M \<longleftrightarrow> N \<in> set sizes \<and> list_all2 (\<lambda>k. list_all2 (entry_ok N k) [0..<min 8 N]) [0..<N] M"

lemma kernel_okD:
  assumes "kernel_ok N M"
  shows "N \<in> set sizes" "length M = N" "k < N \<Longrightarrow> length (M ! k) = min 8 N"
    "k < N \<Longrightarrow> j < min 8 N \<Longrightarrow> entry_ok N k j (M ! k ! j)"
proof -
  have all: "list_all2 (\<lambda>k. list_all2 (entry_ok N k) [0..<min 8 N]) [0..<N] M" and N: "N \<in> set sizes"
    using assms by (simp_all only: kernel_ok_def)
  show "N \<in> set sizes" by (rule N)
  show "length M = N" using list_all2_lengthD [OF all] by simp
  assume k: "k < N"
  then have row: "list_all2 (entry_ok N k) [0..<min 8 N] (M ! k)"
    using list_all2_nthD [OF all, of k] by simp
  show "length (M ! k) = min 8 N" using list_all2_lengthD [OF row] by simp
  assume "j < min 8 N"
  then show "entry_ok N k j (M ! k ! j)" using list_all2_nthD [OF row, of j] by simp
qed

lemma sqrt_2_near: "\<bar>1048576 * sqrt 2 - 1482910\<bar> \<le> 1"
proof -
  have "1482909 / 1048576 \<le> sqrt 2" by (rule real_le_rsqrt) (simp add: power2_eq_square)
  moreover have "sqrt 2 \<le> 1482911 / 1048576" by (rule real_le_lsqrt) (simp_all add: power2_eq_square)
  ultimately show ?thesis by linarith
qed

lemma dct_basis_bound: "\<bar>dct_basis N k j\<bar> \<le> 1.4143"
proof -
  have s: "sqrt 2 \<le> 1.4143" "0 \<le> sqrt 2" using sqrt_2_near by (simp_all add: abs_le_iff)
  have "\<bar>sqrt 2 * cos x\<bar> \<le> sqrt 2" for x
    using mult_left_mono [OF abs_cos_le_one s(2), of x] by (simp add: abs_mult)
  then have "\<bar>sqrt 2 * cos x\<bar> \<le> 1.4143" for x using s(1) order_trans by blast
  then show ?thesis by (simp add: dct_basis_def)
qed

lemma kernel_near:
  assumes "kernel_ok N M"
  shows "near_basis M N 8192 2"
proof -
  note N = kernel_okD(1,2) [OF assms] and row = kernel_okD(3) [OF assms]
  have "\<bar>real_of_int (M ! k ! j) - 8192 * dct_basis N k j\<bar> \<le> 2" if k: "k < N" and j: "j < min 8 N" for k j
  proof -
    let ?c = "M ! k ! j" and ?m = "(2 * int k + 1) * int j"
    have e: "if j = 0 then ?c = 8192 else \<bar>134217728 * ?c - 1482910 * cos_fixed N ?m\<bar> \<le> 262000000"
      using kernel_okD(4) [OF assms k j] unfolding entry_ok_def by (rule conjunct2)
    show ?thesis
    proof (cases "j = 0")
      case False
      have m: "real_of_int ?m = real ((2 * k + 1) * j)" by (simp add: distrib_right)
      let ?x = "cos (real ((2 * k + 1) * j) * pi / (2 * real N))"
      from e False have "\<bar>134217728 * ?c - 1482910 * cos_fixed N ?m\<bar> \<le> 262000000" by simp
      then have a: "\<bar>134217728 * real_of_int ?c - 1482910 * real_of_int (cos_fixed N ?m)\<bar> \<le> 262000000"
        by (simp flip: of_int_le_iff [where 'a = real])
      have b: "\<bar>1048576 * ?x - real_of_int (cos_fixed N ?m)\<bar> \<le> 2"
        using cos_fixed_near [OF N(1), of ?m] unfolding m .
      have "\<bar>(1048576 * sqrt 2 - 1482910) * ?x\<bar> \<le> 1 * 1"
        unfolding abs_mult by (intro mult_mono sqrt_2_near) simp_all
      then have c: "\<bar>1048576 * (sqrt 2 * ?x) - 1482910 * ?x\<bar> \<le> 1" by (simp add: algebra_simps)
      have "\<bar>real_of_int ?c - 8192 * (sqrt 2 * ?x)\<bar> \<le> 2" using a b c by linarith
      then show ?thesis using False by (simp add: dct_basis_def)
    qed (use e in \<open>simp add: dct_basis_def\<close>)
  qed
  then show ?thesis using N(2) row by (simp add: near_basis_def)
qed

lemma kernel_entries:
  assumes "kernel_ok N M"
  shows "length M = N" "\<forall>cs\<in>set M. length cs = min 8 N \<and> (\<forall>c\<in>set cs. \<bar>c\<bar> \<le> 11600)"
  using kernel_okD [OF assms] by (simp, metis entry_ok_def in_set_conv_nth)

lemma kernel_3_ok: "kernel_ok 3 kernel_3" by code_simp
lemma kernel_4_ok: "kernel_ok 4 kernel_4" by code_simp
lemma kernel_5_ok: "kernel_ok 5 kernel_5" by code_simp
lemma kernel_6_ok: "kernel_ok 6 kernel_6" by code_simp
lemma kernel_7_ok: "kernel_ok 7 kernel_7" by code_simp
lemma kernel_8_ok: "kernel_ok 8 kernel_8" by code_simp
lemma kernel_9_ok: "kernel_ok 9 kernel_9" by code_simp
lemma kernel_10_ok: "kernel_ok 10 kernel_10" by code_simp
lemma kernel_11_ok: "kernel_ok 11 kernel_11" by code_simp
lemma kernel_12_ok: "kernel_ok 12 kernel_12" by code_simp
lemma kernel_13_ok: "kernel_ok 13 kernel_13" by code_simp
lemma kernel_14_ok: "kernel_ok 14 kernel_14" by code_simp
lemma kernel_15_ok: "kernel_ok 15 kernel_15" by code_simp
lemma kernel_16_ok: "kernel_ok 16 kernel_16" by code_simp

text \<open>\<open>dequantized (inp, quant)\<close> is what pass 1 makes its sums of.\<close>

definition dequantized :: "(nat \<Rightarrow> int) \<times> (nat \<Rightarrow> int) \<Rightarrow> nat \<Rightarrow> int" where
  "dequantized = (\<lambda>(inp, quant) j. DEQUANTIZE (inp j) (quant j))"

lemma kernel_fits: "kernel_ok N M \<Longrightarrow> fits M (min 8 N) 160000"
  unfolding fits_def using kernel_entries [of N M] by (intro exI [of _ 11600]) simp

lemmas kernel_3_fits = kernel_fits [OF kernel_3_ok, simplified]
lemmas kernel_4_fits = kernel_fits [OF kernel_4_ok, simplified]
lemmas kernel_5_fits = kernel_fits [OF kernel_5_ok, simplified]
lemmas kernel_6_fits = kernel_fits [OF kernel_6_ok, simplified]
lemmas kernel_7_fits = kernel_fits [OF kernel_7_ok, simplified]
lemmas kernel_8_fits = kernel_fits [OF kernel_8_ok, simplified]
lemmas kernel_9_fits = kernel_fits [OF kernel_9_ok, simplified]
lemmas kernel_10_fits = kernel_fits [OF kernel_10_ok, simplified]
lemmas kernel_11_fits = kernel_fits [OF kernel_11_ok, simplified]
lemmas kernel_12_fits = kernel_fits [OF kernel_12_ok, simplified]
lemmas kernel_13_fits = kernel_fits [OF kernel_13_ok, simplified]
lemmas kernel_14_fits = kernel_fits [OF kernel_14_ok, simplified]
lemmas kernel_15_fits = kernel_fits [OF kernel_15_ok, simplified]
lemmas kernel_16_fits = kernel_fits [OF kernel_16_ok, simplified]

lemma kernel_2_fits: "limit \<le> 2000000000 \<Longrightarrow> fits kernel_2 2 limit"
  unfolding fits_def by (intro exI [of _ 1]) (simp add: kernel_2_def)

lemma kernel_2_near: "near_basis kernel_2 2 1 0"
proof -
  have "cos (pi * 3 / 4) = - (sqrt 2 / 2)"
    using cos_pi_minus [of "pi / 4"] by (simp add: cos_45 mult.commute)
  then show ?thesis
    by (simp add: near_basis_def kernel_2_def dct_basis_def less_Suc_eq numeral_2_eq_2 cos_45 mult.commute)
qed

section \<open>Passes that shift only a part of the sum\<close>

definition parts_4 :: "(int list \<times> int list \<times> int) list" where
  "parts_4 =
    [([4, 0, 4, 0], [0, 10703, 0, 4433], 1),
     ([4, 0, - 4, 0], [0, 4433, 0, - 10704], 1),
     ([4, 0, - 4, 0], [0, 4433, 0, - 10704], - 1),
     ([4, 0, 4, 0], [0, 10703, 0, 4433], - 1)]"

lemma parts_4_ok: "kernel_4 = map split_row parts_4" "list_all (split_fits 4) parts_4"
  by (simp_all add: parts_4_def kernel_4_def split_row_def split_fits_def)

definition parts_6 :: "(int list \<times> int list \<times> int) list" where
  "parts_6 =
    [([0, 0, 0, 0, 0, 0], [8192, 11190, 10033, 8192, 5793, 2998], 1),
     ([0, 4, 0, - 4, 0, - 4], [8192, 0, 0, 0, - 11586, 0], 1),
     ([0, 0, 0, 0, 0, 0], [8192, 2998, - 10033, - 8192, 5793, 11190], 1),
     ([0, 0, 0, 0, 0, 0], [8192, - 2998, - 10033, 8192, 5793, - 11190], 1),
     ([0, - 4, 0, 4, 0, 4], [8192, 0, 0, 0, - 11586, 0], 1),
     ([0, 0, 0, 0, 0, 0], [8192, - 11190, 10033, - 8192, 5793, - 2998], 1)]"

lemma parts_6_ok: "kernel_6 = map split_row parts_6" "list_all (split_fits 6) parts_6"
  by (simp_all add: parts_6_def kernel_6_def split_row_def split_fits_def)

definition parts_10 :: "(int list \<times> int list \<times> int) list" where
  "parts_10 =
    [([0, 0, 0, 0, 0, 0, 0, 0], [8192, 11443, 11019, 10322, 9373, 8192, 6810, 5260], 1),
     ([0, 0, 0, 0, 0, 0, 0, 0], [8192, 10323, 6810, 1812, - 3580, - 8192, - 11018, - 11442], 1),
     ([0, 4, 0, - 4, 0, - 4, 0, 4], [8192, 0, 0, 0, - 11586, 0, 0, 0], 1),
     ([0, 0, 0, 0, 0, 0, 0, 0], [8192, 5260, - 6810, - 11442, - 3580, 8192, 11018, 1812], 1),
     ([0, 0, 0, 0, 0, 0, 0, 0], [8192, 1812, - 11019, - 5260, 9373, 8192, - 6810, - 10322], 1),
     ([0, 0, 0, 0, 0, 0, 0, 0], [8192, - 1812, - 11019, 5260, 9373, - 8192, - 6810, 10322], 1),
     ([0, 0, 0, 0, 0, 0, 0, 0], [8192, - 5260, - 6810, 11442, - 3580, - 8192, 11018, - 1812], 1),
     ([0, - 4, 0, 4, 0, 4, 0, - 4], [8192, 0, 0, 0, - 11586, 0, 0, 0], 1),
     ([0, 0, 0, 0, 0, 0, 0, 0], [8192, - 10323, 6810, - 1812, - 3580, 8192, - 11018, 11442], 1),
     ([0, 0, 0, 0, 0, 0, 0, 0], [8192, - 11443, 11019, - 10322, 9373, - 8192, 6810, - 5260], 1)]"

lemma parts_10_ok: "kernel_10 = map split_row parts_10" "list_all (split_fits 8) parts_10"
  by (simp_all add: parts_10_def kernel_10_def split_row_def split_fits_def)

definition parts_14 :: "(int list \<times> int list \<times> int) list" where
  "parts_14 =
    [([0, 0, 0, 0, 0, 0, 0, 0], [8192, 11513, 11295, 10935, 10438, 9810, 9058, 8192], 1),
     ([0, 0, 0, 0, 0, 0, 0, 0], [8192, 10935, 9058, 6164, 2578, - 1297, - 5026, - 8192], 1),
     ([0, 0, 0, 0, 0, 0, 0, 0], [8192, 9810, 5027, - 1297, - 7223, - 10934, - 11295, - 8192], 1),
     ([0, 4, 0, - 4, 0, - 4, 0, 4], [8192, 0, 0, 0, - 11586, 0, 0, 0], 1),
     ([0, 0, 0, 0, 0, 0, 0, 0], [8192, 6164, - 5027, - 11512, - 7223, 3826, 11295, 8192], 1),
     ([0, 0, 0, 0, 0, 0, 0, 0], [8192, 3826, - 9058, - 9809, 2578, 11512, 5026, - 8192], 1),
     ([0, 0, 0, 0, 0, 0, 0, 0], [8192, 1297, - 11295, - 3826, 10438, 6164, - 9058, - 8192], 1),
     ([0, 0, 0, 0, 0, 0, 0, 0], [8192, - 1297, - 11295, 3826, 10438, - 6164, - 9058, 8192], 1),
     ([0, 0, 0, 0, 0, 0, 0, 0], [8192, - 3826, - 9058, 9809, 2578, - 11512, 5026, 8192], 1),
     ([0, 0, 0, 0, 0, 0, 0, 0], [8192, - 6164, - 5027, 11512, - 7223, - 3826, 11295, - 8192], 1),
     ([0, - 4, 0, 4, 0, 4, 0, - 4], [8192, 0, 0, 0, - 11586, 0, 0, 0], 1),
     ([0, 0, 0, 0, 0, 0, 0, 0], [8192, - 9810, 5027, 1297, - 7223, 10934, - 11295, 8192], 1),
     ([0, 0, 0, 0, 0, 0, 0, 0], [8192, - 10935, 9058, - 6164, 2578, 1297, - 5026, 8192], 1),
     ([0, 0, 0, 0, 0, 0, 0, 0], [8192, - 11513, 11295, - 10935, 10438, - 9810, 9058, - 8192], 1)]"

lemma parts_14_ok: "kernel_14 = map split_row parts_14" "list_all (split_fits 8) parts_14"
  by (simp_all add: parts_14_def kernel_14_def split_row_def split_fits_def)

end
