(* ===== verification/IdctAccuracy.thy ===== *)
theory IdctAccuracy
  imports DctKernels
begin

text \<open>
  The two passes of an inverse DCT against the exact transform.
\<close>

section \<open>The exact transform\<close>

text \<open>The coefficient in row \<open>u\<close> and column \<open>v\<close> of a block, dequantised.\<close>

definition dequantized_at :: "int list \<Rightarrow> int list \<Rightarrow> nat \<Rightarrow> nat \<Rightarrow> int" where
  "dequantized_at dct_table coef_block u v =
     DEQUANTIZE (coef_block ! (DCTSIZE * u + v)) (dct_table ! (DCTSIZE * u + v))"

text \<open>Sample \<open>c\<close> of row \<open>r\<close> of a block of \<open>H\<close> rows and \<open>W\<close> columns, before the level shift.\<close>

definition idct_exact :: "nat \<Rightarrow> nat \<Rightarrow> (nat \<Rightarrow> nat \<Rightarrow> int) \<Rightarrow> nat \<Rightarrow> nat \<Rightarrow> real" where
  "idct_exact H W a r c =
     (\<Sum>v<min 8 W. dct_basis W c v * (\<Sum>u<min 8 H. dct_basis H r u * real_of_int (a u v))) / 8"

definition weight :: "(nat \<Rightarrow> nat \<Rightarrow> int) \<Rightarrow> int" where
  "weight a = (\<Sum>v<8. \<Sum>u<8. \<bar>a u v\<bar>)"

lemma near_dot:
  assumes M: "near_basis M N s t" and k: "k < N"
  shows "\<bar>real_of_int (dot 0 (M ! k) x) - s * (\<Sum>j<min 8 N. dct_basis N k j * real_of_int (x j))\<bar>
    \<le> t * real_of_int (\<Sum>j<min 8 N. \<bar>x j\<bar>)"
proof -
  have len: "length (M ! k) = min 8 N"
    and e: "\<And>j. j < min 8 N \<Longrightarrow> \<bar>real_of_int (M ! k ! j) - s * dct_basis N k j\<bar> \<le> t"
    using M k unfolding near_basis_def by blast+
  have "\<bar>\<Sum>j<min 8 N. (real_of_int (M ! k ! j) - s * dct_basis N k j) * real_of_int (x j)\<bar>
      \<le> (\<Sum>j<min 8 N. t * \<bar>real_of_int (x j)\<bar>)"
    by (intro order_trans [OF sum_abs] sum_mono) (simp add: abs_mult mult_right_mono e)
  then show ?thesis
    by (simp add: dot_sum len sum_distrib_left sum_subtractf left_diff_distrib mult.assoc)
qed

context dct_pass
begin

lemma near_values:
  assumes M: "near_basis M N s t" and points: "points = min 8 N" and k: "k < N"
    and lim: "(\<Sum>j<points. \<bar>arg a j\<bar>) \<le> limit"
  shows "\<bar>real_of_int (f a ! k) - s / 2 ^ n * (\<Sum>j<min 8 N. dct_basis N k j * real_of_int (arg a j))\<bar>
    \<le> (if n = 0 then 0 else 1 / 2) + t / 2 ^ n * real_of_int (\<Sum>j<min 8 N. \<bar>arg a j\<bar>)"
proof -
  define p :: real where "p = 2 ^ n"
  define h :: real where "h = (if n = 0 then 0 else 1 / 2)"
  define D where "D = dot 0 (M ! k) (arg a)"
  define F where "F = f a ! k"
  define E where "E = (\<Sum>j<min 8 N. dct_basis N k j * real_of_int (arg a j))"
  define B where "B = real_of_int (\<Sum>j<min 8 N. \<bar>arg a j\<bar>)"
  have p: "0 < p" by (simp add: p_def)
  have "\<bar>2 ^ n * F - D\<bar> \<le> 2 ^ n div 2"
    unfolding F_def D_def using rounds [of k a] lim k M by (simp add: near_basis_def)
  then have "real_of_int \<bar>2 ^ n * F - D\<bar> \<le> real_of_int (2 ^ n div 2)" by (simp only: of_int_le_iff)
  moreover have "real_of_int (2 ^ n div 2) = p * h" by (cases n) (simp_all add: p_def h_def)
  ultimately have "\<bar>p * real_of_int F - real_of_int D\<bar> \<le> p * h" by (simp add: p_def)
  moreover have "\<bar>real_of_int D - s * E\<bar> \<le> t * B" unfolding D_def E_def B_def by (rule near_dot [OF M k])
  ultimately have "\<bar>p * real_of_int F - s * E\<bar> \<le> p * h + t * B" by linarith
  then have "\<bar>p * (real_of_int F - s / p * E)\<bar> \<le> p * (h + t / p * B)" using p by (simp add: right_diff_distrib distrib_left)
  then show ?thesis using p unfolding abs_mult F_def [symmetric] p_def [symmetric] h_def [symmetric] E_def [symmetric] B_def [symmetric]
    by simp
qed

end

section \<open>Both passes\<close>

text \<open>
  What the scales \<open>k1\<close>, \<open>k2\<close> of the two passes, the errors \<open>e1\<close>, \<open>e2\<close> of their factors and the
  rounding error \<open>h\<close> of pass 1 have to satisfy.
\<close>

definition budget :: "real \<Rightarrow> real \<Rightarrow> real \<Rightarrow> real \<Rightarrow> real \<Rightarrow> int \<Rightarrow> bool" where
  "budget k1 e1 h k2 e2 limit \<longleftrightarrow> 0 \<le> k1 \<and> 0 \<le> e1 \<and> 0 \<le> h \<and> 0 \<le> k2 \<and> 0 \<le> e2 \<and> k1 * k2 = 1 / 8 \<and>
     (e2 + 1.4143 * k2) * (8 * h) \<le> 1 / 5 \<and>
     e2 * (e1 + 1.4143 * k1) + 1.4143 * k2 * e1 \<le> 1 / 10000 \<and>
     8 * h + (e1 + 1.4143 * k1) * 16000 \<le> real_of_int limit"

lemma basis_sum_bound: "\<bar>\<Sum>j<m. dct_basis N k j * x j\<bar> \<le> 1.4143 * (\<Sum>j<m. \<bar>x j\<bar>)"
proof -
  have "\<bar>\<Sum>j<m. dct_basis N k j * x j\<bar> \<le> (\<Sum>j<m. 1.4143 * \<bar>x j\<bar>)"
    by (intro order_trans [OF sum_abs] sum_mono) (simp only: abs_mult mult_right_mono [OF dct_basis_bound] abs_ge_zero)
  then show ?thesis by (simp only: sum_distrib_left)
qed

text \<open>The errors of both passes: \<open>w\<close> is what pass 1 makes of the columns, \<open>E\<close> the exact sums.\<close>

lemma workspace_size:
  assumes b: "budget k1 e1 h k2 e2 limit" and p: "p \<le> (8 :: nat)"
    and w: "\<And>v. v < p \<Longrightarrow> \<bar>w v - k1 * E v\<bar> \<le> h + e1 * B v"
    and E: "\<And>v. \<bar>E v\<bar> \<le> 1.4143 * B v" and B: "(\<Sum>v<p. B v) \<le> A"
  shows "(\<Sum>v<p. \<bar>w v\<bar>) \<le> 8 * h + (e1 + 1.4143 * k1) * A"
proof -
  have k: "0 \<le> k1" "0 \<le> e1" "0 \<le> h" using b unfolding budget_def by blast+
  have "\<bar>w v\<bar> \<le> h + (e1 + 1.4143 * k1) * B v" if "v < p" for v
  proof -
    have "\<bar>k1 * E v\<bar> \<le> k1 * (1.4143 * B v)" using mult_left_mono [OF E k(1)] k(1) by (simp add: abs_mult)
    then show ?thesis using w [OF that] by (simp add: distrib_right)
  qed
  then have "(\<Sum>v<p. \<bar>w v\<bar>) \<le> (\<Sum>v<p. h + (e1 + 1.4143 * k1) * B v)" by (intro sum_mono) simp
  also have "\<dots> = real p * h + (e1 + 1.4143 * k1) * (\<Sum>v<p. B v)" by (simp add: sum.distrib sum_distrib_left)
  also have "\<dots> \<le> 8 * h + (e1 + 1.4143 * k1) * A"
    using k B p by (intro add_mono mult_right_mono mult_left_mono) simp_all
  finally show ?thesis .
qed

lemma two_passes:
  assumes b: "budget k1 e1 h k2 e2 limit" and p: "p \<le> (8 :: nat)"
    and w: "\<And>v. v < p \<Longrightarrow> \<bar>w v - k1 * E v\<bar> \<le> h + e1 * B v"
    and E: "\<And>v. \<bar>E v\<bar> \<le> 1.4143 * B v" and B: "(\<Sum>v<p. B v) \<le> A" and A: "0 \<le> A"
    and val: "\<bar>y - k2 * (\<Sum>v<p. dct_basis W c v * w v)\<bar> \<le> 1 / 2 + e2 * (\<Sum>v<p. \<bar>w v\<bar>)"
  shows "\<bar>y - (\<Sum>v<p. dct_basis W c v * E v) / 8\<bar> \<le> 7 / 10 + A / 10000"
proof -
  have k: "0 \<le> k1" "0 \<le> e1" "0 \<le> h" "0 \<le> k2" "0 \<le> e2" "k1 * k2 = 1 / 8" "(e2 + 1.4143 * k2) * (8 * h) \<le> 1 / 5"
      "e2 * (e1 + 1.4143 * k1) + 1.4143 * k2 * e1 \<le> 1 / 10000"
    using b unfolding budget_def by blast+
  have "\<bar>\<Sum>v<p. dct_basis W c v * (w v - k1 * E v)\<bar> \<le> 1.4143 * (\<Sum>v<p. \<bar>w v - k1 * E v\<bar>)"
    by (rule basis_sum_bound)
  also have "\<dots> \<le> 1.4143 * (\<Sum>v<p. h + e1 * B v)" by (intro mult_left_mono sum_mono) (use w in simp_all)
  also have "\<dots> = 1.4143 * (real p * h + e1 * (\<Sum>v<p. B v))" by (simp add: sum.distrib sum_distrib_left)
  also have "\<dots> \<le> 1.4143 * (8 * h + e1 * A)" using k B p by (intro mult_left_mono add_mono mult_right_mono) simp_all
  finally have "\<bar>k2 * (\<Sum>v<p. dct_basis W c v * (w v - k1 * E v))\<bar> \<le> k2 * (1.4143 * (8 * h + e1 * A))"
    using k(4) mult_left_mono by (fastforce simp: abs_mult)
  moreover have "k2 * (\<Sum>v<p. dct_basis W c v * (w v - k1 * E v)) =
      k2 * (\<Sum>v<p. dct_basis W c v * w v) - k1 * k2 * (\<Sum>v<p. dct_basis W c v * E v)"
    by (simp add: right_diff_distrib sum_subtractf sum_distrib_left mult.left_commute mult.assoc)
  ultimately have T: "\<bar>k2 * (\<Sum>v<p. dct_basis W c v * w v) - (\<Sum>v<p. dct_basis W c v * E v) / 8\<bar>
      \<le> k2 * (1.4143 * (8 * h + e1 * A))"
    by (simp add: k(6))
  have "e2 * (\<Sum>v<p. \<bar>w v\<bar>) \<le> e2 * (8 * h + (e1 + 1.4143 * k1) * A)"
    using workspace_size [OF b p w E B] k(5) by (rule mult_left_mono)
  then have "e2 * (\<Sum>v<p. \<bar>w v\<bar>) + k2 * (1.4143 * (8 * h + e1 * A)) \<le>
      (e2 + 1.4143 * k2) * (8 * h) + (e2 * (e1 + 1.4143 * k1) + 1.4143 * k2 * e1) * A"
    by (simp add: algebra_simps add_divide_distrib)
  also have "\<dots> \<le> 1 / 5 + 1 / 10000 * A" using k(7,8) A(1) by (intro add_mono mult_right_mono)
  finally show ?thesis using val T by linarith
qed

section \<open>The block in the output\<close>

text \<open>
  \<open>decoded H W dct_table coef_block output_buf output_col out\<close>: \<open>out\<close> is \<open>output_buf\<close> with a block of
  \<open>H\<close> rows and \<open>W\<close> columns replaced, whose samples are those of the exact transform, level-shifted
  and limited to the range of a sample, up to the stated error.  The code indexes its table of
  limits by \<open>x & 1023\<close>, so an exact value is taken modulo 1024: \<open>k\<close> is 0 for one in -509..509, and
  any other within 509 of a multiple of 1024 is decoded as its distance from that multiple.
\<close>

definition limited :: "real \<Rightarrow> real" where "limited x = max 0 (min 255 x)"

definition decoded ::
  "nat \<Rightarrow> nat \<Rightarrow> int list \<Rightarrow> int list \<Rightarrow> samparray \<Rightarrow> nat \<Rightarrow> samparray \<Rightarrow> bool" where
  "decoded H W dct_table coef_block output_buf output_col out \<longleftrightarrow>
     row_shape out = row_shape output_buf \<and>
     (\<forall>r i. r < H \<and> output_col \<le> i \<and> i < output_col + W \<or> row_cell out (r, i) = row_cell output_buf (r, i)) \<and>
     (let a = dequantized_at dct_table coef_block in
      \<forall>r<H. \<forall>c<W. \<forall>k :: int. \<bar>idct_exact H W a r c - 1024 * real_of_int k\<bar> \<le> 509 \<longrightarrow>
        \<bar>real_of_int (uint (row_cell out (r, output_col + c))) - limited (idct_exact H W a r c - 1024 * real_of_int k + 128)\<bar>
          \<le> 7 / 10 + real_of_int (weight a) / 10000)"

lemma limited_clamp: "\<bar>real_of_int (clamp x) - limited y\<bar> \<le> \<bar>real_of_int x - y\<bar>"
  by (auto simp: limited_def clamp_def MAXJSAMPLE_def)

lemma idct_limit_wraps:
  assumes "-512 \<le> x - 1024 * k" "x - 1024 * k < 512"
  shows "idct_limit prepare_range_limit_table x = Some (word_of_int (clamp (x - 1024 * k + CENTERJSAMPLE)))"
proof -
  have "x AND RANGE_MASK = (x - 1024 * k) AND RANGE_MASK"
    unfolding AND_RANGE_MASK by (simp add: mod_diff_right_eq [of x "1024 * k" 1024, symmetric])
  then have "idct_limit prepare_range_limit_table x = idct_limit prepare_range_limit_table (x - 1024 * k)"
    by (simp add: idct_limit_def)
  then show ?thesis using idct_limit_clamps [OF assms] by simp
qed

lemma store_decoded:
  assumes fit: "rows_fit output_buf H (output_col + W)" and shape: "length vals = H" "\<And>r. r < H \<Longrightarrow> length (vals ! r) = W"
    and B: "weight (dequantized_at dct_table coef_block) \<le> 16000"
    and near: "\<And>r c. r < H \<Longrightarrow> c < W \<Longrightarrow>
      \<bar>real_of_int (vals ! r ! c) - idct_exact H W (dequantized_at dct_table coef_block) r c\<bar>
        \<le> 7 / 10 + real_of_int (weight (dequantized_at dct_table coef_block)) / 10000"
  shows "\<exists>out. idct_store prepare_range_limit_table vals output_buf output_col = Some out \<and>
    decoded H W dct_table coef_block output_buf output_col out"
proof -
  define a where "a = dequantized_at dct_table coef_block"
  obtain out where out: "idct_store prepare_range_limit_table vals output_buf output_col = Some out"
      and w: "rows.writes {(r, i). r < H \<and> output_col \<le> i \<and> i < output_col + W}
      (\<lambda>(r, i). the (idct_limit prepare_range_limit_table (vals ! r ! (i - output_col)))) output_buf out"
    using idct_store_result [OF fit shape] by blast
  have near_multiple: "\<bar>real_of_int (uint (row_cell out (r, output_col + c))) - limited (idct_exact H W a r c - 1024 * real_of_int k + 128)\<bar>
      \<le> 7 / 10 + real_of_int (weight a) / 10000"
    if r: "r < H" and c: "c < W" and small: "\<bar>idct_exact H W a r c - 1024 * real_of_int k\<bar> \<le> 509" for r c and k :: int
  proof -
    have A: "real_of_int (weight a) \<le> 16000" using B by (simp add: a_def)
    have n: "\<bar>real_of_int (vals ! r ! c) - idct_exact H W a r c\<bar> \<le> 7 / 10 + real_of_int (weight a) / 10000"
      using near [OF r c] by (simp add: a_def)
    then have "-512 \<le> vals ! r ! c - 1024 * k" "vals ! r ! c - 1024 * k < 512" using small A by linarith+
    then have "row_cell out (r, output_col + c) = word_of_int (clamp (vals ! r ! c - 1024 * k + CENTERJSAMPLE))"
      using rows.writes_in [OF w, of "(r, output_col + c)"] r c by (simp add: idct_limit_wraps)
    then have "uint (row_cell out (r, output_col + c)) = clamp (vals ! r ! c - 1024 * k + 128)"
      by (simp add: uint_clamp CENTERJSAMPLE_def)
    then show ?thesis
      using limited_clamp [of "vals ! r ! c - 1024 * k + 128" "idct_exact H W a r c - 1024 * real_of_int k + 128"] n by simp
  qed
  have outside: "row_cell out (r, i) = row_cell output_buf (r, i)"
    if "\<not> (r < H \<and> output_col \<le> i \<and> i < output_col + W)" for r i
    using rows.writes_out [OF w, of "(r, i)"] that by simp
  have "decoded H W dct_table coef_block output_buf output_col out"
    unfolding decoded_def a_def [symmetric] Let_def
  proof (intro conjI allI impI)
    show "row_shape out = row_shape output_buf" by (rule rows.writes_shape [OF w])
    show "r < H \<and> output_col \<le> i \<and> i < output_col + W \<or> row_cell out (r, i) = row_cell output_buf (r, i)" for r i
      using outside [of r i] by blast
    show "\<bar>real_of_int (uint (row_cell out (r, output_col + c))) - limited (idct_exact H W a r c - 1024 * real_of_int k + 128)\<bar>
        \<le> 7 / 10 + real_of_int (weight a) / 10000"
      if "r < H" "c < W" "\<bar>idct_exact H W a r c - 1024 * real_of_int k\<bar> \<le> 509" for r c and k :: int
      using that by (rule near_multiple)
  qed
  then show ?thesis using out by blast
qed

locale idct_pair =
  col: dct_pass "\<lambda>(inp, quant). col inp quant" dequantized M1 n1 "min 8 H" 160000 +
  row: dct_pass row "\<lambda>ws. ws" M2 n2 "min 8 W" limit
  for col :: "(nat \<Rightarrow> int) \<Rightarrow> (nat \<Rightarrow> int) \<Rightarrow> int list" and row :: "(nat \<Rightarrow> int) \<Rightarrow> int list"
    and M1 n1 H M2 n2 W limit +
  fixes s1 t1 s2 t2 :: real
  assumes near1: "near_basis M1 H s1 t1" and near2: "near_basis M2 W s2 t2"
    and budget: "budget (s1 / 2 ^ n1) (t1 / 2 ^ n1) (if n1 = 0 then 0 else 1 / 2) (s2 / 2 ^ n2) (t2 / 2 ^ n2) limit"
begin

lemma shape:
  "length (idct_passes nc H col row dct_table coef_block) = H"
  "r < H \<Longrightarrow> length (idct_passes nc H col row dct_table coef_block ! r) = W"
  using row.outputs near2 by (simp_all add: idct_passes_def Let_def near_basis_def)

lemma column_near:
  assumes v: "v < min 8 W" and r: "r < H"
    and small: "(\<Sum>u<min 8 H. \<bar>dequantized_at dct_table coef_block u v\<bar>) \<le> 160000"
  shows "\<bar>real_of_int (col (\<lambda>k. coef_block ! (DCTSIZE * k + v)) (\<lambda>k. dct_table ! (DCTSIZE * k + v)) ! r) -
      s1 / 2 ^ n1 * (\<Sum>u<min 8 H. dct_basis H r u * real_of_int (dequantized_at dct_table coef_block u v))\<bar>
    \<le> (if n1 = 0 then 0 else 1 / 2) + t1 / 2 ^ n1 * real_of_int (\<Sum>u<min 8 H. \<bar>dequantized_at dct_table coef_block u v\<bar>)"
  using col.near_values [OF near1 refl r, of "(\<lambda>k. coef_block ! (DCTSIZE * k + v), \<lambda>k. dct_table ! (DCTSIZE * k + v))"] small
  by (simp add: dequantized_def dequantized_at_def)

lemma accurate:
  assumes r: "r < H" and c: "c < W" and B: "weight (dequantized_at dct_table coef_block) \<le> 16000"
  shows "\<bar>real_of_int (idct_passes (min 8 W) H col row dct_table coef_block ! r ! c) -
      idct_exact H W (dequantized_at dct_table coef_block) r c\<bar>
    \<le> 7 / 10 + real_of_int (weight (dequantized_at dct_table coef_block)) / 10000"
proof -
  let ?col = "\<lambda>v. col (\<lambda>k. coef_block ! (DCTSIZE * k + v)) (\<lambda>k. dct_table ! (DCTSIZE * k + v))"
  define a where "a = dequantized_at dct_table coef_block"
  define A where "A = real_of_int (weight a)"
  define ws where "ws = (\<lambda>v. map ?col [0..<min 8 W] ! v ! r)"
  define Bv where "Bv v = (\<Sum>u<min 8 H. \<bar>a u v\<bar>)" for v
  define E where "E v = (\<Sum>u<min 8 H. dct_basis H r u * real_of_int (a u v))" for v
  have val: "idct_passes (min 8 W) H col row dct_table coef_block ! r ! c = row ws ! c"
    using r by (simp add: idct_passes_def ws_def Let_def)
  have "(\<Sum>v<min 8 W. Bv v) \<le> weight a"
    unfolding weight_def Bv_def
    by (rule order_trans [OF sum_mono sum_mono2], rule sum_mono2) (auto intro: sum_nonneg)
  then have BA: "(\<Sum>v<min 8 W. real_of_int (Bv v)) \<le> A" unfolding A_def by (simp flip: of_int_sum)
  have Bv0: "0 \<le> Bv v" for v by (simp add: Bv_def sum_nonneg)
  have "0 \<le> weight a" "weight a \<le> 16000" using B by (simp_all add: a_def weight_def sum_nonneg)
  then have A: "0 \<le> A" "A \<le> 16000" unfolding A_def by simp_all
  have BvA: "Bv v \<le> 160000" if "v < min 8 W" for v
    using member_le_sum [of v "{..<min 8 W}" "\<lambda>v. real_of_int (Bv v)"] Bv0 that BA A by fastforce
  have w: "\<bar>real_of_int (ws v) - s1 / 2 ^ n1 * E v\<bar> \<le> (if n1 = 0 then 0 else 1 / 2) + t1 / 2 ^ n1 * real_of_int (Bv v)"
    if v: "v < min 8 W" for v
    using column_near [OF v r, of dct_table coef_block] BvA [OF v] v by (simp add: ws_def E_def Bv_def a_def)
  have E: "\<bar>E v\<bar> \<le> 1.4143 * real_of_int (Bv v)" for v
    using basis_sum_bound [of H r "\<lambda>u. real_of_int (a u v)" "min 8 H"] unfolding E_def Bv_def by simp
  have "(\<Sum>v<min 8 W. \<bar>real_of_int (ws v)\<bar>) \<le> 8 * (if n1 = 0 then 0 else 1 / 2) + (t1 / 2 ^ n1 + 1.4143 * (s1 / 2 ^ n1)) * A"
    by (rule workspace_size [OF budget _ w E BA]) simp_all
  also have "\<dots> \<le> 8 * (if n1 = 0 then 0 else 1 / 2) + (t1 / 2 ^ n1 + 1.4143 * (s1 / 2 ^ n1)) * 16000"
    using A budget unfolding budget_def by (intro add_left_mono mult_left_mono) simp_all
  also have "\<dots> \<le> real_of_int limit" using budget unfolding budget_def by blast
  finally have "real_of_int (\<Sum>v<min 8 W. \<bar>ws v\<bar>) \<le> real_of_int limit" by simp
  then have "(\<Sum>v<min 8 W. \<bar>ws v\<bar>) \<le> limit" by (simp only: of_int_le_iff)
  from row.near_values [OF near2 refl c this]
  have "\<bar>real_of_int (row ws ! c) - s2 / 2 ^ n2 * (\<Sum>v<min 8 W. dct_basis W c v * real_of_int (ws v))\<bar>
      \<le> 1 / 2 + t2 / 2 ^ n2 * (\<Sum>v<min 8 W. \<bar>real_of_int (ws v)\<bar>)"
    by (simp split: if_splits)
  from two_passes [OF budget _ w E BA A(1) this] show ?thesis
    unfolding val idct_exact_def A_def E_def a_def by simp
qed

lemma decodes:
  assumes "rows_fit output_buf H (output_col + W)" "weight (dequantized_at dct_table coef_block) \<le> 16000"
  shows "\<exists>out. idct_store prepare_range_limit_table (idct_passes (min 8 W) H col row dct_table coef_block)
      output_buf output_col = Some out \<and> decoded H W dct_table coef_block output_buf output_col out"
  by (rule store_decoded [OF assms(1) shape(1) shape(2) assms(2) accurate [OF _ _ assms(2)]])

end

section \<open>The pairs of passes in use\<close>

lemma idct_kernels:
  assumes "dct_pass (\<lambda>(inp, quant). col inp quant) dequantized M1 11 p1 160000"
    and "dct_pass row (\<lambda>ws. ws) M2 18 p2 160000"
    and "kernel_ok H M1" "kernel_ok W M2" "p1 = min 8 H" "p2 = min 8 W"
  shows "idct_pair col row M1 11 H M2 18 W 160000 8192 2 8192 2"
  using assms by (intro idct_pair.intro idct_pair_axioms.intro kernel_near) (simp_all add: budget_def)

lemma idct_4_2:
  assumes "dct_pass (\<lambda>(inp, quant). col inp quant) dequantized kernel_2 0 2 160000"
    and "dct_pass row (\<lambda>ws. ws) kernel_4 16 4 160000"
  shows "idct_pair col row kernel_2 0 2 kernel_4 16 4 160000 1 0 8192 2"
  using assms by (intro idct_pair.intro idct_pair_axioms.intro kernel_near kernel_2_near kernel_4_ok) (simp_all add: budget_def)

lemma idct_2_4:
  assumes "dct_pass (\<lambda>(inp, quant). col inp quant) dequantized kernel_4 0 4 160000"
    and "dct_pass row (\<lambda>ws. ws) kernel_2 16 2 2000000000"
  shows "idct_pair col row kernel_4 0 4 kernel_2 16 2 2000000000 8192 2 1 0"
  using assms by (intro idct_pair.intro idct_pair_axioms.intro kernel_near kernel_2_near kernel_4_ok) (simp_all add: budget_def)

lemma basis_1: "dct_basis 1 0 0 = 1"
  by (simp add: dct_basis_def)

lemma basis_2: "dct_basis 2 0 0 = 1" "dct_basis 2 0 1 = 1" "dct_basis 2 1 0 = 1" "dct_basis 2 1 1 = - 1"
  using kernel_2_near by (simp_all add: near_basis_def kernel_2_def less_Suc_eq numeral_2_eq_2)

end
