(* ===== verification/IdctSmall.thy ===== *)
theory IdctSmall
  imports IdctAccuracy
begin

text \<open>
  The inverse DCT routines of \<open>jpeg-9a/jidctint.c\<close> for the square blocks of 3 to 8 samples a side (and the routines of 2x2, 2x1, 1x2 and 1x1 samples).
  \<open>idct_NxM_col\<close> is the body of pass 1 of \<open>jpeg_idct_NxM\<close>, for the column with the coefficients \<open>inp\<close>
  and the multipliers \<open>quant\<close>, and \<open>idct_NxM_row\<close> the body of pass 2, for the row \<open>ws\<close> of the work
  array.  Each pass is shown to be a rounded product with the matrix of its number of points.
\<close>

section \<open>8x8 samples\<close>

definition idct_islow_col :: "(nat \<Rightarrow> int) \<Rightarrow> (nat \<Rightarrow> int) \<Rightarrow> int list" where
  "idct_islow_col inp quant =
    (if inp 1 = 0 \<and> inp 2 = 0 \<and> inp 3 = 0 \<and> inp 4 = 0 \<and> inp 5 = 0 \<and> inp 6 = 0 \<and> inp 7 = 0
     then let dcval = s32 (DEQUANTIZE (inp 0) (quant 0) * 2 ^ PASS1_BITS) in [dcval, dcval, dcval, dcval, dcval, dcval, dcval, dcval]
     else
    (let z2 = DEQUANTIZE (inp 2) (quant 2);
         z3 = DEQUANTIZE (inp 6) (quant 6);
         z1 = (z2 + z3) * FIX_0_541196100;
         tmp2 = z1 + z2 * FIX_0_765366865;
         tmp3 = z1 - z3 * FIX_1_847759065;
         z2 = DEQUANTIZE (inp 0) (quant 0);
         z3 = DEQUANTIZE (inp 4) (quant 4);
         z2 = z2 * 2 ^ CONST_BITS;
         z3 = z3 * 2 ^ CONST_BITS;
         z2 = z2 + 1 * 2 ^ (CONST_BITS - PASS1_BITS - 1);
         tmp0 = z2 + z3;
         tmp1 = z2 - z3;
         tmp10 = tmp0 + tmp2;
         tmp13 = tmp0 - tmp2;
         tmp11 = tmp1 + tmp3;
         tmp12 = tmp1 - tmp3;
         tmp0 = DEQUANTIZE (inp 7) (quant 7);
         tmp1 = DEQUANTIZE (inp 5) (quant 5);
         tmp2 = DEQUANTIZE (inp 3) (quant 3);
         tmp3 = DEQUANTIZE (inp 1) (quant 1);
         z2 = tmp0 + tmp2;
         z3 = tmp1 + tmp3;
         z1 = (z2 + z3) * FIX_1_175875602;
         z2 = z2 * (- FIX_1_961570560);
         z3 = z3 * (- FIX_0_390180644);
         z2 = z2 + z1;
         z3 = z3 + z1;
         z1 = (tmp0 + tmp3) * (- FIX_0_899976223);
         tmp0 = tmp0 * FIX_0_298631336;
         tmp3 = tmp3 * FIX_1_501321110;
         tmp0 = tmp0 + (z1 + z2);
         tmp3 = tmp3 + (z1 + z3);
         z1 = (tmp1 + tmp2) * (- FIX_2_562915447);
         tmp1 = tmp1 * FIX_2_053119869;
         tmp2 = tmp2 * FIX_3_072711026;
         tmp1 = tmp1 + (z1 + z3);
         tmp2 = tmp2 + (z1 + z2);
         out0 = RIGHT_SHIFT (tmp10 + tmp3) (CONST_BITS - PASS1_BITS);
         out7 = RIGHT_SHIFT (tmp10 - tmp3) (CONST_BITS - PASS1_BITS);
         out1 = RIGHT_SHIFT (tmp11 + tmp2) (CONST_BITS - PASS1_BITS);
         out6 = RIGHT_SHIFT (tmp11 - tmp2) (CONST_BITS - PASS1_BITS);
         out2 = RIGHT_SHIFT (tmp12 + tmp1) (CONST_BITS - PASS1_BITS);
         out5 = RIGHT_SHIFT (tmp12 - tmp1) (CONST_BITS - PASS1_BITS);
         out3 = RIGHT_SHIFT (tmp13 + tmp0) (CONST_BITS - PASS1_BITS);
         out4 = RIGHT_SHIFT (tmp13 - tmp0) (CONST_BITS - PASS1_BITS)
     in [out0, out1, out2, out3, out4, out5, out6, out7]))"

definition idct_islow_row :: "(nat \<Rightarrow> int) \<Rightarrow> int list" where
  "idct_islow_row ws =
    (if ws 1 = 0 \<and> ws 2 = 0 \<and> ws 3 = 0 \<and> ws 4 = 0 \<and> ws 5 = 0 \<and> ws 6 = 0 \<and> ws 7 = 0
     then let dcval = DESCALE (ws 0) (PASS1_BITS + 3) in [dcval, dcval, dcval, dcval, dcval, dcval, dcval, dcval]
     else
    (let z2 = ws 2;
         z3 = ws 6;
         z1 = (z2 + z3) * FIX_0_541196100;
         tmp2 = z1 + z2 * FIX_0_765366865;
         tmp3 = z1 - z3 * FIX_1_847759065;
         z2 = ws 0 + 1 * 2 ^ (PASS1_BITS + 2);
         z3 = ws 4;
         tmp0 = (z2 + z3) * 2 ^ CONST_BITS;
         tmp1 = (z2 - z3) * 2 ^ CONST_BITS;
         tmp10 = tmp0 + tmp2;
         tmp13 = tmp0 - tmp2;
         tmp11 = tmp1 + tmp3;
         tmp12 = tmp1 - tmp3;
         tmp0 = ws 7;
         tmp1 = ws 5;
         tmp2 = ws 3;
         tmp3 = ws 1;
         z2 = tmp0 + tmp2;
         z3 = tmp1 + tmp3;
         z1 = (z2 + z3) * FIX_1_175875602;
         z2 = z2 * (- FIX_1_961570560);
         z3 = z3 * (- FIX_0_390180644);
         z2 = z2 + z1;
         z3 = z3 + z1;
         z1 = (tmp0 + tmp3) * (- FIX_0_899976223);
         tmp0 = tmp0 * FIX_0_298631336;
         tmp3 = tmp3 * FIX_1_501321110;
         tmp0 = tmp0 + (z1 + z2);
         tmp3 = tmp3 + (z1 + z3);
         z1 = (tmp1 + tmp2) * (- FIX_2_562915447);
         tmp1 = tmp1 * FIX_2_053119869;
         tmp2 = tmp2 * FIX_3_072711026;
         tmp1 = tmp1 + (z1 + z3);
         tmp2 = tmp2 + (z1 + z2);
         out0 = RIGHT_SHIFT (tmp10 + tmp3) (CONST_BITS + PASS1_BITS + 3);
         out7 = RIGHT_SHIFT (tmp10 - tmp3) (CONST_BITS + PASS1_BITS + 3);
         out1 = RIGHT_SHIFT (tmp11 + tmp2) (CONST_BITS + PASS1_BITS + 3);
         out6 = RIGHT_SHIFT (tmp11 - tmp2) (CONST_BITS + PASS1_BITS + 3);
         out2 = RIGHT_SHIFT (tmp12 + tmp1) (CONST_BITS + PASS1_BITS + 3);
         out5 = RIGHT_SHIFT (tmp12 - tmp1) (CONST_BITS + PASS1_BITS + 3);
         out3 = RIGHT_SHIFT (tmp13 + tmp0) (CONST_BITS + PASS1_BITS + 3);
         out4 = RIGHT_SHIFT (tmp13 - tmp0) (CONST_BITS + PASS1_BITS + 3)
     in [out0, out1, out2, out3, out4, out5, out6, out7]))"

definition jpeg_idct_islow :: "limit_table \<Rightarrow> int list \<Rightarrow> int list \<Rightarrow> samparray \<Rightarrow> nat \<Rightarrow> samparray option" where
  "jpeg_idct_islow range_limit dct_table coef_block output_buf output_col =
     idct_store range_limit (idct_passes 8 8 idct_islow_col idct_islow_row dct_table coef_block) output_buf output_col"

lemma idct_islow_col_kernel:
  assumes "\<not> (inp 1 = 0 \<and> inp 2 = 0 \<and> inp 3 = 0 \<and> inp 4 = 0 \<and> inp 5 = 0 \<and> inp 6 = 0 \<and> inp 7 = 0)"
  shows "idct_islow_col inp quant = map (\<lambda>cs. RIGHT_SHIFT (dot 0 cs (\<lambda>j. DEQUANTIZE (inp j) (quant j)) + 1024) 11) kernel_8"
  unfolding idct_islow_col_def if_not_P [OF assms] kernel_8_def list.map
  by (simp add: Let_def dct_consts DESCALE_def algebra_simps del: One_nat_def)

lemma idct_islow_col_pass: "dct_pass (\<lambda>(inp, quant). idct_islow_col inp quant) dequantized kernel_8 11 8 160000"
proof (rule shortcut_pass [OF shifted_pass [where n = 10, simplified, OF refl kernel_8_fits]])
  let ?z = "\<lambda>(inp, quant). (inp :: nat \<Rightarrow> int) 1 = 0 \<and> (inp :: nat \<Rightarrow> int) 2 = 0 \<and> (inp :: nat \<Rightarrow> int) 3 = 0 \<and> (inp :: nat \<Rightarrow> int) 4 = 0 \<and> (inp :: nat \<Rightarrow> int) 5 = 0 \<and> (inp :: nat \<Rightarrow> int) 6 = 0 \<and> (inp :: nat \<Rightarrow> int) 7 = 0"
  show "(\<lambda>(inp, quant). idct_islow_col inp quant) a = map (\<lambda>cs. RIGHT_SHIFT (dot 0 cs (dequantized a) + 1024) 11) kernel_8" if "\<not> ?z a" for a
    using that idct_islow_col_kernel by (auto simp: dequantized_def)
  show "(\<lambda>(inp, quant). idct_islow_col inp quant) a = replicate (length kernel_8) (s32 (dequantized a 0 * 2 ^ PASS1_BITS))" if "?z a" for a
    using that by (auto simp: idct_islow_col_def dequantized_def kernel_8_def Let_def)
  show "dequantized a j = 0" if "?z a" "0 < j" "j < 8" for a j
    using that by (auto simp: dequantized_def DEQUANTIZE_def less_Suc_eq numeral_eq_Suc)
qed (simp_all add: kernel_8_def shortcut_col [simplified])

lemma idct_islow_row_kernel:
  assumes "\<not> (ws 1 = 0 \<and> ws 2 = 0 \<and> ws 3 = 0 \<and> ws 4 = 0 \<and> ws 5 = 0 \<and> ws 6 = 0 \<and> ws 7 = 0)"
  shows "idct_islow_row ws = map (\<lambda>cs. RIGHT_SHIFT (dot 0 cs ws + 131072) 18) kernel_8"
  unfolding idct_islow_row_def if_not_P [OF assms] kernel_8_def list.map
  by (simp add: Let_def dct_consts DESCALE_def algebra_simps del: One_nat_def)

lemma idct_islow_row_pass: "dct_pass idct_islow_row (\<lambda>ws. ws) kernel_8 18 8 160000"
proof (rule shortcut_pass [OF shifted_pass [where n = 17, simplified, OF refl kernel_8_fits]])
  let ?z = "\<lambda>ws. (ws :: nat \<Rightarrow> int) 1 = 0 \<and> (ws :: nat \<Rightarrow> int) 2 = 0 \<and> (ws :: nat \<Rightarrow> int) 3 = 0 \<and> (ws :: nat \<Rightarrow> int) 4 = 0 \<and> (ws :: nat \<Rightarrow> int) 5 = 0 \<and> (ws :: nat \<Rightarrow> int) 6 = 0 \<and> (ws :: nat \<Rightarrow> int) 7 = 0"
  show "idct_islow_row a = map (\<lambda>cs. RIGHT_SHIFT (dot 0 cs ((\<lambda>ws. ws) a) + 131072) 18) kernel_8" if "\<not> ?z a" for a
    using that idct_islow_row_kernel by simp
  show "idct_islow_row a = replicate (length kernel_8) (DESCALE (a 0) (PASS1_BITS + 3))" if "?z a" for a
    using that by (auto simp: idct_islow_row_def kernel_8_def Let_def)
  show "(\<lambda>ws. ws) a j = 0" if "?z a" "0 < j" "j < 8" for a j
    using that by (auto simp: less_Suc_eq numeral_eq_Suc)
qed (simp_all add: kernel_8_def shortcut_row [simplified])

interpretation i8x8: idct_pair idct_islow_col idct_islow_row kernel_8 11 8 kernel_8 18 8 160000 8192 2 8192 2
  by (rule idct_kernels [OF idct_islow_col_pass idct_islow_row_pass kernel_8_ok kernel_8_ok]) simp_all

lemma jpeg_idct_islow_decodes:
  "rows_fit output_buf 8 (output_col + 8) \<Longrightarrow> weight (dequantized_at dct_table coef_block) \<le> 16000 \<Longrightarrow>
   \<exists>out. jpeg_idct_islow prepare_range_limit_table dct_table coef_block output_buf output_col = Some out \<and>
     decoded 8 8 dct_table coef_block output_buf output_col out"
  using i8x8.decodes by (simp add: jpeg_idct_islow_def)


section \<open>7x7 samples\<close>

definition idct_7x7_col :: "(nat \<Rightarrow> int) \<Rightarrow> (nat \<Rightarrow> int) \<Rightarrow> int list" where
  "idct_7x7_col inp quant =
    (let tmp13 = DEQUANTIZE (inp 0) (quant 0);
         tmp13 = tmp13 * 2 ^ CONST_BITS;
         tmp13 = tmp13 + 1 * 2 ^ (CONST_BITS - PASS1_BITS - 1);
         z1 = DEQUANTIZE (inp 2) (quant 2);
         z2 = DEQUANTIZE (inp 4) (quant 4);
         z3 = DEQUANTIZE (inp 6) (quant 6);
         tmp10 = (z2 - z3) * FIX13 9 881747734;
         tmp12 = (z1 - z2) * FIX13 9 314692123;
         tmp11 = tmp10 + tmp12 + tmp13 - z2 * FIX13 9 1841218003;
         tmp0 = z1 + z3;
         z2 = z2 - tmp0;
         tmp0 = tmp0 * FIX13 9 1274162392 + tmp13;
         tmp10 = tmp10 + (tmp0 - z3 * FIX13 9 77722536);
         tmp12 = tmp12 + (tmp0 - z1 * FIX13 9 2470602249);
         tmp13 = tmp13 + z2 * FIX13 9 1414213562;
         z1 = DEQUANTIZE (inp 1) (quant 1);
         z2 = DEQUANTIZE (inp 3) (quant 3);
         z3 = DEQUANTIZE (inp 5) (quant 5);
         tmp1 = (z1 + z2) * FIX13 9 935414347;
         tmp2 = (z1 - z2) * FIX13 9 170262339;
         tmp0 = tmp1 - tmp2;
         tmp1 = tmp1 + tmp2;
         tmp2 = (z2 + z3) * (- FIX13 9 1378756276);
         tmp1 = tmp1 + tmp2;
         z2 = (z1 + z3) * FIX13 9 613604268;
         tmp0 = tmp0 + z2;
         tmp2 = tmp2 + (z2 + z3 * FIX13 9 1870828693);
         out0 = RIGHT_SHIFT (tmp10 + tmp0) (CONST_BITS - PASS1_BITS);
         out6 = RIGHT_SHIFT (tmp10 - tmp0) (CONST_BITS - PASS1_BITS);
         out1 = RIGHT_SHIFT (tmp11 + tmp1) (CONST_BITS - PASS1_BITS);
         out5 = RIGHT_SHIFT (tmp11 - tmp1) (CONST_BITS - PASS1_BITS);
         out2 = RIGHT_SHIFT (tmp12 + tmp2) (CONST_BITS - PASS1_BITS);
         out4 = RIGHT_SHIFT (tmp12 - tmp2) (CONST_BITS - PASS1_BITS);
         out3 = RIGHT_SHIFT tmp13 (CONST_BITS - PASS1_BITS)
     in [out0, out1, out2, out3, out4, out5, out6])"

definition idct_7x7_row :: "(nat \<Rightarrow> int) \<Rightarrow> int list" where
  "idct_7x7_row ws =
    (let tmp13 = ws 0 + 1 * 2 ^ (PASS1_BITS + 2);
         tmp13 = tmp13 * 2 ^ CONST_BITS;
         z1 = ws 2;
         z2 = ws 4;
         z3 = ws 6;
         tmp10 = (z2 - z3) * FIX13 9 881747734;
         tmp12 = (z1 - z2) * FIX13 9 314692123;
         tmp11 = tmp10 + tmp12 + tmp13 - z2 * FIX13 9 1841218003;
         tmp0 = z1 + z3;
         z2 = z2 - tmp0;
         tmp0 = tmp0 * FIX13 9 1274162392 + tmp13;
         tmp10 = tmp10 + (tmp0 - z3 * FIX13 9 77722536);
         tmp12 = tmp12 + (tmp0 - z1 * FIX13 9 2470602249);
         tmp13 = tmp13 + z2 * FIX13 9 1414213562;
         z1 = ws 1;
         z2 = ws 3;
         z3 = ws 5;
         tmp1 = (z1 + z2) * FIX13 9 935414347;
         tmp2 = (z1 - z2) * FIX13 9 170262339;
         tmp0 = tmp1 - tmp2;
         tmp1 = tmp1 + tmp2;
         tmp2 = (z2 + z3) * (- FIX13 9 1378756276);
         tmp1 = tmp1 + tmp2;
         z2 = (z1 + z3) * FIX13 9 613604268;
         tmp0 = tmp0 + z2;
         tmp2 = tmp2 + (z2 + z3 * FIX13 9 1870828693);
         out0 = RIGHT_SHIFT (tmp10 + tmp0) (CONST_BITS + PASS1_BITS + 3);
         out6 = RIGHT_SHIFT (tmp10 - tmp0) (CONST_BITS + PASS1_BITS + 3);
         out1 = RIGHT_SHIFT (tmp11 + tmp1) (CONST_BITS + PASS1_BITS + 3);
         out5 = RIGHT_SHIFT (tmp11 - tmp1) (CONST_BITS + PASS1_BITS + 3);
         out2 = RIGHT_SHIFT (tmp12 + tmp2) (CONST_BITS + PASS1_BITS + 3);
         out4 = RIGHT_SHIFT (tmp12 - tmp2) (CONST_BITS + PASS1_BITS + 3);
         out3 = RIGHT_SHIFT tmp13 (CONST_BITS + PASS1_BITS + 3)
     in [out0, out1, out2, out3, out4, out5, out6])"

definition jpeg_idct_7x7 :: "limit_table \<Rightarrow> int list \<Rightarrow> int list \<Rightarrow> samparray \<Rightarrow> nat \<Rightarrow> samparray option" where
  "jpeg_idct_7x7 range_limit dct_table coef_block output_buf output_col =
     idct_store range_limit (idct_passes 7 7 idct_7x7_col idct_7x7_row dct_table coef_block) output_buf output_col"

lemma idct_7x7_col_kernel:
  "idct_7x7_col inp quant = map (\<lambda>cs. RIGHT_SHIFT (dot 0 cs (\<lambda>j. DEQUANTIZE (inp j) (quant j)) + 1024) 11) kernel_7"
  unfolding idct_7x7_col_def kernel_7_def list.map
  by (simp add: Let_def dct_consts DESCALE_def algebra_simps del: One_nat_def)

lemma idct_7x7_col_pass: "dct_pass (\<lambda>(inp, quant). idct_7x7_col inp quant) dequantized kernel_7 11 7 160000"
  by (rule shifted_pass [where n = 10, simplified, OF _ kernel_7_fits]) (simp add: dequantized_def add: idct_7x7_col_kernel split: prod.split)

lemma idct_7x7_row_kernel:
  "idct_7x7_row ws = map (\<lambda>cs. RIGHT_SHIFT (dot 0 cs ws + 131072) 18) kernel_7"
  unfolding idct_7x7_row_def kernel_7_def list.map
  by (simp add: Let_def dct_consts DESCALE_def algebra_simps del: One_nat_def)

lemma idct_7x7_row_pass: "dct_pass idct_7x7_row (\<lambda>ws. ws) kernel_7 18 7 160000"
  by (rule shifted_pass [where n = 17, simplified, OF _ kernel_7_fits]) (simp add: idct_7x7_row_kernel split: prod.split)

interpretation i7x7: idct_pair idct_7x7_col idct_7x7_row kernel_7 11 7 kernel_7 18 7 160000 8192 2 8192 2
  by (rule idct_kernels [OF idct_7x7_col_pass idct_7x7_row_pass kernel_7_ok kernel_7_ok]) simp_all

lemma jpeg_idct_7x7_decodes:
  "rows_fit output_buf 7 (output_col + 7) \<Longrightarrow> weight (dequantized_at dct_table coef_block) \<le> 16000 \<Longrightarrow>
   \<exists>out. jpeg_idct_7x7 prepare_range_limit_table dct_table coef_block output_buf output_col = Some out \<and>
     decoded 7 7 dct_table coef_block output_buf output_col out"
  using i7x7.decodes by (simp add: jpeg_idct_7x7_def)


section \<open>6x6 samples\<close>

definition idct_6x6_col :: "(nat \<Rightarrow> int) \<Rightarrow> (nat \<Rightarrow> int) \<Rightarrow> int list" where
  "idct_6x6_col inp quant =
    (let tmp0 = DEQUANTIZE (inp 0) (quant 0);
         tmp0 = tmp0 * 2 ^ CONST_BITS;
         tmp0 = tmp0 + 1 * 2 ^ (CONST_BITS - PASS1_BITS - 1);
         tmp2 = DEQUANTIZE (inp 4) (quant 4);
         tmp10 = tmp2 * FIX13 9 707106781;
         tmp1 = tmp0 + tmp10;
         tmp11 = RIGHT_SHIFT (tmp0 - tmp10 - tmp10) (CONST_BITS - PASS1_BITS);
         tmp10 = DEQUANTIZE (inp 2) (quant 2);
         tmp0 = tmp10 * FIX13 9 1224744871;
         tmp10 = tmp1 + tmp0;
         tmp12 = tmp1 - tmp0;
         z1 = DEQUANTIZE (inp 1) (quant 1);
         z2 = DEQUANTIZE (inp 3) (quant 3);
         z3 = DEQUANTIZE (inp 5) (quant 5);
         tmp1 = (z1 + z3) * FIX13 9 366025404;
         tmp0 = tmp1 + (z1 + z2) * 2 ^ CONST_BITS;
         tmp2 = tmp1 + (z3 - z2) * 2 ^ CONST_BITS;
         tmp1 = (z1 - z2 - z3) * 2 ^ PASS1_BITS;
         out0 = RIGHT_SHIFT (tmp10 + tmp0) (CONST_BITS - PASS1_BITS);
         out5 = RIGHT_SHIFT (tmp10 - tmp0) (CONST_BITS - PASS1_BITS);
         out1 = s32 (tmp11 + tmp1);
         out4 = s32 (tmp11 - tmp1);
         out2 = RIGHT_SHIFT (tmp12 + tmp2) (CONST_BITS - PASS1_BITS);
         out3 = RIGHT_SHIFT (tmp12 - tmp2) (CONST_BITS - PASS1_BITS)
     in [out0, out1, out2, out3, out4, out5])"

definition idct_6x6_row :: "(nat \<Rightarrow> int) \<Rightarrow> int list" where
  "idct_6x6_row ws =
    (let tmp0 = ws 0 + 1 * 2 ^ (PASS1_BITS + 2);
         tmp0 = tmp0 * 2 ^ CONST_BITS;
         tmp2 = ws 4;
         tmp10 = tmp2 * FIX13 9 707106781;
         tmp1 = tmp0 + tmp10;
         tmp11 = tmp0 - tmp10 - tmp10;
         tmp10 = ws 2;
         tmp0 = tmp10 * FIX13 9 1224744871;
         tmp10 = tmp1 + tmp0;
         tmp12 = tmp1 - tmp0;
         z1 = ws 1;
         z2 = ws 3;
         z3 = ws 5;
         tmp1 = (z1 + z3) * FIX13 9 366025404;
         tmp0 = tmp1 + (z1 + z2) * 2 ^ CONST_BITS;
         tmp2 = tmp1 + (z3 - z2) * 2 ^ CONST_BITS;
         tmp1 = (z1 - z2 - z3) * 2 ^ CONST_BITS;
         out0 = RIGHT_SHIFT (tmp10 + tmp0) (CONST_BITS + PASS1_BITS + 3);
         out5 = RIGHT_SHIFT (tmp10 - tmp0) (CONST_BITS + PASS1_BITS + 3);
         out1 = RIGHT_SHIFT (tmp11 + tmp1) (CONST_BITS + PASS1_BITS + 3);
         out4 = RIGHT_SHIFT (tmp11 - tmp1) (CONST_BITS + PASS1_BITS + 3);
         out2 = RIGHT_SHIFT (tmp12 + tmp2) (CONST_BITS + PASS1_BITS + 3);
         out3 = RIGHT_SHIFT (tmp12 - tmp2) (CONST_BITS + PASS1_BITS + 3)
     in [out0, out1, out2, out3, out4, out5])"

definition jpeg_idct_6x6 :: "limit_table \<Rightarrow> int list \<Rightarrow> int list \<Rightarrow> samparray \<Rightarrow> nat \<Rightarrow> samparray option" where
  "jpeg_idct_6x6 range_limit dct_table coef_block output_buf output_col =
     idct_store range_limit (idct_passes 6 6 idct_6x6_col idct_6x6_row dct_table coef_block) output_buf output_col"

lemma idct_6x6_col_kernel: "idct_6x6_col inp quant = map (split_output (\<lambda>j. DEQUANTIZE (inp j) (quant j))) parts_6"
  unfolding idct_6x6_col_def parts_6_def list.map
  by (simp add: split_output_def Let_def dct_consts DESCALE_def algebra_simps del: One_nat_def)

lemma idct_6x6_col_pass: "dct_pass (\<lambda>(inp, quant). idct_6x6_col inp quant) dequantized kernel_6 11 6 160000"
  by (rule split_pass [OF _ parts_6_ok]) (simp add: dequantized_def idct_6x6_col_kernel split: prod.split)

lemma idct_6x6_row_kernel:
  "idct_6x6_row ws = map (\<lambda>cs. RIGHT_SHIFT (dot 0 cs ws + 131072) 18) kernel_6"
  unfolding idct_6x6_row_def kernel_6_def list.map
  by (simp add: Let_def dct_consts DESCALE_def algebra_simps del: One_nat_def)

lemma idct_6x6_row_pass: "dct_pass idct_6x6_row (\<lambda>ws. ws) kernel_6 18 6 160000"
  by (rule shifted_pass [where n = 17, simplified, OF _ kernel_6_fits]) (simp add: idct_6x6_row_kernel split: prod.split)

interpretation i6x6: idct_pair idct_6x6_col idct_6x6_row kernel_6 11 6 kernel_6 18 6 160000 8192 2 8192 2
  by (rule idct_kernels [OF idct_6x6_col_pass idct_6x6_row_pass kernel_6_ok kernel_6_ok]) simp_all

lemma jpeg_idct_6x6_decodes:
  "rows_fit output_buf 6 (output_col + 6) \<Longrightarrow> weight (dequantized_at dct_table coef_block) \<le> 16000 \<Longrightarrow>
   \<exists>out. jpeg_idct_6x6 prepare_range_limit_table dct_table coef_block output_buf output_col = Some out \<and>
     decoded 6 6 dct_table coef_block output_buf output_col out"
  using i6x6.decodes by (simp add: jpeg_idct_6x6_def)


section \<open>5x5 samples\<close>

definition idct_5x5_col :: "(nat \<Rightarrow> int) \<Rightarrow> (nat \<Rightarrow> int) \<Rightarrow> int list" where
  "idct_5x5_col inp quant =
    (let tmp12 = DEQUANTIZE (inp 0) (quant 0);
         tmp12 = tmp12 * 2 ^ CONST_BITS;
         tmp12 = tmp12 + 1 * 2 ^ (CONST_BITS - PASS1_BITS - 1);
         tmp0 = DEQUANTIZE (inp 2) (quant 2);
         tmp1 = DEQUANTIZE (inp 4) (quant 4);
         z1 = (tmp0 + tmp1) * FIX13 9 790569415;
         z2 = (tmp0 - tmp1) * FIX13 9 353553391;
         z3 = tmp12 + z2;
         tmp10 = z3 + z1;
         tmp11 = z3 - z1;
         tmp12 = tmp12 - z2 * 2 ^ 2;
         z2 = DEQUANTIZE (inp 1) (quant 1);
         z3 = DEQUANTIZE (inp 3) (quant 3);
         z1 = (z2 + z3) * FIX13 9 831253876;
         tmp0 = z1 + z2 * FIX13 9 513743148;
         tmp1 = z1 - z3 * FIX13 9 2176250899;
         out0 = RIGHT_SHIFT (tmp10 + tmp0) (CONST_BITS - PASS1_BITS);
         out4 = RIGHT_SHIFT (tmp10 - tmp0) (CONST_BITS - PASS1_BITS);
         out1 = RIGHT_SHIFT (tmp11 + tmp1) (CONST_BITS - PASS1_BITS);
         out3 = RIGHT_SHIFT (tmp11 - tmp1) (CONST_BITS - PASS1_BITS);
         out2 = RIGHT_SHIFT tmp12 (CONST_BITS - PASS1_BITS)
     in [out0, out1, out2, out3, out4])"

definition idct_5x5_row :: "(nat \<Rightarrow> int) \<Rightarrow> int list" where
  "idct_5x5_row ws =
    (let tmp12 = ws 0 + 1 * 2 ^ (PASS1_BITS + 2);
         tmp12 = tmp12 * 2 ^ CONST_BITS;
         tmp0 = ws 2;
         tmp1 = ws 4;
         z1 = (tmp0 + tmp1) * FIX13 9 790569415;
         z2 = (tmp0 - tmp1) * FIX13 9 353553391;
         z3 = tmp12 + z2;
         tmp10 = z3 + z1;
         tmp11 = z3 - z1;
         tmp12 = tmp12 - z2 * 2 ^ 2;
         z2 = ws 1;
         z3 = ws 3;
         z1 = (z2 + z3) * FIX13 9 831253876;
         tmp0 = z1 + z2 * FIX13 9 513743148;
         tmp1 = z1 - z3 * FIX13 9 2176250899;
         out0 = RIGHT_SHIFT (tmp10 + tmp0) (CONST_BITS + PASS1_BITS + 3);
         out4 = RIGHT_SHIFT (tmp10 - tmp0) (CONST_BITS + PASS1_BITS + 3);
         out1 = RIGHT_SHIFT (tmp11 + tmp1) (CONST_BITS + PASS1_BITS + 3);
         out3 = RIGHT_SHIFT (tmp11 - tmp1) (CONST_BITS + PASS1_BITS + 3);
         out2 = RIGHT_SHIFT tmp12 (CONST_BITS + PASS1_BITS + 3)
     in [out0, out1, out2, out3, out4])"

definition jpeg_idct_5x5 :: "limit_table \<Rightarrow> int list \<Rightarrow> int list \<Rightarrow> samparray \<Rightarrow> nat \<Rightarrow> samparray option" where
  "jpeg_idct_5x5 range_limit dct_table coef_block output_buf output_col =
     idct_store range_limit (idct_passes 5 5 idct_5x5_col idct_5x5_row dct_table coef_block) output_buf output_col"

lemma idct_5x5_col_kernel:
  "idct_5x5_col inp quant = map (\<lambda>cs. RIGHT_SHIFT (dot 0 cs (\<lambda>j. DEQUANTIZE (inp j) (quant j)) + 1024) 11) kernel_5"
  unfolding idct_5x5_col_def kernel_5_def list.map
  by (simp add: Let_def dct_consts DESCALE_def algebra_simps del: One_nat_def)

lemma idct_5x5_col_pass: "dct_pass (\<lambda>(inp, quant). idct_5x5_col inp quant) dequantized kernel_5 11 5 160000"
  by (rule shifted_pass [where n = 10, simplified, OF _ kernel_5_fits]) (simp add: dequantized_def add: idct_5x5_col_kernel split: prod.split)

lemma idct_5x5_row_kernel:
  "idct_5x5_row ws = map (\<lambda>cs. RIGHT_SHIFT (dot 0 cs ws + 131072) 18) kernel_5"
  unfolding idct_5x5_row_def kernel_5_def list.map
  by (simp add: Let_def dct_consts DESCALE_def algebra_simps del: One_nat_def)

lemma idct_5x5_row_pass: "dct_pass idct_5x5_row (\<lambda>ws. ws) kernel_5 18 5 160000"
  by (rule shifted_pass [where n = 17, simplified, OF _ kernel_5_fits]) (simp add: idct_5x5_row_kernel split: prod.split)

interpretation i5x5: idct_pair idct_5x5_col idct_5x5_row kernel_5 11 5 kernel_5 18 5 160000 8192 2 8192 2
  by (rule idct_kernels [OF idct_5x5_col_pass idct_5x5_row_pass kernel_5_ok kernel_5_ok]) simp_all

lemma jpeg_idct_5x5_decodes:
  "rows_fit output_buf 5 (output_col + 5) \<Longrightarrow> weight (dequantized_at dct_table coef_block) \<le> 16000 \<Longrightarrow>
   \<exists>out. jpeg_idct_5x5 prepare_range_limit_table dct_table coef_block output_buf output_col = Some out \<and>
     decoded 5 5 dct_table coef_block output_buf output_col out"
  using i5x5.decodes by (simp add: jpeg_idct_5x5_def)


section \<open>4x4 samples\<close>

definition idct_4x4_col :: "(nat \<Rightarrow> int) \<Rightarrow> (nat \<Rightarrow> int) \<Rightarrow> int list" where
  "idct_4x4_col inp quant =
    (let tmp0 = DEQUANTIZE (inp 0) (quant 0);
         tmp2 = DEQUANTIZE (inp 2) (quant 2);
         tmp10 = (tmp0 + tmp2) * 2 ^ PASS1_BITS;
         tmp12 = (tmp0 - tmp2) * 2 ^ PASS1_BITS;
         z2 = DEQUANTIZE (inp 1) (quant 1);
         z3 = DEQUANTIZE (inp 3) (quant 3);
         z1 = (z2 + z3) * FIX_0_541196100;
         z1 = z1 + 1 * 2 ^ (CONST_BITS - PASS1_BITS - 1);
         tmp0 = RIGHT_SHIFT (z1 + z2 * FIX_0_765366865) (CONST_BITS - PASS1_BITS);
         tmp2 = RIGHT_SHIFT (z1 - z3 * FIX_1_847759065) (CONST_BITS - PASS1_BITS);
         out0 = s32 (tmp10 + tmp0);
         out3 = s32 (tmp10 - tmp0);
         out1 = s32 (tmp12 + tmp2);
         out2 = s32 (tmp12 - tmp2)
     in [out0, out1, out2, out3])"

definition idct_4x4_row :: "(nat \<Rightarrow> int) \<Rightarrow> int list" where
  "idct_4x4_row ws =
    (let tmp0 = ws 0 + 1 * 2 ^ (PASS1_BITS + 2);
         tmp2 = ws 2;
         tmp10 = (tmp0 + tmp2) * 2 ^ CONST_BITS;
         tmp12 = (tmp0 - tmp2) * 2 ^ CONST_BITS;
         z2 = ws 1;
         z3 = ws 3;
         z1 = (z2 + z3) * FIX_0_541196100;
         tmp0 = z1 + z2 * FIX_0_765366865;
         tmp2 = z1 - z3 * FIX_1_847759065;
         out0 = RIGHT_SHIFT (tmp10 + tmp0) (CONST_BITS + PASS1_BITS + 3);
         out3 = RIGHT_SHIFT (tmp10 - tmp0) (CONST_BITS + PASS1_BITS + 3);
         out1 = RIGHT_SHIFT (tmp12 + tmp2) (CONST_BITS + PASS1_BITS + 3);
         out2 = RIGHT_SHIFT (tmp12 - tmp2) (CONST_BITS + PASS1_BITS + 3)
     in [out0, out1, out2, out3])"

definition jpeg_idct_4x4 :: "limit_table \<Rightarrow> int list \<Rightarrow> int list \<Rightarrow> samparray \<Rightarrow> nat \<Rightarrow> samparray option" where
  "jpeg_idct_4x4 range_limit dct_table coef_block output_buf output_col =
     idct_store range_limit (idct_passes 4 4 idct_4x4_col idct_4x4_row dct_table coef_block) output_buf output_col"

lemma idct_4x4_col_kernel: "idct_4x4_col inp quant = map (split_output (\<lambda>j. DEQUANTIZE (inp j) (quant j))) parts_4"
  unfolding idct_4x4_col_def parts_4_def list.map
  by (simp add: split_output_def Let_def dct_consts DESCALE_def algebra_simps del: One_nat_def)

lemma idct_4x4_col_pass: "dct_pass (\<lambda>(inp, quant). idct_4x4_col inp quant) dequantized kernel_4 11 4 160000"
  by (rule split_pass [OF _ parts_4_ok]) (simp add: dequantized_def idct_4x4_col_kernel split: prod.split)

lemma idct_4x4_row_kernel:
  "idct_4x4_row ws = map (\<lambda>cs. RIGHT_SHIFT (dot 0 cs ws + 131072) 18) kernel_4"
  unfolding idct_4x4_row_def kernel_4_def list.map
  by (simp add: Let_def dct_consts DESCALE_def algebra_simps del: One_nat_def)

lemma idct_4x4_row_pass: "dct_pass idct_4x4_row (\<lambda>ws. ws) kernel_4 18 4 160000"
  by (rule shifted_pass [where n = 17, simplified, OF _ kernel_4_fits]) (simp add: idct_4x4_row_kernel split: prod.split)

interpretation i4x4: idct_pair idct_4x4_col idct_4x4_row kernel_4 11 4 kernel_4 18 4 160000 8192 2 8192 2
  by (rule idct_kernels [OF idct_4x4_col_pass idct_4x4_row_pass kernel_4_ok kernel_4_ok]) simp_all

lemma jpeg_idct_4x4_decodes:
  "rows_fit output_buf 4 (output_col + 4) \<Longrightarrow> weight (dequantized_at dct_table coef_block) \<le> 16000 \<Longrightarrow>
   \<exists>out. jpeg_idct_4x4 prepare_range_limit_table dct_table coef_block output_buf output_col = Some out \<and>
     decoded 4 4 dct_table coef_block output_buf output_col out"
  using i4x4.decodes by (simp add: jpeg_idct_4x4_def)


section \<open>3x3 samples\<close>

definition idct_3x3_col :: "(nat \<Rightarrow> int) \<Rightarrow> (nat \<Rightarrow> int) \<Rightarrow> int list" where
  "idct_3x3_col inp quant =
    (let tmp0 = DEQUANTIZE (inp 0) (quant 0);
         tmp0 = tmp0 * 2 ^ CONST_BITS;
         tmp0 = tmp0 + 1 * 2 ^ (CONST_BITS - PASS1_BITS - 1);
         tmp2 = DEQUANTIZE (inp 2) (quant 2);
         tmp12 = tmp2 * FIX13 9 707106781;
         tmp10 = tmp0 + tmp12;
         tmp2 = tmp0 - tmp12 - tmp12;
         tmp12 = DEQUANTIZE (inp 1) (quant 1);
         tmp0 = tmp12 * FIX13 9 1224744871;
         out0 = RIGHT_SHIFT (tmp10 + tmp0) (CONST_BITS - PASS1_BITS);
         out2 = RIGHT_SHIFT (tmp10 - tmp0) (CONST_BITS - PASS1_BITS);
         out1 = RIGHT_SHIFT tmp2 (CONST_BITS - PASS1_BITS)
     in [out0, out1, out2])"

definition idct_3x3_row :: "(nat \<Rightarrow> int) \<Rightarrow> int list" where
  "idct_3x3_row ws =
    (let tmp0 = ws 0 + 1 * 2 ^ (PASS1_BITS + 2);
         tmp0 = tmp0 * 2 ^ CONST_BITS;
         tmp2 = ws 2;
         tmp12 = tmp2 * FIX13 9 707106781;
         tmp10 = tmp0 + tmp12;
         tmp2 = tmp0 - tmp12 - tmp12;
         tmp12 = ws 1;
         tmp0 = tmp12 * FIX13 9 1224744871;
         out0 = RIGHT_SHIFT (tmp10 + tmp0) (CONST_BITS + PASS1_BITS + 3);
         out2 = RIGHT_SHIFT (tmp10 - tmp0) (CONST_BITS + PASS1_BITS + 3);
         out1 = RIGHT_SHIFT tmp2 (CONST_BITS + PASS1_BITS + 3)
     in [out0, out1, out2])"

definition jpeg_idct_3x3 :: "limit_table \<Rightarrow> int list \<Rightarrow> int list \<Rightarrow> samparray \<Rightarrow> nat \<Rightarrow> samparray option" where
  "jpeg_idct_3x3 range_limit dct_table coef_block output_buf output_col =
     idct_store range_limit (idct_passes 3 3 idct_3x3_col idct_3x3_row dct_table coef_block) output_buf output_col"

lemma idct_3x3_col_kernel:
  "idct_3x3_col inp quant = map (\<lambda>cs. RIGHT_SHIFT (dot 0 cs (\<lambda>j. DEQUANTIZE (inp j) (quant j)) + 1024) 11) kernel_3"
  unfolding idct_3x3_col_def kernel_3_def list.map
  by (simp add: Let_def dct_consts DESCALE_def algebra_simps del: One_nat_def)

lemma idct_3x3_col_pass: "dct_pass (\<lambda>(inp, quant). idct_3x3_col inp quant) dequantized kernel_3 11 3 160000"
  by (rule shifted_pass [where n = 10, simplified, OF _ kernel_3_fits]) (simp add: dequantized_def add: idct_3x3_col_kernel split: prod.split)

lemma idct_3x3_row_kernel:
  "idct_3x3_row ws = map (\<lambda>cs. RIGHT_SHIFT (dot 0 cs ws + 131072) 18) kernel_3"
  unfolding idct_3x3_row_def kernel_3_def list.map
  by (simp add: Let_def dct_consts DESCALE_def algebra_simps del: One_nat_def)

lemma idct_3x3_row_pass: "dct_pass idct_3x3_row (\<lambda>ws. ws) kernel_3 18 3 160000"
  by (rule shifted_pass [where n = 17, simplified, OF _ kernel_3_fits]) (simp add: idct_3x3_row_kernel split: prod.split)

interpretation i3x3: idct_pair idct_3x3_col idct_3x3_row kernel_3 11 3 kernel_3 18 3 160000 8192 2 8192 2
  by (rule idct_kernels [OF idct_3x3_col_pass idct_3x3_row_pass kernel_3_ok kernel_3_ok]) simp_all

lemma jpeg_idct_3x3_decodes:
  "rows_fit output_buf 3 (output_col + 3) \<Longrightarrow> weight (dequantized_at dct_table coef_block) \<le> 16000 \<Longrightarrow>
   \<exists>out. jpeg_idct_3x3 prepare_range_limit_table dct_table coef_block output_buf output_col = Some out \<and>
     decoded 3 3 dct_table coef_block output_buf output_col out"
  using i3x3.decodes by (simp add: jpeg_idct_3x3_def)


section \<open>Blocks of one or two samples a side\<close>

definition jpeg_idct_2x2 :: "limit_table \<Rightarrow> int list \<Rightarrow> int list \<Rightarrow> samparray \<Rightarrow> nat \<Rightarrow> samparray option" where
  "jpeg_idct_2x2 range_limit quantptr coef_block output_buf output_col =
     (let tmp4 = DEQUANTIZE (coef_block ! (DCTSIZE * 0)) (quantptr ! (DCTSIZE * 0));
          tmp5 = DEQUANTIZE (coef_block ! (DCTSIZE * 1)) (quantptr ! (DCTSIZE * 1));
          tmp4 = tmp4 + 1 * 2 ^ 2;
          tmp0 = tmp4 + tmp5;
          tmp2 = tmp4 - tmp5;
          tmp4 = DEQUANTIZE (coef_block ! (DCTSIZE * 0 + 1)) (quantptr ! (DCTSIZE * 0 + 1));
          tmp5 = DEQUANTIZE (coef_block ! (DCTSIZE * 1 + 1)) (quantptr ! (DCTSIZE * 1 + 1));
          tmp1 = tmp4 + tmp5;
          tmp3 = tmp4 - tmp5
      in idct_store range_limit
           [[RIGHT_SHIFT (tmp0 + tmp1) 3, RIGHT_SHIFT (tmp0 - tmp1) 3],
            [RIGHT_SHIFT (tmp2 + tmp3) 3, RIGHT_SHIFT (tmp2 - tmp3) 3]] output_buf output_col)"

definition jpeg_idct_1x1 :: "limit_table \<Rightarrow> int list \<Rightarrow> int list \<Rightarrow> samparray \<Rightarrow> nat \<Rightarrow> samparray option" where
  "jpeg_idct_1x1 range_limit quantptr coef_block output_buf output_col =
     (let dcval = DEQUANTIZE (coef_block ! 0) (quantptr ! 0);
          dcval = DESCALE dcval 3
      in idct_store range_limit [[dcval]] output_buf output_col)"

definition jpeg_idct_2x1 :: "limit_table \<Rightarrow> int list \<Rightarrow> int list \<Rightarrow> samparray \<Rightarrow> nat \<Rightarrow> samparray option" where
  "jpeg_idct_2x1 range_limit quantptr coef_block output_buf output_col =
     (let tmp0 = DEQUANTIZE (coef_block ! 0) (quantptr ! 0);
          tmp0 = tmp0 + 1 * 2 ^ 2;
          tmp1 = DEQUANTIZE (coef_block ! 1) (quantptr ! 1)
      in idct_store range_limit [[RIGHT_SHIFT (tmp0 + tmp1) 3, RIGHT_SHIFT (tmp0 - tmp1) 3]] output_buf output_col)"

definition jpeg_idct_1x2 :: "limit_table \<Rightarrow> int list \<Rightarrow> int list \<Rightarrow> samparray \<Rightarrow> nat \<Rightarrow> samparray option" where
  "jpeg_idct_1x2 range_limit quantptr coef_block output_buf output_col =
     (let tmp0 = DEQUANTIZE (coef_block ! (DCTSIZE * 0)) (quantptr ! (DCTSIZE * 0));
          tmp0 = tmp0 + 1 * 2 ^ 2;
          tmp1 = DEQUANTIZE (coef_block ! (DCTSIZE * 1)) (quantptr ! (DCTSIZE * 1))
      in idct_store range_limit [[RIGHT_SHIFT (tmp0 + tmp1) 3], [RIGHT_SHIFT (tmp0 - tmp1) 3]] output_buf output_col)"

text \<open>Their samples differ from the exact ones by the last rounding only.\<close>

lemma eighth_near:
  assumes "\<bar>x\<bar> \<le> 100000"
  shows "\<bar>real_of_int (RIGHT_SHIFT (x + 4) 3) - real_of_int x / 8\<bar> \<le> 1 / 2"
proof -
  have "\<bar>2 ^ Suc 2 * RIGHT_SHIFT (x + 2 ^ 2) (Suc 2) - x\<bar> \<le> 2 ^ 2"
    by (rule right_shift_rounds) (use assms in linarith, simp)
  then have "\<bar>8 * RIGHT_SHIFT (x + 4) 3 - x\<bar> \<le> 4" by simp
  then show ?thesis by linarith
qed

lemma weight_part:
  assumes "u < 8" "v < 8"
  shows "\<bar>a u v\<bar> \<le> weight a"
proof -
  have "\<bar>a u v\<bar> \<le> (\<Sum>u<8. \<bar>a u v\<bar>)" using assms by (intro member_le_sum [of u]) simp_all
  also have "\<dots> \<le> weight a" unfolding weight_def using assms by (intro member_le_sum [of v "{..<8}"]) (simp_all add: sum_nonneg)
  finally show ?thesis .
qed

lemma eighths_decoded:
  assumes fit: "rows_fit output_buf H (output_col + W)" and B: "weight (dequantized_at quantptr coef_block) \<le> 16000"
    and vals: "vals = map (\<lambda>r. map (\<lambda>c. RIGHT_SHIFT (x r c + 4) 3) [0..<W]) [0..<H]"
    and x: "\<And>r c. r < H \<Longrightarrow> c < W \<Longrightarrow> \<bar>x r c\<bar> \<le> 4 * weight (dequantized_at quantptr coef_block) \<and>
      idct_exact H W (dequantized_at quantptr coef_block) r c = real_of_int (x r c) / 8"
  shows "\<exists>out. idct_store prepare_range_limit_table vals output_buf output_col = Some out \<and>
    decoded H W quantptr coef_block output_buf output_col out"
proof (rule store_decoded [OF fit _ _ B])
  let ?a = "dequantized_at quantptr coef_block"
  fix r c
  assume rc: "r < H" "c < W"
  have "\<bar>x r c\<bar> \<le> 100000" using x [OF rc] B by linarith
  then have "\<bar>real_of_int (vals ! r ! c) - real_of_int (x r c) / 8\<bar> \<le> 1 / 2"
    using eighth_near rc by (simp add: vals)
  moreover have "0 \<le> real_of_int (weight ?a)" by (simp add: weight_def sum_nonneg)
  ultimately show "\<bar>real_of_int (vals ! r ! c) - idct_exact H W ?a r c\<bar> \<le> 7 / 10 + real_of_int (weight ?a) / 10000"
    using x [OF rc] by linarith
qed (simp_all add: vals)

lemma exact_small:
  "idct_exact 1 1 a 0 0 = real_of_int (a 0 0) / 8"
  "c < 2 \<Longrightarrow> idct_exact 1 2 a 0 c = real_of_int (if c = 0 then a 0 0 + a 0 1 else a 0 0 - a 0 1) / 8"
  "r < 2 \<Longrightarrow> idct_exact 2 1 a r 0 = real_of_int (if r = 0 then a 0 0 + a 1 0 else a 0 0 - a 1 0) / 8"
  "r < 2 \<Longrightarrow> c < 2 \<Longrightarrow> idct_exact 2 2 a r c =
     real_of_int (if r = 0 then if c = 0 then a 0 0 + a 1 0 + (a 0 1 + a 1 1) else a 0 0 + a 1 0 - (a 0 1 + a 1 1)
       else if c = 0 then a 0 0 - a 1 0 + (a 0 1 - a 1 1) else a 0 0 - a 1 0 - (a 0 1 - a 1 1)) / 8"
proof -
  have m: "min 8 (1 :: nat) = 1" "min 8 (2 :: nat) = 2" by simp_all
  have s: "(\<Sum>u<2. f u) = f 0 + f 1" "(\<Sum>u<1. f u) = f 0" for f :: "nat \<Rightarrow> real"
    by (simp_all add: numeral_2_eq_2)
  have two: "k < 2 \<longleftrightarrow> k = 0 \<or> k = 1" for k :: nat by auto
  show "idct_exact 1 1 a 0 0 = real_of_int (a 0 0) / 8"
    unfolding idct_exact_def m s basis_1 by simp
  show "idct_exact 1 2 a 0 c = real_of_int (if c = 0 then a 0 0 + a 0 1 else a 0 0 - a 0 1) / 8" if "c < 2"
    using that unfolding idct_exact_def m s basis_1 two by (elim disjE; simp only: basis_2) simp_all
  show "idct_exact 2 1 a r 0 = real_of_int (if r = 0 then a 0 0 + a 1 0 else a 0 0 - a 1 0) / 8" if "r < 2"
    using that unfolding idct_exact_def m s basis_1 two by (elim disjE; simp only: basis_2) simp_all
  show "idct_exact 2 2 a r c =
     real_of_int (if r = 0 then if c = 0 then a 0 0 + a 1 0 + (a 0 1 + a 1 1) else a 0 0 + a 1 0 - (a 0 1 + a 1 1)
       else if c = 0 then a 0 0 - a 1 0 + (a 0 1 - a 1 1) else a 0 0 - a 1 0 - (a 0 1 - a 1 1)) / 8" if "r < 2" "c < 2"
    using that unfolding idct_exact_def m s two by (elim disjE; simp only: basis_2) simp_all
qed

lemma corner_bounds:
  "\<bar>a 0 0\<bar> \<le> weight a" "\<bar>a 0 1\<bar> \<le> weight a" "\<bar>a 1 0\<bar> \<le> weight a" "\<bar>a 1 1\<bar> \<le> weight a"
  by (rule weight_part; simp)+

lemma upt_2: "[0..<2] = [0, 1]" "[0..<1] = [0]"
  by (simp_all add: numeral_2_eq_2)

lemma jpeg_idct_1x1_decodes:
  assumes "rows_fit output_buf 1 (output_col + 1)" "weight (dequantized_at quantptr coef_block) \<le> 16000"
  shows "\<exists>out. jpeg_idct_1x1 prepare_range_limit_table quantptr coef_block output_buf output_col = Some out \<and>
    decoded 1 1 quantptr coef_block output_buf output_col out"
  unfolding jpeg_idct_1x1_def Let_def
proof (rule eighths_decoded [OF assms])
  let ?a = "dequantized_at quantptr coef_block"
  show "[[DESCALE (DEQUANTIZE (coef_block ! 0) (quantptr ! 0)) 3]] =
      map (\<lambda>r. map (\<lambda>c. RIGHT_SHIFT (?a 0 0 + 4) 3) [0..<1]) [0..<1]"
    by (simp add: DESCALE_def dequantized_at_def)
  fix r c :: nat
  assume "r < 1" "c < 1"
  then show "\<bar>?a 0 0\<bar> \<le> 4 * weight ?a \<and> idct_exact 1 1 ?a r c = real_of_int (?a 0 0) / 8"
    using corner_bounds(1) [of ?a] exact_small(1) [of ?a] by simp
qed

lemma jpeg_idct_2x1_decodes:
  assumes "rows_fit output_buf 1 (output_col + 2)" "weight (dequantized_at quantptr coef_block) \<le> 16000"
  shows "\<exists>out. jpeg_idct_2x1 prepare_range_limit_table quantptr coef_block output_buf output_col = Some out \<and>
    decoded 1 2 quantptr coef_block output_buf output_col out"
proof -
  define a where "a = dequantized_at quantptr coef_block"
  let ?x = "\<lambda>(r :: nat) (c :: nat). if c = 0 then a 0 0 + a 0 1 else a 0 0 - a 0 1"
  have "\<bar>?x r c\<bar> \<le> 4 * weight a" for r c :: nat
    using corner_bounds [of a] unfolding abs_le_iff by (cases "r = 0"; cases "c = 0"; simp)
  moreover have "idct_exact 1 2 a r c = real_of_int (?x r c) / 8" if "r < 1" "c < 2" for r c
    using exact_small(2) [of c a] that by simp
  ultimately show ?thesis
    unfolding jpeg_idct_2x1_def Let_def
    by (intro eighths_decoded [OF assms, where x = ?x]; (simp only: a_def simp_thms)?)
      (simp only: upt_2 list.map dequantized_at_def DCTSIZE_def, simp add: algebra_simps)
qed

lemma jpeg_idct_1x2_decodes:
  assumes "rows_fit output_buf 2 (output_col + 1)" "weight (dequantized_at quantptr coef_block) \<le> 16000"
  shows "\<exists>out. jpeg_idct_1x2 prepare_range_limit_table quantptr coef_block output_buf output_col = Some out \<and>
    decoded 2 1 quantptr coef_block output_buf output_col out"
proof -
  define a where "a = dequantized_at quantptr coef_block"
  let ?x = "\<lambda>(r :: nat) (c :: nat). if r = 0 then a 0 0 + a 1 0 else a 0 0 - a 1 0"
  have "\<bar>?x r c\<bar> \<le> 4 * weight a" for r c :: nat
    using corner_bounds [of a] unfolding abs_le_iff by (cases "r = 0"; cases "c = 0"; simp)
  moreover have "idct_exact 2 1 a r c = real_of_int (?x r c) / 8" if "r < 2" "c < 1" for r c
    using exact_small(3) [of r a] that by simp
  ultimately show ?thesis
    unfolding jpeg_idct_1x2_def Let_def
    by (intro eighths_decoded [OF assms, where x = ?x]; (simp only: a_def simp_thms)?)
      (simp only: upt_2 list.map dequantized_at_def DCTSIZE_def, simp add: algebra_simps)
qed

lemma jpeg_idct_2x2_decodes:
  assumes "rows_fit output_buf 2 (output_col + 2)" "weight (dequantized_at quantptr coef_block) \<le> 16000"
  shows "\<exists>out. jpeg_idct_2x2 prepare_range_limit_table quantptr coef_block output_buf output_col = Some out \<and>
    decoded 2 2 quantptr coef_block output_buf output_col out"
proof -
  define a where "a = dequantized_at quantptr coef_block"
  let ?x = "\<lambda>(r :: nat) (c :: nat). if r = 0 then if c = 0 then a 0 0 + a 1 0 + (a 0 1 + a 1 1) else a 0 0 + a 1 0 - (a 0 1 + a 1 1)
       else if c = 0 then a 0 0 - a 1 0 + (a 0 1 - a 1 1) else a 0 0 - a 1 0 - (a 0 1 - a 1 1)"
  have "\<bar>?x r c\<bar> \<le> 4 * weight a" for r c :: nat
    using corner_bounds [of a] unfolding abs_le_iff by (cases "r = 0"; cases "c = 0"; simp)
  moreover have "idct_exact 2 2 a r c = real_of_int (?x r c) / 8" if "r < 2" "c < 2" for r c
    using exact_small(4) [of r c a] that by blast
  ultimately show ?thesis
    unfolding jpeg_idct_2x2_def Let_def
    by (intro eighths_decoded [OF assms, where x = ?x]; (simp only: a_def simp_thms)?)
      (simp only: upt_2 list.map dequantized_at_def DCTSIZE_def, simp add: algebra_simps)
qed


end
