(* ===== verification/IdctLarge.thy ===== *)
theory IdctLarge
  imports IdctAccuracy
begin

text \<open>
  The inverse DCT routines of \<open>jpeg-9a/jidctint.c\<close> for the square blocks of 9 to 13 samples a side.
  \<open>idct_NxM_col\<close> is the body of pass 1 of \<open>jpeg_idct_NxM\<close>, for the column with the coefficients \<open>inp\<close>
  and the multipliers \<open>quant\<close>, and \<open>idct_NxM_row\<close> the body of pass 2, for the row \<open>ws\<close> of the work
  array.  Each pass is shown to be a rounded product with the matrix of its number of points.
\<close>

section \<open>9x9 samples\<close>

definition idct_9x9_col :: "(nat \<Rightarrow> int) \<Rightarrow> (nat \<Rightarrow> int) \<Rightarrow> int list" where
  "idct_9x9_col inp quant =
    (let tmp0 = DEQUANTIZE (inp 0) (quant 0);
         tmp0 = tmp0 * 2 ^ CONST_BITS;
         tmp0 = tmp0 + 1 * 2 ^ (CONST_BITS - PASS1_BITS - 1);
         z1 = DEQUANTIZE (inp 2) (quant 2);
         z2 = DEQUANTIZE (inp 4) (quant 4);
         z3 = DEQUANTIZE (inp 6) (quant 6);
         tmp3 = z3 * FIX13 9 707106781;
         tmp1 = tmp0 + tmp3;
         tmp2 = tmp0 - tmp3 - tmp3;
         tmp0 = (z1 - z2) * FIX13 9 707106781;
         tmp11 = tmp2 + tmp0;
         tmp14 = tmp2 - tmp0 - tmp0;
         tmp0 = (z1 + z2) * FIX13 9 1328926049;
         tmp2 = z1 * FIX13 9 1083350441;
         tmp3 = z2 * FIX13 9 245575608;
         tmp10 = tmp1 + tmp0 - tmp3;
         tmp12 = tmp1 - tmp0 + tmp2;
         tmp13 = tmp1 - tmp2 + tmp3;
         z1 = DEQUANTIZE (inp 1) (quant 1);
         z2 = DEQUANTIZE (inp 3) (quant 3);
         z3 = DEQUANTIZE (inp 5) (quant 5);
         z4 = DEQUANTIZE (inp 7) (quant 7);
         z2 = z2 * (- FIX13 9 1224744871);
         tmp2 = (z1 + z3) * FIX13 9 909038955;
         tmp3 = (z1 + z4) * FIX13 9 483689525;
         tmp0 = tmp2 + tmp3 - z2;
         tmp1 = (z3 - z4) * FIX13 9 1392728481;
         tmp2 = tmp2 + (z2 - tmp1);
         tmp3 = tmp3 + (z2 + tmp1);
         tmp1 = (z1 - z3 - z4) * FIX13 9 1224744871;
         out0 = RIGHT_SHIFT (tmp10 + tmp0) (CONST_BITS - PASS1_BITS);
         out8 = RIGHT_SHIFT (tmp10 - tmp0) (CONST_BITS - PASS1_BITS);
         out1 = RIGHT_SHIFT (tmp11 + tmp1) (CONST_BITS - PASS1_BITS);
         out7 = RIGHT_SHIFT (tmp11 - tmp1) (CONST_BITS - PASS1_BITS);
         out2 = RIGHT_SHIFT (tmp12 + tmp2) (CONST_BITS - PASS1_BITS);
         out6 = RIGHT_SHIFT (tmp12 - tmp2) (CONST_BITS - PASS1_BITS);
         out3 = RIGHT_SHIFT (tmp13 + tmp3) (CONST_BITS - PASS1_BITS);
         out5 = RIGHT_SHIFT (tmp13 - tmp3) (CONST_BITS - PASS1_BITS);
         out4 = RIGHT_SHIFT tmp14 (CONST_BITS - PASS1_BITS)
     in [out0, out1, out2, out3, out4, out5, out6, out7, out8])"

definition idct_9x9_row :: "(nat \<Rightarrow> int) \<Rightarrow> int list" where
  "idct_9x9_row ws =
    (let tmp0 = ws 0 + 1 * 2 ^ (PASS1_BITS + 2);
         tmp0 = tmp0 * 2 ^ CONST_BITS;
         z1 = ws 2;
         z2 = ws 4;
         z3 = ws 6;
         tmp3 = z3 * FIX13 9 707106781;
         tmp1 = tmp0 + tmp3;
         tmp2 = tmp0 - tmp3 - tmp3;
         tmp0 = (z1 - z2) * FIX13 9 707106781;
         tmp11 = tmp2 + tmp0;
         tmp14 = tmp2 - tmp0 - tmp0;
         tmp0 = (z1 + z2) * FIX13 9 1328926049;
         tmp2 = z1 * FIX13 9 1083350441;
         tmp3 = z2 * FIX13 9 245575608;
         tmp10 = tmp1 + tmp0 - tmp3;
         tmp12 = tmp1 - tmp0 + tmp2;
         tmp13 = tmp1 - tmp2 + tmp3;
         z1 = ws 1;
         z2 = ws 3;
         z3 = ws 5;
         z4 = ws 7;
         z2 = z2 * (- FIX13 9 1224744871);
         tmp2 = (z1 + z3) * FIX13 9 909038955;
         tmp3 = (z1 + z4) * FIX13 9 483689525;
         tmp0 = tmp2 + tmp3 - z2;
         tmp1 = (z3 - z4) * FIX13 9 1392728481;
         tmp2 = tmp2 + (z2 - tmp1);
         tmp3 = tmp3 + (z2 + tmp1);
         tmp1 = (z1 - z3 - z4) * FIX13 9 1224744871;
         out0 = RIGHT_SHIFT (tmp10 + tmp0) (CONST_BITS + PASS1_BITS + 3);
         out8 = RIGHT_SHIFT (tmp10 - tmp0) (CONST_BITS + PASS1_BITS + 3);
         out1 = RIGHT_SHIFT (tmp11 + tmp1) (CONST_BITS + PASS1_BITS + 3);
         out7 = RIGHT_SHIFT (tmp11 - tmp1) (CONST_BITS + PASS1_BITS + 3);
         out2 = RIGHT_SHIFT (tmp12 + tmp2) (CONST_BITS + PASS1_BITS + 3);
         out6 = RIGHT_SHIFT (tmp12 - tmp2) (CONST_BITS + PASS1_BITS + 3);
         out3 = RIGHT_SHIFT (tmp13 + tmp3) (CONST_BITS + PASS1_BITS + 3);
         out5 = RIGHT_SHIFT (tmp13 - tmp3) (CONST_BITS + PASS1_BITS + 3);
         out4 = RIGHT_SHIFT tmp14 (CONST_BITS + PASS1_BITS + 3)
     in [out0, out1, out2, out3, out4, out5, out6, out7, out8])"

definition jpeg_idct_9x9 :: "limit_table \<Rightarrow> int list \<Rightarrow> int list \<Rightarrow> samparray \<Rightarrow> nat \<Rightarrow> samparray option" where
  "jpeg_idct_9x9 range_limit dct_table coef_block output_buf output_col =
     idct_store range_limit (idct_passes 8 9 idct_9x9_col idct_9x9_row dct_table coef_block) output_buf output_col"

lemma idct_9x9_col_kernel:
  "idct_9x9_col inp quant = map (\<lambda>cs. RIGHT_SHIFT (dot 0 cs (\<lambda>j. DEQUANTIZE (inp j) (quant j)) + 1024) 11) kernel_9"
  unfolding idct_9x9_col_def kernel_9_def list.map
  by (simp add: Let_def dct_consts DESCALE_def algebra_simps del: One_nat_def)

lemma idct_9x9_col_pass: "dct_pass (\<lambda>(inp, quant). idct_9x9_col inp quant) dequantized kernel_9 11 8 160000"
  by (rule shifted_pass [where n = 10, simplified, OF _ kernel_9_fits]) (simp add: dequantized_def add: idct_9x9_col_kernel split: prod.split)

lemma idct_9x9_row_kernel:
  "idct_9x9_row ws = map (\<lambda>cs. RIGHT_SHIFT (dot 0 cs ws + 131072) 18) kernel_9"
  unfolding idct_9x9_row_def kernel_9_def list.map
  by (simp add: Let_def dct_consts DESCALE_def algebra_simps del: One_nat_def)

lemma idct_9x9_row_pass: "dct_pass idct_9x9_row (\<lambda>ws. ws) kernel_9 18 8 160000"
  by (rule shifted_pass [where n = 17, simplified, OF _ kernel_9_fits]) (simp add: idct_9x9_row_kernel split: prod.split)

interpretation i9x9: idct_pair idct_9x9_col idct_9x9_row kernel_9 11 9 kernel_9 18 9 160000 8192 2 8192 2
  by (rule idct_kernels [OF idct_9x9_col_pass idct_9x9_row_pass kernel_9_ok kernel_9_ok]) simp_all

lemma jpeg_idct_9x9_decodes:
  "rows_fit output_buf 9 (output_col + 9) \<Longrightarrow> weight (dequantized_at dct_table coef_block) \<le> 16000 \<Longrightarrow>
   \<exists>out. jpeg_idct_9x9 prepare_range_limit_table dct_table coef_block output_buf output_col = Some out \<and>
     decoded 9 9 dct_table coef_block output_buf output_col out"
  using i9x9.decodes by (simp add: jpeg_idct_9x9_def)


section \<open>10x10 samples\<close>

definition idct_10x10_col :: "(nat \<Rightarrow> int) \<Rightarrow> (nat \<Rightarrow> int) \<Rightarrow> int list" where
  "idct_10x10_col inp quant =
    (let z3 = DEQUANTIZE (inp 0) (quant 0);
         z3 = z3 * 2 ^ CONST_BITS;
         z3 = z3 + 1 * 2 ^ (CONST_BITS - PASS1_BITS - 1);
         z4 = DEQUANTIZE (inp 4) (quant 4);
         z1 = z4 * FIX13 9 1144122806;
         z2 = z4 * FIX13 9 437016024;
         tmp10 = z3 + z1;
         tmp11 = z3 - z2;
         tmp22 = RIGHT_SHIFT (z3 - (z1 - z2) * 2 ^ 1) (CONST_BITS - PASS1_BITS);
         z2 = DEQUANTIZE (inp 2) (quant 2);
         z3 = DEQUANTIZE (inp 6) (quant 6);
         z1 = (z2 + z3) * FIX13 9 831253876;
         tmp12 = z1 + z2 * FIX13 9 513743148;
         tmp13 = z1 - z3 * FIX13 9 2176250899;
         tmp20 = tmp10 + tmp12;
         tmp24 = tmp10 - tmp12;
         tmp21 = tmp11 + tmp13;
         tmp23 = tmp11 - tmp13;
         z1 = DEQUANTIZE (inp 1) (quant 1);
         z2 = DEQUANTIZE (inp 3) (quant 3);
         z3 = DEQUANTIZE (inp 5) (quant 5);
         z4 = DEQUANTIZE (inp 7) (quant 7);
         tmp11 = z2 + z4;
         tmp13 = z2 - z4;
         tmp12 = tmp13 * FIX13 9 309016994;
         z5 = z3 * 2 ^ CONST_BITS;
         z2 = tmp11 * FIX13 9 951056516;
         z4 = z5 + tmp12;
         tmp10 = z1 * FIX13 9 1396802247 + z2 + z4;
         tmp14 = z1 * FIX13 9 221231742 - z2 + z4;
         z2 = tmp11 * FIX13 9 587785252;
         z4 = z5 - tmp12 - tmp13 * 2 ^ (CONST_BITS - 1);
         tmp12 = (z1 - tmp13 - z3) * 2 ^ PASS1_BITS;
         tmp11 = z1 * FIX13 9 1260073511 - z2 - z4;
         tmp13 = z1 * FIX13 9 642039522 - z2 + z4;
         out0 = RIGHT_SHIFT (tmp20 + tmp10) (CONST_BITS - PASS1_BITS);
         out9 = RIGHT_SHIFT (tmp20 - tmp10) (CONST_BITS - PASS1_BITS);
         out1 = RIGHT_SHIFT (tmp21 + tmp11) (CONST_BITS - PASS1_BITS);
         out8 = RIGHT_SHIFT (tmp21 - tmp11) (CONST_BITS - PASS1_BITS);
         out2 = s32 (tmp22 + tmp12);
         out7 = s32 (tmp22 - tmp12);
         out3 = RIGHT_SHIFT (tmp23 + tmp13) (CONST_BITS - PASS1_BITS);
         out6 = RIGHT_SHIFT (tmp23 - tmp13) (CONST_BITS - PASS1_BITS);
         out4 = RIGHT_SHIFT (tmp24 + tmp14) (CONST_BITS - PASS1_BITS);
         out5 = RIGHT_SHIFT (tmp24 - tmp14) (CONST_BITS - PASS1_BITS)
     in [out0, out1, out2, out3, out4, out5, out6, out7, out8, out9])"

definition idct_10x10_row :: "(nat \<Rightarrow> int) \<Rightarrow> int list" where
  "idct_10x10_row ws =
    (let z3 = ws 0 + 1 * 2 ^ (PASS1_BITS + 2);
         z3 = z3 * 2 ^ CONST_BITS;
         z4 = ws 4;
         z1 = z4 * FIX13 9 1144122806;
         z2 = z4 * FIX13 9 437016024;
         tmp10 = z3 + z1;
         tmp11 = z3 - z2;
         tmp22 = z3 - (z1 - z2) * 2 ^ 1;
         z2 = ws 2;
         z3 = ws 6;
         z1 = (z2 + z3) * FIX13 9 831253876;
         tmp12 = z1 + z2 * FIX13 9 513743148;
         tmp13 = z1 - z3 * FIX13 9 2176250899;
         tmp20 = tmp10 + tmp12;
         tmp24 = tmp10 - tmp12;
         tmp21 = tmp11 + tmp13;
         tmp23 = tmp11 - tmp13;
         z1 = ws 1;
         z2 = ws 3;
         z3 = ws 5;
         z3 = z3 * 2 ^ CONST_BITS;
         z4 = ws 7;
         tmp11 = z2 + z4;
         tmp13 = z2 - z4;
         tmp12 = tmp13 * FIX13 9 309016994;
         z2 = tmp11 * FIX13 9 951056516;
         z4 = z3 + tmp12;
         tmp10 = z1 * FIX13 9 1396802247 + z2 + z4;
         tmp14 = z1 * FIX13 9 221231742 - z2 + z4;
         z2 = tmp11 * FIX13 9 587785252;
         z4 = z3 - tmp12 - tmp13 * 2 ^ (CONST_BITS - 1);
         tmp12 = (z1 - tmp13) * 2 ^ CONST_BITS - z3;
         tmp11 = z1 * FIX13 9 1260073511 - z2 - z4;
         tmp13 = z1 * FIX13 9 642039522 - z2 + z4;
         out0 = RIGHT_SHIFT (tmp20 + tmp10) (CONST_BITS + PASS1_BITS + 3);
         out9 = RIGHT_SHIFT (tmp20 - tmp10) (CONST_BITS + PASS1_BITS + 3);
         out1 = RIGHT_SHIFT (tmp21 + tmp11) (CONST_BITS + PASS1_BITS + 3);
         out8 = RIGHT_SHIFT (tmp21 - tmp11) (CONST_BITS + PASS1_BITS + 3);
         out2 = RIGHT_SHIFT (tmp22 + tmp12) (CONST_BITS + PASS1_BITS + 3);
         out7 = RIGHT_SHIFT (tmp22 - tmp12) (CONST_BITS + PASS1_BITS + 3);
         out3 = RIGHT_SHIFT (tmp23 + tmp13) (CONST_BITS + PASS1_BITS + 3);
         out6 = RIGHT_SHIFT (tmp23 - tmp13) (CONST_BITS + PASS1_BITS + 3);
         out4 = RIGHT_SHIFT (tmp24 + tmp14) (CONST_BITS + PASS1_BITS + 3);
         out5 = RIGHT_SHIFT (tmp24 - tmp14) (CONST_BITS + PASS1_BITS + 3)
     in [out0, out1, out2, out3, out4, out5, out6, out7, out8, out9])"

definition jpeg_idct_10x10 :: "limit_table \<Rightarrow> int list \<Rightarrow> int list \<Rightarrow> samparray \<Rightarrow> nat \<Rightarrow> samparray option" where
  "jpeg_idct_10x10 range_limit dct_table coef_block output_buf output_col =
     idct_store range_limit (idct_passes 8 10 idct_10x10_col idct_10x10_row dct_table coef_block) output_buf output_col"

lemma idct_10x10_col_kernel: "idct_10x10_col inp quant = map (split_output (\<lambda>j. DEQUANTIZE (inp j) (quant j))) parts_10"
  unfolding idct_10x10_col_def parts_10_def list.map
  by (simp add: split_output_def Let_def dct_consts DESCALE_def algebra_simps del: One_nat_def)

lemma idct_10x10_col_pass: "dct_pass (\<lambda>(inp, quant). idct_10x10_col inp quant) dequantized kernel_10 11 8 160000"
  by (rule split_pass [OF _ parts_10_ok]) (simp add: dequantized_def idct_10x10_col_kernel split: prod.split)

lemma idct_10x10_row_kernel:
  "idct_10x10_row ws = map (\<lambda>cs. RIGHT_SHIFT (dot 0 cs ws + 131072) 18) kernel_10"
  unfolding idct_10x10_row_def kernel_10_def list.map
  by (simp add: Let_def dct_consts DESCALE_def algebra_simps del: One_nat_def)

lemma idct_10x10_row_pass: "dct_pass idct_10x10_row (\<lambda>ws. ws) kernel_10 18 8 160000"
  by (rule shifted_pass [where n = 17, simplified, OF _ kernel_10_fits]) (simp add: idct_10x10_row_kernel split: prod.split)

interpretation i10x10: idct_pair idct_10x10_col idct_10x10_row kernel_10 11 10 kernel_10 18 10 160000 8192 2 8192 2
  by (rule idct_kernels [OF idct_10x10_col_pass idct_10x10_row_pass kernel_10_ok kernel_10_ok]) simp_all

lemma jpeg_idct_10x10_decodes:
  "rows_fit output_buf 10 (output_col + 10) \<Longrightarrow> weight (dequantized_at dct_table coef_block) \<le> 16000 \<Longrightarrow>
   \<exists>out. jpeg_idct_10x10 prepare_range_limit_table dct_table coef_block output_buf output_col = Some out \<and>
     decoded 10 10 dct_table coef_block output_buf output_col out"
  using i10x10.decodes by (simp add: jpeg_idct_10x10_def)


section \<open>11x11 samples\<close>

definition idct_11x11_col :: "(nat \<Rightarrow> int) \<Rightarrow> (nat \<Rightarrow> int) \<Rightarrow> int list" where
  "idct_11x11_col inp quant =
    (let tmp10 = DEQUANTIZE (inp 0) (quant 0);
         tmp10 = tmp10 * 2 ^ CONST_BITS;
         tmp10 = tmp10 + 1 * 2 ^ (CONST_BITS - PASS1_BITS - 1);
         z1 = DEQUANTIZE (inp 2) (quant 2);
         z2 = DEQUANTIZE (inp 4) (quant 4);
         z3 = DEQUANTIZE (inp 6) (quant 6);
         tmp20 = (z2 - z3) * FIX13 9 2546640132;
         tmp23 = (z2 - z1) * FIX13 9 430815045;
         z4 = z1 + z3;
         tmp24 = z4 * (- FIX13 9 1155664402);
         z4 = z4 - z2;
         tmp25 = tmp10 + z4 * FIX13 9 1356927976;
         tmp21 = tmp20 + tmp23 + tmp25 - z2 * FIX13 9 1821790775;
         tmp20 = tmp20 + (tmp25 + z3 * FIX13 9 2115825087);
         tmp23 = tmp23 + (tmp25 - z1 * FIX13 9 1513598477);
         tmp24 = tmp24 + tmp25;
         tmp22 = tmp24 - z3 * FIX13 9 788749120;
         tmp24 = tmp24 + (z2 * FIX13 9 1944413522 - z1 * FIX13 9 1390975730);
         tmp25 = tmp10 - z4 * FIX13 9 1414213562;
         z1 = DEQUANTIZE (inp 1) (quant 1);
         z2 = DEQUANTIZE (inp 3) (quant 3);
         z3 = DEQUANTIZE (inp 5) (quant 5);
         z4 = DEQUANTIZE (inp 7) (quant 7);
         tmp11 = z1 + z2;
         tmp14 = (tmp11 + z3 + z4) * FIX13 9 398430003;
         tmp11 = tmp11 * FIX13 9 887983902;
         tmp12 = (z1 + z3) * FIX13 9 670361295;
         tmp13 = tmp14 + (z1 + z4) * FIX13 9 366151574;
         tmp10 = tmp11 + tmp12 + tmp13 - z1 * FIX13 9 923107866;
         z1 = tmp14 - (z2 + z3) * FIX13 9 1163011579;
         tmp11 = tmp11 + (z1 + z2 * FIX13 9 2073276588);
         tmp12 = tmp12 + (z1 - z3 * FIX13 9 1192193623);
         z1 = (z2 + z4) * (- FIX13 9 1798248910);
         tmp11 = tmp11 + z1;
         tmp13 = tmp13 + (z1 + z4 * FIX13 9 2102458632);
         tmp14 = tmp14 + (z2 * (- FIX13 9 1467221301) + z3 * FIX13 9 1001388905 - z4 * FIX13 9 1684843907);
         out0 = RIGHT_SHIFT (tmp20 + tmp10) (CONST_BITS - PASS1_BITS);
         out10 = RIGHT_SHIFT (tmp20 - tmp10) (CONST_BITS - PASS1_BITS);
         out1 = RIGHT_SHIFT (tmp21 + tmp11) (CONST_BITS - PASS1_BITS);
         out9 = RIGHT_SHIFT (tmp21 - tmp11) (CONST_BITS - PASS1_BITS);
         out2 = RIGHT_SHIFT (tmp22 + tmp12) (CONST_BITS - PASS1_BITS);
         out8 = RIGHT_SHIFT (tmp22 - tmp12) (CONST_BITS - PASS1_BITS);
         out3 = RIGHT_SHIFT (tmp23 + tmp13) (CONST_BITS - PASS1_BITS);
         out7 = RIGHT_SHIFT (tmp23 - tmp13) (CONST_BITS - PASS1_BITS);
         out4 = RIGHT_SHIFT (tmp24 + tmp14) (CONST_BITS - PASS1_BITS);
         out6 = RIGHT_SHIFT (tmp24 - tmp14) (CONST_BITS - PASS1_BITS);
         out5 = RIGHT_SHIFT tmp25 (CONST_BITS - PASS1_BITS)
     in [out0, out1, out2, out3, out4, out5, out6, out7, out8, out9, out10])"

definition idct_11x11_row :: "(nat \<Rightarrow> int) \<Rightarrow> int list" where
  "idct_11x11_row ws =
    (let tmp10 = ws 0 + 1 * 2 ^ (PASS1_BITS + 2);
         tmp10 = tmp10 * 2 ^ CONST_BITS;
         z1 = ws 2;
         z2 = ws 4;
         z3 = ws 6;
         tmp20 = (z2 - z3) * FIX13 9 2546640132;
         tmp23 = (z2 - z1) * FIX13 9 430815045;
         z4 = z1 + z3;
         tmp24 = z4 * (- FIX13 9 1155664402);
         z4 = z4 - z2;
         tmp25 = tmp10 + z4 * FIX13 9 1356927976;
         tmp21 = tmp20 + tmp23 + tmp25 - z2 * FIX13 9 1821790775;
         tmp20 = tmp20 + (tmp25 + z3 * FIX13 9 2115825087);
         tmp23 = tmp23 + (tmp25 - z1 * FIX13 9 1513598477);
         tmp24 = tmp24 + tmp25;
         tmp22 = tmp24 - z3 * FIX13 9 788749120;
         tmp24 = tmp24 + (z2 * FIX13 9 1944413522 - z1 * FIX13 9 1390975730);
         tmp25 = tmp10 - z4 * FIX13 9 1414213562;
         z1 = ws 1;
         z2 = ws 3;
         z3 = ws 5;
         z4 = ws 7;
         tmp11 = z1 + z2;
         tmp14 = (tmp11 + z3 + z4) * FIX13 9 398430003;
         tmp11 = tmp11 * FIX13 9 887983902;
         tmp12 = (z1 + z3) * FIX13 9 670361295;
         tmp13 = tmp14 + (z1 + z4) * FIX13 9 366151574;
         tmp10 = tmp11 + tmp12 + tmp13 - z1 * FIX13 9 923107866;
         z1 = tmp14 - (z2 + z3) * FIX13 9 1163011579;
         tmp11 = tmp11 + (z1 + z2 * FIX13 9 2073276588);
         tmp12 = tmp12 + (z1 - z3 * FIX13 9 1192193623);
         z1 = (z2 + z4) * (- FIX13 9 1798248910);
         tmp11 = tmp11 + z1;
         tmp13 = tmp13 + (z1 + z4 * FIX13 9 2102458632);
         tmp14 = tmp14 + (z2 * (- FIX13 9 1467221301) + z3 * FIX13 9 1001388905 - z4 * FIX13 9 1684843907);
         out0 = RIGHT_SHIFT (tmp20 + tmp10) (CONST_BITS + PASS1_BITS + 3);
         out10 = RIGHT_SHIFT (tmp20 - tmp10) (CONST_BITS + PASS1_BITS + 3);
         out1 = RIGHT_SHIFT (tmp21 + tmp11) (CONST_BITS + PASS1_BITS + 3);
         out9 = RIGHT_SHIFT (tmp21 - tmp11) (CONST_BITS + PASS1_BITS + 3);
         out2 = RIGHT_SHIFT (tmp22 + tmp12) (CONST_BITS + PASS1_BITS + 3);
         out8 = RIGHT_SHIFT (tmp22 - tmp12) (CONST_BITS + PASS1_BITS + 3);
         out3 = RIGHT_SHIFT (tmp23 + tmp13) (CONST_BITS + PASS1_BITS + 3);
         out7 = RIGHT_SHIFT (tmp23 - tmp13) (CONST_BITS + PASS1_BITS + 3);
         out4 = RIGHT_SHIFT (tmp24 + tmp14) (CONST_BITS + PASS1_BITS + 3);
         out6 = RIGHT_SHIFT (tmp24 - tmp14) (CONST_BITS + PASS1_BITS + 3);
         out5 = RIGHT_SHIFT tmp25 (CONST_BITS + PASS1_BITS + 3)
     in [out0, out1, out2, out3, out4, out5, out6, out7, out8, out9, out10])"

definition jpeg_idct_11x11 :: "limit_table \<Rightarrow> int list \<Rightarrow> int list \<Rightarrow> samparray \<Rightarrow> nat \<Rightarrow> samparray option" where
  "jpeg_idct_11x11 range_limit dct_table coef_block output_buf output_col =
     idct_store range_limit (idct_passes 8 11 idct_11x11_col idct_11x11_row dct_table coef_block) output_buf output_col"

lemma idct_11x11_col_kernel:
  "idct_11x11_col inp quant = map (\<lambda>cs. RIGHT_SHIFT (dot 0 cs (\<lambda>j. DEQUANTIZE (inp j) (quant j)) + 1024) 11) kernel_11"
  unfolding idct_11x11_col_def kernel_11_def list.map
  by (simp add: Let_def dct_consts DESCALE_def algebra_simps del: One_nat_def)

lemma idct_11x11_col_pass: "dct_pass (\<lambda>(inp, quant). idct_11x11_col inp quant) dequantized kernel_11 11 8 160000"
  by (rule shifted_pass [where n = 10, simplified, OF _ kernel_11_fits]) (simp add: dequantized_def add: idct_11x11_col_kernel split: prod.split)

lemma idct_11x11_row_kernel:
  "idct_11x11_row ws = map (\<lambda>cs. RIGHT_SHIFT (dot 0 cs ws + 131072) 18) kernel_11"
  unfolding idct_11x11_row_def kernel_11_def list.map
  by (simp add: Let_def dct_consts DESCALE_def algebra_simps del: One_nat_def)

lemma idct_11x11_row_pass: "dct_pass idct_11x11_row (\<lambda>ws. ws) kernel_11 18 8 160000"
  by (rule shifted_pass [where n = 17, simplified, OF _ kernel_11_fits]) (simp add: idct_11x11_row_kernel split: prod.split)

interpretation i11x11: idct_pair idct_11x11_col idct_11x11_row kernel_11 11 11 kernel_11 18 11 160000 8192 2 8192 2
  by (rule idct_kernels [OF idct_11x11_col_pass idct_11x11_row_pass kernel_11_ok kernel_11_ok]) simp_all

lemma jpeg_idct_11x11_decodes:
  "rows_fit output_buf 11 (output_col + 11) \<Longrightarrow> weight (dequantized_at dct_table coef_block) \<le> 16000 \<Longrightarrow>
   \<exists>out. jpeg_idct_11x11 prepare_range_limit_table dct_table coef_block output_buf output_col = Some out \<and>
     decoded 11 11 dct_table coef_block output_buf output_col out"
  using i11x11.decodes by (simp add: jpeg_idct_11x11_def)


section \<open>12x12 samples\<close>

definition idct_12x12_col :: "(nat \<Rightarrow> int) \<Rightarrow> (nat \<Rightarrow> int) \<Rightarrow> int list" where
  "idct_12x12_col inp quant =
    (let z3 = DEQUANTIZE (inp 0) (quant 0);
         z3 = z3 * 2 ^ CONST_BITS;
         z3 = z3 + 1 * 2 ^ (CONST_BITS - PASS1_BITS - 1);
         z4 = DEQUANTIZE (inp 4) (quant 4);
         z4 = z4 * FIX13 9 1224744871;
         tmp10 = z3 + z4;
         tmp11 = z3 - z4;
         z1 = DEQUANTIZE (inp 2) (quant 2);
         z4 = z1 * FIX13 9 1366025404;
         z1 = z1 * 2 ^ CONST_BITS;
         z2 = DEQUANTIZE (inp 6) (quant 6);
         z2 = z2 * 2 ^ CONST_BITS;
         tmp12 = z1 - z2;
         tmp21 = z3 + tmp12;
         tmp24 = z3 - tmp12;
         tmp12 = z4 + z2;
         tmp20 = tmp10 + tmp12;
         tmp25 = tmp10 - tmp12;
         tmp12 = z4 - z1 - z2;
         tmp22 = tmp11 + tmp12;
         tmp23 = tmp11 - tmp12;
         z1 = DEQUANTIZE (inp 1) (quant 1);
         z2 = DEQUANTIZE (inp 3) (quant 3);
         z3 = DEQUANTIZE (inp 5) (quant 5);
         z4 = DEQUANTIZE (inp 7) (quant 7);
         tmp11 = z2 * FIX13 9 1306562965;
         tmp14 = z2 * (- FIX_0_541196100);
         tmp10 = z1 + z3;
         tmp15 = (tmp10 + z4) * FIX13 9 860918669;
         tmp12 = tmp15 + tmp10 * FIX13 9 261052384;
         tmp10 = tmp12 + tmp11 + z1 * FIX13 9 280143716;
         tmp13 = (z3 + z4) * (- FIX13 9 1045510580);
         tmp12 = tmp12 + (tmp13 + tmp14 - z3 * FIX13 9 1478575242);
         tmp13 = tmp13 + (tmp15 - tmp11 + z4 * FIX13 9 1586706681);
         tmp15 = tmp15 + (tmp14 - z1 * FIX13 9 676326758 - z4 * FIX13 9 1982889723);
         z1 = z1 - z4;
         z2 = z2 - z3;
         z3 = (z1 + z2) * FIX_0_541196100;
         tmp11 = z3 + z1 * FIX_0_765366865;
         tmp14 = z3 - z2 * FIX_1_847759065;
         out0 = RIGHT_SHIFT (tmp20 + tmp10) (CONST_BITS - PASS1_BITS);
         out11 = RIGHT_SHIFT (tmp20 - tmp10) (CONST_BITS - PASS1_BITS);
         out1 = RIGHT_SHIFT (tmp21 + tmp11) (CONST_BITS - PASS1_BITS);
         out10 = RIGHT_SHIFT (tmp21 - tmp11) (CONST_BITS - PASS1_BITS);
         out2 = RIGHT_SHIFT (tmp22 + tmp12) (CONST_BITS - PASS1_BITS);
         out9 = RIGHT_SHIFT (tmp22 - tmp12) (CONST_BITS - PASS1_BITS);
         out3 = RIGHT_SHIFT (tmp23 + tmp13) (CONST_BITS - PASS1_BITS);
         out8 = RIGHT_SHIFT (tmp23 - tmp13) (CONST_BITS - PASS1_BITS);
         out4 = RIGHT_SHIFT (tmp24 + tmp14) (CONST_BITS - PASS1_BITS);
         out7 = RIGHT_SHIFT (tmp24 - tmp14) (CONST_BITS - PASS1_BITS);
         out5 = RIGHT_SHIFT (tmp25 + tmp15) (CONST_BITS - PASS1_BITS);
         out6 = RIGHT_SHIFT (tmp25 - tmp15) (CONST_BITS - PASS1_BITS)
     in [out0, out1, out2, out3, out4, out5, out6, out7, out8, out9, out10, out11])"

definition idct_12x12_row :: "(nat \<Rightarrow> int) \<Rightarrow> int list" where
  "idct_12x12_row ws =
    (let z3 = ws 0 + 1 * 2 ^ (PASS1_BITS + 2);
         z3 = z3 * 2 ^ CONST_BITS;
         z4 = ws 4;
         z4 = z4 * FIX13 9 1224744871;
         tmp10 = z3 + z4;
         tmp11 = z3 - z4;
         z1 = ws 2;
         z4 = z1 * FIX13 9 1366025404;
         z1 = z1 * 2 ^ CONST_BITS;
         z2 = ws 6;
         z2 = z2 * 2 ^ CONST_BITS;
         tmp12 = z1 - z2;
         tmp21 = z3 + tmp12;
         tmp24 = z3 - tmp12;
         tmp12 = z4 + z2;
         tmp20 = tmp10 + tmp12;
         tmp25 = tmp10 - tmp12;
         tmp12 = z4 - z1 - z2;
         tmp22 = tmp11 + tmp12;
         tmp23 = tmp11 - tmp12;
         z1 = ws 1;
         z2 = ws 3;
         z3 = ws 5;
         z4 = ws 7;
         tmp11 = z2 * FIX13 9 1306562965;
         tmp14 = z2 * (- FIX_0_541196100);
         tmp10 = z1 + z3;
         tmp15 = (tmp10 + z4) * FIX13 9 860918669;
         tmp12 = tmp15 + tmp10 * FIX13 9 261052384;
         tmp10 = tmp12 + tmp11 + z1 * FIX13 9 280143716;
         tmp13 = (z3 + z4) * (- FIX13 9 1045510580);
         tmp12 = tmp12 + (tmp13 + tmp14 - z3 * FIX13 9 1478575242);
         tmp13 = tmp13 + (tmp15 - tmp11 + z4 * FIX13 9 1586706681);
         tmp15 = tmp15 + (tmp14 - z1 * FIX13 9 676326758 - z4 * FIX13 9 1982889723);
         z1 = z1 - z4;
         z2 = z2 - z3;
         z3 = (z1 + z2) * FIX_0_541196100;
         tmp11 = z3 + z1 * FIX_0_765366865;
         tmp14 = z3 - z2 * FIX_1_847759065;
         out0 = RIGHT_SHIFT (tmp20 + tmp10) (CONST_BITS + PASS1_BITS + 3);
         out11 = RIGHT_SHIFT (tmp20 - tmp10) (CONST_BITS + PASS1_BITS + 3);
         out1 = RIGHT_SHIFT (tmp21 + tmp11) (CONST_BITS + PASS1_BITS + 3);
         out10 = RIGHT_SHIFT (tmp21 - tmp11) (CONST_BITS + PASS1_BITS + 3);
         out2 = RIGHT_SHIFT (tmp22 + tmp12) (CONST_BITS + PASS1_BITS + 3);
         out9 = RIGHT_SHIFT (tmp22 - tmp12) (CONST_BITS + PASS1_BITS + 3);
         out3 = RIGHT_SHIFT (tmp23 + tmp13) (CONST_BITS + PASS1_BITS + 3);
         out8 = RIGHT_SHIFT (tmp23 - tmp13) (CONST_BITS + PASS1_BITS + 3);
         out4 = RIGHT_SHIFT (tmp24 + tmp14) (CONST_BITS + PASS1_BITS + 3);
         out7 = RIGHT_SHIFT (tmp24 - tmp14) (CONST_BITS + PASS1_BITS + 3);
         out5 = RIGHT_SHIFT (tmp25 + tmp15) (CONST_BITS + PASS1_BITS + 3);
         out6 = RIGHT_SHIFT (tmp25 - tmp15) (CONST_BITS + PASS1_BITS + 3)
     in [out0, out1, out2, out3, out4, out5, out6, out7, out8, out9, out10, out11])"

definition jpeg_idct_12x12 :: "limit_table \<Rightarrow> int list \<Rightarrow> int list \<Rightarrow> samparray \<Rightarrow> nat \<Rightarrow> samparray option" where
  "jpeg_idct_12x12 range_limit dct_table coef_block output_buf output_col =
     idct_store range_limit (idct_passes 8 12 idct_12x12_col idct_12x12_row dct_table coef_block) output_buf output_col"

lemma idct_12x12_col_kernel:
  "idct_12x12_col inp quant = map (\<lambda>cs. RIGHT_SHIFT (dot 0 cs (\<lambda>j. DEQUANTIZE (inp j) (quant j)) + 1024) 11) kernel_12"
  unfolding idct_12x12_col_def kernel_12_def list.map
  by (simp add: Let_def dct_consts DESCALE_def algebra_simps del: One_nat_def)

lemma idct_12x12_col_pass: "dct_pass (\<lambda>(inp, quant). idct_12x12_col inp quant) dequantized kernel_12 11 8 160000"
  by (rule shifted_pass [where n = 10, simplified, OF _ kernel_12_fits]) (simp add: dequantized_def add: idct_12x12_col_kernel split: prod.split)

lemma idct_12x12_row_kernel:
  "idct_12x12_row ws = map (\<lambda>cs. RIGHT_SHIFT (dot 0 cs ws + 131072) 18) kernel_12"
  unfolding idct_12x12_row_def kernel_12_def list.map
  by (simp add: Let_def dct_consts DESCALE_def algebra_simps del: One_nat_def)

lemma idct_12x12_row_pass: "dct_pass idct_12x12_row (\<lambda>ws. ws) kernel_12 18 8 160000"
  by (rule shifted_pass [where n = 17, simplified, OF _ kernel_12_fits]) (simp add: idct_12x12_row_kernel split: prod.split)

interpretation i12x12: idct_pair idct_12x12_col idct_12x12_row kernel_12 11 12 kernel_12 18 12 160000 8192 2 8192 2
  by (rule idct_kernels [OF idct_12x12_col_pass idct_12x12_row_pass kernel_12_ok kernel_12_ok]) simp_all

lemma jpeg_idct_12x12_decodes:
  "rows_fit output_buf 12 (output_col + 12) \<Longrightarrow> weight (dequantized_at dct_table coef_block) \<le> 16000 \<Longrightarrow>
   \<exists>out. jpeg_idct_12x12 prepare_range_limit_table dct_table coef_block output_buf output_col = Some out \<and>
     decoded 12 12 dct_table coef_block output_buf output_col out"
  using i12x12.decodes by (simp add: jpeg_idct_12x12_def)


section \<open>13x13 samples\<close>

definition idct_13x13_col :: "(nat \<Rightarrow> int) \<Rightarrow> (nat \<Rightarrow> int) \<Rightarrow> int list" where
  "idct_13x13_col inp quant =
    (let z1 = DEQUANTIZE (inp 0) (quant 0);
         z1 = z1 * 2 ^ CONST_BITS;
         z1 = z1 + 1 * 2 ^ (CONST_BITS - PASS1_BITS - 1);
         z2 = DEQUANTIZE (inp 2) (quant 2);
         z3 = DEQUANTIZE (inp 4) (quant 4);
         z4 = DEQUANTIZE (inp 6) (quant 6);
         tmp10 = z3 + z4;
         tmp11 = z3 - z4;
         tmp12 = tmp10 * FIX13 9 1155388986;
         tmp13 = tmp11 * FIX13 9 96834934 + z1;
         tmp20 = z2 * FIX13 9 1373119086 + tmp12 + tmp13;
         tmp22 = z2 * FIX13 9 501487041 - tmp12 + tmp13;
         tmp12 = tmp10 * FIX13 9 316450131;
         tmp13 = tmp11 * FIX13 9 486914739 + z1;
         tmp21 = z2 * FIX13 9 1058554052 - tmp12 + tmp13;
         tmp25 = z2 * (- FIX13 9 1252223920) + tmp12 + tmp13;
         tmp12 = tmp10 * FIX13 9 435816023;
         tmp13 = tmp11 * FIX13 9 937303064 - z1;
         tmp23 = z2 * (- FIX13 9 170464608) - tmp12 - tmp13;
         tmp24 = z2 * (- FIX13 9 803364869) + tmp12 - tmp13;
         tmp26 = (tmp11 - z2) * FIX13 9 1414213562 + z1;
         z1 = DEQUANTIZE (inp 1) (quant 1);
         z2 = DEQUANTIZE (inp 3) (quant 3);
         z3 = DEQUANTIZE (inp 5) (quant 5);
         z4 = DEQUANTIZE (inp 7) (quant 7);
         tmp11 = (z1 + z2) * FIX13 9 1322312651;
         tmp12 = (z1 + z3) * FIX13 9 1163874945;
         tmp15 = z1 + z4;
         tmp13 = tmp15 * FIX13 9 937797057;
         tmp10 = tmp11 + tmp12 + tmp13 - z1 * FIX13 9 2020082300;
         tmp14 = (z2 + z3) * (- FIX13 9 338443458);
         tmp11 = tmp11 + (tmp14 + z2 * FIX13 9 837223564);
         tmp12 = tmp12 + (tmp14 - z3 * FIX13 9 1572116027);
         tmp14 = (z2 + z4) * (- FIX13 9 1163874945);
         tmp11 = tmp11 + tmp14;
         tmp13 = tmp13 + (tmp14 + z4 * FIX13 9 2205608352);
         tmp14 = (z3 + z4) * (- FIX13 9 657217813);
         tmp12 = tmp12 + tmp14;
         tmp13 = tmp13 + tmp14;
         tmp15 = tmp15 * FIX13 9 338443458;
         tmp14 = tmp15 + z1 * FIX13 9 318774355 - z2 * FIX13 9 466105296;
         z1 = (z3 - z2) * FIX13 9 937797057;
         tmp14 = tmp14 + z1;
         tmp15 = tmp15 + (z1 + z3 * FIX13 9 384515595 - z4 * FIX13 9 1742345811);
         out0 = RIGHT_SHIFT (tmp20 + tmp10) (CONST_BITS - PASS1_BITS);
         out12 = RIGHT_SHIFT (tmp20 - tmp10) (CONST_BITS - PASS1_BITS);
         out1 = RIGHT_SHIFT (tmp21 + tmp11) (CONST_BITS - PASS1_BITS);
         out11 = RIGHT_SHIFT (tmp21 - tmp11) (CONST_BITS - PASS1_BITS);
         out2 = RIGHT_SHIFT (tmp22 + tmp12) (CONST_BITS - PASS1_BITS);
         out10 = RIGHT_SHIFT (tmp22 - tmp12) (CONST_BITS - PASS1_BITS);
         out3 = RIGHT_SHIFT (tmp23 + tmp13) (CONST_BITS - PASS1_BITS);
         out9 = RIGHT_SHIFT (tmp23 - tmp13) (CONST_BITS - PASS1_BITS);
         out4 = RIGHT_SHIFT (tmp24 + tmp14) (CONST_BITS - PASS1_BITS);
         out8 = RIGHT_SHIFT (tmp24 - tmp14) (CONST_BITS - PASS1_BITS);
         out5 = RIGHT_SHIFT (tmp25 + tmp15) (CONST_BITS - PASS1_BITS);
         out7 = RIGHT_SHIFT (tmp25 - tmp15) (CONST_BITS - PASS1_BITS);
         out6 = RIGHT_SHIFT tmp26 (CONST_BITS - PASS1_BITS)
     in [out0, out1, out2, out3, out4, out5, out6, out7, out8, out9, out10, out11, out12])"

definition idct_13x13_row :: "(nat \<Rightarrow> int) \<Rightarrow> int list" where
  "idct_13x13_row ws =
    (let z1 = ws 0 + 1 * 2 ^ (PASS1_BITS + 2);
         z1 = z1 * 2 ^ CONST_BITS;
         z2 = ws 2;
         z3 = ws 4;
         z4 = ws 6;
         tmp10 = z3 + z4;
         tmp11 = z3 - z4;
         tmp12 = tmp10 * FIX13 9 1155388986;
         tmp13 = tmp11 * FIX13 9 96834934 + z1;
         tmp20 = z2 * FIX13 9 1373119086 + tmp12 + tmp13;
         tmp22 = z2 * FIX13 9 501487041 - tmp12 + tmp13;
         tmp12 = tmp10 * FIX13 9 316450131;
         tmp13 = tmp11 * FIX13 9 486914739 + z1;
         tmp21 = z2 * FIX13 9 1058554052 - tmp12 + tmp13;
         tmp25 = z2 * (- FIX13 9 1252223920) + tmp12 + tmp13;
         tmp12 = tmp10 * FIX13 9 435816023;
         tmp13 = tmp11 * FIX13 9 937303064 - z1;
         tmp23 = z2 * (- FIX13 9 170464608) - tmp12 - tmp13;
         tmp24 = z2 * (- FIX13 9 803364869) + tmp12 - tmp13;
         tmp26 = (tmp11 - z2) * FIX13 9 1414213562 + z1;
         z1 = ws 1;
         z2 = ws 3;
         z3 = ws 5;
         z4 = ws 7;
         tmp11 = (z1 + z2) * FIX13 9 1322312651;
         tmp12 = (z1 + z3) * FIX13 9 1163874945;
         tmp15 = z1 + z4;
         tmp13 = tmp15 * FIX13 9 937797057;
         tmp10 = tmp11 + tmp12 + tmp13 - z1 * FIX13 9 2020082300;
         tmp14 = (z2 + z3) * (- FIX13 9 338443458);
         tmp11 = tmp11 + (tmp14 + z2 * FIX13 9 837223564);
         tmp12 = tmp12 + (tmp14 - z3 * FIX13 9 1572116027);
         tmp14 = (z2 + z4) * (- FIX13 9 1163874945);
         tmp11 = tmp11 + tmp14;
         tmp13 = tmp13 + (tmp14 + z4 * FIX13 9 2205608352);
         tmp14 = (z3 + z4) * (- FIX13 9 657217813);
         tmp12 = tmp12 + tmp14;
         tmp13 = tmp13 + tmp14;
         tmp15 = tmp15 * FIX13 9 338443458;
         tmp14 = tmp15 + z1 * FIX13 9 318774355 - z2 * FIX13 9 466105296;
         z1 = (z3 - z2) * FIX13 9 937797057;
         tmp14 = tmp14 + z1;
         tmp15 = tmp15 + (z1 + z3 * FIX13 9 384515595 - z4 * FIX13 9 1742345811);
         out0 = RIGHT_SHIFT (tmp20 + tmp10) (CONST_BITS + PASS1_BITS + 3);
         out12 = RIGHT_SHIFT (tmp20 - tmp10) (CONST_BITS + PASS1_BITS + 3);
         out1 = RIGHT_SHIFT (tmp21 + tmp11) (CONST_BITS + PASS1_BITS + 3);
         out11 = RIGHT_SHIFT (tmp21 - tmp11) (CONST_BITS + PASS1_BITS + 3);
         out2 = RIGHT_SHIFT (tmp22 + tmp12) (CONST_BITS + PASS1_BITS + 3);
         out10 = RIGHT_SHIFT (tmp22 - tmp12) (CONST_BITS + PASS1_BITS + 3);
         out3 = RIGHT_SHIFT (tmp23 + tmp13) (CONST_BITS + PASS1_BITS + 3);
         out9 = RIGHT_SHIFT (tmp23 - tmp13) (CONST_BITS + PASS1_BITS + 3);
         out4 = RIGHT_SHIFT (tmp24 + tmp14) (CONST_BITS + PASS1_BITS + 3);
         out8 = RIGHT_SHIFT (tmp24 - tmp14) (CONST_BITS + PASS1_BITS + 3);
         out5 = RIGHT_SHIFT (tmp25 + tmp15) (CONST_BITS + PASS1_BITS + 3);
         out7 = RIGHT_SHIFT (tmp25 - tmp15) (CONST_BITS + PASS1_BITS + 3);
         out6 = RIGHT_SHIFT tmp26 (CONST_BITS + PASS1_BITS + 3)
     in [out0, out1, out2, out3, out4, out5, out6, out7, out8, out9, out10, out11, out12])"

definition jpeg_idct_13x13 :: "limit_table \<Rightarrow> int list \<Rightarrow> int list \<Rightarrow> samparray \<Rightarrow> nat \<Rightarrow> samparray option" where
  "jpeg_idct_13x13 range_limit dct_table coef_block output_buf output_col =
     idct_store range_limit (idct_passes 8 13 idct_13x13_col idct_13x13_row dct_table coef_block) output_buf output_col"

lemma idct_13x13_col_kernel:
  "idct_13x13_col inp quant = map (\<lambda>cs. RIGHT_SHIFT (dot 0 cs (\<lambda>j. DEQUANTIZE (inp j) (quant j)) + 1024) 11) kernel_13"
  unfolding idct_13x13_col_def kernel_13_def list.map
  by (simp add: Let_def dct_consts DESCALE_def algebra_simps del: One_nat_def)

lemma idct_13x13_col_pass: "dct_pass (\<lambda>(inp, quant). idct_13x13_col inp quant) dequantized kernel_13 11 8 160000"
  by (rule shifted_pass [where n = 10, simplified, OF _ kernel_13_fits]) (simp add: dequantized_def add: idct_13x13_col_kernel split: prod.split)

lemma idct_13x13_row_kernel:
  "idct_13x13_row ws = map (\<lambda>cs. RIGHT_SHIFT (dot 0 cs ws + 131072) 18) kernel_13"
  unfolding idct_13x13_row_def kernel_13_def list.map
  by (simp add: Let_def dct_consts DESCALE_def algebra_simps del: One_nat_def)

lemma idct_13x13_row_pass: "dct_pass idct_13x13_row (\<lambda>ws. ws) kernel_13 18 8 160000"
  by (rule shifted_pass [where n = 17, simplified, OF _ kernel_13_fits]) (simp add: idct_13x13_row_kernel split: prod.split)

interpretation i13x13: idct_pair idct_13x13_col idct_13x13_row kernel_13 11 13 kernel_13 18 13 160000 8192 2 8192 2
  by (rule idct_kernels [OF idct_13x13_col_pass idct_13x13_row_pass kernel_13_ok kernel_13_ok]) simp_all

lemma jpeg_idct_13x13_decodes:
  "rows_fit output_buf 13 (output_col + 13) \<Longrightarrow> weight (dequantized_at dct_table coef_block) \<le> 16000 \<Longrightarrow>
   \<exists>out. jpeg_idct_13x13 prepare_range_limit_table dct_table coef_block output_buf output_col = Some out \<and>
     decoded 13 13 dct_table coef_block output_buf output_col out"
  using i13x13.decodes by (simp add: jpeg_idct_13x13_def)

end
