(* ===== verification/IdctLarger.thy ===== *)
theory IdctLarger
  imports IdctAccuracy
begin

text \<open>
  The inverse DCT routines of \<open>jpeg-9a/jidctint.c\<close> for the square blocks of 14 to 16 samples a side.
  \<open>idct_NxM_col\<close> is the body of pass 1 of \<open>jpeg_idct_NxM\<close>, for the column with the coefficients \<open>inp\<close>
  and the multipliers \<open>quant\<close>, and \<open>idct_NxM_row\<close> the body of pass 2, for the row \<open>ws\<close> of the work
  array.  Each pass is shown to be a rounded product with the matrix of its number of points.
\<close>

section \<open>14x14 samples\<close>

definition idct_14x14_col :: "(nat \<Rightarrow> int) \<Rightarrow> (nat \<Rightarrow> int) \<Rightarrow> int list" where
  "idct_14x14_col inp quant =
    (let z1 = DEQUANTIZE (inp 0) (quant 0);
         z1 = z1 * 2 ^ CONST_BITS;
         z1 = z1 + 1 * 2 ^ (CONST_BITS - PASS1_BITS - 1);
         z4 = DEQUANTIZE (inp 4) (quant 4);
         z2 = z4 * FIX13 9 1274162392;
         z3 = z4 * FIX13 9 314692123;
         z4 = z4 * FIX13 9 881747734;
         tmp10 = z1 + z2;
         tmp11 = z1 + z3;
         tmp12 = z1 - z4;
         tmp23 = RIGHT_SHIFT (z1 - (z2 + z3 - z4) * 2 ^ 1) (CONST_BITS - PASS1_BITS);
         z1 = DEQUANTIZE (inp 2) (quant 2);
         z2 = DEQUANTIZE (inp 6) (quant 6);
         z3 = (z1 + z2) * FIX13 9 1105676686;
         tmp13 = z3 + z1 * FIX13 9 273079590;
         tmp14 = z3 - z2 * FIX13 9 1719280954;
         tmp15 = z1 * FIX13 9 613604268 - z2 * FIX13 9 1378756276;
         tmp20 = tmp10 + tmp13;
         tmp26 = tmp10 - tmp13;
         tmp21 = tmp11 + tmp14;
         tmp25 = tmp11 - tmp14;
         tmp22 = tmp12 + tmp15;
         tmp24 = tmp12 - tmp15;
         z1 = DEQUANTIZE (inp 1) (quant 1);
         z2 = DEQUANTIZE (inp 3) (quant 3);
         z3 = DEQUANTIZE (inp 5) (quant 5);
         z4 = DEQUANTIZE (inp 7) (quant 7);
         tmp13 = z4 * 2 ^ CONST_BITS;
         tmp14 = z1 + z3;
         tmp11 = (z1 + z2) * FIX13 9 1334852607;
         tmp12 = tmp14 * FIX13 9 1197448846;
         tmp10 = tmp11 + tmp12 + tmp13 - z1 * FIX13 9 1126980169;
         tmp14 = tmp14 * FIX13 9 752406978;
         tmp16 = tmp14 - z1 * FIX13 9 1061150426;
         z1 = z1 - z2;
         tmp15 = z1 * FIX13 9 467085129 - tmp13;
         tmp16 = tmp16 + tmp15;
         z1 = z1 + z4;
         z4 = (z2 + z3) * (- FIX13 9 158341681) - tmp13;
         tmp11 = tmp11 + (z4 - z2 * FIX13 9 424103948);
         tmp12 = tmp12 + (z4 - z3 * FIX13 9 2373959773);
         z4 = (z3 - z2) * FIX13 9 1405321284;
         tmp14 = tmp14 + (z4 + tmp13 - z3 * FIX13 10 16906431334);
         tmp15 = tmp15 + (z4 + z2 * FIX13 9 674957567);
         tmp13 = (z1 - z3) * 2 ^ PASS1_BITS;
         out0 = RIGHT_SHIFT (tmp20 + tmp10) (CONST_BITS - PASS1_BITS);
         out13 = RIGHT_SHIFT (tmp20 - tmp10) (CONST_BITS - PASS1_BITS);
         out1 = RIGHT_SHIFT (tmp21 + tmp11) (CONST_BITS - PASS1_BITS);
         out12 = RIGHT_SHIFT (tmp21 - tmp11) (CONST_BITS - PASS1_BITS);
         out2 = RIGHT_SHIFT (tmp22 + tmp12) (CONST_BITS - PASS1_BITS);
         out11 = RIGHT_SHIFT (tmp22 - tmp12) (CONST_BITS - PASS1_BITS);
         out3 = s32 (tmp23 + tmp13);
         out10 = s32 (tmp23 - tmp13);
         out4 = RIGHT_SHIFT (tmp24 + tmp14) (CONST_BITS - PASS1_BITS);
         out9 = RIGHT_SHIFT (tmp24 - tmp14) (CONST_BITS - PASS1_BITS);
         out5 = RIGHT_SHIFT (tmp25 + tmp15) (CONST_BITS - PASS1_BITS);
         out8 = RIGHT_SHIFT (tmp25 - tmp15) (CONST_BITS - PASS1_BITS);
         out6 = RIGHT_SHIFT (tmp26 + tmp16) (CONST_BITS - PASS1_BITS);
         out7 = RIGHT_SHIFT (tmp26 - tmp16) (CONST_BITS - PASS1_BITS)
     in [out0, out1, out2, out3, out4, out5, out6, out7, out8, out9, out10, out11, out12, out13])"

definition idct_14x14_row :: "(nat \<Rightarrow> int) \<Rightarrow> int list" where
  "idct_14x14_row ws =
    (let z1 = ws 0 + 1 * 2 ^ (PASS1_BITS + 2);
         z1 = z1 * 2 ^ CONST_BITS;
         z4 = ws 4;
         z2 = z4 * FIX13 9 1274162392;
         z3 = z4 * FIX13 9 314692123;
         z4 = z4 * FIX13 9 881747734;
         tmp10 = z1 + z2;
         tmp11 = z1 + z3;
         tmp12 = z1 - z4;
         tmp23 = z1 - (z2 + z3 - z4) * 2 ^ 1;
         z1 = ws 2;
         z2 = ws 6;
         z3 = (z1 + z2) * FIX13 9 1105676686;
         tmp13 = z3 + z1 * FIX13 9 273079590;
         tmp14 = z3 - z2 * FIX13 9 1719280954;
         tmp15 = z1 * FIX13 9 613604268 - z2 * FIX13 9 1378756276;
         tmp20 = tmp10 + tmp13;
         tmp26 = tmp10 - tmp13;
         tmp21 = tmp11 + tmp14;
         tmp25 = tmp11 - tmp14;
         tmp22 = tmp12 + tmp15;
         tmp24 = tmp12 - tmp15;
         z1 = ws 1;
         z2 = ws 3;
         z3 = ws 5;
         z4 = ws 7;
         z4 = z4 * 2 ^ CONST_BITS;
         tmp14 = z1 + z3;
         tmp11 = (z1 + z2) * FIX13 9 1334852607;
         tmp12 = tmp14 * FIX13 9 1197448846;
         tmp10 = tmp11 + tmp12 + z4 - z1 * FIX13 9 1126980169;
         tmp14 = tmp14 * FIX13 9 752406978;
         tmp16 = tmp14 - z1 * FIX13 9 1061150426;
         z1 = z1 - z2;
         tmp15 = z1 * FIX13 9 467085129 - z4;
         tmp16 = tmp16 + tmp15;
         tmp13 = (z2 + z3) * (- FIX13 9 158341681) - z4;
         tmp11 = tmp11 + (tmp13 - z2 * FIX13 9 424103948);
         tmp12 = tmp12 + (tmp13 - z3 * FIX13 9 2373959773);
         tmp13 = (z3 - z2) * FIX13 9 1405321284;
         tmp14 = tmp14 + (tmp13 + z4 - z3 * FIX13 10 16906431334);
         tmp15 = tmp15 + (tmp13 + z2 * FIX13 9 674957567);
         tmp13 = (z1 - z3) * 2 ^ CONST_BITS + z4;
         out0 = RIGHT_SHIFT (tmp20 + tmp10) (CONST_BITS + PASS1_BITS + 3);
         out13 = RIGHT_SHIFT (tmp20 - tmp10) (CONST_BITS + PASS1_BITS + 3);
         out1 = RIGHT_SHIFT (tmp21 + tmp11) (CONST_BITS + PASS1_BITS + 3);
         out12 = RIGHT_SHIFT (tmp21 - tmp11) (CONST_BITS + PASS1_BITS + 3);
         out2 = RIGHT_SHIFT (tmp22 + tmp12) (CONST_BITS + PASS1_BITS + 3);
         out11 = RIGHT_SHIFT (tmp22 - tmp12) (CONST_BITS + PASS1_BITS + 3);
         out3 = RIGHT_SHIFT (tmp23 + tmp13) (CONST_BITS + PASS1_BITS + 3);
         out10 = RIGHT_SHIFT (tmp23 - tmp13) (CONST_BITS + PASS1_BITS + 3);
         out4 = RIGHT_SHIFT (tmp24 + tmp14) (CONST_BITS + PASS1_BITS + 3);
         out9 = RIGHT_SHIFT (tmp24 - tmp14) (CONST_BITS + PASS1_BITS + 3);
         out5 = RIGHT_SHIFT (tmp25 + tmp15) (CONST_BITS + PASS1_BITS + 3);
         out8 = RIGHT_SHIFT (tmp25 - tmp15) (CONST_BITS + PASS1_BITS + 3);
         out6 = RIGHT_SHIFT (tmp26 + tmp16) (CONST_BITS + PASS1_BITS + 3);
         out7 = RIGHT_SHIFT (tmp26 - tmp16) (CONST_BITS + PASS1_BITS + 3)
     in [out0, out1, out2, out3, out4, out5, out6, out7, out8, out9, out10, out11, out12, out13])"

definition jpeg_idct_14x14 :: "limit_table \<Rightarrow> int list \<Rightarrow> int list \<Rightarrow> samparray \<Rightarrow> nat \<Rightarrow> samparray option" where
  "jpeg_idct_14x14 range_limit dct_table coef_block output_buf output_col =
     idct_store range_limit (idct_passes 8 14 idct_14x14_col idct_14x14_row dct_table coef_block) output_buf output_col"

lemma idct_14x14_col_kernel: "idct_14x14_col inp quant = map (split_output (\<lambda>j. DEQUANTIZE (inp j) (quant j))) parts_14"
  unfolding idct_14x14_col_def parts_14_def list.map
  by (simp add: split_output_def Let_def dct_consts DESCALE_def algebra_simps del: One_nat_def)

lemma idct_14x14_col_pass: "dct_pass (\<lambda>(inp, quant). idct_14x14_col inp quant) dequantized kernel_14 11 8 160000"
  by (rule split_pass [OF _ parts_14_ok]) (simp add: dequantized_def idct_14x14_col_kernel split: prod.split)

lemma idct_14x14_row_kernel:
  "idct_14x14_row ws = map (\<lambda>cs. RIGHT_SHIFT (dot 0 cs ws + 131072) 18) kernel_14"
  unfolding idct_14x14_row_def kernel_14_def list.map
  by (simp add: Let_def dct_consts DESCALE_def algebra_simps del: One_nat_def)

lemma idct_14x14_row_pass: "dct_pass idct_14x14_row (\<lambda>ws. ws) kernel_14 18 8 160000"
  by (rule shifted_pass [where n = 17, simplified, OF _ kernel_14_fits]) (simp add: idct_14x14_row_kernel split: prod.split)

interpretation i14x14: idct_pair idct_14x14_col idct_14x14_row kernel_14 11 14 kernel_14 18 14 160000 8192 2 8192 2
  by (rule idct_kernels [OF idct_14x14_col_pass idct_14x14_row_pass kernel_14_ok kernel_14_ok]) simp_all

lemma jpeg_idct_14x14_decodes:
  "rows_fit output_buf 14 (output_col + 14) \<Longrightarrow> weight (dequantized_at dct_table coef_block) \<le> 16000 \<Longrightarrow>
   \<exists>out. jpeg_idct_14x14 prepare_range_limit_table dct_table coef_block output_buf output_col = Some out \<and>
     decoded 14 14 dct_table coef_block output_buf output_col out"
  using i14x14.decodes by (simp add: jpeg_idct_14x14_def)


section \<open>15x15 samples\<close>

definition idct_15x15_col :: "(nat \<Rightarrow> int) \<Rightarrow> (nat \<Rightarrow> int) \<Rightarrow> int list" where
  "idct_15x15_col inp quant =
    (let z1 = DEQUANTIZE (inp 0) (quant 0);
         z1 = z1 * 2 ^ CONST_BITS;
         z1 = z1 + 1 * 2 ^ (CONST_BITS - PASS1_BITS - 1);
         z2 = DEQUANTIZE (inp 2) (quant 2);
         z3 = DEQUANTIZE (inp 4) (quant 4);
         z4 = DEQUANTIZE (inp 6) (quant 6);
         tmp10 = z4 * FIX13 9 437016024;
         tmp11 = z4 * FIX13 9 1144122806;
         tmp12 = z1 - tmp10;
         tmp13 = z1 + tmp11;
         z1 = z1 - (tmp11 - tmp10) * 2 ^ 1;
         z4 = z2 - z3;
         z3 = z3 + z2;
         tmp10 = z3 * FIX13 9 1337628990;
         tmp11 = z4 * FIX13 9 45680613;
         z2 = z2 * FIX13 9 1439773946;
         tmp20 = tmp13 + tmp10 + tmp11;
         tmp23 = tmp12 - tmp10 + tmp11 + z2;
         tmp10 = z3 * FIX13 9 547059574;
         tmp11 = z4 * FIX13 9 399234004;
         tmp25 = tmp13 - tmp10 - tmp11;
         tmp26 = tmp12 + tmp10 - tmp11 - z2;
         tmp10 = z3 * FIX13 9 790569415;
         tmp11 = z4 * FIX13 9 353553391;
         tmp21 = tmp12 + tmp10 + tmp11;
         tmp24 = tmp13 - tmp10 + tmp11;
         tmp11 = tmp11 + tmp11;
         tmp22 = z1 + tmp11;
         tmp27 = z1 - tmp11 - tmp11;
         z1 = DEQUANTIZE (inp 1) (quant 1);
         z2 = DEQUANTIZE (inp 3) (quant 3);
         z4 = DEQUANTIZE (inp 5) (quant 5);
         z3 = z4 * FIX13 9 1224744871;
         z4 = DEQUANTIZE (inp 7) (quant 7);
         tmp13 = z2 - z4;
         tmp15 = (z1 + tmp13) * FIX13 9 831253876;
         tmp11 = tmp15 + z1 * FIX13 9 513743148;
         tmp14 = tmp15 - tmp13 * FIX13 9 2176250899;
         tmp13 = z2 * (- FIX13 9 831253876);
         tmp15 = z2 * (- FIX13 9 1344997024);
         z2 = z1 - z4;
         tmp12 = z3 + z2 * FIX13 9 1406466353;
         tmp10 = tmp12 + z4 * FIX13 9 2457431844 - tmp15;
         tmp16 = tmp12 - z1 * FIX13 9 1112434820 + tmp13;
         tmp12 = z2 * FIX13 9 1224744871 - z3;
         z2 = (z1 + z4) * FIX13 9 575212477;
         tmp13 = tmp13 + (z2 + z1 * FIX13 9 475753014 - z3);
         tmp15 = tmp15 + (z2 - z4 * FIX13 9 869244010 + z3);
         out0 = RIGHT_SHIFT (tmp20 + tmp10) (CONST_BITS - PASS1_BITS);
         out14 = RIGHT_SHIFT (tmp20 - tmp10) (CONST_BITS - PASS1_BITS);
         out1 = RIGHT_SHIFT (tmp21 + tmp11) (CONST_BITS - PASS1_BITS);
         out13 = RIGHT_SHIFT (tmp21 - tmp11) (CONST_BITS - PASS1_BITS);
         out2 = RIGHT_SHIFT (tmp22 + tmp12) (CONST_BITS - PASS1_BITS);
         out12 = RIGHT_SHIFT (tmp22 - tmp12) (CONST_BITS - PASS1_BITS);
         out3 = RIGHT_SHIFT (tmp23 + tmp13) (CONST_BITS - PASS1_BITS);
         out11 = RIGHT_SHIFT (tmp23 - tmp13) (CONST_BITS - PASS1_BITS);
         out4 = RIGHT_SHIFT (tmp24 + tmp14) (CONST_BITS - PASS1_BITS);
         out10 = RIGHT_SHIFT (tmp24 - tmp14) (CONST_BITS - PASS1_BITS);
         out5 = RIGHT_SHIFT (tmp25 + tmp15) (CONST_BITS - PASS1_BITS);
         out9 = RIGHT_SHIFT (tmp25 - tmp15) (CONST_BITS - PASS1_BITS);
         out6 = RIGHT_SHIFT (tmp26 + tmp16) (CONST_BITS - PASS1_BITS);
         out8 = RIGHT_SHIFT (tmp26 - tmp16) (CONST_BITS - PASS1_BITS);
         out7 = RIGHT_SHIFT tmp27 (CONST_BITS - PASS1_BITS)
     in [out0, out1, out2, out3, out4, out5, out6, out7, out8, out9, out10, out11, out12, out13, out14])"

definition idct_15x15_row :: "(nat \<Rightarrow> int) \<Rightarrow> int list" where
  "idct_15x15_row ws =
    (let z1 = ws 0 + 1 * 2 ^ (PASS1_BITS + 2);
         z1 = z1 * 2 ^ CONST_BITS;
         z2 = ws 2;
         z3 = ws 4;
         z4 = ws 6;
         tmp10 = z4 * FIX13 9 437016024;
         tmp11 = z4 * FIX13 9 1144122806;
         tmp12 = z1 - tmp10;
         tmp13 = z1 + tmp11;
         z1 = z1 - (tmp11 - tmp10) * 2 ^ 1;
         z4 = z2 - z3;
         z3 = z3 + z2;
         tmp10 = z3 * FIX13 9 1337628990;
         tmp11 = z4 * FIX13 9 45680613;
         z2 = z2 * FIX13 9 1439773946;
         tmp20 = tmp13 + tmp10 + tmp11;
         tmp23 = tmp12 - tmp10 + tmp11 + z2;
         tmp10 = z3 * FIX13 9 547059574;
         tmp11 = z4 * FIX13 9 399234004;
         tmp25 = tmp13 - tmp10 - tmp11;
         tmp26 = tmp12 + tmp10 - tmp11 - z2;
         tmp10 = z3 * FIX13 9 790569415;
         tmp11 = z4 * FIX13 9 353553391;
         tmp21 = tmp12 + tmp10 + tmp11;
         tmp24 = tmp13 - tmp10 + tmp11;
         tmp11 = tmp11 + tmp11;
         tmp22 = z1 + tmp11;
         tmp27 = z1 - tmp11 - tmp11;
         z1 = ws 1;
         z2 = ws 3;
         z4 = ws 5;
         z3 = z4 * FIX13 9 1224744871;
         z4 = ws 7;
         tmp13 = z2 - z4;
         tmp15 = (z1 + tmp13) * FIX13 9 831253876;
         tmp11 = tmp15 + z1 * FIX13 9 513743148;
         tmp14 = tmp15 - tmp13 * FIX13 9 2176250899;
         tmp13 = z2 * (- FIX13 9 831253876);
         tmp15 = z2 * (- FIX13 9 1344997024);
         z2 = z1 - z4;
         tmp12 = z3 + z2 * FIX13 9 1406466353;
         tmp10 = tmp12 + z4 * FIX13 9 2457431844 - tmp15;
         tmp16 = tmp12 - z1 * FIX13 9 1112434820 + tmp13;
         tmp12 = z2 * FIX13 9 1224744871 - z3;
         z2 = (z1 + z4) * FIX13 9 575212477;
         tmp13 = tmp13 + (z2 + z1 * FIX13 9 475753014 - z3);
         tmp15 = tmp15 + (z2 - z4 * FIX13 9 869244010 + z3);
         out0 = RIGHT_SHIFT (tmp20 + tmp10) (CONST_BITS + PASS1_BITS + 3);
         out14 = RIGHT_SHIFT (tmp20 - tmp10) (CONST_BITS + PASS1_BITS + 3);
         out1 = RIGHT_SHIFT (tmp21 + tmp11) (CONST_BITS + PASS1_BITS + 3);
         out13 = RIGHT_SHIFT (tmp21 - tmp11) (CONST_BITS + PASS1_BITS + 3);
         out2 = RIGHT_SHIFT (tmp22 + tmp12) (CONST_BITS + PASS1_BITS + 3);
         out12 = RIGHT_SHIFT (tmp22 - tmp12) (CONST_BITS + PASS1_BITS + 3);
         out3 = RIGHT_SHIFT (tmp23 + tmp13) (CONST_BITS + PASS1_BITS + 3);
         out11 = RIGHT_SHIFT (tmp23 - tmp13) (CONST_BITS + PASS1_BITS + 3);
         out4 = RIGHT_SHIFT (tmp24 + tmp14) (CONST_BITS + PASS1_BITS + 3);
         out10 = RIGHT_SHIFT (tmp24 - tmp14) (CONST_BITS + PASS1_BITS + 3);
         out5 = RIGHT_SHIFT (tmp25 + tmp15) (CONST_BITS + PASS1_BITS + 3);
         out9 = RIGHT_SHIFT (tmp25 - tmp15) (CONST_BITS + PASS1_BITS + 3);
         out6 = RIGHT_SHIFT (tmp26 + tmp16) (CONST_BITS + PASS1_BITS + 3);
         out8 = RIGHT_SHIFT (tmp26 - tmp16) (CONST_BITS + PASS1_BITS + 3);
         out7 = RIGHT_SHIFT tmp27 (CONST_BITS + PASS1_BITS + 3)
     in [out0, out1, out2, out3, out4, out5, out6, out7, out8, out9, out10, out11, out12, out13, out14])"

definition jpeg_idct_15x15 :: "limit_table \<Rightarrow> int list \<Rightarrow> int list \<Rightarrow> samparray \<Rightarrow> nat \<Rightarrow> samparray option" where
  "jpeg_idct_15x15 range_limit dct_table coef_block output_buf output_col =
     idct_store range_limit (idct_passes 8 15 idct_15x15_col idct_15x15_row dct_table coef_block) output_buf output_col"

lemma idct_15x15_col_kernel:
  "idct_15x15_col inp quant = map (\<lambda>cs. RIGHT_SHIFT (dot 0 cs (\<lambda>j. DEQUANTIZE (inp j) (quant j)) + 1024) 11) kernel_15"
  unfolding idct_15x15_col_def kernel_15_def list.map
  by (simp add: Let_def dct_consts DESCALE_def algebra_simps del: One_nat_def)

lemma idct_15x15_col_pass: "dct_pass (\<lambda>(inp, quant). idct_15x15_col inp quant) dequantized kernel_15 11 8 160000"
  by (rule shifted_pass [where n = 10, simplified, OF _ kernel_15_fits]) (simp add: dequantized_def add: idct_15x15_col_kernel split: prod.split)

lemma idct_15x15_row_kernel:
  "idct_15x15_row ws = map (\<lambda>cs. RIGHT_SHIFT (dot 0 cs ws + 131072) 18) kernel_15"
  unfolding idct_15x15_row_def kernel_15_def list.map
  by (simp add: Let_def dct_consts DESCALE_def algebra_simps del: One_nat_def)

lemma idct_15x15_row_pass: "dct_pass idct_15x15_row (\<lambda>ws. ws) kernel_15 18 8 160000"
  by (rule shifted_pass [where n = 17, simplified, OF _ kernel_15_fits]) (simp add: idct_15x15_row_kernel split: prod.split)

interpretation i15x15: idct_pair idct_15x15_col idct_15x15_row kernel_15 11 15 kernel_15 18 15 160000 8192 2 8192 2
  by (rule idct_kernels [OF idct_15x15_col_pass idct_15x15_row_pass kernel_15_ok kernel_15_ok]) simp_all

lemma jpeg_idct_15x15_decodes:
  "rows_fit output_buf 15 (output_col + 15) \<Longrightarrow> weight (dequantized_at dct_table coef_block) \<le> 16000 \<Longrightarrow>
   \<exists>out. jpeg_idct_15x15 prepare_range_limit_table dct_table coef_block output_buf output_col = Some out \<and>
     decoded 15 15 dct_table coef_block output_buf output_col out"
  using i15x15.decodes by (simp add: jpeg_idct_15x15_def)


section \<open>16x16 samples\<close>

definition idct_16x16_col :: "(nat \<Rightarrow> int) \<Rightarrow> (nat \<Rightarrow> int) \<Rightarrow> int list" where
  "idct_16x16_col inp quant =
    (let tmp0 = DEQUANTIZE (inp 0) (quant 0);
         tmp0 = tmp0 * 2 ^ CONST_BITS;
         tmp0 = tmp0 + 1 * 2 ^ (CONST_BITS - PASS1_BITS - 1);
         z1 = DEQUANTIZE (inp 4) (quant 4);
         tmp1 = z1 * FIX13 9 1306562965;
         tmp2 = z1 * FIX_0_541196100;
         tmp10 = tmp0 + tmp1;
         tmp11 = tmp0 - tmp1;
         tmp12 = tmp0 + tmp2;
         tmp13 = tmp0 - tmp2;
         z1 = DEQUANTIZE (inp 2) (quant 2);
         z2 = DEQUANTIZE (inp 6) (quant 6);
         z3 = z1 - z2;
         z4 = z3 * FIX13 9 275899379;
         z3 = z3 * FIX13 9 1387039845;
         tmp0 = z3 + z2 * FIX_2_562915447;
         tmp1 = z4 + z1 * FIX_0_899976223;
         tmp2 = z3 - z1 * FIX13 9 601344887;
         tmp3 = z4 - z2 * FIX13 9 509795579;
         tmp20 = tmp10 + tmp0;
         tmp27 = tmp10 - tmp0;
         tmp21 = tmp12 + tmp1;
         tmp26 = tmp12 - tmp1;
         tmp22 = tmp13 + tmp2;
         tmp25 = tmp13 - tmp2;
         tmp23 = tmp11 + tmp3;
         tmp24 = tmp11 - tmp3;
         z1 = DEQUANTIZE (inp 1) (quant 1);
         z2 = DEQUANTIZE (inp 3) (quant 3);
         z3 = DEQUANTIZE (inp 5) (quant 5);
         z4 = DEQUANTIZE (inp 7) (quant 7);
         tmp11 = z1 + z3;
         tmp1 = (z1 + z2) * FIX13 9 1353318001;
         tmp2 = tmp11 * FIX13 9 1247225013;
         tmp3 = (z1 + z4) * FIX13 9 1093201867;
         tmp10 = (z1 - z4) * FIX13 9 897167586;
         tmp11 = tmp11 * FIX13 9 666655658;
         tmp12 = (z1 - z2) * FIX13 9 410524528;
         tmp0 = tmp1 + tmp2 + tmp3 - z1 * FIX13 9 2286341144;
         tmp13 = tmp10 + tmp11 + tmp12 - z1 * FIX13 9 1835730603;
         z1 = (z2 + z3) * FIX13 9 138617169;
         tmp1 = tmp1 + (z1 + z2 * FIX13 9 71888074);
         tmp2 = tmp2 + (z1 - z3 * FIX13 9 1125726048);
         z1 = (z3 - z2) * FIX13 9 1407403738;
         tmp11 = tmp11 + (z1 - z3 * FIX13 9 766367282);
         tmp12 = tmp12 + (z1 + z2 * FIX13 9 1971951411);
         z2 = z2 + z4;
         z1 = z2 * (- FIX13 9 666655658);
         tmp1 = tmp1 + z1;
         tmp3 = tmp3 + (z1 + z4 * FIX13 9 1065388962);
         z2 = z2 * (- FIX13 9 1247225013);
         tmp10 = tmp10 + (z2 + z4 * FIX13 9 3141271809);
         tmp12 = tmp12 + z2;
         z2 = (z3 + z4) * (- FIX13 9 1353318001);
         tmp2 = tmp2 + z2;
         tmp3 = tmp3 + z2;
         z2 = (z4 - z3) * FIX13 9 410524528;
         tmp10 = tmp10 + z2;
         tmp11 = tmp11 + z2;
         out0 = RIGHT_SHIFT (tmp20 + tmp0) (CONST_BITS - PASS1_BITS);
         out15 = RIGHT_SHIFT (tmp20 - tmp0) (CONST_BITS - PASS1_BITS);
         out1 = RIGHT_SHIFT (tmp21 + tmp1) (CONST_BITS - PASS1_BITS);
         out14 = RIGHT_SHIFT (tmp21 - tmp1) (CONST_BITS - PASS1_BITS);
         out2 = RIGHT_SHIFT (tmp22 + tmp2) (CONST_BITS - PASS1_BITS);
         out13 = RIGHT_SHIFT (tmp22 - tmp2) (CONST_BITS - PASS1_BITS);
         out3 = RIGHT_SHIFT (tmp23 + tmp3) (CONST_BITS - PASS1_BITS);
         out12 = RIGHT_SHIFT (tmp23 - tmp3) (CONST_BITS - PASS1_BITS);
         out4 = RIGHT_SHIFT (tmp24 + tmp10) (CONST_BITS - PASS1_BITS);
         out11 = RIGHT_SHIFT (tmp24 - tmp10) (CONST_BITS - PASS1_BITS);
         out5 = RIGHT_SHIFT (tmp25 + tmp11) (CONST_BITS - PASS1_BITS);
         out10 = RIGHT_SHIFT (tmp25 - tmp11) (CONST_BITS - PASS1_BITS);
         out6 = RIGHT_SHIFT (tmp26 + tmp12) (CONST_BITS - PASS1_BITS);
         out9 = RIGHT_SHIFT (tmp26 - tmp12) (CONST_BITS - PASS1_BITS);
         out7 = RIGHT_SHIFT (tmp27 + tmp13) (CONST_BITS - PASS1_BITS);
         out8 = RIGHT_SHIFT (tmp27 - tmp13) (CONST_BITS - PASS1_BITS)
     in [out0, out1, out2, out3, out4, out5, out6, out7, out8, out9, out10, out11, out12, out13, out14, out15])"

definition idct_16x16_row :: "(nat \<Rightarrow> int) \<Rightarrow> int list" where
  "idct_16x16_row ws =
    (let tmp0 = ws 0 + 1 * 2 ^ (PASS1_BITS + 2);
         tmp0 = tmp0 * 2 ^ CONST_BITS;
         z1 = ws 4;
         tmp1 = z1 * FIX13 9 1306562965;
         tmp2 = z1 * FIX_0_541196100;
         tmp10 = tmp0 + tmp1;
         tmp11 = tmp0 - tmp1;
         tmp12 = tmp0 + tmp2;
         tmp13 = tmp0 - tmp2;
         z1 = ws 2;
         z2 = ws 6;
         z3 = z1 - z2;
         z4 = z3 * FIX13 9 275899379;
         z3 = z3 * FIX13 9 1387039845;
         tmp0 = z3 + z2 * FIX_2_562915447;
         tmp1 = z4 + z1 * FIX_0_899976223;
         tmp2 = z3 - z1 * FIX13 9 601344887;
         tmp3 = z4 - z2 * FIX13 9 509795579;
         tmp20 = tmp10 + tmp0;
         tmp27 = tmp10 - tmp0;
         tmp21 = tmp12 + tmp1;
         tmp26 = tmp12 - tmp1;
         tmp22 = tmp13 + tmp2;
         tmp25 = tmp13 - tmp2;
         tmp23 = tmp11 + tmp3;
         tmp24 = tmp11 - tmp3;
         z1 = ws 1;
         z2 = ws 3;
         z3 = ws 5;
         z4 = ws 7;
         tmp11 = z1 + z3;
         tmp1 = (z1 + z2) * FIX13 9 1353318001;
         tmp2 = tmp11 * FIX13 9 1247225013;
         tmp3 = (z1 + z4) * FIX13 9 1093201867;
         tmp10 = (z1 - z4) * FIX13 9 897167586;
         tmp11 = tmp11 * FIX13 9 666655658;
         tmp12 = (z1 - z2) * FIX13 9 410524528;
         tmp0 = tmp1 + tmp2 + tmp3 - z1 * FIX13 9 2286341144;
         tmp13 = tmp10 + tmp11 + tmp12 - z1 * FIX13 9 1835730603;
         z1 = (z2 + z3) * FIX13 9 138617169;
         tmp1 = tmp1 + (z1 + z2 * FIX13 9 71888074);
         tmp2 = tmp2 + (z1 - z3 * FIX13 9 1125726048);
         z1 = (z3 - z2) * FIX13 9 1407403738;
         tmp11 = tmp11 + (z1 - z3 * FIX13 9 766367282);
         tmp12 = tmp12 + (z1 + z2 * FIX13 9 1971951411);
         z2 = z2 + z4;
         z1 = z2 * (- FIX13 9 666655658);
         tmp1 = tmp1 + z1;
         tmp3 = tmp3 + (z1 + z4 * FIX13 9 1065388962);
         z2 = z2 * (- FIX13 9 1247225013);
         tmp10 = tmp10 + (z2 + z4 * FIX13 9 3141271809);
         tmp12 = tmp12 + z2;
         z2 = (z3 + z4) * (- FIX13 9 1353318001);
         tmp2 = tmp2 + z2;
         tmp3 = tmp3 + z2;
         z2 = (z4 - z3) * FIX13 9 410524528;
         tmp10 = tmp10 + z2;
         tmp11 = tmp11 + z2;
         out0 = RIGHT_SHIFT (tmp20 + tmp0) (CONST_BITS + PASS1_BITS + 3);
         out15 = RIGHT_SHIFT (tmp20 - tmp0) (CONST_BITS + PASS1_BITS + 3);
         out1 = RIGHT_SHIFT (tmp21 + tmp1) (CONST_BITS + PASS1_BITS + 3);
         out14 = RIGHT_SHIFT (tmp21 - tmp1) (CONST_BITS + PASS1_BITS + 3);
         out2 = RIGHT_SHIFT (tmp22 + tmp2) (CONST_BITS + PASS1_BITS + 3);
         out13 = RIGHT_SHIFT (tmp22 - tmp2) (CONST_BITS + PASS1_BITS + 3);
         out3 = RIGHT_SHIFT (tmp23 + tmp3) (CONST_BITS + PASS1_BITS + 3);
         out12 = RIGHT_SHIFT (tmp23 - tmp3) (CONST_BITS + PASS1_BITS + 3);
         out4 = RIGHT_SHIFT (tmp24 + tmp10) (CONST_BITS + PASS1_BITS + 3);
         out11 = RIGHT_SHIFT (tmp24 - tmp10) (CONST_BITS + PASS1_BITS + 3);
         out5 = RIGHT_SHIFT (tmp25 + tmp11) (CONST_BITS + PASS1_BITS + 3);
         out10 = RIGHT_SHIFT (tmp25 - tmp11) (CONST_BITS + PASS1_BITS + 3);
         out6 = RIGHT_SHIFT (tmp26 + tmp12) (CONST_BITS + PASS1_BITS + 3);
         out9 = RIGHT_SHIFT (tmp26 - tmp12) (CONST_BITS + PASS1_BITS + 3);
         out7 = RIGHT_SHIFT (tmp27 + tmp13) (CONST_BITS + PASS1_BITS + 3);
         out8 = RIGHT_SHIFT (tmp27 - tmp13) (CONST_BITS + PASS1_BITS + 3)
     in [out0, out1, out2, out3, out4, out5, out6, out7, out8, out9, out10, out11, out12, out13, out14, out15])"

definition jpeg_idct_16x16 :: "limit_table \<Rightarrow> int list \<Rightarrow> int list \<Rightarrow> samparray \<Rightarrow> nat \<Rightarrow> samparray option" where
  "jpeg_idct_16x16 range_limit dct_table coef_block output_buf output_col =
     idct_store range_limit (idct_passes 8 16 idct_16x16_col idct_16x16_row dct_table coef_block) output_buf output_col"

lemma idct_16x16_col_kernel:
  "idct_16x16_col inp quant = map (\<lambda>cs. RIGHT_SHIFT (dot 0 cs (\<lambda>j. DEQUANTIZE (inp j) (quant j)) + 1024) 11) kernel_16"
  unfolding idct_16x16_col_def kernel_16_def list.map
  by (simp add: Let_def dct_consts DESCALE_def algebra_simps del: One_nat_def)

lemma idct_16x16_col_pass: "dct_pass (\<lambda>(inp, quant). idct_16x16_col inp quant) dequantized kernel_16 11 8 160000"
  by (rule shifted_pass [where n = 10, simplified, OF _ kernel_16_fits]) (simp add: dequantized_def add: idct_16x16_col_kernel split: prod.split)

lemma idct_16x16_row_kernel:
  "idct_16x16_row ws = map (\<lambda>cs. RIGHT_SHIFT (dot 0 cs ws + 131072) 18) kernel_16"
  unfolding idct_16x16_row_def kernel_16_def list.map
  by (simp add: Let_def dct_consts DESCALE_def algebra_simps del: One_nat_def)

lemma idct_16x16_row_pass: "dct_pass idct_16x16_row (\<lambda>ws. ws) kernel_16 18 8 160000"
  by (rule shifted_pass [where n = 17, simplified, OF _ kernel_16_fits]) (simp add: idct_16x16_row_kernel split: prod.split)

interpretation i16x16: idct_pair idct_16x16_col idct_16x16_row kernel_16 11 16 kernel_16 18 16 160000 8192 2 8192 2
  by (rule idct_kernels [OF idct_16x16_col_pass idct_16x16_row_pass kernel_16_ok kernel_16_ok]) simp_all

lemma jpeg_idct_16x16_decodes:
  "rows_fit output_buf 16 (output_col + 16) \<Longrightarrow> weight (dequantized_at dct_table coef_block) \<le> 16000 \<Longrightarrow>
   \<exists>out. jpeg_idct_16x16 prepare_range_limit_table dct_table coef_block output_buf output_col = Some out \<and>
     decoded 16 16 dct_table coef_block output_buf output_col out"
  using i16x16.decodes by (simp add: jpeg_idct_16x16_def)

end
