(* ===== verification/IdctWide.thy ===== *)
theory IdctWide
  imports IdctAccuracy
begin

text \<open>
  The inverse DCT routines of \<open>jpeg-9a/jidctint.c\<close> for the blocks twice as wide as high.
  \<open>idct_NxM_col\<close> is the body of pass 1 of \<open>jpeg_idct_NxM\<close>, for the column with the coefficients \<open>inp\<close>
  and the multipliers \<open>quant\<close>, and \<open>idct_NxM_row\<close> the body of pass 2, for the row \<open>ws\<close> of the work
  array.  Each pass is shown to be a rounded product with the matrix of its number of points.
\<close>

section \<open>16x8 samples\<close>

definition idct_16x8_col :: "(nat \<Rightarrow> int) \<Rightarrow> (nat \<Rightarrow> int) \<Rightarrow> int list" where
  "idct_16x8_col inp quant =
    (if inp 1 = 0 \<and> inp 2 = 0 \<and> inp 3 = 0 \<and> inp 4 = 0 \<and> inp 5 = 0 \<and> inp 6 = 0 \<and> inp 7 = 0
     then let dcval = s32 (DEQUANTIZE (inp 0) (quant 0) * 2 ^ PASS1_BITS) in [dcval, dcval, dcval, dcval, dcval, dcval, dcval, dcval]
     else
    (let z2 = DEQUANTIZE (inp 2) (quant 2);
         z3 = DEQUANTIZE (inp 6) (quant 6);
         z1 = (z2 + z3) * FIX_0_541196100;
         tmp2 = z1 + z2 * FIX_0_765366865;
         tmp3 = z1 - z3 * FIX_1_847759065;
         z2 = DEQUANTIZE (inp 0) (quant 0);
         z3 = DEQUANTIZE (inp 4) (quant 4);
         z2 = z2 * 2 ^ CONST_BITS;
         z3 = z3 * 2 ^ CONST_BITS;
         z2 = z2 + 1 * 2 ^ (CONST_BITS - PASS1_BITS - 1);
         tmp0 = z2 + z3;
         tmp1 = z2 - z3;
         tmp10 = tmp0 + tmp2;
         tmp13 = tmp0 - tmp2;
         tmp11 = tmp1 + tmp3;
         tmp12 = tmp1 - tmp3;
         tmp0 = DEQUANTIZE (inp 7) (quant 7);
         tmp1 = DEQUANTIZE (inp 5) (quant 5);
         tmp2 = DEQUANTIZE (inp 3) (quant 3);
         tmp3 = DEQUANTIZE (inp 1) (quant 1);
         z2 = tmp0 + tmp2;
         z3 = tmp1 + tmp3;
         z1 = (z2 + z3) * FIX_1_175875602;
         z2 = z2 * (- FIX_1_961570560);
         z3 = z3 * (- FIX_0_390180644);
         z2 = z2 + z1;
         z3 = z3 + z1;
         z1 = (tmp0 + tmp3) * (- FIX_0_899976223);
         tmp0 = tmp0 * FIX_0_298631336;
         tmp3 = tmp3 * FIX_1_501321110;
         tmp0 = tmp0 + (z1 + z2);
         tmp3 = tmp3 + (z1 + z3);
         z1 = (tmp1 + tmp2) * (- FIX_2_562915447);
         tmp1 = tmp1 * FIX_2_053119869;
         tmp2 = tmp2 * FIX_3_072711026;
         tmp1 = tmp1 + (z1 + z3);
         tmp2 = tmp2 + (z1 + z2);
         out0 = RIGHT_SHIFT (tmp10 + tmp3) (CONST_BITS - PASS1_BITS);
         out7 = RIGHT_SHIFT (tmp10 - tmp3) (CONST_BITS - PASS1_BITS);
         out1 = RIGHT_SHIFT (tmp11 + tmp2) (CONST_BITS - PASS1_BITS);
         out6 = RIGHT_SHIFT (tmp11 - tmp2) (CONST_BITS - PASS1_BITS);
         out2 = RIGHT_SHIFT (tmp12 + tmp1) (CONST_BITS - PASS1_BITS);
         out5 = RIGHT_SHIFT (tmp12 - tmp1) (CONST_BITS - PASS1_BITS);
         out3 = RIGHT_SHIFT (tmp13 + tmp0) (CONST_BITS - PASS1_BITS);
         out4 = RIGHT_SHIFT (tmp13 - tmp0) (CONST_BITS - PASS1_BITS)
     in [out0, out1, out2, out3, out4, out5, out6, out7]))"

definition idct_16x8_row :: "(nat \<Rightarrow> int) \<Rightarrow> int list" where
  "idct_16x8_row ws =
    (let tmp0 = ws 0 + 1 * 2 ^ (PASS1_BITS + 2);
         tmp0 = tmp0 * 2 ^ CONST_BITS;
         z1 = ws 4;
         tmp1 = z1 * FIX13 9 1306562965;
         tmp2 = z1 * FIX_0_541196100;
         tmp10 = tmp0 + tmp1;
         tmp11 = tmp0 - tmp1;
         tmp12 = tmp0 + tmp2;
         tmp13 = tmp0 - tmp2;
         z1 = ws 2;
         z2 = ws 6;
         z3 = z1 - z2;
         z4 = z3 * FIX13 9 275899379;
         z3 = z3 * FIX13 9 1387039845;
         tmp0 = z3 + z2 * FIX_2_562915447;
         tmp1 = z4 + z1 * FIX_0_899976223;
         tmp2 = z3 - z1 * FIX13 9 601344887;
         tmp3 = z4 - z2 * FIX13 9 509795579;
         tmp20 = tmp10 + tmp0;
         tmp27 = tmp10 - tmp0;
         tmp21 = tmp12 + tmp1;
         tmp26 = tmp12 - tmp1;
         tmp22 = tmp13 + tmp2;
         tmp25 = tmp13 - tmp2;
         tmp23 = tmp11 + tmp3;
         tmp24 = tmp11 - tmp3;
         z1 = ws 1;
         z2 = ws 3;
         z3 = ws 5;
         z4 = ws 7;
         tmp11 = z1 + z3;
         tmp1 = (z1 + z2) * FIX13 9 1353318001;
         tmp2 = tmp11 * FIX13 9 1247225013;
         tmp3 = (z1 + z4) * FIX13 9 1093201867;
         tmp10 = (z1 - z4) * FIX13 9 897167586;
         tmp11 = tmp11 * FIX13 9 666655658;
         tmp12 = (z1 - z2) * FIX13 9 410524528;
         tmp0 = tmp1 + tmp2 + tmp3 - z1 * FIX13 9 2286341144;
         tmp13 = tmp10 + tmp11 + tmp12 - z1 * FIX13 9 1835730603;
         z1 = (z2 + z3) * FIX13 9 138617169;
         tmp1 = tmp1 + (z1 + z2 * FIX13 9 71888074);
         tmp2 = tmp2 + (z1 - z3 * FIX13 9 1125726048);
         z1 = (z3 - z2) * FIX13 9 1407403738;
         tmp11 = tmp11 + (z1 - z3 * FIX13 9 766367282);
         tmp12 = tmp12 + (z1 + z2 * FIX13 9 1971951411);
         z2 = z2 + z4;
         z1 = z2 * (- FIX13 9 666655658);
         tmp1 = tmp1 + z1;
         tmp3 = tmp3 + (z1 + z4 * FIX13 9 1065388962);
         z2 = z2 * (- FIX13 9 1247225013);
         tmp10 = tmp10 + (z2 + z4 * FIX13 9 3141271809);
         tmp12 = tmp12 + z2;
         z2 = (z3 + z4) * (- FIX13 9 1353318001);
         tmp2 = tmp2 + z2;
         tmp3 = tmp3 + z2;
         z2 = (z4 - z3) * FIX13 9 410524528;
         tmp10 = tmp10 + z2;
         tmp11 = tmp11 + z2;
         out0 = RIGHT_SHIFT (tmp20 + tmp0) (CONST_BITS + PASS1_BITS + 3);
         out15 = RIGHT_SHIFT (tmp20 - tmp0) (CONST_BITS + PASS1_BITS + 3);
         out1 = RIGHT_SHIFT (tmp21 + tmp1) (CONST_BITS + PASS1_BITS + 3);
         out14 = RIGHT_SHIFT (tmp21 - tmp1) (CONST_BITS + PASS1_BITS + 3);
         out2 = RIGHT_SHIFT (tmp22 + tmp2) (CONST_BITS + PASS1_BITS + 3);
         out13 = RIGHT_SHIFT (tmp22 - tmp2) (CONST_BITS + PASS1_BITS + 3);
         out3 = RIGHT_SHIFT (tmp23 + tmp3) (CONST_BITS + PASS1_BITS + 3);
         out12 = RIGHT_SHIFT (tmp23 - tmp3) (CONST_BITS + PASS1_BITS + 3);
         out4 = RIGHT_SHIFT (tmp24 + tmp10) (CONST_BITS + PASS1_BITS + 3);
         out11 = RIGHT_SHIFT (tmp24 - tmp10) (CONST_BITS + PASS1_BITS + 3);
         out5 = RIGHT_SHIFT (tmp25 + tmp11) (CONST_BITS + PASS1_BITS + 3);
         out10 = RIGHT_SHIFT (tmp25 - tmp11) (CONST_BITS + PASS1_BITS + 3);
         out6 = RIGHT_SHIFT (tmp26 + tmp12) (CONST_BITS + PASS1_BITS + 3);
         out9 = RIGHT_SHIFT (tmp26 - tmp12) (CONST_BITS + PASS1_BITS + 3);
         out7 = RIGHT_SHIFT (tmp27 + tmp13) (CONST_BITS + PASS1_BITS + 3);
         out8 = RIGHT_SHIFT (tmp27 - tmp13) (CONST_BITS + PASS1_BITS + 3)
     in [out0, out1, out2, out3, out4, out5, out6, out7, out8, out9, out10, out11, out12, out13, out14, out15])"

definition jpeg_idct_16x8 :: "limit_table \<Rightarrow> int list \<Rightarrow> int list \<Rightarrow> samparray \<Rightarrow> nat \<Rightarrow> samparray option" where
  "jpeg_idct_16x8 range_limit dct_table coef_block output_buf output_col =
     idct_store range_limit (idct_passes 8 8 idct_16x8_col idct_16x8_row dct_table coef_block) output_buf output_col"

lemma idct_16x8_col_kernel:
  assumes "\<not> (inp 1 = 0 \<and> inp 2 = 0 \<and> inp 3 = 0 \<and> inp 4 = 0 \<and> inp 5 = 0 \<and> inp 6 = 0 \<and> inp 7 = 0)"
  shows "idct_16x8_col inp quant = map (\<lambda>cs. RIGHT_SHIFT (dot 0 cs (\<lambda>j. DEQUANTIZE (inp j) (quant j)) + 1024) 11) kernel_8"
  unfolding idct_16x8_col_def if_not_P [OF assms] kernel_8_def list.map
  by (simp add: Let_def dct_consts DESCALE_def algebra_simps del: One_nat_def)

lemma idct_16x8_col_pass: "dct_pass (\<lambda>(inp, quant). idct_16x8_col inp quant) dequantized kernel_8 11 8 160000"
proof (rule shortcut_pass [OF shifted_pass [where n = 10, simplified, OF refl kernel_8_fits]])
  let ?z = "\<lambda>(inp, quant). (inp :: nat \<Rightarrow> int) 1 = 0 \<and> (inp :: nat \<Rightarrow> int) 2 = 0 \<and> (inp :: nat \<Rightarrow> int) 3 = 0 \<and> (inp :: nat \<Rightarrow> int) 4 = 0 \<and> (inp :: nat \<Rightarrow> int) 5 = 0 \<and> (inp :: nat \<Rightarrow> int) 6 = 0 \<and> (inp :: nat \<Rightarrow> int) 7 = 0"
  show "(\<lambda>(inp, quant). idct_16x8_col inp quant) a = map (\<lambda>cs. RIGHT_SHIFT (dot 0 cs (dequantized a) + 1024) 11) kernel_8" if "\<not> ?z a" for a
    using that idct_16x8_col_kernel by (auto simp: dequantized_def)
  show "(\<lambda>(inp, quant). idct_16x8_col inp quant) a = replicate (length kernel_8) (s32 (dequantized a 0 * 2 ^ PASS1_BITS))" if "?z a" for a
    using that by (auto simp: idct_16x8_col_def dequantized_def kernel_8_def Let_def)
  show "dequantized a j = 0" if "?z a" "0 < j" "j < 8" for a j
    using that by (auto simp: dequantized_def DEQUANTIZE_def less_Suc_eq numeral_eq_Suc)
qed (simp_all add: kernel_8_def shortcut_col [simplified])

lemma idct_16x8_row_kernel:
  "idct_16x8_row ws = map (\<lambda>cs. RIGHT_SHIFT (dot 0 cs ws + 131072) 18) kernel_16"
  unfolding idct_16x8_row_def kernel_16_def list.map
  by (simp add: Let_def dct_consts DESCALE_def algebra_simps del: One_nat_def)

lemma idct_16x8_row_pass: "dct_pass idct_16x8_row (\<lambda>ws. ws) kernel_16 18 8 160000"
  by (rule shifted_pass [where n = 17, simplified, OF _ kernel_16_fits]) (simp add: idct_16x8_row_kernel split: prod.split)

interpretation i16x8: idct_pair idct_16x8_col idct_16x8_row kernel_8 11 8 kernel_16 18 16 160000 8192 2 8192 2
  by (rule idct_kernels [OF idct_16x8_col_pass idct_16x8_row_pass kernel_8_ok kernel_16_ok]) simp_all

lemma jpeg_idct_16x8_decodes:
  "rows_fit output_buf 8 (output_col + 16) \<Longrightarrow> weight (dequantized_at dct_table coef_block) \<le> 16000 \<Longrightarrow>
   \<exists>out. jpeg_idct_16x8 prepare_range_limit_table dct_table coef_block output_buf output_col = Some out \<and>
     decoded 8 16 dct_table coef_block output_buf output_col out"
  using i16x8.decodes by (simp add: jpeg_idct_16x8_def)


section \<open>14x7 samples\<close>

definition idct_14x7_col :: "(nat \<Rightarrow> int) \<Rightarrow> (nat \<Rightarrow> int) \<Rightarrow> int list" where
  "idct_14x7_col inp quant =
    (let tmp23 = DEQUANTIZE (inp 0) (quant 0);
         tmp23 = tmp23 * 2 ^ CONST_BITS;
         tmp23 = tmp23 + 1 * 2 ^ (CONST_BITS - PASS1_BITS - 1);
         z1 = DEQUANTIZE (inp 2) (quant 2);
         z2 = DEQUANTIZE (inp 4) (quant 4);
         z3 = DEQUANTIZE (inp 6) (quant 6);
         tmp20 = (z2 - z3) * FIX13 9 881747734;
         tmp22 = (z1 - z2) * FIX13 9 314692123;
         tmp21 = tmp20 + tmp22 + tmp23 - z2 * FIX13 9 1841218003;
         tmp10 = z1 + z3;
         z2 = z2 - tmp10;
         tmp10 = tmp10 * FIX13 9 1274162392 + tmp23;
         tmp20 = tmp20 + (tmp10 - z3 * FIX13 9 77722536);
         tmp22 = tmp22 + (tmp10 - z1 * FIX13 9 2470602249);
         tmp23 = tmp23 + z2 * FIX13 9 1414213562;
         z1 = DEQUANTIZE (inp 1) (quant 1);
         z2 = DEQUANTIZE (inp 3) (quant 3);
         z3 = DEQUANTIZE (inp 5) (quant 5);
         tmp11 = (z1 + z2) * FIX13 9 935414347;
         tmp12 = (z1 - z2) * FIX13 9 170262339;
         tmp10 = tmp11 - tmp12;
         tmp11 = tmp11 + tmp12;
         tmp12 = (z2 + z3) * (- FIX13 9 1378756276);
         tmp11 = tmp11 + tmp12;
         z2 = (z1 + z3) * FIX13 9 613604268;
         tmp10 = tmp10 + z2;
         tmp12 = tmp12 + (z2 + z3 * FIX13 9 1870828693);
         out0 = RIGHT_SHIFT (tmp20 + tmp10) (CONST_BITS - PASS1_BITS);
         out6 = RIGHT_SHIFT (tmp20 - tmp10) (CONST_BITS - PASS1_BITS);
         out1 = RIGHT_SHIFT (tmp21 + tmp11) (CONST_BITS - PASS1_BITS);
         out5 = RIGHT_SHIFT (tmp21 - tmp11) (CONST_BITS - PASS1_BITS);
         out2 = RIGHT_SHIFT (tmp22 + tmp12) (CONST_BITS - PASS1_BITS);
         out4 = RIGHT_SHIFT (tmp22 - tmp12) (CONST_BITS - PASS1_BITS);
         out3 = RIGHT_SHIFT tmp23 (CONST_BITS - PASS1_BITS)
     in [out0, out1, out2, out3, out4, out5, out6])"

definition idct_14x7_row :: "(nat \<Rightarrow> int) \<Rightarrow> int list" where
  "idct_14x7_row ws =
    (let z1 = ws 0 + 1 * 2 ^ (PASS1_BITS + 2);
         z1 = z1 * 2 ^ CONST_BITS;
         z4 = ws 4;
         z2 = z4 * FIX13 9 1274162392;
         z3 = z4 * FIX13 9 314692123;
         z4 = z4 * FIX13 9 881747734;
         tmp10 = z1 + z2;
         tmp11 = z1 + z3;
         tmp12 = z1 - z4;
         tmp23 = z1 - (z2 + z3 - z4) * 2 ^ 1;
         z1 = ws 2;
         z2 = ws 6;
         z3 = (z1 + z2) * FIX13 9 1105676686;
         tmp13 = z3 + z1 * FIX13 9 273079590;
         tmp14 = z3 - z2 * FIX13 9 1719280954;
         tmp15 = z1 * FIX13 9 613604268 - z2 * FIX13 9 1378756276;
         tmp20 = tmp10 + tmp13;
         tmp26 = tmp10 - tmp13;
         tmp21 = tmp11 + tmp14;
         tmp25 = tmp11 - tmp14;
         tmp22 = tmp12 + tmp15;
         tmp24 = tmp12 - tmp15;
         z1 = ws 1;
         z2 = ws 3;
         z3 = ws 5;
         z4 = ws 7;
         z4 = z4 * 2 ^ CONST_BITS;
         tmp14 = z1 + z3;
         tmp11 = (z1 + z2) * FIX13 9 1334852607;
         tmp12 = tmp14 * FIX13 9 1197448846;
         tmp10 = tmp11 + tmp12 + z4 - z1 * FIX13 9 1126980169;
         tmp14 = tmp14 * FIX13 9 752406978;
         tmp16 = tmp14 - z1 * FIX13 9 1061150426;
         z1 = z1 - z2;
         tmp15 = z1 * FIX13 9 467085129 - z4;
         tmp16 = tmp16 + tmp15;
         tmp13 = (z2 + z3) * (- FIX13 9 158341681) - z4;
         tmp11 = tmp11 + (tmp13 - z2 * FIX13 9 424103948);
         tmp12 = tmp12 + (tmp13 - z3 * FIX13 9 2373959773);
         tmp13 = (z3 - z2) * FIX13 9 1405321284;
         tmp14 = tmp14 + (tmp13 + z4 - z3 * FIX13 10 16906431334);
         tmp15 = tmp15 + (tmp13 + z2 * FIX13 9 674957567);
         tmp13 = (z1 - z3) * 2 ^ CONST_BITS + z4;
         out0 = RIGHT_SHIFT (tmp20 + tmp10) (CONST_BITS + PASS1_BITS + 3);
         out13 = RIGHT_SHIFT (tmp20 - tmp10) (CONST_BITS + PASS1_BITS + 3);
         out1 = RIGHT_SHIFT (tmp21 + tmp11) (CONST_BITS + PASS1_BITS + 3);
         out12 = RIGHT_SHIFT (tmp21 - tmp11) (CONST_BITS + PASS1_BITS + 3);
         out2 = RIGHT_SHIFT (tmp22 + tmp12) (CONST_BITS + PASS1_BITS + 3);
         out11 = RIGHT_SHIFT (tmp22 - tmp12) (CONST_BITS + PASS1_BITS + 3);
         out3 = RIGHT_SHIFT (tmp23 + tmp13) (CONST_BITS + PASS1_BITS + 3);
         out10 = RIGHT_SHIFT (tmp23 - tmp13) (CONST_BITS + PASS1_BITS + 3);
         out4 = RIGHT_SHIFT (tmp24 + tmp14) (CONST_BITS + PASS1_BITS + 3);
         out9 = RIGHT_SHIFT (tmp24 - tmp14) (CONST_BITS + PASS1_BITS + 3);
         out5 = RIGHT_SHIFT (tmp25 + tmp15) (CONST_BITS + PASS1_BITS + 3);
         out8 = RIGHT_SHIFT (tmp25 - tmp15) (CONST_BITS + PASS1_BITS + 3);
         out6 = RIGHT_SHIFT (tmp26 + tmp16) (CONST_BITS + PASS1_BITS + 3);
         out7 = RIGHT_SHIFT (tmp26 - tmp16) (CONST_BITS + PASS1_BITS + 3)
     in [out0, out1, out2, out3, out4, out5, out6, out7, out8, out9, out10, out11, out12, out13])"

definition jpeg_idct_14x7 :: "limit_table \<Rightarrow> int list \<Rightarrow> int list \<Rightarrow> samparray \<Rightarrow> nat \<Rightarrow> samparray option" where
  "jpeg_idct_14x7 range_limit dct_table coef_block output_buf output_col =
     idct_store range_limit (idct_passes 8 7 idct_14x7_col idct_14x7_row dct_table coef_block) output_buf output_col"

lemma idct_14x7_col_kernel:
  "idct_14x7_col inp quant = map (\<lambda>cs. RIGHT_SHIFT (dot 0 cs (\<lambda>j. DEQUANTIZE (inp j) (quant j)) + 1024) 11) kernel_7"
  unfolding idct_14x7_col_def kernel_7_def list.map
  by (simp add: Let_def dct_consts DESCALE_def algebra_simps del: One_nat_def)

lemma idct_14x7_col_pass: "dct_pass (\<lambda>(inp, quant). idct_14x7_col inp quant) dequantized kernel_7 11 7 160000"
  by (rule shifted_pass [where n = 10, simplified, OF _ kernel_7_fits]) (simp add: dequantized_def add: idct_14x7_col_kernel split: prod.split)

lemma idct_14x7_row_kernel:
  "idct_14x7_row ws = map (\<lambda>cs. RIGHT_SHIFT (dot 0 cs ws + 131072) 18) kernel_14"
  unfolding idct_14x7_row_def kernel_14_def list.map
  by (simp add: Let_def dct_consts DESCALE_def algebra_simps del: One_nat_def)

lemma idct_14x7_row_pass: "dct_pass idct_14x7_row (\<lambda>ws. ws) kernel_14 18 8 160000"
  by (rule shifted_pass [where n = 17, simplified, OF _ kernel_14_fits]) (simp add: idct_14x7_row_kernel split: prod.split)

interpretation i14x7: idct_pair idct_14x7_col idct_14x7_row kernel_7 11 7 kernel_14 18 14 160000 8192 2 8192 2
  by (rule idct_kernels [OF idct_14x7_col_pass idct_14x7_row_pass kernel_7_ok kernel_14_ok]) simp_all

lemma jpeg_idct_14x7_decodes:
  "rows_fit output_buf 7 (output_col + 14) \<Longrightarrow> weight (dequantized_at dct_table coef_block) \<le> 16000 \<Longrightarrow>
   \<exists>out. jpeg_idct_14x7 prepare_range_limit_table dct_table coef_block output_buf output_col = Some out \<and>
     decoded 7 14 dct_table coef_block output_buf output_col out"
  using i14x7.decodes by (simp add: jpeg_idct_14x7_def)


section \<open>12x6 samples\<close>

definition idct_12x6_col :: "(nat \<Rightarrow> int) \<Rightarrow> (nat \<Rightarrow> int) \<Rightarrow> int list" where
  "idct_12x6_col inp quant =
    (let tmp10 = DEQUANTIZE (inp 0) (quant 0);
         tmp10 = tmp10 * 2 ^ CONST_BITS;
         tmp10 = tmp10 + 1 * 2 ^ (CONST_BITS - PASS1_BITS - 1);
         tmp12 = DEQUANTIZE (inp 4) (quant 4);
         tmp20 = tmp12 * FIX13 9 707106781;
         tmp11 = tmp10 + tmp20;
         tmp21 = RIGHT_SHIFT (tmp10 - tmp20 - tmp20) (CONST_BITS - PASS1_BITS);
         tmp20 = DEQUANTIZE (inp 2) (quant 2);
         tmp10 = tmp20 * FIX13 9 1224744871;
         tmp20 = tmp11 + tmp10;
         tmp22 = tmp11 - tmp10;
         z1 = DEQUANTIZE (inp 1) (quant 1);
         z2 = DEQUANTIZE (inp 3) (quant 3);
         z3 = DEQUANTIZE (inp 5) (quant 5);
         tmp11 = (z1 + z3) * FIX13 9 366025404;
         tmp10 = tmp11 + (z1 + z2) * 2 ^ CONST_BITS;
         tmp12 = tmp11 + (z3 - z2) * 2 ^ CONST_BITS;
         tmp11 = (z1 - z2 - z3) * 2 ^ PASS1_BITS;
         out0 = RIGHT_SHIFT (tmp20 + tmp10) (CONST_BITS - PASS1_BITS);
         out5 = RIGHT_SHIFT (tmp20 - tmp10) (CONST_BITS - PASS1_BITS);
         out1 = s32 (tmp21 + tmp11);
         out4 = s32 (tmp21 - tmp11);
         out2 = RIGHT_SHIFT (tmp22 + tmp12) (CONST_BITS - PASS1_BITS);
         out3 = RIGHT_SHIFT (tmp22 - tmp12) (CONST_BITS - PASS1_BITS)
     in [out0, out1, out2, out3, out4, out5])"

definition idct_12x6_row :: "(nat \<Rightarrow> int) \<Rightarrow> int list" where
  "idct_12x6_row ws =
    (let z3 = ws 0 + 1 * 2 ^ (PASS1_BITS + 2);
         z3 = z3 * 2 ^ CONST_BITS;
         z4 = ws 4;
         z4 = z4 * FIX13 9 1224744871;
         tmp10 = z3 + z4;
         tmp11 = z3 - z4;
         z1 = ws 2;
         z4 = z1 * FIX13 9 1366025404;
         z1 = z1 * 2 ^ CONST_BITS;
         z2 = ws 6;
         z2 = z2 * 2 ^ CONST_BITS;
         tmp12 = z1 - z2;
         tmp21 = z3 + tmp12;
         tmp24 = z3 - tmp12;
         tmp12 = z4 + z2;
         tmp20 = tmp10 + tmp12;
         tmp25 = tmp10 - tmp12;
         tmp12 = z4 - z1 - z2;
         tmp22 = tmp11 + tmp12;
         tmp23 = tmp11 - tmp12;
         z1 = ws 1;
         z2 = ws 3;
         z3 = ws 5;
         z4 = ws 7;
         tmp11 = z2 * FIX13 9 1306562965;
         tmp14 = z2 * (- FIX_0_541196100);
         tmp10 = z1 + z3;
         tmp15 = (tmp10 + z4) * FIX13 9 860918669;
         tmp12 = tmp15 + tmp10 * FIX13 9 261052384;
         tmp10 = tmp12 + tmp11 + z1 * FIX13 9 280143716;
         tmp13 = (z3 + z4) * (- FIX13 9 1045510580);
         tmp12 = tmp12 + (tmp13 + tmp14 - z3 * FIX13 9 1478575242);
         tmp13 = tmp13 + (tmp15 - tmp11 + z4 * FIX13 9 1586706681);
         tmp15 = tmp15 + (tmp14 - z1 * FIX13 9 676326758 - z4 * FIX13 9 1982889723);
         z1 = z1 - z4;
         z2 = z2 - z3;
         z3 = (z1 + z2) * FIX_0_541196100;
         tmp11 = z3 + z1 * FIX_0_765366865;
         tmp14 = z3 - z2 * FIX_1_847759065;
         out0 = RIGHT_SHIFT (tmp20 + tmp10) (CONST_BITS + PASS1_BITS + 3);
         out11 = RIGHT_SHIFT (tmp20 - tmp10) (CONST_BITS + PASS1_BITS + 3);
         out1 = RIGHT_SHIFT (tmp21 + tmp11) (CONST_BITS + PASS1_BITS + 3);
         out10 = RIGHT_SHIFT (tmp21 - tmp11) (CONST_BITS + PASS1_BITS + 3);
         out2 = RIGHT_SHIFT (tmp22 + tmp12) (CONST_BITS + PASS1_BITS + 3);
         out9 = RIGHT_SHIFT (tmp22 - tmp12) (CONST_BITS + PASS1_BITS + 3);
         out3 = RIGHT_SHIFT (tmp23 + tmp13) (CONST_BITS + PASS1_BITS + 3);
         out8 = RIGHT_SHIFT (tmp23 - tmp13) (CONST_BITS + PASS1_BITS + 3);
         out4 = RIGHT_SHIFT (tmp24 + tmp14) (CONST_BITS + PASS1_BITS + 3);
         out7 = RIGHT_SHIFT (tmp24 - tmp14) (CONST_BITS + PASS1_BITS + 3);
         out5 = RIGHT_SHIFT (tmp25 + tmp15) (CONST_BITS + PASS1_BITS + 3);
         out6 = RIGHT_SHIFT (tmp25 - tmp15) (CONST_BITS + PASS1_BITS + 3)
     in [out0, out1, out2, out3, out4, out5, out6, out7, out8, out9, out10, out11])"

definition jpeg_idct_12x6 :: "limit_table \<Rightarrow> int list \<Rightarrow> int list \<Rightarrow> samparray \<Rightarrow> nat \<Rightarrow> samparray option" where
  "jpeg_idct_12x6 range_limit dct_table coef_block output_buf output_col =
     idct_store range_limit (idct_passes 8 6 idct_12x6_col idct_12x6_row dct_table coef_block) output_buf output_col"

lemma idct_12x6_col_kernel: "idct_12x6_col inp quant = map (split_output (\<lambda>j. DEQUANTIZE (inp j) (quant j))) parts_6"
  unfolding idct_12x6_col_def parts_6_def list.map
  by (simp add: split_output_def Let_def dct_consts DESCALE_def algebra_simps del: One_nat_def)

lemma idct_12x6_col_pass: "dct_pass (\<lambda>(inp, quant). idct_12x6_col inp quant) dequantized kernel_6 11 6 160000"
  by (rule split_pass [OF _ parts_6_ok]) (simp add: dequantized_def idct_12x6_col_kernel split: prod.split)

lemma idct_12x6_row_kernel:
  "idct_12x6_row ws = map (\<lambda>cs. RIGHT_SHIFT (dot 0 cs ws + 131072) 18) kernel_12"
  unfolding idct_12x6_row_def kernel_12_def list.map
  by (simp add: Let_def dct_consts DESCALE_def algebra_simps del: One_nat_def)

lemma idct_12x6_row_pass: "dct_pass idct_12x6_row (\<lambda>ws. ws) kernel_12 18 8 160000"
  by (rule shifted_pass [where n = 17, simplified, OF _ kernel_12_fits]) (simp add: idct_12x6_row_kernel split: prod.split)

interpretation i12x6: idct_pair idct_12x6_col idct_12x6_row kernel_6 11 6 kernel_12 18 12 160000 8192 2 8192 2
  by (rule idct_kernels [OF idct_12x6_col_pass idct_12x6_row_pass kernel_6_ok kernel_12_ok]) simp_all

lemma jpeg_idct_12x6_decodes:
  "rows_fit output_buf 6 (output_col + 12) \<Longrightarrow> weight (dequantized_at dct_table coef_block) \<le> 16000 \<Longrightarrow>
   \<exists>out. jpeg_idct_12x6 prepare_range_limit_table dct_table coef_block output_buf output_col = Some out \<and>
     decoded 6 12 dct_table coef_block output_buf output_col out"
  using i12x6.decodes by (simp add: jpeg_idct_12x6_def)


section \<open>10x5 samples\<close>

definition idct_10x5_col :: "(nat \<Rightarrow> int) \<Rightarrow> (nat \<Rightarrow> int) \<Rightarrow> int list" where
  "idct_10x5_col inp quant =
    (let tmp12 = DEQUANTIZE (inp 0) (quant 0);
         tmp12 = tmp12 * 2 ^ CONST_BITS;
         tmp12 = tmp12 + 1 * 2 ^ (CONST_BITS - PASS1_BITS - 1);
         tmp13 = DEQUANTIZE (inp 2) (quant 2);
         tmp14 = DEQUANTIZE (inp 4) (quant 4);
         z1 = (tmp13 + tmp14) * FIX13 9 790569415;
         z2 = (tmp13 - tmp14) * FIX13 9 353553391;
         z3 = tmp12 + z2;
         tmp10 = z3 + z1;
         tmp11 = z3 - z1;
         tmp12 = tmp12 - z2 * 2 ^ 2;
         z2 = DEQUANTIZE (inp 1) (quant 1);
         z3 = DEQUANTIZE (inp 3) (quant 3);
         z1 = (z2 + z3) * FIX13 9 831253876;
         tmp13 = z1 + z2 * FIX13 9 513743148;
         tmp14 = z1 - z3 * FIX13 9 2176250899;
         out0 = RIGHT_SHIFT (tmp10 + tmp13) (CONST_BITS - PASS1_BITS);
         out4 = RIGHT_SHIFT (tmp10 - tmp13) (CONST_BITS - PASS1_BITS);
         out1 = RIGHT_SHIFT (tmp11 + tmp14) (CONST_BITS - PASS1_BITS);
         out3 = RIGHT_SHIFT (tmp11 - tmp14) (CONST_BITS - PASS1_BITS);
         out2 = RIGHT_SHIFT tmp12 (CONST_BITS - PASS1_BITS)
     in [out0, out1, out2, out3, out4])"

definition idct_10x5_row :: "(nat \<Rightarrow> int) \<Rightarrow> int list" where
  "idct_10x5_row ws =
    (let z3 = ws 0 + 1 * 2 ^ (PASS1_BITS + 2);
         z3 = z3 * 2 ^ CONST_BITS;
         z4 = ws 4;
         z1 = z4 * FIX13 9 1144122806;
         z2 = z4 * FIX13 9 437016024;
         tmp10 = z3 + z1;
         tmp11 = z3 - z2;
         tmp22 = z3 - (z1 - z2) * 2 ^ 1;
         z2 = ws 2;
         z3 = ws 6;
         z1 = (z2 + z3) * FIX13 9 831253876;
         tmp12 = z1 + z2 * FIX13 9 513743148;
         tmp13 = z1 - z3 * FIX13 9 2176250899;
         tmp20 = tmp10 + tmp12;
         tmp24 = tmp10 - tmp12;
         tmp21 = tmp11 + tmp13;
         tmp23 = tmp11 - tmp13;
         z1 = ws 1;
         z2 = ws 3;
         z3 = ws 5;
         z3 = z3 * 2 ^ CONST_BITS;
         z4 = ws 7;
         tmp11 = z2 + z4;
         tmp13 = z2 - z4;
         tmp12 = tmp13 * FIX13 9 309016994;
         z2 = tmp11 * FIX13 9 951056516;
         z4 = z3 + tmp12;
         tmp10 = z1 * FIX13 9 1396802247 + z2 + z4;
         tmp14 = z1 * FIX13 9 221231742 - z2 + z4;
         z2 = tmp11 * FIX13 9 587785252;
         z4 = z3 - tmp12 - tmp13 * 2 ^ (CONST_BITS - 1);
         tmp12 = (z1 - tmp13) * 2 ^ CONST_BITS - z3;
         tmp11 = z1 * FIX13 9 1260073511 - z2 - z4;
         tmp13 = z1 * FIX13 9 642039522 - z2 + z4;
         out0 = RIGHT_SHIFT (tmp20 + tmp10) (CONST_BITS + PASS1_BITS + 3);
         out9 = RIGHT_SHIFT (tmp20 - tmp10) (CONST_BITS + PASS1_BITS + 3);
         out1 = RIGHT_SHIFT (tmp21 + tmp11) (CONST_BITS + PASS1_BITS + 3);
         out8 = RIGHT_SHIFT (tmp21 - tmp11) (CONST_BITS + PASS1_BITS + 3);
         out2 = RIGHT_SHIFT (tmp22 + tmp12) (CONST_BITS + PASS1_BITS + 3);
         out7 = RIGHT_SHIFT (tmp22 - tmp12) (CONST_BITS + PASS1_BITS + 3);
         out3 = RIGHT_SHIFT (tmp23 + tmp13) (CONST_BITS + PASS1_BITS + 3);
         out6 = RIGHT_SHIFT (tmp23 - tmp13) (CONST_BITS + PASS1_BITS + 3);
         out4 = RIGHT_SHIFT (tmp24 + tmp14) (CONST_BITS + PASS1_BITS + 3);
         out5 = RIGHT_SHIFT (tmp24 - tmp14) (CONST_BITS + PASS1_BITS + 3)
     in [out0, out1, out2, out3, out4, out5, out6, out7, out8, out9])"

definition jpeg_idct_10x5 :: "limit_table \<Rightarrow> int list \<Rightarrow> int list \<Rightarrow> samparray \<Rightarrow> nat \<Rightarrow> samparray option" where
  "jpeg_idct_10x5 range_limit dct_table coef_block output_buf output_col =
     idct_store range_limit (idct_passes 8 5 idct_10x5_col idct_10x5_row dct_table coef_block) output_buf output_col"

lemma idct_10x5_col_kernel:
  "idct_10x5_col inp quant = map (\<lambda>cs. RIGHT_SHIFT (dot 0 cs (\<lambda>j. DEQUANTIZE (inp j) (quant j)) + 1024) 11) kernel_5"
  unfolding idct_10x5_col_def kernel_5_def list.map
  by (simp add: Let_def dct_consts DESCALE_def algebra_simps del: One_nat_def)

lemma idct_10x5_col_pass: "dct_pass (\<lambda>(inp, quant). idct_10x5_col inp quant) dequantized kernel_5 11 5 160000"
  by (rule shifted_pass [where n = 10, simplified, OF _ kernel_5_fits]) (simp add: dequantized_def add: idct_10x5_col_kernel split: prod.split)

lemma idct_10x5_row_kernel:
  "idct_10x5_row ws = map (\<lambda>cs. RIGHT_SHIFT (dot 0 cs ws + 131072) 18) kernel_10"
  unfolding idct_10x5_row_def kernel_10_def list.map
  by (simp add: Let_def dct_consts DESCALE_def algebra_simps del: One_nat_def)

lemma idct_10x5_row_pass: "dct_pass idct_10x5_row (\<lambda>ws. ws) kernel_10 18 8 160000"
  by (rule shifted_pass [where n = 17, simplified, OF _ kernel_10_fits]) (simp add: idct_10x5_row_kernel split: prod.split)

interpretation i10x5: idct_pair idct_10x5_col idct_10x5_row kernel_5 11 5 kernel_10 18 10 160000 8192 2 8192 2
  by (rule idct_kernels [OF idct_10x5_col_pass idct_10x5_row_pass kernel_5_ok kernel_10_ok]) simp_all

lemma jpeg_idct_10x5_decodes:
  "rows_fit output_buf 5 (output_col + 10) \<Longrightarrow> weight (dequantized_at dct_table coef_block) \<le> 16000 \<Longrightarrow>
   \<exists>out. jpeg_idct_10x5 prepare_range_limit_table dct_table coef_block output_buf output_col = Some out \<and>
     decoded 5 10 dct_table coef_block output_buf output_col out"
  using i10x5.decodes by (simp add: jpeg_idct_10x5_def)


section \<open>8x4 samples\<close>

definition idct_8x4_col :: "(nat \<Rightarrow> int) \<Rightarrow> (nat \<Rightarrow> int) \<Rightarrow> int list" where
  "idct_8x4_col inp quant =
    (let tmp0 = DEQUANTIZE (inp 0) (quant 0);
         tmp2 = DEQUANTIZE (inp 2) (quant 2);
         tmp10 = (tmp0 + tmp2) * 2 ^ PASS1_BITS;
         tmp12 = (tmp0 - tmp2) * 2 ^ PASS1_BITS;
         z2 = DEQUANTIZE (inp 1) (quant 1);
         z3 = DEQUANTIZE (inp 3) (quant 3);
         z1 = (z2 + z3) * FIX_0_541196100;
         z1 = z1 + 1 * 2 ^ (CONST_BITS - PASS1_BITS - 1);
         tmp0 = RIGHT_SHIFT (z1 + z2 * FIX_0_765366865) (CONST_BITS - PASS1_BITS);
         tmp2 = RIGHT_SHIFT (z1 - z3 * FIX_1_847759065) (CONST_BITS - PASS1_BITS);
         out0 = s32 (tmp10 + tmp0);
         out3 = s32 (tmp10 - tmp0);
         out1 = s32 (tmp12 + tmp2);
         out2 = s32 (tmp12 - tmp2)
     in [out0, out1, out2, out3])"

definition idct_8x4_row :: "(nat \<Rightarrow> int) \<Rightarrow> int list" where
  "idct_8x4_row ws =
    (let z2 = ws 2;
         z3 = ws 6;
         z1 = (z2 + z3) * FIX_0_541196100;
         tmp2 = z1 + z2 * FIX_0_765366865;
         tmp3 = z1 - z3 * FIX_1_847759065;
         z2 = ws 0 + 1 * 2 ^ (PASS1_BITS + 2);
         z3 = ws 4;
         tmp0 = (z2 + z3) * 2 ^ CONST_BITS;
         tmp1 = (z2 - z3) * 2 ^ CONST_BITS;
         tmp10 = tmp0 + tmp2;
         tmp13 = tmp0 - tmp2;
         tmp11 = tmp1 + tmp3;
         tmp12 = tmp1 - tmp3;
         tmp0 = ws 7;
         tmp1 = ws 5;
         tmp2 = ws 3;
         tmp3 = ws 1;
         z2 = tmp0 + tmp2;
         z3 = tmp1 + tmp3;
         z1 = (z2 + z3) * FIX_1_175875602;
         z2 = z2 * (- FIX_1_961570560);
         z3 = z3 * (- FIX_0_390180644);
         z2 = z2 + z1;
         z3 = z3 + z1;
         z1 = (tmp0 + tmp3) * (- FIX_0_899976223);
         tmp0 = tmp0 * FIX_0_298631336;
         tmp3 = tmp3 * FIX_1_501321110;
         tmp0 = tmp0 + (z1 + z2);
         tmp3 = tmp3 + (z1 + z3);
         z1 = (tmp1 + tmp2) * (- FIX_2_562915447);
         tmp1 = tmp1 * FIX_2_053119869;
         tmp2 = tmp2 * FIX_3_072711026;
         tmp1 = tmp1 + (z1 + z3);
         tmp2 = tmp2 + (z1 + z2);
         out0 = RIGHT_SHIFT (tmp10 + tmp3) (CONST_BITS + PASS1_BITS + 3);
         out7 = RIGHT_SHIFT (tmp10 - tmp3) (CONST_BITS + PASS1_BITS + 3);
         out1 = RIGHT_SHIFT (tmp11 + tmp2) (CONST_BITS + PASS1_BITS + 3);
         out6 = RIGHT_SHIFT (tmp11 - tmp2) (CONST_BITS + PASS1_BITS + 3);
         out2 = RIGHT_SHIFT (tmp12 + tmp1) (CONST_BITS + PASS1_BITS + 3);
         out5 = RIGHT_SHIFT (tmp12 - tmp1) (CONST_BITS + PASS1_BITS + 3);
         out3 = RIGHT_SHIFT (tmp13 + tmp0) (CONST_BITS + PASS1_BITS + 3);
         out4 = RIGHT_SHIFT (tmp13 - tmp0) (CONST_BITS + PASS1_BITS + 3)
     in [out0, out1, out2, out3, out4, out5, out6, out7])"

definition jpeg_idct_8x4 :: "limit_table \<Rightarrow> int list \<Rightarrow> int list \<Rightarrow> samparray \<Rightarrow> nat \<Rightarrow> samparray option" where
  "jpeg_idct_8x4 range_limit dct_table coef_block output_buf output_col =
     idct_store range_limit (idct_passes 8 4 idct_8x4_col idct_8x4_row dct_table coef_block) output_buf output_col"

lemma idct_8x4_col_kernel: "idct_8x4_col inp quant = map (split_output (\<lambda>j. DEQUANTIZE (inp j) (quant j))) parts_4"
  unfolding idct_8x4_col_def parts_4_def list.map
  by (simp add: split_output_def Let_def dct_consts DESCALE_def algebra_simps del: One_nat_def)

lemma idct_8x4_col_pass: "dct_pass (\<lambda>(inp, quant). idct_8x4_col inp quant) dequantized kernel_4 11 4 160000"
  by (rule split_pass [OF _ parts_4_ok]) (simp add: dequantized_def idct_8x4_col_kernel split: prod.split)

lemma idct_8x4_row_kernel:
  "idct_8x4_row ws = map (\<lambda>cs. RIGHT_SHIFT (dot 0 cs ws + 131072) 18) kernel_8"
  unfolding idct_8x4_row_def kernel_8_def list.map
  by (simp add: Let_def dct_consts DESCALE_def algebra_simps del: One_nat_def)

lemma idct_8x4_row_pass: "dct_pass idct_8x4_row (\<lambda>ws. ws) kernel_8 18 8 160000"
  by (rule shifted_pass [where n = 17, simplified, OF _ kernel_8_fits]) (simp add: idct_8x4_row_kernel split: prod.split)

interpretation i8x4: idct_pair idct_8x4_col idct_8x4_row kernel_4 11 4 kernel_8 18 8 160000 8192 2 8192 2
  by (rule idct_kernels [OF idct_8x4_col_pass idct_8x4_row_pass kernel_4_ok kernel_8_ok]) simp_all

lemma jpeg_idct_8x4_decodes:
  "rows_fit output_buf 4 (output_col + 8) \<Longrightarrow> weight (dequantized_at dct_table coef_block) \<le> 16000 \<Longrightarrow>
   \<exists>out. jpeg_idct_8x4 prepare_range_limit_table dct_table coef_block output_buf output_col = Some out \<and>
     decoded 4 8 dct_table coef_block output_buf output_col out"
  using i8x4.decodes by (simp add: jpeg_idct_8x4_def)


section \<open>6x3 samples\<close>

definition idct_6x3_col :: "(nat \<Rightarrow> int) \<Rightarrow> (nat \<Rightarrow> int) \<Rightarrow> int list" where
  "idct_6x3_col inp quant =
    (let tmp0 = DEQUANTIZE (inp 0) (quant 0);
         tmp0 = tmp0 * 2 ^ CONST_BITS;
         tmp0 = tmp0 + 1 * 2 ^ (CONST_BITS - PASS1_BITS - 1);
         tmp2 = DEQUANTIZE (inp 2) (quant 2);
         tmp12 = tmp2 * FIX13 9 707106781;
         tmp10 = tmp0 + tmp12;
         tmp2 = tmp0 - tmp12 - tmp12;
         tmp12 = DEQUANTIZE (inp 1) (quant 1);
         tmp0 = tmp12 * FIX13 9 1224744871;
         out0 = RIGHT_SHIFT (tmp10 + tmp0) (CONST_BITS - PASS1_BITS);
         out2 = RIGHT_SHIFT (tmp10 - tmp0) (CONST_BITS - PASS1_BITS);
         out1 = RIGHT_SHIFT tmp2 (CONST_BITS - PASS1_BITS)
     in [out0, out1, out2])"

definition idct_6x3_row :: "(nat \<Rightarrow> int) \<Rightarrow> int list" where
  "idct_6x3_row ws =
    (let tmp0 = ws 0 + 1 * 2 ^ (PASS1_BITS + 2);
         tmp0 = tmp0 * 2 ^ CONST_BITS;
         tmp2 = ws 4;
         tmp10 = tmp2 * FIX13 9 707106781;
         tmp1 = tmp0 + tmp10;
         tmp11 = tmp0 - tmp10 - tmp10;
         tmp10 = ws 2;
         tmp0 = tmp10 * FIX13 9 1224744871;
         tmp10 = tmp1 + tmp0;
         tmp12 = tmp1 - tmp0;
         z1 = ws 1;
         z2 = ws 3;
         z3 = ws 5;
         tmp1 = (z1 + z3) * FIX13 9 366025404;
         tmp0 = tmp1 + (z1 + z2) * 2 ^ CONST_BITS;
         tmp2 = tmp1 + (z3 - z2) * 2 ^ CONST_BITS;
         tmp1 = (z1 - z2 - z3) * 2 ^ CONST_BITS;
         out0 = RIGHT_SHIFT (tmp10 + tmp0) (CONST_BITS + PASS1_BITS + 3);
         out5 = RIGHT_SHIFT (tmp10 - tmp0) (CONST_BITS + PASS1_BITS + 3);
         out1 = RIGHT_SHIFT (tmp11 + tmp1) (CONST_BITS + PASS1_BITS + 3);
         out4 = RIGHT_SHIFT (tmp11 - tmp1) (CONST_BITS + PASS1_BITS + 3);
         out2 = RIGHT_SHIFT (tmp12 + tmp2) (CONST_BITS + PASS1_BITS + 3);
         out3 = RIGHT_SHIFT (tmp12 - tmp2) (CONST_BITS + PASS1_BITS + 3)
     in [out0, out1, out2, out3, out4, out5])"

definition jpeg_idct_6x3 :: "limit_table \<Rightarrow> int list \<Rightarrow> int list \<Rightarrow> samparray \<Rightarrow> nat \<Rightarrow> samparray option" where
  "jpeg_idct_6x3 range_limit dct_table coef_block output_buf output_col =
     idct_store range_limit (idct_passes 6 3 idct_6x3_col idct_6x3_row dct_table coef_block) output_buf output_col"

lemma idct_6x3_col_kernel:
  "idct_6x3_col inp quant = map (\<lambda>cs. RIGHT_SHIFT (dot 0 cs (\<lambda>j. DEQUANTIZE (inp j) (quant j)) + 1024) 11) kernel_3"
  unfolding idct_6x3_col_def kernel_3_def list.map
  by (simp add: Let_def dct_consts DESCALE_def algebra_simps del: One_nat_def)

lemma idct_6x3_col_pass: "dct_pass (\<lambda>(inp, quant). idct_6x3_col inp quant) dequantized kernel_3 11 3 160000"
  by (rule shifted_pass [where n = 10, simplified, OF _ kernel_3_fits]) (simp add: dequantized_def add: idct_6x3_col_kernel split: prod.split)

lemma idct_6x3_row_kernel:
  "idct_6x3_row ws = map (\<lambda>cs. RIGHT_SHIFT (dot 0 cs ws + 131072) 18) kernel_6"
  unfolding idct_6x3_row_def kernel_6_def list.map
  by (simp add: Let_def dct_consts DESCALE_def algebra_simps del: One_nat_def)

lemma idct_6x3_row_pass: "dct_pass idct_6x3_row (\<lambda>ws. ws) kernel_6 18 6 160000"
  by (rule shifted_pass [where n = 17, simplified, OF _ kernel_6_fits]) (simp add: idct_6x3_row_kernel split: prod.split)

interpretation i6x3: idct_pair idct_6x3_col idct_6x3_row kernel_3 11 3 kernel_6 18 6 160000 8192 2 8192 2
  by (rule idct_kernels [OF idct_6x3_col_pass idct_6x3_row_pass kernel_3_ok kernel_6_ok]) simp_all

lemma jpeg_idct_6x3_decodes:
  "rows_fit output_buf 3 (output_col + 6) \<Longrightarrow> weight (dequantized_at dct_table coef_block) \<le> 16000 \<Longrightarrow>
   \<exists>out. jpeg_idct_6x3 prepare_range_limit_table dct_table coef_block output_buf output_col = Some out \<and>
     decoded 3 6 dct_table coef_block output_buf output_col out"
  using i6x3.decodes by (simp add: jpeg_idct_6x3_def)


section \<open>4x2 samples\<close>

definition idct_4x2_col :: "(nat \<Rightarrow> int) \<Rightarrow> (nat \<Rightarrow> int) \<Rightarrow> int list" where
  "idct_4x2_col inp quant =
    (let tmp10 = DEQUANTIZE (inp 0) (quant 0);
         tmp0 = DEQUANTIZE (inp 1) (quant 1);
         out0 = s32 (tmp10 + tmp0);
         out1 = s32 (tmp10 - tmp0)
     in [out0, out1])"

definition idct_4x2_row :: "(nat \<Rightarrow> int) \<Rightarrow> int list" where
  "idct_4x2_row ws =
    (let tmp0 = ws 0 + 1 * 2 ^ 2;
         tmp2 = ws 2;
         tmp10 = (tmp0 + tmp2) * 2 ^ CONST_BITS;
         tmp12 = (tmp0 - tmp2) * 2 ^ CONST_BITS;
         z2 = ws 1;
         z3 = ws 3;
         z1 = (z2 + z3) * FIX_0_541196100;
         tmp0 = z1 + z2 * FIX_0_765366865;
         tmp2 = z1 - z3 * FIX_1_847759065;
         out0 = RIGHT_SHIFT (tmp10 + tmp0) (CONST_BITS + 3);
         out3 = RIGHT_SHIFT (tmp10 - tmp0) (CONST_BITS + 3);
         out1 = RIGHT_SHIFT (tmp12 + tmp2) (CONST_BITS + 3);
         out2 = RIGHT_SHIFT (tmp12 - tmp2) (CONST_BITS + 3)
     in [out0, out1, out2, out3])"

definition jpeg_idct_4x2 :: "limit_table \<Rightarrow> int list \<Rightarrow> int list \<Rightarrow> samparray \<Rightarrow> nat \<Rightarrow> samparray option" where
  "jpeg_idct_4x2 range_limit dct_table coef_block output_buf output_col =
     idct_store range_limit (idct_passes 4 2 idct_4x2_col idct_4x2_row dct_table coef_block) output_buf output_col"

lemma idct_4x2_col_kernel:
  "idct_4x2_col inp quant = map (\<lambda>cs. s32 (dot 0 cs (\<lambda>j. DEQUANTIZE (inp j) (quant j)))) kernel_2"
  unfolding idct_4x2_col_def kernel_2_def list.map
  by (simp add: Let_def dct_consts DESCALE_def algebra_simps del: One_nat_def)

lemma idct_4x2_col_pass: "dct_pass (\<lambda>(inp, quant). idct_4x2_col inp quant) dequantized kernel_2 0 2 160000"
  by (rule exact_pass [OF _ kernel_2_fits [of 160000, simplified]]) (simp add: dequantized_def idct_4x2_col_kernel split: prod.split)

lemma idct_4x2_row_kernel:
  "idct_4x2_row ws = map (\<lambda>cs. RIGHT_SHIFT (dot 0 cs ws + 32768) 16) kernel_4"
  unfolding idct_4x2_row_def kernel_4_def list.map
  by (simp add: Let_def dct_consts DESCALE_def algebra_simps del: One_nat_def)

lemma idct_4x2_row_pass: "dct_pass idct_4x2_row (\<lambda>ws. ws) kernel_4 16 4 160000"
  by (rule shifted_pass [where n = 15, simplified, OF _ kernel_4_fits]) (simp add: idct_4x2_row_kernel split: prod.split)

interpretation i4x2: idct_pair idct_4x2_col idct_4x2_row kernel_2 0 2 kernel_4 16 4 160000 1 0 8192 2
  by (rule idct_4_2 [OF idct_4x2_col_pass idct_4x2_row_pass])

lemma jpeg_idct_4x2_decodes:
  "rows_fit output_buf 2 (output_col + 4) \<Longrightarrow> weight (dequantized_at dct_table coef_block) \<le> 16000 \<Longrightarrow>
   \<exists>out. jpeg_idct_4x2 prepare_range_limit_table dct_table coef_block output_buf output_col = Some out \<and>
     decoded 2 4 dct_table coef_block output_buf output_col out"
  using i4x2.decodes by (simp add: jpeg_idct_4x2_def)

end
