(* ===== verification/IdctHigh.thy ===== *)
theory IdctHigh
  imports IdctAccuracy
begin

text \<open>
  The inverse DCT routines of \<open>jpeg-9a/jidctint.c\<close> for the blocks twice as high as wide.
  \<open>idct_NxM_col\<close> is the body of pass 1 of \<open>jpeg_idct_NxM\<close>, for the column with the coefficients \<open>inp\<close>
  and the multipliers \<open>quant\<close>, and \<open>idct_NxM_row\<close> the body of pass 2, for the row \<open>ws\<close> of the work
  array.  Each pass is shown to be a rounded product with the matrix of its number of points.
\<close>

section \<open>8x16 samples\<close>

definition idct_8x16_col :: "(nat \<Rightarrow> int) \<Rightarrow> (nat \<Rightarrow> int) \<Rightarrow> int list" where
  "idct_8x16_col inp quant =
    (let tmp0 = DEQUANTIZE (inp 0) (quant 0);
         tmp0 = tmp0 * 2 ^ CONST_BITS;
         tmp0 = tmp0 + 1 * 2 ^ (CONST_BITS - PASS1_BITS - 1);
         z1 = DEQUANTIZE (inp 4) (quant 4);
         tmp1 = z1 * FIX13 9 1306562965;
         tmp2 = z1 * FIX_0_541196100;
         tmp10 = tmp0 + tmp1;
         tmp11 = tmp0 - tmp1;
         tmp12 = tmp0 + tmp2;
         tmp13 = tmp0 - tmp2;
         z1 = DEQUANTIZE (inp 2) (quant 2);
         z2 = DEQUANTIZE (inp 6) (quant 6);
         z3 = z1 - z2;
         z4 = z3 * FIX13 9 275899379;
         z3 = z3 * FIX13 9 1387039845;
         tmp0 = z3 + z2 * FIX_2_562915447;
         tmp1 = z4 + z1 * FIX_0_899976223;
         tmp2 = z3 - z1 * FIX13 9 601344887;
         tmp3 = z4 - z2 * FIX13 9 509795579;
         tmp20 = tmp10 + tmp0;
         tmp27 = tmp10 - tmp0;
         tmp21 = tmp12 + tmp1;
         tmp26 = tmp12 - tmp1;
         tmp22 = tmp13 + tmp2;
         tmp25 = tmp13 - tmp2;
         tmp23 = tmp11 + tmp3;
         tmp24 = tmp11 - tmp3;
         z1 = DEQUANTIZE (inp 1) (quant 1);
         z2 = DEQUANTIZE (inp 3) (quant 3);
         z3 = DEQUANTIZE (inp 5) (quant 5);
         z4 = DEQUANTIZE (inp 7) (quant 7);
         tmp11 = z1 + z3;
         tmp1 = (z1 + z2) * FIX13 9 1353318001;
         tmp2 = tmp11 * FIX13 9 1247225013;
         tmp3 = (z1 + z4) * FIX13 9 1093201867;
         tmp10 = (z1 - z4) * FIX13 9 897167586;
         tmp11 = tmp11 * FIX13 9 666655658;
         tmp12 = (z1 - z2) * FIX13 9 410524528;
         tmp0 = tmp1 + tmp2 + tmp3 - z1 * FIX13 9 2286341144;
         tmp13 = tmp10 + tmp11 + tmp12 - z1 * FIX13 9 1835730603;
         z1 = (z2 + z3) * FIX13 9 138617169;
         tmp1 = tmp1 + (z1 + z2 * FIX13 9 71888074);
         tmp2 = tmp2 + (z1 - z3 * FIX13 9 1125726048);
         z1 = (z3 - z2) * FIX13 9 1407403738;
         tmp11 = tmp11 + (z1 - z3 * FIX13 9 766367282);
         tmp12 = tmp12 + (z1 + z2 * FIX13 9 1971951411);
         z2 = z2 + z4;
         z1 = z2 * (- FIX13 9 666655658);
         tmp1 = tmp1 + z1;
         tmp3 = tmp3 + (z1 + z4 * FIX13 9 1065388962);
         z2 = z2 * (- FIX13 9 1247225013);
         tmp10 = tmp10 + (z2 + z4 * FIX13 9 3141271809);
         tmp12 = tmp12 + z2;
         z2 = (z3 + z4) * (- FIX13 9 1353318001);
         tmp2 = tmp2 + z2;
         tmp3 = tmp3 + z2;
         z2 = (z4 - z3) * FIX13 9 410524528;
         tmp10 = tmp10 + z2;
         tmp11 = tmp11 + z2;
         out0 = RIGHT_SHIFT (tmp20 + tmp0) (CONST_BITS - PASS1_BITS);
         out15 = RIGHT_SHIFT (tmp20 - tmp0) (CONST_BITS - PASS1_BITS);
         out1 = RIGHT_SHIFT (tmp21 + tmp1) (CONST_BITS - PASS1_BITS);
         out14 = RIGHT_SHIFT (tmp21 - tmp1) (CONST_BITS - PASS1_BITS);
         out2 = RIGHT_SHIFT (tmp22 + tmp2) (CONST_BITS - PASS1_BITS);
         out13 = RIGHT_SHIFT (tmp22 - tmp2) (CONST_BITS - PASS1_BITS);
         out3 = RIGHT_SHIFT (tmp23 + tmp3) (CONST_BITS - PASS1_BITS);
         out12 = RIGHT_SHIFT (tmp23 - tmp3) (CONST_BITS - PASS1_BITS);
         out4 = RIGHT_SHIFT (tmp24 + tmp10) (CONST_BITS - PASS1_BITS);
         out11 = RIGHT_SHIFT (tmp24 - tmp10) (CONST_BITS - PASS1_BITS);
         out5 = RIGHT_SHIFT (tmp25 + tmp11) (CONST_BITS - PASS1_BITS);
         out10 = RIGHT_SHIFT (tmp25 - tmp11) (CONST_BITS - PASS1_BITS);
         out6 = RIGHT_SHIFT (tmp26 + tmp12) (CONST_BITS - PASS1_BITS);
         out9 = RIGHT_SHIFT (tmp26 - tmp12) (CONST_BITS - PASS1_BITS);
         out7 = RIGHT_SHIFT (tmp27 + tmp13) (CONST_BITS - PASS1_BITS);
         out8 = RIGHT_SHIFT (tmp27 - tmp13) (CONST_BITS - PASS1_BITS)
     in [out0, out1, out2, out3, out4, out5, out6, out7, out8, out9, out10, out11, out12, out13, out14, out15])"

definition idct_8x16_row :: "(nat \<Rightarrow> int) \<Rightarrow> int list" where
  "idct_8x16_row ws =
    (let z2 = ws 2;
         z3 = ws 6;
         z1 = (z2 + z3) * FIX_0_541196100;
         tmp2 = z1 + z2 * FIX_0_765366865;
         tmp3 = z1 - z3 * FIX_1_847759065;
         z2 = ws 0 + 1 * 2 ^ (PASS1_BITS + 2);
         z3 = ws 4;
         tmp0 = (z2 + z3) * 2 ^ CONST_BITS;
         tmp1 = (z2 - z3) * 2 ^ CONST_BITS;
         tmp10 = tmp0 + tmp2;
         tmp13 = tmp0 - tmp2;
         tmp11 = tmp1 + tmp3;
         tmp12 = tmp1 - tmp3;
         tmp0 = ws 7;
         tmp1 = ws 5;
         tmp2 = ws 3;
         tmp3 = ws 1;
         z2 = tmp0 + tmp2;
         z3 = tmp1 + tmp3;
         z1 = (z2 + z3) * FIX_1_175875602;
         z2 = z2 * (- FIX_1_961570560);
         z3 = z3 * (- FIX_0_390180644);
         z2 = z2 + z1;
         z3 = z3 + z1;
         z1 = (tmp0 + tmp3) * (- FIX_0_899976223);
         tmp0 = tmp0 * FIX_0_298631336;
         tmp3 = tmp3 * FIX_1_501321110;
         tmp0 = tmp0 + (z1 + z2);
         tmp3 = tmp3 + (z1 + z3);
         z1 = (tmp1 + tmp2) * (- FIX_2_562915447);
         tmp1 = tmp1 * FIX_2_053119869;
         tmp2 = tmp2 * FIX_3_072711026;
         tmp1 = tmp1 + (z1 + z3);
         tmp2 = tmp2 + (z1 + z2);
         out0 = RIGHT_SHIFT (tmp10 + tmp3) (CONST_BITS + PASS1_BITS + 3);
         out7 = RIGHT_SHIFT (tmp10 - tmp3) (CONST_BITS + PASS1_BITS + 3);
         out1 = RIGHT_SHIFT (tmp11 + tmp2) (CONST_BITS + PASS1_BITS + 3);
         out6 = RIGHT_SHIFT (tmp11 - tmp2) (CONST_BITS + PASS1_BITS + 3);
         out2 = RIGHT_SHIFT (tmp12 + tmp1) (CONST_BITS + PASS1_BITS + 3);
         out5 = RIGHT_SHIFT (tmp12 - tmp1) (CONST_BITS + PASS1_BITS + 3);
         out3 = RIGHT_SHIFT (tmp13 + tmp0) (CONST_BITS + PASS1_BITS + 3);
         out4 = RIGHT_SHIFT (tmp13 - tmp0) (CONST_BITS + PASS1_BITS + 3)
     in [out0, out1, out2, out3, out4, out5, out6, out7])"

definition jpeg_idct_8x16 :: "limit_table \<Rightarrow> int list \<Rightarrow> int list \<Rightarrow> samparray \<Rightarrow> nat \<Rightarrow> samparray option" where
  "jpeg_idct_8x16 range_limit dct_table coef_block output_buf output_col =
     idct_store range_limit (idct_passes 8 16 idct_8x16_col idct_8x16_row dct_table coef_block) output_buf output_col"

lemma idct_8x16_col_kernel:
  "idct_8x16_col inp quant = map (\<lambda>cs. RIGHT_SHIFT (dot 0 cs (\<lambda>j. DEQUANTIZE (inp j) (quant j)) + 1024) 11) kernel_16"
  unfolding idct_8x16_col_def kernel_16_def list.map
  by (simp add: Let_def dct_consts DESCALE_def algebra_simps del: One_nat_def)

lemma idct_8x16_col_pass: "dct_pass (\<lambda>(inp, quant). idct_8x16_col inp quant) dequantized kernel_16 11 8 160000"
  by (rule shifted_pass [where n = 10, simplified, OF _ kernel_16_fits]) (simp add: dequantized_def add: idct_8x16_col_kernel split: prod.split)

lemma idct_8x16_row_kernel:
  "idct_8x16_row ws = map (\<lambda>cs. RIGHT_SHIFT (dot 0 cs ws + 131072) 18) kernel_8"
  unfolding idct_8x16_row_def kernel_8_def list.map
  by (simp add: Let_def dct_consts DESCALE_def algebra_simps del: One_nat_def)

lemma idct_8x16_row_pass: "dct_pass idct_8x16_row (\<lambda>ws. ws) kernel_8 18 8 160000"
  by (rule shifted_pass [where n = 17, simplified, OF _ kernel_8_fits]) (simp add: idct_8x16_row_kernel split: prod.split)

interpretation i8x16: idct_pair idct_8x16_col idct_8x16_row kernel_16 11 16 kernel_8 18 8 160000 8192 2 8192 2
  by (rule idct_kernels [OF idct_8x16_col_pass idct_8x16_row_pass kernel_16_ok kernel_8_ok]) simp_all

lemma jpeg_idct_8x16_decodes:
  "rows_fit output_buf 16 (output_col + 8) \<Longrightarrow> weight (dequantized_at dct_table coef_block) \<le> 16000 \<Longrightarrow>
   \<exists>out. jpeg_idct_8x16 prepare_range_limit_table dct_table coef_block output_buf output_col = Some out \<and>
     decoded 16 8 dct_table coef_block output_buf output_col out"
  using i8x16.decodes by (simp add: jpeg_idct_8x16_def)


section \<open>7x14 samples\<close>

definition idct_7x14_col :: "(nat \<Rightarrow> int) \<Rightarrow> (nat \<Rightarrow> int) \<Rightarrow> int list" where
  "idct_7x14_col inp quant =
    (let z1 = DEQUANTIZE (inp 0) (quant 0);
         z1 = z1 * 2 ^ CONST_BITS;
         z1 = z1 + 1 * 2 ^ (CONST_BITS - PASS1_BITS - 1);
         z4 = DEQUANTIZE (inp 4) (quant 4);
         z2 = z4 * FIX13 9 1274162392;
         z3 = z4 * FIX13 9 314692123;
         z4 = z4 * FIX13 9 881747734;
         tmp10 = z1 + z2;
         tmp11 = z1 + z3;
         tmp12 = z1 - z4;
         tmp23 = RIGHT_SHIFT (z1 - (z2 + z3 - z4) * 2 ^ 1) (CONST_BITS - PASS1_BITS);
         z1 = DEQUANTIZE (inp 2) (quant 2);
         z2 = DEQUANTIZE (inp 6) (quant 6);
         z3 = (z1 + z2) * FIX13 9 1105676686;
         tmp13 = z3 + z1 * FIX13 9 273079590;
         tmp14 = z3 - z2 * FIX13 9 1719280954;
         tmp15 = z1 * FIX13 9 613604268 - z2 * FIX13 9 1378756276;
         tmp20 = tmp10 + tmp13;
         tmp26 = tmp10 - tmp13;
         tmp21 = tmp11 + tmp14;
         tmp25 = tmp11 - tmp14;
         tmp22 = tmp12 + tmp15;
         tmp24 = tmp12 - tmp15;
         z1 = DEQUANTIZE (inp 1) (quant 1);
         z2 = DEQUANTIZE (inp 3) (quant 3);
         z3 = DEQUANTIZE (inp 5) (quant 5);
         z4 = DEQUANTIZE (inp 7) (quant 7);
         tmp13 = z4 * 2 ^ CONST_BITS;
         tmp14 = z1 + z3;
         tmp11 = (z1 + z2) * FIX13 9 1334852607;
         tmp12 = tmp14 * FIX13 9 1197448846;
         tmp10 = tmp11 + tmp12 + tmp13 - z1 * FIX13 9 1126980169;
         tmp14 = tmp14 * FIX13 9 752406978;
         tmp16 = tmp14 - z1 * FIX13 9 1061150426;
         z1 = z1 - z2;
         tmp15 = z1 * FIX13 9 467085129 - tmp13;
         tmp16 = tmp16 + tmp15;
         z1 = z1 + z4;
         z4 = (z2 + z3) * (- FIX13 9 158341681) - tmp13;
         tmp11 = tmp11 + (z4 - z2 * FIX13 9 424103948);
         tmp12 = tmp12 + (z4 - z3 * FIX13 9 2373959773);
         z4 = (z3 - z2) * FIX13 9 1405321284;
         tmp14 = tmp14 + (z4 + tmp13 - z3 * FIX13 10 16906431334);
         tmp15 = tmp15 + (z4 + z2 * FIX13 9 674957567);
         tmp13 = (z1 - z3) * 2 ^ PASS1_BITS;
         out0 = RIGHT_SHIFT (tmp20 + tmp10) (CONST_BITS - PASS1_BITS);
         out13 = RIGHT_SHIFT (tmp20 - tmp10) (CONST_BITS - PASS1_BITS);
         out1 = RIGHT_SHIFT (tmp21 + tmp11) (CONST_BITS - PASS1_BITS);
         out12 = RIGHT_SHIFT (tmp21 - tmp11) (CONST_BITS - PASS1_BITS);
         out2 = RIGHT_SHIFT (tmp22 + tmp12) (CONST_BITS - PASS1_BITS);
         out11 = RIGHT_SHIFT (tmp22 - tmp12) (CONST_BITS - PASS1_BITS);
         out3 = s32 (tmp23 + tmp13);
         out10 = s32 (tmp23 - tmp13);
         out4 = RIGHT_SHIFT (tmp24 + tmp14) (CONST_BITS - PASS1_BITS);
         out9 = RIGHT_SHIFT (tmp24 - tmp14) (CONST_BITS - PASS1_BITS);
         out5 = RIGHT_SHIFT (tmp25 + tmp15) (CONST_BITS - PASS1_BITS);
         out8 = RIGHT_SHIFT (tmp25 - tmp15) (CONST_BITS - PASS1_BITS);
         out6 = RIGHT_SHIFT (tmp26 + tmp16) (CONST_BITS - PASS1_BITS);
         out7 = RIGHT_SHIFT (tmp26 - tmp16) (CONST_BITS - PASS1_BITS)
     in [out0, out1, out2, out3, out4, out5, out6, out7, out8, out9, out10, out11, out12, out13])"

definition idct_7x14_row :: "(nat \<Rightarrow> int) \<Rightarrow> int list" where
  "idct_7x14_row ws =
    (let tmp23 = ws 0 + 1 * 2 ^ (PASS1_BITS + 2);
         tmp23 = tmp23 * 2 ^ CONST_BITS;
         z1 = ws 2;
         z2 = ws 4;
         z3 = ws 6;
         tmp20 = (z2 - z3) * FIX13 9 881747734;
         tmp22 = (z1 - z2) * FIX13 9 314692123;
         tmp21 = tmp20 + tmp22 + tmp23 - z2 * FIX13 9 1841218003;
         tmp10 = z1 + z3;
         z2 = z2 - tmp10;
         tmp10 = tmp10 * FIX13 9 1274162392 + tmp23;
         tmp20 = tmp20 + (tmp10 - z3 * FIX13 9 77722536);
         tmp22 = tmp22 + (tmp10 - z1 * FIX13 9 2470602249);
         tmp23 = tmp23 + z2 * FIX13 9 1414213562;
         z1 = ws 1;
         z2 = ws 3;
         z3 = ws 5;
         tmp11 = (z1 + z2) * FIX13 9 935414347;
         tmp12 = (z1 - z2) * FIX13 9 170262339;
         tmp10 = tmp11 - tmp12;
         tmp11 = tmp11 + tmp12;
         tmp12 = (z2 + z3) * (- FIX13 9 1378756276);
         tmp11 = tmp11 + tmp12;
         z2 = (z1 + z3) * FIX13 9 613604268;
         tmp10 = tmp10 + z2;
         tmp12 = tmp12 + (z2 + z3 * FIX13 9 1870828693);
         out0 = RIGHT_SHIFT (tmp20 + tmp10) (CONST_BITS + PASS1_BITS + 3);
         out6 = RIGHT_SHIFT (tmp20 - tmp10) (CONST_BITS + PASS1_BITS + 3);
         out1 = RIGHT_SHIFT (tmp21 + tmp11) (CONST_BITS + PASS1_BITS + 3);
         out5 = RIGHT_SHIFT (tmp21 - tmp11) (CONST_BITS + PASS1_BITS + 3);
         out2 = RIGHT_SHIFT (tmp22 + tmp12) (CONST_BITS + PASS1_BITS + 3);
         out4 = RIGHT_SHIFT (tmp22 - tmp12) (CONST_BITS + PASS1_BITS + 3);
         out3 = RIGHT_SHIFT tmp23 (CONST_BITS + PASS1_BITS + 3)
     in [out0, out1, out2, out3, out4, out5, out6])"

definition jpeg_idct_7x14 :: "limit_table \<Rightarrow> int list \<Rightarrow> int list \<Rightarrow> samparray \<Rightarrow> nat \<Rightarrow> samparray option" where
  "jpeg_idct_7x14 range_limit dct_table coef_block output_buf output_col =
     idct_store range_limit (idct_passes 7 14 idct_7x14_col idct_7x14_row dct_table coef_block) output_buf output_col"

lemma idct_7x14_col_kernel: "idct_7x14_col inp quant = map (split_output (\<lambda>j. DEQUANTIZE (inp j) (quant j))) parts_14"
  unfolding idct_7x14_col_def parts_14_def list.map
  by (simp add: split_output_def Let_def dct_consts DESCALE_def algebra_simps del: One_nat_def)

lemma idct_7x14_col_pass: "dct_pass (\<lambda>(inp, quant). idct_7x14_col inp quant) dequantized kernel_14 11 8 160000"
  by (rule split_pass [OF _ parts_14_ok]) (simp add: dequantized_def idct_7x14_col_kernel split: prod.split)

lemma idct_7x14_row_kernel:
  "idct_7x14_row ws = map (\<lambda>cs. RIGHT_SHIFT (dot 0 cs ws + 131072) 18) kernel_7"
  unfolding idct_7x14_row_def kernel_7_def list.map
  by (simp add: Let_def dct_consts DESCALE_def algebra_simps del: One_nat_def)

lemma idct_7x14_row_pass: "dct_pass idct_7x14_row (\<lambda>ws. ws) kernel_7 18 7 160000"
  by (rule shifted_pass [where n = 17, simplified, OF _ kernel_7_fits]) (simp add: idct_7x14_row_kernel split: prod.split)

interpretation i7x14: idct_pair idct_7x14_col idct_7x14_row kernel_14 11 14 kernel_7 18 7 160000 8192 2 8192 2
  by (rule idct_kernels [OF idct_7x14_col_pass idct_7x14_row_pass kernel_14_ok kernel_7_ok]) simp_all

lemma jpeg_idct_7x14_decodes:
  "rows_fit output_buf 14 (output_col + 7) \<Longrightarrow> weight (dequantized_at dct_table coef_block) \<le> 16000 \<Longrightarrow>
   \<exists>out. jpeg_idct_7x14 prepare_range_limit_table dct_table coef_block output_buf output_col = Some out \<and>
     decoded 14 7 dct_table coef_block output_buf output_col out"
  using i7x14.decodes by (simp add: jpeg_idct_7x14_def)


section \<open>6x12 samples\<close>

definition idct_6x12_col :: "(nat \<Rightarrow> int) \<Rightarrow> (nat \<Rightarrow> int) \<Rightarrow> int list" where
  "idct_6x12_col inp quant =
    (let z3 = DEQUANTIZE (inp 0) (quant 0);
         z3 = z3 * 2 ^ CONST_BITS;
         z3 = z3 + 1 * 2 ^ (CONST_BITS - PASS1_BITS - 1);
         z4 = DEQUANTIZE (inp 4) (quant 4);
         z4 = z4 * FIX13 9 1224744871;
         tmp10 = z3 + z4;
         tmp11 = z3 - z4;
         z1 = DEQUANTIZE (inp 2) (quant 2);
         z4 = z1 * FIX13 9 1366025404;
         z1 = z1 * 2 ^ CONST_BITS;
         z2 = DEQUANTIZE (inp 6) (quant 6);
         z2 = z2 * 2 ^ CONST_BITS;
         tmp12 = z1 - z2;
         tmp21 = z3 + tmp12;
         tmp24 = z3 - tmp12;
         tmp12 = z4 + z2;
         tmp20 = tmp10 + tmp12;
         tmp25 = tmp10 - tmp12;
         tmp12 = z4 - z1 - z2;
         tmp22 = tmp11 + tmp12;
         tmp23 = tmp11 - tmp12;
         z1 = DEQUANTIZE (inp 1) (quant 1);
         z2 = DEQUANTIZE (inp 3) (quant 3);
         z3 = DEQUANTIZE (inp 5) (quant 5);
         z4 = DEQUANTIZE (inp 7) (quant 7);
         tmp11 = z2 * FIX13 9 1306562965;
         tmp14 = z2 * (- FIX_0_541196100);
         tmp10 = z1 + z3;
         tmp15 = (tmp10 + z4) * FIX13 9 860918669;
         tmp12 = tmp15 + tmp10 * FIX13 9 261052384;
         tmp10 = tmp12 + tmp11 + z1 * FIX13 9 280143716;
         tmp13 = (z3 + z4) * (- FIX13 9 1045510580);
         tmp12 = tmp12 + (tmp13 + tmp14 - z3 * FIX13 9 1478575242);
         tmp13 = tmp13 + (tmp15 - tmp11 + z4 * FIX13 9 1586706681);
         tmp15 = tmp15 + (tmp14 - z1 * FIX13 9 676326758 - z4 * FIX13 9 1982889723);
         z1 = z1 - z4;
         z2 = z2 - z3;
         z3 = (z1 + z2) * FIX_0_541196100;
         tmp11 = z3 + z1 * FIX_0_765366865;
         tmp14 = z3 - z2 * FIX_1_847759065;
         out0 = RIGHT_SHIFT (tmp20 + tmp10) (CONST_BITS - PASS1_BITS);
         out11 = RIGHT_SHIFT (tmp20 - tmp10) (CONST_BITS - PASS1_BITS);
         out1 = RIGHT_SHIFT (tmp21 + tmp11) (CONST_BITS - PASS1_BITS);
         out10 = RIGHT_SHIFT (tmp21 - tmp11) (CONST_BITS - PASS1_BITS);
         out2 = RIGHT_SHIFT (tmp22 + tmp12) (CONST_BITS - PASS1_BITS);
         out9 = RIGHT_SHIFT (tmp22 - tmp12) (CONST_BITS - PASS1_BITS);
         out3 = RIGHT_SHIFT (tmp23 + tmp13) (CONST_BITS - PASS1_BITS);
         out8 = RIGHT_SHIFT (tmp23 - tmp13) (CONST_BITS - PASS1_BITS);
         out4 = RIGHT_SHIFT (tmp24 + tmp14) (CONST_BITS - PASS1_BITS);
         out7 = RIGHT_SHIFT (tmp24 - tmp14) (CONST_BITS - PASS1_BITS);
         out5 = RIGHT_SHIFT (tmp25 + tmp15) (CONST_BITS - PASS1_BITS);
         out6 = RIGHT_SHIFT (tmp25 - tmp15) (CONST_BITS - PASS1_BITS)
     in [out0, out1, out2, out3, out4, out5, out6, out7, out8, out9, out10, out11])"

definition idct_6x12_row :: "(nat \<Rightarrow> int) \<Rightarrow> int list" where
  "idct_6x12_row ws =
    (let tmp10 = ws 0 + 1 * 2 ^ (PASS1_BITS + 2);
         tmp10 = tmp10 * 2 ^ CONST_BITS;
         tmp12 = ws 4;
         tmp20 = tmp12 * FIX13 9 707106781;
         tmp11 = tmp10 + tmp20;
         tmp21 = tmp10 - tmp20 - tmp20;
         tmp20 = ws 2;
         tmp10 = tmp20 * FIX13 9 1224744871;
         tmp20 = tmp11 + tmp10;
         tmp22 = tmp11 - tmp10;
         z1 = ws 1;
         z2 = ws 3;
         z3 = ws 5;
         tmp11 = (z1 + z3) * FIX13 9 366025404;
         tmp10 = tmp11 + (z1 + z2) * 2 ^ CONST_BITS;
         tmp12 = tmp11 + (z3 - z2) * 2 ^ CONST_BITS;
         tmp11 = (z1 - z2 - z3) * 2 ^ CONST_BITS;
         out0 = RIGHT_SHIFT (tmp20 + tmp10) (CONST_BITS + PASS1_BITS + 3);
         out5 = RIGHT_SHIFT (tmp20 - tmp10) (CONST_BITS + PASS1_BITS + 3);
         out1 = RIGHT_SHIFT (tmp21 + tmp11) (CONST_BITS + PASS1_BITS + 3);
         out4 = RIGHT_SHIFT (tmp21 - tmp11) (CONST_BITS + PASS1_BITS + 3);
         out2 = RIGHT_SHIFT (tmp22 + tmp12) (CONST_BITS + PASS1_BITS + 3);
         out3 = RIGHT_SHIFT (tmp22 - tmp12) (CONST_BITS + PASS1_BITS + 3)
     in [out0, out1, out2, out3, out4, out5])"

definition jpeg_idct_6x12 :: "limit_table \<Rightarrow> int list \<Rightarrow> int list \<Rightarrow> samparray \<Rightarrow> nat \<Rightarrow> samparray option" where
  "jpeg_idct_6x12 range_limit dct_table coef_block output_buf output_col =
     idct_store range_limit (idct_passes 6 12 idct_6x12_col idct_6x12_row dct_table coef_block) output_buf output_col"

lemma idct_6x12_col_kernel:
  "idct_6x12_col inp quant = map (\<lambda>cs. RIGHT_SHIFT (dot 0 cs (\<lambda>j. DEQUANTIZE (inp j) (quant j)) + 1024) 11) kernel_12"
  unfolding idct_6x12_col_def kernel_12_def list.map
  by (simp add: Let_def dct_consts DESCALE_def algebra_simps del: One_nat_def)

lemma idct_6x12_col_pass: "dct_pass (\<lambda>(inp, quant). idct_6x12_col inp quant) dequantized kernel_12 11 8 160000"
  by (rule shifted_pass [where n = 10, simplified, OF _ kernel_12_fits]) (simp add: dequantized_def add: idct_6x12_col_kernel split: prod.split)

lemma idct_6x12_row_kernel:
  "idct_6x12_row ws = map (\<lambda>cs. RIGHT_SHIFT (dot 0 cs ws + 131072) 18) kernel_6"
  unfolding idct_6x12_row_def kernel_6_def list.map
  by (simp add: Let_def dct_consts DESCALE_def algebra_simps del: One_nat_def)

lemma idct_6x12_row_pass: "dct_pass idct_6x12_row (\<lambda>ws. ws) kernel_6 18 6 160000"
  by (rule shifted_pass [where n = 17, simplified, OF _ kernel_6_fits]) (simp add: idct_6x12_row_kernel split: prod.split)

interpretation i6x12: idct_pair idct_6x12_col idct_6x12_row kernel_12 11 12 kernel_6 18 6 160000 8192 2 8192 2
  by (rule idct_kernels [OF idct_6x12_col_pass idct_6x12_row_pass kernel_12_ok kernel_6_ok]) simp_all

lemma jpeg_idct_6x12_decodes:
  "rows_fit output_buf 12 (output_col + 6) \<Longrightarrow> weight (dequantized_at dct_table coef_block) \<le> 16000 \<Longrightarrow>
   \<exists>out. jpeg_idct_6x12 prepare_range_limit_table dct_table coef_block output_buf output_col = Some out \<and>
     decoded 12 6 dct_table coef_block output_buf output_col out"
  using i6x12.decodes by (simp add: jpeg_idct_6x12_def)


section \<open>5x10 samples\<close>

definition idct_5x10_col :: "(nat \<Rightarrow> int) \<Rightarrow> (nat \<Rightarrow> int) \<Rightarrow> int list" where
  "idct_5x10_col inp quant =
    (let z3 = DEQUANTIZE (inp 0) (quant 0);
         z3 = z3 * 2 ^ CONST_BITS;
         z3 = z3 + 1 * 2 ^ (CONST_BITS - PASS1_BITS - 1);
         z4 = DEQUANTIZE (inp 4) (quant 4);
         z1 = z4 * FIX13 9 1144122806;
         z2 = z4 * FIX13 9 437016024;
         tmp10 = z3 + z1;
         tmp11 = z3 - z2;
         tmp22 = RIGHT_SHIFT (z3 - (z1 - z2) * 2 ^ 1) (CONST_BITS - PASS1_BITS);
         z2 = DEQUANTIZE (inp 2) (quant 2);
         z3 = DEQUANTIZE (inp 6) (quant 6);
         z1 = (z2 + z3) * FIX13 9 831253876;
         tmp12 = z1 + z2 * FIX13 9 513743148;
         tmp13 = z1 - z3 * FIX13 9 2176250899;
         tmp20 = tmp10 + tmp12;
         tmp24 = tmp10 - tmp12;
         tmp21 = tmp11 + tmp13;
         tmp23 = tmp11 - tmp13;
         z1 = DEQUANTIZE (inp 1) (quant 1);
         z2 = DEQUANTIZE (inp 3) (quant 3);
         z3 = DEQUANTIZE (inp 5) (quant 5);
         z4 = DEQUANTIZE (inp 7) (quant 7);
         tmp11 = z2 + z4;
         tmp13 = z2 - z4;
         tmp12 = tmp13 * FIX13 9 309016994;
         z5 = z3 * 2 ^ CONST_BITS;
         z2 = tmp11 * FIX13 9 951056516;
         z4 = z5 + tmp12;
         tmp10 = z1 * FIX13 9 1396802247 + z2 + z4;
         tmp14 = z1 * FIX13 9 221231742 - z2 + z4;
         z2 = tmp11 * FIX13 9 587785252;
         z4 = z5 - tmp12 - tmp13 * 2 ^ (CONST_BITS - 1);
         tmp12 = (z1 - tmp13 - z3) * 2 ^ PASS1_BITS;
         tmp11 = z1 * FIX13 9 1260073511 - z2 - z4;
         tmp13 = z1 * FIX13 9 642039522 - z2 + z4;
         out0 = RIGHT_SHIFT (tmp20 + tmp10) (CONST_BITS - PASS1_BITS);
         out9 = RIGHT_SHIFT (tmp20 - tmp10) (CONST_BITS - PASS1_BITS);
         out1 = RIGHT_SHIFT (tmp21 + tmp11) (CONST_BITS - PASS1_BITS);
         out8 = RIGHT_SHIFT (tmp21 - tmp11) (CONST_BITS - PASS1_BITS);
         out2 = s32 (tmp22 + tmp12);
         out7 = s32 (tmp22 - tmp12);
         out3 = RIGHT_SHIFT (tmp23 + tmp13) (CONST_BITS - PASS1_BITS);
         out6 = RIGHT_SHIFT (tmp23 - tmp13) (CONST_BITS - PASS1_BITS);
         out4 = RIGHT_SHIFT (tmp24 + tmp14) (CONST_BITS - PASS1_BITS);
         out5 = RIGHT_SHIFT (tmp24 - tmp14) (CONST_BITS - PASS1_BITS)
     in [out0, out1, out2, out3, out4, out5, out6, out7, out8, out9])"

definition idct_5x10_row :: "(nat \<Rightarrow> int) \<Rightarrow> int list" where
  "idct_5x10_row ws =
    (let tmp12 = ws 0 + 1 * 2 ^ (PASS1_BITS + 2);
         tmp12 = tmp12 * 2 ^ CONST_BITS;
         tmp13 = ws 2;
         tmp14 = ws 4;
         z1 = (tmp13 + tmp14) * FIX13 9 790569415;
         z2 = (tmp13 - tmp14) * FIX13 9 353553391;
         z3 = tmp12 + z2;
         tmp10 = z3 + z1;
         tmp11 = z3 - z1;
         tmp12 = tmp12 - z2 * 2 ^ 2;
         z2 = ws 1;
         z3 = ws 3;
         z1 = (z2 + z3) * FIX13 9 831253876;
         tmp13 = z1 + z2 * FIX13 9 513743148;
         tmp14 = z1 - z3 * FIX13 9 2176250899;
         out0 = RIGHT_SHIFT (tmp10 + tmp13) (CONST_BITS + PASS1_BITS + 3);
         out4 = RIGHT_SHIFT (tmp10 - tmp13) (CONST_BITS + PASS1_BITS + 3);
         out1 = RIGHT_SHIFT (tmp11 + tmp14) (CONST_BITS + PASS1_BITS + 3);
         out3 = RIGHT_SHIFT (tmp11 - tmp14) (CONST_BITS + PASS1_BITS + 3);
         out2 = RIGHT_SHIFT tmp12 (CONST_BITS + PASS1_BITS + 3)
     in [out0, out1, out2, out3, out4])"

definition jpeg_idct_5x10 :: "limit_table \<Rightarrow> int list \<Rightarrow> int list \<Rightarrow> samparray \<Rightarrow> nat \<Rightarrow> samparray option" where
  "jpeg_idct_5x10 range_limit dct_table coef_block output_buf output_col =
     idct_store range_limit (idct_passes 5 10 idct_5x10_col idct_5x10_row dct_table coef_block) output_buf output_col"

lemma idct_5x10_col_kernel: "idct_5x10_col inp quant = map (split_output (\<lambda>j. DEQUANTIZE (inp j) (quant j))) parts_10"
  unfolding idct_5x10_col_def parts_10_def list.map
  by (simp add: split_output_def Let_def dct_consts DESCALE_def algebra_simps del: One_nat_def)

lemma idct_5x10_col_pass: "dct_pass (\<lambda>(inp, quant). idct_5x10_col inp quant) dequantized kernel_10 11 8 160000"
  by (rule split_pass [OF _ parts_10_ok]) (simp add: dequantized_def idct_5x10_col_kernel split: prod.split)

lemma idct_5x10_row_kernel:
  "idct_5x10_row ws = map (\<lambda>cs. RIGHT_SHIFT (dot 0 cs ws + 131072) 18) kernel_5"
  unfolding idct_5x10_row_def kernel_5_def list.map
  by (simp add: Let_def dct_consts DESCALE_def algebra_simps del: One_nat_def)

lemma idct_5x10_row_pass: "dct_pass idct_5x10_row (\<lambda>ws. ws) kernel_5 18 5 160000"
  by (rule shifted_pass [where n = 17, simplified, OF _ kernel_5_fits]) (simp add: idct_5x10_row_kernel split: prod.split)

interpretation i5x10: idct_pair idct_5x10_col idct_5x10_row kernel_10 11 10 kernel_5 18 5 160000 8192 2 8192 2
  by (rule idct_kernels [OF idct_5x10_col_pass idct_5x10_row_pass kernel_10_ok kernel_5_ok]) simp_all

lemma jpeg_idct_5x10_decodes:
  "rows_fit output_buf 10 (output_col + 5) \<Longrightarrow> weight (dequantized_at dct_table coef_block) \<le> 16000 \<Longrightarrow>
   \<exists>out. jpeg_idct_5x10 prepare_range_limit_table dct_table coef_block output_buf output_col = Some out \<and>
     decoded 10 5 dct_table coef_block output_buf output_col out"
  using i5x10.decodes by (simp add: jpeg_idct_5x10_def)


section \<open>4x8 samples\<close>

definition idct_4x8_col :: "(nat \<Rightarrow> int) \<Rightarrow> (nat \<Rightarrow> int) \<Rightarrow> int list" where
  "idct_4x8_col inp quant =
    (if inp 1 = 0 \<and> inp 2 = 0 \<and> inp 3 = 0 \<and> inp 4 = 0 \<and> inp 5 = 0 \<and> inp 6 = 0 \<and> inp 7 = 0
     then let dcval = s32 (DEQUANTIZE (inp 0) (quant 0) * 2 ^ PASS1_BITS) in [dcval, dcval, dcval, dcval, dcval, dcval, dcval, dcval]
     else
    (let z2 = DEQUANTIZE (inp 2) (quant 2);
         z3 = DEQUANTIZE (inp 6) (quant 6);
         z1 = (z2 + z3) * FIX_0_541196100;
         tmp2 = z1 + z2 * FIX_0_765366865;
         tmp3 = z1 - z3 * FIX_1_847759065;
         z2 = DEQUANTIZE (inp 0) (quant 0);
         z3 = DEQUANTIZE (inp 4) (quant 4);
         z2 = z2 * 2 ^ CONST_BITS;
         z3 = z3 * 2 ^ CONST_BITS;
         z2 = z2 + 1 * 2 ^ (CONST_BITS - PASS1_BITS - 1);
         tmp0 = z2 + z3;
         tmp1 = z2 - z3;
         tmp10 = tmp0 + tmp2;
         tmp13 = tmp0 - tmp2;
         tmp11 = tmp1 + tmp3;
         tmp12 = tmp1 - tmp3;
         tmp0 = DEQUANTIZE (inp 7) (quant 7);
         tmp1 = DEQUANTIZE (inp 5) (quant 5);
         tmp2 = DEQUANTIZE (inp 3) (quant 3);
         tmp3 = DEQUANTIZE (inp 1) (quant 1);
         z2 = tmp0 + tmp2;
         z3 = tmp1 + tmp3;
         z1 = (z2 + z3) * FIX_1_175875602;
         z2 = z2 * (- FIX_1_961570560);
         z3 = z3 * (- FIX_0_390180644);
         z2 = z2 + z1;
         z3 = z3 + z1;
         z1 = (tmp0 + tmp3) * (- FIX_0_899976223);
         tmp0 = tmp0 * FIX_0_298631336;
         tmp3 = tmp3 * FIX_1_501321110;
         tmp0 = tmp0 + (z1 + z2);
         tmp3 = tmp3 + (z1 + z3);
         z1 = (tmp1 + tmp2) * (- FIX_2_562915447);
         tmp1 = tmp1 * FIX_2_053119869;
         tmp2 = tmp2 * FIX_3_072711026;
         tmp1 = tmp1 + (z1 + z3);
         tmp2 = tmp2 + (z1 + z2);
         out0 = RIGHT_SHIFT (tmp10 + tmp3) (CONST_BITS - PASS1_BITS);
         out7 = RIGHT_SHIFT (tmp10 - tmp3) (CONST_BITS - PASS1_BITS);
         out1 = RIGHT_SHIFT (tmp11 + tmp2) (CONST_BITS - PASS1_BITS);
         out6 = RIGHT_SHIFT (tmp11 - tmp2) (CONST_BITS - PASS1_BITS);
         out2 = RIGHT_SHIFT (tmp12 + tmp1) (CONST_BITS - PASS1_BITS);
         out5 = RIGHT_SHIFT (tmp12 - tmp1) (CONST_BITS - PASS1_BITS);
         out3 = RIGHT_SHIFT (tmp13 + tmp0) (CONST_BITS - PASS1_BITS);
         out4 = RIGHT_SHIFT (tmp13 - tmp0) (CONST_BITS - PASS1_BITS)
     in [out0, out1, out2, out3, out4, out5, out6, out7]))"

definition idct_4x8_row :: "(nat \<Rightarrow> int) \<Rightarrow> int list" where
  "idct_4x8_row ws =
    (let tmp0 = ws 0 + 1 * 2 ^ (PASS1_BITS + 2);
         tmp2 = ws 2;
         tmp10 = (tmp0 + tmp2) * 2 ^ CONST_BITS;
         tmp12 = (tmp0 - tmp2) * 2 ^ CONST_BITS;
         z2 = ws 1;
         z3 = ws 3;
         z1 = (z2 + z3) * FIX_0_541196100;
         tmp0 = z1 + z2 * FIX_0_765366865;
         tmp2 = z1 - z3 * FIX_1_847759065;
         out0 = RIGHT_SHIFT (tmp10 + tmp0) (CONST_BITS + PASS1_BITS + 3);
         out3 = RIGHT_SHIFT (tmp10 - tmp0) (CONST_BITS + PASS1_BITS + 3);
         out1 = RIGHT_SHIFT (tmp12 + tmp2) (CONST_BITS + PASS1_BITS + 3);
         out2 = RIGHT_SHIFT (tmp12 - tmp2) (CONST_BITS + PASS1_BITS + 3)
     in [out0, out1, out2, out3])"

definition jpeg_idct_4x8 :: "limit_table \<Rightarrow> int list \<Rightarrow> int list \<Rightarrow> samparray \<Rightarrow> nat \<Rightarrow> samparray option" where
  "jpeg_idct_4x8 range_limit dct_table coef_block output_buf output_col =
     idct_store range_limit (idct_passes 4 8 idct_4x8_col idct_4x8_row dct_table coef_block) output_buf output_col"

lemma idct_4x8_col_kernel:
  assumes "\<not> (inp 1 = 0 \<and> inp 2 = 0 \<and> inp 3 = 0 \<and> inp 4 = 0 \<and> inp 5 = 0 \<and> inp 6 = 0 \<and> inp 7 = 0)"
  shows "idct_4x8_col inp quant = map (\<lambda>cs. RIGHT_SHIFT (dot 0 cs (\<lambda>j. DEQUANTIZE (inp j) (quant j)) + 1024) 11) kernel_8"
  unfolding idct_4x8_col_def if_not_P [OF assms] kernel_8_def list.map
  by (simp add: Let_def dct_consts DESCALE_def algebra_simps del: One_nat_def)

lemma idct_4x8_col_pass: "dct_pass (\<lambda>(inp, quant). idct_4x8_col inp quant) dequantized kernel_8 11 8 160000"
proof (rule shortcut_pass [OF shifted_pass [where n = 10, simplified, OF refl kernel_8_fits]])
  let ?z = "\<lambda>(inp, quant). (inp :: nat \<Rightarrow> int) 1 = 0 \<and> (inp :: nat \<Rightarrow> int) 2 = 0 \<and> (inp :: nat \<Rightarrow> int) 3 = 0 \<and> (inp :: nat \<Rightarrow> int) 4 = 0 \<and> (inp :: nat \<Rightarrow> int) 5 = 0 \<and> (inp :: nat \<Rightarrow> int) 6 = 0 \<and> (inp :: nat \<Rightarrow> int) 7 = 0"
  show "(\<lambda>(inp, quant). idct_4x8_col inp quant) a = map (\<lambda>cs. RIGHT_SHIFT (dot 0 cs (dequantized a) + 1024) 11) kernel_8" if "\<not> ?z a" for a
    using that idct_4x8_col_kernel by (auto simp: dequantized_def)
  show "(\<lambda>(inp, quant). idct_4x8_col inp quant) a = replicate (length kernel_8) (s32 (dequantized a 0 * 2 ^ PASS1_BITS))" if "?z a" for a
    using that by (auto simp: idct_4x8_col_def dequantized_def kernel_8_def Let_def)
  show "dequantized a j = 0" if "?z a" "0 < j" "j < 8" for a j
    using that by (auto simp: dequantized_def DEQUANTIZE_def less_Suc_eq numeral_eq_Suc)
qed (simp_all add: kernel_8_def shortcut_col [simplified])

lemma idct_4x8_row_kernel:
  "idct_4x8_row ws = map (\<lambda>cs. RIGHT_SHIFT (dot 0 cs ws + 131072) 18) kernel_4"
  unfolding idct_4x8_row_def kernel_4_def list.map
  by (simp add: Let_def dct_consts DESCALE_def algebra_simps del: One_nat_def)

lemma idct_4x8_row_pass: "dct_pass idct_4x8_row (\<lambda>ws. ws) kernel_4 18 4 160000"
  by (rule shifted_pass [where n = 17, simplified, OF _ kernel_4_fits]) (simp add: idct_4x8_row_kernel split: prod.split)

interpretation i4x8: idct_pair idct_4x8_col idct_4x8_row kernel_8 11 8 kernel_4 18 4 160000 8192 2 8192 2
  by (rule idct_kernels [OF idct_4x8_col_pass idct_4x8_row_pass kernel_8_ok kernel_4_ok]) simp_all

lemma jpeg_idct_4x8_decodes:
  "rows_fit output_buf 8 (output_col + 4) \<Longrightarrow> weight (dequantized_at dct_table coef_block) \<le> 16000 \<Longrightarrow>
   \<exists>out. jpeg_idct_4x8 prepare_range_limit_table dct_table coef_block output_buf output_col = Some out \<and>
     decoded 8 4 dct_table coef_block output_buf output_col out"
  using i4x8.decodes by (simp add: jpeg_idct_4x8_def)


section \<open>3x6 samples\<close>

definition idct_3x6_col :: "(nat \<Rightarrow> int) \<Rightarrow> (nat \<Rightarrow> int) \<Rightarrow> int list" where
  "idct_3x6_col inp quant =
    (let tmp0 = DEQUANTIZE (inp 0) (quant 0);
         tmp0 = tmp0 * 2 ^ CONST_BITS;
         tmp0 = tmp0 + 1 * 2 ^ (CONST_BITS - PASS1_BITS - 1);
         tmp2 = DEQUANTIZE (inp 4) (quant 4);
         tmp10 = tmp2 * FIX13 9 707106781;
         tmp1 = tmp0 + tmp10;
         tmp11 = RIGHT_SHIFT (tmp0 - tmp10 - tmp10) (CONST_BITS - PASS1_BITS);
         tmp10 = DEQUANTIZE (inp 2) (quant 2);
         tmp0 = tmp10 * FIX13 9 1224744871;
         tmp10 = tmp1 + tmp0;
         tmp12 = tmp1 - tmp0;
         z1 = DEQUANTIZE (inp 1) (quant 1);
         z2 = DEQUANTIZE (inp 3) (quant 3);
         z3 = DEQUANTIZE (inp 5) (quant 5);
         tmp1 = (z1 + z3) * FIX13 9 366025404;
         tmp0 = tmp1 + (z1 + z2) * 2 ^ CONST_BITS;
         tmp2 = tmp1 + (z3 - z2) * 2 ^ CONST_BITS;
         tmp1 = (z1 - z2 - z3) * 2 ^ PASS1_BITS;
         out0 = RIGHT_SHIFT (tmp10 + tmp0) (CONST_BITS - PASS1_BITS);
         out5 = RIGHT_SHIFT (tmp10 - tmp0) (CONST_BITS - PASS1_BITS);
         out1 = s32 (tmp11 + tmp1);
         out4 = s32 (tmp11 - tmp1);
         out2 = RIGHT_SHIFT (tmp12 + tmp2) (CONST_BITS - PASS1_BITS);
         out3 = RIGHT_SHIFT (tmp12 - tmp2) (CONST_BITS - PASS1_BITS)
     in [out0, out1, out2, out3, out4, out5])"

definition idct_3x6_row :: "(nat \<Rightarrow> int) \<Rightarrow> int list" where
  "idct_3x6_row ws =
    (let tmp0 = ws 0 + 1 * 2 ^ (PASS1_BITS + 2);
         tmp0 = tmp0 * 2 ^ CONST_BITS;
         tmp2 = ws 2;
         tmp12 = tmp2 * FIX13 9 707106781;
         tmp10 = tmp0 + tmp12;
         tmp2 = tmp0 - tmp12 - tmp12;
         tmp12 = ws 1;
         tmp0 = tmp12 * FIX13 9 1224744871;
         out0 = RIGHT_SHIFT (tmp10 + tmp0) (CONST_BITS + PASS1_BITS + 3);
         out2 = RIGHT_SHIFT (tmp10 - tmp0) (CONST_BITS + PASS1_BITS + 3);
         out1 = RIGHT_SHIFT tmp2 (CONST_BITS + PASS1_BITS + 3)
     in [out0, out1, out2])"

definition jpeg_idct_3x6 :: "limit_table \<Rightarrow> int list \<Rightarrow> int list \<Rightarrow> samparray \<Rightarrow> nat \<Rightarrow> samparray option" where
  "jpeg_idct_3x6 range_limit dct_table coef_block output_buf output_col =
     idct_store range_limit (idct_passes 3 6 idct_3x6_col idct_3x6_row dct_table coef_block) output_buf output_col"

lemma idct_3x6_col_kernel: "idct_3x6_col inp quant = map (split_output (\<lambda>j. DEQUANTIZE (inp j) (quant j))) parts_6"
  unfolding idct_3x6_col_def parts_6_def list.map
  by (simp add: split_output_def Let_def dct_consts DESCALE_def algebra_simps del: One_nat_def)

lemma idct_3x6_col_pass: "dct_pass (\<lambda>(inp, quant). idct_3x6_col inp quant) dequantized kernel_6 11 6 160000"
  by (rule split_pass [OF _ parts_6_ok]) (simp add: dequantized_def idct_3x6_col_kernel split: prod.split)

lemma idct_3x6_row_kernel:
  "idct_3x6_row ws = map (\<lambda>cs. RIGHT_SHIFT (dot 0 cs ws + 131072) 18) kernel_3"
  unfolding idct_3x6_row_def kernel_3_def list.map
  by (simp add: Let_def dct_consts DESCALE_def algebra_simps del: One_nat_def)

lemma idct_3x6_row_pass: "dct_pass idct_3x6_row (\<lambda>ws. ws) kernel_3 18 3 160000"
  by (rule shifted_pass [where n = 17, simplified, OF _ kernel_3_fits]) (simp add: idct_3x6_row_kernel split: prod.split)

interpretation i3x6: idct_pair idct_3x6_col idct_3x6_row kernel_6 11 6 kernel_3 18 3 160000 8192 2 8192 2
  by (rule idct_kernels [OF idct_3x6_col_pass idct_3x6_row_pass kernel_6_ok kernel_3_ok]) simp_all

lemma jpeg_idct_3x6_decodes:
  "rows_fit output_buf 6 (output_col + 3) \<Longrightarrow> weight (dequantized_at dct_table coef_block) \<le> 16000 \<Longrightarrow>
   \<exists>out. jpeg_idct_3x6 prepare_range_limit_table dct_table coef_block output_buf output_col = Some out \<and>
     decoded 6 3 dct_table coef_block output_buf output_col out"
  using i3x6.decodes by (simp add: jpeg_idct_3x6_def)


section \<open>2x4 samples\<close>

definition idct_2x4_col :: "(nat \<Rightarrow> int) \<Rightarrow> (nat \<Rightarrow> int) \<Rightarrow> int list" where
  "idct_2x4_col inp quant =
    (let tmp0 = DEQUANTIZE (inp 0) (quant 0);
         tmp2 = DEQUANTIZE (inp 2) (quant 2);
         tmp10 = (tmp0 + tmp2) * 2 ^ CONST_BITS;
         tmp12 = (tmp0 - tmp2) * 2 ^ CONST_BITS;
         z2 = DEQUANTIZE (inp 1) (quant 1);
         z3 = DEQUANTIZE (inp 3) (quant 3);
         z1 = (z2 + z3) * FIX_0_541196100;
         tmp0 = z1 + z2 * FIX_0_765366865;
         tmp2 = z1 - z3 * FIX_1_847759065;
         out0 = s32 (tmp10 + tmp0);
         out3 = s32 (tmp10 - tmp0);
         out1 = s32 (tmp12 + tmp2);
         out2 = s32 (tmp12 - tmp2)
     in [out0, out1, out2, out3])"

definition idct_2x4_row :: "(nat \<Rightarrow> int) \<Rightarrow> int list" where
  "idct_2x4_row ws =
    (let tmp10 = ws 0 + 1 * 2 ^ (CONST_BITS + 2);
         tmp0 = ws 1;
         out0 = RIGHT_SHIFT (tmp10 + tmp0) (CONST_BITS + 3);
         out1 = RIGHT_SHIFT (tmp10 - tmp0) (CONST_BITS + 3)
     in [out0, out1])"

definition jpeg_idct_2x4 :: "limit_table \<Rightarrow> int list \<Rightarrow> int list \<Rightarrow> samparray \<Rightarrow> nat \<Rightarrow> samparray option" where
  "jpeg_idct_2x4 range_limit dct_table coef_block output_buf output_col =
     idct_store range_limit (idct_passes 2 4 idct_2x4_col idct_2x4_row dct_table coef_block) output_buf output_col"

lemma idct_2x4_col_kernel:
  "idct_2x4_col inp quant = map (\<lambda>cs. s32 (dot 0 cs (\<lambda>j. DEQUANTIZE (inp j) (quant j)))) kernel_4"
  unfolding idct_2x4_col_def kernel_4_def list.map
  by (simp add: Let_def dct_consts DESCALE_def algebra_simps del: One_nat_def)

lemma idct_2x4_col_pass: "dct_pass (\<lambda>(inp, quant). idct_2x4_col inp quant) dequantized kernel_4 0 4 160000"
  by (rule exact_pass [OF _ kernel_4_fits]) (simp add: dequantized_def idct_2x4_col_kernel split: prod.split)

lemma idct_2x4_row_kernel:
  "idct_2x4_row ws = map (\<lambda>cs. RIGHT_SHIFT (dot 0 cs ws + 32768) 16) kernel_2"
  unfolding idct_2x4_row_def kernel_2_def list.map
  by (simp add: Let_def dct_consts DESCALE_def algebra_simps del: One_nat_def)

lemma idct_2x4_row_pass: "dct_pass idct_2x4_row (\<lambda>ws. ws) kernel_2 16 2 2000000000"
  by (rule shifted_pass [where n = 15, simplified, OF _ kernel_2_fits [of 2000000000, simplified]]) (simp add: idct_2x4_row_kernel split: prod.split)

interpretation i2x4: idct_pair idct_2x4_col idct_2x4_row kernel_4 0 4 kernel_2 16 2 2000000000 8192 2 1 0
  by (rule idct_2_4 [OF idct_2x4_col_pass idct_2x4_row_pass])

lemma jpeg_idct_2x4_decodes:
  "rows_fit output_buf 4 (output_col + 2) \<Longrightarrow> weight (dequantized_at dct_table coef_block) \<le> 16000 \<Longrightarrow>
   \<exists>out. jpeg_idct_2x4 prepare_range_limit_table dct_table coef_block output_buf output_col = Some out \<and>
     decoded 4 2 dct_table coef_block output_buf output_col out"
  using i2x4.decodes by (simp add: jpeg_idct_2x4_def)

end
