(* ===== verification/IdctManager.thy ===== *)
theory IdctManager
  imports IdctSmall IdctLarge IdctLarger IdctWide IdctHigh
begin

text \<open>
  Inverse-DCT management, \<open>jpeg-9a/jddctmgr.c\<close>: at the start of an output pass the routine of every
  component is chosen by the size of its blocks, and its multiplier table is made from the
  quantisation table.  The routines of \<open>jidctint.c\<close> are those of the preceding theories; those of
  \<open>jidctfst.c\<close> and \<open>jidctflt.c\<close> are names only, as is the table of the latter.
\<close>

text \<open>\<open>JDCT_other\<close> stands for any other value of \<open>J_DCT_METHOD\<close>.\<close>

datatype dct_method = JDCT_ISLOW | JDCT_IFAST | JDCT_FLOAT | JDCT_other

datatype inverse_DCT_method =
    Idct_islow | Idct_ifast | Idct_float
  | Idct_1x1 | Idct_2x2 | Idct_3x3 | Idct_4x4 | Idct_5x5 | Idct_6x6 | Idct_7x7 | Idct_9x9
  | Idct_10x10 | Idct_11x11 | Idct_12x12 | Idct_13x13 | Idct_14x14 | Idct_15x15 | Idct_16x16 | Idct_16x8
  | Idct_14x7 | Idct_12x6 | Idct_10x5 | Idct_8x4 | Idct_6x3 | Idct_4x2 | Idct_2x1 | Idct_8x16
  | Idct_7x14 | Idct_6x12 | Idct_5x10 | Idct_4x8 | Idct_3x6 | Idct_2x4 | Idct_1x2

type_synonym idct_routine =
  "limit_table \<Rightarrow> int list \<Rightarrow> int list \<Rightarrow> samparray \<Rightarrow> nat \<Rightarrow> samparray option"

primrec integer_idct :: "inverse_DCT_method \<Rightarrow> idct_routine option" where
  "integer_idct Idct_islow = Some jpeg_idct_islow"
| "integer_idct Idct_ifast = None"
| "integer_idct Idct_float = None"
| "integer_idct Idct_1x1 = Some jpeg_idct_1x1"
| "integer_idct Idct_2x2 = Some jpeg_idct_2x2"
| "integer_idct Idct_3x3 = Some jpeg_idct_3x3"
| "integer_idct Idct_4x4 = Some jpeg_idct_4x4"
| "integer_idct Idct_5x5 = Some jpeg_idct_5x5"
| "integer_idct Idct_6x6 = Some jpeg_idct_6x6"
| "integer_idct Idct_7x7 = Some jpeg_idct_7x7"
| "integer_idct Idct_9x9 = Some jpeg_idct_9x9"
| "integer_idct Idct_10x10 = Some jpeg_idct_10x10"
| "integer_idct Idct_11x11 = Some jpeg_idct_11x11"
| "integer_idct Idct_12x12 = Some jpeg_idct_12x12"
| "integer_idct Idct_13x13 = Some jpeg_idct_13x13"
| "integer_idct Idct_14x14 = Some jpeg_idct_14x14"
| "integer_idct Idct_15x15 = Some jpeg_idct_15x15"
| "integer_idct Idct_16x16 = Some jpeg_idct_16x16"
| "integer_idct Idct_16x8 = Some jpeg_idct_16x8"
| "integer_idct Idct_14x7 = Some jpeg_idct_14x7"
| "integer_idct Idct_12x6 = Some jpeg_idct_12x6"
| "integer_idct Idct_10x5 = Some jpeg_idct_10x5"
| "integer_idct Idct_8x4 = Some jpeg_idct_8x4"
| "integer_idct Idct_6x3 = Some jpeg_idct_6x3"
| "integer_idct Idct_4x2 = Some jpeg_idct_4x2"
| "integer_idct Idct_2x1 = Some jpeg_idct_2x1"
| "integer_idct Idct_8x16 = Some jpeg_idct_8x16"
| "integer_idct Idct_7x14 = Some jpeg_idct_7x14"
| "integer_idct Idct_6x12 = Some jpeg_idct_6x12"
| "integer_idct Idct_5x10 = Some jpeg_idct_5x10"
| "integer_idct Idct_4x8 = Some jpeg_idct_4x8"
| "integer_idct Idct_3x6 = Some jpeg_idct_3x6"
| "integer_idct Idct_2x4 = Some jpeg_idct_2x4"
| "integer_idct Idct_1x2 = Some jpeg_idct_1x2"

definition select_idct :: "dct_method \<Rightarrow> nat \<Rightarrow> nat \<Rightarrow> (inverse_DCT_method \<times> dct_method) result" where
  "select_idct dct_method h_size v_size =
     (let size_code = h_size * 2 ^ 8 + v_size in
      if size_code = 1 * 2 ^ 8 + 1 then Inr (Idct_1x1, JDCT_ISLOW) else
      if size_code = 2 * 2 ^ 8 + 2 then Inr (Idct_2x2, JDCT_ISLOW) else
      if size_code = 3 * 2 ^ 8 + 3 then Inr (Idct_3x3, JDCT_ISLOW) else
      if size_code = 4 * 2 ^ 8 + 4 then Inr (Idct_4x4, JDCT_ISLOW) else
      if size_code = 5 * 2 ^ 8 + 5 then Inr (Idct_5x5, JDCT_ISLOW) else
      if size_code = 6 * 2 ^ 8 + 6 then Inr (Idct_6x6, JDCT_ISLOW) else
      if size_code = 7 * 2 ^ 8 + 7 then Inr (Idct_7x7, JDCT_ISLOW) else
      if size_code = 9 * 2 ^ 8 + 9 then Inr (Idct_9x9, JDCT_ISLOW) else
      if size_code = 10 * 2 ^ 8 + 10 then Inr (Idct_10x10, JDCT_ISLOW) else
      if size_code = 11 * 2 ^ 8 + 11 then Inr (Idct_11x11, JDCT_ISLOW) else
      if size_code = 12 * 2 ^ 8 + 12 then Inr (Idct_12x12, JDCT_ISLOW) else
      if size_code = 13 * 2 ^ 8 + 13 then Inr (Idct_13x13, JDCT_ISLOW) else
      if size_code = 14 * 2 ^ 8 + 14 then Inr (Idct_14x14, JDCT_ISLOW) else
      if size_code = 15 * 2 ^ 8 + 15 then Inr (Idct_15x15, JDCT_ISLOW) else
      if size_code = 16 * 2 ^ 8 + 16 then Inr (Idct_16x16, JDCT_ISLOW) else
      if size_code = 16 * 2 ^ 8 + 8 then Inr (Idct_16x8, JDCT_ISLOW) else
      if size_code = 14 * 2 ^ 8 + 7 then Inr (Idct_14x7, JDCT_ISLOW) else
      if size_code = 12 * 2 ^ 8 + 6 then Inr (Idct_12x6, JDCT_ISLOW) else
      if size_code = 10 * 2 ^ 8 + 5 then Inr (Idct_10x5, JDCT_ISLOW) else
      if size_code = 8 * 2 ^ 8 + 4 then Inr (Idct_8x4, JDCT_ISLOW) else
      if size_code = 6 * 2 ^ 8 + 3 then Inr (Idct_6x3, JDCT_ISLOW) else
      if size_code = 4 * 2 ^ 8 + 2 then Inr (Idct_4x2, JDCT_ISLOW) else
      if size_code = 2 * 2 ^ 8 + 1 then Inr (Idct_2x1, JDCT_ISLOW) else
      if size_code = 8 * 2 ^ 8 + 16 then Inr (Idct_8x16, JDCT_ISLOW) else
      if size_code = 7 * 2 ^ 8 + 14 then Inr (Idct_7x14, JDCT_ISLOW) else
      if size_code = 6 * 2 ^ 8 + 12 then Inr (Idct_6x12, JDCT_ISLOW) else
      if size_code = 5 * 2 ^ 8 + 10 then Inr (Idct_5x10, JDCT_ISLOW) else
      if size_code = 4 * 2 ^ 8 + 8 then Inr (Idct_4x8, JDCT_ISLOW) else
      if size_code = 3 * 2 ^ 8 + 6 then Inr (Idct_3x6, JDCT_ISLOW) else
      if size_code = 2 * 2 ^ 8 + 4 then Inr (Idct_2x4, JDCT_ISLOW) else
      if size_code = 1 * 2 ^ 8 + 2 then Inr (Idct_1x2, JDCT_ISLOW) else
      if size_code = DCTSIZE * 2 ^ 8 + DCTSIZE then
        (case dct_method of
           JDCT_ISLOW \<Rightarrow> Inr (Idct_islow, JDCT_ISLOW)
         | JDCT_IFAST \<Rightarrow> Inr (Idct_ifast, JDCT_IFAST)
         | JDCT_FLOAT \<Rightarrow> Inr (Idct_float, JDCT_FLOAT)
         | JDCT_other \<Rightarrow> Inl JERR_NOT_COMPILED)
      else Inl (JERR_BAD_DCTSIZE h_size v_size))"

text \<open>
  Multiplier tables: \<open>Zero_table\<close> is the preset of \<open>jinit_inverse_dct\<close>; \<open>Float_table\<close> holds the
  quantisation values the floating-point multipliers are made from.
\<close>

datatype multiplier_table = Zero_table | Islow_table "int list" | Ifast_table "int list" | Float_table "nat list"

definition aanscales :: "int list" where
  "aanscales =
    [16384, 22725, 21407, 19266, 16384, 12873,  8867,  4520,
     22725, 31521, 29692, 26722, 22725, 17855, 12299,  6270,
     21407, 29692, 27969, 25172, 21407, 16819, 11585,  5906,
     19266, 26722, 25172, 22654, 19266, 15137, 10426,  5315,
     16384, 22725, 21407, 19266, 16384, 12873,  8867,  4520,
     12873, 17855, 16819, 15137, 12873, 10114,  6967,  3552,
      8867, 12299, 11585, 10426,  8867,  6967,  4799,  2446,
      4520,  6270,  5906,  5315,  4520,  3552,  2446,  1247]"

definition IFAST_SCALE_BITS :: nat where "IFAST_SCALE_BITS = 2"

definition make_table :: "dct_method \<Rightarrow> quant_tbl \<Rightarrow> multiplier_table result" where
  "make_table dct_method qtbl =
     (case dct_method of
        JDCT_ISLOW \<Rightarrow> Inr (Islow_table (map int (quantval qtbl)))
      | JDCT_IFAST \<Rightarrow> Inr (Ifast_table (map2 (\<lambda>q s. DESCALE (int q * s) (14 - IFAST_SCALE_BITS)) (quantval qtbl) aanscales))
      | JDCT_FLOAT \<Rightarrow> Inr (Float_table (quantval qtbl))
      | JDCT_other \<Rightarrow> Inl JERR_NOT_COMPILED)"

record idct_component =
  DCT_h_scaled_size :: nat
  DCT_v_scaled_size :: nat
  component_needed :: bool
  quant_table :: "quant_tbl option"
  dct_table :: multiplier_table

text \<open>\<open>None\<close> in \<open>cur_method\<close> is the code -1.\<close>

record idct_controller =
  inverse_DCT :: "inverse_DCT_method option list"
  cur_method :: "dct_method option list"
  comp_tables :: "idct_component list"

definition jinit_inverse_dct :: "idct_component list \<Rightarrow> idct_controller" where
  "jinit_inverse_dct comps =
     \<lparr>inverse_DCT = replicate (length comps) None, cur_method = replicate (length comps) None,
      comp_tables = map (dct_table_update (\<lambda>_. Zero_table)) comps\<rparr>"

definition start_pass_component :: "dct_method \<Rightarrow> nat \<Rightarrow> idct_controller \<Rightarrow> idct_controller result" where
  "start_pass_component dct_method ci idct =
     (let compptr = comp_tables idct ! ci in
      bind_err (select_idct dct_method (DCT_h_scaled_size compptr) (DCT_v_scaled_size compptr)) (\<lambda>(method_ptr, method).
        let idct = idct\<lparr>inverse_DCT := (inverse_DCT idct)[ci := Some method_ptr]\<rparr> in
        if \<not> component_needed compptr \<or> cur_method idct ! ci = Some method then Inr idct
        else (case quant_table compptr of None \<Rightarrow> Inr idct
              | Some qtbl \<Rightarrow> bind_err (make_table method qtbl) (\<lambda>t.
                  Inr (idct\<lparr>cur_method := (cur_method idct)[ci := Some method],
                            comp_tables := (comp_tables idct)[ci := compptr\<lparr>dct_table := t\<rparr>]\<rparr>)))))"

fun start_pass_components :: "dct_method \<Rightarrow> nat list \<Rightarrow> idct_controller \<Rightarrow> idct_controller result" where
  "start_pass_components dct_method [] idct = Inr idct"
| "start_pass_components dct_method (ci # todo) idct =
     bind_err (start_pass_component dct_method ci idct) (start_pass_components dct_method todo)"

definition start_pass_idct :: "dct_method \<Rightarrow> idct_controller \<Rightarrow> idct_controller result" where
  "start_pass_idct dct_method idct = start_pass_components dct_method [0..<length (comp_tables idct)] idct"

section \<open>The routine that is chosen\<close>

lemma size_code: "v < 256 \<Longrightarrow> h * 2 ^ 8 + v = k \<longleftrightarrow> h = k div 256 \<and> v = k mod 256" for h v k :: nat
  by auto

lemmas routines_decode = jpeg_idct_islow_decodes jpeg_idct_1x1_decodes jpeg_idct_2x2_decodes jpeg_idct_3x3_decodes jpeg_idct_4x4_decodes
  jpeg_idct_5x5_decodes jpeg_idct_6x6_decodes jpeg_idct_7x7_decodes jpeg_idct_9x9_decodes
  jpeg_idct_10x10_decodes jpeg_idct_11x11_decodes jpeg_idct_12x12_decodes jpeg_idct_13x13_decodes
  jpeg_idct_14x14_decodes jpeg_idct_15x15_decodes jpeg_idct_16x16_decodes jpeg_idct_16x8_decodes
  jpeg_idct_14x7_decodes jpeg_idct_12x6_decodes jpeg_idct_10x5_decodes jpeg_idct_8x4_decodes
  jpeg_idct_6x3_decodes jpeg_idct_4x2_decodes jpeg_idct_2x1_decodes jpeg_idct_8x16_decodes
  jpeg_idct_7x14_decodes jpeg_idct_6x12_decodes jpeg_idct_5x10_decodes jpeg_idct_4x8_decodes
  jpeg_idct_3x6_decodes jpeg_idct_2x4_decodes jpeg_idct_1x2_decodes

lemma select_idct_decodes:
  assumes sel: "select_idct dct_method h v = Inr (m, d)" and v: "v < 256" and f: "integer_idct m = Some f"
    and fit: "rows_fit output_buf v (output_col + h)" and B: "weight (dequantized_at tab coef_block) \<le> 16000"
  shows "d = JDCT_ISLOW \<and> (\<exists>out. f prepare_range_limit_table tab coef_block output_buf output_col = Some out \<and>
    decoded v h tab coef_block output_buf output_col out)"
proof -
  have "d = JDCT_ISLOW \<and> (rows_fit output_buf v (output_col + h) \<longrightarrow>
      (\<exists>out. f prepare_range_limit_table tab coef_block output_buf output_col = Some out \<and>
        decoded v h tab coef_block output_buf output_col out))"
    using sel f routines_decode [OF _ B]
    unfolding select_idct_def Let_def DCTSIZE_def size_code [OF v]
    by (auto split: if_splits dct_method.splits)
  then show ?thesis using fit by blast
qed

section \<open>Multiplier tables\<close>

text \<open>
  A component's table is either untouched or the one of its quantisation table for the method noted;
  the lists have an entry per component.
\<close>

definition table_current :: "dct_method option \<Rightarrow> idct_component \<Rightarrow> bool" where
  "table_current cur compptr = (case cur of None \<Rightarrow> dct_table compptr = Zero_table
     | Some method \<Rightarrow> (\<exists>q. quant_table compptr = Some q \<and> make_table method q = Inr (dct_table compptr)))"

definition idct_ok :: "idct_controller \<Rightarrow> bool" where
  "idct_ok idct \<longleftrightarrow> length (inverse_DCT idct) = length (comp_tables idct) \<and>
     length (cur_method idct) = length (comp_tables idct) \<and>
     (\<forall>ci<length (comp_tables idct). table_current (cur_method idct ! ci) (comp_tables idct ! ci))"

lemma jinit_inverse_dct_ok: "idct_ok (jinit_inverse_dct comps)"
  by (simp add: idct_ok_def jinit_inverse_dct_def table_current_def)

text \<open>What a component keeps during a pass: all but its multiplier table.\<close>

definition same_component :: "idct_component \<Rightarrow> idct_component \<Rightarrow> bool" where
  "same_component c c' \<longleftrightarrow> (\<exists>t. c' = c\<lparr>dct_table := t\<rparr>)"

lemma same_component_refl [simp]: "same_component c c"
  unfolding same_component_def by (intro exI [of _ "dct_table c"]) simp

lemma same_component_update [simp]: "same_component c (c\<lparr>dct_table := t\<rparr>)"
  by (auto simp: same_component_def)

lemma same_component_trans: "same_component a b \<Longrightarrow> same_component b c \<Longrightarrow> same_component a c"
  by (auto simp: same_component_def)

text \<open>The state of component \<open>ci\<close> once it was prepared.\<close>

definition prepared :: "dct_method \<Rightarrow> idct_controller \<Rightarrow> nat \<Rightarrow> bool" where
  "prepared dct_method idct ci =
     (let c = comp_tables idct ! ci in
      \<exists>m d. select_idct dct_method (DCT_h_scaled_size c) (DCT_v_scaled_size c) = Inr (m, d) \<and>
        inverse_DCT idct ! ci = Some m \<and>
        (component_needed c \<longrightarrow> quant_table c \<noteq> None \<longrightarrow> cur_method idct ! ci = Some d))"

lemma start_pass_component_cases:
  assumes "start_pass_component dct_method ci idct = Inr idct'"
  obtains (kept) m d where
      "select_idct dct_method (DCT_h_scaled_size (comp_tables idct ! ci)) (DCT_v_scaled_size (comp_tables idct ! ci)) = Inr (m, d)"
      "component_needed (comp_tables idct ! ci) \<longrightarrow> quant_table (comp_tables idct ! ci) \<noteq> None \<longrightarrow> cur_method idct ! ci = Some d"
      "idct' = idct\<lparr>inverse_DCT := (inverse_DCT idct)[ci := Some m]\<rparr>"
    | (made) m d q t where
      "select_idct dct_method (DCT_h_scaled_size (comp_tables idct ! ci)) (DCT_v_scaled_size (comp_tables idct ! ci)) = Inr (m, d)"
      "quant_table (comp_tables idct ! ci) = Some q" "make_table d q = Inr t"
      "idct' = idct\<lparr>inverse_DCT := (inverse_DCT idct)[ci := Some m], cur_method := (cur_method idct)[ci := Some d],
        comp_tables := (comp_tables idct)[ci := (comp_tables idct ! ci)\<lparr>dct_table := t\<rparr>]\<rparr>"
proof -
  obtain m d where sel: "select_idct dct_method (DCT_h_scaled_size (comp_tables idct ! ci))
      (DCT_v_scaled_size (comp_tables idct ! ci)) = Inr (m, d)"
    using assms by (auto simp: start_pass_component_def Let_def bind_err_Inr)
  show thesis
  proof (cases "\<not> component_needed (comp_tables idct ! ci) \<or> cur_method idct ! ci = Some d \<or> quant_table (comp_tables idct ! ci) = None")
    case True
    then have "idct' = idct\<lparr>inverse_DCT := (inverse_DCT idct)[ci := Some m]\<rparr>"
      using assms sel by (auto simp: start_pass_component_def Let_def split: if_splits)
    then show ?thesis using kept [OF sel] True by auto
  next
    case False
    then obtain q where q: "quant_table (comp_tables idct ! ci) = Some q" by auto
    obtain t where "make_table d q = Inr t"
      using assms sel False q by (auto simp: start_pass_component_def Let_def bind_err_Inr)
    then show ?thesis using made [OF sel q] assms sel False q by (simp add: start_pass_component_def Let_def)
  qed
qed

lemma start_pass_component_step:
  assumes ok: "idct_ok idct" and ci: "ci < length (comp_tables idct)"
    and step: "start_pass_component dct_method ci idct = Inr idct'"
  shows "idct_ok idct' \<and> length (comp_tables idct') = length (comp_tables idct) \<and> prepared dct_method idct' ci \<and>
    same_component (comp_tables idct ! cj) (comp_tables idct' ! cj) \<and>
    (cj \<noteq> ci \<longrightarrow> prepared dct_method idct cj \<longrightarrow> prepared dct_method idct' cj)"
  using step
proof (cases rule: start_pass_component_cases)
  case (kept m d)
  then show ?thesis using ok ci by (simp add: idct_ok_def prepared_def Let_def)
next
  case (made m d q t)
  moreover have "table_current (Some d) ((comp_tables idct ! ci)\<lparr>dct_table := t\<rparr>)"
    using made by (simp add: table_current_def)
  ultimately show ?thesis using ok ci
    by (auto simp: idct_ok_def prepared_def Let_def nth_list_update)
qed

lemma start_pass_components_result:
  assumes "idct_ok idct" "set todo \<subseteq> {..<length (comp_tables idct)}" "distinct todo"
    and "start_pass_components dct_method todo idct = Inr idct'"
  shows "idct_ok idct' \<and> length (comp_tables idct') = length (comp_tables idct) \<and>
    (\<forall>ci\<in>set todo. prepared dct_method idct' ci) \<and>
    (\<forall>cj. same_component (comp_tables idct ! cj) (comp_tables idct' ! cj)) \<and>
    (\<forall>cj. cj \<notin> set todo \<longrightarrow> prepared dct_method idct cj \<longrightarrow> prepared dct_method idct' cj)"
  using assms
proof (induction todo arbitrary: idct)
  case Nil
  then show ?case by simp
next
  case (Cons ci todo)
  then obtain mid where mid: "start_pass_component dct_method ci idct = Inr mid"
    "start_pass_components dct_method todo mid = Inr idct'"
    by (auto simp: bind_err_Inr)
  have ci: "ci < length (comp_tables idct)" using Cons.prems(2) by simp
  note step = start_pass_component_step [OF Cons.prems(1) ci mid(1)]
  then have sizes: "idct_ok mid" "length (comp_tables mid) = length (comp_tables idct)" by blast+
  have "idct_ok idct' \<and> length (comp_tables idct') = length (comp_tables mid) \<and>
      (\<forall>ci\<in>set todo. prepared dct_method idct' ci) \<and>
      (\<forall>cj. same_component (comp_tables mid ! cj) (comp_tables idct' ! cj)) \<and>
      (\<forall>cj. cj \<notin> set todo \<longrightarrow> prepared dct_method mid cj \<longrightarrow> prepared dct_method idct' cj)"
    using Cons.IH [OF sizes(1) _ _ mid(2)] Cons.prems(2,3) sizes(2) by simp
  then show ?case using step Cons.prems(3) by (auto intro: same_component_trans)
qed

lemma start_pass_idct_result:
  assumes "idct_ok idct" "start_pass_idct dct_method idct = Inr idct'"
  shows "idct_ok idct'" "length (comp_tables idct') = length (comp_tables idct)"
    "ci < length (comp_tables idct) \<Longrightarrow> prepared dct_method idct' ci"
    "same_component (comp_tables idct ! ci) (comp_tables idct' ! ci)"
  using start_pass_components_result [of idct "[0..<length (comp_tables idct)]" dct_method idct'] assms
  by (auto simp: start_pass_idct_def atLeast0LessThan)

text \<open>
  C2: after the start of an output pass every component that is needed, whose quantisation table is
  known and whose block size has a routine in \<open>jidctint.c\<close> has the quantisation values as its
  multipliers.  The routine chosen for it, applied to a block of coefficients whose dequantised
  values sum up to at most 16000 in absolute value, writes exactly the block's samples and no
  others.  A sample whose exact scaled inverse DCT is within -509..509 is that value,
  level-shifted and limited to 0..255, with an error of at most 0.7 plus a ten-thousandth of the
  sum.  Farther out the limiting table is indexed modulo 1024: a value within 509 of \<open>1024 k\<close>
  comes out, with the same error, as its distance from \<open>1024 k\<close> would (an exact 1000 as 104,
  not 255).
\<close>

theorem inverse_dct_accurate:
  assumes ok: "idct_ok idct" and start: "start_pass_idct dct_method idct = Inr idct'"
    and ci: "ci < length (comp_tables idct)" and c: "c = comp_tables idct ! ci" "component_needed c"
    and q: "quant_table c = Some q" and v: "DCT_v_scaled_size c < 256"
    and m: "inverse_DCT idct' ! ci = Some m" and f: "integer_idct m = Some f"
    and fit: "rows_fit output_buf (DCT_v_scaled_size c) (output_col + DCT_h_scaled_size c)"
    and B: "weight (dequantized_at (map int (quantval q)) coef_block) \<le> 16000"
  shows "dct_table (comp_tables idct' ! ci) = Islow_table (map int (quantval q)) \<and>
    (\<exists>out. f prepare_range_limit_table (map int (quantval q)) coef_block output_buf output_col = Some out \<and>
      row_shape out = row_shape output_buf \<and>
      (\<forall>r i. r < DCT_v_scaled_size c \<and> output_col \<le> i \<and> i < output_col + DCT_h_scaled_size c \<or>
        row_cell out (r, i) = row_cell output_buf (r, i)) \<and>
      (let a = dequantized_at (map int (quantval q)) coef_block;
           exact = idct_exact (DCT_v_scaled_size c) (DCT_h_scaled_size c) a in
       \<forall>r<DCT_v_scaled_size c. \<forall>i<DCT_h_scaled_size c. \<forall>k :: int. \<bar>exact r i - 1024 * real_of_int k\<bar> \<le> 509 \<longrightarrow>
         \<bar>real_of_int (uint (row_cell out (r, output_col + i))) - limited (exact r i - 1024 * real_of_int k + 128)\<bar>
           \<le> 7 / 10 + real_of_int (weight a) / 10000))"
proof -
  note res = start_pass_idct_result [OF ok start]
  obtain t where c': "comp_tables idct' ! ci = c\<lparr>dct_table := t\<rparr>"
    using res(4) [of ci] unfolding same_component_def c by blast
  obtain d where sel: "select_idct dct_method (DCT_h_scaled_size c) (DCT_v_scaled_size c) = Inr (m, d)"
    and cur: "cur_method idct' ! ci = Some d"
    using res(3) [OF ci] c(2) q m unfolding prepared_def by (auto simp: c' Let_def)
  have d: "d = JDCT_ISLOW" and out: "\<exists>out. f prepare_range_limit_table (map int (quantval q)) coef_block output_buf output_col = Some out \<and>
      decoded (DCT_v_scaled_size c) (DCT_h_scaled_size c) (map int (quantval q)) coef_block output_buf output_col out"
    using select_idct_decodes [OF sel v f fit B] by simp_all
  have "table_current (Some d) (c\<lparr>dct_table := t\<rparr>)"
    using res(1,2) ci cur unfolding idct_ok_def by (metis c')
  then have "t = Islow_table (map int (quantval q))"
    using q by (simp add: d table_current_def make_table_def)
  then show ?thesis using out unfolding decoded_def Let_def by (simp only: c') simp
qed

text \<open>A block of one coefficient, 500 times 16 at the origin: exactly 1000 everywhere, decoded as 104.\<close>

lemma dequantized_dc:
  "u < 8 \<Longrightarrow> v < 8 \<Longrightarrow>
   dequantized_at (replicate 64 16) (500 # replicate 63 0) u v = (if u = 0 \<and> v = 0 then 8000 else 0)"
  by (auto simp: dequantized_at_def DEQUANTIZE_def DCTSIZE_def nth_Cons')

lemma exact_dc:
  assumes "\<And>u v. u < 8 \<Longrightarrow> v < 8 \<Longrightarrow> a u v = (if u = 0 \<and> v = 0 then 8000 else 0)"
  shows "idct_exact 8 8 a r c = 1000" "weight a = 8000"
proof -
  have inner: "(\<Sum>u<8. dct_basis 8 r u * real_of_int (a u v)) = (if v = 0 then 8000 else 0)" if "v < 8" for v
  proof -
    have "(\<Sum>u<8. dct_basis 8 r u * real_of_int (a u v)) = (\<Sum>u<8 :: nat. if u = 0 then if v = 0 then 8000 else 0 else 0)"
      using assms that by (intro sum.cong) (simp_all add: dct_basis_def)
    then show ?thesis by simp
  qed
  have "(\<Sum>v<8. dct_basis 8 c v * (\<Sum>u<8. dct_basis 8 r u * real_of_int (a u v)))
      = (\<Sum>v<8 :: nat. if v = 0 then 8000 else (0 :: real))"
    using inner by (intro sum.cong) (simp_all add: dct_basis_def)
  then show "idct_exact 8 8 a r c = 1000" by (simp add: idct_exact_def)
  have "(\<Sum>u<8. \<bar>a u v\<bar>) = (if v = 0 then 8000 else 0)" if "v < 8" for v
  proof -
    have "(\<Sum>u<8. \<bar>a u v\<bar>) = (\<Sum>u<8 :: nat. if u = 0 then if v = 0 then 8000 else 0 else 0)"
      using assms that by (intro sum.cong) simp_all
    then show ?thesis by simp
  qed
  then have "weight a = (\<Sum>v<8 :: nat. if v = 0 then 8000 else (0 :: int))"
    unfolding weight_def by (intro sum.cong) simp_all
  then show "weight a = 8000" by simp
qed

theorem inverse_dct_accurate_witness:
  "\<exists>idct' out. start_pass_idct JDCT_ISLOW (jinit_inverse_dct [\<lparr>DCT_h_scaled_size = 8, DCT_v_scaled_size = 8,
      component_needed = True, quant_table = Some \<lparr>quantval = replicate 64 16, q_sent_table = False\<rparr>,
      dct_table = Zero_table\<rparr>]) = Inr idct' \<and>
    dct_table (comp_tables idct' ! 0) = Islow_table (replicate 64 16) \<and>
    jpeg_idct_islow prepare_range_limit_table (replicate 64 16) (500 # replicate 63 0) (replicate 8 (replicate 20 0)) 4 = Some out \<and>
    (\<forall>r<8. \<forall>i<8. \<bar>real_of_int (uint (row_cell out (r, 4 + i))) - 104\<bar> \<le> 3 / 2)"
proof -
  let ?q = "\<lparr>quantval = replicate 64 16, q_sent_table = False\<rparr>"
  let ?c = "\<lparr>DCT_h_scaled_size = 8, DCT_v_scaled_size = 8, component_needed = True, quant_table = Some ?q, dct_table = Zero_table\<rparr>"
  let ?idct = "\<lparr>inverse_DCT = [Some Idct_islow], cur_method = [Some JDCT_ISLOW],
    comp_tables = [?c\<lparr>dct_table := Islow_table (replicate 64 16)\<rparr>]\<rparr>"
  let ?block = "500 # replicate 63 0" and ?buf = "replicate 8 (replicate 20 0)"
  let ?a = "dequantized_at (replicate 64 16) ?block"
  have start: "start_pass_idct JDCT_ISLOW (jinit_inverse_dct [?c]) = Inr ?idct"
    by (simp add: start_pass_idct_def jinit_inverse_dct_def start_pass_component_def select_idct_def make_table_def Let_def
        DCTSIZE_def)
  note dc = exact_dc [OF dequantized_dc, simplified]
  obtain out where out: "jpeg_idct_islow prepare_range_limit_table (replicate 64 16) ?block ?buf 4 = Some out"
    and near: "\<forall>r<8. \<forall>i<8. \<forall>k :: int. \<bar>idct_exact 8 8 ?a r i - 1024 * real_of_int k\<bar> \<le> 509 \<longrightarrow>
      \<bar>real_of_int (uint (row_cell out (r, 4 + i))) - limited (idct_exact 8 8 ?a r i - 1024 * real_of_int k + 128)\<bar>
        \<le> 7 / 10 + real_of_int (weight ?a) / 10000"
    using inverse_dct_accurate [OF jinit_inverse_dct_ok [of "[?c]"] start, of 0 ?c ?q Idct_islow jpeg_idct_islow
        ?buf 4 ?block] dc(2)
    by (auto simp: jinit_inverse_dct_def rows_fit_def Let_def)
  have "\<bar>real_of_int (uint (row_cell out (r, 4 + i))) - 104\<bar> \<le> 3 / 2" if "r < 8" "i < 8" for r i
    using near [rule_format, of r i 1] that dc by (simp add: limited_def)
  then show ?thesis using start out by auto
qed

end
