(* ===== verification/FdctBase.thy ===== *)
theory FdctBase
  imports IdctAccuracy
begin

text \<open>
  What the routines of \<open>jpeg-9a/jfdctint.c\<close> share: the block of samples they read, the two passes,
  the rounded matrix product a pass is, and the error of both passes against the exact transform.
\<close>

section \<open>Passes of the forward DCT\<close>

text \<open>
  The samples of a block, \<open>elemptr = sample_data[r] + start_col\<close>; outside the array a fault.
\<close>

definition block_samples :: "nat \<Rightarrow> nat \<Rightarrow> samparray \<Rightarrow> nat \<Rightarrow> int list list option" where
  "block_samples h w sample_data start_col =
     (if rows_fit sample_data h (start_col + w)
      then Some (map (\<lambda>r. map (\<lambda>k. uint (sample_data ! r ! (start_col + k))) [0..<w]) [0..<h])
      else None)"

lemma block_samples_range:
  assumes "block_samples h w sample_data start_col = Some samples" "r < h" "c < w"
  shows "0 \<le> samples ! r ! c \<and> samples ! r ! c \<le> 255"
proof -
  have "uint b \<le> 255" for b :: byte using uint_lt2p [of b] by simp
  then show ?thesis using assms by (auto simp: block_samples_def split: if_splits)
qed

text \<open>
  Pass 1 takes every row of samples to the first eight (or all) of its frequencies, pass 2 every
  column of those; the coefficients behind stay zero.
\<close>

definition fdct_passes ::
  "nat \<Rightarrow> nat \<Rightarrow> ((nat \<Rightarrow> int) \<Rightarrow> int list) \<Rightarrow> ((nat \<Rightarrow> int) \<Rightarrow> int list) \<Rightarrow> int list list \<Rightarrow> int list" where
  "fdct_passes h w row col samples =
     (let rows = map (\<lambda>r. row (\<lambda>k. samples ! r ! k)) [0..<h];
          cols = map (\<lambda>c. col (\<lambda>k. rows ! k ! c)) [0..<min DCTSIZE w]
      in map (\<lambda>i. if i div DCTSIZE < min DCTSIZE h \<and> i mod DCTSIZE < min DCTSIZE w
                  then cols ! (i mod DCTSIZE) ! (i div DCTSIZE) else 0) [0..<DCTSIZE2])"

section \<open>A pass as a matrix\<close>

lemma dot_mass:
  assumes "\<And>j. j < length cs \<Longrightarrow> \<bar>x j\<bar> \<le> X"
  shows "\<bar>dot 0 cs x\<bar> \<le> sum_list (map abs cs) * X"
proof -
  have "\<bar>dot 0 cs x\<bar> \<le> (\<Sum>j<length cs. \<bar>cs ! j * x j\<bar>)"
    unfolding dot_sum by (simp add: sum_abs)
  also have "\<dots> \<le> (\<Sum>j<length cs. \<bar>cs ! j\<bar> * X)"
    using assms by (intro sum_mono) (simp add: abs_mult mult_left_mono)
  also have "\<dots> = sum_list (map abs cs) * X"
    by (simp add: sum_distrib_right sum_list_sum_nth atLeast0LessThan)
  finally show ?thesis .
qed

lemma dot_scaled: "dot i (map ((*) a) cs) x = a * dot i cs x"
  by (induction cs arbitrary: i) (simp_all add: algebra_simps)

lemma dot_shifted: "dot i cs (\<lambda>j. x j - d) = dot i cs x - d * sum_list cs"
  by (induction cs arbitrary: i) (simp_all add: algebra_simps)

text \<open>
  The interface of a pass: on inputs of at most \<open>limit\<close> each output, times \<open>2 ^ n\<close>, is the product of
  its row of \<open>M\<close> with the input up to \<open>tol\<close>; no row of \<open>M\<close> has a larger sum of absolute values
  than \<open>mass\<close>.
\<close>

locale fdct_pass =
  fixes f :: "(nat \<Rightarrow> int) \<Rightarrow> int list"
    and arg :: "(nat \<Rightarrow> int) \<Rightarrow> nat \<Rightarrow> int"
    and M :: "int list list"
    and n :: nat
    and points :: nat
    and limit tol mass :: int
  assumes outputs: "length (f a) = length M"
    and inputs: "k < length M \<Longrightarrow> length (M ! k) = points"
    and bounded: "k < length M \<Longrightarrow> sum_list (map abs (M ! k)) \<le> mass"
    and rounds: "k < length M \<Longrightarrow> (\<And>j. j < points \<Longrightarrow> \<bar>arg a j\<bar> \<le> limit) \<Longrightarrow>
      \<bar>2 ^ n * f a ! k - dot 0 (M ! k) (arg a)\<bar> \<le> tol"

text \<open>
  Each output is a sum with the factors \<open>cs\<close> and the constant \<open>off\<close>, stored as it is if \<open>m\<close> is 0 or
  else shifted by \<open>m\<close> bits with rounding; \<open>scaled\<close> brings the factors of all outputs to the same
  scale.
\<close>

definition fdct_output :: "(nat \<Rightarrow> int) \<Rightarrow> int list \<times> int \<times> nat \<Rightarrow> int" where
  "fdct_output x = (\<lambda>(cs, off, m). if m = 0 then s32 (dot 0 cs x + off)
     else RIGHT_SHIFT (dot 0 cs x + off + 2 ^ (m - 1)) m)"

definition scaled :: "nat \<Rightarrow> int list \<times> int \<times> nat \<Rightarrow> int list" where
  "scaled n = (\<lambda>(cs, off, m). map ((*) (2 ^ (n - m))) cs)"

definition fdct_fits :: "nat \<Rightarrow> int \<Rightarrow> nat \<Rightarrow> int \<Rightarrow> int \<Rightarrow> int list \<times> int \<times> nat \<Rightarrow> bool" where
  "fdct_fits n shift points limit mass = (\<lambda>(cs, off, m). m \<le> n \<and> m \<le> 18 \<and> length cs = points \<and>
     off = - shift * sum_list cs \<and> sum_list (map abs cs) * limit \<le> 2088000000 \<and>
     2 ^ (n - m) * sum_list (map abs cs) \<le> mass)"

lemma fdct_output_rounds:
  assumes fit: "fdct_fits n shift points limit mass (cs, off, m)" and x: "\<And>j. j < points \<Longrightarrow> \<bar>x j - shift\<bar> \<le> limit"
  shows "\<bar>2 ^ n * fdct_output x (cs, off, m) - dot 0 (scaled n (cs, off, m)) (\<lambda>j. x j - shift)\<bar> \<le> 2 ^ n div 2"
proof -
  define D where "D = dot 0 cs (\<lambda>j. x j - shift)"
  have fits: "m \<le> n" "m \<le> 18" "length cs = points" "off = - shift * sum_list cs" "sum_list (map abs cs) * limit \<le> 2088000000"
    using fit by (simp_all add: fdct_fits_def)
  have off: "dot 0 cs x + off = D" unfolding D_def fits(4) dot_shifted by simp
  have D: "\<bar>D\<bar> \<le> 2088000000" unfolding D_def using dot_mass [of cs "\<lambda>j. x j - shift" limit] x fits by force
  have M: "dot 0 (scaled n (cs, off, m)) (\<lambda>j. x j - shift) = 2 ^ (n - m) * D"
    by (simp add: scaled_def dot_scaled D_def)
  show ?thesis
  proof (cases m)
    case 0
    have "in_s32 D" unfolding in_s32_def using D power31 by linarith
    then show ?thesis unfolding M using 0 by (simp add: fdct_output_def off s32_id)
  next
    case (Suc l)
    define R where "R = RIGHT_SHIFT (D + 2 ^ l) (Suc l)"
    have "\<bar>2 ^ Suc l * R - D\<bar> \<le> 2 ^ l" unfolding R_def by (rule right_shift_rounds [OF D]) (use fits(2) Suc in simp)
    then have "2 ^ (n - m) * \<bar>2 ^ Suc l * R - D\<bar> \<le> 2 ^ (n - m) * 2 ^ l" by (rule mult_left_mono) simp
    then have "\<bar>2 ^ (n - m) * (2 ^ Suc l * R - D)\<bar> \<le> 2 ^ (n - m) * 2 ^ l" by (simp add: abs_mult)
    moreover have "(2 :: int) ^ n = 2 ^ (n - m) * 2 ^ Suc l"
      using fits(1) Suc by (simp flip: power_add power_Suc)
    moreover have "fdct_output x (cs, off, m) = R" using Suc by (simp add: fdct_output_def off R_def)
    ultimately show ?thesis unfolding M by (simp add: right_diff_distrib mult.assoc)
  qed
qed

lemma fdct_pass_within:
  assumes len: "\<And>a. length (f a) = length L"
    and f: "\<And>a. (\<And>j. j < points \<Longrightarrow> \<bar>a j - shift\<bar> \<le> limit) \<Longrightarrow> f a = map (fdct_output a) L"
    and fit: "list_all (fdct_fits n shift points limit mass) L"
  shows "fdct_pass f (\<lambda>a j. a j - shift) (map (scaled n) L) n points limit (2 ^ n div 2) mass"
proof
  fix a k
  show "length (f a) = length (map (scaled n) L)" by (simp add: len)
  assume k: "k < length (map (scaled n) L)"
  obtain cs off m where e: "L ! k = (cs, off, m)" by (cases "L ! k")
  have fits: "fdct_fits n shift points limit mass (cs, off, m)" using fit k e by (metis length_map list_all_length)
  show "length (map (scaled n) L ! k) = points" using k fits by (simp add: e scaled_def fdct_fits_def)
  have "map (abs \<circ> (*) (2 ^ (n - m))) cs = map ((*) (2 ^ (n - m))) (map abs cs)" by (simp add: abs_mult)
  then show "sum_list (map abs (map (scaled n) L ! k)) \<le> mass"
    using k fits by (simp add: e scaled_def fdct_fits_def sum_list_const_mult [of "2 ^ (n - m)" abs cs, symmetric] comp_def abs_mult)
  assume a: "\<And>j. j < points \<Longrightarrow> \<bar>a j - shift\<bar> \<le> limit"
  from fdct_output_rounds [OF fits a]
  show "\<bar>2 ^ n * f a ! k - dot 0 (map (scaled n) L ! k) (\<lambda>j. a j - shift)\<bar> \<le> 2 ^ n div 2"
    using k by (simp add: f [OF a] e)
qed

lemma fdct_pass_outputs:
  assumes "\<And>a. f a = map (fdct_output a) L" and "list_all (fdct_fits n shift points limit mass) L"
  shows "fdct_pass f (\<lambda>a j. a j - shift) (map (scaled n) L) n points limit (2 ^ n div 2) mass"
  by (rule fdct_pass_within [OF _ _ assms(2)]) (simp_all add: assms(1))

text \<open>The 6-point passes over rows add a multiple of the unit behind the shift.\<close>

lemma shift_carry:
  assumes "in_s32 y" "in_s32 (2 ^ m * u + y)"
  shows "s32 (u + RIGHT_SHIFT y m) = RIGHT_SHIFT (2 ^ m * u + y) m"
proof -
  have "RIGHT_SHIFT (2 ^ m * u + y) m = u + y div 2 ^ m"
    using assms by (simp add: RIGHT_SHIFT_def s32_id div_mult_self4 add.commute)
  moreover have "RIGHT_SHIFT y m = y div 2 ^ m" using assms by (simp add: RIGHT_SHIFT_def s32_id)
  ultimately show ?thesis using s32_RIGHT_SHIFT [of "2 ^ m * u + y" m] by simp
qed

lemma six_points:
  fixes el :: "nat \<Rightarrow> int" and k :: int and m :: nat
  assumes el: "\<And>j. j < 6 \<Longrightarrow> \<bar>el j - 128\<bar> \<le> 128" and m: "m = 11 \<and> k = 4 \<or> m = 10 \<and> k = 8"
  shows "s32 (k * (el 0 + el 1 - el 4 - el 5) + RIGHT_SHIFT (2998 * (el 0 + el 2 - el 3 - el 5) + 2 ^ (m - 1)) m) =
      RIGHT_SHIFT (2 ^ m * (k * (el 0 + el 1 - el 4 - el 5)) + (2998 * (el 0 + el 2 - el 3 - el 5) + 2 ^ (m - 1))) m"
    "s32 (k * (el 2 + el 4 - el 1 - el 3) + RIGHT_SHIFT (2998 * (el 0 + el 2 - el 3 - el 5) + 2 ^ (m - 1)) m) =
      RIGHT_SHIFT (2 ^ m * (k * (el 2 + el 4 - el 1 - el 3)) + (2998 * (el 0 + el 2 - el 3 - el 5) + 2 ^ (m - 1))) m"
proof -
  have "0 \<le> el j \<and> el j \<le> 256" if "j < 6" for j using el [OF that] by (simp add: abs_le_iff)
  from this [of 0] this [of 1] this [of 2] this [of 3] this [of 4] this [of 5]
  have b: "0 \<le> el 0" "el 0 \<le> 256" "0 \<le> el 1" "el 1 \<le> 256" "0 \<le> el 2" "el 2 \<le> 256"
      "0 \<le> el 3" "el 3 \<le> 256" "0 \<le> el 4" "el 4 \<le> 256" "0 \<le> el 5" "el 5 \<le> 256" by simp_all
  show "s32 (k * (el 0 + el 1 - el 4 - el 5) + RIGHT_SHIFT (2998 * (el 0 + el 2 - el 3 - el 5) + 2 ^ (m - 1)) m) =
      RIGHT_SHIFT (2 ^ m * (k * (el 0 + el 1 - el 4 - el 5)) + (2998 * (el 0 + el 2 - el 3 - el 5) + 2 ^ (m - 1))) m"
    by (rule shift_carry) (rule disjE [OF m], use b in \<open>simp add: in_s32_def\<close>, use b in \<open>simp add: in_s32_def\<close>)+
  show "s32 (k * (el 2 + el 4 - el 1 - el 3) + RIGHT_SHIFT (2998 * (el 0 + el 2 - el 3 - el 5) + 2 ^ (m - 1)) m) =
      RIGHT_SHIFT (2 ^ m * (k * (el 2 + el 4 - el 1 - el 3)) + (2998 * (el 0 + el 2 - el 3 - el 5) + 2 ^ (m - 1))) m"
    by (rule shift_carry) (rule disjE [OF m], use b in \<open>simp add: in_s32_def\<close>, use b in \<open>simp add: in_s32_def\<close>)+
qed

text \<open>
  The 15-point passes use half of a sum of samples, which loses its last bit: \<open>hs\<close> holds the factors
  of that sum, \<open>d\<close> the factor of the half.
\<close>

definition half_output :: "int list \<Rightarrow> (nat \<Rightarrow> int) \<Rightarrow> int list \<times> int \<times> nat \<times> int \<Rightarrow> int" where
  "half_output hs x = (\<lambda>(cs, off, m, d). if m = 0 then s32 (dot 0 cs x + off)
     else RIGHT_SHIFT (dot 0 cs x + off + d * RIGHT_SHIFT (dot 0 hs x) 1 + 2 ^ (m - 1)) m)"

definition scaled_half :: "nat \<Rightarrow> int list \<Rightarrow> int list \<times> int \<times> nat \<times> int \<Rightarrow> int list" where
  "scaled_half n hs = (\<lambda>(cs, off, m, d). map2 (\<lambda>c h. 2 ^ (n - m) * c + 2 ^ (n - m - 1) * d * h) cs hs)"

definition half_fits :: "nat \<Rightarrow> int list \<Rightarrow> int \<Rightarrow> nat \<Rightarrow> int \<Rightarrow> int \<Rightarrow> int \<Rightarrow> int list \<times> int \<times> nat \<times> int \<Rightarrow> bool" where
  "half_fits n hs shift points limit tol mass = (\<lambda>(cs, off, m, d). m < n \<and> m \<le> 18 \<and> length cs = points \<and>
     length hs = points \<and> 2 * off = - shift * (2 * sum_list cs + d * sum_list hs) \<and>
     (sum_list (map abs cs) + \<bar>d\<bar> * sum_list (map abs hs)) * limit + \<bar>d\<bar> \<le> 2088000000 \<and>
     sum_list (map abs hs) * (limit + \<bar>shift\<bar>) \<le> 2088000000 \<and> (m = 0 \<longrightarrow> d = 0) \<and>
     2 ^ n div 2 + 2 ^ (n - m - 1) * \<bar>d\<bar> \<le> tol \<and>
     sum_list (map abs (scaled_half n hs (cs, off, m, d))) \<le> mass)"

lemma dot_combined:
  "length cs = length hs \<Longrightarrow> dot i (map2 (\<lambda>c h. a * c + b * d * h) cs hs) x = a * dot i cs x + b * d * dot i hs x"
  by (induction cs hs arbitrary: i rule: list_induct2) (simp_all add: algebra_simps)

lemma mod2_cases: "x mod 2 = 0 \<or> x mod 2 = 1" for x :: int
  by auto

lemma half_sum:
  assumes "\<bar>x\<bar> \<le> 2088000000"
  obtains e where "e = 0 \<or> e = 1" "2 * RIGHT_SHIFT x 1 = x - e"
proof -
  have "in_s32 x" unfolding in_s32_def using assms power31 by linarith
  then have "2 * RIGHT_SHIFT x 1 = x - x mod 2" by (simp add: RIGHT_SHIFT_def s32_id minus_mod_eq_mult_div)
  with mod2_cases [of x] show ?thesis by (rule that)
qed

lemma sum_bound:
  fixes w :: int
  assumes "\<bar>y\<bar> \<le> B" "A + B + E \<le> L" "\<bar>x\<bar> \<le> A" "2 * w = 2 * x + y - z" "\<bar>z\<bar> \<le> E"
  shows "\<bar>w\<bar> \<le> L"
proof -
  have "-B \<le> y" "y \<le> B" "-A \<le> x" "x \<le> A" "-E \<le> z" "z \<le> E" "0 \<le> B" "0 \<le> E" using assms by linarith+
  then have "w \<le> L" "- L \<le> w" using assms(2,4) by linarith+
  then show ?thesis by linarith
qed

lemma half_output_rounds:
  assumes fit: "half_fits n hs shift points limit tol mass (cs, off, m, d)"
    and x: "\<And>j. j < points \<Longrightarrow> \<bar>x j - shift\<bar> \<le> limit"
  shows "\<bar>2 ^ n * half_output hs x (cs, off, m, d) - dot 0 (scaled_half n hs (cs, off, m, d)) (\<lambda>j. x j - shift)\<bar> \<le> tol"
proof -
  define C H where "C = dot 0 cs (\<lambda>j. x j - shift)" and "H = dot 0 hs (\<lambda>j. x j - shift)"
  have fits: "m < n" "m \<le> 18" "length cs = points" "length hs = points"
      "2 * off = - shift * (2 * sum_list cs + d * sum_list hs)"
      "(sum_list (map abs cs) + \<bar>d\<bar> * sum_list (map abs hs)) * limit + \<bar>d\<bar> \<le> 2088000000"
      "sum_list (map abs hs) * (limit + \<bar>shift\<bar>) \<le> 2088000000" "m = 0 \<longrightarrow> d = 0"
      "2 ^ n div 2 + 2 ^ (n - m - 1) * \<bar>d\<bar> \<le> tol"
    using fit by (simp_all add: half_fits_def)
  have xb: "\<bar>x j\<bar> \<le> limit + \<bar>shift\<bar>" if "j < points" for j using x [OF that] by linarith
  have "\<bar>dot 0 hs x\<bar> \<le> 2088000000" using dot_mass [of hs x "limit + \<bar>shift\<bar>"] xb fits(4,7) by force
  then obtain e where e: "e = 0 \<or> e = 1" and h: "2 * RIGHT_SHIFT (dot 0 hs x) 1 = dot 0 hs x - e" by (rule half_sum)
  define D where "D = dot 0 cs x + off + d * RIGHT_SHIFT (dot 0 hs x) 1"
  have "2 * D = 2 * dot 0 cs x + 2 * off + d * (2 * RIGHT_SHIFT (dot 0 hs x) 1)" by (simp add: D_def)
  then have D2: "2 * D = 2 * C + d * H - d * e"
    unfolding h fits(5) C_def H_def dot_shifted by (simp add: algebra_simps)
  have CH: "\<bar>C\<bar> \<le> sum_list (map abs cs) * limit" "\<bar>H\<bar> \<le> sum_list (map abs hs) * limit"
    unfolding C_def H_def using dot_mass [of cs "\<lambda>j. x j - shift" limit] dot_mass [of hs "\<lambda>j. x j - shift" limit] x fits(3,4) by simp_all
  have de: "\<bar>d * e\<bar> \<le> \<bar>d\<bar>" using e by auto
  define A B where "A = sum_list (map abs cs) * limit" and "B = \<bar>d\<bar> * (sum_list (map abs hs) * limit)"
  have "\<bar>d * H\<bar> \<le> B" unfolding abs_mult B_def by (rule mult_left_mono [OF CH(2)]) simp
  moreover have "A + B + \<bar>d\<bar> \<le> 2088000000" using fits(6) by (simp only: A_def B_def distrib_right mult.assoc)
  moreover have "\<bar>C\<bar> \<le> A" unfolding A_def by (rule CH(1))
  ultimately have Db: "\<bar>D\<bar> \<le> 2088000000"
    using D2 de sum_bound [of "d * H" B A "\<bar>d\<bar>" 2088000000 C D "d * e"] by blast
  have M: "dot 0 (scaled_half n hs (cs, off, m, d)) (\<lambda>j. x j - shift) = 2 ^ (n - m) * C + 2 ^ (n - m - 1) * d * H"
    by (simp add: scaled_half_def dot_combined fits C_def H_def)
  have p: "(2 :: int) ^ (n - m) = 2 * 2 ^ (n - m - 1)" using fits(1) by (simp flip: power_Suc)
  have MD: "dot 0 (scaled_half n hs (cs, off, m, d)) (\<lambda>j. x j - shift) = 2 ^ (n - m) * D + 2 ^ (n - m - 1) * (d * e)"
  proof -
    have "2 ^ (n - m) * D = 2 ^ (n - m - 1) * (2 * D)" by (simp add: p)
    then show ?thesis unfolding M D2 by (simp add: p algebra_simps)
  qed
  have extra: "\<bar>2 ^ (n - m - 1) * (d * e)\<bar> \<le> 2 ^ (n - m - 1) * \<bar>d\<bar>" unfolding abs_mult using de by (simp add: abs_mult)
  have "\<bar>2 ^ n * half_output hs x (cs, off, m, d) - 2 ^ (n - m) * D\<bar> \<le> 2 ^ n div 2"
  proof (cases m)
    case 0
    have "in_s32 D" unfolding in_s32_def using Db power31 by linarith
    then show ?thesis using 0 fits(8) by (simp add: half_output_def D_def s32_id)
  next
    case (Suc l)
    define R where "R = RIGHT_SHIFT (D + 2 ^ l) (Suc l)"
    have "\<bar>2 ^ Suc l * R - D\<bar> \<le> 2 ^ l" unfolding R_def by (rule right_shift_rounds [OF Db]) (use fits(2) Suc in simp)
    then have "2 ^ (n - m) * \<bar>2 ^ Suc l * R - D\<bar> \<le> 2 ^ (n - m) * 2 ^ l" by (rule mult_left_mono) simp
    then have "\<bar>2 ^ (n - m) * (2 ^ Suc l * R - D)\<bar> \<le> 2 ^ (n - m) * 2 ^ l" by (simp add: abs_mult)
    moreover have "(2 :: int) ^ n = 2 ^ (n - m) * 2 ^ Suc l"
      using fits(1) Suc by (simp flip: power_add power_Suc)
    moreover have "half_output hs x (cs, off, m, d) = R" using Suc by (simp add: half_output_def D_def R_def)
    ultimately show ?thesis by (simp add: right_diff_distrib mult.assoc)
  qed
  then show ?thesis using extra fits(9) unfolding MD by linarith
qed

lemma fdct_pass_half:
  assumes f: "\<And>a. f a = map (half_output hs a) L" and fit: "list_all (half_fits n hs shift points limit tol mass) L"
  shows "fdct_pass f (\<lambda>a j. a j - shift) (map (scaled_half n hs) L) n points limit tol mass"
proof
  fix a k
  show "length (f a) = length (map (scaled_half n hs) L)" by (simp add: f)
  assume k: "k < length (map (scaled_half n hs) L)"
  obtain cs off m d where e: "L ! k = (cs, off, m, d)" by (cases "L ! k")
  have fits: "half_fits n hs shift points limit tol mass (cs, off, m, d)" using fit k e by (metis length_map list_all_length)
  show "length (map (scaled_half n hs) L ! k) = points" using k fits by (simp add: e scaled_half_def half_fits_def)
  show "sum_list (map abs (map (scaled_half n hs) L ! k)) \<le> mass" using k fits by (simp add: e half_fits_def)
  assume "\<And>j. j < points \<Longrightarrow> \<bar>a j - shift\<bar> \<le> limit"
  from half_output_rounds [OF fits this]
  show "\<bar>2 ^ n * f a ! k - dot 0 (map (scaled_half n hs) L ! k) (\<lambda>j. a j - shift)\<bar> \<le> tol"
    using k by (simp add: f e)
qed

end
