(* ===== verification/FdctAccuracy.thy ===== *)
theory FdctAccuracy
  imports FdctBase
begin

text \<open>
  The two passes of a forward DCT against the exact transform.
\<close>

section \<open>Matrices and cosines\<close>

text \<open>
  \<open>near_frequencies M N s t\<close>: row \<open>k\<close> of \<open>M\<close> holds basis function \<open>k\<close> of the \<open>N\<close>-point DCT times \<open>s\<close>,
  each value up to \<open>t\<close>.
\<close>

definition near_frequencies :: "int list list \<Rightarrow> nat \<Rightarrow> real \<Rightarrow> real \<Rightarrow> bool" where
  "near_frequencies M N s t \<longleftrightarrow> length M = min 8 N \<and>
     (\<forall>k<min 8 N. length (M ! k) = N \<and> (\<forall>i<N. \<bar>real_of_int (M ! k ! i) - s * dct_basis N i k\<bar> \<le> t))"

text \<open>The check, for the scale \<open>P / D\<close> and \<open>tol\<close> in hundredths.\<close>

definition frequency_ok :: "nat \<Rightarrow> int \<Rightarrow> int \<Rightarrow> int \<Rightarrow> nat \<Rightarrow> nat \<Rightarrow> int \<Rightarrow> bool" where
  "frequency_ok N P D tol k i c \<longleftrightarrow>
     (if k = 0 then 100 * \<bar>D * c - P\<bar> \<le> tol * D
      else 100 * \<bar>1099511627776 * D * c - P * 1482910 * cos_fixed N ((2 * int i + 1) * int k)\<bar> \<le> tol * 1099511627776 * D)"

definition frequencies_ok :: "nat \<Rightarrow> int \<Rightarrow> int \<Rightarrow> int \<Rightarrow> int list list \<Rightarrow> bool" where
  "frequencies_ok N P D tol M \<longleftrightarrow> N \<in> set sizes \<and> 0 < D \<and> 0 < P \<and> P \<le> 20000 * D \<and>
     list_all2 (\<lambda>k. list_all2 (frequency_ok N P D tol k) [0..<N]) [0..<min 8 N] M"

lemma frequencies_okD:
  assumes "frequencies_ok N P D tol M"
  shows "N \<in> set sizes" "0 < D" "0 < P" "P \<le> 20000 * D" "length M = min 8 N" "k < min 8 N \<Longrightarrow> length (M ! k) = N"
    "k < min 8 N \<Longrightarrow> i < N \<Longrightarrow> frequency_ok N P D tol k i (M ! k ! i)"
proof -
  have all: "list_all2 (\<lambda>k. list_all2 (frequency_ok N P D tol k) [0..<N]) [0..<min 8 N] M"
    and "N \<in> set sizes" "0 < D" "0 < P" "P \<le> 20000 * D"
    using assms by (simp_all only: frequencies_ok_def)
  then show "N \<in> set sizes" "0 < D" "0 < P" "P \<le> 20000 * D" by blast+
  show "length M = min 8 N" using list_all2_lengthD [OF all] by simp
  assume k: "k < min 8 N"
  then have row: "list_all2 (frequency_ok N P D tol k) [0..<N] (M ! k)"
    using list_all2_nthD [OF all, of k] by simp
  show "length (M ! k) = N" using list_all2_lengthD [OF row] by simp
  assume "i < N"
  then show "frequency_ok N P D tol k i (M ! k ! i)" using list_all2_nthD [OF row, of i] by simp
qed

lemma root_cos_near:
  assumes "N \<in> set sizes"
  shows "\<bar>1099511627776 * (sqrt 2 * cos (real_of_int m * pi / (2 * real N))) - 1482910 * real_of_int (cos_fixed N m)\<bar> \<le> 4100000"
proof -
  let ?x = "cos (real_of_int m * pi / (2 * real N))"
  have "\<bar>(1048576 * sqrt 2 - 1482910) * ?x\<bar> \<le> 1 * 1"
    unfolding abs_mult by (intro mult_mono sqrt_2_near) simp_all
  then have "\<bar>1048576 * (sqrt 2 * ?x) - 1482910 * ?x\<bar> \<le> 1" by (simp add: algebra_simps)
  then show ?thesis using cos_fixed_near [OF assms, of m] by linarith
qed

lemma scale_down:
  fixes c :: real
  assumes "K * c - x \<le> z" "x - K * y \<le> L" "100 * z \<le> t * K" "100 * L \<le> 8 * K" "0 < K"
  shows "c - y \<le> (t + 8) / 100"
proof -
  have "K * (100 * (c - y)) \<le> K * (t + 8)" using assms by (simp add: algebra_simps)
  then have "100 * (c - y) \<le> t + 8" using assms(5) by (simp only: mult_le_cancel_left_pos)
  then show ?thesis by simp
qed

lemma entry_error:
  fixes c :: real
  assumes "\<bar>1099511627776 * y - x\<bar> \<le> 82000000000" "100 * \<bar>1099511627776 * c - x\<bar> \<le> t * 1099511627776"
  shows "\<bar>c - y\<bar> \<le> (t + 8) / 100"
proof -
  have "c - y \<le> (t + 8) / 100"
    by (rule scale_down [where L = 82000000000, OF abs_ge_self _ assms(2)]) (use assms(1) in simp_all)
  moreover have "- c - - y \<le> (t + 8) / 100"
    by (rule scale_down [where L = 82000000000 and x = "- x", OF _ _ assms(2)]) (use assms(1) in simp_all)
  ultimately show ?thesis by linarith
qed

lemma frequencies_near:
  assumes ok: "frequencies_ok N P D tol M"
  shows "near_frequencies M N (real_of_int P / real_of_int D) ((real_of_int tol + 8) / 100)"
proof -
  note okD = frequencies_okD [OF ok]
  define s where "s = real_of_int P / real_of_int D"
  have D: "0 < real_of_int D" using okD(2) by simp
  have "real_of_int P \<le> real_of_int (20000 * D)" using okD(4) by (simp only: of_int_le_iff)
  then have s: "0 \<le> s" "s \<le> 20000" using D okD(3) by (simp_all add: s_def field_simps)
  have P: "real_of_int P = real_of_int D * s" using D by (simp add: s_def)
  have "\<bar>real_of_int (M ! k ! i) - s * dct_basis N i k\<bar> \<le> (real_of_int tol + 8) / 100"
    if k: "k < min 8 N" and i: "i < N" for k i
  proof -
    define c where "c = real_of_int (M ! k ! i)"
    have e: "frequency_ok N P D tol k i (M ! k ! i)" by (rule okD(7) [OF k i])
    show ?thesis
    proof (cases "k = 0")
      case True
      then have "real_of_int (100 * \<bar>D * (M ! k ! i) - P\<bar>) \<le> real_of_int (tol * D)"
        using e unfolding frequency_ok_def of_int_le_iff by simp
      then have "100 * \<bar>real_of_int D * c - real_of_int D * s\<bar> \<le> real_of_int tol * real_of_int D" by (simp add: c_def P)
      moreover have "\<bar>real_of_int D * c - real_of_int D * s\<bar> = real_of_int D * \<bar>c - s\<bar>"
        using D by (simp only: right_diff_distrib [symmetric] abs_mult abs_of_pos)
      ultimately have "real_of_int D * (100 * \<bar>c - s\<bar>) \<le> real_of_int D * real_of_int tol"
        by (simp only: mult.left_commute mult.commute)
      then have "100 * \<bar>c - s\<bar> \<le> real_of_int tol" using D by (simp only: mult_le_cancel_left_pos)
      then show ?thesis using True by (simp add: dct_basis_def c_def)
    next
      case False
      let ?m = "(2 * int i + 1) * int k"
      define f where "f = real_of_int (cos_fixed N ?m)"
      have m: "real_of_int ?m = real ((2 * i + 1) * k)" by (simp add: distrib_right)
      define b where "b = dct_basis N i k"
      have b: "b = sqrt 2 * cos (real_of_int ?m * pi / (2 * real N))" using False unfolding m b_def by (simp add: dct_basis_def)
      have r: "\<bar>1099511627776 * b - 1482910 * f\<bar> \<le> 4100000" unfolding b f_def by (rule root_cos_near [OF okD(1)])
      have "100 * \<bar>1099511627776 * D * (M ! k ! i) - P * 1482910 * cos_fixed N ?m\<bar> \<le> tol * 1099511627776 * D"
        using e False unfolding frequency_ok_def by (simp only: if_False)
      then have "real_of_int (100 * \<bar>1099511627776 * D * (M ! k ! i) - P * 1482910 * cos_fixed N ?m\<bar>) \<le> real_of_int (tol * 1099511627776 * D)"
        by (simp only: of_int_le_iff)
      then have "100 * \<bar>1099511627776 * real_of_int D * c - real_of_int D * s * 1482910 * f\<bar> \<le> real_of_int tol * 1099511627776 * real_of_int D"
        by (simp only: of_int_mult of_int_diff of_int_abs of_int_numeral c_def [symmetric] f_def [symmetric] P)
      moreover have "1099511627776 * real_of_int D * c - real_of_int D * s * 1482910 * f =
          real_of_int D * (1099511627776 * c - s * (1482910 * f))"
        by (simp only: right_diff_distrib ac_simps)
      ultimately have "100 * (real_of_int D * \<bar>1099511627776 * c - s * (1482910 * f)\<bar>) \<le> real_of_int tol * 1099511627776 * real_of_int D"
        using D by (simp only: abs_mult abs_of_pos)
      then have "real_of_int D * (100 * \<bar>1099511627776 * c - s * (1482910 * f)\<bar>) \<le> real_of_int D * (real_of_int tol * 1099511627776)"
        by (simp only: ac_simps)
      then have q: "100 * \<bar>1099511627776 * c - s * (1482910 * f)\<bar> \<le> real_of_int tol * 1099511627776"
        using D by (simp only: mult_le_cancel_left_pos)
      have "\<bar>s * (1099511627776 * b - 1482910 * f)\<bar> \<le> 20000 * 4100000"
        unfolding abs_mult using s r by (intro mult_mono) simp_all
      then have "\<bar>1099511627776 * (s * b) - s * (1482910 * f)\<bar> \<le> 82000000000" by (simp add: right_diff_distrib mult.left_commute)
      then show ?thesis
        using q entry_error [of "s * b" "s * (1482910 * f)" c "real_of_int tol"] unfolding c_def b_def by blast
    qed
  qed
  then show ?thesis using okD(5,6) by (simp add: near_frequencies_def s_def)
qed

section \<open>One pass\<close>

lemma frequency_dot:
  assumes M: "near_frequencies M N s t" and k: "k < min 8 N" and x: "\<And>i. i < N \<Longrightarrow> \<bar>x i\<bar> \<le> X"
  shows "\<bar>real_of_int (dot 0 (M ! k) x) - s * (\<Sum>i<N. dct_basis N i k * real_of_int (x i))\<bar> \<le> t * (real N * real_of_int X)"
proof -
  have len: "length (M ! k) = N"
    and e: "\<And>i. i < N \<Longrightarrow> \<bar>real_of_int (M ! k ! i) - s * dct_basis N i k\<bar> \<le> t"
    using M k unfolding near_frequencies_def by blast+
  have "\<bar>(real_of_int (M ! k ! i) - s * dct_basis N i k) * real_of_int (x i)\<bar> \<le> t * real_of_int X" if "i < N" for i
  proof -
    have "\<bar>real_of_int (x i)\<bar> \<le> real_of_int X" using x [OF that] by (simp flip: of_int_abs)
    then show ?thesis unfolding abs_mult using e [OF that] by (intro mult_mono) simp_all
  qed
  then have "\<bar>\<Sum>i<N. (real_of_int (M ! k ! i) - s * dct_basis N i k) * real_of_int (x i)\<bar> \<le> (\<Sum>i<N. t * real_of_int X)"
    by (intro order_trans [OF sum_abs] sum_mono) simp
  then show ?thesis
    by (simp add: dot_sum len sum_distrib_left sum_subtractf left_diff_distrib mult.assoc mult.left_commute)
qed

lemma frequency_mass:
  assumes M: "near_frequencies M N s t" and k: "k < min 8 N" and s: "0 \<le> s"
  shows "s * (\<Sum>i<N. \<bar>dct_basis N i k\<bar>) \<le> real_of_int (sum_list (map abs (M ! k))) + real N * t"
proof -
  have len: "length (M ! k) = N"
    and e: "\<And>i. i < N \<Longrightarrow> \<bar>real_of_int (M ! k ! i) - s * dct_basis N i k\<bar> \<le> t"
    using M k unfolding near_frequencies_def by blast+
  have "s * \<bar>dct_basis N i k\<bar> \<le> \<bar>real_of_int (M ! k ! i)\<bar> + t" if "i < N" for i
  proof -
    have "s * \<bar>dct_basis N i k\<bar> = \<bar>s * dct_basis N i k\<bar>" using s by (simp add: abs_mult)
    then show ?thesis using e [OF that] by linarith
  qed
  then have "(\<Sum>i<N. s * \<bar>dct_basis N i k\<bar>) \<le> (\<Sum>i<N. \<bar>real_of_int (M ! k ! i)\<bar> + t)" by (intro sum_mono) simp
  also have "\<dots> = real_of_int (sum_list (map abs (M ! k))) + real N * t"
    by (simp add: sum.distrib sum_list_sum_nth len atLeast0LessThan)
  finally show ?thesis by (simp only: sum_distrib_left)
qed

context fdct_pass
begin

lemma small_outputs:
  assumes k: "k < length M" and a: "\<And>j. j < points \<Longrightarrow> \<bar>arg a j\<bar> \<le> limit" and room: "mass * limit + tol \<le> L * 2 ^ n"
    and pos: "0 \<le> limit"
  shows "\<bar>f a ! k\<bar> \<le> L"
proof -
  have "\<bar>dot 0 (M ! k) (arg a)\<bar> \<le> sum_list (map abs (M ! k)) * limit"
    using dot_mass [of "M ! k" "arg a" limit] a inputs [OF k] by simp
  also have "\<dots> \<le> mass * limit" using bounded [OF k] pos by (rule mult_right_mono)
  finally have "\<bar>2 ^ n * f a ! k\<bar> \<le> mass * limit + tol" using rounds [OF k a] by linarith
  then have "\<bar>f a ! k\<bar> * 2 ^ n \<le> L * 2 ^ n" using room by (simp only: abs_mult abs_power2 power_abs abs_numeral) (simp only: mult.commute)
  then show ?thesis by (simp only: mult_le_cancel_right_pos zero_less_power zero_less_numeral)
qed

lemma near_frequency:
  assumes M: "near_frequencies M N s t" and points: "points = N" and k: "k < min 8 N"
    and a: "\<And>j. j < points \<Longrightarrow> \<bar>arg a j\<bar> \<le> limit"
  shows "\<bar>real_of_int (f a ! k) - s / 2 ^ n * (\<Sum>i<N. dct_basis N i k * real_of_int (arg a i))\<bar>
    \<le> real_of_int tol / 2 ^ n + t / 2 ^ n * (real N * real_of_int limit)"
proof -
  define p :: real where "p = 2 ^ n"
  have p: "0 < p" by (simp add: p_def)
  define F D E where "F = real_of_int (f a ! k)" and "D = real_of_int (dot 0 (M ! k) (arg a))"
    and "E = (\<Sum>i<N. dct_basis N i k * real_of_int (arg a i))"
  have "k < length M" using M k by (simp add: near_frequencies_def)
  then have "\<bar>2 ^ n * f a ! k - dot 0 (M ! k) (arg a)\<bar> \<le> tol" using rounds a by blast
  then have "real_of_int \<bar>2 ^ n * f a ! k - dot 0 (M ! k) (arg a)\<bar> \<le> real_of_int tol" by (simp only: of_int_le_iff)
  then have "\<bar>p * F - D\<bar> \<le> real_of_int tol" by (simp add: F_def D_def p_def)
  moreover have "\<bar>D - s * E\<bar> \<le> t * (real N * real_of_int limit)"
    unfolding D_def E_def using frequency_dot [OF M k, of "arg a" limit] a points by simp
  ultimately have "\<bar>p * F - s * E\<bar> \<le> real_of_int tol + t * (real N * real_of_int limit)" by linarith
  moreover have "p * F - s * E = p * (F - s / p * E)" using p by (simp add: right_diff_distrib)
  moreover have "real_of_int tol + t * (real N * real_of_int limit) = p * (real_of_int tol / p + t / p * (real N * real_of_int limit))"
    using p by (simp add: distrib_left)
  ultimately have "p * \<bar>F - s / p * E\<bar> \<le> p * (real_of_int tol / p + t / p * (real N * real_of_int limit))"
    using p by (simp only: abs_mult abs_of_pos)
  then show ?thesis using p unfolding F_def [symmetric] p_def [symmetric] E_def [symmetric]
    by (simp only: mult_le_cancel_left_pos)
qed

end

section \<open>Both passes\<close>

text \<open>
  Eight times the coefficient of frequency \<open>u\<close> (rows) and \<open>v\<close> (columns) of a block with \<open>H\<close> rows
  and \<open>W\<close> columns of samples: for 8 by 8 samples the transform the inverse DCT undoes, for other
  sizes scaled by the ratio of the areas.
\<close>

definition fdct_exact :: "nat \<Rightarrow> nat \<Rightarrow> (nat \<Rightarrow> nat \<Rightarrow> int) \<Rightarrow> nat \<Rightarrow> nat \<Rightarrow> real" where
  "fdct_exact H W x u v =
     64 / (real H * real W) * (\<Sum>r<H. dct_basis H r u * (\<Sum>c<W. dct_basis W c v * real_of_int (x r c - 128)))"

text \<open>
  \<open>transformed H W samples data\<close>: the 64 values are those of the exact transform up to 8, which is
  one unit of a coefficient; those behind the block's frequencies are zero.
\<close>

definition transformed :: "nat \<Rightarrow> nat \<Rightarrow> int list list \<Rightarrow> int list \<Rightarrow> bool" where
  "transformed H W samples data \<longleftrightarrow> length data = DCTSIZE2 \<and>
     (\<forall>u<DCTSIZE. \<forall>v<DCTSIZE.
        if u < min 8 H \<and> v < min 8 W
        then \<bar>real_of_int (data ! (DCTSIZE * u + v)) - fdct_exact H W (\<lambda>r c. samples ! r ! c) u v\<bar> \<le> 8
        else data ! (DCTSIZE * u + v) = 0)"

definition fdct_budget ::
  "nat \<Rightarrow> nat \<Rightarrow> nat \<Rightarrow> nat \<Rightarrow> int \<Rightarrow> int \<Rightarrow> int \<Rightarrow> int \<Rightarrow> int \<Rightarrow> real \<Rightarrow> real \<Rightarrow> real \<Rightarrow> real \<Rightarrow> bool" where
  "fdct_budget H W n1 n2 tol1 mass1 limit tol2 mass2 s1 t1 s2 t2 \<longleftrightarrow>
     0 \<le> s1 \<and> 0 \<le> t1 \<and> 0 \<le> s2 \<and> 0 \<le> t2 \<and> 0 \<le> tol1 \<and>
     s1 / 2 ^ n1 * (s2 / 2 ^ n2) = 64 / (real H * real W) \<and> mass1 * 128 + tol1 \<le> limit * 2 ^ n1 \<and>
     real_of_int tol2 / 2 ^ n2 + t2 / 2 ^ n2 * (real H * real_of_int limit) +
       (real_of_int mass2 + real H * t2) / 2 ^ n2 * (real_of_int tol1 / 2 ^ n1 + t1 / 2 ^ n1 * (real W * 128)) \<le> 8"

text \<open>The errors of both passes: \<open>p\<close> is what pass 1 makes of the rows, \<open>E\<close> the exact sums.\<close>

lemma fdct_two_passes:
  assumes b: "fdct_budget H W n1 n2 tol1 mass1 limit tol2 mass2 s1 t1 s2 t2"
    and M: "near_frequencies M2 H s2 t2" and u: "u < min 8 H" and mass: "sum_list (map abs (M2 ! u)) \<le> mass2"
    and p: "\<And>r. r < H \<Longrightarrow> \<bar>p r - s1 / 2 ^ n1 * E r\<bar> \<le> real_of_int tol1 / 2 ^ n1 + t1 / 2 ^ n1 * (real W * 128)"
    and val: "\<bar>y - s2 / 2 ^ n2 * (\<Sum>r<H. dct_basis H r u * p r)\<bar> \<le> real_of_int tol2 / 2 ^ n2 + t2 / 2 ^ n2 * (real H * real_of_int limit)"
  shows "\<bar>y - 64 / (real H * real W) * (\<Sum>r<H. dct_basis H r u * E r)\<bar> \<le> 8"
proof -
  define k1 k2 e where "k1 = s1 / 2 ^ n1" and "k2 = s2 / 2 ^ n2" and "e = real_of_int tol1 / 2 ^ n1 + t1 / 2 ^ n1 * (real W * 128)"
  have k: "0 \<le> s2" "0 \<le> k2" "0 \<le> e" "k1 * k2 = 64 / (real H * real W)"
    using b unfolding fdct_budget_def k1_def k2_def e_def by simp_all
  have total: "real_of_int tol2 / 2 ^ n2 + t2 / 2 ^ n2 * (real H * real_of_int limit) + (real_of_int mass2 + real H * t2) / 2 ^ n2 * e \<le> 8"
    using b unfolding fdct_budget_def e_def by blast
  have "\<bar>\<Sum>r<H. dct_basis H r u * (p r - k1 * E r)\<bar> \<le> (\<Sum>r<H. \<bar>dct_basis H r u\<bar> * e)"
    by (intro order_trans [OF sum_abs] sum_mono) (simp add: abs_mult mult_left_mono p [folded k1_def e_def])
  then have "\<bar>k2 * (\<Sum>r<H. dct_basis H r u * (p r - k1 * E r))\<bar> \<le> k2 * ((\<Sum>r<H. \<bar>dct_basis H r u\<bar>) * e)"
    using k(2) unfolding abs_mult sum_distrib_right by (simp add: mult_left_mono)
  also have "\<dots> = s2 * (\<Sum>r<H. \<bar>dct_basis H r u\<bar>) / 2 ^ n2 * e" by (simp add: k2_def)
  also have "\<dots> \<le> (real_of_int mass2 + real H * t2) / 2 ^ n2 * e"
  proof (intro mult_right_mono divide_right_mono)
    have "real_of_int (sum_list (map abs (M2 ! u))) \<le> real_of_int mass2" using mass by (simp only: of_int_le_iff)
    then show "s2 * (\<Sum>r<H. \<bar>dct_basis H r u\<bar>) \<le> real_of_int mass2 + real H * t2" using frequency_mass [OF M u k(1)] by linarith
  qed (use k(3) in simp_all)
  finally have d: "\<bar>k2 * (\<Sum>r<H. dct_basis H r u * (p r - k1 * E r))\<bar> \<le> (real_of_int mass2 + real H * t2) / 2 ^ n2 * e" .
  have "k2 * (\<Sum>r<H. dct_basis H r u * (p r - k1 * E r)) =
      k2 * (\<Sum>r<H. dct_basis H r u * p r) - k1 * k2 * (\<Sum>r<H. dct_basis H r u * E r)"
    by (simp add: right_diff_distrib sum_subtractf sum_distrib_left mult.left_commute mult.assoc)
  then show ?thesis using d val total unfolding k(4) k2_def [symmetric] by linarith
qed

locale fdct_pair =
  row: fdct_pass row "\<lambda>a j. a j - 128" M1 n1 W 128 tol1 mass1 +
  col: fdct_pass col "\<lambda>a j. a j - 0" M2 n2 H limit tol2 mass2
  for row col :: "(nat \<Rightarrow> int) \<Rightarrow> int list" and M1 n1 W tol1 mass1 M2 n2 H limit tol2 mass2 +
  fixes s1 t1 s2 t2 :: real
  assumes near1: "near_frequencies M1 W s1 t1" and near2: "near_frequencies M2 H s2 t2"
    and budget: "fdct_budget H W n1 n2 tol1 mass1 limit tol2 mass2 s1 t1 s2 t2"
begin

lemma row_values:
  assumes v: "v < min 8 W" and x: "\<And>c. c < W \<Longrightarrow> 0 \<le> x c \<and> x c \<le> 255"
  shows "\<bar>row x ! v\<bar> \<le> limit"
    "\<bar>real_of_int (row x ! v) - s1 / 2 ^ n1 * (\<Sum>c<W. dct_basis W c v * real_of_int (x c - 128))\<bar>
      \<le> real_of_int tol1 / 2 ^ n1 + t1 / 2 ^ n1 * (real W * 128)"
proof -
  have a: "\<bar>x j - 128\<bar> \<le> 128" if "j < W" for j using x [OF that] by (simp add: abs_le_iff)
  have "v < length M1" using near1 v by (simp add: near_frequencies_def)
  then show "\<bar>row x ! v\<bar> \<le> limit"
    by (rule row.small_outputs [OF _ a]) (use budget in \<open>simp_all add: fdct_budget_def\<close>)
  show "\<bar>real_of_int (row x ! v) - s1 / 2 ^ n1 * (\<Sum>c<W. dct_basis W c v * real_of_int (x c - 128))\<bar>
      \<le> real_of_int tol1 / 2 ^ n1 + t1 / 2 ^ n1 * (real W * 128)"
    using row.near_frequency [OF near1 refl v a] by simp
qed

lemma transforms:
  assumes x: "\<And>r c. r < H \<Longrightarrow> c < W \<Longrightarrow> 0 \<le> samples ! r ! c \<and> samples ! r ! c \<le> 255"
  shows "transformed H W samples (fdct_passes H W row col samples)"
  unfolding transformed_def
proof (intro conjI allI impI)
  show "length (fdct_passes H W row col samples) = DCTSIZE2" by (simp add: fdct_passes_def Let_def)
  fix u v
  assume uv: "u < DCTSIZE" "v < DCTSIZE"
  define p where "p r = row (\<lambda>k. samples ! r ! k) ! v" for r
  define P where "P = (\<lambda>k. map (\<lambda>r. row (\<lambda>k. samples ! r ! k)) [0..<H] ! k ! v)"
  have i: "(DCTSIZE * u + v) div DCTSIZE = u" "(DCTSIZE * u + v) mod DCTSIZE = v" "DCTSIZE * u + v < DCTSIZE2"
    using uv by (simp_all add: DCTSIZE_def DCTSIZE2_def)
  show "if u < min 8 H \<and> v < min 8 W
      then \<bar>real_of_int (fdct_passes H W row col samples ! (DCTSIZE * u + v)) - fdct_exact H W (\<lambda>r c. samples ! r ! c) u v\<bar> \<le> 8
      else fdct_passes H W row col samples ! (DCTSIZE * u + v) = 0"
  proof (cases "u < min 8 H \<and> v < min 8 W")
    case True
    then have u: "u < min 8 H" and v: "v < min 8 W" by blast+
    have y: "fdct_passes H W row col samples ! (DCTSIZE * u + v) = col P ! u"
      using True i uv by (simp add: fdct_passes_def Let_def P_def DCTSIZE_def)
    note rows = row_values [OF v x]
    have P: "P r = p r" if "r < H" for r using that by (simp add: P_def p_def)
    have small: "\<bar>P r - 0\<bar> \<le> limit" if "r < H" for r using rows(1) [OF that] P [OF that] by (simp add: p_def)
    have "(\<Sum>r<H. dct_basis H r u * real_of_int (P r - 0)) = (\<Sum>r<H. dct_basis H r u * real_of_int (p r))"
      by (rule sum.cong) (simp_all add: P)
    then have val: "\<bar>real_of_int (col P ! u) - s2 / 2 ^ n2 * (\<Sum>r<H. dct_basis H r u * real_of_int (p r))\<bar>
        \<le> real_of_int tol2 / 2 ^ n2 + t2 / 2 ^ n2 * (real H * real_of_int limit)"
      using col.near_frequency [OF near2 refl u, of P] small by simp
    have "u < length M2" using near2 u by (simp add: near_frequencies_def)
    from fdct_two_passes [OF budget near2 u col.bounded [OF this] rows(2) val [unfolded p_def]]
    have "\<bar>real_of_int (col P ! u) - fdct_exact H W (\<lambda>r c. samples ! r ! c) u v\<bar> \<le> 8"
      by (simp add: fdct_exact_def)
    then show ?thesis using True y by simp
  next
    case False
    then have "fdct_passes H W row col samples ! (DCTSIZE * u + v) = 0"
      using i by (auto simp: fdct_passes_def Let_def DCTSIZE_def)
    then show ?thesis by (simp only: if_not_P [OF False])
  qed
qed

end

end
