(* ===== verification/FdctKernels.thy ===== *)
theory FdctKernels
  imports FdctAccuracy
begin

text \<open>
  The sums behind the passes of \<open>jpeg-9a/jfdctint.c\<close>.  \<open>rows_N_n\<close> lists the outputs of the \<open>N\<close>-point
  passes over rows whose largest shift is \<open>n\<close>, \<open>cols_N_n\<close> those of the passes over columns; for each
  output the factors of the inputs, the constant that is added and the shift.  The checks bound the
  sums and compare the factors with the cosines.
\<close>

definition rows_8_11 :: "(int list \<times> int \<times> nat) list" where
  "rows_8_11 =
   [([4, 4, 4, 4, 4, 4, 4, 4], - 4096, 0),
    ([11363, 9633, 6437, 2260, - 2260, - 6437, - 9633, - 11363], 0, 11),
    ([10703, 4433, - 4433, - 10703, - 10703, - 4433, 4433, 10703], 0, 11),
    ([9633, - 2259, - 11362, - 6436, 6436, 11362, 2259, - 9633], 0, 11),
    ([4, - 4, - 4, 4, 4, - 4, - 4, 4], 0, 0),
    ([6437, - 11362, 2261, 9633, - 9633, - 2261, 11362, - 6437], 0, 11),
    ([4433, - 10704, 10704, - 4433, - 4433, 10704, - 10704, 4433], 0, 11),
    ([2260, - 6436, 9633, - 11363, 11363, - 9633, 6436, - 2260], 0, 11)]"

lemma rows_8_11_fits: "list_all (fdct_fits 11 128 8 128 65536) rows_8_11"
  by code_simp

lemma rows_8_11_ok: "frequencies_ok 8 8192 1 117 (map (scaled 11) rows_8_11)"
  by code_simp

definition cols_8_15 :: "(int list \<times> int \<times> nat) list" where
  "cols_8_15 =
   [([1, 1, 1, 1, 1, 1, 1, 1], 0, 2),
    ([11363, 9633, 6437, 2260, - 2260, - 6437, - 9633, - 11363], 0, 15),
    ([10703, 4433, - 4433, - 10703, - 10703, - 4433, 4433, 10703], 0, 15),
    ([9633, - 2259, - 11362, - 6436, 6436, 11362, 2259, - 9633], 0, 15),
    ([1, - 1, - 1, 1, 1, - 1, - 1, 1], 0, 2),
    ([6437, - 11362, 2261, 9633, - 9633, - 2261, 11362, - 6437], 0, 15),
    ([4433, - 10704, 10704, - 4433, - 4433, 10704, - 10704, 4433], 0, 15),
    ([2260, - 6436, 9633, - 11363, 11363, - 9633, 6436, - 2260], 0, 15)]"

lemma cols_8_15_fits: "list_all (fdct_fits 15 0 8 4097 65536) cols_8_15"
  by code_simp

lemma cols_8_15_ok: "frequencies_ok 8 8192 1 117 (map (scaled 15) cols_8_15)"
  by code_simp

definition rows_7_11 :: "(int list \<times> int \<times> nat) list" where
  "rows_7_11 =
   [([4, 4, 4, 4, 4, 4, 4], - 3584, 0),
    ([11295, 9058, 5027, 0, - 5027, - 9058, - 11295], 0, 11),
    ([10438, 2578, - 7224, - 11584, - 7224, 2578, 10438], 0, 11),
    ([9058, - 5027, - 11295, 0, 11295, 5027, - 9058], 0, 11),
    ([7223, - 10438, - 2578, 11586, - 2578, - 10438, 7223], 0, 11),
    ([5027, - 11295, 9058, 0, - 9058, 11295, - 5027], 0, 11),
    ([2577, - 7223, 10438, - 11584, 10438, - 7223, 2577], 0, 11)]"

lemma rows_7_11_fits: "list_all (fdct_fits 11 128 7 128 57344) rows_7_11"
  by code_simp

lemma rows_7_11_ok: "frequencies_ok 7 8192 1 124 (map (scaled 11) rows_7_11)"
  by code_simp

definition cols_7_15 :: "(int list \<times> int \<times> nat) list" where
  "cols_7_15 =
   [([10700, 10700, 10700, 10700, 10700, 10700, 10700], 0, 15),
    ([14752, 11831, 6565, 0, - 6565, - 11831, - 14752], 0, 15),
    ([13633, 3367, - 9434, - 15132, - 9434, 3367, 13633], 0, 15),
    ([11831, - 6565, - 14752, 0, 14752, 6565, - 11831], 0, 15),
    ([9434, - 13633, - 3367, 15132, - 3367, - 13633, 9434], 0, 15),
    ([6565, - 14752, 11830, 0, - 11830, 14752, - 6565], 0, 15),
    ([3367, - 9434, 13633, - 15132, 13633, - 9434, 3367], 0, 15)]"

lemma cols_7_15_fits: "list_all (fdct_fits 15 0 7 3585 74900) cols_7_15"
  by code_simp

lemma cols_7_15_ok: "frequencies_ok 7 524288 49 53 (map (scaled 15) cols_7_15)"
  by code_simp

definition rows_6_11 :: "(int list \<times> int \<times> nat) list" where
  "rows_6_11 =
   [([4, 4, 4, 4, 4, 4], - 3072, 0),
    ([11190, 8192, 2998, - 2998, - 8192, - 11190], 0, 11),
    ([10033, 0, - 10033, - 10033, 0, 10033], 0, 11),
    ([4, - 4, - 4, 4, 4, - 4], 0, 0),
    ([5793, - 11586, 5793, 5793, - 11586, 5793], 0, 11),
    ([2998, - 8192, 11190, - 11190, 8192, - 2998], 0, 11)]"

lemma rows_6_11_fits: "list_all (fdct_fits 11 128 6 128 49152) rows_6_11"
  by code_simp

lemma rows_6_11_ok: "frequencies_ok 6 8192 1 77 (map (scaled 11) rows_6_11)"
  by code_simp

definition cols_6_15 :: "(int list \<times> int \<times> nat) list" where
  "cols_6_15 =
   [([14564, 14564, 14564, 14564, 14564, 14564], 0, 15),
    ([19895, 14564, 5331, - 5331, - 14564, - 19895], 0, 15),
    ([17837, 0, - 17837, - 17837, 0, 17837], 0, 15),
    ([14564, - 14564, - 14564, 14564, 14564, - 14564], 0, 15),
    ([10298, - 20596, 10298, 10298, - 20596, 10298], 0, 15),
    ([5331, - 14564, 19895, - 19895, 14564, - 5331], 0, 15)]"

lemma cols_6_15_fits: "list_all (fdct_fits 15 0 6 3073 87384) cols_6_15"
  by code_simp

lemma cols_6_15_ok: "frequencies_ok 6 131072 9 82 (map (scaled 15) cols_6_15)"
  by code_simp

definition rows_5_10 :: "(int list \<times> int \<times> nat) list" where
  "rows_5_10 =
   [([8, 8, 8, 8, 8], - 5120, 0),
    ([11019, 6810, 0, - 6810, - 11019], 0, 10),
    ([9372, - 3580, - 11584, - 3580, 9372], 0, 10),
    ([6810, - 11018, 0, 11018, - 6810], 0, 10),
    ([3580, - 9372, 11584, - 9372, 3580], 0, 10)]"

lemma rows_5_10_fits: "list_all (fdct_fits 10 128 5 128 40960) rows_5_10"
  by code_simp

lemma rows_5_10_ok: "frequencies_ok 5 8192 1 124 (map (scaled 10) rows_5_10)"
  by code_simp

definition cols_5_15 :: "(int list \<times> int \<times> nat) list" where
  "cols_5_15 =
   [([10486, 10486, 10486, 10486, 10486], 0, 15),
    ([14103, 8716, 0, - 8716, - 14103], 0, 15),
    ([11997, - 4583, - 14828, - 4583, 11997], 0, 15),
    ([8716, - 14104, 0, 14104, - 8716], 0, 15),
    ([4583, - 11997, 14828, - 11997, 4583], 0, 15)]"

lemma cols_5_15_fits: "list_all (fdct_fits 15 0 5 5121 52430) cols_5_15"
  by code_simp

lemma cols_5_15_ok: "frequencies_ok 5 262144 25 110 (map (scaled 15) cols_5_15)"
  by code_simp

definition rows_4_9 :: "(int list \<times> int \<times> nat) list" where
  "rows_4_9 =
   [([16, 16, 16, 16], - 8192, 0),
    ([10703, 4433, - 4433, - 10703], 0, 9),
    ([16, - 16, - 16, 16], 0, 0),
    ([4433, - 10704, 10704, - 4433], 0, 9)]"

lemma rows_4_9_fits: "list_all (fdct_fits 9 128 4 128 32768) rows_4_9"
  by code_simp

lemma rows_4_9_ok: "frequencies_ok 4 8192 1 64 (map (scaled 9) rows_4_9)"
  by code_simp

definition cols_4_15 :: "(int list \<times> int \<times> nat) list" where
  "cols_4_15 =
   [([1, 1, 1, 1], 0, 2),
    ([10703, 4433, - 4433, - 10703], 0, 15),
    ([1, - 1, - 1, 1], 0, 2),
    ([4433, - 10704, 10704, - 4433], 0, 15)]"

lemma cols_4_15_fits: "list_all (fdct_fits 15 0 4 8193 32768) cols_4_15"
  by code_simp

lemma cols_4_15_ok: "frequencies_ok 4 8192 1 64 (map (scaled 15) cols_4_15)"
  by code_simp

definition rows_3_9 :: "(int list \<times> int \<times> nat) list" where
  "rows_3_9 =
   [([16, 16, 16], - 6144, 0),
    ([10033, 0, - 10033], 0, 9),
    ([5793, - 11586, 5793], 0, 9)]"

lemma rows_3_9_fits: "list_all (fdct_fits 9 128 3 128 24576) rows_3_9"
  by code_simp

lemma rows_3_9_ok: "frequencies_ok 3 8192 1 77 (map (scaled 9) rows_3_9)"
  by code_simp

definition cols_3_15 :: "(int list \<times> int \<times> nat) list" where
  "cols_3_15 =
   [([14564, 14564, 14564], 0, 15),
    ([17837, 0, - 17837], 0, 15),
    ([10298, - 20596, 10298], 0, 15)]"

lemma cols_3_15_fits: "list_all (fdct_fits 15 0 3 6145 43692) cols_3_15"
  by code_simp

lemma cols_3_15_ok: "frequencies_ok 3 131072 9 45 (map (scaled 15) cols_3_15)"
  by code_simp

definition rows_9_12 :: "(int list \<times> int \<times> nat) list" where
  "rows_9_12 =
   [([2, 2, 2, 2, 2, 2, 2, 2, 2], - 2304, 0),
    ([11409, 10033, 7447, 3962, 0, - 3962, - 7447, - 10033, - 11409], 0, 12),
    ([10887, 5793, - 2012, - 8875, - 11586, - 8875, - 2012, 5793, 10887], 0, 12),
    ([10033, 0, - 10033, - 10033, 0, 10033, 10033, 0, - 10033], 0, 12),
    ([8875, - 5793, - 10887, 2012, 11586, 2012, - 10887, - 5793, 8875], 0, 12),
    ([7447, - 10033, - 3962, 11409, 0, - 11409, 3962, 10033, - 7447], 0, 12),
    ([5793, - 11586, 5793, 5793, - 11586, 5793, 5793, - 11586, 5793], 0, 12),
    ([3962, - 10033, 11409, - 7447, 0, 7447, - 11409, 10033, - 3962], 0, 12)]"

lemma rows_9_12_fits: "list_all (fdct_fits 12 128 9 128 73728) rows_9_12"
  by code_simp

lemma rows_9_12_ok: "frequencies_ok 9 8192 1 77 (map (scaled 12) rows_9_12)"
  by code_simp

definition cols_9_15 :: "(int list \<times> int \<times> nat) list" where
  "cols_9_15 =
   [([12945, 12945, 12945, 12945, 12945, 12945, 12945, 12945, 12945], 0, 15),
    ([18030, 15855, 11768, 6262, 0, - 6262, - 11768, - 15855, - 18030], 0, 15),
    ([17203, 9154, - 3179, - 14024, - 18308, - 14024, - 3179, 9154, 17203], 0, 15),
    ([15855, 0, - 15855, - 15855, 0, 15855, 15855, 0, - 15855], 0, 15),
    ([14024, - 9154, - 17203, 3179, 18308, 3179, - 17203, - 9154, 14024], 0, 15),
    ([11768, - 15855, - 6261, 18029, 0, - 18029, 6261, 15855, - 11768], 0, 15),
    ([9154, - 18308, 9154, 9154, - 18308, 9154, 9154, - 18308, 9154], 0, 15),
    ([6262, - 15855, 18029, - 11767, 0, 11767, - 18029, 15855, - 6262], 0, 15)]"

lemma cols_9_15_fits: "list_all (fdct_fits 15 0 9 2305 116505) cols_9_15"
  by code_simp

lemma cols_9_15_ok: "frequencies_ok 9 1048576 81 86 (map (scaled 15) cols_9_15)"
  by code_simp

definition rows_10_12 :: "(int list \<times> int \<times> nat) list" where
  "rows_10_12 =
   [([2, 2, 2, 2, 2, 2, 2, 2, 2, 2], - 2560, 0),
    ([11443, 10323, 8192, 5260, 1812, - 1812, - 5260, - 8192, - 10323, - 11443], 0, 12),
    ([11019, 6810, 0, - 6810, - 11019, - 11019, - 6810, 0, 6810, 11019], 0, 12),
    ([10322, 1812, - 8192, - 11442, - 5260, 5260, 11442, 8192, - 1812, - 10322], 0, 12),
    ([9373, - 3580, - 11586, - 3580, 9373, 9373, - 3580, - 11586, - 3580, 9373], 0, 12),
    ([2, - 2, - 2, 2, 2, - 2, - 2, 2, 2, - 2], 0, 0),
    ([6810, - 11018, 0, 11018, - 6810, - 6810, 11018, 0, - 11018, 6810], 0, 12),
    ([5260, - 11442, 8192, 1812, - 10322, 10322, - 1812, - 8192, 11442, - 5260], 0, 12)]"

lemma rows_10_12_fits: "list_all (fdct_fits 12 128 10 128 81920) rows_10_12"
  by code_simp

lemma rows_10_12_ok: "frequencies_ok 10 8192 1 79 (map (scaled 12) rows_10_12)"
  by code_simp

definition cols_10_15 :: "(int list \<times> int \<times> nat) list" where
  "cols_10_15 =
   [([10486, 10486, 10486, 10486, 10486, 10486, 10486, 10486, 10486, 10486], 0, 15),
    ([14647, 13213, 10486, 6732, 2320, - 2320, - 6732, - 10486, - 13213, - 14647], 0, 15),
    ([14103, 8716, 0, - 8716, - 14103, - 14103, - 8716, 0, 8716, 14103], 0, 15),
    ([13213, 2320, - 10486, - 14646, - 6733, 6733, 14646, 10486, - 2320, - 13213], 0, 15),
    ([11997, - 4582, - 14830, - 4582, 11997, 11997, - 4582, - 14830, - 4582, 11997], 0, 15),
    ([10486, - 10486, - 10486, 10486, 10486, - 10486, - 10486, 10486, 10486, - 10486], 0, 15),
    ([8716, - 14104, 0, 14104, - 8716, - 8716, 14104, 0, - 14104, 8716], 0, 15),
    ([6733, - 14646, 10486, 2320, - 13213, 13213, - 2320, - 10486, 14646, - 6733], 0, 15)]"

lemma cols_10_15_fits: "list_all (fdct_fits 15 0 10 2561 104860) cols_10_15"
  by code_simp

lemma cols_10_15_ok: "frequencies_ok 10 262144 25 90 (map (scaled 15) cols_10_15)"
  by code_simp

definition rows_11_12 :: "(int list \<times> int \<times> nat) list" where
  "rows_11_12 =
   [([2, 2, 2, 2, 2, 2, 2, 2, 2, 2, 2], - 2816, 0),
    ([11467, 10538, 8756, 6263, 3264, 0, - 3264, - 6263, - 8756, - 10538, - 11467], 0, 12),
    ([11116, 7587, 1649, - 4813, - 9746, - 11586, - 9746, - 4813, 1649, 7587, 11116], 0, 12),
    ([10538, 3264, - 6263, - 11467, - 8756, 0, 8756, 11467, 6263, - 3264, - 10538], 0, 12),
    ([9746, - 1648, - 11116, - 7587, 4813, 11584, 4813, - 7587, - 11116, - 1648, 9746], 0, 12),
    ([8756, - 6263, - 10537, 3264, 11467, 0, - 11467, - 3264, 10537, 6263, - 8756], 0, 12),
    ([7587, - 9746, - 4812, 11116, 1649, - 11588, 1649, 11116, - 4812, - 9746, 7587], 0, 12),
    ([6263, - 11467, 3264, 8755, - 10538, 0, 10538, - 8755, - 3264, 11467, - 6263], 0, 12)]"

lemma rows_11_12_fits: "list_all (fdct_fits 12 128 11 128 90112) rows_11_12"
  by code_simp

lemma rows_11_12_ok: "frequencies_ok 11 8192 1 277 (map (scaled 12) rows_11_12)"
  by code_simp

definition cols_11_15 :: "(int list \<times> int \<times> nat) list" where
  "cols_11_15 =
   [([8666, 8666, 8666, 8666, 8666, 8666, 8666, 8666, 8666, 8666, 8666], 0, 15),
    ([12131, 11148, 9262, 6626, 3453, 0, - 3453, - 6626, - 9262, - 11148, - 12131], 0, 15),
    ([11759, 8026, 1744, - 5092, - 10310, - 12254, - 10310, - 5092, 1744, 8026, 11759], 0, 15),
    ([11148, 3452, - 6626, - 12131, - 9262, 0, 9262, 12131, 6626, - 3452, - 11148], 0, 15),
    ([10310, - 1744, - 11759, - 8026, 5091, 12256, 5091, - 8026, - 11759, - 1744, 10310], 0, 15),
    ([9262, - 6626, - 11148, 3453, 12131, 0, - 12131, - 3453, 11148, 6626, - 9262], 0, 15),
    ([8026, - 10310, - 5091, 11759, 1744, - 12256, 1744, 11759, - 5091, - 10310, 8026], 0, 15),
    ([6626, - 12131, 3453, 9262, - 11148, 0, 11148, - 9262, - 3453, 12131, - 6626], 0, 15)]"

lemma cols_11_15_fits: "list_all (fdct_fits 15 0 11 2817 95326) cols_11_15"
  by code_simp

lemma cols_11_15_ok: "frequencies_ok 11 1048576 121 146 (map (scaled 15) cols_11_15)"
  by code_simp

definition rows_12_13 :: "(int list \<times> int \<times> nat) list" where
  "rows_12_13 =
   [([1, 1, 1, 1, 1, 1, 1, 1, 1, 1, 1, 1], - 1536, 0),
    ([11486, 10703, 9191, 7053, 4433, 1512, - 1512, - 4433, - 7053, - 9191, - 10703, - 11486], 0, 13),
    ([11190, 1, 11189, - 11189, - 1, - 11190, - 11190, - 1, - 11189, 11189, 1, 11190], 0, 13),
    ([10703, 4433, - 4433, - 10703, - 10704, - 4433, 4433, 10704, 10703, 4433, - 4433, - 10703], 0, 13),
    ([10033, 0, - 10033, - 10033, 0, 10033, 10033, 0, - 10033, - 10033, 0, 10033], 0, 13),
    ([9191, - 4433, - 11486, - 1512, 10704, 7053, - 7053, - 10704, 1512, 11486, 4433, - 9191], 0, 13),
    ([1, - 1, - 1, 1, 1, - 1, - 1, 1, 1, - 1, - 1, 1], 0, 0),
    ([7053, - 10703, - 1512, 11487, - 4433, - 9191, 9191, 4433, - 11487, 1512, 10703, - 7053], 0, 13)]"

lemma rows_12_13_fits: "list_all (fdct_fits 13 128 12 128 98304) rows_12_13"
  by code_simp

definition cols_12_14 :: "(int list \<times> int \<times> nat) list" where
  "cols_12_14 =
   [([7282, 7282, 7282, 7282, 7282, 7282, 7282, 7282, 7282, 7282, 7282, 7282], 0, 14),
    ([10210, 9514, 8170, 6269, 3941, 1344, - 1344, - 3941, - 6269, - 8170, - 9514, - 10210], 0, 14),
    ([9947, 7282, 2665, - 2665, - 7282, - 9947, - 9947, - 7282, - 2665, 2665, 7282, 9947], 0, 14),
    ([9514, 3941, - 3941, - 9514, - 9514, - 3941, 3941, 9514, 9514, 3941, - 3941, - 9514], 0, 14),
    ([8918, 0, - 8918, - 8918, 0, 8918, 8918, 0, - 8918, - 8918, 0, 8918], 0, 14),
    ([8170, - 3941, - 10210, - 1344, 9514, 6269, - 6269, - 9514, 1344, 10210, 3941, - 8170], 0, 14),
    ([7282, - 7282, - 7282, 7282, 7282, - 7282, - 7282, 7282, 7282, - 7282, - 7282, 7282], 0, 14),
    ([6269, - 9514, - 1344, 10210, - 3941, - 8170, 8170, 3941, - 10210, 1344, 9514, - 6269], 0, 14)]"

lemma cols_12_14_fits: "list_all (fdct_fits 14 0 12 1537 87384) cols_12_14"
  by code_simp

lemma cols_12_14_ok: "frequencies_ok 12 65536 9 32 (map (scaled 14) cols_12_14)"
  by code_simp

definition rows_13_13 :: "(int list \<times> int \<times> nat) list" where
  "rows_13_13 =
   [([1, 1, 1, 1, 1, 1, 1, 1, 1, 1, 1, 1, 1], - 1664, 0),
    ([11499, 10832, 9534, 7682, 5384, 2773, 0, - 2773, - 5384, - 7682, - 9534, - 10832, - 11499], 0, 13),
    ([11249, 8672, 4108, - 1396, - 6581, - 10258, - 11588, - 10258, - 6581, - 1396, 4108, 8672, 11249], 0, 13),
    ([10832, 5384, - 2773, - 9534, - 11501, - 7682, 0, 7682, 11501, 9534, 2773, - 5384, - 10832], 0, 13),
    ([10258, 1397, - 8672, - 11248, - 4108, 6581, 11584, 6581, - 4108, - 11248, - 8672, 1397, 10258], 0, 13),
    ([9534, - 2773, - 11502, - 5384, 7682, 10833, 0, - 10833, - 7682, 5384, 11502, 2773, - 9534], 0, 13),
    ([8672, - 6581, - 10258, 4108, 11248, - 1397, - 11584, - 1397, 11248, 4108, - 10258, - 6581, 8672], 0, 13),
    ([7682, - 9534, - 5384, 10832, 2773, - 11500, 0, 11500, - 2773, - 10832, 5384, 9534, - 7682], 0, 13)]"

lemma rows_13_13_fits: "list_all (fdct_fits 13 128 13 128 106496) rows_13_13"
  by code_simp

lemma rows_13_13_ok: "frequencies_ok 13 8192 1 277 (map (scaled 13) rows_13_13)"
  by code_simp

definition cols_13_14 :: "(int list \<times> int \<times> nat) list" where
  "cols_13_14 =
   [([6205, 6205, 6205, 6205, 6205, 6205, 6205, 6205, 6205, 6205, 6205, 6205, 6205], 0, 14),
    ([8710, 8204, 7221, 5819, 4078, 2100, 0, - 2100, - 4078, - 5819, - 7221, - 8204, - 8710], 0, 14),
    ([8520, 6568, 3112, - 1058, - 4985, - 7770, - 8774, - 7770, - 4985, - 1058, 3112, 6568, 8520], 0, 14),
    ([8204, 4078, - 2100, - 7221, - 8710, - 5819, 0, 5819, 8710, 7221, 2100, - 4078, - 8204], 0, 14),
    ([7770, 1058, - 6568, - 8520, - 3112, 4984, 8776, 4984, - 3112, - 8520, - 6568, 1058, 7770], 0, 14),
    ([7221, - 2100, - 8711, - 4078, 5819, 8204, 0, - 8204, - 5819, 4078, 8711, 2100, - 7221], 0, 14),
    ([6568, - 4984, - 7770, 3112, 8520, - 1058, - 8776, - 1058, 8520, 3112, - 7770, - 4984, 6568], 0, 14),
    ([5819, - 7221, - 4078, 8205, 2100, - 8711, 0, 8711, - 2100, - 8205, 4078, 7221, - 5819], 0, 14)]"

lemma cols_13_14_fits: "list_all (fdct_fits 14 0 13 1665 80665) cols_13_14"
  by code_simp

lemma cols_13_14_ok: "frequencies_ok 13 1048576 169 139 (map (scaled 14) cols_13_14)"
  by code_simp

definition rows_14_13 :: "(int list \<times> int \<times> nat) list" where
  "rows_14_13 =
   [([1, 1, 1, 1, 1, 1, 1, 1, 1, 1, 1, 1, 1, 1], - 1792, 0),
    ([11513, 10935, 9810, 8192, 6164, 3826, - 6893, 6893, - 3826, - 6164, - 8192, - 9810, - 10935, - 11513], 0, 13),
    ([11295, 9058, 5027, 0, - 5027, - 9058, - 11295, - 11295, - 9058, - 5027, 0, 5027, 9058, 11295], 0, 13),
    ([10935, 6164, - 1297, - 8192, - 11512, - 9810, - 3826, 3826, 9810, 11512, 8192, 1297, - 6164, - 10935], 0, 13),
    ([10438, 2578, - 7223, - 11586, - 7223, 2578, 10438, 10438, 2578, - 7223, - 11586, - 7223, 2578, 10438], 0, 13),
    ([9810, - 1297, - 10934, - 8192, 3827, 11512, 6164, - 6164, - 11512, - 3827, 8192, 10934, 1297, - 9810], 0, 13),
    ([9058, - 5026, - 11295, 0, 11295, 5026, - 9058, - 9058, 5026, 11295, 0, - 11295, - 5026, 9058], 0, 13),
    ([1, - 1, - 1, 1, 1, - 1, - 1, 1, 1, - 1, - 1, 1, 1, - 1], 0, 0)]"

lemma rows_14_13_fits: "list_all (fdct_fits 13 128 14 128 114688) rows_14_13"
  by code_simp

definition cols_14_14 :: "(int list \<times> int \<times> nat) list" where
  "cols_14_14 =
   [([5350, 5350, 5350, 5350, 5350, 5350, 5350, 5350, 5350, 5350, 5350, 5350, 5350, 5350], 0, 14),
    ([7518, 7141, 6406, 5350, 4025, 2499, 847, - 847, - 2499, - 4025, - 5350, - 6406, - 7141, - 7518], 0, 14),
    ([7376, 5915, 3283, 0, - 3283, - 5915, - 7376, - 7376, - 5915, - 3283, 0, 3283, 5915, 7376], 0, 14),
    ([7141, 4025, - 847, - 5350, - 7518, - 6406, - 2499, 2499, 6406, 7518, 5350, 847, - 4025, - 7141], 0, 14),
    ([6817, 1684, - 4717, - 7568, - 4717, 1684, 6817, 6817, 1684, - 4717, - 7568, - 4717, 1684, 6817], 0, 14),
    ([6406, - 847, - 7141, - 5350, 2499, 7518, 4025, - 4025, - 7518, - 2499, 5350, 7141, 847, - 6406], 0, 14),
    ([5915, - 3283, - 7376, 0, 7376, 3283, - 5915, - 5915, 3283, 7376, 0, - 7376, - 3283, 5915], 0, 14),
    ([5350, - 5350, - 5350, 5350, 5350, - 5350, - 5350, 5350, 5350, - 5350, - 5350, 5350, 5350, - 5350], 0, 14)]"

lemma cols_14_14_fits: "list_all (fdct_fits 14 0 14 1793 74900) cols_14_14"
  by code_simp

lemma cols_14_14_ok: "frequencies_ok 14 262144 49 214 (map (scaled 14) cols_14_14)"
  by code_simp

definition rows_15_14 :: "(int list \<times> int \<times> nat \<times> int) list" where
  "rows_15_14 =
   [([1, 1, 1, 1, 1, 1, 1, 1, 1, 1, 1, 1, 1, 1, 1], - 1920, 0, 0),
    ([11522, 11018, 10033, 8609, 6809, 4712, 2408, 0, - 2408, - 4712, - 6809, - 8609, - 10033, - 11018, - 11522], 0, 13, 0),
    ([11332, 6476, 5793, 1211, - 6476, - 7752, - 10584, - 11586, - 10584, - 7752, - 6476, 1211, 5793, 6476, 11332], 0, 13, 5793),
    ([11018, 6810, 0, - 6810, - 11018, - 11018, - 6810, 0, 6810, 11018, 11018, 6810, 0, - 6810, - 11018], 0, 13, 0),
    ([10584, 6476, - 5793, - 11332, - 6476, - 1211, 7752, 11586, 7752, - 1211, - 6476, - 11332, - 5793, 6476, 10584], 0, 13, - 5793),
    ([10033, 0, - 10033, - 10033, 0, 10033, 10033, 0, - 10033, - 10033, 0, 10033, 10033, 0, - 10033], 0, 13, 0),
    ([9373, - 3580, - 11586, - 3580, 9373, 9373, - 3580, - 11586, - 3580, 9373, 9373, - 3580, - 11586, - 3580, 9373], 0, 13, 0),
    ([8610, - 6810, - 10033, 4712, 11018, - 2409, - 11522, 0, 11522, 2409, - 11018, - 4712, 10033, 6810, - 8610], 0, 13, 0)]"

definition rows_15_14_halved :: "int list" where
  "rows_15_14_halved = [0, 1, 0, 0, 1, 0, 0, 0, 0, 0, 1, 0, 0, 1, 0]"

lemma rows_15_14_fits: "list_all (half_fits 14 rows_15_14_halved 128 15 128 13985 245760) rows_15_14"
  by code_simp

lemma rows_15_14_ok: "frequencies_ok 15 16384 1 154 (map (scaled_half 14 rows_15_14_halved) rows_15_14)"
  by code_simp

definition cols_15_16 :: "(int list \<times> int \<times> nat \<times> int) list" where
  "cols_15_16 =
   [([9321, 9321, 9321, 9321, 9321, 9321, 9321, 9321, 9321, 9321, 9321, 9321, 9321, 9321, 9321], 0, 15, 0),
    ([13109, 12536, 11415, 9795, 7748, 5361, 2741, 0, - 2741, - 5361, - 7748, - 9795, - 11415, - 12536, - 13109], 0, 15, 0),
    ([12893, 7369, 6591, 1378, - 7369, - 8820, - 12042, - 13182, - 12042, - 8820, - 7369, 1378, 6591, 7369, 12893], 0, 15, 6591),
    ([12536, 7748, 0, - 7748, - 12536, - 12536, - 7748, 0, 7748, 12536, 12536, 7748, 0, - 7748, - 12536], 0, 15, 0),
    ([12041, 7369, - 6590, - 12893, - 7369, - 1378, 8820, 13180, 8820, - 1378, - 7369, - 12893, - 6590, 7369, 12041], 0, 15, - 6590),
    ([11415, 0, - 11415, - 11415, 0, 11415, 11415, 0, - 11415, - 11415, 0, 11415, 11415, 0, - 11415], 0, 15, 0),
    ([10664, - 4073, - 13182, - 4073, 10664, 10664, - 4073, - 13182, - 4073, 10664, 10664, - 4073, - 13182, - 4073, 10664], 0, 15, 0),
    ([9795, - 7748, - 11415, 5361, 12536, - 2741, - 13109, 0, 13109, 2741, - 12536, - 5361, 11415, 7748, - 9795], 0, 15, 0)]"

definition cols_15_16_halved :: "int list" where
  "cols_15_16_halved = [0, 1, 0, 0, 1, 0, 0, 0, 0, 0, 1, 0, 0, 1, 0]"

lemma cols_15_16_fits: "list_all (half_fits 16 cols_15_16_halved 0 15 1921 39359 279630) cols_15_16"
  by code_simp

lemma cols_15_16_ok: "frequencies_ok 15 4194304 225 285 (map (scaled_half 16 cols_15_16_halved) cols_15_16)"
  by code_simp

definition rows_16_11 :: "(int list \<times> int \<times> nat) list" where
  "rows_16_11 =
   [([4, 4, 4, 4, 4, 4, 4, 4, 4, 4, 4, 4, 4, 4, 4, 4], - 8192, 0),
    ([11529, 11086, 10217, 8956, 7350, 5461, 3363, 1135, - 1135, - 3363, - 5461, - 7350, - 8956, - 10217, - 11086, - 11529], 0, 11),
    ([11363, 9633, 6436, 2260, - 2260, - 6436, - 9633, - 11363, - 11363, - 9633, - 6436, - 2260, 2260, 6436, 9633, 11363], 0, 11),
    ([11086, 7350, 1136, - 5461, - 10217, - 11529, - 8956, - 3363, 3363, 8956, 11529, 10217, 5461, - 1136, - 7350, - 11086], 0, 11),
    ([10703, 4433, - 4433, - 10703, - 10703, - 4433, 4433, 10703, 10703, 4433, - 4433, - 10703, - 10703, - 4433, 4433, 10703], 0, 11),
    ([10217, 1136, - 8955, - 11086, - 3363, 7350, 11529, 5461, - 5461, - 11529, - 7350, 3363, 11086, 8955, - 1136, - 10217], 0, 11),
    ([9633, - 2260, - 11363, - 6437, 6437, 11363, 2260, - 9633, - 9633, 2260, 11363, 6437, - 6437, - 11363, - 2260, 9633], 0, 11),
    ([8956, - 5461, - 11086, 1137, 11530, 3363, - 10217, - 7350, 7350, 10217, - 3363, - 11530, - 1137, 11086, 5461, - 8956], 0, 11)]"

lemma rows_16_11_fits: "list_all (fdct_fits 11 128 16 128 131072) rows_16_11"
  by code_simp

lemma rows_16_11_ok: "frequencies_ok 16 8192 1 146 (map (scaled 11) rows_16_11)"
  by code_simp

definition cols_16_17 :: "(int list \<times> int \<times> nat) list" where
  "cols_16_17 =
   [([1, 1, 1, 1, 1, 1, 1, 1, 1, 1, 1, 1, 1, 1, 1, 1], 0, 4),
    ([11529, 11086, 10217, 8956, 7350, 5461, 3363, 1135, - 1135, - 3363, - 5461, - 7350, - 8956, - 10217, - 11086, - 11529], 0, 17),
    ([11363, 9633, 6436, 2260, - 2260, - 6436, - 9633, - 11363, - 11363, - 9633, - 6436, - 2260, 2260, 6436, 9633, 11363], 0, 17),
    ([11086, 7350, 1136, - 5461, - 10217, - 11529, - 8956, - 3363, 3363, 8956, 11529, 10217, 5461, - 1136, - 7350, - 11086], 0, 17),
    ([10703, 4433, - 4433, - 10703, - 10703, - 4433, 4433, 10703, 10703, 4433, - 4433, - 10703, - 10703, - 4433, 4433, 10703], 0, 17),
    ([10217, 1136, - 8955, - 11086, - 3363, 7350, 11529, 5461, - 5461, - 11529, - 7350, 3363, 11086, 8955, - 1136, - 10217], 0, 17),
    ([9633, - 2260, - 11363, - 6437, 6437, 11363, 2260, - 9633, - 9633, 2260, 11363, 6437, - 6437, - 11363, - 2260, 9633], 0, 17),
    ([8956, - 5461, - 11086, 1137, 11530, 3363, - 10217, - 7350, 7350, 10217, - 3363, - 11530, - 1137, 11086, 5461, - 8956], 0, 17)]"

lemma cols_16_17_fits: "list_all (fdct_fits 17 0 16 8193 131072) cols_16_17"
  by code_simp

lemma cols_16_17_ok: "frequencies_ok 16 8192 1 146 (map (scaled 17) cols_16_17)"
  by code_simp

definition cols_8_16 :: "(int list \<times> int \<times> nat) list" where
  "cols_8_16 =
   [([1, 1, 1, 1, 1, 1, 1, 1], 0, 3),
    ([11363, 9633, 6437, 2260, - 2260, - 6437, - 9633, - 11363], 0, 16),
    ([10703, 4433, - 4433, - 10703, - 10703, - 4433, 4433, 10703], 0, 16),
    ([9633, - 2259, - 11362, - 6436, 6436, 11362, 2259, - 9633], 0, 16),
    ([1, - 1, - 1, 1, 1, - 1, - 1, 1], 0, 3),
    ([6437, - 11362, 2261, 9633, - 9633, - 2261, 11362, - 6437], 0, 16),
    ([4433, - 10704, 10704, - 4433, - 4433, 10704, - 10704, 4433], 0, 16),
    ([2260, - 6436, 9633, - 11363, 11363, - 9633, 6436, - 2260], 0, 16)]"

lemma cols_8_16_fits: "list_all (fdct_fits 16 0 8 8193 65536) cols_8_16"
  by code_simp

lemma cols_8_16_ok: "frequencies_ok 8 8192 1 117 (map (scaled 16) cols_8_16)"
  by code_simp

definition rows_14_11 :: "(int list \<times> int \<times> nat) list" where
  "rows_14_11 =
   [([4, 4, 4, 4, 4, 4, 4, 4, 4, 4, 4, 4, 4, 4], - 7168, 0),
    ([11513, 10935, 9810, 8192, 6164, 3826, - 6893, 6893, - 3826, - 6164, - 8192, - 9810, - 10935, - 11513], 0, 11),
    ([11295, 9058, 5027, 0, - 5027, - 9058, - 11295, - 11295, - 9058, - 5027, 0, 5027, 9058, 11295], 0, 11),
    ([10935, 6164, - 1297, - 8192, - 11512, - 9810, - 3826, 3826, 9810, 11512, 8192, 1297, - 6164, - 10935], 0, 11),
    ([10438, 2578, - 7223, - 11586, - 7223, 2578, 10438, 10438, 2578, - 7223, - 11586, - 7223, 2578, 10438], 0, 11),
    ([9810, - 1297, - 10934, - 8192, 3827, 11512, 6164, - 6164, - 11512, - 3827, 8192, 10934, 1297, - 9810], 0, 11),
    ([9058, - 5026, - 11295, 0, 11295, 5026, - 9058, - 9058, 5026, 11295, 0, - 11295, - 5026, 9058], 0, 11),
    ([4, - 4, - 4, 4, 4, - 4, - 4, 4, 4, - 4, - 4, 4, 4, - 4], 0, 0)]"

lemma rows_14_11_fits: "list_all (fdct_fits 11 128 14 128 114688) rows_14_11"
  by code_simp

definition cols_7_16 :: "(int list \<times> int \<times> nat) list" where
  "cols_7_16 =
   [([10700, 10700, 10700, 10700, 10700, 10700, 10700], 0, 16),
    ([14752, 11831, 6565, 0, - 6565, - 11831, - 14752], 0, 16),
    ([13633, 3367, - 9434, - 15132, - 9434, 3367, 13633], 0, 16),
    ([11831, - 6565, - 14752, 0, 14752, 6565, - 11831], 0, 16),
    ([9434, - 13633, - 3367, 15132, - 3367, - 13633, 9434], 0, 16),
    ([6565, - 14752, 11830, 0, - 11830, 14752, - 6565], 0, 16),
    ([3367, - 9434, 13633, - 15132, 13633, - 9434, 3367], 0, 16)]"

lemma cols_7_16_fits: "list_all (fdct_fits 16 0 7 7169 74900) cols_7_16"
  by code_simp

lemma cols_7_16_ok: "frequencies_ok 7 524288 49 53 (map (scaled 16) cols_7_16)"
  by code_simp

definition rows_12_11 :: "(int list \<times> int \<times> nat) list" where
  "rows_12_11 =
   [([4, 4, 4, 4, 4, 4, 4, 4, 4, 4, 4, 4], - 6144, 0),
    ([11486, 10703, 9191, 7053, 4433, 1512, - 1512, - 4433, - 7053, - 9191, - 10703, - 11486], 0, 11),
    ([11190, 1, 11189, - 11189, - 1, - 11190, - 11190, - 1, - 11189, 11189, 1, 11190], 0, 11),
    ([10703, 4433, - 4433, - 10703, - 10704, - 4433, 4433, 10704, 10703, 4433, - 4433, - 10703], 0, 11),
    ([10033, 0, - 10033, - 10033, 0, 10033, 10033, 0, - 10033, - 10033, 0, 10033], 0, 11),
    ([9191, - 4433, - 11486, - 1512, 10704, 7053, - 7053, - 10704, 1512, 11486, 4433, - 9191], 0, 11),
    ([4, - 4, - 4, 4, 4, - 4, - 4, 4, 4, - 4, - 4, 4], 0, 0),
    ([7053, - 10703, - 1512, 11487, - 4433, - 9191, 9191, 4433, - 11487, 1512, 10703, - 7053], 0, 11)]"

lemma rows_12_11_fits: "list_all (fdct_fits 11 128 12 128 98304) rows_12_11"
  by code_simp

definition cols_6_16 :: "(int list \<times> int \<times> nat) list" where
  "cols_6_16 =
   [([14564, 14564, 14564, 14564, 14564, 14564], 0, 16),
    ([19895, 14564, 5331, - 5331, - 14564, - 19895], 0, 16),
    ([17837, 0, - 17837, - 17837, 0, 17837], 0, 16),
    ([14564, - 14564, - 14564, 14564, 14564, - 14564], 0, 16),
    ([10298, - 20596, 10298, 10298, - 20596, 10298], 0, 16),
    ([5331, - 14564, 19895, - 19895, 14564, - 5331], 0, 16)]"

lemma cols_6_16_fits: "list_all (fdct_fits 16 0 6 6145 87384) cols_6_16"
  by code_simp

lemma cols_6_16_ok: "frequencies_ok 6 131072 9 82 (map (scaled 16) cols_6_16)"
  by code_simp

definition rows_10_11 :: "(int list \<times> int \<times> nat) list" where
  "rows_10_11 =
   [([4, 4, 4, 4, 4, 4, 4, 4, 4, 4], - 5120, 0),
    ([11443, 10323, 8192, 5260, 1812, - 1812, - 5260, - 8192, - 10323, - 11443], 0, 11),
    ([11019, 6810, 0, - 6810, - 11019, - 11019, - 6810, 0, 6810, 11019], 0, 11),
    ([10322, 1812, - 8192, - 11442, - 5260, 5260, 11442, 8192, - 1812, - 10322], 0, 11),
    ([9373, - 3580, - 11586, - 3580, 9373, 9373, - 3580, - 11586, - 3580, 9373], 0, 11),
    ([4, - 4, - 4, 4, 4, - 4, - 4, 4, 4, - 4], 0, 0),
    ([6810, - 11018, 0, 11018, - 6810, - 6810, 11018, 0, - 11018, 6810], 0, 11),
    ([5260, - 11442, 8192, 1812, - 10322, 10322, - 1812, - 8192, 11442, - 5260], 0, 11)]"

lemma rows_10_11_fits: "list_all (fdct_fits 11 128 10 128 81920) rows_10_11"
  by code_simp

lemma rows_10_11_ok: "frequencies_ok 10 8192 1 79 (map (scaled 11) rows_10_11)"
  by code_simp

definition rows_8_10 :: "(int list \<times> int \<times> nat) list" where
  "rows_8_10 =
   [([8, 8, 8, 8, 8, 8, 8, 8], - 8192, 0),
    ([11363, 9633, 6437, 2260, - 2260, - 6437, - 9633, - 11363], 0, 10),
    ([10703, 4433, - 4433, - 10703, - 10703, - 4433, 4433, 10703], 0, 10),
    ([9633, - 2259, - 11362, - 6436, 6436, 11362, 2259, - 9633], 0, 10),
    ([8, - 8, - 8, 8, 8, - 8, - 8, 8], 0, 0),
    ([6437, - 11362, 2261, 9633, - 9633, - 2261, 11362, - 6437], 0, 10),
    ([4433, - 10704, 10704, - 4433, - 4433, 10704, - 10704, 4433], 0, 10),
    ([2260, - 6436, 9633, - 11363, 11363, - 9633, 6436, - 2260], 0, 10)]"

lemma rows_8_10_fits: "list_all (fdct_fits 10 128 8 128 65536) rows_8_10"
  by code_simp

lemma rows_8_10_ok: "frequencies_ok 8 8192 1 117 (map (scaled 10) rows_8_10)"
  by code_simp

definition rows_6_10 :: "(int list \<times> int \<times> nat) list" where
  "rows_6_10 =
   [([8, 8, 8, 8, 8, 8], - 6144, 0),
    ([11190, 8192, 2998, - 2998, - 8192, - 11190], 0, 10),
    ([10033, 0, - 10033, - 10033, 0, 10033], 0, 10),
    ([8, - 8, - 8, 8, 8, - 8], 0, 0),
    ([5793, - 11586, 5793, 5793, - 11586, 5793], 0, 10),
    ([2998, - 8192, 11190, - 11190, 8192, - 2998], 0, 10)]"

lemma rows_6_10_fits: "list_all (fdct_fits 10 128 6 128 49152) rows_6_10"
  by code_simp

lemma rows_6_10_ok: "frequencies_ok 6 8192 1 77 (map (scaled 10) rows_6_10)"
  by code_simp

definition rows_4_8 :: "(int list \<times> int \<times> nat) list" where
  "rows_4_8 =
   [([32, 32, 32, 32], - 16384, 0),
    ([10703, 4433, - 4433, - 10703], 0, 8),
    ([32, - 32, - 32, 32], 0, 0),
    ([4433, - 10704, 10704, - 4433], 0, 8)]"

lemma rows_4_8_fits: "list_all (fdct_fits 8 128 4 128 32768) rows_4_8"
  by code_simp

lemma rows_4_8_ok: "frequencies_ok 4 8192 1 64 (map (scaled 8) rows_4_8)"
  by code_simp

definition cols_2_2 :: "(int list \<times> int \<times> nat) list" where
  "cols_2_2 =
   [([1, 1], 0, 2),
    ([1, - 1], 0, 2)]"

lemma cols_2_2_fits: "list_all (fdct_fits 2 0 2 16385 2) cols_2_2"
  by code_simp

lemma cols_2_2_near: "near_frequencies (map (scaled 2) cols_2_2) 2 1 0"
  using basis_2 by (simp add: near_frequencies_def cols_2_2_def scaled_def less_Suc_eq numeral_2_eq_2)

definition cols_16_16 :: "(int list \<times> int \<times> nat) list" where
  "cols_16_16 =
   [([1, 1, 1, 1, 1, 1, 1, 1, 1, 1, 1, 1, 1, 1, 1, 1], 0, 3),
    ([11529, 11086, 10217, 8956, 7350, 5461, 3363, 1135, - 1135, - 3363, - 5461, - 7350, - 8956, - 10217, - 11086, - 11529], 0, 16),
    ([11363, 9633, 6436, 2260, - 2260, - 6436, - 9633, - 11363, - 11363, - 9633, - 6436, - 2260, 2260, 6436, 9633, 11363], 0, 16),
    ([11086, 7350, 1136, - 5461, - 10217, - 11529, - 8956, - 3363, 3363, 8956, 11529, 10217, 5461, - 1136, - 7350, - 11086], 0, 16),
    ([10703, 4433, - 4433, - 10703, - 10703, - 4433, 4433, 10703, 10703, 4433, - 4433, - 10703, - 10703, - 4433, 4433, 10703], 0, 16),
    ([10217, 1136, - 8955, - 11086, - 3363, 7350, 11529, 5461, - 5461, - 11529, - 7350, 3363, 11086, 8955, - 1136, - 10217], 0, 16),
    ([9633, - 2260, - 11363, - 6437, 6437, 11363, 2260, - 9633, - 9633, 2260, 11363, 6437, - 6437, - 11363, - 2260, 9633], 0, 16),
    ([8956, - 5461, - 11086, 1137, 11530, 3363, - 10217, - 7350, 7350, 10217, - 3363, - 11530, - 1137, 11086, 5461, - 8956], 0, 16)]"

lemma cols_16_16_fits: "list_all (fdct_fits 16 0 16 4097 131072) cols_16_16"
  by code_simp

lemma cols_16_16_ok: "frequencies_ok 16 8192 1 146 (map (scaled 16) cols_16_16)"
  by code_simp

definition cols_14_15 :: "(int list \<times> int \<times> nat) list" where
  "cols_14_15 =
   [([5350, 5350, 5350, 5350, 5350, 5350, 5350, 5350, 5350, 5350, 5350, 5350, 5350, 5350], 0, 15),
    ([7518, 7141, 6406, 5350, 4025, 2499, 847, - 847, - 2499, - 4025, - 5350, - 6406, - 7141, - 7518], 0, 15),
    ([7376, 5915, 3283, 0, - 3283, - 5915, - 7376, - 7376, - 5915, - 3283, 0, 3283, 5915, 7376], 0, 15),
    ([7141, 4025, - 847, - 5350, - 7518, - 6406, - 2499, 2499, 6406, 7518, 5350, 847, - 4025, - 7141], 0, 15),
    ([6817, 1684, - 4717, - 7568, - 4717, 1684, 6817, 6817, 1684, - 4717, - 7568, - 4717, 1684, 6817], 0, 15),
    ([6406, - 847, - 7141, - 5350, 2499, 7518, 4025, - 4025, - 7518, - 2499, 5350, 7141, 847, - 6406], 0, 15),
    ([5915, - 3283, - 7376, 0, 7376, 3283, - 5915, - 5915, 3283, 7376, 0, - 7376, - 3283, 5915], 0, 15),
    ([5350, - 5350, - 5350, 5350, 5350, - 5350, - 5350, 5350, 5350, - 5350, - 5350, 5350, 5350, - 5350], 0, 15)]"

lemma cols_14_15_fits: "list_all (fdct_fits 15 0 14 3585 74900) cols_14_15"
  by code_simp

lemma cols_14_15_ok: "frequencies_ok 14 262144 49 214 (map (scaled 15) cols_14_15)"
  by code_simp

definition cols_12_15 :: "(int list \<times> int \<times> nat) list" where
  "cols_12_15 =
   [([7282, 7282, 7282, 7282, 7282, 7282, 7282, 7282, 7282, 7282, 7282, 7282], 0, 15),
    ([10210, 9514, 8170, 6269, 3941, 1344, - 1344, - 3941, - 6269, - 8170, - 9514, - 10210], 0, 15),
    ([9947, 7282, 2665, - 2665, - 7282, - 9947, - 9947, - 7282, - 2665, 2665, 7282, 9947], 0, 15),
    ([9514, 3941, - 3941, - 9514, - 9514, - 3941, 3941, 9514, 9514, 3941, - 3941, - 9514], 0, 15),
    ([8918, 0, - 8918, - 8918, 0, 8918, 8918, 0, - 8918, - 8918, 0, 8918], 0, 15),
    ([8170, - 3941, - 10210, - 1344, 9514, 6269, - 6269, - 9514, 1344, 10210, 3941, - 8170], 0, 15),
    ([7282, - 7282, - 7282, 7282, 7282, - 7282, - 7282, 7282, 7282, - 7282, - 7282, 7282], 0, 15),
    ([6269, - 9514, - 1344, 10210, - 3941, - 8170, 8170, 3941, - 10210, 1344, 9514, - 6269], 0, 15)]"

lemma cols_12_15_fits: "list_all (fdct_fits 15 0 12 3073 87384) cols_12_15"
  by code_simp

lemma cols_12_15_ok: "frequencies_ok 12 65536 9 32 (map (scaled 15) cols_12_15)"
  by code_simp

definition rows_5_11 :: "(int list \<times> int \<times> nat) list" where
  "rows_5_11 =
   [([4, 4, 4, 4, 4], - 2560, 0),
    ([11019, 6810, 0, - 6810, - 11019], 0, 11),
    ([9372, - 3580, - 11584, - 3580, 9372], 0, 11),
    ([6810, - 11018, 0, 11018, - 6810], 0, 11),
    ([3580, - 9372, 11584, - 9372, 3580], 0, 11)]"

lemma rows_5_11_fits: "list_all (fdct_fits 11 128 5 128 40960) rows_5_11"
  by code_simp

lemma rows_5_11_ok: "frequencies_ok 5 8192 1 124 (map (scaled 11) rows_5_11)"
  by code_simp

definition rows_4_10 :: "(int list \<times> int \<times> nat) list" where
  "rows_4_10 =
   [([8, 8, 8, 8], - 4096, 0),
    ([10703, 4433, - 4433, - 10703], 0, 10),
    ([8, - 8, - 8, 8], 0, 0),
    ([4433, - 10704, 10704, - 4433], 0, 10)]"

lemma rows_4_10_fits: "list_all (fdct_fits 10 128 4 128 32768) rows_4_10"
  by code_simp

lemma rows_4_10_ok: "frequencies_ok 4 8192 1 64 (map (scaled 10) rows_4_10)"
  by code_simp

definition rows_3_10 :: "(int list \<times> int \<times> nat) list" where
  "rows_3_10 =
   [([8, 8, 8], - 3072, 0),
    ([10033, 0, - 10033], 0, 10),
    ([5793, - 11586, 5793], 0, 10)]"

lemma rows_3_10_fits: "list_all (fdct_fits 10 128 3 128 24576) rows_3_10"
  by code_simp

lemma rows_3_10_ok: "frequencies_ok 3 8192 1 77 (map (scaled 10) rows_3_10)"
  by code_simp

definition rows_2_0 :: "(int list \<times> int \<times> nat) list" where
  "rows_2_0 =
   [([8, 8], - 2048, 0),
    ([8, - 8], 0, 0)]"

lemma rows_2_0_fits: "list_all (fdct_fits 0 128 2 128 16) rows_2_0"
  by code_simp

lemma rows_2_0_near: "near_frequencies (map (scaled 0) rows_2_0) 2 8 0"
  using basis_2 by (simp add: near_frequencies_def rows_2_0_def scaled_def less_Suc_eq numeral_2_eq_2)

definition cols_4_13 :: "(int list \<times> int \<times> nat) list" where
  "cols_4_13 =
   [([1, 1, 1, 1], 0, 0),
    ([10703, 4433, - 4433, - 10703], 0, 13),
    ([1, - 1, - 1, 1], 0, 0),
    ([4433, - 10704, 10704, - 4433], 0, 13)]"

lemma cols_4_13_fits: "list_all (fdct_fits 13 0 4 2048 32768) cols_4_13"
  by code_simp

lemma cols_4_13_ok: "frequencies_ok 4 8192 1 64 (map (scaled 13) cols_4_13)"
  by code_simp

end
