(* ===== verification/FdctSmall.thy ===== *)
theory FdctSmall
  imports FdctKernels
begin

text \<open>
  The forward DCT routines of \<open>jpeg-9a/jfdctint.c\<close> for the square blocks of 3 to 8 samples a side (and the routines of 2x2, 2x1, 1x2 and 1x1 samples).
  \<open>fdct_NxM_row\<close> is the body of pass 1 of \<open>jpeg_fdct_NxM\<close>, for the row of samples \<open>el\<close>, and
  \<open>fdct_NxM_col\<close> the body of pass 2, for the column \<open>dat\<close> of what pass 1 leaves.
\<close>

section \<open>8x8 samples\<close>

definition fdct_islow_row :: "(nat \<Rightarrow> int) \<Rightarrow> int list" where
  "fdct_islow_row el =
    (let tmp0 = el 0 + el 7;
         tmp1 = el 1 + el 6;
         tmp2 = el 2 + el 5;
         tmp3 = el 3 + el 4;
         tmp10 = tmp0 + tmp3;
         tmp12 = tmp0 - tmp3;
         tmp11 = tmp1 + tmp2;
         tmp13 = tmp1 - tmp2;
         tmp0 = el 0 - el 7;
         tmp1 = el 1 - el 6;
         tmp2 = el 2 - el 5;
         tmp3 = el 3 - el 4;
         out0 = s32 ((tmp10 + tmp11 - 8 * CENTERJSAMPLE) * 2 ^ PASS1_BITS);
         out4 = s32 ((tmp10 - tmp11) * 2 ^ PASS1_BITS);
         z1 = (tmp12 + tmp13) * FIX_0_541196100;
         z1 = z1 + 1 * 2 ^ (CONST_BITS - PASS1_BITS - 1);
         out2 = RIGHT_SHIFT (z1 + tmp12 * FIX_0_765366865) (CONST_BITS - PASS1_BITS);
         out6 = RIGHT_SHIFT (z1 - tmp13 * FIX_1_847759065) (CONST_BITS - PASS1_BITS);
         tmp12 = tmp0 + tmp2;
         tmp13 = tmp1 + tmp3;
         z1 = (tmp12 + tmp13) * FIX_1_175875602;
         z1 = z1 + 1 * 2 ^ (CONST_BITS - PASS1_BITS - 1);
         tmp12 = tmp12 * (- FIX_0_390180644);
         tmp13 = tmp13 * (- FIX_1_961570560);
         tmp12 = tmp12 + z1;
         tmp13 = tmp13 + z1;
         z1 = (tmp0 + tmp3) * (- FIX_0_899976223);
         tmp0 = tmp0 * FIX_1_501321110;
         tmp3 = tmp3 * FIX_0_298631336;
         tmp0 = tmp0 + (z1 + tmp12);
         tmp3 = tmp3 + (z1 + tmp13);
         z1 = (tmp1 + tmp2) * (- FIX_2_562915447);
         tmp1 = tmp1 * FIX_3_072711026;
         tmp2 = tmp2 * FIX_2_053119869;
         tmp1 = tmp1 + (z1 + tmp13);
         tmp2 = tmp2 + (z1 + tmp12);
         out1 = RIGHT_SHIFT tmp0 (CONST_BITS - PASS1_BITS);
         out3 = RIGHT_SHIFT tmp1 (CONST_BITS - PASS1_BITS);
         out5 = RIGHT_SHIFT tmp2 (CONST_BITS - PASS1_BITS);
         out7 = RIGHT_SHIFT tmp3 (CONST_BITS - PASS1_BITS)
     in [out0, out1, out2, out3, out4, out5, out6, out7])"

definition fdct_islow_col :: "(nat \<Rightarrow> int) \<Rightarrow> int list" where
  "fdct_islow_col dat =
    (let tmp0 = dat 0 + dat 7;
         tmp1 = dat 1 + dat 6;
         tmp2 = dat 2 + dat 5;
         tmp3 = dat 3 + dat 4;
         tmp10 = tmp0 + tmp3 + 1 * 2 ^ (PASS1_BITS - 1);
         tmp12 = tmp0 - tmp3;
         tmp11 = tmp1 + tmp2;
         tmp13 = tmp1 - tmp2;
         tmp0 = dat 0 - dat 7;
         tmp1 = dat 1 - dat 6;
         tmp2 = dat 2 - dat 5;
         tmp3 = dat 3 - dat 4;
         out0 = RIGHT_SHIFT (tmp10 + tmp11) PASS1_BITS;
         out4 = RIGHT_SHIFT (tmp10 - tmp11) PASS1_BITS;
         z1 = (tmp12 + tmp13) * FIX_0_541196100;
         z1 = z1 + 1 * 2 ^ (CONST_BITS + PASS1_BITS - 1);
         out2 = RIGHT_SHIFT (z1 + tmp12 * FIX_0_765366865) (CONST_BITS + PASS1_BITS);
         out6 = RIGHT_SHIFT (z1 - tmp13 * FIX_1_847759065) (CONST_BITS + PASS1_BITS);
         tmp12 = tmp0 + tmp2;
         tmp13 = tmp1 + tmp3;
         z1 = (tmp12 + tmp13) * FIX_1_175875602;
         z1 = z1 + 1 * 2 ^ (CONST_BITS + PASS1_BITS - 1);
         tmp12 = tmp12 * (- FIX_0_390180644);
         tmp13 = tmp13 * (- FIX_1_961570560);
         tmp12 = tmp12 + z1;
         tmp13 = tmp13 + z1;
         z1 = (tmp0 + tmp3) * (- FIX_0_899976223);
         tmp0 = tmp0 * FIX_1_501321110;
         tmp3 = tmp3 * FIX_0_298631336;
         tmp0 = tmp0 + (z1 + tmp12);
         tmp3 = tmp3 + (z1 + tmp13);
         z1 = (tmp1 + tmp2) * (- FIX_2_562915447);
         tmp1 = tmp1 * FIX_3_072711026;
         tmp2 = tmp2 * FIX_2_053119869;
         tmp1 = tmp1 + (z1 + tmp13);
         tmp2 = tmp2 + (z1 + tmp12);
         out1 = RIGHT_SHIFT tmp0 (CONST_BITS + PASS1_BITS);
         out3 = RIGHT_SHIFT tmp1 (CONST_BITS + PASS1_BITS);
         out5 = RIGHT_SHIFT tmp2 (CONST_BITS + PASS1_BITS);
         out7 = RIGHT_SHIFT tmp3 (CONST_BITS + PASS1_BITS)
     in [out0, out1, out2, out3, out4, out5, out6, out7])"

definition jpeg_fdct_islow :: "samparray \<Rightarrow> nat \<Rightarrow> int list option" where
  "jpeg_fdct_islow sample_data start_col =
     map_option (fdct_passes 8 8 fdct_islow_row fdct_islow_col) (block_samples 8 8 sample_data start_col)"

lemma fdct_islow_row_sums: "fdct_islow_row el = map (fdct_output el) rows_8_11"
  unfolding fdct_islow_row_def rows_8_11_def list.map
  by (simp add: fdct_output_def Let_def dct_consts CENTERJSAMPLE_def DESCALE_def algebra_simps del: One_nat_def)

lemma fdct_islow_row_pass:
  "fdct_pass fdct_islow_row (\<lambda>a j. a j - 128) (map (scaled 11) rows_8_11) 11 8 128 (2 ^ 11 div 2) 65536"
  by (rule fdct_pass_outputs [OF fdct_islow_row_sums rows_8_11_fits])

lemma fdct_islow_col_sums: "fdct_islow_col dat = map (fdct_output dat) cols_8_15"
  unfolding fdct_islow_col_def cols_8_15_def list.map
  by (simp add: fdct_output_def Let_def dct_consts CENTERJSAMPLE_def DESCALE_def algebra_simps del: One_nat_def)

lemma fdct_islow_col_pass:
  "fdct_pass fdct_islow_col (\<lambda>a j. a j - 0) (map (scaled 15) cols_8_15) 15 8 4097 (2 ^ 15 div 2) 65536"
  by (rule fdct_pass_outputs [OF fdct_islow_col_sums cols_8_15_fits])

interpretation f8x8: fdct_pair fdct_islow_row fdct_islow_col
    "(map (scaled 11) rows_8_11)" 11 8 "(2 ^ 11 div 2)" 65536 "(map (scaled 15) cols_8_15)" 15 8 4097 "(2 ^ 15 div 2)" 65536
    "(real_of_int 8192 / real_of_int 1)" "((real_of_int 117 + 8) / 100)" "(real_of_int 8192 / real_of_int 1)" "((real_of_int 117 + 8) / 100)"
  by (intro fdct_pair.intro fdct_pair_axioms.intro fdct_islow_row_pass fdct_islow_col_pass frequencies_near [OF rows_8_11_ok] frequencies_near [OF cols_8_15_ok])
    (simp add: fdct_budget_def)

lemma jpeg_fdct_islow_transforms:
  assumes "block_samples 8 8 sample_data start_col = Some samples"
  shows "\<exists>data. jpeg_fdct_islow sample_data start_col = Some data \<and> transformed 8 8 samples data"
  using assms f8x8.transforms [OF block_samples_range [OF assms]] by (simp add: jpeg_fdct_islow_def)


section \<open>7x7 samples\<close>

definition fdct_7x7_row :: "(nat \<Rightarrow> int) \<Rightarrow> int list" where
  "fdct_7x7_row el =
    (let tmp0 = el 0 + el 6;
         tmp1 = el 1 + el 5;
         tmp2 = el 2 + el 4;
         tmp3 = el 3;
         tmp10 = el 0 - el 6;
         tmp11 = el 1 - el 5;
         tmp12 = el 2 - el 4;
         z1 = tmp0 + tmp2;
         out0 = s32 ((z1 + tmp1 + tmp3 - 7 * CENTERJSAMPLE) * 2 ^ PASS1_BITS);
         tmp3 = tmp3 + tmp3;
         z1 = z1 - tmp3;
         z1 = z1 - tmp3;
         z1 = z1 * FIX13 9 353553391;
         z2 = (tmp0 - tmp2) * FIX13 9 920609002;
         z3 = (tmp1 - tmp2) * FIX13 9 314692123;
         out2 = DESCALE (z1 + z2 + z3) (CONST_BITS - PASS1_BITS);
         z1 = z1 - z2;
         z2 = (tmp0 - tmp1) * FIX13 9 881747734;
         out4 = DESCALE (z2 + z3 - (tmp1 - tmp3) * FIX13 9 707106781) (CONST_BITS - PASS1_BITS);
         out6 = DESCALE (z1 + z2) (CONST_BITS - PASS1_BITS);
         tmp1 = (tmp10 + tmp11) * FIX13 9 935414347;
         tmp2 = (tmp10 - tmp11) * FIX13 9 170262339;
         tmp0 = tmp1 - tmp2;
         tmp1 = tmp1 + tmp2;
         tmp2 = (tmp11 + tmp12) * (- FIX13 9 1378756276);
         tmp1 = tmp1 + tmp2;
         tmp3 = (tmp10 + tmp12) * FIX13 9 613604268;
         tmp0 = tmp0 + tmp3;
         tmp2 = tmp2 + (tmp3 + tmp12 * FIX13 9 1870828693);
         out1 = DESCALE tmp0 (CONST_BITS - PASS1_BITS);
         out3 = DESCALE tmp1 (CONST_BITS - PASS1_BITS);
         out5 = DESCALE tmp2 (CONST_BITS - PASS1_BITS)
     in [out0, out1, out2, out3, out4, out5, out6])"

definition fdct_7x7_col :: "(nat \<Rightarrow> int) \<Rightarrow> int list" where
  "fdct_7x7_col dat =
    (let tmp0 = dat 0 + dat 6;
         tmp1 = dat 1 + dat 5;
         tmp2 = dat 2 + dat 4;
         tmp3 = dat 3;
         tmp10 = dat 0 - dat 6;
         tmp11 = dat 1 - dat 5;
         tmp12 = dat 2 - dat 4;
         z1 = tmp0 + tmp2;
         out0 = DESCALE ((z1 + tmp1 + tmp3) * FIX13 9 1306122449) (CONST_BITS + PASS1_BITS);
         tmp3 = tmp3 + tmp3;
         z1 = z1 - tmp3;
         z1 = z1 - tmp3;
         z1 = z1 * FIX13 9 461784020;
         z2 = (tmp0 - tmp2) * FIX13 9 1202428084;
         z3 = (tmp1 - tmp2) * FIX13 9 411026446;
         out2 = DESCALE (z1 + z2 + z3) (CONST_BITS + PASS1_BITS);
         z1 = z1 - z2;
         z2 = (tmp0 - tmp1) * FIX13 9 1151670509;
         out4 = DESCALE (z2 + z3 - (tmp1 - tmp3) * FIX13 9 923568041) (CONST_BITS + PASS1_BITS);
         out6 = DESCALE (z1 + z2) (CONST_BITS + PASS1_BITS);
         tmp1 = (tmp10 + tmp11) * FIX13 9 1221765677;
         tmp2 = (tmp10 - tmp11) * FIX13 9 222383464;
         tmp0 = tmp1 - tmp2;
         tmp1 = tmp1 + tmp2;
         tmp2 = (tmp11 + tmp12) * (- FIX13 9 1800824523);
         tmp1 = tmp1 + tmp2;
         tmp3 = (tmp10 + tmp12) * FIX13 9 801442310;
         tmp0 = tmp0 + tmp3;
         tmp2 = tmp2 + (tmp3 + tmp12 * FIX13 9 2443531355);
         out1 = DESCALE tmp0 (CONST_BITS + PASS1_BITS);
         out3 = DESCALE tmp1 (CONST_BITS + PASS1_BITS);
         out5 = DESCALE tmp2 (CONST_BITS + PASS1_BITS)
     in [out0, out1, out2, out3, out4, out5, out6])"

definition jpeg_fdct_7x7 :: "samparray \<Rightarrow> nat \<Rightarrow> int list option" where
  "jpeg_fdct_7x7 sample_data start_col =
     map_option (fdct_passes 7 7 fdct_7x7_row fdct_7x7_col) (block_samples 7 7 sample_data start_col)"

lemma fdct_7x7_row_sums: "fdct_7x7_row el = map (fdct_output el) rows_7_11"
  unfolding fdct_7x7_row_def rows_7_11_def list.map
  by (simp add: fdct_output_def Let_def dct_consts CENTERJSAMPLE_def DESCALE_def algebra_simps del: One_nat_def)

lemma fdct_7x7_row_pass:
  "fdct_pass fdct_7x7_row (\<lambda>a j. a j - 128) (map (scaled 11) rows_7_11) 11 7 128 (2 ^ 11 div 2) 57344"
  by (rule fdct_pass_outputs [OF fdct_7x7_row_sums rows_7_11_fits])

lemma fdct_7x7_col_sums: "fdct_7x7_col dat = map (fdct_output dat) cols_7_15"
  unfolding fdct_7x7_col_def cols_7_15_def list.map
  by (simp add: fdct_output_def Let_def dct_consts CENTERJSAMPLE_def DESCALE_def algebra_simps del: One_nat_def)

lemma fdct_7x7_col_pass:
  "fdct_pass fdct_7x7_col (\<lambda>a j. a j - 0) (map (scaled 15) cols_7_15) 15 7 3585 (2 ^ 15 div 2) 74900"
  by (rule fdct_pass_outputs [OF fdct_7x7_col_sums cols_7_15_fits])

interpretation f7x7: fdct_pair fdct_7x7_row fdct_7x7_col
    "(map (scaled 11) rows_7_11)" 11 7 "(2 ^ 11 div 2)" 57344 "(map (scaled 15) cols_7_15)" 15 7 3585 "(2 ^ 15 div 2)" 74900
    "(real_of_int 8192 / real_of_int 1)" "((real_of_int 124 + 8) / 100)" "(real_of_int 524288 / real_of_int 49)" "((real_of_int 53 + 8) / 100)"
  by (intro fdct_pair.intro fdct_pair_axioms.intro fdct_7x7_row_pass fdct_7x7_col_pass frequencies_near [OF rows_7_11_ok] frequencies_near [OF cols_7_15_ok])
    (simp add: fdct_budget_def)

lemma jpeg_fdct_7x7_transforms:
  assumes "block_samples 7 7 sample_data start_col = Some samples"
  shows "\<exists>data. jpeg_fdct_7x7 sample_data start_col = Some data \<and> transformed 7 7 samples data"
  using assms f7x7.transforms [OF block_samples_range [OF assms]] by (simp add: jpeg_fdct_7x7_def)


section \<open>6x6 samples\<close>

definition fdct_6x6_row :: "(nat \<Rightarrow> int) \<Rightarrow> int list" where
  "fdct_6x6_row el =
    (let tmp0 = el 0 + el 5;
         tmp11 = el 1 + el 4;
         tmp2 = el 2 + el 3;
         tmp10 = tmp0 + tmp2;
         tmp12 = tmp0 - tmp2;
         tmp0 = el 0 - el 5;
         tmp1 = el 1 - el 4;
         tmp2 = el 2 - el 3;
         out0 = s32 ((tmp10 + tmp11 - 6 * CENTERJSAMPLE) * 2 ^ PASS1_BITS);
         out2 = DESCALE (tmp12 * FIX13 9 1224744871) (CONST_BITS - PASS1_BITS);
         out4 = DESCALE ((tmp10 - tmp11 - tmp11) * FIX13 9 707106781) (CONST_BITS - PASS1_BITS);
         tmp10 = DESCALE ((tmp0 + tmp2) * FIX13 9 366025404) (CONST_BITS - PASS1_BITS);
         out1 = s32 (tmp10 + (tmp0 + tmp1) * 2 ^ PASS1_BITS);
         out3 = s32 ((tmp0 - tmp1 - tmp2) * 2 ^ PASS1_BITS);
         out5 = s32 (tmp10 + (tmp2 - tmp1) * 2 ^ PASS1_BITS)
     in [out0, out1, out2, out3, out4, out5])"

definition fdct_6x6_col :: "(nat \<Rightarrow> int) \<Rightarrow> int list" where
  "fdct_6x6_col dat =
    (let tmp0 = dat 0 + dat 5;
         tmp11 = dat 1 + dat 4;
         tmp2 = dat 2 + dat 3;
         tmp10 = tmp0 + tmp2;
         tmp12 = tmp0 - tmp2;
         tmp0 = dat 0 - dat 5;
         tmp1 = dat 1 - dat 4;
         tmp2 = dat 2 - dat 3;
         out0 = DESCALE ((tmp10 + tmp11) * FIX13 9 1777777778) (CONST_BITS + PASS1_BITS);
         out2 = DESCALE (tmp12 * FIX13 9 2177324216) (CONST_BITS + PASS1_BITS);
         out4 = DESCALE ((tmp10 - tmp11 - tmp11) * FIX13 9 1257078722) (CONST_BITS + PASS1_BITS);
         tmp10 = (tmp0 + tmp2) * FIX13 9 650711829;
         out1 = DESCALE (tmp10 + (tmp0 + tmp1) * FIX13 9 1777777778) (CONST_BITS + PASS1_BITS);
         out3 = DESCALE ((tmp0 - tmp1 - tmp2) * FIX13 9 1777777778) (CONST_BITS + PASS1_BITS);
         out5 = DESCALE (tmp10 + (tmp2 - tmp1) * FIX13 9 1777777778) (CONST_BITS + PASS1_BITS)
     in [out0, out1, out2, out3, out4, out5])"

definition jpeg_fdct_6x6 :: "samparray \<Rightarrow> nat \<Rightarrow> int list option" where
  "jpeg_fdct_6x6 sample_data start_col =
     map_option (fdct_passes 6 6 fdct_6x6_row fdct_6x6_col) (block_samples 6 6 sample_data start_col)"

lemma fdct_6x6_row_sums:
  fixes el :: "nat \<Rightarrow> int"
  assumes "\<And>j. j < 6 \<Longrightarrow> \<bar>el j - 128\<bar> \<le> 128"
  shows "fdct_6x6_row el = map (fdct_output el) rows_6_11"
  using six_points [where el = el and m = 11 and k = 4, OF assms] unfolding fdct_6x6_row_def rows_6_11_def list.map
  by (simp add: fdct_output_def Let_def dct_consts CENTERJSAMPLE_def DESCALE_def algebra_simps del: One_nat_def)

lemma fdct_6x6_row_pass:
  "fdct_pass fdct_6x6_row (\<lambda>a j. a j - 128) (map (scaled 11) rows_6_11) 11 6 128 (2 ^ 11 div 2) 49152"
  by (rule fdct_pass_within [OF _ fdct_6x6_row_sums rows_6_11_fits]) (simp_all add: fdct_6x6_row_def rows_6_11_def Let_def)

lemma fdct_6x6_col_sums: "fdct_6x6_col dat = map (fdct_output dat) cols_6_15"
  unfolding fdct_6x6_col_def cols_6_15_def list.map
  by (simp add: fdct_output_def Let_def dct_consts CENTERJSAMPLE_def DESCALE_def algebra_simps del: One_nat_def)

lemma fdct_6x6_col_pass:
  "fdct_pass fdct_6x6_col (\<lambda>a j. a j - 0) (map (scaled 15) cols_6_15) 15 6 3073 (2 ^ 15 div 2) 87384"
  by (rule fdct_pass_outputs [OF fdct_6x6_col_sums cols_6_15_fits])

interpretation f6x6: fdct_pair fdct_6x6_row fdct_6x6_col
    "(map (scaled 11) rows_6_11)" 11 6 "(2 ^ 11 div 2)" 49152 "(map (scaled 15) cols_6_15)" 15 6 3073 "(2 ^ 15 div 2)" 87384
    "(real_of_int 8192 / real_of_int 1)" "((real_of_int 77 + 8) / 100)" "(real_of_int 131072 / real_of_int 9)" "((real_of_int 82 + 8) / 100)"
  by (intro fdct_pair.intro fdct_pair_axioms.intro fdct_6x6_row_pass fdct_6x6_col_pass frequencies_near [OF rows_6_11_ok] frequencies_near [OF cols_6_15_ok])
    (simp add: fdct_budget_def)

lemma jpeg_fdct_6x6_transforms:
  assumes "block_samples 6 6 sample_data start_col = Some samples"
  shows "\<exists>data. jpeg_fdct_6x6 sample_data start_col = Some data \<and> transformed 6 6 samples data"
  using assms f6x6.transforms [OF block_samples_range [OF assms]] by (simp add: jpeg_fdct_6x6_def)


section \<open>5x5 samples\<close>

definition fdct_5x5_row :: "(nat \<Rightarrow> int) \<Rightarrow> int list" where
  "fdct_5x5_row el =
    (let tmp0 = el 0 + el 4;
         tmp1 = el 1 + el 3;
         tmp2 = el 2;
         tmp10 = tmp0 + tmp1;
         tmp11 = tmp0 - tmp1;
         tmp0 = el 0 - el 4;
         tmp1 = el 1 - el 3;
         out0 = s32 ((tmp10 + tmp2 - 5 * CENTERJSAMPLE) * 2 ^ (PASS1_BITS + 1));
         tmp11 = tmp11 * FIX13 9 790569415;
         tmp10 = tmp10 - tmp2 * 2 ^ 2;
         tmp10 = tmp10 * FIX13 9 353553391;
         out2 = DESCALE (tmp11 + tmp10) (CONST_BITS - PASS1_BITS - 1);
         out4 = DESCALE (tmp11 - tmp10) (CONST_BITS - PASS1_BITS - 1);
         tmp10 = (tmp0 + tmp1) * FIX13 9 831253876;
         out1 = DESCALE (tmp10 + tmp0 * FIX13 9 513743148) (CONST_BITS - PASS1_BITS - 1);
         out3 = DESCALE (tmp10 - tmp1 * FIX13 9 2176250899) (CONST_BITS - PASS1_BITS - 1)
     in [out0, out1, out2, out3, out4])"

definition fdct_5x5_col :: "(nat \<Rightarrow> int) \<Rightarrow> int list" where
  "fdct_5x5_col dat =
    (let tmp0 = dat 0 + dat 4;
         tmp1 = dat 1 + dat 3;
         tmp2 = dat 2;
         tmp10 = tmp0 + tmp1;
         tmp11 = tmp0 - tmp1;
         tmp0 = dat 0 - dat 4;
         tmp1 = dat 1 - dat 3;
         out0 = DESCALE ((tmp10 + tmp2) * FIX13 2 128) (CONST_BITS + PASS1_BITS);
         tmp11 = tmp11 * FIX13 9 1011928851;
         tmp10 = tmp10 - tmp2 * 2 ^ 2;
         tmp10 = tmp10 * FIX13 9 452548340;
         out2 = DESCALE (tmp11 + tmp10) (CONST_BITS + PASS1_BITS);
         out4 = DESCALE (tmp11 - tmp10) (CONST_BITS + PASS1_BITS);
         tmp10 = (tmp0 + tmp1) * FIX13 9 1064004961;
         out1 = DESCALE (tmp10 + tmp0 * FIX13 9 657591230) (CONST_BITS + PASS1_BITS);
         out3 = DESCALE (tmp10 - tmp1 * FIX13 9 2785601151) (CONST_BITS + PASS1_BITS)
     in [out0, out1, out2, out3, out4])"

definition jpeg_fdct_5x5 :: "samparray \<Rightarrow> nat \<Rightarrow> int list option" where
  "jpeg_fdct_5x5 sample_data start_col =
     map_option (fdct_passes 5 5 fdct_5x5_row fdct_5x5_col) (block_samples 5 5 sample_data start_col)"

lemma fdct_5x5_row_sums: "fdct_5x5_row el = map (fdct_output el) rows_5_10"
  unfolding fdct_5x5_row_def rows_5_10_def list.map
  by (simp add: fdct_output_def Let_def dct_consts CENTERJSAMPLE_def DESCALE_def algebra_simps del: One_nat_def)

lemma fdct_5x5_row_pass:
  "fdct_pass fdct_5x5_row (\<lambda>a j. a j - 128) (map (scaled 10) rows_5_10) 10 5 128 (2 ^ 10 div 2) 40960"
  by (rule fdct_pass_outputs [OF fdct_5x5_row_sums rows_5_10_fits])

lemma fdct_5x5_col_sums: "fdct_5x5_col dat = map (fdct_output dat) cols_5_15"
  unfolding fdct_5x5_col_def cols_5_15_def list.map
  by (simp add: fdct_output_def Let_def dct_consts CENTERJSAMPLE_def DESCALE_def algebra_simps del: One_nat_def)

lemma fdct_5x5_col_pass:
  "fdct_pass fdct_5x5_col (\<lambda>a j. a j - 0) (map (scaled 15) cols_5_15) 15 5 5121 (2 ^ 15 div 2) 52430"
  by (rule fdct_pass_outputs [OF fdct_5x5_col_sums cols_5_15_fits])

interpretation f5x5: fdct_pair fdct_5x5_row fdct_5x5_col
    "(map (scaled 10) rows_5_10)" 10 5 "(2 ^ 10 div 2)" 40960 "(map (scaled 15) cols_5_15)" 15 5 5121 "(2 ^ 15 div 2)" 52430
    "(real_of_int 8192 / real_of_int 1)" "((real_of_int 124 + 8) / 100)" "(real_of_int 262144 / real_of_int 25)" "((real_of_int 110 + 8) / 100)"
  by (intro fdct_pair.intro fdct_pair_axioms.intro fdct_5x5_row_pass fdct_5x5_col_pass frequencies_near [OF rows_5_10_ok] frequencies_near [OF cols_5_15_ok])
    (simp add: fdct_budget_def)

lemma jpeg_fdct_5x5_transforms:
  assumes "block_samples 5 5 sample_data start_col = Some samples"
  shows "\<exists>data. jpeg_fdct_5x5 sample_data start_col = Some data \<and> transformed 5 5 samples data"
  using assms f5x5.transforms [OF block_samples_range [OF assms]] by (simp add: jpeg_fdct_5x5_def)


section \<open>4x4 samples\<close>

definition fdct_4x4_row :: "(nat \<Rightarrow> int) \<Rightarrow> int list" where
  "fdct_4x4_row el =
    (let tmp0 = el 0 + el 3;
         tmp1 = el 1 + el 2;
         tmp10 = el 0 - el 3;
         tmp11 = el 1 - el 2;
         out0 = s32 ((tmp0 + tmp1 - 4 * CENTERJSAMPLE) * 2 ^ (PASS1_BITS + 2));
         out2 = s32 ((tmp0 - tmp1) * 2 ^ (PASS1_BITS + 2));
         tmp0 = (tmp10 + tmp11) * FIX_0_541196100;
         tmp0 = tmp0 + 1 * 2 ^ (CONST_BITS - PASS1_BITS - 3);
         out1 = RIGHT_SHIFT (tmp0 + tmp10 * FIX_0_765366865) (CONST_BITS - PASS1_BITS - 2);
         out3 = RIGHT_SHIFT (tmp0 - tmp11 * FIX_1_847759065) (CONST_BITS - PASS1_BITS - 2)
     in [out0, out1, out2, out3])"

definition fdct_4x4_col :: "(nat \<Rightarrow> int) \<Rightarrow> int list" where
  "fdct_4x4_col dat =
    (let tmp0 = dat 0 + dat 3 + 1 * 2 ^ (PASS1_BITS - 1);
         tmp1 = dat 1 + dat 2;
         tmp10 = dat 0 - dat 3;
         tmp11 = dat 1 - dat 2;
         out0 = RIGHT_SHIFT (tmp0 + tmp1) PASS1_BITS;
         out2 = RIGHT_SHIFT (tmp0 - tmp1) PASS1_BITS;
         tmp0 = (tmp10 + tmp11) * FIX_0_541196100;
         tmp0 = tmp0 + 1 * 2 ^ (CONST_BITS + PASS1_BITS - 1);
         out1 = RIGHT_SHIFT (tmp0 + tmp10 * FIX_0_765366865) (CONST_BITS + PASS1_BITS);
         out3 = RIGHT_SHIFT (tmp0 - tmp11 * FIX_1_847759065) (CONST_BITS + PASS1_BITS)
     in [out0, out1, out2, out3])"

definition jpeg_fdct_4x4 :: "samparray \<Rightarrow> nat \<Rightarrow> int list option" where
  "jpeg_fdct_4x4 sample_data start_col =
     map_option (fdct_passes 4 4 fdct_4x4_row fdct_4x4_col) (block_samples 4 4 sample_data start_col)"

lemma fdct_4x4_row_sums: "fdct_4x4_row el = map (fdct_output el) rows_4_9"
  unfolding fdct_4x4_row_def rows_4_9_def list.map
  by (simp add: fdct_output_def Let_def dct_consts CENTERJSAMPLE_def DESCALE_def algebra_simps del: One_nat_def)

lemma fdct_4x4_row_pass:
  "fdct_pass fdct_4x4_row (\<lambda>a j. a j - 128) (map (scaled 9) rows_4_9) 9 4 128 (2 ^ 9 div 2) 32768"
  by (rule fdct_pass_outputs [OF fdct_4x4_row_sums rows_4_9_fits])

lemma fdct_4x4_col_sums: "fdct_4x4_col dat = map (fdct_output dat) cols_4_15"
  unfolding fdct_4x4_col_def cols_4_15_def list.map
  by (simp add: fdct_output_def Let_def dct_consts CENTERJSAMPLE_def DESCALE_def algebra_simps del: One_nat_def)

lemma fdct_4x4_col_pass:
  "fdct_pass fdct_4x4_col (\<lambda>a j. a j - 0) (map (scaled 15) cols_4_15) 15 4 8193 (2 ^ 15 div 2) 32768"
  by (rule fdct_pass_outputs [OF fdct_4x4_col_sums cols_4_15_fits])

interpretation f4x4: fdct_pair fdct_4x4_row fdct_4x4_col
    "(map (scaled 9) rows_4_9)" 9 4 "(2 ^ 9 div 2)" 32768 "(map (scaled 15) cols_4_15)" 15 4 8193 "(2 ^ 15 div 2)" 32768
    "(real_of_int 8192 / real_of_int 1)" "((real_of_int 64 + 8) / 100)" "(real_of_int 8192 / real_of_int 1)" "((real_of_int 64 + 8) / 100)"
  by (intro fdct_pair.intro fdct_pair_axioms.intro fdct_4x4_row_pass fdct_4x4_col_pass frequencies_near [OF rows_4_9_ok] frequencies_near [OF cols_4_15_ok])
    (simp add: fdct_budget_def)

lemma jpeg_fdct_4x4_transforms:
  assumes "block_samples 4 4 sample_data start_col = Some samples"
  shows "\<exists>data. jpeg_fdct_4x4 sample_data start_col = Some data \<and> transformed 4 4 samples data"
  using assms f4x4.transforms [OF block_samples_range [OF assms]] by (simp add: jpeg_fdct_4x4_def)


section \<open>3x3 samples\<close>

definition fdct_3x3_row :: "(nat \<Rightarrow> int) \<Rightarrow> int list" where
  "fdct_3x3_row el =
    (let tmp0 = el 0 + el 2;
         tmp1 = el 1;
         tmp2 = el 0 - el 2;
         out0 = s32 ((tmp0 + tmp1 - 3 * CENTERJSAMPLE) * 2 ^ (PASS1_BITS + 2));
         out2 = DESCALE ((tmp0 - tmp1 - tmp1) * FIX13 9 707106781) (CONST_BITS - PASS1_BITS - 2);
         out1 = DESCALE (tmp2 * FIX13 9 1224744871) (CONST_BITS - PASS1_BITS - 2)
     in [out0, out1, out2])"

definition fdct_3x3_col :: "(nat \<Rightarrow> int) \<Rightarrow> int list" where
  "fdct_3x3_col dat =
    (let tmp0 = dat 0 + dat 2;
         tmp1 = dat 1;
         tmp2 = dat 0 - dat 2;
         out0 = DESCALE ((tmp0 + tmp1) * FIX13 9 1777777778) (CONST_BITS + PASS1_BITS);
         out2 = DESCALE ((tmp0 - tmp1 - tmp1) * FIX13 9 1257078722) (CONST_BITS + PASS1_BITS);
         out1 = DESCALE (tmp2 * FIX13 9 2177324216) (CONST_BITS + PASS1_BITS)
     in [out0, out1, out2])"

definition jpeg_fdct_3x3 :: "samparray \<Rightarrow> nat \<Rightarrow> int list option" where
  "jpeg_fdct_3x3 sample_data start_col =
     map_option (fdct_passes 3 3 fdct_3x3_row fdct_3x3_col) (block_samples 3 3 sample_data start_col)"

lemma fdct_3x3_row_sums: "fdct_3x3_row el = map (fdct_output el) rows_3_9"
  unfolding fdct_3x3_row_def rows_3_9_def list.map
  by (simp add: fdct_output_def Let_def dct_consts CENTERJSAMPLE_def DESCALE_def algebra_simps del: One_nat_def)

lemma fdct_3x3_row_pass:
  "fdct_pass fdct_3x3_row (\<lambda>a j. a j - 128) (map (scaled 9) rows_3_9) 9 3 128 (2 ^ 9 div 2) 24576"
  by (rule fdct_pass_outputs [OF fdct_3x3_row_sums rows_3_9_fits])

lemma fdct_3x3_col_sums: "fdct_3x3_col dat = map (fdct_output dat) cols_3_15"
  unfolding fdct_3x3_col_def cols_3_15_def list.map
  by (simp add: fdct_output_def Let_def dct_consts CENTERJSAMPLE_def DESCALE_def algebra_simps del: One_nat_def)

lemma fdct_3x3_col_pass:
  "fdct_pass fdct_3x3_col (\<lambda>a j. a j - 0) (map (scaled 15) cols_3_15) 15 3 6145 (2 ^ 15 div 2) 43692"
  by (rule fdct_pass_outputs [OF fdct_3x3_col_sums cols_3_15_fits])

interpretation f3x3: fdct_pair fdct_3x3_row fdct_3x3_col
    "(map (scaled 9) rows_3_9)" 9 3 "(2 ^ 9 div 2)" 24576 "(map (scaled 15) cols_3_15)" 15 3 6145 "(2 ^ 15 div 2)" 43692
    "(real_of_int 8192 / real_of_int 1)" "((real_of_int 77 + 8) / 100)" "(real_of_int 131072 / real_of_int 9)" "((real_of_int 45 + 8) / 100)"
  by (intro fdct_pair.intro fdct_pair_axioms.intro fdct_3x3_row_pass fdct_3x3_col_pass frequencies_near [OF rows_3_9_ok] frequencies_near [OF cols_3_15_ok])
    (simp add: fdct_budget_def)

lemma jpeg_fdct_3x3_transforms:
  assumes "block_samples 3 3 sample_data start_col = Some samples"
  shows "\<exists>data. jpeg_fdct_3x3 sample_data start_col = Some data \<and> transformed 3 3 samples data"
  using assms f3x3.transforms [OF block_samples_range [OF assms]] by (simp add: jpeg_fdct_3x3_def)

section \<open>2x2, 2x1, 1x2 and 1x1 samples\<close>

definition jpeg_fdct_2x2 :: "samparray \<Rightarrow> nat \<Rightarrow> int list option" where
  "jpeg_fdct_2x2 sample_data start_col =
     map_option (\<lambda>el. let tmp0 = el ! 0 ! 0 + el ! 0 ! 1; tmp1 = el ! 0 ! 0 - el ! 0 ! 1;
         tmp2 = el ! 1 ! 0 + el ! 1 ! 1; tmp3 = el ! 1 ! 0 - el ! 1 ! 1
       in (replicate DCTSIZE2 0)
         [DCTSIZE * 0 := (tmp0 + tmp2 - 4 * CENTERJSAMPLE) * 2 ^ 4, DCTSIZE * 1 := (tmp0 - tmp2) * 2 ^ 4,
          DCTSIZE * 0 + 1 := (tmp1 + tmp3) * 2 ^ 4, DCTSIZE * 1 + 1 := (tmp1 - tmp3) * 2 ^ 4])
       (block_samples 2 2 sample_data start_col)"

definition jpeg_fdct_2x1 :: "samparray \<Rightarrow> nat \<Rightarrow> int list option" where
  "jpeg_fdct_2x1 sample_data start_col =
     map_option (\<lambda>el. let tmp0 = el ! 0 ! 0; tmp1 = el ! 0 ! 1
       in (replicate DCTSIZE2 0)[0 := (tmp0 + tmp1 - 2 * CENTERJSAMPLE) * 2 ^ 5, 1 := (tmp0 - tmp1) * 2 ^ 5])
       (block_samples 1 2 sample_data start_col)"

definition jpeg_fdct_1x2 :: "samparray \<Rightarrow> nat \<Rightarrow> int list option" where
  "jpeg_fdct_1x2 sample_data start_col =
     map_option (\<lambda>el. let tmp0 = el ! 0 ! 0; tmp1 = el ! 1 ! 0
       in (replicate DCTSIZE2 0)
         [DCTSIZE * 0 := (tmp0 + tmp1 - 2 * CENTERJSAMPLE) * 2 ^ 5, DCTSIZE * 1 := (tmp0 - tmp1) * 2 ^ 5])
       (block_samples 2 1 sample_data start_col)"

definition jpeg_fdct_1x1 :: "samparray \<Rightarrow> nat \<Rightarrow> int list option" where
  "jpeg_fdct_1x1 sample_data start_col =
     map_option (\<lambda>el. (replicate DCTSIZE2 0)[0 := (el ! 0 ! 0 - CENTERJSAMPLE) * 2 ^ 6])
       (block_samples 1 1 sample_data start_col)"

lemma transformed_exactly:
  assumes len: "length data = DCTSIZE2"
    and vals: "\<And>u v. u < min 8 H \<Longrightarrow> v < min 8 W \<Longrightarrow>
      real_of_int (data ! (DCTSIZE * u + v)) = fdct_exact H W (\<lambda>r c. samples ! r ! c) u v"
    and zeros: "\<And>i. i < DCTSIZE2 \<Longrightarrow> min 8 H \<le> i div DCTSIZE \<or> min 8 W \<le> i mod DCTSIZE \<Longrightarrow> data ! i = 0"
  shows "transformed H W samples data"
  unfolding transformed_def
proof (intro conjI allI impI)
  fix u v
  assume uv: "u < DCTSIZE" "v < DCTSIZE"
  then have i: "DCTSIZE * u + v < DCTSIZE2" "(DCTSIZE * u + v) div DCTSIZE = u" "(DCTSIZE * u + v) mod DCTSIZE = v"
    by (simp_all add: DCTSIZE_def DCTSIZE2_def)
  show "if u < min 8 H \<and> v < min 8 W
      then \<bar>real_of_int (data ! (DCTSIZE * u + v)) - fdct_exact H W (\<lambda>r c. samples ! r ! c) u v\<bar> \<le> 8
      else data ! (DCTSIZE * u + v) = 0"
    using zeros [OF i(1)] unfolding i(2,3) by (auto simp: vals simp del: min_less_iff_conj)
qed (rule len)

lemma small_basis:
  "dct_basis (Suc 0) 0 0 = 1" "dct_basis (Suc (Suc 0)) 0 0 = 1" "dct_basis (Suc (Suc 0)) 0 (Suc 0) = 1"
  "dct_basis (Suc (Suc 0)) (Suc 0) 0 = 1" "dct_basis (Suc (Suc 0)) (Suc 0) (Suc 0) = - 1"
  using basis_2 by (simp_all add: dct_basis_def numeral_2_eq_2)

lemma jpeg_fdct_2x2_transforms:
  assumes "block_samples 2 2 sample_data start_col = Some samples"
  shows "\<exists>data. jpeg_fdct_2x2 sample_data start_col = Some data \<and> transformed 2 2 samples data"
  using assms
  by (auto simp: jpeg_fdct_2x2_def Let_def nth_list_update DCTSIZE_def DCTSIZE2_def CENTERJSAMPLE_def fdct_exact_def small_basis
    numeral_2_eq_2 less_Suc_eq intro!: transformed_exactly)

lemma jpeg_fdct_2x1_transforms:
  assumes "block_samples 1 2 sample_data start_col = Some samples"
  shows "\<exists>data. jpeg_fdct_2x1 sample_data start_col = Some data \<and> transformed 1 2 samples data"
  using assms
  by (auto simp: jpeg_fdct_2x1_def Let_def nth_list_update DCTSIZE_def DCTSIZE2_def CENTERJSAMPLE_def fdct_exact_def small_basis
    numeral_2_eq_2 less_Suc_eq intro!: transformed_exactly)

lemma jpeg_fdct_1x2_transforms:
  assumes "block_samples 2 1 sample_data start_col = Some samples"
  shows "\<exists>data. jpeg_fdct_1x2 sample_data start_col = Some data \<and> transformed 2 1 samples data"
  using assms
  by (auto simp: jpeg_fdct_1x2_def Let_def nth_list_update DCTSIZE_def DCTSIZE2_def CENTERJSAMPLE_def fdct_exact_def small_basis
    numeral_2_eq_2 less_Suc_eq intro!: transformed_exactly)

lemma jpeg_fdct_1x1_transforms:
  assumes "block_samples 1 1 sample_data start_col = Some samples"
  shows "\<exists>data. jpeg_fdct_1x1 sample_data start_col = Some data \<and> transformed 1 1 samples data"
  using assms
  by (auto simp: jpeg_fdct_1x1_def nth_list_update DCTSIZE_def DCTSIZE2_def CENTERJSAMPLE_def fdct_exact_def small_basis
    intro!: transformed_exactly)

end
