(* ===== verification/FdctLarge.thy ===== *)
theory FdctLarge
  imports FdctKernels
begin

text \<open>
  The forward DCT routines of \<open>jpeg-9a/jfdctint.c\<close> for the square blocks of 9 to 13 samples a side.
  \<open>fdct_NxM_row\<close> is the body of pass 1 of \<open>jpeg_fdct_NxM\<close>, for the row of samples \<open>el\<close>, and
  \<open>fdct_NxM_col\<close> the body of pass 2, for the column \<open>dat\<close> of what pass 1 leaves.
\<close>

section \<open>9x9 samples\<close>

definition fdct_9x9_row :: "(nat \<Rightarrow> int) \<Rightarrow> int list" where
  "fdct_9x9_row el =
    (let tmp0 = el 0 + el 8;
         tmp1 = el 1 + el 7;
         tmp2 = el 2 + el 6;
         tmp3 = el 3 + el 5;
         tmp4 = el 4;
         tmp10 = el 0 - el 8;
         tmp11 = el 1 - el 7;
         tmp12 = el 2 - el 6;
         tmp13 = el 3 - el 5;
         z1 = tmp0 + tmp2 + tmp3;
         z2 = tmp1 + tmp4;
         out0 = s32 ((z1 + z2 - 9 * CENTERJSAMPLE) * 2 ^ 1);
         out6 = DESCALE ((z1 - z2 - z2) * FIX13 9 707106781) (CONST_BITS - 1);
         z1 = (tmp0 - tmp2) * FIX13 9 1328926049;
         z2 = (tmp1 - tmp4 - tmp4) * FIX13 9 707106781;
         out2 = DESCALE ((tmp2 - tmp3) * FIX13 9 1083350441 + z1 + z2) (CONST_BITS - 1);
         out4 = DESCALE ((tmp3 - tmp0) * FIX13 9 245575608 + z1 - z2) (CONST_BITS - 1);
         out3 = DESCALE ((tmp10 - tmp12 - tmp13) * FIX13 9 1224744871) (CONST_BITS - 1);
         tmp11 = tmp11 * FIX13 9 1224744871;
         tmp0 = (tmp10 + tmp12) * FIX13 9 909038955;
         tmp1 = (tmp10 + tmp13) * FIX13 9 483689525;
         out1 = DESCALE (tmp11 + tmp0 + tmp1) (CONST_BITS - 1);
         tmp2 = (tmp12 - tmp13) * FIX13 9 1392728481;
         out5 = DESCALE (tmp0 - tmp11 - tmp2) (CONST_BITS - 1);
         out7 = DESCALE (tmp1 - tmp11 + tmp2) (CONST_BITS - 1)
     in [out0, out1, out2, out3, out4, out5, out6, out7])"

definition fdct_9x9_col :: "(nat \<Rightarrow> int) \<Rightarrow> int list" where
  "fdct_9x9_col dat =
    (let tmp0 = dat 0 + dat 8;
         tmp1 = dat 1 + dat 7;
         tmp2 = dat 2 + dat 6;
         tmp3 = dat 3 + dat 5;
         tmp4 = dat 4;
         tmp10 = dat 0 - dat 8;
         tmp11 = dat 1 - dat 7;
         tmp12 = dat 2 - dat 6;
         tmp13 = dat 3 - dat 5;
         z1 = tmp0 + tmp2 + tmp3;
         z2 = tmp1 + tmp4;
         out0 = DESCALE ((z1 + z2) * FIX13 9 1580246914) (CONST_BITS + 2);
         out6 = DESCALE ((z1 - z2 - z2) * FIX13 9 1117403309) (CONST_BITS + 2);
         z1 = (tmp0 - tmp2) * FIX13 9 2100031287;
         z2 = (tmp1 - tmp4 - tmp4) * FIX13 9 1117403309;
         out2 = DESCALE ((tmp2 - tmp3) * FIX13 9 1711961190 + z1 + z2) (CONST_BITS + 2);
         out4 = DESCALE ((tmp3 - tmp0) * FIX13 9 388070096 + z1 - z2) (CONST_BITS + 2);
         out3 = DESCALE ((tmp10 - tmp12 - tmp13) * FIX13 9 1935399303) (CONST_BITS + 2);
         tmp11 = tmp11 * FIX13 9 1935399303;
         tmp0 = (tmp10 + tmp12) * FIX13 9 1436506004;
         tmp1 = (tmp10 + tmp13) * FIX13 9 764348879;
         out1 = DESCALE (tmp11 + tmp0 + tmp1) (CONST_BITS + 2);
         tmp2 = (tmp12 - tmp13) * FIX13 9 2200854883;
         out5 = DESCALE (tmp0 - tmp11 - tmp2) (CONST_BITS + 2);
         out7 = DESCALE (tmp1 - tmp11 + tmp2) (CONST_BITS + 2)
     in [out0, out1, out2, out3, out4, out5, out6, out7])"

definition jpeg_fdct_9x9 :: "samparray \<Rightarrow> nat \<Rightarrow> int list option" where
  "jpeg_fdct_9x9 sample_data start_col =
     map_option (fdct_passes 9 9 fdct_9x9_row fdct_9x9_col) (block_samples 9 9 sample_data start_col)"

lemma fdct_9x9_row_sums: "fdct_9x9_row el = map (fdct_output el) rows_9_12"
  unfolding fdct_9x9_row_def rows_9_12_def list.map
  by (simp add: fdct_output_def Let_def dct_consts CENTERJSAMPLE_def DESCALE_def algebra_simps del: One_nat_def)

lemma fdct_9x9_row_pass:
  "fdct_pass fdct_9x9_row (\<lambda>a j. a j - 128) (map (scaled 12) rows_9_12) 12 9 128 (2 ^ 12 div 2) 73728"
  by (rule fdct_pass_outputs [OF fdct_9x9_row_sums rows_9_12_fits])

lemma fdct_9x9_col_sums: "fdct_9x9_col dat = map (fdct_output dat) cols_9_15"
  unfolding fdct_9x9_col_def cols_9_15_def list.map
  by (simp add: fdct_output_def Let_def dct_consts CENTERJSAMPLE_def DESCALE_def algebra_simps del: One_nat_def)

lemma fdct_9x9_col_pass:
  "fdct_pass fdct_9x9_col (\<lambda>a j. a j - 0) (map (scaled 15) cols_9_15) 15 9 2305 (2 ^ 15 div 2) 116505"
  by (rule fdct_pass_outputs [OF fdct_9x9_col_sums cols_9_15_fits])

interpretation f9x9: fdct_pair fdct_9x9_row fdct_9x9_col
    "(map (scaled 12) rows_9_12)" 12 9 "(2 ^ 12 div 2)" 73728 "(map (scaled 15) cols_9_15)" 15 9 2305 "(2 ^ 15 div 2)" 116505
    "(real_of_int 8192 / real_of_int 1)" "((real_of_int 77 + 8) / 100)" "(real_of_int 1048576 / real_of_int 81)" "((real_of_int 86 + 8) / 100)"
  by (intro fdct_pair.intro fdct_pair_axioms.intro fdct_9x9_row_pass fdct_9x9_col_pass frequencies_near [OF rows_9_12_ok] frequencies_near [OF cols_9_15_ok])
    (simp add: fdct_budget_def)

lemma jpeg_fdct_9x9_transforms:
  assumes "block_samples 9 9 sample_data start_col = Some samples"
  shows "\<exists>data. jpeg_fdct_9x9 sample_data start_col = Some data \<and> transformed 9 9 samples data"
  using assms f9x9.transforms [OF block_samples_range [OF assms]] by (simp add: jpeg_fdct_9x9_def)


section \<open>10x10 samples\<close>

definition fdct_10x10_row :: "(nat \<Rightarrow> int) \<Rightarrow> int list" where
  "fdct_10x10_row el =
    (let tmp0 = el 0 + el 9;
         tmp1 = el 1 + el 8;
         tmp12 = el 2 + el 7;
         tmp3 = el 3 + el 6;
         tmp4 = el 4 + el 5;
         tmp10 = tmp0 + tmp4;
         tmp13 = tmp0 - tmp4;
         tmp11 = tmp1 + tmp3;
         tmp14 = tmp1 - tmp3;
         tmp0 = el 0 - el 9;
         tmp1 = el 1 - el 8;
         tmp2 = el 2 - el 7;
         tmp3 = el 3 - el 6;
         tmp4 = el 4 - el 5;
         out0 = s32 ((tmp10 + tmp11 + tmp12 - 10 * CENTERJSAMPLE) * 2 ^ 1);
         tmp12 = tmp12 + tmp12;
         out4 = DESCALE ((tmp10 - tmp12) * FIX13 9 1144122806 - (tmp11 - tmp12) * FIX13 9 437016024) (CONST_BITS - 1);
         tmp10 = (tmp13 + tmp14) * FIX13 9 831253876;
         out2 = DESCALE (tmp10 + tmp13 * FIX13 9 513743148) (CONST_BITS - 1);
         out6 = DESCALE (tmp10 - tmp14 * FIX13 9 2176250899) (CONST_BITS - 1);
         tmp10 = tmp0 + tmp4;
         tmp11 = tmp1 - tmp3;
         out5 = s32 ((tmp10 - tmp11 - tmp2) * 2 ^ 1);
         tmp2 = tmp2 * 2 ^ CONST_BITS;
         out1 = DESCALE (tmp0 * FIX13 9 1396802247 + tmp1 * FIX13 9 1260073511 + tmp2 + tmp3 * FIX13 9 642039522 + tmp4 * FIX13 9 221231742) (CONST_BITS - 1);
         tmp12 = (tmp0 - tmp4) * FIX13 9 951056516 - (tmp1 + tmp3) * FIX13 9 587785252;
         tmp13 = (tmp10 + tmp11) * FIX13 9 309016994 + tmp11 * 2 ^ (CONST_BITS - 1) - tmp2;
         out3 = DESCALE (tmp12 + tmp13) (CONST_BITS - 1);
         out7 = DESCALE (tmp12 - tmp13) (CONST_BITS - 1)
     in [out0, out1, out2, out3, out4, out5, out6, out7])"

definition fdct_10x10_col :: "(nat \<Rightarrow> int) \<Rightarrow> int list" where
  "fdct_10x10_col dat =
    (let tmp0 = dat 0 + dat 9;
         tmp1 = dat 1 + dat 8;
         tmp12 = dat 2 + dat 7;
         tmp3 = dat 3 + dat 6;
         tmp4 = dat 4 + dat 5;
         tmp10 = tmp0 + tmp4;
         tmp13 = tmp0 - tmp4;
         tmp11 = tmp1 + tmp3;
         tmp14 = tmp1 - tmp3;
         tmp0 = dat 0 - dat 9;
         tmp1 = dat 1 - dat 8;
         tmp2 = dat 2 - dat 7;
         tmp3 = dat 3 - dat 6;
         tmp4 = dat 4 - dat 5;
         out0 = DESCALE ((tmp10 + tmp11 + tmp12) * FIX13 2 128) (CONST_BITS + 2);
         tmp12 = tmp12 + tmp12;
         out4 = DESCALE ((tmp10 - tmp12) * FIX13 9 1464477191 - (tmp11 - tmp12) * FIX13 9 559380511) (CONST_BITS + 2);
         tmp10 = (tmp13 + tmp14) * FIX13 9 1064004961;
         out2 = DESCALE (tmp10 + tmp13 * FIX13 9 657591230) (CONST_BITS + 2);
         out6 = DESCALE (tmp10 - tmp14 * FIX13 9 2785601151) (CONST_BITS + 2);
         tmp10 = tmp0 + tmp4;
         tmp11 = tmp1 - tmp3;
         out5 = DESCALE ((tmp10 - tmp11 - tmp2) * FIX13 2 128) (CONST_BITS + 2);
         tmp2 = tmp2 * FIX13 2 128;
         out1 = DESCALE (tmp0 * FIX13 9 1787906876 + tmp1 * FIX13 9 1612894094 + tmp2 + tmp3 * FIX13 9 821810588 + tmp4 * FIX13 9 283176630) (CONST_BITS + 2);
         tmp12 = (tmp0 - tmp4) * FIX13 9 1217352341 - (tmp1 + tmp3) * FIX13 9 752365123;
         tmp13 = (tmp10 + tmp11) * FIX13 9 395541753 + tmp11 * FIX13 2 64 - tmp2;
         out3 = DESCALE (tmp12 + tmp13) (CONST_BITS + 2);
         out7 = DESCALE (tmp12 - tmp13) (CONST_BITS + 2)
     in [out0, out1, out2, out3, out4, out5, out6, out7])"

definition jpeg_fdct_10x10 :: "samparray \<Rightarrow> nat \<Rightarrow> int list option" where
  "jpeg_fdct_10x10 sample_data start_col =
     map_option (fdct_passes 10 10 fdct_10x10_row fdct_10x10_col) (block_samples 10 10 sample_data start_col)"

lemma fdct_10x10_row_sums: "fdct_10x10_row el = map (fdct_output el) rows_10_12"
  unfolding fdct_10x10_row_def rows_10_12_def list.map
  by (simp add: fdct_output_def Let_def dct_consts CENTERJSAMPLE_def DESCALE_def algebra_simps del: One_nat_def)

lemma fdct_10x10_row_pass:
  "fdct_pass fdct_10x10_row (\<lambda>a j. a j - 128) (map (scaled 12) rows_10_12) 12 10 128 (2 ^ 12 div 2) 81920"
  by (rule fdct_pass_outputs [OF fdct_10x10_row_sums rows_10_12_fits])

lemma fdct_10x10_col_sums: "fdct_10x10_col dat = map (fdct_output dat) cols_10_15"
  unfolding fdct_10x10_col_def cols_10_15_def list.map
  by (simp add: fdct_output_def Let_def dct_consts CENTERJSAMPLE_def DESCALE_def algebra_simps del: One_nat_def)

lemma fdct_10x10_col_pass:
  "fdct_pass fdct_10x10_col (\<lambda>a j. a j - 0) (map (scaled 15) cols_10_15) 15 10 2561 (2 ^ 15 div 2) 104860"
  by (rule fdct_pass_outputs [OF fdct_10x10_col_sums cols_10_15_fits])

interpretation f10x10: fdct_pair fdct_10x10_row fdct_10x10_col
    "(map (scaled 12) rows_10_12)" 12 10 "(2 ^ 12 div 2)" 81920 "(map (scaled 15) cols_10_15)" 15 10 2561 "(2 ^ 15 div 2)" 104860
    "(real_of_int 8192 / real_of_int 1)" "((real_of_int 79 + 8) / 100)" "(real_of_int 262144 / real_of_int 25)" "((real_of_int 90 + 8) / 100)"
  by (intro fdct_pair.intro fdct_pair_axioms.intro fdct_10x10_row_pass fdct_10x10_col_pass frequencies_near [OF rows_10_12_ok] frequencies_near [OF cols_10_15_ok])
    (simp add: fdct_budget_def)

lemma jpeg_fdct_10x10_transforms:
  assumes "block_samples 10 10 sample_data start_col = Some samples"
  shows "\<exists>data. jpeg_fdct_10x10 sample_data start_col = Some data \<and> transformed 10 10 samples data"
  using assms f10x10.transforms [OF block_samples_range [OF assms]] by (simp add: jpeg_fdct_10x10_def)


section \<open>11x11 samples\<close>

definition fdct_11x11_row :: "(nat \<Rightarrow> int) \<Rightarrow> int list" where
  "fdct_11x11_row el =
    (let tmp0 = el 0 + el 10;
         tmp1 = el 1 + el 9;
         tmp2 = el 2 + el 8;
         tmp3 = el 3 + el 7;
         tmp4 = el 4 + el 6;
         tmp5 = el 5;
         tmp10 = el 0 - el 10;
         tmp11 = el 1 - el 9;
         tmp12 = el 2 - el 8;
         tmp13 = el 3 - el 7;
         tmp14 = el 4 - el 6;
         out0 = s32 ((tmp0 + tmp1 + tmp2 + tmp3 + tmp4 + tmp5 - 11 * CENTERJSAMPLE) * 2 ^ 1);
         tmp5 = tmp5 + tmp5;
         tmp0 = tmp0 - tmp5;
         tmp1 = tmp1 - tmp5;
         tmp2 = tmp2 - tmp5;
         tmp3 = tmp3 - tmp5;
         tmp4 = tmp4 - tmp5;
         z1 = (tmp0 + tmp3) * FIX13 9 1356927976 + (tmp2 + tmp4) * FIX13 9 201263574;
         z2 = (tmp1 - tmp3) * FIX13 9 926112931;
         z3 = (tmp0 - tmp1) * FIX13 9 1189712156;
         out2 = DESCALE (z1 + z2 - tmp3 * FIX13 9 1018300590 - tmp4 * FIX13 9 1390975730) (CONST_BITS - 1);
         out4 = DESCALE (z2 + z3 + tmp1 * FIX13 9 62335650 - tmp2 * FIX13 9 1356927976 + tmp4 * FIX13 9 587485545) (CONST_BITS - 1);
         out6 = DESCALE (z1 + z3 - tmp0 * FIX13 9 1620527200 - tmp2 * FIX13 9 788749120) (CONST_BITS - 1);
         tmp1 = (tmp10 + tmp11) * FIX13 9 1286413905;
         tmp2 = (tmp10 + tmp12) * FIX13 9 1068791298;
         tmp3 = (tmp10 + tmp13) * FIX13 9 764581576;
         tmp0 = tmp1 + tmp2 + tmp3 - tmp10 * FIX13 9 1719967871 + tmp14 * FIX13 9 398430003;
         tmp4 = (tmp11 + tmp12) * (- FIX13 9 764581576);
         tmp5 = (tmp11 + tmp13) * (- FIX13 9 1399818907);
         tmp1 = tmp1 + (tmp4 + tmp5 + tmp11 * FIX13 9 1276416582 - tmp14 * FIX13 9 1068791298);
         tmp10 = (tmp12 + tmp13) * FIX13 9 398430003;
         tmp2 = tmp2 + (tmp4 + tmp10 - tmp12 * FIX13 9 1989053629 + tmp14 * FIX13 9 1399818907);
         tmp3 = tmp3 + (tmp5 + tmp10 + tmp13 * FIX13 9 1305598626 - tmp14 * FIX13 9 1286413905);
         out1 = DESCALE tmp0 (CONST_BITS - 1);
         out3 = DESCALE tmp1 (CONST_BITS - 1);
         out5 = DESCALE tmp2 (CONST_BITS - 1);
         out7 = DESCALE tmp3 (CONST_BITS - 1)
     in [out0, out1, out2, out3, out4, out5, out6, out7])"

definition fdct_11x11_col :: "(nat \<Rightarrow> int) \<Rightarrow> int list" where
  "fdct_11x11_col dat =
    (let tmp0 = dat 0 + dat 10;
         tmp1 = dat 1 + dat 9;
         tmp2 = dat 2 + dat 8;
         tmp3 = dat 3 + dat 7;
         tmp4 = dat 4 + dat 6;
         tmp5 = dat 5;
         tmp10 = dat 0 - dat 10;
         tmp11 = dat 1 - dat 9;
         tmp12 = dat 2 - dat 8;
         tmp13 = dat 3 - dat 7;
         tmp14 = dat 4 - dat 6;
         out0 = DESCALE ((tmp0 + tmp1 + tmp2 + tmp3 + tmp4 + tmp5) * FIX13 9 1057851240) (CONST_BITS + 2);
         tmp5 = tmp5 + tmp5;
         tmp0 = tmp0 - tmp5;
         tmp1 = tmp1 - tmp5;
         tmp2 = tmp2 - tmp5;
         tmp3 = tmp3 - tmp5;
         tmp4 = tmp4 - tmp5;
         z1 = (tmp0 + tmp3) * FIX13 9 1435427942 + (tmp2 + tmp4) * FIX13 9 212906922;
         z2 = (tmp1 - tmp3) * FIX13 9 979689713;
         z3 = (tmp0 - tmp1) * FIX13 9 1258538479;
         out2 = DESCALE (z1 + z2 - tmp3 * FIX13 9 1077210542 - tmp4 * FIX13 9 1471445400) (CONST_BITS + 2);
         out4 = DESCALE (z2 + z3 + tmp1 * FIX13 9 65941844 - tmp2 * FIX13 9 1435427942 + tmp4 * FIX13 9 621472312) (CONST_BITS + 2);
         out6 = DESCALE (z1 + z3 - tmp0 * FIX13 9 1714276708 - tmp2 * FIX13 9 834379234) (CONST_BITS + 2);
         tmp1 = (tmp10 + tmp11) * FIX13 9 1360834544;
         tmp2 = (tmp10 + tmp12) * FIX13 9 1130622199;
         tmp3 = (tmp10 + tmp13) * FIX13 9 808813568;
         tmp0 = tmp1 + tmp2 + tmp3 - tmp10 * FIX13 9 1819470145 + tmp14 * FIX13 9 421479672;
         tmp4 = (tmp11 + tmp12) * (- FIX13 9 808813568);
         tmp5 = (tmp11 + tmp13) * (- FIX13 9 1480800167);
         tmp1 = tmp1 + (tmp4 + tmp5 + tmp11 * FIX13 9 1350258864 - tmp14 * FIX13 9 1130622199);
         tmp10 = (tmp12 + tmp13) * FIX13 9 421479672;
         tmp2 = tmp2 + (tmp4 + tmp10 - tmp12 * FIX13 9 2104122847 + tmp14 * FIX13 9 1480800167);
         tmp3 = tmp3 + (tmp5 + tmp10 + tmp13 * FIX13 9 1381129125 - tmp14 * FIX13 9 1360834544);
         out1 = DESCALE tmp0 (CONST_BITS + 2);
         out3 = DESCALE tmp1 (CONST_BITS + 2);
         out5 = DESCALE tmp2 (CONST_BITS + 2);
         out7 = DESCALE tmp3 (CONST_BITS + 2)
     in [out0, out1, out2, out3, out4, out5, out6, out7])"

definition jpeg_fdct_11x11 :: "samparray \<Rightarrow> nat \<Rightarrow> int list option" where
  "jpeg_fdct_11x11 sample_data start_col =
     map_option (fdct_passes 11 11 fdct_11x11_row fdct_11x11_col) (block_samples 11 11 sample_data start_col)"

lemma fdct_11x11_row_sums: "fdct_11x11_row el = map (fdct_output el) rows_11_12"
  unfolding fdct_11x11_row_def rows_11_12_def list.map
  by (simp add: fdct_output_def Let_def dct_consts CENTERJSAMPLE_def DESCALE_def algebra_simps del: One_nat_def)

lemma fdct_11x11_row_pass:
  "fdct_pass fdct_11x11_row (\<lambda>a j. a j - 128) (map (scaled 12) rows_11_12) 12 11 128 (2 ^ 12 div 2) 90112"
  by (rule fdct_pass_outputs [OF fdct_11x11_row_sums rows_11_12_fits])

lemma fdct_11x11_col_sums: "fdct_11x11_col dat = map (fdct_output dat) cols_11_15"
  unfolding fdct_11x11_col_def cols_11_15_def list.map
  by (simp add: fdct_output_def Let_def dct_consts CENTERJSAMPLE_def DESCALE_def algebra_simps del: One_nat_def)

lemma fdct_11x11_col_pass:
  "fdct_pass fdct_11x11_col (\<lambda>a j. a j - 0) (map (scaled 15) cols_11_15) 15 11 2817 (2 ^ 15 div 2) 95326"
  by (rule fdct_pass_outputs [OF fdct_11x11_col_sums cols_11_15_fits])

interpretation f11x11: fdct_pair fdct_11x11_row fdct_11x11_col
    "(map (scaled 12) rows_11_12)" 12 11 "(2 ^ 12 div 2)" 90112 "(map (scaled 15) cols_11_15)" 15 11 2817 "(2 ^ 15 div 2)" 95326
    "(real_of_int 8192 / real_of_int 1)" "((real_of_int 277 + 8) / 100)" "(real_of_int 1048576 / real_of_int 121)" "((real_of_int 146 + 8) / 100)"
  by (intro fdct_pair.intro fdct_pair_axioms.intro fdct_11x11_row_pass fdct_11x11_col_pass frequencies_near [OF rows_11_12_ok] frequencies_near [OF cols_11_15_ok])
    (simp add: fdct_budget_def)

lemma jpeg_fdct_11x11_transforms:
  assumes "block_samples 11 11 sample_data start_col = Some samples"
  shows "\<exists>data. jpeg_fdct_11x11 sample_data start_col = Some data \<and> transformed 11 11 samples data"
  using assms f11x11.transforms [OF block_samples_range [OF assms]] by (simp add: jpeg_fdct_11x11_def)


section \<open>12x12 samples\<close>

definition fdct_12x12_row :: "(nat \<Rightarrow> int) \<Rightarrow> int list" where
  "fdct_12x12_row el =
    (let tmp0 = el 0 + el 11;
         tmp1 = el 1 + el 10;
         tmp2 = el 2 + el 9;
         tmp3 = el 3 + el 8;
         tmp4 = el 4 + el 7;
         tmp5 = el 5 + el 6;
         tmp10 = tmp0 + tmp5;
         tmp13 = tmp0 - tmp5;
         tmp11 = tmp1 + tmp4;
         tmp14 = tmp1 - tmp4;
         tmp12 = tmp2 + tmp3;
         tmp15 = tmp2 - tmp3;
         tmp0 = el 0 - el 11;
         tmp1 = el 1 - el 10;
         tmp2 = el 2 - el 9;
         tmp3 = el 3 - el 8;
         tmp4 = el 4 - el 7;
         tmp5 = el 5 - el 6;
         out0 = s32 (tmp10 + tmp11 + tmp12 - 12 * CENTERJSAMPLE);
         out6 = s32 (tmp13 - tmp14 - tmp15);
         out4 = DESCALE ((tmp10 - tmp12) * FIX13 9 1224744871) CONST_BITS;
         out2 = DESCALE (tmp14 - tmp15 + (tmp13 + tmp15) * FIX13 9 1366025404) CONST_BITS;
         tmp10 = (tmp1 + tmp4) * FIX_0_541196100;
         tmp14 = tmp10 + tmp1 * FIX_0_765366865;
         tmp15 = tmp10 - tmp4 * FIX_1_847759065;
         tmp12 = (tmp0 + tmp2) * FIX13 9 1121971054;
         tmp13 = (tmp0 + tmp3) * FIX13 9 860918669;
         tmp10 = tmp12 + tmp13 + tmp14 - tmp0 * FIX13 9 580774953 + tmp5 * FIX13 9 184591911;
         tmp11 = (tmp2 + tmp3) * (- FIX13 9 184591911);
         tmp12 = tmp12 + (tmp11 - tmp15 - tmp2 * FIX13 9 2339493912 + tmp5 * FIX13 9 860918669);
         tmp13 = tmp13 + (tmp11 - tmp14 + tmp3 * FIX13 9 725788011 - tmp5 * FIX13 9 1121971054);
         tmp11 = tmp15 + (tmp0 - tmp3) * FIX13 9 1306562965 - (tmp2 + tmp5) * FIX_0_541196100;
         out1 = DESCALE tmp10 CONST_BITS;
         out3 = DESCALE tmp11 CONST_BITS;
         out5 = DESCALE tmp12 CONST_BITS;
         out7 = DESCALE tmp13 CONST_BITS
     in [out0, out1, out2, out3, out4, out5, out6, out7])"

definition fdct_12x12_col :: "(nat \<Rightarrow> int) \<Rightarrow> int list" where
  "fdct_12x12_col dat =
    (let tmp0 = dat 0 + dat 11;
         tmp1 = dat 1 + dat 10;
         tmp2 = dat 2 + dat 9;
         tmp3 = dat 3 + dat 8;
         tmp4 = dat 4 + dat 7;
         tmp5 = dat 5 + dat 6;
         tmp10 = tmp0 + tmp5;
         tmp13 = tmp0 - tmp5;
         tmp11 = tmp1 + tmp4;
         tmp14 = tmp1 - tmp4;
         tmp12 = tmp2 + tmp3;
         tmp15 = tmp2 - tmp3;
         tmp0 = dat 0 - dat 11;
         tmp1 = dat 1 - dat 10;
         tmp2 = dat 2 - dat 9;
         tmp3 = dat 3 - dat 8;
         tmp4 = dat 4 - dat 7;
         tmp5 = dat 5 - dat 6;
         out0 = DESCALE ((tmp10 + tmp11 + tmp12) * FIX13 9 888888889) (CONST_BITS + 1);
         out6 = DESCALE ((tmp13 - tmp14 - tmp15) * FIX13 9 888888889) (CONST_BITS + 1);
         out4 = DESCALE ((tmp10 - tmp12) * FIX13 9 1088662108) (CONST_BITS + 1);
         out2 = DESCALE ((tmp14 - tmp15) * FIX13 9 888888889 + (tmp13 + tmp15) * FIX13 9 1214244803) (CONST_BITS + 1);
         tmp10 = (tmp1 + tmp4) * FIX13 9 481063200;
         tmp14 = tmp10 + tmp1 * FIX13 9 680326102;
         tmp15 = tmp10 - tmp4 * FIX13 9 1642452502;
         tmp12 = (tmp0 + tmp2) * FIX13 9 997307603;
         tmp13 = (tmp0 + tmp3) * FIX13 9 765261039;
         tmp10 = tmp12 + tmp13 + tmp14 - tmp0 * FIX13 9 516244403 + tmp5 * FIX13 9 164081699;
         tmp11 = (tmp2 + tmp3) * (- FIX13 9 164081699);
         tmp12 = tmp12 + (tmp11 - tmp15 - tmp2 * FIX13 9 2079550144 + tmp5 * FIX13 9 765261039);
         tmp13 = tmp13 + (tmp11 - tmp14 + tmp3 * FIX13 9 645144899 - tmp5 * FIX13 9 997307603);
         tmp11 = tmp15 + (tmp0 - tmp3) * FIX13 9 1161389302 - (tmp2 + tmp5) * FIX13 9 481063200;
         out1 = DESCALE tmp10 (CONST_BITS + 1);
         out3 = DESCALE tmp11 (CONST_BITS + 1);
         out5 = DESCALE tmp12 (CONST_BITS + 1);
         out7 = DESCALE tmp13 (CONST_BITS + 1)
     in [out0, out1, out2, out3, out4, out5, out6, out7])"

definition jpeg_fdct_12x12 :: "samparray \<Rightarrow> nat \<Rightarrow> int list option" where
  "jpeg_fdct_12x12 sample_data start_col =
     map_option (fdct_passes 12 12 fdct_12x12_row fdct_12x12_col) (block_samples 12 12 sample_data start_col)"

lemma fdct_12x12_row_sums: "fdct_12x12_row el = map (fdct_output el) rows_12_13"
  unfolding fdct_12x12_row_def rows_12_13_def list.map
  by (simp add: fdct_output_def Let_def dct_consts CENTERJSAMPLE_def DESCALE_def algebra_simps del: One_nat_def)

lemma fdct_12x12_col_sums: "fdct_12x12_col dat = map (fdct_output dat) cols_12_14"
  unfolding fdct_12x12_col_def cols_12_14_def list.map
  by (simp add: fdct_output_def Let_def dct_consts CENTERJSAMPLE_def DESCALE_def algebra_simps del: One_nat_def)


section \<open>13x13 samples\<close>

definition fdct_13x13_row :: "(nat \<Rightarrow> int) \<Rightarrow> int list" where
  "fdct_13x13_row el =
    (let tmp0 = el 0 + el 12;
         tmp1 = el 1 + el 11;
         tmp2 = el 2 + el 10;
         tmp3 = el 3 + el 9;
         tmp4 = el 4 + el 8;
         tmp5 = el 5 + el 7;
         tmp6 = el 6;
         tmp10 = el 0 - el 12;
         tmp11 = el 1 - el 11;
         tmp12 = el 2 - el 10;
         tmp13 = el 3 - el 9;
         tmp14 = el 4 - el 8;
         tmp15 = el 5 - el 7;
         out0 = s32 (tmp0 + tmp1 + tmp2 + tmp3 + tmp4 + tmp5 + tmp6 - 13 * CENTERJSAMPLE);
         tmp6 = tmp6 + tmp6;
         tmp0 = tmp0 - tmp6;
         tmp1 = tmp1 - tmp6;
         tmp2 = tmp2 - tmp6;
         tmp3 = tmp3 - tmp6;
         tmp4 = tmp4 - tmp6;
         tmp5 = tmp5 - tmp6;
         out2 = DESCALE (tmp0 * FIX13 9 1373119086 + tmp1 * FIX13 9 1058554052 + tmp2 * FIX13 9 501487041 - tmp3 * FIX13 9 170464608 - tmp4 * FIX13 9 803364869 - tmp5 * FIX13 9 1252223920) CONST_BITS;
         z1 = (tmp0 - tmp2) * FIX13 9 1155388986 - (tmp3 - tmp4) * FIX13 9 435816023 - (tmp1 - tmp5) * FIX13 9 316450131;
         z2 = (tmp0 + tmp2) * FIX13 9 96834934 - (tmp3 + tmp4) * FIX13 9 937303064 + (tmp1 + tmp5) * FIX13 9 486914739;
         out4 = DESCALE (z1 + z2) CONST_BITS;
         out6 = DESCALE (z1 - z2) CONST_BITS;
         tmp1 = (tmp10 + tmp11) * FIX13 9 1322312651;
         tmp2 = (tmp10 + tmp12) * FIX13 9 1163874945;
         tmp3 = (tmp10 + tmp13) * FIX13 9 937797057 + (tmp14 + tmp15) * FIX13 9 338443458;
         tmp0 = tmp1 + tmp2 + tmp3 - tmp10 * FIX13 9 2020082300 + tmp14 * FIX13 9 318774355;
         tmp4 = (tmp14 - tmp15) * FIX13 9 937797057 - (tmp11 + tmp12) * FIX13 9 338443458;
         tmp5 = (tmp11 + tmp13) * (- FIX13 9 1163874945);
         tmp1 = tmp1 + (tmp4 + tmp5 + tmp11 * FIX13 9 837223564 - tmp14 * FIX13 9 2341699410);
         tmp6 = (tmp12 + tmp13) * (- FIX13 9 657217813);
         tmp2 = tmp2 + (tmp4 + tmp6 - tmp12 * FIX13 9 1572116027 + tmp15 * FIX13 9 2260109708);
         tmp3 = tmp3 + (tmp5 + tmp6 + tmp13 * FIX13 9 2205608352 - tmp15 * FIX13 9 1742345811);
         out1 = DESCALE tmp0 CONST_BITS;
         out3 = DESCALE tmp1 CONST_BITS;
         out5 = DESCALE tmp2 CONST_BITS;
         out7 = DESCALE tmp3 CONST_BITS
     in [out0, out1, out2, out3, out4, out5, out6, out7])"

definition fdct_13x13_col :: "(nat \<Rightarrow> int) \<Rightarrow> int list" where
  "fdct_13x13_col dat =
    (let tmp0 = dat 0 + dat 12;
         tmp1 = dat 1 + dat 11;
         tmp2 = dat 2 + dat 10;
         tmp3 = dat 3 + dat 9;
         tmp4 = dat 4 + dat 8;
         tmp5 = dat 5 + dat 7;
         tmp6 = dat 6;
         tmp10 = dat 0 - dat 12;
         tmp11 = dat 1 - dat 11;
         tmp12 = dat 2 - dat 10;
         tmp13 = dat 3 - dat 9;
         tmp14 = dat 4 - dat 8;
         tmp15 = dat 5 - dat 7;
         out0 = DESCALE ((tmp0 + tmp1 + tmp2 + tmp3 + tmp4 + tmp5 + tmp6) * FIX13 9 757396450) (CONST_BITS + 1);
         tmp6 = tmp6 + tmp6;
         tmp0 = tmp0 - tmp6;
         tmp1 = tmp1 - tmp6;
         tmp2 = tmp2 - tmp6;
         tmp3 = tmp3 - tmp6;
         tmp4 = tmp4 - tmp6;
         tmp5 = tmp5 - tmp6;
         out2 = DESCALE (tmp0 * FIX13 9 1039995521 + tmp1 * FIX13 9 801745081 + tmp2 * FIX13 9 379824504 - tmp3 * FIX13 9 129109289 - tmp4 * FIX13 9 608465700 - tmp5 * FIX13 9 948429952) (CONST_BITS + 1);
         z1 = (tmp0 - tmp2) * FIX13 9 875087516 - (tmp3 - tmp4) * FIX13 9 330085509 - (tmp1 - tmp5) * FIX13 9 239678205;
         z2 = (tmp0 + tmp2) * FIX13 9 73342435 - (tmp3 + tmp4) * FIX13 9 709910013 + (tmp1 + tmp5) * FIX13 9 368787494;
         out4 = DESCALE (z1 + z2) (CONST_BITS + 1);
         out6 = DESCALE (z1 - z2) (CONST_BITS + 1);
         tmp1 = (tmp10 + tmp11) * FIX13 9 1001514908;
         tmp2 = (tmp10 + tmp12) * FIX13 9 881514751;
         tmp3 = (tmp10 + tmp13) * FIX13 9 710284161 + (tmp14 + tmp15) * FIX13 9 256335874;
         tmp0 = tmp1 + tmp2 + tmp3 - tmp10 * FIX13 9 1530003162 + tmp14 * FIX13 9 241438564;
         tmp4 = (tmp14 - tmp15) * FIX13 9 710284161 - (tmp11 + tmp12) * FIX13 9 256335874;
         tmp5 = (tmp11 + tmp13) * (- FIX13 9 881514751);
         tmp1 = tmp1 + (tmp4 + tmp5 + tmp11 * FIX13 9 634110155 - tmp14 * FIX13 9 1773594819);
         tmp6 = (tmp12 + tmp13) * (- FIX13 9 497774438);
         tmp2 = tmp2 + (tmp4 + tmp6 - tmp12 * FIX13 9 1190715098 + tmp15 * FIX13 9 1711799069);
         tmp3 = tmp3 + (tmp5 + tmp6 + tmp13 * FIX13 9 1670519935 - tmp15 * FIX13 9 1319646532);
         out1 = DESCALE tmp0 (CONST_BITS + 1);
         out3 = DESCALE tmp1 (CONST_BITS + 1);
         out5 = DESCALE tmp2 (CONST_BITS + 1);
         out7 = DESCALE tmp3 (CONST_BITS + 1)
     in [out0, out1, out2, out3, out4, out5, out6, out7])"

definition jpeg_fdct_13x13 :: "samparray \<Rightarrow> nat \<Rightarrow> int list option" where
  "jpeg_fdct_13x13 sample_data start_col =
     map_option (fdct_passes 13 13 fdct_13x13_row fdct_13x13_col) (block_samples 13 13 sample_data start_col)"

lemma fdct_13x13_row_sums: "fdct_13x13_row el = map (fdct_output el) rows_13_13"
  unfolding fdct_13x13_row_def rows_13_13_def list.map
  by (simp add: fdct_output_def Let_def dct_consts CENTERJSAMPLE_def DESCALE_def algebra_simps del: One_nat_def)

lemma fdct_13x13_row_pass:
  "fdct_pass fdct_13x13_row (\<lambda>a j. a j - 128) (map (scaled 13) rows_13_13) 13 13 128 (2 ^ 13 div 2) 106496"
  by (rule fdct_pass_outputs [OF fdct_13x13_row_sums rows_13_13_fits])

lemma fdct_13x13_col_sums: "fdct_13x13_col dat = map (fdct_output dat) cols_13_14"
  unfolding fdct_13x13_col_def cols_13_14_def list.map
  by (simp add: fdct_output_def Let_def dct_consts CENTERJSAMPLE_def DESCALE_def algebra_simps del: One_nat_def)

lemma fdct_13x13_col_pass:
  "fdct_pass fdct_13x13_col (\<lambda>a j. a j - 0) (map (scaled 14) cols_13_14) 14 13 1665 (2 ^ 14 div 2) 80665"
  by (rule fdct_pass_outputs [OF fdct_13x13_col_sums cols_13_14_fits])

interpretation f13x13: fdct_pair fdct_13x13_row fdct_13x13_col
    "(map (scaled 13) rows_13_13)" 13 13 "(2 ^ 13 div 2)" 106496 "(map (scaled 14) cols_13_14)" 14 13 1665 "(2 ^ 14 div 2)" 80665
    "(real_of_int 8192 / real_of_int 1)" "((real_of_int 277 + 8) / 100)" "(real_of_int 1048576 / real_of_int 169)" "((real_of_int 139 + 8) / 100)"
  by (intro fdct_pair.intro fdct_pair_axioms.intro fdct_13x13_row_pass fdct_13x13_col_pass frequencies_near [OF rows_13_13_ok] frequencies_near [OF cols_13_14_ok])
    (simp add: fdct_budget_def)

lemma jpeg_fdct_13x13_transforms:
  assumes "block_samples 13 13 sample_data start_col = Some samples"
  shows "\<exists>data. jpeg_fdct_13x13 sample_data start_col = Some data \<and> transformed 13 13 samples data"
  using assms f13x13.transforms [OF block_samples_range [OF assms]] by (simp add: jpeg_fdct_13x13_def)

end
