(* ===== verification/FdctLarger.thy ===== *)
theory FdctLarger
  imports FdctKernels
begin

text \<open>
  The forward DCT routines of \<open>jpeg-9a/jfdctint.c\<close> for the square blocks of 14 to 16 samples a side.
  \<open>fdct_NxM_row\<close> is the body of pass 1 of \<open>jpeg_fdct_NxM\<close>, for the row of samples \<open>el\<close>, and
  \<open>fdct_NxM_col\<close> the body of pass 2, for the column \<open>dat\<close> of what pass 1 leaves.
\<close>

section \<open>14x14 samples\<close>

definition fdct_14x14_row :: "(nat \<Rightarrow> int) \<Rightarrow> int list" where
  "fdct_14x14_row el =
    (let tmp0 = el 0 + el 13;
         tmp1 = el 1 + el 12;
         tmp2 = el 2 + el 11;
         tmp13 = el 3 + el 10;
         tmp4 = el 4 + el 9;
         tmp5 = el 5 + el 8;
         tmp6 = el 6 + el 7;
         tmp10 = tmp0 + tmp6;
         tmp14 = tmp0 - tmp6;
         tmp11 = tmp1 + tmp5;
         tmp15 = tmp1 - tmp5;
         tmp12 = tmp2 + tmp4;
         tmp16 = tmp2 - tmp4;
         tmp0 = el 0 - el 13;
         tmp1 = el 1 - el 12;
         tmp2 = el 2 - el 11;
         tmp3 = el 3 - el 10;
         tmp4 = el 4 - el 9;
         tmp5 = el 5 - el 8;
         tmp6 = el 6 - el 7;
         out0 = s32 (tmp10 + tmp11 + tmp12 + tmp13 - 14 * CENTERJSAMPLE);
         tmp13 = tmp13 + tmp13;
         out4 = DESCALE ((tmp10 - tmp13) * FIX13 9 1274162392 + (tmp11 - tmp13) * FIX13 9 314692123 - (tmp12 - tmp13) * FIX13 9 881747734) CONST_BITS;
         tmp10 = (tmp14 + tmp15) * FIX13 9 1105676686;
         out2 = DESCALE (tmp10 + tmp14 * FIX13 9 273079590 + tmp16 * FIX13 9 613604268) CONST_BITS;
         out6 = DESCALE (tmp10 - tmp15 * FIX13 9 1719280954 - tmp16 * FIX13 9 1378756276) CONST_BITS;
         tmp10 = tmp1 + tmp2;
         tmp11 = tmp5 - tmp4;
         out7 = s32 (tmp0 - tmp10 + tmp3 - tmp11 - tmp6);
         tmp3 = tmp3 * 2 ^ CONST_BITS;
         tmp10 = tmp10 * (- FIX13 9 158341681);
         tmp11 = tmp11 * FIX13 9 1405321284;
         tmp10 = tmp10 + (tmp11 - tmp3);
         tmp11 = (tmp0 + tmp2) * FIX13 9 1197448846 + (tmp4 + tmp6) * FIX13 9 752406978;
         out5 = DESCALE (tmp10 + tmp11 - tmp2 * FIX13 9 2373959773 + tmp4 * FIX13 9 1119999435) CONST_BITS;
         tmp12 = (tmp0 + tmp1) * FIX13 9 1334852607 + (tmp5 - tmp6) * FIX13 9 467085129;
         out3 = DESCALE (tmp10 + tmp12 - tmp1 * FIX13 9 424103948 - tmp5 * FIX13 9 3069855259) CONST_BITS;
         out1 = DESCALE (tmp11 + tmp12 + tmp3 + tmp6 - (tmp0 + tmp6) * FIX13 9 1126980169) CONST_BITS
     in [out0, out1, out2, out3, out4, out5, out6, out7])"

definition fdct_14x14_col :: "(nat \<Rightarrow> int) \<Rightarrow> int list" where
  "fdct_14x14_col dat =
    (let tmp0 = dat 0 + dat 13;
         tmp1 = dat 1 + dat 12;
         tmp2 = dat 2 + dat 11;
         tmp13 = dat 3 + dat 10;
         tmp4 = dat 4 + dat 9;
         tmp5 = dat 5 + dat 8;
         tmp6 = dat 6 + dat 7;
         tmp10 = tmp0 + tmp6;
         tmp14 = tmp0 - tmp6;
         tmp11 = tmp1 + tmp5;
         tmp15 = tmp1 - tmp5;
         tmp12 = tmp2 + tmp4;
         tmp16 = tmp2 - tmp4;
         tmp0 = dat 0 - dat 13;
         tmp1 = dat 1 - dat 12;
         tmp2 = dat 2 - dat 11;
         tmp3 = dat 3 - dat 10;
         tmp4 = dat 4 - dat 9;
         tmp5 = dat 5 - dat 8;
         tmp6 = dat 6 - dat 7;
         out0 = DESCALE ((tmp10 + tmp11 + tmp12 + tmp13) * FIX13 9 653061224) (CONST_BITS + 1);
         tmp13 = tmp13 + tmp13;
         out4 = DESCALE ((tmp10 - tmp13) * FIX13 9 832106052 + (tmp11 - tmp13) * FIX13 9 205513223 - (tmp12 - tmp13) * FIX13 9 575835255) (CONST_BITS + 1);
         tmp10 = (tmp14 + tmp15) * FIX13 9 722074570;
         out2 = DESCALE (tmp10 + tmp14 * FIX13 9 178337691 + tmp16 * FIX13 9 400721155) (CONST_BITS + 1);
         out6 = DESCALE (tmp10 - tmp15 * FIX13 9 1122795725 - tmp16 * FIX13 9 900412262) (CONST_BITS + 1);
         tmp10 = tmp1 + tmp2;
         tmp11 = tmp5 - tmp4;
         out7 = DESCALE ((tmp0 - tmp10 + tmp3 - tmp11 - tmp6) * FIX13 9 653061224) (CONST_BITS + 1);
         tmp3 = tmp3 * FIX13 9 653061224;
         tmp10 = tmp10 * (- FIX13 9 103406812);
         tmp11 = tmp11 * FIX13 9 917760839;
         tmp10 = tmp10 + (tmp11 - tmp3);
         tmp11 = (tmp0 + tmp2) * FIX13 9 782007410 + (tmp4 + tmp6) * FIX13 9 491367823;
         out5 = DESCALE (tmp10 + tmp11 - tmp2 * FIX13 9 1550341076 + tmp4 * FIX13 9 731428202) (CONST_BITS + 1);
         tmp12 = (tmp0 + tmp1) * FIX13 9 871740478 + (tmp5 - tmp6) * FIX13 9 305035186;
         out3 = DESCALE (tmp10 + tmp12 - tmp1 * FIX13 9 276965844 - tmp5 * FIX13 9 2004803435) (CONST_BITS + 1);
         out1 = DESCALE (tmp11 + tmp12 + tmp3 - tmp0 * FIX13 9 735987049 - tmp6 * FIX13 9 82925825) (CONST_BITS + 1)
     in [out0, out1, out2, out3, out4, out5, out6, out7])"

definition jpeg_fdct_14x14 :: "samparray \<Rightarrow> nat \<Rightarrow> int list option" where
  "jpeg_fdct_14x14 sample_data start_col =
     map_option (fdct_passes 14 14 fdct_14x14_row fdct_14x14_col) (block_samples 14 14 sample_data start_col)"

lemma fdct_14x14_row_sums: "fdct_14x14_row el = map (fdct_output el) rows_14_13"
  unfolding fdct_14x14_row_def rows_14_13_def list.map
  by (simp add: fdct_output_def Let_def dct_consts CENTERJSAMPLE_def DESCALE_def algebra_simps del: One_nat_def)

lemma fdct_14x14_col_sums: "fdct_14x14_col dat = map (fdct_output dat) cols_14_14"
  unfolding fdct_14x14_col_def cols_14_14_def list.map
  by (simp add: fdct_output_def Let_def dct_consts CENTERJSAMPLE_def DESCALE_def algebra_simps del: One_nat_def)


section \<open>15x15 samples\<close>

definition fdct_15x15_row :: "(nat \<Rightarrow> int) \<Rightarrow> int list" where
  "fdct_15x15_row el =
    (let tmp0 = el 0 + el 14;
         tmp1 = el 1 + el 13;
         tmp2 = el 2 + el 12;
         tmp3 = el 3 + el 11;
         tmp4 = el 4 + el 10;
         tmp5 = el 5 + el 9;
         tmp6 = el 6 + el 8;
         tmp7 = el 7;
         tmp10 = el 0 - el 14;
         tmp11 = el 1 - el 13;
         tmp12 = el 2 - el 12;
         tmp13 = el 3 - el 11;
         tmp14 = el 4 - el 10;
         tmp15 = el 5 - el 9;
         tmp16 = el 6 - el 8;
         z1 = tmp0 + tmp4 + tmp5;
         z2 = tmp1 + tmp3 + tmp6;
         z3 = tmp2 + tmp7;
         out0 = s32 (z1 + z2 + z3 - 15 * CENTERJSAMPLE);
         z3 = z3 + z3;
         out6 = DESCALE ((z1 - z3) * FIX13 9 1144122806 - (z2 - z3) * FIX13 9 437016024) CONST_BITS;
         tmp2 = tmp2 + (RIGHT_SHIFT (tmp1 + tmp4) 1 - tmp7 - tmp7);
         z1 = (tmp3 - tmp2) * FIX13 9 1531135173 - (tmp6 - tmp2) * FIX13 9 2238241955;
         z2 = (tmp5 - tmp2) * FIX13 9 798468008 - (tmp0 - tmp2) * FIX13 9 91361227;
         z3 = (tmp0 - tmp3) * FIX13 9 1383309603 + (tmp6 - tmp5) * FIX13 9 946293579 + (tmp1 - tmp4) * FIX13 9 790569415;
         out2 = DESCALE (z1 + z3) CONST_BITS;
         out4 = DESCALE (z2 + z3) CONST_BITS;
         tmp2 = (tmp10 - tmp12 - tmp13 + tmp15 + tmp16) * FIX13 9 1224744871;
         tmp1 = (tmp10 - tmp14 - tmp15) * FIX13 9 1344997024 + (tmp11 - tmp13 - tmp16) * FIX13 9 831253876;
         tmp12 = tmp12 * FIX13 9 1224744871;
         tmp4 = (tmp10 - tmp16) * FIX13 9 1406466353 + (tmp11 + tmp14) * FIX13 9 1344997024 + (tmp13 + tmp15) * FIX13 9 575212477;
         tmp0 = tmp13 * FIX13 9 475753014 - tmp14 * FIX13 9 513743148 + tmp16 * FIX13 9 1700497885 + tmp4 + tmp12;
         tmp3 = tmp10 * (- FIX13 9 355500862) - tmp11 * FIX13 9 2176250899 - tmp15 * FIX13 9 869244010 + tmp4 - tmp12;
         out1 = DESCALE tmp0 CONST_BITS;
         out3 = DESCALE tmp1 CONST_BITS;
         out5 = DESCALE tmp2 CONST_BITS;
         out7 = DESCALE tmp3 CONST_BITS
     in [out0, out1, out2, out3, out4, out5, out6, out7])"

definition fdct_15x15_col :: "(nat \<Rightarrow> int) \<Rightarrow> int list" where
  "fdct_15x15_col dat =
    (let tmp0 = dat 0 + dat 14;
         tmp1 = dat 1 + dat 13;
         tmp2 = dat 2 + dat 12;
         tmp3 = dat 3 + dat 11;
         tmp4 = dat 4 + dat 10;
         tmp5 = dat 5 + dat 9;
         tmp6 = dat 6 + dat 8;
         tmp7 = dat 7;
         tmp10 = dat 0 - dat 14;
         tmp11 = dat 1 - dat 13;
         tmp12 = dat 2 - dat 12;
         tmp13 = dat 3 - dat 11;
         tmp14 = dat 4 - dat 10;
         tmp15 = dat 5 - dat 9;
         tmp16 = dat 6 - dat 8;
         z1 = tmp0 + tmp4 + tmp5;
         z2 = tmp1 + tmp3 + tmp6;
         z3 = tmp2 + tmp7;
         out0 = DESCALE ((z1 + z2 + z3) * FIX13 9 1137777778) (CONST_BITS + 2);
         z3 = z3 + z3;
         out6 = DESCALE ((z1 - z3) * FIX13 9 1301757503 - (z2 - z3) * FIX13 9 497227121) (CONST_BITS + 2);
         tmp2 = tmp2 + (RIGHT_SHIFT (tmp1 + tmp4) 1 - tmp7 - tmp7);
         z1 = (tmp3 - tmp2) * FIX13 9 1742091575 - (tmp6 - tmp2) * FIX13 9 2546621957;
         z2 = (tmp5 - tmp2) * FIX13 9 908479156 - (tmp0 - tmp2) * FIX13 9 103948774;
         z3 = (tmp0 - tmp3) * FIX13 9 1573898926 + (tmp6 - tmp5) * FIX13 9 1076671805 + (tmp1 - tmp4) * FIX13 9 899492312;
         out2 = DESCALE (z1 + z3) (CONST_BITS + 2);
         out4 = DESCALE (z2 + z3) (CONST_BITS + 2);
         tmp2 = (tmp10 - tmp12 - tmp13 + tmp15 + tmp16) * FIX13 9 1393487498;
         tmp1 = (tmp10 - tmp14 - tmp15) * FIX13 9 1530307725 + (tmp11 - tmp13 - tmp16) * FIX13 9 945782187;
         tmp12 = tmp12 * FIX13 9 1393487498;
         tmp4 = (tmp10 - tmp16) * FIX13 9 1600246161 + (tmp11 + tmp14) * FIX13 9 1530307725 + (tmp13 + tmp15) * FIX13 9 654463974;
         tmp0 = tmp13 * FIX13 9 541301207 - tmp14 * FIX13 9 584525538 + tmp16 * FIX13 9 1934788705 + tmp4 + tmp12;
         tmp3 = tmp10 * (- FIX13 9 404480980) - tmp11 * FIX13 9 2476089912 - tmp15 * FIX13 9 989006518 + tmp4 - tmp12;
         out1 = DESCALE tmp0 (CONST_BITS + 2);
         out3 = DESCALE tmp1 (CONST_BITS + 2);
         out5 = DESCALE tmp2 (CONST_BITS + 2);
         out7 = DESCALE tmp3 (CONST_BITS + 2)
     in [out0, out1, out2, out3, out4, out5, out6, out7])"

definition jpeg_fdct_15x15 :: "samparray \<Rightarrow> nat \<Rightarrow> int list option" where
  "jpeg_fdct_15x15 sample_data start_col =
     map_option (fdct_passes 15 15 fdct_15x15_row fdct_15x15_col) (block_samples 15 15 sample_data start_col)"

lemma fdct_15x15_row_sums: "fdct_15x15_row el = map (half_output rows_15_14_halved el) rows_15_14"
  unfolding fdct_15x15_row_def rows_15_14_def rows_15_14_halved_def list.map
  by (simp add: half_output_def Let_def dct_consts CENTERJSAMPLE_def DESCALE_def algebra_simps del: One_nat_def)

lemma fdct_15x15_row_pass:
  "fdct_pass fdct_15x15_row (\<lambda>a j. a j - 128) (map (scaled_half 14 rows_15_14_halved) rows_15_14) 14 15 128 13985 245760"
  by (rule fdct_pass_half [OF fdct_15x15_row_sums rows_15_14_fits])

lemma fdct_15x15_col_sums: "fdct_15x15_col dat = map (half_output cols_15_16_halved dat) cols_15_16"
  unfolding fdct_15x15_col_def cols_15_16_def cols_15_16_halved_def list.map
  by (simp add: half_output_def Let_def dct_consts CENTERJSAMPLE_def DESCALE_def algebra_simps del: One_nat_def)

lemma fdct_15x15_col_pass:
  "fdct_pass fdct_15x15_col (\<lambda>a j. a j - 0) (map (scaled_half 16 cols_15_16_halved) cols_15_16) 16 15 1921 39359 279630"
  by (rule fdct_pass_half [OF fdct_15x15_col_sums cols_15_16_fits])

interpretation f15x15: fdct_pair fdct_15x15_row fdct_15x15_col
    "(map (scaled_half 14 rows_15_14_halved) rows_15_14)" 14 15 "13985" 245760 "(map (scaled_half 16 cols_15_16_halved) cols_15_16)" 16 15 1921 "39359" 279630
    "(real_of_int 16384 / real_of_int 1)" "((real_of_int 154 + 8) / 100)" "(real_of_int 4194304 / real_of_int 225)" "((real_of_int 285 + 8) / 100)"
  by (intro fdct_pair.intro fdct_pair_axioms.intro fdct_15x15_row_pass fdct_15x15_col_pass frequencies_near [OF rows_15_14_ok] frequencies_near [OF cols_15_16_ok])
    (simp add: fdct_budget_def)

lemma jpeg_fdct_15x15_transforms:
  assumes "block_samples 15 15 sample_data start_col = Some samples"
  shows "\<exists>data. jpeg_fdct_15x15 sample_data start_col = Some data \<and> transformed 15 15 samples data"
  using assms f15x15.transforms [OF block_samples_range [OF assms]] by (simp add: jpeg_fdct_15x15_def)


section \<open>16x16 samples\<close>

definition fdct_16x16_row :: "(nat \<Rightarrow> int) \<Rightarrow> int list" where
  "fdct_16x16_row el =
    (let tmp0 = el 0 + el 15;
         tmp1 = el 1 + el 14;
         tmp2 = el 2 + el 13;
         tmp3 = el 3 + el 12;
         tmp4 = el 4 + el 11;
         tmp5 = el 5 + el 10;
         tmp6 = el 6 + el 9;
         tmp7 = el 7 + el 8;
         tmp10 = tmp0 + tmp7;
         tmp14 = tmp0 - tmp7;
         tmp11 = tmp1 + tmp6;
         tmp15 = tmp1 - tmp6;
         tmp12 = tmp2 + tmp5;
         tmp16 = tmp2 - tmp5;
         tmp13 = tmp3 + tmp4;
         tmp17 = tmp3 - tmp4;
         tmp0 = el 0 - el 15;
         tmp1 = el 1 - el 14;
         tmp2 = el 2 - el 13;
         tmp3 = el 3 - el 12;
         tmp4 = el 4 - el 11;
         tmp5 = el 5 - el 10;
         tmp6 = el 6 - el 9;
         tmp7 = el 7 - el 8;
         out0 = s32 ((tmp10 + tmp11 + tmp12 + tmp13 - 16 * CENTERJSAMPLE) * 2 ^ PASS1_BITS);
         out4 = DESCALE ((tmp10 - tmp13) * FIX13 9 1306562965 + (tmp11 - tmp12) * FIX_0_541196100) (CONST_BITS - PASS1_BITS);
         tmp10 = (tmp17 - tmp15) * FIX13 9 275899379 + (tmp14 - tmp16) * FIX13 9 1387039845;
         out2 = DESCALE (tmp10 + tmp15 * FIX13 9 1451774982 + tmp16 * FIX13 9 2172734804) (CONST_BITS - PASS1_BITS);
         out6 = DESCALE (tmp10 - tmp14 * FIX13 9 211164243 - tmp17 * FIX13 9 1061594338) (CONST_BITS - PASS1_BITS);
         tmp11 = (tmp0 + tmp1) * FIX13 9 1353318001 + (tmp6 - tmp7) * FIX13 9 410524528;
         tmp12 = (tmp0 + tmp2) * FIX13 9 1247225013 + (tmp5 + tmp7) * FIX13 9 666655658;
         tmp13 = (tmp0 + tmp3) * FIX13 9 1093201867 + (tmp4 - tmp7) * FIX13 9 897167586;
         tmp14 = (tmp1 + tmp2) * FIX13 9 138617169 + (tmp6 - tmp5) * FIX13 9 1407403738;
         tmp15 = (tmp1 + tmp3) * (- FIX13 9 666655658) + (tmp4 + tmp6) * (- FIX13 9 1247225013);
         tmp16 = (tmp2 + tmp3) * (- FIX13 9 1353318001) + (tmp5 - tmp4) * FIX13 9 410524528;
         tmp10 = tmp11 + tmp12 + tmp13 - tmp0 * FIX13 9 2286341144 + tmp7 * FIX13 9 779653625;
         tmp11 = tmp11 + (tmp14 + tmp15 + tmp1 * FIX13 9 71888074 - tmp6 * FIX13 9 1663905119);
         tmp12 = tmp12 + (tmp14 + tmp16 - tmp2 * FIX13 9 1125726048 + tmp5 * FIX13 9 1227391138);
         tmp13 = tmp13 + (tmp15 + tmp16 + tmp3 * FIX13 9 1065388962 + tmp4 * FIX13 9 2167985692);
         out1 = DESCALE tmp10 (CONST_BITS - PASS1_BITS);
         out3 = DESCALE tmp11 (CONST_BITS - PASS1_BITS);
         out5 = DESCALE tmp12 (CONST_BITS - PASS1_BITS);
         out7 = DESCALE tmp13 (CONST_BITS - PASS1_BITS)
     in [out0, out1, out2, out3, out4, out5, out6, out7])"

definition fdct_16x16_col :: "(nat \<Rightarrow> int) \<Rightarrow> int list" where
  "fdct_16x16_col dat =
    (let tmp0 = dat 0 + dat 15;
         tmp1 = dat 1 + dat 14;
         tmp2 = dat 2 + dat 13;
         tmp3 = dat 3 + dat 12;
         tmp4 = dat 4 + dat 11;
         tmp5 = dat 5 + dat 10;
         tmp6 = dat 6 + dat 9;
         tmp7 = dat 7 + dat 8;
         tmp10 = tmp0 + tmp7;
         tmp14 = tmp0 - tmp7;
         tmp11 = tmp1 + tmp6;
         tmp15 = tmp1 - tmp6;
         tmp12 = tmp2 + tmp5;
         tmp16 = tmp2 - tmp5;
         tmp13 = tmp3 + tmp4;
         tmp17 = tmp3 - tmp4;
         tmp0 = dat 0 - dat 15;
         tmp1 = dat 1 - dat 14;
         tmp2 = dat 2 - dat 13;
         tmp3 = dat 3 - dat 12;
         tmp4 = dat 4 - dat 11;
         tmp5 = dat 5 - dat 10;
         tmp6 = dat 6 - dat 9;
         tmp7 = dat 7 - dat 8;
         out0 = DESCALE (tmp10 + tmp11 + tmp12 + tmp13) (PASS1_BITS + 2);
         out4 = DESCALE ((tmp10 - tmp13) * FIX13 9 1306562965 + (tmp11 - tmp12) * FIX_0_541196100) (CONST_BITS + PASS1_BITS + 2);
         tmp10 = (tmp17 - tmp15) * FIX13 9 275899379 + (tmp14 - tmp16) * FIX13 9 1387039845;
         out2 = DESCALE (tmp10 + tmp15 * FIX13 9 1451774982 + tmp16 * FIX13 9 2172734804) (CONST_BITS + PASS1_BITS + 2);
         out6 = DESCALE (tmp10 - tmp14 * FIX13 9 211164243 - tmp17 * FIX13 9 1061594338) (CONST_BITS + PASS1_BITS + 2);
         tmp11 = (tmp0 + tmp1) * FIX13 9 1353318001 + (tmp6 - tmp7) * FIX13 9 410524528;
         tmp12 = (tmp0 + tmp2) * FIX13 9 1247225013 + (tmp5 + tmp7) * FIX13 9 666655658;
         tmp13 = (tmp0 + tmp3) * FIX13 9 1093201867 + (tmp4 - tmp7) * FIX13 9 897167586;
         tmp14 = (tmp1 + tmp2) * FIX13 9 138617169 + (tmp6 - tmp5) * FIX13 9 1407403738;
         tmp15 = (tmp1 + tmp3) * (- FIX13 9 666655658) + (tmp4 + tmp6) * (- FIX13 9 1247225013);
         tmp16 = (tmp2 + tmp3) * (- FIX13 9 1353318001) + (tmp5 - tmp4) * FIX13 9 410524528;
         tmp10 = tmp11 + tmp12 + tmp13 - tmp0 * FIX13 9 2286341144 + tmp7 * FIX13 9 779653625;
         tmp11 = tmp11 + (tmp14 + tmp15 + tmp1 * FIX13 9 71888074 - tmp6 * FIX13 9 1663905119);
         tmp12 = tmp12 + (tmp14 + tmp16 - tmp2 * FIX13 9 1125726048 + tmp5 * FIX13 9 1227391138);
         tmp13 = tmp13 + (tmp15 + tmp16 + tmp3 * FIX13 9 1065388962 + tmp4 * FIX13 9 2167985692);
         out1 = DESCALE tmp10 (CONST_BITS + PASS1_BITS + 2);
         out3 = DESCALE tmp11 (CONST_BITS + PASS1_BITS + 2);
         out5 = DESCALE tmp12 (CONST_BITS + PASS1_BITS + 2);
         out7 = DESCALE tmp13 (CONST_BITS + PASS1_BITS + 2)
     in [out0, out1, out2, out3, out4, out5, out6, out7])"

definition jpeg_fdct_16x16 :: "samparray \<Rightarrow> nat \<Rightarrow> int list option" where
  "jpeg_fdct_16x16 sample_data start_col =
     map_option (fdct_passes 16 16 fdct_16x16_row fdct_16x16_col) (block_samples 16 16 sample_data start_col)"

lemma fdct_16x16_row_sums: "fdct_16x16_row el = map (fdct_output el) rows_16_11"
  unfolding fdct_16x16_row_def rows_16_11_def list.map
  by (simp add: fdct_output_def Let_def dct_consts CENTERJSAMPLE_def DESCALE_def algebra_simps del: One_nat_def)

lemma fdct_16x16_row_pass:
  "fdct_pass fdct_16x16_row (\<lambda>a j. a j - 128) (map (scaled 11) rows_16_11) 11 16 128 (2 ^ 11 div 2) 131072"
  by (rule fdct_pass_outputs [OF fdct_16x16_row_sums rows_16_11_fits])

lemma fdct_16x16_col_sums: "fdct_16x16_col dat = map (fdct_output dat) cols_16_17"
  unfolding fdct_16x16_col_def cols_16_17_def list.map
  by (simp add: fdct_output_def Let_def dct_consts CENTERJSAMPLE_def DESCALE_def algebra_simps del: One_nat_def)

lemma fdct_16x16_col_pass:
  "fdct_pass fdct_16x16_col (\<lambda>a j. a j - 0) (map (scaled 17) cols_16_17) 17 16 8193 (2 ^ 17 div 2) 131072"
  by (rule fdct_pass_outputs [OF fdct_16x16_col_sums cols_16_17_fits])

interpretation f16x16: fdct_pair fdct_16x16_row fdct_16x16_col
    "(map (scaled 11) rows_16_11)" 11 16 "(2 ^ 11 div 2)" 131072 "(map (scaled 17) cols_16_17)" 17 16 8193 "(2 ^ 17 div 2)" 131072
    "(real_of_int 8192 / real_of_int 1)" "((real_of_int 146 + 8) / 100)" "(real_of_int 8192 / real_of_int 1)" "((real_of_int 146 + 8) / 100)"
  by (intro fdct_pair.intro fdct_pair_axioms.intro fdct_16x16_row_pass fdct_16x16_col_pass frequencies_near [OF rows_16_11_ok] frequencies_near [OF cols_16_17_ok])
    (simp add: fdct_budget_def)

lemma jpeg_fdct_16x16_transforms:
  assumes "block_samples 16 16 sample_data start_col = Some samples"
  shows "\<exists>data. jpeg_fdct_16x16 sample_data start_col = Some data \<and> transformed 16 16 samples data"
  using assms f16x16.transforms [OF block_samples_range [OF assms]] by (simp add: jpeg_fdct_16x16_def)

end
