(* ===== verification/FdctWide.thy ===== *)
theory FdctWide
  imports FdctKernels
begin

text \<open>
  The forward DCT routines of \<open>jpeg-9a/jfdctint.c\<close> for the blocks twice as wide as high.
  \<open>fdct_NxM_row\<close> is the body of pass 1 of \<open>jpeg_fdct_NxM\<close>, for the row of samples \<open>el\<close>, and
  \<open>fdct_NxM_col\<close> the body of pass 2, for the column \<open>dat\<close> of what pass 1 leaves.
\<close>

section \<open>16x8 samples\<close>

definition fdct_16x8_row :: "(nat \<Rightarrow> int) \<Rightarrow> int list" where
  "fdct_16x8_row el =
    (let tmp0 = el 0 + el 15;
         tmp1 = el 1 + el 14;
         tmp2 = el 2 + el 13;
         tmp3 = el 3 + el 12;
         tmp4 = el 4 + el 11;
         tmp5 = el 5 + el 10;
         tmp6 = el 6 + el 9;
         tmp7 = el 7 + el 8;
         tmp10 = tmp0 + tmp7;
         tmp14 = tmp0 - tmp7;
         tmp11 = tmp1 + tmp6;
         tmp15 = tmp1 - tmp6;
         tmp12 = tmp2 + tmp5;
         tmp16 = tmp2 - tmp5;
         tmp13 = tmp3 + tmp4;
         tmp17 = tmp3 - tmp4;
         tmp0 = el 0 - el 15;
         tmp1 = el 1 - el 14;
         tmp2 = el 2 - el 13;
         tmp3 = el 3 - el 12;
         tmp4 = el 4 - el 11;
         tmp5 = el 5 - el 10;
         tmp6 = el 6 - el 9;
         tmp7 = el 7 - el 8;
         out0 = s32 ((tmp10 + tmp11 + tmp12 + tmp13 - 16 * CENTERJSAMPLE) * 2 ^ PASS1_BITS);
         out4 = DESCALE ((tmp10 - tmp13) * FIX13 9 1306562965 + (tmp11 - tmp12) * FIX_0_541196100) (CONST_BITS - PASS1_BITS);
         tmp10 = (tmp17 - tmp15) * FIX13 9 275899379 + (tmp14 - tmp16) * FIX13 9 1387039845;
         out2 = DESCALE (tmp10 + tmp15 * FIX13 9 1451774982 + tmp16 * FIX13 9 2172734804) (CONST_BITS - PASS1_BITS);
         out6 = DESCALE (tmp10 - tmp14 * FIX13 9 211164243 - tmp17 * FIX13 9 1061594338) (CONST_BITS - PASS1_BITS);
         tmp11 = (tmp0 + tmp1) * FIX13 9 1353318001 + (tmp6 - tmp7) * FIX13 9 410524528;
         tmp12 = (tmp0 + tmp2) * FIX13 9 1247225013 + (tmp5 + tmp7) * FIX13 9 666655658;
         tmp13 = (tmp0 + tmp3) * FIX13 9 1093201867 + (tmp4 - tmp7) * FIX13 9 897167586;
         tmp14 = (tmp1 + tmp2) * FIX13 9 138617169 + (tmp6 - tmp5) * FIX13 9 1407403738;
         tmp15 = (tmp1 + tmp3) * (- FIX13 9 666655658) + (tmp4 + tmp6) * (- FIX13 9 1247225013);
         tmp16 = (tmp2 + tmp3) * (- FIX13 9 1353318001) + (tmp5 - tmp4) * FIX13 9 410524528;
         tmp10 = tmp11 + tmp12 + tmp13 - tmp0 * FIX13 9 2286341144 + tmp7 * FIX13 9 779653625;
         tmp11 = tmp11 + (tmp14 + tmp15 + tmp1 * FIX13 9 71888074 - tmp6 * FIX13 9 1663905119);
         tmp12 = tmp12 + (tmp14 + tmp16 - tmp2 * FIX13 9 1125726048 + tmp5 * FIX13 9 1227391138);
         tmp13 = tmp13 + (tmp15 + tmp16 + tmp3 * FIX13 9 1065388962 + tmp4 * FIX13 9 2167985692);
         out1 = DESCALE tmp10 (CONST_BITS - PASS1_BITS);
         out3 = DESCALE tmp11 (CONST_BITS - PASS1_BITS);
         out5 = DESCALE tmp12 (CONST_BITS - PASS1_BITS);
         out7 = DESCALE tmp13 (CONST_BITS - PASS1_BITS)
     in [out0, out1, out2, out3, out4, out5, out6, out7])"

definition fdct_16x8_col :: "(nat \<Rightarrow> int) \<Rightarrow> int list" where
  "fdct_16x8_col dat =
    (let tmp0 = dat 0 + dat 7;
         tmp1 = dat 1 + dat 6;
         tmp2 = dat 2 + dat 5;
         tmp3 = dat 3 + dat 4;
         tmp10 = tmp0 + tmp3;
         tmp12 = tmp0 - tmp3;
         tmp11 = tmp1 + tmp2;
         tmp13 = tmp1 - tmp2;
         tmp0 = dat 0 - dat 7;
         tmp1 = dat 1 - dat 6;
         tmp2 = dat 2 - dat 5;
         tmp3 = dat 3 - dat 4;
         out0 = DESCALE (tmp10 + tmp11) (PASS1_BITS + 1);
         out4 = DESCALE (tmp10 - tmp11) (PASS1_BITS + 1);
         z1 = (tmp12 + tmp13) * FIX_0_541196100;
         out2 = DESCALE (z1 + tmp12 * FIX_0_765366865) (CONST_BITS + PASS1_BITS + 1);
         out6 = DESCALE (z1 - tmp13 * FIX_1_847759065) (CONST_BITS + PASS1_BITS + 1);
         tmp12 = tmp0 + tmp2;
         tmp13 = tmp1 + tmp3;
         z1 = (tmp12 + tmp13) * FIX_1_175875602;
         tmp12 = tmp12 * (- FIX_0_390180644);
         tmp13 = tmp13 * (- FIX_1_961570560);
         tmp12 = tmp12 + z1;
         tmp13 = tmp13 + z1;
         z1 = (tmp0 + tmp3) * (- FIX_0_899976223);
         tmp0 = tmp0 * FIX_1_501321110;
         tmp3 = tmp3 * FIX_0_298631336;
         tmp0 = tmp0 + (z1 + tmp12);
         tmp3 = tmp3 + (z1 + tmp13);
         z1 = (tmp1 + tmp2) * (- FIX_2_562915447);
         tmp1 = tmp1 * FIX_3_072711026;
         tmp2 = tmp2 * FIX_2_053119869;
         tmp1 = tmp1 + (z1 + tmp13);
         tmp2 = tmp2 + (z1 + tmp12);
         out1 = DESCALE tmp0 (CONST_BITS + PASS1_BITS + 1);
         out3 = DESCALE tmp1 (CONST_BITS + PASS1_BITS + 1);
         out5 = DESCALE tmp2 (CONST_BITS + PASS1_BITS + 1);
         out7 = DESCALE tmp3 (CONST_BITS + PASS1_BITS + 1)
     in [out0, out1, out2, out3, out4, out5, out6, out7])"

definition jpeg_fdct_16x8 :: "samparray \<Rightarrow> nat \<Rightarrow> int list option" where
  "jpeg_fdct_16x8 sample_data start_col =
     map_option (fdct_passes 8 16 fdct_16x8_row fdct_16x8_col) (block_samples 8 16 sample_data start_col)"

lemma fdct_16x8_row_sums: "fdct_16x8_row el = map (fdct_output el) rows_16_11"
  unfolding fdct_16x8_row_def rows_16_11_def list.map
  by (simp add: fdct_output_def Let_def dct_consts CENTERJSAMPLE_def DESCALE_def algebra_simps del: One_nat_def)

lemma fdct_16x8_row_pass:
  "fdct_pass fdct_16x8_row (\<lambda>a j. a j - 128) (map (scaled 11) rows_16_11) 11 16 128 (2 ^ 11 div 2) 131072"
  by (rule fdct_pass_outputs [OF fdct_16x8_row_sums rows_16_11_fits])

lemma fdct_16x8_col_sums: "fdct_16x8_col dat = map (fdct_output dat) cols_8_16"
  unfolding fdct_16x8_col_def cols_8_16_def list.map
  by (simp add: fdct_output_def Let_def dct_consts CENTERJSAMPLE_def DESCALE_def algebra_simps del: One_nat_def)

lemma fdct_16x8_col_pass:
  "fdct_pass fdct_16x8_col (\<lambda>a j. a j - 0) (map (scaled 16) cols_8_16) 16 8 8193 (2 ^ 16 div 2) 65536"
  by (rule fdct_pass_outputs [OF fdct_16x8_col_sums cols_8_16_fits])

interpretation f16x8: fdct_pair fdct_16x8_row fdct_16x8_col
    "(map (scaled 11) rows_16_11)" 11 16 "(2 ^ 11 div 2)" 131072 "(map (scaled 16) cols_8_16)" 16 8 8193 "(2 ^ 16 div 2)" 65536
    "(real_of_int 8192 / real_of_int 1)" "((real_of_int 146 + 8) / 100)" "(real_of_int 8192 / real_of_int 1)" "((real_of_int 117 + 8) / 100)"
  by (intro fdct_pair.intro fdct_pair_axioms.intro fdct_16x8_row_pass fdct_16x8_col_pass frequencies_near [OF rows_16_11_ok] frequencies_near [OF cols_8_16_ok])
    (simp add: fdct_budget_def)

lemma jpeg_fdct_16x8_transforms:
  assumes "block_samples 8 16 sample_data start_col = Some samples"
  shows "\<exists>data. jpeg_fdct_16x8 sample_data start_col = Some data \<and> transformed 8 16 samples data"
  using assms f16x8.transforms [OF block_samples_range [OF assms]] by (simp add: jpeg_fdct_16x8_def)


section \<open>14x7 samples\<close>

definition fdct_14x7_row :: "(nat \<Rightarrow> int) \<Rightarrow> int list" where
  "fdct_14x7_row el =
    (let tmp0 = el 0 + el 13;
         tmp1 = el 1 + el 12;
         tmp2 = el 2 + el 11;
         tmp13 = el 3 + el 10;
         tmp4 = el 4 + el 9;
         tmp5 = el 5 + el 8;
         tmp6 = el 6 + el 7;
         tmp10 = tmp0 + tmp6;
         tmp14 = tmp0 - tmp6;
         tmp11 = tmp1 + tmp5;
         tmp15 = tmp1 - tmp5;
         tmp12 = tmp2 + tmp4;
         tmp16 = tmp2 - tmp4;
         tmp0 = el 0 - el 13;
         tmp1 = el 1 - el 12;
         tmp2 = el 2 - el 11;
         tmp3 = el 3 - el 10;
         tmp4 = el 4 - el 9;
         tmp5 = el 5 - el 8;
         tmp6 = el 6 - el 7;
         out0 = s32 ((tmp10 + tmp11 + tmp12 + tmp13 - 14 * CENTERJSAMPLE) * 2 ^ PASS1_BITS);
         tmp13 = tmp13 + tmp13;
         out4 = DESCALE ((tmp10 - tmp13) * FIX13 9 1274162392 + (tmp11 - tmp13) * FIX13 9 314692123 - (tmp12 - tmp13) * FIX13 9 881747734) (CONST_BITS - PASS1_BITS);
         tmp10 = (tmp14 + tmp15) * FIX13 9 1105676686;
         out2 = DESCALE (tmp10 + tmp14 * FIX13 9 273079590 + tmp16 * FIX13 9 613604268) (CONST_BITS - PASS1_BITS);
         out6 = DESCALE (tmp10 - tmp15 * FIX13 9 1719280954 - tmp16 * FIX13 9 1378756276) (CONST_BITS - PASS1_BITS);
         tmp10 = tmp1 + tmp2;
         tmp11 = tmp5 - tmp4;
         out7 = s32 ((tmp0 - tmp10 + tmp3 - tmp11 - tmp6) * 2 ^ PASS1_BITS);
         tmp3 = tmp3 * 2 ^ CONST_BITS;
         tmp10 = tmp10 * (- FIX13 9 158341681);
         tmp11 = tmp11 * FIX13 9 1405321284;
         tmp10 = tmp10 + (tmp11 - tmp3);
         tmp11 = (tmp0 + tmp2) * FIX13 9 1197448846 + (tmp4 + tmp6) * FIX13 9 752406978;
         out5 = DESCALE (tmp10 + tmp11 - tmp2 * FIX13 9 2373959773 + tmp4 * FIX13 9 1119999435) (CONST_BITS - PASS1_BITS);
         tmp12 = (tmp0 + tmp1) * FIX13 9 1334852607 + (tmp5 - tmp6) * FIX13 9 467085129;
         out3 = DESCALE (tmp10 + tmp12 - tmp1 * FIX13 9 424103948 - tmp5 * FIX13 9 3069855259) (CONST_BITS - PASS1_BITS);
         out1 = DESCALE (tmp11 + tmp12 + tmp3 + tmp6 - (tmp0 + tmp6) * FIX13 9 1126980169) (CONST_BITS - PASS1_BITS)
     in [out0, out1, out2, out3, out4, out5, out6, out7])"

definition fdct_14x7_col :: "(nat \<Rightarrow> int) \<Rightarrow> int list" where
  "fdct_14x7_col dat =
    (let tmp0 = dat 0 + dat 6;
         tmp1 = dat 1 + dat 5;
         tmp2 = dat 2 + dat 4;
         tmp3 = dat 3;
         tmp10 = dat 0 - dat 6;
         tmp11 = dat 1 - dat 5;
         tmp12 = dat 2 - dat 4;
         z1 = tmp0 + tmp2;
         out0 = DESCALE ((z1 + tmp1 + tmp3) * FIX13 9 1306122449) (CONST_BITS + PASS1_BITS + 1);
         tmp3 = tmp3 + tmp3;
         z1 = z1 - tmp3;
         z1 = z1 - tmp3;
         z1 = z1 * FIX13 9 461784020;
         z2 = (tmp0 - tmp2) * FIX13 9 1202428084;
         z3 = (tmp1 - tmp2) * FIX13 9 411026446;
         out2 = DESCALE (z1 + z2 + z3) (CONST_BITS + PASS1_BITS + 1);
         z1 = z1 - z2;
         z2 = (tmp0 - tmp1) * FIX13 9 1151670509;
         out4 = DESCALE (z2 + z3 - (tmp1 - tmp3) * FIX13 9 923568041) (CONST_BITS + PASS1_BITS + 1);
         out6 = DESCALE (z1 + z2) (CONST_BITS + PASS1_BITS + 1);
         tmp1 = (tmp10 + tmp11) * FIX13 9 1221765677;
         tmp2 = (tmp10 - tmp11) * FIX13 9 222383464;
         tmp0 = tmp1 - tmp2;
         tmp1 = tmp1 + tmp2;
         tmp2 = (tmp11 + tmp12) * (- FIX13 9 1800824523);
         tmp1 = tmp1 + tmp2;
         tmp3 = (tmp10 + tmp12) * FIX13 9 801442310;
         tmp0 = tmp0 + tmp3;
         tmp2 = tmp2 + (tmp3 + tmp12 * FIX13 9 2443531355);
         out1 = DESCALE tmp0 (CONST_BITS + PASS1_BITS + 1);
         out3 = DESCALE tmp1 (CONST_BITS + PASS1_BITS + 1);
         out5 = DESCALE tmp2 (CONST_BITS + PASS1_BITS + 1)
     in [out0, out1, out2, out3, out4, out5, out6])"

definition jpeg_fdct_14x7 :: "samparray \<Rightarrow> nat \<Rightarrow> int list option" where
  "jpeg_fdct_14x7 sample_data start_col =
     map_option (fdct_passes 7 14 fdct_14x7_row fdct_14x7_col) (block_samples 7 14 sample_data start_col)"

lemma fdct_14x7_row_sums: "fdct_14x7_row el = map (fdct_output el) rows_14_11"
  unfolding fdct_14x7_row_def rows_14_11_def list.map
  by (simp add: fdct_output_def Let_def dct_consts CENTERJSAMPLE_def DESCALE_def algebra_simps del: One_nat_def)

lemma fdct_14x7_col_sums: "fdct_14x7_col dat = map (fdct_output dat) cols_7_16"
  unfolding fdct_14x7_col_def cols_7_16_def list.map
  by (simp add: fdct_output_def Let_def dct_consts CENTERJSAMPLE_def DESCALE_def algebra_simps del: One_nat_def)


section \<open>12x6 samples\<close>

definition fdct_12x6_row :: "(nat \<Rightarrow> int) \<Rightarrow> int list" where
  "fdct_12x6_row el =
    (let tmp0 = el 0 + el 11;
         tmp1 = el 1 + el 10;
         tmp2 = el 2 + el 9;
         tmp3 = el 3 + el 8;
         tmp4 = el 4 + el 7;
         tmp5 = el 5 + el 6;
         tmp10 = tmp0 + tmp5;
         tmp13 = tmp0 - tmp5;
         tmp11 = tmp1 + tmp4;
         tmp14 = tmp1 - tmp4;
         tmp12 = tmp2 + tmp3;
         tmp15 = tmp2 - tmp3;
         tmp0 = el 0 - el 11;
         tmp1 = el 1 - el 10;
         tmp2 = el 2 - el 9;
         tmp3 = el 3 - el 8;
         tmp4 = el 4 - el 7;
         tmp5 = el 5 - el 6;
         out0 = s32 ((tmp10 + tmp11 + tmp12 - 12 * CENTERJSAMPLE) * 2 ^ PASS1_BITS);
         out6 = s32 ((tmp13 - tmp14 - tmp15) * 2 ^ PASS1_BITS);
         out4 = DESCALE ((tmp10 - tmp12) * FIX13 9 1224744871) (CONST_BITS - PASS1_BITS);
         out2 = DESCALE (tmp14 - tmp15 + (tmp13 + tmp15) * FIX13 9 1366025404) (CONST_BITS - PASS1_BITS);
         tmp10 = (tmp1 + tmp4) * FIX_0_541196100;
         tmp14 = tmp10 + tmp1 * FIX_0_765366865;
         tmp15 = tmp10 - tmp4 * FIX_1_847759065;
         tmp12 = (tmp0 + tmp2) * FIX13 9 1121971054;
         tmp13 = (tmp0 + tmp3) * FIX13 9 860918669;
         tmp10 = tmp12 + tmp13 + tmp14 - tmp0 * FIX13 9 580774953 + tmp5 * FIX13 9 184591911;
         tmp11 = (tmp2 + tmp3) * (- FIX13 9 184591911);
         tmp12 = tmp12 + (tmp11 - tmp15 - tmp2 * FIX13 9 2339493912 + tmp5 * FIX13 9 860918669);
         tmp13 = tmp13 + (tmp11 - tmp14 + tmp3 * FIX13 9 725788011 - tmp5 * FIX13 9 1121971054);
         tmp11 = tmp15 + (tmp0 - tmp3) * FIX13 9 1306562965 - (tmp2 + tmp5) * FIX_0_541196100;
         out1 = DESCALE tmp10 (CONST_BITS - PASS1_BITS);
         out3 = DESCALE tmp11 (CONST_BITS - PASS1_BITS);
         out5 = DESCALE tmp12 (CONST_BITS - PASS1_BITS);
         out7 = DESCALE tmp13 (CONST_BITS - PASS1_BITS)
     in [out0, out1, out2, out3, out4, out5, out6, out7])"

definition fdct_12x6_col :: "(nat \<Rightarrow> int) \<Rightarrow> int list" where
  "fdct_12x6_col dat =
    (let tmp0 = dat 0 + dat 5;
         tmp11 = dat 1 + dat 4;
         tmp2 = dat 2 + dat 3;
         tmp10 = tmp0 + tmp2;
         tmp12 = tmp0 - tmp2;
         tmp0 = dat 0 - dat 5;
         tmp1 = dat 1 - dat 4;
         tmp2 = dat 2 - dat 3;
         out0 = DESCALE ((tmp10 + tmp11) * FIX13 9 1777777778) (CONST_BITS + PASS1_BITS + 1);
         out2 = DESCALE (tmp12 * FIX13 9 2177324216) (CONST_BITS + PASS1_BITS + 1);
         out4 = DESCALE ((tmp10 - tmp11 - tmp11) * FIX13 9 1257078722) (CONST_BITS + PASS1_BITS + 1);
         tmp10 = (tmp0 + tmp2) * FIX13 9 650711829;
         out1 = DESCALE (tmp10 + (tmp0 + tmp1) * FIX13 9 1777777778) (CONST_BITS + PASS1_BITS + 1);
         out3 = DESCALE ((tmp0 - tmp1 - tmp2) * FIX13 9 1777777778) (CONST_BITS + PASS1_BITS + 1);
         out5 = DESCALE (tmp10 + (tmp2 - tmp1) * FIX13 9 1777777778) (CONST_BITS + PASS1_BITS + 1)
     in [out0, out1, out2, out3, out4, out5])"

definition jpeg_fdct_12x6 :: "samparray \<Rightarrow> nat \<Rightarrow> int list option" where
  "jpeg_fdct_12x6 sample_data start_col =
     map_option (fdct_passes 6 12 fdct_12x6_row fdct_12x6_col) (block_samples 6 12 sample_data start_col)"

lemma fdct_12x6_row_sums: "fdct_12x6_row el = map (fdct_output el) rows_12_11"
  unfolding fdct_12x6_row_def rows_12_11_def list.map
  by (simp add: fdct_output_def Let_def dct_consts CENTERJSAMPLE_def DESCALE_def algebra_simps del: One_nat_def)

lemma fdct_12x6_col_sums: "fdct_12x6_col dat = map (fdct_output dat) cols_6_16"
  unfolding fdct_12x6_col_def cols_6_16_def list.map
  by (simp add: fdct_output_def Let_def dct_consts CENTERJSAMPLE_def DESCALE_def algebra_simps del: One_nat_def)


section \<open>10x5 samples\<close>

definition fdct_10x5_row :: "(nat \<Rightarrow> int) \<Rightarrow> int list" where
  "fdct_10x5_row el =
    (let tmp0 = el 0 + el 9;
         tmp1 = el 1 + el 8;
         tmp12 = el 2 + el 7;
         tmp3 = el 3 + el 6;
         tmp4 = el 4 + el 5;
         tmp10 = tmp0 + tmp4;
         tmp13 = tmp0 - tmp4;
         tmp11 = tmp1 + tmp3;
         tmp14 = tmp1 - tmp3;
         tmp0 = el 0 - el 9;
         tmp1 = el 1 - el 8;
         tmp2 = el 2 - el 7;
         tmp3 = el 3 - el 6;
         tmp4 = el 4 - el 5;
         out0 = s32 ((tmp10 + tmp11 + tmp12 - 10 * CENTERJSAMPLE) * 2 ^ PASS1_BITS);
         tmp12 = tmp12 + tmp12;
         out4 = DESCALE ((tmp10 - tmp12) * FIX13 9 1144122806 - (tmp11 - tmp12) * FIX13 9 437016024) (CONST_BITS - PASS1_BITS);
         tmp10 = (tmp13 + tmp14) * FIX13 9 831253876;
         out2 = DESCALE (tmp10 + tmp13 * FIX13 9 513743148) (CONST_BITS - PASS1_BITS);
         out6 = DESCALE (tmp10 - tmp14 * FIX13 9 2176250899) (CONST_BITS - PASS1_BITS);
         tmp10 = tmp0 + tmp4;
         tmp11 = tmp1 - tmp3;
         out5 = s32 ((tmp10 - tmp11 - tmp2) * 2 ^ PASS1_BITS);
         tmp2 = tmp2 * 2 ^ CONST_BITS;
         out1 = DESCALE (tmp0 * FIX13 9 1396802247 + tmp1 * FIX13 9 1260073511 + tmp2 + tmp3 * FIX13 9 642039522 + tmp4 * FIX13 9 221231742) (CONST_BITS - PASS1_BITS);
         tmp12 = (tmp0 - tmp4) * FIX13 9 951056516 - (tmp1 + tmp3) * FIX13 9 587785252;
         tmp13 = (tmp10 + tmp11) * FIX13 9 309016994 + tmp11 * 2 ^ (CONST_BITS - 1) - tmp2;
         out3 = DESCALE (tmp12 + tmp13) (CONST_BITS - PASS1_BITS);
         out7 = DESCALE (tmp12 - tmp13) (CONST_BITS - PASS1_BITS)
     in [out0, out1, out2, out3, out4, out5, out6, out7])"

definition fdct_10x5_col :: "(nat \<Rightarrow> int) \<Rightarrow> int list" where
  "fdct_10x5_col dat =
    (let tmp0 = dat 0 + dat 4;
         tmp1 = dat 1 + dat 3;
         tmp2 = dat 2;
         tmp10 = tmp0 + tmp1;
         tmp11 = tmp0 - tmp1;
         tmp0 = dat 0 - dat 4;
         tmp1 = dat 1 - dat 3;
         out0 = DESCALE ((tmp10 + tmp2) * FIX13 2 128) (CONST_BITS + PASS1_BITS);
         tmp11 = tmp11 * FIX13 9 1011928851;
         tmp10 = tmp10 - tmp2 * 2 ^ 2;
         tmp10 = tmp10 * FIX13 9 452548340;
         out2 = DESCALE (tmp11 + tmp10) (CONST_BITS + PASS1_BITS);
         out4 = DESCALE (tmp11 - tmp10) (CONST_BITS + PASS1_BITS);
         tmp10 = (tmp0 + tmp1) * FIX13 9 1064004961;
         out1 = DESCALE (tmp10 + tmp0 * FIX13 9 657591230) (CONST_BITS + PASS1_BITS);
         out3 = DESCALE (tmp10 - tmp1 * FIX13 9 2785601151) (CONST_BITS + PASS1_BITS)
     in [out0, out1, out2, out3, out4])"

definition jpeg_fdct_10x5 :: "samparray \<Rightarrow> nat \<Rightarrow> int list option" where
  "jpeg_fdct_10x5 sample_data start_col =
     map_option (fdct_passes 5 10 fdct_10x5_row fdct_10x5_col) (block_samples 5 10 sample_data start_col)"

lemma fdct_10x5_row_sums: "fdct_10x5_row el = map (fdct_output el) rows_10_11"
  unfolding fdct_10x5_row_def rows_10_11_def list.map
  by (simp add: fdct_output_def Let_def dct_consts CENTERJSAMPLE_def DESCALE_def algebra_simps del: One_nat_def)

lemma fdct_10x5_row_pass:
  "fdct_pass fdct_10x5_row (\<lambda>a j. a j - 128) (map (scaled 11) rows_10_11) 11 10 128 (2 ^ 11 div 2) 81920"
  by (rule fdct_pass_outputs [OF fdct_10x5_row_sums rows_10_11_fits])

lemma fdct_10x5_col_sums: "fdct_10x5_col dat = map (fdct_output dat) cols_5_15"
  unfolding fdct_10x5_col_def cols_5_15_def list.map
  by (simp add: fdct_output_def Let_def dct_consts CENTERJSAMPLE_def DESCALE_def algebra_simps del: One_nat_def)

lemma fdct_10x5_col_pass:
  "fdct_pass fdct_10x5_col (\<lambda>a j. a j - 0) (map (scaled 15) cols_5_15) 15 5 5121 (2 ^ 15 div 2) 52430"
  by (rule fdct_pass_outputs [OF fdct_10x5_col_sums cols_5_15_fits])

interpretation f10x5: fdct_pair fdct_10x5_row fdct_10x5_col
    "(map (scaled 11) rows_10_11)" 11 10 "(2 ^ 11 div 2)" 81920 "(map (scaled 15) cols_5_15)" 15 5 5121 "(2 ^ 15 div 2)" 52430
    "(real_of_int 8192 / real_of_int 1)" "((real_of_int 79 + 8) / 100)" "(real_of_int 262144 / real_of_int 25)" "((real_of_int 110 + 8) / 100)"
  by (intro fdct_pair.intro fdct_pair_axioms.intro fdct_10x5_row_pass fdct_10x5_col_pass frequencies_near [OF rows_10_11_ok] frequencies_near [OF cols_5_15_ok])
    (simp add: fdct_budget_def)

lemma jpeg_fdct_10x5_transforms:
  assumes "block_samples 5 10 sample_data start_col = Some samples"
  shows "\<exists>data. jpeg_fdct_10x5 sample_data start_col = Some data \<and> transformed 5 10 samples data"
  using assms f10x5.transforms [OF block_samples_range [OF assms]] by (simp add: jpeg_fdct_10x5_def)


section \<open>8x4 samples\<close>

definition fdct_8x4_row :: "(nat \<Rightarrow> int) \<Rightarrow> int list" where
  "fdct_8x4_row el =
    (let tmp0 = el 0 + el 7;
         tmp1 = el 1 + el 6;
         tmp2 = el 2 + el 5;
         tmp3 = el 3 + el 4;
         tmp10 = tmp0 + tmp3;
         tmp12 = tmp0 - tmp3;
         tmp11 = tmp1 + tmp2;
         tmp13 = tmp1 - tmp2;
         tmp0 = el 0 - el 7;
         tmp1 = el 1 - el 6;
         tmp2 = el 2 - el 5;
         tmp3 = el 3 - el 4;
         out0 = s32 ((tmp10 + tmp11 - 8 * CENTERJSAMPLE) * 2 ^ (PASS1_BITS + 1));
         out4 = s32 ((tmp10 - tmp11) * 2 ^ (PASS1_BITS + 1));
         z1 = (tmp12 + tmp13) * FIX_0_541196100;
         z1 = z1 + 1 * 2 ^ (CONST_BITS - PASS1_BITS - 2);
         out2 = RIGHT_SHIFT (z1 + tmp12 * FIX_0_765366865) (CONST_BITS - PASS1_BITS - 1);
         out6 = RIGHT_SHIFT (z1 - tmp13 * FIX_1_847759065) (CONST_BITS - PASS1_BITS - 1);
         tmp12 = tmp0 + tmp2;
         tmp13 = tmp1 + tmp3;
         z1 = (tmp12 + tmp13) * FIX_1_175875602;
         z1 = z1 + 1 * 2 ^ (CONST_BITS - PASS1_BITS - 2);
         tmp12 = tmp12 * (- FIX_0_390180644);
         tmp13 = tmp13 * (- FIX_1_961570560);
         tmp12 = tmp12 + z1;
         tmp13 = tmp13 + z1;
         z1 = (tmp0 + tmp3) * (- FIX_0_899976223);
         tmp0 = tmp0 * FIX_1_501321110;
         tmp3 = tmp3 * FIX_0_298631336;
         tmp0 = tmp0 + (z1 + tmp12);
         tmp3 = tmp3 + (z1 + tmp13);
         z1 = (tmp1 + tmp2) * (- FIX_2_562915447);
         tmp1 = tmp1 * FIX_3_072711026;
         tmp2 = tmp2 * FIX_2_053119869;
         tmp1 = tmp1 + (z1 + tmp13);
         tmp2 = tmp2 + (z1 + tmp12);
         out1 = RIGHT_SHIFT tmp0 (CONST_BITS - PASS1_BITS - 1);
         out3 = RIGHT_SHIFT tmp1 (CONST_BITS - PASS1_BITS - 1);
         out5 = RIGHT_SHIFT tmp2 (CONST_BITS - PASS1_BITS - 1);
         out7 = RIGHT_SHIFT tmp3 (CONST_BITS - PASS1_BITS - 1)
     in [out0, out1, out2, out3, out4, out5, out6, out7])"

definition fdct_8x4_col :: "(nat \<Rightarrow> int) \<Rightarrow> int list" where
  "fdct_8x4_col dat =
    (let tmp0 = dat 0 + dat 3 + 1 * 2 ^ (PASS1_BITS - 1);
         tmp1 = dat 1 + dat 2;
         tmp10 = dat 0 - dat 3;
         tmp11 = dat 1 - dat 2;
         out0 = RIGHT_SHIFT (tmp0 + tmp1) PASS1_BITS;
         out2 = RIGHT_SHIFT (tmp0 - tmp1) PASS1_BITS;
         tmp0 = (tmp10 + tmp11) * FIX_0_541196100;
         tmp0 = tmp0 + 1 * 2 ^ (CONST_BITS + PASS1_BITS - 1);
         out1 = RIGHT_SHIFT (tmp0 + tmp10 * FIX_0_765366865) (CONST_BITS + PASS1_BITS);
         out3 = RIGHT_SHIFT (tmp0 - tmp11 * FIX_1_847759065) (CONST_BITS + PASS1_BITS)
     in [out0, out1, out2, out3])"

definition jpeg_fdct_8x4 :: "samparray \<Rightarrow> nat \<Rightarrow> int list option" where
  "jpeg_fdct_8x4 sample_data start_col =
     map_option (fdct_passes 4 8 fdct_8x4_row fdct_8x4_col) (block_samples 4 8 sample_data start_col)"

lemma fdct_8x4_row_sums: "fdct_8x4_row el = map (fdct_output el) rows_8_10"
  unfolding fdct_8x4_row_def rows_8_10_def list.map
  by (simp add: fdct_output_def Let_def dct_consts CENTERJSAMPLE_def DESCALE_def algebra_simps del: One_nat_def)

lemma fdct_8x4_row_pass:
  "fdct_pass fdct_8x4_row (\<lambda>a j. a j - 128) (map (scaled 10) rows_8_10) 10 8 128 (2 ^ 10 div 2) 65536"
  by (rule fdct_pass_outputs [OF fdct_8x4_row_sums rows_8_10_fits])

lemma fdct_8x4_col_sums: "fdct_8x4_col dat = map (fdct_output dat) cols_4_15"
  unfolding fdct_8x4_col_def cols_4_15_def list.map
  by (simp add: fdct_output_def Let_def dct_consts CENTERJSAMPLE_def DESCALE_def algebra_simps del: One_nat_def)

lemma fdct_8x4_col_pass:
  "fdct_pass fdct_8x4_col (\<lambda>a j. a j - 0) (map (scaled 15) cols_4_15) 15 4 8193 (2 ^ 15 div 2) 32768"
  by (rule fdct_pass_outputs [OF fdct_8x4_col_sums cols_4_15_fits])

interpretation f8x4: fdct_pair fdct_8x4_row fdct_8x4_col
    "(map (scaled 10) rows_8_10)" 10 8 "(2 ^ 10 div 2)" 65536 "(map (scaled 15) cols_4_15)" 15 4 8193 "(2 ^ 15 div 2)" 32768
    "(real_of_int 8192 / real_of_int 1)" "((real_of_int 117 + 8) / 100)" "(real_of_int 8192 / real_of_int 1)" "((real_of_int 64 + 8) / 100)"
  by (intro fdct_pair.intro fdct_pair_axioms.intro fdct_8x4_row_pass fdct_8x4_col_pass frequencies_near [OF rows_8_10_ok] frequencies_near [OF cols_4_15_ok])
    (simp add: fdct_budget_def)

lemma jpeg_fdct_8x4_transforms:
  assumes "block_samples 4 8 sample_data start_col = Some samples"
  shows "\<exists>data. jpeg_fdct_8x4 sample_data start_col = Some data \<and> transformed 4 8 samples data"
  using assms f8x4.transforms [OF block_samples_range [OF assms]] by (simp add: jpeg_fdct_8x4_def)


section \<open>6x3 samples\<close>

definition fdct_6x3_row :: "(nat \<Rightarrow> int) \<Rightarrow> int list" where
  "fdct_6x3_row el =
    (let tmp0 = el 0 + el 5;
         tmp11 = el 1 + el 4;
         tmp2 = el 2 + el 3;
         tmp10 = tmp0 + tmp2;
         tmp12 = tmp0 - tmp2;
         tmp0 = el 0 - el 5;
         tmp1 = el 1 - el 4;
         tmp2 = el 2 - el 3;
         out0 = s32 ((tmp10 + tmp11 - 6 * CENTERJSAMPLE) * 2 ^ (PASS1_BITS + 1));
         out2 = DESCALE (tmp12 * FIX13 9 1224744871) (CONST_BITS - PASS1_BITS - 1);
         out4 = DESCALE ((tmp10 - tmp11 - tmp11) * FIX13 9 707106781) (CONST_BITS - PASS1_BITS - 1);
         tmp10 = DESCALE ((tmp0 + tmp2) * FIX13 9 366025404) (CONST_BITS - PASS1_BITS - 1);
         out1 = s32 (tmp10 + (tmp0 + tmp1) * 2 ^ (PASS1_BITS + 1));
         out3 = s32 ((tmp0 - tmp1 - tmp2) * 2 ^ (PASS1_BITS + 1));
         out5 = s32 (tmp10 + (tmp2 - tmp1) * 2 ^ (PASS1_BITS + 1))
     in [out0, out1, out2, out3, out4, out5])"

definition fdct_6x3_col :: "(nat \<Rightarrow> int) \<Rightarrow> int list" where
  "fdct_6x3_col dat =
    (let tmp0 = dat 0 + dat 2;
         tmp1 = dat 1;
         tmp2 = dat 0 - dat 2;
         out0 = DESCALE ((tmp0 + tmp1) * FIX13 9 1777777778) (CONST_BITS + PASS1_BITS);
         out2 = DESCALE ((tmp0 - tmp1 - tmp1) * FIX13 9 1257078722) (CONST_BITS + PASS1_BITS);
         out1 = DESCALE (tmp2 * FIX13 9 2177324216) (CONST_BITS + PASS1_BITS)
     in [out0, out1, out2])"

definition jpeg_fdct_6x3 :: "samparray \<Rightarrow> nat \<Rightarrow> int list option" where
  "jpeg_fdct_6x3 sample_data start_col =
     map_option (fdct_passes 3 6 fdct_6x3_row fdct_6x3_col) (block_samples 3 6 sample_data start_col)"

lemma fdct_6x3_row_sums:
  fixes el :: "nat \<Rightarrow> int"
  assumes "\<And>j. j < 6 \<Longrightarrow> \<bar>el j - 128\<bar> \<le> 128"
  shows "fdct_6x3_row el = map (fdct_output el) rows_6_10"
  using six_points [where el = el and m = 10 and k = 8, OF assms] unfolding fdct_6x3_row_def rows_6_10_def list.map
  by (simp add: fdct_output_def Let_def dct_consts CENTERJSAMPLE_def DESCALE_def algebra_simps del: One_nat_def)

lemma fdct_6x3_row_pass:
  "fdct_pass fdct_6x3_row (\<lambda>a j. a j - 128) (map (scaled 10) rows_6_10) 10 6 128 (2 ^ 10 div 2) 49152"
  by (rule fdct_pass_within [OF _ fdct_6x3_row_sums rows_6_10_fits]) (simp_all add: fdct_6x3_row_def rows_6_10_def Let_def)

lemma fdct_6x3_col_sums: "fdct_6x3_col dat = map (fdct_output dat) cols_3_15"
  unfolding fdct_6x3_col_def cols_3_15_def list.map
  by (simp add: fdct_output_def Let_def dct_consts CENTERJSAMPLE_def DESCALE_def algebra_simps del: One_nat_def)

lemma fdct_6x3_col_pass:
  "fdct_pass fdct_6x3_col (\<lambda>a j. a j - 0) (map (scaled 15) cols_3_15) 15 3 6145 (2 ^ 15 div 2) 43692"
  by (rule fdct_pass_outputs [OF fdct_6x3_col_sums cols_3_15_fits])

interpretation f6x3: fdct_pair fdct_6x3_row fdct_6x3_col
    "(map (scaled 10) rows_6_10)" 10 6 "(2 ^ 10 div 2)" 49152 "(map (scaled 15) cols_3_15)" 15 3 6145 "(2 ^ 15 div 2)" 43692
    "(real_of_int 8192 / real_of_int 1)" "((real_of_int 77 + 8) / 100)" "(real_of_int 131072 / real_of_int 9)" "((real_of_int 45 + 8) / 100)"
  by (intro fdct_pair.intro fdct_pair_axioms.intro fdct_6x3_row_pass fdct_6x3_col_pass frequencies_near [OF rows_6_10_ok] frequencies_near [OF cols_3_15_ok])
    (simp add: fdct_budget_def)

lemma jpeg_fdct_6x3_transforms:
  assumes "block_samples 3 6 sample_data start_col = Some samples"
  shows "\<exists>data. jpeg_fdct_6x3 sample_data start_col = Some data \<and> transformed 3 6 samples data"
  using assms f6x3.transforms [OF block_samples_range [OF assms]] by (simp add: jpeg_fdct_6x3_def)


section \<open>4x2 samples\<close>

definition fdct_4x2_row :: "(nat \<Rightarrow> int) \<Rightarrow> int list" where
  "fdct_4x2_row el =
    (let tmp0 = el 0 + el 3;
         tmp1 = el 1 + el 2;
         tmp10 = el 0 - el 3;
         tmp11 = el 1 - el 2;
         out0 = s32 ((tmp0 + tmp1 - 4 * CENTERJSAMPLE) * 2 ^ (PASS1_BITS + 3));
         out2 = s32 ((tmp0 - tmp1) * 2 ^ (PASS1_BITS + 3));
         tmp0 = (tmp10 + tmp11) * FIX_0_541196100;
         tmp0 = tmp0 + 1 * 2 ^ (CONST_BITS - PASS1_BITS - 4);
         out1 = RIGHT_SHIFT (tmp0 + tmp10 * FIX_0_765366865) (CONST_BITS - PASS1_BITS - 3);
         out3 = RIGHT_SHIFT (tmp0 - tmp11 * FIX_1_847759065) (CONST_BITS - PASS1_BITS - 3)
     in [out0, out1, out2, out3])"

definition fdct_4x2_col :: "(nat \<Rightarrow> int) \<Rightarrow> int list" where
  "fdct_4x2_col dat =
    (let tmp0 = dat 0 + 1 * 2 ^ (PASS1_BITS - 1);
         tmp1 = dat 1;
         out0 = RIGHT_SHIFT (tmp0 + tmp1) PASS1_BITS;
         out1 = RIGHT_SHIFT (tmp0 - tmp1) PASS1_BITS
     in [out0, out1])"

definition jpeg_fdct_4x2 :: "samparray \<Rightarrow> nat \<Rightarrow> int list option" where
  "jpeg_fdct_4x2 sample_data start_col =
     map_option (fdct_passes 2 4 fdct_4x2_row fdct_4x2_col) (block_samples 2 4 sample_data start_col)"

lemma fdct_4x2_row_sums: "fdct_4x2_row el = map (fdct_output el) rows_4_8"
  unfolding fdct_4x2_row_def rows_4_8_def list.map
  by (simp add: fdct_output_def Let_def dct_consts CENTERJSAMPLE_def DESCALE_def algebra_simps del: One_nat_def)

lemma fdct_4x2_row_pass:
  "fdct_pass fdct_4x2_row (\<lambda>a j. a j - 128) (map (scaled 8) rows_4_8) 8 4 128 (2 ^ 8 div 2) 32768"
  by (rule fdct_pass_outputs [OF fdct_4x2_row_sums rows_4_8_fits])

lemma fdct_4x2_col_sums: "fdct_4x2_col dat = map (fdct_output dat) cols_2_2"
  unfolding fdct_4x2_col_def cols_2_2_def list.map
  by (simp add: fdct_output_def Let_def dct_consts CENTERJSAMPLE_def DESCALE_def algebra_simps del: One_nat_def)

lemma fdct_4x2_col_pass:
  "fdct_pass fdct_4x2_col (\<lambda>a j. a j - 0) (map (scaled 2) cols_2_2) 2 2 16385 (2 ^ 2 div 2) 2"
  by (rule fdct_pass_outputs [OF fdct_4x2_col_sums cols_2_2_fits])

interpretation f4x2: fdct_pair fdct_4x2_row fdct_4x2_col
    "(map (scaled 8) rows_4_8)" 8 4 "(2 ^ 8 div 2)" 32768 "(map (scaled 2) cols_2_2)" 2 2 16385 "(2 ^ 2 div 2)" 2
    "(real_of_int 8192 / real_of_int 1)" "((real_of_int 64 + 8) / 100)" "1" "0"
  by (intro fdct_pair.intro fdct_pair_axioms.intro fdct_4x2_row_pass fdct_4x2_col_pass frequencies_near [OF rows_4_8_ok] cols_2_2_near)
    (simp add: fdct_budget_def)

lemma jpeg_fdct_4x2_transforms:
  assumes "block_samples 2 4 sample_data start_col = Some samples"
  shows "\<exists>data. jpeg_fdct_4x2 sample_data start_col = Some data \<and> transformed 2 4 samples data"
  using assms f4x2.transforms [OF block_samples_range [OF assms]] by (simp add: jpeg_fdct_4x2_def)

end
