(* ===== verification/FdctHigh.thy ===== *)
theory FdctHigh
  imports FdctKernels
begin

text \<open>
  The forward DCT routines of \<open>jpeg-9a/jfdctint.c\<close> for the blocks twice as high as wide.
  \<open>fdct_NxM_row\<close> is the body of pass 1 of \<open>jpeg_fdct_NxM\<close>, for the row of samples \<open>el\<close>, and
  \<open>fdct_NxM_col\<close> the body of pass 2, for the column \<open>dat\<close> of what pass 1 leaves.
\<close>

section \<open>8x16 samples\<close>

definition fdct_8x16_row :: "(nat \<Rightarrow> int) \<Rightarrow> int list" where
  "fdct_8x16_row el =
    (let tmp0 = el 0 + el 7;
         tmp1 = el 1 + el 6;
         tmp2 = el 2 + el 5;
         tmp3 = el 3 + el 4;
         tmp10 = tmp0 + tmp3;
         tmp12 = tmp0 - tmp3;
         tmp11 = tmp1 + tmp2;
         tmp13 = tmp1 - tmp2;
         tmp0 = el 0 - el 7;
         tmp1 = el 1 - el 6;
         tmp2 = el 2 - el 5;
         tmp3 = el 3 - el 4;
         out0 = s32 ((tmp10 + tmp11 - 8 * CENTERJSAMPLE) * 2 ^ PASS1_BITS);
         out4 = s32 ((tmp10 - tmp11) * 2 ^ PASS1_BITS);
         z1 = (tmp12 + tmp13) * FIX_0_541196100;
         out2 = DESCALE (z1 + tmp12 * FIX_0_765366865) (CONST_BITS - PASS1_BITS);
         out6 = DESCALE (z1 - tmp13 * FIX_1_847759065) (CONST_BITS - PASS1_BITS);
         tmp12 = tmp0 + tmp2;
         tmp13 = tmp1 + tmp3;
         z1 = (tmp12 + tmp13) * FIX_1_175875602;
         tmp12 = tmp12 * (- FIX_0_390180644);
         tmp13 = tmp13 * (- FIX_1_961570560);
         tmp12 = tmp12 + z1;
         tmp13 = tmp13 + z1;
         z1 = (tmp0 + tmp3) * (- FIX_0_899976223);
         tmp0 = tmp0 * FIX_1_501321110;
         tmp3 = tmp3 * FIX_0_298631336;
         tmp0 = tmp0 + (z1 + tmp12);
         tmp3 = tmp3 + (z1 + tmp13);
         z1 = (tmp1 + tmp2) * (- FIX_2_562915447);
         tmp1 = tmp1 * FIX_3_072711026;
         tmp2 = tmp2 * FIX_2_053119869;
         tmp1 = tmp1 + (z1 + tmp13);
         tmp2 = tmp2 + (z1 + tmp12);
         out1 = DESCALE tmp0 (CONST_BITS - PASS1_BITS);
         out3 = DESCALE tmp1 (CONST_BITS - PASS1_BITS);
         out5 = DESCALE tmp2 (CONST_BITS - PASS1_BITS);
         out7 = DESCALE tmp3 (CONST_BITS - PASS1_BITS)
     in [out0, out1, out2, out3, out4, out5, out6, out7])"

definition fdct_8x16_col :: "(nat \<Rightarrow> int) \<Rightarrow> int list" where
  "fdct_8x16_col dat =
    (let tmp0 = dat 0 + dat 15;
         tmp1 = dat 1 + dat 14;
         tmp2 = dat 2 + dat 13;
         tmp3 = dat 3 + dat 12;
         tmp4 = dat 4 + dat 11;
         tmp5 = dat 5 + dat 10;
         tmp6 = dat 6 + dat 9;
         tmp7 = dat 7 + dat 8;
         tmp10 = tmp0 + tmp7;
         tmp14 = tmp0 - tmp7;
         tmp11 = tmp1 + tmp6;
         tmp15 = tmp1 - tmp6;
         tmp12 = tmp2 + tmp5;
         tmp16 = tmp2 - tmp5;
         tmp13 = tmp3 + tmp4;
         tmp17 = tmp3 - tmp4;
         tmp0 = dat 0 - dat 15;
         tmp1 = dat 1 - dat 14;
         tmp2 = dat 2 - dat 13;
         tmp3 = dat 3 - dat 12;
         tmp4 = dat 4 - dat 11;
         tmp5 = dat 5 - dat 10;
         tmp6 = dat 6 - dat 9;
         tmp7 = dat 7 - dat 8;
         out0 = DESCALE (tmp10 + tmp11 + tmp12 + tmp13) (PASS1_BITS + 1);
         out4 = DESCALE ((tmp10 - tmp13) * FIX13 9 1306562965 + (tmp11 - tmp12) * FIX_0_541196100) (CONST_BITS + PASS1_BITS + 1);
         tmp10 = (tmp17 - tmp15) * FIX13 9 275899379 + (tmp14 - tmp16) * FIX13 9 1387039845;
         out2 = DESCALE (tmp10 + tmp15 * FIX13 9 1451774982 + tmp16 * FIX13 9 2172734804) (CONST_BITS + PASS1_BITS + 1);
         out6 = DESCALE (tmp10 - tmp14 * FIX13 9 211164243 - tmp17 * FIX13 9 1061594338) (CONST_BITS + PASS1_BITS + 1);
         tmp11 = (tmp0 + tmp1) * FIX13 9 1353318001 + (tmp6 - tmp7) * FIX13 9 410524528;
         tmp12 = (tmp0 + tmp2) * FIX13 9 1247225013 + (tmp5 + tmp7) * FIX13 9 666655658;
         tmp13 = (tmp0 + tmp3) * FIX13 9 1093201867 + (tmp4 - tmp7) * FIX13 9 897167586;
         tmp14 = (tmp1 + tmp2) * FIX13 9 138617169 + (tmp6 - tmp5) * FIX13 9 1407403738;
         tmp15 = (tmp1 + tmp3) * (- FIX13 9 666655658) + (tmp4 + tmp6) * (- FIX13 9 1247225013);
         tmp16 = (tmp2 + tmp3) * (- FIX13 9 1353318001) + (tmp5 - tmp4) * FIX13 9 410524528;
         tmp10 = tmp11 + tmp12 + tmp13 - tmp0 * FIX13 9 2286341144 + tmp7 * FIX13 9 779653625;
         tmp11 = tmp11 + (tmp14 + tmp15 + tmp1 * FIX13 9 71888074 - tmp6 * FIX13 9 1663905119);
         tmp12 = tmp12 + (tmp14 + tmp16 - tmp2 * FIX13 9 1125726048 + tmp5 * FIX13 9 1227391138);
         tmp13 = tmp13 + (tmp15 + tmp16 + tmp3 * FIX13 9 1065388962 + tmp4 * FIX13 9 2167985692);
         out1 = DESCALE tmp10 (CONST_BITS + PASS1_BITS + 1);
         out3 = DESCALE tmp11 (CONST_BITS + PASS1_BITS + 1);
         out5 = DESCALE tmp12 (CONST_BITS + PASS1_BITS + 1);
         out7 = DESCALE tmp13 (CONST_BITS + PASS1_BITS + 1)
     in [out0, out1, out2, out3, out4, out5, out6, out7])"

definition jpeg_fdct_8x16 :: "samparray \<Rightarrow> nat \<Rightarrow> int list option" where
  "jpeg_fdct_8x16 sample_data start_col =
     map_option (fdct_passes 16 8 fdct_8x16_row fdct_8x16_col) (block_samples 16 8 sample_data start_col)"

lemma fdct_8x16_row_sums: "fdct_8x16_row el = map (fdct_output el) rows_8_11"
  unfolding fdct_8x16_row_def rows_8_11_def list.map
  by (simp add: fdct_output_def Let_def dct_consts CENTERJSAMPLE_def DESCALE_def algebra_simps del: One_nat_def)

lemma fdct_8x16_row_pass:
  "fdct_pass fdct_8x16_row (\<lambda>a j. a j - 128) (map (scaled 11) rows_8_11) 11 8 128 (2 ^ 11 div 2) 65536"
  by (rule fdct_pass_outputs [OF fdct_8x16_row_sums rows_8_11_fits])

lemma fdct_8x16_col_sums: "fdct_8x16_col dat = map (fdct_output dat) cols_16_16"
  unfolding fdct_8x16_col_def cols_16_16_def list.map
  by (simp add: fdct_output_def Let_def dct_consts CENTERJSAMPLE_def DESCALE_def algebra_simps del: One_nat_def)

lemma fdct_8x16_col_pass:
  "fdct_pass fdct_8x16_col (\<lambda>a j. a j - 0) (map (scaled 16) cols_16_16) 16 16 4097 (2 ^ 16 div 2) 131072"
  by (rule fdct_pass_outputs [OF fdct_8x16_col_sums cols_16_16_fits])

interpretation f8x16: fdct_pair fdct_8x16_row fdct_8x16_col
    "(map (scaled 11) rows_8_11)" 11 8 "(2 ^ 11 div 2)" 65536 "(map (scaled 16) cols_16_16)" 16 16 4097 "(2 ^ 16 div 2)" 131072
    "(real_of_int 8192 / real_of_int 1)" "((real_of_int 117 + 8) / 100)" "(real_of_int 8192 / real_of_int 1)" "((real_of_int 146 + 8) / 100)"
  by (intro fdct_pair.intro fdct_pair_axioms.intro fdct_8x16_row_pass fdct_8x16_col_pass frequencies_near [OF rows_8_11_ok] frequencies_near [OF cols_16_16_ok])
    (simp add: fdct_budget_def)

lemma jpeg_fdct_8x16_transforms:
  assumes "block_samples 16 8 sample_data start_col = Some samples"
  shows "\<exists>data. jpeg_fdct_8x16 sample_data start_col = Some data \<and> transformed 16 8 samples data"
  using assms f8x16.transforms [OF block_samples_range [OF assms]] by (simp add: jpeg_fdct_8x16_def)


section \<open>7x14 samples\<close>

definition fdct_7x14_row :: "(nat \<Rightarrow> int) \<Rightarrow> int list" where
  "fdct_7x14_row el =
    (let tmp0 = el 0 + el 6;
         tmp1 = el 1 + el 5;
         tmp2 = el 2 + el 4;
         tmp3 = el 3;
         tmp10 = el 0 - el 6;
         tmp11 = el 1 - el 5;
         tmp12 = el 2 - el 4;
         z1 = tmp0 + tmp2;
         out0 = s32 ((z1 + tmp1 + tmp3 - 7 * CENTERJSAMPLE) * 2 ^ PASS1_BITS);
         tmp3 = tmp3 + tmp3;
         z1 = z1 - tmp3;
         z1 = z1 - tmp3;
         z1 = z1 * FIX13 9 353553391;
         z2 = (tmp0 - tmp2) * FIX13 9 920609002;
         z3 = (tmp1 - tmp2) * FIX13 9 314692123;
         out2 = DESCALE (z1 + z2 + z3) (CONST_BITS - PASS1_BITS);
         z1 = z1 - z2;
         z2 = (tmp0 - tmp1) * FIX13 9 881747734;
         out4 = DESCALE (z2 + z3 - (tmp1 - tmp3) * FIX13 9 707106781) (CONST_BITS - PASS1_BITS);
         out6 = DESCALE (z1 + z2) (CONST_BITS - PASS1_BITS);
         tmp1 = (tmp10 + tmp11) * FIX13 9 935414347;
         tmp2 = (tmp10 - tmp11) * FIX13 9 170262339;
         tmp0 = tmp1 - tmp2;
         tmp1 = tmp1 + tmp2;
         tmp2 = (tmp11 + tmp12) * (- FIX13 9 1378756276);
         tmp1 = tmp1 + tmp2;
         tmp3 = (tmp10 + tmp12) * FIX13 9 613604268;
         tmp0 = tmp0 + tmp3;
         tmp2 = tmp2 + (tmp3 + tmp12 * FIX13 9 1870828693);
         out1 = DESCALE tmp0 (CONST_BITS - PASS1_BITS);
         out3 = DESCALE tmp1 (CONST_BITS - PASS1_BITS);
         out5 = DESCALE tmp2 (CONST_BITS - PASS1_BITS)
     in [out0, out1, out2, out3, out4, out5, out6])"

definition fdct_7x14_col :: "(nat \<Rightarrow> int) \<Rightarrow> int list" where
  "fdct_7x14_col dat =
    (let tmp0 = dat 0 + dat 13;
         tmp1 = dat 1 + dat 12;
         tmp2 = dat 2 + dat 11;
         tmp13 = dat 3 + dat 10;
         tmp4 = dat 4 + dat 9;
         tmp5 = dat 5 + dat 8;
         tmp6 = dat 6 + dat 7;
         tmp10 = tmp0 + tmp6;
         tmp14 = tmp0 - tmp6;
         tmp11 = tmp1 + tmp5;
         tmp15 = tmp1 - tmp5;
         tmp12 = tmp2 + tmp4;
         tmp16 = tmp2 - tmp4;
         tmp0 = dat 0 - dat 13;
         tmp1 = dat 1 - dat 12;
         tmp2 = dat 2 - dat 11;
         tmp3 = dat 3 - dat 10;
         tmp4 = dat 4 - dat 9;
         tmp5 = dat 5 - dat 8;
         tmp6 = dat 6 - dat 7;
         out0 = DESCALE ((tmp10 + tmp11 + tmp12 + tmp13) * FIX13 9 653061224) (CONST_BITS + PASS1_BITS);
         tmp13 = tmp13 + tmp13;
         out4 = DESCALE ((tmp10 - tmp13) * FIX13 9 832106052 + (tmp11 - tmp13) * FIX13 9 205513223 - (tmp12 - tmp13) * FIX13 9 575835255) (CONST_BITS + PASS1_BITS);
         tmp10 = (tmp14 + tmp15) * FIX13 9 722074570;
         out2 = DESCALE (tmp10 + tmp14 * FIX13 9 178337691 + tmp16 * FIX13 9 400721155) (CONST_BITS + PASS1_BITS);
         out6 = DESCALE (tmp10 - tmp15 * FIX13 9 1122795725 - tmp16 * FIX13 9 900412262) (CONST_BITS + PASS1_BITS);
         tmp10 = tmp1 + tmp2;
         tmp11 = tmp5 - tmp4;
         out7 = DESCALE ((tmp0 - tmp10 + tmp3 - tmp11 - tmp6) * FIX13 9 653061224) (CONST_BITS + PASS1_BITS);
         tmp3 = tmp3 * FIX13 9 653061224;
         tmp10 = tmp10 * (- FIX13 9 103406812);
         tmp11 = tmp11 * FIX13 9 917760839;
         tmp10 = tmp10 + (tmp11 - tmp3);
         tmp11 = (tmp0 + tmp2) * FIX13 9 782007410 + (tmp4 + tmp6) * FIX13 9 491367823;
         out5 = DESCALE (tmp10 + tmp11 - tmp2 * FIX13 9 1550341076 + tmp4 * FIX13 9 731428202) (CONST_BITS + PASS1_BITS);
         tmp12 = (tmp0 + tmp1) * FIX13 9 871740478 + (tmp5 - tmp6) * FIX13 9 305035186;
         out3 = DESCALE (tmp10 + tmp12 - tmp1 * FIX13 9 276965844 - tmp5 * FIX13 9 2004803435) (CONST_BITS + PASS1_BITS);
         out1 = DESCALE (tmp11 + tmp12 + tmp3 - tmp0 * FIX13 9 735987049 - tmp6 * FIX13 9 82925825) (CONST_BITS + PASS1_BITS)
     in [out0, out1, out2, out3, out4, out5, out6, out7])"

definition jpeg_fdct_7x14 :: "samparray \<Rightarrow> nat \<Rightarrow> int list option" where
  "jpeg_fdct_7x14 sample_data start_col =
     map_option (fdct_passes 14 7 fdct_7x14_row fdct_7x14_col) (block_samples 14 7 sample_data start_col)"

lemma fdct_7x14_row_sums: "fdct_7x14_row el = map (fdct_output el) rows_7_11"
  unfolding fdct_7x14_row_def rows_7_11_def list.map
  by (simp add: fdct_output_def Let_def dct_consts CENTERJSAMPLE_def DESCALE_def algebra_simps del: One_nat_def)

lemma fdct_7x14_row_pass:
  "fdct_pass fdct_7x14_row (\<lambda>a j. a j - 128) (map (scaled 11) rows_7_11) 11 7 128 (2 ^ 11 div 2) 57344"
  by (rule fdct_pass_outputs [OF fdct_7x14_row_sums rows_7_11_fits])

lemma fdct_7x14_col_sums: "fdct_7x14_col dat = map (fdct_output dat) cols_14_15"
  unfolding fdct_7x14_col_def cols_14_15_def list.map
  by (simp add: fdct_output_def Let_def dct_consts CENTERJSAMPLE_def DESCALE_def algebra_simps del: One_nat_def)

lemma fdct_7x14_col_pass:
  "fdct_pass fdct_7x14_col (\<lambda>a j. a j - 0) (map (scaled 15) cols_14_15) 15 14 3585 (2 ^ 15 div 2) 74900"
  by (rule fdct_pass_outputs [OF fdct_7x14_col_sums cols_14_15_fits])

interpretation f7x14: fdct_pair fdct_7x14_row fdct_7x14_col
    "(map (scaled 11) rows_7_11)" 11 7 "(2 ^ 11 div 2)" 57344 "(map (scaled 15) cols_14_15)" 15 14 3585 "(2 ^ 15 div 2)" 74900
    "(real_of_int 8192 / real_of_int 1)" "((real_of_int 124 + 8) / 100)" "(real_of_int 262144 / real_of_int 49)" "((real_of_int 214 + 8) / 100)"
  by (intro fdct_pair.intro fdct_pair_axioms.intro fdct_7x14_row_pass fdct_7x14_col_pass frequencies_near [OF rows_7_11_ok] frequencies_near [OF cols_14_15_ok])
    (simp add: fdct_budget_def)

lemma jpeg_fdct_7x14_transforms:
  assumes "block_samples 14 7 sample_data start_col = Some samples"
  shows "\<exists>data. jpeg_fdct_7x14 sample_data start_col = Some data \<and> transformed 14 7 samples data"
  using assms f7x14.transforms [OF block_samples_range [OF assms]] by (simp add: jpeg_fdct_7x14_def)


section \<open>6x12 samples\<close>

definition fdct_6x12_row :: "(nat \<Rightarrow> int) \<Rightarrow> int list" where
  "fdct_6x12_row el =
    (let tmp0 = el 0 + el 5;
         tmp11 = el 1 + el 4;
         tmp2 = el 2 + el 3;
         tmp10 = tmp0 + tmp2;
         tmp12 = tmp0 - tmp2;
         tmp0 = el 0 - el 5;
         tmp1 = el 1 - el 4;
         tmp2 = el 2 - el 3;
         out0 = s32 ((tmp10 + tmp11 - 6 * CENTERJSAMPLE) * 2 ^ PASS1_BITS);
         out2 = DESCALE (tmp12 * FIX13 9 1224744871) (CONST_BITS - PASS1_BITS);
         out4 = DESCALE ((tmp10 - tmp11 - tmp11) * FIX13 9 707106781) (CONST_BITS - PASS1_BITS);
         tmp10 = DESCALE ((tmp0 + tmp2) * FIX13 9 366025404) (CONST_BITS - PASS1_BITS);
         out1 = s32 (tmp10 + (tmp0 + tmp1) * 2 ^ PASS1_BITS);
         out3 = s32 ((tmp0 - tmp1 - tmp2) * 2 ^ PASS1_BITS);
         out5 = s32 (tmp10 + (tmp2 - tmp1) * 2 ^ PASS1_BITS)
     in [out0, out1, out2, out3, out4, out5])"

definition fdct_6x12_col :: "(nat \<Rightarrow> int) \<Rightarrow> int list" where
  "fdct_6x12_col dat =
    (let tmp0 = dat 0 + dat 11;
         tmp1 = dat 1 + dat 10;
         tmp2 = dat 2 + dat 9;
         tmp3 = dat 3 + dat 8;
         tmp4 = dat 4 + dat 7;
         tmp5 = dat 5 + dat 6;
         tmp10 = tmp0 + tmp5;
         tmp13 = tmp0 - tmp5;
         tmp11 = tmp1 + tmp4;
         tmp14 = tmp1 - tmp4;
         tmp12 = tmp2 + tmp3;
         tmp15 = tmp2 - tmp3;
         tmp0 = dat 0 - dat 11;
         tmp1 = dat 1 - dat 10;
         tmp2 = dat 2 - dat 9;
         tmp3 = dat 3 - dat 8;
         tmp4 = dat 4 - dat 7;
         tmp5 = dat 5 - dat 6;
         out0 = DESCALE ((tmp10 + tmp11 + tmp12) * FIX13 9 888888889) (CONST_BITS + PASS1_BITS);
         out6 = DESCALE ((tmp13 - tmp14 - tmp15) * FIX13 9 888888889) (CONST_BITS + PASS1_BITS);
         out4 = DESCALE ((tmp10 - tmp12) * FIX13 9 1088662108) (CONST_BITS + PASS1_BITS);
         out2 = DESCALE ((tmp14 - tmp15) * FIX13 9 888888889 + (tmp13 + tmp15) * FIX13 9 1214244803) (CONST_BITS + PASS1_BITS);
         tmp10 = (tmp1 + tmp4) * FIX13 9 481063200;
         tmp14 = tmp10 + tmp1 * FIX13 9 680326102;
         tmp15 = tmp10 - tmp4 * FIX13 9 1642452502;
         tmp12 = (tmp0 + tmp2) * FIX13 9 997307603;
         tmp13 = (tmp0 + tmp3) * FIX13 9 765261039;
         tmp10 = tmp12 + tmp13 + tmp14 - tmp0 * FIX13 9 516244403 + tmp5 * FIX13 9 164081699;
         tmp11 = (tmp2 + tmp3) * (- FIX13 9 164081699);
         tmp12 = tmp12 + (tmp11 - tmp15 - tmp2 * FIX13 9 2079550144 + tmp5 * FIX13 9 765261039);
         tmp13 = tmp13 + (tmp11 - tmp14 + tmp3 * FIX13 9 645144899 - tmp5 * FIX13 9 997307603);
         tmp11 = tmp15 + (tmp0 - tmp3) * FIX13 9 1161389302 - (tmp2 + tmp5) * FIX13 9 481063200;
         out1 = DESCALE tmp10 (CONST_BITS + PASS1_BITS);
         out3 = DESCALE tmp11 (CONST_BITS + PASS1_BITS);
         out5 = DESCALE tmp12 (CONST_BITS + PASS1_BITS);
         out7 = DESCALE tmp13 (CONST_BITS + PASS1_BITS)
     in [out0, out1, out2, out3, out4, out5, out6, out7])"

definition jpeg_fdct_6x12 :: "samparray \<Rightarrow> nat \<Rightarrow> int list option" where
  "jpeg_fdct_6x12 sample_data start_col =
     map_option (fdct_passes 12 6 fdct_6x12_row fdct_6x12_col) (block_samples 12 6 sample_data start_col)"

lemma fdct_6x12_row_sums:
  fixes el :: "nat \<Rightarrow> int"
  assumes "\<And>j. j < 6 \<Longrightarrow> \<bar>el j - 128\<bar> \<le> 128"
  shows "fdct_6x12_row el = map (fdct_output el) rows_6_11"
  using six_points [where el = el and m = 11 and k = 4, OF assms] unfolding fdct_6x12_row_def rows_6_11_def list.map
  by (simp add: fdct_output_def Let_def dct_consts CENTERJSAMPLE_def DESCALE_def algebra_simps del: One_nat_def)

lemma fdct_6x12_row_pass:
  "fdct_pass fdct_6x12_row (\<lambda>a j. a j - 128) (map (scaled 11) rows_6_11) 11 6 128 (2 ^ 11 div 2) 49152"
  by (rule fdct_pass_within [OF _ fdct_6x12_row_sums rows_6_11_fits]) (simp_all add: fdct_6x12_row_def rows_6_11_def Let_def)

lemma fdct_6x12_col_sums: "fdct_6x12_col dat = map (fdct_output dat) cols_12_15"
  unfolding fdct_6x12_col_def cols_12_15_def list.map
  by (simp add: fdct_output_def Let_def dct_consts CENTERJSAMPLE_def DESCALE_def algebra_simps del: One_nat_def)

lemma fdct_6x12_col_pass:
  "fdct_pass fdct_6x12_col (\<lambda>a j. a j - 0) (map (scaled 15) cols_12_15) 15 12 3073 (2 ^ 15 div 2) 87384"
  by (rule fdct_pass_outputs [OF fdct_6x12_col_sums cols_12_15_fits])

interpretation f6x12: fdct_pair fdct_6x12_row fdct_6x12_col
    "(map (scaled 11) rows_6_11)" 11 6 "(2 ^ 11 div 2)" 49152 "(map (scaled 15) cols_12_15)" 15 12 3073 "(2 ^ 15 div 2)" 87384
    "(real_of_int 8192 / real_of_int 1)" "((real_of_int 77 + 8) / 100)" "(real_of_int 65536 / real_of_int 9)" "((real_of_int 32 + 8) / 100)"
  by (intro fdct_pair.intro fdct_pair_axioms.intro fdct_6x12_row_pass fdct_6x12_col_pass frequencies_near [OF rows_6_11_ok] frequencies_near [OF cols_12_15_ok])
    (simp add: fdct_budget_def)

lemma jpeg_fdct_6x12_transforms:
  assumes "block_samples 12 6 sample_data start_col = Some samples"
  shows "\<exists>data. jpeg_fdct_6x12 sample_data start_col = Some data \<and> transformed 12 6 samples data"
  using assms f6x12.transforms [OF block_samples_range [OF assms]] by (simp add: jpeg_fdct_6x12_def)


section \<open>5x10 samples\<close>

definition fdct_5x10_row :: "(nat \<Rightarrow> int) \<Rightarrow> int list" where
  "fdct_5x10_row el =
    (let tmp0 = el 0 + el 4;
         tmp1 = el 1 + el 3;
         tmp2 = el 2;
         tmp10 = tmp0 + tmp1;
         tmp11 = tmp0 - tmp1;
         tmp0 = el 0 - el 4;
         tmp1 = el 1 - el 3;
         out0 = s32 ((tmp10 + tmp2 - 5 * CENTERJSAMPLE) * 2 ^ PASS1_BITS);
         tmp11 = tmp11 * FIX13 9 790569415;
         tmp10 = tmp10 - tmp2 * 2 ^ 2;
         tmp10 = tmp10 * FIX13 9 353553391;
         out2 = DESCALE (tmp11 + tmp10) (CONST_BITS - PASS1_BITS);
         out4 = DESCALE (tmp11 - tmp10) (CONST_BITS - PASS1_BITS);
         tmp10 = (tmp0 + tmp1) * FIX13 9 831253876;
         out1 = DESCALE (tmp10 + tmp0 * FIX13 9 513743148) (CONST_BITS - PASS1_BITS);
         out3 = DESCALE (tmp10 - tmp1 * FIX13 9 2176250899) (CONST_BITS - PASS1_BITS)
     in [out0, out1, out2, out3, out4])"

definition fdct_5x10_col :: "(nat \<Rightarrow> int) \<Rightarrow> int list" where
  "fdct_5x10_col dat =
    (let tmp0 = dat 0 + dat 9;
         tmp1 = dat 1 + dat 8;
         tmp12 = dat 2 + dat 7;
         tmp3 = dat 3 + dat 6;
         tmp4 = dat 4 + dat 5;
         tmp10 = tmp0 + tmp4;
         tmp13 = tmp0 - tmp4;
         tmp11 = tmp1 + tmp3;
         tmp14 = tmp1 - tmp3;
         tmp0 = dat 0 - dat 9;
         tmp1 = dat 1 - dat 8;
         tmp2 = dat 2 - dat 7;
         tmp3 = dat 3 - dat 6;
         tmp4 = dat 4 - dat 5;
         out0 = DESCALE ((tmp10 + tmp11 + tmp12) * FIX13 2 128) (CONST_BITS + PASS1_BITS);
         tmp12 = tmp12 + tmp12;
         out4 = DESCALE ((tmp10 - tmp12) * FIX13 9 1464477191 - (tmp11 - tmp12) * FIX13 9 559380511) (CONST_BITS + PASS1_BITS);
         tmp10 = (tmp13 + tmp14) * FIX13 9 1064004961;
         out2 = DESCALE (tmp10 + tmp13 * FIX13 9 657591230) (CONST_BITS + PASS1_BITS);
         out6 = DESCALE (tmp10 - tmp14 * FIX13 9 2785601151) (CONST_BITS + PASS1_BITS);
         tmp10 = tmp0 + tmp4;
         tmp11 = tmp1 - tmp3;
         out5 = DESCALE ((tmp10 - tmp11 - tmp2) * FIX13 2 128) (CONST_BITS + PASS1_BITS);
         tmp2 = tmp2 * FIX13 2 128;
         out1 = DESCALE (tmp0 * FIX13 9 1787906876 + tmp1 * FIX13 9 1612894094 + tmp2 + tmp3 * FIX13 9 821810588 + tmp4 * FIX13 9 283176630) (CONST_BITS + PASS1_BITS);
         tmp12 = (tmp0 - tmp4) * FIX13 9 1217352341 - (tmp1 + tmp3) * FIX13 9 752365123;
         tmp13 = (tmp10 + tmp11) * FIX13 9 395541753 + tmp11 * FIX13 2 64 - tmp2;
         out3 = DESCALE (tmp12 + tmp13) (CONST_BITS + PASS1_BITS);
         out7 = DESCALE (tmp12 - tmp13) (CONST_BITS + PASS1_BITS)
     in [out0, out1, out2, out3, out4, out5, out6, out7])"

definition jpeg_fdct_5x10 :: "samparray \<Rightarrow> nat \<Rightarrow> int list option" where
  "jpeg_fdct_5x10 sample_data start_col =
     map_option (fdct_passes 10 5 fdct_5x10_row fdct_5x10_col) (block_samples 10 5 sample_data start_col)"

lemma fdct_5x10_row_sums: "fdct_5x10_row el = map (fdct_output el) rows_5_11"
  unfolding fdct_5x10_row_def rows_5_11_def list.map
  by (simp add: fdct_output_def Let_def dct_consts CENTERJSAMPLE_def DESCALE_def algebra_simps del: One_nat_def)

lemma fdct_5x10_row_pass:
  "fdct_pass fdct_5x10_row (\<lambda>a j. a j - 128) (map (scaled 11) rows_5_11) 11 5 128 (2 ^ 11 div 2) 40960"
  by (rule fdct_pass_outputs [OF fdct_5x10_row_sums rows_5_11_fits])

lemma fdct_5x10_col_sums: "fdct_5x10_col dat = map (fdct_output dat) cols_10_15"
  unfolding fdct_5x10_col_def cols_10_15_def list.map
  by (simp add: fdct_output_def Let_def dct_consts CENTERJSAMPLE_def DESCALE_def algebra_simps del: One_nat_def)

lemma fdct_5x10_col_pass:
  "fdct_pass fdct_5x10_col (\<lambda>a j. a j - 0) (map (scaled 15) cols_10_15) 15 10 2561 (2 ^ 15 div 2) 104860"
  by (rule fdct_pass_outputs [OF fdct_5x10_col_sums cols_10_15_fits])

interpretation f5x10: fdct_pair fdct_5x10_row fdct_5x10_col
    "(map (scaled 11) rows_5_11)" 11 5 "(2 ^ 11 div 2)" 40960 "(map (scaled 15) cols_10_15)" 15 10 2561 "(2 ^ 15 div 2)" 104860
    "(real_of_int 8192 / real_of_int 1)" "((real_of_int 124 + 8) / 100)" "(real_of_int 262144 / real_of_int 25)" "((real_of_int 90 + 8) / 100)"
  by (intro fdct_pair.intro fdct_pair_axioms.intro fdct_5x10_row_pass fdct_5x10_col_pass frequencies_near [OF rows_5_11_ok] frequencies_near [OF cols_10_15_ok])
    (simp add: fdct_budget_def)

lemma jpeg_fdct_5x10_transforms:
  assumes "block_samples 10 5 sample_data start_col = Some samples"
  shows "\<exists>data. jpeg_fdct_5x10 sample_data start_col = Some data \<and> transformed 10 5 samples data"
  using assms f5x10.transforms [OF block_samples_range [OF assms]] by (simp add: jpeg_fdct_5x10_def)


section \<open>4x8 samples\<close>

definition fdct_4x8_row :: "(nat \<Rightarrow> int) \<Rightarrow> int list" where
  "fdct_4x8_row el =
    (let tmp0 = el 0 + el 3;
         tmp1 = el 1 + el 2;
         tmp10 = el 0 - el 3;
         tmp11 = el 1 - el 2;
         out0 = s32 ((tmp0 + tmp1 - 4 * CENTERJSAMPLE) * 2 ^ (PASS1_BITS + 1));
         out2 = s32 ((tmp0 - tmp1) * 2 ^ (PASS1_BITS + 1));
         tmp0 = (tmp10 + tmp11) * FIX_0_541196100;
         tmp0 = tmp0 + 1 * 2 ^ (CONST_BITS - PASS1_BITS - 2);
         out1 = RIGHT_SHIFT (tmp0 + tmp10 * FIX_0_765366865) (CONST_BITS - PASS1_BITS - 1);
         out3 = RIGHT_SHIFT (tmp0 - tmp11 * FIX_1_847759065) (CONST_BITS - PASS1_BITS - 1)
     in [out0, out1, out2, out3])"

definition fdct_4x8_col :: "(nat \<Rightarrow> int) \<Rightarrow> int list" where
  "fdct_4x8_col dat =
    (let tmp0 = dat 0 + dat 7;
         tmp1 = dat 1 + dat 6;
         tmp2 = dat 2 + dat 5;
         tmp3 = dat 3 + dat 4;
         tmp10 = tmp0 + tmp3 + 1 * 2 ^ (PASS1_BITS - 1);
         tmp12 = tmp0 - tmp3;
         tmp11 = tmp1 + tmp2;
         tmp13 = tmp1 - tmp2;
         tmp0 = dat 0 - dat 7;
         tmp1 = dat 1 - dat 6;
         tmp2 = dat 2 - dat 5;
         tmp3 = dat 3 - dat 4;
         out0 = RIGHT_SHIFT (tmp10 + tmp11) PASS1_BITS;
         out4 = RIGHT_SHIFT (tmp10 - tmp11) PASS1_BITS;
         z1 = (tmp12 + tmp13) * FIX_0_541196100;
         z1 = z1 + 1 * 2 ^ (CONST_BITS + PASS1_BITS - 1);
         out2 = RIGHT_SHIFT (z1 + tmp12 * FIX_0_765366865) (CONST_BITS + PASS1_BITS);
         out6 = RIGHT_SHIFT (z1 - tmp13 * FIX_1_847759065) (CONST_BITS + PASS1_BITS);
         tmp12 = tmp0 + tmp2;
         tmp13 = tmp1 + tmp3;
         z1 = (tmp12 + tmp13) * FIX_1_175875602;
         z1 = z1 + 1 * 2 ^ (CONST_BITS + PASS1_BITS - 1);
         tmp12 = tmp12 * (- FIX_0_390180644);
         tmp13 = tmp13 * (- FIX_1_961570560);
         tmp12 = tmp12 + z1;
         tmp13 = tmp13 + z1;
         z1 = (tmp0 + tmp3) * (- FIX_0_899976223);
         tmp0 = tmp0 * FIX_1_501321110;
         tmp3 = tmp3 * FIX_0_298631336;
         tmp0 = tmp0 + (z1 + tmp12);
         tmp3 = tmp3 + (z1 + tmp13);
         z1 = (tmp1 + tmp2) * (- FIX_2_562915447);
         tmp1 = tmp1 * FIX_3_072711026;
         tmp2 = tmp2 * FIX_2_053119869;
         tmp1 = tmp1 + (z1 + tmp13);
         tmp2 = tmp2 + (z1 + tmp12);
         out1 = RIGHT_SHIFT tmp0 (CONST_BITS + PASS1_BITS);
         out3 = RIGHT_SHIFT tmp1 (CONST_BITS + PASS1_BITS);
         out5 = RIGHT_SHIFT tmp2 (CONST_BITS + PASS1_BITS);
         out7 = RIGHT_SHIFT tmp3 (CONST_BITS + PASS1_BITS)
     in [out0, out1, out2, out3, out4, out5, out6, out7])"

definition jpeg_fdct_4x8 :: "samparray \<Rightarrow> nat \<Rightarrow> int list option" where
  "jpeg_fdct_4x8 sample_data start_col =
     map_option (fdct_passes 8 4 fdct_4x8_row fdct_4x8_col) (block_samples 8 4 sample_data start_col)"

lemma fdct_4x8_row_sums: "fdct_4x8_row el = map (fdct_output el) rows_4_10"
  unfolding fdct_4x8_row_def rows_4_10_def list.map
  by (simp add: fdct_output_def Let_def dct_consts CENTERJSAMPLE_def DESCALE_def algebra_simps del: One_nat_def)

lemma fdct_4x8_row_pass:
  "fdct_pass fdct_4x8_row (\<lambda>a j. a j - 128) (map (scaled 10) rows_4_10) 10 4 128 (2 ^ 10 div 2) 32768"
  by (rule fdct_pass_outputs [OF fdct_4x8_row_sums rows_4_10_fits])

lemma fdct_4x8_col_sums: "fdct_4x8_col dat = map (fdct_output dat) cols_8_15"
  unfolding fdct_4x8_col_def cols_8_15_def list.map
  by (simp add: fdct_output_def Let_def dct_consts CENTERJSAMPLE_def DESCALE_def algebra_simps del: One_nat_def)

lemma fdct_4x8_col_pass:
  "fdct_pass fdct_4x8_col (\<lambda>a j. a j - 0) (map (scaled 15) cols_8_15) 15 8 4097 (2 ^ 15 div 2) 65536"
  by (rule fdct_pass_outputs [OF fdct_4x8_col_sums cols_8_15_fits])

interpretation f4x8: fdct_pair fdct_4x8_row fdct_4x8_col
    "(map (scaled 10) rows_4_10)" 10 4 "(2 ^ 10 div 2)" 32768 "(map (scaled 15) cols_8_15)" 15 8 4097 "(2 ^ 15 div 2)" 65536
    "(real_of_int 8192 / real_of_int 1)" "((real_of_int 64 + 8) / 100)" "(real_of_int 8192 / real_of_int 1)" "((real_of_int 117 + 8) / 100)"
  by (intro fdct_pair.intro fdct_pair_axioms.intro fdct_4x8_row_pass fdct_4x8_col_pass frequencies_near [OF rows_4_10_ok] frequencies_near [OF cols_8_15_ok])
    (simp add: fdct_budget_def)

lemma jpeg_fdct_4x8_transforms:
  assumes "block_samples 8 4 sample_data start_col = Some samples"
  shows "\<exists>data. jpeg_fdct_4x8 sample_data start_col = Some data \<and> transformed 8 4 samples data"
  using assms f4x8.transforms [OF block_samples_range [OF assms]] by (simp add: jpeg_fdct_4x8_def)


section \<open>3x6 samples\<close>

definition fdct_3x6_row :: "(nat \<Rightarrow> int) \<Rightarrow> int list" where
  "fdct_3x6_row el =
    (let tmp0 = el 0 + el 2;
         tmp1 = el 1;
         tmp2 = el 0 - el 2;
         out0 = s32 ((tmp0 + tmp1 - 3 * CENTERJSAMPLE) * 2 ^ (PASS1_BITS + 1));
         out2 = DESCALE ((tmp0 - tmp1 - tmp1) * FIX13 9 707106781) (CONST_BITS - PASS1_BITS - 1);
         out1 = DESCALE (tmp2 * FIX13 9 1224744871) (CONST_BITS - PASS1_BITS - 1)
     in [out0, out1, out2])"

definition fdct_3x6_col :: "(nat \<Rightarrow> int) \<Rightarrow> int list" where
  "fdct_3x6_col dat =
    (let tmp0 = dat 0 + dat 5;
         tmp11 = dat 1 + dat 4;
         tmp2 = dat 2 + dat 3;
         tmp10 = tmp0 + tmp2;
         tmp12 = tmp0 - tmp2;
         tmp0 = dat 0 - dat 5;
         tmp1 = dat 1 - dat 4;
         tmp2 = dat 2 - dat 3;
         out0 = DESCALE ((tmp10 + tmp11) * FIX13 9 1777777778) (CONST_BITS + PASS1_BITS);
         out2 = DESCALE (tmp12 * FIX13 9 2177324216) (CONST_BITS + PASS1_BITS);
         out4 = DESCALE ((tmp10 - tmp11 - tmp11) * FIX13 9 1257078722) (CONST_BITS + PASS1_BITS);
         tmp10 = (tmp0 + tmp2) * FIX13 9 650711829;
         out1 = DESCALE (tmp10 + (tmp0 + tmp1) * FIX13 9 1777777778) (CONST_BITS + PASS1_BITS);
         out3 = DESCALE ((tmp0 - tmp1 - tmp2) * FIX13 9 1777777778) (CONST_BITS + PASS1_BITS);
         out5 = DESCALE (tmp10 + (tmp2 - tmp1) * FIX13 9 1777777778) (CONST_BITS + PASS1_BITS)
     in [out0, out1, out2, out3, out4, out5])"

definition jpeg_fdct_3x6 :: "samparray \<Rightarrow> nat \<Rightarrow> int list option" where
  "jpeg_fdct_3x6 sample_data start_col =
     map_option (fdct_passes 6 3 fdct_3x6_row fdct_3x6_col) (block_samples 6 3 sample_data start_col)"

lemma fdct_3x6_row_sums: "fdct_3x6_row el = map (fdct_output el) rows_3_10"
  unfolding fdct_3x6_row_def rows_3_10_def list.map
  by (simp add: fdct_output_def Let_def dct_consts CENTERJSAMPLE_def DESCALE_def algebra_simps del: One_nat_def)

lemma fdct_3x6_row_pass:
  "fdct_pass fdct_3x6_row (\<lambda>a j. a j - 128) (map (scaled 10) rows_3_10) 10 3 128 (2 ^ 10 div 2) 24576"
  by (rule fdct_pass_outputs [OF fdct_3x6_row_sums rows_3_10_fits])

lemma fdct_3x6_col_sums: "fdct_3x6_col dat = map (fdct_output dat) cols_6_15"
  unfolding fdct_3x6_col_def cols_6_15_def list.map
  by (simp add: fdct_output_def Let_def dct_consts CENTERJSAMPLE_def DESCALE_def algebra_simps del: One_nat_def)

lemma fdct_3x6_col_pass:
  "fdct_pass fdct_3x6_col (\<lambda>a j. a j - 0) (map (scaled 15) cols_6_15) 15 6 3073 (2 ^ 15 div 2) 87384"
  by (rule fdct_pass_outputs [OF fdct_3x6_col_sums cols_6_15_fits])

interpretation f3x6: fdct_pair fdct_3x6_row fdct_3x6_col
    "(map (scaled 10) rows_3_10)" 10 3 "(2 ^ 10 div 2)" 24576 "(map (scaled 15) cols_6_15)" 15 6 3073 "(2 ^ 15 div 2)" 87384
    "(real_of_int 8192 / real_of_int 1)" "((real_of_int 77 + 8) / 100)" "(real_of_int 131072 / real_of_int 9)" "((real_of_int 82 + 8) / 100)"
  by (intro fdct_pair.intro fdct_pair_axioms.intro fdct_3x6_row_pass fdct_3x6_col_pass frequencies_near [OF rows_3_10_ok] frequencies_near [OF cols_6_15_ok])
    (simp add: fdct_budget_def)

lemma jpeg_fdct_3x6_transforms:
  assumes "block_samples 6 3 sample_data start_col = Some samples"
  shows "\<exists>data. jpeg_fdct_3x6 sample_data start_col = Some data \<and> transformed 6 3 samples data"
  using assms f3x6.transforms [OF block_samples_range [OF assms]] by (simp add: jpeg_fdct_3x6_def)


section \<open>2x4 samples\<close>

definition fdct_2x4_row :: "(nat \<Rightarrow> int) \<Rightarrow> int list" where
  "fdct_2x4_row el =
    (let tmp0 = el 0;
         tmp1 = el 1;
         out0 = s32 ((tmp0 + tmp1 - 2 * CENTERJSAMPLE) * 2 ^ 3);
         out1 = s32 ((tmp0 - tmp1) * 2 ^ 3)
     in [out0, out1])"

definition fdct_2x4_col :: "(nat \<Rightarrow> int) \<Rightarrow> int list" where
  "fdct_2x4_col dat =
    (let tmp0 = dat 0 + dat 3;
         tmp1 = dat 1 + dat 2;
         tmp10 = dat 0 - dat 3;
         tmp11 = dat 1 - dat 2;
         out0 = s32 (tmp0 + tmp1);
         out2 = s32 (tmp0 - tmp1);
         tmp0 = (tmp10 + tmp11) * FIX_0_541196100;
         tmp0 = tmp0 + 1 * 2 ^ (CONST_BITS - 1);
         out1 = RIGHT_SHIFT (tmp0 + tmp10 * FIX_0_765366865) CONST_BITS;
         out3 = RIGHT_SHIFT (tmp0 - tmp11 * FIX_1_847759065) CONST_BITS
     in [out0, out1, out2, out3])"

definition jpeg_fdct_2x4 :: "samparray \<Rightarrow> nat \<Rightarrow> int list option" where
  "jpeg_fdct_2x4 sample_data start_col =
     map_option (fdct_passes 4 2 fdct_2x4_row fdct_2x4_col) (block_samples 4 2 sample_data start_col)"

lemma fdct_2x4_row_sums: "fdct_2x4_row el = map (fdct_output el) rows_2_0"
  unfolding fdct_2x4_row_def rows_2_0_def list.map
  by (simp add: fdct_output_def Let_def dct_consts CENTERJSAMPLE_def DESCALE_def algebra_simps del: One_nat_def)

lemma fdct_2x4_row_pass:
  "fdct_pass fdct_2x4_row (\<lambda>a j. a j - 128) (map (scaled 0) rows_2_0) 0 2 128 (2 ^ 0 div 2) 16"
  by (rule fdct_pass_outputs [OF fdct_2x4_row_sums rows_2_0_fits])

lemma fdct_2x4_col_sums: "fdct_2x4_col dat = map (fdct_output dat) cols_4_13"
  unfolding fdct_2x4_col_def cols_4_13_def list.map
  by (simp add: fdct_output_def Let_def dct_consts CENTERJSAMPLE_def DESCALE_def algebra_simps del: One_nat_def)

lemma fdct_2x4_col_pass:
  "fdct_pass fdct_2x4_col (\<lambda>a j. a j - 0) (map (scaled 13) cols_4_13) 13 4 2048 (2 ^ 13 div 2) 32768"
  by (rule fdct_pass_outputs [OF fdct_2x4_col_sums cols_4_13_fits])

interpretation f2x4: fdct_pair fdct_2x4_row fdct_2x4_col
    "(map (scaled 0) rows_2_0)" 0 2 "(2 ^ 0 div 2)" 16 "(map (scaled 13) cols_4_13)" 13 4 2048 "(2 ^ 13 div 2)" 32768
    "8" "0" "(real_of_int 8192 / real_of_int 1)" "((real_of_int 64 + 8) / 100)"
  by (intro fdct_pair.intro fdct_pair_axioms.intro fdct_2x4_row_pass fdct_2x4_col_pass rows_2_0_near frequencies_near [OF cols_4_13_ok])
    (simp add: fdct_budget_def)

lemma jpeg_fdct_2x4_transforms:
  assumes "block_samples 4 2 sample_data start_col = Some samples"
  shows "\<exists>data. jpeg_fdct_2x4 sample_data start_col = Some data \<and> transformed 4 2 samples data"
  using assms f2x4.transforms [OF block_samples_range [OF assms]] by (simp add: jpeg_fdct_2x4_def)

end
