(* ===== verification/FdctFast.thy ===== *)
theory FdctFast
  imports FdctKernels
begin

text \<open>
  The fast forward DCT, \<open>jpeg-9a/jfdctfst.c\<close>: the scaled transform of Arai, Agui and Nakajima, whose
  products are cut to integers at once.  Both passes have the same flow of data; pass 1 also takes
  the samples to signed values.
\<close>

section \<open>The routine\<close>

definition MULTIPLY8 :: "int \<Rightarrow> int \<Rightarrow> int" where
  "MULTIPLY8 var const = RIGHT_SHIFT (var * const) 8"

definition fdct_ifast_row :: "(nat \<Rightarrow> int) \<Rightarrow> int list" where
  "fdct_ifast_row el =
    (let tmp0 = el 0 + el 7;
         tmp7 = el 0 - el 7;
         tmp1 = el 1 + el 6;
         tmp6 = el 1 - el 6;
         tmp2 = el 2 + el 5;
         tmp5 = el 2 - el 5;
         tmp3 = el 3 + el 4;
         tmp4 = el 3 - el 4;
         tmp10 = tmp0 + tmp3;
         tmp13 = tmp0 - tmp3;
         tmp11 = tmp1 + tmp2;
         tmp12 = tmp1 - tmp2;
         out0 = tmp10 + tmp11 - 8 * CENTERJSAMPLE;
         out4 = tmp10 - tmp11;
         z1 = MULTIPLY8 (tmp12 + tmp13) 181;
         out2 = tmp13 + z1;
         out6 = tmp13 - z1;
         tmp10 = tmp4 + tmp5;
         tmp11 = tmp5 + tmp6;
         tmp12 = tmp6 + tmp7;
         z5 = MULTIPLY8 (tmp10 - tmp12) 98;
         z2 = MULTIPLY8 tmp10 139 + z5;
         z4 = MULTIPLY8 tmp12 334 + z5;
         z3 = MULTIPLY8 tmp11 181;
         z11 = tmp7 + z3;
         z13 = tmp7 - z3;
         out5 = z13 + z2;
         out3 = z13 - z2;
         out1 = z11 + z4;
         out7 = z11 - z4
     in [out0, out1, out2, out3, out4, out5, out6, out7])"

definition fdct_ifast_col :: "(nat \<Rightarrow> int) \<Rightarrow> int list" where
  "fdct_ifast_col dat =
    (let tmp0 = dat 0 + dat 7;
         tmp7 = dat 0 - dat 7;
         tmp1 = dat 1 + dat 6;
         tmp6 = dat 1 - dat 6;
         tmp2 = dat 2 + dat 5;
         tmp5 = dat 2 - dat 5;
         tmp3 = dat 3 + dat 4;
         tmp4 = dat 3 - dat 4;
         tmp10 = tmp0 + tmp3;
         tmp13 = tmp0 - tmp3;
         tmp11 = tmp1 + tmp2;
         tmp12 = tmp1 - tmp2;
         out0 = tmp10 + tmp11;
         out4 = tmp10 - tmp11;
         z1 = MULTIPLY8 (tmp12 + tmp13) 181;
         out2 = tmp13 + z1;
         out6 = tmp13 - z1;
         tmp10 = tmp4 + tmp5;
         tmp11 = tmp5 + tmp6;
         tmp12 = tmp6 + tmp7;
         z5 = MULTIPLY8 (tmp10 - tmp12) 98;
         z2 = MULTIPLY8 tmp10 139 + z5;
         z4 = MULTIPLY8 tmp12 334 + z5;
         z3 = MULTIPLY8 tmp11 181;
         z11 = tmp7 + z3;
         z13 = tmp7 - z3;
         out5 = z13 + z2;
         out3 = z13 - z2;
         out1 = z11 + z4;
         out7 = z11 - z4
     in [out0, out1, out2, out3, out4, out5, out6, out7])"

definition jpeg_fdct_ifast :: "samparray \<Rightarrow> nat \<Rightarrow> int list option" where
  "jpeg_fdct_ifast sample_data start_col =
     map_option (fdct_passes 8 8 fdct_ifast_row fdct_ifast_col) (block_samples 8 8 sample_data start_col)"

section \<open>The passes\<close>

text \<open>Pass 1 is the flow of pass 2, applied to the samples less 128.\<close>

lemma fdct_ifast_row_col: "fdct_ifast_row el = fdct_ifast_col (\<lambda>k. el k - CENTERJSAMPLE)"
  by (simp add: fdct_ifast_row_def fdct_ifast_col_def Let_def CENTERJSAMPLE_def algebra_simps)

lemma fdct_ifast_flat: "fdct_ifast_row (\<lambda>k. c) = [8 * (c - CENTERJSAMPLE), 0, 0, 0, 0, 0, 0, 0]"
  by (simp add: fdct_ifast_row_def Let_def MULTIPLY8_def RIGHT_SHIFT_def s32_def algebra_simps)

end
