(* ===== verification/FdctManager.thy ===== *)
theory FdctManager
  imports FdctSmall FdctLarge FdctLarger FdctWide FdctHigh FdctFast IdctManager HuffBlocks
begin

text \<open>
  Forward-DCT management, \<open>jpeg-9a/jcdctmgr.c\<close>: at the start of a pass the routine of every component
  is chosen by the size of its blocks, and its table of divisors is made from the quantisation table;
  \<open>forward_DCT\<close> then transforms the blocks and quantises the coefficients.  The floating-point routine
  and its divisors are names only.
\<close>

datatype forward_DCT_method =
    Fdct_islow | Fdct_ifast
  | Fdct_1x1 | Fdct_2x2 | Fdct_3x3 | Fdct_4x4 | Fdct_5x5 | Fdct_6x6 | Fdct_7x7 | Fdct_9x9 | Fdct_10x10 | Fdct_11x11 | Fdct_12x12 | Fdct_13x13 | Fdct_14x14
  | Fdct_15x15 | Fdct_16x16 | Fdct_16x8 | Fdct_14x7 | Fdct_12x6 | Fdct_10x5 | Fdct_8x4 | Fdct_6x3 | Fdct_4x2 | Fdct_2x1 | Fdct_8x16
  | Fdct_7x14 | Fdct_6x12 | Fdct_5x10 | Fdct_4x8 | Fdct_3x6 | Fdct_2x4 | Fdct_1x2

type_synonym fdct_routine = "samparray \<Rightarrow> nat \<Rightarrow> int list option"

primrec do_fdct :: "forward_DCT_method \<Rightarrow> fdct_routine" where
  "do_fdct Fdct_islow = jpeg_fdct_islow"
| "do_fdct Fdct_ifast = jpeg_fdct_ifast"
| "do_fdct Fdct_1x1 = jpeg_fdct_1x1"
| "do_fdct Fdct_2x2 = jpeg_fdct_2x2"
| "do_fdct Fdct_3x3 = jpeg_fdct_3x3"
| "do_fdct Fdct_4x4 = jpeg_fdct_4x4"
| "do_fdct Fdct_5x5 = jpeg_fdct_5x5"
| "do_fdct Fdct_6x6 = jpeg_fdct_6x6"
| "do_fdct Fdct_7x7 = jpeg_fdct_7x7"
| "do_fdct Fdct_9x9 = jpeg_fdct_9x9"
| "do_fdct Fdct_10x10 = jpeg_fdct_10x10"
| "do_fdct Fdct_11x11 = jpeg_fdct_11x11"
| "do_fdct Fdct_12x12 = jpeg_fdct_12x12"
| "do_fdct Fdct_13x13 = jpeg_fdct_13x13"
| "do_fdct Fdct_14x14 = jpeg_fdct_14x14"
| "do_fdct Fdct_15x15 = jpeg_fdct_15x15"
| "do_fdct Fdct_16x16 = jpeg_fdct_16x16"
| "do_fdct Fdct_16x8 = jpeg_fdct_16x8"
| "do_fdct Fdct_14x7 = jpeg_fdct_14x7"
| "do_fdct Fdct_12x6 = jpeg_fdct_12x6"
| "do_fdct Fdct_10x5 = jpeg_fdct_10x5"
| "do_fdct Fdct_8x4 = jpeg_fdct_8x4"
| "do_fdct Fdct_6x3 = jpeg_fdct_6x3"
| "do_fdct Fdct_4x2 = jpeg_fdct_4x2"
| "do_fdct Fdct_2x1 = jpeg_fdct_2x1"
| "do_fdct Fdct_8x16 = jpeg_fdct_8x16"
| "do_fdct Fdct_7x14 = jpeg_fdct_7x14"
| "do_fdct Fdct_6x12 = jpeg_fdct_6x12"
| "do_fdct Fdct_5x10 = jpeg_fdct_5x10"
| "do_fdct Fdct_4x8 = jpeg_fdct_4x8"
| "do_fdct Fdct_3x6 = jpeg_fdct_3x6"
| "do_fdct Fdct_2x4 = jpeg_fdct_2x4"
| "do_fdct Fdct_1x2 = jpeg_fdct_1x2"

text \<open>
  The routine that \<open>start_pass_fdctmgr\<close> stores, in \<open>do_dct\<close> or else in \<open>do_float_dct\<close>, and the kind of
  table it needs.
\<close>

datatype chosen_fdct = Integer_fdct forward_DCT_method | Float_fdct

definition select_fdct :: "dct_method \<Rightarrow> nat \<Rightarrow> nat \<Rightarrow> (chosen_fdct \<times> dct_method) result" where
  "select_fdct dct_method h_size v_size =
     (let size_code = h_size * 2 ^ 8 + v_size in
      if size_code = 1 * 2 ^ 8 + 1 then Inr (Integer_fdct Fdct_1x1, JDCT_ISLOW) else
      if size_code = 2 * 2 ^ 8 + 2 then Inr (Integer_fdct Fdct_2x2, JDCT_ISLOW) else
      if size_code = 3 * 2 ^ 8 + 3 then Inr (Integer_fdct Fdct_3x3, JDCT_ISLOW) else
      if size_code = 4 * 2 ^ 8 + 4 then Inr (Integer_fdct Fdct_4x4, JDCT_ISLOW) else
      if size_code = 5 * 2 ^ 8 + 5 then Inr (Integer_fdct Fdct_5x5, JDCT_ISLOW) else
      if size_code = 6 * 2 ^ 8 + 6 then Inr (Integer_fdct Fdct_6x6, JDCT_ISLOW) else
      if size_code = 7 * 2 ^ 8 + 7 then Inr (Integer_fdct Fdct_7x7, JDCT_ISLOW) else
      if size_code = 9 * 2 ^ 8 + 9 then Inr (Integer_fdct Fdct_9x9, JDCT_ISLOW) else
      if size_code = 10 * 2 ^ 8 + 10 then Inr (Integer_fdct Fdct_10x10, JDCT_ISLOW) else
      if size_code = 11 * 2 ^ 8 + 11 then Inr (Integer_fdct Fdct_11x11, JDCT_ISLOW) else
      if size_code = 12 * 2 ^ 8 + 12 then Inr (Integer_fdct Fdct_12x12, JDCT_ISLOW) else
      if size_code = 13 * 2 ^ 8 + 13 then Inr (Integer_fdct Fdct_13x13, JDCT_ISLOW) else
      if size_code = 14 * 2 ^ 8 + 14 then Inr (Integer_fdct Fdct_14x14, JDCT_ISLOW) else
      if size_code = 15 * 2 ^ 8 + 15 then Inr (Integer_fdct Fdct_15x15, JDCT_ISLOW) else
      if size_code = 16 * 2 ^ 8 + 16 then Inr (Integer_fdct Fdct_16x16, JDCT_ISLOW) else
      if size_code = 16 * 2 ^ 8 + 8 then Inr (Integer_fdct Fdct_16x8, JDCT_ISLOW) else
      if size_code = 14 * 2 ^ 8 + 7 then Inr (Integer_fdct Fdct_14x7, JDCT_ISLOW) else
      if size_code = 12 * 2 ^ 8 + 6 then Inr (Integer_fdct Fdct_12x6, JDCT_ISLOW) else
      if size_code = 10 * 2 ^ 8 + 5 then Inr (Integer_fdct Fdct_10x5, JDCT_ISLOW) else
      if size_code = 8 * 2 ^ 8 + 4 then Inr (Integer_fdct Fdct_8x4, JDCT_ISLOW) else
      if size_code = 6 * 2 ^ 8 + 3 then Inr (Integer_fdct Fdct_6x3, JDCT_ISLOW) else
      if size_code = 4 * 2 ^ 8 + 2 then Inr (Integer_fdct Fdct_4x2, JDCT_ISLOW) else
      if size_code = 2 * 2 ^ 8 + 1 then Inr (Integer_fdct Fdct_2x1, JDCT_ISLOW) else
      if size_code = 8 * 2 ^ 8 + 16 then Inr (Integer_fdct Fdct_8x16, JDCT_ISLOW) else
      if size_code = 7 * 2 ^ 8 + 14 then Inr (Integer_fdct Fdct_7x14, JDCT_ISLOW) else
      if size_code = 6 * 2 ^ 8 + 12 then Inr (Integer_fdct Fdct_6x12, JDCT_ISLOW) else
      if size_code = 5 * 2 ^ 8 + 10 then Inr (Integer_fdct Fdct_5x10, JDCT_ISLOW) else
      if size_code = 4 * 2 ^ 8 + 8 then Inr (Integer_fdct Fdct_4x8, JDCT_ISLOW) else
      if size_code = 3 * 2 ^ 8 + 6 then Inr (Integer_fdct Fdct_3x6, JDCT_ISLOW) else
      if size_code = 2 * 2 ^ 8 + 4 then Inr (Integer_fdct Fdct_2x4, JDCT_ISLOW) else
      if size_code = 1 * 2 ^ 8 + 2 then Inr (Integer_fdct Fdct_1x2, JDCT_ISLOW) else
      if size_code = DCTSIZE * 2 ^ 8 + DCTSIZE then
        (case dct_method of
           JDCT_ISLOW \<Rightarrow> Inr (Integer_fdct Fdct_islow, JDCT_ISLOW)
         | JDCT_IFAST \<Rightarrow> Inr (Integer_fdct Fdct_ifast, JDCT_IFAST)
         | JDCT_FLOAT \<Rightarrow> Inr (Float_fdct, JDCT_FLOAT)
         | JDCT_other \<Rightarrow> Inl JERR_NOT_COMPILED)
      else Inl (JERR_BAD_DCTSIZE h_size v_size))"

text \<open>
  \<open>divisor_table\<close>: \<open>No_divisors\<close> is the storage \<open>jinit_forward_dct\<close> allocates; \<open>Float_array\<close> holds the
  quantisation values the floating-point divisors are made from, and whether the component is needed.
\<close>

datatype divisor_table = No_divisors | Int_array "int list" | Float_array "nat list" bool

definition make_divisors :: "dct_method \<Rightarrow> quant_tbl \<Rightarrow> bool \<Rightarrow> divisor_table result" where
  "make_divisors dct_method qtbl needed =
     (case dct_method of
        JDCT_ISLOW \<Rightarrow> Inr (Int_array (map (\<lambda>q. int q * 2 ^ (if needed then 4 else 3)) (quantval qtbl)))
      | JDCT_IFAST \<Rightarrow> Inr (Int_array (map2 (\<lambda>q s. DESCALE (int q * s) (if needed then 14 - 4 else 14 - 3)) (quantval qtbl) aanscales))
      | JDCT_FLOAT \<Rightarrow> Inr (Float_array (quantval qtbl) needed)
      | JDCT_other \<Rightarrow> Inl JERR_NOT_COMPILED)"

record fdct_component =
  h_scaled_size :: nat
  v_scaled_size :: nat
  needed :: bool
  quant_no :: nat
  divisors :: divisor_table

record fdct_controller =
  do_dct :: "chosen_fdct option list"
  fdct_comps :: "fdct_component list"

definition jinit_forward_dct :: "fdct_component list \<Rightarrow> fdct_controller" where
  "jinit_forward_dct comps =
     \<lparr>do_dct = replicate (length comps) None, fdct_comps = map (divisors_update (\<lambda>_. No_divisors)) comps\<rparr>"

definition start_pass_fdct_component ::
  "dct_method \<Rightarrow> quant_tbl option list \<Rightarrow> nat \<Rightarrow> fdct_controller \<Rightarrow> fdct_controller result" where
  "start_pass_fdct_component dct_method quant_tbls ci fdct =
     (let compptr = fdct_comps fdct ! ci; qtblno = quant_no compptr in
      bind_err (select_fdct dct_method (h_scaled_size compptr) (v_scaled_size compptr)) (\<lambda>(routine, method).
        if NUM_QUANT_TBLS \<le> qtblno then Inl (JERR_NO_QUANT_TABLE qtblno)
        else (case quant_tbls ! qtblno of
            None \<Rightarrow> Inl (JERR_NO_QUANT_TABLE qtblno)
          | Some qtbl \<Rightarrow> bind_err (make_divisors method qtbl (needed compptr)) (\<lambda>dtbl.
              Inr (fdct\<lparr>do_dct := (do_dct fdct)[ci := Some routine],
                        fdct_comps := (fdct_comps fdct)[ci := compptr\<lparr>divisors := dtbl\<rparr>]\<rparr>)))))"

fun start_pass_fdct_components ::
  "dct_method \<Rightarrow> quant_tbl option list \<Rightarrow> nat list \<Rightarrow> fdct_controller \<Rightarrow> fdct_controller result" where
  "start_pass_fdct_components dct_method quant_tbls [] fdct = Inr fdct"
| "start_pass_fdct_components dct_method quant_tbls (ci # todo) fdct =
     bind_err (start_pass_fdct_component dct_method quant_tbls ci fdct)
       (start_pass_fdct_components dct_method quant_tbls todo)"

definition start_pass_fdctmgr :: "dct_method \<Rightarrow> quant_tbl option list \<Rightarrow> fdct_controller \<Rightarrow> fdct_controller result" where
  "start_pass_fdctmgr dct_method quant_tbls fdct =
     start_pass_fdct_components dct_method quant_tbls [0..<length (fdct_comps fdct)] fdct"

section \<open>Quantisation\<close>

text \<open>\<open>DIVIDE_BY\<close>; dividing by 0 is a fault.\<close>

definition DIVIDE_BY :: "int \<Rightarrow> int \<Rightarrow> int option" where
  "DIVIDE_BY a b = (if a \<ge> b then if b = 0 then None else Some (cdiv a b) else Some 0)"

definition quantize :: "int \<Rightarrow> int \<Rightarrow> int option" where
  "quantize qval temp =
     (if temp < 0
      then map_option (\<lambda>t. jcoef (- t)) (DIVIDE_BY (s32 (s32 (- temp) + RIGHT_SHIFT qval 1)) qval)
      else map_option jcoef (DIVIDE_BY (s32 (temp + RIGHT_SHIFT qval 1)) qval))"

fun quantize_block :: "int list \<Rightarrow> int list \<Rightarrow> int list option" where
  "quantize_block (qval # qvals) (temp # workspace) =
     (case quantize qval temp of None \<Rightarrow> None
      | Some c \<Rightarrow> map_option ((#) c) (quantize_block qvals workspace))"
| "quantize_block qvals workspace = Some []"

text \<open>
  \<open>forward_DCT\<close> for the routine and the divisors of a component: \<open>num_blocks\<close> blocks from
  \<open>start_col\<close> on, each \<open>DCT_h_scaled_size\<close> samples behind the one before.
\<close>

fun forward_DCT_blocks :: "fdct_routine \<Rightarrow> int list \<Rightarrow> nat \<Rightarrow> samparray \<Rightarrow> nat \<Rightarrow> nat \<Rightarrow> int list list option" where
  "forward_DCT_blocks routine divs h_size sample_data start_col 0 = Some []"
| "forward_DCT_blocks routine divs h_size sample_data start_col (Suc num_blocks) =
     (case routine sample_data start_col of None \<Rightarrow> None
      | Some workspace \<Rightarrow>
         (case quantize_block divs workspace of None \<Rightarrow> None
          | Some output \<Rightarrow> map_option ((#) output)
              (forward_DCT_blocks routine divs h_size sample_data (start_col + h_size) num_blocks)))"

definition forward_DCT :: "fdct_controller \<Rightarrow> nat \<Rightarrow> samparray \<Rightarrow> nat \<Rightarrow> nat \<Rightarrow> nat \<Rightarrow> int list list option" where
  "forward_DCT fdct ci sample_data start_row start_col num_blocks =
     (case (do_dct fdct ! ci, divisors (fdct_comps fdct ! ci)) of
        (Some (Integer_fdct m), Int_array divs) \<Rightarrow>
          forward_DCT_blocks (do_fdct m) divs (h_scaled_size (fdct_comps fdct ! ci)) (drop start_row sample_data) start_col num_blocks
      | _ \<Rightarrow> None)"

section \<open>The start of a pass\<close>

text \<open>Component \<open>ci\<close> has its routine and its divisors.\<close>

definition fdct_prepared :: "dct_method \<Rightarrow> quant_tbl option list \<Rightarrow> fdct_component \<Rightarrow> fdct_controller \<Rightarrow> nat \<Rightarrow> bool" where
  "fdct_prepared dct_method quant_tbls c fdct ci \<longleftrightarrow>
     (\<exists>routine meth qtbl t. select_fdct dct_method (h_scaled_size c) (v_scaled_size c) = Inr (routine, meth) \<and>
        quant_no c < NUM_QUANT_TBLS \<and> quant_tbls ! quant_no c = Some qtbl \<and>
        make_divisors meth qtbl (needed c) = Inr t \<and>
        do_dct fdct ! ci = Some routine \<and> fdct_comps fdct ! ci = c\<lparr>divisors := t\<rparr>)"

definition fdct_ok :: "fdct_controller \<Rightarrow> bool" where
  "fdct_ok fdct \<longleftrightarrow> length (do_dct fdct) = length (fdct_comps fdct)"

lemma jinit_forward_dct_ok: "fdct_ok (jinit_forward_dct comps)"
  by (simp add: fdct_ok_def jinit_forward_dct_def)

lemma start_pass_fdct_component_step:
  assumes ok: "fdct_ok fdct" and ci: "ci < length (fdct_comps fdct)"
    and step: "start_pass_fdct_component dct_method quant_tbls ci fdct = Inr fdct'"
  shows "fdct_ok fdct'" "length (fdct_comps fdct') = length (fdct_comps fdct)"
    "fdct_prepared dct_method quant_tbls (fdct_comps fdct ! ci) fdct' ci"
    "cj \<noteq> ci \<Longrightarrow> do_dct fdct' ! cj = do_dct fdct ! cj \<and> fdct_comps fdct' ! cj = fdct_comps fdct ! cj"
  using assms
  by (auto simp: start_pass_fdct_component_def fdct_ok_def fdct_prepared_def Let_def bind_err_Inr split: if_splits option.splits)

lemma start_pass_fdct_components_result:
  assumes "fdct_ok fdct" "set todo \<subseteq> {..<length (fdct_comps fdct)}" "distinct todo"
    and "start_pass_fdct_components dct_method quant_tbls todo fdct = Inr fdct'"
  shows "(\<forall>ci\<in>set todo. fdct_prepared dct_method quant_tbls (fdct_comps fdct ! ci) fdct' ci) \<and>
    (\<forall>cj. cj \<notin> set todo \<longrightarrow> do_dct fdct' ! cj = do_dct fdct ! cj \<and> fdct_comps fdct' ! cj = fdct_comps fdct ! cj)"
  using assms
proof (induction todo arbitrary: fdct)
  case Nil
  then show ?case by simp
next
  case (Cons ci todo)
  then obtain mid where mid: "start_pass_fdct_component dct_method quant_tbls ci fdct = Inr mid"
    "start_pass_fdct_components dct_method quant_tbls todo mid = Inr fdct'"
    by (auto simp: bind_err_Inr)
  have ci: "ci < length (fdct_comps fdct)" "ci \<notin> set todo" using Cons.prems(2,3) by simp_all
  note step = start_pass_fdct_component_step [OF Cons.prems(1) ci(1) mid(1)]
  have rest: "(\<forall>ci\<in>set todo. fdct_prepared dct_method quant_tbls (fdct_comps mid ! ci) fdct' ci) \<and>
      (\<forall>cj. cj \<notin> set todo \<longrightarrow> do_dct fdct' ! cj = do_dct mid ! cj \<and> fdct_comps fdct' ! cj = fdct_comps mid ! cj)"
    using Cons.IH [OF step(1) _ _ mid(2)] Cons.prems(2,3) step(2) by simp
  then have "fdct_prepared dct_method quant_tbls (fdct_comps fdct ! ci) fdct' ci"
    using step(3) ci(2) by (simp add: fdct_prepared_def)
  moreover have "fdct_comps mid ! cj = fdct_comps fdct ! cj" if "cj \<in> set todo" for cj
    using step(4) [of cj] ci(2) that by auto
  ultimately show ?case using rest step(4) by auto
qed

lemma start_pass_fdctmgr_result:
  assumes "fdct_ok fdct" "start_pass_fdctmgr dct_method quant_tbls fdct = Inr fdct'" "ci < length (fdct_comps fdct)"
  shows "fdct_prepared dct_method quant_tbls (fdct_comps fdct ! ci) fdct' ci"
  using start_pass_fdct_components_result [of fdct "[0..<length (fdct_comps fdct)]" dct_method quant_tbls fdct'] assms
  by (auto simp: start_pass_fdctmgr_def atLeast0LessThan)

lemmas routines_transform = jpeg_fdct_islow_transforms jpeg_fdct_1x1_transforms jpeg_fdct_2x2_transforms jpeg_fdct_3x3_transforms
  jpeg_fdct_4x4_transforms jpeg_fdct_5x5_transforms jpeg_fdct_6x6_transforms jpeg_fdct_7x7_transforms
  jpeg_fdct_9x9_transforms jpeg_fdct_10x10_transforms jpeg_fdct_11x11_transforms jpeg_fdct_13x13_transforms
  jpeg_fdct_15x15_transforms jpeg_fdct_16x16_transforms jpeg_fdct_16x8_transforms jpeg_fdct_10x5_transforms
  jpeg_fdct_8x4_transforms jpeg_fdct_6x3_transforms jpeg_fdct_4x2_transforms jpeg_fdct_2x1_transforms
  jpeg_fdct_8x16_transforms jpeg_fdct_7x14_transforms jpeg_fdct_6x12_transforms jpeg_fdct_5x10_transforms
  jpeg_fdct_4x8_transforms jpeg_fdct_3x6_transforms jpeg_fdct_2x4_transforms jpeg_fdct_1x2_transforms

text \<open>The rows of the 12- and 14-point routines are not transformed as they should be.\<close>

lemma select_fdct_transforms:
  assumes sel: "select_fdct dct_method h v = Inr (Integer_fdct m, JDCT_ISLOW)" and v: "v < 256" and h: "h \<noteq> 12" "h \<noteq> 14"
    and s: "block_samples v h sample_data start_col = Some samples"
  shows "\<exists>data. do_fdct m sample_data start_col = Some data \<and> transformed v h samples data"
  using sel routines_transform h s
  unfolding select_fdct_def Let_def DCTSIZE_def size_code [OF v]
  by (auto split: if_splits dct_method.splits)

section \<open>Quantised coefficients\<close>

lemma fdct_exact_bound:
  assumes x: "\<And>r c. r < H \<Longrightarrow> c < W \<Longrightarrow> 0 \<le> x r c \<and> x r c \<le> 255"
  shows "\<bar>fdct_exact H W x u v\<bar> \<le> 16387"
proof -
  have entry: "\<bar>dct_basis W c v * real_of_int (x r c - 128)\<bar> \<le> 1.4143 * 128" if "r < H" "c < W" for r c
  proof -
    have "\<bar>real_of_int (x r c - 128)\<bar> \<le> 128" using x [OF that] by auto
    then show ?thesis unfolding abs_mult by (intro mult_mono dct_basis_bound) simp_all
  qed
  have rows: "\<bar>\<Sum>c<W. dct_basis W c v * real_of_int (x r c - 128)\<bar> \<le> real W * (1.4143 * 128)" if "r < H" for r
    using sum_bounded_above [of "{..<W}" "\<lambda>c. \<bar>dct_basis W c v * real_of_int (x r c - 128)\<bar>" "1.4143 * 128"] entry [OF that]
    by (intro order_trans [OF sum_abs]) simp
  have "\<bar>dct_basis H r u * (\<Sum>c<W. dct_basis W c v * real_of_int (x r c - 128))\<bar> \<le> 1.4143 * (real W * (1.4143 * 128))"
    if "r < H" for r
    unfolding abs_mult using rows [OF that] by (intro mult_mono dct_basis_bound) simp_all
  then have "\<bar>\<Sum>r<H. dct_basis H r u * (\<Sum>c<W. dct_basis W c v * real_of_int (x r c - 128))\<bar>
      \<le> real H * (1.4143 * (real W * (1.4143 * 128)))"
    using sum_bounded_above [of "{..<H}" "\<lambda>r. \<bar>dct_basis H r u * (\<Sum>c<W. dct_basis W c v * real_of_int (x r c - 128))\<bar>"
      "1.4143 * (real W * (1.4143 * 128))"]
    by (intro order_trans [OF sum_abs]) simp
  then have "\<bar>fdct_exact H W x u v\<bar> \<le> 64 / (real H * real W) * (real H * (1.4143 * (real W * (1.4143 * 128))))"
    unfolding fdct_exact_def abs_mult by (intro mult_mono) simp_all
  also have "\<dots> \<le> 16387" by (cases "H = 0 \<or> W = 0") auto
  finally show ?thesis .
qed

lemma rounded_quotient:
  fixes t q :: int
  assumes "0 < q" "0 \<le> t"
  shows "\<bar>(t + q div 2) div q * q - t\<bar> \<le> q div 2" "0 \<le> (t + q div 2) div q"
proof -
  have "(t + q div 2) div q * q = t + q div 2 - (t + q div 2) mod q"
    by (simp add: minus_mod_eq_div_mult [symmetric])
  moreover have "0 \<le> (t + q div 2) mod q" "(t + q div 2) mod q < q" using assms by simp_all
  moreover have "q - q div 2 - 1 \<le> q div 2" by simp
  ultimately show "\<bar>(t + q div 2) div q * q - t\<bar> \<le> q div 2" by linarith
  have "0 \<le> t + q div 2" using assms by simp
  then show "0 \<le> (t + q div 2) div q" using assms(1) by (simp add: pos_imp_zdiv_nonneg_iff)
qed

lemma DIVIDE_BY_rounds:
  assumes q: "8 \<le> q" "q \<le> 1048560" and t: "0 \<le> t" "t \<le> 16395"
  shows "\<exists>y. DIVIDE_BY (s32 (t + RIGHT_SHIFT q 1)) q = Some y \<and> \<bar>y * q - t\<bar> \<le> q div 2 \<and> 0 \<le> y \<and> y \<le> 2050"
proof -
  have h: "RIGHT_SHIFT q 1 = q div 2" using q by (simp add: RIGHT_SHIFT_def s32_id in_s32_def)
  have a: "s32 (t + RIGHT_SHIFT q 1) = t + q div 2"
    by (subst h, rule s32_id) (use q t in \<open>simp add: in_s32_def; linarith\<close>)
  have d: "DIVIDE_BY (t + q div 2) q = Some ((t + q div 2) div q)"
    using q t by (simp add: DIVIDE_BY_def cdiv_nonneg)
  note r = rounded_quotient [of q t]
  define y where "y = (t + q div 2) div q"
  have y: "\<bar>y * q - t\<bar> \<le> q div 2" "0 \<le> y" using r q(1) t(1) unfolding y_def by simp_all
  have "y \<le> 2050"
  proof (rule ccontr)
    assume "\<not> y \<le> 2050"
    then have "2051 * q \<le> y * q" using q by (intro mult_right_mono) simp_all
    then show False using y(1) q(1) t(2) by linarith
  qed
  then show ?thesis using y unfolding a d y_def by blast
qed

lemma jcoef_small: "\<bar>y\<bar> \<le> 2050 \<Longrightarrow> jcoef y = y"
  unfolding jcoef_def by simp

lemma quantize_near:
  assumes q: "8 \<le> q" "q \<le> 1048560" and t: "\<bar>t\<bar> \<le> 16395"
  shows "\<exists>y. quantize q t = Some y \<and> \<bar>y * q - t\<bar> \<le> q div 2 \<and> \<bar>y\<bar> \<le> 2050"
proof (cases "t < 0")
  case True
  have s: "s32 (- t) = - t" by (rule s32_id) (use t in \<open>simp_all add: in_s32_def abs_le_iff\<close>)
  obtain y where y: "DIVIDE_BY (s32 (- t + RIGHT_SHIFT q 1)) q = Some y" "\<bar>y * q - - t\<bar> \<le> q div 2" "0 \<le> y" "y \<le> 2050"
    using DIVIDE_BY_rounds [OF q, of "- t"] t True by auto
  then show ?thesis using True by (intro exI [of _ "- y"]) (simp add: quantize_def s jcoef_small)
next
  case False
  then obtain y where "DIVIDE_BY (s32 (t + RIGHT_SHIFT q 1)) q = Some y" "\<bar>y * q - t\<bar> \<le> q div 2" "0 \<le> y" "y \<le> 2050"
    using DIVIDE_BY_rounds [OF q, of t] t by auto
  then show ?thesis using False by (intro exI [of _ y]) (simp add: quantize_def jcoef_small)
qed

lemma quantize_block_near:
  assumes "length divs = length ws" "\<forall>q\<in>set divs. 8 \<le> q \<and> q \<le> 1048560" "\<forall>t\<in>set ws. \<bar>t\<bar> \<le> 16395"
  shows "\<exists>out. quantize_block divs ws = Some out \<and> length out = length ws \<and>
    (\<forall>i<length ws. \<bar>out ! i * divs ! i - ws ! i\<bar> \<le> divs ! i div 2 \<and> \<bar>out ! i\<bar> \<le> 2050)"
  using assms
proof (induction divs ws rule: list_induct2)
  case Nil
  then show ?case by simp
next
  case (Cons q divs t ws)
  obtain y where y: "quantize q t = Some y" "\<bar>y * q - t\<bar> \<le> q div 2 \<and> \<bar>y\<bar> \<le> 2050"
    using quantize_near [of q t] Cons.prems by auto
  obtain out where out: "quantize_block divs ws = Some out" "length out = length ws"
      "\<forall>i<length ws. \<bar>out ! i * divs ! i - ws ! i\<bar> \<le> divs ! i div 2 \<and> \<bar>out ! i\<bar> \<le> 2050"
    using Cons.IH Cons.prems by auto
  then show ?case using y by (intro exI [of _ "y # out"]) (auto simp: less_Suc_eq_0_disj)
qed

text \<open>
  \<open>coded H W divs samples coefs\<close>: each coefficient times its divisor is the exact transform up to
  half the divisor and 8 (the divisors are 8 or 16 times the quantisation values, so this is half a
  quantisation step and at most one unit); those behind the block's frequencies are zero, and all
  fit a coefficient of at most 12 bits.
\<close>

definition coded :: "nat \<Rightarrow> nat \<Rightarrow> int list \<Rightarrow> int list list \<Rightarrow> int list \<Rightarrow> bool" where
  "coded H W divs samples coefs \<longleftrightarrow> length coefs = DCTSIZE2 \<and> (\<forall>i<DCTSIZE2. \<bar>coefs ! i\<bar> \<le> 2050) \<and>
     (\<forall>u<DCTSIZE. \<forall>v<DCTSIZE.
        if u < min 8 H \<and> v < min 8 W
        then \<bar>real_of_int (coefs ! (DCTSIZE * u + v) * divs ! (DCTSIZE * u + v)) - fdct_exact H W (\<lambda>r c. samples ! r ! c) u v\<bar>
          \<le> real_of_int (divs ! (DCTSIZE * u + v)) / 2 + 8
        else coefs ! (DCTSIZE * u + v) = 0)"

lemma transformed_bound:
  assumes tr: "transformed H W samples data" and i: "i < DCTSIZE2"
    and x: "\<And>r c. r < H \<Longrightarrow> c < W \<Longrightarrow> 0 \<le> samples ! r ! c \<and> samples ! r ! c \<le> 255"
  shows "\<bar>data ! i\<bar> \<le> 16395"
proof -
  define u v where "u = i div DCTSIZE" and "v = i mod DCTSIZE"
  have uv: "u < DCTSIZE" "v < DCTSIZE" "DCTSIZE * u + v = i"
    using i by (auto simp: u_def v_def DCTSIZE_def DCTSIZE2_def)
  show ?thesis
  proof (cases "u < min 8 H \<and> v < min 8 W")
    case True
    then have "\<bar>real_of_int (data ! i) - fdct_exact H W (\<lambda>r c. samples ! r ! c) u v\<bar> \<le> 8"
      using tr uv unfolding transformed_def by metis
    then have "\<bar>real_of_int (data ! i)\<bar> \<le> 16395"
      using fdct_exact_bound [of H W "\<lambda>r c. samples ! r ! c" u v, OF x] by linarith
    then show ?thesis by linarith
  next
    case False
    then have "data ! i = 0" using tr uv unfolding transformed_def by metis
    then show ?thesis by simp
  qed
qed

lemma transformed_coded:
  assumes tr: "transformed H W samples data" and len: "length divs = DCTSIZE2"
    and divs: "\<forall>q\<in>set divs. 8 \<le> q \<and> q \<le> 1048560"
    and x: "\<And>r c. r < H \<Longrightarrow> c < W \<Longrightarrow> 0 \<le> samples ! r ! c \<and> samples ! r ! c \<le> 255"
  shows "\<exists>out. quantize_block divs data = Some out \<and> coded H W divs samples out"
proof -
  have ld: "length data = DCTSIZE2" using tr by (simp add: transformed_def)
  have "\<forall>t\<in>set data. \<bar>t\<bar> \<le> 16395" using transformed_bound [OF tr _ x] by (auto simp: in_set_conv_nth ld)
  then obtain out where out: "quantize_block divs data = Some out" "length out = DCTSIZE2"
      "\<And>i. i < DCTSIZE2 \<Longrightarrow> \<bar>out ! i * divs ! i - data ! i\<bar> \<le> divs ! i div 2 \<and> \<bar>out ! i\<bar> \<le> 2050"
    using quantize_block_near [of divs data] divs by (auto simp: len ld)
  have "if u < min 8 H \<and> v < min 8 W
        then \<bar>real_of_int (out ! (DCTSIZE * u + v) * divs ! (DCTSIZE * u + v)) - fdct_exact H W (\<lambda>r c. samples ! r ! c) u v\<bar>
          \<le> real_of_int (divs ! (DCTSIZE * u + v)) / 2 + 8
        else out ! (DCTSIZE * u + v) = 0" if uv: "u < DCTSIZE" "v < DCTSIZE" for u v
  proof -
    define i where "i = DCTSIZE * u + v"
    have i: "i < DCTSIZE2" using uv by (simp add: i_def DCTSIZE_def DCTSIZE2_def)
    have d: "8 \<le> divs ! i" using divs i len nth_mem [of i divs] by simp
    note o = out(3) [OF i]
    show ?thesis
    proof (cases "u < min 8 H \<and> v < min 8 W")
      case True
      then have "\<bar>real_of_int (data ! i) - fdct_exact H W (\<lambda>r c. samples ! r ! c) u v\<bar> \<le> 8"
        using tr uv unfolding transformed_def i_def by metis
      moreover have "\<bar>real_of_int (out ! i * divs ! i) - real_of_int (data ! i)\<bar> \<le> real_of_int (divs ! i div 2)"
        using o by linarith
      moreover have "real_of_int (divs ! i div 2) \<le> real_of_int (divs ! i) / 2" by linarith
      ultimately show ?thesis using True unfolding i_def [symmetric] by auto
    next
      case False
      then have "data ! i = 0" using tr uv unfolding transformed_def i_def by metis
      then have "\<bar>out ! i\<bar> * divs ! i \<le> divs ! i div 2" using o d by (simp add: abs_mult)
      moreover have "divs ! i \<le> \<bar>out ! i\<bar> * divs ! i" if "out ! i \<noteq> 0"
        using mult_right_mono [of 1 "\<bar>out ! i\<bar>" "divs ! i"] d that by simp
      ultimately have "out ! i = 0" using d by linarith
      then show ?thesis using False unfolding i_def [symmetric] by auto
    qed
  qed
  then show ?thesis using out unfolding coded_def by blast
qed

lemma forward_DCT_blocks_coded:
  assumes routine: "\<And>col samples. block_samples H W sample_data col = Some samples \<Longrightarrow>
      \<exists>data. routine sample_data col = Some data \<and> transformed H W samples data"
    and divs: "length divs = DCTSIZE2" "\<forall>q\<in>set divs. 8 \<le> q \<and> q \<le> 1048560"
    and fit: "rows_fit sample_data H (start_col + n * W)"
  shows "\<exists>blocks. forward_DCT_blocks routine divs W sample_data start_col n = Some blocks \<and> length blocks = n \<and>
    (\<forall>b<n. \<exists>samples. block_samples H W sample_data (start_col + b * W) = Some samples \<and> coded H W divs samples (blocks ! b))"
  using fit
proof (induction n arbitrary: start_col)
  case 0
  then show ?case by simp
next
  case (Suc n)
  have "rows_fit sample_data H (start_col + W)" "rows_fit sample_data H (start_col + W + n * W)"
    using Suc.prems by (auto simp: rows_fit_def)
  then obtain samples where s: "block_samples H W sample_data start_col = Some samples"
    by (simp add: block_samples_def)
  obtain data where data: "routine sample_data start_col = Some data" "transformed H W samples data"
    using routine [OF s] by blast
  obtain out where out: "quantize_block divs data = Some out" "coded H W divs samples out"
    using transformed_coded [OF data(2) divs block_samples_range [OF s]] by blast
  obtain blocks where b: "forward_DCT_blocks routine divs W sample_data (start_col + W) n = Some blocks" "length blocks = n"
      "\<forall>b<n. \<exists>samples. block_samples H W sample_data (start_col + W + b * W) = Some samples \<and> coded H W divs samples (blocks ! b)"
    using Suc.IH [OF \<open>rows_fit sample_data H (start_col + W + n * W)\<close>] by blast
  show ?case using data out b s
    by (intro exI [of _ "out # blocks"]) (auto simp: less_Suc_eq_0_disj add.assoc)
qed

definition divisors_of :: "bool \<Rightarrow> quant_tbl \<Rightarrow> int list" where
  "divisors_of need qtbl = map (\<lambda>q. int q * (if need then 16 else 8)) (quantval qtbl)"

lemma make_divisors_islow: "make_divisors JDCT_ISLOW qtbl need = Inr (Int_array (divisors_of need qtbl))"
  by (simp add: make_divisors_def divisors_of_def)

lemma divisors_of_range:
  assumes "\<forall>q\<in>set (quantval qtbl). 0 < q \<and> q \<le> 65535"
  shows "\<forall>q\<in>set (divisors_of need qtbl). 8 \<le> q \<and> q \<le> 1048560"
  using assms by (fastforce simp: divisors_of_def)

text \<open>
  C4: after the start of a pass, for every component whose quantisation values are positive 16-bit
  values, whose block size is one \<open>jcdctmgr.c\<close> knows and is not 12 or 14 samples wide, and which is
  not sent to the fast or the floating-point routine, \<open>forward_DCT\<close> turns any row of blocks inside
  the sample array into that many blocks of coefficients: each, multiplied by its divisor, is the
  exact scaled DCT of the block's level-shifted samples up to half the divisor plus 8 (half a
  quantisation step plus at most one unit), coefficients for frequencies the block does not have are zero,
  and none exceeds 2050.
\<close>

theorem forward_dct_accurate:
  assumes ok: "fdct_ok fdct" and start: "start_pass_fdctmgr dct_method quant_tbls fdct = Inr fdct'"
    and ci: "ci < length (fdct_comps fdct)" and c: "c = fdct_comps fdct ! ci"
    and q: "quant_tbls ! quant_no c = Some qtbl" "length (quantval qtbl) = DCTSIZE2"
      "\<forall>q\<in>set (quantval qtbl). 0 < q \<and> q \<le> 65535"
    and size: "v_scaled_size c < 256" "h_scaled_size c \<noteq> 12" "h_scaled_size c \<noteq> 14"
    and islow: "do_dct fdct' ! ci \<noteq> Some (Integer_fdct Fdct_ifast)" "do_dct fdct' ! ci \<noteq> Some Float_fdct"
    and fit: "rows_fit (drop start_row sample_data) (v_scaled_size c) (start_col + num_blocks * h_scaled_size c)"
  shows "\<exists>blocks. forward_DCT fdct' ci sample_data start_row start_col num_blocks = Some blocks \<and> length blocks = num_blocks \<and>
    (\<forall>b<num_blocks. \<exists>samples.
      block_samples (v_scaled_size c) (h_scaled_size c) (drop start_row sample_data) (start_col + b * h_scaled_size c) = Some samples \<and>
      coded (v_scaled_size c) (h_scaled_size c) (divisors_of (needed c) qtbl) samples (blocks ! b))"
proof -
  obtain routine meth t where sel: "select_fdct dct_method (h_scaled_size c) (v_scaled_size c) = Inr (routine, meth)"
    and t: "make_divisors meth qtbl (needed c) = Inr t"
    and fd: "do_dct fdct' ! ci = Some routine" "fdct_comps fdct' ! ci = c\<lparr>divisors := t\<rparr>"
    using start_pass_fdctmgr_result [OF ok start ci] q(1) unfolding fdct_prepared_def c by auto
  obtain m where m: "routine = Integer_fdct m" "m \<noteq> Fdct_ifast" using islow fd by (cases routine) auto
  have "meth = JDCT_ISLOW"
    using sel m unfolding select_fdct_def by (auto simp: Let_def split: if_splits dct_method.splits)
  with sel m have sel: "select_fdct dct_method (h_scaled_size c) (v_scaled_size c) = Inr (Integer_fdct m, JDCT_ISLOW)" by simp
  have t: "t = Int_array (divisors_of (needed c) qtbl)"
    using t by (simp add: \<open>meth = JDCT_ISLOW\<close> make_divisors_islow)
  have "length (divisors_of (needed c) qtbl) = DCTSIZE2" using q(2) by (simp add: divisors_of_def)
  from forward_DCT_blocks_coded [OF select_fdct_transforms [OF sel size] this divisors_of_range [OF q(3)] fit]
  show ?thesis by (simp add: forward_DCT_def fd m t)
qed

theorem forward_dct_accurate_witness:
  "\<exists>fdct' blocks. start_pass_fdctmgr JDCT_ISLOW [Some \<lparr>quantval = replicate 64 3, q_sent_table = False\<rparr>]
      (jinit_forward_dct [\<lparr>h_scaled_size = 8, v_scaled_size = 8, needed = False, quant_no = 0, divisors = No_divisors\<rparr>]) = Inr fdct' \<and>
    forward_DCT fdct' 0 (replicate 9 (replicate 20 200)) 1 4 2 = Some blocks \<and> length blocks = 2"
proof -
  let ?q = "\<lparr>quantval = replicate 64 3, q_sent_table = False\<rparr>"
  let ?c = "\<lparr>h_scaled_size = 8, v_scaled_size = 8, needed = False, quant_no = 0, divisors = No_divisors\<rparr>"
  let ?fdct = "\<lparr>do_dct = [Some (Integer_fdct Fdct_islow)], fdct_comps = [?c\<lparr>divisors := Int_array (replicate 64 24)\<rparr>]\<rparr>"
  have start: "start_pass_fdctmgr JDCT_ISLOW [Some ?q] (jinit_forward_dct [?c]) = Inr ?fdct"
    by (simp add: start_pass_fdctmgr_def jinit_forward_dct_def start_pass_fdct_component_def select_fdct_def make_divisors_def Let_def
        DCTSIZE_def NUM_QUANT_TBLS_def)
  show ?thesis
    using forward_dct_accurate [OF jinit_forward_dct_ok [of "[?c]"] start, of 0 ?c ?q 1 "replicate 9 (replicate 20 200)" 4 2] start
    by (auto simp: jinit_forward_dct_def rows_fit_def DCTSIZE2_def)
qed

end
