(* ===== verification/FdctRows.thy ===== *)
theory FdctRows
  imports FdctLarge FdctLarger FdctWide
begin

text \<open>
  The passes over rows of 12 and 14 samples in \<open>jpeg-9a/jfdctint.c\<close>.  In the routines of 12x12 and 12x6
  samples \<open>tmp14 - tmp15\<close>, in those of 14x14 and 14x7 samples \<open>tmp6\<close> is added to products that carry
  \<open>CONST_BITS\<close> fraction bits without being shifted up, so one frequency loses that term.
\<close>

section \<open>Sums that lose a term\<close>

text \<open>Row \<open>k\<close> of the factors, with 8191 times \<open>lost\<close> put back.\<close>

definition mended :: "nat \<Rightarrow> (int list \<times> int \<times> nat) list \<Rightarrow> nat \<Rightarrow> int list \<Rightarrow> int list list" where
  "mended n L k lost = (map (scaled n) L)[k := map2 (\<lambda>c e. c + 8191 * e) (scaled n (L ! k)) lost]"

definition lost_12 :: "int list" where
  "lost_12 = [0, 1, - 1, 1, - 1, 0, 0, - 1, 1, - 1, 1, 0]"

definition lost_14 :: "int list" where
  "lost_14 = [0, 0, 0, 0, 0, 0, 1, - 1, 0, 0, 0, 0, 0, 0]"

lemma mended_12: "frequencies_ok 12 8192 1 89 (mended 13 rows_12_13 2 lost_12)"
  "frequencies_ok 12 8192 1 89 (mended 11 rows_12_11 2 lost_12)"
  by code_simp+

lemma mended_14: "frequencies_ok 14 8192 1 111 (mended 13 rows_14_13 1 lost_14)"
  "frequencies_ok 14 8192 1 111 (mended 11 rows_14_11 1 lost_14)"
  by code_simp+

lemma dot_mended:
  "length cs = length ds \<Longrightarrow> dot i (map2 (\<lambda>c e. c + q * e) cs ds) x = dot i cs x + q * dot i ds x"
  by (induction cs ds arbitrary: i rule: list_induct2) (simp_all add: algebra_simps)

lemma lost_term:
  assumes ok: "frequencies_ok N 8192 1 dev (mended n L k lost)" and k: "k < min 8 N" "k < length L"
    and fit: "list_all (fdct_fits n 128 N 128 mass) L" and len: "length lost = N"
    and x: "\<And>j. j < N \<Longrightarrow> 0 \<le> x j \<and> x j \<le> 255"
  shows "\<bar>2 ^ n * real_of_int (fdct_output x (L ! k)) + 8191 * real_of_int (dot 0 lost (\<lambda>j. x j - 128))
      - 8192 * (\<Sum>i<N. dct_basis N i k * real_of_int (x i - 128))\<bar>
    \<le> real_of_int (2 ^ n div 2) + (real_of_int dev + 8) / 100 * (real N * 128)"
proof -
  obtain cs off m where e: "L ! k = (cs, off, m)" by (cases "L ! k")
  have f: "fdct_fits n 128 N 128 mass (cs, off, m)" using fit k(2) e by (metis list_all_length)
  have a: "\<bar>x j - 128\<bar> \<le> 128" if "j < N" for j using x [OF that] by (simp add: abs_le_iff)
  have "\<bar>2 ^ n * fdct_output x (L ! k) - dot 0 (scaled n (L ! k)) (\<lambda>j. x j - 128)\<bar> \<le> 2 ^ n div 2"
    using fdct_output_rounds [OF f a] by (simp only: e)
  moreover have "mended n L k lost ! k = map2 (\<lambda>c e. c + 8191 * e) (scaled n (L ! k)) lost"
    using k(2) by (simp add: mended_def)
  then have "dot 0 (mended n L k lost ! k) (\<lambda>j. x j - 128) =
      dot 0 (scaled n (L ! k)) (\<lambda>j. x j - 128) + 8191 * dot 0 lost (\<lambda>j. x j - 128)"
    using f by (simp add: dot_mended e scaled_def fdct_fits_def len)
  ultimately have r: "\<bar>2 ^ n * fdct_output x (L ! k) + 8191 * dot 0 lost (\<lambda>j. x j - 128)
      - dot 0 (mended n L k lost ! k) (\<lambda>j. x j - 128)\<bar> \<le> 2 ^ n div 2" by simp
  have "real_of_int \<bar>2 ^ n * fdct_output x (L ! k) + 8191 * dot 0 lost (\<lambda>j. x j - 128)
      - dot 0 (mended n L k lost ! k) (\<lambda>j. x j - 128)\<bar> \<le> real_of_int (2 ^ n div 2)"
    using r by (simp only: of_int_le_iff)
  then have "\<bar>2 ^ n * real_of_int (fdct_output x (L ! k)) + 8191 * real_of_int (dot 0 lost (\<lambda>j. x j - 128))
      - real_of_int (dot 0 (mended n L k lost ! k) (\<lambda>j. x j - 128))\<bar> \<le> real_of_int (2 ^ n div 2)"
    by (simp only: of_int_abs of_int_diff of_int_add of_int_mult of_int_power of_int_numeral)
  moreover have "\<bar>real_of_int (dot 0 (mended n L k lost ! k) (\<lambda>j. x j - 128))
      - 8192 * (\<Sum>i<N. dct_basis N i k * real_of_int (x i - 128))\<bar> \<le> (real_of_int dev + 8) / 100 * (real N * 128)"
    using frequency_dot [OF frequencies_near [OF ok] k(1), of "\<lambda>j. x j - 128" 128] a
    by (simp only: of_int_1 div_by_1 of_int_numeral)
  ultimately show ?thesis by linarith
qed

lemma lost_12_dot: "dot 0 lost_12 (\<lambda>j. x j - 128) = (x 1 + x 10 - x 4 - x 7) - (x 2 + x 9 - x 3 - x 8)"
  by (simp add: lost_12_def numeral_eq_Suc)

lemma lost_14_dot: "dot 0 lost_14 (\<lambda>j. x j - 128) = x 6 - x 7"
  by (simp add: lost_14_def numeral_eq_Suc)

text \<open>
  C29: for any row of samples, frequency 2 of the 12-point passes and frequency 1 of the 14-point
  passes of \<open>jfdctint.c\<close> is, up to 1 (or 2 for the passes that keep two fraction bits), the frequency
  of the exact DCT less a sum of samples the code adds without its fraction bits: \<open>tmp14 - tmp15\<close>
  in the routines of 12x12 and 12x6 samples, \<open>tmp6\<close> in those of 14x14 and 14x7 samples.
\<close>

theorem rows_lose_a_term:
  assumes x: "\<forall>j<14. 0 \<le> x j \<and> x j \<le> 255"
    and d12: "d12 = (x 1 + x 10 - x 4 - x 7) - (x 2 + x 9 - x 3 - x 8)" and d14: "d14 = x 6 - x 7"
  shows "\<bar>real_of_int (fdct_12x12_row x ! 2 + d12) - (\<Sum>i<12. dct_basis 12 i 2 * real_of_int (x i - 128))\<bar> \<le> 1 \<and>
    \<bar>real_of_int (fdct_12x6_row x ! 2 + 4 * d12) - 4 * (\<Sum>i<12. dct_basis 12 i 2 * real_of_int (x i - 128))\<bar> \<le> 2 \<and>
    \<bar>real_of_int (fdct_14x14_row x ! 1 + d14) - (\<Sum>i<14. dct_basis 14 i 1 * real_of_int (x i - 128))\<bar> \<le> 1 \<and>
    \<bar>real_of_int (fdct_14x7_row x ! 1 + 4 * d14) - 4 * (\<Sum>i<14. dct_basis 14 i 1 * real_of_int (x i - 128))\<bar> \<le> 2"
proof (intro conjI)
  have b: "0 \<le> x j" "x j \<le> 255" if "j < 14" for j using x that by blast+
  note bs = b [of 1] b [of 2] b [of 3] b [of 4] b [of 6] b [of 7] b [of 8] b [of 9] b [of 10]
  have "\<bar>d12\<bar> \<le> 1020" "\<bar>d14\<bar> \<le> 255" using bs by (simp_all add: d12 d14)
  then have d: "\<bar>real_of_int d12\<bar> \<le> 1020" "\<bar>real_of_int d14\<bar> \<le> 255" by linarith+
  note s = fdct_12x12_row_sums fdct_12x6_row_sums fdct_14x14_row_sums fdct_14x7_row_sums
  note t12 = lost_term [OF mended_12(1) _ _ rows_12_13_fits, of x] lost_term [OF mended_12(2) _ _ rows_12_11_fits, of x]
  note t14 = lost_term [OF mended_14(1) _ _ rows_14_13_fits, of x] lost_term [OF mended_14(2) _ _ rows_14_11_fits, of x]
  have len: "length lost_12 = 12" "length lost_14 = 14" "length rows_12_13 = 8" "length rows_12_11 = 8"
      "length rows_14_13 = 8" "length rows_14_11 = 8"
    by (simp_all add: lost_12_def lost_14_def rows_12_13_def rows_12_11_def rows_14_13_def rows_14_11_def)
  note t = t12 [unfolded lost_12_dot d12 [symmetric]] t14 [unfolded lost_14_dot d14 [symmetric]]
  show "\<bar>real_of_int (fdct_12x12_row x ! 2 + d12) - (\<Sum>i<12. dct_basis 12 i 2 * real_of_int (x i - 128))\<bar> \<le> 1"
  proof -
    have "\<bar>8192 * real_of_int (fdct_12x12_row x ! 2) + 8191 * real_of_int d12 - 8192 * (\<Sum>i<12. dct_basis 12 i 2 * real_of_int (x i - 128))\<bar> \<le> 5586"
      unfolding s using t(1) b by (simp add: len)
    then show ?thesis using d unfolding of_int_add of_int_mult of_int_numeral by linarith
  qed
  show "\<bar>real_of_int (fdct_12x6_row x ! 2 + 4 * d12) - 4 * (\<Sum>i<12. dct_basis 12 i 2 * real_of_int (x i - 128))\<bar> \<le> 2"
  proof -
    have "\<bar>2048 * real_of_int (fdct_12x6_row x ! 2) + 8191 * real_of_int d12 - 8192 * (\<Sum>i<12. dct_basis 12 i 2 * real_of_int (x i - 128))\<bar> \<le> 2514"
      unfolding s using t(2) b by (simp add: len)
    then show ?thesis using d unfolding of_int_add of_int_mult of_int_numeral by linarith
  qed
  show "\<bar>real_of_int (fdct_14x14_row x ! 1 + d14) - (\<Sum>i<14. dct_basis 14 i 1 * real_of_int (x i - 128))\<bar> \<le> 1"
  proof -
    have "\<bar>8192 * real_of_int (fdct_14x14_row x ! 1) + 8191 * real_of_int d14 - 8192 * (\<Sum>i<14. dct_basis 14 i 1 * real_of_int (x i - 128))\<bar> \<le> 6229"
      unfolding s using t(3) b by (simp add: len)
    then show ?thesis using d unfolding of_int_add of_int_mult of_int_numeral by linarith
  qed
  show "\<bar>real_of_int (fdct_14x7_row x ! 1 + 4 * d14) - 4 * (\<Sum>i<14. dct_basis 14 i 1 * real_of_int (x i - 128))\<bar> \<le> 2"
  proof -
    have "\<bar>2048 * real_of_int (fdct_14x7_row x ! 1) + 8191 * real_of_int d14 - 8192 * (\<Sum>i<14. dct_basis 14 i 1 * real_of_int (x i - 128))\<bar> \<le> 3157"
      unfolding s using t(4) b by (simp add: len)
    then show ?thesis using d unfolding of_int_add of_int_mult of_int_numeral by linarith
  qed
qed

text \<open>Samples for which the value stored is 0 and the frequency is 510.\<close>

theorem rows_lose_a_term_witness:
  "fdct_12x12_row (\<lambda>j. if j = 1 \<or> j = 10 then 255 else 0) ! 2 = 0 \<and>
   \<bar>510 - (\<Sum>i<12. dct_basis 12 i 2 * real_of_int ((if i = 1 \<or> i = 10 then 255 else 0) - 128))\<bar> \<le> 1"
proof -
  let ?x = "\<lambda>j :: nat. if j = 1 \<or> j = 10 then 255 else 0 :: int"
  have v: "fdct_12x12_row ?x ! 2 = 0" by code_simp
  have "\<bar>real_of_int (fdct_12x12_row ?x ! 2 + 510) - (\<Sum>i<12. dct_basis 12 i 2 * real_of_int (?x i - 128))\<bar> \<le> 1"
    by (rule rows_lose_a_term [of ?x 510 0, THEN conjunct1]) simp_all
  then show ?thesis unfolding v by simp
qed

end
