(* ===== verification/Transforms.thy ===== *)
theory Transforms
  imports Samples HuffBlocks
begin

text \<open>
  The lossless transformations of \<open>jpeg-9a/transupp.c\<close>: routines that copy the blocks of coefficient
  arrays to other places and change signs or transpose inside each block.  A coefficient array is
  the list of its block rows; an access outside it, which \<open>access_virt_barray\<close> refuses, is \<open>None\<close>.
\<close>

section \<open>Blocks and block arrays\<close>

type_synonym block = "int list"
type_synonym barray = "block list list"

definition block_at :: "barray \<Rightarrow> nat \<Rightarrow> nat \<Rightarrow> block option" where
  "block_at arr row col = (if row_ok arr (row, col) then Some (arr ! row ! col) else None)"

text \<open>\<open>access_virt_barray\<close> of \<open>num_rows\<close> rows from \<open>start_row\<close> on, then \<open>k\<close>.\<close>

definition access_virt_barray :: "barray \<Rightarrow> nat \<Rightarrow> nat \<Rightarrow> 'a option \<Rightarrow> 'a option" where
  "access_virt_barray arr start_row num_rows k = (if start_row + num_rows \<le> length arr then k else None)"

text \<open>
  The loops over the coefficients of a block: \<open>neg\<close> tells, by row and column in the source, which
  coefficients change their sign (a short, so -32768 stays).
\<close>

definition copy_block :: "(nat \<Rightarrow> nat \<Rightarrow> bool) \<Rightarrow> block \<Rightarrow> block" where
  "copy_block neg b =
     map (\<lambda>k. if neg (k div DCTSIZE) (k mod DCTSIZE) then jcoef (- (b ! k)) else b ! k) [0..<DCTSIZE2]"

definition transpose_block :: "(nat \<Rightarrow> nat \<Rightarrow> bool) \<Rightarrow> block \<Rightarrow> block" where
  "transpose_block neg b =
     map (\<lambda>k. let i = k mod DCTSIZE; j = k div DCTSIZE
               in if neg i j then jcoef (- (b ! (DCTSIZE * i + j))) else b ! (DCTSIZE * i + j)) [0..<DCTSIZE2]"

definition no_sign :: "nat \<Rightarrow> nat \<Rightarrow> bool" where "no_sign i j = False"
definition odd_column :: "nat \<Rightarrow> nat \<Rightarrow> bool" where "odd_column i j = odd j"
definition odd_row :: "nat \<Rightarrow> nat \<Rightarrow> bool" where "odd_row i j = odd i"
definition odd_sum :: "nat \<Rightarrow> nat \<Rightarrow> bool" where "odd_sum i j = odd (i + j)"

text \<open>One block of \<open>src\<close> put into \<open>dst\<close>, and \<open>jcopy_block_row\<close>.\<close>

definition move :: "barray \<Rightarrow> nat \<times> nat \<Rightarrow> (block \<Rightarrow> block) \<Rightarrow> nat \<times> nat \<Rightarrow> barray \<Rightarrow> barray option" where
  "move src p f q dst =
     (case block_at src (fst p) (snd p) of None \<Rightarrow> None | Some b \<Rightarrow> put_row q (f b) dst)"

definition jcopy_block_row :: "barray \<Rightarrow> nat \<Rightarrow> nat \<Rightarrow> nat \<Rightarrow> nat \<Rightarrow> nat \<Rightarrow> barray \<Rightarrow> barray option" where
  "jcopy_block_row src input_row input_col output_row output_col num_blocks dst =
     for_loop 0 num_blocks (\<lambda>i. move src (input_row, input_col + i) (\<lambda>b. b) (output_row, output_col + i)) dst"

definition zero_block :: block where "zero_block = replicate DCTSIZE2 0"

text \<open>\<open>FMEMZERO\<close> of blocks in a row.\<close>

definition zero_blocks :: "nat \<Rightarrow> nat \<Rightarrow> nat \<Rightarrow> barray \<Rightarrow> barray option" where
  "zero_blocks row col num_blocks = for_loop 0 num_blocks (\<lambda>i. put_row (row, col + i) zero_block)"

text \<open>\<open>for (x = 0; x < limit; x += step)\<close>; sampling factors are positive.\<close>

definition turns :: "nat \<Rightarrow> nat \<Rightarrow> nat" where
  "turns step limit = (limit + step - 1) div step"

definition stepped :: "nat \<Rightarrow> nat \<Rightarrow> (nat \<Rightarrow> 's \<Rightarrow> 's option) \<Rightarrow> 's \<Rightarrow> 's option" where
  "stepped step limit body = for_loop 0 (turns step limit) (\<lambda>g. body (g * step))"

section \<open>The transformations of one component\<close>

text \<open>The destination's components with the sizes of their arrays, and what the routines use of both objects.\<close>

record xform_component = component +
  width_in_blocks :: nat
  height_in_blocks :: nat

record xform_dst =
  x_comp_info :: "xform_component list"
  x_max_h_samp_factor :: nat
  x_max_v_samp_factor :: nat
  x_min_DCT_h_scaled_size :: nat
  x_min_DCT_v_scaled_size :: nat
  x_jpeg_width :: nat
  x_jpeg_height :: nat

definition do_crop :: "xform_component \<Rightarrow> nat \<Rightarrow> nat \<Rightarrow> barray \<Rightarrow> barray \<Rightarrow> barray option" where
  "do_crop compptr x_crop_offset y_crop_offset src =
     (let x_crop_blocks = x_crop_offset * h_samp_factor compptr;
          y_crop_blocks = y_crop_offset * v_samp_factor compptr;
          v = v_samp_factor compptr
      in stepped v (height_in_blocks compptr) (\<lambda>dst_blk_y dst.
           access_virt_barray dst dst_blk_y v (access_virt_barray src (dst_blk_y + y_crop_blocks) v
             (for_loop 0 v (\<lambda>offset_y. jcopy_block_row src (dst_blk_y + y_crop_blocks + offset_y) x_crop_blocks
               (dst_blk_y + offset_y) 0 (width_in_blocks compptr)) dst))))"

definition do_crop_ext ::
  "nat \<Rightarrow> nat \<Rightarrow> xform_dst \<Rightarrow> xform_component \<Rightarrow> nat \<Rightarrow> nat \<Rightarrow> barray \<Rightarrow> barray \<Rightarrow> barray option" where
  "do_crop_ext src_width src_height dstinfo compptr x_crop_offset y_crop_offset src =
     (let MCU_cols = src_width div (x_max_h_samp_factor dstinfo * x_min_DCT_h_scaled_size dstinfo);
          MCU_rows = src_height div (x_max_v_samp_factor dstinfo * x_min_DCT_v_scaled_size dstinfo);
          comp_width = MCU_cols * h_samp_factor compptr;
          comp_height = MCU_rows * v_samp_factor compptr;
          x_crop_blocks = x_crop_offset * h_samp_factor compptr;
          y_crop_blocks = y_crop_offset * v_samp_factor compptr;
          v = v_samp_factor compptr; width = width_in_blocks compptr;
          copy_rows = (\<lambda>src_blk_y dst_blk_y.
            for_loop 0 v (\<lambda>offset_y dst.
              if src_width < x_jpeg_width dstinfo
              then Option.bind (zero_blocks (dst_blk_y + offset_y) 0 x_crop_blocks dst) (\<lambda>dst.
                   Option.bind (jcopy_block_row src (src_blk_y + offset_y) 0 (dst_blk_y + offset_y) x_crop_blocks comp_width dst) (\<lambda>dst.
                   if comp_width + x_crop_blocks < width
                   then zero_blocks (dst_blk_y + offset_y) (comp_width + x_crop_blocks) (width - comp_width - x_crop_blocks) dst
                   else Some dst))
              else jcopy_block_row src (src_blk_y + offset_y) x_crop_blocks (dst_blk_y + offset_y) 0 width dst))
      in stepped v (height_in_blocks compptr) (\<lambda>dst_blk_y dst.
           access_virt_barray dst dst_blk_y v
             (if src_height < x_jpeg_height dstinfo
              then if dst_blk_y < y_crop_blocks \<or> comp_height + y_crop_blocks \<le> dst_blk_y
                   then for_loop 0 v (\<lambda>offset_y. zero_blocks (dst_blk_y + offset_y) 0 width) dst
                   else access_virt_barray src (dst_blk_y - y_crop_blocks) v (copy_rows (dst_blk_y - y_crop_blocks) dst_blk_y dst)
              else access_virt_barray src (dst_blk_y + y_crop_blocks) v (copy_rows (dst_blk_y + y_crop_blocks) dst_blk_y dst))))"

definition do_wipe :: "xform_component \<Rightarrow> nat \<Rightarrow> nat \<Rightarrow> nat \<Rightarrow> nat \<Rightarrow> barray \<Rightarrow> barray option" where
  "do_wipe compptr x_crop_offset y_crop_offset drop_width drop_height =
     (let comp_width = drop_width * h_samp_factor compptr;
          comp_height = drop_height * v_samp_factor compptr;
          x_wipe_blocks = x_crop_offset * h_samp_factor compptr;
          y_wipe_blocks = y_crop_offset * v_samp_factor compptr;
          v = v_samp_factor compptr
      in stepped v comp_height (\<lambda>blk_y buffer.
           access_virt_barray buffer (blk_y + y_wipe_blocks) v
             (for_loop 0 v (\<lambda>offset_y. zero_blocks (blk_y + y_wipe_blocks + offset_y) x_wipe_blocks comp_width) buffer)))"

text \<open>The swap of two blocks with the signs of their odd columns changed.\<close>

definition swap_mirrored :: "nat \<Rightarrow> nat \<Rightarrow> nat \<Rightarrow> barray \<Rightarrow> barray option" where
  "swap_mirrored row col1 col2 buffer =
     (case block_at buffer row col1 of None \<Rightarrow> None | Some b1 \<Rightarrow>
       (case block_at buffer row col2 of None \<Rightarrow> None | Some b2 \<Rightarrow>
          Option.bind (put_row (row, col1) (copy_block odd_column b2) buffer)
            (put_row (row, col2) (copy_block odd_column b1))))"

definition do_flip_h_no_crop :: "nat \<Rightarrow> xform_dst \<Rightarrow> xform_component \<Rightarrow> nat \<Rightarrow> barray \<Rightarrow> barray option" where
  "do_flip_h_no_crop src_width dstinfo compptr x_crop_offset =
     (let MCU_cols = src_width div (x_max_h_samp_factor dstinfo * x_min_DCT_h_scaled_size dstinfo);
          comp_width = MCU_cols * h_samp_factor compptr;
          x_crop_blocks = x_crop_offset * h_samp_factor compptr;
          v = v_samp_factor compptr
      in stepped v (height_in_blocks compptr) (\<lambda>blk_y buffer.
           access_virt_barray buffer blk_y v
             (for_loop 0 v (\<lambda>offset_y buffer.
                Option.bind (for_loop 0 ((comp_width + 1) div 2)
                    (\<lambda>blk_x. swap_mirrored (blk_y + offset_y) blk_x (comp_width - blk_x - 1)) buffer) (\<lambda>buffer.
                if 0 < x_crop_blocks
                then for_loop 0 (width_in_blocks compptr) (\<lambda>blk_x buffer.
                       move buffer (blk_y + offset_y, blk_x + x_crop_blocks) (\<lambda>b. b) (blk_y + offset_y, blk_x) buffer) buffer
                else Some buffer)) buffer)))"

definition do_flip_h :: "nat \<Rightarrow> xform_dst \<Rightarrow> xform_component \<Rightarrow> nat \<Rightarrow> nat \<Rightarrow> barray \<Rightarrow> barray \<Rightarrow> barray option" where
  "do_flip_h src_width dstinfo compptr x_crop_offset y_crop_offset src =
     (let MCU_cols = src_width div (x_max_h_samp_factor dstinfo * x_min_DCT_h_scaled_size dstinfo);
          comp_width = MCU_cols * h_samp_factor compptr;
          x_crop_blocks = x_crop_offset * h_samp_factor compptr;
          y_crop_blocks = y_crop_offset * v_samp_factor compptr;
          v = v_samp_factor compptr
      in stepped v (height_in_blocks compptr) (\<lambda>dst_blk_y dst.
           access_virt_barray dst dst_blk_y v (access_virt_barray src (dst_blk_y + y_crop_blocks) v
             (for_loop 0 v (\<lambda>offset_y. for_loop 0 (width_in_blocks compptr) (\<lambda>dst_blk_x.
                if x_crop_blocks + dst_blk_x < comp_width
                then move src (dst_blk_y + y_crop_blocks + offset_y, comp_width - x_crop_blocks - dst_blk_x - 1)
                       (copy_block odd_column) (dst_blk_y + offset_y, dst_blk_x)
                else jcopy_block_row src (dst_blk_y + y_crop_blocks + offset_y) (dst_blk_x + x_crop_blocks)
                       (dst_blk_y + offset_y) dst_blk_x 1)) dst))))"

definition do_flip_v :: "nat \<Rightarrow> xform_dst \<Rightarrow> xform_component \<Rightarrow> nat \<Rightarrow> nat \<Rightarrow> barray \<Rightarrow> barray \<Rightarrow> barray option" where
  "do_flip_v src_height dstinfo compptr x_crop_offset y_crop_offset src =
     (let MCU_rows = src_height div (x_max_v_samp_factor dstinfo * x_min_DCT_v_scaled_size dstinfo);
          comp_height = MCU_rows * v_samp_factor compptr;
          x_crop_blocks = x_crop_offset * h_samp_factor compptr;
          y_crop_blocks = y_crop_offset * v_samp_factor compptr;
          v = v_samp_factor compptr
      in stepped v (height_in_blocks compptr) (\<lambda>dst_blk_y dst.
           let mirrored = y_crop_blocks + dst_blk_y < comp_height;
               src_blk_y = (if mirrored then comp_height - y_crop_blocks - dst_blk_y - v else dst_blk_y + y_crop_blocks)
           in access_virt_barray dst dst_blk_y v (access_virt_barray src src_blk_y v
             (for_loop 0 v (\<lambda>offset_y.
                if mirrored
                then for_loop 0 (width_in_blocks compptr) (\<lambda>dst_blk_x.
                       move src (src_blk_y + (v - offset_y - 1), x_crop_blocks + dst_blk_x) (copy_block odd_row)
                         (dst_blk_y + offset_y, dst_blk_x))
                else jcopy_block_row src (src_blk_y + offset_y) x_crop_blocks (dst_blk_y + offset_y) 0
                       (width_in_blocks compptr)) dst))))"

definition do_transpose :: "xform_component \<Rightarrow> nat \<Rightarrow> nat \<Rightarrow> barray \<Rightarrow> barray \<Rightarrow> barray option" where
  "do_transpose compptr x_crop_offset y_crop_offset src =
     (let x_crop_blocks = x_crop_offset * h_samp_factor compptr;
          y_crop_blocks = y_crop_offset * v_samp_factor compptr;
          h = h_samp_factor compptr; v = v_samp_factor compptr
      in stepped v (height_in_blocks compptr) (\<lambda>dst_blk_y dst.
           access_virt_barray dst dst_blk_y v
             (for_loop 0 v (\<lambda>offset_y. stepped h (width_in_blocks compptr) (\<lambda>dst_blk_x dst.
                access_virt_barray src (dst_blk_x + x_crop_blocks) h
                  (for_loop 0 h (\<lambda>offset_x.
                     move src (dst_blk_x + x_crop_blocks + offset_x, dst_blk_y + offset_y + y_crop_blocks)
                       (transpose_block no_sign) (dst_blk_y + offset_y, dst_blk_x + offset_x)) dst))) dst)))"

definition do_rot_90 :: "nat \<Rightarrow> xform_dst \<Rightarrow> xform_component \<Rightarrow> nat \<Rightarrow> nat \<Rightarrow> barray \<Rightarrow> barray \<Rightarrow> barray option" where
  "do_rot_90 src_height dstinfo compptr x_crop_offset y_crop_offset src =
     (let MCU_cols = src_height div (x_max_h_samp_factor dstinfo * x_min_DCT_h_scaled_size dstinfo);
          comp_width = MCU_cols * h_samp_factor compptr;
          x_crop_blocks = x_crop_offset * h_samp_factor compptr;
          y_crop_blocks = y_crop_offset * v_samp_factor compptr;
          h = h_samp_factor compptr; v = v_samp_factor compptr
      in stepped v (height_in_blocks compptr) (\<lambda>dst_blk_y dst.
           access_virt_barray dst dst_blk_y v
             (for_loop 0 v (\<lambda>offset_y. stepped h (width_in_blocks compptr) (\<lambda>dst_blk_x dst.
                let mirrored = x_crop_blocks + dst_blk_x < comp_width;
                    src_blk_y = (if mirrored then comp_width - x_crop_blocks - dst_blk_x - h else dst_blk_x + x_crop_blocks)
                in access_virt_barray src src_blk_y h
                  (for_loop 0 h (\<lambda>offset_x.
                     if mirrored
                     then move src (src_blk_y + (h - offset_x - 1), dst_blk_y + offset_y + y_crop_blocks)
                            (transpose_block odd_row) (dst_blk_y + offset_y, dst_blk_x + offset_x)
                     else move src (src_blk_y + offset_x, dst_blk_y + offset_y + y_crop_blocks)
                            (transpose_block no_sign) (dst_blk_y + offset_y, dst_blk_x + offset_x)) dst))) dst)))"

definition do_rot_270 :: "nat \<Rightarrow> xform_dst \<Rightarrow> xform_component \<Rightarrow> nat \<Rightarrow> nat \<Rightarrow> barray \<Rightarrow> barray \<Rightarrow> barray option" where
  "do_rot_270 src_width dstinfo compptr x_crop_offset y_crop_offset src =
     (let MCU_rows = src_width div (x_max_v_samp_factor dstinfo * x_min_DCT_v_scaled_size dstinfo);
          comp_height = MCU_rows * v_samp_factor compptr;
          x_crop_blocks = x_crop_offset * h_samp_factor compptr;
          y_crop_blocks = y_crop_offset * v_samp_factor compptr;
          h = h_samp_factor compptr; v = v_samp_factor compptr
      in stepped v (height_in_blocks compptr) (\<lambda>dst_blk_y dst.
           access_virt_barray dst dst_blk_y v
             (for_loop 0 v (\<lambda>offset_y. stepped h (width_in_blocks compptr) (\<lambda>dst_blk_x dst.
                access_virt_barray src (dst_blk_x + x_crop_blocks) h
                  (for_loop 0 h (\<lambda>offset_x.
                     if y_crop_blocks + dst_blk_y < comp_height
                     then move src (dst_blk_x + x_crop_blocks + offset_x, comp_height - y_crop_blocks - dst_blk_y - offset_y - 1)
                            (transpose_block odd_column) (dst_blk_y + offset_y, dst_blk_x + offset_x)
                     else move src (dst_blk_x + x_crop_blocks + offset_x, dst_blk_y + offset_y + y_crop_blocks)
                            (transpose_block no_sign) (dst_blk_y + offset_y, dst_blk_x + offset_x)) dst))) dst)))"

definition do_rot_180 :: "nat \<Rightarrow> nat \<Rightarrow> xform_dst \<Rightarrow> xform_component \<Rightarrow> nat \<Rightarrow> nat \<Rightarrow> barray \<Rightarrow> barray \<Rightarrow> barray option" where
  "do_rot_180 src_width src_height dstinfo compptr x_crop_offset y_crop_offset src =
     (let MCU_cols = src_width div (x_max_h_samp_factor dstinfo * x_min_DCT_h_scaled_size dstinfo);
          MCU_rows = src_height div (x_max_v_samp_factor dstinfo * x_min_DCT_v_scaled_size dstinfo);
          comp_width = MCU_cols * h_samp_factor compptr;
          comp_height = MCU_rows * v_samp_factor compptr;
          x_crop_blocks = x_crop_offset * h_samp_factor compptr;
          y_crop_blocks = y_crop_offset * v_samp_factor compptr;
          v = v_samp_factor compptr
      in stepped v (height_in_blocks compptr) (\<lambda>dst_blk_y dst.
           let mirrored = y_crop_blocks + dst_blk_y < comp_height;
               src_blk_y = (if mirrored then comp_height - y_crop_blocks - dst_blk_y - v else dst_blk_y + y_crop_blocks)
           in access_virt_barray dst dst_blk_y v (access_virt_barray src src_blk_y v
             (for_loop 0 v (\<lambda>offset_y.
                if mirrored
                then for_loop 0 (width_in_blocks compptr) (\<lambda>dst_blk_x.
                       if x_crop_blocks + dst_blk_x < comp_width
                       then move src (src_blk_y + (v - offset_y - 1), comp_width - x_crop_blocks - dst_blk_x - 1)
                              (copy_block odd_sum) (dst_blk_y + offset_y, dst_blk_x)
                       else move src (src_blk_y + (v - offset_y - 1), x_crop_blocks + dst_blk_x)
                              (copy_block odd_row) (dst_blk_y + offset_y, dst_blk_x))
                else for_loop 0 (width_in_blocks compptr) (\<lambda>dst_blk_x.
                       if x_crop_blocks + dst_blk_x < comp_width
                       then move src (src_blk_y + offset_y, comp_width - x_crop_blocks - dst_blk_x - 1)
                              (copy_block odd_column) (dst_blk_y + offset_y, dst_blk_x)
                       else jcopy_block_row src (src_blk_y + offset_y) (dst_blk_x + x_crop_blocks)
                              (dst_blk_y + offset_y) dst_blk_x 1)) dst))))"

definition do_transverse :: "nat \<Rightarrow> nat \<Rightarrow> xform_dst \<Rightarrow> xform_component \<Rightarrow> nat \<Rightarrow> nat \<Rightarrow> barray \<Rightarrow> barray \<Rightarrow> barray option" where
  "do_transverse src_width src_height dstinfo compptr x_crop_offset y_crop_offset src =
     (let MCU_cols = src_height div (x_max_h_samp_factor dstinfo * x_min_DCT_h_scaled_size dstinfo);
          MCU_rows = src_width div (x_max_v_samp_factor dstinfo * x_min_DCT_v_scaled_size dstinfo);
          comp_width = MCU_cols * h_samp_factor compptr;
          comp_height = MCU_rows * v_samp_factor compptr;
          x_crop_blocks = x_crop_offset * h_samp_factor compptr;
          y_crop_blocks = y_crop_offset * v_samp_factor compptr;
          h = h_samp_factor compptr; v = v_samp_factor compptr
      in stepped v (height_in_blocks compptr) (\<lambda>dst_blk_y dst.
           access_virt_barray dst dst_blk_y v
             (for_loop 0 v (\<lambda>offset_y. stepped h (width_in_blocks compptr) (\<lambda>dst_blk_x dst.
                let mirrored = x_crop_blocks + dst_blk_x < comp_width;
                    src_blk_y = (if mirrored then comp_width - x_crop_blocks - dst_blk_x - h else dst_blk_x + x_crop_blocks)
                in access_virt_barray src src_blk_y h
                  (for_loop 0 h (\<lambda>offset_x.
                     if y_crop_blocks + dst_blk_y < comp_height
                     then if mirrored
                          then move src (src_blk_y + (h - offset_x - 1), comp_height - y_crop_blocks - dst_blk_y - offset_y - 1)
                                 (transpose_block odd_sum) (dst_blk_y + offset_y, dst_blk_x + offset_x)
                          else move src (src_blk_y + offset_x, comp_height - y_crop_blocks - dst_blk_y - offset_y - 1)
                                 (transpose_block odd_column) (dst_blk_y + offset_y, dst_blk_x + offset_x)
                     else if mirrored
                          then move src (src_blk_y + (h - offset_x - 1), dst_blk_y + offset_y + y_crop_blocks)
                                 (transpose_block odd_row) (dst_blk_y + offset_y, dst_blk_x + offset_x)
                          else move src (src_blk_y + offset_x, dst_blk_y + offset_y + y_crop_blocks)
                                 (transpose_block no_sign) (dst_blk_y + offset_y, dst_blk_x + offset_x)) dst))) dst)))"

section \<open>What the routines write\<close>

definition mirror_at :: "nat \<Rightarrow> nat \<Rightarrow> nat" where
  "mirror_at n k = (if k < n then n - 1 - k else k)"

text \<open>
  The blocks of the destination, by their place \<open>R\<close>, \<open>C\<close> before cropping: columns less than \<open>cw\<close>
  and rows less than \<open>ch\<close> are mirrored.
\<close>

definition copied :: "nat \<Rightarrow> nat \<Rightarrow> barray \<Rightarrow> nat \<Rightarrow> nat \<Rightarrow> block" where
  "copied cw ch src R C =
     copy_block (\<lambda>i j. (C < cw \<and> odd j) \<noteq> (R < ch \<and> odd i)) (src ! mirror_at ch R ! mirror_at cw C)"

definition transposed :: "nat \<Rightarrow> nat \<Rightarrow> barray \<Rightarrow> nat \<Rightarrow> nat \<Rightarrow> block" where
  "transposed cw ch src R C =
     transpose_block (\<lambda>i j. (C < cw \<and> odd i) \<noteq> (R < ch \<and> odd j)) (src ! mirror_at cw C ! mirror_at ch R)"

text \<open>Blocks of 64 coefficients, none of them -32768.\<close>

definition block_ok :: "block \<Rightarrow> bool" where
  "block_ok b \<longleftrightarrow> length b = DCTSIZE2 \<and> (\<forall>x\<in>set b. \<bar>x\<bar> \<le> 32767)"

definition barray_ok :: "barray \<Rightarrow> bool" where
  "barray_ok arr \<longleftrightarrow> (\<forall>row\<in>set arr. \<forall>b\<in>set row. block_ok b)"

lemma barray_okD: "barray_ok arr \<Longrightarrow> rows_fit arr n m \<Longrightarrow> r < n \<Longrightarrow> c < m \<Longrightarrow> block_ok (arr ! r ! c)"
  unfolding barray_ok_def rows_fit_def by (meson nth_mem order.strict_trans2)

lemma copy_block_id: "block_ok b \<Longrightarrow> (\<And>i j. \<not> neg i j) \<Longrightarrow> copy_block neg b = b"
  by (intro nth_equalityI) (simp_all add: copy_block_def block_ok_def)

lemma block_at_fit: "rows_fit arr n m \<Longrightarrow> r < n \<Longrightarrow> c < m \<Longrightarrow> block_at arr r c = Some (arr ! r ! c)"
  by (simp add: block_at_def rows_fit_ok)

lemma mirror_at_less: "k < m \<Longrightarrow> n \<le> m \<Longrightarrow> mirror_at n k < m"
  by (auto simp: mirror_at_def)

lemma rows_fit_same: "rows_fit m n w \<Longrightarrow> row_shape t = row_shape m \<Longrightarrow> rows_fit t n w"
  unfolding rows_fit_shape by simp

text \<open>Turns of \<open>step\<close>: a multiple of \<open>step\<close> exceeds a turn exactly when it exceeds all of it.\<close>

lemma turn_less: "p < step \<Longrightarrow> a * step + p < b * step \<longleftrightarrow> a < b" for a b :: nat
proof
  assume p: "p < step"
  show "a < b" if "a * step + p < b * step"
    using that p by (metis add_lessD1 mult_less_cancel2)
  assume "a < b"
  then have "Suc a * step \<le> b * step" by (intro mult_le_mono1) simp
  then show "a * step + p < b * step" using p by simp
qed

lemma turn_mirror:
  fixes a b step p :: nat
  assumes "p < step" "a < b"
  shows "b * step - a * step - step + (step - p - 1) = b * step - 1 - (a * step + p)"
proof -
  have "Suc a * step \<le> b * step" using assms(2) by (intro mult_le_mono1) simp
  then show ?thesis using assms(1) by simp
qed

lemma turns_cover: "(\<Union>g\<in>{..<n}. \<Union>p\<in>{..<step}. {g * step + p}) = {..<n * step}" for n step :: nat
proof (intro set_eqI iffI)
  fix x
  assume "x \<in> {..<n * step}"
  then have x: "x < n * step" by simp
  then have "0 < step" by (cases step) simp_all
  then have "x mod step < step" "x = x div step * step + x mod step" by simp_all
  moreover have "x div step < n" using x by (rule less_mult_imp_div_less)
  ultimately show "x \<in> (\<Union>g\<in>{..<n}. \<Union>p\<in>{..<step}. {g * step + p})" by blast
next
  fix x
  assume "x \<in> (\<Union>g\<in>{..<n}. \<Union>p\<in>{..<step}. {g * step + p})"
  then obtain g p where "g < n" "p < step" "x = g * step + p" by blast
  then show "x \<in> {..<n * step}" by (simp add: turn_less)
qed

context cells
begin

lemma stepped_writes:
  assumes "\<And>g t. g < turns step limit \<Longrightarrow> shape t = shape m \<Longrightarrow>
    \<exists>t'. body (g * step) t = Some t' \<and> writes (D g) Q t t'"
  shows "\<exists>m'. stepped step limit body m = Some m' \<and> writes (\<Union>g\<in>{..<turns step limit}. D g) Q m m'"
  using loop_writes [of 0 "turns step limit" m "\<lambda>g. body (g * step)" D Q] assms
  by (simp add: stepped_def atLeast0LessThan)

lemma loop0_writes:
  assumes "\<And>k t. k < n \<Longrightarrow> shape t = shape m \<Longrightarrow> \<exists>t'. body k t = Some t' \<and> writes (D k) Q t t'"
  shows "\<exists>m'. for_loop 0 n body m = Some m' \<and> writes (\<Union>k\<in>{..<n}. D k) Q m m'"
  using loop_writes [of 0 n m body D Q] assms by (simp add: atLeast0LessThan)

end

lemma move_writes:
  assumes "rows_fit src n m" "fst p < n" "snd p < m" and t: "rows_fit t n' m'" "r < n'" "c < m'"
    and "Q (r, c) = f (src ! fst p ! snd p)"
  shows "\<exists>t'. move src p f (r, c) t = Some t' \<and> rows.writes {(r, c)} Q t t'"
  using rows.put_writes [OF rows_fit_ok [OF t], of Q] assms by (simp add: move_def block_at_fit)

lemma jcopy_writes:
  assumes src: "rows_fit src n m" "ir < n" "ic + k \<le> m" and t: "rows_fit t n' m'" "r < n'" "c + k \<le> m'"
    and Q: "\<And>i. i < k \<Longrightarrow> Q (r, c + i) = src ! ir ! (ic + i)"
  shows "\<exists>t'. jcopy_block_row src ir ic r c k t = Some t' \<and> rows.writes (\<Union>i\<in>{..<k}. {(r, c + i)}) Q t t'"
  unfolding jcopy_block_row_def
proof (rule rows.loop0_writes)
  fix i and s :: barray
  assume i: "i < k" and "row_shape s = row_shape t"
  then have s: "rows_fit s n' m'" using rows_fit_same [OF t(1)] by blast
  show "\<exists>s'. move src (ir, ic + i) (\<lambda>b. b) (r, c + i) s = Some s' \<and> rows.writes {(r, c + i)} Q s s'"
    by (rule move_writes [OF src(1) _ _ s]) (use src t i Q in simp_all)
qed

text \<open>The loop over groups of rows and the rows of a group, \<open>body y\<close> being the loop over a row.\<close>

lemma access_ok: "i + j \<le> length arr \<Longrightarrow> access_virt_barray arr i j k = k"
  by (simp add: access_virt_barray_def)

lemma rows_fit_length: "rows_fit arr n m \<Longrightarrow> k \<le> n \<Longrightarrow> k \<le> length arr"
  by (simp add: rows_fit_def)

lemma turn_room: "g < n \<Longrightarrow> g * step + step \<le> n * step" for g n step :: nat
  using mult_le_mono1 [of "Suc g" n step] by simp

lemma grid_rows:
  fixes dst :: barray
  assumes dst: "rows_fit dst (turns v h * v) w"
    and body: "\<And>g p t. g < turns v h \<Longrightarrow> p < v \<Longrightarrow> g * v + p < turns v h * v \<Longrightarrow> rows_fit t (turns v h * v) w \<Longrightarrow>
      \<exists>t'. body (g * v) p t = Some t' \<and> rows.writes ({g * v + p} \<times> {..<w}) Q t t'"
  shows "\<exists>dst'. stepped v h (\<lambda>y dst. access_virt_barray dst y v (for_loop 0 v (body y) dst)) dst = Some dst' \<and>
    rows.writes ({..<turns v h * v} \<times> {..<w}) Q dst dst'"
proof -
  have "\<exists>dst'. stepped v h (\<lambda>y dst. access_virt_barray dst y v (for_loop 0 v (body y) dst)) dst = Some dst' \<and>
      rows.writes (\<Union>g\<in>{..<turns v h}. \<Union>p\<in>{..<v}. {g * v + p} \<times> {..<w}) Q dst dst'"
  proof (rule rows.stepped_writes)
    fix g and t :: barray
    assume g: "g < turns v h" and "row_shape t = row_shape dst"
    then have t: "rows_fit t (turns v h * v) w" using rows_fit_same [OF dst] by blast
    have "\<exists>t'. for_loop 0 v (body (g * v)) t = Some t' \<and> rows.writes (\<Union>p\<in>{..<v}. {g * v + p} \<times> {..<w}) Q t t'"
    proof (rule rows.loop0_writes)
      fix p and s :: barray
      assume p: "p < v" and "row_shape s = row_shape t"
      then have "rows_fit s (turns v h * v) w" using rows_fit_same [OF t] by blast
      then show "\<exists>s'. body (g * v) p s = Some s' \<and> rows.writes ({g * v + p} \<times> {..<w}) Q s s'"
        using body [OF g p] turn_less [OF p] g by simp
    qed
    then show "\<exists>t'. access_virt_barray t (g * v) v (for_loop 0 v (body (g * v)) t) = Some t' \<and>
        rows.writes (\<Union>p\<in>{..<v}. {g * v + p} \<times> {..<w}) Q t t'"
      unfolding access_ok [OF rows_fit_length [OF t turn_room [OF g]]] .
  qed
  moreover have "(\<Union>g\<in>{..<turns v h}. \<Union>p\<in>{..<v}. {g * v + p} \<times> {..<w}) = {..<turns v h * v} \<times> {..<w}"
    unfolding turns_cover [symmetric] by blast
  ultimately show ?thesis by simp
qed

text \<open>The same with an access to the source, from row \<open>at y\<close> on, before the rows of a group.\<close>

lemma stepped_cong:
  assumes "\<And>g s. g < turns step limit \<Longrightarrow> P s \<Longrightarrow> body (g * step) s = body' (g * step) s"
    and "\<And>g s s'. g < turns step limit \<Longrightarrow> P s \<Longrightarrow> body' (g * step) s = Some s' \<Longrightarrow> P s'" and "P m"
  shows "stepped step limit body m = stepped step limit body' m"
proof -
  have "for_loop i n (\<lambda>g. body (g * step)) m = for_loop i n (\<lambda>g. body' (g * step)) m" if "i + n \<le> turns step limit" for i n
    using that assms(3)
  proof (induction n arbitrary: i m)
    case (Suc n)
    then have "body (i * step) m = body' (i * step) m" using assms(1) by simp
    moreover have "for_loop (Suc i) n (\<lambda>g. body (g * step)) t = for_loop (Suc i) n (\<lambda>g. body' (g * step)) t"
      if "body' (i * step) m = Some t" for t
      using Suc.IH [of "Suc i" t] Suc.prems assms(2) [of i m t] that by simp
    ultimately show ?case by (simp split: option.split)
  qed simp
  then show ?thesis by (simp add: stepped_def)
qed

lemma stepped_source:
  assumes "\<And>g. g < turns v h \<Longrightarrow> at (g * v) + v \<le> length src"
  shows "stepped v h (\<lambda>y dst. access_virt_barray dst y v (access_virt_barray src (at y) v (for_loop 0 v (body y) dst))) dst =
    stepped v h (\<lambda>y dst. access_virt_barray dst y v (for_loop 0 v (body y) dst)) dst"
  by (rule stepped_cong [where P = "\<lambda>_. True"]) (simp_all add: access_ok [OF assms])

lemma grid_rows_source:
  fixes dst :: barray
  assumes "rows_fit dst (turns v h * v) w"
    and "\<And>g. g < turns v h \<Longrightarrow> at (g * v) + v \<le> length src"
    and "\<And>g p t. g < turns v h \<Longrightarrow> p < v \<Longrightarrow> g * v + p < turns v h * v \<Longrightarrow> rows_fit t (turns v h * v) w \<Longrightarrow>
      \<exists>t'. body (g * v) p t = Some t' \<and> rows.writes ({g * v + p} \<times> {..<w}) Q t t'"
  shows "\<exists>dst'. stepped v h (\<lambda>y dst. access_virt_barray dst y v (access_virt_barray src (at y) v (for_loop 0 v (body y) dst))) dst = Some dst' \<and>
    rows.writes ({..<turns v h * v} \<times> {..<w}) Q dst dst'"
  by (subst stepped_source, rule assms(2), assumption, rule grid_rows [OF assms(1,3)])

text \<open>A row of single blocks, and of groups of them.\<close>

lemma row_blocks:
  fixes t :: barray
  assumes "rows_fit t n w" "r < n"
    and body: "\<And>c s. c < w \<Longrightarrow> rows_fit s n w \<Longrightarrow> \<exists>s'. body c s = Some s' \<and> rows.writes {(r, c)} Q s s'"
  shows "\<exists>t'. for_loop 0 w body t = Some t' \<and> rows.writes ({r} \<times> {..<w}) Q t t'"
proof -
  have "\<exists>t'. for_loop 0 w body t = Some t' \<and> rows.writes (\<Union>c\<in>{..<w}. {(r, c)}) Q t t'"
    by (rule rows.loop0_writes, rule body) (assumption, rule rows_fit_same [OF assms(1)])
  moreover have "(\<Union>c\<in>{..<w}. {(r, c)}) = {r} \<times> {..<w}" by blast
  ultimately show ?thesis by simp
qed

lemma row_groups:
  fixes t :: barray
  assumes t: "rows_fit t n (turns h w * h)"
    and src: "\<And>g. g < turns h w \<Longrightarrow> at (g * h) + h \<le> length src"
    and body: "\<And>g p s. g < turns h w \<Longrightarrow> p < h \<Longrightarrow> g * h + p < turns h w * h \<Longrightarrow> rows_fit s n (turns h w * h) \<Longrightarrow>
      \<exists>s'. body (g * h) p s = Some s' \<and> rows.writes {(r, g * h + p)} Q s s'"
  shows "\<exists>t'. stepped h w (\<lambda>x dst. access_virt_barray src (at x) h (for_loop 0 h (body x) dst)) t = Some t' \<and>
    rows.writes ({r} \<times> {..<turns h w * h}) Q t t'"
proof -
  have "\<exists>t'. stepped h w (\<lambda>x dst. access_virt_barray src (at x) h (for_loop 0 h (body x) dst)) t = Some t' \<and>
      rows.writes (\<Union>g\<in>{..<turns h w}. \<Union>p\<in>{..<h}. {(r, g * h + p)}) Q t t'"
  proof (rule rows.stepped_writes)
    fix g and s :: barray
    assume g: "g < turns h w" and "row_shape s = row_shape t"
    then have s: "rows_fit s n (turns h w * h)" using rows_fit_same [OF t] by blast
    show "\<exists>s'. access_virt_barray src (at (g * h)) h (for_loop 0 h (body (g * h)) s) = Some s' \<and>
        rows.writes (\<Union>p\<in>{..<h}. {(r, g * h + p)}) Q s s'"
      unfolding access_ok [OF src [OF g]]
      by (rule rows.loop0_writes, rule body [OF g]) (assumption, simp add: turn_less g, rule rows_fit_same [OF s])
  qed
  moreover have "(\<Union>g\<in>{..<turns h w}. \<Union>p\<in>{..<h}. {(r, g * h + p)}) = {r} \<times> {..<turns h w * h}"
    unfolding turns_cover [symmetric] by blast
  ultimately show ?thesis by simp
qed

end
