(* ===== verification/TransformCopies.thy ===== *)
theory TransformCopies
  imports Transforms
begin

text \<open>
  What each routine of \<open>jpeg-9a/transupp.c\<close> writes: every block of the destination, padding rows and
  columns included, is the block \<open>copied\<close> or \<open>transposed\<close> describes, and nothing else changes.
\<close>

section \<open>Mirrored and copied places\<close>

lemma copied_plain:
  assumes "barray_ok src" "rows_fit src n m" "R < n" "C < m" "\<not> R < ch" "\<not> C < cw"
  shows "copied cw ch src R C = src ! R ! C"
  using copy_block_id [OF barray_okD [OF assms(1-4)]] assms(5,6) by (simp add: copied_def mirror_at_def)

lemma copied_columns:
  "\<not> R < ch \<Longrightarrow> C < cw \<Longrightarrow> copied cw ch src R C = copy_block odd_column (src ! R ! (cw - 1 - C))"
  unfolding copied_def odd_column_def [abs_def] by (simp add: mirror_at_def)

lemma copied_rows:
  "R < ch \<Longrightarrow> \<not> C < cw \<Longrightarrow> copied cw ch src R C = copy_block odd_row (src ! (ch - 1 - R) ! C)"
  unfolding copied_def odd_row_def [abs_def] by (simp add: mirror_at_def)

lemma copied_both:
  "R < ch \<Longrightarrow> C < cw \<Longrightarrow> copied cw ch src R C = copy_block odd_sum (src ! (ch - 1 - R) ! (cw - 1 - C))"
proof -
  have "((odd j) \<noteq> (odd i)) = odd (i + j)" for i j :: nat by auto
  then show "R < ch \<Longrightarrow> C < cw \<Longrightarrow> copied cw ch src R C = copy_block odd_sum (src ! (ch - 1 - R) ! (cw - 1 - C))"
    unfolding copied_def odd_sum_def [abs_def] by (simp add: mirror_at_def)
qed

lemmas copied_cases = copied_columns copied_rows copied_both

lemma transposed_plain:
  "\<not> R < ch \<Longrightarrow> \<not> C < cw \<Longrightarrow> transposed cw ch src R C = transpose_block no_sign (src ! C ! R)"
  unfolding transposed_def no_sign_def [abs_def] by (simp add: mirror_at_def)

lemma transposed_columns:
  "\<not> R < ch \<Longrightarrow> C < cw \<Longrightarrow> transposed cw ch src R C = transpose_block odd_row (src ! (cw - 1 - C) ! R)"
  unfolding transposed_def odd_row_def [abs_def] by (simp add: mirror_at_def)

lemma transposed_rows:
  "R < ch \<Longrightarrow> \<not> C < cw \<Longrightarrow> transposed cw ch src R C = transpose_block odd_column (src ! C ! (ch - 1 - R))"
  unfolding transposed_def odd_column_def [abs_def] by (simp add: mirror_at_def)

lemma transposed_both:
  "R < ch \<Longrightarrow> C < cw \<Longrightarrow> transposed cw ch src R C = transpose_block odd_sum (src ! (cw - 1 - C) ! (ch - 1 - R))"
proof -
  have "((odd i) \<noteq> (odd j)) = odd (i + j)" for i j :: nat by auto
  then show "R < ch \<Longrightarrow> C < cw \<Longrightarrow> transposed cw ch src R C = transpose_block odd_sum (src ! (cw - 1 - C) ! (ch - 1 - R))"
    unfolding transposed_def odd_sum_def [abs_def] by (simp add: mirror_at_def)
qed

lemmas transposed_cases = transposed_plain transposed_columns transposed_rows transposed_both

text \<open>A turn of \<open>step\<close> behind the offset \<open>k * step\<close>, against a mirrored range of \<open>n * step\<close>.\<close>

lemma place_less: "p < step \<Longrightarrow> k * step + g * step < n * step \<longleftrightarrow> k * step + (g * step + p) < n * step" for k g n step p :: nat
  using turn_less [of p step "k + g" n] turn_less [of 0 step "k + g" n] by (cases "step = 0") (simp_all add: algebra_simps)

lemma place_mirror:
  fixes k g n step p :: nat
  assumes p: "p < step" and less: "k * step + g * step < n * step"
  shows "n * step - k * step - g * step - step + (step - p - 1) = n * step - 1 - (k * step + (g * step + p))"
proof -
  have "(k + g) * step < n * step" using less by (simp add: algebra_simps)
  then have "k + g < n" by (simp only: mult_less_cancel2)
  from turn_mirror [OF p this] show ?thesis by (simp add: algebra_simps)
qed

lemma place_room:
  fixes k g n step :: nat
  assumes "k * step + g * step < n * step"
  shows "n * step - k * step - g * step - step + step \<le> n * step"
proof -
  have "(k + g) * step < n * step" using assms by (simp add: algebra_simps)
  then have "Suc (k + g) * step \<le> n * step" by (intro mult_le_mono1) (simp only: mult_less_cancel2 Suc_le_eq)
  then show ?thesis by (simp add: algebra_simps)
qed

section \<open>Routines that copy\<close>

text \<open>The arrays are large enough: \<open>dst\<close> for all turns, \<open>src\<close> for what is read.\<close>

definition copy_fits :: "xform_component \<Rightarrow> nat \<Rightarrow> nat \<Rightarrow> nat \<Rightarrow> nat \<Rightarrow> barray \<Rightarrow> barray \<Rightarrow> bool" where
  "copy_fits c x_off y_off cw ch src dst \<longleftrightarrow>
     rows_fit dst (turns (v_samp_factor c) (height_in_blocks c) * v_samp_factor c) (width_in_blocks c) \<and> barray_ok src \<and>
     (\<exists>n m. rows_fit src n m \<and> ch \<le> n \<and> cw \<le> m \<and> x_off * h_samp_factor c + width_in_blocks c \<le> m \<and>
        y_off * v_samp_factor c + turns (v_samp_factor c) (height_in_blocks c) * v_samp_factor c \<le> n)"

definition copies :: "xform_component \<Rightarrow> nat \<Rightarrow> nat \<Rightarrow> nat \<Rightarrow> nat \<Rightarrow> barray \<Rightarrow> barray \<Rightarrow> barray \<Rightarrow> bool" where
  "copies c x_off y_off cw ch src dst dst' \<longleftrightarrow>
     rows.writes ({..<turns (v_samp_factor c) (height_in_blocks c) * v_samp_factor c} \<times> {..<width_in_blocks c})
       (\<lambda>(r, k). copied cw ch src (y_off * v_samp_factor c + r) (x_off * h_samp_factor c + k)) dst dst'"

text \<open>A whole row, and a single block, copied as they are.\<close>

lemma copy_row_plain:
  assumes src: "barray_ok src" "rows_fit src n m" "R < n" "X + w \<le> m" "\<not> R < ch"
    and t: "rows_fit t n' w" "r < n'" and Q: "\<And>k. k < w \<Longrightarrow> Q (r, k) = copied 0 ch src R (X + k)"
  shows "\<exists>t'. jcopy_block_row src R X r 0 w t = Some t' \<and> rows.writes ({r} \<times> {..<w}) Q t t'"
proof -
  have "\<exists>t'. jcopy_block_row src R X r 0 w t = Some t' \<and> rows.writes (\<Union>i\<in>{..<w}. {(r, 0 + i)}) Q t t'"
    by (rule jcopy_writes [OF src(2,3,4) t(1,2)]) (use src Q in \<open>simp_all add: copied_plain [OF src(1,2)]\<close>)
  moreover have "(\<Union>i\<in>{..<w}. {(r, 0 + i)}) = {r} \<times> {..<w}" by auto
  ultimately show ?thesis by simp
qed

lemma copy_block_plain:
  assumes "barray_ok src" "rows_fit src n m" "R < n" "X < m" "\<not> R < ch" "\<not> X < cw"
    and t: "rows_fit t n' w" "r < n'" "k < w" and Q: "Q (r, k) = copied cw ch src R X"
  shows "\<exists>t'. jcopy_block_row src R X r k 1 t = Some t' \<and> rows.writes {(r, k)} Q t t'"
  using jcopy_writes [OF assms(2,3) _ t(1,2), of X 1 k Q] assms by (simp add: copied_plain lessThan_Suc)

lemma copy_fitsE:
  assumes "copy_fits c x_off y_off cw ch src dst"
  obtains n m where "barray_ok src" "rows_fit src n m" "ch \<le> n" "cw \<le> m" "x_off * h_samp_factor c + width_in_blocks c \<le> m"
    "y_off * v_samp_factor c + turns (v_samp_factor c) (height_in_blocks c) * v_samp_factor c \<le> n"
    "rows_fit dst (turns (v_samp_factor c) (height_in_blocks c) * v_samp_factor c) (width_in_blocks c)"
  using assms unfolding copy_fits_def by blast

lemma do_crop_copies:
  assumes "copy_fits c x_off y_off 0 0 src dst"
  shows "\<exists>dst'. do_crop c x_off y_off src dst = Some dst' \<and> copies c x_off y_off 0 0 src dst dst'"
  using assms
proof (rule copy_fitsE)
  fix n m
  assume src: "barray_ok src" "rows_fit src n m" "x_off * h_samp_factor c + width_in_blocks c \<le> m"
      "y_off * v_samp_factor c + turns (v_samp_factor c) (height_in_blocks c) * v_samp_factor c \<le> n"
    and dst: "rows_fit dst (turns (v_samp_factor c) (height_in_blocks c) * v_samp_factor c) (width_in_blocks c)"
  show ?thesis unfolding do_crop_def copies_def Let_def
  proof (rule grid_rows_source [OF dst], goal_cases)
    case (1 g)
    then show ?case
      using rows_fit_length [OF src(2)] turn_room [OF 1, of "v_samp_factor c"] src(4)
      by simp
  next
    case (2 g p t)
    then show ?case by (intro copy_row_plain [OF src(1,2) _ _ _ 2(4)]) (use src in \<open>simp_all add: ac_simps\<close>)
  qed
qed

lemma do_flip_h_copies:
  assumes "copy_fits c x_off y_off cw 0 src dst"
    and cw: "cw = src_width div (x_max_h_samp_factor d * x_min_DCT_h_scaled_size d) * h_samp_factor c"
  shows "\<exists>dst'. do_flip_h src_width d c x_off y_off src dst = Some dst' \<and> copies c x_off y_off cw 0 src dst dst'"
  using assms(1)
proof (rule copy_fitsE)
  fix n m
  assume src: "barray_ok src" "rows_fit src n m" "cw \<le> m" "x_off * h_samp_factor c + width_in_blocks c \<le> m"
      "y_off * v_samp_factor c + turns (v_samp_factor c) (height_in_blocks c) * v_samp_factor c \<le> n"
    and dst: "rows_fit dst (turns (v_samp_factor c) (height_in_blocks c) * v_samp_factor c) (width_in_blocks c)"
  show ?thesis unfolding do_flip_h_def copies_def Let_def cw [symmetric]
  proof (rule grid_rows_source [OF dst], goal_cases)
    case (1 g)
    then show ?case
      using rows_fit_length [OF src(2)] turn_room [OF 1, of "v_samp_factor c"] src(5)
      by simp
  next
    case (2 g p t)
    show ?case
    proof (rule row_blocks [OF 2(4,3)], goal_cases)
      case (1 k s)
      show ?case
      proof (cases "x_off * h_samp_factor c + k < cw")
        case True
        then have "x_off * h_samp_factor c + k < m" using src(3) by simp
        then show ?thesis unfolding if_P [OF True]
          by (intro move_writes [OF src(2) _ _ 1(2)]) (use src 1 2 True in \<open>simp_all add: copied_cases ac_simps\<close>)
      next
        case False
        then show ?thesis unfolding if_not_P [OF False] add.commute [of k]
          by (intro copy_block_plain [OF src(1,2) _ _ _ False 1(2)]) (use src 1 2 in \<open>simp_all add: ac_simps\<close>)
      qed
    qed
  qed
qed

lemma do_flip_v_copies:
  assumes "copy_fits c x_off y_off 0 ch src dst"
    and ch: "ch = src_height div (x_max_v_samp_factor d * x_min_DCT_v_scaled_size d) * v_samp_factor c"
  shows "\<exists>dst'. do_flip_v src_height d c x_off y_off src dst = Some dst' \<and> copies c x_off y_off 0 ch src dst dst'"
  using assms(1)
proof (rule copy_fitsE)
  fix n m
  assume src: "barray_ok src" "rows_fit src n m" "ch \<le> n" "x_off * h_samp_factor c + width_in_blocks c \<le> m"
      "y_off * v_samp_factor c + turns (v_samp_factor c) (height_in_blocks c) * v_samp_factor c \<le> n"
    and dst: "rows_fit dst (turns (v_samp_factor c) (height_in_blocks c) * v_samp_factor c) (width_in_blocks c)"
  let ?v = "v_samp_factor c"
  show ?thesis unfolding do_flip_v_def copies_def Let_def ch [symmetric]
  proof (rule grid_rows_source [OF dst], goal_cases)
    case (1 g)
    then show ?case
      using rows_fit_length [OF src(2)] turn_room [OF 1, of ?v] src(3,5)
        place_room [of y_off ?v g "src_height div (x_max_v_samp_factor d * x_min_DCT_v_scaled_size d)"]
      by (simp add: ch)
  next
    case (2 g p t)
    note less = place_less [OF 2(2), of y_off g "src_height div (x_max_v_samp_factor d * x_min_DCT_v_scaled_size d)", folded ch]
    note mirror = place_mirror [OF 2(2), of y_off g "src_height div (x_max_v_samp_factor d * x_min_DCT_v_scaled_size d)", folded ch]
    show ?case
    proof (cases "y_off * ?v + g * ?v < ch")
      case True
      note m = mirror [OF True] less [THEN iffD1, OF True]
      show ?thesis unfolding if_P [OF True] m(1)
      proof (rule row_blocks [OF 2(4,3)], goal_cases)
        case (1 k s)
        show ?case by (intro move_writes [OF src(2) _ _ 1(2)]) (use src 1 2 m in \<open>simp_all add: copied_cases ac_simps\<close>)
      qed
    next
      case False
      then have "\<not> y_off * ?v + (g * ?v + p) < ch" using less by blast
      then show ?thesis unfolding if_not_P [OF False]
        by (intro copy_row_plain [OF src(1,2) _ _ _ 2(4,3)]) (use src 2 in \<open>simp_all add: ac_simps\<close>)
    qed
  qed
qed

lemma do_rot_180_copies:
  assumes "copy_fits c x_off y_off cw ch src dst"
    and cw: "cw = src_width div (x_max_h_samp_factor d * x_min_DCT_h_scaled_size d) * h_samp_factor c"
    and ch: "ch = src_height div (x_max_v_samp_factor d * x_min_DCT_v_scaled_size d) * v_samp_factor c"
  shows "\<exists>dst'. do_rot_180 src_width src_height d c x_off y_off src dst = Some dst' \<and> copies c x_off y_off cw ch src dst dst'"
  using assms(1)
proof (rule copy_fitsE)
  fix n m
  assume src: "barray_ok src" "rows_fit src n m" "ch \<le> n" "cw \<le> m" "x_off * h_samp_factor c + width_in_blocks c \<le> m"
      "y_off * v_samp_factor c + turns (v_samp_factor c) (height_in_blocks c) * v_samp_factor c \<le> n"
    and dst: "rows_fit dst (turns (v_samp_factor c) (height_in_blocks c) * v_samp_factor c) (width_in_blocks c)"
  let ?v = "v_samp_factor c" and ?rows = "src_height div (x_max_v_samp_factor d * x_min_DCT_v_scaled_size d)"
  show ?thesis unfolding do_rot_180_def copies_def Let_def ch [symmetric] cw [symmetric]
  proof (rule grid_rows_source [OF dst], goal_cases)
    case (1 g)
    then show ?case
      using rows_fit_length [OF src(2)] turn_room [OF 1, of ?v] src(3,6) place_room [of y_off ?v g ?rows] by (simp add: ch)
  next
    case (2 g p t)
    note less = place_less [OF 2(2), of y_off g ?rows, folded ch]
    note mirror = place_mirror [OF 2(2), of y_off g ?rows, folded ch]
    show ?case
    proof (cases "y_off * ?v + g * ?v < ch")
      case True
      note m = mirror [OF True] less [THEN iffD1, OF True]
      show ?thesis unfolding if_P [OF True] m(1)
      proof (rule row_blocks [OF 2(4,3)], goal_cases)
        case (1 k s)
        show ?case
        proof (cases "x_off * h_samp_factor c + k < cw")
          case True
          then show ?thesis unfolding if_P [OF True]
            by (intro move_writes [OF src(2) _ _ 1(2)]) (use src 1 2 m in \<open>simp_all add: copied_cases ac_simps\<close>)
        next
          case False
          then show ?thesis unfolding if_not_P [OF False]
            by (intro move_writes [OF src(2) _ _ 1(2)]) (use src 1 2 m in \<open>simp_all add: copied_cases ac_simps\<close>)
        qed
      qed
    next
      case False
      then have r: "\<not> y_off * ?v + (g * ?v + p) < ch" using less by blast
      show ?thesis unfolding if_not_P [OF False]
      proof (rule row_blocks [OF 2(4,3)], goal_cases)
        case (1 k s)
        show ?case
        proof (cases "x_off * h_samp_factor c + k < cw")
          case True
          then show ?thesis unfolding if_P [OF True]
            by (intro move_writes [OF src(2) _ _ 1(2)]) (use src 1 2 r in \<open>simp_all add: copied_cases ac_simps\<close>)
        next
          case False
          show ?thesis unfolding if_not_P [OF False] add.commute [of k]
            by (intro copy_block_plain [OF src(1,2) _ _ _ False 1(2), where ch = ch]) (use src 1 2 r in \<open>simp_all add: ac_simps\<close>)
        qed
      qed
    qed
  qed
qed

section \<open>Routines that transpose\<close>

definition transpose_fits :: "xform_component \<Rightarrow> nat \<Rightarrow> nat \<Rightarrow> nat \<Rightarrow> nat \<Rightarrow> barray \<Rightarrow> barray \<Rightarrow> bool" where
  "transpose_fits c x_off y_off cw ch src dst \<longleftrightarrow>
     rows_fit dst (turns (v_samp_factor c) (height_in_blocks c) * v_samp_factor c)
       (turns (h_samp_factor c) (width_in_blocks c) * h_samp_factor c) \<and>
     (\<exists>n m. rows_fit src n m \<and> cw \<le> n \<and> ch \<le> m \<and>
        x_off * h_samp_factor c + turns (h_samp_factor c) (width_in_blocks c) * h_samp_factor c \<le> n \<and>
        y_off * v_samp_factor c + turns (v_samp_factor c) (height_in_blocks c) * v_samp_factor c \<le> m)"

definition transposes :: "xform_component \<Rightarrow> nat \<Rightarrow> nat \<Rightarrow> nat \<Rightarrow> nat \<Rightarrow> barray \<Rightarrow> barray \<Rightarrow> barray \<Rightarrow> bool" where
  "transposes c x_off y_off cw ch src dst dst' \<longleftrightarrow>
     rows.writes ({..<turns (v_samp_factor c) (height_in_blocks c) * v_samp_factor c} \<times>
         {..<turns (h_samp_factor c) (width_in_blocks c) * h_samp_factor c})
       (\<lambda>(r, k). transposed cw ch src (y_off * v_samp_factor c + r) (x_off * h_samp_factor c + k)) dst dst'"

lemma transpose_fitsE:
  assumes "transpose_fits c x_off y_off cw ch src dst"
  obtains n m where "rows_fit src n m" "cw \<le> n" "ch \<le> m"
    "x_off * h_samp_factor c + turns (h_samp_factor c) (width_in_blocks c) * h_samp_factor c \<le> n"
    "y_off * v_samp_factor c + turns (v_samp_factor c) (height_in_blocks c) * v_samp_factor c \<le> m"
    "rows_fit dst (turns (v_samp_factor c) (height_in_blocks c) * v_samp_factor c)
       (turns (h_samp_factor c) (width_in_blocks c) * h_samp_factor c)"
  using assms unfolding transpose_fits_def by blast

lemma do_transpose_transposes:
  assumes "transpose_fits c x_off y_off 0 0 src dst"
  shows "\<exists>dst'. do_transpose c x_off y_off src dst = Some dst' \<and> transposes c x_off y_off 0 0 src dst dst'"
  using assms
proof (rule transpose_fitsE)
  fix n m
  assume src: "rows_fit src n m"
      "x_off * h_samp_factor c + turns (h_samp_factor c) (width_in_blocks c) * h_samp_factor c \<le> n"
      "y_off * v_samp_factor c + turns (v_samp_factor c) (height_in_blocks c) * v_samp_factor c \<le> m"
    and dst: "rows_fit dst (turns (v_samp_factor c) (height_in_blocks c) * v_samp_factor c)
       (turns (h_samp_factor c) (width_in_blocks c) * h_samp_factor c)"
  show ?thesis unfolding do_transpose_def transposes_def Let_def
  proof (rule grid_rows [OF dst], goal_cases)
    case (1 g p t)
    show ?case
    proof (rule row_groups [OF 1(4)], goal_cases)
      case (1 gx)
      then show ?case using rows_fit_length [OF src(1)] turn_room [OF 1, of "h_samp_factor c"] src(2) by simp
    next
      case (2 gx px s)
      show ?case by (intro move_writes [OF src(1) _ _ 2(4)]) (use src 1 2 in \<open>simp_all add: transposed_cases ac_simps\<close>)
    qed
  qed
qed

lemma do_rot_270_transposes:
  assumes "transpose_fits c x_off y_off 0 ch src dst"
    and ch: "ch = src_width div (x_max_v_samp_factor d * x_min_DCT_v_scaled_size d) * v_samp_factor c"
  shows "\<exists>dst'. do_rot_270 src_width d c x_off y_off src dst = Some dst' \<and> transposes c x_off y_off 0 ch src dst dst'"
  using assms(1)
proof (rule transpose_fitsE)
  fix n m
  assume src: "rows_fit src n m" "ch \<le> m"
      "x_off * h_samp_factor c + turns (h_samp_factor c) (width_in_blocks c) * h_samp_factor c \<le> n"
      "y_off * v_samp_factor c + turns (v_samp_factor c) (height_in_blocks c) * v_samp_factor c \<le> m"
    and dst: "rows_fit dst (turns (v_samp_factor c) (height_in_blocks c) * v_samp_factor c)
       (turns (h_samp_factor c) (width_in_blocks c) * h_samp_factor c)"
  let ?v = "v_samp_factor c" and ?rows = "src_width div (x_max_v_samp_factor d * x_min_DCT_v_scaled_size d)"
  show ?thesis unfolding do_rot_270_def transposes_def Let_def ch [symmetric]
  proof (rule grid_rows [OF dst], goal_cases)
    case (1 g p t)
    note less = place_less [OF 1(2), of y_off g ?rows, folded ch]
    show ?case
    proof (rule row_groups [OF 1(4)], goal_cases)
      case (1 gx)
      then show ?case using rows_fit_length [OF src(1)] turn_room [OF 1, of "h_samp_factor c"] src(3) by simp
    next
      case (2 gx px s)
      show ?case
      proof (cases "y_off * ?v + g * ?v < ch")
        case True
        show ?thesis unfolding if_P [OF True]
          by (intro move_writes [OF src(1) _ _ 2(4)])
            (use src 1 2 less [THEN iffD1, OF True] in \<open>simp_all add: transposed_cases ac_simps\<close>)
      next
        case False
        then have "\<not> y_off * ?v + (g * ?v + p) < ch" using less by blast
        then show ?thesis unfolding if_not_P [OF False]
          by (intro move_writes [OF src(1) _ _ 2(4)]) (use src 1 2 in \<open>simp_all add: transposed_cases ac_simps\<close>)
      qed
    qed
  qed
qed

lemma do_rot_90_transposes:
  assumes "transpose_fits c x_off y_off cw 0 src dst"
    and cw: "cw = src_height div (x_max_h_samp_factor d * x_min_DCT_h_scaled_size d) * h_samp_factor c"
  shows "\<exists>dst'. do_rot_90 src_height d c x_off y_off src dst = Some dst' \<and> transposes c x_off y_off cw 0 src dst dst'"
  using assms(1)
proof (rule transpose_fitsE)
  fix n m
  assume src: "rows_fit src n m" "cw \<le> n"
      "x_off * h_samp_factor c + turns (h_samp_factor c) (width_in_blocks c) * h_samp_factor c \<le> n"
      "y_off * v_samp_factor c + turns (v_samp_factor c) (height_in_blocks c) * v_samp_factor c \<le> m"
    and dst: "rows_fit dst (turns (v_samp_factor c) (height_in_blocks c) * v_samp_factor c)
       (turns (h_samp_factor c) (width_in_blocks c) * h_samp_factor c)"
  let ?h = "h_samp_factor c" and ?cols = "src_height div (x_max_h_samp_factor d * x_min_DCT_h_scaled_size d)"
  show ?thesis unfolding do_rot_90_def transposes_def Let_def cw [symmetric]
  proof (rule grid_rows [OF dst], goal_cases)
    case (1 g p t)
    show ?case
    proof (rule row_groups [OF 1(4)], goal_cases)
      case (1 gx)
      then show ?case using rows_fit_length [OF src(1)] turn_room [OF 1, of ?h] src(2,3) place_room [of x_off ?h gx ?cols]
        by (simp add: cw)
    next
      case (2 gx px s)
      note less = place_less [OF 2(2), of x_off gx ?cols, folded cw]
      note mirror = place_mirror [OF 2(2), of x_off gx ?cols, folded cw]
      show ?case
      proof (cases "x_off * ?h + gx * ?h < cw")
        case True
        show ?thesis unfolding if_P [OF True] mirror [OF True]
          by (intro move_writes [OF src(1) _ _ 2(4)])
            (use src 1 2 less [THEN iffD1, OF True] in \<open>simp_all add: transposed_cases ac_simps\<close>)
      next
        case False
        then have "\<not> x_off * ?h + (gx * ?h + px) < cw" using less by blast
        then show ?thesis unfolding if_not_P [OF False]
          by (intro move_writes [OF src(1) _ _ 2(4)]) (use src 1 2 in \<open>simp_all add: transposed_cases ac_simps\<close>)
      qed
    qed
  qed
qed

lemma do_transverse_transposes:
  assumes "transpose_fits c x_off y_off cw ch src dst"
    and cw: "cw = src_height div (x_max_h_samp_factor d * x_min_DCT_h_scaled_size d) * h_samp_factor c"
    and ch: "ch = src_width div (x_max_v_samp_factor d * x_min_DCT_v_scaled_size d) * v_samp_factor c"
  shows "\<exists>dst'. do_transverse src_width src_height d c x_off y_off src dst = Some dst' \<and> transposes c x_off y_off cw ch src dst dst'"
  using assms(1)
proof (rule transpose_fitsE)
  fix n m
  assume src: "rows_fit src n m" "cw \<le> n" "ch \<le> m"
      "x_off * h_samp_factor c + turns (h_samp_factor c) (width_in_blocks c) * h_samp_factor c \<le> n"
      "y_off * v_samp_factor c + turns (v_samp_factor c) (height_in_blocks c) * v_samp_factor c \<le> m"
    and dst: "rows_fit dst (turns (v_samp_factor c) (height_in_blocks c) * v_samp_factor c)
       (turns (h_samp_factor c) (width_in_blocks c) * h_samp_factor c)"
  let ?h = "h_samp_factor c" and ?cols = "src_height div (x_max_h_samp_factor d * x_min_DCT_h_scaled_size d)"
  let ?v = "v_samp_factor c" and ?rows = "src_width div (x_max_v_samp_factor d * x_min_DCT_v_scaled_size d)"
  show ?thesis unfolding do_transverse_def transposes_def Let_def cw [symmetric] ch [symmetric]
  proof (rule grid_rows [OF dst], goal_cases)
    case (1 g p t)
    note less_y = place_less [OF 1(2), of y_off g ?rows, folded ch]
    show ?case
    proof (rule row_groups [OF 1(4)], goal_cases)
      case (1 gx)
      then show ?case using rows_fit_length [OF src(1)] turn_room [OF 1, of ?h] src(2,4) place_room [of x_off ?h gx ?cols]
        by (simp add: cw)
    next
      case (2 gx px s)
      note less = place_less [OF 2(2), of x_off gx ?cols, folded cw]
      note mirror = place_mirror [OF 2(2), of x_off gx ?cols, folded cw]
      have y: "y_off * ?v + g * ?v < ch \<longleftrightarrow> y_off * ?v + (g * ?v + p) < ch" by (rule less_y)
      show ?case
      proof (cases "x_off * ?h + gx * ?h < cw")
        case True
        show ?thesis unfolding if_P [OF True] mirror [OF True] y if_distrib [of "\<lambda>f. f s"]
          by (cases "y_off * ?v + (g * ?v + p) < ch"; simp only: if_True if_False; intro move_writes [OF src(1) _ _ 2(4)])
            (use src 1 2 less [THEN iffD1, OF True] in \<open>simp_all add: transposed_cases ac_simps\<close>)
      next
        case False
        then have x: "\<not> x_off * ?h + (gx * ?h + px) < cw" using less by blast
        show ?thesis unfolding if_not_P [OF False] y
          by (cases "y_off * ?v + (g * ?v + p) < ch"; simp only: if_True if_False; intro move_writes [OF src(1) _ _ 2(4)])
            (use src 1 2 x in \<open>simp_all add: transposed_cases ac_simps\<close>)
      qed
    qed
  qed
qed

end
