(* ===== verification/TransformCrops.thy ===== *)
theory TransformCrops
  imports TransformCopies
begin

text \<open>
  The routines of \<open>jpeg-9a/transupp.c\<close> that work in place or fill with zeros: the horizontal flip
  without a workspace, the crop that extends the picture, and the wipe.
\<close>

section \<open>The horizontal flip in place\<close>

lemma swap_mirrored_writes:
  assumes s: "rows_fit s n m" "r < n" "i < m" "j < m"
    and Q: "Q (r, i) = copy_block odd_column (s ! r ! j)" "Q (r, j) = copy_block odd_column (s ! r ! i)"
  shows "\<exists>s'. swap_mirrored r i j s = Some s' \<and> rows.writes {(r, i), (r, j)} Q s s'"
proof -
  obtain u where u: "put_row (r, i) (copy_block odd_column (s ! r ! j)) s = Some u" "rows.writes {(r, i)} Q s u"
    using rows.put_writes [OF rows_fit_ok [OF s(1,2,3)], of Q] Q(1) by metis
  have "rows_fit u n m" using rows_fit_same [OF s(1)] rows.writes_shape [OF u(2)] by blast
  then obtain s' where s': "put_row (r, j) (copy_block odd_column (s ! r ! i)) u = Some s'" "rows.writes {(r, j)} Q u s'"
    using rows.put_writes [OF rows_fit_ok [OF _ s(2,4)], of u Q] Q(2) by metis
  show ?thesis
    using rows.writes_trans [OF u(2) s'(2)] u(1) s'(1) s
    by (simp add: swap_mirrored_def block_at_fit insert_commute)
qed

lemma mirror_row:
  assumes t: "rows_fit t n m" "r < n" "cw \<le> m"
  shows "\<exists>t'. for_loop 0 ((cw + 1) div 2) (\<lambda>x. swap_mirrored r x (cw - x - 1)) t = Some t' \<and>
    rows.writes ({r} \<times> {..<cw}) (\<lambda>(r, k). copy_block odd_column (t ! r ! (cw - 1 - k))) t t'"
proof -
  let ?Q = "\<lambda>(r, k). copy_block odd_column (t ! r ! (cw - 1 - k))"
  let ?D = "\<lambda>i. {r} \<times> ({..<i} \<union> {k. k < cw \<and> cw \<le> k + i})"
  have "\<exists>t'. for_loop 0 ((cw + 1) div 2) (\<lambda>x. swap_mirrored r x (cw - x - 1)) t = Some t' \<and>
      rows.writes (?D (0 + (cw + 1) div 2)) ?Q t t'"
  proof (rule for_loop_inv)
    have "?D 0 = {}" by auto
    then show "rows.writes (?D 0) ?Q t t" by (simp only: rows.writes_refl)
    fix i s
    assume i: "0 \<le> i" "i < 0 + (cw + 1) div 2" and w: "rows.writes (?D i) ?Q t s"
    have less: "i < cw" "cw - i - 1 < cw" "i \<le> cw - i - 1" using i by simp_all
    have s: "rows_fit s n m" using rows_fit_same [OF t(1)] rows.writes_shape [OF w] by blast
    have out: "(r, i) \<notin> ?D i" "(r, cw - i - 1) \<notin> ?D i" using less by auto
    have same: "s ! r ! i = t ! r ! i" "s ! r ! (cw - i - 1) = t ! r ! (cw - i - 1)"
      using rows.writes_out [OF w out(1)] rows.writes_out [OF w out(2)] by (simp_all add: row_cell_def)
    have "\<exists>s'. swap_mirrored r i (cw - i - 1) s = Some s' \<and> rows.writes {(r, i), (r, cw - i - 1)} ?Q s s'"
    proof (rule swap_mirrored_writes [OF s t(2)])
      have "cw - 1 - i = cw - i - 1" "cw - 1 - (cw - i - 1) = i" using less by simp_all
      then show "?Q (r, i) = copy_block odd_column (s ! r ! (cw - i - 1))" "?Q (r, cw - i - 1) = copy_block odd_column (s ! r ! i)"
        by (simp_all only: same prod.case)
    qed (use less t(3) in simp_all)
    then obtain s' where s': "swap_mirrored r i (cw - i - 1) s = Some s'" "rows.writes {(r, i), (r, cw - i - 1)} ?Q s s'"
      by blast
    have "?D (Suc i) = ?D i \<union> {(r, i), (r, cw - i - 1)}" using less by auto
    then show "\<exists>s'. swap_mirrored r i (cw - i - 1) s = Some s' \<and> rows.writes (?D (Suc i)) ?Q t s'"
      using s'(1) rows.writes_trans [OF w s'(2)] by (simp only:) blast
  qed
  moreover have "?D (0 + (cw + 1) div 2) = {r} \<times> {..<cw}" by auto
  ultimately show ?thesis by (simp only:)
qed

lemma justify_row:
  assumes t: "rows_fit t n m" "r < n" "xb + w \<le> m" "0 < xb"
  shows "\<exists>t'. for_loop 0 w (\<lambda>x buffer. move buffer (r, x + xb) (\<lambda>b. b) (r, x) buffer) t = Some t' \<and>
    rows.writes ({r} \<times> {..<w}) (\<lambda>(r, k). t ! r ! (xb + k)) t t'"
proof -
  let ?Q = "\<lambda>(r, k). t ! r ! (xb + k)"
  have "\<exists>t'. for_loop 0 w (\<lambda>x buffer. move buffer (r, x + xb) (\<lambda>b. b) (r, x) buffer) t = Some t' \<and>
      rows.writes ({r} \<times> {..<0 + w}) ?Q t t'"
  proof (rule for_loop_inv)
    show "rows.writes ({r} \<times> {..<0}) ?Q t t" by (simp add: rows.writes_refl)
    fix i s
    assume i: "0 \<le> i" "i < 0 + w" and w: "rows.writes ({r} \<times> {..<i}) ?Q t s"
    have s: "rows_fit s n m" using rows_fit_same [OF t(1)] rows.writes_shape [OF w] by blast
    have "row_cell s (r, i + xb) = row_cell t (r, i + xb)" by (rule rows.writes_out [OF w]) (use t(4) in simp)
    then have same: "s ! r ! (i + xb) = t ! r ! (xb + i)" by (simp add: row_cell_def add.commute)
    obtain s' where s': "move s (r, i + xb) (\<lambda>b. b) (r, i) s = Some s'" "rows.writes {(r, i)} ?Q s s'"
      using move_writes [OF s _ _ s, of "(r, i + xb)" r i ?Q "\<lambda>b. b"] t i same by auto
    have "{r} \<times> {..<Suc i} = {r} \<times> {..<i} \<union> {(r, i)}" by auto
    then show "\<exists>s'. move s (r, i + xb) (\<lambda>b. b) (r, i) s = Some s' \<and> rows.writes ({r} \<times> {..<Suc i}) ?Q t s'"
      using s'(1) rows.writes_trans [OF w s'(2)] by auto
  qed
  then show ?thesis by simp
qed

text \<open>The blocks of a flipped row: those kept are moved to the left, behind them the others stay.\<close>

definition flipped :: "nat \<Rightarrow> nat \<Rightarrow> nat \<Rightarrow> barray \<Rightarrow> nat \<times> nat \<Rightarrow> block" where
  "flipped cw xb w src = (\<lambda>(r, k). copied cw 0 src r (if k < w then xb + k else k))"

lemma flip_row:
  assumes src: "barray_ok src" "rows_fit src n m" and t: "rows_fit t n m" "r < n" "t ! r = src ! r" "cw \<le> m" "xb + w \<le> m"
  shows "\<exists>t'. Option.bind (for_loop 0 ((cw + 1) div 2) (\<lambda>x. swap_mirrored r x (cw - x - 1)) t)
      (\<lambda>buffer. if 0 < xb then for_loop 0 w (\<lambda>x buffer. move buffer (r, x + xb) (\<lambda>b. b) (r, x) buffer) buffer else Some buffer) = Some t' \<and>
    rows.writes ({r} \<times> {..<max cw w}) (flipped cw xb w src) t t'"
proof -
  obtain s where s: "for_loop 0 ((cw + 1) div 2) (\<lambda>x. swap_mirrored r x (cw - x - 1)) t = Some s"
      "rows.writes ({r} \<times> {..<cw}) (\<lambda>(r, k). copy_block odd_column (t ! r ! (cw - 1 - k))) t s"
    using mirror_row [OF t(1,2,4)] by blast
  have shape: "row_shape s = row_shape t" by (rule rows.writes_shape [OF s(2)])
  then have fit: "rows_fit s n m" using rows_fit_same [OF t(1)] by blast
  have cell: "s ! r ! k = copied cw 0 src r k" if "k < m" for k
  proof (cases "k < cw")
    case True
    then have "row_cell s (r, k) = copy_block odd_column (t ! r ! (cw - 1 - k))"
      using rows.writes_in [OF s(2), of "(r, k)"] by simp
    then show ?thesis using True by (simp add: row_cell_def copied_cases t(3))
  next
    case False
    then have "row_cell s (r, k) = row_cell t (r, k)" by (intro rows.writes_out [OF s(2)]) simp
    then show ?thesis using copied_plain [OF src t(2) that _ False, of 0] by (simp add: row_cell_def t(3))
  qed
  have other: "row_cell s c = row_cell t c" if "c \<notin> {r} \<times> {..<cw}" for c by (rule rows.writes_out [OF s(2) that])
  show ?thesis
  proof (cases "0 < xb")
    case True
    obtain t' where t': "for_loop 0 w (\<lambda>x buffer. move buffer (r, x + xb) (\<lambda>b. b) (r, x) buffer) s = Some t'"
        "rows.writes ({r} \<times> {..<w}) (\<lambda>(r, k). s ! r ! (xb + k)) s t'"
      using justify_row [OF fit t(2,5) True] by blast
    have "rows.writes ({r} \<times> {..<max cw w}) (flipped cw xb w src) t t'"
      unfolding rows.writes_def
    proof (intro conjI allI)
      show "row_shape t' = row_shape t" using rows.writes_shape [OF t'(2)] shape by simp
      fix c :: "nat \<times> nat"
      obtain r' k where c: "c = (r', k)" by (cases c)
      consider (kept) "r' = r" "k < w" | (rest) "r' = r" "\<not> k < w" "k < cw" | (out) "c \<notin> {r} \<times> {..<max cw w}"
        using c by fastforce
      then show "row_cell t' c = (if c \<in> {r} \<times> {..<max cw w} then flipped cw xb w src c else row_cell t c)"
      proof cases
        case kept
        then have "row_cell t' c = s ! r ! (xb + k)" using rows.writes_in [OF t'(2), of c] by (simp add: c)
        then show ?thesis using kept cell [of "xb + k"] t(5) by (simp add: c flipped_def less_max_iff_disj)
      next
        case rest
        then have "row_cell t' c = s ! r ! k" using rows.writes_out [OF t'(2), of c] by (simp add: c row_cell_def)
        then show ?thesis using rest cell [of k] t(4) by (simp add: c flipped_def)
      next
        case out
        then show ?thesis using rows.writes_out [OF t'(2), of c] other [of c] by (auto simp: c less_max_iff_disj)
      qed
    qed
    then show ?thesis using s(1) t'(1) True by simp
  next
    case False
    have "rows.writes ({r} \<times> {..<max cw w}) (flipped cw xb w src) t s"
      unfolding rows.writes_def
    proof (intro conjI allI)
      fix c :: "nat \<times> nat"
      obtain r' k where c: "c = (r', k)" by (cases c)
      show "row_cell s c = (if c \<in> {r} \<times> {..<max cw w} then flipped cw xb w src c else row_cell t c)"
      proof (cases "c \<in> {r} \<times> {..<max cw w}")
        case True
        then have "k < m" using t(4,5) by (auto simp: c)
        then show ?thesis using True False cell [of k] by (auto simp: c row_cell_def flipped_def)
      next
        case out: False
        then show ?thesis using other [of c] by (auto simp: c less_max_iff_disj)
      qed
    qed (rule shape)
    then show ?thesis using s(1) False by simp
  qed
qed

lemma do_flip_h_no_crop_flips:
  assumes src: "barray_ok src" "rows_fit src (turns (v_samp_factor c) (height_in_blocks c) * v_samp_factor c) m"
    and cw: "cw = src_width div (x_max_h_samp_factor d * x_min_DCT_h_scaled_size d) * h_samp_factor c" "cw \<le> m"
    and xb: "x_off * h_samp_factor c + width_in_blocks c \<le> m"
  shows "\<exists>dst'. do_flip_h_no_crop src_width d c x_off src = Some dst' \<and>
    rows.writes ({..<turns (v_samp_factor c) (height_in_blocks c) * v_samp_factor c} \<times> {..<max cw (width_in_blocks c)})
      (flipped cw (x_off * h_samp_factor c) (width_in_blocks c) src) src dst'"
proof -
  let ?v = "v_samp_factor c" and ?n = "turns (v_samp_factor c) (height_in_blocks c)"
  let ?Q = "flipped cw (x_off * h_samp_factor c) (width_in_blocks c) src" and ?w = "max cw (width_in_blocks c)"
  let ?row = "\<lambda>r t. Option.bind (for_loop 0 ((cw + 1) div 2) (\<lambda>x. swap_mirrored r x (cw - x - 1)) t)
      (\<lambda>buffer. if 0 < x_off * h_samp_factor c
        then for_loop 0 (width_in_blocks c) (\<lambda>x buffer. move buffer (r, x + x_off * h_samp_factor c) (\<lambda>b. b) (r, x) buffer) buffer
        else Some buffer)"
  have row: "\<exists>t'. ?row r t = Some t' \<and> rows.writes ({..<Suc r} \<times> {..<?w}) ?Q src t'"
    if r: "r < ?n * ?v" and t: "rows.writes ({..<r} \<times> {..<?w}) ?Q src t" for r t
  proof -
    have fit: "rows_fit t (?n * ?v) m" using rows_fit_same [OF src(2)] rows.writes_shape [OF t] by blast
    have shape: "row_shape t = row_shape src" by (rule rows.writes_shape [OF t])
    then have len: "length t = length src" unfolding row_shape_def by (rule map_eq_imp_length_eq)
    have "r < length src" using rows_fit_length [OF src(2) order_refl] r by simp
    then have "length (t ! r) = length (src ! r)"
      using shape len nth_map [of r t length] nth_map [of r src length]
      by (simp add: row_shape_def)
    moreover have "t ! r ! k = src ! r ! k" for k
      using rows.writes_out [OF t, of "(r, k)"] by (simp add: row_cell_def)
    ultimately have "t ! r = src ! r" by (intro nth_equalityI) simp_all
    then obtain t' where "?row r t = Some t'" "rows.writes ({r} \<times> {..<?w}) ?Q t t'"
      using flip_row [OF src fit r _ cw(2) xb] by blast
    moreover have "{..<Suc r} \<times> {..<?w} = {..<r} \<times> {..<?w} \<union> {r} \<times> {..<?w}" by auto
    ultimately show ?thesis using rows.writes_trans [OF t] by (simp only:) blast
  qed
  have group: "\<exists>t'. for_loop 0 ?v (\<lambda>offset_y. ?row (g * ?v + offset_y)) t = Some t' \<and> rows.writes ({..<Suc g * ?v} \<times> {..<?w}) ?Q src t'"
    if g: "g < ?n" and t: "rows.writes ({..<g * ?v} \<times> {..<?w}) ?Q src t" for g t
  proof -
    have "\<exists>t'. for_loop 0 ?v (\<lambda>offset_y. ?row (g * ?v + offset_y)) t = Some t' \<and>
        rows.writes ({..<g * ?v + (0 + ?v)} \<times> {..<?w}) ?Q src t'"
    proof (rule for_loop_inv)
      fix p s
      assume "p < 0 + ?v" "rows.writes ({..<g * ?v + p} \<times> {..<?w}) ?Q src s"
      then show "\<exists>t'. ?row (g * ?v + p) s = Some t' \<and> rows.writes ({..<g * ?v + Suc p} \<times> {..<?w}) ?Q src t'"
        using row [of "g * ?v + p" s] g by (simp only: add_0_left turn_less add_Suc_right)
    qed (use t in simp)
    then show ?thesis by (simp add: add.commute)
  qed
  have "\<exists>t'. for_loop 0 ?n (\<lambda>g buffer. access_virt_barray buffer (g * ?v) ?v
        (for_loop 0 ?v (\<lambda>offset_y. ?row (g * ?v + offset_y)) buffer)) src = Some t' \<and>
      rows.writes ({..<(0 + ?n) * ?v} \<times> {..<?w}) ?Q src t'"
  proof (rule for_loop_inv)
    fix g s
    assume g: "g < 0 + ?n" and s: "rows.writes ({..<g * ?v} \<times> {..<?w}) ?Q src s"
    have "rows_fit s (?n * ?v) m" using rows_fit_same [OF src(2)] rows.writes_shape [OF s] by blast
    moreover have "g * ?v + ?v \<le> ?n * ?v" by (rule turn_room) (use g in simp)
    ultimately have "access_virt_barray s (g * ?v) ?v (for_loop 0 ?v (\<lambda>offset_y. ?row (g * ?v + offset_y)) s) =
        for_loop 0 ?v (\<lambda>offset_y. ?row (g * ?v + offset_y)) s"
      by (intro access_ok rows_fit_length)
    then show "\<exists>t'. access_virt_barray s (g * ?v) ?v (for_loop 0 ?v (\<lambda>offset_y. ?row (g * ?v + offset_y)) s) = Some t' \<and>
        rows.writes ({..<Suc g * ?v} \<times> {..<?w}) ?Q src t'"
      using group [OF _ s] g by (simp only: add_0_left)
  qed (simp add: rows.writes_refl)
  then show ?thesis unfolding do_flip_h_no_crop_def Let_def stepped_def cw(1) [symmetric] by simp
qed

section \<open>Zeros\<close>

lemma zero_blocks_writes:
  assumes t: "rows_fit t n m" "r < n" "k + j \<le> m" and Q: "\<And>i. i < j \<Longrightarrow> Q (r, k + i) = zero_block"
  shows "\<exists>t'. zero_blocks r k j t = Some t' \<and> rows.writes ({r} \<times> {k..<k + j}) Q t t'"
proof -
  have "\<exists>t'. zero_blocks r k j t = Some t' \<and> rows.writes (\<Union>i\<in>{..<j}. {(r, k + i)}) Q t t'"
    unfolding zero_blocks_def
  proof (rule rows.loop0_writes)
    fix i and s :: barray
    assume i: "i < j" and "row_shape s = row_shape t"
    then have s: "rows_fit s n m" using rows_fit_same [OF t(1)] by blast
    show "\<exists>s'. put_row (r, k + i) zero_block s = Some s' \<and> rows.writes {(r, k + i)} Q s s'"
      by (rule rows.put_writes [OF rows_fit_ok [OF s t(2)]]) (use i t(3) Q in simp_all)
  qed
  moreover have "(\<Union>i\<in>{..<j}. {(r, k + i)}) = {r} \<times> {k..<k + j}"
    by (auto simp: le_iff_add)
  ultimately show ?thesis by simp
qed

lemma turns_multiple: "0 < step \<Longrightarrow> turns step (n * step) = n"
  unfolding turns_def by (rule div_nat_eqI) (simp_all add: mult.commute)

text \<open>A wipe sets the blocks of its area to zero and no others.\<close>

lemma do_wipe_zeros:
  assumes v: "0 < v_samp_factor c" and src: "rows_fit src n m"
    and fit: "(y_off + drop_height) * v_samp_factor c \<le> n" "(x_off + drop_width) * h_samp_factor c \<le> m"
  shows "\<exists>src'. do_wipe c x_off y_off drop_width drop_height src = Some src' \<and>
    rows.writes ({y_off * v_samp_factor c..<(y_off + drop_height) * v_samp_factor c} \<times>
        {x_off * h_samp_factor c..<(x_off + drop_width) * h_samp_factor c}) (\<lambda>_. zero_block) src src'"
proof -
  let ?v = "v_samp_factor c" and ?h = "h_samp_factor c" and ?Q = "\<lambda>_. zero_block"
  let ?cols = "{x_off * ?h..<x_off * ?h + drop_width * ?h}"
  let ?body = "\<lambda>y offset_y. zero_blocks (y + y_off * ?v + offset_y) (x_off * ?h) (drop_width * ?h)"
  have "\<exists>src'. stepped ?v (drop_height * ?v) (\<lambda>y buffer. access_virt_barray buffer (y + y_off * ?v) ?v (for_loop 0 ?v (?body y) buffer)) src = Some src' \<and>
      rows.writes (\<Union>g\<in>{..<turns ?v (drop_height * ?v)}. \<Union>p\<in>{..<?v}. {y_off * ?v + (g * ?v + p)} \<times> ?cols) ?Q src src'"
  proof (rule rows.stepped_writes)
    fix g and t :: barray
    assume g: "g < turns ?v (drop_height * ?v)" and "row_shape t = row_shape src"
    then have t: "rows_fit t n m" using rows_fit_same [OF src] by blast
    have room: "g * ?v + ?v \<le> drop_height * ?v" using turn_room [OF g, of ?v] by (simp add: turns_multiple v)
    have "\<exists>t'. for_loop 0 ?v (?body (g * ?v)) t = Some t' \<and>
        rows.writes (\<Union>p\<in>{..<?v}. {y_off * ?v + (g * ?v + p)} \<times> ?cols) ?Q t t'"
    proof (rule rows.loop0_writes)
      fix p and s :: barray
      assume p: "p < ?v" and "row_shape s = row_shape t"
      then have s: "rows_fit s n m" using rows_fit_same [OF t] by blast
      have "\<exists>s'. zero_blocks (y_off * ?v + (g * ?v + p)) (x_off * ?h) (drop_width * ?h) s = Some s' \<and>
          rows.writes ({y_off * ?v + (g * ?v + p)} \<times> ?cols) ?Q s s'"
        by (rule zero_blocks_writes [OF s]) (use p room fit in \<open>simp_all add: algebra_simps\<close>)
      then show "\<exists>s'. ?body (g * ?v) p s = Some s' \<and> rows.writes ({y_off * ?v + (g * ?v + p)} \<times> ?cols) ?Q s s'"
        by (simp add: ac_simps)
    qed
    moreover have "g * ?v + y_off * ?v + ?v \<le> length t"
      using rows_fit_length [OF t] room fit(1) by (simp add: algebra_simps)
    ultimately show "\<exists>t'. access_virt_barray t (g * ?v + y_off * ?v) ?v (for_loop 0 ?v (?body (g * ?v)) t) = Some t' \<and>
        rows.writes (\<Union>p\<in>{..<?v}. {y_off * ?v + (g * ?v + p)} \<times> ?cols) ?Q t t'"
      by (simp add: access_ok)
  qed
  moreover have "(\<Union>g\<in>{..<turns ?v (drop_height * ?v)}. \<Union>p\<in>{..<?v}. {y_off * ?v + (g * ?v + p)} \<times> ?cols) =
      {y_off * ?v..<(y_off + drop_height) * ?v} \<times> {x_off * ?h..<(x_off + drop_width) * ?h}"
  proof -
    have "(\<Union>g\<in>{..<turns ?v (drop_height * ?v)}. \<Union>p\<in>{..<?v}. {y_off * ?v + (g * ?v + p)} \<times> ?cols) =
        (\<lambda>y. y_off * ?v + y) ` (\<Union>g\<in>{..<drop_height}. \<Union>p\<in>{..<?v}. {g * ?v + p}) \<times> ?cols"
      by (auto simp: turns_multiple v)
    also have "\<dots> = (\<lambda>y. y_off * ?v + y) ` {..<drop_height * ?v} \<times> ?cols" by (simp only: turns_cover)
    also have "(\<lambda>y. y_off * ?v + y) ` {..<drop_height * ?v} = {y_off * ?v..<(y_off + drop_height) * ?v}"
      by (simp add: lessThan_atLeast0 image_add_atLeastLessThan distrib_right add.commute)
    finally show ?thesis by (simp add: distrib_right)
  qed
  ultimately show ?thesis unfolding do_wipe_def Let_def by simp
qed

section \<open>The crop that extends the picture\<close>

text \<open>
  The blocks of the destination when it is larger than the source in one direction or both: the
  picture's whole iMCUs stand at the offset, zeros around them.
\<close>

definition extended :: "bool \<Rightarrow> bool \<Rightarrow> nat \<Rightarrow> nat \<Rightarrow> nat \<Rightarrow> nat \<Rightarrow> barray \<Rightarrow> nat \<times> nat \<Rightarrow> block" where
  "extended wider higher cw ch xb yb src = (\<lambda>(r, k).
     if higher \<and> (r < yb \<or> ch + yb \<le> r) \<or> wider \<and> (k < xb \<or> cw + xb \<le> k) then zero_block
     else src ! (if higher then r - yb else r + yb) ! (if wider then k - xb else xb + k))"

lemma extended_row:
  assumes t: "rows_fit t n w" "r < n" and src: "rows_fit src n' m" "R < n'"
    and wide: "wider \<Longrightarrow> cw \<le> m \<and> cw + xb \<le> w" "\<not> wider \<Longrightarrow> xb + w \<le> m"
    and Q: "\<And>k. k < w \<Longrightarrow> Q (r, k) = (if wider \<and> (k < xb \<or> cw + xb \<le> k) then zero_block else src ! R ! (if wider then k - xb else xb + k))"
  shows "\<exists>t'. (if wider
       then Option.bind (zero_blocks r 0 xb t) (\<lambda>dst. Option.bind (jcopy_block_row src R 0 r xb cw dst) (\<lambda>dst.
              if cw + xb < w then zero_blocks r (cw + xb) (w - cw - xb) dst else Some dst))
       else jcopy_block_row src R xb r 0 w t) = Some t' \<and> rows.writes ({r} \<times> {..<w}) Q t t'"
proof (cases wider)
  case True
  note wide = wide(1) [OF True]
  obtain a where a: "zero_blocks r 0 xb t = Some a" "rows.writes ({r} \<times> {0..<0 + xb}) Q t a"
    using zero_blocks_writes [OF t, of 0 xb Q] Q True wide by force
  have fa: "rows_fit a n w" using rows_fit_same [OF t(1)] rows.writes_shape [OF a(2)] by blast
  obtain b where b: "jcopy_block_row src R 0 r xb cw a = Some b" "rows.writes (\<Union>i\<in>{..<cw}. {(r, xb + i)}) Q a b"
    using jcopy_writes [OF src, of 0 cw a n w r xb Q] fa t(2) Q True wide by force
  have fb: "rows_fit b n w" using rows_fit_same [OF fa] rows.writes_shape [OF b(2)] by blast
  obtain e where e: "zero_blocks r (cw + xb) (w - cw - xb) b = Some e" "rows.writes ({r} \<times> {cw + xb..<cw + xb + (w - cw - xb)}) Q b e"
    using zero_blocks_writes [OF fb t(2), of "cw + xb" "w - cw - xb" Q] Q True wide by force
  have set: "({r} \<times> {0..<0 + xb} \<union> (\<Union>i\<in>{..<cw}. {(r, xb + i)})) \<union> {r} \<times> {cw + xb..<cw + xb + (w - cw - xb)} = {r} \<times> {..<w}"
  proof -
    have "(\<Union>i\<in>{..<cw}. {(r, xb + i)}) = {r} \<times> {xb..<xb + cw}" by (auto simp: le_iff_add)
    then show ?thesis using wide by auto
  qed
  have w: "rows.writes ({r} \<times> {..<w}) Q t e"
    using rows.writes_trans [OF rows.writes_trans [OF a(2) b(2)] e(2)] unfolding set .
  have "zero_blocks r (cw + xb) (w - cw - xb) b = Some b" if "\<not> cw + xb < w" using that wide by (simp add: zero_blocks_def)
  then show ?thesis using a(1) b(1) e(1) w True by (cases "cw + xb < w") simp_all
next
  case False
  have "\<exists>t'. jcopy_block_row src R xb r 0 w t = Some t' \<and> rows.writes (\<Union>i\<in>{..<w}. {(r, 0 + i)}) Q t t'"
    by (rule jcopy_writes [OF src _ t]) (use False wide(2) Q in simp_all)
  moreover have "(\<Union>i\<in>{..<w}. {(r, 0 + i)}) = {r} \<times> {..<w}" by auto
  ultimately show ?thesis using False by simp
qed

lemma do_crop_ext_extends:
  assumes cw: "cw = src_width div (x_max_h_samp_factor d * x_min_DCT_h_scaled_size d) * h_samp_factor c"
    and ch: "ch = src_height div (x_max_v_samp_factor d * x_min_DCT_v_scaled_size d) * v_samp_factor c"
    and wider: "wider \<longleftrightarrow> src_width < x_jpeg_width d" and higher: "higher \<longleftrightarrow> src_height < x_jpeg_height d"
    and dst: "rows_fit dst (turns (v_samp_factor c) (height_in_blocks c) * v_samp_factor c) (width_in_blocks c)"
    and src: "rows_fit src n m"
    and wide: "wider \<Longrightarrow> cw \<le> m \<and> cw + x_off * h_samp_factor c \<le> width_in_blocks c"
      "\<not> wider \<Longrightarrow> x_off * h_samp_factor c + width_in_blocks c \<le> m"
    and high: "higher \<Longrightarrow> ch \<le> n"
      "\<not> higher \<Longrightarrow> y_off * v_samp_factor c + turns (v_samp_factor c) (height_in_blocks c) * v_samp_factor c \<le> n"
  shows "\<exists>dst'. do_crop_ext src_width src_height d c x_off y_off src dst = Some dst' \<and>
    rows.writes ({..<turns (v_samp_factor c) (height_in_blocks c) * v_samp_factor c} \<times> {..<width_in_blocks c})
      (extended wider higher cw ch (x_off * h_samp_factor c) (y_off * v_samp_factor c) src) dst dst'"
proof -
  let ?v = "v_samp_factor c" and ?w = "width_in_blocks c" and ?xb = "x_off * h_samp_factor c" and ?yb = "y_off * v_samp_factor c"
  let ?n = "turns ?v (height_in_blocks c)" and ?Q = "extended wider higher cw ch ?xb ?yb src"
  let ?rows = "src_height div (x_max_v_samp_factor d * x_min_DCT_v_scaled_size d)"
  let ?copy = "\<lambda>R r dst. if wider
      then Option.bind (zero_blocks r 0 ?xb dst) (\<lambda>dst. Option.bind (jcopy_block_row src R 0 r ?xb cw dst) (\<lambda>dst.
             if cw + ?xb < ?w then zero_blocks r (cw + ?xb) (?w - cw - ?xb) dst else Some dst))
      else jcopy_block_row src R ?xb r 0 ?w dst"
  let ?body = "\<lambda>y p dst. if higher
      then if y < ?yb \<or> ch + ?yb \<le> y then zero_blocks (y + p) 0 ?w dst else ?copy (y - ?yb + p) (y + p) dst
      else ?copy (y + ?yb + p) (y + p) dst"
  have turn: "g * ?v < ?yb \<longleftrightarrow> g * ?v + p < ?yb" "ch + ?yb \<le> g * ?v \<longleftrightarrow> ch + ?yb \<le> g * ?v + p" if "p < ?v" for g p
    using turn_less [OF that, of g y_off] turn_less [OF that, of g "?rows + y_off"]
      turn_less [of 0 ?v g y_off] turn_less [of 0 ?v g "?rows + y_off"] that
    by (auto simp: ch distrib_right not_less)
  have src_room: "g * ?v - ?yb + ?v \<le> n" if "higher" "\<not> g * ?v < ?yb" "\<not> ch + ?yb \<le> g * ?v" "0 < ?v" for g
  proof -
    have "g * ?v < (?rows + y_off) * ?v" using that by (simp add: ch distrib_right)
    then have "Suc g * ?v \<le> (?rows + y_off) * ?v" by (intro mult_le_mono1) (simp only: mult_less_cancel2 Suc_le_eq)
    then show ?thesis using that high(1) by (simp add: ch distrib_right)
  qed
  have "\<exists>dst'. stepped ?v (height_in_blocks c) (\<lambda>y dst. access_virt_barray dst y ?v (for_loop 0 ?v (?body y) dst)) dst = Some dst' \<and>
      rows.writes ({..<?n * ?v} \<times> {..<?w}) ?Q dst dst'"
  proof (rule grid_rows [OF dst])
    fix g p and t :: barray
    assume g: "g < ?n" and p: "p < ?v" "g * ?v + p < ?n * ?v" and t: "rows_fit t (?n * ?v) ?w"
    show "\<exists>t'. ?body (g * ?v) p t = Some t' \<and> rows.writes ({g * ?v + p} \<times> {..<?w}) ?Q t t'"
    proof (cases "higher \<and> (g * ?v < ?yb \<or> ch + ?yb \<le> g * ?v)")
      case True
      have "\<exists>t'. zero_blocks (g * ?v + p) 0 ?w t = Some t' \<and> rows.writes ({g * ?v + p} \<times> {0..<0 + ?w}) ?Q t t'"
        by (rule zero_blocks_writes [OF t p(2)]) (use True turn [OF p(1)] in \<open>auto simp: extended_def\<close>)
      then show ?thesis using True by (simp add: lessThan_atLeast0)
    next
      case False
      define R where "R = (if higher then g * ?v - ?yb + p else g * ?v + ?yb + p)"
      have R: "R < n"
      proof (cases higher)
        case True
        then have "g * ?v - ?yb + ?v \<le> n" using src_room [of g] False p(1) by linarith
        then have "g * ?v - ?yb + p < n" using p(1) by linarith
        then show ?thesis by (simp only: R_def True if_True)
      next
        case not_higher: False
        then show ?thesis using high(2) turn_room [OF g, of ?v] p(1) by (simp add: R_def)
      qed
      have "\<exists>t'. ?copy R (g * ?v + p) t = Some t' \<and> rows.writes ({g * ?v + p} \<times> {..<?w}) ?Q t t'"
      proof (rule extended_row [OF t p(2) src R wide])
        show "?Q (g * ?v + p, k) = (if wider \<and> (k < ?xb \<or> cw + ?xb \<le> k) then zero_block
            else src ! R ! (if wider then k - ?xb else ?xb + k))" for k
          using False turn [OF p(1), of g] by (auto simp: extended_def R_def ac_simps)
      qed
      then show ?thesis using False by (auto simp: R_def)
    qed
  qed
  moreover have "stepped ?v (height_in_blocks c) (\<lambda>y dst. access_virt_barray dst y ?v (for_loop 0 ?v (?body y) dst)) dst =
      do_crop_ext src_width src_height d c x_off y_off src dst"
    unfolding do_crop_ext_def Let_def cw [symmetric] ch [symmetric] wider [symmetric] higher [symmetric]
  proof (rule stepped_cong [where P = "\<lambda>_. True"])
    fix g and s :: barray
    assume g: "g < ?n"
    have fit: "access_virt_barray src (g * ?v + ?yb) ?v k = k" if "\<not> higher" for k :: "barray option"
      by (rule access_ok) (use high(2) [OF that] turn_room [OF g, of ?v] rows_fit_length [OF src] in simp)
    have fit': "access_virt_barray src (g * ?v - ?yb) ?v k = k"
      if "higher" "\<not> g * ?v < ?yb" "\<not> ch + ?yb \<le> g * ?v" "0 < ?v" for k :: "barray option"
      by (rule access_ok) (use src_room [OF that] rows_fit_length [OF src] in blast)
    have v: "0 < ?v" using g by (cases ?v) (simp_all add: turns_def)
    show "access_virt_barray s (g * ?v) ?v (for_loop 0 ?v (?body (g * ?v)) s) =
        access_virt_barray s (g * ?v) ?v
          (if higher
           then if g * ?v < ?yb \<or> ch + ?yb \<le> g * ?v then for_loop 0 ?v (\<lambda>offset_y. zero_blocks (g * ?v + offset_y) 0 ?w) s
                else access_virt_barray src (g * ?v - ?yb) ?v
                       (for_loop 0 ?v (\<lambda>offset_y. ?copy (g * ?v - ?yb + offset_y) (g * ?v + offset_y)) s)
           else access_virt_barray src (g * ?v + ?yb) ?v
                  (for_loop 0 ?v (\<lambda>offset_y. ?copy (g * ?v + ?yb + offset_y) (g * ?v + offset_y)) s))"
      using fit fit' v by (cases higher; cases "g * ?v < ?yb \<or> ch + ?yb \<le> g * ?v") simp_all
  qed simp_all
  ultimately show ?thesis by simp
qed

end
