(* ===== verification/TransformPictures.thy ===== *)
theory TransformPictures
  imports TransformCrops IdctAccuracy
begin

text \<open>
  \<open>jtransform_execute_transform\<close> of \<open>jpeg-9a/transupp.c\<close>, and what the transformations of coefficient
  arrays do to the pictures the arrays stand for.
\<close>

section \<open>Executing a transformation\<close>

datatype JXFORM_CODE = JXFORM_NONE | JXFORM_FLIP_H | JXFORM_FLIP_V | JXFORM_TRANSPOSE | JXFORM_TRANSVERSE
  | JXFORM_ROT_90 | JXFORM_ROT_180 | JXFORM_ROT_270 | JXFORM_WIPE

datatype JCROP_CODE = JCROP_UNSET | JCROP_POS | JCROP_NEG | JCROP_FORCE

record transform_info =
  transform :: JXFORM_CODE
  perfect :: bool
  trim :: bool
  force_grayscale :: bool
  crop :: bool
  crop_width :: nat
  crop_width_set :: JCROP_CODE
  crop_height :: nat
  crop_height_set :: JCROP_CODE
  crop_xoffset :: nat
  crop_xoffset_set :: JCROP_CODE
  crop_yoffset :: nat
  crop_yoffset_set :: JCROP_CODE
  num_comps :: nat
  output_width :: nat
  output_height :: nat
  x_crop_offset :: nat
  y_crop_offset :: nat
  drop_width :: nat
  drop_height :: nat
  iMCU_sample_width :: nat
  iMCU_sample_height :: nat

text \<open>
  A routine over all components of the destination: from the source into the workspace, or in the
  source arrays.  The result are the source arrays and the workspace (\<open>None\<close> for \<open>NULL\<close>).
\<close>

definition into_workspace ::
  "(xform_component \<Rightarrow> barray \<Rightarrow> barray \<Rightarrow> barray option) \<Rightarrow> xform_component list \<Rightarrow> barray list \<Rightarrow> barray list option \<Rightarrow>
     (barray list \<times> barray list option) option" where
  "into_workspace f comps srcs dsts =
     (case dsts of None \<Rightarrow> None
      | Some ds \<Rightarrow> map_option (\<lambda>ds'. (srcs, Some ds'))
          (those (map (\<lambda>ci. f (comps ! ci) (srcs ! ci) (ds ! ci)) [0..<length comps])))"

definition in_place ::
  "(xform_component \<Rightarrow> barray \<Rightarrow> barray option) \<Rightarrow> xform_component list \<Rightarrow> barray list \<Rightarrow> barray list option \<Rightarrow>
     (barray list \<times> barray list option) option" where
  "in_place f comps srcs dsts =
     map_option (\<lambda>ss'. (ss' @ drop (length comps) srcs, dsts))
       (those (map (\<lambda>ci. f (comps ! ci) (srcs ! ci)) [0..<length comps]))"

definition jtransform_execute_transform ::
  "nat \<Rightarrow> nat \<Rightarrow> xform_dst \<Rightarrow> transform_info \<Rightarrow> barray list \<Rightarrow> barray list option \<Rightarrow> (barray list \<times> barray list option) option" where
  "jtransform_execute_transform src_width src_height dstinfo info srcs dsts =
     (let x = x_crop_offset info; y = y_crop_offset info; comps = x_comp_info dstinfo in
      case transform info of
        JXFORM_NONE \<Rightarrow>
          if src_width < output_width info \<or> src_height < output_height info
          then into_workspace (\<lambda>c. do_crop_ext src_width src_height dstinfo c x y) comps srcs dsts
          else if x \<noteq> 0 \<or> y \<noteq> 0 then into_workspace (\<lambda>c. do_crop c x y) comps srcs dsts
          else Some (srcs, dsts)
      | JXFORM_FLIP_H \<Rightarrow>
          if y \<noteq> 0 then into_workspace (\<lambda>c. do_flip_h src_width dstinfo c x y) comps srcs dsts
          else in_place (\<lambda>c. do_flip_h_no_crop src_width dstinfo c x) comps srcs dsts
      | JXFORM_FLIP_V \<Rightarrow> into_workspace (\<lambda>c. do_flip_v src_height dstinfo c x y) comps srcs dsts
      | JXFORM_TRANSPOSE \<Rightarrow> into_workspace (\<lambda>c. do_transpose c x y) comps srcs dsts
      | JXFORM_TRANSVERSE \<Rightarrow> into_workspace (\<lambda>c. do_transverse src_width src_height dstinfo c x y) comps srcs dsts
      | JXFORM_ROT_90 \<Rightarrow> into_workspace (\<lambda>c. do_rot_90 src_height dstinfo c x y) comps srcs dsts
      | JXFORM_ROT_180 \<Rightarrow> into_workspace (\<lambda>c. do_rot_180 src_width src_height dstinfo c x y) comps srcs dsts
      | JXFORM_ROT_270 \<Rightarrow> into_workspace (\<lambda>c. do_rot_270 src_width dstinfo c x y) comps srcs dsts
      | JXFORM_WIPE \<Rightarrow> in_place (\<lambda>c. do_wipe c x y (drop_width info) (drop_height info)) comps srcs dsts)"

section \<open>Pictures\<close>

text \<open>
  Pixel \<open>x\<close> of row \<open>y\<close> of the picture that an array of coefficients and a quantisation table stand
  for, before the level shift: the blocks have \<open>H\<close> rows and \<open>W\<close> columns.
\<close>

definition coefs_of :: "block \<Rightarrow> int list \<Rightarrow> nat \<Rightarrow> nat \<Rightarrow> int" where
  "coefs_of b q u v = b ! (DCTSIZE * u + v) * q ! (DCTSIZE * u + v)"

definition picture :: "nat \<Rightarrow> nat \<Rightarrow> int list \<Rightarrow> barray \<Rightarrow> nat \<Rightarrow> nat \<Rightarrow> real" where
  "picture H W q arr y x = idct_exact H W (coefs_of (arr ! (y div H) ! (x div W)) q) (y mod H) (x mod W)"

definition transposed_table :: "int list \<Rightarrow> int list" where
  "transposed_table q = map (\<lambda>k. q ! (DCTSIZE * (k mod DCTSIZE) + k div DCTSIZE)) [0..<DCTSIZE2]"

text \<open>The cosines are symmetric or antisymmetric about the middle of a block.\<close>

lemma basis_mirror:
  assumes "k < N"
  shows "dct_basis N (N - 1 - k) j = (- 1) ^ j * dct_basis N k j"
proof (cases "j = 0")
  case False
  have N: "0 < real N" using assms by simp
  obtain m where m: "N = k + 1 + m" using assms less_iff_Suc_add by auto
  define A B where "A = real ((2 * (N - 1 - k) + 1) * j)" and "B = real ((2 * k + 1) * j)"
  have "A = 2 * real N * real j - B"
    unfolding m A_def B_def by (simp add: algebra_simps)
  then have "A * pi / (2 * real N) = 2 * real N * real j * pi / (2 * real N) - B * pi / (2 * real N)"
    by (simp only: left_diff_distrib diff_divide_distrib)
  then have "A * pi / (2 * real N) = real j * pi - B * pi / (2 * real N)" using N by simp
  then have "cos (A * pi / (2 * real N)) = (- 1) ^ j * cos (B * pi / (2 * real N))"
    by (simp only: cos_diff cos_npi sin_npi mult_zero_left add_0_right)
  then show ?thesis using False by (simp add: dct_basis_def A_def B_def)
qed (simp add: dct_basis_def)

lemma sign_if: "(if odd j then - x else x) = (- 1) ^ j * x" for x :: real
  by simp

lemma idct_mirror:
  assumes r: "r < H" and c: "c < W"
    and a: "\<And>u v. u < 8 \<Longrightarrow> v < 8 \<Longrightarrow> a' u v = (if (mc \<and> odd v) \<noteq> (mr \<and> odd u) then - a u v else a u v)"
  shows "idct_exact H W a' r c = idct_exact H W a (if mr then H - 1 - r else r) (if mc then W - 1 - c else c)"
proof -
  have sign: "real_of_int (a' u v) = (if mc then (- 1) ^ v else 1) * ((if mr then (- 1) ^ u else 1) * real_of_int (a u v))"
    if "u < min 8 H" "v < min 8 W" for u v
    using a [of u v] that by (cases mc; cases mr) auto
  have rows: "dct_basis H (if mr then H - 1 - r else r) u = (if mr then (- 1) ^ u else 1) * dct_basis H r u" for u
    using basis_mirror [OF r] by simp
  have cols: "dct_basis W (if mc then W - 1 - c else c) v = (if mc then (- 1) ^ v else 1) * dct_basis W c v" for v
    using basis_mirror [OF c] by simp
  show ?thesis unfolding idct_exact_def rows cols
    by (rule arg_cong [where f = "\<lambda>s. s / 8"], rule sum.cong [OF refl])
      (simp add: sum_distrib_left sign ac_simps cong: sum.cong_simp del: min_less_iff_conj)
qed

lemma idct_transpose: "idct_exact H W (\<lambda>u v. a v u) r c = idct_exact W H a c r"
proof -
  have "(\<Sum>v<min 8 W. dct_basis W c v * (\<Sum>u<min 8 H. dct_basis H r u * real_of_int (a v u))) =
      (\<Sum>v<min 8 W. \<Sum>u<min 8 H. dct_basis H r u * (dct_basis W c v * real_of_int (a v u)))"
    by (simp add: sum_distrib_left mult.left_commute)
  also have "\<dots> = (\<Sum>u<min 8 H. \<Sum>v<min 8 W. dct_basis H r u * (dct_basis W c v * real_of_int (a v u)))" by (rule sum.swap)
  finally show ?thesis by (simp add: idct_exact_def sum_distrib_left)
qed

text \<open>Blocks.\<close>

lemma block_index: "u < 8 \<Longrightarrow> v < 8 \<Longrightarrow> DCTSIZE * u + v < DCTSIZE2 \<and> (DCTSIZE * u + v) div DCTSIZE = u \<and> (DCTSIZE * u + v) mod DCTSIZE = v"
  by (simp add: DCTSIZE_def DCTSIZE2_def)

lemma jcoef_neg:
  assumes "block_ok b" "k < DCTSIZE2"
  shows "jcoef (- (b ! k)) = - (b ! k)"
proof -
  have "\<bar>b ! k\<bar> \<le> 32767" using assms by (simp add: block_ok_def)
  then show ?thesis unfolding jcoef_def by simp
qed

lemma coefs_copy:
  assumes "block_ok b" "u < 8" "v < 8"
  shows "coefs_of (copy_block neg b) q u v = (if neg u v then - coefs_of b q u v else coefs_of b q u v)"
  using block_index [OF assms(2,3)] jcoef_neg [OF assms(1)] by (simp add: coefs_of_def copy_block_def)

lemma coefs_transpose:
  assumes "block_ok b" "u < 8" "v < 8"
  shows "coefs_of (transpose_block neg b) (transposed_table q) u v = (if neg v u then - coefs_of b q v u else coefs_of b q v u)"
  using block_index [OF assms(2,3)] block_index [OF assms(3,2)] jcoef_neg [OF assms(1)]
  by (simp add: coefs_of_def transpose_block_def transposed_table_def Let_def)

section \<open>Pictures of transformed arrays\<close>

lemma mirror_pixel:
  assumes "0 < (H :: nat)"
  shows "mirror_at (n * H) y div H = mirror_at n (y div H)"
    "mirror_at (n * H) y mod H = (if y div H < n then H - 1 - y mod H else y mod H)"
proof -
  have less: "y div H < n \<longleftrightarrow> y < n * H" using assms by (rule div_less_iff_less_mult)
  have "mirror_at (n * H) y div H = mirror_at n (y div H) \<and>
      mirror_at (n * H) y mod H = (if y div H < n then H - 1 - y mod H else y mod H)"
  proof (cases "y < n * H")
    case True
    define g p where "g = y div H" and "p = y mod H"
    have y: "y = g * H + p" "p < H" "g < n" using True less assms by (simp_all add: g_def p_def)
    have "Suc g * H \<le> n * H" using y(3) by (intro mult_le_mono1) simp
    then have "n * H - 1 - y = (n - 1 - g) * H + (H - 1 - p)" using y by (simp add: y(1) diff_mult_distrib)
    moreover have "H - 1 - p < H" using assms by simp
    ultimately have "(n * H - 1 - y) div H = n - 1 - g" "(n * H - 1 - y) mod H = H - 1 - p" by simp_all
    then show ?thesis using True less by (simp add: mirror_at_def g_def p_def)
  qed (use less in \<open>simp add: mirror_at_def\<close>)
  then show "mirror_at (n * H) y div H = mirror_at n (y div H)"
    "mirror_at (n * H) y mod H = (if y div H < n then H - 1 - y mod H else y mod H)" by blast+
qed

lemma picture_copied:
  assumes H: "0 < H" and W: "0 < W"
    and dst: "dst ! (y div H) ! (x div W) = copied cw ch src (yb + y div H) (xb + x div W)"
    and ok: "block_ok (src ! mirror_at ch (yb + y div H) ! mirror_at cw (xb + x div W))"
  shows "picture H W q dst y x = picture H W q src (mirror_at (ch * H) (yb * H + y)) (mirror_at (cw * W) (xb * W + x))"
proof -
  have R: "(yb * H + y) div H = yb + y div H" "(yb * H + y) mod H = y mod H"
      "(xb * W + x) div W = xb + x div W" "(xb * W + x) mod W = x mod W"
    using H W by simp_all
  let ?b = "src ! mirror_at ch (yb + y div H) ! mirror_at cw (xb + x div W)"
  have "picture H W q dst y x = idct_exact H W (coefs_of (copied cw ch src (yb + y div H) (xb + x div W)) q) (y mod H) (x mod W)"
    by (simp only: picture_def dst)
  also have "\<dots> = idct_exact H W (coefs_of ?b q)
      (if yb + y div H < ch then H - 1 - y mod H else y mod H) (if xb + x div W < cw then W - 1 - x mod W else x mod W)"
    by (rule idct_mirror) (use H W ok in \<open>simp_all add: copied_def coefs_copy\<close>)
  finally show ?thesis unfolding picture_def mirror_pixel [OF H] mirror_pixel [OF W] R .
qed

lemma picture_transposed:
  assumes H: "0 < H" and W: "0 < W"
    and dst: "dst ! (y div H) ! (x div W) = transposed cw ch src (yb + y div H) (xb + x div W)"
    and ok: "block_ok (src ! mirror_at cw (xb + x div W) ! mirror_at ch (yb + y div H))"
  shows "picture H W (transposed_table q) dst y x = picture W H q src (mirror_at (cw * W) (xb * W + x)) (mirror_at (ch * H) (yb * H + y))"
proof -
  have R: "(yb * H + y) div H = yb + y div H" "(yb * H + y) mod H = y mod H"
      "(xb * W + x) div W = xb + x div W" "(xb * W + x) mod W = x mod W"
    using H W by simp_all
  let ?b = "src ! mirror_at cw (xb + x div W) ! mirror_at ch (yb + y div H)"
  have "picture H W (transposed_table q) dst y x =
      idct_exact H W (coefs_of (transposed cw ch src (yb + y div H) (xb + x div W)) (transposed_table q)) (y mod H) (x mod W)"
    by (simp only: picture_def dst)
  also have "\<dots> = idct_exact H W (\<lambda>u v. coefs_of ?b q v u)
      (if yb + y div H < ch then H - 1 - y mod H else y mod H) (if xb + x div W < cw then W - 1 - x mod W else x mod W)"
    by (rule idct_mirror) (use H W ok in \<open>simp_all add: transposed_def coefs_transpose\<close>)
  also have "\<dots> = idct_exact W H (coefs_of ?b q)
      (if xb + x div W < cw then W - 1 - x mod W else x mod W) (if yb + y div H < ch then H - 1 - y mod H else y mod H)"
    by (rule idct_transpose)
  finally show ?thesis unfolding picture_def mirror_pixel [OF H] mirror_pixel [OF W] R .
qed

section \<open>The transformation of a picture\<close>

text \<open>
  What a component's whole iMCUs are mirrored by, in blocks of the destination, and where a pixel of
  the transformed picture, before cropping, comes from: \<open>h\<close> and \<open>w\<close> are the mirrored rows and
  columns of pixels.
\<close>

definition transposing :: "JXFORM_CODE \<Rightarrow> bool" where
  "transposing xf \<longleftrightarrow> xf \<in> {JXFORM_TRANSPOSE, JXFORM_TRANSVERSE, JXFORM_ROT_90, JXFORM_ROT_270}"

definition mirrored_columns :: "JXFORM_CODE \<Rightarrow> nat \<Rightarrow> nat \<Rightarrow> xform_dst \<Rightarrow> xform_component \<Rightarrow> nat" where
  "mirrored_columns xf src_width src_height d c =
     (if xf \<in> {JXFORM_FLIP_H, JXFORM_ROT_180}
      then src_width div (x_max_h_samp_factor d * x_min_DCT_h_scaled_size d) * h_samp_factor c
      else if xf \<in> {JXFORM_ROT_90, JXFORM_TRANSVERSE}
      then src_height div (x_max_h_samp_factor d * x_min_DCT_h_scaled_size d) * h_samp_factor c else 0)"

definition mirrored_rows :: "JXFORM_CODE \<Rightarrow> nat \<Rightarrow> nat \<Rightarrow> xform_dst \<Rightarrow> xform_component \<Rightarrow> nat" where
  "mirrored_rows xf src_width src_height d c =
     (if xf \<in> {JXFORM_FLIP_V, JXFORM_ROT_180}
      then src_height div (x_max_v_samp_factor d * x_min_DCT_v_scaled_size d) * v_samp_factor c
      else if xf \<in> {JXFORM_ROT_270, JXFORM_TRANSVERSE}
      then src_width div (x_max_v_samp_factor d * x_min_DCT_v_scaled_size d) * v_samp_factor c else 0)"

definition source_pixel :: "JXFORM_CODE \<Rightarrow> nat \<Rightarrow> nat \<Rightarrow> nat \<Rightarrow> nat \<Rightarrow> nat \<times> nat" where
  "source_pixel xf h w y x =
     (case xf of
        JXFORM_FLIP_H \<Rightarrow> (y, mirror_at w x)
      | JXFORM_FLIP_V \<Rightarrow> (mirror_at h y, x)
      | JXFORM_TRANSPOSE \<Rightarrow> (x, y)
      | JXFORM_TRANSVERSE \<Rightarrow> (mirror_at w x, mirror_at h y)
      | JXFORM_ROT_90 \<Rightarrow> (mirror_at w x, y)
      | JXFORM_ROT_180 \<Rightarrow> (mirror_at h y, mirror_at w x)
      | JXFORM_ROT_270 \<Rightarrow> (x, mirror_at h y)
      | _ \<Rightarrow> (y, x))"

text \<open>
  The arrays are as large as the routine needs (they are padded to whole iMCUs), and the blocks are
  whole and without -32768; no workspace is needed where the source arrays are transformed.
\<close>

definition transform_fits ::
  "nat \<Rightarrow> nat \<Rightarrow> xform_dst \<Rightarrow> transform_info \<Rightarrow> barray list \<Rightarrow> barray list option \<Rightarrow> bool" where
  "transform_fits src_width src_height d info srcs dsts \<longleftrightarrow>
     x_comp_info d \<noteq> [] \<and> length (x_comp_info d) \<le> length srcs \<and>
     (\<forall>ci<length (x_comp_info d).
        let c = x_comp_info d ! ci; src = srcs ! ci; xf = transform info;
            cw = mirrored_columns xf src_width src_height d c; ch = mirrored_rows xf src_width src_height d c;
            x = x_crop_offset info; y = y_crop_offset info
        in barray_ok src \<and>
           (if xf = JXFORM_FLIP_H \<and> y = 0 \<or> xf = JXFORM_NONE \<and> x = 0 \<and> y = 0
            then dsts = None \<and> (\<exists>m. rows_fit src (turns (v_samp_factor c) (height_in_blocks c) * v_samp_factor c) m \<and>
                   cw \<le> m \<and> x * h_samp_factor c + width_in_blocks c \<le> m)
            else \<exists>ds. dsts = Some ds \<and> length (x_comp_info d) \<le> length ds \<and>
                   (if transposing xf then transpose_fits c x y cw ch src (ds ! ci) else copy_fits c x y cw ch src (ds ! ci))))"

text \<open>One component.\<close>

definition component_done :: "JXFORM_CODE \<Rightarrow> nat \<Rightarrow> nat \<Rightarrow> nat \<Rightarrow> nat \<Rightarrow> xform_component \<Rightarrow> barray \<Rightarrow> barray \<Rightarrow> bool" where
  "component_done xf cw ch x y c src made \<longleftrightarrow>
     (\<forall>r<height_in_blocks c. \<forall>k<width_in_blocks c.
        made ! r ! k = (if transposing xf then transposed else copied) cw ch src
          (y * v_samp_factor c + r) (x * h_samp_factor c + k))"

lemma turns_ge: "0 < step \<Longrightarrow> n \<le> turns step n * step"
proof -
  assume s: "0 < step"
  have "(n + step - 1) mod step < step" using s by simp
  moreover have "(n + step - 1) div step * step + (n + step - 1) mod step = n + step - 1" by (rule div_mult_mod_eq)
  ultimately show ?thesis unfolding turns_def by linarith
qed

lemma copies_done:
  assumes "copies c x y cw ch src dst made" "0 < v_samp_factor c" "\<not> transposing xf"
  shows "component_done xf cw ch x y c src made"
  unfolding component_done_def
proof (intro allI impI)
  fix r k
  assume "r < height_in_blocks c" "k < width_in_blocks c"
  then have "row_cell made (r, k) = copied cw ch src (y * v_samp_factor c + r) (x * h_samp_factor c + k)"
    using rows.writes_in [OF assms(1) [unfolded copies_def], of "(r, k)"] turns_ge [OF assms(2), of "height_in_blocks c"] by simp
  then show "made ! r ! k = (if transposing xf then transposed else copied) cw ch src (y * v_samp_factor c + r) (x * h_samp_factor c + k)"
    using assms(3) by (simp add: row_cell_def)
qed

lemma transposes_done:
  assumes "transposes c x y cw ch src dst made" "0 < v_samp_factor c" "0 < h_samp_factor c" "transposing xf"
  shows "component_done xf cw ch x y c src made"
  unfolding component_done_def
proof (intro allI impI)
  fix r k
  assume "r < height_in_blocks c" "k < width_in_blocks c"
  then have "row_cell made (r, k) = transposed cw ch src (y * v_samp_factor c + r) (x * h_samp_factor c + k)"
    using rows.writes_in [OF assms(1) [unfolded transposes_def], of "(r, k)"] turns_ge [OF assms(2), of "height_in_blocks c"]
      turns_ge [OF assms(3), of "width_in_blocks c"] by simp
  then show "made ! r ! k = (if transposing xf then transposed else copied) cw ch src (y * v_samp_factor c + r) (x * h_samp_factor c + k)"
    using assms(4) by (simp add: row_cell_def)
qed

lemma copy_done:
  assumes "\<exists>made. f = Some made \<and> copies c x y cw ch src dst made" "0 < v_samp_factor c" "\<not> transposing xf"
  shows "\<exists>made. f = Some made \<and> component_done xf cw ch x y c src made"
  using assms(1) copies_done [OF _ assms(2,3)] by (elim exE conjE) (intro exI conjI)

lemma transpose_done:
  assumes "\<exists>made. f = Some made \<and> transposes c x y cw ch src dst made" "0 < v_samp_factor c" "0 < h_samp_factor c" "transposing xf"
  shows "\<exists>made. f = Some made \<and> component_done xf cw ch x y c src made"
  using assms(1) transposes_done [OF _ assms(2,3,4)] by (elim exE conjE) (intro exI conjI)

lemmas xform_simps = mirrored_columns_def mirrored_rows_def transposing_def insert_iff empty_iff JXFORM_CODE.distinct
  if_True if_False simp_thms

lemma flips_done:
  assumes w: "rows.writes ({..<turns (v_samp_factor c) (height_in_blocks c) * v_samp_factor c} \<times> {..<max cw (width_in_blocks c)})
      (flipped cw (x * h_samp_factor c) (width_in_blocks c) src) src made" and v: "0 < v_samp_factor c"
  shows "component_done JXFORM_FLIP_H cw 0 x 0 c src made"
  unfolding component_done_def
proof (intro allI impI)
  fix r k
  assume rk: "r < height_in_blocks c" "k < width_in_blocks c"
  then have "(r, k) \<in> {..<turns (v_samp_factor c) (height_in_blocks c) * v_samp_factor c} \<times> {..<max cw (width_in_blocks c)}"
    using turns_ge [OF v, of "height_in_blocks c"] by (simp add: less_max_iff_disj)
  then have "row_cell made (r, k) = copied cw 0 src r (x * h_samp_factor c + k)"
    using rows.writes_in [OF w] rk(2) by (simp add: flipped_def)
  then show "made ! r ! k = (if transposing JXFORM_FLIP_H then transposed else copied) cw 0 src
      (0 * v_samp_factor c + r) (x * h_samp_factor c + k)"
    by (simp add: row_cell_def transposing_def)
qed

lemma plain_done:
  assumes "barray_ok src" "rows_fit src n m" "height_in_blocks c \<le> n" "width_in_blocks c \<le> m"
  shows "component_done JXFORM_NONE 0 0 0 0 c src src"
  unfolding component_done_def
  using copied_plain [OF assms(1,2)] assms(3,4) by (simp add: transposing_def)

text \<open>All components.\<close>

lemma those_map:
  assumes "\<And>i. i < n \<Longrightarrow> \<exists>y. f i = Some y \<and> P i y"
  shows "\<exists>ys. those (map f [0..<n]) = Some ys \<and> length ys = n \<and> (\<forall>i<n. P i (ys ! i))"
  using assms
proof (induction n)
  case (Suc n)
  then obtain ys y where "those (map f [0..<n]) = Some ys" "length ys = n" "\<forall>i<n. P i (ys ! i)" "f n = Some y" "P n y"
    by (metis less_Suc_eq)
  moreover have "those (xs @ [Some y]) = map_option (\<lambda>zs. zs @ [y]) (those xs)" for xs
    by (induction xs) (auto split: option.split simp: option.map_comp comp_def)
  ultimately show ?case by (intro exI [of _ "ys @ [y]"]) (auto simp: nth_append less_Suc_eq)
qed simp

lemma into_workspace_done:
  assumes "dsts = Some ds" "\<And>ci. ci < length comps \<Longrightarrow> \<exists>made. f (comps ! ci) (srcs ! ci) (ds ! ci) = Some made \<and> P ci made"
  shows "\<exists>outs. into_workspace f comps srcs dsts = Some (srcs, Some outs) \<and> (\<forall>ci<length comps. P ci (outs ! ci))"
  using those_map [of "length comps" "\<lambda>ci. f (comps ! ci) (srcs ! ci) (ds ! ci)" P] assms by (auto simp: into_workspace_def)

lemma in_place_done:
  assumes "dsts = None" "length comps \<le> length srcs"
    and "\<And>ci. ci < length comps \<Longrightarrow> \<exists>made. f (comps ! ci) (srcs ! ci) = Some made \<and> P ci made"
  shows "\<exists>outs. in_place f comps srcs dsts = Some (outs, None) \<and> (\<forall>ci<length comps. P ci (outs ! ci))"
  using those_map [of "length comps" "\<lambda>ci. f (comps ! ci) (srcs ! ci)" P] assms by (auto simp: in_place_def nth_append)

text \<open>What \<open>jtransform_adjust_parameters\<close> returns: the workspace, if there is one, else the source arrays.\<close>

definition output_arrays :: "barray list \<times> barray list option \<Rightarrow> barray list" where
  "output_arrays = (\<lambda>(srcs, dsts). case dsts of None \<Rightarrow> srcs | Some ds \<Rightarrow> ds)"

lemma execute_done:
  assumes fits: "transform_fits src_width src_height d info srcs dsts"
    and samp: "\<forall>c\<in>set (x_comp_info d). 0 < h_samp_factor c \<and> 0 < v_samp_factor c"
    and xf: "transform info \<noteq> JXFORM_WIPE" "\<not> (transform info = JXFORM_NONE \<and> (src_width < output_width info \<or> src_height < output_height info))"
  shows "\<exists>res. jtransform_execute_transform src_width src_height d info srcs dsts = Some res \<and>
    (\<forall>ci<length (x_comp_info d). component_done (transform info)
      (mirrored_columns (transform info) src_width src_height d (x_comp_info d ! ci))
      (mirrored_rows (transform info) src_width src_height d (x_comp_info d ! ci))
      (x_crop_offset info) (y_crop_offset info) (x_comp_info d ! ci) (srcs ! ci) (output_arrays res ! ci))"
proof -
  let ?n = "length (x_comp_info d)" and ?xf = "transform info" and ?x = "x_crop_offset info" and ?y = "y_crop_offset info"
  let ?c = "\<lambda>ci. x_comp_info d ! ci"
  let ?cw = "\<lambda>ci. mirrored_columns ?xf src_width src_height d (?c ci)" and ?ch = "\<lambda>ci. mirrored_rows ?xf src_width src_height d (?c ci)"
  let ?done = "\<lambda>ci made. component_done ?xf (?cw ci) (?ch ci) ?x ?y (?c ci) (srcs ! ci) made"
  have pos: "0 < h_samp_factor (?c ci)" "0 < v_samp_factor (?c ci)" if "ci < ?n" for ci using samp that by simp_all
  have len: "?n \<le> length srcs" using fits by (simp add: transform_fits_def)
  have fit: "barray_ok (srcs ! ci) \<and> (if ?xf = JXFORM_FLIP_H \<and> ?y = 0 \<or> ?xf = JXFORM_NONE \<and> ?x = 0 \<and> ?y = 0
      then dsts = None \<and> (\<exists>m. rows_fit (srcs ! ci) (turns (v_samp_factor (?c ci)) (height_in_blocks (?c ci)) * v_samp_factor (?c ci)) m \<and>
             ?cw ci \<le> m \<and> ?x * h_samp_factor (?c ci) + width_in_blocks (?c ci) \<le> m)
      else \<exists>ds. dsts = Some ds \<and> ?n \<le> length ds \<and>
             (if transposing ?xf then transpose_fits (?c ci) ?x ?y (?cw ci) (?ch ci) (srcs ! ci) (ds ! ci)
              else copy_fits (?c ci) ?x ?y (?cw ci) (?ch ci) (srcs ! ci) (ds ! ci)))" if "ci < ?n" for ci
    using fits that by (simp add: transform_fits_def Let_def)
  have n: "0 < ?n" using fits by (simp add: transform_fits_def)
  have ws: "\<exists>res. into_workspace f (x_comp_info d) srcs dsts = Some res \<and> (\<forall>ci<?n. ?done ci (output_arrays res ! ci))"
    if sep: "\<not> (?xf = JXFORM_FLIP_H \<and> ?y = 0 \<or> ?xf = JXFORM_NONE \<and> ?x = 0 \<and> ?y = 0)"
      and f: "\<And>ci dst. ci < ?n \<Longrightarrow>
        (if transposing ?xf then transpose_fits (?c ci) ?x ?y (?cw ci) (?ch ci) (srcs ! ci) dst
         else copy_fits (?c ci) ?x ?y (?cw ci) (?ch ci) (srcs ! ci) dst) \<Longrightarrow> \<exists>made. f (?c ci) (srcs ! ci) dst = Some made \<and> ?done ci made" for f
  proof -
    obtain ds where ds: "dsts = Some ds" using fit [OF n] sep by auto
    have "\<exists>outs. into_workspace f (x_comp_info d) srcs dsts = Some (srcs, Some outs) \<and> (\<forall>ci<?n. ?done ci (outs ! ci))"
    proof (rule into_workspace_done [OF ds])
      fix ci
      assume ci: "ci < ?n"
      show "\<exists>made. f (?c ci) (srcs ! ci) (ds ! ci) = Some made \<and> ?done ci made"
        by (rule f [OF ci]) (use fit [OF ci] sep ds in auto)
    qed
    then show ?thesis by (auto simp: output_arrays_def)
  qed
  note run = jtransform_execute_transform_def Let_def
  show ?thesis
  proof (cases ?xf)
    case JXFORM_NONE
    show ?thesis
    proof (cases "?x = 0 \<and> ?y = 0")
      case True
      have "?done ci (srcs ! ci)" if ci: "ci < ?n" for ci
        using fit [OF ci] plain_done turns_ge [OF pos(2) [OF ci], of "height_in_blocks (?c ci)"] True
        by (auto simp: JXFORM_NONE mirrored_columns_def mirrored_rows_def)
      moreover have "dsts = None" using fit [OF n] JXFORM_NONE True by auto
      ultimately show ?thesis using JXFORM_NONE True xf(2) by (auto simp: run output_arrays_def)
    next
      case False
      have "\<exists>res. into_workspace (\<lambda>c. do_crop c ?x ?y) (x_comp_info d) srcs dsts = Some res \<and> (\<forall>ci<?n. ?done ci (output_arrays res ! ci))"
        proof (rule ws, goal_cases)
      case 1
      then show ?case using False by (simp add: JXFORM_NONE)
    next
      case (2 ci dst)
      then show ?case unfolding JXFORM_NONE by (simp only: xform_simps) (rule copy_done [OF do_crop_copies [OF _] pos(2) [OF 2(1)]], simp_all add: transposing_def)
    qed
      then show ?thesis using JXFORM_NONE False xf(2) by (auto simp: run)
    qed
  next
    case JXFORM_FLIP_H
    show ?thesis
    proof (cases "?y = 0")
      case True
      have "\<exists>outs. in_place (\<lambda>c. do_flip_h_no_crop src_width d c ?x) (x_comp_info d) srcs dsts = Some (outs, None) \<and>
          (\<forall>ci<?n. ?done ci (outs ! ci))"
      proof (rule in_place_done [OF _ len])
        show "dsts = None" using fit [OF n] JXFORM_FLIP_H True by auto
        fix ci
        assume ci: "ci < ?n"
        have ch: "?ch ci = 0" and cw: "?cw ci = src_width div (x_max_h_samp_factor d * x_min_DCT_h_scaled_size d) * h_samp_factor (?c ci)"
          using JXFORM_FLIP_H by (simp_all add: mirrored_rows_def mirrored_columns_def)
        show "\<exists>made. do_flip_h_no_crop src_width d (?c ci) ?x (srcs ! ci) = Some made \<and> ?done ci made"
        proof -
          obtain m where "barray_ok (srcs ! ci)"
              "rows_fit (srcs ! ci) (turns (v_samp_factor (?c ci)) (height_in_blocks (?c ci)) * v_samp_factor (?c ci)) m"
              "?cw ci \<le> m" "?x * h_samp_factor (?c ci) + width_in_blocks (?c ci) \<le> m"
            using fit [OF ci] JXFORM_FLIP_H True by auto
          from do_flip_h_no_crop_flips [OF this(1,2) cw this(3,4)] obtain made where
            m: "do_flip_h_no_crop src_width d (?c ci) ?x (srcs ! ci) = Some made" and
            w: "rows.writes ({..<turns (v_samp_factor (?c ci)) (height_in_blocks (?c ci)) * v_samp_factor (?c ci)} \<times>
                {..<max (?cw ci) (width_in_blocks (?c ci))})
              (flipped (?cw ci) (?x * h_samp_factor (?c ci)) (width_in_blocks (?c ci)) (srcs ! ci)) (srcs ! ci) made"
            by blast
          have "?done ci made" using flips_done [OF w pos(2) [OF ci]] unfolding ch True by (simp only: JXFORM_FLIP_H)
          then show ?thesis using m by (intro exI conjI)
        qed
      qed
      then show ?thesis using JXFORM_FLIP_H True by (auto simp: run output_arrays_def)
    next
      case False
      have "\<exists>res. into_workspace (\<lambda>c. do_flip_h src_width d c ?x ?y) (x_comp_info d) srcs dsts = Some res \<and> (\<forall>ci<?n. ?done ci (output_arrays res ! ci))"
        proof (rule ws, goal_cases)
      case 1
      then show ?case using False by (simp add: JXFORM_FLIP_H)
    next
      case (2 ci dst)
      then show ?case unfolding JXFORM_FLIP_H by (simp only: xform_simps) (rule copy_done [OF do_flip_h_copies [OF _ refl] pos(2) [OF 2(1)]], simp_all add: transposing_def)
    qed
      then show ?thesis using JXFORM_FLIP_H False by (auto simp: run)
    qed
  next
    case JXFORM_FLIP_V
    have "\<exists>res. into_workspace (\<lambda>c. do_flip_v src_height d c ?x ?y) (x_comp_info d) srcs dsts = Some res \<and> (\<forall>ci<?n. ?done ci (output_arrays res ! ci))"
      proof (rule ws, goal_cases)
      case 1
      then show ?case by (simp add: JXFORM_FLIP_V)
    next
      case (2 ci dst)
      then show ?case unfolding JXFORM_FLIP_V by (simp only: xform_simps) (rule copy_done [OF do_flip_v_copies [OF _ refl] pos(2) [OF 2(1)]], simp_all add: transposing_def)
    qed
    then show ?thesis using JXFORM_FLIP_V by (auto simp: run)
  next
    case JXFORM_TRANSPOSE
    have "\<exists>res. into_workspace (\<lambda>c. do_transpose c ?x ?y) (x_comp_info d) srcs dsts = Some res \<and> (\<forall>ci<?n. ?done ci (output_arrays res ! ci))"
      proof (rule ws, goal_cases)
      case 1
      then show ?case by (simp add: JXFORM_TRANSPOSE)
    next
      case (2 ci dst)
      then show ?case unfolding JXFORM_TRANSPOSE by (simp only: xform_simps) (rule transpose_done [OF do_transpose_transposes [OF _] pos(2) [OF 2(1)] pos(1) [OF 2(1)]], simp_all add: transposing_def)
    qed
    then show ?thesis using JXFORM_TRANSPOSE by (auto simp: run)
  next
    case JXFORM_TRANSVERSE
    have "\<exists>res. into_workspace (\<lambda>c. do_transverse src_width src_height d c ?x ?y) (x_comp_info d) srcs dsts = Some res \<and> (\<forall>ci<?n. ?done ci (output_arrays res ! ci))"
      proof (rule ws, goal_cases)
      case 1
      then show ?case by (simp add: JXFORM_TRANSVERSE)
    next
      case (2 ci dst)
      then show ?case unfolding JXFORM_TRANSVERSE by (simp only: xform_simps) (rule transpose_done [OF do_transverse_transposes [OF _ refl refl] pos(2) [OF 2(1)] pos(1) [OF 2(1)]], simp_all add: transposing_def)
    qed
    then show ?thesis using JXFORM_TRANSVERSE by (auto simp: run)
  next
    case JXFORM_ROT_90
    have "\<exists>res. into_workspace (\<lambda>c. do_rot_90 src_height d c ?x ?y) (x_comp_info d) srcs dsts = Some res \<and> (\<forall>ci<?n. ?done ci (output_arrays res ! ci))"
      proof (rule ws, goal_cases)
      case 1
      then show ?case by (simp add: JXFORM_ROT_90)
    next
      case (2 ci dst)
      then show ?case unfolding JXFORM_ROT_90 by (simp only: xform_simps) (rule transpose_done [OF do_rot_90_transposes [OF _ refl] pos(2) [OF 2(1)] pos(1) [OF 2(1)]], simp_all add: transposing_def)
    qed
    then show ?thesis using JXFORM_ROT_90 by (auto simp: run)
  next
    case JXFORM_ROT_180
    have "\<exists>res. into_workspace (\<lambda>c. do_rot_180 src_width src_height d c ?x ?y) (x_comp_info d) srcs dsts = Some res \<and> (\<forall>ci<?n. ?done ci (output_arrays res ! ci))"
      proof (rule ws, goal_cases)
      case 1
      then show ?case by (simp add: JXFORM_ROT_180)
    next
      case (2 ci dst)
      then show ?case unfolding JXFORM_ROT_180 by (simp only: xform_simps) (rule copy_done [OF do_rot_180_copies [OF _ refl refl] pos(2) [OF 2(1)]], simp_all add: transposing_def)
    qed
    then show ?thesis using JXFORM_ROT_180 by (auto simp: run)
  next
    case JXFORM_ROT_270
    have "\<exists>res. into_workspace (\<lambda>c. do_rot_270 src_width d c ?x ?y) (x_comp_info d) srcs dsts = Some res \<and> (\<forall>ci<?n. ?done ci (output_arrays res ! ci))"
      proof (rule ws, goal_cases)
      case 1
      then show ?case by (simp add: JXFORM_ROT_270)
    next
      case (2 ci dst)
      then show ?case unfolding JXFORM_ROT_270 by (simp only: xform_simps) (rule transpose_done [OF do_rot_270_transposes [OF _ refl] pos(2) [OF 2(1)] pos(1) [OF 2(1)]], simp_all add: transposing_def)
    qed
    then show ?thesis using JXFORM_ROT_270 by (auto simp: run)
  next
    case JXFORM_WIPE
    then show ?thesis using xf(1) by simp
  qed
qed

lemma source_block_ok:
  assumes fits: "transform_fits src_width src_height d info srcs dsts" and ci: "ci < length (x_comp_info d)" and c: "c = x_comp_info d ! ci"
    and samp: "0 < h_samp_factor c" "0 < v_samp_factor c"
    and cw: "cw = mirrored_columns (transform info) src_width src_height d c"
    and ch: "ch = mirrored_rows (transform info) src_width src_height d c"
    and r: "r < height_in_blocks c" and k: "k < width_in_blocks c"
    and R: "R = y_crop_offset info * v_samp_factor c + r" and K: "K = x_crop_offset info * h_samp_factor c + k"
  shows "if transposing (transform info) then block_ok (srcs ! ci ! mirror_at cw K ! mirror_at ch R)
    else block_ok (srcs ! ci ! mirror_at ch R ! mirror_at cw K)"
proof -
  have rk: "r < turns (v_samp_factor c) (height_in_blocks c) * v_samp_factor c"
      "k < turns (h_samp_factor c) (width_in_blocks c) * h_samp_factor c"
    using turns_ge [OF samp(2), of "height_in_blocks c"] turns_ge [OF samp(1), of "width_in_blocks c"] r k by simp_all
  note f = fits [unfolded transform_fits_def Let_def, THEN conjunct2, THEN conjunct2, rule_format, OF ci,
    folded c, folded cw ch]
  then have ok: "barray_ok (srcs ! ci)" by blast
  consider (place) m where "\<not> transposing (transform info)" "ch = 0" "y_crop_offset info = 0"
        "rows_fit (srcs ! ci) (turns (v_samp_factor c) (height_in_blocks c) * v_samp_factor c) m"
        "cw \<le> m" "x_crop_offset info * h_samp_factor c + width_in_blocks c \<le> m"
    | (copy) ds where "\<not> transposing (transform info)"
        "copy_fits c (x_crop_offset info) (y_crop_offset info) cw ch (srcs ! ci) (ds ! ci)"
    | (transpose) ds where "transposing (transform info)"
        "transpose_fits c (x_crop_offset info) (y_crop_offset info) cw ch (srcs ! ci) (ds ! ci)"
    using f by (cases "transform info = JXFORM_FLIP_H \<and> y_crop_offset info = 0 \<or>
        transform info = JXFORM_NONE \<and> x_crop_offset info = 0 \<and> y_crop_offset info = 0")
      (auto simp: transposing_def mirrored_rows_def ch split: if_splits)
  then show ?thesis
  proof cases
    case place
    then have "mirror_at ch R < turns (v_samp_factor c) (height_in_blocks c) * v_samp_factor c" "mirror_at cw K < m"
      using rk(1) k by (auto simp: R K intro: mirror_at_less)
    then show ?thesis using place(1) barray_okD [OF ok place(4)] by simp
  next
    case copy
    from copy(2) show ?thesis
    proof (rule copy_fitsE)
      fix n m
      assume a: "rows_fit (srcs ! ci) n m" "ch \<le> n" "cw \<le> m" "x_crop_offset info * h_samp_factor c + width_in_blocks c \<le> m"
        "y_crop_offset info * v_samp_factor c + turns (v_samp_factor c) (height_in_blocks c) * v_samp_factor c \<le> n"
      then have "mirror_at ch R < n" "mirror_at cw K < m" using rk(1) k by (auto simp: R K intro!: mirror_at_less)
      then show ?thesis using copy(1) barray_okD [OF ok a(1)] by simp
    qed
  next
    case transpose
    from transpose(2) show ?thesis
    proof (rule transpose_fitsE)
      fix n m
      assume a: "rows_fit (srcs ! ci) n m" "cw \<le> n" "ch \<le> m"
        "x_crop_offset info * h_samp_factor c + turns (h_samp_factor c) (width_in_blocks c) * h_samp_factor c \<le> n"
        "y_crop_offset info * v_samp_factor c + turns (v_samp_factor c) (height_in_blocks c) * v_samp_factor c \<le> m"
      then have "mirror_at cw K < n" "mirror_at ch R < m" using rk by (auto simp: R K intro!: mirror_at_less)
      then show ?thesis using transpose(1) barray_okD [OF ok a(1)] by simp
    qed
  qed
qed

lemma mirror_at_0 [simp]: "mirror_at 0 k = k"
  by (simp add: mirror_at_def)

text \<open>
  C3: a lossless transformation turns every component's coefficients into those of exactly the
  transformed picture.  For every flip, rotation, transposition and crop inside the picture, any
  quantisation table (transposed with the picture) and any size of blocks, each pixel of the
  component's exact decoded picture is the pixel of the source picture at the place it is flipped,
  turned and moved from; partial iMCUs at the mirrored edges stay where they are.  No access
  leaves an array.
\<close>

theorem lossless_transform:
  assumes fits: "transform_fits src_width src_height d info srcs dsts"
    and samp: "\<forall>c\<in>set (x_comp_info d). 0 < h_samp_factor c \<and> 0 < v_samp_factor c"
    and xf: "transform info \<noteq> JXFORM_WIPE" "\<not> (transform info = JXFORM_NONE \<and> (src_width < output_width info \<or> src_height < output_height info))"
    and H: "0 < H" and W: "0 < W"
  shows "\<exists>res. jtransform_execute_transform src_width src_height d info srcs dsts = Some res \<and>
    (\<forall>ci<length (x_comp_info d). let c = x_comp_info d ! ci;
         cw = mirrored_columns (transform info) src_width src_height d c; ch = mirrored_rows (transform info) src_width src_height d c
       in \<forall>y<height_in_blocks c * H. \<forall>x<width_in_blocks c * W.
         case source_pixel (transform info) (ch * H) (cw * W)
           (y_crop_offset info * v_samp_factor c * H + y) (x_crop_offset info * h_samp_factor c * W + x) of (y', x') \<Rightarrow>
         (if transposing (transform info)
          then picture H W (transposed_table q) (output_arrays res ! ci) y x = picture W H q (srcs ! ci) y' x'
          else picture H W q (output_arrays res ! ci) y x = picture H W q (srcs ! ci) y' x'))"
proof -
  obtain res where run: "jtransform_execute_transform src_width src_height d info srcs dsts = Some res"
    and res: "\<And>ci. ci < length (x_comp_info d) \<Longrightarrow> component_done (transform info)
      (mirrored_columns (transform info) src_width src_height d (x_comp_info d ! ci))
      (mirrored_rows (transform info) src_width src_height d (x_comp_info d ! ci))
      (x_crop_offset info) (y_crop_offset info) (x_comp_info d ! ci) (srcs ! ci) (output_arrays res ! ci)"
    using execute_done [OF fits samp xf] by blast
  show ?thesis
  proof (intro exI conjI allI impI, rule run)
    fix ci
    assume ci: "ci < length (x_comp_info d)"
    define c where "c = x_comp_info d ! ci"
    define cw where "cw = mirrored_columns (transform info) src_width src_height d c"
    define ch where "ch = mirrored_rows (transform info) src_width src_height d c"
    have c_pos: "0 < h_samp_factor c" "0 < v_samp_factor c" using samp ci by (simp_all add: c_def)
    have block: "case source_pixel (transform info) (ch * H) (cw * W)
          (y_crop_offset info * v_samp_factor c * H + y) (x_crop_offset info * h_samp_factor c * W + x) of (y', x') \<Rightarrow>
        (if transposing (transform info)
         then picture H W (transposed_table q) (output_arrays res ! ci) y x = picture W H q (srcs ! ci) y' x'
         else picture H W q (output_arrays res ! ci) y x = picture H W q (srcs ! ci) y' x')"
      if y: "y < height_in_blocks c * H" and x: "x < width_in_blocks c * W" for y x
    proof -
      have rk: "y div H < height_in_blocks c" "x div W < width_in_blocks c"
        using y x by (simp_all add: less_mult_imp_div_less)
      note ok = source_block_ok [OF fits ci c_def c_pos cw_def ch_def rk refl refl]
      note made = res [OF ci, folded c_def, folded cw_def ch_def, unfolded component_done_def, rule_format, OF rk]
      show ?thesis
      proof (cases "transposing (transform info)")
        case True
        have "picture H W (transposed_table q) (output_arrays res ! ci) y x =
            picture W H q (srcs ! ci) (mirror_at (cw * W) (x_crop_offset info * h_samp_factor c * W + x))
              (mirror_at (ch * H) (y_crop_offset info * v_samp_factor c * H + y))"
          by (rule picture_transposed [OF H W]) (use made ok True in simp_all)
        then show ?thesis using True
          by (auto simp: transposing_def source_pixel_def cw_def ch_def mirrored_columns_def mirrored_rows_def)
      next
        case False
        have "picture H W q (output_arrays res ! ci) y x =
            picture H W q (srcs ! ci) (mirror_at (ch * H) (y_crop_offset info * v_samp_factor c * H + y))
              (mirror_at (cw * W) (x_crop_offset info * h_samp_factor c * W + x))"
          by (rule picture_copied [OF H W]) (use made ok False in simp_all)
        then show ?thesis using False
          by (cases "transform info") (simp_all add: transposing_def source_pixel_def cw_def ch_def mirrored_columns_def mirrored_rows_def)
      qed
    qed
    then show "let c = x_comp_info d ! ci;
         cw = mirrored_columns (transform info) src_width src_height d c; ch = mirrored_rows (transform info) src_width src_height d c
       in \<forall>y<height_in_blocks c * H. \<forall>x<width_in_blocks c * W.
         case source_pixel (transform info) (ch * H) (cw * W)
           (y_crop_offset info * v_samp_factor c * H + y) (x_crop_offset info * h_samp_factor c * W + x) of (y', x') \<Rightarrow>
         (if transposing (transform info)
          then picture H W (transposed_table q) (output_arrays res ! ci) y x = picture W H q (srcs ! ci) y' x'
          else picture H W q (output_arrays res ! ci) y x = picture H W q (srcs ! ci) y' x')"
      by (simp add: c_def cw_def ch_def Let_def)
  qed
qed

text \<open>A picture of two blocks side by side, turned to the right.\<close>

definition demo_info :: "JXFORM_CODE \<Rightarrow> transform_info" where
  "demo_info xf = \<lparr>transform = xf, perfect = False, trim = False, force_grayscale = False, crop = False,
     crop_width = 0, crop_width_set = JCROP_UNSET, crop_height = 0, crop_height_set = JCROP_UNSET,
     crop_xoffset = 0, crop_xoffset_set = JCROP_UNSET, crop_yoffset = 0, crop_yoffset_set = JCROP_UNSET,
     num_comps = 1, output_width = 8, output_height = 16, x_crop_offset = 0, y_crop_offset = 0, drop_width = 0, drop_height = 0,
     iMCU_sample_width = 8, iMCU_sample_height = 8\<rparr>"

definition demo_dst :: xform_dst where
  "demo_dst = \<lparr>x_comp_info = [\<lparr>component_id = 1, component_index = 0, h_samp_factor = 1, v_samp_factor = 1,
       quant_tbl_no = 0, dc_tbl_no = 0, ac_tbl_no = 0, width_in_blocks = 1, height_in_blocks = 2\<rparr>],
     x_max_h_samp_factor = 1, x_max_v_samp_factor = 1, x_min_DCT_h_scaled_size = 8, x_min_DCT_v_scaled_size = 8,
     x_jpeg_width = 8, x_jpeg_height = 16\<rparr>"

theorem lossless_transform_witness:
  "\<exists>res. jtransform_execute_transform 16 8 demo_dst (demo_info JXFORM_ROT_90)
      [[[5 # replicate 63 0, 7 # replicate 63 1]]] (Some [[[zero_block], [zero_block]]]) = Some res \<and>
    picture 8 8 (transposed_table (replicate 64 2)) (output_arrays res ! 0) 9 0 =
      picture 8 8 (replicate 64 2) [[5 # replicate 63 0, 7 # replicate 63 1]] 7 9"
proof -
  let ?src = "[[5 # replicate 63 0, 7 # replicate 63 1]] :: barray" and ?dst = "[[zero_block], [zero_block]] :: barray"
  have fits: "transform_fits 16 8 demo_dst (demo_info JXFORM_ROT_90) [?src] (Some [?dst])"
  proof -
    have "barray_ok ?src" by (simp add: barray_ok_def block_ok_def DCTSIZE2_def)
    moreover have "rows_fit ?dst 2 1" "rows_fit ?src 1 2" by (auto simp: rows_fit_def less_Suc_eq numeral_2_eq_2)
    ultimately show ?thesis
      by (auto simp: transform_fits_def demo_dst_def demo_info_def transposing_def transpose_fits_def turns_def
          mirrored_columns_def mirrored_rows_def Let_def)
  qed
  have "\<forall>c\<in>set (x_comp_info demo_dst). 0 < h_samp_factor c \<and> 0 < v_samp_factor c" by (simp add: demo_dst_def)
  from lossless_transform [OF fits this, of 8 8 "replicate 64 2"]
  obtain res where "jtransform_execute_transform 16 8 demo_dst (demo_info JXFORM_ROT_90) [?src] (Some [?dst]) = Some res"
    and "\<forall>y<16. \<forall>x<8. picture 8 8 (transposed_table (replicate 64 2)) (output_arrays res ! 0) y x =
      picture 8 8 (replicate 64 2) ?src (mirror_at 8 x) y"
    by (auto simp: demo_dst_def demo_info_def transposing_def mirrored_columns_def mirrored_rows_def source_pixel_def Let_def)
  then have "picture 8 8 (transposed_table (replicate 64 2)) (output_arrays res ! 0) 9 0 = picture 8 8 (replicate 64 2) ?src (mirror_at 8 0) 9"
    by simp
  then show ?thesis using \<open>jtransform_execute_transform _ _ _ _ _ _ = Some res\<close> by (auto simp: mirror_at_def)
qed

end
