(* ===== verification/JpegGeometry.thy ===== *)
theory JpegGeometry
  imports JpegReader JpegWriter Transforms IdctManager FdctManager
begin

text \<open>
  The sizes both sides of the library derive from a frame: \<open>jpeg-9a/jdinput.c\<close> (scaling of the
  decompressor, \<open>initial_setup\<close>, \<open>per_scan_setup\<close>, \<open>latch_quant_tables\<close>), \<open>jdmaster.c\<close>
  (\<open>jpeg_calc_output_dimensions\<close>) and \<open>jcmaster.c\<close> (the same for the compressor).
\<close>

section \<open>Parameters\<close>

definition JPEG_MAX_DIMENSION :: nat where "JPEG_MAX_DIMENSION = 65500"
definition MAX_COMPONENTS :: nat where "MAX_COMPONENTS = 10"
definition MAX_SAMP_FACTOR :: nat where "MAX_SAMP_FACTOR = 4"
definition D_MAX_BLOCKS_IN_MCU :: nat where "D_MAX_BLOCKS_IN_MCU = 10"
definition C_MAX_BLOCKS_IN_MCU :: nat where "C_MAX_BLOCKS_IN_MCU = 10"

text \<open>Products of unsigned ints.\<close>

definition w32 :: "nat \<Rightarrow> nat" where "w32 n = n mod 2 ^ 32"

text \<open>\<open>jdiv_round_up\<close> on sizes; the sums here stay far below the range of \<open>long\<close>.\<close>

definition div_up :: "nat \<Rightarrow> nat \<Rightarrow> nat" where "div_up a b = (a + b - 1) div b"

lemma div_up_jdiv_round_up:
  assumes "a + b \<le> 2 ^ 31" "0 < b"
  shows "jdiv_round_up (int a) (int b) = Some (int (div_up a b))"
proof -
  have "int a + int b - 1 = int (a + b - 1)" using assms(2) by simp
  moreover have "in_s32 (int (a + b - 1))" using assms by (simp add: in_s32_def)
  ultimately show ?thesis
    using assms(2) unfolding jdiv_round_up_def div_up_def by (simp add: cdiv_nonneg zdiv_int)
qed

text \<open>The derived fields of \<open>jpeg_component_info\<close>.\<close>

record sized_component = xform_component +
  DCT_h_size :: nat
  DCT_v_size :: nat
  downsampled_width :: nat
  downsampled_height :: nat
  MCU_width :: nat
  MCU_height :: nat
  MCU_blocks :: nat
  MCU_sample_width :: nat
  last_col_width :: nat
  last_row_height :: nat
  comp_needed :: bool
  saved_quant_table :: "quant_tbl option"

text \<open>Of the decompressor, besides the fields \<open>read_markers\<close> keeps.\<close>

record d_frame =
  d_obj :: decompress
  d_scale_num :: nat
  d_scale_denom :: nat
  d_comps :: "sized_component list"
  d_max_h_samp_factor :: nat
  d_max_v_samp_factor :: nat
  d_block_size :: nat
  d_natural_order :: "nat list"
  d_lim_Se :: nat
  d_min_DCT_h_scaled_size :: nat
  d_min_DCT_v_scaled_size :: nat
  d_total_iMCU_rows :: nat
  d_output_width :: nat
  d_output_height :: nat
  d_fancy_upsampling :: bool
  d_has_multiple_scans :: bool

text \<open>What \<open>per_scan_setup\<close> computes for the scan as a whole.\<close>

record mcu_layout =
  MCUs_per_row :: nat
  MCU_rows_in_scan :: nat
  MCU_membership :: "nat list"

section \<open>Scaling of the decompressor\<close>

definition output_scale :: "nat \<Rightarrow> nat \<Rightarrow> nat \<Rightarrow> nat" where
  "output_scale scale_num scale_denom bs =
     (case find (\<lambda>k. w32 (scale_num * bs) \<le> w32 (scale_denom * k)) [1..<16] of
        Some k \<Rightarrow> k | None \<Rightarrow> 16)"

definition jpeg_core_output_dimensions :: "d_frame \<Rightarrow> d_frame" where
  "jpeg_core_output_dimensions d =
     (let k = output_scale (d_scale_num d) (d_scale_denom d) (d_block_size d)
      in d\<lparr>d_output_width := div_up (image_width (d_obj d) * k) (d_block_size d),
           d_output_height := div_up (image_height (d_obj d) * k) (d_block_size d),
           d_min_DCT_h_scaled_size := k, d_min_DCT_v_scaled_size := k,
           d_comps := map (\<lambda>c. c\<lparr>DCT_h_size := k, DCT_v_size := k\<rparr>) (d_comps d)\<rparr>)"

text \<open>
  \<open>while (min_size * ssize <= limit && max_samp % (samp * ssize * 2) == 0) ssize = ssize * 2\<close>; the
  sizes are positive whenever the loop is entered.
\<close>

function grow_ssize :: "nat \<Rightarrow> nat \<Rightarrow> nat \<Rightarrow> nat \<Rightarrow> nat \<Rightarrow> nat" where
  "grow_ssize limit min_size max_samp samp ssize =
     (if 0 < min_size * ssize \<and> min_size * ssize \<le> limit \<and> max_samp mod (samp * ssize * 2) = 0
      then grow_ssize limit min_size max_samp samp (ssize * 2) else ssize)"
  by pat_completeness auto
termination
proof (relation "measure (\<lambda>(limit, min_size, max_samp, samp, ssize). limit + 1 - min_size * ssize)", goal_cases)
  case (2 limit min_size max_samp samp ssize)
  define p where "p = min_size * ssize"
  have "min_size * (ssize * 2) = p + p" by (simp add: p_def)
  then show ?case using 2 by (auto simp flip: p_def intro: diff_less_mono2)
qed simp

declare grow_ssize.simps [simp del]

text \<open>The ratio of the two sizes is at most two.\<close>

definition limit_ratio :: "nat \<times> nat \<Rightarrow> nat \<times> nat" where
  "limit_ratio = (\<lambda>(h, v). if v * 2 < h then (v * 2, v) else if h * 2 < v then (h, h * 2) else (h, v))"

definition scaled_sizes :: "bool \<Rightarrow> nat \<Rightarrow> nat \<Rightarrow> nat \<Rightarrow> nat \<Rightarrow> nat \<Rightarrow> nat \<Rightarrow> nat \<times> nat" where
  "scaled_sizes fancy min_h min_v max_h max_v h v =
     (let limit = (if fancy then DCTSIZE else DCTSIZE div 2)
      in limit_ratio (min_h * grow_ssize limit min_h max_h h 1, min_v * grow_ssize limit min_v max_v v 1))"

definition jpeg_calc_output_dimensions :: "d_frame \<Rightarrow> d_frame" where
  "jpeg_calc_output_dimensions d =
     (let d1 = jpeg_core_output_dimensions d;
          size = (\<lambda>c. case scaled_sizes (d_fancy_upsampling d1) (d_min_DCT_h_scaled_size d1) (d_min_DCT_v_scaled_size d1)
                       (d_max_h_samp_factor d1) (d_max_v_samp_factor d1) (h_samp_factor c) (v_samp_factor c) of
                     (h, v) \<Rightarrow> c\<lparr>DCT_h_size := h, DCT_v_size := v\<rparr>);
          sample = (\<lambda>c. c\<lparr>downsampled_width := div_up (image_width (d_obj d1) * (h_samp_factor c * DCT_h_size c))
                            (d_max_h_samp_factor d1 * d_block_size d1),
                          downsampled_height := div_up (image_height (d_obj d1) * (v_samp_factor c * DCT_v_size c))
                            (d_max_v_samp_factor d1 * d_block_size d1)\<rparr>)
      in d1\<lparr>d_comps := map sample (map size (d_comps d1))\<rparr>)"

section \<open>Start of the image\<close>

fun max_samp_factors :: "'a component_scheme list \<Rightarrow> nat \<times> nat \<Rightarrow> (nat \<times> nat) result" where
  "max_samp_factors [] m = Inr m"
| "max_samp_factors (c # cs) (h, v) =
     (if h_samp_factor c = 0 \<or> MAX_SAMP_FACTOR < h_samp_factor c \<or> v_samp_factor c = 0 \<or> MAX_SAMP_FACTOR < v_samp_factor c
      then Inl JERR_BAD_SAMPLING
      else max_samp_factors cs (max h (h_samp_factor c), max v (v_samp_factor c)))"

text \<open>Block size, natural order and \<open>lim_Se\<close> of a frame, from \<open>Se\<close> where it is not baseline.\<close>

definition block_size_of_Se :: "nat \<Rightarrow> nat option" where
  "block_size_of_Se se = find (\<lambda>n. se = n * n - 1) [1..<17]"

definition derive_block_size :: "decompress \<Rightarrow> (nat \<times> nat list \<times> nat) result" where
  "derive_block_size d =
     (if is_baseline d \<or> (d_progressive_mode d \<and> d_cur_comp_info d \<noteq> [])
      then Inr (DCTSIZE, jpeg_natural_order, DCTSIZE2 - 1)
      else (case block_size_of_Se (d_Se d) of
              None \<Rightarrow> Inl (JERR_BAD_PROGRESSION (d_Ss d) (d_Se d) (d_Ah d) (d_Al d))
            | Some n \<Rightarrow> Inr (n, natural_order_of n, if n < DCTSIZE then d_Se d else DCTSIZE2 - 1)))"

definition blocks_of :: "nat \<Rightarrow> nat \<Rightarrow> nat \<Rightarrow> nat \<Rightarrow> nat" where
  "blocks_of len samp max_samp bs = div_up (len * samp) (max_samp * bs)"

definition initial_component_d :: "nat \<Rightarrow> nat \<Rightarrow> nat \<Rightarrow> nat \<Rightarrow> nat \<Rightarrow> component \<Rightarrow> sized_component" where
  "initial_component_d width height max_h max_v bs c =
     component.extend c
       \<lparr>width_in_blocks = blocks_of width (h_samp_factor c) max_h bs, height_in_blocks = blocks_of height (v_samp_factor c) max_v bs,
        DCT_h_size = bs, DCT_v_size = bs,
        downsampled_width = div_up (width * h_samp_factor c) max_h, downsampled_height = div_up (height * v_samp_factor c) max_v,
        MCU_width = 0, MCU_height = 0, MCU_blocks = 0, MCU_sample_width = 0, last_col_width = 0, last_row_height = 0,
        comp_needed = True, saved_quant_table = None\<rparr>"

definition size_components_d :: "nat \<Rightarrow> nat \<Rightarrow> nat \<times> nat list \<times> nat \<Rightarrow> d_frame \<Rightarrow> d_frame" where
  "size_components_d max_h max_v bsize d =
     (let obj = d_obj d; (bs, order, limSe) = bsize in
      d\<lparr>d_max_h_samp_factor := max_h, d_max_v_samp_factor := max_v,
        d_block_size := bs, d_natural_order := order, d_lim_Se := limSe,
        d_min_DCT_h_scaled_size := bs, d_min_DCT_v_scaled_size := bs,
        d_comps := map (initial_component_d (image_width obj) (image_height obj) max_h max_v bs) (d_comp_info obj),
        d_total_iMCU_rows := div_up (image_height obj) (max_v * bs),
        d_has_multiple_scans := (length (d_cur_comp_info obj) < num_components obj \<or> d_progressive_mode obj)\<rparr>)"

definition initial_setup_d :: "d_frame \<Rightarrow> d_frame result" where
  "initial_setup_d d =
     (let obj = d_obj d in
      if JPEG_MAX_DIMENSION < image_height obj \<or> JPEG_MAX_DIMENSION < image_width obj then Inl JERR_IMAGE_TOO_BIG
      else if d_data_precision obj < 8 \<or> 12 < d_data_precision obj then Inl (JERR_BAD_PRECISION (d_data_precision obj))
      else if MAX_COMPONENTS < num_components obj then Inl (JERR_COMPONENT_COUNT (num_components obj) MAX_COMPONENTS)
      else bind_err (max_samp_factors (d_comp_info obj) (1, 1)) (\<lambda>(max_h, max_v).
           bind_err (derive_block_size obj) (\<lambda>bsize. Inr (size_components_d max_h max_v bsize d))))"

section \<open>Start of a scan\<close>

definition rest_or_all :: "nat \<Rightarrow> nat \<Rightarrow> nat" where
  "rest_or_all n m = (let tmp = n mod m in if tmp = 0 then m else tmp)"

definition single_component :: "sized_component \<Rightarrow> sized_component" where
  "single_component c = c\<lparr>MCU_width := 1, MCU_height := 1, MCU_blocks := 1, MCU_sample_width := DCT_h_size c,
     last_col_width := 1, last_row_height := rest_or_all (height_in_blocks c) (v_samp_factor c)\<rparr>"

definition interleaved_component :: "sized_component \<Rightarrow> sized_component" where
  "interleaved_component c = c\<lparr>MCU_width := h_samp_factor c, MCU_height := v_samp_factor c,
     MCU_blocks := h_samp_factor c * v_samp_factor c, MCU_sample_width := h_samp_factor c * DCT_h_size c,
     last_col_width := rest_or_all (width_in_blocks c) (h_samp_factor c),
     last_row_height := rest_or_all (height_in_blocks c) (v_samp_factor c)\<rparr>"

fun add_to_MCU :: "nat \<Rightarrow> nat list \<Rightarrow> nat \<Rightarrow> nat list \<Rightarrow> sized_component list \<Rightarrow> (nat list \<times> sized_component list) result" where
  "add_to_MCU limit [] ci mem comps = Inr (mem, comps)"
| "add_to_MCU limit (i # is) ci mem comps =
     (let c = interleaved_component (comps ! i) in
      if limit < length mem + MCU_blocks c then Inl JERR_BAD_MCU_SIZE
      else add_to_MCU limit is (Suc ci) (mem @ replicate (MCU_blocks c) ci) (comps[i := c]))"

definition layout_scan ::
  "nat \<Rightarrow> nat \<Rightarrow> nat \<Rightarrow> nat \<Rightarrow> nat \<Rightarrow> nat \<Rightarrow> nat list \<Rightarrow> sized_component list \<Rightarrow> (mcu_layout \<times> sized_component list) result" where
  "layout_scan limit width height max_h max_v bs scan_comps comps =
     (if length scan_comps = 1
      then (let i = hd scan_comps; c = comps ! i in
            Inr (\<lparr>MCUs_per_row = width_in_blocks c, MCU_rows_in_scan = height_in_blocks c, MCU_membership = [0]\<rparr>,
                 comps[i := single_component c]))
      else if scan_comps = [] \<or> MAX_COMPS_IN_SCAN < length scan_comps then Inl (JERR_COMPONENT_COUNT (length scan_comps) MAX_COMPS_IN_SCAN)
      else bind_err (add_to_MCU limit scan_comps 0 [] comps) (\<lambda>(mem, comps').
           Inr (\<lparr>MCUs_per_row = div_up width (max_h * bs), MCU_rows_in_scan = div_up height (max_v * bs),
                 MCU_membership = mem\<rparr>, comps')))"

definition per_scan_setup_d :: "d_frame \<Rightarrow> (mcu_layout \<times> d_frame) result" where
  "per_scan_setup_d d =
     bind_err (layout_scan D_MAX_BLOCKS_IN_MCU (image_width (d_obj d)) (image_height (d_obj d))
         (d_max_h_samp_factor d) (d_max_v_samp_factor d) (d_block_size d) (d_cur_comp_info (d_obj d)) (d_comps d))
       (\<lambda>(layout, comps). Inr (layout, d\<lparr>d_comps := comps\<rparr>))"

fun latch_quant_tables :: "quant_tbl option list \<Rightarrow> nat list \<Rightarrow> sized_component list \<Rightarrow> sized_component list result" where
  "latch_quant_tables tbls [] comps = Inr comps"
| "latch_quant_tables tbls (i # is) comps =
     (let c = comps ! i in
      if saved_quant_table c \<noteq> None then latch_quant_tables tbls is comps
      else if NUM_QUANT_TBLS \<le> quant_tbl_no c then Inl (JERR_NO_QUANT_TABLE (quant_tbl_no c))
      else bind_err (table_at tbls (quant_tbl_no c)) (\<lambda>t. case t of
          None \<Rightarrow> Inl (JERR_NO_QUANT_TABLE (quant_tbl_no c))
        | Some q \<Rightarrow> latch_quant_tables tbls is (comps[i := c\<lparr>saved_quant_table := Some q\<rparr>])))"

section \<open>The compressor\<close>

record c_frame =
  c_obj :: compress
  c_image_width :: nat
  c_image_height :: nat
  c_scale_num :: nat
  c_scale_denom :: nat
  c_comps :: "sized_component list"
  c_max_h_samp_factor :: nat
  c_max_v_samp_factor :: nat
  c_min_DCT_h_scaled_size :: nat
  c_min_DCT_v_scaled_size :: nat
  c_total_iMCU_rows :: nat
  c_fancy_downsampling :: bool
  c_restart_in_rows :: nat

definition input_scale :: "nat \<Rightarrow> nat \<Rightarrow> nat \<Rightarrow> nat" where
  "input_scale scale_num scale_denom bs =
     (case find (\<lambda>k. w32 (scale_denom * bs) \<le> w32 (scale_num * k)) [1..<16] of
        Some k \<Rightarrow> k | None \<Rightarrow> 16)"

definition jpeg_calc_jpeg_dimensions :: "c_frame \<Rightarrow> c_frame result" where
  "jpeg_calc_jpeg_dimensions c =
     (if 2 ^ 24 \<le> c_image_width c \<or> 2 ^ 24 \<le> c_image_height c then Inl JERR_IMAGE_TOO_BIG
      else (let bs = block_size (c_obj c); k = input_scale (c_scale_num c) (c_scale_denom c) bs
            in Inr (c\<lparr>c_obj := (c_obj c)\<lparr>jpeg_width := div_up (c_image_width c * bs) k,
                                         jpeg_height := div_up (c_image_height c * bs) k\<rparr>,
                      c_min_DCT_h_scaled_size := k, c_min_DCT_v_scaled_size := k\<rparr>)))"

definition jpeg_calc_trans_dimensions :: "c_frame \<Rightarrow> c_frame result" where
  "jpeg_calc_trans_dimensions c =
     (if c_min_DCT_h_scaled_size c \<noteq> c_min_DCT_v_scaled_size c
      then Inl (JERR_BAD_DCTSIZE (c_min_DCT_h_scaled_size c) (c_min_DCT_v_scaled_size c))
      else Inr (c\<lparr>c_obj := (c_obj c)\<lparr>block_size := c_min_DCT_h_scaled_size c\<rparr>\<rparr>))"

definition initial_component_c ::
  "bool \<Rightarrow> nat \<Rightarrow> nat \<Rightarrow> nat \<Rightarrow> nat \<Rightarrow> nat \<Rightarrow> nat \<Rightarrow> nat \<Rightarrow> nat \<Rightarrow> component \<Rightarrow> sized_component" where
  "initial_component_c fancy width height min_h min_v max_h max_v bs ci c =
     (let (h, v) = scaled_sizes fancy min_h min_v max_h max_v (h_samp_factor c) (v_samp_factor c)
      in component.extend (c\<lparr>component_index := ci\<rparr>)
       \<lparr>width_in_blocks = blocks_of width (h_samp_factor c) max_h bs, height_in_blocks = blocks_of height (v_samp_factor c) max_v bs,
        DCT_h_size = h, DCT_v_size = v,
        downsampled_width = div_up (width * (h_samp_factor c * h)) (max_h * bs),
        downsampled_height = div_up (height * (v_samp_factor c * v)) (max_v * bs),
        MCU_width = 0, MCU_height = 0, MCU_blocks = 0, MCU_sample_width = 0, last_col_width = 0, last_row_height = 0,
        comp_needed = False, saved_quant_table = None\<rparr>)"

definition size_components_c :: "nat \<Rightarrow> nat \<Rightarrow> c_frame \<Rightarrow> c_frame" where
  "size_components_c max_h max_v c =
     (let obj = c_obj c; bs = block_size obj in
      c\<lparr>c_obj := obj\<lparr>natural_order := natural_order_of bs,
                       lim_Se := (if bs < DCTSIZE then bs * bs - 1 else DCTSIZE2 - 1),
                       comp_info := map (\<lambda>(ci, k). k\<lparr>component_index := ci\<rparr>) (enumerate 0 (comp_info obj))\<rparr>,
        c_max_h_samp_factor := max_h, c_max_v_samp_factor := max_v,
        c_comps := map (\<lambda>(ci, k). initial_component_c (c_fancy_downsampling c) (jpeg_width obj) (jpeg_height obj)
          (c_min_DCT_h_scaled_size c) (c_min_DCT_v_scaled_size c) max_h max_v bs ci k) (enumerate 0 (comp_info obj)),
        c_total_iMCU_rows := div_up (jpeg_height obj) (max_v * bs)\<rparr>)"

definition initial_setup_c :: "bool \<Rightarrow> c_frame \<Rightarrow> c_frame result" where
  "initial_setup_c transcode_only c0 =
     bind_err (if transcode_only then jpeg_calc_trans_dimensions c0 else jpeg_calc_jpeg_dimensions c0) (\<lambda>c.
       let obj = c_obj c; bs = block_size obj; n = length (comp_info obj) in
       if bs < 1 \<or> 16 < bs then Inl (JERR_BAD_DCTSIZE bs bs)
       else if jpeg_height obj = 0 \<or> jpeg_width obj = 0 \<or> n = 0 then Inl JERR_EMPTY_IMAGE
       else if JPEG_MAX_DIMENSION < jpeg_height obj \<or> JPEG_MAX_DIMENSION < jpeg_width obj then Inl JERR_IMAGE_TOO_BIG
       else if data_precision obj < 8 \<or> 12 < data_precision obj then Inl (JERR_BAD_PRECISION (data_precision obj))
       else if MAX_COMPONENTS < n then Inl (JERR_COMPONENT_COUNT n MAX_COMPONENTS)
       else bind_err (max_samp_factors (comp_info obj) (1, 1)) (\<lambda>(max_h, max_v). Inr (size_components_c max_h max_v c)))"

definition per_scan_setup_c :: "c_frame \<Rightarrow> (mcu_layout \<times> c_frame) result" where
  "per_scan_setup_c c =
     bind_err (layout_scan C_MAX_BLOCKS_IN_MCU (jpeg_width (c_obj c)) (jpeg_height (c_obj c))
         (c_max_h_samp_factor c) (c_max_v_samp_factor c) (block_size (c_obj c)) (cur_comp_info (c_obj c)) (c_comps c))
       (\<lambda>(layout, comps).
          Inr (layout, c\<lparr>c_comps := comps,
            c_obj := (if 0 < c_restart_in_rows c
                      then (c_obj c)\<lparr>restart_interval :=
                             nat (u32 (min (s32 (int (c_restart_in_rows c) * int (MCUs_per_row layout))) 65535))\<rparr>
                      else c_obj c)\<rparr>))"

section \<open>Sizes of blocks\<close>

lemma grow_ssize_power:
  "\<exists>j\<ge>i. grow_ssize limit m M s (2 ^ i) = 2 ^ j \<and> (j = i \<or> m * 2 ^ j \<le> 2 * limit)"
proof (induction limit m M s "2 ^ i :: nat" arbitrary: i rule: grow_ssize.induct)
  case (1 limit m M s i)
  show ?case
  proof (cases "0 < m * 2 ^ i \<and> m * 2 ^ i \<le> limit \<and> M mod (s * 2 ^ i * 2) = 0")
    case True
    obtain j where j: "Suc i \<le> j" "grow_ssize limit m M s (2 ^ Suc i) = 2 ^ j" "j = Suc i \<or> m * 2 ^ j \<le> 2 * limit"
      using 1 [OF True, of "Suc i"] by (auto simp: mult.commute)
    have "grow_ssize limit m M s (2 ^ i) = 2 ^ j"
      using True j(2) by (subst grow_ssize.simps) (simp add: mult.commute)
    moreover have "m * 2 ^ j \<le> 2 * limit" using j(3) True by auto
    ultimately show ?thesis using j(1) by (intro exI [of _ j]) simp
  next
    case False
    then have "grow_ssize limit m M s (2 ^ i) = 2 ^ i" by (subst grow_ssize.simps) (simp only: if_False)
    then show ?thesis by auto
  qed
qed

lemma grow_ssize_dvd:
  assumes "s * t dvd M"
  shows "s * grow_ssize limit m M s t dvd M"
  using assms
proof (induction limit m M s t rule: grow_ssize.induct)
  case (1 limit m M s t)
  then show ?case by (subst grow_ssize.simps) (auto simp: mod_eq_0_iff_dvd mult.assoc)
qed

text \<open>Square blocks of up to 16 samples and blocks of twice as many rows as columns, or columns as rows.\<close>

definition known_size :: "nat \<times> nat \<Rightarrow> bool" where
  "known_size = (\<lambda>(h, v). (h = v \<and> 1 \<le> h \<and> h \<le> 16) \<or> (h = 2 * v \<and> 1 \<le> v \<and> v \<le> 8) \<or> (v = 2 * h \<and> 1 \<le> h \<and> h \<le> 8))"

lemma powers_within_two:
  assumes "\<not> k * 2 ^ b * 2 < k * 2 ^ a" "\<not> k * 2 ^ a * 2 < k * 2 ^ b" "0 < (k :: nat)"
  shows "a = b \<or> a = Suc b \<or> b = Suc a"
proof -
  have "(2 :: nat) ^ a \<le> 2 ^ Suc b" "(2 :: nat) ^ b \<le> 2 ^ Suc a" using assms by (simp_all add: mult.assoc)
  then have "a \<le> Suc b" "b \<le> Suc a" by (simp_all only: power_increasing_iff)
  then show ?thesis by auto
qed

lemma scaled_sizes_known:
  assumes "1 \<le> k" "k \<le> 16"
  shows "known_size (scaled_sizes fancy k k max_h max_v h v)"
proof -
  define limit where "limit = (if fancy then DCTSIZE else DCTSIZE div 2)"
  have l: "2 * limit \<le> 16" by (simp add: limit_def DCTSIZE_def)
  obtain a where a: "grow_ssize limit k max_h h 1 = 2 ^ a" "a = 0 \<or> k * 2 ^ a \<le> 2 * limit"
    using grow_ssize_power [of 0 limit k max_h h] by auto
  obtain b where b: "grow_ssize limit k max_v v 1 = 2 ^ b" "b = 0 \<or> k * 2 ^ b \<le> 2 * limit"
    using grow_ssize_power [of 0 limit k max_v v] by auto
  have le: "k * 2 ^ a \<le> 16" "k * 2 ^ b \<le> 16" "1 \<le> k * 2 ^ a" "1 \<le> k * 2 ^ b" using a b l assms by auto
  define p q where "p = k * 2 ^ a" and "q = k * 2 ^ b"
  have "known_size (limit_ratio (p, q))"
  proof (cases "k * 2 ^ b * 2 < k * 2 ^ a \<or> k * 2 ^ a * 2 < k * 2 ^ b")
    case True
    then have "q * 2 < p \<or> p * 2 < q" by (simp add: p_def q_def)
    moreover have "p \<le> 16" "q \<le> 16" "1 \<le> p" "1 \<le> q" using le by (simp_all add: p_def q_def)
    ultimately show ?thesis by (auto simp: limit_ratio_def known_size_def)
  next
    case False
    then have "a = b \<or> a = Suc b \<or> b = Suc a" using powers_within_two [of k b a] assms by auto
    then show ?thesis using le False by (auto simp: limit_ratio_def known_size_def p_def q_def)
  qed
  then show ?thesis by (simp add: scaled_sizes_def Let_def a(1) [simplified] b(1) [simplified] p_def q_def flip: limit_def)
qed

lemma scaled_sizes_dvd:
  assumes "h dvd max_h" "v dvd max_v" "scaled_sizes fancy k k max_h max_v h v = (hs, vs)" "1 \<le> k"
  shows "h * hs dvd max_h * k \<and> v * vs dvd max_v * k"
proof -
  define limit where "limit = (if fancy then DCTSIZE else DCTSIZE div 2)"
  define x y where "x = grow_ssize limit k max_h h 1" and "y = grow_ssize limit k max_v v 1"
  have xy: "h * x dvd max_h" "v * y dvd max_v"
    using grow_ssize_dvd [of h 1 max_h] grow_ssize_dvd [of v 1 max_v] assms(1,2) by (simp_all add: x_def y_def)
  obtain a b where ab: "x = 2 ^ a" "y = 2 ^ b"
    using grow_ssize_power [of 0 limit k max_h h] grow_ssize_power [of 0 limit k max_v v] by (auto simp: x_def y_def)
  have sz: "limit_ratio (k * x, k * y) = (hs, vs)"
    using assms(3) by (simp add: scaled_sizes_def Let_def x_def y_def flip: limit_def)
  have dv: "h * (k * x) dvd max_h * k" "v * (k * y) dvd max_v * k"
    using xy by (metis mult.assoc mult.commute mult_dvd_mono dvd_refl)+
  consider "k * y * 2 < k * x" | "\<not> k * y * 2 < k * x" "k * x * 2 < k * y" | "\<not> k * y * 2 < k * x" "\<not> k * x * 2 < k * y" by blast
  then show ?thesis
  proof cases
    case 1
    then have "y * 2 < x" using assms(4) by (simp add: mult.assoc)
    then have "y * 2 dvd x" unfolding ab by (metis le_imp_power_dvd nat_less_le power_Suc2 power_increasing_iff one_less_numeral_iff semiring_norm(76))
    then have "h * (k * (y * 2)) dvd h * (k * x)" by (intro mult_dvd_mono) simp_all
    then show ?thesis using 1 sz dv dvd_trans by (auto simp: limit_ratio_def mult.assoc)
  next
    case 2
    then have "x * 2 < y" using assms(4) by (simp add: mult.assoc)
    then have "x * 2 dvd y" unfolding ab by (metis le_imp_power_dvd nat_less_le power_Suc2 power_increasing_iff one_less_numeral_iff semiring_norm(76))
    then have "v * (k * (x * 2)) dvd v * (k * y)" by (intro mult_dvd_mono) simp_all
    then show ?thesis using 2 sz dv dvd_trans by (auto simp: limit_ratio_def mult.assoc)
  next
    case 3
    then show ?thesis using sz dv by (auto simp: limit_ratio_def)
  qed
qed

lemma known_size_cases:
  assumes "known_size (h, v)"
  shows "(h, v) \<in> set ([(n, n). n \<leftarrow> [1..<17]] @ [(2 * n, n). n \<leftarrow> [1..<9]] @ [(n, 2 * n). n \<leftarrow> [1..<9]])"
  using assms by (auto simp: known_size_def)

lemma known_size_routine:
  assumes "known_size (h, v)" "m \<noteq> JDCT_other"
  shows "\<exists>r. select_idct m h v = Inr r" "\<exists>r. select_fdct m h v = Inr r"
proof -
  have "\<forall>(h, v)\<in>set ([(n, n). n \<leftarrow> [1..<17]] @ [(2 * n, n). n \<leftarrow> [1..<9]] @ [(n, 2 * n). n \<leftarrow> [1..<9]]).
      (\<exists>r. select_idct m h v = Inr r) \<and> (\<exists>r. select_fdct m h v = Inr r)"
    using assms(2) by (cases m) (simp_all add: select_idct_def select_fdct_def DCTSIZE_def upt_rec)
  then show "\<exists>r. select_idct m h v = Inr r" "\<exists>r. select_fdct m h v = Inr r"
    using known_size_cases [OF assms(1)] by fast+
qed

lemma find_upt_bound: "find P [1..<n] = Some k \<Longrightarrow> 1 \<le> k \<and> k < n"
  by (auto simp: find_Some_iff)

lemma output_scale_bound: "1 \<le> output_scale n d b \<and> output_scale n d b \<le> 16"
  using find_upt_bound [where n = 16] by (fastforce simp: output_scale_def split: option.split)

lemma input_scale_bound: "1 \<le> input_scale n d b \<and> input_scale n d b \<le> 16"
  using find_upt_bound [where n = 16] by (fastforce simp: input_scale_def split: option.split)


lemma initial_setup_c_Inr:
  assumes "initial_setup_c transcode_only c = Inr c1"
  shows "\<exists>c0 h v. (if transcode_only then jpeg_calc_trans_dimensions c else jpeg_calc_jpeg_dimensions c) = Inr c0 \<and>
    1 \<le> block_size (c_obj c0) \<and> block_size (c_obj c0) \<le> 16 \<and> 0 < jpeg_width (c_obj c0) \<and> 0 < jpeg_height (c_obj c0) \<and>
    jpeg_width (c_obj c0) \<le> JPEG_MAX_DIMENSION \<and> jpeg_height (c_obj c0) \<le> JPEG_MAX_DIMENSION \<and>
    max_samp_factors (comp_info (c_obj c0)) (1, 1) = Inr (h, v) \<and> c1 = size_components_c h v c0"
proof -
  obtain c0 where c0: "(if transcode_only then jpeg_calc_trans_dimensions c else jpeg_calc_jpeg_dimensions c) = Inr c0"
    using assms by (cases "if transcode_only then jpeg_calc_trans_dimensions c else jpeg_calc_jpeg_dimensions c")
      (auto simp: initial_setup_c_def)
  obtain h v where m: "max_samp_factors (comp_info (c_obj c0)) (1, 1) = Inr (h, v)"
    using assms by (auto simp: initial_setup_c_def Let_def c0 bind_err_Inr split: if_split_asm)
  have "1 \<le> block_size (c_obj c0)" "block_size (c_obj c0) \<le> 16" "0 < jpeg_width (c_obj c0)" "0 < jpeg_height (c_obj c0)"
    "jpeg_width (c_obj c0) \<le> JPEG_MAX_DIMENSION" "jpeg_height (c_obj c0) \<le> JPEG_MAX_DIMENSION" "c1 = size_components_c h v c0"
    using assms by (simp_all add: initial_setup_c_def Let_def c0 m [simplified] split: if_split_asm)
  then show ?thesis using c0 m by blast
qed

lemma initial_setup_c_sizes:
  assumes "initial_setup_c transcode_only c = Inr c'" "k \<in> set (c_comps c')"
  shows "\<exists>n fancy mh mv (k0 :: component). 1 \<le> n \<and> n \<le> 16 \<and>
    (DCT_h_size k, DCT_v_size k) = scaled_sizes fancy n n mh mv (h_samp_factor k0) (v_samp_factor k0)"
proof -
  obtain c1 mh mv where c1: "(if transcode_only then jpeg_calc_trans_dimensions c else jpeg_calc_jpeg_dimensions c) = Inr c1"
    and bs: "1 \<le> block_size (c_obj c1)" "block_size (c_obj c1) \<le> 16" and c': "c' = size_components_c mh mv c1"
    using initial_setup_c_Inr [OF assms(1)] by blast
  define n where "n = c_min_DCT_h_scaled_size c1"
  have n: "c_min_DCT_v_scaled_size c1 = n" "transcode_only \<Longrightarrow> n = block_size (c_obj c1)" "\<not> transcode_only \<Longrightarrow> 1 \<le> n \<and> n \<le> 16"
    using c1 input_scale_bound
    by (auto simp: n_def jpeg_calc_trans_dimensions_def jpeg_calc_jpeg_dimensions_def Let_def split: if_splits)
  obtain ci k0 where k: "k = initial_component_c (c_fancy_downsampling c1) (jpeg_width (c_obj c1)) (jpeg_height (c_obj c1))
      n n mh mv (block_size (c_obj c1)) ci k0"
    using assms(2) n(1) by (auto simp: c' size_components_c_def Let_def n_def)
  have "(DCT_h_size k, DCT_v_size k) = scaled_sizes (c_fancy_downsampling c1) n n mh mv (h_samp_factor k0) (v_samp_factor k0)"
    by (simp add: k initial_component_c_def component.defs xform_component.defs split: prod.split)
  moreover have "1 \<le> n" "n \<le> 16" using n bs by (cases transcode_only; simp)+
  ultimately show ?thesis by blast
qed

text \<open>
  Whatever scaling is asked for, the block sizes \<open>jpeg_calc_output_dimensions\<close> and the
  compressor's \<open>initial_setup\<close> choose for the components are sizes for which both DCT managers have a
  routine: decoding and encoding never end in \<open>JERR_BAD_DCTSIZE\<close>.
\<close>

theorem chosen_sizes_have_routines:
  "(m \<noteq> JDCT_other \<longrightarrow> k \<in> set (d_comps (jpeg_calc_output_dimensions d)) \<longrightarrow>
      (\<exists>r. select_idct m (DCT_h_size k) (DCT_v_size k) = Inr r)) \<and>
   (m \<noteq> JDCT_other \<longrightarrow> initial_setup_c transcode_only c = Inr c' \<longrightarrow> k \<in> set (c_comps c') \<longrightarrow>
      (\<exists>r. select_fdct m (DCT_h_size k) (DCT_v_size k) = Inr r))"
proof (intro conjI impI)
  assume m: "m \<noteq> JDCT_other" and k: "k \<in> set (d_comps (jpeg_calc_output_dimensions d))"
  define n where "n = output_scale (d_scale_num d) (d_scale_denom d) (d_block_size d)"
  have "\<exists>c. (DCT_h_size k, DCT_v_size k) = scaled_sizes (d_fancy_upsampling d) n n (d_max_h_samp_factor d)
      (d_max_v_samp_factor d) (h_samp_factor (c :: sized_component)) (v_samp_factor c)"
    using k by (auto 0 3 simp: jpeg_calc_output_dimensions_def jpeg_core_output_dimensions_def Let_def n_def intro: sym split: prod.splits)
  moreover have "1 \<le> n" "n \<le> 16" using output_scale_bound by (auto simp: n_def)
  ultimately show "\<exists>r. select_idct m (DCT_h_size k) (DCT_v_size k) = Inr r"
    using known_size_routine(1) [OF _ m] scaled_sizes_known by metis
next
  assume m: "m \<noteq> JDCT_other" and c: "initial_setup_c transcode_only c = Inr c'" and k: "k \<in> set (c_comps c')"
  obtain n fancy mh mv and k0 :: component where n: "1 \<le> n" "n \<le> 16"
    and s: "(DCT_h_size k, DCT_v_size k) = scaled_sizes fancy n n mh mv (h_samp_factor k0) (v_samp_factor k0)"
    using initial_setup_c_sizes [OF c k] by blast
  show "\<exists>r. select_fdct m (DCT_h_size k) (DCT_v_size k) = Inr r"
    using known_size_routine(2) [OF _ m] scaled_sizes_known [OF n] s by metis
qed


section \<open>Blocks of a scan\<close>

lemma div_up_bounds:
  assumes "0 < (a :: nat)" "0 < b"
  shows "(div_up a b - 1) * b < a" "a \<le> div_up a b * b"
proof -
  define q where "q = (a - 1) div b"
  have "a + b - 1 = (a - 1) + b" using assms by simp
  then have d: "div_up a b = q + 1" using assms by (simp only: div_up_def q_def div_add_self2 Suc_eq_plus1)
  have m: "a - 1 = q * b + (a - 1) mod b" "(a - 1) mod b < b" using assms(2) by (simp_all add: q_def)
  have "q * b \<le> a - 1" "a - 1 < q * b + b" using m by linarith+
  then show "(div_up a b - 1) * b < a" "a \<le> div_up a b * b" using assms(1) by (simp_all add: d)
qed

lemma div_up_least:
  assumes "a \<le> q * b" "0 < (b :: nat)"
  shows "div_up a b \<le> q"
proof -
  have "a + b - 1 < (q + 1) * b" using assms by simp
  then show ?thesis by (metis div_up_def less_mult_imp_div_less Suc_eq_plus1 less_Suc_eq_le)
qed

lemma blocks_of_bounds:
  assumes "0 < len" "0 < s" "0 < m * bs"
  shows "(div_up len (m * bs) - 1) * s < blocks_of len s m bs" "blocks_of len s m bs \<le> div_up len (m * bs) * s"
proof -
  define n where "n = m * bs"
  have "(div_up len n - 1) * n < len" "len \<le> div_up len n * n" using div_up_bounds assms by (simp_all add: n_def)
  then have b: "(div_up len n - 1) * n * s < len * s" "len * s \<le> div_up len n * n * s" using assms(2) by simp_all
  then show "blocks_of len s m bs \<le> div_up len (m * bs) * s"
    using div_up_least assms(3) by (metis blocks_of_def mult.assoc mult.commute n_def)
  have "len * s \<le> blocks_of len s m bs * n"
    using div_up_bounds(2) [of "len * s" n] assms by (simp add: blocks_of_def n_def)
  moreover have "(div_up len n - 1) * n * s = (div_up len n - 1) * s * n" by (simp only: mult.assoc mult.commute [of n])
  ultimately have "(div_up len n - 1) * s * n < blocks_of len s m bs * n" using b(1) by linarith
  then show "(div_up len (m * bs) - 1) * s < blocks_of len s m bs" unfolding n_def mult_less_cancel2 by blast
qed

lemma rest_or_all_tiles:
  assumes "(q - 1) * m < n" "n \<le> q * m" "0 < (m :: nat)"
  shows "(q - 1) * m + rest_or_all n m = n" "1 \<le> rest_or_all n m" "rest_or_all n m \<le> m"
proof -
  obtain p where q: "q = Suc p" using assms by (cases q) auto
  define r where "r = n - p * m"
  have r: "n = p * m + r" "1 \<le> r" "r \<le> m" using assms by (auto simp: q r_def)
  have "rest_or_all n m = r" using r by (cases "r = m") (simp_all add: rest_or_all_def Let_def)
  then show "(q - 1) * m + rest_or_all n m = n" "1 \<le> rest_or_all n m" "rest_or_all n m \<le> m" using r by (simp_all add: q)
qed

text \<open>Components whose block counts are those of the frame.\<close>

definition sized_frame :: "nat \<Rightarrow> nat \<Rightarrow> nat \<Rightarrow> nat \<Rightarrow> nat \<Rightarrow> sized_component list \<Rightarrow> bool" where
  "sized_frame width height max_h max_v bs comps \<longleftrightarrow> 0 < width \<and> 0 < height \<and> 0 < max_h * bs \<and> 0 < max_v * bs \<and>
     (\<forall>c\<in>set comps. 0 < h_samp_factor c \<and> 0 < v_samp_factor c \<and>
        width_in_blocks c = blocks_of width (h_samp_factor c) max_h bs \<and> height_in_blocks c = blocks_of height (v_samp_factor c) max_v bs)"

lemma max_samp_factors_Inr:
  "max_samp_factors cs m = Inr (h, v) \<Longrightarrow> fst m \<le> h \<and> snd m \<le> v \<and>
     (\<forall>c\<in>set cs. 0 < h_samp_factor c \<and> h_samp_factor c \<le> h \<and> 0 < v_samp_factor c \<and> v_samp_factor c \<le> v)"
proof (induction cs m rule: max_samp_factors.induct)
  case (2 c cs h0 v0)
  let ?bad = "h_samp_factor c = 0 \<or> MAX_SAMP_FACTOR < h_samp_factor c \<or> v_samp_factor c = 0 \<or> MAX_SAMP_FACTOR < v_samp_factor c"
  have ok: "\<not> ?bad" using 2(2) by (metis (no_types, lifting) max_samp_factors.simps(2) sum.distinct(1))
  then have r: "max_samp_factors cs (max h0 (h_samp_factor c), max v0 (v_samp_factor c)) = Inr (h, v)"
    using 2(2) by (simp only: max_samp_factors.simps if_False)
  show ?case using 2(1) [OF ok r] ok by (auto simp: max_def split: if_splits)
qed simp

lemma derive_block_size_pos: "derive_block_size d = Inr (bs, order, limSe) \<Longrightarrow> 1 \<le> bs \<and> bs \<le> 16"
  using find_upt_bound [where n = 17]
  by (fastforce simp: derive_block_size_def block_size_of_Se_def DCTSIZE_def split: if_splits option.splits)

lemma initial_setup_d_Inr:
  assumes "initial_setup_d d = Inr d1"
  shows "\<exists>h v bs order limSe. max_samp_factors (d_comp_info (d_obj d)) (1, 1) = Inr (h, v) \<and>
    derive_block_size (d_obj d) = Inr (bs, order, limSe) \<and> d1 = size_components_d h v (bs, order, limSe) d"
  using assms by (auto simp: initial_setup_d_def Let_def bind_err_Inr split: if_split_asm)

lemma initial_setup_d_sized:
  assumes "initial_setup_d d = Inr d1" "0 < image_width (d_obj d)" "0 < image_height (d_obj d)"
  shows "sized_frame (image_width (d_obj d)) (image_height (d_obj d)) (d_max_h_samp_factor d1) (d_max_v_samp_factor d1) (d_block_size d1) (d_comps d1)"
proof -
  obtain h v bs order limSe where m: "max_samp_factors (d_comp_info (d_obj d)) (1, 1) = Inr (h, v)"
    and b: "derive_block_size (d_obj d) = Inr (bs, order, limSe)" and d1: "d1 = size_components_d h v (bs, order, limSe) d"
    using initial_setup_d_Inr [OF assms(1)] by blast
  show ?thesis
    using max_samp_factors_Inr [OF m] derive_block_size_pos [OF b] assms(2,3)
    by (auto simp: sized_frame_def d1 size_components_d_def Let_def initial_component_d_def component.defs)
qed

lemma initial_setup_c_sized:
  assumes "initial_setup_c transcode_only c = Inr c1"
  shows "sized_frame (jpeg_width (c_obj c1)) (jpeg_height (c_obj c1)) (c_max_h_samp_factor c1) (c_max_v_samp_factor c1)
    (block_size (c_obj c1)) (c_comps c1)"
proof -
  obtain c0 h v where m: "max_samp_factors (comp_info (c_obj c0)) (1, 1) = Inr (h, v)"
    and pos: "0 < jpeg_width (c_obj c0)" "0 < jpeg_height (c_obj c0)" "1 \<le> block_size (c_obj c0)"
    and c1: "c1 = size_components_c h v c0"
    using initial_setup_c_Inr [OF assms] by blast
  have "(ci, k) \<in> set (enumerate 0 (comp_info (c_obj c0))) \<Longrightarrow> k \<in> set (comp_info (c_obj c0))" for ci k
    by (auto simp: in_set_enumerate_eq)
  then have "\<exists>k0\<in>set (comp_info (c_obj c0)). h_samp_factor k = h_samp_factor k0 \<and> v_samp_factor k = v_samp_factor k0 \<and>
      width_in_blocks k = blocks_of (jpeg_width (c_obj c0)) (h_samp_factor k0) h (block_size (c_obj c0)) \<and>
      height_in_blocks k = blocks_of (jpeg_height (c_obj c0)) (v_samp_factor k0) v (block_size (c_obj c0))"
    if "k \<in> set (c_comps c1)" for k
    using that by (force simp: c1 size_components_c_def Let_def initial_component_c_def component.defs split: prod.splits)
  moreover have "0 < h" "0 < v" "\<forall>c\<in>set (comp_info (c_obj c0)). 0 < h_samp_factor c \<and> 0 < v_samp_factor c"
    using max_samp_factors_Inr [OF m] by auto
  moreover have "jpeg_width (c_obj c1) = jpeg_width (c_obj c0)" "jpeg_height (c_obj c1) = jpeg_height (c_obj c0)"
    "block_size (c_obj c1) = block_size (c_obj c0)" "c_max_h_samp_factor c1 = h" "c_max_v_samp_factor c1 = v"
    by (simp_all add: c1 size_components_c_def Let_def)
  ultimately show ?thesis using pos by (fastforce simp: sized_frame_def)
qed

lemma add_to_MCU_Inr:
  assumes "add_to_MCU limit is ci mem comps = Inr (mem', comps')" "distinct is" "set is \<subseteq> {..<length comps}"
  shows "length comps' = length comps \<and> length mem' \<le> max limit (length mem) \<and>
    (\<forall>i<length comps. comps' ! i = (if i \<in> set is then interleaved_component (comps ! i) else comps ! i)) \<and>
    (\<forall>k. count_list mem' k = count_list mem k +
       (if ci \<le> k \<and> k < ci + length is then MCU_blocks (interleaved_component (comps ! (is ! (k - ci)))) else 0))"
  using assms
proof (induction limit "is" ci mem comps arbitrary: mem' comps' rule: add_to_MCU.induct)
  case (2 limit i "is" ci mem comps)
  define c where "c = interleaved_component (comps ! i)"
  have fits: "length mem + MCU_blocks c \<le> limit"
    and r: "add_to_MCU limit is (Suc ci) (mem @ replicate (MCU_blocks c) ci) (comps[i := c]) = Inr (mem', comps')"
    using 2(2) by (auto simp: Let_def c_def split: if_splits)
  have i: "i < length comps" "i \<notin> set is" using 2(3,4) by simp_all
  have IH: "length comps' = length comps" "length mem' \<le> max limit (length mem + MCU_blocks c)"
    "\<And>j. j < length comps \<Longrightarrow> comps' ! j = (if j \<in> set is then interleaved_component (comps[i := c] ! j) else comps[i := c] ! j)"
    "\<And>k. count_list mem' k = count_list (mem @ replicate (MCU_blocks c) ci) k +
       (if Suc ci \<le> k \<and> k < Suc ci + length is then MCU_blocks (interleaved_component (comps[i := c] ! (is ! (k - Suc ci)))) else 0)"
    using 2(1) [OF refl, folded c_def, OF _ r] fits 2(3,4) by simp_all
  have cnt: "count_list (replicate n x) k = (if k = x then n else 0)" for n and x k :: nat by (induction n) auto
  have "count_list mem' k = count_list mem k +
      (if ci \<le> k \<and> k < ci + length (i # is) then MCU_blocks (interleaved_component (comps ! ((i # is) ! (k - ci)))) else 0)" for k
  proof (cases "Suc ci \<le> k \<and> k < Suc ci + length is")
    case True
    then have "is ! (k - Suc ci) \<in> set is" by (intro nth_mem) linarith
    then have "comps[i := c] ! (is ! (k - Suc ci)) = comps ! (is ! (k - Suc ci))" using i(2) by (metis nth_list_update_neq)
    moreover have "(i # is) ! (k - ci) = is ! (k - Suc ci)" using True by (simp add: nth_Cons')
    ultimately show ?thesis using True by (simp add: IH(4) cnt)
  next
    case False
    then show ?thesis by (auto simp: IH(4) cnt c_def)
  qed
  moreover have "comps' ! j = (if j \<in> set (i # is) then interleaved_component (comps ! j) else comps ! j)" if "j < length comps" for j
    using IH(3) [OF that] i by (auto simp: c_def nth_list_update)
  ultimately show ?case using IH(1,2) fits by simp
qed auto


text \<open>How a component's blocks fill the MCUs of a scan.\<close>

definition fills_MCUs :: "nat \<Rightarrow> mcu_layout \<Rightarrow> sized_component \<Rightarrow> bool" where
  "fills_MCUs iMCU_rows layout c \<longleftrightarrow>
     1 \<le> last_col_width c \<and> last_col_width c \<le> MCU_width c \<and>
     (MCUs_per_row layout - 1) * MCU_width c + last_col_width c = width_in_blocks c \<and>
     1 \<le> last_row_height c \<and> last_row_height c \<le> v_samp_factor c \<and>
     (iMCU_rows - 1) * v_samp_factor c + last_row_height c = height_in_blocks c"

lemma single_component_fills:
  assumes "sized_frame width height max_h max_v bs comps" "c \<in> set comps"
  shows "fills_MCUs (div_up height (max_v * bs)) \<lparr>MCUs_per_row = width_in_blocks c, MCU_rows_in_scan = r, MCU_membership = m\<rparr> (single_component c)"
proof -
  have p: "0 < width" "0 < height" "0 < max_h * bs" "0 < max_v * bs" "0 < h_samp_factor c" "0 < v_samp_factor c"
    and b: "width_in_blocks c = blocks_of width (h_samp_factor c) max_h bs" "height_in_blocks c = blocks_of height (v_samp_factor c) max_v bs"
    using assms unfolding sized_frame_def by blast+
  have "1 \<le> width_in_blocks c" using blocks_of_bounds(1) [OF p(1,5,3)] by (simp add: b)
  then show ?thesis
    using rest_or_all_tiles [OF blocks_of_bounds [OF p(2,6,4)] p(6)] by (simp add: fills_MCUs_def single_component_def b)
qed

lemma interleaved_component_fills:
  assumes "sized_frame width height max_h max_v bs comps" "c \<in> set comps"
  shows "fills_MCUs (div_up height (max_v * bs)) \<lparr>MCUs_per_row = div_up width (max_h * bs), MCU_rows_in_scan = r, MCU_membership = m\<rparr>
    (interleaved_component c)"
proof -
  have p: "0 < width" "0 < height" "0 < max_h * bs" "0 < max_v * bs" "0 < h_samp_factor c" "0 < v_samp_factor c"
    and b: "width_in_blocks c = blocks_of width (h_samp_factor c) max_h bs" "height_in_blocks c = blocks_of height (v_samp_factor c) max_v bs"
    using assms unfolding sized_frame_def by blast+
  show ?thesis
    using rest_or_all_tiles [OF blocks_of_bounds [OF p(2,6,4)] p(6)] rest_or_all_tiles [OF blocks_of_bounds [OF p(1,5,3)] p(5)]
    by (simp add: fills_MCUs_def interleaved_component_def b)
qed

lemma interleaved_component_MCU [simp]:
  "MCU_blocks (interleaved_component c) = h_samp_factor c * v_samp_factor c"
  "MCU_width (interleaved_component c) = h_samp_factor c" "MCU_height (interleaved_component c) = v_samp_factor c"
  by (simp_all add: interleaved_component_def)

lemma layout_scan_fills:
  assumes "sized_frame width height max_h max_v bs comps" "distinct scan_comps" "set scan_comps \<subseteq> {..<length comps}"
    and r: "layout_scan limit width height max_h max_v bs scan_comps comps = Inr (layout, comps')"
  shows "length comps' = length comps \<and> (\<forall>j<length scan_comps.
      fills_MCUs (div_up height (max_v * bs)) layout (comps' ! (scan_comps ! j)) \<and>
      count_list (MCU_membership layout) j = MCU_blocks (comps' ! (scan_comps ! j)) \<and>
      MCU_blocks (comps' ! (scan_comps ! j)) = MCU_width (comps' ! (scan_comps ! j)) * MCU_height (comps' ! (scan_comps ! j))) \<and>
    length (MCU_membership layout) \<le> max 1 limit \<and>
    MCU_rows_in_scan layout = (if length scan_comps = 1 then height_in_blocks (comps' ! hd scan_comps) else div_up height (max_v * bs))"
proof (cases "length scan_comps = 1")
  case True
  then obtain i where i: "scan_comps = [i]" by (cases scan_comps) auto
  have "i < length comps" using assms(3) by (simp add: i)
  then show ?thesis
    using r single_component_fills [OF assms(1), of "comps ! i"]
    by (auto simp: layout_scan_def i Let_def single_component_def fills_MCUs_def)
next
  case False
  obtain mem where a: "add_to_MCU limit scan_comps 0 [] comps = Inr (mem, comps')"
    and lay: "layout = \<lparr>MCUs_per_row = div_up width (max_h * bs), MCU_rows_in_scan = div_up height (max_v * bs), MCU_membership = mem\<rparr>"
    using r False by (auto simp: layout_scan_def bind_err_Inr split: if_splits)
  have A: "length comps' = length comps" "length mem \<le> max limit 0"
    "\<And>i. i < length comps \<Longrightarrow> comps' ! i = (if i \<in> set scan_comps then interleaved_component (comps ! i) else comps ! i)"
    "\<And>k. k < length scan_comps \<Longrightarrow> count_list mem k = MCU_blocks (interleaved_component (comps ! (scan_comps ! k)))"
    using add_to_MCU_Inr [OF a assms(2,3)] by auto
  have "comps' ! (scan_comps ! j) = interleaved_component (comps ! (scan_comps ! j))" "comps ! (scan_comps ! j) \<in> set comps"
    if "j < length scan_comps" for j
  proof -
    have "scan_comps ! j < length comps" using assms(3) nth_mem [OF that] by blast
    then show "comps' ! (scan_comps ! j) = interleaved_component (comps ! (scan_comps ! j))" "comps ! (scan_comps ! j) \<in> set comps"
      using A(3) that by simp_all
  qed
  then show ?thesis
    using interleaved_component_fills [OF assms(1)] A(1,2,4) False
    by (auto simp: lay)
qed

text \<open>The layout depends on the sampling factors and block counts only.\<close>

definition same_blocks :: "sized_component list \<Rightarrow> sized_component list \<Rightarrow> bool" where
  "same_blocks = list_all2 (\<lambda>c d. h_samp_factor c = h_samp_factor d \<and> v_samp_factor c = v_samp_factor d \<and>
     width_in_blocks c = width_in_blocks d \<and> height_in_blocks c = height_in_blocks d)"

lemma add_to_MCU_same:
  assumes "add_to_MCU limit is ci mem comps = Inr (mem', comps')" "same_blocks comps ds" "set is \<subseteq> {..<length comps}"
  shows "\<exists>ds'. add_to_MCU limit is ci mem ds = Inr (mem', ds')"
  using assms
proof (induction limit "is" ci mem comps arbitrary: ds rule: add_to_MCU.induct)
  case (2 limit i "is" ci mem comps)
  have i: "i < length comps" using 2(4) by simp
  have c: "h_samp_factor (ds ! i) = h_samp_factor (comps ! i)" "v_samp_factor (ds ! i) = v_samp_factor (comps ! i)"
    "width_in_blocks (ds ! i) = width_in_blocks (comps ! i)" "height_in_blocks (ds ! i) = height_in_blocks (comps ! i)"
    using list_all2_nthD [OF 2(3) [unfolded same_blocks_def] i] by simp_all
  have "same_blocks (comps[i := interleaved_component (comps ! i)]) (ds[i := interleaved_component (ds ! i)])"
    using 2(3) unfolding same_blocks_def by (rule list_all2_update_cong) (simp add: c interleaved_component_def)
  moreover have fits: "\<not> limit < length mem + MCU_blocks (interleaved_component (comps ! i))"
    and "add_to_MCU limit is (Suc ci) (mem @ replicate (MCU_blocks (interleaved_component (comps ! i))) ci)
      (comps[i := interleaved_component (comps ! i)]) = Inr (mem', comps')"
    using 2(2) by (simp_all add: Let_def split: if_split_asm)
  ultimately obtain ds' where "add_to_MCU limit is (Suc ci) (mem @ replicate (MCU_blocks (interleaved_component (comps ! i))) ci)
      (ds[i := interleaved_component (ds ! i)]) = Inr (mem', ds')"
    using 2(1) [OF refl] 2(4) by auto
  then show ?case using fits by (simp add: Let_def c)
qed simp

lemma layout_scan_same:
  assumes "layout_scan limit width height max_h max_v bs scan_comps comps = Inr (layout, comps')" "same_blocks comps ds"
    "set scan_comps \<subseteq> {..<length comps}"
  shows "\<exists>ds'. layout_scan limit width height max_h max_v bs scan_comps ds = Inr (layout, ds')"
proof (cases "length scan_comps = 1")
  case True
  then obtain i where i: "scan_comps = [i]" by (cases scan_comps) auto
  have "i < length comps" using assms(3) by (simp add: i)
  then show ?thesis
    using assms(1) list_all2_nthD [OF assms(2) [unfolded same_blocks_def], of i] by (auto simp: layout_scan_def i Let_def)
next
  case False
  then show ?thesis
    using assms(1) add_to_MCU_same [OF _ assms(2,3)] by (fastforce simp: layout_scan_def bind_err_Inr split: if_split_asm)
qed

lemma same_blocks_sized:
  assumes "sized_frame width height max_h max_v bs comps" "sized_frame width height max_h max_v bs ds"
    "map h_samp_factor comps = map h_samp_factor ds" "map v_samp_factor comps = map v_samp_factor ds"
  shows "same_blocks comps ds"
proof -
  have n: "length comps = length ds" using assms(3) map_eq_imp_length_eq by blast
  have "h_samp_factor (comps ! i) = h_samp_factor (ds ! i)" "v_samp_factor (comps ! i) = v_samp_factor (ds ! i)" if "i < length comps" for i
    using assms(3,4) that n by (metis nth_map)+
  then show ?thesis using assms(1,2) n by (auto simp: same_blocks_def sized_frame_def list_all2_conv_all_nth)
qed

lemma max_samp_factors_cong:
  "map h_samp_factor xs = map h_samp_factor ys \<Longrightarrow> map v_samp_factor xs = map v_samp_factor ys \<Longrightarrow>
     max_samp_factors xs m = max_samp_factors ys m"
proof (induction xs arbitrary: ys m)
  case (Cons x xs)
  then show ?case by (cases ys; cases m) auto
qed simp

lemma size_components_c_factors:
  "map h_samp_factor (c_comps (size_components_c h v c)) = map h_samp_factor (comp_info (c_obj c))"
  "map v_samp_factor (c_comps (size_components_c h v c)) = map v_samp_factor (comp_info (c_obj c))"
  "map h_samp_factor (comp_info (c_obj (size_components_c h v c))) = map h_samp_factor (comp_info (c_obj c))"
  "map v_samp_factor (comp_info (c_obj (size_components_c h v c))) = map v_samp_factor (comp_info (c_obj c))"
  by (auto simp: size_components_c_def Let_def list_eq_iff_nth_eq nth_enumerate_eq initial_component_c_def component.defs
      split: prod.split)

lemma size_components_d_factors:
  "map h_samp_factor (d_comps (size_components_d h v b d)) = map h_samp_factor (d_comp_info (d_obj d))"
  "map v_samp_factor (d_comps (size_components_d h v b d)) = map v_samp_factor (d_comp_info (d_obj d))"
  by (auto simp: size_components_d_def Let_def initial_component_d_def component.defs split: prod.split)

text \<open>
  C13: The compressor and the decompressor lay out a scan in the same way.  When both start on the same
  frame and the same scan, a layout the compressor accepts the decompressor accepts as well: the same
  MCUs with the same blocks; each component's blocks fill the MCUs but for the dummy blocks beyond
  \<open>last_col_width\<close> and \<open>last_row_height\<close>.
\<close>

theorem scan_layouts_agree:
  assumes c: "initial_setup_c transcode_only c = Inr c1"
    and d: "initial_setup_d d = Inr d1"
    and same: "image_width (d_obj d) = jpeg_width (c_obj c1)" "image_height (d_obj d) = jpeg_height (c_obj c1)"
      "d_comp_info (d_obj d) = comp_info (c_obj c1)" "d_block_size d1 = block_size (c_obj c1)"
    and scan: "d_cur_comp_info (d_obj d) = cur_comp_info (c_obj c1)" "distinct (cur_comp_info (c_obj c1))"
      "set (cur_comp_info (c_obj c1)) \<subseteq> {..<length (c_comps c1)}"
    and layout: "per_scan_setup_c c1 = Inr (layout, c2)"
  shows "\<exists>d2. per_scan_setup_d d1 = Inr (layout, d2) \<and> length (MCU_membership layout) \<le> 10 \<and>
    (\<forall>j<length (cur_comp_info (c_obj c1)). let i = cur_comp_info (c_obj c1) ! j; k = d_comps d2 ! i in
      fills_MCUs (d_total_iMCU_rows d1) layout k \<and> fills_MCUs (c_total_iMCU_rows c1) layout (c_comps c2 ! i) \<and>
      count_list (MCU_membership layout) j = MCU_width k * MCU_height k)"
proof -
  define cs where "cs = cur_comp_info (c_obj c1)"
  let ?mh = "c_max_h_samp_factor c1" and ?mv = "c_max_v_samp_factor c1" and ?bs = "block_size (c_obj c1)"
  let ?W = "jpeg_width (c_obj c1)" and ?H = "jpeg_height (c_obj c1)"
  obtain comps where L: "layout_scan C_MAX_BLOCKS_IN_MCU ?W ?H ?mh ?mv ?bs cs (c_comps c1) = Inr (layout, comps)"
    and c2: "c_comps c2 = comps"
    using layout by (auto simp: per_scan_setup_c_def bind_err_Inr cs_def)
  obtain c0 h v where mc: "max_samp_factors (comp_info (c_obj c0)) (1, 1) = Inr (h, v)" and c1: "c1 = size_components_c h v c0"
    using initial_setup_c_Inr [OF c] by blast
  have C: "?mh = h" "?mv = v" "c_total_iMCU_rows c1 = div_up ?H (v * ?bs)"
    by (simp_all add: c1 size_components_c_def Let_def)
  obtain b where d1: "d1 = size_components_d h v b d"
    using initial_setup_d_Inr [OF d] mc max_samp_factors_cong [of "d_comp_info (d_obj d)" "comp_info (c_obj c0)" "(1, 1)"]
    by (auto simp: same c1 size_components_c_factors)
  have D: "d_max_h_samp_factor d1 = h" "d_max_v_samp_factor d1 = v" "d_obj d1 = d_obj d"
      "d_total_iMCU_rows d1 = div_up ?H (v * ?bs)"
    using same(4) by (auto simp: d1 size_components_d_def Let_def same(2) split: prod.splits)
  have sc: "sized_frame ?W ?H ?mh ?mv ?bs (c_comps c1)" by (rule initial_setup_c_sized [OF c])
  then have sd: "sized_frame ?W ?H ?mh ?mv ?bs (d_comps d1)"
    using initial_setup_d_sized [OF d] by (simp add: same D C sized_frame_def)
  have eq: "same_blocks (c_comps c1) (d_comps d1)"
    by (rule same_blocks_sized [OF sc sd]) (simp_all add: c1 d1 size_components_c_factors size_components_d_factors same(3) [unfolded c1])
  then have n: "length (d_comps d1) = length (c_comps c1)" by (simp add: same_blocks_def list_all2_lengthD)
  obtain ds where ds: "layout_scan C_MAX_BLOCKS_IN_MCU ?W ?H ?mh ?mv ?bs cs (d_comps d1) = Inr (layout, ds)"
    using layout_scan_same [OF L eq] scan(3) by (auto simp: cs_def)
  then have "per_scan_setup_d d1 = Inr (layout, d1\<lparr>d_comps := ds\<rparr>)"
    by (simp add: per_scan_setup_d_def D C same scan(1) D_MAX_BLOCKS_IN_MCU_def C_MAX_BLOCKS_IN_MCU_def flip: cs_def)
  moreover note layout_scan_fills [OF sd _ _ ds] layout_scan_fills [OF sc _ _ L]
  ultimately show ?thesis
    using scan(2,3) by (auto simp: cs_def n D C c2 C_MAX_BLOCKS_IN_MCU_def Let_def)
qed

text \<open>A picture of 100 x 50 pixels with chrominance at half the resolution, reduced to half its size on decoding.\<close>

definition demo_components :: "component list" where
  "demo_components =
     [\<lparr>component_id = 1, component_index = 0, h_samp_factor = 2, v_samp_factor = 2, quant_tbl_no = 0, dc_tbl_no = 0, ac_tbl_no = 0\<rparr>,
      \<lparr>component_id = 2, component_index = 1, h_samp_factor = 1, v_samp_factor = 1, quant_tbl_no = 1, dc_tbl_no = 1, ac_tbl_no = 1\<rparr>,
      \<lparr>component_id = 3, component_index = 2, h_samp_factor = 1, v_samp_factor = 1, quant_tbl_no = 1, dc_tbl_no = 1, ac_tbl_no = 1\<rparr>]"

definition demo_d_frame :: d_frame where
  "demo_d_frame =
     \<lparr>d_obj = blank_decompress\<lparr>image_width := 100, image_height := 50, d_data_precision := 8, num_components := 3, is_baseline := True,
        d_comp_info := demo_components, d_cur_comp_info := [0, 1, 2]\<rparr>,
      d_scale_num = 1, d_scale_denom = 2, d_comps = [], d_max_h_samp_factor = 2, d_max_v_samp_factor = 2, d_block_size = 8,
      d_natural_order = [], d_lim_Se = 0, d_min_DCT_h_scaled_size = 8, d_min_DCT_v_scaled_size = 8, d_total_iMCU_rows = 0,
      d_output_width = 0, d_output_height = 0, d_fancy_upsampling = True, d_has_multiple_scans = False\<rparr>"

definition demo_c_frame :: c_frame where
  "demo_c_frame =
     \<lparr>c_obj = blank_compress\<lparr>comp_info := demo_components, cur_comp_info := [0, 1, 2], block_size := 8\<rparr>,
      c_image_width = 100, c_image_height = 50, c_scale_num = 1, c_scale_denom = 1, c_comps = [], c_max_h_samp_factor = 0,
      c_max_v_samp_factor = 0, c_min_DCT_h_scaled_size = 8, c_min_DCT_v_scaled_size = 8, c_total_iMCU_rows = 0,
      c_fancy_downsampling = True, c_restart_in_rows = 0\<rparr>"

definition demo_c1 :: c_frame where
  "demo_c1 = size_components_c 2 2 (demo_c_frame\<lparr>c_obj := (c_obj demo_c_frame)\<lparr>jpeg_width := 100, jpeg_height := 50\<rparr>\<rparr>)"

definition demo_d1 :: d_frame where "demo_d1 = size_components_d 2 2 (8, jpeg_natural_order, 63) demo_d_frame"

definition demo_layout :: mcu_layout where
  "demo_layout = \<lparr>MCUs_per_row = 7, MCU_rows_in_scan = 4, MCU_membership = [0, 0, 0, 0, 1, 2]\<rparr>"

definition demo_c2 :: c_frame where "demo_c2 = demo_c1\<lparr>c_comps := map interleaved_component (c_comps demo_c1)\<rparr>"

lemma demo_factors: "max_samp_factors demo_components (1, 1) = Inr (2, 2)"
  by (simp add: demo_components_def MAX_SAMP_FACTOR_def)

lemma demo_input_scale: "input_scale 1 1 8 = 8"
  by (simp add: input_scale_def w32_def upt_rec)

lemma demo_setup_c: "initial_setup_c False demo_c_frame = Inr demo_c1"
proof -
  have "jpeg_calc_jpeg_dimensions demo_c_frame = Inr (demo_c_frame\<lparr>c_obj := (c_obj demo_c_frame)\<lparr>jpeg_width := 100, jpeg_height := 50\<rparr>\<rparr>)"
    by (simp add: jpeg_calc_jpeg_dimensions_def demo_c_frame_def demo_input_scale [simplified] div_up_def Let_def)
  then show ?thesis
    by (simp add: initial_setup_c_def demo_c1_def demo_c_frame_def blank_compress_def demo_factors [simplified] JPEG_MAX_DIMENSION_def
        MAX_COMPONENTS_def demo_components_def [THEN arg_cong [where f = length]] Let_def)
qed

lemma demo_setup_d: "initial_setup_d demo_d_frame = Inr demo_d1"
  by (simp add: initial_setup_d_def demo_d1_def demo_d_frame_def demo_factors [simplified] JPEG_MAX_DIMENSION_def derive_block_size_def
      DCTSIZE_def DCTSIZE2_def MAX_COMPONENTS_def Let_def)

lemma demo_MCU:
  assumes "h_samp_factor a = 2" "v_samp_factor a = 2" "h_samp_factor b = 1" "v_samp_factor b = 1" "h_samp_factor c = 1" "v_samp_factor c = 1"
  shows "add_to_MCU 10 [0, 1, 2] 0 [] [a, b, c] = Inr ([0, 0, 0, 0, 1, 2], map interleaved_component [a, b, c])"
  using assms by (simp add: Let_def numeral_2_eq_2)

lemma demo_scan: "per_scan_setup_c demo_c1 = Inr (demo_layout, demo_c2)"
proof -
  obtain a b c where cs: "c_comps demo_c1 = [a, b, c]" and f: "h_samp_factor a = 2" "v_samp_factor a = 2" "h_samp_factor b = 1"
    "v_samp_factor b = 1" "h_samp_factor c = 1" "v_samp_factor c = 1"
    by (simp add: demo_c1_def size_components_c_def demo_c_frame_def demo_components_def initial_component_c_def component.defs
        Let_def split_beta)
  have p: "jpeg_width (c_obj demo_c1) = 100" "jpeg_height (c_obj demo_c1) = 50" "c_max_h_samp_factor demo_c1 = 2"
    "c_max_v_samp_factor demo_c1 = 2" "block_size (c_obj demo_c1) = 8" "cur_comp_info (c_obj demo_c1) = [0, 1, 2]" "c_restart_in_rows demo_c1 = 0"
    by (simp_all add: demo_c1_def size_components_c_def demo_c_frame_def Let_def)
  show ?thesis
    by (simp add: per_scan_setup_c_def layout_scan_def p demo_MCU [simplified, OF f [simplified]] cs demo_layout_def demo_c2_def
        MAX_COMPS_IN_SCAN_def C_MAX_BLOCKS_IN_MCU_def div_up_def)
qed

theorem chosen_sizes_have_routines_witness:
  "\<exists>r. select_idct JDCT_ISLOW (DCT_h_size (d_comps (jpeg_calc_output_dimensions demo_d1) ! 1))
      (DCT_v_size (d_comps (jpeg_calc_output_dimensions demo_d1) ! 1)) = Inr r"
proof -
  have "length (d_comps (jpeg_calc_output_dimensions demo_d1)) = 3"
    by (simp add: jpeg_calc_output_dimensions_def jpeg_core_output_dimensions_def demo_d1_def size_components_d_def demo_d_frame_def
        demo_components_def Let_def)
  then have "d_comps (jpeg_calc_output_dimensions demo_d1) ! 1 \<in> set (d_comps (jpeg_calc_output_dimensions demo_d1))" by (intro nth_mem) simp
  then show ?thesis
    using chosen_sizes_have_routines [of JDCT_ISLOW _ demo_d1 False demo_c_frame demo_c1] by blast
qed

theorem scan_layouts_agree_witness:
  "\<exists>d2. per_scan_setup_d demo_d1 = Inr (demo_layout, d2) \<and> fills_MCUs 4 demo_layout (d_comps d2 ! 0)"
proof -
  have "image_width (d_obj demo_d_frame) = jpeg_width (c_obj demo_c1)" "image_height (d_obj demo_d_frame) = jpeg_height (c_obj demo_c1)"
    "d_comp_info (d_obj demo_d_frame) = comp_info (c_obj demo_c1)" "d_block_size demo_d1 = block_size (c_obj demo_c1)"
    "d_cur_comp_info (d_obj demo_d_frame) = cur_comp_info (c_obj demo_c1)" "cur_comp_info (c_obj demo_c1) = [0, 1, 2]"
    "length (c_comps demo_c1) = 3" "d_total_iMCU_rows demo_d1 = 4"
    by (simp_all add: demo_d1_def demo_c1_def demo_d_frame_def demo_c_frame_def size_components_c_def size_components_d_def
        demo_components_def div_up_def Let_def)
  then show ?thesis
    using scan_layouts_agree [OF demo_setup_c demo_setup_d _ _ _ _ _ _ _ demo_scan] by (fastforce simp: Let_def)
qed

end
