(* ===== verification/JpegParams.thy ===== *)
theory JpegParams
  imports JpegGeometry
begin

text \<open>
  The compressor's parameters: \<open>jpeg-9a/jcparam.c\<close> (quantisation tables, quality, standard Huffman
  tables, colour spaces, progressive scripts), the object calls of \<open>jcapimin.c\<close> that work on them, and
  the checking and shortening of scan scripts in \<open>jcmaster.c\<close>.
\<close>

section \<open>The object\<close>

datatype compress_state = CSTATE_START | CSTATE_SCANNING | CSTATE_RAW_OK | CSTATE_WRCOEFS

text \<open>Numbers of the states, as \<open>jpegint.h\<close> gives them.\<close>

primrec state_code :: "compress_state \<Rightarrow> nat" where
  "state_code CSTATE_START = 100"
| "state_code CSTATE_SCANNING = 101"
| "state_code CSTATE_RAW_OK = 102"
| "state_code CSTATE_WRCOEFS = 103"

record scan_info =
  scan_components :: "nat list"
  scan_Ss :: nat
  scan_Se :: nat
  scan_Ah :: nat
  scan_Al :: nat

record c_params =
  p_frame :: c_frame
  c_global_state :: compress_state
  next_scanline :: nat
  in_color_space :: color_space
  input_components :: nat
  q_scale_factor :: "int list"
  script :: "scan_info list option"
  raw_data_in :: bool
  optimize_coding :: bool
  c_CCIR601_sampling :: bool
  smoothing_factor :: nat
  c_dct_method :: IdctManager.dct_method

definition p_obj :: "c_params \<Rightarrow> compress" where "p_obj p = c_obj (p_frame p)"

definition set_obj :: "compress \<Rightarrow> c_params \<Rightarrow> c_params" where
  "set_obj c p = p\<lparr>p_frame := (p_frame p)\<lparr>c_obj := c\<rparr>\<rparr>"

lemma p_obj_simps [simp]: "p_obj (set_obj c p) = c" "set_obj c (set_obj c' p) = set_obj c p"
  "c_global_state (set_obj c p) = c_global_state p" "in_color_space (set_obj c p) = in_color_space p"
  "input_components (set_obj c p) = input_components p" "script (set_obj c p) = script p"
  by (simp_all add: p_obj_def set_obj_def)

definition need_start :: "c_params \<Rightarrow> 'a result \<Rightarrow> 'a result" where
  "need_start p r = (if c_global_state p \<noteq> CSTATE_START then Inl (JERR_BAD_STATE (state_code (c_global_state p))) else r)"

section \<open>Quantisation tables\<close>

definition std_luminance_quant_tbl :: "nat list" where
  "std_luminance_quant_tbl =
    [16, 11, 10, 16, 24, 40, 51, 61,
     12, 12, 14, 19, 26, 58, 60, 55,
     14, 13, 16, 24, 40, 57, 69, 56,
     14, 17, 22, 29, 51, 87, 80, 62,
     18, 22, 37, 56, 68, 109, 103, 77,
     24, 35, 55, 64, 81, 104, 113, 92,
     49, 64, 78, 87, 103, 121, 120, 101,
     72, 92, 95, 98, 112, 100, 103, 99]"

definition std_chrominance_quant_tbl :: "nat list" where
  "std_chrominance_quant_tbl =
    [17, 18, 24, 47, 99, 99, 99, 99,
     18, 21, 26, 66, 99, 99, 99, 99,
     24, 26, 56, 99, 99, 99, 99, 99,
     47, 66, 99, 99, 99, 99, 99, 99,
     99, 99, 99, 99, 99, 99, 99, 99,
     99, 99, 99, 99, 99, 99, 99, 99,
     99, 99, 99, 99, 99, 99, 99, 99,
     99, 99, 99, 99, 99, 99, 99, 99]"

definition scaled_quantval :: "int \<Rightarrow> bool \<Rightarrow> nat \<Rightarrow> nat" where
  "scaled_quantval scale_factor force_baseline basic =
     (let temp = cdiv (s32 (s32 (int basic * scale_factor) + 50)) 100;
          temp1 = (if temp \<le> 0 then 1 else temp);
          temp2 = (if 32767 < temp1 then 32767 else temp1);
          temp3 = (if force_baseline \<and> 255 < temp2 then 255 else temp2)
      in nat temp3)"

definition jpeg_add_quant_table :: "nat \<Rightarrow> nat list \<Rightarrow> int \<Rightarrow> bool \<Rightarrow> c_params \<Rightarrow> c_params result" where
  "jpeg_add_quant_table which basic_table scale_factor force_baseline p =
     need_start p
       (if NUM_QUANT_TBLS \<le> which then Inl (JERR_DQT_INDEX which)
        else Inr (set_obj ((p_obj p)\<lparr>quant_tbl_ptrs := (quant_tbl_ptrs (p_obj p))[which :=
               Some \<lparr>quantval = map (scaled_quantval scale_factor force_baseline) basic_table, q_sent_table = False\<rparr>]\<rparr>) p))"

definition jpeg_set_linear_quality :: "int \<Rightarrow> bool \<Rightarrow> c_params \<Rightarrow> c_params result" where
  "jpeg_set_linear_quality scale_factor force_baseline p =
     bind_err (jpeg_add_quant_table 0 std_luminance_quant_tbl scale_factor force_baseline p)
       (jpeg_add_quant_table 1 std_chrominance_quant_tbl scale_factor force_baseline)"

definition jpeg_default_qtables :: "bool \<Rightarrow> c_params \<Rightarrow> c_params result" where
  "jpeg_default_qtables force_baseline p =
     bind_err (jpeg_add_quant_table 0 std_luminance_quant_tbl (q_scale_factor p ! 0) force_baseline p)
       (\<lambda>p1. jpeg_add_quant_table 1 std_chrominance_quant_tbl (q_scale_factor p1 ! 1) force_baseline p1)"

definition jpeg_quality_scaling :: "int \<Rightarrow> int" where
  "jpeg_quality_scaling quality =
     (let q = (if quality \<le> 0 then 1 else quality); q1 = (if 100 < q then 100 else q)
      in if q1 < 50 then cdiv 5000 q1 else 200 - q1 * 2)"

definition jpeg_set_quality :: "int \<Rightarrow> bool \<Rightarrow> c_params \<Rightarrow> c_params result" where
  "jpeg_set_quality quality = jpeg_set_linear_quality (jpeg_quality_scaling quality)"

section \<open>Huffman tables\<close>

definition bits_dc_luminance :: "nat list" where
  "bits_dc_luminance =
    [0, 0, 1, 5, 1, 1, 1, 1, 1, 1, 0, 0, 0, 0, 0, 0,
     0]"

definition val_dc_luminance :: "nat list" where
  "val_dc_luminance =
    [0, 1, 2, 3, 4, 5, 6, 7, 8, 9, 10, 11]"

definition bits_dc_chrominance :: "nat list" where
  "bits_dc_chrominance =
    [0, 0, 3, 1, 1, 1, 1, 1, 1, 1, 1, 1, 0, 0, 0, 0,
     0]"

definition val_dc_chrominance :: "nat list" where
  "val_dc_chrominance =
    [0, 1, 2, 3, 4, 5, 6, 7, 8, 9, 10, 11]"

definition bits_ac_luminance :: "nat list" where
  "bits_ac_luminance =
    [0, 0, 2, 1, 3, 3, 2, 4, 3, 5, 5, 4, 4, 0, 0, 1,
     125]"

definition val_ac_luminance :: "nat list" where
  "val_ac_luminance =
    [1, 2, 3, 0, 4, 17, 5, 18, 33, 49, 65, 6, 19, 81, 97, 7,
     34, 113, 20, 50, 129, 145, 161, 8, 35, 66, 177, 193, 21, 82, 209, 240,
     36, 51, 98, 114, 130, 9, 10, 22, 23, 24, 25, 26, 37, 38, 39, 40,
     41, 42, 52, 53, 54, 55, 56, 57, 58, 67, 68, 69, 70, 71, 72, 73,
     74, 83, 84, 85, 86, 87, 88, 89, 90, 99, 100, 101, 102, 103, 104, 105,
     106, 115, 116, 117, 118, 119, 120, 121, 122, 131, 132, 133, 134, 135, 136, 137,
     138, 146, 147, 148, 149, 150, 151, 152, 153, 154, 162, 163, 164, 165, 166, 167,
     168, 169, 170, 178, 179, 180, 181, 182, 183, 184, 185, 186, 194, 195, 196, 197,
     198, 199, 200, 201, 202, 210, 211, 212, 213, 214, 215, 216, 217, 218, 225, 226,
     227, 228, 229, 230, 231, 232, 233, 234, 241, 242, 243, 244, 245, 246, 247, 248,
     249, 250]"

definition bits_ac_chrominance :: "nat list" where
  "bits_ac_chrominance =
    [0, 0, 2, 1, 2, 4, 4, 3, 4, 7, 5, 4, 4, 0, 1, 2,
     119]"

definition val_ac_chrominance :: "nat list" where
  "val_ac_chrominance =
    [0, 1, 2, 3, 17, 4, 5, 33, 49, 6, 18, 65, 81, 7, 97, 113,
     19, 34, 50, 129, 8, 20, 66, 145, 161, 177, 193, 9, 35, 51, 82, 240,
     21, 98, 114, 209, 10, 22, 36, 52, 225, 37, 241, 23, 24, 25, 26, 38,
     39, 40, 41, 42, 53, 54, 55, 56, 57, 58, 67, 68, 69, 70, 71, 72,
     73, 74, 83, 84, 85, 86, 87, 88, 89, 90, 99, 100, 101, 102, 103, 104,
     105, 106, 115, 116, 117, 118, 119, 120, 121, 122, 130, 131, 132, 133, 134, 135,
     136, 137, 138, 146, 147, 148, 149, 150, 151, 152, 153, 154, 162, 163, 164, 165,
     166, 167, 168, 169, 170, 178, 179, 180, 181, 182, 183, 184, 185, 186, 194, 195,
     196, 197, 198, 199, 200, 201, 202, 210, 211, 212, 213, 214, 215, 216, 217, 218,
     226, 227, 228, 229, 230, 231, 232, 233, 234, 242, 243, 244, 245, 246, 247, 248,
     249, 250]"

text \<open>The entries of a new table behind its symbols, which the library leaves as it finds them, are 0.\<close>

definition add_huff_table :: "huff_tbl option \<Rightarrow> nat list \<Rightarrow> nat list \<Rightarrow> huff_tbl result" where
  "add_huff_table tbl bs val =
     (let nsymbols = sum_list (map (\<lambda>len. bs ! len) [1..<17]);
          old = (case tbl of None \<Rightarrow> replicate 256 0 | Some t \<Rightarrow> huffval t)
      in if nsymbols < 1 \<or> 256 < nsymbols then Inl JERR_BAD_HUFF_TABLE
         else Inr \<lparr>bits = bs, huffval = take nsymbols val @ drop nsymbols old, h_sent_table = False\<rparr>)"

definition set_dc_huff :: "nat \<Rightarrow> nat list \<Rightarrow> nat list \<Rightarrow> compress \<Rightarrow> compress result" where
  "set_dc_huff n bs val c =
     bind_err (add_huff_table (dc_huff_tbl_ptrs c ! n) bs val)
       (\<lambda>t. Inr (c\<lparr>dc_huff_tbl_ptrs := (dc_huff_tbl_ptrs c)[n := Some t]\<rparr>))"

definition set_ac_huff :: "nat \<Rightarrow> nat list \<Rightarrow> nat list \<Rightarrow> compress \<Rightarrow> compress result" where
  "set_ac_huff n bs val c =
     bind_err (add_huff_table (ac_huff_tbl_ptrs c ! n) bs val)
       (\<lambda>t. Inr (c\<lparr>ac_huff_tbl_ptrs := (ac_huff_tbl_ptrs c)[n := Some t]\<rparr>))"

definition std_huff_tables :: "compress \<Rightarrow> compress result" where
  "std_huff_tables c =
     bind_err (set_dc_huff 0 bits_dc_luminance val_dc_luminance c) (\<lambda>c.
     bind_err (set_ac_huff 0 bits_ac_luminance val_ac_luminance c) (\<lambda>c.
     bind_err (set_dc_huff 1 bits_dc_chrominance val_dc_chrominance c) (\<lambda>c.
       set_ac_huff 1 bits_ac_chrominance val_ac_chrominance c)))"

section \<open>Colour spaces\<close>

text \<open>\<open>SET_COMP\<close>; \<open>component_index\<close> is set later.\<close>

definition SET_COMP :: "nat \<Rightarrow> nat \<Rightarrow> nat \<Rightarrow> nat \<Rightarrow> nat \<Rightarrow> nat \<Rightarrow> nat \<Rightarrow> component" where
  "SET_COMP index cid hsamp vsamp quant dctbl actbl =
     \<lparr>component_id = cid, component_index = index, h_samp_factor = hsamp, v_samp_factor = vsamp, quant_tbl_no = quant,
      dc_tbl_no = dctbl, ac_tbl_no = actbl\<rparr>"

definition jpeg_set_colorspace :: "color_space \<Rightarrow> c_params \<Rightarrow> c_params result" where
  "jpeg_set_colorspace colorspace p =
     need_start p
      (let c = (p_obj p)\<lparr>jpeg_color_space := colorspace, write_JFIF_header := False, write_Adobe_marker := False\<rparr>;
           sg = (if color_transform c = JCT_SUBTRACT_GREEN then 1 else 0)
       in case colorspace of
            JCS_UNKNOWN \<Rightarrow>
              if input_components p < 1 \<or> MAX_COMPONENTS < input_components p
              then Inl (JERR_COMPONENT_COUNT (input_components p) MAX_COMPONENTS)
              else Inr (set_obj (c\<lparr>comp_info := map (\<lambda>ci. SET_COMP ci ci 1 1 0 0 0) [0..<input_components p]\<rparr>) p)
          | JCS_GRAYSCALE \<Rightarrow>
              Inr (set_obj (c\<lparr>write_JFIF_header := True, comp_info := [SET_COMP 0 0x01 1 1 0 0 0]\<rparr>) p)
          | JCS_RGB \<Rightarrow>
              Inr (set_obj (c\<lparr>write_Adobe_marker := True,
                comp_info := [SET_COMP 0 0x52 1 1 0 sg sg, SET_COMP 1 0x47 1 1 0 0 0, SET_COMP 2 0x42 1 1 0 sg sg]\<rparr>) p)
          | JCS_YCbCr \<Rightarrow>
              Inr (set_obj (c\<lparr>write_JFIF_header := True,
                comp_info := [SET_COMP 0 0x01 2 2 0 0 0, SET_COMP 1 0x02 1 1 1 1 1, SET_COMP 2 0x03 1 1 1 1 1]\<rparr>) p)
          | JCS_CMYK \<Rightarrow>
              Inr (set_obj (c\<lparr>write_Adobe_marker := True,
                comp_info := [SET_COMP 0 0x43 1 1 0 0 0, SET_COMP 1 0x4D 1 1 0 0 0, SET_COMP 2 0x59 1 1 0 0 0, SET_COMP 3 0x4B 1 1 0 0 0]\<rparr>) p)
          | JCS_YCCK \<Rightarrow>
              Inr (set_obj (c\<lparr>write_Adobe_marker := True,
                comp_info := [SET_COMP 0 0x01 2 2 0 0 0, SET_COMP 1 0x02 1 1 1 1 1, SET_COMP 2 0x03 1 1 1 1 1, SET_COMP 3 0x04 2 2 0 0 0]\<rparr>) p)
          | JCS_BG_RGB \<Rightarrow>
              Inr (set_obj (c\<lparr>write_JFIF_header := True, JFIF_major_version := 2,
                comp_info := [SET_COMP 0 0x72 1 1 0 sg sg, SET_COMP 1 0x67 1 1 0 0 0, SET_COMP 2 0x62 1 1 0 sg sg]\<rparr>) p)
          | JCS_BG_YCC \<Rightarrow>
              Inr (set_obj (c\<lparr>write_JFIF_header := True, JFIF_major_version := 2,
                comp_info := [SET_COMP 0 0x01 2 2 0 0 0, SET_COMP 1 0x22 1 1 1 1 1, SET_COMP 2 0x23 1 1 1 1 1]\<rparr>) p))"

definition jpeg_default_colorspace :: "c_params \<Rightarrow> c_params result" where
  "jpeg_default_colorspace p =
     jpeg_set_colorspace (if in_color_space p = JCS_RGB then JCS_YCbCr else in_color_space p) p"

definition jpeg_set_defaults :: "c_params \<Rightarrow> c_params result" where
  "jpeg_set_defaults p =
     need_start p
      (let p1 = p\<lparr>p_frame := (p_frame p)\<lparr>c_scale_num := 1, c_scale_denom := 1, c_obj := (p_obj p)\<lparr>data_precision := 8\<rparr>\<rparr>\<rparr>
       in bind_err (jpeg_set_quality 75 True p1) (\<lambda>p2.
          bind_err (std_huff_tables (p_obj p2)) (\<lambda>c.
          let c1 = c\<lparr>arith_dc_L := replicate NUM_ARITH_TBLS 0, arith_dc_U := replicate NUM_ARITH_TBLS 1,
                     arith_ac_K := replicate NUM_ARITH_TBLS 5, arith_code := (8 < data_precision c), restart_interval := 0,
                     JFIF_major_version := 1, JFIF_minor_version := 1, density_unit := 0, X_density := 1, Y_density := 1,
                     color_transform := JCT_NONE\<rparr>;
              p3 = (set_obj c1 p2)\<lparr>script := None, raw_data_in := False, optimize_coding := False, c_CCIR601_sampling := False,
                     smoothing_factor := 0, c_dct_method := JDCT_ISLOW\<rparr>
          in jpeg_default_colorspace (p3\<lparr>p_frame := (p_frame p3)\<lparr>c_fancy_downsampling := True, c_restart_in_rows := 0\<rparr>\<rparr>))))"

section \<open>Progressive scripts\<close>

definition fill_a_scan :: "nat \<Rightarrow> nat \<Rightarrow> nat \<Rightarrow> nat \<Rightarrow> nat \<Rightarrow> scan_info list" where
  "fill_a_scan ci ss se ah al = [\<lparr>scan_components = [ci], scan_Ss = ss, scan_Se = se, scan_Ah = ah, scan_Al = al\<rparr>]"

definition fill_scans :: "nat \<Rightarrow> nat \<Rightarrow> nat \<Rightarrow> nat \<Rightarrow> nat \<Rightarrow> scan_info list" where
  "fill_scans ncomps ss se ah al =
     map (\<lambda>ci. \<lparr>scan_components = [ci], scan_Ss = ss, scan_Se = se, scan_Ah = ah, scan_Al = al\<rparr>) [0..<ncomps]"

definition fill_dc_scans :: "nat \<Rightarrow> nat \<Rightarrow> nat \<Rightarrow> scan_info list" where
  "fill_dc_scans ncomps ah al =
     (if ncomps \<le> MAX_COMPS_IN_SCAN
      then [\<lparr>scan_components = [0..<ncomps], scan_Ss = 0, scan_Se = 0, scan_Ah = ah, scan_Al = al\<rparr>]
      else fill_scans ncomps 0 0 ah al)"

definition simple_script :: "nat \<Rightarrow> color_space \<Rightarrow> scan_info list" where
  "simple_script ncomps space =
     (if ncomps = 3 \<and> (space = JCS_YCbCr \<or> space = JCS_BG_YCC)
      then fill_dc_scans ncomps 0 1 @ fill_a_scan 0 1 5 0 2 @ fill_a_scan 2 1 63 0 1 @ fill_a_scan 1 1 63 0 1 @
           fill_a_scan 0 6 63 0 2 @ fill_a_scan 0 1 63 2 1 @ fill_dc_scans ncomps 1 0 @
           fill_a_scan 2 1 63 1 0 @ fill_a_scan 1 1 63 1 0 @ fill_a_scan 0 1 63 1 0
      else fill_dc_scans ncomps 0 1 @ fill_scans ncomps 1 5 0 2 @ fill_scans ncomps 6 63 0 2 @
           fill_scans ncomps 1 63 2 1 @ fill_dc_scans ncomps 1 0 @ fill_scans ncomps 1 63 1 0)"

text \<open>The number of scans the routine announces and makes room for.\<close>

definition simple_nscans :: "nat \<Rightarrow> color_space \<Rightarrow> nat" where
  "simple_nscans ncomps space =
     (if ncomps = 3 \<and> (space = JCS_YCbCr \<or> space = JCS_BG_YCC) then 10
      else if MAX_COMPS_IN_SCAN < ncomps then 6 * ncomps else 2 + 4 * ncomps)"

definition jpeg_simple_progression :: "c_params \<Rightarrow> c_params result" where
  "jpeg_simple_progression p =
     need_start p
      (let ncomps = length (comp_info (p_obj p)); space = jpeg_color_space (p_obj p) in
       if length (simple_script ncomps space) \<noteq> simple_nscans ncomps space then Inl FAULT
       else Inr (p\<lparr>script := Some (simple_script ncomps space)\<rparr>))"

section \<open>Checking a script\<close>

definition MAX_AH_AL :: nat where "MAX_AH_AL = 10"

text \<open>\<open>last_bitpos\<close>: \<open>None\<close> until a coefficient has been seen, then the last \<open>Al\<close> for it.\<close>

type_synonym bitpos = "nat \<Rightarrow> nat \<Rightarrow> nat option"

fun check_components :: "nat \<Rightarrow> nat \<Rightarrow> nat option \<Rightarrow> nat list \<Rightarrow> unit result" where
  "check_components scanno ncomps prev [] = Inr ()"
| "check_components scanno ncomps prev (thisi # is) =
     (if ncomps \<le> thisi then Inl (JERR_BAD_SCAN_SCRIPT scanno)
      else if (case prev of None \<Rightarrow> False | Some i \<Rightarrow> thisi \<le> i) then Inl (JERR_BAD_SCAN_SCRIPT scanno)
      else check_components scanno ncomps (Some thisi) is)"

fun check_coefs :: "nat \<Rightarrow> nat \<Rightarrow> nat \<Rightarrow> nat list \<Rightarrow> (nat \<Rightarrow> nat option) \<Rightarrow> (nat \<Rightarrow> nat option) result" where
  "check_coefs scanno ah al [] b = Inr b"
| "check_coefs scanno ah al (k # ks) b =
     (if (case b k of None \<Rightarrow> ah \<noteq> 0 | Some old \<Rightarrow> ah \<noteq> old \<or> int al \<noteq> int ah - 1)
      then Inl (JERR_BAD_PROG_SCRIPT scanno)
      else check_coefs scanno ah al ks (b(k := Some al)))"

fun check_progression :: "nat \<Rightarrow> scan_info \<Rightarrow> nat list \<Rightarrow> bitpos \<Rightarrow> bitpos result" where
  "check_progression scanno s [] b = Inr b"
| "check_progression scanno s (ci # is) b =
     (if scan_Ss s \<noteq> 0 \<and> b ci 0 = None then Inl (JERR_BAD_PROG_SCRIPT scanno)
      else bind_err (check_coefs scanno (scan_Ah s) (scan_Al s) [scan_Ss s..<Suc (scan_Se s)] (b ci)) (\<lambda>bc.
           check_progression scanno s is (b(ci := bc))))"

fun check_sent :: "nat \<Rightarrow> nat list \<Rightarrow> (nat \<Rightarrow> bool) \<Rightarrow> (nat \<Rightarrow> bool) result" where
  "check_sent scanno [] seen = Inr seen"
| "check_sent scanno (ci # is) seen =
     (if seen ci then Inl (JERR_BAD_SCAN_SCRIPT scanno) else check_sent scanno is (seen(ci := True)))"

definition check_scan :: "bool \<Rightarrow> nat \<Rightarrow> nat \<Rightarrow> scan_info \<Rightarrow> bitpos \<times> (nat \<Rightarrow> bool) \<Rightarrow> (bitpos \<times> (nat \<Rightarrow> bool)) result" where
  "check_scan progressive num_comps scanno s st =
     (let (b, seen) = st; ncomps = length (scan_components s);
          ss = scan_Ss s; se = scan_Se s; ah = scan_Ah s; al = scan_Al s in
      if ncomps = 0 \<or> MAX_COMPS_IN_SCAN < ncomps then Inl (JERR_COMPONENT_COUNT ncomps MAX_COMPS_IN_SCAN)
      else bind_err (check_components scanno num_comps None (scan_components s)) (\<lambda>_.
        if progressive
        then (if DCTSIZE2 \<le> ss \<or> se < ss \<or> DCTSIZE2 \<le> se \<or> MAX_AH_AL < ah \<or> MAX_AH_AL < al then Inl (JERR_BAD_PROG_SCRIPT scanno)
              else if ss = 0 \<and> se \<noteq> 0 then Inl (JERR_BAD_PROG_SCRIPT scanno)
              else if ss \<noteq> 0 \<and> ncomps \<noteq> 1 then Inl (JERR_BAD_PROG_SCRIPT scanno)
              else bind_err (check_progression scanno s (scan_components s) b) (\<lambda>b'. Inr (b', seen)))
        else if ss \<noteq> 0 \<or> se \<noteq> DCTSIZE2 - 1 \<or> ah \<noteq> 0 \<or> al \<noteq> 0 then Inl (JERR_BAD_PROG_SCRIPT scanno)
        else bind_err (check_sent scanno (scan_components s) seen) (\<lambda>seen'. Inr (b, seen'))))"

fun check_scans :: "bool \<Rightarrow> nat \<Rightarrow> nat \<Rightarrow> scan_info list \<Rightarrow> bitpos \<times> (nat \<Rightarrow> bool) \<Rightarrow> (bitpos \<times> (nat \<Rightarrow> bool)) result" where
  "check_scans progressive num_comps scanno [] st = Inr st"
| "check_scans progressive num_comps scanno (s # ss) st =
     bind_err (check_scan progressive num_comps scanno s st) (check_scans progressive num_comps (Suc scanno) ss)"

text \<open>Whether the script is progressive, and the bit positions it ends with.\<close>

definition validate_script :: "nat \<Rightarrow> scan_info list \<Rightarrow> (bool \<times> bitpos) result" where
  "validate_script num_comps scans =
     (if scans = [] then Inl (JERR_BAD_SCAN_SCRIPT 0)
      else (let progressive = (scan_Ss (hd scans) \<noteq> 0 \<or> scan_Se (hd scans) \<noteq> DCTSIZE2 - 1)
            in bind_err (check_scans progressive num_comps 1 scans ((\<lambda>_ _. None), (\<lambda>_. False))) (\<lambda>(b, seen).
               if progressive
               then (if list_ex (\<lambda>ci. b ci 0 = None) [0..<num_comps] then Inl JERR_MISSING_DATA else Inr (True, b))
               else (if list_ex (\<lambda>ci. \<not> seen ci) [0..<num_comps] then Inl JERR_MISSING_DATA else Inr (False, b)))))"

fun reduce_script :: "nat \<Rightarrow> scan_info list \<Rightarrow> scan_info list" where
  "reduce_script limSe [] = []"
| "reduce_script limSe (s # ss) =
     (if limSe < scan_Ss s then reduce_script limSe ss
      else (if limSe < scan_Se s then s\<lparr>scan_Se := limSe\<rparr> else s) # reduce_script limSe ss)"

section \<open>Further calls of the object\<close>

definition suppress :: "bool \<Rightarrow> huff_tbl option \<Rightarrow> huff_tbl option" where
  "suppress b = map_option (\<lambda>t. t\<lparr>h_sent_table := b\<rparr>)"

definition jpeg_suppress_tables :: "bool \<Rightarrow> compress \<Rightarrow> compress" where
  "jpeg_suppress_tables b c =
     c\<lparr>quant_tbl_ptrs := map (map_option (\<lambda>t. t\<lparr>q_sent_table := b\<rparr>)) (quant_tbl_ptrs c),
       dc_huff_tbl_ptrs := map (suppress b) (dc_huff_tbl_ptrs c), ac_huff_tbl_ptrs := map (suppress b) (ac_huff_tbl_ptrs c)\<rparr>"

definition marker_allowed :: "c_params \<Rightarrow> bool" where
  "marker_allowed p \<longleftrightarrow> next_scanline p = 0 \<and> c_global_state p \<in> {CSTATE_SCANNING, CSTATE_RAW_OK, CSTATE_WRCOEFS}"

definition jpeg_write_m_header :: "jpeg_marker \<Rightarrow> nat \<Rightarrow> c_params \<Rightarrow> c_params result" where
  "jpeg_write_m_header mark datalen p =
     (if \<not> marker_allowed p then Inl (JERR_BAD_STATE (state_code (c_global_state p)))
      else bind_err (write_marker_header mark datalen (p_obj p)) (\<lambda>c. Inr (set_obj c p)))"

definition jpeg_write_m_byte :: "nat \<Rightarrow> c_params \<Rightarrow> c_params" where
  "jpeg_write_m_byte val p = set_obj (write_marker_byte val (p_obj p)) p"

definition jpeg_write_marker :: "jpeg_marker \<Rightarrow> nat list \<Rightarrow> c_params \<Rightarrow> c_params result" where
  "jpeg_write_marker mark xs p =
     bind_err (jpeg_write_m_header mark (length xs) p) (\<lambda>p1. Inr (fold jpeg_write_m_byte xs p1))"

section \<open>What an accepted script sends\<close>

definition sends :: "scan_info \<Rightarrow> nat \<Rightarrow> nat \<Rightarrow> bool" where
  "sends s ci k \<longleftrightarrow> ci \<in> set (scan_components s) \<and> scan_Ss s \<le> k \<and> k \<le> scan_Se s"

text \<open>The successive approximations of one coefficient, in the order of the scans.\<close>

definition coef_scans :: "scan_info list \<Rightarrow> nat \<Rightarrow> nat \<Rightarrow> (nat \<times> nat) list" where
  "coef_scans scans ci k = map (\<lambda>s. (scan_Ah s, scan_Al s)) (filter (\<lambda>s. sends s ci k) scans)"

lemma coef_scans_simps [simp]:
  "coef_scans [] ci k = []"
  "coef_scans (s # ss) ci k = (if sends s ci k then [(scan_Ah s, scan_Al s)] else []) @ coef_scans ss ci k"
  by (simp_all add: coef_scans_def)

text \<open>Every scan takes up where the one before stopped and adds one bit.\<close>

fun successive :: "nat option \<Rightarrow> (nat \<times> nat) list \<Rightarrow> nat option \<Rightarrow> bool" where
  "successive old [] new \<longleftrightarrow> old = new"
| "successive old ((ah, al) # ps) new \<longleftrightarrow>
     (case old of None \<Rightarrow> ah = 0 | Some l \<Rightarrow> ah = l \<and> Suc al = ah) \<and> successive (Some al) ps new"

lemma check_components_Inr:
  "check_components scanno n prev is = Inr u \<Longrightarrow> sorted_wrt (<) is \<and> (\<forall>i\<in>set is. i < n) \<and>
     (case prev of None \<Rightarrow> True | Some j \<Rightarrow> \<forall>i\<in>set is. j < i)"
  by (induction scanno n prev "is" rule: check_components.induct) (force split: if_splits option.splits)+

lemma check_coefs_Inr:
  assumes "check_coefs scanno ah al ks b = Inr b'" "distinct ks"
  shows "(\<forall>k\<in>set ks. (case b k of None \<Rightarrow> ah = 0 | Some l \<Rightarrow> ah = l \<and> Suc al = ah) \<and> b' k = Some al) \<and>
    (\<forall>k. k \<notin> set ks \<longrightarrow> b' k = b k)"
  using assms
proof (induction scanno ah al ks b rule: check_coefs.induct)
  case (2 scanno ah al k ks b)
  have ok: "case b k of None \<Rightarrow> ah = 0 | Some l \<Rightarrow> ah = l \<and> Suc al = ah"
    and r: "check_coefs scanno ah al ks (b(k := Some al)) = Inr b'"
    using 2(2) by (auto split: if_splits option.splits)
  then show ?case using 2(1) [OF _ r] 2(2,3) by (auto split: if_splits)
qed simp

lemma check_coefs_ok:
  assumes "\<forall>k\<in>set ks. (case b k of None \<Rightarrow> ah = 0 | Some l \<Rightarrow> ah = l \<and> Suc al = ah)" "distinct ks"
  shows "check_coefs scanno ah al ks b = Inr (\<lambda>k. if k \<in> set ks then Some al else b k)"
  using assms
proof (induction scanno ah al ks b rule: check_coefs.induct)
  case (2 scanno ah al k ks b)
  have now: "\<not> (case b k of None \<Rightarrow> ah \<noteq> 0 | Some old \<Rightarrow> ah \<noteq> old \<or> int al \<noteq> int ah - 1)"
    using 2(2) by (auto split: option.splits)
  have later: "\<forall>x\<in>set ks. (case (b(k := Some al)) x of None \<Rightarrow> ah = 0 | Some l \<Rightarrow> ah = l \<and> Suc al = ah)"
    using 2(2,3) by auto
  have "check_coefs scanno ah al ks (b(k := Some al)) = Inr (\<lambda>x. if x \<in> set ks then Some al else (b(k := Some al)) x)"
    by (rule 2(1) [OF now later]) (use 2(3) in simp)
  then show ?case unfolding check_coefs.simps if_not_P [OF now] by (auto simp: fun_eq_iff)
qed simp

lemma check_progression_Inr:
  assumes "check_progression scanno s is b = Inr b'" "distinct is"
  shows "(\<forall>ci\<in>set is. \<forall>k. (if scan_Ss s \<le> k \<and> k \<le> scan_Se s
        then (case b ci k of None \<Rightarrow> scan_Ah s = 0 | Some l \<Rightarrow> scan_Ah s = l \<and> Suc (scan_Al s) = scan_Ah s) \<and> b' ci k = Some (scan_Al s)
        else b' ci k = b ci k)) \<and> (\<forall>ci. ci \<notin> set is \<longrightarrow> b' ci = b ci)"
  using assms
proof (induction scanno s "is" b rule: check_progression.induct)
  case (2 scanno s ci "is" b)
  obtain bc where bc: "check_coefs scanno (scan_Ah s) (scan_Al s) [scan_Ss s..<Suc (scan_Se s)] (b ci) = Inr bc"
    and r: "check_progression scanno s is (b(ci := bc)) = Inr b'" and ok: "\<not> (scan_Ss s \<noteq> 0 \<and> b ci 0 = None)"
    using 2(2) by (auto simp: bind_err_Inr split: if_splits)
  note C = check_coefs_Inr [OF bc]
  note IH = 2(1) [OF ok r]
  show ?case using C IH 2(3) by (auto split: if_splits simp del: upt_Suc)
qed simp

lemma check_progression_ok:
  assumes "\<forall>ci\<in>set is. (scan_Ss s \<noteq> 0 \<longrightarrow> b ci 0 \<noteq> None) \<and> (\<forall>k. scan_Ss s \<le> k \<longrightarrow> k \<le> scan_Se s \<longrightarrow>
      (case b ci k of None \<Rightarrow> scan_Ah s = 0 | Some l \<Rightarrow> scan_Ah s = l \<and> Suc (scan_Al s) = scan_Ah s))" "distinct is"
  shows "check_progression scanno s is b =
    Inr (\<lambda>ci k. if ci \<in> set is \<and> scan_Ss s \<le> k \<and> k \<le> scan_Se s then Some (scan_Al s) else b ci k)"
  using assms
proof (induction scanno s "is" b rule: check_progression.induct)
  case (2 scanno s ci "is" b)
  let ?bc = "\<lambda>k. if k \<in> set [scan_Ss s..<Suc (scan_Se s)] then Some (scan_Al s) else b ci k"
  have c: "check_coefs scanno (scan_Ah s) (scan_Al s) [scan_Ss s..<Suc (scan_Se s)] (b ci) = Inr ?bc"
    by (rule check_coefs_ok) (use 2(2) in \<open>auto simp del: upt_Suc\<close>)
  have "check_progression scanno s is (b(ci := ?bc)) =
      Inr (\<lambda>c k. if c \<in> set is \<and> scan_Ss s \<le> k \<and> k \<le> scan_Se s then Some (scan_Al s) else (b(ci := ?bc)) c k)"
    by (rule 2(1)) (use 2(2,3) in auto)
  then show ?case
    unfolding check_progression.simps c bind_err_simps using 2(2) by (auto simp del: upt_Suc simp: fun_eq_iff)
qed simp

lemma check_sent_Inr:
  assumes "check_sent scanno is seen = Inr seen'" "distinct is"
  shows "(\<forall>ci\<in>set is. \<not> seen ci) \<and> seen' = (\<lambda>ci. seen ci \<or> ci \<in> set is)"
  using assms
proof (induction scanno "is" seen rule: check_sent.induct)
  case (2 scanno ci "is" seen)
  have now: "\<not> seen ci" "check_sent scanno is (seen(ci := True)) = Inr seen'" using 2(2) by (simp_all split: if_split_asm)
  have "distinct is" "ci \<notin> set is" using 2(3) by simp_all
  with 2(1) [OF now] have "\<forall>c\<in>set is. \<not> (seen(ci := True)) c" "seen' = (\<lambda>c. (seen(ci := True)) c \<or> c \<in> set is)" by blast+
  then show ?case using now(1) by (auto simp: fun_eq_iff split: if_splits)
qed auto

lemma check_scan_Inr:
  assumes "check_scan progressive n scanno s (b, seen) = Inr (b', seen')"
  shows "set (scan_components s) \<subseteq> {..<n}" "distinct (scan_components s)" "1 \<le> length (scan_components s)" "length (scan_components s) \<le> 4"
    "progressive \<Longrightarrow> scan_Ss s \<le> scan_Se s \<and> scan_Se s < 64 \<and> (scan_Ss s = 0 \<longrightarrow> scan_Se s = 0) \<and>
       (scan_Ss s \<noteq> 0 \<longrightarrow> length (scan_components s) = 1)"
    "progressive \<Longrightarrow> successive (b ci k) (coef_scans [s] ci k) (b' ci k)"
    "\<not> progressive \<Longrightarrow> scan_Ss s = 0 \<and> scan_Se s = 63 \<and> scan_Ah s = 0 \<and> scan_Al s = 0 \<and>
       (\<forall>ci\<in>set (scan_components s). \<not> seen ci) \<and> seen' = (\<lambda>ci. seen ci \<or> ci \<in> set (scan_components s))"
proof -
  have n: "1 \<le> length (scan_components s)" "length (scan_components s) \<le> 4"
    and c: "check_components scanno n None (scan_components s) = Inr ()"
    using assms by (auto simp: check_scan_def Let_def bind_err_Inr MAX_COMPS_IN_SCAN_def Suc_le_eq split: if_split_asm)
  have sw: "sorted_wrt (<) (scan_components s)" "\<forall>i\<in>set (scan_components s). i < n" using check_components_Inr [OF c] by auto
  show "set (scan_components s) \<subseteq> {..<n}" "1 \<le> length (scan_components s)" "length (scan_components s) \<le> 4" using sw(2) n by auto
  show d: "distinct (scan_components s)" using strict_sorted_iff sw(1) by blast
  show "progressive \<Longrightarrow> scan_Ss s \<le> scan_Se s \<and> scan_Se s < 64 \<and> (scan_Ss s = 0 \<longrightarrow> scan_Se s = 0) \<and>
       (scan_Ss s \<noteq> 0 \<longrightarrow> length (scan_components s) = 1)"
    using assms n by (auto simp: check_scan_def Let_def bind_err_Inr DCTSIZE2_def split: if_split_asm)
  show "progressive \<Longrightarrow> successive (b ci k) (coef_scans [s] ci k) (b' ci k)"
  proof -
    assume progressive
    then have "check_progression scanno s (scan_components s) b = Inr b'"
      using assms n c by (auto simp: check_scan_def Let_def bind_err_Inr MAX_COMPS_IN_SCAN_def split: if_split_asm)
    from check_progression_Inr [OF this d] show ?thesis
      by (cases "ci \<in> set (scan_components s)") (auto simp: sends_def)
  qed
  show "\<not> progressive \<Longrightarrow> scan_Ss s = 0 \<and> scan_Se s = 63 \<and> scan_Ah s = 0 \<and> scan_Al s = 0 \<and>
       (\<forall>ci\<in>set (scan_components s). \<not> seen ci) \<and> seen' = (\<lambda>ci. seen ci \<or> ci \<in> set (scan_components s))"
  proof -
    assume "\<not> progressive"
    then have "check_sent scanno (scan_components s) seen = Inr seen'" "scan_Ss s = 0" "scan_Se s = 63" "scan_Ah s = 0" "scan_Al s = 0"
      using assms n c by (auto simp: check_scan_def Let_def bind_err_Inr MAX_COMPS_IN_SCAN_def DCTSIZE2_def split: if_split_asm)
    then show ?thesis using check_sent_Inr [OF _ d] by blast
  qed
qed

lemma successive_append: "successive a ps b \<Longrightarrow> successive b qs c \<Longrightarrow> successive a (ps @ qs) c"
  by (induction a ps b rule: successive.induct) auto

lemma check_scans_progressive:
  assumes "check_scans True n scanno scans (b, seen) = Inr (b', seen')"
  shows "successive (b ci k) (coef_scans scans ci k) (b' ci k) \<and>
    (\<forall>s\<in>set scans. set (scan_components s) \<subseteq> {..<n} \<and> scan_Ss s \<le> scan_Se s \<and> scan_Se s < 64 \<and> (scan_Ss s = 0 \<longrightarrow> scan_Se s = 0) \<and>
       (scan_Ss s \<noteq> 0 \<longrightarrow> length (scan_components s) = 1))"
  using assms
proof (induction True n scanno scans "(b, seen)" arbitrary: b seen rule: check_scans.induct)
  case (2 n scanno s ss)
  obtain b1 seen1 where s: "check_scan True n scanno s (b, seen) = Inr (b1, seen1)"
    and r: "check_scans True n (Suc scanno) ss (b1, seen1) = Inr (b', seen')"
    using 2(2) by (auto simp: bind_err_Inr)
  note IH = 2(1) [OF r]
  note C = check_scan_Inr [OF s]
  have "successive (b ci k) (coef_scans [s] ci k @ coef_scans ss ci k) (b' ci k)"
    using successive_append C(6) IH by blast
  then show ?case using C(1) C(5) IH by simp
qed auto

lemma check_scans_sequential:
  assumes "check_scans False n scanno scans (b, seen) = Inr (b', seen')"
  shows "(seen ci \<longrightarrow> coef_scans scans ci k = []) \<and> (k < 64 \<longrightarrow> \<not> seen ci \<longrightarrow> seen' ci \<longrightarrow> coef_scans scans ci k = [(0, 0)]) \<and>
    (seen ci \<longrightarrow> seen' ci)"
  using assms
proof (induction False n scanno scans "(b, seen)" arbitrary: b seen rule: check_scans.induct)
  case (2 n scanno s ss)
  obtain b1 seen1 where s: "check_scan False n scanno s (b, seen) = Inr (b1, seen1)"
    and r: "check_scans False n (Suc scanno) ss (b1, seen1) = Inr (b', seen')"
    using 2(2) by (auto simp: bind_err_Inr)
  note IH = 2(1) [OF r]
  have C: "scan_Ss s = 0" "scan_Se s = 63" "scan_Ah s = 0" "scan_Al s = 0" "\<forall>ci\<in>set (scan_components s). \<not> seen ci"
    "seen1 = (\<lambda>ci. seen ci \<or> ci \<in> set (scan_components s))"
    using check_scan_Inr(7) [OF s] by simp_all
  show ?case using IH C by (auto simp: sends_def)
qed auto

lemma reduce_script_coefs: "coef_scans (reduce_script limit scans) ci k = (if k \<le> limit then coef_scans scans ci k else [])"
  by (induction limit scans rule: reduce_script.induct) (auto simp: sends_def)

lemma validate_script_progressive:
  assumes "validate_script n scans = Inr (True, b)"
  shows "successive None (coef_scans scans ci k) (b ci k)" "ci < n \<Longrightarrow> coef_scans scans ci 0 \<noteq> []"
proof -
  obtain seen where c: "check_scans True n 1 scans ((\<lambda>_ _. None), (\<lambda>_. False)) = Inr (b, seen)" and all: "\<forall>ci<n. b ci 0 \<noteq> None"
    using assms by (auto simp: validate_script_def Let_def bind_err_Inr list_ex_iff split: if_split_asm)
  show S: "successive None (coef_scans scans ci k) (b ci k)" for k using check_scans_progressive [OF c, of ci k] by simp
  show "ci < n \<Longrightarrow> coef_scans scans ci 0 \<noteq> []" using S [of 0] all by force
qed

lemma validate_script_sequential:
  assumes "validate_script n scans = Inr (False, b)" "ci < n" "k < 64"
  shows "coef_scans scans ci k = [(0, 0)]"
proof -
  obtain seen where c: "check_scans False n 1 scans ((\<lambda>_ _. None), (\<lambda>_. False)) = Inr (b, seen)" and all: "\<forall>ci<n. seen ci"
    using assms(1) by (auto simp: validate_script_def Let_def bind_err_Inr list_ex_iff split: if_split_asm)
  show ?thesis using check_scans_sequential [OF c, of ci k] assms(2,3) all by simp
qed

text \<open>
  A script \<open>validate_script\<close> accepts as progressive sends every coefficient bit by bit: its first scan
  has \<open>Ah = 0\<close>, each later one continues from the bit the one before stopped at and adds one bit, and
  some DC scan reaches every component.  A script it accepts as sequential sends every coefficient of
  every component in exactly one scan.  Reducing an accepted script to smaller blocks leaves the scans of
  the remaining coefficients as they are.
\<close>

theorem validated_script:
  assumes "validate_script n scans = Inr (progressive, b)"
  shows "(progressive \<longrightarrow> (\<forall>ci k. successive None (coef_scans scans ci k) (b ci k)) \<and> (\<forall>ci<n. coef_scans scans ci 0 \<noteq> [])) \<and>
    (\<not> progressive \<longrightarrow> (\<forall>ci<n. \<forall>k<64. coef_scans scans ci k = [(0, 0)])) \<and>
    (\<forall>ci k. coef_scans (reduce_script limit scans) ci k = (if k \<le> limit then coef_scans scans ci k else []))"
proof (cases progressive)
  case True
  then show ?thesis using validate_script_progressive [of n scans b] assms by (simp add: reduce_script_coefs)
next
  case False
  then show ?thesis using validate_script_sequential [of n scans b] assms by (simp add: reduce_script_coefs)
qed

section \<open>The recommended script\<close>

definition sends_level :: "nat set \<Rightarrow> nat \<Rightarrow> nat \<Rightarrow> nat \<Rightarrow> bitpos \<Rightarrow> bitpos" where
  "sends_level cs ss se al b = (\<lambda>ci k. if ci \<in> cs \<and> ss \<le> k \<and> k \<le> se then Some al else b ci k)"

lemma check_components_ok:
  "sorted_wrt (<) is \<Longrightarrow> \<forall>i\<in>set is. i < n \<Longrightarrow> (case prev of None \<Rightarrow> True | Some j \<Rightarrow> \<forall>i\<in>set is. j < i) \<Longrightarrow>
     check_components scanno n prev is = Inr ()"
  by (induction scanno n prev "is" rule: check_components.induct) (auto split: option.splits)

lemma check_scan_ok:
  assumes "1 \<le> length (scan_components s)" "length (scan_components s) \<le> 4" "sorted_wrt (<) (scan_components s)" "\<forall>i\<in>set (scan_components s). i < n"
    "scan_Ss s \<le> scan_Se s" "scan_Se s < 64" "scan_Ah s \<le> 10" "scan_Al s \<le> 10" "scan_Ss s = 0 \<longrightarrow> scan_Se s = 0"
    "scan_Ss s \<noteq> 0 \<longrightarrow> length (scan_components s) = 1"
    "\<forall>ci\<in>set (scan_components s). (scan_Ss s \<noteq> 0 \<longrightarrow> b ci 0 \<noteq> None) \<and> (\<forall>k. scan_Ss s \<le> k \<longrightarrow> k \<le> scan_Se s \<longrightarrow>
      (case b ci k of None \<Rightarrow> scan_Ah s = 0 | Some l \<Rightarrow> scan_Ah s = l \<and> Suc (scan_Al s) = scan_Ah s))"
  shows "check_scan True n scanno s (b, seen) =
    Inr (sends_level (set (scan_components s)) (scan_Ss s) (scan_Se s) (scan_Al s) b, seen)"
proof -
  have d: "distinct (scan_components s)" using assms(3) strict_sorted_iff by blast
  have c: "check_components scanno n None (scan_components s) = Inr ()" using assms(3,4) by (intro check_components_ok) simp_all
  have p: "check_progression scanno s (scan_components s) b =
      Inr (sends_level (set (scan_components s)) (scan_Ss s) (scan_Se s) (scan_Al s) b)"
    unfolding sends_level_def by (rule check_progression_ok [OF assms(11) d])
  show ?thesis
    using assms(1,2,5-10) by (auto simp: check_scan_def Let_def c p MAX_COMPS_IN_SCAN_def DCTSIZE2_def MAX_AH_AL_def)
qed

lemma check_scan_literal:
  assumes "1 \<le> length cs" "length cs \<le> 4" "sorted_wrt (<) cs" "\<forall>i\<in>set cs. i < n"
    "ss \<le> se" "se < 64" "ah \<le> 10" "al \<le> 10" "ss = 0 \<longrightarrow> se = 0" "ss \<noteq> 0 \<longrightarrow> length cs = 1"
    "\<And>ci. ci \<in> set cs \<Longrightarrow> ss \<noteq> 0 \<Longrightarrow> b ci 0 \<noteq> None"
    "\<And>ci k. ci \<in> set cs \<Longrightarrow> ss \<le> k \<Longrightarrow> k \<le> se \<Longrightarrow> (case b ci k of None \<Rightarrow> ah = 0 | Some l \<Rightarrow> ah = l \<and> Suc al = ah)"
  shows "check_scan True n scanno \<lparr>scan_components = cs, scan_Ss = ss, scan_Se = se, scan_Ah = ah, scan_Al = al\<rparr> (b, seen) =
    Inr (sends_level (set cs) ss se al b, seen)"
  using check_scan_ok [of "\<lparr>scan_components = cs, scan_Ss = ss, scan_Se = se, scan_Ah = ah, scan_Al = al\<rparr>", unfolded scan_info.select_convs] assms
  by blast

lemma check_scans_append:
  "check_scans pm n scanno (xs @ ys) st = bind_err (check_scans pm n scanno xs st) (check_scans pm n (scanno + length xs) ys)"
proof (induction pm n scanno xs st rule: check_scans.induct)
  case (2 pm n scanno s ss st)
  then show ?case by (cases "check_scan pm n scanno s st") simp_all
qed simp

lemma check_fill_a_scan:
  assumes "ci < n" "1 \<le> ss" "ss \<le> se" "se < 64" "ah \<le> 10" "al \<le> 10" "b ci 0 \<noteq> None"
    "\<And>k. ss \<le> k \<Longrightarrow> k \<le> se \<Longrightarrow> (case b ci k of None \<Rightarrow> ah = 0 | Some l \<Rightarrow> ah = l \<and> Suc al = ah)"
  shows "check_scans True n scanno (fill_a_scan ci ss se ah al) (b, seen) = Inr (sends_level {ci} ss se al b, seen)"
  unfolding fill_a_scan_def check_scans.simps by (subst check_scan_literal) (use assms in auto)

lemma check_fill_scans:
  assumes "m \<le> n" "ss \<le> se" "se < 64" "ah \<le> 10" "al \<le> 10" "ss = 0 \<longrightarrow> se = 0"
    "\<And>ci. ci < m \<Longrightarrow> (ss \<noteq> 0 \<longrightarrow> b ci 0 \<noteq> None) \<and>
       (\<forall>k. ss \<le> k \<longrightarrow> k \<le> se \<longrightarrow> (case b ci k of None \<Rightarrow> ah = 0 | Some l \<Rightarrow> ah = l \<and> Suc al = ah))"
  shows "check_scans True n scanno (fill_scans m ss se ah al) (b, seen) = Inr (sends_level {..<m} ss se al b, seen)"
  using assms
proof (induction m)
  case (Suc m)
  have "check_scans True n scanno (fill_scans m ss se ah al) (b, seen) = Inr (sends_level {..<m} ss se al b, seen)"
    by (rule Suc.IH) (use Suc.prems in auto)
  moreover have "check_scan True n sno \<lparr>scan_components = [m], scan_Ss = ss, scan_Se = se, scan_Ah = ah, scan_Al = al\<rparr>
      (sends_level {..<m} ss se al b, seen) = Inr (sends_level {m} ss se al (sends_level {..<m} ss se al b), seen)" for sno
    by (subst check_scan_literal) (use Suc.prems(1-6) Suc.prems(7) [of m] in \<open>auto simp: sends_level_def\<close>)
  moreover have "sends_level {m} ss se al (sends_level {..<m} ss se al b) = sends_level {..<Suc m} ss se al b"
    by (auto simp: sends_level_def fun_eq_iff less_Suc_eq)
  ultimately show ?case by (simp add: fill_scans_def check_scans_append)
qed (simp add: fill_scans_def sends_level_def)

lemma check_fill_dc_scans:
  assumes "1 \<le> n" "ah \<le> 10" "al \<le> 10" "\<And>ci. ci < n \<Longrightarrow> (case b ci 0 of None \<Rightarrow> ah = 0 | Some l \<Rightarrow> ah = l \<and> Suc al = ah)"
  shows "check_scans True n scanno (fill_dc_scans n ah al) (b, seen) = Inr (sends_level {..<n} 0 0 al b, seen)"
proof (cases "n \<le> MAX_COMPS_IN_SCAN")
  case True
  have "check_scan True n scanno \<lparr>scan_components = [0..<n], scan_Ss = 0, scan_Se = 0, scan_Ah = ah, scan_Al = al\<rparr> (b, seen) =
      Inr (sends_level {..<n} 0 0 al b, seen)"
    by (subst check_scan_literal) (use assms True in \<open>auto simp: MAX_COMPS_IN_SCAN_def lessThan_atLeast0\<close>)
  then show ?thesis using True by (simp add: fill_dc_scans_def)
next
  case False
  then show ?thesis using assms by (simp add: fill_dc_scans_def check_fill_scans)
qed

lemma sends_level_eval [simp]:
  "sends_level cs ss se al b ci k = (if ci \<in> cs \<and> ss \<le> k \<and> k \<le> se then Some al else b ci k)"
  by (simp add: sends_level_def)

lemma all_purpose_script:
  assumes "1 \<le> n"
  shows "\<exists>b seen. check_scans True n 1 (fill_dc_scans n 0 1 @ fill_scans n 1 5 0 2 @ fill_scans n 6 63 0 2 @
      fill_scans n 1 63 2 1 @ fill_dc_scans n 1 0 @ fill_scans n 1 63 1 0) ((\<lambda>_ _. None), (\<lambda>_. False)) = Inr (b, seen) \<and>
    (\<forall>ci<n. \<forall>k<64. b ci k = Some 0)"
  using assms
  by (simp add: check_scans_append check_fill_dc_scans check_fill_scans del: One_nat_def)

lemma color_script:
  "\<exists>b seen. check_scans True 3 1 (fill_dc_scans 3 0 1 @ fill_a_scan 0 1 5 0 2 @ fill_a_scan 2 1 63 0 1 @ fill_a_scan 1 1 63 0 1 @
      fill_a_scan 0 6 63 0 2 @ fill_a_scan 0 1 63 2 1 @ fill_dc_scans 3 1 0 @
      fill_a_scan 2 1 63 1 0 @ fill_a_scan 1 1 63 1 0 @ fill_a_scan 0 1 63 1 0) ((\<lambda>_ _. None), (\<lambda>_. False)) = Inr (b, seen) \<and>
    (\<forall>ci<3. \<forall>k<64. b ci k = Some 0)"
  by (simp add: check_scans_append check_fill_dc_scans check_fill_a_scan del: One_nat_def)

text \<open>
  C14: The script \<open>jpeg_simple_progression\<close> makes, for any number of components and colour space, is
  progressive, is accepted by \<open>validate_script\<close>, sends every coefficient of every component down to its
  last bit, and has exactly as many scans as the routine made room for.
\<close>

theorem simple_progression_complete:
  assumes "c_global_state p = CSTATE_START" "1 \<le> length (comp_info (p_obj p))"
  shows "\<exists>p' scans b. jpeg_simple_progression p = Inr p' \<and> script p' = Some scans \<and>
    length scans = simple_nscans (length (comp_info (p_obj p))) (jpeg_color_space (p_obj p)) \<and>
    validate_script (length (comp_info (p_obj p))) scans = Inr (True, b) \<and>
    (\<forall>ci<length (comp_info (p_obj p)). \<forall>k<64. b ci k = Some 0)"
proof -
  define n space where "n = length (comp_info (p_obj p))" and "space = jpeg_color_space (p_obj p)"
  have n: "1 \<le> n" using assms(2) by (simp add: n_def)
  have len: "length (simple_script n space) = simple_nscans n space"
    by (auto simp: simple_script_def simple_nscans_def fill_dc_scans_def fill_scans_def fill_a_scan_def MAX_COMPS_IN_SCAN_def)
  obtain b seen where c: "check_scans True n 1 (simple_script n space) ((\<lambda>_ _. None), (\<lambda>_. False)) = Inr (b, seen)"
    and all: "\<forall>ci<n. \<forall>k<64. b ci k = Some 0"
    using all_purpose_script [OF n] color_script unfolding simple_script_def by (cases "n = 3 \<and> (space = JCS_YCbCr \<or> space = JCS_BG_YCC)") auto
  have "simple_script n space \<noteq> []" "scan_Se (hd (simple_script n space)) = 0"
    using n by (auto simp: simple_script_def fill_dc_scans_def fill_scans_def hd_append hd_map)
  then have "validate_script n (simple_script n space) = Inr (True, b)"
    using c all by (auto simp: validate_script_def DCTSIZE2_def list_ex_iff)
  moreover have "jpeg_simple_progression p = Inr (p\<lparr>script := Some (simple_script n space)\<rparr>)"
    using assms(1) len by (simp add: jpeg_simple_progression_def need_start_def n_def space_def)
  ultimately show ?thesis using len all by (auto simp: n_def space_def)
qed

section \<open>Quality\<close>

lemma jpeg_quality_scaling_range: "0 \<le> jpeg_quality_scaling q \<and> jpeg_quality_scaling q \<le> 5000"
proof -
  have "0 \<le> 5000 div k \<and> 5000 div k \<le> 5000" if "1 \<le> k" for k :: int
    using that zdiv_mono2 [of 5000 1 k] by (simp add: pos_imp_zdiv_nonneg_iff)
  then show ?thesis by (auto simp: jpeg_quality_scaling_def Let_def cdiv_nonneg)
qed

lemma jpeg_quality_scaling_mono:
  assumes "q \<le> q'"
  shows "jpeg_quality_scaling q' \<le> jpeg_quality_scaling q"
proof -
  define r r' where "r = min 100 (max 1 q)" and "r' = min 100 (max 1 q')"
  have r: "1 \<le> r" "r \<le> r'" "r' \<le> 100" using assms by (simp_all add: r_def r'_def)
  have e: "jpeg_quality_scaling q = (if r < 50 then 5000 div r else 200 - r * 2)"
    "jpeg_quality_scaling q' = (if r' < 50 then 5000 div r' else 200 - r' * 2)"
    by (auto simp: jpeg_quality_scaling_def Let_def cdiv_nonneg r_def r'_def min_def max_def)
  have "5000 div r' \<le> 5000 div r" using r by (intro zdiv_mono2) simp_all
  moreover have "100 \<le> 5000 div r" if "r < 50" using r(1) that zdiv_mono2 [of 5000 r 50] by simp
  ultimately show ?thesis using r by (auto simp: e)
qed

lemma scaled_quantval_baseline:
  assumes "0 \<le> sf" "sf \<le> 5000" "b \<le> 121"
  shows "scaled_quantval sf True b = nat (max 1 (min 255 ((int b * sf + 50) div 100)))"
proof -
  have "int b * sf \<le> 121 * 5000" using assms by (intro mult_mono) simp_all
  moreover have "0 \<le> int b * sf" using assms by simp
  ultimately have "in_s32 (int b * sf)" "in_s32 (int b * sf + 50)" "0 \<le> int b * sf + 50" by (simp_all add: in_s32_def)
  then show ?thesis by (auto simp: scaled_quantval_def Let_def s32_id cdiv_nonneg max_def min_def)
qed

lemma scaled_quantval_mono:
  assumes "0 \<le> sf" "sf \<le> sf'" "sf' \<le> 5000" "b \<le> 121"
  shows "scaled_quantval sf True b \<le> scaled_quantval sf' True b"
proof -
  have "(int b * sf + 50) div 100 \<le> (int b * sf' + 50) div 100" using assms by (intro zdiv_mono1) (simp_all add: mult_left_mono)
  then show ?thesis using assms by (simp add: scaled_quantval_baseline) (intro nat_mono max.mono min.mono order_refl)
qed

lemma std_tables_bound: "\<forall>b\<in>set std_luminance_quant_tbl \<union> set std_chrominance_quant_tbl. 1 \<le> b \<and> b \<le> 121"
  by (simp add: std_luminance_quant_tbl_def std_chrominance_quant_tbl_def)

lemma std_tables_length [simp]: "length std_luminance_quant_tbl = 64" "length std_chrominance_quant_tbl = 64"
  by (simp_all add: std_luminance_quant_tbl_def std_chrominance_quant_tbl_def)

definition quality_tables :: "int \<Rightarrow> nat list list" where
  "quality_tables quality = map (map (scaled_quantval (jpeg_quality_scaling quality) True)) [std_luminance_quant_tbl, std_chrominance_quant_tbl]"

text \<open>
  For any quality, \<open>jpeg_set_quality\<close> installs two baseline tables of 64 entries from 1 to 255 that
  the marker writer has still to send; a higher quality never makes an entry larger; quality 50 gives
  the standard tables themselves and quality 100 tables of ones, where every coefficient is kept.
\<close>

theorem quality_tables_valid:
  assumes "c_global_state p = CSTATE_START" "2 \<le> length (quant_tbl_ptrs (p_obj p))"
  shows "\<exists>p'. jpeg_set_quality quality True p = Inr p' \<and>
    (\<forall>i<2. quant_tbl_ptrs (p_obj p') ! i = Some \<lparr>quantval = quality_tables quality ! i, q_sent_table = False\<rparr> \<and>
       length (quality_tables quality ! i) = 64 \<and> (\<forall>x\<in>set (quality_tables quality ! i). 1 \<le> x \<and> x \<le> 255) \<and>
       (\<forall>q\<ge>quality. list_all2 (\<le>) (quality_tables q ! i) (quality_tables quality ! i)) \<and>
       quality_tables 50 ! i = [std_luminance_quant_tbl, std_chrominance_quant_tbl] ! i \<and>
       quality_tables 100 ! i = replicate 64 1)"
proof -
  note R = jpeg_quality_scaling_range
  obtain p' where p': "jpeg_set_quality quality True p = Inr p'"
    "quant_tbl_ptrs (p_obj p') = (quant_tbl_ptrs (p_obj p))
       [0 := Some \<lparr>quantval = quality_tables quality ! 0, q_sent_table = False\<rparr>, 1 := Some \<lparr>quantval = quality_tables quality ! 1, q_sent_table = False\<rparr>]"
    using assms(1) by (simp add: jpeg_set_quality_def jpeg_set_linear_quality_def jpeg_add_quant_table_def need_start_def
        NUM_QUANT_TBLS_def quality_tables_def)
  have entry: "1 \<le> scaled_quantval (jpeg_quality_scaling q) True b \<and> scaled_quantval (jpeg_quality_scaling q) True b \<le> 255"
    if "b \<le> 121" for q b
    using R [of q] that by (auto simp: scaled_quantval_baseline)
  have mono: "scaled_quantval (jpeg_quality_scaling q) True b \<le> scaled_quantval (jpeg_quality_scaling quality) True b"
    if "b \<le> 121" "quality \<le> q" for q b
    using scaled_quantval_mono R jpeg_quality_scaling_mono that by blast
  have fifty: "scaled_quantval (jpeg_quality_scaling 50) True b = b" "scaled_quantval (jpeg_quality_scaling 100) True b = 1"
    if "1 \<le> b" "b \<le> 121" for b
    using that by (simp_all add: jpeg_quality_scaling_def scaled_quantval_baseline)
  have "\<forall>i<2. length (quality_tables quality ! i) = 64 \<and> (\<forall>x\<in>set (quality_tables quality ! i). 1 \<le> x \<and> x \<le> 255) \<and>
      (\<forall>q\<ge>quality. list_all2 (\<le>) (quality_tables q ! i) (quality_tables quality ! i)) \<and>
      quality_tables 50 ! i = [std_luminance_quant_tbl, std_chrominance_quant_tbl] ! i \<and> quality_tables 100 ! i = replicate 64 1"
    using std_tables_bound entry mono fifty
    by (auto simp: quality_tables_def less_2_cases_iff list_all2_conv_all_nth map_idI intro!: replicate_eqI)
  moreover have "0 < length (quant_tbl_ptrs (p_obj p))" "Suc 0 < length (quant_tbl_ptrs (p_obj p))" using assms(2) by linarith+
  ultimately show ?thesis using p' by (auto simp: less_2_cases_iff)
qed

section \<open>Examples\<close>

definition demo_params :: c_params where
  "demo_params = \<lparr>p_frame = demo_c_frame, c_global_state = CSTATE_START, next_scanline = 0, in_color_space = JCS_RGB,
     input_components = 3, q_scale_factor = replicate 4 100, script = None, raw_data_in = False, optimize_coding = False,
     c_CCIR601_sampling = False, smoothing_factor = 0, c_dct_method = JDCT_ISLOW\<rparr>"

theorem simple_progression_complete_witness:
  "\<exists>p' scans b. jpeg_simple_progression demo_params = Inr p' \<and> script p' = Some scans \<and> length scans = 10 \<and> b 2 63 = Some 0"
proof -
  have "c_global_state demo_params = CSTATE_START" "length (comp_info (p_obj demo_params)) = 3" "jpeg_color_space (p_obj demo_params) = JCS_YCbCr"
    by (simp_all add: demo_params_def p_obj_def demo_c_frame_def demo_components_def blank_compress_def)
  then show ?thesis using simple_progression_complete [of demo_params] by (fastforce simp: simple_nscans_def)
qed

theorem quality_tables_valid_witness:
  "\<exists>p'. jpeg_set_quality 75 True demo_params = Inr p' \<and> (\<forall>x\<in>set (quality_tables 75 ! 0). 1 \<le> x \<and> x \<le> 255)"
proof -
  have "c_global_state demo_params = CSTATE_START" "2 \<le> length (quant_tbl_ptrs (p_obj demo_params))"
    by (simp_all add: demo_params_def p_obj_def demo_c_frame_def blank_compress_def)
  from quality_tables_valid [OF this, of 75]
  obtain p' where "jpeg_set_quality 75 True demo_params = Inr p'" and "\<forall>i<2. \<forall>x\<in>set (quality_tables 75 ! i). 1 \<le> x \<and> x \<le> 255"
    by blast
  then show ?thesis using pos2 by blast
qed

definition demo_script :: "scan_info list" where
  "demo_script = [\<lparr>scan_components = [0], scan_Ss = 0, scan_Se = 0, scan_Ah = 0, scan_Al = 1\<rparr>,
     \<lparr>scan_components = [0], scan_Ss = 1, scan_Se = 63, scan_Ah = 0, scan_Al = 0\<rparr>,
     \<lparr>scan_components = [0], scan_Ss = 0, scan_Se = 0, scan_Ah = 1, scan_Al = 0\<rparr>]"

theorem validated_script_witness:
  "\<exists>b. validate_script 1 demo_script = Inr (True, b) \<and> successive None (coef_scans demo_script 0 0) (b 0 0) \<and>
     coef_scans (reduce_script 3 demo_script) 0 4 = []"
proof -
  have "\<exists>b seen. check_scans True 1 1 (fill_dc_scans 1 0 1 @ fill_a_scan 0 1 63 0 0 @ fill_dc_scans 1 1 0) ((\<lambda>_ _. None), (\<lambda>_. False)) =
      Inr (b, seen) \<and> b 0 0 = Some 0"
    by (simp add: check_scans_append check_fill_dc_scans check_fill_a_scan del: One_nat_def)
  moreover have "fill_dc_scans 1 0 1 @ fill_a_scan 0 1 63 0 0 @ fill_dc_scans 1 1 0 = demo_script"
    by (simp add: demo_script_def fill_dc_scans_def fill_a_scan_def MAX_COMPS_IN_SCAN_def)
  ultimately have "\<exists>b seen. check_scans True 1 1 demo_script ((\<lambda>_ _. None), (\<lambda>_. False)) = Inr (b, seen) \<and> b 0 0 = Some 0" by metis
  moreover have "demo_script \<noteq> []" "scan_Se (hd demo_script) = 0" by (simp_all add: demo_script_def)
  ultimately obtain b where b: "validate_script 1 demo_script = Inr (True, b)"
    by (auto simp: validate_script_def DCTSIZE2_def list_ex_iff)
  show ?thesis using validated_script [OF b, of 3] b by auto
qed

end
