(* ===== verification/JpegPasses.thy ===== *)
theory JpegPasses
  imports JpegParams
begin

text \<open>
  The compressor's master control, \<open>jpeg-9a/jcmaster.c\<close>: the passes over the scans, with optional passes
  that gather statistics for optimal Huffman codes.  The calls of other modules are recorded in the
  order they are made; a scan header is recorded with the scan's parameters.
\<close>

section \<open>State\<close>

datatype c_pass_type = main_pass | huff_opt_pass | output_pass

datatype J_BUF_MODE = JBUF_PASS_THRU | JBUF_SAVE_AND_PASS | JBUF_CRANK_DEST

type_synonym scan_params = "nat list \<times> nat \<times> nat \<times> nat \<times> nat"

datatype c_call =
    Cconvert_start | Downsample_start | Prep_start J_BUF_MODE | Fdct_start
  | Entropy_start bool | Coef_start J_BUF_MODE | Main_start J_BUF_MODE
  | Write_frame_header | Write_scan_header scan_params | Entropy_finish

record c_control =
  k_params :: c_params
  pass_type :: c_pass_type
  pass_number :: nat
  total_passes :: nat
  scan_number :: nat
  is_last_pass :: bool
  call_pass_startup :: bool
  module_calls :: "c_call list"

definition calls :: "c_call list \<Rightarrow> c_control \<Rightarrow> c_control" where
  "calls xs k = k\<lparr>module_calls := module_calls k @ xs\<rparr>"

definition scan_params_of :: "c_control \<Rightarrow> scan_params" where
  "scan_params_of k = (let c = p_obj (k_params k) in (cur_comp_info c, Ss c, Se c, Ah c, Al c))"

section \<open>Scan parameters\<close>

definition select_scan_parameters :: "c_control \<Rightarrow> c_control result" where
  "select_scan_parameters k =
     (let p = k_params k; c = p_obj p; sequential = (\<lambda>c. c\<lparr>Ss := 0, Se := block_size c * block_size c - 1, Ah := 0, Al := 0\<rparr>)
      in case script p of
           Some scans \<Rightarrow>
             bind_err (table_at scans (scan_number k)) (\<lambda>s.
               let c1 = c\<lparr>cur_comp_info := scan_components s\<rparr>
               in Inr (k\<lparr>k_params := set_obj
                    (if progressive_mode c then c1\<lparr>Ss := scan_Ss s, Se := scan_Se s, Ah := scan_Ah s, Al := scan_Al s\<rparr>
                     else sequential c1) p\<rparr>))
         | None \<Rightarrow>
             if MAX_COMPS_IN_SCAN < length (comp_info c) then Inl (JERR_COMPONENT_COUNT (length (comp_info c)) MAX_COMPS_IN_SCAN)
             else Inr (k\<lparr>k_params := set_obj (sequential (c\<lparr>cur_comp_info := [0..<length (comp_info c)]\<rparr>)) p\<rparr>))"

definition setup_scan :: "c_control \<Rightarrow> c_control result" where
  "setup_scan k =
     bind_err (select_scan_parameters k) (\<lambda>k1.
     bind_err (per_scan_setup_c (p_frame (k_params k1))) (\<lambda>(layout, f).
       Inr (k1\<lparr>k_params := (k_params k1)\<lparr>p_frame := f\<rparr>\<rparr>)))"

section \<open>Passes\<close>

definition output_calls :: "c_control \<Rightarrow> c_call list" where
  "output_calls k = [Entropy_start False, Coef_start JBUF_CRANK_DEST] @
     (if scan_number k = 0 then [Write_frame_header] else []) @ [Write_scan_header (scan_params_of k)]"

definition prepare_output :: "c_control \<Rightarrow> c_control result" where
  "prepare_output k =
     bind_err (if \<not> optimize_coding (k_params k) then setup_scan k else Inr k) (\<lambda>k1.
       Inr ((calls (output_calls k1) k1)\<lparr>call_pass_startup := False\<rparr>))"

definition prepare_main :: "c_control \<Rightarrow> c_control result" where
  "prepare_main k =
     bind_err (setup_scan k) (\<lambda>k1.
       let p = k_params k1 in
       Inr ((calls ((if raw_data_in p then [] else [Cconvert_start, Downsample_start, Prep_start JBUF_PASS_THRU]) @
               [Fdct_start, Entropy_start (optimize_coding p),
                Coef_start (if 1 < total_passes k1 then JBUF_SAVE_AND_PASS else JBUF_PASS_THRU), Main_start JBUF_PASS_THRU]) k1)
             \<lparr>call_pass_startup := \<not> optimize_coding p\<rparr>))"

definition prepare_huff_opt :: "c_control \<Rightarrow> c_control result" where
  "prepare_huff_opt k =
     bind_err (setup_scan k) (\<lambda>k1.
       let c = p_obj (k_params k1) in
       if Ss c \<noteq> 0 \<or> Ah c = 0
       then Inr ((calls [Entropy_start True, Coef_start JBUF_CRANK_DEST] k1)\<lparr>call_pass_startup := False\<rparr>)
       else prepare_output (k1\<lparr>pass_type := output_pass, pass_number := pass_number k1 + 1\<rparr>))"

definition prepare_for_pass :: "c_control \<Rightarrow> c_control result" where
  "prepare_for_pass k =
     bind_err (case pass_type k of main_pass \<Rightarrow> prepare_main k | huff_opt_pass \<Rightarrow> prepare_huff_opt k | output_pass \<Rightarrow> prepare_output k)
       (\<lambda>k1. Inr (k1\<lparr>is_last_pass := (int (pass_number k1) = int (total_passes k1) - 1)\<rparr>))"

definition pass_startup :: "c_control \<Rightarrow> c_control" where
  "pass_startup k = calls [Write_frame_header, Write_scan_header (scan_params_of k)] (k\<lparr>call_pass_startup := False\<rparr>)"

definition finish_pass_master :: "c_control \<Rightarrow> c_control" where
  "finish_pass_master k =
     (let k1 = calls [Entropy_finish] k; opt = optimize_coding (k_params k);
          k2 = (case pass_type k of
                  main_pass \<Rightarrow> k1\<lparr>pass_type := output_pass, scan_number := (if opt then scan_number k else scan_number k + 1)\<rparr>
                | huff_opt_pass \<Rightarrow> k1\<lparr>pass_type := output_pass\<rparr>
                | output_pass \<Rightarrow> k1\<lparr>pass_type := (if opt then huff_opt_pass else output_pass), scan_number := scan_number k + 1\<rparr>)
      in k2\<lparr>pass_number := pass_number k + 1\<rparr>)"

definition num_scans :: "c_params \<Rightarrow> nat" where
  "num_scans p = (case script p of None \<Rightarrow> 1 | Some scans \<Rightarrow> length scans)"

definition decide_optimization :: "c_params \<Rightarrow> c_params" where
  "decide_optimization p =
     (let c = p_obj p in
      if optimize_coding p then set_obj (c\<lparr>arith_code := False\<rparr>) p
      else if \<not> arith_code c \<and> (progressive_mode c \<or> (1 < block_size c \<and> block_size c < DCTSIZE)) then p\<lparr>optimize_coding := True\<rparr>
      else p)"

definition use_script :: "c_params \<Rightarrow> c_params result" where
  "use_script p =
     (let c = p_obj p in
      case script p of
        None \<Rightarrow> Inr (set_obj (c\<lparr>progressive_mode := False\<rparr>) p)
      | Some scans \<Rightarrow> bind_err (validate_script (length (comp_info c)) scans) (\<lambda>(progressive, _).
          Inr (set_obj (c\<lparr>progressive_mode := progressive\<rparr>)
            (if block_size c < DCTSIZE then p\<lparr>script := Some (reduce_script (lim_Se c) scans)\<rparr> else p))))"

definition jinit_c_master_control :: "bool \<Rightarrow> c_params \<Rightarrow> c_control result" where
  "jinit_c_master_control transcode_only p =
     bind_err (initial_setup_c transcode_only (p_frame p)) (\<lambda>f.
     bind_err (use_script (p\<lparr>p_frame := f\<rparr>)) (\<lambda>p2.
       let p3 = decide_optimization p2; opt = optimize_coding p3 in
       Inr \<lparr>k_params = p3, pass_type = (if transcode_only then (if opt then huff_opt_pass else output_pass) else main_pass),
            pass_number = 0, total_passes = (if opt then num_scans p3 * 2 else num_scans p3), scan_number = 0,
            is_last_pass = False, call_pass_startup = False, module_calls = []\<rparr>))"

text \<open>
  The passes of a whole image: the main pass is driven by the application, whose first scan line calls
  \<open>pass_startup\<close> if it is due; the remaining ones are those of \<open>jpeg_finish_compress\<close> (\<open>jcapimin.c\<close>).
\<close>

partial_function (option) remaining_passes :: "c_control \<Rightarrow> c_control result option" where
  "remaining_passes k =
     (if is_last_pass k then Some (Inr k)
      else case prepare_for_pass k of Inl e \<Rightarrow> Some (Inl e) | Inr k1 \<Rightarrow> remaining_passes (finish_pass_master k1))"

definition first_pass :: "c_control \<Rightarrow> c_control result" where
  "first_pass k =
     bind_err (prepare_for_pass k) (\<lambda>k1. Inr (finish_pass_master (if call_pass_startup k1 then pass_startup k1 else k1)))"

definition all_passes :: "bool \<Rightarrow> c_params \<Rightarrow> c_control result option" where
  "all_passes transcode_only p =
     (case jinit_c_master_control transcode_only p of
        Inl e \<Rightarrow> Some (Inl e)
      | Inr k \<Rightarrow> if transcode_only then remaining_passes k
                 else (case first_pass k of Inl e \<Rightarrow> Some (Inl e) | Inr k1 \<Rightarrow> remaining_passes k1))"

section \<open>The intended sequence\<close>

text \<open>Parameters and calls of scan number \<open>n\<close>.\<close>

definition params_of_scan :: "c_params \<Rightarrow> nat \<Rightarrow> scan_params" where
  "params_of_scan p n =
     (let c = p_obj p; last_coef = block_size c * block_size c - 1 in
      case script p of None \<Rightarrow> ([0..<length (comp_info c)], 0, last_coef, 0, 0)
      | Some scans \<Rightarrow> let s = scans ! n in
          if progressive_mode c then (scan_components s, scan_Ss s, scan_Se s, scan_Ah s, scan_Al s)
          else (scan_components s, 0, last_coef, 0, 0))"

definition needs_codes :: "scan_params \<Rightarrow> bool" where
  "needs_codes = (\<lambda>(_, ss, se, ah, al). ss \<noteq> 0 \<or> ah = 0)"

definition main_calls :: "bool \<Rightarrow> c_params \<Rightarrow> nat \<Rightarrow> c_call list" where
  "main_calls opt p passes =
     (if raw_data_in p then [] else [Cconvert_start, Downsample_start, Prep_start JBUF_PASS_THRU]) @
     [Fdct_start, Entropy_start opt, Coef_start (if 1 < passes then JBUF_SAVE_AND_PASS else JBUF_PASS_THRU), Main_start JBUF_PASS_THRU]"

definition headers :: "c_params \<Rightarrow> nat \<Rightarrow> c_call list" where
  "headers p n = (if n = 0 then [Write_frame_header] else []) @ [Write_scan_header (params_of_scan p n)]"

definition write_calls :: "c_params \<Rightarrow> nat \<Rightarrow> c_call list" where
  "write_calls p n = [Entropy_start False, Coef_start JBUF_CRANK_DEST] @ headers p n @ [Entropy_finish]"

definition gather_calls :: "c_params \<Rightarrow> nat \<Rightarrow> c_call list" where
  "gather_calls p n = (if needs_codes (params_of_scan p n) then [Entropy_start True, Coef_start JBUF_CRANK_DEST, Entropy_finish] else [])"

definition scan_calls :: "bool \<Rightarrow> c_params \<Rightarrow> nat \<Rightarrow> nat \<Rightarrow> c_call list" where
  "scan_calls transcode_only p passes n =
     (if n = 0 \<and> \<not> transcode_only
      then (if optimize_coding p then main_calls True p passes @ [Entropy_finish] @ write_calls p 0
            else main_calls False p passes @ headers p 0 @ [Entropy_finish])
      else (if optimize_coding p then gather_calls p n else []) @ write_calls p n)"

section \<open>The passes follow the intended sequence\<close>

text \<open>What the passes leave unchanged.\<close>

definition fixed_params :: "c_params \<Rightarrow> component list \<times> nat \<times> bool \<times> scan_info list option \<times> bool \<times> bool" where
  "fixed_params p = (comp_info (p_obj p), block_size (p_obj p), progressive_mode (p_obj p), script p, raw_data_in p, optimize_coding p)"

lemma fixed_params_eqs:
  assumes "fixed_params p = fixed_params q"
  shows "params_of_scan p n = params_of_scan q n" "num_scans p = num_scans q" "optimize_coding p = optimize_coding q"
    "main_calls b p t = main_calls b q t" "headers p n = headers q n" "write_calls p n = write_calls q n" "gather_calls p n = gather_calls q n"
    "scan_calls tr p t n = scan_calls tr q t n"
proof -
  show a: "params_of_scan p n = params_of_scan q n" for n
    using assms by (auto simp: fixed_params_def params_of_scan_def Let_def split: option.split)
  show b: "num_scans p = num_scans q" "optimize_coding p = optimize_coding q" "main_calls b p t = main_calls b q t" for b t
    using assms by (simp_all add: fixed_params_def num_scans_def main_calls_def)
  show c: "headers p n = headers q n" "write_calls p n = write_calls q n" "gather_calls p n = gather_calls q n" for n
    by (simp_all add: headers_def write_calls_def gather_calls_def a)
  show "scan_calls tr p t n = scan_calls tr q t n" by (simp add: scan_calls_def b c)
qed

lemma calls_simps [simp]:
  "k_params (calls xs k) = k_params k" "pass_type (calls xs k) = pass_type k" "pass_number (calls xs k) = pass_number k"
  "total_passes (calls xs k) = total_passes k" "scan_number (calls xs k) = scan_number k" "is_last_pass (calls xs k) = is_last_pass k"
  "call_pass_startup (calls xs k) = call_pass_startup k" "module_calls (calls xs k) = module_calls k @ xs"
  by (simp_all add: calls_def)

lemma set_obj_fixed [simp]:
  "raw_data_in (set_obj c p) = raw_data_in p" "optimize_coding (set_obj c p) = optimize_coding p" "c_obj (p_frame (set_obj c p)) = c"
  by (simp_all add: set_obj_def)

lemma setup_scan_Inr:
  assumes "setup_scan k = Inr k1" "scan_number k < num_scans (k_params k)"
  shows "fixed_params (k_params k1) = fixed_params (k_params k) \<and> scan_params_of k1 = params_of_scan (k_params k) (scan_number k) \<and>
    k1 = k\<lparr>k_params := k_params k1\<rparr>"
proof -
  obtain k2 layout f where k2: "select_scan_parameters k = Inr k2" and f: "per_scan_setup_c (p_frame (k_params k2)) = Inr (layout, f)"
    and k1: "k1 = k2\<lparr>k_params := (k_params k2)\<lparr>p_frame := f\<rparr>\<rparr>"
    using assms(1) by (auto simp: setup_scan_def bind_err_Inr)
  have fo: "comp_info (c_obj f) = comp_info (p_obj (k_params k2))" "block_size (c_obj f) = block_size (p_obj (k_params k2))"
    "progressive_mode (c_obj f) = progressive_mode (p_obj (k_params k2))" "cur_comp_info (c_obj f) = cur_comp_info (p_obj (k_params k2))"
    "Ss (c_obj f) = Ss (p_obj (k_params k2))" "Se (c_obj f) = Se (p_obj (k_params k2))" "Ah (c_obj f) = Ah (p_obj (k_params k2))"
    "Al (c_obj f) = Al (p_obj (k_params k2))"
    using f by (auto simp: per_scan_setup_c_def bind_err_Inr p_obj_def split: if_splits)
  have sel: "fixed_params (k_params k2) = fixed_params (k_params k) \<and> scan_params_of k2 = params_of_scan (k_params k) (scan_number k) \<and>
      k2 = k\<lparr>k_params := k_params k2\<rparr>"
  proof (cases "script (k_params k)")
    case None
    then show ?thesis using k2
      by (auto simp: select_scan_parameters_def fixed_params_def scan_params_of_def params_of_scan_def Let_def split: if_split_asm)
  next
    case (Some scans)
    then have "scan_number k < length scans" using assms(2) by (simp add: num_scans_def)
    then show ?thesis using k2 Some
      by (auto simp: select_scan_parameters_def fixed_params_def scan_params_of_def params_of_scan_def Let_def)
  qed
  have "fixed_params (k_params k1) = fixed_params (k_params k2)" "scan_params_of k1 = scan_params_of k2"
    by (simp_all add: fixed_params_def scan_params_of_def k1 p_obj_def Let_def fo [unfolded p_obj_def])
  then show ?thesis using sel by (metis k1 c_control.surjective c_control.update_convs(1) c_control.select_convs(1))
qed

text \<open>Between two scans, and between the two passes of a scan.\<close>

definition at_scan :: "bool \<Rightarrow> c_params \<Rightarrow> nat \<Rightarrow> nat \<Rightarrow> c_control \<Rightarrow> bool" where
  "at_scan tr p tot n k \<longleftrightarrow> fixed_params (k_params k) = fixed_params p \<and> total_passes k = tot \<and>
     scan_number k = n \<and> pass_number k = (if optimize_coding p then 2 * n else n) \<and>
     pass_type k = (if optimize_coding p then huff_opt_pass else output_pass) \<and>
     is_last_pass k = (0 < n \<and> n = num_scans p) \<and> (0 < n \<or> tr) \<and>
     module_calls k = concat (map (scan_calls tr p tot) [0..<n])"

definition in_scan :: "bool \<Rightarrow> c_params \<Rightarrow> nat \<Rightarrow> nat \<Rightarrow> c_control \<Rightarrow> bool" where
  "in_scan tr p tot n k \<longleftrightarrow> fixed_params (k_params k) = fixed_params p \<and> total_passes k = tot \<and> optimize_coding p \<and>
     scan_number k = n \<and> pass_number k = 2 * n + 1 \<and> pass_type k = output_pass \<and> \<not> is_last_pass k \<and>
     scan_params_of k = params_of_scan p n \<and>
     (\<exists>front. module_calls k = concat (map (scan_calls tr p tot) [0..<n]) @ front \<and> scan_calls tr p tot n = front @ write_calls p n)"

lemma output_calls_eq:
  "scan_params_of k = params_of_scan p (scan_number k) \<Longrightarrow>
     output_calls k @ [Entropy_finish] = write_calls p (scan_number k)"
  by (simp add: output_calls_def write_calls_def headers_def)

lemma step_in_scan:
  assumes "in_scan tr p tot n k" "n < num_scans p" "tot = num_scans p * 2"
  shows "\<exists>k1. prepare_for_pass k = Inr k1 \<and> at_scan tr p tot (n + 1) (finish_pass_master k1)"
proof -
  have opt: "optimize_coding (k_params k)" "optimize_coding p"
    using assms(1) by (auto simp: in_scan_def fixed_params_def)
  obtain front where front: "module_calls k = concat (map (scan_calls tr p tot) [0..<n]) @ front"
    "scan_calls tr p tot n = front @ write_calls p n" using assms(1) by (auto simp: in_scan_def)
  have "output_calls k @ [Entropy_finish] = write_calls p n"
    using output_calls_eq [of k p] assms(1) by (simp add: in_scan_def)
  then show ?thesis
    using assms opt front
    by (auto simp: in_scan_def at_scan_def prepare_for_pass_def prepare_output_def finish_pass_master_def Let_def)
qed

lemma step_at_scan:
  assumes a: "at_scan tr p tot n k" and n: "n < num_scans p" and tot: "tot = (if optimize_coding p then num_scans p * 2 else num_scans p)"
  shows "(\<exists>e. prepare_for_pass k = Inl e) \<or>
    (\<exists>k1. prepare_for_pass k = Inr k1 \<and> (at_scan tr p tot (n + 1) (finish_pass_master k1) \<or> in_scan tr p tot n (finish_pass_master k1)))"
proof (cases "setup_scan k")
  case (Inl e)
  then show ?thesis using a
    by (auto simp: at_scan_def prepare_for_pass_def prepare_output_def prepare_huff_opt_def fixed_params_def)
next
  case (Inr k1)
  have fp: "fixed_params (k_params k) = fixed_params p" using a by (simp add: at_scan_def)
  note E = fixed_params_eqs [OF fp]
  have s: "fixed_params (k_params k1) = fixed_params p" "scan_params_of k1 = params_of_scan p n" "k1 = k\<lparr>k_params := k_params k1\<rparr>"
    using setup_scan_Inr [OF Inr] a n E(1,2) fp by (auto simp: at_scan_def)
  have opt: "optimize_coding (k_params k) = optimize_coding p" "optimize_coding (k_params k1) = optimize_coding p"
    using E(3) fixed_params_eqs(3) [OF s(1)] by simp_all
  have K1: "pass_type k1 = pass_type k" "pass_number k1 = pass_number k" "total_passes k1 = total_passes k" "scan_number k1 = n"
    "module_calls k1 = module_calls k"
    using s(3) a by (metis c_control.select_convs c_control.surjective c_control.update_convs(1) at_scan_def)+
  have out: "output_calls k1 @ [Entropy_finish] = write_calls p n" using output_calls_eq [of k1 p] s(2) K1(4) by simp
  have calls_n: "scan_calls tr p tot n = (if optimize_coding p then gather_calls p n else []) @ write_calls p n"
    using a by (auto simp: scan_calls_def at_scan_def)
  show ?thesis
  proof (cases "optimize_coding p")
    case False
    then show ?thesis
      using False a n tot Inr s(1) opt K1 out calls_n
      by (auto simp: at_scan_def prepare_for_pass_def prepare_output_def finish_pass_master_def Let_def)
  next
    case True
    have need: "needs_codes (params_of_scan p n) = (Ss (p_obj (k_params k1)) \<noteq> 0 \<or> Ah (p_obj (k_params k1)) = 0)"
      using s(2) by (auto simp: scan_params_of_def needs_codes_def Let_def split: prod.splits)
    show ?thesis
    proof (cases "needs_codes (params_of_scan p n)")
      case needs: True
      have "prepare_huff_opt k = Inr ((calls [Entropy_start True, Coef_start JBUF_CRANK_DEST] k1)\<lparr>call_pass_startup := False\<rparr>)"
        using needs need Inr by (simp add: prepare_huff_opt_def Let_def)
      moreover have "scan_params_of (finish_pass_master k') = scan_params_of k'" for k'
        by (simp add: finish_pass_master_def scan_params_of_def Let_def split: c_pass_type.split)
      ultimately show ?thesis
        using True a n tot s(1,2) opt K1 calls_n needs
        by (auto simp: at_scan_def in_scan_def prepare_for_pass_def finish_pass_master_def scan_params_of_def gather_calls_def Let_def)
    next
      case no: False
      have "prepare_huff_opt k = prepare_output (k1\<lparr>pass_type := output_pass, pass_number := pass_number k1 + 1\<rparr>)"
        using no need Inr by (simp add: prepare_huff_opt_def Let_def)
      moreover have "output_calls (k1\<lparr>pass_type := output_pass, pass_number := m\<rparr>) = output_calls k1" for m
        by (simp add: output_calls_def scan_params_of_def)
      ultimately show ?thesis
        using True a n tot s(1) opt K1 calls_n no out
        by (auto simp: at_scan_def prepare_for_pass_def prepare_output_def finish_pass_master_def gather_calls_def Let_def)
    qed
  qed
qed

text \<open>From any of the two kinds of states the loop comes to an end, with all scans done or with an error.\<close>

definition passes_done :: "bool \<Rightarrow> c_params \<Rightarrow> nat \<Rightarrow> c_control result \<Rightarrow> bool" where
  "passes_done tr p tot r \<longleftrightarrow> (case r of Inl e \<Rightarrow> True
     | Inr k \<Rightarrow> fixed_params (k_params k) = fixed_params p \<and> total_passes k = tot \<and> pass_number k = tot \<and>
         module_calls k = concat (map (scan_calls tr p tot) [0..<num_scans p]))"

lemma remaining_passes_return:
  assumes "at_scan tr p tot n k \<and> n \<le> num_scans p \<or> in_scan tr p tot n k \<and> n < num_scans p" "0 < num_scans p"
    and tot: "tot = (if optimize_coding p then num_scans p * 2 else num_scans p)"
  shows "\<exists>r. remaining_passes k = Some r \<and> passes_done tr p tot r"
  using assms(1)
proof (induction "2 * num_scans p + 1 - (2 * n + (if in_scan tr p tot n k then 1 else 0))" arbitrary: n k rule: less_induct)
  case less
  consider (finished) "at_scan tr p tot n k" "n = num_scans p" | (scan) "at_scan tr p tot n k" "n < num_scans p"
    | (middle) "in_scan tr p tot n k" "n < num_scans p" using less.prems by fastforce
  then show ?case
  proof cases
    case finished
    then have "remaining_passes k = Some (Inr k)" using assms(2) by (subst remaining_passes.simps) (simp add: at_scan_def)
    then show ?thesis using finished tot by (auto simp: passes_done_def at_scan_def)
  next
    case scan
    then have nl: "\<not> is_last_pass k" and ni: "\<not> in_scan tr p tot n k" by (auto simp: at_scan_def in_scan_def)
    from step_at_scan [OF scan tot] show ?thesis
    proof (elim disjE exE conjE)
      fix e assume "prepare_for_pass k = Inl e"
      then show ?thesis using nl by (subst remaining_passes.simps) (simp add: passes_done_def)
    next
      fix k1 assume k1: "prepare_for_pass k = Inr k1" and next_scan: "at_scan tr p tot (n + 1) (finish_pass_master k1)"
      have "\<exists>r. remaining_passes (finish_pass_master k1) = Some r \<and> passes_done tr p tot r"
        by (rule less.hyps [of "n + 1"]) (use next_scan scan ni in auto)
      then show ?thesis using k1 nl by (subst remaining_passes.simps) simp
    next
      fix k1 assume k1: "prepare_for_pass k = Inr k1" and mid: "in_scan tr p tot n (finish_pass_master k1)"
      have "\<exists>r. remaining_passes (finish_pass_master k1) = Some r \<and> passes_done tr p tot r"
        by (rule less.hyps [of n]) (use mid scan ni in auto)
      then show ?thesis using k1 nl by (subst remaining_passes.simps) simp
    qed
  next
    case middle
    then have nl: "\<not> is_last_pass k" and opt: "optimize_coding p" by (auto simp: in_scan_def)
    obtain k1 where k1: "prepare_for_pass k = Inr k1" and next_scan: "at_scan tr p tot (n + 1) (finish_pass_master k1)"
      using step_in_scan [OF middle] tot opt by auto
    have "\<exists>r. remaining_passes (finish_pass_master k1) = Some r \<and> passes_done tr p tot r"
      by (rule less.hyps [of "n + 1"]) (use next_scan middle in auto)
    then show ?thesis using k1 nl by (subst remaining_passes.simps) simp
  qed
qed

lemma first_pass_leads:
  assumes k: "fixed_params (k_params k) = fixed_params p" "total_passes k = tot" "scan_number k = 0" "pass_number k = 0"
    "pass_type k = main_pass" "module_calls k = []" "0 < num_scans p"
    and tot: "tot = (if optimize_coding p then num_scans p * 2 else num_scans p)" and r: "first_pass k = Inr k2"
  shows "at_scan False p tot 1 k2 \<or> in_scan False p tot 0 k2"
proof -
  obtain k1 where k1: "setup_scan k = Inr k1"
    using r k(5) by (auto simp: first_pass_def bind_err_Inr prepare_for_pass_def prepare_main_def)
  note E = fixed_params_eqs [OF k(1)]
  have s: "fixed_params (k_params k1) = fixed_params p" "scan_params_of k1 = params_of_scan p 0" "k1 = k\<lparr>k_params := k_params k1\<rparr>"
    using setup_scan_Inr [OF k1] k E(1,2) by auto
  note E1 = fixed_params_eqs [OF s(1)]
  have K1: "pass_type k1 = main_pass" "pass_number k1 = 0" "total_passes k1 = tot" "scan_number k1 = 0" "module_calls k1 = []"
    using s(3) k by (metis c_control.select_convs c_control.surjective c_control.update_convs(1))+
  have "prepare_main k = Inr ((calls (main_calls (optimize_coding (k_params k1)) (k_params k1) (total_passes k1)) k1)
      \<lparr>call_pass_startup := \<not> optimize_coding (k_params k1)\<rparr>)"
    by (simp add: prepare_main_def k1 main_calls_def Let_def)
  then have pm: "prepare_main k = Inr ((calls (main_calls (optimize_coding p) p tot) k1)\<lparr>call_pass_startup := \<not> optimize_coding p\<rparr>)"
    by (simp only: E1(3,4) K1)
  have r': "k2 = finish_pass_master (if call_pass_startup k1' then pass_startup k1' else k1')"
    if "k1' = (calls (main_calls (optimize_coding p) p tot) k1)\<lparr>call_pass_startup := \<not> optimize_coding p, is_last_pass := (int 0 = int tot - 1)\<rparr>" for k1'
    using r k(5) K1 that by (auto simp add: first_pass_def prepare_for_pass_def pm)
  show ?thesis
  proof (cases "optimize_coding p")
    case True
    then have "in_scan False p tot 0 k2"
      unfolding r' [OF refl] using s E1(3) K1 tot k(7)
      by (auto simp: in_scan_def finish_pass_master_def Let_def scan_calls_def scan_params_of_def)
    then show ?thesis by blast
  next
    case False
    then have "at_scan False p tot 1 k2"
      unfolding r' [OF refl] using s(1,2) E1(3) K1 tot k(7)
      by (auto simp: at_scan_def finish_pass_master_def pass_startup_def Let_def scan_calls_def headers_def scan_params_of_def)
    then show ?thesis by blast
  qed
qed

lemma initial_setup_c_components:
  assumes "initial_setup_c transcode_only f0 = Inr f"
  shows "comp_info (c_obj f) \<noteq> []"
proof -
  have "comp_info (c_obj c0) \<noteq> [] \<Longrightarrow> comp_info (c_obj (size_components_c h v c0)) \<noteq> []" for h v c0
    by (simp add: size_components_c_def Let_def enumerate_eq_zip)
  then show ?thesis
    using assms by (fastforce simp: initial_setup_c_def Let_def bind_err_Inr split: if_split_asm)
qed

lemma use_script_num_scans:
  assumes "use_script p = Inr p2" "comp_info (p_obj p) \<noteq> []"
  shows "0 < num_scans p2"
proof (cases "script p")
  case None
  then show ?thesis using assms(1) by (auto simp: use_script_def num_scans_def Let_def)
next
  case (Some scans)
  then obtain progressive b where v: "validate_script (length (comp_info (p_obj p))) scans = Inr (progressive, b)"
    and s: "script p2 = Some scans \<or> script p2 = Some (reduce_script (lim_Se (p_obj p)) scans)"
    using assms(1) by (auto simp: use_script_def Let_def bind_err_Inr)
  have "coef_scans scans 0 0 \<noteq> []"
    using validate_script_progressive(2) validate_script_sequential v assms(2) by (cases progressive) fastforce+
  then have "coef_scans scans 0 0 \<noteq> []" "coef_scans (reduce_script (lim_Se (p_obj p)) scans) 0 0 \<noteq> []"
    by (simp_all add: reduce_script_coefs)
  then have "scans \<noteq> []" "reduce_script (lim_Se (p_obj p)) scans \<noteq> []" by (auto simp: coef_scans_def)
  then show ?thesis using s by (auto simp: num_scans_def)
qed

lemma master_control_Inr:
  assumes "jinit_c_master_control transcode_only p = Inr k"
  shows "0 < num_scans (k_params k) \<and> scan_number k = 0 \<and> pass_number k = 0 \<and> module_calls k = [] \<and> \<not> is_last_pass k \<and>
    total_passes k = (if optimize_coding (k_params k) then num_scans (k_params k) * 2 else num_scans (k_params k)) \<and>
    pass_type k = (if transcode_only then (if optimize_coding (k_params k) then huff_opt_pass else output_pass) else main_pass)"
proof -
  obtain f p2 where f: "initial_setup_c transcode_only (p_frame p) = Inr f" and p2: "use_script (p\<lparr>p_frame := f\<rparr>) = Inr p2"
    and k: "k_params k = decide_optimization p2" "scan_number k = 0" "pass_number k = 0" "module_calls k = []" "\<not> is_last_pass k"
      "total_passes k = (if optimize_coding (k_params k) then num_scans (k_params k) * 2 else num_scans (k_params k))"
      "pass_type k = (if transcode_only then (if optimize_coding (k_params k) then huff_opt_pass else output_pass) else main_pass)"
    using assms by (auto simp: jinit_c_master_control_def bind_err_Inr Let_def)
  have "num_scans (decide_optimization p2) = num_scans p2"
    by (simp add: decide_optimization_def Let_def num_scans_def)
  moreover have "0 < num_scans p2"
    using use_script_num_scans [OF p2] initial_setup_c_components [OF f] by (simp add: p_obj_def)
  ultimately show ?thesis using k by simp
qed

text \<open>
  C12: The compressor always comes to the end of its passes, with an error or with every scan written: the
  modules are called in the intended order, the frame header once and before all scan headers, every
  scan header once, in the script's order and with the script's parameters, and, when codes are
  optimised, after a pass that gathered that scan's statistics, if it has any.
\<close>

theorem passes_in_order:
  "\<exists>r. all_passes transcode_only p = Some r \<and>
    (case r of Inl e \<Rightarrow> True
     | Inr k \<Rightarrow> pass_number k = total_passes k \<and>
         module_calls k = concat (map (scan_calls transcode_only (k_params k) (total_passes k)) [0..<num_scans (k_params k)]))"
proof (cases "jinit_c_master_control transcode_only p")
  case (Inl e)
  then show ?thesis by (simp add: all_passes_def)
next
  case (Inr k0)
  define q tot where "q = k_params k0" and "tot = total_passes k0"
  note M = master_control_Inr [OF Inr, folded q_def tot_def]
  have fin: "pass_number k = total_passes k \<and>
       module_calls k = concat (map (scan_calls transcode_only (k_params k) (total_passes k)) [0..<num_scans (k_params k)])"
    if "passes_done transcode_only q tot (Inr k)" for k
    using that fixed_params_eqs [of "k_params k" q] by (simp add: passes_done_def cong: map_cong)
  have start: "at_scan True q tot 0 k0" if transcode_only
    using M that by (simp add: at_scan_def q_def tot_def)
  have "\<exists>r. all_passes transcode_only p = Some r \<and> passes_done transcode_only q tot r"
  proof (cases transcode_only)
    case True
    then show ?thesis
      using remaining_passes_return [of True q tot 0 k0] start M Inr by (auto simp: all_passes_def)
  next
    case False
    show ?thesis
    proof (cases "first_pass k0")
      case (Inl e)
      then show ?thesis using False Inr by (simp add: all_passes_def passes_done_def)
    next
      case k1: (Inr k1)
      have "at_scan False q tot 1 k1 \<or> in_scan False q tot 0 k1"
        by (rule first_pass_leads [OF _ _ _ _ _ _ _ _ k1]) (use M False in \<open>simp_all add: q_def tot_def\<close>)
      then have "\<exists>r. remaining_passes k1 = Some r \<and> passes_done False q tot r"
        using remaining_passes_return [of False q tot 1 k1] remaining_passes_return [of False q tot 0 k1] M by (metis Suc_leI One_nat_def)
      then show ?thesis using False Inr k1 by (simp add: all_passes_def)
    qed
  qed
  then show ?thesis using fin by (auto split: sum.split)
qed

text \<open>A sequential picture with three components in one scan.\<close>

lemma demo_first_scan:
  assumes "c_comps f = c_comps demo_c1" "c_max_h_samp_factor f = 2" "c_max_v_samp_factor f = 2" "jpeg_width (c_obj f) = 100"
    "jpeg_height (c_obj f) = 50" "block_size (c_obj f) = 8" "cur_comp_info (c_obj f) = [0, 1, 2]" "c_restart_in_rows f = 0"
  shows "per_scan_setup_c f = Inr (demo_layout, f\<lparr>c_comps := c_comps demo_c2\<rparr>)"
proof -
  obtain comps where L: "layout_scan C_MAX_BLOCKS_IN_MCU (jpeg_width (c_obj demo_c1)) (jpeg_height (c_obj demo_c1)) (c_max_h_samp_factor demo_c1)
      (c_max_v_samp_factor demo_c1) (block_size (c_obj demo_c1)) (cur_comp_info (c_obj demo_c1)) (c_comps demo_c1) = Inr (demo_layout, comps)"
    and c2: "c_comps demo_c2 = comps"
    using demo_scan by (auto simp: per_scan_setup_c_def bind_err_Inr dest!: arg_cong [where f = c_comps])
  have "layout_scan C_MAX_BLOCKS_IN_MCU 100 50 2 2 8 [0, 1, 2] (c_comps demo_c1) = Inr (demo_layout, c_comps demo_c2)"
    using L [unfolded demo_c1_def size_components_c_def demo_c_frame_def] c2 
    by (simp add: Let_def demo_c1_def size_components_c_def demo_c_frame_def)
  then show ?thesis using assms by (simp add: per_scan_setup_c_def)
qed

lemma upto_3: "[0..<3] = [0, 1, 2]"
  by (simp add: upt_rec)

lemma demo_passes:
  "\<exists>k. all_passes False demo_params = Some (Inr k) \<and> total_passes k = 1 \<and> num_scans (k_params k) = 1 \<and> \<not> raw_data_in (k_params k) \<and>
     \<not> optimize_coding (k_params k) \<and> params_of_scan (k_params k) 0 = ([0, 1, 2], 0, 63, 0, 0)"
proof -
  define p1 where "p1 = set_obj ((c_obj demo_c1)\<lparr>progressive_mode := False\<rparr>) (demo_params\<lparr>p_frame := demo_c1\<rparr>)"
  have o1: "p_obj p1 = (c_obj demo_c1)\<lparr>progressive_mode := False\<rparr>" and f1: "p_frame p1 = demo_c1\<lparr>c_obj := p_obj p1\<rparr>"
    by (simp_all add: p1_def p_obj_def set_obj_def)
  have C: "block_size (c_obj demo_c1) = 8" "\<not> arith_code (c_obj demo_c1)" "length (comp_info (c_obj demo_c1)) = 3"
    "jpeg_width (c_obj demo_c1) = 100" "jpeg_height (c_obj demo_c1) = 50" "c_max_h_samp_factor demo_c1 = 2" "c_max_v_samp_factor demo_c1 = 2"
    "c_restart_in_rows demo_c1 = 0"
    by (simp_all add: demo_c1_def size_components_c_def demo_c_frame_def blank_compress_def demo_components_def Let_def)
  have P: "script p1 = None" "\<not> optimize_coding p1" "\<not> raw_data_in p1" "p_frame demo_params = demo_c_frame" "script demo_params = None"
    by (simp_all add: p1_def demo_params_def set_obj_def)
  have p1: "use_script (demo_params\<lparr>p_frame := demo_c1\<rparr>) = Inr p1"
    by (simp add: use_script_def p1_def P p_obj_def)
  define k0 where "k0 = \<lparr>k_params = p1, pass_type = main_pass, pass_number = 0, total_passes = 1, scan_number = 0,
      is_last_pass = False, call_pass_startup = False, module_calls = []\<rparr>"
  have j: "jinit_c_master_control False demo_params = Inr k0"
    by (simp add: jinit_c_master_control_def P demo_setup_c p1 decide_optimization_def o1 C num_scans_def k0_def DCTSIZE_def Let_def)
  define p2 where "p2 = set_obj ((p_obj p1)\<lparr>cur_comp_info := [0, 1, 2], Ss := 0, Se := 63, Ah := 0, Al := 0\<rparr>) p1"
  have "select_scan_parameters k0 = Inr (k0\<lparr>k_params := p2\<rparr>)"
    by (simp add: select_scan_parameters_def k0_def P p2_def o1 C MAX_COMPS_IN_SCAN_def Let_def upto_3)
  moreover have "per_scan_setup_c (p_frame p2) = Inr (demo_layout, (p_frame p2)\<lparr>c_comps := c_comps demo_c2\<rparr>)"
    by (rule demo_first_scan) (simp_all add: p2_def set_obj_def f1 o1 C)
  ultimately have s: "setup_scan k0 = Inr (k0\<lparr>k_params := p2\<lparr>p_frame := (p_frame p2)\<lparr>c_comps := c_comps demo_c2\<rparr>\<rparr>\<rparr>)"
    by (simp add: setup_scan_def)
  define k1 where "k1 = k0\<lparr>k_params := p2\<lparr>p_frame := (p_frame p2)\<lparr>c_comps := c_comps demo_c2\<rparr>\<rparr>\<rparr>"
  have K: "\<not> optimize_coding (k_params k1)" "\<not> raw_data_in (k_params k1)" "script (k_params k1) = None" "pass_type k1 = main_pass"
    "total_passes k1 = 1" "pass_number k1 = 0" "comp_info (p_obj (k_params k1)) = comp_info (c_obj demo_c1)" "block_size (p_obj (k_params k1)) = 8"
    using P C by (simp_all add: k1_def p2_def set_obj_def k0_def p_obj_def o1 [unfolded p_obj_def])
  define k1' where "k1' = (calls ([Cconvert_start, Downsample_start, Prep_start JBUF_PASS_THRU] @
      [Fdct_start, Entropy_start False, Coef_start JBUF_PASS_THRU, Main_start JBUF_PASS_THRU]) k1)\<lparr>call_pass_startup := True\<rparr>"
  have "prepare_main k0 = Inr k1'" by (simp add: prepare_main_def s [folded k1_def] K k1'_def Let_def)
  then have pp: "prepare_for_pass k0 = Inr (k1'\<lparr>is_last_pass := True\<rparr>)"
    by (simp add: prepare_for_pass_def k0_def k1'_def K)
  define k2 where "k2 = finish_pass_master (pass_startup (k1'\<lparr>is_last_pass := True\<rparr>))"
  have k2: "first_pass k0 = Inr k2" "is_last_pass k2" "total_passes k2 = 1" "k_params k2 = k_params k1"
    by (simp_all add: first_pass_def pp k1'_def k2_def finish_pass_master_def pass_startup_def K Let_def)
  have "remaining_passes k2 = Some (Inr k2)" using k2(2) by (subst remaining_passes.simps) simp
  then have "all_passes False demo_params = Some (Inr k2)" using k2(1) j by (simp add: all_passes_def)
  moreover have "num_scans (k_params k1) = 1" "params_of_scan (k_params k1) 0 = ([0, 1, 2], 0, 63, 0, 0)"
    using K C by (simp_all add: num_scans_def params_of_scan_def Let_def upto_3)
  ultimately show ?thesis using k2 K by auto
qed

theorem passes_in_order_witness:
  "\<exists>k. all_passes False demo_params = Some (Inr k) \<and> module_calls k =
     [Cconvert_start, Downsample_start, Prep_start JBUF_PASS_THRU, Fdct_start, Entropy_start False, Coef_start JBUF_PASS_THRU,
      Main_start JBUF_PASS_THRU, Write_frame_header, Write_scan_header ([0, 1, 2], 0, 63, 0, 0), Entropy_finish]"
proof -
  obtain k where k: "all_passes False demo_params = Some (Inr k)" "total_passes k = 1" "num_scans (k_params k) = 1"
    "\<not> raw_data_in (k_params k)" "\<not> optimize_coding (k_params k)" "params_of_scan (k_params k) 0 = ([0, 1, 2], 0, 63, 0, 0)"
    using demo_passes by blast
  then have "module_calls k = scan_calls False (k_params k) 1 0"
    using passes_in_order [of False demo_params] by simp
  then show ?thesis using k by (simp add: scan_calls_def main_calls_def headers_def)
qed

end
