(* ===== verification/Spec2Isabelle.thy ===== *)
theory Spec2Isabelle
  imports Framebuffer ClientProtocol ServerLoop BmpFile EchoServers JpegStreams JpegData JpegConverter Projector HuffStart ColorConv IdctManager FdctManager FdctRows TransformPictures JpegPasses
begin

text \<open>
  RaspberryProjector shows pictures that clients send over the network on the framebuffer of a
  Raspberry Pi.  The repository holds the server (\<open>server/Server.cpp\<close>), its first version
  (\<open>projector.cpp\<close>), small senders and test servers (\<open>server/client.cpp\<close>, \<open>server/unit/\<close>),
  framebuffer test programs and a bitmap copier (\<open>fb/\<close>), a JPEG-to-bitmap converter
  (\<open>server/JPEGConverter.cpp\<close>) and a copy of the IJG JPEG library, release 9a (\<open>jpeg-9a/\<close>), that
  the converter and the server's decoding rest on.

  \<^bold>\<open>How the parts interact.\<close>  A sender writes messages (length, type, payload) to a socket.
  \<open>Client::receive\<close> reassembles them; an image of the client with the focus is decoded and drawn
  to the framebuffer memory by \<open>Client::draw\<close>; a name is stored; a focus request is left in
  \<open>ready_fd\<close>.  The \<open>select\<close> loop of \<open>main\<close> accepts, reads and drops connections, the focus thread
  hands the focus over, the user-list thread tells the focused client who else is connected.  The
  JPEG library is layered: a data source feeds the marker reader, which fills the tables and
  starts the scans the Huffman decoder reads; the encoder mirrors this with the marker writer, the
  Huffman encoder and a data destination.

  \<^bold>\<open>Theories.\<close>
  \<^item> \<open>Prelude\<close>: bytes (\<^typ>\<open>8 word\<close>), C integers with their wrap-around (\<open>s32\<close>, \<open>u32\<close>), division
    that truncates, little- and big-endian fields, bounded stores and loads, counted loops.
  \<^item> \<open>Framebuffer\<close> (\<open>fb/draw_bitmap.c\<close>, \<open>fbtest*.c\<close>): the device with its mode records and mapped
    memory, pixel writers, the drawing loops, \<open>main\<close> of each program.  Locale \<open>pixel_writer\<close>.
  \<^item> \<open>ClientProtocol\<close> (\<open>Server.cpp\<close>, class \<open>Client\<close>): a record per connection with the class's
    fields; \<open>receive\<close> with its header and data branches.  The reference is the list of messages.
  \<^item> \<open>ServerLoop\<close> (\<open>Server.cpp\<close>, \<open>main\<close> and threads): client table, descriptor set and globals; an
    inductive step relation with events, focus passes and user-list passes; reachable states.
  \<^item> \<open>BmpFile\<close> (\<open>fb/rw_bitmap.c\<close>), \<open>EchoServers\<close> (\<open>server/unit/\<close>), \<open>Projector\<close> (\<open>projector.cpp\<close>,
    \<open>server/client.cpp\<close>), \<open>JpegConverter\<close> (\<open>server/JPEGConverter.cpp\<close>, with the JPEG library as
    a parameter: the size it reports and the rows it delivers).
  \<^item> \<open>JpegUtils\<close> (\<open>jutils.c\<close>), \<open>JpegState\<close> (shared types), \<open>JpegWriter\<close> (\<open>jcmarker.c\<close>),
    \<open>JpegReader\<close> (\<open>jdmarker.c\<close>), \<open>JpegMarkers\<close> and \<open>JpegStreams\<close> (their agreement),
    \<open>JpegData\<close> (\<open>jdatasrc.c\<close>, \<open>jdatadst.c\<close>; locales \<open>byte_source\<close> and \<open>byte_sink\<close>, each
    interpreted on the file and the memory manager).
  \<^item> \<open>HuffTables\<close> (code assignment and derived tables of \<open>jchuff.c\<close> and \<open>jdhuff.c\<close>), \<open>HuffReader\<close>
    (bit input and symbol decoding), \<open>HuffWriter\<close> (bit output, blocks, MCUs), \<open>HuffBlocks\<close>
    (the decoder of blocks and the code words both sides share), \<open>HuffScan\<close> (restart markers,
    sequences of MCUs), \<open>HuffStart\<close> (start of a pass and the round trip of a scan).
  \<^item> \<open>Samples\<close> (sample arrays, the range-limit table of \<open>jdmaster.c\<close>; locale \<open>cells\<close> of stores into
    arrays of samples), \<open>ColorConv\<close> (\<open>jccolor.c\<close>, \<open>jdcolor.c\<close>).
  \<^item> \<open>Cosines\<close> (fixed-point cosines and their accuracy), \<open>DctBase\<close> (macros of \<open>jdct.h\<close>, the two
    passes over a block; locale \<open>dct_pass\<close> of a rounded matrix product), \<open>DctKernels\<close> (the matrices
    and how near they are to the cosines), \<open>IdctAccuracy\<close> (both passes against the exact transform;
    locale \<open>idct_pair\<close>), \<open>IdctSmall\<close>, \<open>IdctLarge\<close>, \<open>IdctLarger\<close>, \<open>IdctWide\<close>, \<open>IdctHigh\<close> (the 32
    routines of \<open>jidctint.c\<close>, each an interpretation of \<open>idct_pair\<close>), \<open>IdctManager\<close> (\<open>jddctmgr.c\<close>).
  \<^item> \<open>FdctBase\<close> (locale \<open>fdct_pass\<close>), \<open>FdctAccuracy\<close> (locale \<open>fdct_pair\<close>), \<open>FdctKernels\<close> (the matrices),
    \<open>FdctSmall\<close>, \<open>FdctLarge\<close>, \<open>FdctLarger\<close>, \<open>FdctWide\<close>, \<open>FdctHigh\<close> (the 32 routines of
    \<open>jfdctint.c\<close>; interpretations of \<open>fdct_pair\<close> for all that take rows neither of 12 nor of 14
    samples), \<open>FdctRows\<close> (what those rows become), \<open>FdctFast\<close> (\<open>jfdctfst.c\<close>), \<open>FdctManager\<close>
    (\<open>jcdctmgr.c\<close>: routines, divisors, quantisation).
  \<^item> \<open>Transforms\<close> (the transformations of coefficient arrays of \<open>transupp.c\<close>), \<open>TransformCopies\<close>
    and \<open>TransformCrops\<close> (which block they put where), \<open>TransformPictures\<close>
    (\<open>jtransform_execute_transform\<close> and the pictures of the arrays).
  \<^item> \<open>JpegGeometry\<close> (sizes of images, components, blocks and MCUs on both sides: \<open>jdinput.c\<close>,
    \<open>jpeg_calc_output_dimensions\<close> of \<open>jdmaster.c\<close>, \<open>initial_setup\<close> and \<open>per_scan_setup\<close> of
    \<open>jcmaster.c\<close>), \<open>JpegParams\<close> (\<open>jcparam.c\<close>, the parameter calls of \<open>jcapimin.c\<close>, checking and
    shortening of scan scripts in \<open>jcmaster.c\<close>), \<open>JpegPasses\<close> (the sequence of passes of \<open>jcmaster.c\<close>,
    the calls it makes to other modules kept as a log).

  \<^bold>\<open>What the lemmas show.\<close>
  \<^item> Protocol: \<open>receive\<close> refines the list of messages however reads cut the payloads; it keeps the
    connection well-formed on any input; exactly when a name overruns its array; what a split
    header or focus request does.
  \<^item> Server: in every reachable state table, descriptor set and count agree; only the focused
    client draws; the focus goes to the first remaining client if its writes make progress, and
    stays where it was if they fail; the user list decodes to the other clients while it is
    shorter than \<open>2 ^ 31\<close> bytes; what the race after a drop and short writes do.
  \<^item> Framebuffer and bitmaps: exactly the intended pixels are written; when the mapping is too
    small; when the copier returns the file unchanged.
  \<^item> Markers: what \<open>write_tables_only\<close> writes \<open>read_markers\<close> reads back; the reader stops on any
    input; sources and destinations are transparent byte lists.
  \<^item> Huffman coding: the derived codes are prefix-free and fit; the lookahead decoder equals the
    bit-by-bit one for every valid table; decoding a scan the encoder wrote gives its blocks
    back, with restart markers, byte stuffing and prefetching.  The interface between the two
    sides is a list of code words: the encoder appends their bits to what it has written
    (\<open>wrote\<close>), the decoder reads them off the bits still to come (\<open>avail\<close>).
  \<^item> Colour conversion: converting and converting back changes no sample, or each by at most one
    where the way leads through YCbCr; the tables are within 0.506 of the defining equations.
  \<^item> Set-up: both sides lay out a scan in the same MCUs of the same blocks; the progressive script
    the library makes sends every bit of every coefficient; the compressor's passes end and call
    the modules in order, the headers once each.
  \<^item> Inverse DCT: every pass is a product with an integer matrix, shifted and rounded, as long as
    no sum exceeds 32 bits; every matrix entry is within two units of \<open>2 ^ - 13\<close> of its cosine; so
    each sample of a block is within 0.7 plus a ten-thousandth of the coefficients' absolute sum
    (at most 16000) of the exact transform, and only the block's samples are written.  This holds
    as long as the exact value is within 509 of 0; the limiting table is indexed modulo 1024, so
    a value within 509 of \<open>1024 * k\<close> comes out as its distance from there.
  \<^item> Forward DCT: in the same way every coefficient is within one unit of the exact transform and
    half a quantisation step, except where the 12- and 14-point row passes drop a term.
  \<^item> Lossless transforms: rearranging blocks and changing signs inside them mirrors, rotates or
    transposes the decoded picture exactly, for every block size.

  \<^bold>\<open>Bounds and fuel.\<close>  Loops of the source are structural recursion or \<open>function\<close>s with a
  measure: the receive loop on the bytes left, the marker loop on the input, the bit-buffer loop
  on the bits missing, the code loops on the code length (a read of \<open>maxcode\<close> behind its 18
  entries is a fault and does not happen for a derived table).  The compressor's passes are a
  \<open>partial_function\<close> whose return is proved.  Only the send loop of the focus thread takes fuel, a
  number of writes: 12 are enough for its 12 bytes when each write takes at least one, and a
  socket that fails leads out of the buffer after the first write.

  \<^bold>\<open>Conventions.\<close>  An access outside an array is the value \<open>None\<close> or the error \<open>FAULT\<close>;
  \<open>ERREXIT\<close>, which does not return, is the left of a sum.  Warnings, traces and printed text are
  left out unless a property is about them.  Answers of system calls the programs look at are
  inputs, \<open>write\<close> and \<open>recvfrom\<close> with any number; so are the initial contents of local variables
  that may be used before they are set.  Sizes the server and the converter compute in C ints are
  bounded here: a sum of ints that overflows is a fault (\<open>add_int\<close>), sums the code converts
  wrap (\<open>add_sizeof\<close>, \<open>row_size\<close>, the offset of \<open>decode_row\<close>), and the properties name the bound under
  which neither happens.  In the library signed shifts and sums that overflow wrap, as on the compilers the programs are built with.  The data sources of the program never suspend, so the
  suspension returns of the library are not modelled.

  \<^bold>\<open>Not modelled.\<close>
  \<^item> Of \<open>jpeg-9a/\<close>: the floating-point transforms (\<open>jfdctflt\<close>, \<open>jidctflt\<close>) and the fast inverse one
    (\<open>jidctfst\<close>), sampling, colour quantisation (\<open>jquant*\<close>), arithmetic coding
    (\<open>jcarith\<close>, \<open>jdarith\<close>, \<open>jaricom\<close>), progressive Huffman coding and optimised tables, the buffer controllers,
    module selection and entry points (\<open>jc*\<close>, \<open>jd*\<close> not named above), memory management (\<open>jmem*\<close>), the
    set-up of lossless transforms, error texts, and the command-line programs with their file formats
    (\<open>cjpeg\<close>, \<open>djpeg\<close>, \<open>jpegtran\<close>, \<open>rdjpgcom\<close>, \<open>wrjpgcom\<close>, \<open>rd*\<close>, \<open>wr*\<close>).
  \<^item> \<open>client.c\<close> and \<open>fb/read_bitmap.c\<close> do not compile; \<open>trunk.cpp\<close> and \<open>server/trunk.cpp\<close> are
    fragments; \<open>jpeg_test.cpp\<close>, \<open>udp_client.c\<close> and \<open>sock_broadcast.c\<close> are straight lines of
    library and socket calls; \<open>select_server_udp.c\<close> exits on its first round, whatever \<open>select\<close>
    answers; \<open>server/Bitmap.cpp\<close> is unused; \<open>gcc_*.h\<close> is generated.
\<close>

end
